(* ===== verification/Prelude.thy ===== *)
theory Prelude
  imports Complex_Main "HOL-Library.AList"
begin

text \<open>
  Vocabulary shared by every component: interpolated Python strings, dictionaries that keep
  insertion order, tables of rows addressed by a key, and the collections of simplification
  rules the components feed.

  Conventions of the whole development.
  \<^item> A Python float is a \<^typ>\<open>real\<close>: rounding, infinities and NaN are not modelled; each place
    where the code divides guards the divisor explicitly, as the source does.
  \<^item> A Python int is an \<^typ>\<open>int\<close> (unbounded in both); a count or a surrogate key is a \<^typ>\<open>nat\<close>.
  \<^item> A dict is an association list in insertion order, updated by \<^const>\<open>AList.update\<close>, which
    replaces in place and appends a new key at the end, as CPython does.
  \<^item> An f-string is the list of its fragments, so that a message keeps every interpolated
    value and its format specification without modelling float printing.
\<close>

named_theorems table_simps "lookups and updates of row tables"
named_theorems step_defs "definitions unfolded to step an operation of a component"

section \<open>Interpolated strings\<close>

datatype frag = Lit string | Num int | Flt string real | Sym string

type_synonym message = "frag list"

section \<open>Dictionaries\<close>

type_synonym ('k, 'v) dict = "('k \<times> 'v) list"

abbreviation dict_get :: "('k, 'v) dict \<Rightarrow> 'k \<Rightarrow> 'v option" where
  "dict_get d k \<equiv> map_of d k"

abbreviation dict_set :: "'k \<Rightarrow> 'v \<Rightarrow> ('k, 'v) dict \<Rightarrow> ('k, 'v) dict" where
  "dict_set \<equiv> AList.update"

definition dict_get_default :: "('k, 'v) dict \<Rightarrow> 'k \<Rightarrow> 'v \<Rightarrow> 'v" where
  "dict_get_default d k v = (case map_of d k of Some w \<Rightarrow> w | None \<Rightarrow> v)"

lemma dict_get_set [simp]:
  "dict_get (dict_set k v d) k' = (if k' = k then Some v else dict_get d k')"
  by (simp add: update_conv)

lemma dict_keys_set [simp]: "fst ` set (dict_set k v d) = insert k (fst ` set d)"
  by (simp add: dom_update)

lemma dict_get_default_set [simp]:
  "dict_get_default (dict_set k v d) k' w = (if k' = k then v else dict_get_default d k' w)"
  by (simp add: dict_get_default_def)

lemma dict_distinct_set [intro, simp]:
  "distinct (map fst d) \<Longrightarrow> distinct (map fst (dict_set k v d))"
  by (rule distinct_update)

section \<open>Row tables\<close>

text \<open>A table is the list of its rows in insertion order. A conditional UPDATE rewrites every
  matching row, a SELECT by primary key finds the first.\<close>

definition row_by :: "('r \<Rightarrow> 'k) \<Rightarrow> 'k \<Rightarrow> 'r list \<Rightarrow> 'r option" where
  "row_by key k rows = List.find (\<lambda>r. key r = k) rows"

definition update_where :: "('r \<Rightarrow> bool) \<Rightarrow> ('r \<Rightarrow> 'r) \<Rightarrow> 'r list \<Rightarrow> 'r list" where
  "update_where P f rows = map (\<lambda>r. if P r then f r else r) rows"

fun update_first :: "('r \<Rightarrow> bool) \<Rightarrow> ('r \<Rightarrow> 'r) \<Rightarrow> 'r list \<Rightarrow> 'r list" where
  "update_first P f [] = []"
| "update_first P f (r # rows) = (if P r then f r # rows else r # update_first P f rows)"

lemma row_by_Nil [simp]: "row_by key k [] = None"
  by (simp add: row_by_def)

lemma row_by_Cons [simp]:
  "row_by key k (r # rows) = (if key r = k then Some r else row_by key k rows)"
  by (simp add: row_by_def)

lemma update_where_Nil [simp]: "update_where P f [] = []"
  by (simp add: update_where_def)

lemma update_where_Cons [simp]:
  "update_where P f (r # rows) = (if P r then f r else r) # update_where P f rows"
  by (simp add: update_where_def)

lemma row_by_append [simp]:
  "row_by key k (xs @ ys) = (case row_by key k xs of Some r \<Rightarrow> Some r | None \<Rightarrow> row_by key k ys)"
  by (induction xs) auto

lemma row_by_SomeD: "row_by key k rows = Some r \<Longrightarrow> r \<in> set rows \<and> key r = k"
  by (induction rows) (auto split: if_splits)

lemma row_by_None_iff: "row_by key k rows = None \<longleftrightarrow> k \<notin> key ` set rows"
  by (induction rows) auto

lemma row_by_distinct:
  "distinct (map key rows) \<Longrightarrow> r \<in> set rows \<Longrightarrow> row_by key (key r) rows = Some r"
  by (induction rows) auto

lemma row_by_update_where [table_simps]:
  assumes "\<And>r. key (f r) = key r"
  shows "row_by key k (update_where P f rows)
    = map_option (\<lambda>r. if P r then f r else r) (row_by key k rows)"
  by (induction rows) (auto simp: assms)

lemma map_update_where [table_simps]:
  assumes "\<And>r. g (f r) = g r"
  shows "map g (update_where P f rows) = map g rows"
  by (induction rows) (auto simp: assms)

lemma set_update_where [table_simps]:
  "set (update_where P f rows) = (\<lambda>r. if P r then f r else r) ` set rows"
  by (simp add: update_where_def)

lemma length_update_where [simp]: "length (update_where P f rows) = length rows"
  by (simp add: update_where_def)

lemma update_where_id: "(\<And>r. r \<in> set rows \<Longrightarrow> \<not> P r) \<Longrightarrow> update_where P f rows = rows"
  by (induction rows) auto

lemma map_update_first [table_simps]:
  assumes "\<And>r. P r \<Longrightarrow> g (f r) = g r"
  shows "map g (update_first P f rows) = map g rows"
  by (induction rows) (auto simp: assms)

lemma update_first_overwrite:
  "P v \<Longrightarrow> update_first P (\<lambda>_. v) (update_first P (\<lambda>_. v) rows) = update_first P (\<lambda>_. v) rows"
  by (induction rows) auto

lemma row_by_update_first:
  assumes "key v = k"
  shows "row_by key k' (update_first (\<lambda>r. key r = k) (\<lambda>_. v) rows)
    = (if k' = k then map_option (\<lambda>_. v) (row_by key k rows) else row_by key k' rows)"
  using assms by (induction rows) auto

section \<open>Sums and folds\<close>

lemma foldl_invariant:
  assumes "P s" and "\<And>s x. x \<in> set xs \<Longrightarrow> P s \<Longrightarrow> P (f s x)"
  shows "P (foldl f s xs)"
  using assms by (induction xs arbitrary: s) auto

lemma sum_list_nonneg_real: "(\<And>x. x \<in> set xs \<Longrightarrow> 0 \<le> f x) \<Longrightarrow> (0::real) \<le> sum_list (map f xs)"
  by (induction xs) auto

lemma member_sum_list_real:
  "(\<And>y. y \<in> set xs \<Longrightarrow> (0::real) \<le> f y) \<Longrightarrow> x \<in> set xs \<Longrightarrow> f x \<le> sum_list (map f xs)"
proof (induction xs)
  case (Cons a xs)
  then have "0 \<le> sum_list (map f xs)" by (intro sum_list_nonneg_real) simp
  moreover have "0 \<le> f a" using Cons.prems by simp
  ultimately show ?case using Cons by (cases "x = a") fastforce+
qed simp

end
