(* ===== verification/PyText.thy ===== *)
theory PyText
  imports Prelude
begin

text \<open>
  What the program uses of Python's text library: decimal integers, \<open>str(uuid)\<close>,
  \<open>datetime.isoformat\<close> on naive UTC values, and \<open>json.dumps(..., sort_keys=True)\<close>. A timestamp is
  the number of microseconds since the Unix epoch; a UUID is a natural number below two to the
  power of 128. The shortest decimal form of a float is the parameter \<open>flt\<close> of the printer.
\<close>

section \<open>Numbers\<close>

definition digit :: "nat \<Rightarrow> char" where
  "digit d = (if d < 10 then char_of (48 + d) else char_of (87 + d))"

fun show_base :: "nat \<Rightarrow> nat \<Rightarrow> string" where
  "show_base b n = (if b < 2 \<or> n < b then [digit n] else show_base b (n div b) @ [digit (n mod b)])"

declare show_base.simps [simp del]

definition show_nat :: "nat \<Rightarrow> string" where
  "show_nat n = show_base 10 n"

definition show_int :: "int \<Rightarrow> string" where
  "show_int i = (if i < 0 then ''-'' @ show_nat (nat (- i)) else show_nat (nat i))"

definition pad_left :: "nat \<Rightarrow> string \<Rightarrow> string" where
  "pad_left w s = replicate (w - length s) (CHR ''0'') @ s"

definition show_pad :: "nat \<Rightarrow> nat \<Rightarrow> string" where
  "show_pad w n = pad_left w (show_nat n)"

section \<open>UUIDs\<close>

definition uuid_str :: "nat \<Rightarrow> string" where
  "uuid_str n =
    (let h = pad_left 32 (show_base 16 n) in
     take 8 h @ ''-'' @ take 4 (drop 8 h) @ ''-'' @ take 4 (drop 12 h) @ ''-''
       @ take 4 (drop 16 h) @ ''-'' @ drop 20 h)"

section \<open>Timestamps\<close>

definition us_per_day :: int where
  "us_per_day = 86400000000"

definition date_of :: "int \<Rightarrow> int" where
  "date_of t = t div us_per_day"

text \<open>The proleptic Gregorian date of a day number counted from 1970-01-01, by eras of 400
  years.\<close>
definition civil_of_days :: "int \<Rightarrow> int \<times> int \<times> int" where
  "civil_of_days d =
    (let z = d + 719468;
         era = z div 146097;
         doe = z mod 146097;
         yoe = (doe - doe div 1460 + doe div 36524 - doe div 146096) div 365;
         doy = doe - (365 * yoe + yoe div 4 - yoe div 100);
         mp = (5 * doy + 2) div 153;
         day = doy - (153 * mp + 2) div 5 + 1;
         month = (if mp < 10 then mp + 3 else mp - 9);
         year = yoe + era * 400 + (if month \<le> 2 then 1 else 0)
     in (year, month, day))"

definition iso_date :: "int \<Rightarrow> string" where
  "iso_date d =
    (case civil_of_days d of (y, m, dd) \<Rightarrow>
       show_pad 4 (nat y) @ ''-'' @ show_pad 2 (nat m) @ ''-'' @ show_pad 2 (nat dd))"

definition isoformat :: "int \<Rightarrow> string" where
  "isoformat t =
    (let us = t mod us_per_day; s = us div 1000000; frac = us mod 1000000 in
     iso_date (date_of t) @ ''T'' @ show_pad 2 (nat (s div 3600)) @ '':''
       @ show_pad 2 (nat (s div 60 mod 60)) @ '':'' @ show_pad 2 (nat (s mod 60))
       @ (if frac = 0 then '''' else ''.'' @ show_pad 6 (nat frac)))"

section \<open>JSON\<close>

datatype json =
    JNull
  | JBool bool
  | JInt int
  | JFloat real
  | JStr string
  | JArr "json list"
  | JObj "(string \<times> json) list"

definition json_get :: "json \<Rightarrow> string \<Rightarrow> json option" where
  "json_get j k = (case j of JObj fs \<Rightarrow> map_of fs k | _ \<Rightarrow> None)"

definition opt_json :: "('a \<Rightarrow> json) \<Rightarrow> 'a option \<Rightarrow> json" where
  "opt_json f x = (case x of None \<Rightarrow> JNull | Some v \<Rightarrow> f v)"

abbreviation JUuid :: "nat \<Rightarrow> json" where
  "JUuid i \<equiv> JStr (uuid_str i)"

text \<open>String escapes of the ASCII-only encoder; characters are Latin-1 code points.\<close>
definition json_char :: "char \<Rightarrow> string" where
  "json_char c =
    (let n = of_char c :: nat in
     if c = CHR 0x22 then [CHR 0x5C, CHR 0x22]
     else if c = CHR 0x5C then [CHR 0x5C, CHR 0x5C]
     else if n = 10 then [CHR 0x5C, CHR ''n'']
     else if n = 13 then [CHR 0x5C, CHR ''r'']
     else if n = 9 then [CHR 0x5C, CHR ''t'']
     else if n = 8 then [CHR 0x5C, CHR ''b'']
     else if n = 12 then [CHR 0x5C, CHR ''f'']
     else if n < 32 \<or> n > 126 then [CHR 0x5C, CHR ''u''] @ pad_left 4 (show_base 16 n)
     else [c])"

definition json_string :: "string \<Rightarrow> string" where
  "json_string s = [CHR 0x22] @ concat (map json_char s) @ [CHR 0x22]"

definition join :: "string \<Rightarrow> string list \<Rightarrow> string" where
  "join sep ss = (case ss of [] \<Rightarrow> [] | s # rest \<Rightarrow> s @ concat (map (\<lambda>x. sep @ x) rest))"

fun string_less :: "string \<Rightarrow> string \<Rightarrow> bool" where
  "string_less [] [] = False"
| "string_less [] (b # bs) = True"
| "string_less (a # as) [] = False"
| "string_less (a # as) (b # bs) =
    ((of_char a :: nat) < of_char b \<or> (a = b \<and> string_less as bs))"

fun insert_key :: "string \<times> 'a \<Rightarrow> (string \<times> 'a) list \<Rightarrow> (string \<times> 'a) list" where
  "insert_key x [] = [x]"
| "insert_key x (y # ys) = (if string_less (fst y) (fst x) then y # insert_key x ys else x # y # ys)"

definition sort_keys :: "(string \<times> 'a) list \<Rightarrow> (string \<times> 'a) list" where
  "sort_keys fs = foldr insert_key fs []"

fun json_dumps :: "(real \<Rightarrow> string) \<Rightarrow> json \<Rightarrow> string" where
  "json_dumps flt JNull = ''null''"
| "json_dumps flt (JBool b) = (if b then ''true'' else ''false'')"
| "json_dumps flt (JInt i) = show_int i"
| "json_dumps flt (JFloat x) = flt x"
| "json_dumps flt (JStr s) = json_string s"
| "json_dumps flt (JArr js) = ''['' @ join '', '' (map (json_dumps flt) js) @ '']''"
| "json_dumps flt (JObj fs) =
    ''{'' @ join '', '' (map (\<lambda>p. json_string (fst p) @ '': '' @ snd p)
       (sort_keys (map (\<lambda>p. (fst p, json_dumps flt (snd p))) fs))) @ ''}''"

lemma string_less_irrefl [simp]: "\<not> string_less s s"
  by (induction s) auto

lemma sort_keys_set: "set (sort_keys fs) = set fs"
proof -
  have "set (insert_key x ys) = insert x (set ys)" for x :: "string \<times> 'a" and ys
    by (induction x ys rule: insert_key.induct) auto
  then show ?thesis by (induction fs) (auto simp: sort_keys_def)
qed

text \<open>Upper-casing and dot replacement, as the audit action names use them.\<close>
definition upper_char :: "char \<Rightarrow> char" where
  "upper_char c = (let n = of_char c :: nat in if 97 \<le> n \<and> n \<le> 122 then char_of (n - 32) else c)"

definition upper :: "string \<Rightarrow> string" where
  "upper s = map upper_char s"

definition replace_char :: "char \<Rightarrow> char \<Rightarrow> string \<Rightarrow> string" where
  "replace_char a b s = map (\<lambda>c. if c = a then b else c) s"

definition startswith :: "string \<Rightarrow> string list \<Rightarrow> bool" where
  "startswith s ps = list_ex (\<lambda>p. take (length p) s = p) ps"

definition is_space :: "char \<Rightarrow> bool" where
  "is_space c = (let n = of_char c :: nat in n = 32 \<or> (9 \<le> n \<and> n \<le> 13) \<or> (28 \<le> n \<and> n \<le> 31)
     \<or> n = 133 \<or> n = 160)"

definition strip :: "string \<Rightarrow> string" where
  "strip s = rev (dropWhile is_space (rev (dropWhile is_space s)))"

end
