(* ===== verification/Brokers.thy ===== *)
theory Brokers
  imports Prelude
begin

text \<open>
  The vocabulary every broker adapter shares (\<open>src/brokers/base.py\<close>): order requests and
  responses, positions, Level-2 quotes, and the adapter interface itself. An adapter is code
  behind a network, so it is a record of functions and every theorem quantifies over it; an
  HTTP failure is a value of \<open>broker_error\<close>.
\<close>

type_synonym timestamp = int

datatype side = BUY | SELL

datatype order_type = MARKET | LIMIT | SL | SL_M

datatype order_status = OS_PENDING | OS_OPEN | OS_PARTIALLY_FILLED | OS_FILLED | OS_CANCELLED | OS_REJECTED

datatype product_type = INTRADAY | DELIVERY

datatype validity = DAY | IOC

datatype option_type = CE | PE

record order_request =
  oq_symbol :: string
  oq_side :: side
  oq_order_type :: order_type
  oq_quantity :: int
  oq_product :: product_type
  oq_limit_price :: "real option"
  oq_trigger_price :: "real option"
  oq_validity :: validity
  oq_tag :: "string option"

text \<open>The pydantic constraints of the request: a strictly positive quantity, a tag of at most
  forty characters.\<close>
definition order_request_valid :: "order_request \<Rightarrow> bool" where
  "order_request_valid q \<longleftrightarrow> oq_quantity q > 0 \<and>
     (case oq_tag q of None \<Rightarrow> True | Some t \<Rightarrow> length t \<le> 40)"

record order_response =
  or_broker_order_id :: string
  or_status :: order_status
  or_symbol :: string
  or_side :: side
  or_order_type :: order_type
  or_quantity :: int
  or_filled_quantity :: int
  or_average_price :: "real option"
  or_limit_price :: "real option"
  or_rejection_reason :: "string option"

record broker_position =
  bp_symbol :: string
  bp_net_quantity :: int
  bp_average_price :: "real option"
  bp_last_price :: "real option"
  bp_unrealized_pnl :: real
  bp_realized_pnl :: real

record margin =
  mg_available_margin :: real
  mg_used_margin :: real

record depth_level =
  dl_price :: real
  dl_quantity :: int
  dl_orders :: int

record quote =
  qt_symbol :: string
  qt_last_price :: real
  qt_buy_depth :: "depth_level list"
  qt_sell_depth :: "depth_level list"

text \<open>What an adapter call can fail with: a connection or timeout failure before any status, an
  HTTP status, a broker-side business error, or a call that needs an access token before one
  was obtained.\<close>
datatype broker_error =
    ConnectError string
  | TimeoutException string
  | HTTPStatusError nat string
  | BrokerFault string

definition opposite_side :: "int \<Rightarrow> side" where
  "opposite_side net = (if net > 0 then SELL else BUY)"

definition signed_quantity :: "side \<Rightarrow> int \<Rightarrow> int" where
  "signed_quantity s q = (if s = BUY then q else - q)"

lemma signed_quantity_simps [simp]:
  "signed_quantity BUY q = q" "signed_quantity SELL q = - q" "\<bar>signed_quantity s q\<bar> = \<bar>q\<bar>"
  by (simp_all add: signed_quantity_def)

lemma flatten_sums_to_zero:
  "net \<noteq> 0 \<Longrightarrow> net + signed_quantity (opposite_side net) \<bar>net\<bar> = 0"
  by (auto simp: opposite_side_def)

end
