(* ===== verification/Models.thy ===== *)
theory Models
  imports PyText Brokers
begin

text \<open>
  The persistent state of the organisation layer and of live trading: the status enumerations of
  \<open>src/orchestration/enums.py\<close>, one record per table of \<open>src/models/orchestration.py\<close>,
  \<open>approval.py\<close>, \<open>audit.py\<close>, \<open>trading.py\<close>, \<open>agent.py\<close>, \<open>dataset_freshness.py\<close>, and the database
  that holds them. A UUID primary key is a natural number; \<open>db_next_id\<close> stands for \<open>uuid4()\<close> and
  never repeats. Columns no modelled operation reads or writes are left out of a record.
\<close>

section \<open>Enumerations\<close>

datatype run_status = RUN_QUEUED | RUN_PLANNING | RUN_RUNNING | RUN_WAITING | RUN_PAUSED
  | RUN_STALLED | RUN_COMPLETED | RUN_FAILED | RUN_CANNOT_PLAN | RUN_CANCELLED

datatype task_status = TASK_CREATED | TASK_PLANNED | TASK_QUEUED | TASK_READY | TASK_RUNNING
  | TASK_WAITING_FOR_DEPENDENCY | TASK_BLOCKED | TASK_COMPLETED | TASK_FAILED | TASK_RETRYING
  | TASK_ESCALATED | TASK_CANCELLED

datatype approval_status = APPR_PENDING | APPR_APPROVED | APPR_REJECTED

datatype dependency_state = DEP_UNSATISFIED | DEP_SATISFIED | DEP_FAILED

datatype dependency_policy = POL_ALL | POL_ANY | POL_BEST_EFFORT

datatype edge_policy = Hard | Soft

datatype artefact_disposition = DISP_CONSUMED | DISP_INFORMATIONAL

datatype artefact_coverage = COV_FULL | COV_REDUCED

datatype run_source = SRC_WEB | SRC_SCHEDULE | SRC_TELEGRAM | SRC_DISCORD | SRC_SLACK | SRC_API

datatype decision_type = DEC_PROCEED | DEC_REQUEST_REVIEW | DEC_RESOLVE_CONFLICT
  | DEC_CHOOSE_FALLBACK | DEC_REASSIGN | DEC_ESCALATE_HUMAN | DEC_CANNOT_PLAN | DEC_RE_PLAN

datatype freshness_status = DS_FRESH | DS_STALE | DS_UNAVAILABLE | DS_FAILED

fun source_value :: "run_source \<Rightarrow> string" where
  "source_value SRC_WEB = ''web''"
| "source_value SRC_SCHEDULE = ''schedule''"
| "source_value SRC_TELEGRAM = ''telegram''"
| "source_value SRC_DISCORD = ''discord''"
| "source_value SRC_SLACK = ''slack''"
| "source_value SRC_API = ''api''"

fun decision_value :: "decision_type \<Rightarrow> string" where
  "decision_value DEC_PROCEED = ''proceed''"
| "decision_value DEC_REQUEST_REVIEW = ''request_review''"
| "decision_value DEC_RESOLVE_CONFLICT = ''resolve_conflict''"
| "decision_value DEC_CHOOSE_FALLBACK = ''choose_fallback''"
| "decision_value DEC_REASSIGN = ''reassign''"
| "decision_value DEC_ESCALATE_HUMAN = ''escalate_human''"
| "decision_value DEC_CANNOT_PLAN = ''cannot_plan''"
| "decision_value DEC_RE_PLAN = ''re_plan''"

section \<open>Organisation tables\<close>

record organization_run =
  run_id :: nat
  run_tenant_id :: nat
  run_objective :: string
  run_source_of :: run_source
  run_requested_by :: "string option"
  run_status_of :: run_status
  run_queue_position :: "nat option"
  run_plan_id :: "nat option"
  run_thread_id :: string
  run_result_summary :: "json option"
  run_started_at :: "timestamp option"
  run_ended_at :: "timestamp option"
  run_created_at :: timestamp
  run_updated_at :: timestamp

record organizational_plan =
  plan_id :: nat
  plan_run_id :: nat
  plan_objective_classification :: string
  plan_departments :: "string list"
  plan_safety_chain :: "string list"
  plan_approval_required :: bool
  plan_created_at :: timestamp

record task =
  task_id :: nat
  task_plan_id :: nat
  task_run_id :: nat
  task_tenant_id :: nat
  task_objective :: string
  task_assigned_agent :: string
  task_assigned_by :: string
  task_capability :: string
  task_priority :: int
  task_dependency_policy :: dependency_policy
  task_required_inputs :: "string list"
  task_received_inputs :: "(nat \<times> string) list"
  task_required_datasets :: "string list"
  task_expected_output :: string
  task_result_artefact_id :: "nat option"
  task_status_of :: task_status
  task_is_concurrency_safe :: bool
  task_retry_count :: nat
  task_max_retries :: nat
  task_timeout_seconds :: int
  task_blocked_reason :: "string option"
  task_failure_reason :: "string option"
  task_correlation_id :: string
  task_audit_reference :: "nat option"
  task_created_at :: timestamp
  task_started_at :: "timestamp option"
  task_completed_at :: "timestamp option"
  task_ran_concurrently :: bool
  task_dependency_wait_seconds :: int

record task_dependency =
  dep_id :: nat
  dep_plan_id :: nat
  dep_dependent_task_id :: nat
  dep_prerequisite_task_id :: nat
  dep_required_artefact_type :: string
  dep_policy :: edge_policy
  dep_state_of :: dependency_state
  dep_satisfied_at :: "timestamp option"
  dep_created_at :: timestamp

record result_artefact =
  art_id :: nat
  art_run_id :: nat
  art_task_id :: nat
  art_type :: string
  art_version :: nat
  art_payload :: json
  art_provenance :: json
  art_disposition :: "artefact_disposition option"
  art_consumed_by_task_ids :: "nat list"
  art_coverage :: "artefact_coverage option"
  art_audit_reference :: "nat option"
  art_created_at :: timestamp

record organizational_decision =
  od_id :: nat
  od_run_id :: nat
  od_decision_type :: decision_type
  od_summary :: string
  od_reason :: string
  od_supporting_input_artefact_ids :: "string list"
  od_supporting_agents :: "string list"
  od_next_step :: "string option"
  od_escalated_to_role :: "string option"
  od_resolved_by :: "string option"
  od_audit_reference :: "nat option"
  od_created_at :: timestamp

record organizational_event =
  ev_run_id :: nat
  ev_sequence :: nat
  ev_event_type :: string
  ev_subject_type :: string
  ev_subject_id :: "nat option"
  ev_payload :: json
  ev_occurred_at :: timestamp

record approval_request =
  apr_id :: nat
  apr_run_id :: "nat option"
  apr_strategy_id :: nat
  apr_strategy_version_id :: "nat option"
  apr_recommendation_artefact_id :: "nat option"
  apr_status :: approval_status
  apr_decided_by :: "string option"
  apr_decided_at :: "timestamp option"
  apr_reason :: "string option"
  apr_audit_reference :: "nat option"
  apr_created_at :: timestamp

record strategy =
  str_id :: nat
  str_current_version_id :: "nat option"
  str_name :: string
  str_status :: string

record dataset_freshness =
  dfr_dataset_name :: string
  dfr_cadence :: string
  dfr_freshness_rule :: string
  dfr_status :: freshness_status
  dfr_last_successful_update :: "timestamp option"
  dfr_last_checksum_ok :: "bool option"
  dfr_retry_state :: "(nat \<times> string) option"
  dfr_updated_at :: timestamp

section \<open>Audit, agents, trading\<close>

datatype actor_type = Human | AI_Agent | System

record audit_content =
  al_actor_type :: actor_type
  al_actor_id :: string
  al_action :: string
  al_entity_type :: string
  al_entity_id :: "nat option"
  al_before_state :: "json option"
  al_after_state :: "json option"
  al_prompt_snapshot :: "string option"
  al_ip_address :: "string option"
  al_created_at :: timestamp

record audit_log = audit_content +
  al_id :: nat
  al_entry_hash :: string
  al_prev_entry_hash :: string

record agent_control_state =
  acs_agent_name :: string
  acs_enabled :: bool
  acs_reason :: "string option"
  acs_updated_by_user_id :: "nat option"
  acs_updated_at :: timestamp

record agent_run =
  ar_agent_name :: string
  ar_status :: string
  ar_started_at :: timestamp

record order_row =
  ord_id :: nat
  ord_account_id :: nat
  ord_strategy_id :: nat
  ord_broker_order_id :: "string option"
  ord_symbol :: string
  ord_side :: side
  ord_order_type :: order_type
  ord_quantity :: int
  ord_limit_price :: "real option"
  ord_status :: order_status
  ord_requested_at :: timestamp
  ord_acknowledged_at :: "timestamp option"
  ord_latency_ms :: "int option"
  ord_rejection_reason :: "string option"

record portfolio_position =
  pos_account_id :: nat
  pos_strategy_id :: nat
  pos_symbol :: string
  pos_net_quantity :: int
  pos_avg_price :: "real option"
  pos_unrealized_pnl :: real
  pos_realized_pnl :: real

section \<open>The database and the environment\<close>

record db =
  db_runs :: "organization_run list"
  db_plans :: "organizational_plan list"
  db_tasks :: "task list"
  db_deps :: "task_dependency list"
  db_artefacts :: "result_artefact list"
  db_decisions :: "organizational_decision list"
  db_events :: "organizational_event list"
  db_approvals :: "approval_request list"
  db_strategies :: "strategy list"
  db_freshness :: "dataset_freshness list"
  db_control :: "agent_control_state list"
  db_agent_runs :: "agent_run list"
  db_orders :: "order_row list"
  db_positions :: "portfolio_position list"
  db_audit :: "audit_log list"
  db_next_id :: nat

text \<open>What an operation reads from outside the database: the clock and the local date, SHA-256 in
  hexadecimal, the decimal forms of a float (\<open>repr\<close> and the format \<open>+.2f\<close>), the iteration order of
  a Python set of artefact types (it depends on the hash seed), the capability handlers (language-model calls and
  feeds, each giving an exception text or an artefact type, a payload and provenance fields), whether
  the dispatch of a task outlasts its timeout, the pydantic validation of an artefact payload, and the organisation settings of
  \<open>src/core/config.py\<close>.\<close>
record env =
  e_now :: timestamp
  e_sha256 :: "string \<Rightarrow> string"
  e_float_repr :: "real \<Rightarrow> string"
  e_fmt_signed2 :: "real \<Rightarrow> string"
  e_proceed_order :: "string list"
  e_today :: int
  e_handler :: "task \<Rightarrow> result_artefact list \<Rightarrow> string + (string \<times> json \<times> json)"
  e_times_out :: "task \<Rightarrow> bool"
  e_validate_payload :: "string \<Rightarrow> json \<Rightarrow> string + json"
  e_org_max_concurrent_runs :: nat
  e_org_run_stall_seconds :: int
  e_org_task_default_timeout_seconds :: int
  e_org_research_task_timeout_seconds :: int

definition empty_db :: db where
  "empty_db = \<lparr>db_runs = [], db_plans = [], db_tasks = [], db_deps = [], db_artefacts = [],
     db_decisions = [], db_events = [], db_approvals = [], db_strategies = [], db_freshness = [],
     db_control = [], db_agent_runs = [], db_orders = [], db_positions = [], db_audit = [], db_next_id = 1\<rparr>"

definition get_run :: "db \<Rightarrow> nat \<Rightarrow> organization_run option" where
  "get_run db i = row_by run_id i (db_runs db)"

definition get_task :: "db \<Rightarrow> nat \<Rightarrow> task option" where
  "get_task db i = row_by task_id i (db_tasks db)"

definition set_run :: "nat \<Rightarrow> (organization_run \<Rightarrow> organization_run) \<Rightarrow> db \<Rightarrow> db" where
  "set_run i f db = db\<lparr>db_runs := update_where (\<lambda>r. run_id r = i) f (db_runs db)\<rparr>"

definition set_task :: "nat \<Rightarrow> (task \<Rightarrow> task) \<Rightarrow> db \<Rightarrow> db" where
  "set_task i f db = db\<lparr>db_tasks := update_where (\<lambda>t. task_id t = i) f (db_tasks db)\<rparr>"

definition set_dep :: "nat \<Rightarrow> (task_dependency \<Rightarrow> task_dependency) \<Rightarrow> db \<Rightarrow> db" where
  "set_dep i f db = db\<lparr>db_deps := update_where (\<lambda>d. dep_id d = i) f (db_deps db)\<rparr>"

definition set_artefact :: "nat \<Rightarrow> (result_artefact \<Rightarrow> result_artefact) \<Rightarrow> db \<Rightarrow> db" where
  "set_artefact i f db = db\<lparr>db_artefacts := update_where (\<lambda>a. art_id a = i) f (db_artefacts db)\<rparr>"

definition set_decision :: "nat \<Rightarrow> (organizational_decision \<Rightarrow> organizational_decision) \<Rightarrow> db \<Rightarrow> db" where
  "set_decision i f db = db\<lparr>db_decisions := update_where (\<lambda>d. od_id d = i) f (db_decisions db)\<rparr>"

definition set_approval :: "nat \<Rightarrow> (approval_request \<Rightarrow> approval_request) \<Rightarrow> db \<Rightarrow> db" where
  "set_approval i f db = db\<lparr>db_approvals := update_where (\<lambda>a. apr_id a = i) f (db_approvals db)\<rparr>"

definition set_strategy :: "nat \<Rightarrow> (strategy \<Rightarrow> strategy) \<Rightarrow> db \<Rightarrow> db" where
  "set_strategy i f db = db\<lparr>db_strategies := update_where (\<lambda>s. str_id s = i) f (db_strategies db)\<rparr>"

lemmas setter_defs = set_run_def set_task_def set_dep_def set_artefact_def set_decision_def
  set_approval_def set_strategy_def

text \<open>A setter touches its own table only.\<close>

lemma set_run_frame [simp]:
  "db_tasks (set_run i f db) = db_tasks db" "db_deps (set_run i f db) = db_deps db"
  "db_plans (set_run i f db) = db_plans db"
  "db_artefacts (set_run i f db) = db_artefacts db" "db_decisions (set_run i f db) = db_decisions db"
  "db_events (set_run i f db) = db_events db" "db_approvals (set_run i f db) = db_approvals db"
  "db_strategies (set_run i f db) = db_strategies db" "db_audit (set_run i f db) = db_audit db"
  "db_control (set_run i f db) = db_control db" "db_freshness (set_run i f db) = db_freshness db"
  "db_next_id (set_run i f db) = db_next_id db"
  by (simp_all add: set_run_def)

lemma set_task_frame [simp]:
  "db_runs (set_task i f db) = db_runs db" "db_deps (set_task i f db) = db_deps db"
  "db_plans (set_task i f db) = db_plans db"
  "db_artefacts (set_task i f db) = db_artefacts db" "db_decisions (set_task i f db) = db_decisions db"
  "db_events (set_task i f db) = db_events db" "db_approvals (set_task i f db) = db_approvals db"
  "db_strategies (set_task i f db) = db_strategies db" "db_audit (set_task i f db) = db_audit db"
  "db_control (set_task i f db) = db_control db" "db_freshness (set_task i f db) = db_freshness db"
  "db_next_id (set_task i f db) = db_next_id db"
  by (simp_all add: set_task_def)

lemma set_dep_frame [simp]:
  "db_runs (set_dep i f db) = db_runs db" "db_tasks (set_dep i f db) = db_tasks db"
  "db_plans (set_dep i f db) = db_plans db"
  "db_artefacts (set_dep i f db) = db_artefacts db" "db_decisions (set_dep i f db) = db_decisions db"
  "db_events (set_dep i f db) = db_events db" "db_approvals (set_dep i f db) = db_approvals db"
  "db_strategies (set_dep i f db) = db_strategies db" "db_audit (set_dep i f db) = db_audit db"
  "db_control (set_dep i f db) = db_control db" "db_freshness (set_dep i f db) = db_freshness db"
  "db_next_id (set_dep i f db) = db_next_id db"
  by (simp_all add: set_dep_def)

lemma set_artefact_frame [simp]:
  "db_runs (set_artefact i f db) = db_runs db" "db_tasks (set_artefact i f db) = db_tasks db"
  "db_plans (set_artefact i f db) = db_plans db"
  "db_deps (set_artefact i f db) = db_deps db" "db_decisions (set_artefact i f db) = db_decisions db"
  "db_events (set_artefact i f db) = db_events db" "db_approvals (set_artefact i f db) = db_approvals db"
  "db_strategies (set_artefact i f db) = db_strategies db" "db_audit (set_artefact i f db) = db_audit db"
  "db_control (set_artefact i f db) = db_control db" "db_freshness (set_artefact i f db) = db_freshness db"
  "db_next_id (set_artefact i f db) = db_next_id db"
  by (simp_all add: set_artefact_def)

lemma set_decision_frame [simp]:
  "db_runs (set_decision i f db) = db_runs db" "db_tasks (set_decision i f db) = db_tasks db"
  "db_plans (set_decision i f db) = db_plans db"
  "db_deps (set_decision i f db) = db_deps db" "db_artefacts (set_decision i f db) = db_artefacts db"
  "db_events (set_decision i f db) = db_events db" "db_approvals (set_decision i f db) = db_approvals db"
  "db_strategies (set_decision i f db) = db_strategies db" "db_audit (set_decision i f db) = db_audit db"
  "db_control (set_decision i f db) = db_control db" "db_freshness (set_decision i f db) = db_freshness db"
  "db_next_id (set_decision i f db) = db_next_id db"
  by (simp_all add: set_decision_def)

lemma set_approval_frame [simp]:
  "db_runs (set_approval i f db) = db_runs db" "db_tasks (set_approval i f db) = db_tasks db"
  "db_plans (set_approval i f db) = db_plans db"
  "db_deps (set_approval i f db) = db_deps db" "db_artefacts (set_approval i f db) = db_artefacts db"
  "db_events (set_approval i f db) = db_events db" "db_decisions (set_approval i f db) = db_decisions db"
  "db_strategies (set_approval i f db) = db_strategies db" "db_audit (set_approval i f db) = db_audit db"
  "db_control (set_approval i f db) = db_control db" "db_freshness (set_approval i f db) = db_freshness db"
  "db_next_id (set_approval i f db) = db_next_id db"
  by (simp_all add: set_approval_def)

lemma set_strategy_frame [simp]:
  "db_runs (set_strategy i f db) = db_runs db" "db_tasks (set_strategy i f db) = db_tasks db"
  "db_plans (set_strategy i f db) = db_plans db"
  "db_deps (set_strategy i f db) = db_deps db" "db_artefacts (set_strategy i f db) = db_artefacts db"
  "db_events (set_strategy i f db) = db_events db" "db_decisions (set_strategy i f db) = db_decisions db"
  "db_approvals (set_strategy i f db) = db_approvals db" "db_audit (set_strategy i f db) = db_audit db"
  "db_control (set_strategy i f db) = db_control db" "db_freshness (set_strategy i f db) = db_freshness db"
  "db_next_id (set_strategy i f db) = db_next_id db"
  by (simp_all add: set_strategy_def)

text \<open>The status classes the code tests.\<close>

definition terminal_run :: "run_status \<Rightarrow> bool" where
  "terminal_run s \<longleftrightarrow> s \<in> {RUN_COMPLETED, RUN_FAILED, RUN_CANNOT_PLAN, RUN_CANCELLED}"

definition active_run :: "run_status \<Rightarrow> bool" where
  "active_run s \<longleftrightarrow> s \<in> {RUN_PLANNING, RUN_RUNNING, RUN_WAITING, RUN_STALLED}"

definition terminal_task :: "task_status \<Rightarrow> bool" where
  "terminal_task s \<longleftrightarrow>
     s \<in> {TASK_COMPLETED, TASK_FAILED, TASK_BLOCKED, TASK_ESCALATED, TASK_CANCELLED}"

definition nonterminal_task :: "task_status \<Rightarrow> bool" where
  "nonterminal_task s \<longleftrightarrow> s \<in> {TASK_CREATED, TASK_PLANNED, TASK_QUEUED, TASK_READY, TASK_RUNNING,
     TASK_WAITING_FOR_DEPENDENCY, TASK_RETRYING}"

lemma task_status_classes: "nonterminal_task s \<longleftrightarrow> \<not> terminal_task s"
  by (cases s) (simp_all add: nonterminal_task_def terminal_task_def)

lemma run_status_classes: "active_run s \<Longrightarrow> \<not> terminal_run s"
  by (cases s) (simp_all add: active_run_def terminal_run_def)

end
