(* ===== verification/AuditChain.thy ===== *)
theory AuditChain
  imports Models "HOL-Library.Sublist"
begin

text \<open>
  The immutable audit log (\<open>src/core/audit.py\<close>): the canonical payload of a row, the SHA-256 hash
  chain, the append operation and the verification walk. SHA-256 is the function \<open>e_sha256\<close> of the
  environment; what the chain relies on of it is stated where it is used.
\<close>

section \<open>The chain\<close>

definition GENESIS_PREV_HASH :: string where
  "GENESIS_PREV_HASH = replicate 64 (CHR ''0'')"

fun actor_type_value :: "actor_type \<Rightarrow> string" where
  "actor_type_value Human = ''Human''"
| "actor_type_value AI_Agent = ''AI Agent''"
| "actor_type_value System = ''System''"

definition canonical_payload :: "(real \<Rightarrow> string) \<Rightarrow> 'a audit_content_scheme \<Rightarrow> string" where
  "canonical_payload flt c = json_dumps flt (JObj
    [(''actor_type'', JStr (actor_type_value (al_actor_type c))),
     (''actor_id'', JStr (al_actor_id c)),
     (''action'', JStr (al_action c)),
     (''entity_type'', JStr (al_entity_type c)),
     (''entity_id'', opt_json JUuid (al_entity_id c)),
     (''before_state'', opt_json id (al_before_state c)),
     (''after_state'', opt_json id (al_after_state c)),
     (''prompt_snapshot'', opt_json JStr (al_prompt_snapshot c)),
     (''ip_address'', opt_json JStr (al_ip_address c)),
     (''created_at'', JStr (isoformat (al_created_at c)))])"

definition recompute_entry_hash ::
  "(string \<Rightarrow> string) \<Rightarrow> (real \<Rightarrow> string) \<Rightarrow> 'a audit_content_scheme \<Rightarrow> string \<Rightarrow> string" where
  "recompute_entry_hash sha flt c prev_hash = sha (canonical_payload flt c @ prev_hash)"

definition audit_by_id :: "audit_log list \<Rightarrow> audit_log list" where
  "audit_by_id rows = sort_key al_id rows"

definition last_hash :: "audit_log list \<Rightarrow> string option" where
  "last_hash rows = (if rows = [] then None else Some (al_entry_hash (last (audit_by_id rows))))"

definition next_audit_id :: "audit_log list \<Rightarrow> nat" where
  "next_audit_id rows = Suc (foldr max (map al_id rows) 0)"

definition audit_entry ::
  "actor_type \<Rightarrow> string \<Rightarrow> string \<Rightarrow> string \<Rightarrow> nat option \<Rightarrow> json option \<Rightarrow> json option \<Rightarrow> audit_content"
where
  "audit_entry atype aid act etype eid bst ast =
    \<lparr>al_actor_type = atype, al_actor_id = aid, al_action = act, al_entity_type = etype,
     al_entity_id = eid, al_before_state = bst, al_after_state = ast,
     al_prompt_snapshot = None, al_ip_address = None, al_created_at = 0\<rparr>"

definition audit_row :: "env \<Rightarrow> audit_content \<Rightarrow> audit_log list \<Rightarrow> audit_log" where
  "audit_row env content rows =
    (let prev_hash = (case last_hash rows of Some h \<Rightarrow> h | None \<Rightarrow> GENESIS_PREV_HASH);
         c = content\<lparr>al_created_at := e_now env\<rparr>;
         entry_hash = recompute_entry_hash (e_sha256 env) (e_float_repr env) c prev_hash
     in audit_content.extend c
          \<lparr>al_id = next_audit_id rows, al_entry_hash = entry_hash, al_prev_entry_hash = prev_hash\<rparr>)"

definition write_audit_entry :: "env \<Rightarrow> audit_content \<Rightarrow> db \<Rightarrow> nat \<times> db" where
  "write_audit_entry env content d =
    (let row = audit_row env content (db_audit d) in
     (al_id row, d\<lparr>db_audit := db_audit d @ [row]\<rparr>))"

record chain_verification_result =
  cvr_valid :: bool
  cvr_first_broken_id :: "nat option"
  cvr_rows_checked :: nat

fun verify_rows ::
  "(string \<Rightarrow> string) \<Rightarrow> (real \<Rightarrow> string) \<Rightarrow> nat \<Rightarrow> string \<Rightarrow> audit_log list \<Rightarrow> chain_verification_result"
where
  "verify_rows sha flt n expected_prev [] =
    \<lparr>cvr_valid = True, cvr_first_broken_id = None, cvr_rows_checked = n\<rparr>"
| "verify_rows sha flt n expected_prev (row # rows) =
    (if al_prev_entry_hash row \<noteq> expected_prev then
       \<lparr>cvr_valid = False, cvr_first_broken_id = Some (al_id row), cvr_rows_checked = n\<rparr>
     else if recompute_entry_hash sha flt row expected_prev \<noteq> al_entry_hash row then
       \<lparr>cvr_valid = False, cvr_first_broken_id = Some (al_id row), cvr_rows_checked = n\<rparr>
     else verify_rows sha flt n (al_entry_hash row) rows)"

definition verify_chain ::
  "(string \<Rightarrow> string) \<Rightarrow> (real \<Rightarrow> string) \<Rightarrow> audit_log list \<Rightarrow> chain_verification_result" where
  "verify_chain sha flt table =
    (let rows = audit_by_id table in verify_rows sha flt (length rows) GENESIS_PREV_HASH rows)"

section \<open>The chain as a relation between consecutive rows\<close>

fun chained :: "(string \<Rightarrow> string) \<Rightarrow> (real \<Rightarrow> string) \<Rightarrow> string \<Rightarrow> audit_log list \<Rightarrow> bool" where
  "chained sha flt prev [] = True"
| "chained sha flt prev (r # rs) \<longleftrightarrow> al_prev_entry_hash r = prev
     \<and> al_entry_hash r = sha (canonical_payload flt r @ prev) \<and> chained sha flt (al_entry_hash r) rs"

definition chain_ok :: "(string \<Rightarrow> string) \<Rightarrow> (real \<Rightarrow> string) \<Rightarrow> audit_log list \<Rightarrow> bool" where
  "chain_ok sha flt table = chained sha flt GENESIS_PREV_HASH (audit_by_id table)"

definition head_hash :: "string \<Rightarrow> audit_log list \<Rightarrow> string" where
  "head_hash prev rs = (if rs = [] then prev else al_entry_hash (last rs))"

lemma head_hash_simps [simp]:
  "head_hash prev [] = prev" "head_hash prev (r # rs) = head_hash (al_entry_hash r) rs"
  "head_hash prev (rs @ [r]) = al_entry_hash r"
  by (simp_all add: head_hash_def)

lemma chained_append:
  "chained sha flt prev (rs @ ss) \<longleftrightarrow> chained sha flt prev rs \<and> chained sha flt (head_hash prev rs) ss"
  by (induction rs arbitrary: prev) auto

lemma verify_rows_valid_iff: "cvr_valid (verify_rows sha flt n prev rs) \<longleftrightarrow> chained sha flt prev rs"
  by (induction rs arbitrary: prev) (auto simp: recompute_entry_hash_def)

lemma verify_rows_checked [simp]: "cvr_rows_checked (verify_rows sha flt n prev rs) = n"
  by (induction rs arbitrary: prev) auto

lemma verify_rows_broken:
  "cvr_first_broken_id (verify_rows sha flt n prev rs) =
    (case List.find (\<lambda>k. \<not> chained sha flt prev (take (Suc k) rs)) [0..<length rs] of
       None \<Rightarrow> None | Some k \<Rightarrow> Some (al_id (rs ! k)))"
proof (induction rs arbitrary: prev)
  case (Cons r rs)
  have up: "[0..<length (r # rs)] = 0 # map Suc [0..<length rs]"
    by (simp add: upt_conv_Cons map_Suc_upt del: upt_Suc)
  have find_map: "List.find P (map Suc xs) = map_option Suc (List.find (\<lambda>k. P (Suc k)) xs)" for P xs
    by (induction xs) auto
  show ?case
  proof (cases "chained sha flt prev [r]")
    case False
    then show ?thesis by (subst up) (auto simp: recompute_entry_hash_def)
  next
    case True
    then show ?thesis
      by (subst up)
        (auto simp: recompute_entry_hash_def find_map Cons.IH split: option.splits)
  qed
qed simp

subsection \<open>Appending\<close>

lemma next_audit_id_greater: "r \<in> set rows \<Longrightarrow> al_id r < next_audit_id rows"
  by (induction rows) (auto simp: next_audit_id_def)

lemma insort_key_snoc: "f a \<le> f x \<Longrightarrow> insort_key f a (ys @ [x]) = insort_key f a ys @ [x]"
  by (induction ys) auto

lemma sort_key_snoc_max:
  "(\<And>y. y \<in> set xs \<Longrightarrow> f y \<le> f x) \<Longrightarrow> sort_key f (xs @ [x]) = sort_key f xs @ [x]"
  by (induction xs) (simp_all add: insort_key_snoc)

lemma audit_row_id [simp]: "al_id (audit_row env c rows) = next_audit_id rows"
  by (simp add: audit_row_def Let_def audit_content.defs)

lemma audit_by_id_snoc [simp]:
  "audit_by_id (rows @ [audit_row env c rows]) = audit_by_id rows @ [audit_row env c rows]"
  unfolding audit_by_id_def
  by (rule sort_key_snoc_max) (simp add: less_imp_le next_audit_id_greater)

lemma audit_by_id_Nil_iff [simp]: "audit_by_id rows = [] \<longleftrightarrow> rows = []"
  by (metis audit_by_id_def length_0_conv length_sort)

lemma audit_by_id_set [simp]: "set (audit_by_id rows) = set rows" "length (audit_by_id rows) = length rows"
  by (simp_all add: audit_by_id_def)

lemma audit_row_prev:
  "al_prev_entry_hash (audit_row env c rows) = head_hash GENESIS_PREV_HASH (audit_by_id rows)"
  by (simp add: audit_row_def Let_def audit_content.defs last_hash_def head_hash_def)

lemma canonical_payload_more [simp]:
  "canonical_payload flt (audit_content.extend c m) = canonical_payload flt c"
  by (simp add: canonical_payload_def audit_content.defs)

lemma audit_row_hash:
  "al_entry_hash (audit_row env c rows) = e_sha256 env
     (canonical_payload (e_float_repr env) (audit_row env c rows)
       @ head_hash GENESIS_PREV_HASH (audit_by_id rows))"
proof -
  have "al_entry_hash (audit_row env c rows) = e_sha256 env
     (canonical_payload (e_float_repr env) (c\<lparr>al_created_at := e_now env\<rparr>)
       @ head_hash GENESIS_PREV_HASH (audit_by_id rows))"
    by (simp add: audit_row_def Let_def audit_content.defs last_hash_def head_hash_def
        recompute_entry_hash_def)
  moreover have "canonical_payload (e_float_repr env) (audit_row env c rows)
      = canonical_payload (e_float_repr env) (c\<lparr>al_created_at := e_now env\<rparr>)"
    by (simp add: audit_row_def Let_def)
  ultimately show ?thesis by simp
qed

lemma chain_ok_snoc:
  "chain_ok (e_sha256 env) (e_float_repr env) (rows @ [audit_row env c rows])
     \<longleftrightarrow> chain_ok (e_sha256 env) (e_float_repr env) rows"
  using audit_row_prev audit_row_hash by (simp add: chain_ok_def chained_append)

lemma verify_chain_iff: "cvr_valid (verify_chain sha flt table) \<longleftrightarrow> chain_ok sha flt table"
  by (simp add: verify_chain_def Let_def verify_rows_valid_iff chain_ok_def)

lemma chain_ok_Nil [simp]: "chain_ok sha flt []"
  by (simp add: chain_ok_def audit_by_id_def)

text \<open>Appending to the audit log never breaks it: after any write, by any actor and with any
  state payload, verification succeeds exactly when it did before, one more row is checked, the
  earlier rows are untouched and the new row's id is larger than every earlier one.\<close>
theorem write_audit_entry_keeps_chain:
  "let (i, d') = write_audit_entry env c d in
    (cvr_valid (verify_chain (e_sha256 env) (e_float_repr env) (db_audit d'))
       \<longleftrightarrow> cvr_valid (verify_chain (e_sha256 env) (e_float_repr env) (db_audit d)))
    \<and> cvr_rows_checked (verify_chain (e_sha256 env) (e_float_repr env) (db_audit d'))
        = Suc (length (db_audit d))
    \<and> (\<exists>row. db_audit d' = db_audit d @ [row] \<and> al_id row = i \<and> al_created_at row = e_now env)
    \<and> \<not> (\<exists>r \<in> set (db_audit d). i \<le> al_id r)"
proof -
  have "al_created_at (audit_row env c (db_audit d)) = e_now env"
    by (simp add: audit_row_def Let_def audit_content.defs)
  then show ?thesis
    using next_audit_id_greater[of _ "db_audit d"]
    by (auto simp: write_audit_entry_def Let_def verify_chain_iff chain_ok_snoc not_le)
      (simp add: verify_chain_def Let_def)
qed

text \<open>Verification reports the first broken row: the walk over the rows in id order succeeds
  exactly when every row carries the previous row's hash and its own recomputed hash, and otherwise
  names the id of the first row at which the prefix of the table stops being a chain.\<close>
theorem verify_chain_reports_first_break:
  "let rows = audit_by_id table; res = verify_chain sha flt table in
    (cvr_valid res \<longleftrightarrow> chained sha flt GENESIS_PREV_HASH rows)
    \<and> cvr_first_broken_id res =
       (case List.find (\<lambda>k. \<not> chained sha flt GENESIS_PREV_HASH (take (Suc k) rows)) [0..<length rows] of
          None \<Rightarrow> None | Some k \<Rightarrow> Some (al_id (rows ! k)))
    \<and> cvr_rows_checked res = length table"
  by (simp add: verify_chain_def Let_def verify_rows_valid_iff verify_rows_broken)

section \<open>Tamper evidence\<close>

text \<open>What is hashed for a row: its payload followed by the hash it carries of its predecessor.\<close>
definition row_input :: "(real \<Rightarrow> string) \<Rightarrow> audit_log \<Rightarrow> string" where
  "row_input flt r = canonical_payload flt r @ al_prev_entry_hash r"

lemma chained_head_length:
  assumes "\<And>x. length (sha x) = 64" "chained sha flt prev rs" "length prev = 64"
  shows "length (head_hash prev rs) = 64"
  using assms(2,3) by (induction rs arbitrary: prev) (auto simp: assms(1))

lemma chained_same_head:
  assumes len: "\<And>x. length (sha x) = 64"
    and "\<And>r s. r \<in> set rs \<Longrightarrow> s \<in> set ss \<Longrightarrow> sha (row_input flt r) = sha (row_input flt s) \<Longrightarrow>
      row_input flt r = row_input flt s"
    and "length rs = length ss" "chained sha flt GENESIS_PREV_HASH rs" "chained sha flt GENESIS_PREV_HASH ss"
    and "head_hash GENESIS_PREV_HASH rs = head_hash GENESIS_PREV_HASH ss"
  shows "map (canonical_payload flt) rs = map (canonical_payload flt) ss"
  using assms(2-6)
proof (induction rs arbitrary: ss rule: rev_induct)
  case (snoc r rs)
  obtain ss' s where ss: "ss = ss' @ [s]" using snoc.prems(2) by (cases ss rule: rev_cases) auto
  let ?h = "head_hash GENESIS_PREV_HASH rs" and ?k = "head_hash GENESIS_PREV_HASH ss'"
  have c: "chained sha flt GENESIS_PREV_HASH rs" "chained sha flt GENESIS_PREV_HASH ss'"
    "row_input flt r = canonical_payload flt r @ ?h" "row_input flt s = canonical_payload flt s @ ?k"
    "al_entry_hash r = sha (row_input flt r)" "al_entry_hash s = sha (row_input flt s)"
    using snoc.prems by (simp_all add: ss chained_append row_input_def)
  have "sha (row_input flt r) = sha (row_input flt s)" using snoc.prems(5) c by (simp add: ss)
  then have eq: "canonical_payload flt r @ ?h = canonical_payload flt s @ ?k"
    using snoc.prems(1)[of r s] c by (simp add: ss)
  have "length ?h = 64" "length ?k = 64"
    using chained_head_length[OF len] c by (auto simp: GENESIS_PREV_HASH_def)
  then have "canonical_payload flt r = canonical_payload flt s" "?h = ?k"
    using eq by (auto simp: append_eq_append_conv)
  then show ?case using snoc.IH[of ss'] snoc.prems c by (simp add: ss)
qed simp

text \<open>C8. Tamper evidence. Two audit tables of the same length that both verify and agree on the
  hash of their last row agree on the canonical payload of every row, in order, provided no two of
  their own rows collide under the hash. Rewriting, reordering or swapping history therefore
  changes the head hash, breaks the chain, or exhibits a collision of the hash function, of which
  only the 64-character output is assumed.\<close>
theorem verify_chain_tamper_evident:
  assumes "\<And>x. length (sha x) = 64"
    and "\<And>r s. r \<in> set t1 \<Longrightarrow> s \<in> set t2 \<Longrightarrow> sha (row_input flt r) = sha (row_input flt s) \<Longrightarrow>
      row_input flt r = row_input flt s"
    and "cvr_valid (verify_chain sha flt t1)" and "cvr_valid (verify_chain sha flt t2)"
    and "length t1 = length t2" and "last_hash t1 = last_hash t2"
  shows "map (canonical_payload flt) (audit_by_id t1) = map (canonical_payload flt) (audit_by_id t2)"
proof -
  have "head_hash GENESIS_PREV_HASH (audit_by_id t1) = head_hash GENESIS_PREV_HASH (audit_by_id t2)"
    using assms(5,6) by (auto simp: last_hash_def head_hash_def split: if_splits)
  then show ?thesis
    using assms by (intro chained_same_head[of sha]) (simp_all add: verify_chain_iff chain_ok_def)
qed

definition sample_audit_row :: "nat \<Rightarrow> audit_log" where
  "sample_audit_row i = \<lparr>al_actor_type = Human, al_actor_id = ''u'', al_action = ''A'',
     al_entity_type = ''E'', al_entity_id = None, al_before_state = None, al_after_state = None,
     al_prompt_snapshot = None, al_ip_address = None, al_created_at = 0, al_id = i,
     al_entry_hash = replicate 64 (CHR ''h''), al_prev_entry_hash = GENESIS_PREV_HASH\<rparr>"

theorem verify_chain_tamper_evident_witness:
  "map (canonical_payload (\<lambda>_. [])) [sample_audit_row 1] = map (canonical_payload (\<lambda>_. [])) [sample_audit_row 2]"
proof -
  let ?sha = "\<lambda>_::string. replicate 64 (CHR ''h'')"
  have p: "canonical_payload (\<lambda>_. []) (sample_audit_row i) = canonical_payload (\<lambda>_. []) (sample_audit_row j)"
    for i j by (simp add: canonical_payload_def sample_audit_row_def)
  have "row_input (\<lambda>_. []) (sample_audit_row 1) = row_input (\<lambda>_. []) (sample_audit_row 2)"
    using p[of 1 2] by (simp add: row_input_def) (simp add: sample_audit_row_def)
  moreover have "cvr_valid (verify_chain ?sha (\<lambda>_. []) [sample_audit_row i])" for i
    by (simp add: verify_chain_iff chain_ok_def audit_by_id_def) (simp add: sample_audit_row_def)
  ultimately have "map (canonical_payload (\<lambda>_. [])) (audit_by_id [sample_audit_row 1])
      = map (canonical_payload (\<lambda>_. [])) (audit_by_id [sample_audit_row 2])"
    by (intro verify_chain_tamper_evident[where sha = ?sha])
      (auto simp: last_hash_def audit_by_id_def sample_audit_row_def)
  then show ?thesis by (simp add: audit_by_id_def)
qed

end
