(* ===== verification/OrgEvents.thy ===== *)
theory OrgEvents
  imports AuditChain
begin

text \<open>
  Organisational events (\<open>src/orchestration/events.py\<close>): the append-only event log with a gap-free
  sequence per run, optionally mirrored into the audit chain. The locale \<open>append_only\<close> is the
  contract of both logs; \<open>conserves\<close> is the frame every operation of the organisation layer is
  shown to satisfy: both logs only grow, the audit chain stays valid, the sequences stay gap-free.
  The best-effort Redis publication is outside the model.
\<close>

section \<open>Append-only logs\<close>

locale append_only =
  fixes log_of :: "'s \<Rightarrow> 'r list"
    and good :: "'r list \<Rightarrow> bool"
    and append_op :: "'i \<Rightarrow> 's \<Rightarrow> 's"
  assumes appends: "\<exists>r. log_of (append_op i s) = log_of s @ [r]"
    and keeps_good: "good (log_of s) \<Longrightarrow> good (log_of (append_op i s))"
begin

lemma op_prefix: "prefix (log_of s) (log_of (append_op i s))"
  using appends[of i s] by auto

lemma ops_good: "good (log_of s) \<Longrightarrow> good (log_of (fold append_op is s))"
  by (induction "is" arbitrary: s) (auto intro: keeps_good)

lemma ops_prefix: "prefix (log_of s) (log_of (fold append_op is s))"
proof (induction "is" arbitrary: s)
  case (Cons i "is")
  then show ?case using op_prefix[of s i] prefix_order.trans by fastforce
qed simp

lemma ops_length: "length (log_of (fold append_op is s)) = length (log_of s) + length is"
proof (induction "is" arbitrary: s)
  case (Cons i "is")
  obtain r where "log_of (append_op i s) = log_of s @ [r]" using appends by blast
  then show ?case using Cons[of "append_op i s"] by simp
qed simp

end

section \<open>Emitting an event\<close>

definition events_of :: "nat \<Rightarrow> organizational_event list \<Rightarrow> organizational_event list" where
  "events_of rid evs = filter (\<lambda>e. ev_run_id e = rid) evs"

definition next_sequence :: "nat \<Rightarrow> db \<Rightarrow> nat" where
  "next_sequence rid d = foldr max (map ev_sequence (events_of rid (db_events d))) 0 + 1"

definition event_actor :: "string \<Rightarrow> actor_type" where
  "event_actor etype = (if startswith etype [''ceo.'', ''task.'', ''agent.''] then AI_Agent else System)"

definition event_row :: "env \<Rightarrow> nat \<Rightarrow> string \<Rightarrow> string \<Rightarrow> nat option \<Rightarrow> json \<Rightarrow> db \<Rightarrow> organizational_event"
where
  "event_row env rid etype stype sid payload d =
    \<lparr>ev_run_id = rid, ev_sequence = next_sequence rid d, ev_event_type = etype,
     ev_subject_type = stype, ev_subject_id = sid, ev_payload = payload, ev_occurred_at = e_now env\<rparr>"

definition emit ::
  "env \<Rightarrow> nat \<Rightarrow> string \<Rightarrow> string \<Rightarrow> nat option \<Rightarrow> json \<Rightarrow> bool \<Rightarrow> db \<Rightarrow> nat option \<times> db" where
  "emit env rid etype stype sid payload audited d =
    (let d1 = d\<lparr>db_events := db_events d @ [event_row env rid etype stype sid payload d]\<rparr> in
     if audited then
       (let (audit_id, d2) = write_audit_entry env
              (audit_entry (event_actor etype) ''organization''
                (''ORG_EVENT_'' @ replace_char (CHR ''.'') (CHR ''_'') (upper etype))
                stype sid None (Some payload)) d1
        in (Some audit_id, d2))
     else (None, d1))"

definition gapfree :: "organizational_event list \<Rightarrow> bool" where
  "gapfree evs \<longleftrightarrow>
    (\<forall>rid. map ev_sequence (events_of rid evs) = [1..<Suc (length (events_of rid evs))])"

lemma events_of_append [simp]:
  "events_of rid (xs @ ys) = events_of rid xs @ events_of rid ys"
  "events_of rid [e] = (if ev_run_id e = rid then [e] else [])" "events_of rid [] = []"
  by (simp_all add: events_of_def)

lemma foldr_max_init: "foldr max xs m = max m (foldr max xs (0::nat))"
  by (induction xs) (simp_all add: max.left_commute)

lemma foldr_max_upt: "foldr max [Suc 0..<Suc n] 0 = n"
proof (induction n)
  case (Suc n)
  have "[Suc 0..<Suc (Suc n)] = [Suc 0..<Suc n] @ [Suc n]" by simp
  then show ?case using Suc foldr_max_init[of "[Suc 0..<Suc n]" "Suc n"] by (simp del: upt_Suc)
qed simp

lemma next_sequence_gapfree:
  "gapfree (db_events d) \<Longrightarrow> next_sequence rid d = Suc (length (events_of rid (db_events d)))"
  by (simp add: gapfree_def next_sequence_def foldr_max_upt del: upt_Suc)

lemma gapfree_emit_row:
  "gapfree (db_events d) \<Longrightarrow> gapfree (db_events d @ [event_row env rid etype stype sid payload d])"
  using next_sequence_gapfree[of d rid]
  by (auto simp: gapfree_def event_row_def)

lemma gapfree_Nil [simp]: "gapfree []"
  by (simp add: gapfree_def)

lemma emit_events:
  "db_events (snd (emit env rid etype stype sid payload audited d))
     = db_events d @ [event_row env rid etype stype sid payload d]"
  by (simp add: emit_def Let_def write_audit_entry_def)

lemma emit_frame [simp]:
  "db_runs (snd (emit env rid et st sid p a d)) = db_runs d"
  "db_tasks (snd (emit env rid et st sid p a d)) = db_tasks d"
  "db_plans (snd (emit env rid et st sid p a d)) = db_plans d"
  "db_deps (snd (emit env rid et st sid p a d)) = db_deps d"
  "db_artefacts (snd (emit env rid et st sid p a d)) = db_artefacts d"
  "db_decisions (snd (emit env rid et st sid p a d)) = db_decisions d"
  "db_approvals (snd (emit env rid et st sid p a d)) = db_approvals d"
  "db_strategies (snd (emit env rid et st sid p a d)) = db_strategies d"
  "db_freshness (snd (emit env rid et st sid p a d)) = db_freshness d"
  "db_control (snd (emit env rid et st sid p a d)) = db_control d"
  "db_agent_runs (snd (emit env rid et st sid p a d)) = db_agent_runs d"
  "db_next_id (snd (emit env rid et st sid p a d)) = db_next_id d"
  by (simp_all add: emit_def Let_def write_audit_entry_def)

lemma write_audit_frame [simp]:
  "db_runs (snd (write_audit_entry env c d)) = db_runs d"
  "db_tasks (snd (write_audit_entry env c d)) = db_tasks d"
  "db_plans (snd (write_audit_entry env c d)) = db_plans d"
  "db_deps (snd (write_audit_entry env c d)) = db_deps d"
  "db_artefacts (snd (write_audit_entry env c d)) = db_artefacts d"
  "db_decisions (snd (write_audit_entry env c d)) = db_decisions d"
  "db_events (snd (write_audit_entry env c d)) = db_events d"
  "db_approvals (snd (write_audit_entry env c d)) = db_approvals d"
  "db_strategies (snd (write_audit_entry env c d)) = db_strategies d"
  "db_freshness (snd (write_audit_entry env c d)) = db_freshness d"
  "db_control (snd (write_audit_entry env c d)) = db_control d"
  "db_orders (snd (write_audit_entry env c d)) = db_orders d"
  "db_positions (snd (write_audit_entry env c d)) = db_positions d"
  "db_next_id (snd (write_audit_entry env c d)) = db_next_id d"
  by (simp_all add: write_audit_entry_def Let_def)

section \<open>The two logs as append-only logs\<close>

interpretation audit_log: append_only db_audit "chain_ok (e_sha256 env) (e_float_repr env)"
  "\<lambda>(t, c) d. snd (write_audit_entry (env\<lparr>e_now := t\<rparr>) c d)" for env :: env
proof unfold_locales
  fix i :: "timestamp \<times> audit_content" and s :: db
  obtain t c where i: "i = (t, c)" by (cases i)
  show "\<exists>r. db_audit ((\<lambda>(t, c) d. snd (write_audit_entry (env\<lparr>e_now := t\<rparr>) c d)) i s) = db_audit s @ [r]"
    by (simp add: i write_audit_entry_def Let_def)
  show "chain_ok (e_sha256 env) (e_float_repr env) (db_audit s) \<Longrightarrow> chain_ok (e_sha256 env) (e_float_repr env)
      (db_audit ((\<lambda>(t, c) d. snd (write_audit_entry (env\<lparr>e_now := t\<rparr>) c d)) i s))"
    using chain_ok_snoc[of "env\<lparr>e_now := t\<rparr>" "db_audit s" c]
    by (simp add: i write_audit_entry_def Let_def)
qed

interpretation event_log: append_only db_events gapfree
  "\<lambda>(t, rid, etype, stype, sid, payload, audited) d.
     snd (emit (env\<lparr>e_now := t\<rparr>) rid etype stype sid payload audited d)" for env :: env
  by unfold_locales (auto simp: emit_events intro: gapfree_emit_row)

text \<open>Sequence numbers are gap-free per run: emitting any series of events for any mix of runs,
  from a log in which every run's events are numbered 1, 2, 3 and so on, gives such a log again,
  of which the old log is a prefix and which is longer by exactly the number of events emitted.\<close>
theorem emit_sequences_gapfree:
  assumes "gapfree (db_events d)"
  shows "let d' = fold (\<lambda>(t, rid, etype, stype, sid, payload, audited) d.
           snd (emit (env\<lparr>e_now := t\<rparr>) rid etype stype sid payload audited d)) es d
    in gapfree (db_events d') \<and> prefix (db_events d) (db_events d')
       \<and> length (db_events d') = length (db_events d) + length es"
  using event_log.ops_good[OF assms, of env es] event_log.ops_prefix[of d env es]
    event_log.ops_length[of env es d]
  by (simp add: Let_def)

definition sample_env :: env where
  "sample_env = \<lparr>e_now = 1700000000000000, e_sha256 = (\<lambda>_. replicate 64 (CHR ''h'')),
     e_float_repr = (\<lambda>_. ''0.0''), e_fmt_signed2 = (\<lambda>_. ''+0.00''),
     e_proceed_order = [''StrategyLogic'', ''AllocationPlan'', ''OptionStrategyProposal'', ''PythonCode''],
     e_today = 19675,
     e_handler = (\<lambda>t arts. Inr (''AdHocAnalysis'', JObj [], JObj [])),
     e_times_out = (\<lambda>_. False),
     e_validate_payload = (\<lambda>_ p. Inr p), e_org_max_concurrent_runs = 3, e_org_run_stall_seconds = 900,
     e_org_task_default_timeout_seconds = 300, e_org_research_task_timeout_seconds = 1800\<rparr>"

theorem emit_sequences_gapfree_witness:
  "map ev_sequence (db_events (snd (emit sample_env 5 ''task.ready'' ''task'' None (JObj []) False
     (snd (emit sample_env 5 ''task.ready'' ''task'' None (JObj []) False empty_db))))) = [1, 2]
   \<and> gapfree (db_events (fold (\<lambda>(t, rid, etype, stype, sid, payload, audited) d.
           snd (emit (sample_env\<lparr>e_now := t\<rparr>) rid etype stype sid payload audited d))
        [(0, 5, ''task.ready'', ''task'', None, JObj [], False)] empty_db))"
  using emit_sequences_gapfree[of empty_db sample_env "[(0, 5, ''task.ready'', ''task'', None, JObj [], False)]"]
  by (simp add: Let_def emit_events event_row_def next_sequence_def empty_db_def)

section \<open>The frame of an organisation operation\<close>

definition conserves :: "env \<Rightarrow> db \<Rightarrow> db \<Rightarrow> bool" where
  "conserves env d d' \<longleftrightarrow>
     prefix (db_audit d) (db_audit d') \<and> prefix (db_events d) (db_events d')
   \<and> (chain_ok (e_sha256 env) (e_float_repr env) (db_audit d) \<longrightarrow>
        chain_ok (e_sha256 env) (e_float_repr env) (db_audit d'))
   \<and> (gapfree (db_events d) \<longrightarrow> gapfree (db_events d'))
   \<and> db_next_id d \<le> db_next_id d'"

named_theorems conserving "operations that conserve the logs, as introduction rules"

lemma conserves_refl [intro, simp]: "conserves env d d"
  by (simp add: conserves_def)

lemma conserves_trans [trans]: "conserves env d1 d2 \<Longrightarrow> conserves env d2 d3 \<Longrightarrow> conserves env d1 d3"
  unfolding conserves_def using prefix_order.trans by fastforce

lemma conserves_same:
  "db_audit d' = db_audit d \<Longrightarrow> db_events d' = db_events d \<Longrightarrow> db_next_id d \<le> db_next_id d' \<Longrightarrow>
   conserves env d d'"
  by (simp add: conserves_def)

lemma conserves_setters [conserving]:
  "conserves env d0 d \<Longrightarrow> conserves env d0 (set_run i f1 d)"
  "conserves env d0 d \<Longrightarrow> conserves env d0 (set_task i f2 d)"
  "conserves env d0 d \<Longrightarrow> conserves env d0 (set_dep i f3 d)"
  "conserves env d0 d \<Longrightarrow> conserves env d0 (set_artefact i f4 d)"
  "conserves env d0 d \<Longrightarrow> conserves env d0 (set_decision i f5 d)"
  "conserves env d0 d \<Longrightarrow> conserves env d0 (set_approval i f6 d)"
  "conserves env d0 d \<Longrightarrow> conserves env d0 (set_strategy i f7 d)"
  by (erule conserves_trans, rule conserves_same, simp_all)+

lemma conserves_insert:
  "conserves env d0 d \<Longrightarrow> db_audit d' = db_audit d \<Longrightarrow> db_events d' = db_events d \<Longrightarrow>
   db_next_id d \<le> db_next_id d' \<Longrightarrow> conserves env d0 d'"
  by (auto elim!: conserves_trans intro: conserves_same)

lemma conserves_write_audit [conserving]:
  "conserves env d0 d \<Longrightarrow> conserves env d0 (snd (write_audit_entry env c d))"
  by (erule conserves_trans) (simp add: conserves_def write_audit_entry_def Let_def chain_ok_snoc)

lemma conserves_emit [conserving]:
  "conserves env d0 d \<Longrightarrow> conserves env d0 (snd (emit env rid et st sid p a d))"
proof (erule conserves_trans)
  let ?d1 = "d\<lparr>db_events := db_events d @ [event_row env rid et st sid p d]\<rparr>"
  have 1: "conserves env d ?d1" by (simp add: conserves_def gapfree_emit_row)
  have "conserves env ?d1 (snd (write_audit_entry env c ?d1))" for c
    by (simp add: conserves_write_audit)
  then show "conserves env d (snd (emit env rid et st sid p a d))"
    using 1 conserves_trans[OF 1] by (simp add: emit_def Let_def case_prod_unfold)
qed

end
