(* ===== verification/Calendar.thy ===== *)
theory Calendar
  imports PyText
begin

text \<open>
  The trading calendar (\<open>src/data/reference/nse_holiday_calendar.py\<close>,
  \<open>src/data/reference/market_hours.py\<close>). A date is its day number from 1970-01-01.
\<close>

definition weekday :: "int \<Rightarrow> int" where
  "weekday d = (d + 3) mod 7"

definition days_of_civil :: "int \<Rightarrow> int \<Rightarrow> int \<Rightarrow> int" where
  "days_of_civil year month day =
    (let y = (if month \<le> 2 then year - 1 else year);
         era = y div 400;
         yoe = y mod 400;
         mp = (if month > 2 then month - 3 else month + 9);
         doy = (153 * mp + 2) div 5 + day - 1;
         doe = yoe * 365 + yoe div 4 - yoe div 100 + doy
     in era * 146097 + doe - 719468)"

definition HOLIDAYS :: "int list" where
  "HOLIDAYS =
    [days_of_civil 2023 1 26, days_of_civil 2023 8 15, days_of_civil 2023 10 2,
     days_of_civil 2024 1 26, days_of_civil 2024 8 15, days_of_civil 2024 10 2,
     days_of_civil 2025 1 26, days_of_civil 2025 8 15, days_of_civil 2025 10 2,
     days_of_civil 2026 1 26, days_of_civil 2026 8 15, days_of_civil 2026 10 2,
     days_of_civil 2027 1 26, days_of_civil 2027 8 15, days_of_civil 2027 10 2]"

definition is_trading_holiday :: "int \<Rightarrow> bool" where
  "is_trading_holiday d \<longleftrightarrow> weekday d \<ge> 5 \<or> d \<in> set HOLIDAYS"

lemma HOLIDAYS_days: "HOLIDAYS = [19383, 19584, 19632, 19748, 19950, 19998, 20114, 20315, 20363,
    20479, 20680, 20728, 20844, 21045, 21093]"
  by (simp add: HOLIDAYS_def days_of_civil_def)

lemma HOLIDAYS_apart:
  "a \<in> set HOLIDAYS \<Longrightarrow> b \<in> set HOLIDAYS \<Longrightarrow> a \<noteq> b \<Longrightarrow> \<bar>a - b\<bar> > 3"
  by (auto simp: HOLIDAYS_days)

lemma two_weekdays:
  "\<exists>i j. 0 \<le> i \<and> i < j \<and> j \<le> (3::int) \<and> weekday (d + i) < 5 \<and> weekday (d + j) < 5"
proof -
  have w: "weekday (d + k) = (weekday d + k) mod 7" for k
    by (simp add: weekday_def mod_simps algebra_simps)
  have "0 \<le> weekday d" "weekday d < 7" by (simp_all add: weekday_def)
  then consider "weekday d < 4" | "weekday d = 4" | "weekday d = 5" | "weekday d = 6" by linarith
  then show ?thesis
  proof cases
    case 1
    then show ?thesis using \<open>0 \<le> weekday d\<close> by (intro exI[of _ 0] exI[of _ 1]) (simp add: w)
  next
    case 2
    then show ?thesis by (intro exI[of _ 0] exI[of _ 3]) (simp add: w)
  next
    case 3
    then show ?thesis by (intro exI[of _ 2] exI[of _ 3]) (simp add: w)
  next
    case 4
    then show ?thesis by (intro exI[of _ 1] exI[of _ 2]) (simp add: w)
  qed
qed

lemma open_day_in_four: "\<exists>k. 0 \<le> k \<and> k \<le> (3::int) \<and> \<not> is_trading_holiday (d + k)"
proof -
  obtain i j where ij: "0 \<le> i" "i < j" "j \<le> (3::int)" "weekday (d + i) < 5" "weekday (d + j) < 5"
    using two_weekdays by blast
  have "d + i \<notin> set HOLIDAYS \<or> d + j \<notin> set HOLIDAYS"
    using HOLIDAYS_apart[of "d + i" "d + j"] ij by auto
  then show ?thesis
    using ij by (intro exI[of _ "if d + i \<notin> set HOLIDAYS then i else j"]) (auto simp: is_trading_holiday_def)
qed

lemma open_before: "\<exists>k::nat. \<not> is_trading_holiday (d - int k)"
proof -
  obtain k where "0 \<le> k" "k \<le> (3::int)" "\<not> is_trading_holiday (d - 3 + k)"
    using open_day_in_four[of "d - 3"] by blast
  then show ?thesis by (intro exI[of _ "nat (3 - k)"]) (simp add: algebra_simps)
qed

lemma open_after: "\<exists>k::nat. \<not> is_trading_holiday (d + int k)"
  using open_day_in_four[of d] by (metis int_nat_eq)

lemma least_step:
  fixes P :: "nat \<Rightarrow> bool"
  assumes "\<exists>k. P k" "\<not> P 0"
  shows "(LEAST k. P (Suc k)) < (LEAST k. P k)"
  using Least_Suc[of P] assms by fastforce

section \<open>The two searches\<close>

function back_to_open :: "int \<Rightarrow> int" where
  "back_to_open day = (if is_trading_holiday day then back_to_open (day - 1) else day)"
  by pat_completeness auto

termination
proof (relation "measure (\<lambda>d. LEAST k::nat. \<not> is_trading_holiday (d - int k))")
  fix day assume "is_trading_holiday day"
  then show "(day - 1, day) \<in> measure (\<lambda>d. LEAST k::nat. \<not> is_trading_holiday (d - int k))"
    using least_step[of "\<lambda>k. \<not> is_trading_holiday (day - int k)"] open_before[of day]
    by (simp add: algebra_simps)
qed simp

function forward_to_open :: "int \<Rightarrow> int" where
  "forward_to_open day = (if is_trading_holiday day then forward_to_open (day + 1) else day)"
  by pat_completeness auto

termination
proof (relation "measure (\<lambda>d. LEAST k::nat. \<not> is_trading_holiday (d + int k))")
  fix day assume "is_trading_holiday day"
  then show "(day + 1, day) \<in> measure (\<lambda>d. LEAST k::nat. \<not> is_trading_holiday (d + int k))"
    using least_step[of "\<lambda>k. \<not> is_trading_holiday (day + int k)"] open_after[of day]
    by (simp add: algebra_simps)
qed simp

declare back_to_open.simps [simp del] forward_to_open.simps [simp del]

definition previous_trading_day :: "int \<Rightarrow> int" where
  "previous_trading_day as_of = back_to_open (as_of - 1)"

definition next_trading_day :: "int \<Rightarrow> int" where
  "next_trading_day as_of = forward_to_open (as_of + 1)"

function days_loop :: "int \<Rightarrow> int \<Rightarrow> int list \<Rightarrow> int list" where
  "days_loop current end_date days =
    (if current \<le> end_date then
       days_loop (current + 1) end_date (if is_trading_holiday current then days else days @ [current])
     else days)"
  by pat_completeness auto

termination
  by (relation "measure (\<lambda>(c, e, _). nat (e + 1 - c))") auto

declare days_loop.simps [simp del]

definition trading_days_between :: "int \<Rightarrow> int \<Rightarrow> int list" where
  "trading_days_between start_date end_date = days_loop start_date end_date []"

lemma back_to_open_spec:
  "\<not> is_trading_holiday (back_to_open d) \<and> back_to_open d \<le> d
    \<and> (\<forall>x. back_to_open d < x \<and> x \<le> d \<longrightarrow> is_trading_holiday x)"
proof (induction d rule: back_to_open.induct)
  case (1 d)
  show ?case
  proof (cases "is_trading_holiday d")
    case True
    then have eq: "back_to_open d = back_to_open (d - 1)" by (simp add: back_to_open.simps)
    show ?thesis
      using 1[OF True] True unfolding eq by (metis add_le_cancel_right diff_add_cancel le_less
          linorder_not_le zle_diff1_eq order.trans)
  next
    case False
    then show ?thesis by (auto simp: back_to_open.simps)
  qed
qed

lemma forward_to_open_spec:
  "\<not> is_trading_holiday (forward_to_open d) \<and> d \<le> forward_to_open d
    \<and> (\<forall>x. d \<le> x \<and> x < forward_to_open d \<longrightarrow> is_trading_holiday x)"
proof (induction d rule: forward_to_open.induct)
  case (1 d)
  show ?case
  proof (cases "is_trading_holiday d")
    case True
    then have eq: "forward_to_open d = forward_to_open (d + 1)" by (simp add: forward_to_open.simps)
    have "is_trading_holiday x" if "d \<le> x" "x < forward_to_open (d + 1)" for x
      using 1[OF True] True that by (cases "x = d") auto
    then show ?thesis using 1[OF True] unfolding eq by auto
  next
    case False
    then show ?thesis by (auto simp: forward_to_open.simps)
  qed
qed

lemma days_loop_spec: "days_loop c e days = days @ filter (\<lambda>d. \<not> is_trading_holiday d) [c..e]"
proof (induction c e days rule: days_loop.induct)
  case (1 c e days)
  show ?case
  proof (cases "c \<le> e")
    case True
    have "[c..e] = c # [c + 1..e]" using True by (simp add: upto.simps)
    then show ?thesis using 1[OF True] True by (subst days_loop.simps) simp
  next
    case False
    then show ?thesis by (subst days_loop.simps) simp
  qed
qed

text \<open>The calendar searches terminate on every date and are exact: the previous (next) trading
  day is the nearest day strictly before (after) the date that is neither a weekend nor a listed
  holiday, at most four days away, and the days of an interval are its trading days in order.\<close>
theorem trading_day_search_exact:
  "\<not> is_trading_holiday (previous_trading_day d) \<and> previous_trading_day d < d
   \<and> d - 4 \<le> previous_trading_day d
   \<and> \<not> (\<exists>x. previous_trading_day d < x \<and> x < d \<and> \<not> is_trading_holiday x)
   \<and> \<not> is_trading_holiday (next_trading_day d) \<and> d < next_trading_day d
   \<and> next_trading_day d \<le> d + 4
   \<and> \<not> (\<exists>x. d < x \<and> x < next_trading_day d \<and> \<not> is_trading_holiday x)
   \<and> trading_days_between a b = filter (\<lambda>x. \<not> is_trading_holiday x) [a..b]"
proof -
  have p: "\<not> is_trading_holiday (previous_trading_day d)" "previous_trading_day d \<le> d - 1"
    "\<And>x. previous_trading_day d < x \<Longrightarrow> x \<le> d - 1 \<Longrightarrow> is_trading_holiday x"
    using back_to_open_spec[of "d - 1"] by (auto simp: previous_trading_day_def)
  have n: "\<not> is_trading_holiday (next_trading_day d)" "d + 1 \<le> next_trading_day d"
    "\<And>x. d + 1 \<le> x \<Longrightarrow> x < next_trading_day d \<Longrightarrow> is_trading_holiday x"
    using forward_to_open_spec[of "d + 1"] by (auto simp: next_trading_day_def)
  obtain k where k: "0 \<le> k" "k \<le> 3" "\<not> is_trading_holiday (d - 4 + k)"
    using open_day_in_four by blast
  obtain j where j: "0 \<le> j" "j \<le> 3" "\<not> is_trading_holiday (d + 1 + j)"
    using open_day_in_four by blast
  have "d - 4 \<le> previous_trading_day d" using p(3)[of "d - 4 + k"] k by linarith
  moreover have "next_trading_day d \<le> d + 4" using n(3)[of "d + 1 + j"] j by linarith
  ultimately show ?thesis
    using p n by (auto simp: trading_days_between_def days_loop_spec)
qed

section \<open>Market hours\<close>

definition MARKET_OPEN_MINUTES :: int where "MARKET_OPEN_MINUTES = 9 * 60 + 15"

definition MARKET_CLOSE_MINUTES :: int where "MARKET_CLOSE_MINUTES = 15 * 60 + 30"

text \<open>The argument is the wall clock in India Standard Time, in microseconds.\<close>
definition is_market_open :: "int \<Rightarrow> bool" where
  "is_market_open now_ist =
    (if weekday (date_of now_ist) \<ge> 5 then False
     else if is_trading_holiday (date_of now_ist) then False
     else
       (let secs = (now_ist mod us_per_day) div 1000000;
            now_minutes = (secs div 3600) * 60 + secs div 60 mod 60
        in MARKET_OPEN_MINUTES \<le> now_minutes \<and> now_minutes \<le> MARKET_CLOSE_MINUTES))"

lemma is_market_open_iff:
  "is_market_open t \<longleftrightarrow> \<not> is_trading_holiday (date_of t)
     \<and> 555 \<le> t mod us_per_day div 60000000 \<and> t mod us_per_day div 60000000 \<le> 930"
proof -
  define u where "u = t mod us_per_day div 1000000"
  have "u div 3600 = u div 60 div 60" by (simp add: zdiv_zmult2_eq[symmetric])
  then have minutes: "(u div 3600) * 60 + u div 60 mod 60 = u div 60" by simp
  have "u div 60 = t mod us_per_day div 60000000" by (simp add: u_def zdiv_zmult2_eq[symmetric])
  then show ?thesis
    unfolding is_market_open_def Let_def u_def[symmetric] minutes
    by (simp add: is_trading_holiday_def MARKET_OPEN_MINUTES_def MARKET_CLOSE_MINUTES_def)
qed

end
