(* ===== verification/Freshness.thy ===== *)
theory Freshness
  imports OrgEvents Calendar
begin

text \<open>
  Dataset freshness (\<open>src/orchestration/freshness.py\<close>): the single write path that records an
  ingestion result, and the question the task engine asks before it dispatches a
  dataset-dependent task. The ops alert is the message the caller would send.
\<close>

datatype cadence_kind = Daily | Intraday | Weekly

definition KNOWN_DATASETS :: "(string, string \<times> string \<times> cadence_kind) dict" where
  "KNOWN_DATASETS =
    [(''ohlcv_daily'', ''nightly after NSE close on trading days'',
        ''fresh if last successful update covers the previous trading day'', Daily),
     (''instrument_master'', ''weekly'', ''fresh if updated within the last 7 days'', Weekly),
     (''corporate_actions'', ''nightly after NSE close on trading days'',
        ''fresh if last successful update covers the previous trading day'', Daily),
     (''news'', ''every 30 minutes during market hours'', ''fresh if updated within the last 2 hours'',
        Intraday),
     (''nse_index_ohlcv'', ''nightly after NSE close on trading days'',
        ''fresh if last successful update covers the previous trading day'', Daily)]"

definition unavailable_row :: "timestamp \<Rightarrow> string \<Rightarrow> string \<Rightarrow> string \<Rightarrow> dataset_freshness" where
  "unavailable_row now nm cad rul =
    \<lparr>dfr_dataset_name = nm, dfr_cadence = cad, dfr_freshness_rule = rul,
     dfr_status = DS_UNAVAILABLE, dfr_last_successful_update = None, dfr_last_checksum_ok = None,
     dfr_retry_state = None, dfr_updated_at = now\<rparr>"

definition freshness_row :: "db \<Rightarrow> string \<Rightarrow> dataset_freshness option" where
  "freshness_row d nm = row_by dfr_dataset_name nm (db_freshness d)"

definition ensure_seeded :: "env \<Rightarrow> db \<Rightarrow> db" where
  "ensure_seeded env d =
    d\<lparr>db_freshness := db_freshness d @
        map (\<lambda>(nm, cad, rul, _). unavailable_row (e_now env) nm cad rul)
          (filter (\<lambda>e. fst e \<notin> dfr_dataset_name ` set (db_freshness d)) KNOWN_DATASETS)\<rparr>"

definition get_or_create :: "env \<Rightarrow> string \<Rightarrow> db \<Rightarrow> dataset_freshness \<times> db" where
  "get_or_create env nm d =
    (case freshness_row d nm of
       Some row \<Rightarrow> (row, d)
     | None \<Rightarrow>
        (let (cad, rul, _) = dict_get_default KNOWN_DATASETS nm
               (''unknown'', ''no freshness rule registered for this dataset'', Daily);
             row = unavailable_row (e_now env) nm cad rul
         in (row, d\<lparr>db_freshness := db_freshness d @ [row]\<rparr>)))"

definition ingestion_update ::
  "env \<Rightarrow> bool \<Rightarrow> bool \<Rightarrow> bool \<Rightarrow> string option \<Rightarrow> dataset_freshness \<Rightarrow> dataset_freshness" where
  "ingestion_update env success checksum_ok has_data detail row =
    (if success \<and> checksum_ok \<and> has_data then
       row\<lparr>dfr_status := DS_FRESH, dfr_last_successful_update := Some (e_now env),
           dfr_last_checksum_ok := Some True, dfr_retry_state := None, dfr_updated_at := e_now env\<rparr>
     else
       row\<lparr>dfr_status := (if success then DS_FAILED else DS_UNAVAILABLE),
           dfr_last_checksum_ok := (if success then Some checksum_ok else dfr_last_checksum_ok row),
           dfr_retry_state := Some ((case dfr_retry_state row of None \<Rightarrow> 0 | Some (n, _) \<Rightarrow> n) + 1,
             (case detail of Some s \<Rightarrow> if s = [] then ''ingestion did not produce valid, checked data'' else s
                | None \<Rightarrow> ''ingestion did not produce valid, checked data'')),
           dfr_updated_at := e_now env\<rparr>)"

definition freshness_value :: "freshness_status \<Rightarrow> string" where
  "freshness_value s = (case s of DS_FRESH \<Rightarrow> ''fresh'' | DS_STALE \<Rightarrow> ''stale''
     | DS_UNAVAILABLE \<Rightarrow> ''unavailable'' | DS_FAILED \<Rightarrow> ''failed'')"

definition record_ingestion_result ::
  "env \<Rightarrow> string \<Rightarrow> bool \<Rightarrow> bool \<Rightarrow> bool \<Rightarrow> string option \<Rightarrow> db
    \<Rightarrow> dataset_freshness \<times> string option \<times> db" where
  "record_ingestion_result env nm success checksum_ok has_data detail d =
    (let (row, d1) = get_or_create env nm d;
         row' = ingestion_update env success checksum_ok has_data detail row;
         d2 = d1\<lparr>db_freshness := update_first (\<lambda>r. dfr_dataset_name r = nm) (\<lambda>_. row') (db_freshness d1)\<rparr>;
         alert = (if dfr_status row \<noteq> dfr_status row' \<and> dfr_status row' \<in> {DS_FAILED, DS_UNAVAILABLE}
                  then Some (''[TradingOS] dataset '' @ [CHR 0x27] @ nm @ [CHR 0x27] @ '' is now ''
                    @ freshness_value (dfr_status row') @ '': ''
                    @ (case detail of Some s \<Rightarrow> if s = [] then ''ingestion did not pass validation'' else s
                         | None \<Rightarrow> ''ingestion did not pass validation''))
                  else None)
     in (row', alert, d2))"

definition within_cadence :: "env \<Rightarrow> dataset_freshness \<Rightarrow> string \<Rightarrow> bool" where
  "within_cadence env row nm =
    (case dfr_last_successful_update row of
       None \<Rightarrow> False
     | Some upd \<Rightarrow>
        (case dict_get KNOWN_DATASETS nm of
           Some (_, _, Intraday) \<Rightarrow> e_now env - upd \<le> 2 * 3600 * 1000000
         | Some (_, _, Weekly) \<Rightarrow> e_now env - upd \<le> 7 * us_per_day
         | _ \<Rightarrow> date_of upd \<ge> previous_trading_day (e_today env)))"

definition is_fresh :: "env \<Rightarrow> db \<Rightarrow> string \<Rightarrow> bool" where
  "is_fresh env d nm =
    (case freshness_row d nm of
       None \<Rightarrow> False
     | Some row \<Rightarrow> if dfr_status row \<noteq> DS_FRESH then False else within_cadence env row nm)"

lemma record_ingestion_row:
  "freshness_row (snd (snd (record_ingestion_result env nm s c h dt d))) x =
    (if x = nm then Some (fst (record_ingestion_result env nm s c h dt d)) else freshness_row d x)"
proof -
  have name: "dfr_dataset_name (ingestion_update env s c h dt r) = dfr_dataset_name r" for r
    by (simp add: ingestion_update_def)
  have goc: "dfr_dataset_name (fst (get_or_create env nm d)) = nm
      \<and> freshness_row (snd (get_or_create env nm d)) nm = Some (fst (get_or_create env nm d))
      \<and> (x \<noteq> nm \<longrightarrow> freshness_row (snd (get_or_create env nm d)) x = freshness_row d x)"
    by (auto simp: get_or_create_def freshness_row_def unavailable_row_def case_prod_unfold Let_def
        dest: row_by_SomeD split: option.splits)
  then show ?thesis
    using row_by_update_first[of dfr_dataset_name
        "ingestion_update env s c h dt (fst (get_or_create env nm d))" nm x]
    by (simp add: record_ingestion_result_def Let_def case_prod_unfold freshness_row_def name)
qed

text \<open>Freshness is never fabricated. A dataset is reported fresh after an ingestion result exactly
  when the run succeeded, passed its checksum and produced rows, and its cadence window then still
  covers the moment of the question; every failed result makes it not fresh at once, and no other
  dataset's freshness changes.\<close>
theorem freshness_only_from_valid_ingestion:
  "let d' = snd (snd (record_ingestion_result env nm success checksum_ok has_data detail d)) in
    (is_fresh env' d' nm \<longleftrightarrow> success \<and> checksum_ok \<and> has_data
       \<and> (case dict_get KNOWN_DATASETS nm of
            Some (_, _, Intraday) \<Rightarrow> e_now env' - e_now env \<le> 2 * 3600 * 1000000
          | Some (_, _, Weekly) \<Rightarrow> e_now env' - e_now env \<le> 7 * us_per_day
          | _ \<Rightarrow> previous_trading_day (e_today env') \<le> date_of (e_now env)))
    \<and> (x \<noteq> nm \<longrightarrow> is_fresh env' d' x = is_fresh env' d x)"
proof -
  let ?r = "fst (record_ingestion_result env nm success checksum_ok has_data detail d)"
  have "dfr_status ?r = DS_FRESH \<longleftrightarrow> success \<and> checksum_ok \<and> has_data"
    by (simp add: record_ingestion_result_def ingestion_update_def Let_def case_prod_unfold)
  moreover have "success \<and> checksum_ok \<and> has_data \<Longrightarrow> dfr_last_successful_update ?r = Some (e_now env)"
    by (simp add: record_ingestion_result_def ingestion_update_def Let_def case_prod_unfold)
  ultimately show ?thesis
    by (auto simp: Let_def is_fresh_def record_ingestion_row within_cadence_def
        split: option.splits cadence_kind.splits)
qed

theorem freshness_only_from_valid_ingestion_witness:
  "\<not> is_fresh sample_env (snd (snd (record_ingestion_result sample_env ''news'' True False True None empty_db))) ''news''
   \<and> is_fresh sample_env (snd (snd (record_ingestion_result sample_env ''news'' True True True None empty_db))) ''news''"
  using freshness_only_from_valid_ingestion[where env = sample_env and env' = sample_env and nm = "''news''"
      and success = True and checksum_ok = False and has_data = True and detail = None and d = empty_db]
    freshness_only_from_valid_ingestion[where env = sample_env and env' = sample_env and nm = "''news''"
      and success = True and checksum_ok = True and has_data = True and detail = None and d = empty_db]
  by (simp add: Let_def KNOWN_DATASETS_def)

end
