(* ===== verification/AgentRegistry.thy ===== *)
theory AgentRegistry
  imports OrgEvents
begin

text \<open>
  Per-agent control state (\<open>src/agents/control.py\<close>) and the capability registry the planner and
  the task engine consult (\<open>src/orchestration/capability_registry.py\<close>).
\<close>

section \<open>The roster\<close>

definition AUDIT_AGENT_NAME :: string where
  "AUDIT_AGENT_NAME = ''audit_agent''"

datatype agent_kind = Graph_node | Scheduled | Registry_only

record agent_descriptor =
  ad_name :: string
  ad_agent_id :: string
  ad_display_name :: string
  ad_kind :: agent_kind
  ad_enforced :: bool

definition agent :: "string \<Rightarrow> string \<Rightarrow> string \<Rightarrow> agent_kind \<Rightarrow> bool \<Rightarrow> agent_descriptor" where
  "agent nm ident disp knd enf = \<lparr>ad_name = nm, ad_agent_id = ident, ad_display_name = disp,
     ad_kind = knd, ad_enforced = enf\<rparr>"

definition KNOWN_AGENTS :: "agent_descriptor list" where
  "KNOWN_AGENTS =
    [agent ''ceo_agent'' ''AGT-001'' ''CEO Agent (Master Orchestrator)'' Graph_node True,
     agent ''market_analyst'' ''AGT-002'' ''Market Analyst Agent'' Graph_node True,
     agent ''strategy_generator'' ''AGT-003'' ''Strategy Generator Agent'' Graph_node True,
     agent ''python_code_generator'' ''AGT-004'' ''Python Code Generator Agent'' Graph_node True,
     agent ''compliance'' ''AGT-020'' ''Compliance Agent'' Graph_node True,
     agent ''python_validator'' ''AGT-005'' ''Python Validator Agent'' Graph_node True,
     agent ''backtesting'' ''AGT-006'' ''Backtesting Agent'' Graph_node True,
     agent ''evaluator'' ''AGT-011'' ''Evaluator Agent'' Graph_node True,
     agent ''memory_ingest'' ''AGT-009'' ''Memory Agent (Failure Ingestion)'' Graph_node True,
     agent ''optimization'' ''AGT-007'' ''Optimization Agent (Walk-Forward)'' Graph_node True,
     agent ''risk_manager'' ''AGT-008'' ''Risk Manager Agent (AI Layer)'' Graph_node True,
     agent ''deployment'' ''AGT-012'' ''Deployment Agent'' Graph_node True,
     agent ''options_strategy_agent'' ''AGT-015'' ''Options Strategy Agent'' Graph_node True,
     agent ''memory_agent'' ''AGT-009'' ''Memory Agent'' Scheduled True,
     agent ''news_agent'' ''AGT-013'' ''News Agent'' Scheduled True,
     agent ''sentiment_agent'' ''AGT-014'' ''Sentiment Agent'' Scheduled True,
     agent ''data_ingestion_agent'' ''AGT-024'' ''Data Ingestion Agent'' Scheduled True,
     agent ''paper_trading_engine'' ''AGT-027'' ''Paper Trading Engine'' Scheduled True,
     agent ''execution_agent'' ''AGT-010'' ''Execution Agent (Live)'' Registry_only True,
     agent ''portfolio_manager_agent'' ''AGT-016'' ''Portfolio Manager Agent'' Registry_only True,
     agent AUDIT_AGENT_NAME ''AGT-021'' ''Audit Agent'' Registry_only True,
     agent ''notification_agent'' ''AGT-022'' ''Notification / Omni-Channel Agent'' Registry_only True,
     agent ''skill_registry_manager_agent'' ''AGT-023'' ''Skill Registry Manager Agent'' Registry_only True,
     agent ''scheduler_agent'' ''AGT-025'' ''Scheduler Agent'' Registry_only True,
     agent ''ceo_agent_chat'' ''AGT-026'' ''CEO Agent (Chat Interface)'' Registry_only True]"

section \<open>Control state\<close>

datatype control_error = UnknownAgentError string | AuditAgentCannotBeDisabled

datatype halted = AgentHaltedError string "string option"

definition control_row :: "db \<Rightarrow> string \<Rightarrow> agent_control_state option" where
  "control_row d nm = row_by acs_agent_name nm (db_control d)"

definition is_agent_enabled :: "db \<Rightarrow> string \<Rightarrow> bool" where
  "is_agent_enabled d nm =
    (case control_row d nm of None \<Rightarrow> True | Some row \<Rightarrow> acs_enabled row)"

definition require_enabled :: "db \<Rightarrow> string \<Rightarrow> halted + unit" where
  "require_enabled d nm =
    (case control_row d nm of
       Some row \<Rightarrow> if \<not> acs_enabled row then Inl (AgentHaltedError nm (acs_reason row)) else Inr ()
     | None \<Rightarrow> Inr ())"

definition set_agent_enabled ::
  "env \<Rightarrow> string \<Rightarrow> bool \<Rightarrow> string option \<Rightarrow> nat \<Rightarrow> db \<Rightarrow> (control_error + agent_control_state) \<times> db"
where
  "set_agent_enabled env nm enabled reason user d =
    (if nm \<notin> ad_name ` set KNOWN_AGENTS then (Inl (UnknownAgentError nm), d)
     else if nm = AUDIT_AGENT_NAME \<and> \<not> enabled then (Inl AuditAgentCannotBeDisabled, d)
     else
       (case control_row d nm of
          None \<Rightarrow>
           (let row = \<lparr>acs_agent_name = nm, acs_enabled = enabled, acs_reason = reason,
                 acs_updated_by_user_id = Some user, acs_updated_at = e_now env\<rparr>
            in (Inr row, d\<lparr>db_control := db_control d @ [row]\<rparr>))
        | Some old \<Rightarrow>
           (let row = old\<lparr>acs_enabled := enabled, acs_reason := reason,
                 acs_updated_by_user_id := Some user, acs_updated_at := e_now env\<rparr>
            in (Inr row, d\<lparr>db_control := update_first (\<lambda>r. acs_agent_name r = nm) (\<lambda>_. row)
                  (db_control d)\<rparr>))))"

lemma set_agent_enabled_row:
  "control_row (snd (set_agent_enabled env nm en rs u d)) x =
    (if x = nm \<and> (\<exists>row. fst (set_agent_enabled env nm en rs u d) = Inr row)
     then Some (case fst (set_agent_enabled env nm en rs u d) of Inr row \<Rightarrow> row) else control_row d x)"
proof (cases "control_row d nm")
  case None
  then show ?thesis
    by (simp add: set_agent_enabled_def control_row_def Let_def split: option.split)
next
  case (Some old)
  then have "acs_agent_name old = nm" by (auto simp: control_row_def dest: row_by_SomeD)
  then show ?thesis
    using Some by (simp add: set_agent_enabled_def control_row_def Let_def row_by_update_first)
qed

lemma require_enabled_iff: "require_enabled d nm = Inr () \<longleftrightarrow> is_agent_enabled d nm"
  by (auto simp: require_enabled_def is_agent_enabled_def split: option.splits)

text \<open>The audit agent can never be switched off, and the last accepted switch wins. Every call is
  either refused and changes nothing, or sets exactly the named known agent to the requested state;
  so in any state reached by any sequence of calls from one where the audit agent was enabled, it
  still is.\<close>
theorem audit_agent_always_enabled:
  assumes "is_agent_enabled d AUDIT_AGENT_NAME"
  shows "is_agent_enabled (fold (\<lambda>(t, nm, en, rs, u) d. snd (set_agent_enabled (env\<lparr>e_now := t\<rparr>) nm en rs u d)) calls d)
      AUDIT_AGENT_NAME
    \<and> (let (res, d') = set_agent_enabled env nm en rs u d in
        case res of
          Inl e \<Rightarrow> d' = d \<and> (nm \<notin> ad_name ` set KNOWN_AGENTS \<or> nm = AUDIT_AGENT_NAME \<and> \<not> en)
        | Inr row \<Rightarrow> nm \<in> ad_name ` set KNOWN_AGENTS \<and> is_agent_enabled d' nm = en
            \<and> (x \<noteq> nm \<longrightarrow> is_agent_enabled d' x = is_agent_enabled d x))"
proof (rule conjI)
  have step: "is_agent_enabled (snd (set_agent_enabled env' n e r us d1)) AUDIT_AGENT_NAME"
    if "is_agent_enabled d1 AUDIT_AGENT_NAME" for env' n e r us d1
    using that set_agent_enabled_row[of env' n e r us d1 AUDIT_AGENT_NAME]
    by (cases "n = AUDIT_AGENT_NAME")
      (auto simp: is_agent_enabled_def set_agent_enabled_def Let_def split: option.splits if_splits)
  show "is_agent_enabled (fold (\<lambda>(t, nm, en, rs, u) d.
      snd (set_agent_enabled (env\<lparr>e_now := t\<rparr>) nm en rs u d)) calls d) AUDIT_AGENT_NAME"
    using assms by (induction calls arbitrary: d) (auto intro: step)
  show "let (res, d') = set_agent_enabled env nm en rs u d in
        case res of
          Inl e \<Rightarrow> d' = d \<and> (nm \<notin> ad_name ` set KNOWN_AGENTS \<or> nm = AUDIT_AGENT_NAME \<and> \<not> en)
        | Inr row \<Rightarrow> nm \<in> ad_name ` set KNOWN_AGENTS \<and> is_agent_enabled d' nm = en
            \<and> (x \<noteq> nm \<longrightarrow> is_agent_enabled d' x = is_agent_enabled d x)"
    using set_agent_enabled_row[of env nm en rs u d]
    by (auto simp: is_agent_enabled_def set_agent_enabled_def Let_def split: option.splits)
qed

theorem audit_agent_always_enabled_witness:
  "is_agent_enabled (fold (\<lambda>(t, nm, en, rs, u) d.
      snd (set_agent_enabled (sample_env\<lparr>e_now := t\<rparr>) nm en rs u d))
     [(1, AUDIT_AGENT_NAME, False, None, 3), (2, ''news_agent'', False, None, 3)] empty_db) AUDIT_AGENT_NAME"
proof -
  have "is_agent_enabled empty_db AUDIT_AGENT_NAME"
    by (simp add: is_agent_enabled_def control_row_def empty_db_def)
  from audit_agent_always_enabled[OF this] show ?thesis by blast
qed

section \<open>Capabilities\<close>

record agent_meta =
  am_department :: string
  am_capabilities :: "string list"
  am_is_llm_backed :: bool

definition meta :: "string \<Rightarrow> string list \<Rightarrow> bool \<Rightarrow> agent_meta" where
  "meta dept caps llm = \<lparr>am_department = dept, am_capabilities = caps, am_is_llm_backed = llm\<rparr>"

definition AGENT_META :: "(string, agent_meta) dict" where
  "AGENT_META =
    [(''ceo_agent'', meta ''Executive''
        [''orchestrate'', ''synthesize'', ''decide'', ''context_assembly'', ''adhoc_synthesis''] True),
     (''ceo_agent_chat'', meta ''Executive'' [''converse''] True),
     (''market_analyst'', meta ''Market Intelligence'' [''market_analysis''] True),
     (''news_agent'', meta ''Market Intelligence'' [''news_ingestion''] False),
     (''sentiment_agent'', meta ''Market Intelligence'' [''sentiment_analysis''] True),
     (''strategy_generator'', meta ''Research'' [''strategy_generation''] True),
     (''options_strategy_agent'', meta ''Research'' [''options_strategy_generation''] True),
     (''python_code_generator'', meta ''Quant'' [''code_generation''] True),
     (''python_validator'', meta ''Quant'' [''code_validation''] False),
     (''backtesting'', meta ''Quant'' [''backtesting'', ''strategy_research''] False),
     (''optimization'', meta ''Quant'' [''optimization''] False),
     (''evaluator'', meta ''Quant'' [''strategy_evaluation''] False),
     (''risk_manager'', meta ''Risk & Governance'' [''risk_assessment''] True),
     (''compliance'', meta ''Risk & Governance'' [''compliance_check''] False),
     (''audit_agent'', meta ''Risk & Governance'' [''audit''] False),
     (''deployment'', meta ''Risk & Governance'' [''deployment_recommendation''] True),
     (''portfolio_manager_agent'', meta ''Portfolio'' [''capital_allocation'', ''portfolio_read''] True),
     (''memory_agent'', meta ''Operations'' [''memory_maintenance''] True),
     (''memory_ingest'', meta ''Operations'' [''memory_ingestion''] False),
     (''data_ingestion_agent'', meta ''Operations'' [''data_ingestion'', ''data_freshness''] False),
     (''scheduler_agent'', meta ''Operations'' [''scheduling''] False),
     (''notification_agent'', meta ''Operations'' [''notification''] False),
     (''skill_registry_manager_agent'', meta ''Operations'' [''skill_administration''] False),
     (''execution_agent'', meta ''Operations'' [''order_execution''] False),
     (''paper_trading_engine'', meta ''Operations'' [''paper_trading''] False)]"

definition CONCURRENCY_SAFE_CAPABILITIES :: "string list" where
  "CONCURRENCY_SAFE_CAPABILITIES =
    [''market_analysis'', ''news_ingestion'', ''sentiment_analysis'', ''portfolio_read'',
     ''data_freshness'', ''memory_ingestion'', ''memory_maintenance'', ''synthesize'',
     ''context_assembly'', ''adhoc_synthesis'']"

definition is_concurrency_safe :: "string \<Rightarrow> bool" where
  "is_concurrency_safe capability \<longleftrightarrow> capability \<in> set CONCURRENCY_SAFE_CAPABILITIES"

datatype health = H_disabled | H_degraded | H_running | H_idle

record agent_snapshot_row =
  sn_name :: string
  sn_agent_id :: string
  sn_display_name :: string
  sn_kind :: agent_kind
  sn_department :: string
  sn_capabilities :: "string list"
  sn_is_llm_backed :: bool
  sn_concurrency_limit :: nat
  sn_enabled :: bool
  sn_health :: health

definition latest_run_status :: "db \<Rightarrow> string \<Rightarrow> string option" where
  "latest_run_status d nm =
    (case sort_key (\<lambda>r. - ar_started_at r) (filter (\<lambda>r. ar_agent_name r = nm) (db_agent_runs d)) of
       [] \<Rightarrow> None | r # _ \<Rightarrow> Some (ar_status r))"

definition derive_health :: "bool \<Rightarrow> string option \<Rightarrow> health" where
  "derive_health enabled last_run_status =
    (if \<not> enabled then H_disabled
     else if last_run_status = Some ''Failed'' then H_degraded
     else if last_run_status = Some ''Running'' then H_running
     else H_idle)"

definition snapshot_row :: "db \<Rightarrow> agent_descriptor \<Rightarrow> agent_snapshot_row" where
  "snapshot_row d a =
    (let m = dict_get AGENT_META (ad_name a); enabled = is_agent_enabled d (ad_name a) in
     \<lparr>sn_name = ad_name a, sn_agent_id = ad_agent_id a, sn_display_name = ad_display_name a,
      sn_kind = ad_kind a,
      sn_department = (case m of Some x \<Rightarrow> am_department x | None \<Rightarrow> ''Operations''),
      sn_capabilities = (case m of Some x \<Rightarrow> am_capabilities x | None \<Rightarrow> []),
      sn_is_llm_backed = (case m of Some x \<Rightarrow> am_is_llm_backed x | None \<Rightarrow> True),
      sn_concurrency_limit = 1,
      sn_enabled = enabled,
      sn_health = derive_health enabled (latest_run_status d (ad_name a))\<rparr>)"

definition snapshot :: "db \<Rightarrow> agent_snapshot_row list" where
  "snapshot d = map (snapshot_row d) KNOWN_AGENTS"

definition find_by_capability :: "db \<Rightarrow> string \<Rightarrow> string list" where
  "find_by_capability d capability =
    map sn_name (filter (\<lambda>r. capability \<in> set (sn_capabilities r) \<and> sn_enabled r) (snapshot d))"

definition declares :: "string \<Rightarrow> string \<Rightarrow> bool" where
  "declares nm cap \<longleftrightarrow>
    (case dict_get AGENT_META nm of Some m \<Rightarrow> cap \<in> set (am_capabilities m) | None \<Rightarrow> False)"

lemma snapshot_row_simps [simp]:
  "sn_name (snapshot_row d a) = ad_name a"
  "sn_enabled (snapshot_row d a) = is_agent_enabled d (ad_name a)"
  "cap \<in> set (sn_capabilities (snapshot_row d a)) \<longleftrightarrow> declares (ad_name a) cap"
  "sn_health (snapshot_row d a)
     = derive_health (is_agent_enabled d (ad_name a)) (latest_run_status d (ad_name a))"
  by (auto simp: snapshot_row_def Let_def declares_def split: option.splits)

lemma find_by_capability_set:
  "set (find_by_capability d cap)
    = {nm \<in> ad_name ` set KNOWN_AGENTS. declares nm cap \<and> is_agent_enabled d nm}"
  by (auto simp: find_by_capability_def snapshot_def filter_map comp_def)

text \<open>Selection by capability is exact: the agents offered for a capability are the known agents
  that declare it and are administratively enabled, and an agent's health reads disabled exactly
  when it is switched off.\<close>
theorem find_by_capability_exact:
  "set (find_by_capability d cap)
     = {nm \<in> ad_name ` set KNOWN_AGENTS. declares nm cap \<and> is_agent_enabled d nm}
   \<and> \<not> (\<exists>r \<in> set (snapshot d). sn_health r = H_disabled \<longleftrightarrow> is_agent_enabled d (sn_name r))"
  by (auto simp: find_by_capability_set snapshot_def Let_def derive_health_def split: if_splits)

end
