(* ===== verification/Artefacts.thy ===== *)
theory Artefacts
  imports Freshness AgentRegistry
begin

text \<open>
  Typed result artefacts (\<open>src/orchestration/artefact_store.py\<close>), the dispatch of one task to its
  agent (\<open>src/orchestration/agent_invoker.py\<close>), and the derived hand-off view
  (\<open>src/orchestration/handoffs.py\<close>). What a capability handler computes is the environment's
  \<open>e_handler\<close>; a failed dispatch leaves the database as it was, because its session is closed
  without a commit.
\<close>

section \<open>The artefact store\<close>

definition build_provenance ::
  "env \<Rightarrow> string \<Rightarrow> nat \<Rightarrow> nat \<Rightarrow> json \<Rightarrow> json \<Rightarrow> json \<Rightarrow> string list \<Rightarrow> json" where
  "build_provenance env ag tid rid model_used provider_used tools_used inputs = JObj
    [(''agent'', JStr ag), (''task_id'', JUuid tid), (''run_id'', JUuid rid),
     (''model_used'', model_used), (''provider_used'', provider_used), (''tools_used'', tools_used),
     (''inputs'', JArr (map JStr inputs)), (''produced_at'', JStr (isoformat (e_now env) @ ''+00:00''))]"

definition prior_version :: "nat \<Rightarrow> string \<Rightarrow> db \<Rightarrow> nat" where
  "prior_version tid atype d =
    foldr max (map art_version
      (filter (\<lambda>a. art_task_id a = tid \<and> art_type a = atype) (db_artefacts d))) 0"

definition new_artefact ::
  "env \<Rightarrow> nat \<Rightarrow> nat \<Rightarrow> string \<Rightarrow> json \<Rightarrow> json \<Rightarrow> artefact_disposition \<Rightarrow> artefact_coverage option
    \<Rightarrow> nat option \<Rightarrow> db \<Rightarrow> result_artefact" where
  "new_artefact env rid tid atype normalised provenance disposition coverage audit_ref d =
    \<lparr>art_id = db_next_id d, art_run_id = rid, art_task_id = tid, art_type = atype,
     art_version = prior_version tid atype d + 1, art_payload = normalised,
     art_provenance = provenance, art_disposition = Some disposition,
     art_consumed_by_task_ids = [], art_coverage = coverage, art_audit_reference = audit_ref,
     art_created_at = e_now env\<rparr>"

definition persist_artefact ::
  "env \<Rightarrow> nat \<Rightarrow> nat \<Rightarrow> string \<Rightarrow> json \<Rightarrow> json \<Rightarrow> artefact_disposition \<Rightarrow> artefact_coverage option
    \<Rightarrow> nat option \<Rightarrow> db \<Rightarrow> string + (result_artefact \<times> db)" where
  "persist_artefact env rid tid atype payload provenance disposition coverage audit_ref d =
    (case e_validate_payload env atype payload of
       Inl err \<Rightarrow> Inl err
     | Inr normalised \<Rightarrow>
        (let row = new_artefact env rid tid atype normalised provenance disposition coverage audit_ref d
         in Inr (row, d\<lparr>db_artefacts := db_artefacts d @ [row], db_next_id := Suc (db_next_id d)\<rparr>)))"

definition consume :: "nat \<Rightarrow> result_artefact \<Rightarrow> result_artefact" where
  "consume by a =
    a\<lparr>art_consumed_by_task_ids := (if by \<in> set (art_consumed_by_task_ids a)
        then art_consumed_by_task_ids a else art_consumed_by_task_ids a @ [by]),
      art_disposition := Some DISP_CONSUMED\<rparr>"

definition mark_consumed :: "nat \<Rightarrow> nat \<Rightarrow> db \<Rightarrow> db" where
  "mark_consumed aid by d = set_artefact aid (consume by) d"

definition undispositioned_count :: "nat \<Rightarrow> db \<Rightarrow> nat" where
  "undispositioned_count rid d =
    length (filter (\<lambda>a. art_run_id a = rid \<and> art_disposition a = None) (db_artefacts d))"

section \<open>Dispatching a task\<close>

datatype dispatch_error = AgentUnavailable string | DataStale string | HandlerError string

definition quoted :: "string \<Rightarrow> string" where
  "quoted s = [CHR 0x27] @ s @ [CHR 0x27]"

definition upstream_artefacts :: "db \<Rightarrow> task \<Rightarrow> result_artefact list" where
  "upstream_artefacts d t =
    (let dep_ids = map dep_prerequisite_task_id
           (filter (\<lambda>e. dep_dependent_task_id e = task_id t) (db_deps d))
     in filter (\<lambda>a. art_task_id a \<in> set dep_ids) (db_artefacts d))"

definition json_field :: "json \<Rightarrow> string \<Rightarrow> json \<Rightarrow> json" where
  "json_field j k dflt = (case json_get j k of Some v \<Rightarrow> v | None \<Rightarrow> dflt)"

definition consume_all :: "nat \<Rightarrow> result_artefact list \<Rightarrow> db \<Rightarrow> db" where
  "consume_all tid arts d = foldl (\<lambda>d a. mark_consumed (art_id a) tid d) d arts"

definition dispatch :: "env \<Rightarrow> task \<Rightarrow> db \<Rightarrow> dispatch_error + (nat \<times> db)" where
  "dispatch env t d =
    (if task_assigned_agent t \<notin> fst ` set AGENT_META then
       Inl (AgentUnavailable (''unknown agent '' @ quoted (task_assigned_agent t)))
     else if \<not> is_agent_enabled d (task_assigned_agent t) then
       Inl (AgentUnavailable (''agent '' @ quoted (task_assigned_agent t)
              @ '' is administratively disabled''))
     else case List.find (\<lambda>ds. \<not> is_fresh env d ds) (task_required_datasets t) of
       Some ds \<Rightarrow> Inl (DataStale ds)
     | None \<Rightarrow>
        (let upstream = upstream_artefacts d t;
             d1 = consume_all (task_id t) upstream d;
             d2 = set_task (task_id t)
                    (\<lambda>x. x\<lparr>task_received_inputs := map (\<lambda>a. (art_id a, art_type a)) upstream\<rparr>) d1
         in case e_handler env t upstream of
              Inl err \<Rightarrow> Inl (HandlerError err)
            | Inr (atype, payload, extra) \<Rightarrow>
               (let provenance = build_provenance env (task_assigned_agent t) (task_id t) (task_run_id t)
                      (json_field extra ''model_used'' JNull) (json_field extra ''provider_used'' JNull)
                      (json_field extra ''tools_used'' (JArr []))
                      (map (\<lambda>a. uuid_str (art_id a)) upstream)
                in case persist_artefact env (task_run_id t) (task_id t) atype payload provenance
                          DISP_INFORMATIONAL None None d2 of
                     Inl err \<Rightarrow> Inl (HandlerError err)
                   | Inr (art, d3) \<Rightarrow>
                      (let d4 = set_task (task_id t) (\<lambda>x. x\<lparr>task_result_artefact_id := Some (art_id art)\<rparr>) d3;
                           (audit_id, d5) = emit env (task_run_id t) ''result.created'' ''artefact''
                             (Some (art_id art))
                             (JObj [(''artefact_type'', JStr atype), (''task_id'', JUuid (task_id t))]) True d4;
                           d6 = set_artefact (art_id art) (\<lambda>a. a\<lparr>art_audit_reference := audit_id\<rparr>) d5
                       in Inr (art_id art, d6)))))"

section \<open>Hand-offs\<close>

record handoff =
  ho_run_id :: nat
  ho_from_task_id :: nat
  ho_from_agent :: "string option"
  ho_to_task_id :: nat
  ho_to_agent :: "string option"
  ho_artefact_id :: nat
  ho_artefact_type :: string
  ho_delivered_at :: timestamp
  ho_requested_but_missing :: "string list"

definition run_task :: "db \<Rightarrow> nat \<Rightarrow> nat \<Rightarrow> task option" where
  "run_task d rid tid = row_by task_id tid (filter (\<lambda>t. task_run_id t = rid) (db_tasks d))"

definition handoff_row :: "db \<Rightarrow> nat \<Rightarrow> result_artefact \<Rightarrow> nat \<Rightarrow> handoff" where
  "handoff_row d rid a consumer =
    (let from_task = run_task d rid (art_task_id a); to_task = run_task d rid consumer in
     \<lparr>ho_run_id = rid, ho_from_task_id = art_task_id a,
      ho_from_agent = map_option task_assigned_agent from_task,
      ho_to_task_id = consumer, ho_to_agent = map_option task_assigned_agent to_task,
      ho_artefact_id = art_id a, ho_artefact_type = art_type a, ho_delivered_at = art_created_at a,
      ho_requested_but_missing = (case to_task of None \<Rightarrow> []
        | Some t \<Rightarrow> filter (\<lambda>ty. ty \<notin> set (map snd (task_received_inputs t))) (task_required_inputs t))\<rparr>)"

definition list_handoffs :: "db \<Rightarrow> nat \<Rightarrow> handoff list" where
  "list_handoffs d rid =
    concat (map (\<lambda>a. map (handoff_row d rid a) (art_consumed_by_task_ids a))
      (sort_key art_created_at (filter (\<lambda>a. art_run_id a = rid) (db_artefacts d))))"

definition inbound_handoffs :: "db \<Rightarrow> nat \<Rightarrow> string \<Rightarrow> handoff list" where
  "inbound_handoffs d rid nm = filter (\<lambda>h. ho_to_agent h = Some nm) (list_handoffs d rid)"

definition outbound_handoffs :: "db \<Rightarrow> nat \<Rightarrow> string \<Rightarrow> handoff list" where
  "outbound_handoffs d rid nm = filter (\<lambda>h. ho_from_agent h = Some nm) (list_handoffs d rid)"

section \<open>Frames\<close>

lemma consume_all_frame [simp]:
  "db_runs (consume_all tid arts d) = db_runs d" "db_tasks (consume_all tid arts d) = db_tasks d"
  "db_deps (consume_all tid arts d) = db_deps d" "db_events (consume_all tid arts d) = db_events d"
  "db_plans (consume_all tid arts d) = db_plans d"
  "db_audit (consume_all tid arts d) = db_audit d" "db_next_id (consume_all tid arts d) = db_next_id d"
  "db_approvals (consume_all tid arts d) = db_approvals d"
  "db_decisions (consume_all tid arts d) = db_decisions d"
  "db_strategies (consume_all tid arts d) = db_strategies d"
  by (induction arts arbitrary: d) (simp_all add: consume_all_def mark_consumed_def)

lemma consume_all_artefacts:
  "db_artefacts (consume_all tid arts d)
    = map (\<lambda>a. if art_id a \<in> art_id ` set arts then consume tid a else a) (db_artefacts d)"
proof (induction arts arbitrary: d)
  case (Cons b arts)
  have idem: "consume tid (consume tid a) = consume tid a" "art_id (consume tid a) = art_id a" for a
    by (simp_all add: consume_def)
  have "consume_all tid (b # arts) d = consume_all tid arts (mark_consumed (art_id b) tid d)"
    by (simp add: consume_all_def)
  then show ?case
    using Cons[of "mark_consumed (art_id b) tid d"]
    by (auto simp: mark_consumed_def set_artefact_def update_where_def idem)
qed (simp add: consume_all_def)

lemma dispatch_cases:
  assumes "dispatch env t d = Inr (aid, d')"
  obtains atype payload extra normalised where
    "task_assigned_agent t \<in> fst ` set AGENT_META" "is_agent_enabled d (task_assigned_agent t)"
    "\<And>ds. ds \<in> set (task_required_datasets t) \<Longrightarrow> is_fresh env d ds"
    "e_handler env t (upstream_artefacts d t) = Inr (atype, payload, extra)"
    "e_validate_payload env atype payload = Inr normalised" "aid = db_next_id d"
proof -
  have "task_assigned_agent t \<in> fst ` set AGENT_META" "is_agent_enabled d (task_assigned_agent t)"
    using assms by (auto simp: dispatch_def split: if_splits)
  moreover have "List.find (\<lambda>ds. \<not> is_fresh env d ds) (task_required_datasets t) = None"
    using assms by (auto simp: dispatch_def split: if_splits option.splits)
  then have "ds \<in> set (task_required_datasets t) \<Longrightarrow> is_fresh env d ds" for ds
    by (simp add: find_None_iff)
  ultimately show thesis
    using assms that
    by (auto simp: dispatch_def Let_def persist_artefact_def new_artefact_def case_prod_unfold
        split: if_splits option.splits sum.splits)
qed

lemma dispatch_conserves:
  assumes "conserves env d0 d" "dispatch env t d = Inr (aid, d')"
  shows "conserves env d0 d'"
  using assms
  by (auto simp: dispatch_def Let_def persist_artefact_def case_prod_unfold
      split: if_splits option.splits sum.splits intro!: conserving elim!: conserves_insert)

end
