(* ===== verification/Resolver.thy ===== *)
theory Resolver
  imports Artefacts
begin

text \<open>
  Dependency resolution (\<open>src/orchestration/dependency_resolver.py\<close>): which tasks of a run are
  ready, what completing a task releases, and what a failed prerequisite blocks.
\<close>

section \<open>Task rows after an update\<close>

lemma get_task_set_task [simp]:
  assumes "\<And>t. task_id (f t) = task_id t"
  shows "get_task (set_task i f d) j = (if j = i then map_option f (get_task d j) else get_task d j)"
  using assms
  by (cases "row_by task_id j (db_tasks d)")
    (auto simp: get_task_def set_task_def row_by_update_where dest: row_by_SomeD)

lemma get_task_frame [simp]:
  "get_task (set_run i f1 d) j = get_task d j" "get_task (set_dep i f2 d) j = get_task d j"
  "get_task (set_artefact i f3 d) j = get_task d j" "get_task (set_decision i f4 d) j = get_task d j"
  "get_task (set_approval i f5 d) j = get_task d j" "get_task (set_strategy i f6 d) j = get_task d j"
  "get_task (snd (emit env rid et st sid p a d)) j = get_task d j"
  "get_task (snd (write_audit_entry env c d)) j = get_task d j"
  by (simp_all add: get_task_def)

lemma get_task_id: "get_task d i = Some t \<Longrightarrow> task_id t = i"
  by (auto simp: get_task_def dest: row_by_SomeD)

definition task_state :: "db \<Rightarrow> nat \<Rightarrow> task_status option" where
  "task_state d i = map_option task_status_of (get_task d i)"

lemma task_state_frame [simp]:
  "task_state (set_run i f1 d) j = task_state d j" "task_state (set_dep i f2 d) j = task_state d j"
  "task_state (set_artefact i f3 d) j = task_state d j" "task_state (set_decision i f4 d) j = task_state d j"
  "task_state (set_approval i f5 d) j = task_state d j" "task_state (set_strategy i f6 d) j = task_state d j"
  "task_state (snd (emit env rid et st sid p a d)) j = task_state d j"
  "task_state (snd (write_audit_entry env c d)) j = task_state d j"
  by (simp_all add: task_state_def)

section \<open>Readiness\<close>

definition hard_deps :: "db \<Rightarrow> nat \<Rightarrow> task_dependency list" where
  "hard_deps d tid =
    filter (\<lambda>e. dep_dependent_task_id e = tid \<and> dep_policy e = Hard) (db_deps d)"

definition hard_satisfied :: "db \<Rightarrow> nat \<Rightarrow> bool" where
  "hard_satisfied d tid \<longleftrightarrow> list_all (\<lambda>e. dep_state_of e = DEP_SATISFIED) (hard_deps d tid)"

definition ready_candidate :: "nat \<Rightarrow> task \<Rightarrow> bool" where
  "ready_candidate rid t \<longleftrightarrow> task_run_id t = rid \<and> task_status_of t \<in>
     {TASK_PLANNED, TASK_QUEUED, TASK_READY, TASK_WAITING_FOR_DEPENDENCY, TASK_RETRYING}"

definition set_status :: "task_status \<Rightarrow> task \<Rightarrow> task" where
  "set_status s t = t\<lparr>task_status_of := s\<rparr>"

definition waiting_payload :: "task_dependency option \<Rightarrow> json" where
  "waiting_payload waiting_on = JObj
    [(''waiting_for'', opt_json (\<lambda>e. JStr (dep_required_artefact_type e)) waiting_on),
     (''owner_task_id'', opt_json (\<lambda>e. JUuid (dep_prerequisite_task_id e)) waiting_on),
     (''reason'', JStr (case waiting_on of
        Some e \<Rightarrow> ''Waiting for '' @ dep_required_artefact_type e
      | None \<Rightarrow> ''Waiting on an upstream dependency''))]"

definition ready_step :: "env \<Rightarrow> nat \<Rightarrow> (nat \<times> bool) list \<times> db \<Rightarrow> task \<Rightarrow> (nat \<times> bool) list \<times> db" where
  "ready_step env rid st t =
    (let (out, d) = st; hard = hard_deps d (task_id t) in
     if list_all (\<lambda>e. dep_state_of e = DEP_SATISFIED) hard then
       (out @ [(task_id t, task_is_concurrency_safe t)],
        if task_status_of t \<noteq> TASK_READY then
          snd (emit env rid ''task.ready'' ''task'' (Some (task_id t)) (JObj []) False
            (set_task (task_id t) (set_status TASK_READY) d))
        else d)
     else if task_status_of t \<noteq> TASK_WAITING_FOR_DEPENDENCY then
       (out,
        snd (emit env rid ''task.waiting_for_dependency'' ''task'' (Some (task_id t))
          (waiting_payload (List.find (\<lambda>e. dep_state_of e \<noteq> DEP_SATISFIED) hard)) False
          (set_task (task_id t) (set_status TASK_WAITING_FOR_DEPENDENCY) d)))
     else (out, d))"

definition ready_tasks :: "env \<Rightarrow> nat \<Rightarrow> db \<Rightarrow> (nat \<times> bool) list \<times> db" where
  "ready_tasks env rid d =
    foldl (ready_step env rid) ([], d) (filter (ready_candidate rid) (db_tasks d))"

section \<open>Completion\<close>

definition release_step :: "env \<Rightarrow> nat \<Rightarrow> db \<Rightarrow> task_dependency \<Rightarrow> db" where
  "release_step env rid d e =
    (let d1 = set_dep (dep_id e) (\<lambda>x. x\<lparr>dep_state_of := DEP_SATISFIED,
                dep_satisfied_at := Some (e_now env)\<rparr>) d;
         d2 = snd (emit env rid ''dependency.satisfied'' ''dependency'' (Some (dep_id e))
                (JObj [(''dependent_task_id'', JUuid (dep_dependent_task_id e)),
                       (''required_artefact_type'', JStr (dep_required_artefact_type e)),
                       (''reason'', JStr (dep_required_artefact_type e @ '' is now available''))]) False d1)
     in case get_task d2 (dep_dependent_task_id e) of
          None \<Rightarrow> d2
        | Some dpt \<Rightarrow>
           if terminal_task (task_status_of dpt) then d2
           else if list_all (\<lambda>x. dep_state_of x = DEP_SATISFIED) (hard_deps d2 (task_id dpt)) then
             snd (emit env rid ''task.ready'' ''task'' (Some (task_id dpt)) (JObj []) False
               (set_task (task_id dpt) (set_status TASK_READY) d2))
           else d2)"

definition evaluate_on_completion :: "env \<Rightarrow> task \<Rightarrow> db \<Rightarrow> db" where
  "evaluate_on_completion env t d =
    foldl (release_step env (task_run_id t)) d
      (filter (\<lambda>e. dep_prerequisite_task_id e = task_id t \<and> dep_state_of e = DEP_UNSATISFIED) (db_deps d))"

section \<open>Failure\<close>

definition block_step :: "env \<Rightarrow> task \<Rightarrow> string \<Rightarrow> db \<Rightarrow> task_dependency \<Rightarrow> db" where
  "block_step env prereq reason d e =
    (let d1 = set_dep (dep_id e) (\<lambda>x. x\<lparr>dep_state_of := DEP_FAILED\<rparr>) d;
         d2 = snd (emit env (task_run_id prereq) ''dependency.failed'' ''dependency'' (Some (dep_id e))
                (JObj [(''dependent_task_id'', JUuid (dep_dependent_task_id e)),
                       (''reason'', JStr reason)]) True d1)
     in case get_task d2 (dep_dependent_task_id e) of
          None \<Rightarrow> d2
        | Some dpt \<Rightarrow>
           if terminal_task (task_status_of dpt) then d2
           else
             (let why = ''prerequisite task '' @ quoted (task_capability prereq) @ '' '' @ reason in
              snd (emit env (task_run_id prereq) ''task.blocked'' ''task'' (Some (task_id dpt))
                (JObj [(''blocked_reason'', JStr why), (''reason'', JStr why)]) True
                (set_task (task_id dpt)
                  (\<lambda>x. x\<lparr>task_status_of := TASK_BLOCKED, task_blocked_reason := Some why\<rparr>) d2))))"

definition mark_unsatisfiable :: "env \<Rightarrow> task \<Rightarrow> string \<Rightarrow> db \<Rightarrow> db" where
  "mark_unsatisfiable env prereq reason d =
    foldl (block_step env prereq reason) d
      (filter (\<lambda>e. dep_prerequisite_task_id e = task_id prereq \<and> dep_policy e = Hard
                \<and> dep_state_of e \<noteq> DEP_SATISFIED) (db_deps d))"

lemmas resolver_steps = ready_step_def release_step_def block_step_def

subsection \<open>Frames\<close>

lemma set_status_id [simp]: "task_id (set_status s t) = task_id t"
  "task_status_of (set_status s t) = s" "task_run_id (set_status s t) = task_run_id t"
  by (simp_all add: set_status_def)

lemma ready_step_conserves:
  "conserves env d0 (snd st) \<Longrightarrow> conserves env d0 (snd (ready_step env rid st t))"
  by (cases st) (auto simp: ready_step_def Let_def intro!: conserving)

lemma ready_tasks_conserves [conserving]:
  assumes "conserves env d0 d"
  shows "conserves env d0 (snd (ready_tasks env rid d))"
  unfolding ready_tasks_def
  by (rule foldl_invariant[of "\<lambda>st. conserves env d0 (snd st)"])
    (use assms in \<open>auto intro: ready_step_conserves\<close>)

lemma release_step_conserves: "conserves env d0 d \<Longrightarrow> conserves env d0 (release_step env rid d e)"
  by (auto simp: release_step_def Let_def intro!: conserving split: option.splits)

lemma evaluate_conserves [conserving]:
  assumes "conserves env d0 d"
  shows "conserves env d0 (evaluate_on_completion env t d)"
  unfolding evaluate_on_completion_def
  using assms by (intro foldl_invariant[of "conserves env d0"]) (auto intro: release_step_conserves)

lemma block_step_conserves: "conserves env d0 d \<Longrightarrow> conserves env d0 (block_step env p r d e)"
  by (auto simp: block_step_def Let_def intro!: conserving split: option.splits)

lemma mark_unsatisfiable_conserves [conserving]:
  assumes "conserves env d0 d"
  shows "conserves env d0 (mark_unsatisfiable env t r d)"
  unfolding mark_unsatisfiable_def
  using assms by (intro foldl_invariant[of "conserves env d0"]) (auto intro: block_step_conserves)

text \<open>Terminal tasks stay put: no resolver operation changes the status of a task that has ended.\<close>
definition keeps_terminal :: "db \<Rightarrow> db \<Rightarrow> bool" where
  "keeps_terminal d d' \<longleftrightarrow>
    (\<forall>i s. task_state d i = Some s \<and> terminal_task s \<longrightarrow> task_state d' i = Some s)"

lemma keeps_terminal_refl [simp, intro]: "keeps_terminal d d"
  by (simp add: keeps_terminal_def)

lemma keeps_terminal_trans: "keeps_terminal d1 d2 \<Longrightarrow> keeps_terminal d2 d3 \<Longrightarrow> keeps_terminal d1 d3"
  by (auto simp: keeps_terminal_def)

lemma task_state_set_task:
  assumes "\<And>t. task_id (f t) = task_id t"
  shows "task_state (set_task i f d) j
    = (if j = i then map_option (\<lambda>t. task_status_of (f t)) (get_task d j) else task_state d j)"
  using assms by (simp add: task_state_def option.map_comp comp_def)

lemma set_task_keeps:
  assumes "\<And>t. task_id (f t) = task_id t" "\<And>t. get_task d i = Some t \<Longrightarrow> \<not> terminal_task (task_status_of t)"
  shows "keeps_terminal d (set_task i f d)"
  using assms by (auto simp: keeps_terminal_def task_state_set_task task_state_def)

lemma keeps_terminal_view:
  "(\<And>i. task_state d' i = task_state d'' i) \<Longrightarrow> keeps_terminal d d' \<Longrightarrow> keeps_terminal d d''"
  "(\<And>i. task_state d i = task_state d0 i) \<Longrightarrow> keeps_terminal d d' \<Longrightarrow> keeps_terminal d0 d'"
  by (simp_all add: keeps_terminal_def)

lemma emit_keeps [simp]:
  "keeps_terminal d (snd (emit env rid et st sid p a d')) \<longleftrightarrow> keeps_terminal d d'"
  "keeps_terminal d (set_dep i f d') \<longleftrightarrow> keeps_terminal d d'"
  by (simp_all add: keeps_terminal_def)

lemma release_step_keeps: "keeps_terminal d (release_step env rid d e)"
proof (cases "get_task d (dep_dependent_task_id e)")
  case (Some t)
  have "keeps_terminal d (set_task (task_id t) (set_status TASK_READY) d')"
    if "\<not> terminal_task (task_status_of t)" "\<And>i. task_state d' i = task_state d i" "get_task d' = get_task d" for d'
    using set_task_keeps[of "set_status TASK_READY" d' "task_id t"] get_task_id[OF Some] Some that
    by (auto intro: keeps_terminal_view(2))
  then show ?thesis using Some by (auto simp: release_step_def Let_def fun_eq_iff)
qed (simp add: release_step_def Let_def)

lemma block_step_keeps: "keeps_terminal d (block_step env p r d e)"
proof (cases "get_task d (dep_dependent_task_id e)")
  case (Some t)
  have "keeps_terminal d (set_task (task_id t) f d')"
    if "\<not> terminal_task (task_status_of t)" "\<And>i. task_state d' i = task_state d i" "get_task d' = get_task d"
      "\<And>t. task_id (f t) = task_id t" for d' f
    using set_task_keeps[of f d' "task_id t"] get_task_id[OF Some] Some that
    by (auto intro: keeps_terminal_view(2))
  then show ?thesis using Some by (auto simp: block_step_def Let_def fun_eq_iff)
qed (simp add: block_step_def Let_def)

lemma foldl_keeps:
  "(\<And>d x. keeps_terminal d (f d x)) \<Longrightarrow> keeps_terminal d (foldl f d xs)"
  by (induction xs arbitrary: d) (auto intro: keeps_terminal_trans)

lemma evaluate_keeps: "keeps_terminal d (evaluate_on_completion env t d)"
  unfolding evaluate_on_completion_def by (intro foldl_keeps release_step_keeps)

lemma mark_unsatisfiable_keeps: "keeps_terminal d (mark_unsatisfiable env t r d)"
  unfolding mark_unsatisfiable_def by (intro foldl_keeps block_step_keeps)

section \<open>What the resolver decides\<close>

definition unique_ids :: "db \<Rightarrow> bool" where
  "unique_ids d \<longleftrightarrow> distinct (map task_id (db_tasks d)) \<and> distinct (map dep_id (db_deps d))"

lemma task_state_row:
  "distinct (map task_id (db_tasks d)) \<Longrightarrow> t \<in> set (db_tasks d) \<Longrightarrow>
   get_task d (task_id t) = Some t \<and> task_state d (task_id t) = Some (task_status_of t)"
  by (simp add: task_state_def get_task_def row_by_distinct)

subsection \<open>Readiness\<close>

definition settled :: "db \<Rightarrow> nat \<Rightarrow> task_status" where
  "settled d i = (if hard_satisfied d i then TASK_READY else TASK_WAITING_FOR_DEPENDENCY)"

lemma ready_step_effect:
  assumes "get_task d (task_id t) = Some t"
  shows "db_deps (snd (ready_step env rid (out, d) t)) = db_deps d"
    and "fst (ready_step env rid (out, d) t)
      = out @ (if hard_satisfied d (task_id t) then [(task_id t, task_is_concurrency_safe t)] else [])"
    and "task_state (snd (ready_step env rid (out, d) t)) j
      = (if j = task_id t then Some (settled d (task_id t)) else task_state d j)"
    and "j \<noteq> task_id t \<Longrightarrow> get_task (snd (ready_step env rid (out, d) t)) j = get_task d j"
  using assms
  by (auto simp: ready_step_def Let_def hard_satisfied_def settled_def task_state_set_task
      task_state_def[of d "task_id t"])

lemma ready_fold_effect:
  assumes "distinct (map task_id ts)" "\<And>t. t \<in> set ts \<Longrightarrow> get_task d (task_id t) = Some t"
  shows "map fst (fst (foldl (ready_step env rid) (out, d) ts))
      = map fst out @ map task_id (filter (\<lambda>t. hard_satisfied d (task_id t)) ts)
    \<and> (\<forall>j. task_state (snd (foldl (ready_step env rid) (out, d) ts)) j
      = (if j \<in> task_id ` set ts then Some (settled d j) else task_state d j))"
  using assms
proof (induction ts arbitrary: out d)
  case (Cons t ts)
  let ?st = "ready_step env rid (out, d) t"
  have "get_task d (task_id t) = Some t" using Cons.prems(2) by simp
  note eff = ready_step_effect[OF this, where env = env and rid = rid and out = out]
  have deps: "hard_satisfied (snd ?st) i = hard_satisfied d i" "settled (snd ?st) i = settled d i" for i
    by (simp_all add: hard_satisfied_def settled_def hard_deps_def eff(1))
  have "get_task (snd ?st) (task_id u) = Some u" if "u \<in> set ts" for u
  proof -
    have "task_id u \<noteq> task_id t" using Cons.prems(1) imageI[OF that, of task_id] by auto
    then have "get_task (snd ?st) (task_id u) = get_task d (task_id u)" by (rule eff(4))
    then show ?thesis using Cons.prems(2)[of u] that by simp
  qed
  then have IH: "map fst (fst (foldl (ready_step env rid) (fst ?st, snd ?st) ts))
      = map fst (fst ?st) @ map task_id (filter (\<lambda>t. hard_satisfied (snd ?st) (task_id t)) ts)
    \<and> (\<forall>j. task_state (snd (foldl (ready_step env rid) (fst ?st, snd ?st) ts)) j
      = (if j \<in> task_id ` set ts then Some (settled (snd ?st) j) else task_state (snd ?st) j))"
    using Cons.prems(1) by (intro Cons.IH) auto
  show ?case
    using IH[unfolded prod.collapse] eff(2,3) Cons.prems(1) by (auto simp: deps)
qed simp

text \<open>Readiness is exact. The tasks offered for dispatch are, in table order, the run's planned,
  queued, ready, waiting or retrying tasks all of whose hard dependencies are satisfied; each such
  task is then marked ready, every other such task is marked waiting for a dependency, and no other
  task of the database changes its status.\<close>
theorem ready_tasks_exact:
  assumes "unique_ids d"
  shows "let (out, d') = ready_tasks env rid d in
    map fst out = map task_id (filter (\<lambda>t. ready_candidate rid t \<and> hard_satisfied d (task_id t)) (db_tasks d))
    \<and> (\<forall>t \<in> set (db_tasks d). task_state d' (task_id t) = Some
         (if \<not> ready_candidate rid t then task_status_of t
          else if hard_satisfied d (task_id t) then TASK_READY else TASK_WAITING_FOR_DEPENDENCY))"
proof -
  let ?ts = "filter (ready_candidate rid) (db_tasks d)"
  have dist: "distinct (map task_id (db_tasks d))" using assms by (simp add: unique_ids_def)
  note eff = ready_fold_effect[of ?ts d env rid "[]"]
  have cand: "task_id t \<in> task_id ` set ?ts \<longleftrightarrow> ready_candidate rid t" if "t \<in> set (db_tasks d)" for t
    using that dist by (auto simp: distinct_map dest: inj_onD)
  have "map fst (fst (ready_tasks env rid d)) = map task_id (filter (\<lambda>t. hard_satisfied d (task_id t)) ?ts)
      \<and> (\<forall>j. task_state (snd (ready_tasks env rid d)) j
        = (if j \<in> task_id ` set ?ts then Some (settled d j) else task_state d j))"
    using eff dist task_state_row[OF dist] by (simp add: ready_tasks_def distinct_map_filter)
  then show ?thesis
    using cand task_state_row[OF dist] by (auto simp: case_prod_unfold settled_def conj_commute)
qed

subsection \<open>Completion and failure, edge by edge\<close>

definition other_edges_same :: "task_dependency \<Rightarrow> db \<Rightarrow> db \<Rightarrow> bool" where
  "other_edges_same e d d' \<longleftrightarrow> (\<forall>i. i \<noteq> dep_dependent_task_id e \<longrightarrow>
     hard_satisfied d' i = hard_satisfied d i \<and> task_state d' i = task_state d i)"

lemma filter_update_where:
  "(\<And>x. x \<in> set xs \<Longrightarrow> Q x \<Longrightarrow> \<not> P x \<and> \<not> P (f x)) \<Longrightarrow> filter P (update_where Q f xs) = filter P xs"
  by (induction xs) auto

lemma hard_satisfied_set_dep:
  assumes "\<And>x. x \<in> set (db_deps d) \<Longrightarrow> dep_id x = e \<Longrightarrow>
      dep_dependent_task_id x \<noteq> i \<and> dep_dependent_task_id (f x) \<noteq> i"
  shows "hard_satisfied (set_dep e f d) i = hard_satisfied d i"
  using assms by (simp add: hard_satisfied_def hard_deps_def set_dep_def filter_update_where)

lemma edge_frames:
  "db_deps (release_step env rid d e) = db_deps (set_dep (dep_id e)
     (\<lambda>x. x\<lparr>dep_state_of := DEP_SATISFIED, dep_satisfied_at := Some (e_now env)\<rparr>) d)"
  "db_deps (block_step env p r d e) = db_deps (set_dep (dep_id e) (\<lambda>x. x\<lparr>dep_state_of := DEP_FAILED\<rparr>) d)"
  "map task_id (db_tasks (release_step env rid d e)) = map task_id (db_tasks d)"
  "map task_id (db_tasks (block_step env p r d e)) = map task_id (db_tasks d)"
  by (auto simp: release_step_def block_step_def Let_def set_task_def map_update_where
      split: option.splits)

lemma hard_satisfied_cong: "db_deps d = db_deps d' \<Longrightarrow> hard_satisfied d i = hard_satisfied d' i"
  by (simp add: hard_satisfied_def hard_deps_def)

lemma step_edges_distinct:
  "distinct (map dep_id (db_deps (release_step env rid d e))) = distinct (map dep_id (db_deps d))"
  "distinct (map dep_id (db_deps (block_step env p r d e))) = distinct (map dep_id (db_deps d))"
  unfolding edge_frames by (simp_all add: set_dep_def map_update_where)

lemma release_step_effect:
  assumes "distinct (map dep_id (db_deps d))" "e0 \<in> set (db_deps d)" "dep_id e0 = dep_id e"
    "dep_dependent_task_id e0 = dep_dependent_task_id e"
  shows "other_edges_same e d (release_step env rid d e)"
    and "task_state d (dep_dependent_task_id e) = Some s \<Longrightarrow> \<not> terminal_task s \<Longrightarrow>
      task_state (release_step env rid d e) (dep_dependent_task_id e)
       = Some (if hard_satisfied (release_step env rid d e) (dep_dependent_task_id e) then TASK_READY else s)"
proof -
  let ?f = "\<lambda>x. x\<lparr>dep_state_of := DEP_SATISFIED, dep_satisfied_at := Some (e_now env)\<rparr>"
  have same: "x = e0" if "x \<in> set (db_deps d)" "dep_id x = dep_id e" for x
    using that assms by (metis (no_types, lifting) distinct_map inj_onD)
  have hs: "hard_satisfied (release_step env rid d e) i = hard_satisfied (set_dep (dep_id e) ?f d) i" for i
    by (rule hard_satisfied_cong) (simp only: edge_frames)
  have "hard_satisfied (set_dep (dep_id e) ?f d) i = hard_satisfied d i" if i: "i \<noteq> dep_dependent_task_id e" for i
  proof (rule hard_satisfied_set_dep)
    fix x assume "x \<in> set (db_deps d)" "dep_id x = dep_id e"
    then have "x = e0" by (rule same)
    then show "dep_dependent_task_id x \<noteq> i \<and> dep_dependent_task_id (?f x) \<noteq> i"
      using assms(4) i by simp
  qed
  moreover have "task_state (release_step env rid d e) i = task_state d i" if "i \<noteq> dep_dependent_task_id e" for i
    using that by (auto simp: release_step_def Let_def task_state_set_task dest: get_task_id split: option.splits)
  ultimately show "other_edges_same e d (release_step env rid d e)"
    by (simp add: other_edges_same_def hs)
  assume s: "task_state d (dep_dependent_task_id e) = Some s" "\<not> terminal_task s"
  then obtain t where t: "get_task d (dep_dependent_task_id e) = Some t" "task_status_of t = s"
    by (auto simp: task_state_def)
  have tid: "task_id t = dep_dependent_task_id e" by (rule get_task_id[OF t(1)])
  have hd: "hard_deps (snd (emit env rid et st sid p a d1)) i = hard_deps d1 i" for et st sid p a d1 i
    by (simp add: hard_deps_def)
  show "task_state (release_step env rid d e) (dep_dependent_task_id e)
     = Some (if hard_satisfied (release_step env rid d e) (dep_dependent_task_id e) then TASK_READY else s)"
    unfolding hs using s t tid
    by (simp add: release_step_def Let_def hd hard_satisfied_def task_state_set_task task_state_def)
qed

lemma block_step_effect:
  assumes "distinct (map dep_id (db_deps d))" "e0 \<in> set (db_deps d)" "dep_id e0 = dep_id e"
    "dep_dependent_task_id e0 = dep_dependent_task_id e"
  shows "other_edges_same e d (block_step env p r d e)"
    and "task_state d (dep_dependent_task_id e) = Some s \<Longrightarrow>
      task_state (block_step env p r d e) (dep_dependent_task_id e)
       = Some (if terminal_task s then s else TASK_BLOCKED)"
proof -
  let ?f = "\<lambda>x. x\<lparr>dep_state_of := DEP_FAILED\<rparr>"
  have same: "x = e0" if "x \<in> set (db_deps d)" "dep_id x = dep_id e" for x
    using that assms by (metis (no_types, lifting) distinct_map inj_onD)
  have hs: "hard_satisfied (block_step env p r d e) i = hard_satisfied (set_dep (dep_id e) ?f d) i" for i
    by (rule hard_satisfied_cong) (simp only: edge_frames)
  have "hard_satisfied (set_dep (dep_id e) ?f d) i = hard_satisfied d i" if i: "i \<noteq> dep_dependent_task_id e" for i
  proof (rule hard_satisfied_set_dep)
    fix x assume "x \<in> set (db_deps d)" "dep_id x = dep_id e"
    then have "x = e0" by (rule same)
    then show "dep_dependent_task_id x \<noteq> i \<and> dep_dependent_task_id (?f x) \<noteq> i"
      using assms(4) i by simp
  qed
  moreover have "task_state (block_step env p r d e) i = task_state d i" if "i \<noteq> dep_dependent_task_id e" for i
    using that by (auto simp: block_step_def Let_def task_state_set_task dest: get_task_id split: option.splits)
  ultimately show "other_edges_same e d (block_step env p r d e)"
    by (simp add: other_edges_same_def hs)
  assume s: "task_state d (dep_dependent_task_id e) = Some s"
  then obtain t where t: "get_task d (dep_dependent_task_id e) = Some t" "task_status_of t = s"
    by (auto simp: task_state_def)
  have tid: "task_id t = dep_dependent_task_id e" by (rule get_task_id[OF t(1)])
  show "task_state (block_step env p r d e) (dep_dependent_task_id e)
     = Some (if terminal_task s then s else TASK_BLOCKED)"
    using t tid by (simp add: block_step_def Let_def task_state_set_task task_state_def)
qed

text \<open>The two folds share their shape: an edge list processed by a step that only touches the edge's
  dependent, with a verdict that holds for it right after the step.\<close>
lemma edge_fold:
  assumes eff: "\<And>d e. e \<in> set es \<Longrightarrow> invar d \<Longrightarrow> invar (step d e) \<and> other_edges_same e d (step d e)"
    and verdict: "\<And>d e s. e \<in> set es \<Longrightarrow> invar d \<Longrightarrow> task_state d (dep_dependent_task_id e) = Some s \<Longrightarrow>
      good s \<Longrightarrow> task_state (step d e) (dep_dependent_task_id e)
        = Some (vd (hard_satisfied (step d e) (dep_dependent_task_id e)) s)"
    and closed: "\<And>b s. good s \<Longrightarrow> good (vd b s)"
    and absorb: "\<And>d e s. e \<in> set es \<Longrightarrow> invar d \<Longrightarrow> good s \<Longrightarrow>
      vd (hard_satisfied (step d e) i) (vd (hard_satisfied d i) s) = vd (hard_satisfied (step d e) i) s"
    and "invar d" and "good s" "task_state d i = Some s"
  shows "task_state (foldl step d es) i
    = Some (if i \<in> dep_dependent_task_id ` set es then vd (hard_satisfied (foldl step d es) i) s else s)"
  using assms
proof (induction es rule: rev_induct)
  case (snoc e es)
  let ?d = "foldl step d es"
  have "invar (foldl step d xs)" if "set xs \<subseteq> set (es @ [e])" for xs
    using that snoc.prems(1,5) by (induction xs rule: rev_induct) auto
  then have inv: "invar ?d" by auto
  have IH: "task_state ?d i
      = Some (if i \<in> dep_dependent_task_id ` set es then vd (hard_satisfied ?d i) s else s)"
    using snoc.prems by (intro snoc.IH) auto
  show ?case
  proof (cases "i = dep_dependent_task_id e")
    case True
    let ?s = "if i \<in> dep_dependent_task_id ` set es then vd (hard_satisfied ?d i) s else s"
    have "good ?s" using snoc.prems(3,6) by simp
    then have "task_state (step ?d e) i = Some (vd (hard_satisfied (step ?d e) i) ?s)"
      using snoc.prems(2)[of e ?d ?s] inv IH True by simp
    then show ?thesis using True snoc.prems(4)[of e ?d s] snoc.prems(6) inv by simp
  next
    case False
    then have "hard_satisfied (step ?d e) i = hard_satisfied ?d i" "task_state (step ?d e) i = task_state ?d i"
      using snoc.prems(1)[of e ?d] inv by (auto simp: other_edges_same_def)
    then show ?thesis using IH False by simp
  qed
qed simp

text \<open>The edges a step looks up again: same ids and same dependents as before.\<close>
definition edges_like :: "db \<Rightarrow> db \<Rightarrow> bool" where
  "edges_like d0 d \<longleftrightarrow>
     map (\<lambda>e. (dep_id e, dep_dependent_task_id e)) (db_deps d)
       = map (\<lambda>e. (dep_id e, dep_dependent_task_id e)) (db_deps d0)"

lemma edges_like_distinct: "edges_like d0 d \<Longrightarrow> map dep_id (db_deps d) = map dep_id (db_deps d0)"
  unfolding edges_like_def by (drule arg_cong[of _ _ "map fst"]) (simp add: comp_def)

lemma edges_like_member:
  assumes "edges_like d0 d" "e \<in> set (db_deps d0)"
  obtains e0 where "e0 \<in> set (db_deps d)" "dep_id e0 = dep_id e"
    "dep_dependent_task_id e0 = dep_dependent_task_id e"
proof -
  have "(dep_id e, dep_dependent_task_id e) \<in> set (map (\<lambda>e. (dep_id e, dep_dependent_task_id e)) (db_deps d))"
    using assms by (auto simp: edges_like_def)
  then show thesis using that by auto
qed

lemma edges_like_step [simp]:
  "edges_like d0 (release_step env rid d e) = edges_like d0 d"
  "edges_like d0 (block_step env p r d e) = edges_like d0 d"
  unfolding edges_like_def edge_frames by (simp_all add: set_dep_def map_update_where)

lemma release_step_mono: "hard_satisfied d i \<Longrightarrow> hard_satisfied (release_step env rid d e) i"
proof -
  assume h: "hard_satisfied d i"
  have "hard_satisfied (release_step env rid d e) i
      = hard_satisfied (set_dep (dep_id e) (\<lambda>x. x\<lparr>dep_state_of := DEP_SATISFIED, dep_satisfied_at := Some (e_now env)\<rparr>) d) i"
    by (rule hard_satisfied_cong) (simp only: edge_frames)
  then show ?thesis
    using h by (auto simp: hard_satisfied_def hard_deps_def set_dep_def list_all_iff set_update_where)
qed

text \<open>Completing a task releases its dependents: every dependency edge waiting on it is now
  satisfied, every unfinished dependent of such an edge whose hard dependencies are thereby all
  satisfied becomes ready, and no other task, and no finished one, changes its status.\<close>
theorem evaluate_on_completion_releases:
  assumes "unique_ids d" and "task_state d i = Some s"
  shows "let d' = evaluate_on_completion env t d;
             released = filter (\<lambda>e. dep_prerequisite_task_id e = task_id t
                          \<and> dep_state_of e = DEP_UNSATISFIED) (db_deps d)
    in task_state d' i = Some
         (if i \<in> dep_dependent_task_id ` set released \<and> \<not> terminal_task s \<and> hard_satisfied d' i
          then TASK_READY else s)
     \<and> \<not> (\<exists>e \<in> set (db_deps d'). dep_prerequisite_task_id e = task_id t \<and> dep_state_of e = DEP_UNSATISFIED)"
proof -
  let ?es = "filter (\<lambda>e. dep_prerequisite_task_id e = task_id t \<and> dep_state_of e = DEP_UNSATISFIED) (db_deps d)"
  let ?step = "release_step env (task_run_id t)"
  let ?vd = "\<lambda>b s. if b then TASK_READY else (s :: task_status)"
  have dist: "distinct (map dep_id (db_deps x))" if "edges_like d x" for x
    using assms(1) edges_like_distinct[OF that] by (simp add: unique_ids_def)
  have eff: "edges_like d (?step x e) \<and> other_edges_same e x (?step x e)"
    and vd: "task_state x (dep_dependent_task_id e) = Some s' \<Longrightarrow> \<not> terminal_task s' \<Longrightarrow>
      task_state (?step x e) (dep_dependent_task_id e)
        = Some (?vd (hard_satisfied (?step x e) (dep_dependent_task_id e)) s')"
    if mem: "e \<in> set ?es" and like: "edges_like d x" for x e s'
  proof -
    have "e \<in> set (db_deps d)" using mem by simp
    then obtain e0 where e0: "e0 \<in> set (db_deps x)" "dep_id e0 = dep_id e"
      "dep_dependent_task_id e0 = dep_dependent_task_id e"
      by (rule edges_like_member[OF like])
    show "edges_like d (?step x e) \<and> other_edges_same e x (?step x e)"
      using release_step_effect(1)[OF dist[OF like] e0] like by simp
    show "task_state x (dep_dependent_task_id e) = Some s' \<Longrightarrow> \<not> terminal_task s' \<Longrightarrow>
      task_state (?step x e) (dep_dependent_task_id e)
        = Some (?vd (hard_satisfied (?step x e) (dep_dependent_task_id e)) s')"
      by (rule release_step_effect(2)[OF dist[OF like] e0])
  qed
  have state: "task_state (foldl ?step d ?es) i = Some
      (if i \<in> dep_dependent_task_id ` set ?es \<and> \<not> terminal_task s \<and> hard_satisfied (foldl ?step d ?es) i
       then TASK_READY else s)"
  proof (cases "terminal_task s")
    case True
    then show ?thesis
      using evaluate_keeps[of d env t] assms(2) by (simp add: keeps_terminal_def evaluate_on_completion_def)
  next
    case False
    have "task_state (foldl ?step d ?es) i
      = Some (if i \<in> dep_dependent_task_id ` set ?es then ?vd (hard_satisfied (foldl ?step d ?es) i) s else s)"
    proof (rule edge_fold[where invar = "edges_like d" and good = "\<lambda>s. \<not> terminal_task s" and vd = ?vd])
      show "\<not> terminal_task s' \<Longrightarrow> \<not> terminal_task (?vd b s')" for b s'
        by (simp add: terminal_task_def)
      show "?vd (hard_satisfied (?step x e) i) (?vd (hard_satisfied x i) s') = ?vd (hard_satisfied (?step x e) i) s'"
        for x e s' by (simp add: release_step_mono)
    qed (use eff vd assms(2) False in \<open>simp_all add: edges_like_def\<close>)
    then show ?thesis using False by auto
  qed
  have edges: "db_deps (foldl ?step d0 es) = map (\<lambda>e. if dep_id e \<in> dep_id ` set es then
      e\<lparr>dep_state_of := DEP_SATISFIED, dep_satisfied_at := Some (e_now env)\<rparr> else e) (db_deps d0)" for d0 es
  proof (induction es arbitrary: d0)
    case (Cons e es)
    then show ?case
      by (simp add: edge_frames) (auto simp: set_dep_def update_where_def)
  qed simp
  have "\<not> (dep_prerequisite_task_id e = task_id t \<and> dep_state_of e = DEP_UNSATISFIED)"
    if "e \<in> set (db_deps (foldl ?step d ?es))" for e
    using that by (auto simp: edges split: if_splits)
  then have "\<not> (\<exists>e \<in> set (db_deps (foldl ?step d ?es)). dep_prerequisite_task_id e = task_id t
      \<and> dep_state_of e = DEP_UNSATISFIED)" by blast
  with state show ?thesis
    unfolding Let_def evaluate_on_completion_def by (rule conjI)
qed

text \<open>A failed prerequisite blocks its direct dependents and nothing else: every unfinished task
  with a hard edge on it that was not yet satisfied is blocked, finished tasks keep their status,
  and a task without such an edge keeps its status too, in particular one that only depends on a
  task that has just been blocked.\<close>
theorem mark_unsatisfiable_blocks_direct_dependents:
  assumes "unique_ids d" and "task_state d i = Some s"
  shows "task_state (mark_unsatisfiable env p reason d) i = Some
    (if \<not> terminal_task s \<and> (\<exists>e \<in> set (db_deps d). dep_dependent_task_id e = i
         \<and> dep_prerequisite_task_id e = task_id p \<and> dep_policy e = Hard \<and> dep_state_of e \<noteq> DEP_SATISFIED)
     then TASK_BLOCKED else s)"
proof -
  let ?es = "filter (\<lambda>e. dep_prerequisite_task_id e = task_id p \<and> dep_policy e = Hard
               \<and> dep_state_of e \<noteq> DEP_SATISFIED) (db_deps d)"
  let ?step = "block_step env p reason"
  let ?vd = "\<lambda>(b::bool) s. if terminal_task s then s else TASK_BLOCKED"
  have dist: "distinct (map dep_id (db_deps x))" if "edges_like d x" for x
    using assms(1) edges_like_distinct[OF that] by (simp add: unique_ids_def)
  have eff: "edges_like d (?step x e) \<and> other_edges_same e x (?step x e)"
    and vd: "task_state x (dep_dependent_task_id e) = Some s' \<Longrightarrow>
      task_state (?step x e) (dep_dependent_task_id e)
        = Some (?vd (hard_satisfied (?step x e) (dep_dependent_task_id e)) s')"
    if mem: "e \<in> set ?es" and like: "edges_like d x" for x e s'
  proof -
    have "e \<in> set (db_deps d)" using mem by simp
    then obtain e0 where e0: "e0 \<in> set (db_deps x)" "dep_id e0 = dep_id e"
      "dep_dependent_task_id e0 = dep_dependent_task_id e"
      by (rule edges_like_member[OF like])
    show "edges_like d (?step x e) \<and> other_edges_same e x (?step x e)"
      using block_step_effect(1)[OF dist[OF like] e0] like by simp
    show "task_state x (dep_dependent_task_id e) = Some s' \<Longrightarrow>
      task_state (?step x e) (dep_dependent_task_id e)
        = Some (?vd (hard_satisfied (?step x e) (dep_dependent_task_id e)) s')"
      by (rule block_step_effect(2)[OF dist[OF like] e0])
  qed
  have "task_state (foldl ?step d ?es) i
      = Some (if i \<in> dep_dependent_task_id ` set ?es then ?vd (hard_satisfied (foldl ?step d ?es) i) s else s)"
  proof (rule edge_fold[where invar = "edges_like d" and good = "\<lambda>_. True" and vd = ?vd])
    show "?vd (hard_satisfied (?step x e) i) (?vd (hard_satisfied x i) s') = ?vd (hard_satisfied (?step x e) i) s'"
      for x e s' by (simp add: terminal_task_def)
  qed (use eff vd assms(2) in \<open>simp_all add: edges_like_def\<close>)
  moreover have "i \<in> dep_dependent_task_id ` set ?es \<longleftrightarrow> (\<exists>e \<in> set (db_deps d). dep_dependent_task_id e = i
         \<and> dep_prerequisite_task_id e = task_id p \<and> dep_policy e = Hard \<and> dep_state_of e \<noteq> DEP_SATISFIED)"
    by auto
  ultimately show ?thesis by (auto simp: mark_unsatisfiable_def)
qed

section \<open>A chain of three tasks\<close>

definition sample_task :: "nat \<Rightarrow> task_status \<Rightarrow> task" where
  "sample_task i st = \<lparr>task_id = i, task_plan_id = 5, task_run_id = 9, task_tenant_id = 1,
     task_objective = ''o'', task_assigned_agent = ''news_agent'', task_assigned_by = ''ceo_agent'',
     task_capability = ''news_ingestion'', task_priority = 5, task_dependency_policy = POL_ALL,
     task_required_inputs = [], task_received_inputs = [], task_required_datasets = [],
     task_expected_output = ''NewsDigest'', task_result_artefact_id = None, task_status_of = st,
     task_is_concurrency_safe = True, task_retry_count = 0, task_max_retries = 3,
     task_timeout_seconds = 300, task_blocked_reason = None, task_failure_reason = None,
     task_correlation_id = ''org'', task_audit_reference = None, task_created_at = 0,
     task_started_at = None, task_completed_at = None, task_ran_concurrently = False,
     task_dependency_wait_seconds = 0\<rparr>"

definition sample_dep :: "nat \<Rightarrow> nat \<Rightarrow> nat \<Rightarrow> dependency_state \<Rightarrow> task_dependency" where
  "sample_dep i dpt pre st = \<lparr>dep_id = i, dep_plan_id = 5, dep_dependent_task_id = dpt,
     dep_prerequisite_task_id = pre, dep_required_artefact_type = ''NewsDigest'', dep_policy = Hard,
     dep_state_of = st, dep_satisfied_at = None, dep_created_at = 0\<rparr>"

definition chain_db :: "task_status \<Rightarrow> db" where
  "chain_db st = empty_db\<lparr>db_tasks := [sample_task 11 st, sample_task 12 TASK_WAITING_FOR_DEPENDENCY,
       sample_task 13 TASK_WAITING_FOR_DEPENDENCY],
     db_deps := [sample_dep 21 12 11 DEP_UNSATISFIED, sample_dep 22 13 12 DEP_UNSATISFIED],
     db_next_id := 50\<rparr>"

lemma sample_task_simps [simp]:
  "task_id (sample_task i st) = i" "task_status_of (sample_task i st) = st"
  "task_run_id (sample_task i st) = 9"
  by (simp_all add: sample_task_def)

lemma sample_dep_simps [simp]:
  "dep_id (sample_dep i a b st) = i" "dep_dependent_task_id (sample_dep i a b st) = a"
  "dep_prerequisite_task_id (sample_dep i a b st) = b" "dep_state_of (sample_dep i a b st) = st"
  "dep_policy (sample_dep i a b st) = Hard"
  by (simp_all add: sample_dep_def)

lemma chain_db_facts:
  "unique_ids (chain_db st)" "task_state (chain_db st) 11 = Some st"
  "task_state (chain_db st) 12 = Some TASK_WAITING_FOR_DEPENDENCY"
  "task_state (chain_db st) 13 = Some TASK_WAITING_FOR_DEPENDENCY"
  "db_tasks (chain_db st) = [sample_task 11 st, sample_task 12 TASK_WAITING_FOR_DEPENDENCY,
       sample_task 13 TASK_WAITING_FOR_DEPENDENCY]"
  "db_deps (chain_db st) = [sample_dep 21 12 11 DEP_UNSATISFIED, sample_dep 22 13 12 DEP_UNSATISFIED]"
  by (simp_all add: chain_db_def unique_ids_def task_state_def get_task_def)

theorem ready_tasks_exact_witness:
  "map fst (fst (ready_tasks sample_env 9 (chain_db TASK_PLANNED))) = [11]
   \<and> task_state (snd (ready_tasks sample_env 9 (chain_db TASK_PLANNED))) 11 = Some TASK_READY"
  using ready_tasks_exact[OF chain_db_facts(1), of sample_env 9 TASK_PLANNED]
  by (simp add: Let_def case_prod_unfold chain_db_facts ready_candidate_def hard_satisfied_def
      hard_deps_def)

theorem evaluate_on_completion_releases_witness:
  "task_state (evaluate_on_completion sample_env (sample_task 11 TASK_COMPLETED) (chain_db TASK_COMPLETED)) 13
     = Some TASK_WAITING_FOR_DEPENDENCY"
  using evaluate_on_completion_releases[OF chain_db_facts(1) chain_db_facts(4), of sample_env
      "sample_task 11 TASK_COMPLETED" TASK_COMPLETED]
  by (simp add: Let_def chain_db_facts)

theorem mark_unsatisfiable_blocks_direct_dependents_witness:
  "task_state (mark_unsatisfiable sample_env (sample_task 11 TASK_FAILED) ''failed'' (chain_db TASK_FAILED)) 12
     = Some TASK_BLOCKED"
  using mark_unsatisfiable_blocks_direct_dependents[OF chain_db_facts(1) chain_db_facts(3), of sample_env
      "sample_task 11 TASK_FAILED" "''failed''" TASK_FAILED]
  by (simp add: chain_db_facts terminal_task_def)

end
