(* ===== verification/Decisions.thy ===== *)
theory Decisions
  imports Resolver
begin

text \<open>
  CEO decisions (\<open>src/orchestration/decisions.py\<close>): the conflict comparator over a run's artefacts
  and the typed decision records it leads to.
\<close>

section \<open>Detecting a conflict\<close>

datatype severity = Medium | High

text \<open>Severities are ordered, medium below high.\<close>

instantiation severity :: linorder
begin

definition less_eq_severity :: "severity \<Rightarrow> severity \<Rightarrow> bool" where
  "less_eq_severity a b \<longleftrightarrow> (a = Medium \<or> b = High)"

definition less_severity :: "severity \<Rightarrow> severity \<Rightarrow> bool" where
  "less_severity a b \<longleftrightarrow> (a = Medium \<and> b = High)"

instance
proof
  fix x y z :: severity
  show "(x < y) = (x \<le> y \<and> \<not> y \<le> x)"
    by (cases x; cases y) (simp_all add: less_eq_severity_def less_severity_def)
  show "x \<le> x" by (cases x) (simp_all add: less_eq_severity_def)
  show "x \<le> y \<Longrightarrow> y \<le> z \<Longrightarrow> x \<le> z" by (auto simp: less_eq_severity_def)
  show "x \<le> y \<Longrightarrow> y \<le> x \<Longrightarrow> x = y" by (auto simp: less_eq_severity_def)
  show "x \<le> y \<or> y \<le> x" by (cases x; cases y) (simp_all add: less_eq_severity_def)
qed

end

record conflict =
  cf_kind :: string
  cf_description :: string
  cf_artefact_ids :: "string list"
  cf_severity :: severity
  cf_escalate_to_role :: "string option"
  cf_next_step :: string
  cf_supporting_agents :: "string list"

definition BULLISH :: "string list" where "BULLISH = [''Bullish'', ''Risk-On'']"
definition BEARISH :: "string list" where "BEARISH = [''Bearish'', ''Risk-Off'']"
definition PROCEED_ARTEFACTS :: "string set" where
  "PROCEED_ARTEFACTS = {''StrategyLogic'', ''AllocationPlan'', ''OptionStrategyProposal'', ''PythonCode''}"
definition SENTIMENT_THRESHOLD :: real where "SENTIMENT_THRESHOLD = 2 / 10"

definition json_number :: "json \<Rightarrow> real option" where
  "json_number j = (case j of JInt i \<Rightarrow> Some (of_int i) | JFloat x \<Rightarrow> Some x
     | JBool b \<Rightarrow> Some (if b then 1 else 0) | _ \<Rightarrow> None)"

definition bucket_values :: "json \<Rightarrow> string \<Rightarrow> real list" where
  "bucket_values payload bucket =
    (case json_get payload bucket of
       Some (JObj fs) \<Rightarrow> List.map_filter (\<lambda>f. json_number (snd f)) fs
     | _ \<Rightarrow> [])"

definition aggregate_sentiment :: "json \<Rightarrow> real option" where
  "aggregate_sentiment payload =
    (let vals = bucket_values payload ''per_symbol'' @ bucket_values payload ''per_sector'' in
     if vals = [] then None else Some (sum_list vals / of_nat (length vals)))"

definition by_type :: "result_artefact list \<Rightarrow> string \<Rightarrow> result_artefact option" where
  "by_type arts ty = row_by art_type ty arts"

definition regime_of :: "result_artefact \<Rightarrow> string" where
  "regime_of a = (case json_get (art_payload a) ''market_regime'' of Some (JStr s) \<Rightarrow> s | _ \<Rightarrow> [])"

definition sentiment_conflict :: "env \<Rightarrow> result_artefact \<Rightarrow> result_artefact \<Rightarrow> real \<Rightarrow> conflict" where
  "sentiment_conflict env market sentiment agg =
    \<lparr>cf_kind = ''market_vs_sentiment'',
     cf_description = ''Market regime is '' @ quoted (regime_of market)
       @ '' but aggregate sentiment is '' @ e_fmt_signed2 env agg @ ''.'',
     cf_artefact_ids = [uuid_str (art_id market), uuid_str (art_id sentiment)],
     cf_severity = Medium, cf_escalate_to_role = None,
     cf_next_step = ''Proceed with the CEO'' @ [CHR 0x27] @ ''s recorded resolution.'',
     cf_supporting_agents = [''market_analyst'', ''sentiment_agent'']\<rparr>"

definition opposes :: "string \<Rightarrow> real \<Rightarrow> bool" where
  "opposes regime agg \<longleftrightarrow> regime \<in> set BULLISH \<and> agg \<le> - SENTIMENT_THRESHOLD
     \<or> regime \<in> set BEARISH \<and> agg \<ge> SENTIMENT_THRESHOLD"

definition first_proceed :: "env \<Rightarrow> result_artefact list \<Rightarrow> result_artefact option" where
  "first_proceed env arts =
    (case List.find (\<lambda>ty. by_type arts ty \<noteq> None) (e_proceed_order env) of
       None \<Rightarrow> None | Some ty \<Rightarrow> by_type arts ty)"

definition veto_conflict :: "string \<Rightarrow> string \<Rightarrow> result_artefact \<Rightarrow> result_artefact \<Rightarrow> string \<Rightarrow> string \<Rightarrow> conflict" where
  "veto_conflict knd descr report proceed nxt ag =
    \<lparr>cf_kind = knd, cf_description = descr,
     cf_artefact_ids = [uuid_str (art_id report), uuid_str (art_id proceed)], cf_severity = High,
     cf_escalate_to_role = Some ''RiskManager'', cf_next_step = nxt, cf_supporting_agents = [ag]\<rparr>"

definition payload_is :: "result_artefact option \<Rightarrow> string \<Rightarrow> string \<Rightarrow> bool" where
  "payload_is a k v = (case a of None \<Rightarrow> False | Some x \<Rightarrow> json_get (art_payload x) k = Some (JStr v))"

definition detect_conflict :: "env \<Rightarrow> result_artefact list \<Rightarrow> conflict option" where
  "detect_conflict env arts =
    (let market = by_type arts ''MarketContext''; sentiment = by_type arts ''SentimentReport'';
         from_sentiment = (case (market, sentiment) of
             (Some m, Some s) \<Rightarrow>
               (case aggregate_sentiment (art_payload s) of
                  Some agg \<Rightarrow> if opposes (regime_of m) agg then Some (sentiment_conflict env m s agg) else None
                | None \<Rightarrow> None)
           | _ \<Rightarrow> None)
     in case from_sentiment of
          Some c \<Rightarrow> Some c
        | None \<Rightarrow>
           (let proceed = first_proceed env arts;
                risk = by_type arts ''RiskReport''; compliance = by_type arts ''ComplianceReport''
            in case proceed of
                 None \<Rightarrow> None
               | Some p \<Rightarrow>
                  if payload_is risk ''decision'' ''Reject'' then
                    Some (veto_conflict ''risk_vs_proposal''
                      (''Risk assessment is '' @ quoted ''Reject'' @ '' while a strategy proposal means to proceed.'')
                      (the risk) p
                      (''Do not proceed; risk '' @ quoted ''Reject'' @ '' stands unless a human overrides.'')
                      ''risk_manager'')
                  else if payload_is compliance ''verdict'' ''Block'' then
                    Some (veto_conflict ''compliance_vs_proposal''
                      (''Compliance verdict is '' @ quoted ''Block'' @ '' while a strategy proposal means to proceed.'')
                      (the compliance) p
                      (''Do not proceed; compliance '' @ quoted ''Block'' @ '' is terminal for this proposal.'')
                      ''compliance'')
                  else None))"

section \<open>Recording decisions\<close>

definition portfolio_artefact_ids :: "db \<Rightarrow> nat \<Rightarrow> string list" where
  "portfolio_artefact_ids d rid = map (\<lambda>a. uuid_str (art_id a))
     (filter (\<lambda>a. art_run_id a = rid \<and> art_type a = ''PortfolioRiskReport'') (db_artefacts d))"

definition record_decision ::
  "env \<Rightarrow> nat \<Rightarrow> decision_type \<Rightarrow> string \<Rightarrow> string \<Rightarrow> string list \<Rightarrow> string list \<Rightarrow> string option
    \<Rightarrow> string option \<Rightarrow> bool \<Rightarrow> db \<Rightarrow> nat \<times> db" where
  "record_decision env rid dtype summary reason supporting agents next_step escalated include_portfolio d =
    (let inputs = (if include_portfolio
           then foldl (\<lambda>acc pid. if pid \<in> set acc then acc else acc @ [pid]) supporting
                  (portfolio_artefact_ids d rid)
           else supporting);
         row = \<lparr>od_id = db_next_id d, od_run_id = rid, od_decision_type = dtype, od_summary = summary,
           od_reason = reason, od_supporting_input_artefact_ids = inputs,
           od_supporting_agents = (if agents = [] then [''ceo_agent''] else agents),
           od_next_step = next_step, od_escalated_to_role = escalated, od_resolved_by = None,
           od_audit_reference = None, od_created_at = e_now env\<rparr>;
         d1 = d\<lparr>db_decisions := db_decisions d @ [row], db_next_id := Suc (db_next_id d)\<rparr>;
         (audit_id, d2) = emit env rid ''ceo.decision.created'' ''decision'' (Some (od_id row))
           (JObj [(''decision_type'', JStr (decision_value dtype)), (''summary'', JStr summary),
                  (''reason'', JStr (case next_step of
                      None \<Rightarrow> reason
                    | Some n \<Rightarrow> if n = [] then reason else reason @ '' Next: '' @ n))]) True d1
     in (od_id row, set_decision (od_id row) (\<lambda>r. r\<lparr>od_audit_reference := audit_id\<rparr>) d2))"

definition severity_value :: "severity \<Rightarrow> string" where
  "severity_value s = (case s of Medium \<Rightarrow> ''medium'' | High \<Rightarrow> ''high'')"

definition resolve_conflict :: "env \<Rightarrow> nat \<Rightarrow> conflict \<Rightarrow> db \<Rightarrow> nat \<times> db" where
  "resolve_conflict env rid c d =
    (let (_, d1) = emit env rid ''ceo.conflict_detected'' ''run'' (Some rid)
           (JObj [(''kind'', JStr (cf_kind c)), (''description'', JStr (cf_description c)),
                  (''severity'', JStr (severity_value (cf_severity c))),
                  (''artefact_ids'', JArr (map JStr (cf_artefact_ids c))),
                  (''reason'', JStr (cf_description c))]) True d;
         escalate = (if cf_severity c = High then cf_escalate_to_role c else None);
         (did, d2) = record_decision env rid DEC_RESOLVE_CONFLICT
           (''Conflict resolved: '' @ cf_kind c @ ''.'') (cf_description c) (cf_artefact_ids c)
           (cf_supporting_agents c) (Some (cf_next_step c)) escalate True d1
     in (did,
         case escalate of
           None \<Rightarrow> d2
         | Some role \<Rightarrow>
            snd (record_decision env rid DEC_ESCALATE_HUMAN
              (''Escalated '' @ cf_kind c @ '' to '' @ role @ ''.'')
              (''High-severity conflict: '' @ cf_description c) (cf_artefact_ids c)
              (cf_supporting_agents c) None (Some role) True d2)))"

definition record_review_request :: "env \<Rightarrow> nat \<Rightarrow> string \<Rightarrow> string \<Rightarrow> string \<Rightarrow> db \<Rightarrow> nat \<times> db" where
  "record_review_request env rid reviewer subject_artefact_id reason d =
    record_decision env rid DEC_REQUEST_REVIEW (''Peer review requested from '' @ reviewer @ ''.'') reason
      [subject_artefact_id] [''ceo_agent'', reviewer] None None False d"

definition record_escalation :: "env \<Rightarrow> nat \<Rightarrow> string \<Rightarrow> string \<Rightarrow> string list \<Rightarrow> db \<Rightarrow> nat \<times> db" where
  "record_escalation env rid to_role reason supporting d =
    record_decision env rid DEC_ESCALATE_HUMAN (''Escalated to '' @ to_role @ ''.'') reason supporting []
      None (Some to_role) False d"

definition resolve_conflicts :: "env \<Rightarrow> nat \<Rightarrow> db \<Rightarrow> db" where
  "resolve_conflicts env rid d =
    (if \<exists>r \<in> set (db_decisions d). od_run_id r = rid \<and> od_decision_type r = DEC_RESOLVE_CONFLICT then d
     else case detect_conflict env (filter (\<lambda>a. art_run_id a = rid) (db_artefacts d)) of
            None \<Rightarrow> d
          | Some c \<Rightarrow> snd (resolve_conflict env rid c d))"

lemma record_decision_frame [simp]:
  "db_runs (snd (record_decision env rid ty s r i a n e p d)) = db_runs d"
  "db_tasks (snd (record_decision env rid ty s r i a n e p d)) = db_tasks d"
  "db_plans (snd (record_decision env rid ty s r i a n e p d)) = db_plans d"
  "db_deps (snd (record_decision env rid ty s r i a n e p d)) = db_deps d"
  "db_artefacts (snd (record_decision env rid ty s r i a n e p d)) = db_artefacts d"
  "db_approvals (snd (record_decision env rid ty s r i a n e p d)) = db_approvals d"
  "db_strategies (snd (record_decision env rid ty s r i a n e p d)) = db_strategies d"
  "db_control (snd (record_decision env rid ty s r i a n e p d)) = db_control d"
  "get_task (snd (record_decision env rid ty s r i a n e p d)) j = get_task d j"
  by (simp_all add: record_decision_def Let_def case_prod_unfold get_task_def)

lemma resolve_conflicts_frame [simp]:
  "db_runs (resolve_conflicts env rid d) = db_runs d"
  "db_tasks (resolve_conflicts env rid d) = db_tasks d"
  "db_deps (resolve_conflicts env rid d) = db_deps d"
  "db_artefacts (resolve_conflicts env rid d) = db_artefacts d"
  "db_approvals (resolve_conflicts env rid d) = db_approvals d"
  "db_strategies (resolve_conflicts env rid d) = db_strategies d"
  "db_control (resolve_conflicts env rid d) = db_control d"
  by (simp_all add: resolve_conflicts_def resolve_conflict_def Let_def case_prod_unfold split: option.splits)

lemma record_decision_conserves [conserving]:
  "conserves env d0 d \<Longrightarrow> conserves env d0 (snd (record_decision env rid ty s r i a n e p d))"
  unfolding record_decision_def Let_def case_prod_unfold snd_conv
  by (rule conserves_setters(5), rule conserves_emit, erule conserves_insert) simp_all

lemma resolve_conflict_conserves [conserving]:
  "conserves env d0 d \<Longrightarrow> conserves env d0 (snd (resolve_conflict env rid c d))"
  unfolding resolve_conflict_def Let_def case_prod_unfold
  by (cases "if cf_severity c = High then cf_escalate_to_role c else None")
    (simp_all add: conserving)

lemma resolve_conflicts_conserves [conserving]:
  "conserves env d0 d \<Longrightarrow> conserves env d0 (resolve_conflicts env rid d)"
  by (simp add: resolve_conflicts_def conserving split: option.split)

section \<open>What a conflict leads to\<close>

lemma first_proceed_iff:
  "set (e_proceed_order env) = PROCEED_ARTEFACTS \<Longrightarrow>
   first_proceed env arts \<noteq> None \<longleftrightarrow> (\<exists>a \<in> set arts. art_type a \<in> PROCEED_ARTEFACTS)"
proof -
  assume o: "set (e_proceed_order env) = PROCEED_ARTEFACTS"
  have "by_type arts ty \<noteq> None \<longleftrightarrow> (\<exists>a \<in> set arts. art_type a = ty)" for ty
    using row_by_None_iff[of art_type ty arts] by (auto simp: by_type_def)
  then have ty: "(\<exists>ty \<in> set (e_proceed_order env). by_type arts ty \<noteq> None)
      \<longleftrightarrow> (\<exists>a \<in> set arts. art_type a \<in> PROCEED_ARTEFACTS)" by (auto simp: o)
  show ?thesis
  proof (cases "List.find (\<lambda>ty. by_type arts ty \<noteq> None) (e_proceed_order env)")
    case None
    then have "\<not> (\<exists>ty \<in> set (e_proceed_order env). by_type arts ty \<noteq> None)" by (auto simp: find_None_iff)
    then show ?thesis unfolding ty[symmetric] using None by (simp add: first_proceed_def)
  next
    case (Some ty1)
    then obtain i where i: "i < length (e_proceed_order env)" "ty1 = e_proceed_order env ! i"
      "by_type arts ty1 \<noteq> None" by (auto simp: find_Some_iff)
    then have "\<exists>ty \<in> set (e_proceed_order env). by_type arts ty \<noteq> None"
      using nth_mem[OF i(1)] by metis
    then show ?thesis unfolding ty[symmetric] using Some i(3) by (simp add: first_proceed_def)
  qed
qed

lemma record_decision_decisions:
  "db_decisions (snd (record_decision env rid ty s r i a n e p d))
    = update_where (\<lambda>x. od_id x = db_next_id d) (\<lambda>x. x\<lparr>od_audit_reference :=
        Some (next_audit_id (db_audit d))\<rparr>)
      (db_decisions d @ [\<lparr>od_id = db_next_id d, od_run_id = rid, od_decision_type = ty, od_summary = s,
           od_reason = r, od_supporting_input_artefact_ids = (if p
           then foldl (\<lambda>acc pid. if pid \<in> set acc then acc else acc @ [pid]) i (portfolio_artefact_ids d rid)
           else i), od_supporting_agents = (if a = [] then [''ceo_agent''] else a),
           od_next_step = n, od_escalated_to_role = e, od_resolved_by = None,
           od_audit_reference = None, od_created_at = e_now env\<rparr>])"
  by (simp add: record_decision_def Let_def case_prod_unfold set_decision_def emit_def
      write_audit_entry_def)

text \<open>The conflict comparator escalates exactly what must be escalated. Whatever order the set of
  proposal types is iterated in, a conflict is reported exactly when market regime and aggregate
  sentiment oppose each other, or a proposal means to proceed against a risk Reject or a compliance
  Block; and a reported conflict is of high severity, with the risk manager named, exactly when the
  sentiment did not already decide it.\<close>
theorem detect_conflict_exact:
  assumes "set (e_proceed_order env) = PROCEED_ARTEFACTS"
  shows "let sentiment_opposed = (\<exists>m s agg. by_type arts ''MarketContext'' = Some m
           \<and> by_type arts ''SentimentReport'' = Some s
           \<and> aggregate_sentiment (art_payload s) = Some agg \<and> opposes (regime_of m) agg);
         vetoed = ((\<exists>a \<in> set arts. art_type a \<in> PROCEED_ARTEFACTS)
           \<and> (payload_is (by_type arts ''RiskReport'') ''decision'' ''Reject''
              \<or> payload_is (by_type arts ''ComplianceReport'') ''verdict'' ''Block''))
    in case detect_conflict env arts of
         None \<Rightarrow> \<not> sentiment_opposed \<and> \<not> vetoed
       | Some c \<Rightarrow> (sentiment_opposed \<or> vetoed)
           \<and> (cf_severity c = High \<longleftrightarrow> \<not> sentiment_opposed)
           \<and> (cf_escalate_to_role c = (if sentiment_opposed then None else Some ''RiskManager''))"
proof -
  have p: "(\<exists>a \<in> set arts. art_type a \<in> PROCEED_ARTEFACTS) \<longleftrightarrow> first_proceed env arts \<noteq> None"
    using first_proceed_iff[OF assms, of arts] by simp
  show ?thesis
    unfolding Let_def detect_conflict_def p
    by (auto simp: sentiment_conflict_def veto_conflict_def split: option.splits)
qed

theorem detect_conflict_exact_witness:
  "case detect_conflict sample_env [] of None \<Rightarrow> True | Some c \<Rightarrow> cf_severity c = High"
proof -
  have "set (e_proceed_order sample_env) = PROCEED_ARTEFACTS"
    by (simp add: sample_env_def PROCEED_ARTEFACTS_def)
  from detect_conflict_exact[OF this, of "[]"] show ?thesis
    by (auto simp: Let_def by_type_def payload_is_def split: option.splits)
qed

end
