(* ===== verification/Planner.thy ===== *)
theory Planner
  imports Decisions
begin

text \<open>
  The CEO planner (\<open>src/orchestration/planner.py\<close>): the deterministic part of turning an objective
  into a plan. What the language model proposes is a parameter (one answer per attempt, given the
  last rejection); what the code makes of it is defined here: the two scaffolds, validation (known
  agents, in-plan dependencies, no cycle, safety order), persisting, and the bounded retries.
  The iteration order of a Python set of dependency keys only decides which task a cycle message
  names; the order of the list is used.
\<close>

section \<open>Generated plans\<close>

record planned_task =
  pt_key :: string
  pt_objective :: string
  pt_capability :: string
  pt_assigned_agent :: string
  pt_priority :: int
  pt_expected_output :: string
  pt_depends_on :: "string list"

record generated_plan =
  gp_can_plan :: bool
  gp_reason :: "string option"
  gp_objective_classification :: string
  gp_departments :: "string list"
  gp_approval_required :: bool
  gp_tasks :: "planned_task list"

definition MAX_PLAN_ATTEMPTS :: nat where "MAX_PLAN_ATTEMPTS = 3"

definition SAFETY_ORDER :: "string list" where
  "SAFETY_ORDER = [''code_validation'', ''compliance_check'', ''backtesting'', ''strategy_evaluation'',
     ''risk_assessment'']"

definition STRATEGY_CAPS :: "string list" where
  "STRATEGY_CAPS = [''strategy_generation'', ''strategy_research'', ''code_generation'']"

definition ADHOC_OBJECTIVE_KINDS :: "string list" where
  "ADHOC_OBJECTIVE_KINDS = [''portfolio_analysis'', ''risk_ranking'', ''drawdown_explanation'',
     ''strategy_failure_explanation'', ''rerun_decision'']"

record scaffold_row =
  sc_key :: string
  sc_capability :: string
  sc_agent :: string
  sc_expected :: string
  sc_deps :: "string list"

definition scaffold :: "string \<Rightarrow> string \<Rightarrow> string \<Rightarrow> string \<Rightarrow> string list \<Rightarrow> scaffold_row" where
  "scaffold k c a e ds = \<lparr>sc_key = k, sc_capability = c, sc_agent = a, sc_expected = e, sc_deps = ds\<rparr>"

definition CONTEXT_SCAFFOLD :: "scaffold_row list" where
  "CONTEXT_SCAFFOLD =
    [scaffold ''ctx_news'' ''news_ingestion'' ''news_agent'' ''NewsDigest'' [],
     scaffold ''ctx_sentiment'' ''sentiment_analysis'' ''sentiment_agent'' ''SentimentReport'' [''ctx_news''],
     scaffold ''ctx_market'' ''market_analysis'' ''market_analyst'' ''MarketContext'' [],
     scaffold ''ctx_portfolio'' ''portfolio_read'' ''portfolio_manager_agent'' ''PortfolioRiskReport'' [],
     scaffold ''ctx_freshness'' ''data_freshness'' ''data_ingestion_agent'' ''AdHocAnalysis'' [],
     scaffold ''ctx_assembly'' ''context_assembly'' ''ceo_agent'' ''ResearchContext''
       [''ctx_news'', ''ctx_sentiment'', ''ctx_market'', ''ctx_portfolio'', ''ctx_freshness'']]"

section \<open>Scaffolds\<close>

definition resolve_scaffold_agent :: "agent_snapshot_row list \<Rightarrow> string \<Rightarrow> string \<Rightarrow> string" where
  "resolve_scaffold_agent registry capability fallback =
    (let candidates = map sn_name
           (filter (\<lambda>r. capability \<in> set (sn_capabilities r) \<and> sn_enabled r) registry)
     in if fallback \<in> set candidates then fallback
        else case candidates of c # _ \<Rightarrow> c | [] \<Rightarrow> fallback)"

definition plans_capability :: "generated_plan \<Rightarrow> string \<Rightarrow> bool" where
  "plans_capability p cap \<longleftrightarrow> list_ex (\<lambda>t. pt_capability t = cap) (gp_tasks p)"

definition add_task :: "planned_task \<Rightarrow> generated_plan \<Rightarrow> generated_plan" where
  "add_task t p = p\<lparr>gp_tasks := gp_tasks p @ [t]\<rparr>"

text \<open>Which key provides a capability: the last planned task with it, else the scaffold's key.\<close>
definition planned_key_for_cap :: "generated_plan \<Rightarrow> (string, string) dict" where
  "planned_key_for_cap p = foldl (\<lambda>d t. dict_set (pt_capability t) (pt_key t) d) [] (gp_tasks p)"

definition set_default :: "(string, string) dict \<Rightarrow> string \<Rightarrow> string \<Rightarrow> (string, string) dict" where
  "set_default d k v = (case dict_get d k of Some _ \<Rightarrow> d | None \<Rightarrow> dict_set k v d)"

definition key_for_cap :: "generated_plan \<Rightarrow> (string, string) dict" where
  "key_for_cap p = foldl (\<lambda>d r. set_default d (sc_capability r) (sc_key r)) (planned_key_for_cap p)
     CONTEXT_SCAFFOLD"

definition cap_for_scaffold_key :: "string \<Rightarrow> string" where
  "cap_for_scaffold_key k = dict_get_default (map (\<lambda>r. (sc_key r, sc_capability r)) CONTEXT_SCAFFOLD) k []"

definition scaffold_task ::
  "agent_snapshot_row list \<Rightarrow> (string, string) dict \<Rightarrow> scaffold_row \<Rightarrow> planned_task" where
  "scaffold_task registry keys r =
    \<lparr>pt_key = dict_get_default keys (sc_capability r) [],
     pt_objective = ''Provide '' @ replace_char (CHR ''_'') (CHR '' '') (sc_capability r)
       @ '' for this research objective.'',
     pt_capability = sc_capability r,
     pt_assigned_agent = resolve_scaffold_agent registry (sc_capability r) (sc_agent r),
     pt_priority = 3, pt_expected_output = sc_expected r,
     pt_depends_on = map (\<lambda>dk. dict_get_default keys (cap_for_scaffold_key dk) []) (sc_deps r)\<rparr>"

definition require_key :: "string \<Rightarrow> planned_task \<Rightarrow> planned_task" where
  "require_key k t =
    (if pt_capability t \<in> set STRATEGY_CAPS \<and> k \<notin> set (pt_depends_on t)
     then t\<lparr>pt_depends_on := pt_depends_on t @ [k]\<rparr> else t)"

definition ensure_research_scaffold :: "agent_snapshot_row list \<Rightarrow> generated_plan \<Rightarrow> generated_plan" where
  "ensure_research_scaffold registry p =
    (if \<not> list_ex (\<lambda>t. pt_capability t \<in> set STRATEGY_CAPS) (gp_tasks p) then p
     else
       (let keys = key_for_cap p;
            p1 = foldl (\<lambda>q r. if plans_capability q (sc_capability r) then q
                    else add_task (scaffold_task registry keys r) q) p CONTEXT_SCAFFOLD
        in p1\<lparr>gp_tasks := map (require_key (dict_get_default keys ''context_assembly'' [])) (gp_tasks p1)\<rparr>))"

definition ensure_adhoc_scaffold :: "agent_snapshot_row list \<Rightarrow> generated_plan \<Rightarrow> generated_plan" where
  "ensure_adhoc_scaffold registry p =
    (if gp_objective_classification p \<notin> set ADHOC_OBJECTIVE_KINDS then p
     else
       (let p1 = (if plans_capability p ''portfolio_read'' then p
              else add_task \<lparr>pt_key = ''adhoc_portfolio'',
                     pt_objective = ''Read current portfolio state for this analysis.'',
                     pt_capability = ''portfolio_read'',
                     pt_assigned_agent = resolve_scaffold_agent registry ''portfolio_read''
                       ''portfolio_manager_agent'',
                     pt_priority = 3, pt_expected_output = ''PortfolioRiskReport'',
                     pt_depends_on = []\<rparr> p)
        in if plans_capability p1 ''adhoc_synthesis'' then p1
           else add_task \<lparr>pt_key = ''adhoc_synthesis'',
                  pt_objective = (case gp_tasks p1 of t # _ \<Rightarrow> pt_objective t | [] \<Rightarrow> ''Answer the objective.''),
                  pt_capability = ''adhoc_synthesis'',
                  pt_assigned_agent = resolve_scaffold_agent registry ''adhoc_synthesis'' ''ceo_agent'',
                  pt_priority = 1, pt_expected_output = ''AdHocAnalysis'',
                  pt_depends_on = map pt_key (gp_tasks p1)\<rparr> p1))"

section \<open>Validation\<close>

type_synonym graph = "(string, string list) dict"

definition plan_graph :: "planned_task list \<Rightarrow> graph" where
  "plan_graph ts = foldl (\<lambda>g t. dict_set (pt_key t) (remdups (pt_depends_on t)) g) [] ts"

text \<open>Depth-first search. \<open>Inl\<close> is the task at which a cycle closed, \<open>Inr\<close> the visited set.\<close>
function (sequential) visit :: "graph \<Rightarrow> string list \<Rightarrow> string list \<Rightarrow> string \<Rightarrow> string + string list"
  and visit_all :: "graph \<Rightarrow> string list \<Rightarrow> string list \<Rightarrow> string list \<Rightarrow> string + string list" where
  "visit g stack visited node =
    (if node \<in> set stack then Inl node
     else if node \<in> set visited then Inr visited
     else case dict_get g node of
            None \<Rightarrow> Inr (node # visited)
          | Some nxts \<Rightarrow>
             (case visit_all g (node # stack) visited nxts of
                Inl c \<Rightarrow> Inl c
              | Inr visited' \<Rightarrow> Inr (node # visited')))"
| "visit_all g stack visited [] = Inr visited"
| "visit_all g stack visited (n # ns) =
    (case visit g stack visited n of
       Inl c \<Rightarrow> Inl c
     | Inr visited' \<Rightarrow> visit_all g stack visited' ns)"
  by pat_completeness auto
termination
proof (relation "inv_image (less_than <*lex*> less_than) (\<lambda>x. case x of
    Inl (g, stack, visited, node) \<Rightarrow> (card (fst ` set g - set stack), 0)
  | Inr (g, stack, visited, ns) \<Rightarrow> (card (fst ` set g - set stack), Suc (length ns)))")
  fix g :: graph and stack visited :: "string list" and node nxts
  assume "node \<notin> set stack" "dict_get g node = Some nxts"
  then have "node \<in> fst ` set g - set stack" by (force dest: map_of_SomeD)
  then have "card (fst ` set g - set stack - {node}) < card (fst ` set g - set stack)"
    by (intro card_Diff1_less) auto
  moreover have "fst ` set g - set (node # stack) = fst ` set g - set stack - {node}" by auto
  ultimately show "(Inr (g, node # stack, visited, nxts), Inl (g, stack, visited, node))
    \<in> inv_image (less_than <*lex*> less_than) (\<lambda>x. case x of
        Inl (g, stack, visited, node) \<Rightarrow> (card (fst ` set g - set stack), 0)
      | Inr (g, stack, visited, ns) \<Rightarrow> (card (fst ` set g - set stack), Suc (length ns)))"
    by simp
qed auto

definition assert_acyclic :: "planned_task list \<Rightarrow> string + unit" where
  "assert_acyclic ts =
    (case visit_all (plan_graph ts) [] [] (map fst (plan_graph ts)) of
       Inl node \<Rightarrow> Inl (''dependency cycle through task '' @ quoted node)
     | Inr _ \<Rightarrow> Inr ())"

text \<open>The transitive closure of the dependencies, computed in place until a sweep changes nothing.\<close>
definition widen :: "graph \<Rightarrow> string list \<Rightarrow> string list" where
  "widen r deps = remdups (deps @ concat (map (\<lambda>d. dict_get_default r d []) deps))"

definition reach_step :: "graph \<times> bool \<Rightarrow> string \<Rightarrow> graph \<times> bool" where
  "reach_step st k =
    (let (r, changed) = st; deps = dict_get_default r k []; new = widen r deps in
     if set new \<subseteq> set deps then (r, changed) else (dict_set k new r, True))"

definition reach_sweep :: "graph \<Rightarrow> graph \<times> bool" where
  "reach_sweep r = foldl reach_step (r, False) (map fst r)"

definition universe :: "graph \<Rightarrow> string set" where
  "universe r = \<Union> (set ` snd ` set r)"

definition slack :: "graph \<Rightarrow> nat" where
  "slack r = sum_list (map (\<lambda>(k, v). card (universe r - set v)) r)"

lemma finite_universe [simp]: "finite (universe r)"
  by (simp add: universe_def)

lemma dict_get_default_universe: "set (dict_get_default r k []) \<subseteq> universe r"
proof (cases "map_of r k")
  case (Some v)
  then have "v \<in> snd ` set r" by (force dest: map_of_SomeD)
  then show ?thesis using Some by (auto simp: dict_get_default_def universe_def)
qed (simp add: dict_get_default_def)

lemma widen_universe: "set (dict_get_default r k []) \<subseteq> set (widen r (dict_get_default r k []))"
    "set (widen r (dict_get_default r k [])) \<subseteq> universe r"
  using dict_get_default_universe by (fastforce simp: widen_def)+

lemma dict_set_weight:
  assumes "finite U" "map_of r k = Some v" "set v \<subset> set v'" "set v' \<subseteq> U"
  shows "sum_list (map (\<lambda>(k, v). card (U - set v)) (dict_set k v' r)) < sum_list (map (\<lambda>(k, v). card (U - set v)) r)"
  using assms(2)
proof (induction r)
  case (Cons p r)
  have "card (U - set v') < card (U - set v)" using assms(1,3,4) by (intro psubset_card_mono) auto
  then show ?case using Cons by (cases p) (auto split: if_splits)
qed simp

lemma dict_set_universe:
  assumes "map_of r k = Some v" "set v \<subseteq> set v'" "set v' \<subseteq> universe r"
  shows "universe (dict_set k v' r) = universe r"
proof -
  have "\<Union> (set ` snd ` set (dict_set k v' r)) \<subseteq> \<Union> (set ` snd ` set r) \<union> set v'"
    "\<Union> (set ` snd ` set r) \<subseteq> \<Union> (set ` snd ` set (dict_set k v' r))"
    using assms(1,2) by (induction r) (auto split: if_splits)
  then show ?thesis using assms(3) by (auto simp: universe_def)
qed

lemma reach_step_slack:
  assumes "reach_step (r, c) k = (r', c')" "k \<in> fst ` set r"
  shows "fst ` set r' = fst ` set r" "universe r' = universe r" "c \<longrightarrow> c'"
    "slack r' \<le> slack r" "c' \<Longrightarrow> \<not> c \<Longrightarrow> slack r' < slack r"
proof -
  obtain v where v: "map_of r k = Some v" using assms(2) by (metis map_of_eq_None_iff not_None_eq)
  then have dv: "dict_get_default r k [] = v" by (simp add: dict_get_default_def)
  let ?new = "widen r v"
  have w: "set v \<subseteq> set ?new" "set ?new \<subseteq> universe r" using widen_universe[of r k] by (simp_all add: dv)
  have u: "universe (dict_set k ?new r) = universe r" by (rule dict_set_universe[OF v w])
  have l: "slack (dict_set k ?new r) < slack r" if "\<not> set ?new \<subseteq> set v"
    using dict_set_weight[OF finite_universe v _ w(2)] w(1) that by (simp add: slack_def u psubset_eq)
  have ks: "fst ` set (dict_set k ?new r) = fst ` set r"
    using assms(2) by (simp only: dict_keys_set insert_absorb)
  have "r' = r \<or> r' = dict_set k ?new r"
    using assms(1) by (auto simp: reach_step_def dv Let_def split: if_splits)
  then show "fst ` set r' = fst ` set r" by (elim disjE) (simp_all only: ks)
  show "universe r' = universe r" "c \<longrightarrow> c'"
    "slack r' \<le> slack r" "c' \<Longrightarrow> \<not> c \<Longrightarrow> slack r' < slack r"
    using assms u l by (auto simp: reach_step_def dv Let_def split: if_splits)
qed

lemma reach_fold_slack:
  assumes "foldl reach_step (r, c) ks = (r', c')" "set ks \<subseteq> fst ` set r"
  shows "slack r' \<le> slack r \<and> (c' \<longrightarrow> \<not> c \<longrightarrow> slack r' < slack r)"
  using assms
proof (induction ks arbitrary: r c)
  case (Cons k ks)
  obtain r1 c1 where s: "reach_step (r, c) k = (r1, c1)" by fastforce
  have k: "k \<in> fst ` set r" using Cons.prems(2) by simp
  have "foldl reach_step (r1, c1) ks = (r', c')" using Cons.prems(1) s by simp
  moreover have "set ks \<subseteq> fst ` set r1" using Cons.prems(2) reach_step_slack(1)[OF s k] by simp
  ultimately have "slack r' \<le> slack r1 \<and> (c' \<longrightarrow> \<not> c1 \<longrightarrow> slack r' < slack r1)" by (rule Cons.IH)
  then show ?case using reach_step_slack(3,4,5)[OF s k] by (cases c1) auto
qed simp

function reach_closure :: "graph \<Rightarrow> graph" where
  "reach_closure r = (let (r', changed) = reach_sweep r in if changed then reach_closure r' else r')"
  by auto
termination
proof (relation "measure slack")
  fix r x r' changed
  assume "x = reach_sweep r" "(r', changed) = x" "changed"
  then show "(r', r) \<in> measure slack"
    using reach_fold_slack[of r False "map fst r" r' True] by (simp add: reach_sweep_def)
qed simp

declare reach_closure.simps [simp del]

definition safety_keys :: "planned_task list \<Rightarrow> (string, string) dict" where
  "safety_keys ts = foldl (\<lambda>d t. if pt_capability t \<in> set SAFETY_ORDER
      then dict_set (pt_capability t) (pt_key t) d else d) [] ts"

definition assert_safety_order :: "planned_task list \<Rightarrow> string + unit" where
  "assert_safety_order ts =
    (let by_cap = safety_keys ts;
         present = filter (\<lambda>c. c \<in> fst ` set by_cap) SAFETY_ORDER
     in if length present < 2 then Inr ()
        else
          (let reach = reach_closure (plan_graph ts) in
           case List.find (\<lambda>(earlier, later). dict_get_default by_cap earlier []
                    \<notin> set (dict_get_default reach (dict_get_default by_cap later []) []))
                  (zip present (tl present)) of
             Some (earlier, later) \<Rightarrow> Inl (''safety order violated: '' @ quoted later
               @ '' must depend (transitively) on '' @ quoted earlier)
           | None \<Rightarrow> Inr ()))"

definition check_dep :: "planned_task list \<Rightarrow> planned_task \<Rightarrow> string \<Rightarrow> string option" where
  "check_dep ts t dep =
    (if dep \<notin> pt_key ` set ts then
       Some (''task '' @ pt_key t @ '': dependency '' @ quoted dep @ '' is not an in-plan task'')
     else if dep = pt_key t then Some (''task '' @ pt_key t @ '': self-dependency'')
     else None)"

fun first_some :: "('a \<Rightarrow> 'b option) \<Rightarrow> 'a list \<Rightarrow> 'b option" where
  "first_some f [] = None"
| "first_some f (x # xs) = (case f x of Some y \<Rightarrow> Some y | None \<Rightarrow> first_some f xs)"

definition check_task :: "(string, string list) dict \<Rightarrow> planned_task list \<Rightarrow> planned_task \<Rightarrow> string option" where
  "check_task known ts t =
    (case dict_get known (pt_assigned_agent t) of
       None \<Rightarrow> Some (''task '' @ pt_key t @ '': unknown agent '' @ quoted (pt_assigned_agent t))
     | Some caps \<Rightarrow>
        if pt_capability t \<notin> set caps then
          Some (''task '' @ pt_key t @ '': agent '' @ quoted (pt_assigned_agent t)
            @ '' does not declare capability '' @ quoted (pt_capability t))
        else first_some (check_dep ts t) (pt_depends_on t))"

definition validate :: "planned_task list \<Rightarrow> (string, string list) dict \<Rightarrow> string + unit" where
  "validate ts known =
    (if ts = [] then Inl ''plan has no tasks''
     else if \<not> distinct (map pt_key ts) then Inl ''duplicate task keys''
     else case first_some (check_task known ts) ts of
            Some err \<Rightarrow> Inl err
          | None \<Rightarrow>
             (case assert_acyclic ts of
                Inl err \<Rightarrow> Inl err
              | Inr _ \<Rightarrow> assert_safety_order ts))"

section \<open>Persisting a plan\<close>

definition task_timeout_seconds_for :: "env \<Rightarrow> string \<Rightarrow> int" where
  "task_timeout_seconds_for env cap =
    (if cap = ''strategy_research'' then e_org_research_task_timeout_seconds env
     else e_org_task_default_timeout_seconds env)"

definition planned_task_row :: "env \<Rightarrow> organization_run \<Rightarrow> nat \<Rightarrow> nat \<Rightarrow> planned_task \<Rightarrow> task" where
  "planned_task_row env run pid tid t =
    \<lparr>task_id = tid, task_plan_id = pid, task_run_id = run_id run, task_tenant_id = run_tenant_id run,
     task_objective = pt_objective t, task_assigned_agent = pt_assigned_agent t,
     task_assigned_by = ''ceo_agent'', task_capability = pt_capability t, task_priority = pt_priority t,
     task_dependency_policy = POL_ALL, task_required_inputs = [], task_received_inputs = [],
     task_required_datasets = [], task_expected_output = take 80 (pt_expected_output t),
     task_result_artefact_id = None, task_status_of = TASK_PLANNED,
     task_is_concurrency_safe = is_concurrency_safe (pt_capability t), task_retry_count = 0,
     task_max_retries = 3, task_timeout_seconds = task_timeout_seconds_for env (pt_capability t),
     task_blocked_reason = None, task_failure_reason = None, task_correlation_id = run_thread_id run,
     task_audit_reference = None, task_created_at = e_now env, task_started_at = None,
     task_completed_at = None, task_ran_concurrently = False, task_dependency_wait_seconds = 0\<rparr>"

definition insert_task :: "env \<Rightarrow> organization_run \<Rightarrow> nat \<Rightarrow> (string, nat) dict \<times> db \<Rightarrow> planned_task
    \<Rightarrow> (string, nat) dict \<times> db" where
  "insert_task env run pid st t =
    (let (key_to_id, d) = st; tid = db_next_id d in
     (dict_set (pt_key t) tid key_to_id,
      d\<lparr>db_tasks := db_tasks d @ [planned_task_row env run pid tid t], db_next_id := Suc tid\<rparr>))"

definition planned_dep_row ::
  "env \<Rightarrow> nat \<Rightarrow> planned_task list \<Rightarrow> (string, nat) dict \<Rightarrow> nat \<Rightarrow> planned_task \<times> string \<Rightarrow> task_dependency" where
  "planned_dep_row env pid ts key_to_id did e =
    (let (t, dep_key) = e in
     \<lparr>dep_id = did, dep_plan_id = pid, dep_dependent_task_id = dict_get_default key_to_id (pt_key t) 0,
      dep_prerequisite_task_id = dict_get_default key_to_id dep_key 0,
      dep_required_artefact_type = take 80 (case row_by pt_key dep_key ts of
         Some x \<Rightarrow> pt_expected_output x | None \<Rightarrow> ''Artefact''),
      dep_policy = Hard, dep_state_of = DEP_UNSATISFIED, dep_satisfied_at = None,
      dep_created_at = e_now env\<rparr>)"

definition insert_dep :: "env \<Rightarrow> nat \<Rightarrow> planned_task list \<Rightarrow> (string, nat) dict \<Rightarrow> db \<Rightarrow> planned_task \<times> string \<Rightarrow> db"
where
  "insert_dep env pid ts key_to_id d e =
    d\<lparr>db_deps := db_deps d @ [planned_dep_row env pid ts key_to_id (db_next_id d) e],
      db_next_id := Suc (db_next_id d)\<rparr>"

definition plan_edges :: "planned_task list \<Rightarrow> (planned_task \<times> string) list" where
  "plan_edges ts = concat (map (\<lambda>t. map (Pair t) (pt_depends_on t)) ts)"

text \<open>The unique constraint on (dependent, prerequisite) rejects a repeated dependency at the flush.\<close>
definition violates_edge_uniqueness :: "planned_task list \<Rightarrow> bool" where
  "violates_edge_uniqueness ts \<longleftrightarrow> list_ex (\<lambda>t. \<not> distinct (pt_depends_on t)) ts"

definition persist_plan :: "env \<Rightarrow> organization_run \<Rightarrow> generated_plan \<Rightarrow> db \<Rightarrow> nat \<times> db" where
  "persist_plan env run p d =
    (let pid = db_next_id d; ts = gp_tasks p;
         d1 = d\<lparr>db_plans := db_plans d @
            [\<lparr>plan_id = pid, plan_run_id = run_id run,
              plan_objective_classification = take 80 (gp_objective_classification p),
              plan_departments = gp_departments p,
              plan_safety_chain = filter (plans_capability p) SAFETY_ORDER,
              plan_approval_required = gp_approval_required p, plan_created_at = e_now env\<rparr>],
            db_next_id := Suc pid\<rparr>;
         d2 = set_run (run_id run) (\<lambda>r. r\<lparr>run_plan_id := Some pid, run_updated_at := e_now env\<rparr>) d1;
         (key_to_id, d3) = foldl (insert_task env run pid) ([], d2) ts
     in (pid, foldl (insert_dep env pid ts key_to_id) d3 (plan_edges ts)))"

section \<open>Generating a plan\<close>

definition record_cannot_plan :: "env \<Rightarrow> nat \<Rightarrow> string \<Rightarrow> db \<Rightarrow> db" where
  "record_cannot_plan env rid reason d =
    (let d1 = set_run rid (\<lambda>r. r\<lparr>run_status_of := RUN_CANNOT_PLAN, run_ended_at := Some (e_now env),
                run_updated_at := e_now env\<rparr>) d;
         row = \<lparr>od_id = db_next_id d1, od_run_id = rid, od_decision_type = DEC_CANNOT_PLAN,
           od_summary = ''The organisation cannot serve this objective.'', od_reason = reason,
           od_supporting_input_artefact_ids = [], od_supporting_agents = [''ceo_agent''],
           od_next_step = None, od_escalated_to_role = None, od_resolved_by = None,
           od_audit_reference = None, od_created_at = e_now env\<rparr>;
         d2 = d1\<lparr>db_decisions := db_decisions d1 @ [row], db_next_id := Suc (db_next_id d1)\<rparr>
     in snd (emit env rid ''organization.run.cannot_plan'' ''run'' (Some rid)
          (JObj [(''reason'', JStr reason)]) True d2))"

definition known_agents_of :: "agent_snapshot_row list \<Rightarrow> (string, string list) dict" where
  "known_agents_of registry = map (\<lambda>r. (sn_name r, sn_capabilities r)) (filter sn_enabled registry)"

definition scaffolded :: "agent_snapshot_row list \<Rightarrow> generated_plan \<Rightarrow> generated_plan" where
  "scaffolded registry p = ensure_adhoc_scaffold registry (ensure_research_scaffold registry p)"

definition check_plan :: "agent_snapshot_row list \<Rightarrow> generated_plan \<Rightarrow> string + generated_plan" where
  "check_plan registry p =
    (let known = known_agents_of registry in
     case validate (gp_tasks p) known of
       Inl err \<Rightarrow> Inl err
     | Inr _ \<Rightarrow>
        (let q = scaffolded registry p in
         case validate (gp_tasks q) known of Inl err \<Rightarrow> Inl err | Inr _ \<Rightarrow> Inr q))"

datatype plan_outcome = PlanCreated nat | CannotPlan | PlanCrashed

text \<open>The attempts that are left, each fed the last rejection. An integrity error leaves the database
  as it was: the session closes without a commit.\<close>
fun plan_attempts :: "env \<Rightarrow> (nat \<Rightarrow> string \<Rightarrow> string + generated_plan) \<Rightarrow> organization_run
    \<Rightarrow> agent_snapshot_row list \<Rightarrow> nat \<Rightarrow> string \<Rightarrow> db \<Rightarrow> plan_outcome \<times> db" where
  "plan_attempts env propose run registry 0 last_error d =
    (CannotPlan, record_cannot_plan env (run_id run)
       (''planner exhausted '' @ show_int (int MAX_PLAN_ATTEMPTS) @ '' attempts: '' @ last_error) d)"
| "plan_attempts env propose run registry (Suc left_over) last_error d =
    (case propose (MAX_PLAN_ATTEMPTS - left_over) last_error of
       Inl exc \<Rightarrow> plan_attempts env propose run registry left_over
         (''could not produce valid plan JSON ('' @ exc @ '')'') d
     | Inr p \<Rightarrow>
        if \<not> gp_can_plan p then
          (CannotPlan, record_cannot_plan env (run_id run)
             (case gp_reason p of
                Some (c # cs) \<Rightarrow> c # cs
              | _ \<Rightarrow> ''the CEO judged the objective unservable'') d)
        else
          (case check_plan registry p of
             Inl err \<Rightarrow> plan_attempts env propose run registry left_over err d
           | Inr q \<Rightarrow>
              if violates_edge_uniqueness (gp_tasks q) then (PlanCrashed, d)
              else
                (let (pid, d1) = persist_plan env run q d
                 in (PlanCreated pid,
                     snd (emit env (run_id run) ''organization.plan.created'' ''plan'' (Some pid)
                       (JObj [(''task_count'', JInt (int (length (gp_tasks q)))),
                              (''departments'', JArr (map JStr (gp_departments q))),
                              (''dependency_count'',
                                 JInt (int (length (plan_edges (gp_tasks q)))))]) True d1)))))"

definition generate_plan ::
  "env \<Rightarrow> (nat \<Rightarrow> string \<Rightarrow> string + generated_plan) \<Rightarrow> organization_run \<Rightarrow> db \<Rightarrow> plan_outcome \<times> db" where
  "generate_plan env propose run d =
    plan_attempts env propose run (snapshot d) MAX_PLAN_ATTEMPTS [] d"

section \<open>The logs survive planning\<close>

lemma record_cannot_plan_conserves [conserving]:
  "conserves env d0 d \<Longrightarrow> conserves env d0 (record_cannot_plan env rid reason d)"
  unfolding record_cannot_plan_def Let_def
  by (rule conserves_emit, rule conserves_insert, erule conserves_setters(1)) simp_all

lemma persist_plan_conserves:
  assumes "conserves env d0 d"
  shows "conserves env d0 (snd (persist_plan env run p d))"
proof -
  have ins: "conserves env d0 (snd (foldl (insert_task env run pid) (keys, x) ts))" if "conserves env d0 x" for keys x ts pid
    by (rule foldl_invariant[of "\<lambda>st. conserves env d0 (snd st)"])
      (use that in \<open>auto simp: insert_task_def Let_def elim!: conserves_insert\<close>)
  have dep: "conserves env d0 (foldl (insert_dep env pid ts keys) x es)" if "conserves env d0 x" for keys x es ts pid
    by (rule foldl_invariant[of "conserves env d0"])
      (use that in \<open>auto simp: insert_dep_def elim!: conserves_insert\<close>)
  show ?thesis
    unfolding persist_plan_def Let_def case_prod_unfold snd_conv
    by (intro dep ins conserves_setters, rule conserves_insert, rule assms) simp_all
qed

lemma generate_plan_conserves [conserving]:
  assumes "conserves env d0 d"
  shows "conserves env d0 (snd (generate_plan env propose run d))"
proof -
  have "conserves env d0 (snd (plan_attempts env propose run registry n err d))" for registry n err
    using assms
    by (induction n arbitrary: err)
      (auto simp: record_cannot_plan_conserves persist_plan_conserves conserves_emit case_prod_unfold Let_def
        split: sum.split)
  then show ?thesis by (simp add: generate_plan_def)
qed

lemma record_cannot_plan_frame [simp]:
  "db_tasks (record_cannot_plan env rid r d) = db_tasks d" "db_deps (record_cannot_plan env rid r d) = db_deps d"
  by (simp_all add: record_cannot_plan_def Let_def)

end
