(* ===== verification/PlanValidation.thy ===== *)
theory PlanValidation
  imports Planner
begin

text \<open>
  What the planner's deterministic checks guarantee: the depth-first search accepts exactly the
  acyclic graphs, the in-place closure is the transitive closure, validation accepts exactly the
  plans with the stated invariants, and a plan that reaches the database has them.
\<close>

section \<open>Cycles\<close>

definition edges :: "graph \<Rightarrow> (string \<times> string) set" where
  "edges g = {(a, b). \<exists>bs. dict_get g a = Some bs \<and> b \<in> set bs}"

definition closed_in :: "graph \<Rightarrow> string set \<Rightarrow> bool" where
  "closed_in g V \<longleftrightarrow> (\<forall>a b. a \<in> V \<and> (a, b) \<in> edges g \<longrightarrow> b \<in> V)"

definition acyclic_on :: "graph \<Rightarrow> string set \<Rightarrow> bool" where
  "acyclic_on g V \<longleftrightarrow> (\<forall>a \<in> V. (a, a) \<notin> (edges g)\<^sup>+)"

lemma closed_in_trancl:
  assumes "closed_in g V" "(a, b) \<in> (edges g)\<^sup>+" "a \<in> V"
  shows "b \<in> V"
  using assms(2,3) by (induction rule: trancl_induct) (use assms(1) in \<open>auto simp: closed_in_def\<close>)

lemma visit_sound:
  "visit g stack visited node = Inl c \<Longrightarrow> (\<forall>s \<in> set stack. (s, node) \<in> (edges g)\<^sup>+) \<Longrightarrow>
     (c, c) \<in> (edges g)\<^sup>+"
  "visit_all g stack visited ns = Inl c \<Longrightarrow> (\<forall>s \<in> set stack. \<forall>n \<in> set ns. (s, n) \<in> (edges g)\<^sup>+) \<Longrightarrow>
     (c, c) \<in> (edges g)\<^sup>+"
proof (induction g stack visited node and g stack visited ns rule: visit_visit_all.induct)
  case (1 g stack visited node)
  show ?case
  proof (cases "node \<in> set stack")
    case True
    then show ?thesis using 1 by auto
  next
    case False
    then obtain nxts where n: "node \<notin> set visited" "dict_get g node = Some nxts"
      "visit_all g (node # stack) visited nxts = Inl c"
      using 1(2) by (auto split: if_splits option.splits sum.splits)
    have e: "(node, m) \<in> edges g" if "m \<in> set nxts" for m using n(2) that by (auto simp: edges_def)
    have "\<forall>s \<in> set (node # stack). \<forall>m \<in> set nxts. (s, m) \<in> (edges g)\<^sup>+"
      using e 1(3) by (auto intro: trancl_into_trancl)
    then show ?thesis using 1(1)[OF False n(1,2)] n(3) by blast
  qed
next
  case (3 g stack visited n ns)
  then show ?case by (auto split: sum.splits)
qed simp

lemma visit_complete:
  "visit g stack visited node = Inr v \<Longrightarrow> closed_in g (set visited) \<Longrightarrow> acyclic_on g (set visited) \<Longrightarrow>
     set visited \<inter> set stack = {} \<Longrightarrow>
     set visited \<subseteq> set v \<and> node \<in> set v \<and> closed_in g (set v) \<and> acyclic_on g (set v) \<and> set v \<inter> set stack = {}"
  "visit_all g stack visited ns = Inr v \<Longrightarrow> closed_in g (set visited) \<Longrightarrow> acyclic_on g (set visited) \<Longrightarrow>
     set visited \<inter> set stack = {} \<Longrightarrow>
     set visited \<subseteq> set v \<and> set ns \<subseteq> set v \<and> closed_in g (set v) \<and> acyclic_on g (set v) \<and> set v \<inter> set stack = {}"
proof (induction g stack visited node and g stack visited ns arbitrary: v and v rule: visit_visit_all.induct)
  case (1 g stack visited node)
  have ns: "node \<notin> set stack" using 1(2) by (auto split: if_splits)
  show ?case
  proof (cases "node \<in> set visited")
    case True
    then show ?thesis using 1(2-5) ns by simp
  next
    case nv: False
    show ?thesis
    proof (cases "dict_get g node")
      case None
      then have v: "v = node # visited" using 1(2) ns nv by simp
      have no_edge: "(node, b) \<notin> edges g" for b using None by (simp add: edges_def)
      then have "(node, node) \<notin> (edges g)\<^sup>+" by (metis tranclD)
      then show ?thesis using 1(3-5) ns no_edge by (auto simp: v closed_in_def acyclic_on_def)
    next
      case (Some nxts)
      then obtain v' where v': "visit_all g (node # stack) visited nxts = Inr v'" "v = node # v'"
        using 1(2) ns nv by (auto split: sum.splits)
      have "set visited \<inter> set (node # stack) = {}" using nv 1(5) by simp
      then have ih: "set visited \<subseteq> set v'" "set nxts \<subseteq> set v'" "closed_in g (set v')" "acyclic_on g (set v')"
        "set v' \<inter> set (node # stack) = {}" using 1(1)[OF ns nv Some v'(1) 1(3,4)] by auto
      have succ: "b \<in> set v'" if "(node, b) \<in> edges g" for b
        using that ih(2) Some by (auto simp: edges_def)
      have "(node, node) \<notin> (edges g)\<^sup>+"
      proof
        assume "(node, node) \<in> (edges g)\<^sup>+"
        then obtain b where b: "(node, b) \<in> edges g" "(b, node) \<in> (edges g)\<^sup>*" by (blast dest: tranclD)
        then have "node \<in> set v'"
          using succ[OF b(1)] closed_in_trancl[OF ih(3)] by (metis rtranclD)
        then show False using ih(5) by simp
      qed
      then show ?thesis using ih succ ns by (auto simp: v'(2) closed_in_def acyclic_on_def)
    qed
  qed
next
  case (3 g stack visited n ns)
  from 3(3) obtain v' where v': "visit g stack visited n = Inr v'" "visit_all g stack v' ns = Inr v"
    by (auto split: sum.splits)
  have a: "set visited \<subseteq> set v'" "n \<in> set v'" "closed_in g (set v')" "acyclic_on g (set v')"
    "set v' \<inter> set stack = {}" using 3(1)[OF v'(1) 3(4-6)] by auto
  show ?case using 3(2)[OF v'(1) v'(2) a(3-5)] a(1,2) by auto
qed simp

lemma visit_all_acyclic:
  "(\<exists>v. visit_all g [] [] (map fst g) = Inr v) \<longleftrightarrow> acyclic (edges g)"
proof
  assume "\<exists>v. visit_all g [] [] (map fst g) = Inr v"
  then obtain v where v: "visit_all g [] [] (map fst g) = Inr v" by blast
  have "set (map fst g) \<subseteq> set v \<and> acyclic_on g (set v)"
    using visit_complete(2)[OF v] by (simp add: closed_in_def acyclic_on_def)
  moreover have "a \<in> set (map fst g)" if "(a, b) \<in> edges g" for a b
    using that map_of_eq_None_iff[of g a] by (auto simp: edges_def)
  ultimately have "(a, a) \<notin> (edges g)\<^sup>+" for a
    by (metis acyclic_on_def subsetD tranclD)
  then show "acyclic (edges g)" by (simp add: acyclic_def)
next
  assume "acyclic (edges g)"
  then have "visit_all g [] [] (map fst g) \<noteq> Inl c" for c
    using visit_sound(2)[of g "[]" "[]" "map fst g" c] by (auto simp: acyclic_def)
  then show "\<exists>v. visit_all g [] [] (map fst g) = Inr v" by (cases "visit_all g [] [] (map fst g)") auto
qed

section \<open>Reachability\<close>

abbreviation reached :: "graph \<Rightarrow> string \<Rightarrow> string set" where
  "reached r k \<equiv> set (dict_get_default r k [])"

definition closing :: "(string \<times> string) set \<Rightarrow> graph \<Rightarrow> bool" where
  "closing E r \<longleftrightarrow> (\<forall>a b. b \<in> reached r a \<longrightarrow> (a, b) \<in> E\<^sup>+) \<and> (\<forall>a b. (a, b) \<in> E \<longrightarrow> b \<in> reached r a)"

lemma set_widen: "set (widen r deps) = set deps \<union> (\<Union>d \<in> set deps. reached r d)"
  by (auto simp: widen_def)

lemma reach_step_closing:
  assumes "closing E r"
  shows "closing E (fst (reach_step (r, c) k))"
proof -
  have "x \<in> set (widen r (dict_get_default r k [])) \<Longrightarrow> (k, x) \<in> E\<^sup>+" for x
    using assms by (auto simp: set_widen closing_def intro: trancl_trans)
  then show ?thesis using assms by (auto simp: reach_step_def Let_def closing_def set_widen)
qed

lemma reach_fold_closing: "closing E r \<Longrightarrow> closing E (fst (foldl reach_step (r, c) ks))"
proof (induction ks arbitrary: r c)
  case (Cons k ks)
  obtain r1 c1 where s: "reach_step (r, c) k = (r1, c1)" by fastforce
  then have "closing E r1" using reach_step_closing[OF Cons.prems, of c k] by simp
  then show ?case using Cons.IH s by simp
qed simp

lemma reach_fold_unchanged:
  "foldl reach_step (r, c) ks = (r', False) \<Longrightarrow>
   r' = r \<and> \<not> c \<and> (\<forall>k \<in> set ks. set (widen r (dict_get_default r k [])) \<subseteq> reached r k)"
proof (induction ks arbitrary: r c)
  case (Cons k ks)
  obtain r1 c1 where s: "reach_step (r, c) k = (r1, c1)" by fastforce
  then have "r' = r1 \<and> \<not> c1 \<and> (\<forall>k \<in> set ks. set (widen r1 (dict_get_default r1 k [])) \<subseteq> reached r1 k)"
    using Cons.prems by (intro Cons.IH) simp
  then show ?case using s by (auto simp: reach_step_def Let_def split: if_splits)
qed simp

lemma reach_closure_closed:
  "closing E r \<Longrightarrow> reached (reach_closure r) k = {b. (k, b) \<in> E\<^sup>+}"
proof (induction r rule: reach_closure.induct)
  case (1 r)
  obtain r' c' where s: "reach_sweep r = (r', c')" by fastforce
  then have cl: "closing E r'"
    using reach_fold_closing[OF 1(2), of False "map fst r"] by (simp add: reach_sweep_def)
  show ?case
  proof (cases c')
    case True
    then have "reached (reach_closure r') k = {b. (k, b) \<in> E\<^sup>+}" using 1(1)[OF refl _ _ cl] s by metis
    then show ?thesis using s True reach_closure.simps[of r] by simp
  next
    case False
    then have u: "r' = r" "k \<in> fst ` set r \<Longrightarrow> set (widen r (dict_get_default r k [])) \<subseteq> reached r k" for k
      using s reach_fold_unchanged[of r False "map fst r" r'] by (auto simp: reach_sweep_def)
    have trans: "c \<in> reached r a" if "b \<in> reached r a" "c \<in> reached r b" for a b c
    proof -
      have "a \<in> fst ` set r"
        using that(1) map_of_eq_None_iff[of r a] by (cases "map_of r a") (auto simp: dict_get_default_def)
      then show ?thesis using u(2) that by (auto simp: set_widen)
    qed
    have "b \<in> reached r k" if "(k, b) \<in> E\<^sup>+" for b
      using that by (induction rule: trancl_induct) (use 1(2) trans in \<open>auto simp: closing_def\<close>)
    then have "reached r k = {b. (k, b) \<in> E\<^sup>+}" using 1(2) by (auto simp: closing_def)
    then show ?thesis using s False u(1) reach_closure.simps[of r] by simp
  qed
qed

lemma reach_closure_graph: "reached (reach_closure g) k = {b. (k, b) \<in> (edges g)\<^sup>+}"
proof (rule reach_closure_closed)
  have "(a, b) \<in> edges g \<longleftrightarrow> b \<in> reached g a" for a b
    by (cases "dict_get g a") (auto simp: edges_def dict_get_default_def)
  then show "closing (edges g) g" by (auto simp: closing_def)
qed

section \<open>Validation\<close>

text \<open>The dependency relation of a plan, between task keys.\<close>
definition depends :: "planned_task list \<Rightarrow> (string \<times> string) set" where
  "depends ts = {(pt_key t, k) | t k. t \<in> set ts \<and> k \<in> set (pt_depends_on t)}"

lemma plan_graph_get:
  assumes "distinct (map pt_key ts)"
  shows "dict_get (plan_graph ts) k = map_option (\<lambda>t. remdups (pt_depends_on t)) (row_by pt_key k ts)"
proof -
  have "dict_get (foldl (\<lambda>g t. dict_set (pt_key t) (remdups (pt_depends_on t)) g) g ts) k
      = (case row_by pt_key k ts of Some t \<Rightarrow> Some (remdups (pt_depends_on t)) | None \<Rightarrow> dict_get g k)" for g
    using assms
  proof (induction ts arbitrary: g)
    case (Cons t ts)
    have "row_by pt_key (pt_key t) ts = None" using Cons.prems by (auto simp: row_by_None_iff)
    then show ?case using Cons by (auto split: option.split)
  qed simp
  then show ?thesis by (simp add: plan_graph_def split: option.split)
qed

lemma edges_plan_graph:
  assumes "distinct (map pt_key ts)"
  shows "edges (plan_graph ts) = depends ts"
proof -
  have "(a, b) \<in> edges (plan_graph ts) \<longleftrightarrow> (\<exists>t. row_by pt_key a ts = Some t \<and> b \<in> set (pt_depends_on t))" for a b
    by (auto simp: edges_def plan_graph_get[OF assms])
  also have "(\<exists>t. row_by pt_key a ts = Some t \<and> b \<in> set (pt_depends_on t)) \<longleftrightarrow> (a, b) \<in> depends ts" for a b
    using row_by_distinct[OF assms] by (auto simp: depends_def dest: row_by_SomeD)
  finally show ?thesis by auto
qed

lemma assert_acyclic_iff:
  "distinct (map pt_key ts) \<Longrightarrow> assert_acyclic ts = Inr () \<longleftrightarrow> acyclic (depends ts)"
  using visit_all_acyclic[of "plan_graph ts"]
  by (auto simp: assert_acyclic_def edges_plan_graph split: sum.split)

lemma first_some_None: "first_some f xs = None \<longleftrightarrow> (\<forall>x \<in> set xs. f x = None)"
  by (induction xs) (auto split: option.split)

text \<open>The task the safety check looks at for a stage: the last one planned with the capability.\<close>
definition stage_key :: "planned_task list \<Rightarrow> string \<Rightarrow> string option" where
  "stage_key ts c = map_option pt_key (row_by pt_capability c (rev ts))"

lemma safety_keys_get:
  assumes "c \<in> set SAFETY_ORDER"
  shows "dict_get (safety_keys ts) c = stage_key ts c"
  unfolding safety_keys_def stage_key_def
  by (induction ts rule: rev_induct) (use assms in \<open>auto split: option.split\<close>)

definition consecutive :: "'a list \<Rightarrow> ('a \<times> 'a) set" where
  "consecutive xs = set (zip xs (tl xs))"

lemma consecutive_members: "(a, b) \<in> consecutive xs \<Longrightarrow> a \<in> set xs \<and> b \<in> set xs"
  by (cases xs) (auto simp: consecutive_def dest: set_zip_leftD set_zip_rightD)

lemma assert_safety_order_iff:
  assumes "distinct (map pt_key ts)" and ts: "gp_tasks p = ts"
  shows "assert_safety_order ts = Inr () \<longleftrightarrow>
    (\<forall>(earlier, later) \<in> consecutive (filter (\<lambda>c. plans_capability p c) SAFETY_ORDER).
      \<exists>e l. stage_key ts earlier = Some e \<and> stage_key ts later = Some l \<and> (l, e) \<in> (depends ts)\<^sup>+)"
proof -
  let ?present = "filter (\<lambda>c. c \<in> fst ` set (safety_keys ts)) SAFETY_ORDER"
  have stage: "stage_key ts c \<noteq> None \<longleftrightarrow> plans_capability p c" for c
    using ts by (auto simp: stage_key_def row_by_None_iff plans_capability_def list_ex_iff image_iff)
  have dom: "c \<in> fst ` set (safety_keys ts) \<longleftrightarrow> plans_capability p c" if "c \<in> set SAFETY_ORDER" for c
    using safety_keys_get[OF that, of ts] stage[of c] map_of_eq_None_iff[of "safety_keys ts" c] by auto
  have present: "?present = filter (plans_capability p) SAFETY_ORDER"
    using dom by (intro filter_cong) auto
  have get: "dict_get_default (safety_keys ts) c [] = the (stage_key ts c)" "stage_key ts c \<noteq> None"
    if "c \<in> set ?present" for c
  proof -
    have c: "c \<in> set SAFETY_ORDER" "plans_capability p c" using that dom by auto
    show "stage_key ts c \<noteq> None" using stage c(2) by blast
    then show "dict_get_default (safety_keys ts) c [] = the (stage_key ts c)"
      by (auto simp: dict_get_default_def safety_keys_get[OF c(1)])
  qed
  have ok: "dict_get_default (safety_keys ts) a [] \<in>
      reached (reach_closure (plan_graph ts)) (dict_get_default (safety_keys ts) b []) \<longleftrightarrow>
      (\<exists>e l. stage_key ts a = Some e \<and> stage_key ts b = Some l \<and> (l, e) \<in> (depends ts)\<^sup>+)"
    if "(a, b) \<in> consecutive ?present" for a b
  proof -
    have "a \<in> set ?present" "b \<in> set ?present"
      using consecutive_members[OF that] by blast+
    then obtain e l where "stage_key ts a = Some e" "stage_key ts b = Some l" using get(2) by blast
    then show ?thesis using get(1)[of a] get(1)[of b] \<open>a \<in> set ?present\<close> \<open>b \<in> set ?present\<close>
      by (simp add: reach_closure_graph edges_plan_graph[OF assms(1)])
  qed
  have short: "consecutive ?present = {}" if "length ?present < 2"
    using that by (cases ?present) (auto simp: consecutive_def)
  have find: "List.find (\<lambda>(earlier, later). dict_get_default (safety_keys ts) earlier []
        \<notin> reached (reach_closure (plan_graph ts)) (dict_get_default (safety_keys ts) later []))
          (zip ?present (tl ?present)) = None \<longleftrightarrow>
      (\<forall>(a, b) \<in> consecutive ?present.
        \<exists>e l. stage_key ts a = Some e \<and> stage_key ts b = Some l \<and> (l, e) \<in> (depends ts)\<^sup>+)"
  proof -
    have "(\<forall>(a, b) \<in> consecutive ?present. \<not> (dict_get_default (safety_keys ts) a []
          \<notin> reached (reach_closure (plan_graph ts)) (dict_get_default (safety_keys ts) b []))) \<longleftrightarrow>
        (\<forall>(a, b) \<in> consecutive ?present.
          \<exists>e l. stage_key ts a = Some e \<and> stage_key ts b = Some l \<and> (l, e) \<in> (depends ts)\<^sup>+)"
      by (intro ball_cong refl) (clarsimp simp: ok simp del: set_filter)
    then show ?thesis by (auto simp: find_None_iff consecutive_def)
  qed
  show ?thesis
  proof (cases "length ?present < 2")
    case True
    then show ?thesis using short unfolding present[symmetric] by (simp add: assert_safety_order_def Let_def)
  next
    case False
    then have "assert_safety_order ts = Inr () \<longleftrightarrow>
        List.find (\<lambda>(earlier, later). dict_get_default (safety_keys ts) earlier []
        \<notin> reached (reach_closure (plan_graph ts)) (dict_get_default (safety_keys ts) later []))
          (zip ?present (tl ?present)) = None"
      by (auto simp: assert_safety_order_def Let_def split: option.split)
    then show ?thesis unfolding find unfolding present[symmetric] .
  qed
qed

lemma validate_iff:
  "validate (gp_tasks p) known = Inr () \<longleftrightarrow>
     gp_tasks p \<noteq> [] \<and> distinct (map pt_key (gp_tasks p))
   \<and> (\<forall>t \<in> set (gp_tasks p). \<exists>caps. dict_get known (pt_assigned_agent t) = Some caps
        \<and> pt_capability t \<in> set caps
        \<and> set (pt_depends_on t) \<subseteq> pt_key ` set (gp_tasks p) - {pt_key t})
   \<and> acyclic (depends (gp_tasks p))
   \<and> (\<forall>(earlier, later) \<in> consecutive (filter (plans_capability p) SAFETY_ORDER).
        \<exists>e l. stage_key (gp_tasks p) earlier = Some e \<and> stage_key (gp_tasks p) later = Some l
          \<and> (l, e) \<in> (depends (gp_tasks p))\<^sup>+)"
proof -
  have dep: "check_dep (gp_tasks p) t d = None \<longleftrightarrow> d \<in> pt_key ` set (gp_tasks p) \<and> d \<noteq> pt_key t" for t d
    by (simp add: check_dep_def)
  have t: "check_task known (gp_tasks p) t = None \<longleftrightarrow> (\<exists>caps. dict_get known (pt_assigned_agent t) = Some caps
      \<and> pt_capability t \<in> set caps \<and> set (pt_depends_on t) \<subseteq> pt_key ` set (gp_tasks p) - {pt_key t})" for t
    unfolding check_task_def by (cases "dict_get known (pt_assigned_agent t)") (auto simp: first_some_None dep)
  have all: "first_some (check_task known (gp_tasks p)) (gp_tasks p) = None \<longleftrightarrow>
      (\<forall>t \<in> set (gp_tasks p). \<exists>caps. dict_get known (pt_assigned_agent t) = Some caps
        \<and> pt_capability t \<in> set caps \<and> set (pt_depends_on t) \<subseteq> pt_key ` set (gp_tasks p) - {pt_key t})"
    by (simp only: first_some_None t)
  show ?thesis
  proof (cases "gp_tasks p = [] \<or> \<not> distinct (map pt_key (gp_tasks p))")
    case False
    then have d: "distinct (map pt_key (gp_tasks p))" by simp
    have "validate (gp_tasks p) known = Inr () \<longleftrightarrow>
        first_some (check_task known (gp_tasks p)) (gp_tasks p) = None \<and>
        assert_acyclic (gp_tasks p) = Inr () \<and> assert_safety_order (gp_tasks p) = Inr ()"
      using False by (auto simp: validate_def split: option.split sum.split)
    then show ?thesis
      using False by (simp only: all assert_acyclic_iff[OF d] assert_safety_order_iff[OF d refl]) simp
  qed (auto simp: validate_def)
qed

text \<open>C7. Plan validation is exact. A plan is accepted exactly when it has tasks, their keys are
  distinct, every task is given to a known agent that declares its capability and depends only on
  other tasks of the plan, the dependency relation has no cycle, and of any two consecutive
  safety stages present the last task planned for the later one depends, directly or not, on the
  last task planned for the earlier one.\<close>
theorem validate_exact:
  "validate (gp_tasks p) known = Inr () \<longleftrightarrow>
     gp_tasks p \<noteq> [] \<and> distinct (map pt_key (gp_tasks p))
   \<and> (\<forall>t \<in> set (gp_tasks p). \<exists>caps. dict_get known (pt_assigned_agent t) = Some caps
        \<and> pt_capability t \<in> set caps
        \<and> set (pt_depends_on t) \<subseteq> pt_key ` set (gp_tasks p) - {pt_key t})
   \<and> acyclic (depends (gp_tasks p))
   \<and> (\<forall>(earlier, later) \<in> consecutive (filter (plans_capability p) SAFETY_ORDER).
        \<exists>e l. stage_key (gp_tasks p) earlier = Some e \<and> stage_key (gp_tasks p) later = Some l
          \<and> (l, e) \<in> (depends (gp_tasks p))\<^sup>+)"
  by (rule validate_iff)

definition sample_planned :: "string \<Rightarrow> string \<Rightarrow> string \<Rightarrow> string list \<Rightarrow> planned_task" where
  "sample_planned k cap ag ds = \<lparr>pt_key = k, pt_objective = ''o'', pt_capability = cap,
     pt_assigned_agent = ag, pt_priority = 5, pt_expected_output = ''CeoSynthesis'', pt_depends_on = ds\<rparr>"

definition sample_plan :: "planned_task list \<Rightarrow> generated_plan" where
  "sample_plan ts = \<lparr>gp_can_plan = True, gp_reason = None, gp_objective_classification = ''general'',
     gp_departments = [], gp_approval_required = True, gp_tasks = ts\<rparr>"

lemma sample_plan_tasks [simp]: "gp_tasks (sample_plan ts) = ts"
  by (simp add: sample_plan_def)

definition sample_known :: "(string, string list) dict" where
  "sample_known = [(''backtesting'', [''backtesting'']), (''risk_manager'', [''risk_assessment''])]"

theorem validate_exact_witness:
  "acyclic (depends [sample_planned ''b'' ''backtesting'' ''backtesting'' [],
                     sample_planned ''r'' ''risk_assessment'' ''risk_manager'' [''b'']])"
proof -
  let ?ts = "[sample_planned ''b'' ''backtesting'' ''backtesting'' [],
              sample_planned ''r'' ''risk_assessment'' ''risk_manager'' [''b'']]"
  have "validate ?ts sample_known = Inr ()"
    by (simp add: validate_def sample_planned_def sample_known_def check_task_def check_dep_def
        assert_acyclic_def plan_graph_def assert_safety_order_def safety_keys_def SAFETY_ORDER_def
        reach_closure.simps reach_sweep_def reach_step_def widen_def dict_get_default_def Let_def)
  then show ?thesis using validate_exact[of "sample_plan ?ts" sample_known] by simp
qed

text \<open>The safety order is only enforced between the last tasks of each stage. A plan with two risk
  assessments of which only the later one follows the backtest is accepted, although the first
  runs without waiting for the backtest.\<close>
theorem safety_order_misses_repeated_stage:
  "\<exists>ts. validate ts sample_known = Inr ()
    \<and> (\<exists>t b. t \<in> set ts \<and> b \<in> set ts \<and> pt_capability t = ''risk_assessment''
        \<and> pt_capability b = ''backtesting'' \<and> (pt_key t, pt_key b) \<notin> (depends ts)\<^sup>+)"
proof -
  let ?r1 = "sample_planned ''r1'' ''risk_assessment'' ''risk_manager'' []"
  let ?b = "sample_planned ''b'' ''backtesting'' ''backtesting'' []"
  let ?r2 = "sample_planned ''r2'' ''risk_assessment'' ''risk_manager'' [''b'']"
  let ?ts = "[?r1, ?b, ?r2]"
  have "validate ?ts sample_known = Inr ()"
    by (simp add: validate_def sample_planned_def sample_known_def check_task_def check_dep_def
        assert_acyclic_def plan_graph_def assert_safety_order_def safety_keys_def SAFETY_ORDER_def
        reach_closure.simps reach_sweep_def reach_step_def widen_def dict_get_default_def Let_def)
  moreover have "a = ''r2''" if "(a, b) \<in> depends ?ts" for a b
    using that by (auto simp: depends_def sample_planned_def)
  then have "(''r1'', ''b'') \<notin> (depends ?ts)\<^sup>+" by (auto dest!: tranclD)
  ultimately show ?thesis
    by (intro exI[of _ ?ts] conjI exI[of _ ?r1] exI[of _ ?b]) (simp_all add: sample_planned_def)
qed

end
