(* ===== verification/TaskEngine.thy ===== *)
theory TaskEngine
  imports Decisions
begin

text \<open>
  The task engine (\<open>src/orchestration/task_engine.py\<close>): claiming, dispatching, timing out, failing
  and retrying one task; the scheduler loop of a run; closing the run; flagging stalled runs. Each
  definition is one database transaction, committed as a whole.
\<close>

section \<open>One task\<close>

definition claim :: "env \<Rightarrow> nat \<Rightarrow> nat \<Rightarrow> db \<Rightarrow> db option" where
  "claim env rid tid d =
    (case get_task d tid of
       None \<Rightarrow> None
     | Some t \<Rightarrow>
        if task_status_of t \<noteq> TASK_READY then None
        else Some (snd (emit env rid ''task.started'' ''task'' (Some tid)
          (JObj [(''assigned_agent'', JStr (task_assigned_agent t)),
                 (''capability'', JStr (task_capability t))]) False
          (set_task tid (\<lambda>x. x\<lparr>task_status_of := TASK_RUNNING, task_started_at := Some (e_now env)\<rparr>) d))))"

definition seconds_between :: "timestamp \<Rightarrow> timestamp \<Rightarrow> real" where
  "seconds_between a b = of_int (b - a) / 1000000"

definition complete_task :: "env \<Rightarrow> nat \<Rightarrow> nat \<Rightarrow> task \<Rightarrow> db \<Rightarrow> db" where
  "complete_task env rid tid t d =
    (let d1 = set_task tid (\<lambda>x. x\<lparr>task_status_of := TASK_COMPLETED, task_completed_at := Some (e_now env)\<rparr>) d;
         (audit_id, d2) = emit env rid ''task.completed'' ''task'' (Some tid)
           (JObj [(''result_artefact_id'', JStr (case task_result_artefact_id t of
                     Some a \<Rightarrow> uuid_str a | None \<Rightarrow> ''None'')),
                  (''duration_seconds'', opt_json (\<lambda>s. JFloat (seconds_between s (e_now env))) (task_started_at t))])
           True d1;
         d3 = set_task tid (\<lambda>x. x\<lparr>task_audit_reference := audit_id\<rparr>) d2
     in evaluate_on_completion env t d3)"

definition handle_task_timeout :: "env \<Rightarrow> nat \<Rightarrow> nat \<Rightarrow> int \<Rightarrow> db \<Rightarrow> db" where
  "handle_task_timeout env rid tid timeout_seconds d =
    (case get_task d tid of
       None \<Rightarrow> d
     | Some t \<Rightarrow>
        if task_status_of t \<noteq> TASK_RUNNING then d
        else
          (let why = ''timed out after '' @ show_int timeout_seconds @ ''s'';
               d1 = set_task tid (\<lambda>x. x\<lparr>task_status_of := TASK_FAILED,
                      task_completed_at := Some (e_now env), task_failure_reason := Some why\<rparr>) d;
               d2 = snd (emit env rid ''task.failed'' ''task'' (Some tid)
                      (JObj [(''failure_reason'', JStr why), (''reason'', JStr ''timeout'')]) True d1)
           in mark_unsatisfiable env t why d2))"

definition handle_data_stale :: "env \<Rightarrow> nat \<Rightarrow> nat \<Rightarrow> string \<Rightarrow> db \<Rightarrow> db" where
  "handle_data_stale env rid tid dataset d =
    (case get_task d tid of
       None \<Rightarrow> d
     | Some t \<Rightarrow>
        (let why = ''data stale: '' @ dataset;
             d1 = set_task tid (\<lambda>x. x\<lparr>task_status_of := TASK_BLOCKED, task_blocked_reason := Some why,
                    task_completed_at := Some (e_now env)\<rparr>) d;
             d2 = snd (emit env rid ''task.blocked'' ''task'' (Some tid)
                    (JObj [(''blocked_reason'', JStr why), (''dataset'', JStr dataset)]) True d1)
         in mark_unsatisfiable env t why d2))"

definition handle_agent_unavailable :: "env \<Rightarrow> nat \<Rightarrow> nat \<Rightarrow> string \<Rightarrow> db \<Rightarrow> db" where
  "handle_agent_unavailable env rid tid exc d =
    (case (get_task d tid, get_run d rid) of
       (Some t, Some run) \<Rightarrow>
        (let old_agent = task_assigned_agent t in
         case filter (\<lambda>a. a \<noteq> old_agent) (find_by_capability d (task_capability t)) of
           new_agent # _ \<Rightarrow>
             (let d1 = set_task tid (\<lambda>x. x\<lparr>task_assigned_agent := new_agent,
                         task_status_of := TASK_READY, task_started_at := None\<rparr>) d;
                  d2 = snd (emit env rid ''task.reassigned'' ''task'' (Some tid)
                         (JObj [(''from_agent'', JStr old_agent), (''to_agent'', JStr new_agent),
                                (''reason'', JStr exc)]) True d1)
              in snd (record_decision env rid DEC_REASSIGN
                   (''Reassigned '' @ quoted (task_capability t) @ '' from '' @ old_agent @ '' to '' @ new_agent @ ''.'')
                   exc [] [old_agent, new_agent] None None False d2))
         | [] \<Rightarrow>
             (let why = ''agent unavailable: '' @ exc;
                  d1 = set_task tid (\<lambda>x. x\<lparr>task_status_of := TASK_ESCALATED,
                         task_blocked_reason := Some why, task_completed_at := Some (e_now env)\<rparr>) d;
                  d2 = snd (emit env rid ''task.escalated'' ''task'' (Some tid)
                         (JObj [(''reason'', JStr why), (''agent'', JStr old_agent)]) True d1);
                  d3 = snd (record_decision env rid DEC_ESCALATE_HUMAN
                         (''No available agent for capability '' @ quoted (task_capability t) @ ''.'')
                         exc [] [old_agent] None (Some ''SystemAdministrator'') False d2)
              in mark_unsatisfiable env t why d3))
     | _ \<Rightarrow> d)"

definition handle_task_failure :: "env \<Rightarrow> nat \<Rightarrow> nat \<Rightarrow> string \<Rightarrow> db \<Rightarrow> db" where
  "handle_task_failure env rid tid exc d =
    (case get_task d tid of
       None \<Rightarrow> d
     | Some t \<Rightarrow>
        if task_retry_count t < task_max_retries t then
          snd (emit env rid ''task.retrying'' ''task'' (Some tid)
            (JObj [(''attempt'', JInt (int (task_retry_count t + 1))), (''error'', JStr exc)]) False
            (set_task tid (\<lambda>x. x\<lparr>task_retry_count := task_retry_count x + 1,
               task_status_of := TASK_RETRYING, task_started_at := None\<rparr>) d))
        else
          (let d1 = set_task tid (\<lambda>x. x\<lparr>task_status_of := TASK_FAILED, task_failure_reason := Some exc,
                      task_completed_at := Some (e_now env)\<rparr>) d;
               d2 = snd (emit env rid ''task.failed'' ''task'' (Some tid)
                      (JObj [(''failure_reason'', JStr exc), (''retry_count'', JInt (int (task_retry_count t)))])
                      True d1)
           in mark_unsatisfiable env t ''failed after exhausting retries'' d2))"

text \<open>The dispatch transaction. A result that arrives when the task is no longer running is rolled
  back; an exception is classified and handled in a transaction of its own.\<close>
definition run_dispatch_and_complete :: "env \<Rightarrow> nat \<Rightarrow> nat \<Rightarrow> db \<Rightarrow> db" where
  "run_dispatch_and_complete env rid tid d =
    (case get_task d tid of
       None \<Rightarrow> d
     | Some t \<Rightarrow>
        (case dispatch env t d of
           Inl (DataStale dataset) \<Rightarrow> handle_data_stale env rid tid dataset d
         | Inl (AgentUnavailable exc) \<Rightarrow> handle_agent_unavailable env rid tid exc d
         | Inl (HandlerError exc) \<Rightarrow> handle_task_failure env rid tid exc d
         | Inr (aid, d1) \<Rightarrow>
            (case get_task d1 tid of
               None \<Rightarrow> d
             | Some t1 \<Rightarrow> if task_status_of t1 \<noteq> TASK_RUNNING then d else complete_task env rid tid t1 d1)))"

definition execute_task :: "env \<Rightarrow> nat \<Rightarrow> nat \<Rightarrow> db \<Rightarrow> db" where
  "execute_task env rid tid d =
    (case claim env rid tid d of
       None \<Rightarrow> d
     | Some d1 \<Rightarrow>
        (case get_task d1 tid of
           None \<Rightarrow> d1
         | Some t \<Rightarrow>
            if e_times_out env t then handle_task_timeout env rid tid (task_timeout_seconds t) d1
            else run_dispatch_and_complete env rid tid d1))"

lemmas task_transactions = claim_def complete_task_def handle_task_timeout_def handle_data_stale_def
  handle_agent_unavailable_def handle_task_failure_def run_dispatch_and_complete_def

section \<open>Closing a run\<close>

definition run_tasks :: "db \<Rightarrow> nat \<Rightarrow> task list" where
  "run_tasks d rid = filter (\<lambda>t. task_run_id t = rid) (db_tasks d)"

definition has_pending_approval :: "db \<Rightarrow> nat \<Rightarrow> bool" where
  "has_pending_approval d rid \<longleftrightarrow>
    (\<exists>a \<in> set (db_approvals d). apr_run_id a = Some rid \<and> apr_status a = APPR_PENDING)"

definition overlaps :: "task list \<Rightarrow> task \<Rightarrow> bool" where
  "overlaps ts t \<longleftrightarrow>
    (case (task_started_at t, task_completed_at t) of
       (Some s0, Some e0) \<Rightarrow> list_ex (\<lambda>u. task_id u \<noteq> task_id t \<and>
          (case (task_started_at u, task_completed_at u) of
             (Some s, Some e) \<Rightarrow> s < e0 \<and> s0 < e | _ \<Rightarrow> False)) ts
     | _ \<Rightarrow> False)"

definition latest_prerequisite :: "db \<Rightarrow> task \<Rightarrow> timestamp option" where
  "latest_prerequisite d t =
    (let prereq_ids = map dep_prerequisite_task_id
           (filter (\<lambda>e. dep_dependent_task_id e = task_id t) (db_deps d));
         ends = List.map_filter task_completed_at
           (filter (\<lambda>u. task_id u \<in> set prereq_ids) (db_tasks d))
     in if ends = [] then None else Some (foldr max ends (hd ends)))"

definition timed :: "db \<Rightarrow> task list \<Rightarrow> task \<Rightarrow> task" where
  "timed d ts t =
    (case (task_started_at t, task_completed_at t) of
       (Some s0, Some e0) \<Rightarrow>
         t\<lparr>task_ran_concurrently := overlaps ts t,
           task_dependency_wait_seconds := (case latest_prerequisite d t of
              Some l \<Rightarrow> max 0 ((s0 - l) div 1000000)
            | None \<Rightarrow> task_dependency_wait_seconds t)\<rparr>
     | _ \<Rightarrow> t)"

definition record_timings :: "nat \<Rightarrow> db \<Rightarrow> db" where
  "record_timings rid d =
    d\<lparr>db_tasks := update_where (\<lambda>t. task_run_id t = rid) (timed d (run_tasks d rid)) (db_tasks d)\<rparr>"

definition count_status :: "task_status \<Rightarrow> task list \<Rightarrow> nat" where
  "count_status s ts = length (filter (\<lambda>t. task_status_of t = s) ts)"

definition finalize :: "env \<Rightarrow> nat \<Rightarrow> db \<Rightarrow> bool \<times> db" where
  "finalize env rid d =
    (case get_run d rid of
       None \<Rightarrow> (True, d)
     | Some run \<Rightarrow>
        (if list_ex (\<lambda>t. nonterminal_task (task_status_of t)) (run_tasks d rid) then
           (if list_ex (\<lambda>t. task_status_of t = TASK_READY) (run_tasks d rid) then (False, d)
            else (False, set_run rid (\<lambda>r. r\<lparr>run_status_of := RUN_WAITING, run_updated_at := e_now env\<rparr>) d))
         else
           (let ts = run_tasks d rid;
                d2 = resolve_conflicts env rid (record_timings rid d);
                failed = count_status TASK_FAILED ts;
                blocked = count_status TASK_BLOCKED ts;
                escalated = count_status TASK_ESCALATED ts
            in if failed \<noteq> 0 \<or> blocked \<noteq> 0 \<or> escalated \<noteq> 0 then
                 (let summary = JObj [(''failed_tasks'', JInt (int failed)),
                        (''blocked_tasks'', JInt (int blocked)), (''escalated_tasks'', JInt (int escalated))]
                  in (True, snd (emit env rid ''organization.run.failed'' ''run'' (Some rid) summary True
                       (set_run rid (\<lambda>r. r\<lparr>run_status_of := RUN_FAILED, run_ended_at := Some (e_now env),
                          run_result_summary := Some summary\<rparr>) d2))))
               else if undispositioned_count rid d2 \<noteq> 0 then
                 (False, set_run rid (\<lambda>r. r\<lparr>run_status_of := RUN_WAITING\<rparr>) d2)
               else if has_pending_approval d2 rid then
                 (False, set_run rid (\<lambda>r. r\<lparr>run_status_of := RUN_WAITING, run_updated_at := e_now env\<rparr>) d2)
               else
                 (let summary = JObj [(''completed_tasks'', JInt (int (length ts)))]
                  in (True, snd (emit env rid ''organization.run.completed'' ''run'' (Some rid) summary True
                       (set_run rid (\<lambda>r. r\<lparr>run_status_of := RUN_COMPLETED, run_ended_at := Some (e_now env),
                          run_result_summary := Some summary\<rparr>) d2)))))))"

section \<open>The scheduler loop\<close>

definition start_run :: "env \<Rightarrow> nat \<Rightarrow> db \<Rightarrow> db" where
  "start_run env rid d =
    snd (emit env rid ''organization.run.running'' ''run'' (Some rid) (JObj []) False
      (set_run rid (\<lambda>r. r\<lparr>run_status_of := RUN_RUNNING,
         run_started_at := (case run_started_at r of Some s \<Rightarrow> Some s | None \<Rightarrow> Some (e_now env))\<rparr>) d))"

definition execute_round :: "env \<Rightarrow> nat \<Rightarrow> (nat \<times> bool) list \<Rightarrow> db \<Rightarrow> db" where
  "execute_round env rid ready d =
    (let safe = map fst (filter snd ready); unsafe = map fst (filter (\<lambda>x. \<not> snd x) ready) in
     fold (execute_task env rid) unsafe (fold (execute_task env rid) safe d))"

fun scheduler_loop :: "nat \<Rightarrow> env \<Rightarrow> nat \<Rightarrow> db \<Rightarrow> db option" where
  "scheduler_loop 0 env rid d = None"
| "scheduler_loop (Suc fuel) env rid d =
    (let (ready, d1) = ready_tasks env rid d in
     if ready = [] then Some (snd (finalize env rid d1))
     else scheduler_loop fuel env rid (execute_round env rid ready d1))"

definition run_scheduler_loop :: "nat \<Rightarrow> env \<Rightarrow> nat \<Rightarrow> db \<Rightarrow> db option" where
  "run_scheduler_loop fuel env rid d =
    (case get_run d rid of
       None \<Rightarrow> Some d
     | Some run \<Rightarrow> scheduler_loop fuel env rid (start_run env rid d))"

section \<open>Stalled runs\<close>

definition flag_stalled :: "env \<Rightarrow> nat \<times> db \<Rightarrow> organization_run \<Rightarrow> nat \<times> db" where
  "flag_stalled env st run =
    (let (n, d) = st; rid = run_id run in
     if has_pending_approval d rid then (n, d)
     else (n + 1, snd (emit env rid ''organization.run.stalled'' ''run'' (Some rid)
       (JObj [(''stall_seconds'', JInt (e_org_run_stall_seconds env))]) True
       (set_run rid (\<lambda>r. r\<lparr>run_status_of := RUN_STALLED, run_updated_at := e_now env\<rparr>) d))))"

definition check_stalled_runs :: "env \<Rightarrow> db \<Rightarrow> nat \<times> db" where
  "check_stalled_runs env d =
    foldl (flag_stalled env) (0, d)
      (filter (\<lambda>r. run_status_of r = RUN_WAITING
                 \<and> run_updated_at r < e_now env - e_org_run_stall_seconds env * 1000000) (db_runs d))"

section \<open>The logs survive every transaction\<close>

lemma claim_conserves: "claim env rid tid d = Some d' \<Longrightarrow> conserves env d0 d \<Longrightarrow> conserves env d0 d'"
  by (auto simp: claim_def intro!: conserves_emit conserves_setters split: option.splits if_splits)

lemma complete_task_conserves [conserving]:
  "conserves env d0 d \<Longrightarrow> conserves env d0 (complete_task env rid tid t d)"
  unfolding complete_task_def Let_def case_prod_unfold by (intro conserving)

lemma timeout_conserves [conserving]:
  "conserves env d0 d \<Longrightarrow> conserves env d0 (handle_task_timeout env rid tid s d)"
  unfolding handle_task_timeout_def Let_def
  by (cases "get_task d tid") (auto intro!: conserving)

lemma data_stale_conserves [conserving]:
  "conserves env d0 d \<Longrightarrow> conserves env d0 (handle_data_stale env rid tid ds d)"
  unfolding handle_data_stale_def Let_def
  by (cases "get_task d tid") (auto intro!: conserving)

lemma task_failure_conserves [conserving]:
  "conserves env d0 d \<Longrightarrow> conserves env d0 (handle_task_failure env rid tid exc d)"
  unfolding handle_task_failure_def Let_def
  by (cases "get_task d tid") (auto intro!: conserving)

lemma agent_unavailable_conserves [conserving]:
  "conserves env d0 d \<Longrightarrow> conserves env d0 (handle_agent_unavailable env rid tid exc d)"
  unfolding handle_agent_unavailable_def Let_def
  by (auto intro!: conserving split: option.split list.split)

lemma run_dispatch_conserves [conserving]:
  assumes "conserves env d0 d"
  shows "conserves env d0 (run_dispatch_and_complete env rid tid d)"
proof (cases "get_task d tid")
  case (Some t)
  show ?thesis
  proof (cases "dispatch env t d")
    case (Inl err)
    then show ?thesis using Some assms
      by (cases err) (simp_all add: run_dispatch_and_complete_def data_stale_conserves
          agent_unavailable_conserves task_failure_conserves)
  next
    case (Inr res)
    then obtain aid d1 where res: "dispatch env t d = Inr (aid, d1)" by (cases res) simp
    have "conserves env d0 d1" by (rule dispatch_conserves[OF assms res])
    then show ?thesis using Some res assms
      by (simp add: run_dispatch_and_complete_def complete_task_conserves split: option.split)
  qed
qed (use assms in \<open>simp add: run_dispatch_and_complete_def\<close>)

lemma execute_task_conserves [conserving]:
  assumes "conserves env d0 d"
  shows "conserves env d0 (execute_task env rid tid d)"
proof (cases "claim env rid tid d")
  case (Some d1)
  have "conserves env d0 d1" by (rule claim_conserves[OF Some assms])
  then show ?thesis using Some
    by (simp add: execute_task_def timeout_conserves run_dispatch_conserves split: option.split)
qed (use assms in \<open>simp add: execute_task_def\<close>)

lemma execute_tasks_conserve:
  "conserves env d0 d \<Longrightarrow> conserves env d0 (fold (execute_task env rid) ids d)"
  by (induction ids arbitrary: d) (simp_all add: execute_task_conserves)

lemma execute_round_conserves [conserving]:
  "conserves env d0 d \<Longrightarrow> conserves env d0 (execute_round env rid ready d)"
  by (simp add: execute_round_def Let_def execute_tasks_conserve)

lemma record_timings_conserves [conserving]:
  "conserves env d0 d \<Longrightarrow> conserves env d0 (record_timings rid d)"
  by (erule conserves_insert) (simp_all add: record_timings_def)

lemma finalize_conserves [conserving]:
  "conserves env d0 d \<Longrightarrow> conserves env d0 (snd (finalize env rid d))"
  unfolding finalize_def Let_def
  by (auto intro!: conserving split: option.split)

lemma start_run_conserves [conserving]: "conserves env d0 d \<Longrightarrow> conserves env d0 (start_run env rid d)"
  unfolding start_run_def by (intro conserving)

lemma scheduler_loop_Suc:
  "scheduler_loop (Suc n) env rid d =
    (let st = ready_tasks env rid d in
     if fst st = [] then Some (snd (finalize env rid (snd st)))
     else scheduler_loop n env rid (execute_round env rid (fst st) (snd st)))"
  by (simp add: case_prod_unfold Let_def)

declare scheduler_loop.simps(2) [simp del]

lemma scheduler_loop_conserves:
  "scheduler_loop n env rid d = Some d' \<Longrightarrow> conserves env d0 d \<Longrightarrow> conserves env d0 d'"
proof (induction n arbitrary: d)
  case (Suc n)
  have r: "conserves env d0 (snd (ready_tasks env rid d))" using Suc.prems(2) by (rule ready_tasks_conserves)
  show ?case
  proof (cases "fst (ready_tasks env rid d) = []")
    case True
    then show ?thesis using Suc.prems(1) finalize_conserves[OF r] by (auto simp: scheduler_loop_Suc)
  next
    case False
    then show ?thesis
      using Suc.IH[OF _ execute_round_conserves[OF r]] Suc.prems(1) by (simp add: scheduler_loop_Suc Let_def)
  qed
qed simp

lemma run_scheduler_loop_conserves:
  "run_scheduler_loop n env rid d = Some d' \<Longrightarrow> conserves env d0 d \<Longrightarrow> conserves env d0 d'"
  by (auto simp: run_scheduler_loop_def intro: scheduler_loop_conserves start_run_conserves
      split: option.splits)

lemma check_stalled_runs_conserves [conserving]:
  assumes "conserves env d0 d"
  shows "conserves env d0 (snd (check_stalled_runs env d))"
  unfolding check_stalled_runs_def
  by (rule foldl_invariant[of "\<lambda>st. conserves env d0 (snd st)"])
    (use assms in \<open>auto simp: flag_stalled_def Let_def case_prod_unfold intro!: conserves_emit conserves_setters\<close>)

end
