(* ===== verification/SchedulerLoop.thy ===== *)
theory SchedulerLoop
  imports TaskEngine
begin

text \<open>
  Why a run of the scheduler loop (\<open>run_scheduler_loop\<close> of \<open>src/orchestration/task_engine.py\<close>) ends.
  Every unfinished task has a budget: one execution, its remaining retries, and one reassignment
  while its agent is unusable. No transaction raises a budget, and each round of the loop spends
  some, so a loop with more fuel than the run's budget returns, and returns with the run settled.
\<close>

section \<open>Budgets\<close>

definition usable_agent :: "db \<Rightarrow> string \<Rightarrow> bool" where
  "usable_agent d nm \<longleftrightarrow> nm \<in> fst ` set AGENT_META \<and> is_agent_enabled d nm"

definition task_budget :: "db \<Rightarrow> task \<Rightarrow> nat" where
  "task_budget d t =
    (if terminal_task (task_status_of t) then 0
     else Suc (task_max_retries t - task_retry_count t
          + (if usable_agent d (task_assigned_agent t) then 0 else 1)))"

definition run_budget :: "db \<Rightarrow> nat \<Rightarrow> nat" where
  "run_budget d rid = sum_list (map (task_budget d) (run_tasks d rid))"

text \<open>Between two states of the loop the runs and the agent switches are the same, and the tasks are
  the same rows with no larger budgets.\<close>
definition same_row :: "db \<Rightarrow> task \<Rightarrow> task \<Rightarrow> bool" where
  "same_row d t u \<longleftrightarrow> task_id u = task_id t \<and> task_run_id u = task_run_id t \<and> task_budget d u \<le> task_budget d t"

definition advances :: "db \<Rightarrow> db \<Rightarrow> bool" where
  "advances d d' \<longleftrightarrow> db_runs d' = db_runs d \<and> db_control d' = db_control d
     \<and> list_all2 (same_row d) (db_tasks d) (db_tasks d')"

lemma task_budget_control: "db_control d' = db_control d \<Longrightarrow> task_budget d' = task_budget d"
  by (simp add: fun_eq_iff task_budget_def usable_agent_def is_agent_enabled_def control_row_def)

lemma same_row_control: "db_control d' = db_control d \<Longrightarrow> same_row d' = same_row d"
  by (rule ext)+ (simp add: same_row_def task_budget_control[of d' d])

lemma same_row_refl [simp]: "same_row d t t"
  by (simp add: same_row_def)

lemma advances_refl [simp]: "advances d d"
  by (simp add: advances_def list_all2_same)

lemma advances_trans:
  assumes "advances d1 d2" "advances d2 d3"
  shows "advances d1 d3"
proof -
  have "same_row d2 = same_row d1" by (rule same_row_control) (use assms(1) in \<open>simp add: advances_def\<close>)
  then have "list_all2 (same_row d1) (db_tasks d1) (db_tasks d2)" "list_all2 (same_row d1) (db_tasks d2) (db_tasks d3)"
    using assms by (simp_all add: advances_def)
  then have "list_all2 (same_row d1) (db_tasks d1) (db_tasks d3)"
    by (rule list_all2_trans[rotated]) (auto simp: same_row_def)
  then show ?thesis using assms by (simp add: advances_def)
qed

lemma advances_same:
  "db_runs d' = db_runs d \<Longrightarrow> db_control d' = db_control d \<Longrightarrow> db_tasks d' = db_tasks d \<Longrightarrow> advances d d'"
  by (simp add: advances_def list_all2_same)

lemma advances_ids: "advances d d' \<Longrightarrow> map task_id (db_tasks d') = map task_id (db_tasks d)"
  by (auto simp: advances_def list_all2_conv_all_nth same_row_def intro: nth_equalityI)

lemma advances_distinct:
  "advances d d' \<Longrightarrow> distinct (map task_id (db_tasks d)) \<Longrightarrow> distinct (map task_id (db_tasks d'))"
  by (simp add: advances_ids)

lemma advances_get_task:
  assumes "advances d d'" "get_task d i = Some t"
  obtains u where "get_task d' i = Some u" "same_row d t u"
proof -
  have "list_all2 (same_row d) ts us \<Longrightarrow> row_by task_id i ts = Some t \<Longrightarrow>
    \<exists>u. row_by task_id i us = Some u \<and> same_row d t u" for ts us
    by (induction ts us rule: list_all2_induct) (auto simp: same_row_def split: if_splits)
  then show thesis using assms that by (auto simp: advances_def get_task_def)
qed

lemma set_task_advances:
  assumes "distinct (map task_id (db_tasks d))"
    and "\<And>t. get_task d i = Some t \<Longrightarrow> same_row d t (f t)"
  shows "advances d (set_task i f d)"
proof -
  have "same_row d t (if task_id t = i then f t else t)" if "t \<in> set (db_tasks d)" for t
    using assms(2)[of t] task_state_row[OF assms(1) that] by auto
  then show ?thesis
    by (simp add: advances_def set_task_def update_where_def list_all2_map2 list_all2_same)
qed

section \<open>Every transaction advances\<close>

lemma ready_task_same_row:
  "\<not> terminal_task (task_status_of t) \<Longrightarrow> same_row d t (set_status TASK_READY t)"
  "\<not> terminal_task (task_status_of t) \<Longrightarrow> same_row d t (set_status TASK_WAITING_FOR_DEPENDENCY t)"
  by (simp_all add: same_row_def task_budget_def set_status_def)

lemma terminal_same_row:
  "task_id u = task_id t \<Longrightarrow> task_run_id u = task_run_id t \<Longrightarrow> terminal_task (task_status_of u) \<Longrightarrow>
   same_row d t u"
  by (simp add: same_row_def task_budget_def)

lemma emit_advances [simp]:
  "advances d (snd (emit env rid et st sid p a d')) \<longleftrightarrow> advances d d'"
  "advances d (snd (record_decision env rid ty s r i ag n e pf d')) \<longleftrightarrow> advances d d'"
  "advances d (set_dep j f1 d') \<longleftrightarrow> advances d d'"
  "advances d (set_artefact j f2 d') \<longleftrightarrow> advances d d'"
  by (simp_all add: advances_def)

lemma ready_step_advances:
  assumes "distinct (map task_id (db_tasks d))" "get_task d (task_id t) = Some u" "\<not> terminal_task (task_status_of u)"
  shows "advances d (snd (ready_step env rid (out, d) t))"
  using assms by (auto simp: ready_step_def Let_def intro!: set_task_advances ready_task_same_row)

lemma release_step_advances:
  assumes "distinct (map task_id (db_tasks d))"
  shows "advances d (release_step env rid d e)"
proof -
  let ?d1 = "snd (emit env rid ''dependency.satisfied'' ''dependency'' (Some (dep_id e))
      (JObj [(''dependent_task_id'', JUuid (dep_dependent_task_id e)),
             (''required_artefact_type'', JStr (dep_required_artefact_type e)),
             (''reason'', JStr (dep_required_artefact_type e @ '' is now available''))]) False
      (set_dep (dep_id e) (\<lambda>x. x\<lparr>dep_state_of := DEP_SATISFIED, dep_satisfied_at := Some (e_now env)\<rparr>) d))"
  have d1: "advances d ?d1" by simp
  have "advances ?d1 (set_task (task_id t) (set_status TASK_READY) ?d1)"
    if "get_task d (dep_dependent_task_id e) = Some t" "\<not> terminal_task (task_status_of t)" for t
    using that assms get_task_id[OF that(1)] by (intro set_task_advances ready_task_same_row) auto
  from advances_trans[OF d1 this] show ?thesis
    by (auto simp: release_step_def Let_def split: option.split)
qed

lemma block_step_advances:
  assumes "distinct (map task_id (db_tasks d))"
  shows "advances d (block_step env p r d e)"
proof -
  let ?d1 = "snd (emit env (task_run_id p) ''dependency.failed'' ''dependency'' (Some (dep_id e))
      (JObj [(''dependent_task_id'', JUuid (dep_dependent_task_id e)), (''reason'', JStr r)]) True
      (set_dep (dep_id e) (\<lambda>x. x\<lparr>dep_state_of := DEP_FAILED\<rparr>) d))"
  have d1: "advances d ?d1" by simp
  have "advances ?d1 (set_task (task_id t)
      (\<lambda>x. x\<lparr>task_status_of := TASK_BLOCKED, task_blocked_reason := Some why\<rparr>) ?d1)" for t why
    using assms by (intro set_task_advances terminal_same_row) (auto simp: terminal_task_def)
  from advances_trans[OF d1 this] show ?thesis
    by (auto simp: block_step_def Let_def split: option.split)
qed

lemma foldl_advances:
  assumes "\<And>d x. distinct (map task_id (db_tasks d)) \<Longrightarrow> advances d (f d x)"
    and "distinct (map task_id (db_tasks d))"
  shows "advances d (foldl f d xs)"
  using assms(2)
proof (induction xs arbitrary: d)
  case (Cons x xs)
  have "advances d (f d x)" by (rule assms(1)[OF Cons.prems])
  then show ?case using Cons.IH advances_distinct advances_trans Cons.prems by (metis foldl_Cons)
qed simp

lemma evaluate_advances:
  "distinct (map task_id (db_tasks d)) \<Longrightarrow> advances d (evaluate_on_completion env t d)"
  unfolding evaluate_on_completion_def by (intro foldl_advances release_step_advances)

lemma mark_unsatisfiable_advances:
  "distinct (map task_id (db_tasks d)) \<Longrightarrow> advances d (mark_unsatisfiable env t r d)"
  unfolding mark_unsatisfiable_def by (intro foldl_advances block_step_advances)

lemma ready_fold_advances:
  assumes "distinct (map task_id (db_tasks d))" "distinct (map task_id ts)"
    and "\<And>t. t \<in> set ts \<Longrightarrow> get_task d (task_id t) = Some t \<and> \<not> terminal_task (task_status_of t)"
  shows "advances d (snd (foldl (ready_step env rid) (out, d) ts))"
  using assms
proof (induction ts arbitrary: out d)
  case (Cons t ts)
  obtain out' d' where st: "ready_step env rid (out, d) t = (out', d')" by fastforce
  have t: "get_task d (task_id t) = Some t" "\<not> terminal_task (task_status_of t)" using Cons.prems(3) by auto
  have a: "advances d d'" using ready_step_advances[OF Cons.prems(1) t, of env rid out] st by simp
  have "get_task d' (task_id u) = Some u" if "u \<in> set ts" for u
  proof -
    have "task_id u \<noteq> task_id t" using Cons.prems(2) imageI[OF that, of task_id] by auto
    then show ?thesis
      using ready_step_effect(4)[OF t(1), of "task_id u" env rid out] Cons.prems(3)[of u] that st by simp
  qed
  then have "advances d' (snd (foldl (ready_step env rid) (out', d') ts))"
    using Cons.prems advances_distinct[OF a] by (intro Cons.IH) auto
  then show ?case using a st advances_trans by simp
qed simp

lemma ready_tasks_advances:
  assumes "distinct (map task_id (db_tasks d))"
  shows "advances d (snd (ready_tasks env rid d))"
  unfolding ready_tasks_def
proof (rule ready_fold_advances)
  fix t assume "t \<in> set (filter (ready_candidate rid) (db_tasks d))"
  then show "get_task d (task_id t) = Some t \<and> \<not> terminal_task (task_status_of t)"
    using task_state_row[OF assms] by (auto simp: ready_candidate_def terminal_task_def)
qed (use assms in \<open>simp_all add: distinct_map_filter\<close>)

section \<open>Every execution spends\<close>

definition spends :: "nat \<Rightarrow> db \<Rightarrow> db \<Rightarrow> bool" where
  "spends tid d d' \<longleftrightarrow> advances d d' \<and> (\<exists>t u. get_task d tid = Some t \<and> get_task d' tid = Some u
     \<and> task_budget d u < task_budget d t)"

lemma spends_advances: "spends tid d d' \<Longrightarrow> advances d d'"
  by (simp add: spends_def)

lemma spends_then_advances:
  assumes "spends tid d d1" "advances d1 d2"
  shows "spends tid d d2"
proof -
  obtain t u where t: "get_task d tid = Some t" "get_task d1 tid = Some u" "task_budget d u < task_budget d t"
    using assms(1) by (auto simp: spends_def)
  obtain v where v: "get_task d2 tid = Some v" "same_row d1 u v" using advances_get_task[OF assms(2) t(2)] .
  have "task_budget d1 = task_budget d"
    by (rule task_budget_control) (use assms(1) in \<open>simp add: spends_def advances_def\<close>)
  then have "task_budget d v < task_budget d t" using v(2) t(3) by (simp add: same_row_def)
  then show ?thesis using t(1) v(1) assms advances_trans unfolding spends_def by blast
qed

lemma advances_then_spends:
  assumes "advances d d1" "spends tid d1 d2" "get_task d tid = Some t"
  shows "spends tid d d2"
proof -
  obtain u v where u: "get_task d1 tid = Some u" "get_task d2 tid = Some v" "task_budget d1 v < task_budget d1 u"
    using assms(2) by (auto simp: spends_def)
  obtain u' where "get_task d1 tid = Some u'" "same_row d t u'" using advances_get_task[OF assms(1,3)] .
  then have "task_budget d u \<le> task_budget d t" using u(1) by (simp add: same_row_def)
  moreover have "task_budget d1 = task_budget d"
    by (rule task_budget_control) (use assms(1) in \<open>simp add: advances_def\<close>)
  ultimately show ?thesis
    using u assms advances_trans[OF assms(1) spends_advances[OF assms(2)]] by (auto simp: spends_def)
qed

lemma set_task_spends:
  assumes "distinct (map task_id (db_tasks d))" "get_task d tid = Some t"
    and "task_budget d (f t) < task_budget d t" "\<And>t. task_id (f t) = task_id t" "\<And>t. task_run_id (f t) = task_run_id t"
  shows "spends tid d (set_task tid f d)"
  using assms by (auto simp: spends_def same_row_def intro!: set_task_advances)

lemma emit_spends [simp]:
  "spends tid d (snd (emit env rid et st sid p a d')) \<longleftrightarrow> spends tid d d'"
  "spends tid d (snd (record_decision env rid ty s r i ag n e pf d')) \<longleftrightarrow> spends tid d d'"
  by (simp_all add: spends_def)

lemma terminal_budget_less:
  "terminal_task (task_status_of u) \<Longrightarrow> \<not> terminal_task (task_status_of t) \<Longrightarrow> task_budget d u < task_budget d t"
  by (simp add: task_budget_def)

lemma spends_mark:
  assumes "distinct (map task_id (db_tasks d))" "spends tid d d1"
  shows "spends tid d (mark_unsatisfiable env t r d1)"
  using spends_then_advances[OF assms(2)] mark_unsatisfiable_advances
    advances_distinct[OF spends_advances[OF assms(2)] assms(1)] by blast

lemma timeout_spends:
  assumes "distinct (map task_id (db_tasks d))" "get_task d tid = Some t" "task_status_of t = TASK_RUNNING"
  shows "spends tid d (handle_task_timeout env rid tid s d)"
  using assms
  by (auto simp: handle_task_timeout_def Let_def terminal_task_def
      intro!: spends_mark set_task_spends terminal_budget_less)

lemma data_stale_spends:
  assumes "distinct (map task_id (db_tasks d))" "get_task d tid = Some t" "\<not> terminal_task (task_status_of t)"
  shows "spends tid d (handle_data_stale env rid tid ds d)"
  using assms
  by (auto simp: handle_data_stale_def Let_def terminal_task_def
      intro!: spends_mark set_task_spends terminal_budget_less)

lemma task_failure_spends:
  assumes "distinct (map task_id (db_tasks d))" "get_task d tid = Some t" "\<not> terminal_task (task_status_of t)"
  shows "spends tid d (handle_task_failure env rid tid exc d)"
proof (cases "task_retry_count t < task_max_retries t")
  case True
  have "spends tid d (set_task tid (\<lambda>x. x\<lparr>task_retry_count := task_retry_count x + 1,
      task_status_of := TASK_RETRYING, task_started_at := None\<rparr>) d)"
    using assms True by (intro set_task_spends[where t = t]) (simp_all add: task_budget_def terminal_task_def)
  then show ?thesis using assms(2) True by (simp add: handle_task_failure_def)
next
  case False
  then show ?thesis using assms
    by (auto simp: handle_task_failure_def Let_def terminal_task_def
        intro!: spends_mark set_task_spends terminal_budget_less)
qed

text \<open>A reassignment goes to an enabled agent of the registry: it can happen once.\<close>
lemma known_agents_have_meta: "ad_name ` set KNOWN_AGENTS \<subseteq> fst ` set AGENT_META"
  by (simp add: KNOWN_AGENTS_def AGENT_META_def agent_def AUDIT_AGENT_NAME_def)

lemma candidate_usable: "a \<in> set (find_by_capability d cap) \<Longrightarrow> usable_agent d a"
  using known_agents_have_meta by (auto simp: find_by_capability_set usable_agent_def)

lemma agent_unavailable_spends:
  assumes "distinct (map task_id (db_tasks d))" "get_task d tid = Some t" "\<not> terminal_task (task_status_of t)"
    "\<not> usable_agent d (task_assigned_agent t)" "get_run d rid = Some run"
  shows "spends tid d (handle_agent_unavailable env rid tid exc d)"
proof (cases "filter (\<lambda>a. a \<noteq> task_assigned_agent t) (find_by_capability d (task_capability t))")
  case Nil
  then show ?thesis using assms
    by (auto simp: handle_agent_unavailable_def Let_def terminal_task_def
        intro!: spends_mark set_task_spends terminal_budget_less)
next
  case (Cons b bs)
  then have "b \<in> set (find_by_capability d (task_capability t))"
    by (metis (no_types, lifting) filter_eq_ConsD in_set_conv_decomp)
  then have "usable_agent d b" by (rule candidate_usable)
  then have "spends tid d (set_task tid (\<lambda>x. x\<lparr>task_assigned_agent := b,
      task_status_of := TASK_READY, task_started_at := None\<rparr>) d)"
    using assms by (intro set_task_spends[where t = t]) (simp_all add: task_budget_def terminal_task_def)
  then show ?thesis using assms(2,5) Cons by (simp add: handle_agent_unavailable_def Let_def)
qed

lemma dispatch_unavailable: "dispatch env t d = Inl (AgentUnavailable exc) \<Longrightarrow> \<not> usable_agent d (task_assigned_agent t)"
  by (auto simp: dispatch_def usable_agent_def Let_def persist_artefact_def case_prod_unfold
      split: if_splits option.splits sum.splits)

lemma consume_all_control [simp]: "db_control (consume_all tid arts d) = db_control d"
  by (induction arts arbitrary: d) (simp_all add: consume_all_def mark_consumed_def)

definition marked_task :: "nat \<Rightarrow> nat \<Rightarrow> (nat \<times> string) list \<Rightarrow> task \<Rightarrow> task" where
  "marked_task i aid inputs x =
    (if task_id x = i then x\<lparr>task_received_inputs := inputs, task_result_artefact_id := Some aid\<rparr> else x)"

text \<open>A successful dispatch rewrites two columns of the dispatched task and leaves every status.\<close>
lemma dispatch_tasks:
  assumes "dispatch env t d = Inr (aid, d')"
  shows "\<exists>inputs. db_tasks d' = map (marked_task (task_id t) aid inputs) (db_tasks d)"
    and "db_runs d' = db_runs d" "db_control d' = db_control d"
  using assms
  by (auto simp: dispatch_def Let_def persist_artefact_def new_artefact_def case_prod_unfold set_task_def
      update_where_def marked_task_def comp_def split: if_splits option.splits sum.splits intro!: exI)

lemma dispatch_advances:
  assumes "dispatch env t d = Inr (aid, d')"
  shows "advances d d'" "task_state d' i = task_state d i"
proof -
  obtain inputs where m: "db_tasks d' = map (marked_task (task_id t) aid inputs) (db_tasks d)"
    using dispatch_tasks(1)[OF assms] by blast
  have same: "task_id (marked_task j aid inputs x) = task_id x" "same_row d x (marked_task j aid inputs x)"
    "task_status_of (marked_task j aid inputs x) = task_status_of x" for j x
    by (simp_all add: marked_task_def same_row_def task_budget_def)
  show "advances d d'"
    using dispatch_tasks(2,3)[OF assms] by (simp add: advances_def m list_all2_map2 list_all2_same same)
  have "map_option task_status_of (row_by task_id i (map (marked_task (task_id t) aid inputs) ts))
      = map_option task_status_of (row_by task_id i ts)" for ts
    by (induction ts) (simp_all add: same)
  then show "task_state d' i = task_state d i" by (simp add: task_state_def get_task_def m)
qed

lemma complete_task_spends:
  assumes "distinct (map task_id (db_tasks d))" "get_task d tid = Some u" "\<not> terminal_task (task_status_of u)"
  shows "spends tid d (complete_task env rid tid t d)"
proof -
  let ?f = "\<lambda>x. x\<lparr>task_status_of := TASK_COMPLETED, task_completed_at := Some (e_now env)\<rparr>"
  define d2 where "d2 = snd (emit env rid ''task.completed'' ''task'' (Some tid)
           (JObj [(''result_artefact_id'', JStr (case task_result_artefact_id t of
                     Some a \<Rightarrow> uuid_str a | None \<Rightarrow> ''None'')),
                  (''duration_seconds'', opt_json (\<lambda>s. JFloat (seconds_between s (e_now env))) (task_started_at t))])
           True (set_task tid ?f d))"
  have s2: "spends tid d d2"
    unfolding d2_def emit_spends using assms
    by (intro set_task_spends[where t = u] terminal_budget_less) (simp_all add: terminal_task_def)
  have dist: "distinct (map task_id (db_tasks d2))"
    by (rule advances_distinct[OF spends_advances[OF s2] assms(1)])
  have a3: "advances d2 (set_task tid (\<lambda>x. x\<lparr>task_audit_reference := a\<rparr>) d2)" for a
    using dist by (intro set_task_advances) (simp_all add: same_row_def task_budget_def)
  have "spends tid d (set_task tid (\<lambda>x. x\<lparr>task_audit_reference := a\<rparr>) d2)" for a
    by (rule spends_then_advances[OF s2 a3])
  then have "spends tid d (evaluate_on_completion env t (set_task tid (\<lambda>x. x\<lparr>task_audit_reference := a\<rparr>) d2))" for a
    using advances_distinct[OF a3 dist] evaluate_advances spends_then_advances by blast
  then show ?thesis by (simp add: complete_task_def Let_def case_prod_unfold d2_def)
qed

lemma run_dispatch_spends:
  assumes "distinct (map task_id (db_tasks d))" "get_task d tid = Some t" "task_status_of t = TASK_RUNNING"
    "get_run d rid = Some run"
  shows "spends tid d (run_dispatch_and_complete env rid tid d)"
proof -
  have nt: "\<not> terminal_task (task_status_of t)" using assms(3) by (simp add: terminal_task_def)
  show ?thesis
  proof (cases "dispatch env t d")
    case (Inl err)
    then show ?thesis
      using assms nt data_stale_spends task_failure_spends agent_unavailable_spends dispatch_unavailable
      by (cases err) (auto simp: run_dispatch_and_complete_def)
  next
    case (Inr res)
    then obtain aid d1 where res: "dispatch env t d = Inr (aid, d1)" by (cases res) simp
    note adv = dispatch_advances[OF res]
    obtain u where u: "get_task d1 tid = Some u" using advances_get_task[OF adv(1) assms(2)] by blast
    have r: "task_status_of u = TASK_RUNNING"
      using adv(2)[of tid] assms(2,3) u by (simp add: task_state_def)
    have "spends tid d1 (complete_task env rid tid u d1)"
      using r u advances_distinct[OF adv(1) assms(1)] by (intro complete_task_spends) (auto simp: terminal_task_def)
    then show ?thesis
      using advances_then_spends[OF adv(1) _ assms(2)] assms(2) res u r by (simp add: run_dispatch_and_complete_def)
  qed
qed

lemma claim_advances:
  assumes "distinct (map task_id (db_tasks d))" "claim env rid tid d = Some d1"
  shows "advances d d1" "task_state d tid = Some TASK_READY" "task_state d1 tid = Some TASK_RUNNING"
  using assms
  by (auto simp: claim_def task_state_def same_row_def task_budget_def terminal_task_def
      intro!: set_task_advances split: option.splits if_splits)

lemma execute_task_spends:
  assumes "distinct (map task_id (db_tasks d))" "task_state d tid = Some TASK_READY" "get_run d rid = Some run"
  shows "spends tid d (execute_task env rid tid d)"
proof -
  obtain t where t: "get_task d tid = Some t" "task_status_of t = TASK_READY"
    using assms(2) by (auto simp: task_state_def)
  then obtain d1 where c: "claim env rid tid d = Some d1" by (simp add: claim_def)
  note adv = claim_advances[OF assms(1) c]
  obtain u where u: "get_task d1 tid = Some u" "task_status_of u = TASK_RUNNING"
    using adv(3) by (auto simp: task_state_def)
  have "get_run d1 rid = Some run" using assms(3) adv(1) by (simp add: get_run_def advances_def)
  then have "spends tid d1 (handle_task_timeout env rid tid s d1)"
    "spends tid d1 (run_dispatch_and_complete env rid tid d1)" for s
    using u advances_distinct[OF adv(1) assms(1)] by (auto intro: timeout_spends run_dispatch_spends)
  then show ?thesis
    using advances_then_spends[OF adv(1) _ t(1)] c u by (simp add: execute_task_def)
qed

lemma execute_task_advances:
  assumes "distinct (map task_id (db_tasks d))" "get_run d rid = Some run"
  shows "advances d (execute_task env rid tid d)"
proof (cases "task_state d tid = Some TASK_READY")
  case True
  then show ?thesis using execute_task_spends[OF assms(1) _ assms(2)] spends_advances by blast
next
  case False
  then have "claim env rid tid d = None" by (auto simp: claim_def task_state_def split: option.splits)
  then show ?thesis by (simp add: execute_task_def)
qed

section \<open>Each round spends budget\<close>

lemma execute_tasks_advance:
  assumes "distinct (map task_id (db_tasks d))" "get_run d rid = Some run"
  shows "advances d (fold (execute_task env rid) ids d)"
  using assms
proof (induction ids arbitrary: d)
  case (Cons i ids)
  have a: "advances d (execute_task env rid i d)" by (rule execute_task_advances[OF Cons.prems])
  then have "get_run (execute_task env rid i d) rid = Some run"
    using Cons.prems(2) by (simp add: advances_def get_run_def)
  then show ?case
    using Cons.IH[OF advances_distinct[OF a Cons.prems(1)]] advances_trans[OF a] by simp
qed simp

lemma run_budget_sum:
  "run_budget d rid = sum_list (map (\<lambda>t. if task_run_id t = rid then task_budget d t else 0) (db_tasks d))"
proof -
  have "sum_list (map g (filter P ts)) = sum_list (map (\<lambda>t. if P t then g t else 0) ts)"
    for g :: "task \<Rightarrow> nat" and P ts by (induction ts) simp_all
  then show ?thesis by (simp add: run_budget_def run_tasks_def)
qed

lemma row_sum_le:
  assumes "list_all2 (same_row d) ts us"
  shows "sum_list (map (\<lambda>t. if task_run_id t = rid then task_budget d t else 0) us)
    \<le> sum_list (map (\<lambda>t. if task_run_id t = rid then task_budget d t else (0::nat)) ts)"
  using assms by (induction ts us rule: list_all2_induct) (auto simp: same_row_def)

lemma row_sum_less:
  assumes "list_all2 (same_row d) ts us"
    and "row_by task_id i ts = Some t" "row_by task_id i us = Some u" "task_budget d u < task_budget d t"
    and "task_run_id t = rid"
  shows "sum_list (map (\<lambda>t. if task_run_id t = rid then task_budget d t else 0) us)
    < sum_list (map (\<lambda>t. if task_run_id t = rid then task_budget d t else (0::nat)) ts)"
  using assms
proof (induction ts us rule: list_all2_induct)
  case (Cons x xs y ys)
  then show ?case
    using row_sum_le[OF Cons.hyps(2), of rid] by (auto simp: same_row_def split: if_splits)
qed simp

lemma advances_budget:
  assumes "advances d d'"
  shows "run_budget d' rid \<le> run_budget d rid"
proof -
  have eq: "task_budget d' = task_budget d"
    by (rule task_budget_control) (use assms in \<open>simp add: advances_def\<close>)
  show ?thesis unfolding run_budget_sum eq by (rule row_sum_le) (use assms in \<open>simp add: advances_def\<close>)
qed

lemma spends_budget:
  assumes "spends tid d d'" "get_task d tid = Some t" "task_run_id t = rid"
  shows "run_budget d' rid < run_budget d rid"
proof -
  have eq: "task_budget d' = task_budget d"
    by (rule task_budget_control) (use assms(1) in \<open>simp add: spends_def advances_def\<close>)
  obtain u where u: "get_task d' tid = Some u" "task_budget d u < task_budget d t"
    using assms by (auto simp: spends_def)
  show ?thesis unfolding run_budget_sum eq
    by (rule row_sum_less[of d _ _ tid t u])
      (use assms u in \<open>simp_all add: spends_def advances_def get_task_def\<close>)
qed

text \<open>After the sweep, every offered task is ready and belongs to the run, and no other task of the
  run is.\<close>
lemma ready_tasks_offer:
  assumes "distinct (map task_id (db_tasks d))"
  shows "i \<in> fst ` set (fst (ready_tasks env rid d)) \<longleftrightarrow>
    (\<exists>t. get_task (snd (ready_tasks env rid d)) i = Some t \<and> task_status_of t = TASK_READY \<and> task_run_id t = rid)"
proof -
  let ?ts = "filter (ready_candidate rid) (db_tasks d)" and ?d' = "snd (ready_tasks env rid d)"
  have dist: "distinct (map task_id ?ts)" using assms by (simp add: distinct_map_filter)
  have eff: "map fst (fst (ready_tasks env rid d)) = map task_id (filter (\<lambda>t. hard_satisfied d (task_id t)) ?ts)"
    "task_state ?d' j = (if j \<in> task_id ` set ?ts then Some (settled d j) else task_state d j)" for j
    using ready_fold_effect[OF dist, of d env rid "[]"] task_state_row[OF assms] by (auto simp: ready_tasks_def)
  have adv: "advances d ?d'" by (rule ready_tasks_advances[OF assms])
  have out: "i \<in> fst ` set (fst (ready_tasks env rid d)) \<longleftrightarrow>
      (\<exists>t \<in> set (db_tasks d). task_id t = i \<and> ready_candidate rid t \<and> hard_satisfied d i)"
    using arg_cong[OF eff(1), of set] by auto
  show ?thesis
  proof
    assume "i \<in> fst ` set (fst (ready_tasks env rid d))"
    then obtain t where t: "t \<in> set (db_tasks d)" "task_id t = i" "ready_candidate rid t" "hard_satisfied d i"
      using out by blast
    have "get_task d i = Some t" using task_state_row[OF assms t(1)] t(2) by simp
    from advances_get_task[OF adv this] obtain u where u: "get_task ?d' i = Some u" "same_row d t u" .
    have "task_state ?d' i = Some TASK_READY" using t eff(2)[of i] by (auto simp: settled_def)
    then show "\<exists>t. get_task ?d' i = Some t \<and> task_status_of t = TASK_READY \<and> task_run_id t = rid"
      using u t(3) by (auto simp: task_state_def same_row_def ready_candidate_def)
  next
    assume "\<exists>t. get_task ?d' i = Some t \<and> task_status_of t = TASK_READY \<and> task_run_id t = rid"
    then obtain u where u: "get_task ?d' i = Some u" "task_status_of u = TASK_READY" "task_run_id u = rid" by blast
    then have st: "task_state ?d' i = Some TASK_READY" by (simp add: task_state_def)
    have "i \<in> task_id ` set (db_tasks d)"
      using row_by_SomeD[OF u(1)[unfolded get_task_def]] arg_cong[OF advances_ids[OF adv], of set]
      by (metis image_eqI image_set)
    then obtain t where t: "t \<in> set (db_tasks d)" "task_id t = i" by blast
    then have gt: "get_task d i = Some t" using task_state_row[OF assms] by blast
    have "task_run_id t = rid"
      using advances_get_task[OF adv gt] u(1,3) by (metis option.inject same_row_def)
    moreover have "ready_candidate rid t \<and> hard_satisfied d i"
    proof (cases "i \<in> task_id ` set ?ts")
      case True
      then obtain t' where t': "t' \<in> set (db_tasks d)" "ready_candidate rid t'" "task_id t' = i" by auto
      then have "t' = t" using task_state_row[OF assms t'(1)] gt by simp
      then show ?thesis using t' st True eff(2)[of i] by (simp add: settled_def split: if_splits)
    next
      case False
      then have "task_state d i = Some TASK_READY" using eff(2)[of i] st by simp
      then have "task_status_of t = TASK_READY" using gt by (simp add: task_state_def)
      then have "ready_candidate rid t" using calculation by (simp add: ready_candidate_def)
      then show ?thesis using False t by (auto simp: image_iff)
    qed
    ultimately show "i \<in> fst ` set (fst (ready_tasks env rid d))" using out t by blast
  qed
qed

lemma execute_round_spends:
  assumes "distinct (map task_id (db_tasks d))" "get_run d rid = Some run" "ready \<noteq> []"
    and "\<And>i. i \<in> fst ` set ready \<Longrightarrow> \<exists>t. get_task d i = Some t \<and> task_status_of t = TASK_READY \<and> task_run_id t = rid"
  shows "advances d (execute_round env rid ready d)" "run_budget (execute_round env rid ready d) rid < run_budget d rid"
proof -
  define ids where "ids = map fst (filter snd ready) @ map fst (filter (\<lambda>x. \<not> snd x) ready)"
  have e: "execute_round env rid ready d = fold (execute_task env rid) ids d"
    by (simp add: execute_round_def Let_def ids_def)
  show "advances d (execute_round env rid ready d)" unfolding e by (rule execute_tasks_advance[OF assms(1,2)])
  have "ids \<noteq> []" using assms(3) by (cases ready) (auto simp: ids_def)
  then obtain i is' where i: "ids = i # is'" by (cases ids) auto
  then have "i \<in> set ids" by simp
  then have "i \<in> fst ` set ready" by (auto simp: ids_def)
  from assms(4)[OF this] obtain t where t: "get_task d i = Some t" "task_status_of t = TASK_READY" "task_run_id t = rid"
    by blast
  then have s: "spends i d (execute_task env rid i d)"
    using execute_task_spends[OF assms(1) _ assms(2)] by (simp add: task_state_def)
  have "get_run (execute_task env rid i d) rid = Some run"
    using spends_advances[OF s] assms(2) by (simp add: advances_def get_run_def)
  then have "advances (execute_task env rid i d) (fold (execute_task env rid) is' (execute_task env rid i d))"
    using execute_tasks_advance advances_distinct[OF spends_advances[OF s] assms(1)] by blast
  from advances_budget[OF this, of rid] spends_budget[OF s t(1,3)]
  show "run_budget (execute_round env rid ready d) rid < run_budget d rid" by (simp add: e i)
qed

section \<open>The loop returns, with the run settled\<close>

lemma get_run_set_run [simp]:
  assumes "\<And>r. run_id (f r) = run_id r"
  shows "get_run (set_run i f d) j = (if j = i then map_option f (get_run d j) else get_run d j)"
  using assms
  by (cases "row_by run_id j (db_runs d)")
    (auto simp: get_run_def set_run_def row_by_update_where dest: row_by_SomeD)

lemma get_run_cong: "db_runs d' = db_runs d \<Longrightarrow> get_run d' i = get_run d i"
  by (simp add: get_run_def)

lemma record_timings_tasks:
  "db_runs (record_timings rid d) = db_runs d" "db_approvals (record_timings rid d) = db_approvals d"
  "db_artefacts (record_timings rid d) = db_artefacts d"
  "map task_status_of (run_tasks (record_timings rid d) rid) = map task_status_of (run_tasks d rid)"
proof -
  have t: "task_run_id (timed d0 us t) = task_run_id t" "task_status_of (timed d0 us t) = task_status_of t" for d0 us t
    by (simp_all add: timed_def split: option.split)
  have "map task_status_of (filter (\<lambda>t. task_run_id t = rid) (update_where (\<lambda>t. task_run_id t = rid) (timed d0 us) ts))
      = map task_status_of (filter (\<lambda>t. task_run_id t = rid) ts)" for d0 us ts
    by (induction ts) (simp_all add: t)
  then show "map task_status_of (run_tasks (record_timings rid d) rid) = map task_status_of (run_tasks d rid)"
    by (simp add: run_tasks_def record_timings_def)
qed (simp_all add: record_timings_def)

definition has_status :: "db \<Rightarrow> nat \<Rightarrow> task_status set \<Rightarrow> bool" where
  "has_status d rid S \<longleftrightarrow> (\<exists>t \<in> set (run_tasks d rid). task_status_of t \<in> S)"

lemma has_status_statuses: "has_status d rid S \<longleftrightarrow> (\<exists>s \<in> set (map task_status_of (run_tasks d rid)). s \<in> S)"
  by (auto simp: has_status_def)

text \<open>Closing a run without ready tasks: which of the three outcomes it gets, exactly.\<close>
lemma finalize_outcome:
  assumes "get_run d rid = Some run" "\<not> has_status d rid {TASK_READY}"
  shows "\<exists>r. get_run (snd (finalize env rid d)) rid = Some r \<and>
    run_status_of r =
     (if has_status d rid {s. nonterminal_task s} then RUN_WAITING
      else if has_status d rid {TASK_FAILED, TASK_BLOCKED, TASK_ESCALATED} then RUN_FAILED
      else if undispositioned_count rid d \<noteq> 0 \<or> has_pending_approval d rid then RUN_WAITING
      else RUN_COMPLETED)"
    and "map task_status_of (run_tasks (snd (finalize env rid d)) rid) = map task_status_of (run_tasks d rid)"
proof -
  let ?d2 = "resolve_conflicts env rid (record_timings rid d)"
  have run2: "get_run ?d2 rid = Some run"
    using assms(1) by (simp add: get_run_def record_timings_tasks)
  have views: "undispositioned_count rid ?d2 = undispositioned_count rid d"
    "has_pending_approval ?d2 rid = has_pending_approval d rid"
    "map task_status_of (run_tasks ?d2 rid) = map task_status_of (run_tasks d rid)"
    using record_timings_tasks(4)[of rid d]
    by (simp_all add: undispositioned_count_def has_pending_approval_def record_timings_tasks run_tasks_def)
  have bad: "has_status d rid {TASK_FAILED, TASK_BLOCKED, TASK_ESCALATED} \<longleftrightarrow>
      count_status TASK_FAILED (run_tasks d rid) \<noteq> 0 \<or> count_status TASK_BLOCKED (run_tasks d rid) \<noteq> 0
      \<or> count_status TASK_ESCALATED (run_tasks d rid) \<noteq> 0"
    by (auto simp: has_status_def count_status_def filter_empty_conv)
  have ready: "\<not> list_ex (\<lambda>t. task_status_of t = TASK_READY) (run_tasks d rid)"
    using assms(2) by (auto simp: has_status_def list_ex_iff)
  have nt: "list_ex (\<lambda>t. nonterminal_task (task_status_of t)) (run_tasks d rid)
      \<longleftrightarrow> has_status d rid {s. nonterminal_task s}"
    by (auto simp: has_status_def list_ex_iff)
  have gr: "get_run (snd (emit env rid et st sid p a x)) rid = get_run x rid" for et st sid p a x
    by (simp add: get_run_def)
  have rt: "run_tasks (snd (emit env rid et st sid p a x)) rid = run_tasks x rid"
    "run_tasks (set_run rid f x) rid = run_tasks x rid" for et st sid p a x f
    by (simp_all add: run_tasks_def)
  note fin = finalize_def[of env rid d, unfolded assms(1) option.case nt Let_def views(1,2)]
  show "\<exists>r. get_run (snd (finalize env rid d)) rid = Some r \<and>
    run_status_of r =
     (if has_status d rid {s. nonterminal_task s} then RUN_WAITING
      else if has_status d rid {TASK_FAILED, TASK_BLOCKED, TASK_ESCALATED} then RUN_FAILED
      else if undispositioned_count rid d \<noteq> 0 \<or> has_pending_approval d rid then RUN_WAITING
      else RUN_COMPLETED)"
    using ready run2 assms(1) by (simp add: fin bad gr)
  show "map task_status_of (run_tasks (snd (finalize env rid d)) rid) = map task_status_of (run_tasks d rid)"
    using ready views(3) by (simp add: fin rt)
qed

lemma scheduler_loop_settles:
  assumes "distinct (map task_id (db_tasks d))" "get_run d rid = Some run" "run_budget d rid < n"
  shows "\<exists>d0. scheduler_loop n env rid d = Some (snd (finalize env rid d0))
    \<and> get_run d0 rid = Some run \<and> \<not> has_status d0 rid {TASK_READY}"
  using assms
proof (induction n arbitrary: d)
  case (Suc n)
  let ?d1 = "snd (ready_tasks env rid d)" and ?ready = "fst (ready_tasks env rid d)"
  have a: "advances d ?d1" by (rule ready_tasks_advances[OF Suc.prems(1)])
  have dist: "distinct (map task_id (db_tasks ?d1))" by (rule advances_distinct[OF a Suc.prems(1)])
  have run: "get_run ?d1 rid = Some run" using a Suc.prems(2) by (simp add: advances_def get_run_def)
  note offer = ready_tasks_offer[OF Suc.prems(1), of _ env rid]
  show ?case
  proof (cases "?ready = []")
    case True
    have "\<not> has_status ?d1 rid {TASK_READY}"
    proof
      assume "has_status ?d1 rid {TASK_READY}"
      then obtain t where t: "t \<in> set (db_tasks ?d1)" "task_status_of t = TASK_READY" "task_run_id t = rid"
        by (auto simp: has_status_def run_tasks_def)
      then show False using offer[of "task_id t"] task_state_row[OF dist t(1)] True by auto
    qed
    then show ?thesis using True run by (auto simp: scheduler_loop_Suc)
  next
    case False
    have r: "advances ?d1 (execute_round env rid ?ready ?d1)"
      "run_budget (execute_round env rid ?ready ?d1) rid < run_budget ?d1 rid"
      using execute_round_spends[OF dist run False] offer by auto
    have "get_run (execute_round env rid ?ready ?d1) rid = Some run"
      using r(1) run by (simp add: advances_def get_run_def)
    then have "\<exists>d0. scheduler_loop n env rid (execute_round env rid ?ready ?d1) = Some (snd (finalize env rid d0))
        \<and> get_run d0 rid = Some run \<and> \<not> has_status d0 rid {TASK_READY}"
      using r advances_budget[OF a, of rid] Suc.prems(3) by (intro Suc.IH advances_distinct[OF r(1) dist]) simp_all
    then show ?thesis using False by (simp add: scheduler_loop_Suc Let_def)
  qed
qed simp

text \<open>C2. The scheduler loop returns and settles the run. With more rounds of fuel than the run's budget
  (one execution, the remaining retries and at most one reassignment for each unfinished task), the
  loop comes to an end whatever the handlers answer and whichever tasks time out. The run is then
  completed exactly when every task is completed or cancelled, no artefact lacks a disposition
  and no approval is pending; failed exactly when all tasks have ended and one failed, was blocked
  or escalated; and waiting otherwise. No task is left ready.\<close>
theorem run_scheduler_loop_settles:
  assumes "unique_ids d" and "get_run d rid = Some run" and "run_budget d rid < fuel"
  shows "\<exists>d' r. run_scheduler_loop fuel env rid d = Some d' \<and> get_run d' rid = Some r
    \<and> \<not> has_status d' rid {TASK_READY}
    \<and> (run_status_of r = RUN_COMPLETED \<longleftrightarrow>
         (\<forall>t \<in> set (run_tasks d' rid). task_status_of t \<in> {TASK_COMPLETED, TASK_CANCELLED})
         \<and> undispositioned_count rid d' = 0 \<and> \<not> has_pending_approval d' rid)
    \<and> (run_status_of r = RUN_FAILED \<longleftrightarrow>
         (\<forall>t \<in> set (run_tasks d' rid). terminal_task (task_status_of t))
         \<and> (\<exists>t \<in> set (run_tasks d' rid). task_status_of t \<in> {TASK_FAILED, TASK_BLOCKED, TASK_ESCALATED}))
    \<and> run_status_of r \<in> {RUN_COMPLETED, RUN_FAILED, RUN_WAITING}"
proof -
  let ?d1 = "start_run env rid d"
  have "db_tasks ?d1 = db_tasks d" "db_control ?d1 = db_control d" by (simp_all add: start_run_def set_run_def)
  then have d1: "distinct (map task_id (db_tasks ?d1))" "run_budget ?d1 rid = run_budget d rid"
    using assms(1) task_budget_control[of ?d1 d] by (simp_all add: unique_ids_def run_budget_def run_tasks_def)
  obtain run1 where run1: "get_run ?d1 rid = Some run1"
    using assms(2) by (simp add: start_run_def get_run_cong[OF emit_frame(1)])
  obtain d0 where d0: "scheduler_loop fuel env rid ?d1 = Some (snd (finalize env rid d0))"
    "get_run d0 rid = Some run1" "\<not> has_status d0 rid {TASK_READY}"
    using scheduler_loop_settles[OF d1(1) run1] assms(3) d1(2) by metis
  let ?d' = "snd (finalize env rid d0)"
  note out = finalize_outcome[OF d0(2,3), of env]
  have hs: "has_status ?d' rid S = has_status d0 rid S" for S
    by (simp only: has_status_statuses out(2))
  have frame: "undispositioned_count rid ?d' = undispositioned_count rid d0"
    "has_pending_approval ?d' rid = has_pending_approval d0 rid"
    by (auto simp: finalize_def Let_def undispositioned_count_def has_pending_approval_def
        record_timings_tasks split: option.split)
  have all: "(\<forall>t \<in> set (run_tasks ?d' rid). terminal_task (task_status_of t))
      \<longleftrightarrow> \<not> has_status d0 rid {s. nonterminal_task s}"
    "(\<forall>t \<in> set (run_tasks ?d' rid). task_status_of t \<in> {TASK_COMPLETED, TASK_CANCELLED})
      \<longleftrightarrow> \<not> has_status d0 rid {s. nonterminal_task s}
        \<and> \<not> has_status d0 rid {TASK_FAILED, TASK_BLOCKED, TASK_ESCALATED}"
    "(\<exists>t \<in> set (run_tasks ?d' rid). task_status_of t \<in> {TASK_FAILED, TASK_BLOCKED, TASK_ESCALATED})
      \<longleftrightarrow> has_status d0 rid {TASK_FAILED, TASK_BLOCKED, TASK_ESCALATED}"
    unfolding hs[symmetric] by (auto simp: has_status_def task_status_classes terminal_task_def)
  obtain r where r: "get_run ?d' rid = Some r"
    "run_status_of r = (if has_status d0 rid {s. nonterminal_task s} then RUN_WAITING
      else if has_status d0 rid {TASK_FAILED, TASK_BLOCKED, TASK_ESCALATED} then RUN_FAILED
      else if undispositioned_count rid d0 \<noteq> 0 \<or> has_pending_approval d0 rid then RUN_WAITING
      else RUN_COMPLETED)" using out(1) by blast
  show ?thesis
  proof (intro exI conjI)
    show "run_scheduler_loop fuel env rid d = Some ?d'" using assms(2) d0(1) by (simp add: run_scheduler_loop_def)
    show "get_run ?d' rid = Some r" by (rule r(1))
    show "\<not> has_status ?d' rid {TASK_READY}" using d0(3) by (simp only: hs) simp
  qed (simp_all only: all frame r(2), auto)
qed

definition sample_run :: "nat \<Rightarrow> run_status \<Rightarrow> organization_run" where
  "sample_run i st = \<lparr>run_id = i, run_tenant_id = 1, run_objective = ''o'', run_source_of = SRC_WEB,
     run_requested_by = None, run_status_of = st, run_queue_position = None, run_plan_id = None,
     run_thread_id = ''org'', run_result_summary = None, run_started_at = None, run_ended_at = None,
     run_created_at = 0, run_updated_at = 0\<rparr>"

lemma sample_run_simps [simp]:
  "run_id (sample_run i st) = i" "run_status_of (sample_run i st) = st" "run_updated_at (sample_run i st) = 0"
  by (simp_all add: sample_run_def)

theorem run_scheduler_loop_settles_witness:
  "\<exists>d'. run_scheduler_loop 20 sample_env 9 ((chain_db TASK_PLANNED)\<lparr>db_runs := [sample_run 9 RUN_QUEUED]\<rparr>) = Some d'"
proof -
  let ?d = "(chain_db TASK_PLANNED)\<lparr>db_runs := [sample_run 9 RUN_QUEUED]\<rparr>"
  have u: "unique_ids ?d" using chain_db_facts(1)[of TASK_PLANNED] by (simp add: unique_ids_def)
  have g: "get_run ?d 9 = Some (sample_run 9 RUN_QUEUED)" by (simp add: get_run_def)
  have "run_budget ?d 9 < 20"
    by (simp add: run_budget_def run_tasks_def chain_db_facts task_budget_def sample_task_def)
  from run_scheduler_loop_settles[OF u g this, of sample_env] show ?thesis by blast
qed

end
