(* ===== verification/PlanPersist.thy ===== *)
theory PlanPersist
  imports PlanValidation SchedulerLoop
begin

text \<open>
  What reaches the database: the context scaffold of a strategy plan, the rows written for a plan
  (\<open>_persist\<close>), and the guarantee \<open>generate_plan\<close> gives about them.
\<close>

section \<open>The research scaffold\<close>

abbreviation scaffold_step ::
  "agent_snapshot_row list \<Rightarrow> (string, string) dict \<Rightarrow> generated_plan \<Rightarrow> scaffold_row \<Rightarrow> generated_plan" where
  "scaffold_step registry keys q r \<equiv>
    (if plans_capability q (sc_capability r) then q else add_task (scaffold_task registry keys r) q)"

lemma scaffold_task_simps [simp]:
  "pt_capability (scaffold_task registry keys r) = sc_capability r"
  "pt_key (scaffold_task registry keys r) = dict_get_default keys (sc_capability r) []"
  by (simp_all add: scaffold_task_def)

lemma require_key_simps [simp]:
  "pt_key (require_key k t) = pt_key t" "pt_capability (require_key k t) = pt_capability t"
  by (simp_all add: require_key_def)

lemma scaffold_fold:
  "set (gp_tasks p) \<subseteq> set (gp_tasks (foldl (scaffold_step registry keys) p rs))
   \<and> set (gp_tasks (foldl (scaffold_step registry keys) p rs))
       \<subseteq> set (gp_tasks p) \<union> scaffold_task registry keys ` set rs
   \<and> (\<forall>r \<in> set rs. plans_capability (foldl (scaffold_step registry keys) p rs) (sc_capability r))"
proof (induction rs rule: rev_induct)
  case (snoc r rs)
  then show ?case by (auto simp: plans_capability_def add_task_def list_ex_iff)
qed simp

lemma planned_key:
  "plans_capability p c \<Longrightarrow> \<exists>t \<in> set (gp_tasks p). pt_capability t = c \<and> dict_get (planned_key_for_cap p) c = Some (pt_key t)"
proof -
  have "list_ex (\<lambda>t. pt_capability t = c) ts \<Longrightarrow> \<exists>t \<in> set ts. pt_capability t = c
      \<and> dict_get (foldl (\<lambda>d t. dict_set (pt_capability t) (pt_key t) d) [] ts) c = Some (pt_key t)" for ts
    by (induction ts rule: rev_induct) auto
  then show "plans_capability p c \<Longrightarrow> ?thesis" by (simp add: plans_capability_def planned_key_for_cap_def)
qed

lemma set_default_keeps: "dict_get d c = Some k \<Longrightarrow> dict_get (set_default d c' v) c = Some k"
  by (auto simp: set_default_def split: option.split)

lemma key_for_cap_keeps:
  "dict_get (planned_key_for_cap p) c = Some k \<Longrightarrow> dict_get (key_for_cap p) c = Some k"
proof -
  have "dict_get d c = Some k \<Longrightarrow>
      dict_get (foldl (\<lambda>d r. set_default d (sc_capability r) (sc_key r)) d rs) c = Some k" for d rs
    by (induction rs arbitrary: d) (simp_all add: set_default_keeps)
  then show "dict_get (planned_key_for_cap p) c = Some k \<Longrightarrow> ?thesis" by (simp add: key_for_cap_def)
qed

lemma research_scaffold_context:
  "let q = ensure_research_scaffold registry p in
     (\<exists>k. \<forall>t \<in> set (gp_tasks q). pt_capability t \<in> set STRATEGY_CAPS \<longrightarrow>
        k \<in> set (pt_depends_on t)
        \<and> (\<exists>c \<in> set (gp_tasks q). pt_key c = k \<and> pt_capability c = ''context_assembly''))
   \<and> (\<forall>t \<in> set (gp_tasks p). \<exists>u \<in> set (gp_tasks q). pt_key u = pt_key t
        \<and> pt_capability u = pt_capability t \<and> pt_assigned_agent u = pt_assigned_agent t
        \<and> set (pt_depends_on t) \<subseteq> set (pt_depends_on u))"
proof (cases "list_ex (\<lambda>t. pt_capability t \<in> set STRATEGY_CAPS) (gp_tasks p)")
  case True
  let ?keys = "key_for_cap p" and ?ca = "''context_assembly''"
  let ?K = "dict_get_default ?keys ?ca []"
  define p1 where "p1 = foldl (scaffold_step registry ?keys) p CONTEXT_SCAFFOLD"
  have q: "gp_tasks (ensure_research_scaffold registry p) = map (require_key ?K) (gp_tasks p1)"
    using True by (simp add: ensure_research_scaffold_def Let_def p1_def)
  note fold = scaffold_fold[of p registry ?keys CONTEXT_SCAFFOLD, folded p1_def]
  have "plans_capability p1 ?ca"
    using fold by (auto simp: CONTEXT_SCAFFOLD_def scaffold_def)
  then obtain t where t: "t \<in> set (gp_tasks p1)" "pt_capability t = ?ca"
    by (auto simp: plans_capability_def list_ex_iff)
  obtain c where c: "c \<in> set (gp_tasks p1)" "pt_capability c = ?ca" "pt_key c = ?K"
  proof (cases "plans_capability p ?ca")
    case True
    then obtain u where u: "u \<in> set (gp_tasks p)" "pt_capability u = ?ca"
      "dict_get (planned_key_for_cap p) ?ca = Some (pt_key u)" using planned_key by blast
    then have "pt_key u = ?K" by (simp add: dict_get_default_def key_for_cap_keeps)
    then show thesis using that u(1,2) fold by blast
  next
    case False
    then have "t \<notin> set (gp_tasks p)" using t(2) by (auto simp: plans_capability_def list_ex_iff)
    then have "t \<in> scaffold_task registry ?keys ` set CONTEXT_SCAFFOLD" using fold t(1) by blast
    then have "pt_key t = ?K" using t(2) by auto
    then show thesis using that t by blast
  qed
  have "require_key ?K c \<in> set (gp_tasks (ensure_research_scaffold registry p))"
    using c(1) by (simp add: q)
  moreover have "?K \<in> set (pt_depends_on u)"
    if u: "u \<in> set (gp_tasks (ensure_research_scaffold registry p))" "pt_capability u \<in> set STRATEGY_CAPS" for u
    using that by (auto simp: q require_key_def split: if_splits)
  moreover define c' where "c' = require_key ?K c"
  ultimately have 1: "\<exists>k. \<forall>t \<in> set (gp_tasks (ensure_research_scaffold registry p)).
      pt_capability t \<in> set STRATEGY_CAPS \<longrightarrow> k \<in> set (pt_depends_on t)
        \<and> (\<exists>c \<in> set (gp_tasks (ensure_research_scaffold registry p)). pt_key c = k \<and> pt_capability c = ?ca)"
    using c(2,3) by (intro exI[of _ ?K] ballI impI conjI bexI[of _ c']) simp_all
  have 2: "\<exists>u \<in> set (gp_tasks (ensure_research_scaffold registry p)). pt_key u = pt_key t
        \<and> pt_capability u = pt_capability t \<and> pt_assigned_agent u = pt_assigned_agent t
        \<and> set (pt_depends_on t) \<subseteq> set (pt_depends_on u)" if "t \<in> set (gp_tasks p)" for t
    using that fold by (intro bexI[of _ "require_key ?K t"]) (auto simp: q require_key_def)
  show ?thesis unfolding Let_def using 1 2 by blast
next
  case False
  then have "ensure_research_scaffold registry p = p" by (simp add: ensure_research_scaffold_def)
  moreover have "pt_capability t \<notin> set STRATEGY_CAPS" if "t \<in> set (gp_tasks p)" for t
    using False that by (simp add: list_ex_iff)
  ultimately show ?thesis by (auto simp: Let_def)
qed

text \<open>Research context is guaranteed. Whatever the proposed plan contains, after the research
  scaffold every task that generates, researches or implements a strategy depends on one task, which
  is in the plan and assembles the research context; and the tasks that were proposed keep their keys,
  capabilities and dependencies.\<close>
theorem research_scaffold_guarantees_context:
  "let q = ensure_research_scaffold registry p in
     (\<exists>k. \<forall>t \<in> set (gp_tasks q). pt_capability t \<in> set STRATEGY_CAPS \<longrightarrow>
        k \<in> set (pt_depends_on t)
        \<and> (\<exists>c \<in> set (gp_tasks q). pt_key c = k \<and> pt_capability c = ''context_assembly''))
   \<and> (\<forall>t \<in> set (gp_tasks p). \<exists>u \<in> set (gp_tasks q). pt_key u = pt_key t
        \<and> pt_capability u = pt_capability t \<and> pt_assigned_agent u = pt_assigned_agent t
        \<and> set (pt_depends_on t) \<subseteq> set (pt_depends_on u))"
  by (rule research_scaffold_context)

theorem research_scaffold_guarantees_context_witness:
  "\<exists>k. \<exists>c \<in> set (gp_tasks (ensure_research_scaffold []
      (sample_plan [sample_planned ''s'' ''strategy_research'' ''backtesting'' []]))).
      pt_key c = k \<and> pt_capability c = ''context_assembly''"
proof -
  let ?p = "sample_plan [sample_planned ''s'' ''strategy_research'' ''backtesting'' []]"
  let ?q = "ensure_research_scaffold [] ?p"
  note r = research_scaffold_guarantees_context[of "[]" ?p, unfolded Let_def]
  have "\<exists>u \<in> set (gp_tasks ?q). pt_capability u = ''strategy_research''"
    using conjunct2[OF r] by (auto simp: sample_planned_def)
  then obtain u where u: "u \<in> set (gp_tasks ?q)" "pt_capability u = ''strategy_research''" by blast
  then have "pt_capability u \<in> set STRATEGY_CAPS" by (simp add: STRATEGY_CAPS_def)
  then show ?thesis using conjunct1[OF r] u(1) by blast
qed

section \<open>The rows of a plan\<close>

lemma insert_tasks:
  assumes "foldl (insert_task env run pid) (keys, d) ts = (keys', d')"
  shows "d' = d\<lparr>db_tasks := db_tasks d @ map2 (planned_task_row env run pid) [db_next_id d..<db_next_id d + length ts] ts,
               db_next_id := db_next_id d + length ts\<rparr>"
    and "distinct (map pt_key ts) \<Longrightarrow> i < length ts \<Longrightarrow> dict_get keys' (pt_key (ts ! i)) = Some (db_next_id d + i)"
proof -
  have "d' = d\<lparr>db_tasks := db_tasks d @ map2 (planned_task_row env run pid) [db_next_id d..<db_next_id d + length ts] ts,
               db_next_id := db_next_id d + length ts\<rparr>
    \<and> (\<forall>k. dict_get keys' k \<noteq> dict_get keys k \<longrightarrow> k \<in> pt_key ` set ts)
    \<and> (distinct (map pt_key ts) \<longrightarrow> (\<forall>i < length ts. dict_get keys' (pt_key (ts ! i)) = Some (db_next_id d + i)))"
    using assms
  proof (induction ts arbitrary: keys d)
    case (Cons t ts)
    let ?d = "d\<lparr>db_tasks := db_tasks d @ [planned_task_row env run pid (db_next_id d) t],
                db_next_id := Suc (db_next_id d)\<rparr>"
    have "foldl (insert_task env run pid) (dict_set (pt_key t) (db_next_id d) keys, ?d) ts = (keys', d')"
      using Cons.prems by (simp add: insert_task_def[of _ _ _ "(keys, d)" t] Let_def)
    from Cons.IH[OF this] have ih: "d' = d\<lparr>db_tasks := (db_tasks d @ [planned_task_row env run pid (db_next_id d) t])
          @ map2 (planned_task_row env run pid) [Suc (db_next_id d)..<Suc (db_next_id d) + length ts] ts,
        db_next_id := Suc (db_next_id d) + length ts\<rparr>"
      "\<And>k. dict_get keys' k \<noteq> dict_get (dict_set (pt_key t) (db_next_id d) keys) k \<Longrightarrow> k \<in> pt_key ` set ts"
      "distinct (map pt_key ts) \<Longrightarrow> i < length ts \<Longrightarrow>
         dict_get keys' (pt_key (ts ! i)) = Some (Suc (db_next_id d) + i)" for i
      by auto
    have upt: "[db_next_id d..<db_next_id d + length (t # ts)]
        = db_next_id d # [Suc (db_next_id d)..<Suc (db_next_id d) + length ts]"
      by (subst upt_conv_Cons) (simp_all del: upt_Suc)
    have "dict_get keys' (pt_key ((t # ts) ! i)) = Some (db_next_id d + i)"
      if "distinct (map pt_key (t # ts))" "i < length (t # ts)" for i
    proof (cases i)
      case 0
      have "pt_key t \<notin> pt_key ` set ts" using that(1) by simp
      then have "dict_get keys' (pt_key t) = dict_get (dict_set (pt_key t) (db_next_id d) keys) (pt_key t)"
        using ih(2) by blast
      then show ?thesis using 0 by simp
    next
      case (Suc j)
      then show ?thesis using ih(3)[of j] that by simp
    qed
    moreover have "k \<in> pt_key ` set (t # ts)" if "dict_get keys' k \<noteq> dict_get keys k" for k
      using ih(2)[of k] that by (cases "k = pt_key t") auto
    ultimately show ?case unfolding upt using ih(1) by simp
  qed simp
  then show "d' = d\<lparr>db_tasks := db_tasks d @ map2 (planned_task_row env run pid) [db_next_id d..<db_next_id d + length ts] ts,
               db_next_id := db_next_id d + length ts\<rparr>"
    "distinct (map pt_key ts) \<Longrightarrow> i < length ts \<Longrightarrow> dict_get keys' (pt_key (ts ! i)) = Some (db_next_id d + i)"
    by auto
qed

lemma insert_deps:
  "foldl (insert_dep env pid ts keys) d es = d\<lparr>db_deps := db_deps d @
      map2 (planned_dep_row env pid ts keys) [db_next_id d..<db_next_id d + length es] es,
      db_next_id := db_next_id d + length es\<rparr>"
proof (induction es arbitrary: d)
  case (Cons e es)
  have upt: "[db_next_id d..<db_next_id d + length (e # es)]
      = db_next_id d # [Suc (db_next_id d)..<Suc (db_next_id d) + length es]"
    by (subst upt_conv_Cons) (simp_all del: upt_Suc)
  show ?case unfolding foldl_Cons Cons.IH upt by (simp add: insert_dep_def)
qed simp

lemma planned_rows_simps [simp]:
  "task_id (planned_task_row env run pid i t) = i"
  "task_run_id (planned_task_row env run pid i t) = run_id run"
  "task_plan_id (planned_task_row env run pid i t) = pid"
  "task_status_of (planned_task_row env run pid i t) = TASK_PLANNED"
  "task_assigned_agent (planned_task_row env run pid i t) = pt_assigned_agent t"
  "task_capability (planned_task_row env run pid i t) = pt_capability t"
  "dep_dependent_task_id (planned_dep_row env pid ts keys i e) = dict_get_default keys (pt_key (fst e)) 0"
  "dep_prerequisite_task_id (planned_dep_row env pid ts keys i e) = dict_get_default keys (snd e) 0"
  "dep_policy (planned_dep_row env pid ts keys i e) = Hard"
  "dep_state_of (planned_dep_row env pid ts keys i e) = DEP_UNSATISFIED"
  by (simp_all add: planned_task_row_def planned_dep_row_def case_prod_unfold)

definition plan_task_rows :: "env \<Rightarrow> organization_run \<Rightarrow> nat \<Rightarrow> planned_task list \<Rightarrow> task list" where
  "plan_task_rows env run pid ts = map2 (planned_task_row env run pid) [Suc pid..<Suc pid + length ts] ts"

definition plan_dep_rows :: "env \<Rightarrow> nat \<Rightarrow> planned_task list \<Rightarrow> (string, nat) dict \<Rightarrow> task_dependency list" where
  "plan_dep_rows env pid ts keys = map2 (planned_dep_row env pid ts keys)
     [Suc pid + length ts..<Suc pid + length ts + length (plan_edges ts)] (plan_edges ts)"

definition key_id :: "(string, nat) dict \<Rightarrow> string \<Rightarrow> nat" where
  "key_id keys k = dict_get_default keys k 0"

definition indexed :: "nat \<Rightarrow> planned_task list \<Rightarrow> (string, nat) dict \<Rightarrow> bool" where
  "indexed pid ts keys \<longleftrightarrow> (\<forall>i < length ts. key_id keys (pt_key (ts ! i)) = Suc pid + i)"

lemma persist_plan_rows:
  assumes "persist_plan env run p d = (pid, d')" "distinct (map pt_key (gp_tasks p))"
  obtains keys where "pid = db_next_id d" "indexed pid (gp_tasks p) keys"
    "db_tasks d' = db_tasks d @ plan_task_rows env run pid (gp_tasks p)"
    "db_deps d' = db_deps d @ plan_dep_rows env pid (gp_tasks p) keys"
proof -
  define d2 where "d2 = set_run (run_id run) (\<lambda>r. r\<lparr>run_plan_id := Some (db_next_id d), run_updated_at := e_now env\<rparr>)
    (d\<lparr>db_plans := db_plans d @
            [\<lparr>plan_id = db_next_id d, plan_run_id = run_id run,
              plan_objective_classification = take 80 (gp_objective_classification p),
              plan_departments = gp_departments p,
              plan_safety_chain = filter (plans_capability p) SAFETY_ORDER,
              plan_approval_required = gp_approval_required p, plan_created_at = e_now env\<rparr>],
            db_next_id := Suc (db_next_id d)\<rparr>)"
  obtain keys d3 where st: "foldl (insert_task env run (db_next_id d)) ([], d2) (gp_tasks p) = (keys, d3)" by fastforce
  have p: "pid = db_next_id d" "d' = foldl (insert_dep env pid (gp_tasks p) keys) d3 (plan_edges (gp_tasks p))"
    using assms(1) st by (auto simp: persist_plan_def Let_def d2_def)
  have n: "db_next_id d2 = Suc pid" "db_tasks d2 = db_tasks d" "db_deps d2 = db_deps d" by (simp_all add: d2_def p(1))
  note t = insert_tasks[OF st, unfolded n p(1)[symmetric]]
  show thesis
  proof (rule that[of keys])
    show "indexed pid (gp_tasks p) keys" using t(2)[OF assms(2)] by (simp add: indexed_def key_id_def dict_get_default_def)
  qed (unfold p(2) insert_deps t(1) plan_task_rows_def plan_dep_rows_def, simp_all add: n p(1) del: upt_Suc)
qed

lemma plan_task_rows_set:
  assumes "indexed pid ts keys"
  shows "set (plan_task_rows env run pid ts) = (\<lambda>t. planned_task_row env run pid (key_id keys (pt_key t)) t) ` set ts"
proof -
  have "plan_task_rows env run pid ts = map (\<lambda>t. planned_task_row env run pid (key_id keys (pt_key t)) t) ts"
    by (rule nth_equalityI) (use assms in \<open>simp_all add: plan_task_rows_def indexed_def del: upt_Suc\<close>)
  then show ?thesis by simp
qed

lemma plan_task_rows_ids: "map task_id (plan_task_rows env run pid ts) = [Suc pid..<Suc pid + length ts]"
  by (rule nth_equalityI) (simp_all add: plan_task_rows_def del: upt_Suc)

lemma plan_dep_rows_edges:
  "(\<lambda>e. (dep_dependent_task_id e, dep_prerequisite_task_id e)) ` set (plan_dep_rows env pid ts keys)
     = map_prod (key_id keys) (key_id keys) ` depends ts"
  "e \<in> set (plan_dep_rows env pid ts keys) \<Longrightarrow> dep_policy e = Hard \<and> dep_state_of e = DEP_UNSATISFIED"
proof -
  have "map (\<lambda>e. (dep_dependent_task_id e, dep_prerequisite_task_id e)) (plan_dep_rows env pid ts keys)
      = map (\<lambda>(t, k). (key_id keys (pt_key t), key_id keys k)) (plan_edges ts)"
    by (rule nth_equalityI) (simp_all add: plan_dep_rows_def key_id_def case_prod_unfold del: upt_Suc)
  from arg_cong[OF this, of set]
  show "(\<lambda>e. (dep_dependent_task_id e, dep_prerequisite_task_id e)) ` set (plan_dep_rows env pid ts keys)
     = map_prod (key_id keys) (key_id keys) ` depends ts"
    by (force simp: plan_edges_def depends_def)
  show "e \<in> set (plan_dep_rows env pid ts keys) \<Longrightarrow> dep_policy e = Hard \<and> dep_state_of e = DEP_UNSATISFIED"
    by (auto simp: plan_dep_rows_def in_set_conv_nth simp del: upt_Suc)
qed

lemma finite_depends: "finite (depends ts)"
proof -
  have "depends ts = (\<Union>t \<in> set ts. (\<lambda>k. (pt_key t, k)) ` set (pt_depends_on t))" by (auto simp: depends_def)
  then show ?thesis by simp
qed

lemma plan_dep_rows_acyclic:
  assumes "indexed pid ts keys" "acyclic (depends ts)" "\<And>t. t \<in> set ts \<Longrightarrow> set (pt_depends_on t) \<subseteq> pt_key ` set ts"
  shows "acyclic (map_prod (key_id keys) (key_id keys) ` depends ts)"
proof (rule wf_acyclic, rule wf_subset)
  have "wf (depends ts)" using assms(2) finite_depends by (intro finite_acyclic_wf)
  then show "wf (inv_image (depends ts) (\<lambda>j. pt_key (ts ! (j - Suc pid))))" by (rule wf_inv_image)
  have key_back: "pt_key (ts ! (key_id keys (pt_key t) - Suc pid)) = pt_key t" if "t \<in> set ts" for t
    using that assms(1) by (auto simp: in_set_conv_nth indexed_def)
  show "map_prod (key_id keys) (key_id keys) ` depends ts \<subseteq> inv_image (depends ts) (\<lambda>j. pt_key (ts ! (j - Suc pid)))"
  proof
    fix x assume "x \<in> map_prod (key_id keys) (key_id keys) ` depends ts"
    then obtain t k where t: "x = (key_id keys (pt_key t), key_id keys k)" "t \<in> set ts" "k \<in> set (pt_depends_on t)"
      by (auto simp: depends_def)
    then obtain c where c: "c \<in> set ts" "k = pt_key c" using assms(3) by blast
    show "x \<in> inv_image (depends ts) (\<lambda>j. pt_key (ts ! (j - Suc pid)))"
      using t c key_back[OF t(2)] key_back[OF c(1)] by (auto simp: depends_def)
  qed
qed

section \<open>What generate_plan guarantees\<close>

lemma plan_attempts_created:
  assumes "plan_attempts env propose run registry n err d = (PlanCreated pid, d')"
  shows "\<exists>p q d1. check_plan registry p = Inr q \<and> persist_plan env run q d = (pid, d1)
    \<and> db_tasks d' = db_tasks d1 \<and> db_deps d' = db_deps d1"
  using assms
proof (induction n arbitrary: err)
  case (Suc n)
  show ?case
  proof (cases "propose (MAX_PLAN_ATTEMPTS - n) err")
    case (Inl exc)
    then show ?thesis using Suc by simp
  next
    case (Inr p)
    show ?thesis
    proof (cases "check_plan registry p")
      case Inl': (Inl e)
      then show ?thesis using Suc Inr by (simp split: if_splits)
    next
      case Inr': (Inr q)
      then show ?thesis using Suc.prems Inr
        by (intro exI[of _ p] exI[of _ q] exI[of _ "snd (persist_plan env run q d)"])
          (auto simp: case_prod_unfold Let_def split: if_splits)
    qed
  qed
qed simp

lemma scaffolded_context:
  "\<exists>k. \<forall>t \<in> set (gp_tasks (scaffolded registry p)). pt_capability t \<in> set STRATEGY_CAPS \<longrightarrow>
     k \<in> set (pt_depends_on t)
     \<and> (\<exists>c \<in> set (gp_tasks (scaffolded registry p)). pt_key c = k \<and> pt_capability c = ''context_assembly'')"
proof -
  let ?r = "ensure_research_scaffold registry p"
  have sub: "set (gp_tasks ?r) \<subseteq> set (gp_tasks (scaffolded registry p))"
    and new: "t \<in> set (gp_tasks ?r) \<or> pt_capability t \<notin> set STRATEGY_CAPS" if "t \<in> set (gp_tasks (scaffolded registry p))" for t
    using that by (auto simp: scaffolded_def ensure_adhoc_scaffold_def add_task_def Let_def STRATEGY_CAPS_def
        split: if_splits)
  obtain k where "\<forall>t \<in> set (gp_tasks ?r). pt_capability t \<in> set STRATEGY_CAPS \<longrightarrow> k \<in> set (pt_depends_on t)
     \<and> (\<exists>c \<in> set (gp_tasks ?r). pt_key c = k \<and> pt_capability c = ''context_assembly'')"
    using research_scaffold_context[of registry p] by (auto simp: Let_def)
  then show ?thesis using sub new by (intro exI[of _ k]) blast
qed

lemma known_agents_declare:
  assumes "dict_get (known_agents_of (snapshot d)) ag = Some caps" "cap \<in> set caps"
  shows "declares ag cap \<and> is_agent_enabled d ag"
proof -
  have "(ag, caps) \<in> set (known_agents_of (snapshot d))" using assms(1) by (rule map_of_SomeD)
  then show ?thesis using assms(2) by (auto simp: known_agents_of_def snapshot_def)
qed

text \<open>C3. A plan that is persisted is sound. When planning reports a plan, it has added tasks of the
  run, all planned, with distinct fresh ids, each given to an agent that was enabled and declares
  the task's capability; it has added unsatisfied hard dependencies between those tasks only, and
  they have no cycle; and every task that generates, researches or implements a strategy waits for
  a task that assembles the research context. This holds whatever the language model proposed.\<close>
theorem generated_plan_sound:
  assumes "generate_plan env propose run d = (PlanCreated pid, d')"
  shows "\<exists>ts es. db_tasks d' = db_tasks d @ ts \<and> db_deps d' = db_deps d @ es \<and> ts \<noteq> []
    \<and> distinct (map task_id ts)
    \<and> (\<forall>t \<in> set ts. db_next_id d < task_id t \<and> task_run_id t = run_id run \<and> task_plan_id t = pid
         \<and> task_status_of t = TASK_PLANNED \<and> declares (task_assigned_agent t) (task_capability t)
         \<and> is_agent_enabled d (task_assigned_agent t))
    \<and> (\<forall>e \<in> set es. dep_policy e = Hard \<and> dep_state_of e = DEP_UNSATISFIED
         \<and> dep_dependent_task_id e \<in> task_id ` set ts \<and> dep_prerequisite_task_id e \<in> task_id ` set ts)
    \<and> acyclic ((\<lambda>e. (dep_dependent_task_id e, dep_prerequisite_task_id e)) ` set es)
    \<and> (\<forall>t \<in> set ts. task_capability t \<in> set STRATEGY_CAPS \<longrightarrow>
         (\<exists>e \<in> set es. \<exists>c \<in> set ts. dep_dependent_task_id e = task_id t
            \<and> dep_prerequisite_task_id e = task_id c \<and> task_capability c = ''context_assembly''))"
proof -
  obtain p q d1 where pq: "check_plan (snapshot d) p = Inr q" "persist_plan env run q d = (pid, d1)"
    "db_tasks d' = db_tasks d1" "db_deps d' = db_deps d1"
    using plan_attempts_created assms unfolding generate_plan_def by blast
  let ?known = "known_agents_of (snapshot d)" and ?ts = "gp_tasks q"
  have v: "validate ?ts ?known = Inr ()" and q: "q = scaffolded (snapshot d) p"
    using pq(1) by (auto simp: check_plan_def Let_def split: sum.splits)
  note v = v[unfolded validate_iff]
  obtain keys where rows: "pid = db_next_id d" "indexed pid ?ts keys"
    "db_tasks d1 = db_tasks d @ plan_task_rows env run pid ?ts"
    "db_deps d1 = db_deps d @ plan_dep_rows env pid ?ts keys"
    using persist_plan_rows[OF pq(2)] v by metis
  let ?rts = "plan_task_rows env run pid ?ts" and ?res = "plan_dep_rows env pid ?ts keys"
  let ?row = "\<lambda>t. planned_task_row env run pid (key_id keys (pt_key t)) t"
  note rts = plan_task_rows_set[OF rows(2), of env run] and edges = plan_dep_rows_edges[where env = env and pid = pid and ts = ?ts and keys = keys]
  have big: "pid < task_id u" if "u \<in> set ?rts" for u
    using imageI[OF that, of task_id] arg_cong[OF plan_task_rows_ids[of env run pid ?ts], of set] by auto
  have ids: "key_id keys k \<in> task_id ` set ?rts" if "k \<in> pt_key ` set ?ts" for k
    using that by (force simp: rts)
  have task: "db_next_id d < task_id u \<and> task_run_id u = run_id run \<and> task_plan_id u = pid
         \<and> task_status_of u = TASK_PLANNED \<and> declares (task_assigned_agent u) (task_capability u)
         \<and> is_agent_enabled d (task_assigned_agent u)" if u: "u \<in> set ?rts" for u
  proof -
    obtain t where t: "t \<in> set ?ts" "u = ?row t" using u by (auto simp: rts)
    then obtain caps where "dict_get ?known (pt_assigned_agent t) = Some caps" "pt_capability t \<in> set caps" using v by blast
    then show ?thesis using known_agents_declare t(2) big[OF u] rows(1) by auto
  qed
  have dep: "dep_policy e = Hard \<and> dep_state_of e = DEP_UNSATISFIED
         \<and> dep_dependent_task_id e \<in> task_id ` set ?rts \<and> dep_prerequisite_task_id e \<in> task_id ` set ?rts"
    if e: "e \<in> set ?res" for e
  proof -
    have "(dep_dependent_task_id e, dep_prerequisite_task_id e) \<in> map_prod (key_id keys) (key_id keys) ` depends ?ts"
      unfolding edges(1)[symmetric] using e by blast
    then obtain t k where "t \<in> set ?ts" "k \<in> set (pt_depends_on t)" "dep_dependent_task_id e = key_id keys (pt_key t)"
      "dep_prerequisite_task_id e = key_id keys k" by (auto simp: depends_def)
    moreover from this have "k \<in> pt_key ` set ?ts" using v by blast
    ultimately show ?thesis using edges(2)[OF e] ids by simp
  qed
  have ctx: "\<exists>e \<in> set ?res. \<exists>c \<in> set ?rts. dep_dependent_task_id e = task_id u
            \<and> dep_prerequisite_task_id e = task_id c \<and> task_capability c = ''context_assembly''"
    if u: "u \<in> set ?rts" "task_capability u \<in> set STRATEGY_CAPS" for u
  proof -
    obtain t where t: "t \<in> set ?ts" "u = ?row t" using u(1) by (auto simp: rts)
    then have "pt_capability t \<in> set STRATEGY_CAPS" using u(2) by simp
    then obtain k c where k: "k \<in> set (pt_depends_on t)" "c \<in> set ?ts" "pt_key c = k" "pt_capability c = ''context_assembly''"
      using scaffolded_context[of "snapshot d" p] t(1) q by blast
    then have "(pt_key t, k) \<in> depends ?ts" using t(1) by (auto simp: depends_def)
    then have "(key_id keys (pt_key t), key_id keys k) \<in>
        (\<lambda>e. (dep_dependent_task_id e, dep_prerequisite_task_id e)) ` set ?res"
      unfolding edges(1) by force
    then obtain e where "e \<in> set ?res" "dep_dependent_task_id e = task_id u" "dep_prerequisite_task_id e = key_id keys k"
      using t(2) by auto
    moreover have "?row c \<in> set ?rts" using k(2) by (simp add: rts)
    ultimately show ?thesis using k(3,4) by (intro bexI[of _ e] bexI[of _ "?row c"]) simp_all
  qed
  have "acyclic ((\<lambda>e. (dep_dependent_task_id e, dep_prerequisite_task_id e)) ` set ?res)"
    unfolding edges(1) using v by (intro plan_dep_rows_acyclic[OF rows(2)]) blast+
  moreover have "?rts \<noteq> []" using v rts by (metis image_is_empty set_empty)
  moreover have "distinct (map task_id ?rts)" unfolding plan_task_rows_ids by simp
  ultimately show ?thesis using task dep ctx pq(3,4) rows(3,4)
    by (intro exI[of _ ?rts] exI[of _ ?res] conjI ballI impI) (blast | simp)+
qed

theorem generated_plan_sound_witness:
  "\<exists>d' ts. generate_plan sample_env (\<lambda>_ _. Inr (sample_plan [sample_planned ''n'' ''news_ingestion'' ''news_agent'' []]))
      (sample_run 9 RUN_PLANNING) empty_db = (PlanCreated 1, d')
    \<and> db_tasks d' = ts \<and> ts \<noteq> [] \<and> distinct (map task_id ts)"
proof -
  let ?ts = "[sample_planned ''n'' ''news_ingestion'' ''news_agent'' []]"
  let ?gen = "generate_plan sample_env (\<lambda>_ _. Inr (sample_plan ?ts)) (sample_run 9 RUN_PLANNING) empty_db"
  have known: "dict_get (known_agents_of (snapshot empty_db)) ''news_agent'' = Some [''news_ingestion'']"
    by (simp add: known_agents_of_def snapshot_def KNOWN_AGENTS_def agent_def snapshot_row_def Let_def
        is_agent_enabled_def control_row_def empty_db_def AGENT_META_def meta_def AUDIT_AGENT_NAME_def)
  have "check_plan (snapshot empty_db) (sample_plan ?ts) = Inr (sample_plan ?ts)"
    using known by (simp add: check_plan_def Let_def validate_def check_task_def sample_planned_def
        assert_acyclic_def plan_graph_def assert_safety_order_def safety_keys_def SAFETY_ORDER_def
        scaffolded_def ensure_adhoc_scaffold_def ensure_research_scaffold_def STRATEGY_CAPS_def
        ADHOC_OBJECTIVE_KINDS_def sample_plan_def)
  then have "fst ?gen = PlanCreated (fst (persist_plan sample_env (sample_run 9 RUN_PLANNING) (sample_plan ?ts) empty_db))"
    by (simp add: generate_plan_def MAX_PLAN_ATTEMPTS_def numeral_3_eq_3 sample_plan_def
        violates_edge_uniqueness_def sample_planned_def case_prod_unfold Let_def)
  then have g: "?gen = (PlanCreated 1, snd ?gen)"
    by (simp add: persist_plan_def Let_def case_prod_unfold empty_db_def prod_eq_iff)
  from generated_plan_sound[OF g] show ?thesis using g by (auto simp: empty_db_def)
qed

end
