(* ===== verification/RunManager.thy ===== *)
theory RunManager
  imports SchedulerLoop Planner
begin

text \<open>
  The life of a run (\<open>src/orchestration/run_manager.py\<close>): admission under the concurrency cap,
  planning, promotion from the queue, settling after an approval, recovery after a restart, and
  cancellation (\<open>cancel_run\<close> of \<open>src/api/routers/organization.py\<close>). A detached thread is an
  operation of its own; its start is the returned run id.
\<close>

section \<open>Admission\<close>

definition active_run_count :: "db \<Rightarrow> nat" where
  "active_run_count d = length (filter (\<lambda>r. active_run (run_status_of r)) (db_runs d))"

definition queued_runs :: "db \<Rightarrow> organization_run list" where
  "queued_runs d = filter (\<lambda>r. run_status_of r = RUN_QUEUED) (db_runs d)"

definition create_run ::
  "env \<Rightarrow> string \<Rightarrow> run_source \<Rightarrow> string option \<Rightarrow> nat \<Rightarrow> bool \<Rightarrow> db \<Rightarrow> organization_run \<times> bool \<times> db" where
  "create_run env objective source requested_by tenant autostart d =
    (let at_capacity = active_run_count d \<ge> e_org_max_concurrent_runs env;
         position = (if at_capacity then Some (length (queued_runs d) + 1) else None);
         run = \<lparr>run_id = db_next_id d, run_tenant_id = tenant, run_objective = objective,
           run_source_of = source, run_requested_by = requested_by,
           run_status_of = (if at_capacity then RUN_QUEUED else RUN_PLANNING),
           run_queue_position = position, run_plan_id = None,
           run_thread_id = ''org-'' @ uuid_str (Suc (db_next_id d)), run_result_summary = None,
           run_started_at = None, run_ended_at = None, run_created_at = e_now env,
           run_updated_at = e_now env\<rparr>;
         d1 = d\<lparr>db_runs := db_runs d @ [run], db_next_id := Suc (Suc (db_next_id d))\<rparr>;
         d2 = snd (emit env (run_id run)
                (if at_capacity then ''organization.run.queued'' else ''organization.run.planning'')
                ''run'' (Some (run_id run))
                (JObj [(''objective'', JStr objective), (''source'', JStr (source_value source)),
                       (''queue_position'', opt_json (\<lambda>n. JInt (int n)) position)]) True d1)
     in (run, autostart \<and> \<not> at_capacity, d2))"

section \<open>Planning a run\<close>

definition close_crashed_run :: "env \<Rightarrow> nat \<Rightarrow> db \<Rightarrow> db" where
  "close_crashed_run env rid d =
    (case get_run d rid of
       None \<Rightarrow> d
     | Some r \<Rightarrow>
        if run_status_of r \<in> {RUN_CANNOT_PLAN, RUN_FAILED} then d
        else set_run rid (\<lambda>r. r\<lparr>run_status_of := RUN_FAILED, run_ended_at := Some (e_now env)\<rparr>) d)"

definition plan_run :: "nat \<Rightarrow> env \<Rightarrow> (nat \<Rightarrow> string \<Rightarrow> string + generated_plan) \<Rightarrow> nat \<Rightarrow> db \<Rightarrow> db option" where
  "plan_run fuel env propose rid d =
    (case get_run d rid of
       None \<Rightarrow> Some d
     | Some run \<Rightarrow>
        if run_status_of run \<noteq> RUN_PLANNING then Some d
        else
          (let (outcome, d1) = generate_plan env propose run d in
           case outcome of
             PlanCrashed \<Rightarrow> Some (close_crashed_run env rid d1)
           | _ \<Rightarrow>
              (case get_run d1 rid of
                 Some run1 \<Rightarrow> if run_status_of run1 = RUN_PLANNING then run_scheduler_loop fuel env rid d1
                             else Some d1
               | None \<Rightarrow> Some d1)))"

section \<open>Settling after an approval\<close>

definition settle_run_after_approval :: "env \<Rightarrow> nat \<Rightarrow> db \<Rightarrow> db" where
  "settle_run_after_approval env rid d =
    (case get_run d rid of
       None \<Rightarrow> d
     | Some run \<Rightarrow>
        if terminal_run (run_status_of run) then d
        else if has_pending_approval d rid then d
        else if list_ex (\<lambda>t. \<not> terminal_task (task_status_of t)) (run_tasks d rid) then d
        else snd (emit env rid ''organization.run.completed'' ''run'' (Some rid)
               (JObj [(''settled_by'', JStr ''approval_decision'')]) True
               (set_run rid (\<lambda>r. r\<lparr>run_status_of := RUN_COMPLETED, run_ended_at := Some (e_now env),
                  run_updated_at := e_now env\<rparr>) d)))"

section \<open>Promotion\<close>

definition oldest_queued :: "db \<Rightarrow> organization_run option" where
  "oldest_queued d = (case sort_key run_created_at (queued_runs d) of [] \<Rightarrow> None | r # _ \<Rightarrow> Some r)"

definition promote_one :: "env \<Rightarrow> nat \<Rightarrow> db \<Rightarrow> db" where
  "promote_one env rid d = set_run rid (\<lambda>r. r\<lparr>run_status_of := RUN_PLANNING, run_queue_position := None,
     run_updated_at := e_now env\<rparr>) d"

lemma oldest_queued_in: "oldest_queued d = Some r \<Longrightarrow> r \<in> set (db_runs d) \<and> run_status_of r = RUN_QUEUED"
proof -
  assume "oldest_queued d = Some r"
  then obtain rs where "sort_key run_created_at (queued_runs d) = r # rs"
    by (auto simp: oldest_queued_def split: list.splits)
  then have "r \<in> set (queued_runs d)" by (metis list.set_intros(1) set_sort)
  then show ?thesis by (simp add: queued_runs_def)
qed

lemma promote_one_queue:
  assumes "r \<in> set (db_runs d)" "run_status_of r = RUN_QUEUED"
  shows "length (queued_runs (promote_one env (run_id r) d)) < length (queued_runs d)"
proof -
  let ?P = "\<lambda>r. run_status_of r = RUN_QUEUED" and ?Q = "\<lambda>x. run_id x = run_id r"
  let ?f = "\<lambda>r. r\<lparr>run_status_of := RUN_PLANNING, run_queue_position := None, run_updated_at := e_now env\<rparr>"
  have le: "length (filter ?P (update_where ?Q ?f xs)) \<le> length (filter ?P xs)" for xs
    by (induction xs) auto
  have "length (filter ?P (update_where ?Q ?f xs)) < length (filter ?P xs)" if "r \<in> set xs" for xs
    using that
  proof (induction xs)
    case (Cons x xs)
    then show ?case using le[of xs] assms(2) by (auto simp: less_Suc_eq_le)
  qed simp
  then show ?thesis using assms by (simp add: queued_runs_def promote_one_def set_run_def)
qed

function promote_queued :: "env \<Rightarrow> db \<Rightarrow> nat list \<times> db" where
  "promote_queued env d =
    (if active_run_count d < e_org_max_concurrent_runs env then
       (case oldest_queued d of
          None \<Rightarrow> ([], d)
        | Some nxt \<Rightarrow>
           (let (started, d') = promote_queued env (promote_one env (run_id nxt) d)
            in (run_id nxt # started, d')))
     else ([], d))"
  by auto
termination
  by (relation "measure (\<lambda>(env, d). length (queued_runs d))")
    (auto dest!: oldest_queued_in intro: promote_one_queue)

declare promote_queued.simps [simp del]

section \<open>Recovery after a restart\<close>

definition reset_running_task :: "task \<Rightarrow> task" where
  "reset_running_task t =
    (if is_concurrency_safe (task_capability t)
     then t\<lparr>task_status_of := TASK_READY, task_started_at := None\<rparr>
     else t\<lparr>task_status_of := TASK_FAILED,
            task_failure_reason := Some ''process restarted mid-execution; not safely re-runnable''\<rparr>)"

definition reset_run_tasks :: "db \<Rightarrow> organization_run \<Rightarrow> db" where
  "reset_run_tasks d run =
    d\<lparr>db_tasks := update_where (\<lambda>t. task_run_id t = run_id run \<and> task_status_of t = TASK_RUNNING)
        reset_running_task (db_tasks d)\<rparr>"

definition stuck_runs :: "db \<Rightarrow> organization_run list" where
  "stuck_runs d = filter (\<lambda>r. active_run (run_status_of r)) (db_runs d)"

text \<open>The runs to resume, the runs promoted to planning, and the database.\<close>
definition reap_incomplete_runs :: "env \<Rightarrow> db \<Rightarrow> nat list \<times> nat list \<times> db" where
  "reap_incomplete_runs env d =
    (let d1 = foldl reset_run_tasks d (stuck_runs d);
         (promoted, d2) = promote_queued env d1
     in (map run_id (stuck_runs d), promoted, d2))"

definition resume_reaped_run ::
  "nat \<Rightarrow> env \<Rightarrow> (nat \<Rightarrow> string \<Rightarrow> string + generated_plan) \<Rightarrow> nat \<Rightarrow> db \<Rightarrow> db option" where
  "resume_reaped_run fuel env propose rid d =
    (case map_option run_status_of (get_run d rid) of
       Some RUN_PLANNING \<Rightarrow> plan_run fuel env propose rid d
     | Some s \<Rightarrow> if s \<in> {RUN_RUNNING, RUN_WAITING, RUN_STALLED} then run_scheduler_loop fuel env rid d
                else Some d
     | None \<Rightarrow> Some d)"

section \<open>Cancellation\<close>

datatype cancel_error = RunNotFound | RunAlreadyClosed run_status

definition cancel_tasks :: "nat \<Rightarrow> db \<Rightarrow> db" where
  "cancel_tasks rid d = d\<lparr>db_tasks := update_where
     (\<lambda>t. task_run_id t = rid \<and> task_status_of t \<notin> {TASK_COMPLETED, TASK_FAILED, TASK_CANCELLED})
     (set_status TASK_CANCELLED) (db_tasks d)\<rparr>"

definition cancel_run :: "nat \<Rightarrow> db \<Rightarrow> cancel_error + db" where
  "cancel_run rid d =
    (case get_run d rid of
       None \<Rightarrow> Inl RunNotFound
     | Some run \<Rightarrow>
        if run_status_of run \<in> {RUN_COMPLETED, RUN_FAILED, RUN_CANCELLED} then Inl (RunAlreadyClosed (run_status_of run))
        else Inr (cancel_tasks rid (set_run rid (\<lambda>r. r\<lparr>run_status_of := RUN_CANCELLED\<rparr>) d)))"

section \<open>The logs survive\<close>

lemma create_run_conserves [conserving]:
  "conserves env d0 d \<Longrightarrow> conserves env d0 (snd (snd (create_run env ob src rb tn au d)))"
  unfolding create_run_def Let_def snd_conv by (rule conserves_emit, erule conserves_insert) simp_all

lemma close_crashed_run_conserves [conserving]:
  "conserves env d0 d \<Longrightarrow> conserves env d0 (close_crashed_run env rid d)"
  by (auto simp: close_crashed_run_def intro: conserves_setters split: option.split)

lemma settle_conserves [conserving]:
  "conserves env d0 d \<Longrightarrow> conserves env d0 (settle_run_after_approval env rid d)"
  by (auto simp: settle_run_after_approval_def intro!: conserves_emit conserves_setters split: option.split)

lemma promote_queued_conserves [conserving]:
  "conserves env d0 d \<Longrightarrow> conserves env d0 (snd (promote_queued env d))"
proof (induction env d rule: promote_queued.induct)
  case (1 env d)
  then show ?case
    by (subst promote_queued.simps)
      (auto simp: case_prod_unfold Let_def promote_one_def intro: conserves_setters split: option.split)
qed

lemma reap_conserves [conserving]:
  assumes "conserves env d0 d"
  shows "conserves env d0 (snd (snd (reap_incomplete_runs env d)))"
proof -
  have "conserves env d0 (foldl reset_run_tasks d rs)" for rs
    by (rule foldl_invariant[of "conserves env d0"]) (use assms in \<open>auto simp: reset_run_tasks_def elim!: conserves_insert\<close>)
  then show ?thesis by (simp add: reap_incomplete_runs_def case_prod_unfold Let_def promote_queued_conserves)
qed

lemma cancel_run_conserves: "cancel_run rid d = Inr d' \<Longrightarrow> conserves env d0 d \<Longrightarrow> conserves env d0 d'"
  by (auto simp: cancel_run_def cancel_tasks_def intro!: conserves_setters elim!: conserves_insert
      split: option.splits if_splits)

lemma plan_run_conserves:
  assumes "plan_run fuel env propose rid d = Some d'" "conserves env d0 d"
  shows "conserves env d0 d'"
proof -
  have "conserves env d0 (snd (generate_plan env propose run d))" for run by (rule generate_plan_conserves[OF assms(2)])
  then show ?thesis using assms
    by (auto simp: plan_run_def case_prod_unfold Let_def close_crashed_run_conserves
        intro: run_scheduler_loop_conserves split: option.splits if_splits plan_outcome.splits)
qed

lemma resume_conserves:
  "resume_reaped_run fuel env propose rid d = Some d' \<Longrightarrow> conserves env d0 d \<Longrightarrow> conserves env d0 d'"
  by (auto simp: resume_reaped_run_def intro: run_scheduler_loop_conserves plan_run_conserves
      split: option.splits run_status.splits if_splits)

section \<open>Promotion is first come, first served, up to the cap\<close>

lemma update_where_distinct:
  assumes "distinct (map key rows)" "r \<in> set rows"
  shows "update_where (\<lambda>x. key x = key r) f rows = map (\<lambda>x. if x = r then f x else x) rows"
proof -
  have "key x = key r \<longleftrightarrow> x = r" if "x \<in> set rows" for x
    using that assms by (auto simp: distinct_map dest: inj_onD)
  then show ?thesis by (auto simp: update_where_def)
qed

lemma promote_one_effect:
  assumes "distinct (map run_id (db_runs d))" "r \<in> set (db_runs d)" "run_status_of r = RUN_QUEUED"
  shows "queued_runs (promote_one env (run_id r) d) = filter (\<lambda>x. x \<noteq> r) (queued_runs d)"
    and "active_run_count (promote_one env (run_id r) d) = Suc (active_run_count d)"
    and "map run_id (db_runs (promote_one env (run_id r) d)) = map run_id (db_runs d)"
proof -
  let ?f = "\<lambda>r. r\<lparr>run_status_of := RUN_PLANNING, run_queue_position := None, run_updated_at := e_now env\<rparr>"
  have runs: "db_runs (promote_one env (run_id r) d) = map (\<lambda>x. if x = r then ?f x else x) (db_runs d)"
    using update_where_distinct[OF assms(1,2), of ?f] by (simp add: promote_one_def set_run_def)
  have q: "filter (\<lambda>x. run_status_of x = RUN_QUEUED) (map (\<lambda>x. if x = r then ?f x else x) xs)
      = filter (\<lambda>x. x \<noteq> r) (filter (\<lambda>x. run_status_of x = RUN_QUEUED) xs)" for xs
    by (induction xs) (auto simp: assms(3))
  show "queued_runs (promote_one env (run_id r) d) = filter (\<lambda>x. x \<noteq> r) (queued_runs d)"
    unfolding queued_runs_def runs q ..
  have "length (filter (\<lambda>x. active_run (run_status_of x)) (map (\<lambda>x. if x = r then ?f x else x) xs))
      = (if r \<in> set xs then 1 else 0) + length (filter (\<lambda>x. active_run (run_status_of x)) xs)"
    if "distinct xs" for xs using that by (induction xs) (auto simp: assms(3) active_run_def)
  then show "active_run_count (promote_one env (run_id r) d) = Suc (active_run_count d)"
    using assms(1,2) by (simp add: active_run_count_def runs distinct_map)
  show "map run_id (db_runs (promote_one env (run_id r) d)) = map run_id (db_runs d)"
    by (simp add: runs comp_def if_distrib cong: if_cong)
qed

lemma queued_head:
  assumes "distinct (map run_id (db_runs d))" "sort_key run_created_at (queued_runs d) = r # rs"
  shows "sort_key run_created_at (filter (\<lambda>x. x \<noteq> r) (queued_runs d)) = rs"
proof -
  have "distinct (queued_runs d)" using assms(1) by (simp add: queued_runs_def distinct_map)
  then have "distinct (r # rs)" using assms(2) by (metis distinct_sort)
  then have "filter (\<lambda>x. x \<noteq> r) (r # rs) = rs" by (auto simp: filter_id_conv)
  then show ?thesis using assms(2) by (metis filter_sort)
qed

lemma promote_queued_effect:
  assumes "distinct (map run_id (db_runs d))"
  shows "fst (promote_queued env d) = map run_id (take (e_org_max_concurrent_runs env - active_run_count d)
          (sort_key run_created_at (queued_runs d)))
    \<and> active_run_count (snd (promote_queued env d)) = active_run_count d + length (fst (promote_queued env d))
    \<and> queued_runs (snd (promote_queued env d)) = filter (\<lambda>r. r \<notin> set (take (e_org_max_concurrent_runs env - active_run_count d)
          (sort_key run_created_at (queued_runs d)))) (queued_runs d)"
  using assms
proof (induction env d rule: promote_queued.induct)
  case (1 env d)
  show ?case
  proof (cases "active_run_count d < e_org_max_concurrent_runs env")
    case True
    show ?thesis
    proof (cases "sort_key run_created_at (queued_runs d)")
      case Nil
      then have "oldest_queued d = None" by (simp add: oldest_queued_def)
      moreover have "queued_runs d = []" using Nil by (metis set_empty set_sort)
      ultimately show ?thesis using True by (simp add: promote_queued.simps[of env d])
    next
      case (Cons r rs)
      then have o: "oldest_queued d = Some r" by (simp add: oldest_queued_def)
      note r = oldest_queued_in[OF o]
      let ?d = "promote_one env (run_id r) d"
      note eff = promote_one_effect[OF 1(2), of r env]
      have q: "queued_runs ?d = filter (\<lambda>x. x \<noteq> r) (queued_runs d)" "active_run_count ?d = Suc (active_run_count d)"
        "distinct (map run_id (db_runs ?d))" using eff r 1(2) by simp_all
      have n: "e_org_max_concurrent_runs env - active_run_count d
          = Suc (e_org_max_concurrent_runs env - active_run_count ?d)" using True q(2) by simp
      note ih = 1(1)[OF True o q(3)]
      note s = queued_head[OF 1(2) Cons]
      have step: "promote_queued env d = (run_id r # fst (promote_queued env ?d), snd (promote_queued env ?d))"
        using True o by (simp add: promote_queued.simps[of env d] case_prod_unfold Let_def)
      show ?thesis unfolding step using ih by (simp add: n Cons s q(1,2) filter_filter conj_commute)
    qed
  qed (simp add: promote_queued.simps[of env d])
qed

text \<open>C28. Promotion fills the free slots in order of age and nothing more. The runs started are exactly
  the oldest queued runs, as many as the cap leaves room for; each becomes active, so the number of
  active runs never exceeds the larger of the cap and what it was, and unless the cap is reached the
  queue is empty afterwards.\<close>
theorem promote_queued_exact:
  assumes "distinct (map run_id (db_runs d))"
  shows "let (started, d') = promote_queued env d; cap = e_org_max_concurrent_runs env in
    started = map run_id (take (cap - active_run_count d) (sort_key run_created_at (queued_runs d)))
    \<and> active_run_count d' = active_run_count d + length started
    \<and> active_run_count d' \<le> max (active_run_count d) cap
    \<and> (active_run_count d' < cap \<longrightarrow> queued_runs d' = [])"
proof -
  note main = promote_queued_effect[OF assms, of env]
  have len: "length (fst (promote_queued env d)) \<le> e_org_max_concurrent_runs env - active_run_count d"
    using main by simp
  have "queued_runs (snd (promote_queued env d)) = []"
    if "active_run_count (snd (promote_queued env d)) < e_org_max_concurrent_runs env"
  proof -
    have "length (queued_runs d) < e_org_max_concurrent_runs env - active_run_count d \<or> queued_runs d = []"
      using main that by (auto simp: min_def split: if_splits)
    then show ?thesis using main by (auto simp: filter_empty_conv)
  qed
  then show ?thesis using main len unfolding Let_def case_prod_unfold by simp
qed

definition two_queued :: db where
  "two_queued = empty_db\<lparr>db_runs := [(sample_run 7 RUN_QUEUED)\<lparr>run_created_at := 5\<rparr>,
     (sample_run 8 RUN_QUEUED)\<lparr>run_created_at := 3\<rparr>, sample_run 9 RUN_RUNNING]\<rparr>"

theorem promote_queued_exact_witness:
  "fst (promote_queued (sample_env\<lparr>e_org_max_concurrent_runs := 2\<rparr>) two_queued) = [8]"
proof -
  have "distinct (map run_id (db_runs two_queued))" by (simp add: two_queued_def sample_run_def)
  from promote_queued_exact[OF this, of "sample_env\<lparr>e_org_max_concurrent_runs := 2\<rparr>"] show ?thesis
    by (simp add: Let_def case_prod_unfold active_run_count_def queued_runs_def two_queued_def active_run_def
        sample_run_def sort_key_def)
qed

section \<open>Admission, recovery and cancellation\<close>

text \<open>A run is admitted to planning exactly when there is room, and never pushes the active runs over
  the cap.\<close>
lemma create_run_admission:
  assumes "create_run env ob src rb tn au d = (run, started, d')"
  shows "db_runs d' = db_runs d @ [run]" "active_run_count d' \<le> max (active_run_count d) (e_org_max_concurrent_runs env)"
    and "run_status_of run = (if active_run_count d < e_org_max_concurrent_runs env then RUN_PLANNING else RUN_QUEUED)"
    and "started \<longleftrightarrow> au \<and> run_status_of run = RUN_PLANNING"
proof -
  show runs: "db_runs d' = db_runs d @ [run]"
    and st: "run_status_of run = (if active_run_count d < e_org_max_concurrent_runs env then RUN_PLANNING else RUN_QUEUED)"
    and "started \<longleftrightarrow> au \<and> run_status_of run = RUN_PLANNING"
    using assms by (auto simp: create_run_def Let_def)
  have "active_run_count d' = active_run_count d + (if run_status_of run = RUN_PLANNING then 1 else 0)"
    using st by (simp add: active_run_count_def runs active_run_def)
  then show "active_run_count d' \<le> max (active_run_count d) (e_org_max_concurrent_runs env)"
    using st by auto
qed

lemma reset_run_tasks_map:
  "db_tasks (foldl reset_run_tasks d rs)
    = map (\<lambda>t. if task_run_id t \<in> run_id ` set rs \<and> task_status_of t = TASK_RUNNING then reset_running_task t else t)
        (db_tasks d)"
proof (induction rs arbitrary: d)
  case (Cons r rs)
  have "task_status_of (reset_running_task t) \<noteq> TASK_RUNNING" "task_run_id (reset_running_task t) = task_run_id t" for t
    by (simp_all add: reset_running_task_def)
  then have "db_tasks (reset_run_tasks d r) = map (\<lambda>t. if task_run_id t = run_id r \<and> task_status_of t = TASK_RUNNING
      then reset_running_task t else t) (db_tasks d)" by (simp add: reset_run_tasks_def update_where_def)
  then show ?case
    using \<open>\<And>t. task_status_of (reset_running_task t) \<noteq> TASK_RUNNING\<close> by (auto simp: Cons)
qed simp

lemma reset_run_tasks_frame [simp]:
  "db_runs (foldl reset_run_tasks d rs) = db_runs d" "db_deps (foldl reset_run_tasks d rs) = db_deps d"
  "db_artefacts (foldl reset_run_tasks d rs) = db_artefacts d"
  by (induction rs arbitrary: d) (simp_all add: reset_run_tasks_def)

lemma promote_queued_frame [simp]:
  "db_tasks (snd (promote_queued env d)) = db_tasks d" "db_deps (snd (promote_queued env d)) = db_deps d"
  "db_artefacts (snd (promote_queued env d)) = db_artefacts d"
  by (induction env d rule: promote_queued.induct;
      subst promote_queued.simps; auto simp: promote_one_def case_prod_unfold Let_def split: option.split)+

text \<open>Recovery after a restart invents no result. Every task keeps its row, except that a running task
  of an active run is set back to ready if its capability is safe to repeat and failed if not; no task
  becomes completed, artefacts are untouched, and the runs to resume are the active ones. The
  dependency edges are untouched too: what waits for a task failed this way is not blocked.\<close>
theorem reap_incomplete_runs_exact:
  "let (resumed, promoted, d') = reap_incomplete_runs env d in
     resumed = map run_id (filter (\<lambda>r. active_run (run_status_of r)) (db_runs d))
   \<and> db_tasks d' = map (\<lambda>t. if task_run_id t \<in> set resumed \<and> task_status_of t = TASK_RUNNING
        then (if is_concurrency_safe (task_capability t)
              then t\<lparr>task_status_of := TASK_READY, task_started_at := None\<rparr>
              else t\<lparr>task_status_of := TASK_FAILED, task_failure_reason :=
                      Some ''process restarted mid-execution; not safely re-runnable''\<rparr>)
        else t) (db_tasks d)
   \<and> db_artefacts d' = db_artefacts d \<and> db_deps d' = db_deps d"
  by (simp add: reap_incomplete_runs_def Let_def case_prod_unfold reset_run_tasks_map stuck_runs_def
      reset_running_task_def)

lemma filter_update_rows:
  "filter (\<lambda>t. task_run_id t = rid) (update_where (\<lambda>t. task_run_id t = rid \<and> P t) (set_status st) ts)
    = map (\<lambda>t. if P t then set_status st t else t) (filter (\<lambda>t. task_run_id t = rid) ts)"
  by (induction ts) simp_all

text \<open>A cancelled run is reported completed. If a run is cancelled while its scheduler loop is at
  work, no task of it had failed, been left without disposition or opened an approval, then closing
  the run sets it from cancelled to completed.\<close>
theorem cancelled_run_is_closed_as_completed:
  assumes "cancel_run rid d = Inr d1" and "\<not> has_status d rid {TASK_FAILED}"
    and "undispositioned_count rid d = 0" and "\<not> has_pending_approval d rid"
  shows "(\<exists>r. get_run d1 rid = Some r \<and> run_status_of r = RUN_CANCELLED)
    \<and> (\<exists>r. get_run (snd (finalize env rid d1)) rid = Some r \<and> run_status_of r = RUN_COMPLETED)"
proof -
  obtain run where run: "get_run d rid = Some run" using assms(1) by (auto simp: cancel_run_def split: option.splits)
  have d1: "d1 = cancel_tasks rid (set_run rid (\<lambda>r. r\<lparr>run_status_of := RUN_CANCELLED\<rparr>) d)"
    using assms(1) run by (auto simp: cancel_run_def split: if_splits)
  have g: "get_run d1 rid = Some (run\<lparr>run_status_of := RUN_CANCELLED\<rparr>)"
    using run get_run_set_run[of "\<lambda>r. r\<lparr>run_status_of := RUN_CANCELLED\<rparr>" rid d rid]
    by (simp add: d1 cancel_tasks_def get_run_def)
  have ended: "s \<in> {TASK_COMPLETED, TASK_CANCELLED}" if s: "has_status d1 rid {s}" for s
  proof -
    have rows: "run_tasks d1 rid = map (\<lambda>u. if task_status_of u \<notin> {TASK_COMPLETED, TASK_FAILED, TASK_CANCELLED}
        then set_status TASK_CANCELLED u else u) (run_tasks d rid)"
      by (simp add: d1 cancel_tasks_def run_tasks_def filter_update_rows)
    from s obtain u where u: "u \<in> set (run_tasks d rid)"
      "s = task_status_of (if task_status_of u \<notin> {TASK_COMPLETED, TASK_FAILED, TASK_CANCELLED}
        then set_status TASK_CANCELLED u else u)"
      unfolding has_status_def rows by auto
    have "task_status_of u \<noteq> TASK_FAILED" using u(1) assms(2) by (auto simp: has_status_def)
    then show ?thesis using u(2) by (auto split: if_splits)
  qed
  have "\<not> has_status d1 rid S" if "\<not> TASK_COMPLETED \<in> S \<and> \<not> TASK_CANCELLED \<in> S" for S
  proof
    assume "has_status d1 rid S"
    then obtain t where t: "t \<in> set (run_tasks d1 rid)" "task_status_of t \<in> S" by (auto simp: has_status_def)
    then have "has_status d1 rid {task_status_of t}" by (auto simp: has_status_def)
    then show False using ended[of "task_status_of t"] t(2) that by auto
  qed
  then have none: "\<not> has_status d1 rid {TASK_READY}" "\<not> has_status d1 rid {s. nonterminal_task s}"
    "\<not> has_status d1 rid {TASK_FAILED, TASK_BLOCKED, TASK_ESCALATED}"
    by (simp_all add: nonterminal_task_def)
  have "undispositioned_count rid d1 = 0" "\<not> has_pending_approval d1 rid"
    using assms(3,4) by (simp_all add: d1 cancel_tasks_def undispositioned_count_def has_pending_approval_def)
  then show ?thesis using finalize_outcome(1)[OF g none(1), of env] none(2,3) g by auto
qed

theorem cancelled_run_is_closed_as_completed_witness:
  "\<exists>d1 r. cancel_run 9 ((chain_db TASK_RUNNING)\<lparr>db_runs := [sample_run 9 RUN_RUNNING]\<rparr>) = Inr d1
    \<and> get_run (snd (finalize sample_env 9 d1)) 9 = Some r \<and> run_status_of r = RUN_COMPLETED"
proof -
  let ?d = "(chain_db TASK_RUNNING)\<lparr>db_runs := [sample_run 9 RUN_RUNNING]\<rparr>"
  obtain d1 where c: "cancel_run 9 ?d = Inr d1" by (simp add: cancel_run_def get_run_def)
  have "\<not> has_status ?d 9 {TASK_FAILED}" by (simp add: has_status_def run_tasks_def chain_db_facts)
  moreover have "undispositioned_count 9 ?d = 0" "\<not> has_pending_approval ?d 9"
    by (simp_all add: undispositioned_count_def has_pending_approval_def chain_db_def empty_db_def)
  ultimately show ?thesis
    using cancelled_run_is_closed_as_completed[OF c, of sample_env] c by blast
qed

end
