(* ===== verification/TaskLife.thy ===== *)
theory TaskLife
  imports RunManager
begin

text \<open>
  Tasks under interleaving. The worker threads of a run, its dispatch threads and the threads the engine
  gave up on after a timeout each act by whole transactions (\<open>src/orchestration/task_engine.py\<close>). The
  step relation below lets them act in any order, each at its own time, and the theorems say which
  changes of a task's status are possible and that no task stays running without a thread that will
  answer for it. The database transaction of a dispatch is taken at its commit.
\<close>

section \<open>Status changes of an operation\<close>

text \<open>Every task keeps its status or goes from one in \<open>S\<close> to one in \<open>T\<close>.\<close>
definition may_become :: "task_status set \<Rightarrow> task_status set \<Rightarrow> task_status option \<Rightarrow> task_status option \<Rightarrow> bool" where
  "may_become S T a b \<longleftrightarrow> b = a \<or> (\<exists>s s'. a = Some s \<and> b = Some s' \<and> s \<in> S \<and> s' \<in> T)"

definition moves :: "task_status set \<Rightarrow> task_status set \<Rightarrow> db \<Rightarrow> db \<Rightarrow> bool" where
  "moves S T d d' \<longleftrightarrow> (\<forall>i. may_become S T (task_state d i) (task_state d' i))"

definition nonterminals :: "task_status set" where "nonterminals = {s. \<not> terminal_task s}"
definition candidates :: "task_status set" where
  "candidates = {TASK_PLANNED, TASK_QUEUED, TASK_READY, TASK_WAITING_FOR_DEPENDENCY, TASK_RETRYING}"

lemma moves_refl [simp]: "moves S T d d"
  by (simp add: moves_def may_become_def)

lemma may_become_trans: "may_become S T a b \<Longrightarrow> may_become S T b c \<Longrightarrow> may_become S T a c"
  by (auto simp: may_become_def)

lemma moves_trans: "moves S T d1 d2 \<Longrightarrow> moves S T d2 d3 \<Longrightarrow> moves S T d1 d3"
  unfolding moves_def by (blast intro: may_become_trans)

lemma moves_same: "(\<And>i. task_state d' i = task_state d i) \<Longrightarrow> moves S T d d'"
  by (simp add: moves_def may_become_def)

lemma moves_set_task:
  assumes "\<And>t. task_id (f t) = task_id t"
    and "\<And>t. get_task d i = Some t \<Longrightarrow> task_status_of (f t) = task_status_of t \<or> task_status_of t \<in> S \<and> task_status_of (f t) \<in> T"
  shows "moves S T d (set_task i f d)"
  unfolding moves_def
proof
  fix j
  show "may_become S T (task_state d j) (task_state (set_task i f d) j)"
    using assms by (cases "get_task d j") (auto simp: task_state_set_task task_state_def may_become_def)
qed

lemma moves_frame [simp]:
  "moves S T d (snd (emit env rid et st sid p a d')) = moves S T d d'"
  "moves S T d (set_dep j f1 d') = moves S T d d'" "moves S T d (set_run j f2 d') = moves S T d d'"
  by (simp_all add: moves_def)

lemma moves_state: "moves S T d d' \<Longrightarrow> may_become S T (task_state d i) (task_state d' i)"
  by (simp add: moves_def)

lemma foldl_moves: "(\<And>d x. moves S T d (f d x)) \<Longrightarrow> moves S T d (foldl f d xs)"
  by (induction xs arbitrary: d) (auto intro: moves_trans)

lemma release_step_moves: "moves nonterminals {TASK_READY} d (release_step env rid d e)"
proof -
  let ?d1 = "snd (emit env rid ''dependency.satisfied'' ''dependency'' (Some (dep_id e))
      (JObj [(''dependent_task_id'', JUuid (dep_dependent_task_id e)),
             (''required_artefact_type'', JStr (dep_required_artefact_type e)),
             (''reason'', JStr (dep_required_artefact_type e @ '' is now available''))]) False
      (set_dep (dep_id e) (\<lambda>x. x\<lparr>dep_state_of := DEP_SATISFIED, dep_satisfied_at := Some (e_now env)\<rparr>) d))"
  have "moves nonterminals {TASK_READY} ?d1 (set_task (task_id t) (set_status TASK_READY) ?d1)"
    if "get_task ?d1 (dep_dependent_task_id e) = Some t" "\<not> terminal_task (task_status_of t)" for t
    using that get_task_id[OF that(1)] by (intro moves_set_task) (auto simp: nonterminals_def)
  from moves_trans[of _ _ d ?d1, OF _ this] show ?thesis
    by (auto simp: release_step_def Let_def split: option.split)
qed

lemma block_step_moves: "moves nonterminals {TASK_BLOCKED} d (block_step env p r d e)"
proof -
  let ?d1 = "snd (emit env (task_run_id p) ''dependency.failed'' ''dependency'' (Some (dep_id e))
      (JObj [(''dependent_task_id'', JUuid (dep_dependent_task_id e)), (''reason'', JStr r)]) True
      (set_dep (dep_id e) (\<lambda>x. x\<lparr>dep_state_of := DEP_FAILED\<rparr>) d))"
  have "moves nonterminals {TASK_BLOCKED} ?d1 (set_task (task_id t)
      (\<lambda>x. x\<lparr>task_status_of := TASK_BLOCKED, task_blocked_reason := Some why\<rparr>) ?d1)"
    if "get_task ?d1 (dep_dependent_task_id e) = Some t" "\<not> terminal_task (task_status_of t)" for t why
    using that get_task_id[OF that(1)] by (intro moves_set_task) (auto simp: nonterminals_def)
  from moves_trans[of _ _ d ?d1, OF _ this] show ?thesis
    by (auto simp: block_step_def Let_def split: option.split)
qed

lemma resolver_moves:
  "moves nonterminals {TASK_READY} d (evaluate_on_completion env t d)"
  "moves nonterminals {TASK_BLOCKED} d (mark_unsatisfiable env t r d)"
  unfolding evaluate_on_completion_def mark_unsatisfiable_def
  by (intro foldl_moves release_step_moves block_step_moves)+

lemma ready_step_moves:
  assumes "get_task d (task_id t) = Some t" "task_status_of t \<in> candidates"
  shows "moves candidates {TASK_READY, TASK_WAITING_FOR_DEPENDENCY} d (snd (ready_step env rid (out, d) t))"
  using assms by (auto simp: ready_step_def Let_def intro!: moves_set_task)

lemma ready_tasks_moves:
  assumes "distinct (map task_id (db_tasks d))"
  shows "moves candidates {TASK_READY, TASK_WAITING_FOR_DEPENDENCY} d (snd (ready_tasks env rid d))"
proof -
  have "moves candidates {TASK_READY, TASK_WAITING_FOR_DEPENDENCY} d (snd (foldl (ready_step env rid) (out, d) ts))"
    if "distinct (map task_id ts)" "\<And>t. t \<in> set ts \<Longrightarrow> get_task d (task_id t) = Some t \<and> task_status_of t \<in> candidates" for out d ts
    using that
  proof (induction ts arbitrary: out d)
    case (Cons t ts)
    obtain out' d' where st: "ready_step env rid (out, d) t = (out', d')" by fastforce
    have t: "get_task d (task_id t) = Some t" "task_status_of t \<in> candidates" using Cons.prems(2) by auto
    have "get_task d' (task_id u) = Some u" if "u \<in> set ts" for u
    proof -
      have "task_id u \<noteq> task_id t" using Cons.prems(1) imageI[OF that, of task_id] by auto
      then show ?thesis
        using ready_step_effect(4)[OF t(1), of "task_id u" env rid out] Cons.prems(2)[of u] that st by simp
    qed
    then have "moves candidates {TASK_READY, TASK_WAITING_FOR_DEPENDENCY} d' (snd (foldl (ready_step env rid) (out', d') ts))"
      using Cons.prems by (intro Cons.IH) auto
    then show ?case using ready_step_moves[OF t, of env rid out] st moves_trans by simp
  qed simp
  note fold = this
  show ?thesis unfolding ready_tasks_def
  proof (rule fold)
    fix t assume "t \<in> set (filter (ready_candidate rid) (db_tasks d))"
    then show "get_task d (task_id t) = Some t \<and> task_status_of t \<in> candidates"
      using task_state_row[OF assms] by (auto simp: ready_candidate_def candidates_def)
  qed (use assms in \<open>simp add: distinct_map_filter\<close>)
qed

section \<open>One status write, then the resolver\<close>

definition writes_status :: "nat \<Rightarrow> task_status \<Rightarrow> task_status set \<Rightarrow> db \<Rightarrow> db \<Rightarrow> bool" where
  "writes_status tid st T d d' \<longleftrightarrow> (\<exists>d1. (\<forall>i. task_state d1 i = (if i = tid then Some st else task_state d i))
     \<and> moves nonterminals T d1 d')"

lemma writes_statusI:
  assumes "\<And>i. task_state d1 i = (if i = tid then Some st else task_state d i)" "moves nonterminals T d1 d'"
  shows "writes_status tid st T d d'"
  unfolding writes_status_def by (rule exI[of _ d1]) (use assms in simp)

lemma handler_writes:
  assumes "get_task d tid = Some t"
  shows "task_status_of t = TASK_RUNNING \<Longrightarrow>
      writes_status tid TASK_FAILED {TASK_BLOCKED} d (handle_task_timeout env rid tid secs d)"
    and "writes_status tid TASK_BLOCKED {TASK_BLOCKED} d (handle_data_stale env rid tid ds d)"
    and "\<exists>st T. writes_status tid st T d (handle_task_failure env rid tid exc d)
      \<and> (st = TASK_RETRYING \<and> T = {} \<or> st = TASK_FAILED \<and> T = {TASK_BLOCKED})"
    and "get_run d rid = Some run \<Longrightarrow> \<exists>st T. writes_status tid st T d (handle_agent_unavailable env rid tid exc d)
      \<and> (st = TASK_READY \<and> T = {} \<or> st = TASK_ESCALATED \<and> T = {TASK_BLOCKED})"
proof -
  have w: "task_state (set_task tid f d) i = (if i = tid then Some (task_status_of (f t)) else task_state d i)"
    if "\<And>t. task_id (f t) = task_id t" for f i
    using assms that by (simp add: task_state_set_task)
  show "writes_status tid TASK_FAILED {TASK_BLOCKED} d (handle_task_timeout env rid tid secs d)"
    if "task_status_of t = TASK_RUNNING"
    using assms that by (simp add: handle_task_timeout_def Let_def) (rule writes_statusI[OF _ resolver_moves(2)]; simp add: w)
  show "writes_status tid TASK_BLOCKED {TASK_BLOCKED} d (handle_data_stale env rid tid ds d)"
    using assms by (simp add: handle_data_stale_def Let_def) (rule writes_statusI[OF _ resolver_moves(2)]; simp add: w)
  show "\<exists>st T. writes_status tid st T d (handle_task_failure env rid tid exc d)
      \<and> (st = TASK_RETRYING \<and> T = {} \<or> st = TASK_FAILED \<and> T = {TASK_BLOCKED})"
  proof (cases "task_retry_count t < task_max_retries t")
    case True
    have "writes_status tid TASK_RETRYING {} d (handle_task_failure env rid tid exc d)"
      using assms True by (simp add: handle_task_failure_def) (rule writes_statusI[OF _ moves_refl]; simp add: w)
    then show ?thesis by blast
  next
    case False
    have "writes_status tid TASK_FAILED {TASK_BLOCKED} d (handle_task_failure env rid tid exc d)"
      using assms False by (simp add: handle_task_failure_def Let_def) (rule writes_statusI[OF _ resolver_moves(2)]; simp add: w)
    then show ?thesis by blast
  qed
  have rd: "task_state (snd (record_decision env rid ty s r i ag n e p x)) j = task_state x j" for ty s r i ag n e p x j
    by (simp add: task_state_def)
  show "\<exists>st T. writes_status tid st T d (handle_agent_unavailable env rid tid exc d)
      \<and> (st = TASK_READY \<and> T = {} \<or> st = TASK_ESCALATED \<and> T = {TASK_BLOCKED})" if "get_run d rid = Some run"
  proof (cases "filter (\<lambda>a. a \<noteq> task_assigned_agent t) (find_by_capability d (task_capability t))")
    case Nil
    have "writes_status tid TASK_ESCALATED {TASK_BLOCKED} d (handle_agent_unavailable env rid tid exc d)"
      using assms that Nil by (simp add: handle_agent_unavailable_def Let_def)
        (rule writes_statusI[OF _ resolver_moves(2)]; simp add: w rd)
    then show ?thesis by blast
  next
    case (Cons b bs)
    have "writes_status tid TASK_READY {} d (handle_agent_unavailable env rid tid exc d)"
      using assms that Cons by (simp add: handle_agent_unavailable_def Let_def)
        (rule writes_statusI[OF _ moves_refl]; simp add: w rd)
    then show ?thesis by blast
  qed
qed

lemma complete_writes:
  assumes "get_task d tid = Some u"
  shows "writes_status tid TASK_COMPLETED {TASK_READY} d (complete_task env rid tid t d)"
proof -
  obtain x where x: "complete_task env rid tid t d = evaluate_on_completion env t x"
    "\<And>i. task_state x i = task_state (set_task tid (\<lambda>x. x\<lparr>task_status_of := TASK_COMPLETED, task_completed_at := Some (e_now env)\<rparr>) d) i"
    by (rule that[of "set_task tid _ _"], simp only: complete_task_def Let_def case_prod_unfold)
      (simp add: task_state_set_task task_state_def option.map_comp comp_def)
  show ?thesis unfolding x(1)
    by (rule writes_statusI[OF _ resolver_moves(1)]) (use assms in \<open>simp add: x(2) task_state_set_task\<close>)
qed

section \<open>The interleaving\<close>

datatype engine_event = Sweep nat | Claim nat nat | Result nat nat | Timeout nat nat int | Close nat | Cancel nat

text \<open>A state is the database and the tasks some dispatch thread is still working on, timed out or not.
  The run of a task exists (a foreign key).\<close>
inductive engine_step :: "env \<Rightarrow> engine_event \<Rightarrow> db \<times> nat list \<Rightarrow> db \<times> nat list \<Rightarrow> bool" for env where
  sweep: "engine_step env (Sweep rid) (d, fl) (snd (ready_tasks env rid d), fl)"
| claimed: "claim env rid tid d = Some d' \<Longrightarrow> engine_step env (Claim rid tid) (d, fl) (d', tid # fl)"
| result: "tid \<in> set fl \<Longrightarrow> get_run d rid = Some run \<Longrightarrow>
    engine_step env (Result rid tid) (d, fl) (run_dispatch_and_complete env rid tid d, remove1 tid fl)"
| timeout: "tid \<in> set fl \<Longrightarrow> engine_step env (Timeout rid tid secs) (d, fl) (handle_task_timeout env rid tid secs d, fl)"
| closed: "engine_step env (Close rid) (d, fl) (snd (finalize env rid d), fl)"
| cancelled: "cancel_run rid d = Inr d' \<Longrightarrow> engine_step env (Cancel rid) (d, fl) (d', fl)"

inductive_cases resultE: "engine_step env (Result rid tid) (d, fl) (d', fl')"

inductive engine_reach :: "db \<times> nat list \<Rightarrow> db \<times> nat list \<Rightarrow> bool" where
  engine_refl: "engine_reach s s"
| engine_more: "engine_reach s s1 \<Longrightarrow> engine_step env ev s1 s2 \<Longrightarrow> engine_reach s s2"

text \<open>The transitions of the task lifecycle.\<close>
definition allowed :: "task_status \<Rightarrow> task_status \<Rightarrow> bool" where
  "allowed s s' \<longleftrightarrow> s' = s \<or>
    (case s' of
       TASK_READY \<Rightarrow> \<not> terminal_task s
     | TASK_WAITING_FOR_DEPENDENCY \<Rightarrow> s \<in> candidates
     | TASK_RUNNING \<Rightarrow> s = TASK_READY
     | TASK_COMPLETED \<Rightarrow> s = TASK_RUNNING
     | TASK_FAILED \<Rightarrow> s = TASK_RUNNING
     | TASK_ESCALATED \<Rightarrow> s = TASK_RUNNING
     | TASK_RETRYING \<Rightarrow> s = TASK_RUNNING
     | TASK_BLOCKED \<Rightarrow> \<not> terminal_task s
     | TASK_CANCELLED \<Rightarrow> s \<notin> {TASK_COMPLETED, TASK_FAILED}
     | _ \<Rightarrow> False)"

definition only_allowed :: "db \<Rightarrow> db \<Rightarrow> bool" where
  "only_allowed d d' \<longleftrightarrow> (\<forall>i. case (task_state d i, task_state d' i) of
      (None, None) \<Rightarrow> True | (Some s, Some s') \<Rightarrow> allowed s s' | _ \<Rightarrow> False)"

definition attended :: "db \<times> nat list \<Rightarrow> bool" where
  "attended st \<longleftrightarrow> (\<forall>i. task_state (fst st) i = Some TASK_RUNNING \<longrightarrow> i \<in> set (snd st))"

lemma moves_allowed:
  assumes "moves S T d d'" "\<And>s s'. s \<in> S \<Longrightarrow> s' \<in> T \<Longrightarrow> allowed s s'"
  shows "only_allowed d d'"
  unfolding only_allowed_def
proof
  fix i
  have refl: "allowed s s" for s by (simp add: allowed_def)
  show "case (task_state d i, task_state d' i) of
      (None, None) \<Rightarrow> True | (Some s, Some s') \<Rightarrow> allowed s s' | _ \<Rightarrow> False"
    using moves_state[OF assms(1), of i] assms(2) refl
    by (cases "task_state d i"; cases "task_state d' i") (auto simp: may_become_def)
qed

lemma only_allowed_refl: "only_allowed d d"
  using moves_allowed[OF moves_refl, of "{}" "{}" d] by simp

lemma writes_allowed:
  assumes "writes_status tid st T d d'" "task_state d tid = Some s" "allowed s st"
    and "T \<subseteq> {TASK_READY, TASK_BLOCKED}" "terminal_task st \<or> T = {}"
  shows "only_allowed d d'"
  unfolding only_allowed_def
proof
  fix i
  obtain d1 where d1: "\<And>i. task_state d1 i = (if i = tid then Some st else task_state d i)" "moves nonterminals T d1 d'"
    using assms(1) by (auto simp: writes_status_def)
  have m: "may_become nonterminals T (task_state d1 i) (task_state d' i)" by (rule moves_state[OF d1(2)])
  have a: "allowed x y" if "x \<in> nonterminals" "y \<in> T" for x y
    using that assms(4) by (auto simp: allowed_def nonterminals_def)
  have refl: "allowed x x" for x by (simp add: allowed_def)
  show "case (task_state d i, task_state d' i) of
      (None, None) \<Rightarrow> True | (Some s, Some s') \<Rightarrow> allowed s s' | _ \<Rightarrow> False"
  proof (cases "i = tid")
    case True
    then have "task_state d' i = Some st" using m assms(5) d1(1) by (auto simp: may_become_def nonterminals_def)
    then show ?thesis using True assms(2,3) by simp
  next
    case False
    then show ?thesis using m d1(1)[of i] a refl
      by (cases "task_state d i"; cases "task_state d' i") (auto simp: may_become_def)
  qed
qed

lemma writes_not_running:
  assumes "writes_status tid st T d d'" "st \<noteq> TASK_RUNNING" "TASK_RUNNING \<notin> T"
  shows "task_state d' i = Some TASK_RUNNING \<Longrightarrow> i \<noteq> tid \<and> task_state d i = Some TASK_RUNNING"
proof -
  obtain d1 where d1: "\<And>i. task_state d1 i = (if i = tid then Some st else task_state d i)" "moves nonterminals T d1 d'"
    using assms(1) by (auto simp: writes_status_def)
  have m: "may_become nonterminals T (task_state d1 i) (task_state d' i)" by (rule moves_state[OF d1(2)])
  then show "task_state d' i = Some TASK_RUNNING \<Longrightarrow> ?thesis"
    using assms(2,3) d1(1)[of i] by (auto simp: may_become_def split: if_splits)
qed

lemma finalize_task_state: "task_state (snd (finalize env rid d)) i = task_state d i"
proof -
  have "map_option task_status_of (row_by task_id i (update_where P (timed x us) ts))
      = map_option task_status_of (row_by task_id i ts)" for P x us ts
    by (induction ts) (simp_all add: timed_def split: option.split)
  then have "task_state (record_timings rid d) i = task_state d i"
    by (simp add: task_state_def get_task_def record_timings_def)
  moreover have "task_state (resolve_conflicts env rid x) i = task_state x i" for x
    by (simp add: task_state_def get_task_def)
  ultimately show ?thesis by (auto simp: finalize_def Let_def split: option.split)
qed

lemma cancel_moves:
  assumes "cancel_run rid d = Inr d'"
  shows "moves (- {TASK_COMPLETED, TASK_FAILED}) {TASK_CANCELLED} d d'"
proof -
  have "may_become (- {TASK_COMPLETED, TASK_FAILED}) {TASK_CANCELLED} (map_option task_status_of (row_by task_id i ts))
     (map_option task_status_of (row_by task_id i (update_where
       (\<lambda>t. task_run_id t = rid \<and> task_status_of t \<notin> {TASK_COMPLETED, TASK_FAILED, TASK_CANCELLED})
       (set_status TASK_CANCELLED) ts)))" for i ts
    by (induction ts) (auto simp: may_become_def)
  then show ?thesis using assms
    by (auto simp: cancel_run_def cancel_tasks_def moves_def task_state_def get_task_def
        split: option.splits if_splits)
qed

text \<open>What a finished dispatch does: nothing, or one status write and the resolver.\<close>
lemma result_effect:
  fixes env :: env
  assumes "get_run d rid = Some run" "get_task d tid = Some t"
  defines "d' \<equiv> run_dispatch_and_complete env rid tid d"
  shows "task_status_of t \<noteq> TASK_RUNNING \<and> (\<exists>r. dispatch env t d = Inr r) \<and> d' = d
    \<or> (\<exists>st T d1. writes_status tid st T d1 d' \<and> (\<forall>i. task_state d1 i = task_state d i)
         \<and> st \<noteq> TASK_RUNNING \<and> T \<subseteq> {TASK_READY, TASK_BLOCKED} \<and> (terminal_task st \<or> T = {})
         \<and> allowed TASK_RUNNING st \<and> (task_status_of t = TASK_RUNNING \<or> (\<exists>e. dispatch env t d = Inl e)))"
proof (cases "dispatch env t d")
  case (Inl e)
  have st: "st \<noteq> TASK_RUNNING \<and> T \<subseteq> {TASK_READY, TASK_BLOCKED} \<and> (terminal_task st \<or> T = {}) \<and> allowed TASK_RUNNING st"
    if "st \<in> {TASK_FAILED, TASK_BLOCKED, TASK_ESCALATED} \<and> T = {TASK_BLOCKED} \<or> st \<in> {TASK_RETRYING, TASK_READY} \<and> T = {}" for st T
    using that by (auto simp: terminal_task_def allowed_def)
  have "\<exists>st T. writes_status tid st T d d' \<and>
     (st \<in> {TASK_FAILED, TASK_BLOCKED, TASK_ESCALATED} \<and> T = {TASK_BLOCKED} \<or> st \<in> {TASK_RETRYING, TASK_READY} \<and> T = {})"
  proof (cases e)
    case (AgentUnavailable exc)
    then have "d' = handle_agent_unavailable env rid tid exc d" using Inl assms(2) by (simp add: d'_def run_dispatch_and_complete_def)
    then show ?thesis using handler_writes(4)[OF assms(2,1), of env exc] by blast
  next
    case (DataStale ds)
    then have "d' = handle_data_stale env rid tid ds d" using Inl assms(2) by (simp add: d'_def run_dispatch_and_complete_def)
    then show ?thesis using handler_writes(2)[OF assms(2), of env rid ds] by blast
  next
    case (HandlerError exc)
    then have "d' = handle_task_failure env rid tid exc d" using Inl assms(2) by (simp add: d'_def run_dispatch_and_complete_def)
    then show ?thesis using handler_writes(3)[OF assms(2), of env rid exc] by blast
  qed
  then show ?thesis using st Inl by blast
next
  case (Inr r)
  obtain aid d1 where r: "dispatch env t d = Inr (aid, d1)" using Inr by (cases r) simp
  have same: "task_state d1 i = task_state d i" for i by (rule dispatch_advances(2)[OF r])
  obtain u where u: "get_task d1 tid = Some u" "task_status_of u = task_status_of t"
    using same[of tid] assms(2) by (auto simp: task_state_def)
  show ?thesis
  proof (cases "task_status_of t = TASK_RUNNING")
    case True
    then have "d' = complete_task env rid tid u d1" using r u assms(2) by (simp add: d'_def run_dispatch_and_complete_def)
    then have "writes_status tid TASK_COMPLETED {TASK_READY} d1 d'" using complete_writes[OF u(1)] by simp
    moreover have "terminal_task TASK_COMPLETED" "allowed TASK_RUNNING TASK_COMPLETED"
      by (simp_all add: terminal_task_def allowed_def)
    ultimately show ?thesis using same True
      by (intro disjI2 exI[of _ TASK_COMPLETED] exI[of _ "{TASK_READY}"] exI[of _ d1]) simp
  next
    case False
    then have "d' = d" using r u assms(2) by (simp add: d'_def run_dispatch_and_complete_def)
    then show ?thesis using False r by blast
  qed
qed

lemma writes_same_before:
  assumes "writes_status tid st T d1 d'" "\<And>i. task_state d1 i = task_state d i"
  shows "writes_status tid st T d d'"
proof -
  obtain d2 where "\<And>i. task_state d2 i = (if i = tid then Some st else task_state d1 i)" "moves nonterminals T d2 d'"
    using assms(1) by (auto simp: writes_status_def)
  then show ?thesis using assms(2) by (intro writes_statusI[of d2]) simp_all
qed

lemma claim_moves: "claim env rid tid d = Some d' \<Longrightarrow> moves {TASK_READY} {TASK_RUNNING} d d'"
  by (auto simp: claim_def intro!: moves_set_task split: option.splits if_splits)

lemma timeout_effect:
  "(\<exists>t. get_task d tid = Some t \<and> task_status_of t = TASK_RUNNING
      \<and> writes_status tid TASK_FAILED {TASK_BLOCKED} d (handle_task_timeout env rid tid secs d))
   \<or> handle_task_timeout env rid tid secs d = d"
  using handler_writes(1)[of d tid] by (auto simp: handle_task_timeout_def split: option.split)

text \<open>C5. The task lifecycle. Whatever order the threads of a run act in, no step takes a task along any
  other edge than these: an unfinished task may become ready or blocked, one not running may wait;
  only a ready task starts to run; only a running task completes, fails, is escalated or is set to
  retry; a task that completed or failed keeps its status. The one exception, excluded by the last
  premise, is a dispatch that fails after its task has stopped running.\<close>
theorem engine_steps_follow_lifecycle:
  assumes "engine_step env ev (d, fl) (d', fl')" and "unique_ids d"
    and "\<And>rid tid t e. ev = Result rid tid \<Longrightarrow> get_task d tid = Some t \<Longrightarrow> dispatch env t d = Inl e \<Longrightarrow>
      task_status_of t = TASK_RUNNING"
  shows "only_allowed d d'"
  using assms(1)
proof cases
  case (sweep rid)
  have "moves candidates {TASK_READY, TASK_WAITING_FOR_DEPENDENCY} d (snd (ready_tasks env rid d))"
    using assms(2) by (intro ready_tasks_moves) (simp add: unique_ids_def)
  then show ?thesis unfolding sweep(2)
    by (rule moves_allowed) (auto simp: allowed_def candidates_def terminal_task_def)
next
  case (claimed rid tid)
  then show ?thesis using claim_moves by (intro moves_allowed[of "{TASK_READY}" "{TASK_RUNNING}"]) (auto simp: allowed_def)
next
  case (result tid rid run)
  show ?thesis
  proof (cases "get_task d tid")
    case None
    then show ?thesis using result by (simp add: run_dispatch_and_complete_def only_allowed_refl)
  next
    case (Some t)
    consider (discarded) "run_dispatch_and_complete env rid tid d = d"
      | (written) st T d1 where "writes_status tid st T d1 (run_dispatch_and_complete env rid tid d)"
          "\<forall>i. task_state d1 i = task_state d i"
          "T \<subseteq> {TASK_READY, TASK_BLOCKED}" "terminal_task st \<or> T = {}" "allowed TASK_RUNNING st"
          "task_status_of t = TASK_RUNNING \<or> (\<exists>e. dispatch env t d = Inl e)"
      using result_effect[OF result(5) Some, of env] by blast
    then show ?thesis
    proof cases
      case discarded
      then show ?thesis using result by (simp add: only_allowed_refl)
    next
      case w: written
      have "task_status_of t = TASK_RUNNING" using w(6) assms(3)[OF result(1) Some] by blast
      then have "task_state d tid = Some TASK_RUNNING" using Some by (simp add: task_state_def)
      then show ?thesis using writes_allowed[OF writes_same_before[OF w(1)] _ w(5,3,4)] w(2) result by simp
    qed
  qed
next
  case (timeout tid rid secs)
  have fl: "allowed TASK_RUNNING TASK_FAILED" "terminal_task TASK_FAILED" by (simp_all add: allowed_def terminal_task_def)
  consider (fired) t where "get_task d tid = Some t" "task_status_of t = TASK_RUNNING"
      "writes_status tid TASK_FAILED {TASK_BLOCKED} d (handle_task_timeout env rid tid secs d)"
    | (ignored) "handle_task_timeout env rid tid secs d = d"
    using timeout_effect[of d tid env rid secs] by blast
  then have "only_allowed d (handle_task_timeout env rid tid secs d)"
  proof cases
    case fired
    then have "task_state d tid = Some TASK_RUNNING" by (simp add: task_state_def)
    then show ?thesis by (rule writes_allowed[OF fired(3)]) (simp_all add: fl)
  next
    case ignored
    then show ?thesis by (simp add: only_allowed_refl)
  qed
  then show ?thesis using timeout by simp
next
  case (closed rid)
  have "moves {} {} d (snd (finalize env rid d))" by (rule moves_same) (rule finalize_task_state)
  then show ?thesis unfolding closed(2) by (rule moves_allowed) simp
next
  case (cancelled rid)
  show ?thesis using cancel_moves[OF cancelled(3)] by (rule moves_allowed) (auto simp: allowed_def)
qed

lemma ready_tasks_not_running: "moves UNIV {TASK_READY, TASK_WAITING_FOR_DEPENDENCY} d (snd (ready_tasks env rid d))"
proof -
  have "moves UNIV {TASK_READY, TASK_WAITING_FOR_DEPENDENCY} d (snd (ready_step env rid (out, d) t))" for out d t
    by (auto simp: ready_step_def Let_def intro!: moves_set_task)
  then have step: "moves UNIV {TASK_READY, TASK_WAITING_FOR_DEPENDENCY} (snd st) (snd (ready_step env rid st t))" for st t
    by (cases st) simp
  have "moves UNIV {TASK_READY, TASK_WAITING_FOR_DEPENDENCY} (snd st) (snd (foldl (ready_step env rid) st ts))" for st ts
  proof (induction ts arbitrary: st)
    case (Cons t ts)
    show ?case using moves_trans[OF step Cons.IH] by simp
  qed simp
  from this[of "([], d)"] show ?thesis by (simp add: ready_tasks_def)
qed

lemma moves_not_running: "moves S T d d' \<Longrightarrow> TASK_RUNNING \<notin> T \<Longrightarrow> task_state d' i = Some TASK_RUNNING \<Longrightarrow>
    task_state d i = Some TASK_RUNNING"
  using moves_state[of S T d d' i] by (auto simp: may_become_def)

lemma engine_step_attended:
  assumes "engine_step env ev s s'" "attended s"
  shows "attended s'"
  using assms(1)
proof cases
  case (sweep rid d fl)
  then show ?thesis using assms(2) moves_not_running[OF ready_tasks_not_running[of d env rid]] by (auto simp: attended_def)
next
  case (claimed rid tid d d' fl)
  have "i = tid \<or> task_state d i = Some TASK_RUNNING" if "task_state d' i = Some TASK_RUNNING" for i
    using claimed(4) that by (auto simp: claim_def task_state_set_task split: option.splits if_splits)
  then show ?thesis using claimed assms(2) by (auto simp: attended_def)
next
  case (result tid fl d rid run)
  let ?d' = "run_dispatch_and_complete env rid tid d"
  have "i \<in> set (remove1 tid fl)" if i: "task_state ?d' i = Some TASK_RUNNING" for i
  proof (cases "get_task d tid")
    case None
    then have "?d' = d" by (simp add: run_dispatch_and_complete_def)
    then have "i \<noteq> tid" "task_state d i = Some TASK_RUNNING" using i None by (auto simp: task_state_def)
    then show ?thesis using result assms(2) by (auto simp: attended_def in_set_remove1)
  next
    case (Some t)
    have "i \<noteq> tid \<and> task_state d i = Some TASK_RUNNING"
    proof -
      consider (discarded) "task_status_of t \<noteq> TASK_RUNNING" "?d' = d"
        | (written) st T d1 where "writes_status tid st T d1 ?d'" "\<forall>i. task_state d1 i = task_state d i"
            "st \<noteq> TASK_RUNNING" "T \<subseteq> {TASK_READY, TASK_BLOCKED}"
        using result_effect[OF result(5) Some, of env] by blast
      then show ?thesis
      proof cases
        case discarded
        then show ?thesis using i Some by (cases "i = tid") (auto simp: task_state_def)
      next
        case w: written
      then have "TASK_RUNNING \<notin> T" by auto
      then show ?thesis using writes_not_running[OF w(1,3) _ i] w(2) by simp
      qed
    qed
    then show ?thesis using result assms(2) by (auto simp: attended_def in_set_remove1)
  qed
  then show ?thesis using result by (simp add: attended_def)
next
  case (timeout tid fl rid secs d)
  have "task_state d i = Some TASK_RUNNING" if "task_state (handle_task_timeout env rid tid secs d) i = Some TASK_RUNNING" for i
    using timeout_effect[of d tid env rid secs] writes_not_running[of tid TASK_FAILED "{TASK_BLOCKED}" d _ i] that by auto
  then show ?thesis using timeout assms(2) by (auto simp: attended_def)
next
  case (closed rid d fl)
  then show ?thesis using assms(2) by (simp add: attended_def finalize_task_state)
next
  case (cancelled rid d d' fl)
  then show ?thesis using assms(2) moves_not_running[OF cancel_moves[OF cancelled(4)]] by (auto simp: attended_def)
qed

text \<open>C6. No task is left running unattended. In every state reachable by any interleaving of sweeps, claims,
  results, timeouts, closings and cancellations from one where each running task has a dispatch
  thread at work, each running task still has one; so when a dispatch ends, with a result or with
  an error, its task is no longer running unless another thread has taken it up.\<close>
theorem running_tasks_are_attended:
  assumes "engine_reach s s'" and "attended s"
  shows "attended s'"
  using assms by (induction rule: engine_reach.induct) (blast intro: engine_step_attended)+

text \<open>A late failure revives a finished task. When the dispatch of a task that was already declared
  failed by its timeout ends in an error, and retries remain, the task is set to retry and can be
  claimed and executed again; had the late dispatch succeeded, its result would be discarded.\<close>
theorem late_failure_revives_task:
  assumes "get_task d tid = Some t" and "task_status_of t = TASK_FAILED" and "task_retry_count t < task_max_retries t"
  shows "(dispatch env t d = Inl (HandlerError exc) \<longrightarrow>
        task_state (run_dispatch_and_complete env rid tid d) tid = Some TASK_RETRYING)
    \<and> (dispatch env t d = Inr r \<longrightarrow> run_dispatch_and_complete env rid tid d = d)"
proof (intro conjI impI)
  show "task_state (run_dispatch_and_complete env rid tid d) tid = Some TASK_RETRYING"
    if "dispatch env t d = Inl (HandlerError exc)"
    using assms that by (simp add: run_dispatch_and_complete_def handle_task_failure_def task_state_set_task)
  show "run_dispatch_and_complete env rid tid d = d" if "dispatch env t d = Inr r"
    using dispatch_advances(2)[of env t d "fst r" "snd r" tid] assms(1,2) that
    by (cases r) (auto simp: run_dispatch_and_complete_def task_state_def split: option.split)
qed

section \<open>Concrete runs\<close>

definition one_task_db :: "task_status \<Rightarrow> db" where
  "one_task_db st = empty_db\<lparr>db_tasks := [sample_task 11 st], db_runs := [sample_run 9 RUN_RUNNING], db_next_id := 50\<rparr>"

lemma one_task_facts:
  "unique_ids (one_task_db st)" "get_task (one_task_db st) 11 = Some (sample_task 11 st)"
  "get_run (one_task_db st) 9 = Some (sample_run 9 RUN_RUNNING)"
  "task_state (one_task_db st) i = (if i = 11 then Some st else None)"
  by (simp_all add: one_task_db_def unique_ids_def get_task_def get_run_def task_state_def empty_db_def)

definition failing_env :: env where
  "failing_env = sample_env\<lparr>e_handler := (\<lambda>_ _. Inl ''boom'')\<rparr>"

lemma failing_dispatch: "dispatch failing_env (sample_task 11 st) (one_task_db st) = Inl (HandlerError ''boom'')"
  by (simp add: dispatch_def failing_env_def sample_env_def sample_task_def AGENT_META_def
      is_agent_enabled_def control_row_def one_task_db_def empty_db_def Let_def)

theorem engine_steps_follow_lifecycle_witness:
  "only_allowed (one_task_db TASK_READY) (snd (ready_tasks sample_env 9 (one_task_db TASK_READY)))"
proof (rule engine_steps_follow_lifecycle[OF sweep one_task_facts(1)])
  show "\<And>rid tid t e. Sweep 9 = Result rid tid \<Longrightarrow> get_task (one_task_db TASK_READY) tid = Some t \<Longrightarrow>
      dispatch sample_env t (one_task_db TASK_READY) = Inl e \<Longrightarrow> task_status_of t = TASK_RUNNING" by simp
qed

theorem running_tasks_are_attended_witness:
  "\<exists>d'. claim sample_env 9 11 (one_task_db TASK_READY) = Some d' \<and> attended (d', [11])
     \<and> task_state d' 11 = Some TASK_RUNNING"
proof -
  obtain d' where c: "claim sample_env 9 11 (one_task_db TASK_READY) = Some d'"
    by (simp add: claim_def one_task_facts)
  have "engine_reach (one_task_db TASK_READY, []) (d', [11])"
    by (rule engine_more[OF engine_refl claimed[OF c]])
  moreover have "attended (one_task_db TASK_READY, [])" by (simp add: attended_def one_task_facts)
  ultimately have "attended (d', [11])" by (rule running_tasks_are_attended)
  moreover have "task_state d' 11 = Some TASK_RUNNING"
    using c by (auto simp: claim_def one_task_facts task_state_set_task)
  ultimately show ?thesis using c by blast
qed

theorem late_failure_revives_task_witness:
  "task_state (run_dispatch_and_complete failing_env 9 11 (one_task_db TASK_FAILED)) 11 = Some TASK_RETRYING"
proof -
  have "task_retry_count (sample_task 11 TASK_FAILED) < task_max_retries (sample_task 11 TASK_FAILED)"
    by (simp add: sample_task_def)
  then show ?thesis
    using late_failure_revives_task[OF one_task_facts(2), where env = failing_env and exc = "''boom''" and rid = 9]
      failing_dispatch by (simp add: sample_task_def)
qed

end
