(* ===== verification/Breaker.thy ===== *)
theory Breaker
  imports Brokers PyText
begin

text \<open>
  The broker adapter interface (\<open>BrokerAdapter\<close> of \<open>src/brokers/base.py\<close>) and the circuit breaker, itself
  an adapter over a primary and an optional fallback (\<open>src/brokers/circuit_breaker.py\<close>). An adapter is a
  record of calls on a world \<open>'w\<close> outside the program (the brokers, the network, the clock); a call
  returns an answer or an exception and the world after it. The world carries the time, read by
  \<open>clock\<close>. The delivery of an alert to the notification channels is best effort and not modelled; the
  list of alerts the breaker keeps is.
\<close>

section \<open>Adapters\<close>

record option_instrument =
  oi_symbol :: string
  oi_underlying :: string
  oi_strike :: real
  oi_option_type :: option_type
  oi_expiry :: int
  oi_last_price :: "real option"
  oi_open_interest :: "int option"
  oi_implied_volatility :: "real option"

record option_chain =
  oc_underlying :: string
  oc_expiry :: int
  oc_spot_price :: real
  oc_instruments :: "option_instrument list"

datatype adapter_error = BrokerRaised broker_error | AdminAlert string

type_synonym ('w, 'a) call = "'w \<Rightarrow> (adapter_error + 'a) \<times> 'w"

record 'w adapter =
  ad_place_order :: "order_request \<Rightarrow> ('w, order_response) call"
  ad_modify_order :: "string \<Rightarrow> int option \<Rightarrow> order_type option \<Rightarrow> real option \<Rightarrow> real option \<Rightarrow> ('w, order_response) call"
  ad_cancel_order :: "string \<Rightarrow> ('w, order_response) call"
  ad_get_order_book :: "('w, order_response list) call"
  ad_get_margin :: "('w, margin) call"
  ad_get_positions :: "('w, broker_position list) call"
  ad_get_quote :: "string \<Rightarrow> ('w, quote) call"
  ad_get_option_chain :: "string \<Rightarrow> int \<Rightarrow> ('w, option_chain) call"
  ad_list_expiries :: "string \<Rightarrow> ('w, int list) call"

text \<open>The exceptions the breaker catches: \<open>HTTPStatusError\<close> and \<open>TransportError\<close>.\<close>
fun http_error :: "adapter_error \<Rightarrow> bool" where
  "http_error (BrokerRaised (BrokerFault _)) = False"
| "http_error (BrokerRaised _) = True"
| "http_error (AdminAlert _) = False"

fun is_server_error :: "adapter_error \<Rightarrow> bool" where
  "is_server_error (BrokerRaised (HTTPStatusError code _)) = (code \<ge> 500)"
| "is_server_error (BrokerRaised (ConnectError _)) = True"
| "is_server_error (BrokerRaised (TimeoutException _)) = True"
| "is_server_error _ = False"

section \<open>The breaker\<close>

datatype circuit_state = CLOSED | OPEN | HALF_OPEN

record queued_order =
  qo_order :: order_request
  qo_queued_at :: timestamp
  qo_reason :: string

record circuit_breaker =
  cb_failure_threshold :: nat
  cb_cooldown :: int
  cb_state :: circuit_state
  cb_consecutive_failures :: nat
  cb_opened_at :: "timestamp option"
  cb_queued_orders :: "queued_order list"
  cb_alerts :: "string list"

definition new_breaker :: "nat \<Rightarrow> int \<Rightarrow> circuit_breaker" where
  "new_breaker threshold cooldown = \<lparr>cb_failure_threshold = threshold, cb_cooldown = cooldown,
     cb_state = CLOSED, cb_consecutive_failures = 0, cb_opened_at = None, cb_queued_orders = [], cb_alerts = []\<rparr>"

definition open_circuit :: "timestamp \<Rightarrow> circuit_breaker \<Rightarrow> circuit_breaker" where
  "open_circuit now cb = cb\<lparr>cb_state := OPEN, cb_opened_at := Some now\<rparr>"

definition maybe_half_open :: "timestamp \<Rightarrow> circuit_breaker \<Rightarrow> circuit_breaker" where
  "maybe_half_open now cb =
    (if cb_state cb = OPEN \<and> (case cb_opened_at cb of None \<Rightarrow> False | Some t \<Rightarrow> now - t \<ge> cb_cooldown cb)
     then cb\<lparr>cb_state := HALF_OPEN\<rparr> else cb)"

definition alert :: "string \<Rightarrow> circuit_breaker \<Rightarrow> circuit_breaker" where
  "alert msg cb = cb\<lparr>cb_alerts := cb_alerts cb @ [msg]\<rparr>"

definition route_to_fallback_or_queue ::
  "('w \<Rightarrow> timestamp) \<Rightarrow> 'w adapter option \<Rightarrow> order_request \<Rightarrow> string \<Rightarrow> (circuit_breaker \<times> 'w, order_response) call" where
  "route_to_fallback_or_queue clock fallback order reason st =
    (case st of (cb, w) \<Rightarrow>
      (case fallback of
         Some fb \<Rightarrow>
          (let cb1 = alert (''Circuit OPEN ('' @ reason @ '') -- failing over order for '' @ oq_symbol order @ ''.'') cb;
               (ans, w1) = ad_place_order fb order w
           in (ans, (cb1, w1)))
       | None \<Rightarrow>
          (let cb1 = cb\<lparr>cb_queued_orders := cb_queued_orders cb @
                 [\<lparr>qo_order = order, qo_queued_at = clock w, qo_reason = reason\<rparr>]\<rparr>;
               cb2 = alert (''Order for '' @ oq_symbol order @ '' queued ('' @ reason
                 @ '') -- primary down, no fallback available.'') cb1
           in (Inl (AdminAlert (''Circuit breaker OPEN ('' @ reason @ '') and no fallback broker configured -- order for ''
                 @ oq_symbol order @ '' queued for manual review, not placed.'')), (cb2, w)))))"

definition cb_place_order ::
  "('w \<Rightarrow> timestamp) \<Rightarrow> 'w adapter \<Rightarrow> 'w adapter option \<Rightarrow> order_request \<Rightarrow> (circuit_breaker \<times> 'w, order_response) call" where
  "cb_place_order clock primary fallback order st =
    (case st of (cb0, w) \<Rightarrow>
      (let cb = maybe_half_open (clock w) cb0 in
       if cb_state cb = OPEN then route_to_fallback_or_queue clock fallback order ''circuit open'' (cb, w)
       else
        (case ad_place_order primary order w of
           (Inr response, w1) \<Rightarrow> (Inr response, (cb\<lparr>cb_consecutive_failures := 0, cb_state := CLOSED\<rparr>, w1))
         | (Inl e, w1) \<Rightarrow>
            if \<not> http_error e \<or> \<not> is_server_error e then (Inl e, (cb, w1))
            else if cb_state cb = HALF_OPEN then
              route_to_fallback_or_queue clock fallback order ''half-open probe failed'' (open_circuit (clock w1) cb, w1)
            else
              (let n = cb_consecutive_failures cb + 1; cb1 = cb\<lparr>cb_consecutive_failures := n\<rparr> in
               if n \<ge> cb_failure_threshold cb1 then
                 route_to_fallback_or_queue clock fallback order (show_int (int n) @ '' consecutive 5XX errors'')
                   (open_circuit (clock w1) cb1, w1)
               else (Inl e, (cb1, w1))))))"

text \<open>A read that is the same whichever broker answers it.\<close>
definition with_fallback :: "('w, 'a) call \<Rightarrow> ('w, 'a) call option \<Rightarrow> ('w, 'a) call" where
  "with_fallback primary fallback w =
    (case primary w of
       (Inr x, w1) \<Rightarrow> (Inr x, w1)
     | (Inl e, w1) \<Rightarrow>
        if http_error e then (case fallback of None \<Rightarrow> (Inl e, w1) | Some fb \<Rightarrow> fb w1) else (Inl e, w1))"

text \<open>A call that does not touch the breaker.\<close>
definition on_world :: "('w, 'a) call \<Rightarrow> (circuit_breaker \<times> 'w, 'a) call" where
  "on_world c st = (case st of (cb, w) \<Rightarrow> (case c w of (r, w1) \<Rightarrow> (r, (cb, w1))))"

definition breaker_adapter ::
  "('w \<Rightarrow> timestamp) \<Rightarrow> 'w adapter \<Rightarrow> 'w adapter option \<Rightarrow> (circuit_breaker \<times> 'w) adapter" where
  "breaker_adapter clock primary fallback =
    \<lparr>ad_place_order = cb_place_order clock primary fallback,
     ad_modify_order = (\<lambda>oid q ot lp tp. on_world (ad_modify_order primary oid q ot lp tp)),
     ad_cancel_order = (\<lambda>oid. on_world (ad_cancel_order primary oid)),
     ad_get_order_book = on_world (ad_get_order_book primary),
     ad_get_margin = on_world (ad_get_margin primary),
     ad_get_positions = on_world (ad_get_positions primary),
     ad_get_quote = (\<lambda>s. on_world (with_fallback (ad_get_quote primary s)
        (map_option (\<lambda>fb. ad_get_quote fb s) fallback))),
     ad_get_option_chain = (\<lambda>u x. on_world (with_fallback (ad_get_option_chain primary u x)
        (map_option (\<lambda>fb. ad_get_option_chain fb u x) fallback))),
     ad_list_expiries = (\<lambda>u. on_world (with_fallback (ad_list_expiries primary u)
        (map_option (\<lambda>fb. ad_list_expiries fb u) fallback)))\<rparr>"

section \<open>What a gateway sends\<close>

text \<open>The contract between a gateway to the brokers and whoever retries on it: a call to place an order
  sends copies of that order only, and at most \<open>m\<close> of them.\<close>
locale order_gateway =
  fixes place :: "order_request \<Rightarrow> ('w, order_response) call"
    and sent :: "'w \<Rightarrow> order_request list"
    and m :: nat
  assumes sends: "\<exists>k \<le> m. sent (snd (place q w)) = sent w @ replicate k q"
begin

lemma sends_after:
  assumes "\<exists>k \<le> n. sent w1 = sent (snd (place q w)) @ replicate k q"
  shows "\<exists>k \<le> m + n. sent w1 = sent w @ replicate k q"
proof -
  obtain i where "i \<le> m" "sent (snd (place q w)) = sent w @ replicate i q" using sends by blast
  moreover obtain j where "j \<le> n" "sent w1 = sent (snd (place q w)) @ replicate j q" using assms by blast
  ultimately show ?thesis by (intro exI[of _ "i + j"]) (simp add: replicate_add)
qed

end

text \<open>Any adapter, watched: the orders that reach it are written down.\<close>
definition watched :: "'w adapter \<Rightarrow> ('w \<times> order_request list) adapter" where
  "watched a =
     \<lparr>ad_place_order = (\<lambda>q (w, l). case ad_place_order a q w of (r, w1) \<Rightarrow> (r, (w1, l @ [q]))),
      ad_modify_order = (\<lambda>oid q ot lp tp (w, l). case ad_modify_order a oid q ot lp tp w of (r, w1) \<Rightarrow> (r, (w1, l))),
      ad_cancel_order = (\<lambda>oid (w, l). case ad_cancel_order a oid w of (r, w1) \<Rightarrow> (r, (w1, l))),
      ad_get_order_book = (\<lambda>(w, l). case ad_get_order_book a w of (r, w1) \<Rightarrow> (r, (w1, l))),
      ad_get_margin = (\<lambda>(w, l). case ad_get_margin a w of (r, w1) \<Rightarrow> (r, (w1, l))),
      ad_get_positions = (\<lambda>(w, l). case ad_get_positions a w of (r, w1) \<Rightarrow> (r, (w1, l))),
      ad_get_quote = (\<lambda>s (w, l). case ad_get_quote a s w of (r, w1) \<Rightarrow> (r, (w1, l))),
      ad_get_option_chain = (\<lambda>u x (w, l). case ad_get_option_chain a u x w of (r, w1) \<Rightarrow> (r, (w1, l))),
      ad_list_expiries = (\<lambda>u (w, l). case ad_list_expiries a u w of (r, w1) \<Rightarrow> (r, (w1, l)))\<rparr>"

lemma watched_place: "ad_place_order (watched a) q (w, l) = (case ad_place_order a q w of (r, w1) \<Rightarrow> (r, (w1, l @ [q])))"
  by (simp add: watched_def)

interpretation plain: order_gateway "ad_place_order (watched a)" snd 1 for a
proof unfold_locales
  fix q :: order_request and w :: "'a \<times> order_request list"
  show "\<exists>k \<le> 1. snd (snd (ad_place_order (watched a) q w)) = snd w @ replicate k q"
    by (rule exI[of _ 1]) (cases w, simp add: watched_place split: prod.split)
qed

lemma route_sends:
  "\<exists>k \<le> 1. snd (snd (snd (route_to_fallback_or_queue clock (map_option watched f) q reason (cb, w))))
      = snd w @ replicate k q"
proof (cases f)
  case None
  then show ?thesis by (auto simp: route_to_fallback_or_queue_def Let_def)
next
  case (Some fb)
  then show ?thesis
    using plain.sends[of fb q w] by (auto simp: route_to_fallback_or_queue_def Let_def split: prod.split)
qed

interpretation breaker: order_gateway "cb_place_order clock (watched p) (map_option watched f)" "\<lambda>st. snd (snd st)" 2
  for clock p f
proof unfold_locales
  fix q :: order_request and st :: "circuit_breaker \<times> 'a \<times> order_request list"
  obtain cb w l where st: "st = (cb, w, l)" by (cases st)
  have route: "\<exists>k \<le> 2. snd (snd (snd (route_to_fallback_or_queue clock (map_option watched f) q reason (cb', w', l @ ls))))
      = l @ ls @ replicate k q" for reason cb' w' ls
    using route_sends[of clock f q reason cb' "(w', l @ ls)"] by (auto intro: le_trans)
  have route1: "\<exists>k \<le> 2. snd (snd (snd (route_to_fallback_or_queue clock (map_option watched f) q reason (cb', w', l @ [q]))))
      = l @ replicate k q" for reason cb' w'
  proof -
    obtain k where "k \<le> 1" "snd (snd (snd (route_to_fallback_or_queue clock (map_option watched f) q reason (cb', w', l @ [q]))))
        = (l @ [q]) @ replicate k q" using route_sends[of clock f q reason cb' "(w', l @ [q])"] by auto
    then show ?thesis by (intro exI[of _ "Suc k"]) simp
  qed
  obtain r w1 where r: "ad_place_order p q w = (r, w1)" by fastforce
  have one: "\<exists>k \<le> 2. l @ [q] = l @ replicate k q" by (rule exI[of _ 1]) simp
  show "\<exists>k \<le> 2. snd (snd (snd (cb_place_order clock (watched p) (map_option watched f) q st))) = snd (snd st) @ replicate k q"
    using route[of _ _ w "[]"] route1 one
    by (cases r) (auto simp: st cb_place_order_def watched_place r Let_def)
qed

section \<open>When the circuit opens\<close>

fun place_all :: "'w adapter \<Rightarrow> order_request list \<Rightarrow> 'w \<Rightarrow> (adapter_error + order_response) list \<times> 'w" where
  "place_all a [] w = ([], w)"
| "place_all a (q # qs) w =
    (case ad_place_order a q w of (r, w1) \<Rightarrow> (case place_all a qs w1 of (rs, w2) \<Rightarrow> (r # rs, w2)))"

lemma place_all_snoc:
  "place_all a (qs @ [q]) w = (case place_all a qs w of (rs, w1) \<Rightarrow>
     (case ad_place_order a q w1 of (r, w2) \<Rightarrow> (rs @ [r], w2)))"
  by (induction qs arbitrary: w) (simp_all split: prod.split)

lemma place_all_length: "length (fst (place_all a qs w)) = length qs"
  by (induction qs arbitrary: w) (simp_all split: prod.split, metis fst_conv)

definition server_failure :: "adapter_error + order_response \<Rightarrow> bool" where
  "server_failure r = (case r of Inl e \<Rightarrow> http_error e \<and> is_server_error e | Inr _ \<Rightarrow> False)"

text \<open>The count the breaker keeps: server failures since the last success, other errors not counted.\<close>
definition failures_since_success :: "(adapter_error + order_response) list \<Rightarrow> nat" where
  "failures_since_success rs = length (filter server_failure (takeWhile (\<lambda>r. \<exists>e. r = Inl e) (rev rs)))"

lemma failures_since_success_simps [simp]:
  "failures_since_success [] = 0"
  "failures_since_success (rs @ [Inr x]) = 0"
  "failures_since_success (rs @ [Inl e]) =
    (if http_error e \<and> is_server_error e then Suc (failures_since_success rs) else failures_since_success rs)"
  by (simp_all add: failures_since_success_def server_failure_def)

definition counting :: "nat \<Rightarrow> int \<Rightarrow> nat \<Rightarrow> circuit_breaker" where
  "counting thr cd n = (new_breaker thr cd)\<lparr>cb_consecutive_failures := n\<rparr>"

lemma closed_step:
  assumes "ad_place_order p q w = (r, w1)" "n < thr"
  shows "failures_since_success (rs @ [r]) < thr \<Longrightarrow> failures_since_success rs = n \<Longrightarrow>
      cb_place_order clock p f q (counting thr cd n, w) = (r, (counting thr cd (failures_since_success (rs @ [r])), w1))"
    and "failures_since_success rs = n \<Longrightarrow>
      cb_state (fst (snd (cb_place_order clock p f q (counting thr cd n, w)))) = OPEN
        \<longleftrightarrow> thr \<le> failures_since_success (rs @ [r])"
proof -
  show "cb_place_order clock p f q (counting thr cd n, w) = (r, (counting thr cd (failures_since_success (rs @ [r])), w1))"
    if "failures_since_success (rs @ [r]) < thr" "failures_since_success rs = n"
    using assms that
    by (cases r) (auto simp: cb_place_order_def counting_def new_breaker_def maybe_half_open_def split: if_splits)
  have route: "cb_state (fst (snd (route_to_fallback_or_queue clock f q reason (open_circuit t cb, w')))) = OPEN"
    for reason t cb w'
    by (simp add: route_to_fallback_or_queue_def Let_def alert_def open_circuit_def split: option.split prod.split)
  show "cb_state (fst (snd (cb_place_order clock p f q (counting thr cd n, w)))) = OPEN
      \<longleftrightarrow> thr \<le> failures_since_success (rs @ [r])" if "failures_since_success rs = n"
    using assms that route
    by (cases r) (auto simp: cb_place_order_def counting_def new_breaker_def maybe_half_open_def Let_def)
qed

lemma breaker_transparent:
  assumes "place_all p qs w = (rs, w1)" and "\<And>k. k \<le> length rs \<Longrightarrow> failures_since_success (take k rs) < thr"
  shows "place_all (breaker_adapter clock p f) qs (counting thr cd 0, w)
      = (rs, (counting thr cd (failures_since_success rs), w1))"
  using assms
proof (induction qs arbitrary: rs w1 rule: rev_induct)
  case (snoc q qs)
  obtain rs' w' where init: "place_all p qs w = (rs', w')" by fastforce
  obtain r where r: "ad_place_order p q w' = (r, w1)" "rs = rs' @ [r]"
    using snoc.prems(1) init by (auto simp: place_all_snoc split: prod.splits)
  have below: "failures_since_success (take k rs') < thr" if "k \<le> length rs'" for k
    using snoc.prems(2)[of k] that r(2) by simp
  have "failures_since_success (rs' @ [r]) < thr" using snoc.prems(2)[of "length rs"] r(2) by simp
  moreover have "failures_since_success rs' < thr" using below[of "length rs'"] by simp
  ultimately show ?case
    using snoc.IH[OF init below] closed_step(1)[OF r(1)] r(2)
    by (simp add: place_all_snoc breaker_adapter_def)
qed (simp add: counting_def new_breaker_def)

lemma new_breaker_counting: "new_breaker thr cd = counting thr cd 0"
  by (simp add: counting_def new_breaker_def)

text \<open>A closed circuit is transparent, and it opens exactly at the threshold. As long as the
  primary's server failures since its last success stay below the threshold, placing any series of
  orders through the breaker gives the primary's own answers and effects and nothing else; and on
  the next order the circuit opens exactly when that count reaches the threshold. Client errors in
  between neither count nor end the series.\<close>
theorem circuit_opens_exactly:
  assumes "place_all p qs w = (rs, w1)" and "\<forall>k \<le> length rs. failures_since_success (take k rs) < thr"
  shows "\<exists>cb. place_all (breaker_adapter clock p f) qs (new_breaker thr cooldown, w) = (rs, (cb, w1))
      \<and> cb_state cb = CLOSED \<and> cb_consecutive_failures cb = failures_since_success rs
      \<and> cb_queued_orders cb = [] \<and> cb_alerts cb = []
      \<and> (\<forall>q r w2. ad_place_order p q w1 = (r, w2) \<longrightarrow>
           (cb_state (fst (snd (cb_place_order clock p f q (cb, w1)))) = OPEN
              \<longleftrightarrow> thr \<le> failures_since_success (rs @ [r])))"
proof -
  let ?cb = "counting thr cooldown (failures_since_success rs)"
  have below: "failures_since_success rs < thr" using assms(2) by (metis order_refl take_all_iff)
  have "place_all (breaker_adapter clock p f) qs (new_breaker thr cooldown, w) = (rs, (?cb, w1))"
    unfolding new_breaker_counting by (rule breaker_transparent[OF assms(1)]) (use assms(2) in blast)
  moreover have "\<forall>q r w2. ad_place_order p q w1 = (r, w2) \<longrightarrow>
      (cb_state (fst (snd (cb_place_order clock p f q (?cb, w1)))) = OPEN \<longleftrightarrow> thr \<le> failures_since_success (rs @ [r]))"
    by (intro allI impI closed_step(2)[OF _ below refl])
  ultimately show ?thesis by (intro exI[of _ ?cb]) (simp add: counting_def new_breaker_def)
qed

text \<open>An open circuit shields the primary. Until the cooldown has passed, what an order placed on an
  open circuit answers and does is the same for every primary whatsoever; the circuit stays open;
  and without a fallback nothing outside the program changes: the order is appended to the queue
  and the caller gets the administrator's alert.\<close>
theorem open_circuit_shields_primary:
  assumes "cb_state cb = OPEN" and "cb_opened_at cb = Some t" and "clock w - t < cb_cooldown cb"
  shows "cb_place_order clock p f q (cb, w) = cb_place_order clock p' f q (cb, w)
    \<and> (case cb_place_order clock p f q (cb, w) of (r, (cb', w')) \<Rightarrow>
         cb_state cb' = OPEN \<and> cb_opened_at cb' = Some t
         \<and> (f = None \<longrightarrow> w' = w \<and> (\<exists>m. r = Inl (AdminAlert m))
              \<and> (\<exists>why. cb_queued_orders cb' = cb_queued_orders cb @
                   [\<lparr>qo_order = q, qo_queued_at = clock w, qo_reason = why\<rparr>])))"
  using assms
  by (auto simp: cb_place_order_def maybe_half_open_def route_to_fallback_or_queue_def Let_def alert_def
      split: option.split prod.split)

section \<open>Sample brokers\<close>

definition sample_request_order :: order_request where
  "sample_request_order = \<lparr>oq_symbol = ''INFY'', oq_side = BUY, oq_order_type = MARKET, oq_quantity = 10,
     oq_product = INTRADAY, oq_limit_price = None, oq_trigger_price = None, oq_validity = DAY, oq_tag = None\<rparr>"

definition ack :: "order_request \<Rightarrow> order_response" where
  "ack q = \<lparr>or_broker_order_id = ''b1'', or_status = OS_OPEN, or_symbol = oq_symbol q, or_side = oq_side q,
     or_order_type = oq_order_type q, or_quantity = oq_quantity q, or_filled_quantity = 0,
     or_average_price = None, or_limit_price = oq_limit_price q, or_rejection_reason = None\<rparr>"

text \<open>A broker that takes the order and answers as given; its world is the orders it took.\<close>
definition taking_broker :: "(order_request \<Rightarrow> adapter_error + order_response) \<Rightarrow> order_request list adapter" where
  "taking_broker answer =
    (let no = Inl (BrokerRaised (BrokerFault ''unsupported'')) in
     \<lparr>ad_place_order = (\<lambda>q w. (answer q, w @ [q])), ad_modify_order = (\<lambda>_ _ _ _ _ w. (no, w)),
      ad_cancel_order = (\<lambda>_ w. (no, w)), ad_get_order_book = (\<lambda>w. (Inr (map ack w), w)),
      ad_get_margin = (\<lambda>w. (Inl (BrokerRaised (BrokerFault ''unsupported'')), w)),
      ad_get_positions = (\<lambda>w. (Inr [], w)), ad_get_quote = (\<lambda>_ w. (Inl (BrokerRaised (BrokerFault ''unsupported'')), w)),
      ad_get_option_chain = (\<lambda>_ _ w. (Inl (BrokerRaised (BrokerFault ''unsupported'')), w)),
      ad_list_expiries = (\<lambda>_ w. (Inr [], w))\<rparr>)"

abbreviation timing_out :: "order_request \<Rightarrow> adapter_error + order_response" where
  "timing_out q \<equiv> Inl (BrokerRaised (TimeoutException ''read timeout''))"

theorem circuit_opens_exactly_witness:
  "cb_state (fst (snd (cb_place_order (\<lambda>_. 0) (taking_broker timing_out) None sample_request_order
      (snd (place_all (breaker_adapter (\<lambda>_. 0) (taking_broker timing_out) None) [sample_request_order]
         (new_breaker 2 60, [])))))) = OPEN"
proof -
  let ?q = sample_request_order and ?p = "taking_broker timing_out"
  have "place_all ?p [?q] [] = ([timing_out ?q], [?q])" by (simp add: taking_broker_def Let_def)
  moreover have f: "failures_since_success (take k [timing_out ?q]) < 2" for k
    by (cases k) (auto simp: failures_since_success_def)
  ultimately obtain cb where "place_all (breaker_adapter (\<lambda>_. 0) ?p None) [?q] (new_breaker 2 60, []) = ([timing_out ?q], (cb, [?q]))"
    "\<And>q r w2. ad_place_order ?p q [?q] = (r, w2) \<Longrightarrow>
       cb_state (fst (snd (cb_place_order (\<lambda>_. 0) ?p None q (cb, [?q])))) = OPEN
         \<longleftrightarrow> 2 \<le> failures_since_success ([timing_out ?q] @ [r])"
    using circuit_opens_exactly[of ?p "[?q]" "[]" "[timing_out ?q]" "[?q]" 2 "\<lambda>_. 0" None 60] by fastforce
  then show ?thesis by (simp add: taking_broker_def Let_def failures_since_success_def server_failure_def)
qed

theorem open_circuit_shields_primary_witness:
  "snd (snd (cb_place_order (\<lambda>_. 30) (taking_broker timing_out) None sample_request_order
      (open_circuit 0 (new_breaker 3 60), []))) = []"
proof -
  let ?r = "cb_place_order (\<lambda>_. 30) (taking_broker timing_out) None sample_request_order
      (open_circuit 0 (new_breaker 3 60), [])"
  obtain r cb' w' where r: "?r = (r, (cb', w'))" using prod.exhaust by metis
  show ?thesis
    using open_circuit_shields_primary[of "open_circuit 0 (new_breaker 3 60)" 0 "\<lambda>_. 30" "[]" "taking_broker timing_out"
      None sample_request_order]
    unfolding r by (simp add: open_circuit_def new_breaker_def)
qed

end
