(* ===== verification/KillSwitch.thy ===== *)
theory KillSwitch
  imports Prelude
begin

text \<open>
  The two stop conditions of the risk engine that carry their own state: the maximum-drawdown
  kill switch (\<open>src/engine/risk/kill_switch.py\<close>), which latches, and the WebSocket latency guard
  (\<open>src/engine/risk/ws_latency_guard.py\<close>), which clears itself. The locale \<open>latching\<close> is the
  contract the execution pipelines rely on: no sequence of updates clears a tripped switch.
\<close>

section \<open>A latching switch\<close>

locale latching =
  fixes feed :: "'i \<Rightarrow> 's \<Rightarrow> 's"
    and tripped :: "'s \<Rightarrow> bool"
  assumes feed_latch: "tripped s \<Longrightarrow> tripped (feed i s)"
begin

definition run :: "'i list \<Rightarrow> 's \<Rightarrow> 's" where
  "run is s = foldl (\<lambda>s i. feed i s) s is"

lemma run_Nil [simp]: "run [] s = s"
  by (simp add: run_def)

lemma run_Cons [simp]: "run (i # is) s = run is (feed i s)"
  by (simp add: run_def)

lemma run_append: "run (is @ js) s = run js (run is s)"
  by (simp add: run_def)

lemma run_latch: "tripped s \<Longrightarrow> tripped (run is s)"
  by (induction "is" arbitrary: s) (auto intro: feed_latch)

lemma run_mono: "tripped (run is s) \<Longrightarrow> tripped (run (is @ js) s)"
  by (simp add: run_append run_latch)

lemma first_trip:
  assumes "tripped (run is s)" and "\<not> tripped s"
  shows "\<exists>k < length is. \<not> tripped (run (take k is) s) \<and> tripped (run (take (Suc k) is) s)"
  using assms
proof (induction "is" arbitrary: s)
  case (Cons i "is")
  show ?case
  proof (cases "tripped (feed i s)")
    case True
    then show ?thesis using Cons.prems by (intro exI[of _ 0]) simp
  next
    case False
    then obtain k where "k < length is" "\<not> tripped (run (take k is) (feed i s))"
      "tripped (run (take (Suc k) is) (feed i s))"
      using Cons.IH[of "feed i s"] Cons.prems(1) by auto
    then show ?thesis by (intro exI[of _ "Suc k"]) simp
  qed
qed simp

end

section \<open>The drawdown kill switch\<close>

definition DEFAULT_KILL_SWITCH_THRESHOLD :: real where
  "DEFAULT_KILL_SWITCH_THRESHOLD = 15 / 100"

record kill_switch_result =
  ksr_drawdown :: real
  ksr_threshold :: real
  ksr_triggered :: bool

record kill_switch =
  ks_threshold :: real
  ks_peak_equity :: "real option"
  ks_triggered :: bool

definition new_kill_switch :: "real \<Rightarrow> kill_switch" where
  "new_kill_switch thr = \<lparr>ks_threshold = thr, ks_peak_equity = None, ks_triggered = False\<rparr>"

definition next_peak :: "real \<Rightarrow> real option \<Rightarrow> real" where
  "next_peak equity peak = (case peak of None \<Rightarrow> equity | Some p \<Rightarrow> if equity > p then equity else p)"

definition drawdown_from :: "real \<Rightarrow> real \<Rightarrow> real" where
  "drawdown_from peak equity = (if peak \<noteq> 0 then (peak - equity) / peak else 0)"

definition ks_update :: "real \<Rightarrow> kill_switch \<Rightarrow> kill_switch_result \<times> kill_switch" where
  "ks_update equity ks =
    (let peak = next_peak equity (ks_peak_equity ks);
         dd = drawdown_from peak equity;
         trig = (if dd \<ge> ks_threshold ks then True else ks_triggered ks)
     in (\<lparr>ksr_drawdown = dd, ksr_threshold = ks_threshold ks, ksr_triggered = trig\<rparr>,
         ks\<lparr>ks_peak_equity := Some peak, ks_triggered := trig\<rparr>))"

definition ks_trip :: "kill_switch \<Rightarrow> kill_switch" where
  "ks_trip ks = ks\<lparr>ks_triggered := True\<rparr>"

definition ks_reset :: "kill_switch \<Rightarrow> kill_switch" where
  "ks_reset ks = ks\<lparr>ks_triggered := False, ks_peak_equity := None\<rparr>"

abbreviation ks_feed :: "real \<Rightarrow> kill_switch \<Rightarrow> kill_switch" where
  "ks_feed equity ks \<equiv> snd (ks_update equity ks)"

lemma ks_feed_simps [simp]:
  "ks_threshold (ks_feed e ks) = ks_threshold ks"
  "ks_peak_equity (ks_feed e ks) = Some (next_peak e (ks_peak_equity ks))"
  "ks_triggered (ks_feed e ks) \<longleftrightarrow>
     ks_triggered ks \<or> drawdown_from (next_peak e (ks_peak_equity ks)) e \<ge> ks_threshold ks"
  by (auto simp: ks_update_def Let_def)

interpretation drawdown: latching ks_feed ks_triggered
  by unfold_locales simp

definition ks_run :: "real list \<Rightarrow> kill_switch \<Rightarrow> kill_switch" where
  "ks_run es ks = foldl (\<lambda>ks e. ks_feed e ks) ks es"

lemma ks_run_Nil [simp]: "ks_run [] ks = ks"
  by (simp add: ks_run_def)

lemma ks_run_Cons [simp]: "ks_run (e # es) ks = ks_run es (ks_feed e ks)"
  by (simp add: ks_run_def)

lemma drawdown_run_eq: "drawdown.run = ks_run"
  by (intro ext) (simp add: drawdown.run_def ks_run_def)

lemmas ks_run_latch = drawdown.run_latch [unfolded drawdown_run_eq]
lemmas ks_first_trip = drawdown.first_trip [unfolded drawdown_run_eq]

subsection \<open>What the switch decides, stated without its state\<close>

definition breach_at :: "real \<Rightarrow> real list \<Rightarrow> nat \<Rightarrow> bool" where
  "breach_at thr es k = (drawdown_from (Max (set (take (Suc k) es))) (es ! k) \<ge> thr)"

lemma ks_run_threshold [simp]: "ks_threshold (ks_run es ks) = ks_threshold ks"
  by (induction es rule: rev_induct) (simp_all add: ks_run_def)

lemma ks_run_snoc: "ks_run (es @ [e]) ks = ks_feed e (ks_run es ks)"
  by (simp add: ks_run_def)

lemma ks_peak_run:
  "es \<noteq> [] \<Longrightarrow> ks_peak_equity (ks_run es (new_kill_switch thr)) = Some (Max (set es))"
proof (induction es rule: rev_induct)
  case (snoc e es)
  show ?case
  proof (cases "es = []")
    case True
    then show ?thesis by (simp add: ks_run_snoc new_kill_switch_def next_peak_def)
  next
    case False
    with snoc.IH have "ks_peak_equity (ks_run es (new_kill_switch thr)) = Some (Max (set es))"
      by simp
    moreover have "Max (set (es @ [e])) = max e (Max (set es))" using False by simp
    ultimately show ?thesis
      by (simp add: ks_run_snoc next_peak_def max_def)
  qed
qed simp

lemma next_peak_run:
  "next_peak e (ks_peak_equity (ks_run es (new_kill_switch thr))) = Max (set (es @ [e]))"
  using ks_peak_run[of "es @ [e]" thr] by (simp add: ks_run_snoc)

lemma breach_at_append: "k < length es \<Longrightarrow> breach_at thr (es @ fs) k = breach_at thr es k"
  by (simp add: breach_at_def nth_append)

lemma drawdown_nonpos_peak: "p < 0 \<Longrightarrow> e \<le> p \<Longrightarrow> drawdown_from p e \<le> 0"
  by (auto simp: drawdown_from_def divide_nonneg_neg)

text \<open>Functional characterisation of the drawdown kill switch. Starting from a fresh switch
  and feeding any sequence of equity readings, the switch is triggered exactly when at some
  reading the drawdown from the highest equity seen so far had reached the threshold: the
  running-peak state of \<open>update\<close> computes the declarative specification.\<close>
theorem kill_switch_triggered_iff:
  "ks_triggered (ks_run es (new_kill_switch thr)) \<longleftrightarrow> (\<exists>k<length es. breach_at thr es k)"
proof (induction es rule: rev_induct)
  case Nil
  then show ?case by (simp add: new_kill_switch_def)
next
  case (snoc e es)
  have "ks_triggered (ks_run (es @ [e]) (new_kill_switch thr)) \<longleftrightarrow>
      ks_triggered (ks_run es (new_kill_switch thr)) \<or> breach_at thr (es @ [e]) (length es)"
    using next_peak_run[of e es thr]
    by (simp add: ks_run_snoc breach_at_def new_kill_switch_def)
  also have "\<dots> \<longleftrightarrow> (\<exists>k<length (es @ [e]). breach_at thr (es @ [e]) k)"
    using snoc.IH by (auto simp: less_Suc_eq breach_at_append)
  finally show ?case .
qed

section \<open>The WebSocket latency guard\<close>

definition DEFAULT_WS_LATENCY_THRESHOLD_SECONDS :: real where
  "DEFAULT_WS_LATENCY_THRESHOLD_SECONDS = 1 / 10"

record latency_check_result =
  lcr_latency_seconds :: real
  lcr_threshold_seconds :: real
  lcr_paused :: bool

record ws_latency_guard =
  wg_threshold_seconds :: real
  wg_paused :: bool
  wg_last_latency_seconds :: "real option"

definition new_ws_latency_guard :: "real \<Rightarrow> ws_latency_guard" where
  "new_ws_latency_guard thr =
    \<lparr>wg_threshold_seconds = thr, wg_paused = False, wg_last_latency_seconds = None\<rparr>"

definition wg_record :: "real \<Rightarrow> ws_latency_guard \<Rightarrow> latency_check_result \<times> ws_latency_guard" where
  "wg_record latency g =
    (let p = (latency > wg_threshold_seconds g) in
     (\<lparr>lcr_latency_seconds = latency, lcr_threshold_seconds = wg_threshold_seconds g,
       lcr_paused = p\<rparr>,
      g\<lparr>wg_last_latency_seconds := Some latency, wg_paused := p\<rparr>))"

lemma wg_record_simps [simp]:
  "wg_threshold_seconds (snd (wg_record l g)) = wg_threshold_seconds g"
  "wg_paused (snd (wg_record l g)) \<longleftrightarrow> l > wg_threshold_seconds g"
  "wg_last_latency_seconds (snd (wg_record l g)) = Some l"
  "lcr_paused (fst (wg_record l g)) \<longleftrightarrow> l > wg_threshold_seconds g"
  by (simp_all add: wg_record_def Let_def)

definition wg_run :: "real list \<Rightarrow> ws_latency_guard \<Rightarrow> ws_latency_guard" where
  "wg_run ls g = foldl (\<lambda>g l. snd (wg_record l g)) g ls"

lemma wg_run_threshold [simp]: "wg_threshold_seconds (wg_run ls g) = wg_threshold_seconds g"
  by (induction ls rule: rev_induct) (simp_all add: wg_run_def)

lemma wg_run_snoc_paused: "wg_paused (wg_run (ls @ [l]) g) \<longleftrightarrow> l > wg_threshold_seconds g"
  using wg_run_threshold[of ls g] by (simp add: wg_run_def)

end
