(* ===== verification/Execution.thy ===== *)
theory Execution
  imports Breaker KillSwitch AgentRegistry
begin

text \<open>
  The execution agent (\<open>src/engine/live/execution_agent.py\<close>), which turns a signal's order into a broker
  order with retries on timeouts, a persisted row and a polling task, and the kill switch service
  (\<open>src/engine/risk/kill_switch_service.py\<close>). A call reads the clock of the world; \<open>sleep\<close> is what the
  world does while the agent waits. The publication to the order stream is best effort and not modelled.
\<close>

section \<open>Values\<close>

fun order_status_value :: "order_status \<Rightarrow> string" where
  "order_status_value OS_PENDING = ''PENDING''" | "order_status_value OS_OPEN = ''OPEN''"
| "order_status_value OS_PARTIALLY_FILLED = ''PARTIALLY_FILLED''" | "order_status_value OS_FILLED = ''FILLED''"
| "order_status_value OS_CANCELLED = ''CANCELLED''" | "order_status_value OS_REJECTED = ''REJECTED''"

fun side_value :: "side \<Rightarrow> string" where
  "side_value BUY = ''BUY''" | "side_value SELL = ''SELL''"

definition TERMINAL_STATUSES :: "order_status set" where
  "TERMINAL_STATUSES = {OS_FILLED, OS_CANCELLED, OS_REJECTED}"

section \<open>The execution agent\<close>

record execution_agent =
  ea_max_retries :: nat
  ea_base_delay_seconds :: real
  ea_poll_interval_seconds :: real
  ea_max_polls :: nat

definition default_agent :: execution_agent where
  "default_agent = \<lparr>ea_max_retries = 3, ea_base_delay_seconds = 1 / 2, ea_poll_interval_seconds = 1, ea_max_polls = 60\<rparr>"

datatype execution_error = ExecutionAgentDisabled | ExecutionFailed string | FromBroker adapter_error

record execution_result =
  er_order_response :: order_response
  er_latency_ms :: real
  er_retry_count :: nat
  er_tracking :: bool

fun is_timeout :: "adapter_error \<Rightarrow> bool" where
  "is_timeout (BrokerRaised (TimeoutException _)) = True"
| "is_timeout _ = False"

text \<open>The attempts still to make, as the loop numbers them.\<close>
fun try_attempts ::
  "execution_agent \<Rightarrow> (real \<Rightarrow> 'w \<Rightarrow> 'w) \<Rightarrow> 'w adapter \<Rightarrow> order_request \<Rightarrow> nat list \<Rightarrow> 'w
    \<Rightarrow> (execution_error + (order_response \<times> nat)) \<times> 'w" where
  "try_attempts ag sleep broker q [] w =
    (Inl (ExecutionFailed (''Order for '' @ oq_symbol q @ '' timed out after ''
       @ show_int (int (ea_max_retries ag) + 1) @ '' attempts'')), w)"
| "try_attempts ag sleep broker q (attempt # rest) w =
    (case ad_place_order broker q w of
       (Inr response, w1) \<Rightarrow> (Inr (response, attempt), w1)
     | (Inl e, w1) \<Rightarrow>
        if \<not> is_timeout e then (Inl (FromBroker e), w1)
        else if attempt = ea_max_retries ag then try_attempts ag sleep broker q [] w1
        else try_attempts ag sleep broker q rest (sleep (ea_base_delay_seconds ag * 2 ^ attempt) w1))"

definition place_with_backoff ::
  "execution_agent \<Rightarrow> (real \<Rightarrow> 'w \<Rightarrow> 'w) \<Rightarrow> 'w adapter \<Rightarrow> order_request \<Rightarrow> 'w
    \<Rightarrow> (execution_error + (order_response \<times> nat)) \<times> 'w" where
  "place_with_backoff ag sleep broker q w = try_attempts ag sleep broker q [0..<ea_max_retries ag + 1] w"

definition create_order_row :: "env \<Rightarrow> order_response \<Rightarrow> nat \<Rightarrow> nat \<Rightarrow> real \<Rightarrow> db \<Rightarrow> db" where
  "create_order_row env r account_id strategy_id latency_ms d =
    (let row = \<lparr>ord_id = db_next_id d, ord_account_id = account_id, ord_strategy_id = strategy_id,
           ord_broker_order_id = Some (or_broker_order_id r), ord_symbol = or_symbol r, ord_side = or_side r,
           ord_order_type = or_order_type r, ord_quantity = or_quantity r, ord_limit_price = or_limit_price r,
           ord_status = or_status r, ord_requested_at = e_now env,
           ord_acknowledged_at = (if or_status r = OS_PENDING then None else Some (e_now env)),
           ord_latency_ms = Some \<lfloor>latency_ms\<rfloor>, ord_rejection_reason = or_rejection_reason r\<rparr>;
         d1 = d\<lparr>db_orders := db_orders d @ [row], db_next_id := Suc (db_next_id d)\<rparr>
     in snd (write_audit_entry env (audit_entry System ''execution_agent'' ''ORDER_PLACED'' ''Order'' (Some (ord_id row))
          None (Some (JObj [(''broker_order_id'', JStr (or_broker_order_id r)), (''symbol'', JStr (or_symbol r)),
             (''side'', JStr (side_value (or_side r))), (''quantity'', JInt (or_quantity r)),
             (''status'', JStr (order_status_value (or_status r)))]))) d1))"

definition execute_signal ::
  "env \<Rightarrow> execution_agent \<Rightarrow> ('w \<Rightarrow> timestamp) \<Rightarrow> (real \<Rightarrow> 'w \<Rightarrow> 'w) \<Rightarrow> 'w adapter \<Rightarrow> order_request \<Rightarrow> nat \<Rightarrow> nat
    \<Rightarrow> db \<times> 'w \<Rightarrow> (execution_error + execution_result) \<times> db \<times> 'w" where
  "execute_signal env ag clock sleep broker q account_id strategy_id st =
    (case st of (d, w) \<Rightarrow>
      if \<not> is_agent_enabled d ''execution_agent'' then (Inl ExecutionAgentDisabled, (d, w))
      else
       (case place_with_backoff ag sleep broker q w of
          (Inl e, w1) \<Rightarrow> (Inl e, (d, w1))
        | (Inr (response, retry_count), w1) \<Rightarrow>
           (let latency_ms = of_int (clock w1 - clock w) / 1000;
                d1 = create_order_row (env\<lparr>e_now := clock w1\<rparr>) response account_id strategy_id latency_ms d
            in (Inr \<lparr>er_order_response = response, er_latency_ms = latency_ms, er_retry_count = retry_count,
                  er_tracking = (or_status response \<notin> TERMINAL_STATUSES)\<rparr>, (d1, w1)))))"

definition update_order_row :: "timestamp \<Rightarrow> order_response \<Rightarrow> db \<Rightarrow> db" where
  "update_order_row now r d =
    d\<lparr>db_orders := update_first (\<lambda>x. ord_broker_order_id x = Some (or_broker_order_id r))
        (\<lambda>x. x\<lparr>ord_status := or_status r, ord_rejection_reason := or_rejection_reason r,
               ord_acknowledged_at := (if ord_acknowledged_at x = None \<and> or_status r \<noteq> OS_PENDING then Some now
                 else ord_acknowledged_at x)\<rparr>) (db_orders d)\<rparr>"

text \<open>The polling task, with the polls it has left. An exception of the broker ends it.\<close>
fun track_until_terminal ::
  "nat \<Rightarrow> execution_agent \<Rightarrow> ('w \<Rightarrow> timestamp) \<Rightarrow> (real \<Rightarrow> 'w \<Rightarrow> 'w) \<Rightarrow> 'w adapter \<Rightarrow> string \<Rightarrow> db \<times> 'w
    \<Rightarrow> (adapter_error + order_status option) \<times> db \<times> 'w" where
  "track_until_terminal 0 ag clock sleep broker oid (d, w) = (Inr None, (d, w))"
| "track_until_terminal (Suc polls) ag clock sleep broker oid (d, w) =
    (case ad_get_order_book broker (sleep (ea_poll_interval_seconds ag) w) of
       (Inl e, w1) \<Rightarrow> (Inl e, (d, w1))
     | (Inr book, w1) \<Rightarrow>
        (case List.find (\<lambda>x. or_broker_order_id x = oid) book of
           None \<Rightarrow> track_until_terminal polls ag clock sleep broker oid (d, w1)
         | Some match \<Rightarrow>
            (let d1 = update_order_row (clock w1) match d in
             if or_status match \<in> TERMINAL_STATUSES then (Inr (Some (or_status match)), (d1, w1))
             else track_until_terminal polls ag clock sleep broker oid (d1, w1))))"

section \<open>Retries\<close>

text \<open>The world before each attempt, were all earlier ones to time out.\<close>
fun world_before :: "execution_agent \<Rightarrow> (real \<Rightarrow> 'w \<Rightarrow> 'w) \<Rightarrow> 'w adapter \<Rightarrow> order_request \<Rightarrow> 'w \<Rightarrow> nat \<Rightarrow> 'w" where
  "world_before ag sleep broker q w 0 = w"
| "world_before ag sleep broker q w (Suc n) =
    sleep (ea_base_delay_seconds ag * 2 ^ n) (snd (ad_place_order broker q (world_before ag sleep broker q w n)))"

definition times_out :: "(adapter_error + 'a) \<times> 'w \<Rightarrow> bool" where
  "times_out r = (case fst r of Inl e \<Rightarrow> is_timeout e | Inr _ \<Rightarrow> False)"

lemma times_out_cases:
  "times_out r \<Longrightarrow> \<exists>m w1. r = (Inl (BrokerRaised (TimeoutException m)), w1)"
  by (cases r) (auto simp: times_out_def split: sum.splits elim: is_timeout.elims)

lemma attempts_reach:
  assumes "n \<le> ea_max_retries ag" "j \<le> n"
    and "\<And>k. k < n \<Longrightarrow> times_out (ad_place_order broker q (world_before ag sleep broker q w k))"
  shows "try_attempts ag sleep broker q [n - j..<Suc (ea_max_retries ag)] (world_before ag sleep broker q w (n - j))
    = try_attempts ag sleep broker q [n..<Suc (ea_max_retries ag)] (world_before ag sleep broker q w n)"
  using assms(2)
proof (induction j)
  case (Suc j)
  let ?k = "n - Suc j"
  have k: "Suc ?k = n - j" "?k < n" "?k < ea_max_retries ag" using Suc.prems assms(1) by auto
  have "[?k..<Suc (ea_max_retries ag)] = ?k # [n - j..<Suc (ea_max_retries ag)]"
    using k by (simp add: upt_conv_Cons del: upt_Suc)
  moreover obtain m w1 where "ad_place_order broker q (world_before ag sleep broker q w ?k)
      = (Inl (BrokerRaised (TimeoutException m)), w1)"
    using times_out_cases[OF assms(3)[OF k(2)]] by blast
  moreover from this have "world_before ag sleep broker q w (n - j) = sleep (ea_base_delay_seconds ag * 2 ^ ?k) w1"
    by (subst k(1)[symmetric]) simp
  ultimately show ?case using Suc k by (simp del: upt_Suc)
qed simp

lemma first_answer:
  assumes "n \<le> ea_max_retries ag"
    and "\<forall>k<n. times_out (ad_place_order broker q (world_before ag sleep broker q w k))"
  shows "case ad_place_order broker q (world_before ag sleep broker q w n) of (ans, w1) \<Rightarrow>
    (\<forall>r. ans = Inr r \<longrightarrow> place_with_backoff ag sleep broker q w = (Inr (r, n), w1))
    \<and> (\<forall>e. ans = Inl e \<longrightarrow> \<not> is_timeout e \<longrightarrow> place_with_backoff ag sleep broker q w = (Inl (FromBroker e), w1))
    \<and> (\<forall>e. ans = Inl e \<longrightarrow> is_timeout e \<longrightarrow> n = ea_max_retries ag \<longrightarrow>
         (\<exists>msg. place_with_backoff ag sleep broker q w = (Inl (ExecutionFailed msg), w1)))"
proof -
  have "place_with_backoff ag sleep broker q w
      = try_attempts ag sleep broker q [n..<Suc (ea_max_retries ag)] (world_before ag sleep broker q w n)"
    using attempts_reach[OF assms(1), of n broker q sleep w] assms(2) by (simp add: place_with_backoff_def)
  moreover have "[n..<Suc (ea_max_retries ag)] = n # [Suc n..<Suc (ea_max_retries ag)]"
    using assms(1) by (simp add: upt_conv_Cons del: upt_Suc)
  ultimately show ?thesis by (auto simp del: upt_Suc)
qed

text \<open>The retry loop stops at the first answer that is not a timeout. If the first \<open>n\<close> attempts time
  out and the next does not, \<open>n\<close> not above the retry limit, the caller gets that attempt's answer,
  with \<open>n\<close> as the number of retries, and the world is the one that attempt left; if every attempt up
  to the limit times out, the placement fails after the last of them.\<close>
theorem backoff_stops_at_first_answer:
  assumes "n \<le> ea_max_retries ag"
    and "\<forall>k<n. times_out (ad_place_order broker q (world_before ag sleep broker q w k))"
  shows "case ad_place_order broker q (world_before ag sleep broker q w n) of (ans, w1) \<Rightarrow>
    (\<forall>r. ans = Inr r \<longrightarrow> place_with_backoff ag sleep broker q w = (Inr (r, n), w1))
    \<and> (\<forall>e. ans = Inl e \<longrightarrow> \<not> is_timeout e \<longrightarrow> place_with_backoff ag sleep broker q w = (Inl (FromBroker e), w1))
    \<and> (\<forall>e. ans = Inl e \<longrightarrow> is_timeout e \<longrightarrow> n = ea_max_retries ag \<longrightarrow>
         (\<exists>msg. place_with_backoff ag sleep broker q w = (Inl (ExecutionFailed msg), w1)))"
  using assms by (rule first_answer)

context order_gateway
begin

lemma attempts_send:
  assumes "ad_place_order broker = place" and "\<And>t w. sent (sleep t w) = sent w"
  shows "\<exists>k \<le> m * length ns. sent (snd (try_attempts ag sleep broker q ns w)) = sent w @ replicate k q"
proof (induction ns arbitrary: w)
  case (Cons a ns)
  let ?w = "snd (try_attempts ag sleep broker q (a # ns) w)"
  obtain ans w1 where p: "place q w = (ans, w1)" by fastforce
  have stop: "sent ?w = sent (snd (place q w)) \<or> (\<exists>w2. sent w2 = sent (snd (place q w)) \<and> ?w = snd (try_attempts ag sleep broker q ns w2))"
    using p assms by (auto split: sum.split)
  then have "\<exists>k \<le> m * length ns. sent ?w = sent (snd (place q w)) @ replicate k q"
  proof
    assume "sent ?w = sent (snd (place q w))"
    then show ?thesis by (intro exI[of _ 0]) simp
  qed (use Cons.IH in metis)
  then show ?case using sends_after by simp
qed simp

lemma signal_sends:
  assumes "ad_place_order broker = place" and "\<And>t w. sent (sleep t w) = sent w"
  shows "\<exists>k \<le> m * (ea_max_retries ag + 1).
    sent (snd (snd (execute_signal env ag clock sleep broker q acc strat (d, w)))) = sent w @ replicate k q"
proof -
  have "\<exists>k \<le> m * (ea_max_retries ag + 1). sent (snd (place_with_backoff ag sleep broker q w)) = sent w @ replicate k q"
    unfolding place_with_backoff_def
    using attempts_send[where sleep = sleep and broker = broker and ns = "[0..<ea_max_retries ag + 1]" and ag = ag and q = q and w = w]
      assms by (simp del: upt_Suc)
  moreover have "snd (snd (execute_signal env ag clock sleep broker q acc strat (d, w))) \<in> {w, snd (place_with_backoff ag sleep broker q w)}"
    by (auto simp: execute_signal_def Let_def split: sum.split prod.split)
  ultimately show ?thesis by (metis empty_iff insert_iff le0 replicate_0 append_Nil2)
qed

end

text \<open>One signal sends a bounded number of copies of its own order. Through a circuit breaker over any
  primary and any fallback, executing a signal sends to the brokers nothing but copies of that
  order, and at most two for each of the attempts of the retry loop.\<close>
theorem one_signal_sends_bounded:
  fixes slp :: "real \<Rightarrow> 'w \<Rightarrow> 'w"
  shows "\<exists>k \<le> 2 * (ea_max_retries ag + 1).
    snd (snd (snd (snd (execute_signal env ag clk (\<lambda>t (cb, w, l). (cb, slp t w, l))
        (breaker_adapter clock (watched p) (map_option watched f)) q acc strat (d, (cb, w, l))))))
      = l @ replicate k q"
  using breaker.signal_sends[of "breaker_adapter clock (watched p) (map_option watched f)" clock p f
      "\<lambda>t (cb, w, l). (cb, slp t w, l)" ag env clk q acc strat d "(cb, w, l)"]
  by (simp add: breaker_adapter_def split: prod.split)

section \<open>Executing a signal\<close>

lemma create_order_row_orders:
  "db_orders (create_order_row env r acc strat lat d) = db_orders d @
     [\<lparr>ord_id = db_next_id d, ord_account_id = acc, ord_strategy_id = strat,
       ord_broker_order_id = Some (or_broker_order_id r), ord_symbol = or_symbol r, ord_side = or_side r,
       ord_order_type = or_order_type r, ord_quantity = or_quantity r, ord_limit_price = or_limit_price r,
       ord_status = or_status r, ord_requested_at = e_now env,
       ord_acknowledged_at = (if or_status r = OS_PENDING then None else Some (e_now env)),
       ord_latency_ms = Some \<lfloor>lat\<rfloor>, ord_rejection_reason = or_rejection_reason r\<rparr>]"
  by (simp add: create_order_row_def Let_def)

lemma create_order_row_conserves: "conserves env d (create_order_row env r acc strat lat d)"
  unfolding create_order_row_def Let_def by (rule conserves_write_audit, rule conserves_same) simp_all

text \<open>What is recorded of an executed signal. A disabled execution agent touches neither the
  brokers nor the database. Otherwise the brokers see exactly the retry loop; if it yields an order,
  exactly one row is appended, with the broker's own identifier, symbol, side, quantity and status,
  and the audit log grows by one entry; if it fails, the database is untouched, whatever the brokers
  may have accepted.\<close>
theorem execute_signal_records_exactly:
  "case execute_signal env ag clock sleep broker q acc strat (d, w) of (res, (d', w')) \<Rightarrow>
     if \<not> is_agent_enabled d ''execution_agent'' then res = Inl ExecutionAgentDisabled \<and> d' = d \<and> w' = w
     else w' = snd (place_with_backoff ag sleep broker q w) \<and>
       (case fst (place_with_backoff ag sleep broker q w) of
          Inl e \<Rightarrow> res = Inl e \<and> d' = d
        | Inr (r, n) \<Rightarrow> (\<exists>x row. res = Inr x \<and> er_order_response x = r \<and> er_retry_count x = n
             \<and> (er_tracking x \<longleftrightarrow> or_status r \<notin> {OS_FILLED, OS_CANCELLED, OS_REJECTED})
             \<and> db_orders d' = db_orders d @ [row] \<and> ord_broker_order_id row = Some (or_broker_order_id r)
             \<and> ord_symbol row = or_symbol r \<and> ord_side row = or_side r \<and> ord_quantity row = or_quantity r
             \<and> ord_status row = or_status r \<and> ord_account_id row = acc \<and> ord_strategy_id row = strat
             \<and> length (db_audit d') = Suc (length (db_audit d))))"
proof -
  have "length (db_audit (create_order_row e r acc strat lat d)) = Suc (length (db_audit d))" for e r lat
    by (simp add: create_order_row_def write_audit_entry_def Let_def)
  then show ?thesis
    by (auto simp: execute_signal_def create_order_row_orders TERMINAL_STATUSES_def Let_def split: sum.split prod.split)
qed

text \<open>Two brokers that both take every order, the primary answering with a timeout.\<close>
definition ambiguous_pair :: "(order_request list \<Rightarrow> timestamp) \<Rightarrow> (circuit_breaker \<times> order_request list) adapter" where
  "ambiguous_pair clock = breaker_adapter clock (taking_broker timing_out) (Some (taking_broker (\<lambda>q. Inr (ack q))))"

lemma ambiguous_timeout:
  "Suc n < thr \<Longrightarrow> ad_place_order (ambiguous_pair clock) q (counting thr cd n, w)
     = (timing_out q, (counting thr cd (Suc n), w @ [q]))"
  by (simp add: ambiguous_pair_def breaker_adapter_def cb_place_order_def counting_def new_breaker_def
      maybe_half_open_def taking_broker_def Let_def)

lemma ambiguous_trip:
  "Suc n = thr \<Longrightarrow> \<exists>cb. ad_place_order (ambiguous_pair clock) q (counting thr cd n, w)
     = (Inr (ack q), (cb, w @ [q, q]))"
  by (auto simp: ambiguous_pair_def breaker_adapter_def cb_place_order_def counting_def new_breaker_def
      maybe_half_open_def taking_broker_def route_to_fallback_or_queue_def Let_def)

lemma ambiguous_world:
  "k < thr \<Longrightarrow> world_before ag (\<lambda>_ st. st) (ambiguous_pair clock) q (counting thr cd 0, w) k
     = (counting thr cd k, w @ replicate k q)"
  by (induction k) (simp_all add: ambiguous_timeout replicate_append_same[symmetric])

text \<open>Timeouts multiply an order. When the primary takes orders but answers with timeouts, one signal
  executed through a fresh breaker with a fallback places the order once more than the breaker's
  threshold, provided the retry limit lets it get that far: each retry repeats it at the primary and
  the opening of the circuit adds the fallback's copy. The caller sees one success and the database
  one order. With the defaults of the code, a threshold of three and three retries, four are live.\<close>
theorem timeouts_multiply_order:
  assumes "is_agent_enabled d ''execution_agent''" and "0 < thr" and "thr \<le> ea_max_retries ag + 1"
  shows "case execute_signal env ag clk (\<lambda>_ st. st) (ambiguous_pair clock) q acc strat (d, (new_breaker thr cd, w)) of
      (res, (d', (cb, w'))) \<Rightarrow> w' = w @ replicate (Suc thr) q \<and> (\<exists>x. res = Inr x)
        \<and> length (db_orders d') = Suc (length (db_orders d))"
proof -
  obtain n where n: "thr = Suc n" using assms(2) by (cases thr) simp_all
  obtain cb where last: "ad_place_order (ambiguous_pair clock) q (world_before ag (\<lambda>_ st. st) (ambiguous_pair clock) q (counting thr cd 0, w) n)
      = (Inr (ack q), (cb, w @ replicate n q @ [q, q]))"
    using ambiguous_trip[of n thr clock q cd "w @ replicate n q"] by (auto simp: n ambiguous_world)
  have "times_out (ad_place_order (ambiguous_pair clock) q (world_before ag (\<lambda>_ st. st) (ambiguous_pair clock) q (counting thr cd 0, w) k))"
    if "k < n" for k
    using that by (simp add: n ambiguous_world ambiguous_timeout times_out_def)
  then have "place_with_backoff ag (\<lambda>_ st. st) (ambiguous_pair clock) q (counting thr cd 0, w)
      = (Inr (ack q, n), (cb, w @ replicate n q @ [q, q]))"
    using first_answer[of n ag "ambiguous_pair clock" q "\<lambda>_ st. st" "(counting thr cd 0, w)"] assms(3) last by (simp add: n)
  moreover have "replicate n q @ [q, q] = replicate (Suc thr) q"
    using replicate_app_Cons_same[of n q "[q]"] replicate_append_same[of n q] by (simp add: n)
  ultimately show ?thesis using assms(1)
    by (simp add: execute_signal_def new_breaker_counting create_order_row_orders Let_def)
qed

theorem timeouts_multiply_order_witness:
  "case execute_signal sample_env default_agent (\<lambda>_. 0) (\<lambda>_ st. st) (ambiguous_pair (\<lambda>_. 0)) sample_request_order 1 2
      (empty_db, (new_breaker 3 60000000, [])) of
    (res, (d', (cb, w'))) \<Rightarrow> w' = replicate 4 sample_request_order \<and> length (db_orders d') = 1"
proof -
  have "is_agent_enabled empty_db ''execution_agent''" by (simp add: is_agent_enabled_def control_row_def empty_db_def)
  then show ?thesis
    using timeouts_multiply_order[where d = empty_db and thr = 3 and ag = default_agent and env = sample_env and clk = "\<lambda>_. 0"
        and clock = "\<lambda>_. 0" and q = sample_request_order and acc = 1 and strat = 2 and cd = 60000000 and w = "[]"]
    by (auto simp: default_agent_def empty_db_def eval_nat_numeral split: prod.splits)
qed

theorem backoff_stops_at_first_answer_witness:
  "place_with_backoff default_agent (\<lambda>_ w. w) (taking_broker (\<lambda>q. Inr (ack q))) sample_request_order []
     = (Inr (ack sample_request_order, 0), [sample_request_order])"
  using backoff_stops_at_first_answer[of 0 default_agent "taking_broker (\<lambda>q. Inr (ack q))" sample_request_order "\<lambda>_ w. w" "[]"]
  by (simp add: taking_broker_def Let_def)

section \<open>The kill switch service\<close>

record kill_switch_service =
  kss_switch :: kill_switch
  kss_tripped_at :: "timestamp option"
  kss_trip_reason :: "string option"

definition new_service :: kill_switch_service where
  "new_service = \<lparr>kss_switch = new_kill_switch DEFAULT_KILL_SWITCH_THRESHOLD, kss_tripped_at = None, kss_trip_reason = None\<rparr>"

definition is_tripped :: "kill_switch_service \<Rightarrow> bool" where
  "is_tripped s = ks_triggered (kss_switch s)"

definition get_status :: "kill_switch_service \<Rightarrow> json" where
  "get_status s = JObj [(''state'', JStr (if ks_triggered (kss_switch s) then ''TRIPPED'' else ''ARMED'')),
     (''tripped_at'', opt_json (\<lambda>t. JStr (isoformat t)) (kss_tripped_at s))]"

record trip_result =
  tr_liquidated_positions :: nat
  tr_cancelled_orders :: nat

definition service_actor :: "string \<Rightarrow> actor_type" where
  "service_actor actor_id = (if actor_id \<noteq> ''kill_switch_service'' then Human else System)"

definition trip_service :: "env \<Rightarrow> string \<Rightarrow> string \<Rightarrow> kill_switch_service \<times> db \<Rightarrow> trip_result \<times> kill_switch_service \<times> db" where
  "trip_service env reason actor_id st =
    (case st of (s, d) \<Rightarrow>
      (let s1 = \<lparr>kss_switch = ks_trip (kss_switch s), kss_tripped_at = Some (e_now env), kss_trip_reason = Some reason\<rparr>;
           open_orders = filter (\<lambda>x. ord_status x = OS_PENDING) (db_orders d);
           open_positions = filter (\<lambda>x. pos_net_quantity x \<noteq> 0) (db_positions d);
           d1 = d\<lparr>db_orders := update_where (\<lambda>x. ord_status x = OS_PENDING)
                    (\<lambda>x. x\<lparr>ord_status := OS_CANCELLED, ord_rejection_reason := Some (''Kill switch: '' @ reason)\<rparr>) (db_orders d),
                  db_positions := update_where (\<lambda>x. pos_net_quantity x \<noteq> 0) (\<lambda>x. x\<lparr>pos_net_quantity := 0\<rparr>) (db_positions d)\<rparr>;
           d2 = snd (write_audit_entry env (audit_entry (service_actor actor_id) actor_id ''KILL_SWITCH_TRIPPED'' ''KillSwitch'' None None
                  (Some (JObj [(''reason'', JStr reason), (''cancelled_orders'', JInt (int (length open_orders))),
                     (''liquidated_positions'', JInt (int (length open_positions)))]))) d1)
       in (\<lparr>tr_liquidated_positions = length open_positions, tr_cancelled_orders = length open_orders\<rparr>, (s1, d2))))"

definition reset_service :: "env \<Rightarrow> string \<Rightarrow> kill_switch_service \<times> db \<Rightarrow> kill_switch_service \<times> db" where
  "reset_service env actor_id st =
    (case st of (s, d) \<Rightarrow>
      (\<lparr>kss_switch = ks_reset (kss_switch s), kss_tripped_at = None, kss_trip_reason = None\<rparr>,
       snd (write_audit_entry env (audit_entry (service_actor actor_id) actor_id ''KILL_SWITCH_RESET'' ''KillSwitch'' None None None) d)))"

lemma trip_service_conserves: "conserves env d (snd (snd (trip_service env reason actor (s, d))))"
  unfolding trip_service_def Let_def prod.case snd_conv by (rule conserves_write_audit, rule conserves_same) simp_all

text \<open>The emergency stop. Tripping the kill switch service latches the switch through any later
  equity readings until a reset, cancels exactly the orders that were pending, with the stated
  reason, flattens every position, reports both counts, and leaves every order in another status as
  it was: an order open or partially filled at the broker is not cancelled.\<close>
theorem emergency_stop_effect:
  "case trip_service env reason actor (s, d) of (res, (s', d')) \<Rightarrow>
     (\<forall>es. ks_triggered (ks_run es (kss_switch s'))) \<and> \<not> ks_triggered (kss_switch (fst (reset_service env actor (s', d'))))
     \<and> length (db_orders d') = length (db_orders d)
     \<and> (\<forall>i < length (db_orders d). let x = db_orders d ! i; y = db_orders d' ! i in
          if ord_status x = OS_PENDING then y = x\<lparr>ord_status := OS_CANCELLED, ord_rejection_reason := Some (''Kill switch: '' @ reason)\<rparr>
          else y = x)
     \<and> list_all (\<lambda>p. pos_net_quantity p = 0) (db_positions d')
     \<and> map pos_symbol (db_positions d') = map pos_symbol (db_positions d)
     \<and> tr_cancelled_orders res = length (filter (\<lambda>x. ord_status x = OS_PENDING) (db_orders d))
     \<and> tr_liquidated_positions res = length (filter (\<lambda>p. pos_net_quantity p \<noteq> 0) (db_positions d))"
  by (auto simp: trip_service_def reset_service_def Let_def ks_trip_def ks_reset_def update_where_def list_all_iff intro: ks_run_latch)

theorem emergency_stop_effect_witness:
  "map ord_status (db_orders (snd (snd (trip_service sample_env ''x'' ''u'' (new_service,
      create_order_row sample_env (ack sample_request_order) 1 2 0 empty_db))))) = [OS_OPEN]"
proof -
  let ?d = "create_order_row sample_env (ack sample_request_order) 1 2 0 empty_db"
  have o: "db_orders ?d \<noteq> [] \<and> length (db_orders ?d) = 1 \<and> ord_status (db_orders ?d ! 0) = OS_OPEN"
    by (simp add: create_order_row_orders ack_def empty_db_def)
  let ?t = "trip_service sample_env ''x'' ''u'' (new_service, ?d)"
  obtain res s' d' where t: "?t = (res, (s', d'))" using prod.exhaust by metis
  have "length (db_orders d') = 1 \<and> db_orders d' ! 0 = db_orders ?d ! 0"
    using emergency_stop_effect[where env = sample_env and reason = "''x''" and actor = "''u''" and s = new_service and d = ?d] o unfolding t by (auto simp: Let_def)
  then have "map ord_status (db_orders d') = [OS_OPEN]" using o by (cases "db_orders d'") auto
  then show ?thesis by (simp only: t snd_conv)
qed

end
