(* ===== verification/Compliance.thy ===== *)
theory Compliance
  imports Brokers
begin

text \<open>
  The pre-trade checks of the hardcoded risk engine: the naked-options scan
  (\<open>src/engine/risk/naked_options_scanner.py\<close>) and the compliance verdict
  (\<open>src/engine/risk/compliance_checker.py\<close>).
\<close>

section \<open>Naked options\<close>

datatype leg_side = leg_buy | leg_sell

record option_leg =
  leg_symbol :: string
  leg_option_type :: option_type
  leg_strike :: real
  leg_side_of :: leg_side
  leg_quantity :: int

text \<open>The scan compares objects by identity (\<open>other is sold_leg\<close>), so a leg carries the position
  it has in the list as its identity.\<close>
type_synonym leg_obj = "nat \<times> option_leg"

fun has_hedge :: "leg_obj \<Rightarrow> leg_obj list \<Rightarrow> bool" where
  "has_hedge sold [] = False"
| "has_hedge sold (oth # rest) =
    (if fst oth = fst sold \<or> leg_symbol (snd oth) \<noteq> leg_symbol (snd sold) then has_hedge sold rest
     else if leg_side_of (snd oth) \<noteq> leg_buy
          \<or> leg_option_type (snd oth) \<noteq> leg_option_type (snd sold) then has_hedge sold rest
     else if leg_option_type (snd sold) = CE \<and> leg_strike (snd oth) > leg_strike (snd sold) then True
     else if leg_option_type (snd sold) = PE \<and> leg_strike (snd oth) < leg_strike (snd sold) then True
     else has_hedge sold rest)"

definition scan_for_naked_options :: "option_leg list \<Rightarrow> option_leg list" where
  "scan_for_naked_options legs =
    (let objs = enumerate 0 legs in
     map snd (filter (\<lambda>l. leg_side_of (snd l) = leg_sell \<and> \<not> has_hedge l objs) objs))"

definition scan_passed :: "option_leg list \<Rightarrow> bool" where
  "scan_passed legs = (length (scan_for_naked_options legs) = 0)"

text \<open>The specification: \<open>h\<close> caps the loss of the sold leg \<open>s\<close> when it is a bought leg of the same
  underlying and type whose strike lies strictly out of the money of it.\<close>
definition covers :: "option_leg \<Rightarrow> option_leg \<Rightarrow> bool" where
  "covers h s \<longleftrightarrow> leg_side_of h = leg_buy \<and> leg_symbol h = leg_symbol s
     \<and> leg_option_type h = leg_option_type s
     \<and> (case leg_option_type s of CE \<Rightarrow> leg_strike h > leg_strike s
                                | PE \<Rightarrow> leg_strike h < leg_strike s)"

lemma has_hedge_iff:
  "leg_side_of (snd s) = leg_sell \<Longrightarrow> \<forall>x \<in> set objs. fst x = fst s \<longrightarrow> x = s \<Longrightarrow>
   has_hedge s objs \<longleftrightarrow> (\<exists>x \<in> set objs. covers (snd x) (snd s))"
  by (induction objs) (auto simp: covers_def split: option_type.splits)

lemma enumerate_same_index:
  "x \<in> set (enumerate n xs) \<Longrightarrow> y \<in> set (enumerate n xs) \<Longrightarrow> fst x = fst y \<Longrightarrow> x = y"
  by (auto simp: in_set_enumerate_eq prod_eq_iff)

lemma snd_set_enumerate: "snd ` set (enumerate n xs) = set xs"
  by (metis list.set_map map_snd_enumerate)

lemma scan_set:
  "set (scan_for_naked_options legs)
    = {s \<in> set legs. leg_side_of s = leg_sell \<and> \<not> (\<exists>h \<in> set legs. covers h s)}"
proof -
  have 1: "has_hedge l (enumerate 0 legs) \<longleftrightarrow> (\<exists>h \<in> set legs. covers h (snd l))"
    if "l \<in> set (enumerate 0 legs)" "leg_side_of (snd l) = leg_sell" for l
  proof -
    have "has_hedge l (enumerate 0 legs)
        \<longleftrightarrow> (\<exists>x \<in> set (enumerate 0 legs). covers (snd x) (snd l))"
      using that enumerate_same_index[OF _ that(1)] by (intro has_hedge_iff) auto
    also have "\<dots> \<longleftrightarrow> (\<exists>h \<in> snd ` set (enumerate 0 legs). covers h (snd l))" by blast
    finally show ?thesis by (simp add: snd_set_enumerate)
  qed
  have "set (scan_for_naked_options legs)
      = snd ` {l \<in> set (enumerate 0 legs). leg_side_of (snd l) = leg_sell
                 \<and> \<not> has_hedge l (enumerate 0 legs)}"
    by (simp add: scan_for_naked_options_def Let_def)
  also have "\<dots> = snd ` {l \<in> set (enumerate 0 legs). leg_side_of (snd l) = leg_sell
                 \<and> \<not> (\<exists>h \<in> set legs. covers h (snd l))}"
    using 1 by (intro image_cong) auto
  also have "\<dots> = {s \<in> snd ` set (enumerate 0 legs). leg_side_of s = leg_sell
                 \<and> \<not> (\<exists>h \<in> set legs. covers h s)}"
    by blast
  finally show ?thesis by (simp add: snd_set_enumerate)
qed

section \<open>The compliance verdict\<close>

datatype rule = BR_02_NAKED_OPTIONS | SEBI_POSITION_LIMIT | CIRCUIT_FILTER

record violation =
  vi_rule :: rule
  vi_detail :: message
  vi_remediation :: message

datatype verdict = Pass | Block

record compliance_verdict =
  cv_verdict :: verdict
  cv_violations :: "violation list"
  cv_naked_options_checked :: bool
  cv_position_limit_checked :: bool
  cv_circuit_filter_checked :: bool

definition PLACEHOLDER_SEBI_POSITION_LIMITS :: "(string, int) dict" where
  "PLACEHOLDER_SEBI_POSITION_LIMITS =
    [(''RELIANCE'', 50000), (''TCS'', 40000), (''INFY'', 60000), (''HDFCBANK'', 55000),
     (''ICICIBANK'', 55000)]"

definition PLACEHOLDER_CIRCUIT_BAND_PCT :: real where
  "PLACEHOLDER_CIRCUIT_BAND_PCT = 20 / 100"

definition check_position_limit :: "string \<Rightarrow> int \<Rightarrow> (string, int) dict option \<Rightarrow> violation option" where
  "check_position_limit symbol quantity limits =
    (let lims = (case limits of None \<Rightarrow> PLACEHOLDER_SEBI_POSITION_LIMITS | Some l \<Rightarrow> l) in
     case dict_get lims symbol of
       None \<Rightarrow> None
     | Some cap \<Rightarrow>
        if \<bar>quantity\<bar> > cap then
          Some \<lparr>vi_rule = SEBI_POSITION_LIMIT,
                vi_detail = [Sym symbol, Lit '': requested quantity '', Num quantity,
                             Lit '' exceeds placeholder limit '', Num cap],
                vi_remediation = [Lit ''Reduce order quantity to at most '', Num cap,
                                  Lit '' for '', Sym symbol]\<rparr>
        else None)"

definition check_circuit_filter :: "string \<Rightarrow> real \<Rightarrow> real option \<Rightarrow> real \<Rightarrow> violation option" where
  "check_circuit_filter symbol reference_price limit_price band_pct =
    (case limit_price of
       None \<Rightarrow> None
     | Some lp \<Rightarrow>
        (let upper = reference_price * (1 + band_pct);
             lower = reference_price * (1 - band_pct) in
         if \<not> (lower \<le> lp \<and> lp \<le> upper) then
           Some \<lparr>vi_rule = CIRCUIT_FILTER,
                 vi_detail = [Sym symbol, Lit '': limit price '', Flt '''' lp,
                   Lit '' outside the placeholder +/-'', Flt ''.0%'' band_pct, Lit '' band ['',
                   Flt ''.2f'' lower, Lit '', '', Flt ''.2f'' upper, Lit ''] around reference '',
                   Flt '''' reference_price],
                 vi_remediation = [Lit ''Set a limit price within ['', Flt ''.2f'' lower,
                   Lit '', '', Flt ''.2f'' upper, Lit '']'']\<rparr>
         else None))"

definition option_type_name :: "option_type \<Rightarrow> string" where
  "option_type_name t = (case t of CE \<Rightarrow> ''CE'' | PE \<Rightarrow> ''PE'')"

definition naked_violation :: "option_leg \<Rightarrow> violation" where
  "naked_violation leg =
    \<lparr>vi_rule = BR_02_NAKED_OPTIONS,
     vi_detail = [Sym (leg_symbol leg), Lit '' '', Sym (option_type_name (leg_option_type leg)),
       Lit '' strike '', Flt '''' (leg_strike leg),
       Lit '': sold leg has no same-underlying OTM hedge''],
     vi_remediation = [Lit ''Add a same-underlying, same-type hedge leg at the correct OTM strike, or remove this leg'']\<rparr>"

definition evaluate_compliance ::
  "string \<Rightarrow> int option \<Rightarrow> real option \<Rightarrow> real option \<Rightarrow> option_leg list option \<Rightarrow> compliance_verdict" where
  "evaluate_compliance symbol quantity reference_price limit_price option_legs =
    (let v1 = (case quantity of None \<Rightarrow> [] | Some q \<Rightarrow>
                 (case check_position_limit symbol q None of None \<Rightarrow> [] | Some v \<Rightarrow> [v]));
         v2 = (case (limit_price, reference_price) of
                 (Some lp, Some rp) \<Rightarrow>
                   (case check_circuit_filter symbol rp (Some lp) PLACEHOLDER_CIRCUIT_BAND_PCT of
                      None \<Rightarrow> [] | Some v \<Rightarrow> [v])
               | _ \<Rightarrow> []);
         v3 = (case option_legs of None \<Rightarrow> [] | Some legs \<Rightarrow>
                 map naked_violation (scan_for_naked_options legs));
         violations = v1 @ v2 @ v3
     in \<lparr>cv_verdict = (if violations \<noteq> [] then Block else Pass),
         cv_violations = violations,
         cv_naked_options_checked = (option_legs \<noteq> None),
         cv_position_limit_checked = (quantity \<noteq> None),
         cv_circuit_filter_checked = (limit_price \<noteq> None \<and> reference_price \<noteq> None)\<rparr>)"

subsection \<open>The rules as predicates\<close>

definition over_limit :: "string \<Rightarrow> int \<Rightarrow> bool" where
  "over_limit symbol q \<longleftrightarrow>
    (\<exists>cap. dict_get PLACEHOLDER_SEBI_POSITION_LIMITS symbol = Some cap \<and> \<bar>q\<bar> > cap)"

definition outside_band :: "real \<Rightarrow> real \<Rightarrow> bool" where
  "outside_band rp lp \<longleftrightarrow> \<bar>lp - rp\<bar> > rp * PLACEHOLDER_CIRCUIT_BAND_PCT"

definition naked :: "option_leg list \<Rightarrow> bool" where
  "naked legs \<longleftrightarrow> (\<exists>s \<in> set legs. leg_side_of s = leg_sell \<and> (\<forall>h \<in> set legs. \<not> covers h s))"

lemma check_position_limit_iff: "check_position_limit s q None = None \<longleftrightarrow> \<not> over_limit s q"
  by (auto simp: check_position_limit_def over_limit_def Let_def split: option.splits)

lemma check_circuit_filter_iff:
  "check_circuit_filter s rp (Some lp) PLACEHOLDER_CIRCUIT_BAND_PCT = None
     \<longleftrightarrow> \<not> outside_band rp lp"
  by (auto simp: check_circuit_filter_def outside_band_def Let_def abs_if
      PLACEHOLDER_CIRCUIT_BAND_PCT_def algebra_simps)

lemma scan_nonempty_iff: "scan_for_naked_options legs = [] \<longleftrightarrow> \<not> naked legs"
  using scan_set[of legs] by (auto simp: naked_def simp flip: set_empty)

lemma option_case_list_Nil [simp]:
  "(case x of None \<Rightarrow> [] | Some v \<Rightarrow> [v]) = [] \<longleftrightarrow> x = None"
  by (cases x) auto

lemmas compliance_checks = check_position_limit_iff check_circuit_filter_iff scan_nonempty_iff

text \<open>The naked-options scan flags exactly the sold legs for which no bought leg of the same
  underlying and type lies strictly out of the money: nothing uncovered is missed and nothing
  covered is flagged.\<close>
theorem scan_flags_exactly_uncovered:
  "set (scan_for_naked_options legs)
     = {s \<in> set legs. leg_side_of s = leg_sell \<and> (\<forall>h \<in> set legs. \<not> covers h s)}
   \<and> (scan_passed legs \<longleftrightarrow> \<not> naked legs)"
  using scan_set[of legs] scan_nonempty_iff[of legs] by (auto simp: scan_passed_def)

theorem scan_flags_exactly_uncovered_witness:
  "scan_passed [\<lparr>leg_symbol = ''NIFTY'', leg_option_type = CE, leg_strike = 100,
       leg_side_of = leg_sell, leg_quantity = 1\<rparr>,
      \<lparr>leg_symbol = ''NIFTY'', leg_option_type = CE, leg_strike = 110,
       leg_side_of = leg_buy, leg_quantity = 1\<rparr>]"
  using scan_flags_exactly_uncovered[of "[\<lparr>leg_symbol = ''NIFTY'', leg_option_type = CE,
     leg_strike = 100, leg_side_of = leg_sell, leg_quantity = 1\<rparr>,
      \<lparr>leg_symbol = ''NIFTY'', leg_option_type = CE, leg_strike = 110,
       leg_side_of = leg_buy, leg_quantity = 1\<rparr>]"]
  by (simp add: naked_def covers_def)

text \<open>The verdict is Block exactly when one of the checks the caller supplied data for fails:
  the quantity exceeds the symbol's position limit, the limit price leaves the circuit band around
  the reference price, or a sold option leg is naked. A check without data never blocks, and the
  flags report which checks ran.\<close>
theorem evaluate_compliance_block_iff:
  "let v = evaluate_compliance symbol quantity rp lp legs in
    (cv_verdict v = Block \<longleftrightarrow>
       (\<exists>q. quantity = Some q \<and> over_limit symbol q)
     \<or> (\<exists>r l. rp = Some r \<and> lp = Some l \<and> outside_band r l)
     \<or> (\<exists>ls. legs = Some ls \<and> naked ls))
    \<and> (cv_verdict v = Block \<longleftrightarrow> cv_violations v \<noteq> [])
    \<and> cv_position_limit_checked v = (quantity \<noteq> None)
    \<and> cv_circuit_filter_checked v = (rp \<noteq> None \<and> lp \<noteq> None)
    \<and> cv_naked_options_checked v = (legs \<noteq> None)"
  by (cases quantity; cases rp; cases lp; cases legs)
    (auto simp: evaluate_compliance_def Let_def compliance_checks)

text \<open>The scan pairs legs one to one by strike only and ignores their quantities: a hundred
  sold calls count as hedged by a single bought call, so the uncovered quantity the rule is meant
  to exclude can be arbitrarily large.\<close>
theorem scan_ignores_quantity:
  "scan_passed [\<lparr>leg_symbol = u, leg_option_type = CE, leg_strike = 100,
       leg_side_of = leg_sell, leg_quantity = n\<rparr>,
      \<lparr>leg_symbol = u, leg_option_type = CE, leg_strike = 110,
       leg_side_of = leg_buy, leg_quantity = 1\<rparr>]"
  by (simp add: scan_passed_def scan_for_naked_options_def Let_def)

end
