(* ===== verification/Slippage.thy ===== *)
theory Slippage
  imports Brokers
begin

text \<open>
  The depth-walking fill simulation (\<open>src/engine/paper_trading/slippage_model.py\<close>): an order
  consumes the visible levels of the opposite side best first, an empty or unpriced level is
  skipped, and whatever the book cannot absorb stays unfilled.
\<close>

record fill_result =
  fr_filled_quantity :: int
  fr_average_fill_price :: "real option"
  fr_slippage_bps :: "real option"
  fr_fully_filled :: bool

record walk =
  wk_touch_price :: "real option"
  wk_remaining :: int
  wk_total_cost :: real
  wk_filled :: int

fun walk_depth :: "depth_level list \<Rightarrow> walk \<Rightarrow> walk" where
  "walk_depth [] w = w"
| "walk_depth (level # rest) w =
    (if wk_remaining w \<le> 0 then w
     else if dl_quantity level \<le> 0 \<or> dl_price level \<le> 0 then walk_depth rest w
     else
       (let take = min (wk_remaining w) (dl_quantity level) in
        walk_depth rest
          \<lparr>wk_touch_price = (case wk_touch_price w of None \<Rightarrow> Some (dl_price level) | Some p \<Rightarrow> Some p),
           wk_remaining = wk_remaining w - take,
           wk_total_cost = wk_total_cost w + of_int take * dl_price level,
           wk_filled = wk_filled w + take\<rparr>))"

datatype fill_error = NonPositiveQuantity int

definition no_fill :: fill_result where
  "no_fill = \<lparr>fr_filled_quantity = 0, fr_average_fill_price = None, fr_slippage_bps = None,
    fr_fully_filled = False\<rparr>"

definition start_walk :: "int \<Rightarrow> walk" where
  "start_walk q = \<lparr>wk_touch_price = None, wk_remaining = q, wk_total_cost = 0, wk_filled = 0\<rparr>"

definition simulate_fill :: "side \<Rightarrow> int \<Rightarrow> depth_level list \<Rightarrow> fill_error + fill_result" where
  "simulate_fill side quantity depth =
    (if quantity \<le> 0 then Inl (NonPositiveQuantity quantity)
     else if depth = [] then Inr no_fill
     else
       (let w = walk_depth depth (start_walk quantity) in
        case wk_touch_price w of
          None \<Rightarrow> Inr no_fill
        | Some touch \<Rightarrow>
            if wk_filled w = 0 then Inr no_fill
            else
              (let average = wk_total_cost w / of_int (wk_filled w);
                   slippage = (if side = BUY then (average - touch) / touch * 10000
                               else (touch - average) / touch * 10000)
               in Inr \<lparr>fr_filled_quantity = wk_filled w,
                       fr_average_fill_price = Some average,
                       fr_slippage_bps = Some (max slippage 0),
                       fr_fully_filled = (wk_filled w = quantity)\<rparr>)))"

section \<open>The specification: what a book offers\<close>

definition usable :: "depth_level \<Rightarrow> bool" where
  "usable l \<longleftrightarrow> dl_quantity l > 0 \<and> dl_price l > 0"

definition available :: "depth_level list \<Rightarrow> int" where
  "available depth = sum_list (map dl_quantity (filter usable depth))"

lemma available_simps [simp]:
  "available [] = 0"
  "available (l # ls) = (if usable l then dl_quantity l else 0) + available ls"
  by (simp_all add: available_def)

lemma available_nonneg: "0 \<le> available depth"
  by (induction depth) (auto simp: usable_def)

text \<open>Consuming a quantity of a book level by level, as a list of takes.\<close>
fun takes :: "int \<Rightarrow> depth_level list \<Rightarrow> (int \<times> real) list" where
  "takes q [] = []"
| "takes q (l # ls) =
    (if q \<le> 0 then []
     else if \<not> usable l then takes q ls
     else (min q (dl_quantity l), dl_price l) # takes (q - min q (dl_quantity l)) ls)"

definition take_qty :: "(int \<times> real) list \<Rightarrow> int" where
  "take_qty ts = sum_list (map fst ts)"

definition take_cost :: "(int \<times> real) list \<Rightarrow> real" where
  "take_cost ts = sum_list (map (\<lambda>t. of_int (fst t) * snd t) ts)"

lemma take_simps [simp]:
  "take_qty [] = 0" "take_qty (t # ts) = fst t + take_qty ts"
  "take_cost [] = 0" "take_cost (t # ts) = of_int (fst t) * snd t + take_cost ts"
  by (simp_all add: take_qty_def take_cost_def)

lemma takes_positive: "t \<in> set (takes q d) \<Longrightarrow> 0 < fst t \<and> 0 < snd t"
  by (induction q d rule: takes.induct) (auto simp: usable_def Let_def split: if_splits)

lemma takes_le: "take_qty (takes q d) \<le> max q 0"
  by (induction q d rule: takes.induct) (auto simp: Let_def split: if_splits)

lemma takes_total: "0 \<le> q \<Longrightarrow> take_qty (takes q d) = min q (available d)"
proof (induction q d rule: takes.induct)
  case (2 q l ls)
  then show ?case
    using available_nonneg[of ls] by (auto simp: usable_def min_def)
qed simp

lemma take_qty_nonneg: "0 \<le> take_qty (takes q d)"
  unfolding take_qty_def
  by (intro sum_list_nonneg) (use takes_positive in \<open>fastforce\<close>)

lemma takes_price_member:
  "t \<in> set (takes q d) \<Longrightarrow> \<exists>l \<in> set d. usable l \<and> snd t = dl_price l"
  by (induction q d rule: takes.induct) (auto simp: Let_def split: if_splits)

lemma walk_depth_takes:
  "walk_depth d w =
    \<lparr>wk_touch_price = (case wk_touch_price w of Some p \<Rightarrow> Some p | None \<Rightarrow>
        (case takes (wk_remaining w) d of [] \<Rightarrow> None | t # _ \<Rightarrow> Some (snd t))),
     wk_remaining = wk_remaining w - take_qty (takes (wk_remaining w) d),
     wk_total_cost = wk_total_cost w + take_cost (takes (wk_remaining w) d),
     wk_filled = wk_filled w + take_qty (takes (wk_remaining w) d)\<rparr>"
  by (induction d w rule: walk_depth.induct)
    (auto simp: Let_def usable_def not_less split: option.splits)

lemma take_qty_zero_iff: "take_qty (takes q d) = 0 \<longleftrightarrow> takes q d = []"
proof (cases "takes q d")
  case (Cons t ts)
  have "0 \<le> take_qty ts"
    unfolding take_qty_def using takes_positive[of _ q d] Cons
    by (intro sum_list_nonneg) fastforce
  moreover have "0 < fst t" using takes_positive[of t q d] Cons by simp
  ultimately show ?thesis using Cons by simp
qed simp

text \<open>A weighted mean of positive weights stays between the bounds of its values.\<close>
lemma take_cost_bounds:
  assumes "\<And>t. t \<in> set ts \<Longrightarrow> 0 \<le> fst t \<and> lo \<le> snd t \<and> snd t \<le> hi"
  shows "lo * of_int (take_qty ts) \<le> take_cost ts" "take_cost ts \<le> hi * of_int (take_qty ts)"
proof -
  have "lo * of_int (take_qty ts) \<le> take_cost ts \<and> take_cost ts \<le> hi * of_int (take_qty ts)"
    using assms
  proof (induction ts)
    case (Cons t ts)
    have "lo * of_int (fst t) \<le> of_int (fst t) * snd t" "of_int (fst t) * snd t \<le> hi * of_int (fst t)"
      using Cons.prems[of t] mult_right_mono[of lo "snd t" "of_int (fst t)"]
        mult_right_mono[of "snd t" hi "of_int (fst t)"]
      by (simp_all add: mult.commute)
    then show ?case using Cons by (simp add: algebra_simps)
  qed simp
  then show "lo * of_int (take_qty ts) \<le> take_cost ts" "take_cost ts \<le> hi * of_int (take_qty ts)"
    by auto
qed

lemma simulate_fill_takes:
  assumes "0 < q" "takes q d = t # ts"
  shows "simulate_fill s q d = Inr
    \<lparr>fr_filled_quantity = min q (available d),
     fr_average_fill_price = Some (take_cost (t # ts) / of_int (take_qty (t # ts))),
     fr_slippage_bps = Some (max ((if s = BUY then take_cost (t # ts) / of_int (take_qty (t # ts)) - snd t
        else snd t - take_cost (t # ts) / of_int (take_qty (t # ts))) / snd t * 10000) 0),
     fr_fully_filled = (min q (available d) = q)\<rparr>"
proof -
  have "d \<noteq> []" using assms by auto
  moreover have "take_qty (t # ts) = min q (available d)" using takes_total[of q d] assms by simp
  moreover have "take_qty (t # ts) \<noteq> 0" using take_qty_zero_iff[of q d] assms by simp
  ultimately show ?thesis
    using assms by (simp add: simulate_fill_def walk_depth_takes start_walk_def Let_def)
qed

lemma simulate_fill_no_takes:
  assumes "0 < q" "takes q d = []"
  shows "simulate_fill s q d = Inr no_fill" "available d = 0"
proof -
  show "simulate_fill s q d = Inr no_fill"
    using assms by (simp add: simulate_fill_def walk_depth_takes start_walk_def Let_def)
  show "available d = 0"
    using takes_total[of q d] assms available_nonneg[of d] by (simp add: min_def split: if_splits)
qed

text \<open>A simulated fill never invents liquidity: for a positive quantity the filled quantity is
  the smaller of what was asked and what the usable levels of the book offer, it is full exactly
  when the book could absorb the whole order, and a price is reported exactly when something was
  filled. A non-positive quantity is refused.\<close>
theorem simulate_fill_quantity:
  "(if q \<le> 0 then simulate_fill s q d = Inl (NonPositiveQuantity q)
    else \<exists>r. simulate_fill s q d = Inr r
       \<and> fr_filled_quantity r = min q (available d)
       \<and> (fr_fully_filled r \<longleftrightarrow> q \<le> available d)
       \<and> (fr_average_fill_price r = None \<longleftrightarrow> fr_filled_quantity r = 0)
       \<and> (fr_slippage_bps r = None \<longleftrightarrow> fr_filled_quantity r = 0))"
proof (cases "q \<le> 0")
  case True
  then show ?thesis by (simp add: simulate_fill_def)
next
  case q: False
  show ?thesis
  proof (cases "takes q d")
    case Nil
    then show ?thesis using simulate_fill_no_takes[of q d] q by (auto simp: no_fill_def)
  next
    case (Cons t ts)
    then have "min q (available d) \<noteq> 0" using take_qty_zero_iff[of q d] takes_total[of q d] q by simp
    then show ?thesis using simulate_fill_takes[OF _ Cons] q by auto
  qed
qed

lemma average_between:
  assumes "0 < q" "simulate_fill s q d = Inr r" "fr_average_fill_price r = Some p"
    and "\<And>l. l \<in> set d \<Longrightarrow> usable l \<Longrightarrow> lo \<le> dl_price l \<and> dl_price l \<le> hi"
  shows "lo \<le> p \<and> p \<le> hi"
proof (cases "takes q d")
  case Nil
  then show ?thesis using simulate_fill_no_takes(1)[of q d s] assms by (simp add: no_fill_def)
next
  case (Cons t ts)
  let ?Q = "take_qty (t # ts)"
  have mem: "0 \<le> fst u \<and> lo \<le> snd u \<and> snd u \<le> hi" if "u \<in> set (t # ts)" for u
    using takes_price_member[of u q d] takes_positive[of u q d] assms(4) that Cons by fastforce
  have "0 < ?Q" using take_qty_zero_iff[of q d] take_qty_nonneg[of q d] Cons by simp
  moreover have "p = take_cost (t # ts) / of_int ?Q"
    using simulate_fill_takes[OF assms(1) Cons] assms(2,3) by auto
  ultimately show ?thesis
    using take_cost_bounds[of "t # ts" lo hi, OF mem]
    by (simp add: pos_le_divide_eq pos_divide_le_eq del: take_simps)
qed

text \<open>The average fill price lies between the worst and the best usable price of the book it
  walked, whatever the order of the levels.\<close>
theorem simulate_fill_price_bounds:
  assumes "simulate_fill s q d = Inr r" and "fr_average_fill_price r = Some p"
    and "\<And>l. l \<in> set d \<Longrightarrow> usable l \<Longrightarrow> lo \<le> dl_price l \<and> dl_price l \<le> hi"
  shows "lo \<le> p \<and> p \<le> hi"
  using average_between[of q s d r p lo hi] assms
  by (cases "0 < q") (auto simp: simulate_fill_def)

theorem simulate_fill_price_bounds_witness:
  "100 \<le> (304/3::real) \<and> (304/3::real) \<le> 102"
proof -
  let ?d = "[\<lparr>dl_price = 100, dl_quantity = 1, dl_orders = 1\<rparr>,
             \<lparr>dl_price = 0, dl_quantity = 0, dl_orders = 0\<rparr>,
             \<lparr>dl_price = 102, dl_quantity = 5, dl_orders = 1\<rparr>]"
  have "simulate_fill BUY 3 ?d = Inr \<lparr>fr_filled_quantity = 3, fr_average_fill_price = Some (304/3),
      fr_slippage_bps = Some (400/3), fr_fully_filled = True\<rparr>"
    by (simp add: simulate_fill_def start_walk_def)
  then show ?thesis by (rule simulate_fill_price_bounds) (auto simp: usable_def)
qed

section \<open>The reported cost on a sorted book\<close>

definition best_first :: "side \<Rightarrow> depth_level list \<Rightarrow> bool" where
  "best_first s d \<longleftrightarrow> sorted_wrt (\<lambda>a b. if s = BUY then dl_price a \<le> dl_price b
     else dl_price b \<le> dl_price a) (filter usable d)"

lemma takes_nonpos: "q \<le> 0 \<Longrightarrow> takes q d = []"
  by (cases d) auto

lemma takes_filter: "takes q (filter usable d) = takes q d"
  by (induction q d rule: takes.induct) (auto simp: Let_def takes_nonpos)

lemma takes_touch_best:
  "best_first s d \<Longrightarrow> takes q d = t # ts \<Longrightarrow> u \<in> set ts \<Longrightarrow>
   (if s = BUY then snd t \<le> snd u else snd u \<le> snd t)"
proof -
  assume b: "best_first s d" and t: "takes q d = t # ts" and u: "u \<in> set ts"
  let ?f = "filter usable d"
  have t': "takes q ?f = t # ts" using t by (simp add: takes_filter)
  then obtain l ls where l: "?f = l # ls" by (cases ?f) auto
  then have "usable l" by (metis filter_eq_ConsD)
  with t' l have "snd t = dl_price l" "ts = takes (q - min q (dl_quantity l)) ls"
    by (auto split: if_splits)
  moreover obtain m where "m \<in> set ls" "snd u = dl_price m"
    using takes_price_member u calculation(2) by blast
  ultimately show ?thesis using b l by (auto simp: best_first_def)
qed

text \<open>On a book sorted best first, the clamp at zero of the reported slippage never bites: the
  slippage is exactly the relative distance between the average fill and the touch price, in basis
  points, and that distance is a cost for either side.\<close>
theorem simulate_fill_slippage_exact:
  assumes "best_first s d" and "simulate_fill s q d = Inr r"
    and "fr_slippage_bps r = Some b" and "fr_average_fill_price r = Some p"
  shows "\<exists>touch > 0. b = (if s = BUY then p - touch else touch - p) / touch * 10000 \<and> 0 \<le> b"
proof -
  have q: "0 < q" using assms(2) by (auto simp: simulate_fill_def not_le split: if_splits)
  obtain t ts where T: "takes q d = t # ts"
    using simulate_fill_no_takes(1)[OF q, of d s] assms(2,3) by (cases "takes q d") (auto simp: no_fill_def)
  let ?Q = "take_qty (t # ts)" and ?avg = "take_cost (t # ts) / of_int (take_qty (t # ts))"
  have pos: "0 < snd t" "0 < ?Q"
    using takes_positive[of t q d] take_qty_zero_iff[of q d] take_qty_nonneg[of q d] T by simp_all
  have ge: "0 \<le> fst u" if "u \<in> set (t # ts)" for u
    using takes_positive[of u q d] that T by (simp add: less_imp_le)
  have "0 \<le> (if s = BUY then ?avg - snd t else snd t - ?avg)"
  proof (cases s)
    case BUY
    have "snd t * of_int ?Q \<le> take_cost (t # ts)"
      using takes_touch_best[OF assms(1) T] BUY ge
      by (intro take_cost_bounds(1)[where hi = "Max (snd ` set (t # ts))"]) (auto simp: Max_ge_iff)
    then show ?thesis using BUY pos by (simp add: field_simps)
  next
    case SELL
    have "take_cost (t # ts) \<le> snd t * of_int ?Q"
      using takes_touch_best[OF assms(1) T] SELL ge
      by (intro take_cost_bounds(2)[where lo = "Min (snd ` set (t # ts))"]) (auto simp: Min_le_iff)
    then show ?thesis using SELL pos by (simp add: field_simps)
  qed
  then have "0 \<le> (if s = BUY then ?avg - snd t else snd t - ?avg) / snd t * 10000"
    using pos by simp
  moreover have "p = ?avg"
    "b = max ((if s = BUY then ?avg - snd t else snd t - ?avg) / snd t * 10000) 0"
    using simulate_fill_takes[OF q T] assms(2-4) by auto
  ultimately show ?thesis using pos by (intro exI[of _ "snd t"]) (auto simp: max_def)
qed

theorem simulate_fill_slippage_exact_witness:
  "\<exists>touch > 0. (400/3::real) = (304/3 - touch) / touch * 10000 \<and> (0::real) \<le> 400/3"
proof -
  let ?d = "[\<lparr>dl_price = 100, dl_quantity = 1, dl_orders = 1\<rparr>,
             \<lparr>dl_price = 102, dl_quantity = 5, dl_orders = 1\<rparr>]"
  have 1: "simulate_fill BUY 3 ?d = Inr \<lparr>fr_filled_quantity = 3, fr_average_fill_price = Some (304/3),
      fr_slippage_bps = Some (400/3), fr_fully_filled = True\<rparr>"
    by (simp add: simulate_fill_def start_walk_def)
  have 2: "best_first BUY ?d" by (simp add: best_first_def usable_def)
  show ?thesis using simulate_fill_slippage_exact[OF 2 1, of "400/3" "304/3"] by simp
qed

end
