(* ===== verification/Ledger.thy ===== *)
theory Ledger
  imports Slippage
begin

text \<open>
  The paper-trading ledger: trade rows, the average-cost replay that turns the ordered ledger into
  positions and realized closes (\<open>src/engine/paper_trading/position_accounting.py\<close>), and the
  execution service that appends a row (\<open>src/engine/paper_trading/execution_service.py\<close>,
  \<open>src/models/paper_trading.py\<close>).
\<close>

section \<open>Rows\<close>

datatype instrument = EQUITY | FUTURE | OPT option_type

record paper_trade =
  pt_strategy_id :: "nat option"
  pt_account_id :: nat
  pt_instrument_type :: instrument
  pt_underlying :: "string option"
  pt_strike :: "real option"
  pt_expiry :: "int option"
  pt_symbol :: string
  pt_side :: side
  pt_requested_quantity :: int
  pt_filled_quantity :: int
  pt_reference_price :: real
  pt_fill_price :: real
  pt_slippage_bps :: real
  pt_buy_depth :: "depth_level list"
  pt_sell_depth :: "depth_level list"
  pt_fully_filled :: bool
  pt_executed_at :: timestamp

section \<open>The replay\<close>

record symbol_position =
  sp_symbol :: string
  sp_net_quantity :: int
  sp_average_cost :: real
  sp_realized_pnl :: real
  sp_trade_count :: nat
  sp_instrument_type :: instrument

record realized_close =
  rc_symbol :: string
  rc_quantity :: int
  rc_entry_price :: real
  rc_exit_price :: real
  rc_pnl :: real

definition new_position :: "string \<Rightarrow> instrument \<Rightarrow> symbol_position" where
  "new_position s it = \<lparr>sp_symbol = s, sp_net_quantity = 0, sp_average_cost = 0,
    sp_realized_pnl = 0, sp_trade_count = 0, sp_instrument_type = it\<rparr>"

definition trade_qty :: "paper_trade \<Rightarrow> int" where
  "trade_qty t = signed_quantity (pt_side t) (pt_filled_quantity t)"

definition apply_fill :: "paper_trade \<Rightarrow> symbol_position \<Rightarrow> symbol_position \<times> realized_close list" where
  "apply_fill t pos0 =
    (let pos = pos0\<lparr>sp_trade_count := sp_trade_count pos0 + 1\<rparr>;
         signed_qty = trade_qty t;
         fill_price = pt_fill_price t;
         net = sp_net_quantity pos
     in if net = 0 \<or> (net > 0) = (signed_qty > 0) then
          (let new_qty = net + signed_qty;
               cost = (if new_qty \<noteq> 0 then
                         (sp_average_cost pos * of_int \<bar>net\<bar> + fill_price * of_int \<bar>signed_qty\<bar>)
                           / of_int \<bar>new_qty\<bar>
                       else sp_average_cost pos)
           in (pos\<lparr>sp_average_cost := cost, sp_net_quantity := new_qty\<rparr>, []))
        else
          (let closing_qty = min \<bar>signed_qty\<bar> \<bar>net\<bar>;
               direction = (if net > 0 then 1 else - 1);
               pnl = direction * (fill_price - sp_average_cost pos) * of_int closing_qty;
               close = \<lparr>rc_symbol = pt_symbol t, rc_quantity = closing_qty,
                 rc_entry_price = sp_average_cost pos, rc_exit_price = fill_price, rc_pnl = pnl\<rparr>;
               new_qty = net + signed_qty;
               reversed_through_zero = ((new_qty > 0) \<noteq> (new_qty - signed_qty > 0));
               cost = (if new_qty \<noteq> 0 \<and> reversed_through_zero then fill_price
                       else sp_average_cost pos)
           in (pos\<lparr>sp_realized_pnl := sp_realized_pnl pos + pnl, sp_net_quantity := new_qty,
                   sp_average_cost := cost\<rparr>, [close])))"

type_synonym ledger_state = "(string, symbol_position) dict \<times> realized_close list"

definition replay_step :: "ledger_state \<Rightarrow> paper_trade \<Rightarrow> ledger_state" where
  "replay_step st t =
    (let positions = fst st;
         pos = dict_get_default positions (pt_symbol t)
                 (new_position (pt_symbol t) (pt_instrument_type t));
         r = apply_fill t pos
     in (dict_set (pt_symbol t) (fst r) positions, snd st @ snd r))"

definition replay_ledger :: "paper_trade list \<Rightarrow> ledger_state" where
  "replay_ledger trades = foldl replay_step ([], []) trades"

section \<open>The specification of the replay\<close>

text \<open>Quantity and cost of a ledger, counted without any state; and the position of one symbol,
  as the fold of its own trades.\<close>
definition net_of :: "paper_trade list \<Rightarrow> int" where
  "net_of ts = sum_list (map trade_qty ts)"

definition cost_of :: "paper_trade list \<Rightarrow> real" where
  "cost_of ts = sum_list (map (\<lambda>t. of_int (trade_qty t) * pt_fill_price t) ts)"

definition of_symbol :: "string \<Rightarrow> paper_trade list \<Rightarrow> paper_trade list" where
  "of_symbol s ts = filter (\<lambda>t. pt_symbol t = s) ts"

definition pnl_of :: "realized_close list \<Rightarrow> real" where
  "pnl_of cs = sum_list (map rc_pnl cs)"

lemma ledger_sums [simp]:
  "net_of [] = 0" "net_of (ts @ us) = net_of ts + net_of us" "net_of [t] = trade_qty t"
  "cost_of [] = 0" "cost_of (ts @ us) = cost_of ts + cost_of us"
  "cost_of [t] = of_int (trade_qty t) * pt_fill_price t"
  "pnl_of [] = 0" "pnl_of (cs @ ds) = pnl_of cs + pnl_of ds" "pnl_of [c] = rc_pnl c"
  "of_symbol s [] = []" "of_symbol s (ts @ us) = of_symbol s ts @ of_symbol s us"
  "of_symbol s [t] = (if pt_symbol t = s then [t] else [])"
  by (simp_all add: net_of_def cost_of_def pnl_of_def of_symbol_def)

subsection \<open>One fill\<close>

lemma apply_fill_net: "sp_net_quantity (fst (apply_fill t p)) = sp_net_quantity p + trade_qty t"
  by (simp add: apply_fill_def Let_def)

lemma apply_fill_frame [simp]:
  "sp_symbol (fst (apply_fill t p)) = sp_symbol p"
  "sp_instrument_type (fst (apply_fill t p)) = sp_instrument_type p"
  "sp_trade_count (fst (apply_fill t p)) = Suc (sp_trade_count p)"
  by (simp_all add: apply_fill_def Let_def)

lemma apply_fill_pnl:
  "sp_realized_pnl (fst (apply_fill t p)) = sp_realized_pnl p + pnl_of (snd (apply_fill t p))"
  by (simp add: apply_fill_def Let_def pnl_of_def)

lemma apply_fill_close_symbol: "c \<in> set (snd (apply_fill t p)) \<Longrightarrow> rc_symbol c = pt_symbol t"
  by (auto simp: apply_fill_def Let_def split: if_splits)

text \<open>The cash identity of one fill: what the position is worth at cost, less what was realized,
  moves by exactly what the fill paid.\<close>
definition book_balance :: "symbol_position \<Rightarrow> real" where
  "book_balance p = sp_average_cost p * of_int (sp_net_quantity p) - sp_realized_pnl p"

lemma apply_fill_extend:
  assumes "sp_net_quantity p = 0 \<or> (sp_net_quantity p > 0) = (trade_qty t > 0)"
  shows "sp_average_cost (fst (apply_fill t p)) * of_int (sp_net_quantity p + trade_qty t)
    = sp_average_cost p * of_int (sp_net_quantity p) + pt_fill_price t * of_int (trade_qty t)"
proof (cases "sp_net_quantity p + trade_qty t = 0")
  case True
  then have "sp_net_quantity p = 0 \<and> trade_qty t = 0" using assms by (auto split: if_splits)
  then show ?thesis by simp
next
  case False
  let ?n = "sp_net_quantity p" and ?s = "trade_qty t"
  have "\<bar>?n + ?s\<bar> = \<bar>?n\<bar> + \<bar>?s\<bar>" using assms by auto
  moreover have "?n + ?s > 0 \<Longrightarrow> \<bar>?n\<bar> = ?n \<and> \<bar>?s\<bar> = ?s" using assms by auto
  moreover have "?n + ?s < 0 \<Longrightarrow> \<bar>?n\<bar> = - ?n \<and> \<bar>?s\<bar> = - ?s" using assms by auto
  ultimately show ?thesis
    using assms False by (cases "?n + ?s > 0") (auto simp: apply_fill_def Let_def field_simps)
qed

lemma apply_fill_reduce:
  fixes t :: paper_trade and p :: symbol_position
  defines "n \<equiv> sp_net_quantity p" and "s \<equiv> trade_qty t"
  assumes "\<not> (n = 0 \<or> (n > 0) = (s > 0))"
  shows "sp_realized_pnl (fst (apply_fill t p)) = sp_realized_pnl p
      + (if n > 0 then 1 else - 1) * (pt_fill_price t - sp_average_cost p) * of_int (min \<bar>s\<bar> \<bar>n\<bar>)"
    and "sp_average_cost (fst (apply_fill t p))
      = (if \<bar>s\<bar> \<le> \<bar>n\<bar> then sp_average_cost p else pt_fill_price t)"
proof -
  show "sp_realized_pnl (fst (apply_fill t p)) = sp_realized_pnl p
      + (if n > 0 then 1 else - 1) * (pt_fill_price t - sp_average_cost p) * of_int (min \<bar>s\<bar> \<bar>n\<bar>)"
    using assms by (simp add: apply_fill_def Let_def)
  have "n + s \<noteq> 0 \<and> (n + s > 0) \<noteq> (n > 0) \<longleftrightarrow> \<not> \<bar>s\<bar> \<le> \<bar>n\<bar>" using assms(3) by auto
  then show "sp_average_cost (fst (apply_fill t p))
      = (if \<bar>s\<bar> \<le> \<bar>n\<bar> then sp_average_cost p else pt_fill_price t)"
    using assms by (auto simp: apply_fill_def Let_def)
qed

lemma apply_fill_balance:
  "book_balance (fst (apply_fill t p)) = book_balance p + pt_fill_price t * of_int (trade_qty t)"
proof (cases "sp_net_quantity p = 0 \<or> (sp_net_quantity p > 0) = (trade_qty t > 0)")
  case True
  have "sp_realized_pnl (fst (apply_fill t p)) = sp_realized_pnl p"
    using True by (auto simp: apply_fill_def Let_def)
  then show ?thesis
    using apply_fill_extend[OF True] apply_fill_net[of t p] by (simp add: book_balance_def)
next
  case False
  note r = apply_fill_reduce[OF False] and n = apply_fill_net[of t p]
  from False consider "sp_net_quantity p > 0" "trade_qty t \<le> 0" | "sp_net_quantity p < 0" "trade_qty t > 0"
    by linarith
  then show ?thesis
    by cases (simp_all add: book_balance_def r n min_def abs_if algebra_simps)
qed

subsection \<open>The whole ledger, one symbol at a time\<close>

definition sym_ok :: "paper_trade list \<Rightarrow> ledger_state \<Rightarrow> string \<Rightarrow> bool" where
  "sym_ok ts st s \<longleftrightarrow>
    (case dict_get (fst st) s of
       None \<Rightarrow> of_symbol s ts = [] \<and> filter (\<lambda>c. rc_symbol c = s) (snd st) = []
     | Some p \<Rightarrow> of_symbol s ts \<noteq> [] \<and> sp_symbol p = s
         \<and> sp_net_quantity p = net_of (of_symbol s ts)
         \<and> book_balance p = cost_of (of_symbol s ts)
         \<and> sp_realized_pnl p = pnl_of (filter (\<lambda>c. rc_symbol c = s) (snd st))
         \<and> sp_trade_count p = length (of_symbol s ts)
         \<and> sp_instrument_type p = pt_instrument_type (hd (of_symbol s ts)))"

lemma replay_ledger_snoc: "replay_ledger (ts @ [t]) = replay_step (replay_ledger ts) t"
  by (simp add: replay_ledger_def)

lemma closes_other: "s \<noteq> pt_symbol t \<Longrightarrow> filter (\<lambda>c. rc_symbol c = s) (snd (apply_fill t p)) = []"
  using apply_fill_close_symbol by (fastforce simp: filter_empty_conv)

lemma closes_same: "filter (\<lambda>c. rc_symbol c = pt_symbol t) (snd (apply_fill t p)) = snd (apply_fill t p)"
  using apply_fill_close_symbol by (fastforce simp: filter_id_conv)

lemma replay_step_sym_ok:
  assumes "sym_ok ts st s"
  shows "sym_ok (ts @ [t]) (replay_step st t) s"
proof (cases "s = pt_symbol t")
  case False
  then show ?thesis
    using assms by (auto simp: sym_ok_def replay_step_def Let_def closes_other split: option.splits)
next
  case True
  show ?thesis
  proof (cases "dict_get (fst st) s")
    case None
    then show ?thesis
      using assms True apply_fill_balance[of t "new_position s (pt_instrument_type t)"]
        apply_fill_pnl[of t "new_position s (pt_instrument_type t)"]
        apply_fill_net[of t "new_position s (pt_instrument_type t)"]
      by (simp add: sym_ok_def replay_step_def Let_def dict_get_default_def closes_same)
        (simp add: new_position_def book_balance_def)
  next
    case (Some p)
    then show ?thesis
      using assms True apply_fill_balance[of t p] apply_fill_pnl[of t p] apply_fill_net[of t p]
      by (auto simp: sym_ok_def replay_step_def Let_def dict_get_default_def closes_same)
  qed
qed

lemma replay_sym_ok: "sym_ok ts (replay_ledger ts) s"
proof (induction ts rule: rev_induct)
  case Nil
  then show ?case by (simp add: sym_ok_def replay_ledger_def)
next
  case (snoc t ts)
  then show ?case by (simp add: replay_ledger_snoc replay_step_sym_ok)
qed

lemma replay_distinct: "distinct (map fst (fst (replay_ledger ts)))"
  by (induction ts rule: rev_induct)
    (simp_all add: replay_ledger_snoc replay_step_def Let_def replay_ledger_def[of "[]"])

lemma replay_positions_dom: "fst ` set (fst (replay_ledger ts)) = pt_symbol ` set ts"
  by (induction ts rule: rev_induct)
    (simp_all add: replay_ledger_snoc replay_step_def Let_def replay_ledger_def[of "[]"])

text \<open>C27. Conservation of the average-cost ledger. For every symbol of any ledger, in any order
  and with any mix of opening, reducing and reversing fills, the replayed position has the net of
  the signed fills as its quantity, the sum of its own closes as realized profit, counts each fill
  once, and its book value at average cost less the realized profit is exactly the cash paid for
  the fills.\<close>
theorem replay_ledger_conservation:
  "case dict_get (fst (replay_ledger ts)) s of
     None \<Rightarrow> of_symbol s ts = []
   | Some p \<Rightarrow>
       sp_net_quantity p = net_of (of_symbol s ts)
     \<and> sp_average_cost p * of_int (sp_net_quantity p) - sp_realized_pnl p = cost_of (of_symbol s ts)
     \<and> sp_realized_pnl p = pnl_of (filter (\<lambda>c. rc_symbol c = s) (snd (replay_ledger ts)))
     \<and> sp_trade_count p = length (of_symbol s ts)
     \<and> sp_instrument_type p = pt_instrument_type (hd (of_symbol s ts))"
  using replay_sym_ok[of ts s]
  by (auto simp: sym_ok_def book_balance_def split: option.splits)

subsection \<open>The average cost stays among the fill prices\<close>

definition cost_within :: "real \<Rightarrow> real \<Rightarrow> symbol_position \<Rightarrow> bool" where
  "cost_within lo hi p \<longleftrightarrow> sp_net_quantity p \<noteq> 0 \<longrightarrow> lo \<le> sp_average_cost p \<and> sp_average_cost p \<le> hi"

lemma weighted_mean_within:
  fixes a b w v :: real
  assumes "lo \<le> a \<and> a \<le> hi \<or> w = 0" "lo \<le> b" "b \<le> hi" "0 \<le> w" "0 \<le> v" "0 < w + v"
  shows "lo \<le> (a * w + b * v) / (w + v) \<and> (a * w + b * v) / (w + v) \<le> hi"
proof -
  have "lo * w \<le> a * w" "a * w \<le> hi * w" using assms by (auto intro: mult_right_mono)
  moreover have "lo * v \<le> b * v" "b * v \<le> hi * v" using assms by (auto intro: mult_right_mono)
  ultimately show ?thesis
    using assms(6) by (simp add: pos_le_divide_eq pos_divide_le_eq distrib_left)
qed

lemma apply_fill_cost_within:
  assumes "cost_within lo hi p" "lo \<le> pt_fill_price t" "pt_fill_price t \<le> hi"
  shows "cost_within lo hi (fst (apply_fill t p))"
proof (cases "sp_net_quantity p = 0 \<or> (sp_net_quantity p > 0) = (trade_qty t > 0)")
  case True
  let ?n = "sp_net_quantity p" and ?s = "trade_qty t"
  show ?thesis
  proof (cases "?n + ?s = 0")
    case True
    then show ?thesis by (simp add: cost_within_def apply_fill_net)
  next
    case False
    have eq: "\<bar>?n + ?s\<bar> = \<bar>?n\<bar> + \<bar>?s\<bar>" using True by auto
    have "sp_average_cost (fst (apply_fill t p)) = (sp_average_cost p * of_int \<bar>?n\<bar>
        + pt_fill_price t * of_int \<bar>?s\<bar>) / (of_int \<bar>?n\<bar> + of_int \<bar>?s\<bar>)"
      using True False eq by (auto simp: apply_fill_def Let_def simp flip: of_int_add)
    moreover have "0 < \<bar>?n\<bar> + \<bar>?s\<bar>" using False by linarith
    then have "0 < (of_int \<bar>?n\<bar> + of_int \<bar>?s\<bar> :: real)" by (simp flip: of_int_add)
    ultimately show ?thesis
      using assms weighted_mean_within[of lo "sp_average_cost p" hi "of_int \<bar>?n\<bar>" "pt_fill_price t" "of_int \<bar>?s\<bar>"]
      by (auto simp: cost_within_def)
  qed
next
  case False
  then show ?thesis
    using assms apply_fill_reduce(2)[OF False] by (auto simp: cost_within_def)
qed

text \<open>The average cost of an open position is a price that was really paid: it lies within
  any bounds that contain the fill prices of the ledger, however often the position was extended,
  reduced or reversed.\<close>
theorem average_cost_within_fill_prices:
  assumes "\<And>t. t \<in> set ts \<Longrightarrow> lo \<le> pt_fill_price t \<and> pt_fill_price t \<le> hi"
    and "dict_get (fst (replay_ledger ts)) s = Some p" and "sp_net_quantity p \<noteq> 0"
  shows "lo \<le> sp_average_cost p \<and> sp_average_cost p \<le> hi"
proof -
  have "\<forall>p. dict_get (fst (replay_ledger ts)) s = Some p \<longrightarrow> cost_within lo hi p"
    using assms(1)
  proof (induction ts rule: rev_induct)
    case Nil
    then show ?case by (simp add: replay_ledger_def)
  next
    case (snoc t ts)
    then show ?case
      by (auto simp: replay_ledger_snoc replay_step_def Let_def dict_get_default_def new_position_def
          cost_within_def[of lo hi "\<lparr>sp_symbol = _, sp_net_quantity = 0, sp_average_cost = _,
            sp_realized_pnl = _, sp_trade_count = _, sp_instrument_type = _\<rparr>"]
          intro!: apply_fill_cost_within split: option.splits)
  qed
  then show ?thesis using assms(2,3) by (auto simp: cost_within_def)
qed

definition sample_trade :: "side \<Rightarrow> int \<Rightarrow> real \<Rightarrow> paper_trade" where
  "sample_trade sd q p = \<lparr>pt_strategy_id = Some 1, pt_account_id = 7, pt_instrument_type = EQUITY,
     pt_underlying = None, pt_strike = None, pt_expiry = None, pt_symbol = ''TCS'', pt_side = sd,
     pt_requested_quantity = q, pt_filled_quantity = q, pt_reference_price = p, pt_fill_price = p,
     pt_slippage_bps = 0, pt_buy_depth = [], pt_sell_depth = [], pt_fully_filled = True,
     pt_executed_at = 0\<rparr>"

theorem average_cost_within_fill_prices_witness:
  "(90::real) \<le> 120 \<and> (120::real) \<le> 130"
proof -
  let ?ts = "[sample_trade BUY 10 100, sample_trade SELL 15 120]"
  have 1: "dict_get (fst (replay_ledger ?ts)) ''TCS'' = Some \<lparr>sp_symbol = ''TCS'', sp_net_quantity = - 5,
      sp_average_cost = 120, sp_realized_pnl = 200, sp_trade_count = 2, sp_instrument_type = EQUITY\<rparr>"
    by (simp add: replay_ledger_def replay_step_def apply_fill_def trade_qty_def sample_trade_def
        new_position_def dict_get_default_def Let_def)
  have 2: "\<And>t. t \<in> set ?ts \<Longrightarrow> 90 \<le> pt_fill_price t \<and> pt_fill_price t \<le> 130"
    by (auto simp: sample_trade_def)
  show ?thesis using average_cost_within_fill_prices[OF 2 1] by simp
qed

section \<open>Executing a paper trade\<close>

datatype paper_error = NoLiquidityError string side | QuoteFailed broker_error | BadQuantity int

definition execute_paper_trade ::
  "(string \<Rightarrow> broker_error + quote) \<Rightarrow> timestamp \<Rightarrow> string \<Rightarrow> side \<Rightarrow> int \<Rightarrow> nat \<Rightarrow> nat option
    \<Rightarrow> instrument \<Rightarrow> string option \<Rightarrow> real option \<Rightarrow> int option
    \<Rightarrow> paper_trade list \<Rightarrow> (paper_error + paper_trade) \<times> paper_trade list" where
  "execute_paper_trade get_quote now symbol side quantity account_id strategy_id itype underlying
     strike expiry ledger =
    (case get_quote symbol of
       Inl e \<Rightarrow> (Inl (QuoteFailed e), ledger)
     | Inr quote \<Rightarrow>
        (let depth = (if side = BUY then qt_sell_depth quote else qt_buy_depth quote) in
         case simulate_fill side quantity depth of
           Inl (NonPositiveQuantity q) \<Rightarrow> (Inl (BadQuantity q), ledger)
         | Inr r \<Rightarrow>
            (case (fr_average_fill_price r, fr_slippage_bps r) of
               (Some price, Some slip) \<Rightarrow>
                 (if fr_filled_quantity r = 0 then (Inl (NoLiquidityError symbol side), ledger)
                  else
                   (let trade = \<lparr>pt_strategy_id = strategy_id, pt_account_id = account_id,
                          pt_instrument_type = itype, pt_underlying = underlying, pt_strike = strike,
                          pt_expiry = expiry, pt_symbol = symbol, pt_side = side,
                          pt_requested_quantity = quantity,
                          pt_filled_quantity = fr_filled_quantity r,
                          pt_reference_price = qt_last_price quote, pt_fill_price = price,
                          pt_slippage_bps = slip, pt_buy_depth = qt_buy_depth quote,
                          pt_sell_depth = qt_sell_depth quote,
                          pt_fully_filled = fr_fully_filled r, pt_executed_at = now\<rparr>
                    in (Inr trade, ledger @ [trade])))
             | _ \<Rightarrow> (Inl (NoLiquidityError symbol side), ledger))))"

text \<open>Executing a paper trade either refuses and leaves the ledger untouched, or appends
  exactly one row: for the requested symbol, side, account and strategy, with a positive filled
  quantity no larger than requested and no larger than the visible depth of the opposite side, and
  a positive price.\<close>
theorem execute_paper_trade_effect:
  "case execute_paper_trade gq now syb sd q acc strat it ul sk ex ledger of
     (Inl e, ledger') \<Rightarrow> ledger' = ledger
   | (Inr t, ledger') \<Rightarrow> ledger' = ledger @ [t]
       \<and> pt_symbol t = syb \<and> pt_side t = sd \<and> pt_account_id t = acc \<and> pt_strategy_id t = strat
       \<and> 0 < pt_filled_quantity t \<and> pt_filled_quantity t \<le> q
       \<and> (\<exists>qt. gq syb = Inr qt
            \<and> pt_filled_quantity t = min q (available (if sd = BUY then qt_sell_depth qt else qt_buy_depth qt)))
       \<and> 0 < pt_fill_price t"
proof -
  have pos: "0 < p" if sf: "simulate_fill s n d = Inr r" "fr_average_fill_price r = Some p" for s n d r p
  proof -
    have "0 < n" using sf(1) by (auto simp: simulate_fill_def not_le split: if_splits)
    let ?lo = "Min (dl_price ` set (filter usable d))"
    obtain t ts where T: "takes n d = t # ts"
      using simulate_fill_no_takes(1)[OF \<open>0 < n\<close>, of d s] sf by (cases "takes n d") (auto simp: no_fill_def)
    then obtain l where l: "l \<in> set d" "usable l" using takes_price_member[of t n d] by auto
    have "?lo \<le> p \<and> p \<le> Max (dl_price ` set (filter usable d))"
      by (rule average_between[OF \<open>0 < n\<close> sf]) auto
    moreover have "0 < ?lo" using l by (subst Min_gr_iff) (auto simp: usable_def)
    ultimately show ?thesis by linarith
  qed
  have quantity: "fr_filled_quantity r = min n (available d) \<and> 0 < n"
    if "simulate_fill s n d = Inr r" for s n d r
    using that simulate_fill_takes[of n d] simulate_fill_no_takes[of n d]
    by (cases "0 < n"; cases "takes n d") (auto simp: simulate_fill_def no_fill_def)
  show ?thesis
  proof (cases "gq syb")
    case (Inl e)
    then show ?thesis by (simp add: execute_paper_trade_def)
  next
    case (Inr qt)
    define d where "d = (if sd = BUY then qt_sell_depth qt else qt_buy_depth qt)"
    show ?thesis
    proof (cases "simulate_fill sd q d")
      case (Inl e)
      then show ?thesis using Inr
        by (cases e) (simp add: execute_paper_trade_def d_def)
    next
      case sf: (Inr r)
      show ?thesis
      proof (cases "fr_average_fill_price r = None \<or> fr_slippage_bps r = None \<or> fr_filled_quantity r = 0")
        case True
        then show ?thesis using Inr sf
          by (auto simp: execute_paper_trade_def d_def split: option.splits)
      next
        case False
        then obtain price slip where r: "fr_average_fill_price r = Some price" "fr_slippage_bps r = Some slip"
          "fr_filled_quantity r \<noteq> 0" by auto
        have "0 < fr_filled_quantity r \<and> fr_filled_quantity r \<le> q"
          using quantity[OF sf] available_nonneg[of d] r(3) by (auto simp: min_def split: if_splits)
        moreover have "fr_filled_quantity r = min q (available (if sd = BUY then qt_sell_depth qt else qt_buy_depth qt))"
          using quantity[OF sf] by (simp only: d_def)
        ultimately show ?thesis using Inr sf r pos[OF sf r(1)]
          by (simp add: execute_paper_trade_def Let_def d_def[symmetric])
      qed
    qed
  qed
qed

end
