(* ===== verification/Pipeline.thy ===== *)
theory Pipeline
  imports Execution Compliance Ledger
begin

text \<open>
  The per-tick pipelines: the risk gate and the live pipeline (\<open>src/engine/live/execution_pipeline.py\<close>), the
  paper pipeline (\<open>src/engine/paper_trading/paper_execution_pipeline.py\<close>), the stop-loss rule that drives it
  (\<open>src/engine/paper_trading/intraday_risk_rules.py\<close>), the paper kill switch
  (\<open>src/engine/paper_trading/paper_kill_switch.py\<close>), the tick listener (\<open>src/engine/live/tick_listener.py\<close>) and
  the worker's table of pipelines (\<open>src/workers/paper_trading_worker.py\<close>). A signal generator is a function
  with a state of its own; tracing, metrics and the parsing of a Redis message are not modelled.
\<close>

section \<open>Ticks, signals, price history\<close>

record tick =
  tk_symbol :: string
  tk_price :: real
  tk_timestamp :: timestamp

record trade_signal =
  ts_symbol :: string
  ts_side :: side
  ts_quantity :: int
  ts_order_type :: order_type
  ts_limit_price :: "real option"
  ts_reference_price :: "real option"
  ts_option_legs :: "option_leg list option"

record symbol_state =
  ss_symbol :: string
  ss_max_history :: nat
  ss_prices :: "real list"

definition new_symbol_state :: "string \<Rightarrow> symbol_state" where
  "new_symbol_state s = \<lparr>ss_symbol = s, ss_max_history = 200, ss_prices = []\<rparr>"

text \<open>A deque with a maximal length drops its oldest element.\<close>
definition ss_update :: "real \<Rightarrow> symbol_state \<Rightarrow> symbol_state" where
  "ss_update price st =
    (let ps = ss_prices st @ [price] in st\<lparr>ss_prices := drop (length ps - ss_max_history st) ps\<rparr>)"

text \<open>Python's slice \<open>[-0:]\<close> is the whole list, so a window of zero divides by zero.\<close>
definition sma :: "nat \<Rightarrow> symbol_state \<Rightarrow> string + real option" where
  "sma window st =
    (if length (ss_prices st) < window then Inr None
     else if window = 0 then Inl ''ZeroDivisionError''
     else Inr (Some (sum_list (drop (length (ss_prices st) - window) (ss_prices st)) / of_nat window)))"

lemma ss_history:
  "ss_prices (foldl (\<lambda>st p. ss_update p st) (new_symbol_state s) ps) = drop (length ps - 200) ps
   \<and> ss_max_history (foldl (\<lambda>st p. ss_update p st) (new_symbol_state s) ps) = 200"
proof (induction ps rule: rev_induct)
  case (snoc p ps)
  have "Suc (length ps - 200) = length ps - 199" if "\<not> length ps < 200" using that by arith
  then have "drop (length (drop (length ps - 200) ps @ [p]) - 200) (drop (length ps - 200) ps @ [p]) = drop (length (ps @ [p]) - 200) (ps @ [p])"
    by (cases "length ps < 200") simp_all
  then show ?case using snoc.IH by (simp add: ss_update_def Let_def del: drop_append)
qed (simp add: new_symbol_state_def)

text \<open>The bounded price buffer loses nothing the moving average needs. After any series of ticks, and
  for any window from one to the buffer's length, the moving average is that of the last ticks of the
  full history, and absent exactly while there are fewer ticks than the window.\<close>
theorem moving_average_exact:
  assumes "0 < window" and "window \<le> 200"
  shows "sma window (foldl (\<lambda>st p. ss_update p st) (new_symbol_state s) ps)
    = Inr (if length ps < window then None else Some (sum_list (drop (length ps - window) ps) / of_nat window))"
proof -
  let ?h = "drop (length ps - 200) ps"
  have "drop (length ?h - window) ?h = drop (length ps - window) ps" if "window \<le> length ps"
    using that assms(2) by simp
  moreover have "length ?h < window \<longleftrightarrow> length ps < window" using assms(2) by auto
  ultimately show ?thesis using assms(1) by (simp add: sma_def ss_history not_less)
qed

theorem moving_average_exact_witness:
  "sma 2 (foldl (\<lambda>st p. ss_update p st) (new_symbol_state ''S'') [1, 2, 4]) = Inr (Some 3)"
  using moving_average_exact[of 2 "''S''" "[1, 2, 4]"] by simp

section \<open>The risk gate\<close>

datatype tick_error = RiskRejected message | GeneratorError string | InvalidOrder
  | ExecutionRaised execution_error | BrokerCall adapter_error | PaperRaised paper_error

type_synonym pre_trade_check = "trade_signal \<Rightarrow> db \<Rightarrow> (message + unit) \<times> db"

fun run_pre_trade_checks :: "pre_trade_check list \<Rightarrow> trade_signal \<Rightarrow> db \<Rightarrow> (message + unit) \<times> db" where
  "run_pre_trade_checks [] signal d = (Inr (), d)"
| "run_pre_trade_checks (check # checks) signal d =
    (case check signal d of
       (Inl m, d1) \<Rightarrow> (Inl m, d1)
     | (Inr _, d1) \<Rightarrow> run_pre_trade_checks checks signal d1)"

definition run_risk_checks ::
  "kill_switch \<Rightarrow> ws_latency_guard option \<Rightarrow> pre_trade_check list \<Rightarrow> trade_signal \<Rightarrow> db \<Rightarrow> (message + unit) \<times> db" where
  "run_risk_checks ks guard checks signal d =
    (if ks_triggered ks then
       (Inl [Lit ''Kill switch is triggered -- rejecting signal for '', Sym (ts_symbol signal)], d)
     else
      (case guard of
         Some g \<Rightarrow>
          if wg_paused g then
            (Inl [Lit ''WebSocket latency guard is paused ('',
                 (case wg_last_latency_seconds g of Some l \<Rightarrow> Flt '''' l | None \<Rightarrow> Lit ''None''), Lit ''s > '',
                 Flt '''' (wg_threshold_seconds g), Lit ''s threshold) -- rejecting signal for '', Sym (ts_symbol signal),
                 Lit '' until the feed is synced''], d)
          else run_pre_trade_checks checks signal d
       | None \<Rightarrow> run_pre_trade_checks checks signal d))"

text \<open>A message as text, given the printer of floats.\<close>
fun render_frag :: "(string \<Rightarrow> real \<Rightarrow> string) \<Rightarrow> frag \<Rightarrow> string" where
  "render_frag fmt (Lit s) = s" | "render_frag fmt (Num i) = show_int i"
| "render_frag fmt (Flt spec x) = fmt spec x" | "render_frag fmt (Sym s) = s"

definition render :: "(string \<Rightarrow> real \<Rightarrow> string) \<Rightarrow> message \<Rightarrow> string" where
  "render fmt m = concat (map (render_frag fmt) m)"

fun rule_value :: "rule \<Rightarrow> string" where
  "rule_value BR_02_NAKED_OPTIONS = ''BR-02_NAKED_OPTIONS''"
| "rule_value SEBI_POSITION_LIMIT = ''SEBI_POSITION_LIMIT''" | "rule_value CIRCUIT_FILTER = ''CIRCUIT_FILTER''"

definition violation_json :: "(string \<Rightarrow> real \<Rightarrow> string) \<Rightarrow> violation \<Rightarrow> json" where
  "violation_json fmt v = JObj [(''rule'', JStr (rule_value (vi_rule v))), (''detail'', JStr (render fmt (vi_detail v))),
     (''remediation'', JStr (render fmt (vi_remediation v)))]"

fun join_messages :: "message \<Rightarrow> message list \<Rightarrow> message" where
  "join_messages sep [] = []"
| "join_messages sep [m] = m"
| "join_messages sep (m # n # ms) = m @ sep @ join_messages sep (n # ms)"

definition signal_verdict :: "trade_signal \<Rightarrow> compliance_verdict" where
  "signal_verdict s = evaluate_compliance (ts_symbol s) (Some (ts_quantity s)) (ts_reference_price s) (ts_limit_price s) (ts_option_legs s)"

definition compliance_pre_trade_check :: "(string \<Rightarrow> real \<Rightarrow> string) \<Rightarrow> env \<Rightarrow> pre_trade_check" where
  "compliance_pre_trade_check fmt env signal d =
    (let v = signal_verdict signal in
     if cv_verdict v = Block then
       (Inl ([Lit ''Compliance block for '', Sym (ts_symbol signal), Lit '': '']
              @ join_messages [Lit ''; ''] (map vi_detail (cv_violations v))),
        snd (write_audit_entry env (audit_entry System ''compliance_checker'' ''ORDER_BLOCKED_COMPLIANCE'' ''TradeSignal'' None
          None (Some (JObj [(''symbol'', JStr (ts_symbol signal)), (''side'', JStr (side_value (ts_side signal))),
            (''quantity'', JInt (ts_quantity signal)), (''violations'', JArr (map (violation_json fmt) (cv_violations v)))]))) d))
     else (Inr (), d))"

section \<open>The live pipeline\<close>

type_synonym 'g generator = "symbol_state \<Rightarrow> 'g \<Rightarrow> (string + trade_signal option) \<times> 'g"

text \<open>The objects a pipeline shares with the rest of the process, as they are at a tick.\<close>
record ('g, 'w) live_pipeline =
  lp_broker :: "'w adapter"
  lp_generator :: "'g generator"
  lp_kill_switch :: kill_switch
  lp_latency_guard :: "ws_latency_guard option"
  lp_pre_trade_checks :: "pre_trade_check list"
  lp_account_id :: "nat option"
  lp_strategy_id :: "nat option"
  lp_agent :: execution_agent
  lp_clock :: "'w \<Rightarrow> timestamp"
  lp_sleep :: "real \<Rightarrow> 'w \<Rightarrow> 'w"

record ('g, 'w) pipeline_state =
  ps_states :: "(string, symbol_state) dict"
  ps_gen :: 'g
  ps_db :: db
  ps_world :: 'w

definition state_for :: "string \<Rightarrow> (string, symbol_state) dict \<Rightarrow> symbol_state" where
  "state_for s states = dict_get_default states s (new_symbol_state s)"

definition order_of_signal :: "trade_signal \<Rightarrow> order_request" where
  "order_of_signal s = \<lparr>oq_symbol = ts_symbol s, oq_side = ts_side s, oq_order_type = ts_order_type s,
     oq_quantity = ts_quantity s, oq_product = INTRADAY, oq_limit_price = ts_limit_price s,
     oq_trigger_price = None, oq_validity = DAY, oq_tag = None\<rparr>"

definition handle_tick ::
  "env \<Rightarrow> ('g, 'w) live_pipeline \<Rightarrow> tick \<Rightarrow> ('g, 'w) pipeline_state
    \<Rightarrow> (tick_error + order_response option) \<times> ('g, 'w) pipeline_state" where
  "handle_tick env lp t st =
    (let sy = ss_update (tk_price t) (state_for (tk_symbol t) (ps_states st));
         (sig, g1) = lp_generator lp sy (ps_gen st);
         st1 = st\<lparr>ps_states := dict_set (tk_symbol t) sy (ps_states st), ps_gen := g1\<rparr>
     in case sig of
          Inl e \<Rightarrow> (Inl (GeneratorError e), st1)
        | Inr None \<Rightarrow> (Inr None, st1)
        | Inr (Some signal) \<Rightarrow>
           (case run_risk_checks (lp_kill_switch lp) (lp_latency_guard lp) (lp_pre_trade_checks lp) signal (ps_db st1) of
              (Inl m, d1) \<Rightarrow> (Inl (RiskRejected m), st1\<lparr>ps_db := d1\<rparr>)
            | (Inr _, d1) \<Rightarrow>
               (let order = order_of_signal signal; st2 = st1\<lparr>ps_db := d1\<rparr> in
                if \<not> order_request_valid order then (Inl InvalidOrder, st2)
                else
                 (case (lp_account_id lp, lp_strategy_id lp) of
                    (Some acc, Some strat) \<Rightarrow>
                      (case execute_signal env (lp_agent lp) (lp_clock lp) (lp_sleep lp) (lp_broker lp) order acc strat
                              (ps_db st2, ps_world st2) of
                         (Inl e, (d2, w2)) \<Rightarrow> (Inl (ExecutionRaised e), st2\<lparr>ps_db := d2, ps_world := w2\<rparr>)
                       | (Inr r, (d2, w2)) \<Rightarrow> (Inr (Some (er_order_response r)), st2\<lparr>ps_db := d2, ps_world := w2\<rparr>))
                  | _ \<Rightarrow>
                      (case ad_place_order (lp_broker lp) order (ps_world st2) of
                         (Inl e, w2) \<Rightarrow> (Inl (BrokerCall e), st2\<lparr>ps_world := w2\<rparr>)
                       | (Inr r, w2) \<Rightarrow> (Inr (Some r), st2\<lparr>ps_world := w2\<rparr>))))))"

section \<open>The paper pipeline\<close>

record 'g paper_pipeline =
  pp_account_id :: nat
  pp_strategy_id :: "nat option"
  pp_latency_guard :: "ws_latency_guard option"
  pp_pre_trade_checks :: "pre_trade_check list"
  pp_states :: "(string, symbol_state) dict"
  pp_gen :: 'g

text \<open>What a tick meets outside: the time, the quotes, the paper kill switch.\<close>
record market =
  mk_now :: timestamp
  mk_quote :: "string \<Rightarrow> broker_error + quote"
  mk_kill_switch :: kill_switch

definition paper_handle_tick ::
  "'g generator \<Rightarrow> market \<Rightarrow> tick \<Rightarrow> 'g paper_pipeline \<Rightarrow> db \<Rightarrow> paper_trade list
    \<Rightarrow> (tick_error + paper_trade option) \<times> 'g paper_pipeline \<times> db \<times> paper_trade list" where
  "paper_handle_tick gen mk t pp d ledger =
    (let sy = ss_update (tk_price t) (state_for (tk_symbol t) (pp_states pp));
         (sig, g1) = gen sy (pp_gen pp);
         pp1 = pp\<lparr>pp_states := dict_set (tk_symbol t) sy (pp_states pp), pp_gen := g1\<rparr>
     in case sig of
          Inl e \<Rightarrow> (Inl (GeneratorError e), (pp1, (d, ledger)))
        | Inr None \<Rightarrow> (Inr None, (pp1, (d, ledger)))
        | Inr (Some signal) \<Rightarrow>
           (case run_risk_checks (mk_kill_switch mk) (pp_latency_guard pp) (pp_pre_trade_checks pp) signal d of
              (Inl m, d1) \<Rightarrow> (Inl (RiskRejected m), (pp1, (d1, ledger)))
            | (Inr _, d1) \<Rightarrow>
               (case execute_paper_trade (mk_quote mk) (mk_now mk) (ts_symbol signal) (ts_side signal) (ts_quantity signal)
                       (pp_account_id pp) (pp_strategy_id pp) EQUITY None None None ledger of
                  (Inl e, ledger1) \<Rightarrow> (Inl (PaperRaised e), (pp1, (d1, ledger1)))
                | (Inr trade, ledger1) \<Rightarrow> (Inr (Some trade), (pp1, (d1, ledger1))))))"

section \<open>What the gate guarantees\<close>

definition closed_gate :: "kill_switch \<Rightarrow> ws_latency_guard option \<Rightarrow> pre_trade_check list \<Rightarrow> bool" where
  "closed_gate ks guard checks \<longleftrightarrow> ks_triggered ks \<or> (\<exists>g. guard = Some g \<and> wg_paused g)
     \<or> (\<exists>c \<in> set checks. \<forall>s d. \<exists>m d1. c s d = (Inl m, d1))"

lemma checks_veto:
  "\<exists>c \<in> set checks. \<forall>d. \<exists>m d1. c s d = (Inl m, d1) \<Longrightarrow> \<exists>m d1. run_pre_trade_checks checks s d = (Inl m, d1)"
proof (induction checks arbitrary: d)
  case (Cons c cs)
  obtain r d1 where c: "c s d = (r, d1)" by fastforce
  show ?case
  proof (cases r)
    case (Inr u)
    then have "\<exists>c \<in> set cs. \<forall>d. \<exists>m d1. c s d = (Inl m, d1)" using Cons.prems c by (auto; metis sum.distinct(1) Pair_inject)
    then show ?thesis using Cons.IH c Inr by simp
  qed (use c in simp)
qed simp

lemma closed_gate_rejects:
  assumes "closed_gate ks guard checks"
  shows "\<exists>m d1. run_risk_checks ks guard checks s d = (Inl m, d1)"
proof (cases "ks_triggered ks \<or> (\<exists>g. guard = Some g \<and> wg_paused g)")
  case False
  then obtain c where c: "c \<in> set checks" "\<forall>s d. \<exists>m d1. c s d = (Inl m, d1)" using assms unfolding closed_gate_def by blast
  have "\<exists>c \<in> set checks. \<forall>d. \<exists>m d1. c s d = (Inl m, d1)" by (rule bexI[OF _ c(1)]) (rule spec[OF c(2)])
  then have "\<exists>m d1. run_pre_trade_checks checks s d = (Inl m, d1)" by (rule checks_veto)
  then show ?thesis using False by (auto simp: run_risk_checks_def split: option.split)
qed (auto simp: run_risk_checks_def)

text \<open>A closed gate stops every order. While the kill switch is triggered, or the latency guard is
  paused, or one of the pre-trade checks vetoes, no tick whatsoever makes the live pipeline call a
  broker or record an order, and no tick makes the paper pipeline append a trade; a tick then ends
  with no signal, with the generator's own error, or with a rejection.\<close>
theorem closed_gate_stops_orders:
  assumes "closed_gate (lp_kill_switch lp) (lp_latency_guard lp) (lp_pre_trade_checks lp)"
    and "closed_gate (mk_kill_switch mk) (pp_latency_guard pp) (pp_pre_trade_checks pp)"
  shows "(case handle_tick env lp t st of (res, st') \<Rightarrow> ps_world st' = ps_world st
        \<and> (res = Inr None \<or> (\<exists>m. res = Inl (RiskRejected m)) \<or> (\<exists>e. res = Inl (GeneratorError e))))
    \<and> (case paper_handle_tick gen mk t' pp d ledger of (res, (pp', (d', ledger'))) \<Rightarrow> ledger' = ledger
        \<and> (res = Inr None \<or> (\<exists>m. res = Inl (RiskRejected m)) \<or> (\<exists>e. res = Inl (GeneratorError e))))"
proof (intro conjI)
  obtain sig g1 where g: "lp_generator lp (ss_update (tk_price t) (state_for (tk_symbol t) (ps_states st))) (ps_gen st) = (sig, g1)"
    by fastforce
  obtain m d1 where r: "\<And>s d. run_risk_checks (lp_kill_switch lp) (lp_latency_guard lp) (lp_pre_trade_checks lp) s d
      = (Inl (m s d), d1 s d)" using closed_gate_rejects[OF assms(1)] by metis
  show "case handle_tick env lp t st of (res, st') \<Rightarrow> ps_world st' = ps_world st
      \<and> (res = Inr None \<or> (\<exists>m. res = Inl (RiskRejected m)) \<or> (\<exists>e. res = Inl (GeneratorError e)))"
    by (simp add: handle_tick_def Let_def g r split: sum.split option.split)
next
  obtain sig g1 where g: "gen (ss_update (tk_price t') (state_for (tk_symbol t') (pp_states pp))) (pp_gen pp) = (sig, g1)"
    by fastforce
  obtain m d1 where r: "\<And>s d. run_risk_checks (mk_kill_switch mk) (pp_latency_guard pp) (pp_pre_trade_checks pp) s d
      = (Inl (m s d), d1 s d)" using closed_gate_rejects[OF assms(2)] by metis
  show "case paper_handle_tick gen mk t' pp d ledger of (res, (pp', (d', ledger'))) \<Rightarrow> ledger' = ledger
      \<and> (res = Inr None \<or> (\<exists>m. res = Inl (RiskRejected m)) \<or> (\<exists>e. res = Inl (GeneratorError e)))"
    by (simp add: paper_handle_tick_def Let_def g r split: sum.split option.split)
qed

text \<open>A blocked signal leaves a record and nothing else. With the compliance check first, a signal
  whose verdict is Block reaches no broker and creates no order; the check appends one audit entry.\<close>
theorem compliance_block_recorded:
  assumes "\<not> ks_triggered (lp_kill_switch lp)" and "lp_latency_guard lp = None"
    and "lp_pre_trade_checks lp = compliance_pre_trade_check fmt env # checks"
    and "fst (lp_generator lp (ss_update (tk_price t) (state_for (tk_symbol t) (ps_states st))) (ps_gen st)) = Inr (Some s)"
    and "cv_verdict (signal_verdict s) = Block"
  shows "case handle_tick env lp t st of (res, st') \<Rightarrow> (\<exists>m. res = Inl (RiskRejected m)) \<and> ps_world st' = ps_world st
    \<and> db_orders (ps_db st') = db_orders (ps_db st)
    \<and> (\<exists>row. db_audit (ps_db st') = db_audit (ps_db st) @ [row] \<and> al_action row = ''ORDER_BLOCKED_COMPLIANCE'')"
proof -
  obtain g1 where g: "lp_generator lp (ss_update (tk_price t) (state_for (tk_symbol t) (ps_states st))) (ps_gen st) = (Inr (Some s), g1)"
    using assms(4) by (cases "lp_generator lp (ss_update (tk_price t) (state_for (tk_symbol t) (ps_states st))) (ps_gen st)") simp
  have row: "al_action (audit_row env (audit_entry a b act c i x y) rows) = act" for a b act c i x y rows
    by (simp add: audit_row_def audit_entry_def Let_def audit_content.defs)
  show ?thesis using assms(1-3,5)
    by (simp add: handle_tick_def Let_def g run_risk_checks_def compliance_pre_trade_check_def row)
      (simp add: write_audit_entry_def Let_def row)
qed

section \<open>A concrete pipeline\<close>

definition sample_signal :: "int \<Rightarrow> trade_signal" where
  "sample_signal q = \<lparr>ts_symbol = ''INFY'', ts_side = BUY, ts_quantity = q, ts_order_type = MARKET, ts_limit_price = None,
     ts_reference_price = None, ts_option_legs = None\<rparr>"

definition sample_live_pipeline :: "kill_switch \<Rightarrow> int \<Rightarrow> (unit, order_request list) live_pipeline" where
  "sample_live_pipeline ks q = \<lparr>lp_broker = taking_broker (\<lambda>q. Inr (ack q)), lp_generator = (\<lambda>_ g. (Inr (Some (sample_signal q)), g)),
     lp_kill_switch = ks, lp_latency_guard = None, lp_pre_trade_checks = [compliance_pre_trade_check (\<lambda>_ _. ''x'') sample_env],
     lp_account_id = None, lp_strategy_id = None, lp_agent = default_agent, lp_clock = (\<lambda>_. 0), lp_sleep = (\<lambda>_ w. w)\<rparr>"

definition sample_pipeline_state :: "(unit, order_request list) pipeline_state" where
  "sample_pipeline_state = \<lparr>ps_states = [], ps_gen = (), ps_db = empty_db, ps_world = []\<rparr>"

definition sample_paper_pipeline :: "unit paper_pipeline" where
  "sample_paper_pipeline = \<lparr>pp_account_id = 1, pp_strategy_id = None, pp_latency_guard = None, pp_pre_trade_checks = [],
     pp_states = [], pp_gen = ()\<rparr>"

theorem closed_gate_stops_orders_witness:
  "ps_world (snd (handle_tick sample_env (sample_live_pipeline (ks_trip (new_kill_switch 1)) 5)
      \<lparr>tk_symbol = ''INFY'', tk_price = 100, tk_timestamp = 0\<rparr> sample_pipeline_state)) = []"
proof -
  let ?lp = "sample_live_pipeline (ks_trip (new_kill_switch 1)) 5"
  let ?t = "\<lparr>tk_symbol = ''INFY'', tk_price = 100, tk_timestamp = 0\<rparr>"
  let ?mk = "\<lparr>mk_now = 0, mk_quote = (\<lambda>_. Inl (BrokerFault ''x'')), mk_kill_switch = ks_trip (new_kill_switch 1)\<rparr>"
  have "closed_gate (lp_kill_switch ?lp) (lp_latency_guard ?lp) (lp_pre_trade_checks ?lp)"
    "closed_gate (mk_kill_switch ?mk) (pp_latency_guard sample_paper_pipeline) (pp_pre_trade_checks sample_paper_pipeline)"
    by (simp_all add: closed_gate_def sample_live_pipeline_def ks_trip_def)
  from closed_gate_stops_orders[OF this, where env = sample_env and t = ?t and st = sample_pipeline_state
      and gen = "\<lambda>_ g. (Inr None, g)" and t' = ?t and d = empty_db and ledger = "[]"]
  show ?thesis by (auto simp: sample_pipeline_state_def split: prod.splits)
qed

theorem compliance_block_recorded_witness:
  "\<exists>row. db_audit (ps_db (snd (handle_tick sample_env (sample_live_pipeline (new_kill_switch 1) 70000)
      \<lparr>tk_symbol = ''INFY'', tk_price = 100, tk_timestamp = 0\<rparr> sample_pipeline_state))) = [row]
    \<and> al_action row = ''ORDER_BLOCKED_COMPLIANCE''"
proof -
  let ?lp = "sample_live_pipeline (new_kill_switch 1) 70000"
  let ?t = "\<lparr>tk_symbol = ''INFY'', tk_price = 100, tk_timestamp = 0\<rparr>"
  have v: "cv_verdict (signal_verdict (sample_signal 70000)) = Block"
    by (simp add: signal_verdict_def sample_signal_def evaluate_compliance_def check_position_limit_def
        PLACEHOLDER_SEBI_POSITION_LIMITS_def)
  show ?thesis
    using compliance_block_recorded[where lp = ?lp and fmt = "\<lambda>_ _. ''x''" and env = sample_env and checks = "[]" and t = ?t
        and st = sample_pipeline_state and s = "sample_signal 70000"] v
    by (auto simp: sample_live_pipeline_def new_kill_switch_def sample_pipeline_state_def empty_db_def split: prod.splits)
qed

end
