(* ===== verification/StopLoss.thy ===== *)
theory StopLoss
  imports Pipeline Calendar "HOL-Library.Multiset"
begin

text \<open>
  The intraday worker: the stop-loss rule that drives a paper pipeline
  (\<open>src/engine/paper_trading/intraday_risk_rules.py\<close>), the listener that feeds ticks to the pipelines by symbol
  (\<open>src/engine/live/tick_listener.py\<close>), the worker's synchronisation of the pipelines with the open positions
  (\<open>src/workers/paper_trading_worker.py\<close>) and the paper kill switch
  (\<open>src/engine/paper_trading/paper_kill_switch.py\<close>).
\<close>

section \<open>The stop-loss rule\<close>

record position_state =
  sl_symbol :: string
  sl_quantity :: int
  sl_entry_price :: real
  sl_max_drawdown_limit_pct :: real
  sl_is_open :: bool

definition stop_loss :: "position_state generator" where
  "stop_loss st pos =
    (if ss_prices st = [] then (Inr None, pos)
     else
      (let current_price = last (ss_prices st) in
       if sl_is_open pos then
         (if sl_entry_price pos = 0 then (Inl ''ZeroDivisionError'', pos)
          else
           (let loss_pct = (sl_entry_price pos - current_price) / sl_entry_price pos * 100 in
            if loss_pct \<ge> sl_max_drawdown_limit_pct pos then
              (Inr (Some \<lparr>ts_symbol = sl_symbol pos, ts_side = SELL, ts_quantity = sl_quantity pos,
                 ts_order_type = MARKET, ts_limit_price = None, ts_reference_price = Some current_price,
                 ts_option_legs = None\<rparr>), pos\<lparr>sl_is_open := False\<rparr>)
            else (Inr None, pos)))
       else if current_price \<ge> sl_entry_price pos then
         (Inr (Some \<lparr>ts_symbol = sl_symbol pos, ts_side = BUY, ts_quantity = sl_quantity pos,
            ts_order_type = MARKET, ts_limit_price = None, ts_reference_price = Some current_price,
            ts_option_legs = None\<rparr>), pos\<lparr>sl_is_open := True, sl_entry_price := current_price\<rparr>)
       else (Inr None, pos)))"

text \<open>What the rule believes is held.\<close>
definition believed :: "position_state \<Rightarrow> int" where
  "believed pos = (if sl_is_open pos then sl_quantity pos else 0)"

fun signal_quantity :: "string + trade_signal option \<Rightarrow> int" where
  "signal_quantity (Inr (Some s)) = signed_quantity (ts_side s) (ts_quantity s)"
| "signal_quantity _ = 0"

fun stop_loss_run :: "symbol_state list \<Rightarrow> position_state \<Rightarrow> (string + trade_signal option) list \<times> position_state" where
  "stop_loss_run [] pos = ([], pos)"
| "stop_loss_run (st # sts) pos =
    (case stop_loss st pos of (r, pos1) \<Rightarrow> (case stop_loss_run sts pos1 of (rs, pos2) \<Rightarrow> (r # rs, pos2)))"

lemma stop_loss_belief: "believed (snd (stop_loss st pos)) = believed pos + signal_quantity (fst (stop_loss st pos))"
  by (simp add: stop_loss_def believed_def Let_def)

lemma stop_loss_quantity [simp]: "sl_quantity (snd (stop_loss st pos)) = sl_quantity pos"
  by (simp add: stop_loss_def Let_def)

text \<open>The stop-loss rule never sells what it sold nor buys what it holds. Over any series of price
  states its signals add up to the change of the quantity it believes held, which is always zero or
  the position's own; an open position is sold at the first price at or below its entry less the
  drawdown limit, and bought back only at or above the entry.\<close>
theorem stop_loss_alternates:
  shows "(case stop_loss_run sts pos of (rs, pos') \<Rightarrow>
        believed pos' = believed pos + sum_list (map signal_quantity rs) \<and> believed pos' \<in> {0, sl_quantity pos})
    \<and> (let p = last (ss_prices st) in
        ss_prices st \<noteq> [] \<and> 0 < sl_entry_price pos \<and> sl_is_open pos \<longrightarrow>
          ((\<exists>s. fst (stop_loss st pos) = Inr (Some s) \<and> ts_side s = SELL)
             \<longleftrightarrow> p \<le> sl_entry_price pos * (1 - sl_max_drawdown_limit_pct pos / 100)))
    \<and> (let p = last (ss_prices st) in
        ss_prices st \<noteq> [] \<and> \<not> sl_is_open pos \<longrightarrow>
          ((\<exists>s. fst (stop_loss st pos) = Inr (Some s) \<and> ts_side s = BUY) \<longleftrightarrow> sl_entry_price pos \<le> p))"
proof (intro conjI)
  show "case stop_loss_run sts pos of (rs, pos') \<Rightarrow>
      believed pos' = believed pos + sum_list (map signal_quantity rs) \<and> believed pos' \<in> {0, sl_quantity pos}"
  proof (induction sts arbitrary: pos)
    case (Cons st sts)
    obtain r pos1 where r: "stop_loss st pos = (r, pos1)" by fastforce
    have "believed pos1 = believed pos + signal_quantity r" "sl_quantity pos1 = sl_quantity pos"
      using stop_loss_belief[of st pos] stop_loss_quantity[of st pos] by (simp_all add: r)
    then show ?case using Cons[of pos1] by (auto simp: r split: prod.split)
  qed (simp add: believed_def)
  have pct: "l \<le> (e - p) / e * 100 \<longleftrightarrow> p \<le> e * (1 - l / 100)" if "0 < e" for l e p :: real
  proof -
    have "l \<le> (e - p) / e * 100 \<longleftrightarrow> l * e \<le> (e - p) * 100"
      using that by (simp add: field_simps)
    also have "\<dots> \<longleftrightarrow> p \<le> e * (1 - l / 100)" by (auto simp: field_simps)
    finally show ?thesis .
  qed
  show "let p = last (ss_prices st) in
      ss_prices st \<noteq> [] \<and> 0 < sl_entry_price pos \<and> sl_is_open pos \<longrightarrow>
        ((\<exists>s. fst (stop_loss st pos) = Inr (Some s) \<and> ts_side s = SELL)
           \<longleftrightarrow> p \<le> sl_entry_price pos * (1 - sl_max_drawdown_limit_pct pos / 100))"
    using pct by (auto simp: stop_loss_def Let_def)
  show "let p = last (ss_prices st) in
      ss_prices st \<noteq> [] \<and> \<not> sl_is_open pos \<longrightarrow>
        ((\<exists>s. fst (stop_loss st pos) = Inr (Some s) \<and> ts_side s = BUY) \<longleftrightarrow> sl_entry_price pos \<le> p)"
    by (auto simp: stop_loss_def Let_def)
qed

section \<open>Belief and ledger\<close>

text \<open>What the account's ledger holds of a symbol for a strategy.\<close>
definition held :: "nat option \<Rightarrow> string \<Rightarrow> paper_trade list \<Rightarrow> int" where
  "held strat s ledger = net_of (filter (\<lambda>t. pt_symbol t = s \<and> pt_strategy_id t = strat) ledger)"

lemma held_append [simp]: "held strat s (ledger @ [t]) = held strat s ledger
    + (if pt_symbol t = s \<and> pt_strategy_id t = strat then trade_qty t else 0)"
  by (simp add: held_def net_of_def)

definition trades_of_strategy :: "nat \<Rightarrow> paper_trade list \<Rightarrow> paper_trade list" where
  "trades_of_strategy sid ledger = sort_key pt_executed_at (filter (\<lambda>t. pt_strategy_id t = Some sid) ledger)"

lemma strategy_net:
  "case dict_get (fst (replay_ledger (trades_of_strategy sid ledger))) x of
     None \<Rightarrow> held (Some sid) x ledger = 0
   | Some p \<Rightarrow> sp_net_quantity p = held (Some sid) x ledger"
proof -
  have "sum_list (map f xs) = sum_mset (image_mset f (mset xs))" for f :: "paper_trade \<Rightarrow> int" and xs
    by (induction xs) simp_all
  then have sort: "sum_list (map f (filter P (sort_key k xs))) = sum_list (map f (filter P xs))"
    for f :: "paper_trade \<Rightarrow> int" and P and k :: "paper_trade \<Rightarrow> int" and xs
    by (metis mset_filter mset_sort)
  have "net_of (of_symbol x (trades_of_strategy sid ledger)) = held (Some sid) x ledger"
    by (simp add: net_of_def of_symbol_def trades_of_strategy_def held_def sort filter_filter) (simp add: conj_commute)
  moreover have "net_of [] = 0" by (simp add: net_of_def)
  ultimately show ?thesis
    using replay_sym_ok[of "trades_of_strategy sid ledger" x] by (auto simp: sym_ok_def split: option.splits)
qed

lemma paper_fill_bound:
  assumes "execute_paper_trade gq now x sd q acc strat it ul sk ex ledger = (Inr t, ledger')" and "0 < q"
  shows "0 < pt_filled_quantity t \<and> pt_filled_quantity t \<le> q"
proof -
  obtain d r where r: "simulate_fill sd q d = Inr r" "pt_filled_quantity t = fr_filled_quantity r" "fr_filled_quantity r \<noteq> 0"
    using assms(1) by (auto simp: execute_paper_trade_def Let_def split: sum.splits fill_error.splits option.splits if_splits)
  have "fr_filled_quantity r = min q (available d)"
    using r(1) assms(2) simulate_fill_takes[of q d] simulate_fill_no_takes[of q d]
    by (cases "takes q d") (auto simp: no_fill_def)
  moreover have "0 \<le> available d" by (rule available_nonneg)
  ultimately show ?thesis using r assms(2) by (auto simp: min_def split: if_splits)
qed

lemma paper_trade_row:
  assumes "execute_paper_trade gq now s sd q acc strat it ul sk ex ledger = (r, ledger')"
  shows "case r of Inl e \<Rightarrow> ledger' = ledger | Inr t \<Rightarrow> ledger' = ledger @ [t] \<and> pt_symbol t = s \<and> pt_side t = sd
    \<and> pt_strategy_id t = strat \<and> pt_requested_quantity t = q"
  using assms by (auto simp: execute_paper_trade_def Let_def split: sum.splits fill_error.splits option.splits if_splits)

lemma last_price [simp]:
  "0 < ss_max_history st \<Longrightarrow> last (ss_prices (ss_update p st)) = p"
  "0 < ss_max_history st \<Longrightarrow> ss_prices (ss_update p st) \<noteq> []"
  "ss_max_history (ss_update p st) = ss_max_history st"
  by (auto simp: ss_update_def Let_def)

lemma state_for_set [simp]: "state_for s (dict_set k st sts) = (if s = k then st else state_for s sts)"
  by (simp add: state_for_def)

abbreviation watches :: "position_state paper_pipeline \<Rightarrow> string \<Rightarrow> bool" where
  "watches pp s \<equiv> 0 < ss_max_history (state_for s (pp_states pp))"

lemma tick_rejected:
  assumes "watches pp (tk_symbol t)" and "sl_is_open (pp_gen pp)" and "0 < sl_entry_price (pp_gen pp)"
    and "tk_price t \<le> sl_entry_price (pp_gen pp) * (1 - sl_max_drawdown_limit_pct (pp_gen pp) / 100)"
    and "ks_triggered (mk_kill_switch mk)"
  shows "\<exists>m pp'. paper_handle_tick stop_loss mk t pp d ledger = (Inl (RiskRejected m), (pp', (d, ledger)))
    \<and> pp_gen pp' = (pp_gen pp)\<lparr>sl_is_open := False\<rparr> \<and> watches pp' (tk_symbol t)
    \<and> pp_strategy_id pp' = pp_strategy_id pp \<and> pp_latency_guard pp' = pp_latency_guard pp
    \<and> pp_pre_trade_checks pp' = pp_pre_trade_checks pp"
proof -
  have "sl_max_drawdown_limit_pct (pp_gen pp) * sl_entry_price (pp_gen pp)
      \<le> (sl_entry_price (pp_gen pp) - tk_price t) * 100" using assms(4) by (auto simp: field_simps)
  then have "sl_max_drawdown_limit_pct (pp_gen pp)
      \<le> (sl_entry_price (pp_gen pp) - tk_price t) / sl_entry_price (pp_gen pp) * 100"
    using assms(3) by (simp add: field_simps)
  then show ?thesis using assms by (simp add: paper_handle_tick_def stop_loss_def Let_def run_risk_checks_def)
qed

lemma tick_rebuys:
  assumes "watches pp (tk_symbol t)" and "\<not> sl_is_open (pp_gen pp)" and "sl_entry_price (pp_gen pp) \<le> tk_price t"
    and "\<not> ks_triggered (mk_kill_switch mk)" and "pp_latency_guard pp = None" and "pp_pre_trade_checks pp = []"
    and "paper_handle_tick stop_loss mk t pp d ledger = (Inr r, (pp', (d', ledger')))"
  shows "\<exists>trade. r = Some trade \<and> pt_side trade = BUY \<and> pt_requested_quantity trade = sl_quantity (pp_gen pp)
    \<and> held (pp_strategy_id pp) (sl_symbol (pp_gen pp)) ledger'
        = held (pp_strategy_id pp) (sl_symbol (pp_gen pp)) ledger + pt_filled_quantity trade"
proof -
  obtain x l where x: "execute_paper_trade (mk_quote mk) (mk_now mk) (sl_symbol (pp_gen pp)) BUY (sl_quantity (pp_gen pp))
      (pp_account_id pp) (pp_strategy_id pp) EQUITY None None None ledger = (x, l)" by fastforce
  show ?thesis using assms paper_trade_row[OF x]
    by (cases x) (auto simp: paper_handle_tick_def stop_loss_def Let_def run_risk_checks_def x trade_qty_def)
qed


section \<open>The listener\<close>

type_synonym worker_state = "(string, position_state paper_pipeline) dict \<times> db \<times> paper_trade list"

text \<open>The loop over the messages; an exception of a pipeline leaves it.\<close>
fun listen :: "(tick \<times> market) list \<Rightarrow> worker_state \<Rightarrow> tick_error option \<times> worker_state" where
  "listen [] st = (None, st)"
| "listen ((t, mk) # ms) (pipes, d, ledger) =
    (case dict_get pipes (tk_symbol t) of
       None \<Rightarrow> listen ms (pipes, d, ledger)
     | Some pp \<Rightarrow>
        (case paper_handle_tick stop_loss mk t pp d ledger of
           (Inl e, (pp1, (d1, ledger1))) \<Rightarrow> (Some e, (dict_set (tk_symbol t) pp1 pipes, d1, ledger1))
         | (Inr _, (pp1, (d1, ledger1))) \<Rightarrow> listen ms (dict_set (tk_symbol t) pp1 pipes, d1, ledger1)))"

lemma listen_append:
  "listen (xs @ ys) st = (case listen xs st of (Some e, st1) \<Rightarrow> (Some e, st1) | (None, st1) \<Rightarrow> listen ys st1)"
  by (induction xs st rule: listen.induct) (auto split: option.split sum.split prod.split)

text \<open>One rejected stop-loss ends all monitoring. The listener has no handler for the exceptions of the
  pipelines it feeds: after a tick whose sale the risk gate rejects, no later tick of any symbol is
  processed, whatever its price, so every other open position loses its stop-loss as well.\<close>
theorem rejection_ends_monitoring:
  assumes "dict_get pipes (tk_symbol t) = Some pp"
    and "watches pp (tk_symbol t)" and "sl_is_open (pp_gen pp)" and "0 < sl_entry_price (pp_gen pp)"
    and "tk_price t \<le> sl_entry_price (pp_gen pp) * (1 - sl_max_drawdown_limit_pct (pp_gen pp) / 100)"
    and "ks_triggered (mk_kill_switch mk)"
  shows "\<exists>m pipes1. listen ((t, mk) # later) (pipes, d, ledger) = (Some (RiskRejected m), (pipes1, d, ledger))
    \<and> (\<forall>s. s \<noteq> tk_symbol t \<longrightarrow> dict_get pipes1 s = dict_get pipes s)"
proof -
  obtain m pp1 where "paper_handle_tick stop_loss mk t pp d ledger = (Inl (RiskRejected m), (pp1, (d, ledger)))"
    using tick_rejected[OF assms(2-6)] by metis
  then show ?thesis using assms(1) by simp
qed

section \<open>The worker's pipelines\<close>

record paper_strategy =
  pst_id :: nat
  pst_universe :: "string list"
  pst_is_fno :: bool
  pst_max_drawdown_limit :: real

definition open_pipeline :: "nat \<Rightarrow> paper_strategy \<Rightarrow> string \<Rightarrow> symbol_position \<Rightarrow> position_state paper_pipeline" where
  "open_pipeline account s symbol pos =
    \<lparr>pp_account_id = account, pp_strategy_id = Some (pst_id s), pp_latency_guard = None, pp_pre_trade_checks = [],
     pp_states = [], pp_gen = \<lparr>sl_symbol = symbol, sl_quantity = sp_net_quantity pos, sl_entry_price = sp_average_cost pos,
       sl_max_drawdown_limit_pct = pst_max_drawdown_limit s, sl_is_open = True\<rparr>\<rparr>"

type_synonym pipeline_table = "(string, position_state paper_pipeline) dict"

definition sync_step :: "nat \<Rightarrow> paper_trade list \<Rightarrow> pipeline_table \<times> string list \<Rightarrow> paper_strategy \<Rightarrow> pipeline_table \<times> string list" where
  "sync_step account ledger acc s =
    (case acc of (pipes, active) \<Rightarrow>
      (case pst_universe s of
         [] \<Rightarrow> (pipes, active)
       | symbol # _ \<Rightarrow>
          if pst_is_fno s then (pipes, active)
          else if dict_get pipes symbol \<noteq> None then (pipes, active @ [symbol])
          else
           (case dict_get (fst (replay_ledger (trades_of_strategy (pst_id s) ledger))) symbol of
              None \<Rightarrow> (pipes, active @ [symbol])
            | Some pos \<Rightarrow>
               if sp_net_quantity pos \<le> 0 then (pipes, active @ [symbol])
               else (dict_set symbol (open_pipeline account s symbol pos) pipes, active @ [symbol]))))"

definition sync_pipelines :: "bool \<Rightarrow> nat \<Rightarrow> paper_strategy list \<Rightarrow> paper_trade list \<Rightarrow> pipeline_table \<Rightarrow> pipeline_table" where
  "sync_pipelines broker_configured account strategies ledger pipes =
    (if \<not> broker_configured then pipes
     else (case foldl (sync_step account ledger) (pipes, []) strategies of
       (pipes1, active) \<Rightarrow> filter (\<lambda>(k, _). k \<in> set active) pipes1))"

definition worker_cycle :: "bool \<Rightarrow> bool \<Rightarrow> nat \<Rightarrow> paper_strategy list \<Rightarrow> paper_trade list \<Rightarrow> pipeline_table \<Rightarrow> pipeline_table" where
  "worker_cycle market_open broker_configured account strategies ledger pipes =
    (if market_open then sync_pipelines broker_configured account strategies ledger pipes
     else if pipes \<noteq> [] then [] else pipes)"

definition watched_symbols :: "paper_strategy list \<Rightarrow> string list" where
  "watched_symbols ss = concat (map (\<lambda>s. case pst_universe s of [] \<Rightarrow> [] | x # _ \<Rightarrow> if pst_is_fno s then [] else [x]) ss)"

text \<open>The position a strategy holds of the symbol it watches, if it is to be protected.\<close>
definition to_protect :: "paper_trade list \<Rightarrow> paper_strategy \<Rightarrow> string \<Rightarrow> symbol_position option" where
  "to_protect ledger s x =
    (if x \<in> set (watched_symbols [s]) then
       (case dict_get (fst (replay_ledger (trades_of_strategy (pst_id s) ledger))) x of
          Some pos \<Rightarrow> if 0 < sp_net_quantity pos then Some pos else None | None \<Rightarrow> None)
     else None)"

definition first_protection :: "nat \<Rightarrow> paper_trade list \<Rightarrow> paper_strategy list \<Rightarrow> string \<Rightarrow> position_state paper_pipeline option" where
  "first_protection account ledger ss x =
    (case List.find (\<lambda>s. to_protect ledger s x \<noteq> None) ss of
       None \<Rightarrow> None | Some s \<Rightarrow> map_option (open_pipeline account s x) (to_protect ledger s x))"

lemma sync_step_effect:
  "snd (sync_step account ledger (pipes, active) s) = active @ watched_symbols [s]"
  "dict_get (fst (sync_step account ledger (pipes, active) s)) x =
     (case dict_get pipes x of Some p \<Rightarrow> Some p | None \<Rightarrow> map_option (open_pipeline account s x) (to_protect ledger s x))"
  by (cases "pst_universe s"; auto simp: sync_step_def watched_symbols_def to_protect_def split: option.split)+

lemma sync_fold:
  "snd (foldl (sync_step account ledger) (pipes, active) ss) = active @ watched_symbols ss"
  "dict_get (fst (foldl (sync_step account ledger) (pipes, active) ss)) x =
     (case dict_get pipes x of Some p \<Rightarrow> Some p | None \<Rightarrow> first_protection account ledger ss x)"
proof (induction ss arbitrary: pipes active)
  case (Cons s ss)
  have w: "watched_symbols (s # ss) = watched_symbols [s] @ watched_symbols ss" by (simp add: watched_symbols_def)
  {
    case 1
    obtain p1 a1 where st: "sync_step account ledger (pipes, active) s = (p1, a1)" by fastforce
    show ?case using Cons(1)[of p1 a1] sync_step_effect(1)[of account ledger pipes active s] by (simp add: st w)
  next
    case 2
    obtain p1 a1 where st: "sync_step account ledger (pipes, active) s = (p1, a1)" by fastforce
    show ?case using Cons(2)[of p1 a1] sync_step_effect(2)[of account ledger pipes active s x]
      by (cases "dict_get pipes x") (auto simp: st first_protection_def split: option.splits)
  }
qed (simp_all add: watched_symbols_def first_protection_def split: option.split)

lemma dict_get_filter_keys: "dict_get (filter (\<lambda>(k, _). k \<in> K) d) x = (if x \<in> K then dict_get d x else None)"
  by (induction d) auto

text \<open>What the worker protects. After a synchronisation with a broker, a symbol has a pipeline exactly
  when some cash strategy in paper trading watches it first and either it already had one, kept with
  its state, or one of those strategies holds a long position: the first that does gets a pipeline
  for its own quantity and average cost. Any other strategy holding the same symbol has none.\<close>
theorem worker_protects_first_holder:
  "dict_get (sync_pipelines True account ss ledger pipes) x =
    (if x \<in> set (watched_symbols ss) then
       (case dict_get pipes x of Some p \<Rightarrow> Some p | None \<Rightarrow> first_protection account ledger ss x)
     else None)"
  using sync_fold[of account ledger pipes "[]" ss]
  by (auto simp: sync_pipelines_def dict_get_filter_keys split: prod.split)

section \<open>The paper kill switch\<close>

definition is_paper_trading_halted :: "kill_switch \<Rightarrow> kill_switch_service \<Rightarrow> bool" where
  "is_paper_trading_halted paper service = (ks_triggered paper \<or> is_tripped service)"

definition update_and_check :: "real \<Rightarrow> kill_switch \<Rightarrow> kill_switch_service \<Rightarrow> bool \<times> kill_switch" where
  "update_and_check equity paper service =
    (let paper1 = snd (ks_update equity paper) in (\<not> is_paper_trading_halted paper1 service, paper1))"

lemma update_and_check_iff:
  "fst (update_and_check e (ks_run es (new_kill_switch thr)) service)
     \<longleftrightarrow> \<not> is_tripped service \<and> \<not> ks_triggered (ks_run (es @ [e]) (new_kill_switch thr))"
  by (auto simp: update_and_check_def is_paper_trading_halted_def Let_def ks_run_snoc)

section \<open>Concrete runs\<close>

definition sample_pipeline :: "position_state paper_pipeline" where
  "sample_pipeline = \<lparr>pp_account_id = 1, pp_strategy_id = Some 2, pp_latency_guard = None, pp_pre_trade_checks = [],
     pp_states = [], pp_gen = \<lparr>sl_symbol = ''S'', sl_quantity = 10, sl_entry_price = 100,
       sl_max_drawdown_limit_pct = 15, sl_is_open = True\<rparr>\<rparr>"

definition sample_tick :: "real \<Rightarrow> tick" where
  "sample_tick p = \<lparr>tk_symbol = ''S'', tk_price = p, tk_timestamp = 0\<rparr>"

definition sample_market :: "kill_switch \<Rightarrow> market" where
  "sample_market ks = \<lparr>mk_now = 0, mk_quote = (\<lambda>s. Inr \<lparr>qt_symbol = s, qt_last_price = 100, qt_buy_depth = [],
     qt_sell_depth = [\<lparr>dl_price = 100, dl_quantity = 50, dl_orders = 1\<rparr>]\<rparr>), mk_kill_switch = ks\<rparr>"

lemma sample_facts:
  "watches sample_pipeline ''S''" "sl_is_open (pp_gen sample_pipeline)" "sl_entry_price (pp_gen sample_pipeline) = 100"
  "sl_max_drawdown_limit_pct (pp_gen sample_pipeline) = 15" "pp_latency_guard sample_pipeline = None"
  "pp_pre_trade_checks sample_pipeline = []" "tk_symbol (sample_tick p) = ''S''" "tk_price (sample_tick p) = p"
  "mk_kill_switch (sample_market ks) = ks" "ks_triggered (ks_trip ks)"
  by (simp_all add: sample_pipeline_def state_for_def dict_get_default_def new_symbol_state_def sample_tick_def
      sample_market_def ks_trip_def)


theorem rejection_ends_monitoring_witness:
  "\<exists>m pipes1. listen [(sample_tick 80, sample_market (ks_trip (new_kill_switch 1))),
        (sample_tick 70, sample_market (new_kill_switch 1))] ([(''S'', sample_pipeline)], empty_db, [])
     = (Some (RiskRejected m), (pipes1, empty_db, []))"
  using rejection_ends_monitoring[where pipes = "[(''S'', sample_pipeline)]" and t = "sample_tick 80" and pp = sample_pipeline
      and mk = "sample_market (ks_trip (new_kill_switch 1))" and later = "[(sample_tick 70, sample_market (new_kill_switch 1))]"
      and d = empty_db and ledger = "[]"]
  by (auto simp: sample_facts)

theorem stop_loss_alternates_witness:
  "\<exists>s. fst (stop_loss (ss_update 80 (new_symbol_state ''S'')) (pp_gen sample_pipeline)) = Inr (Some s) \<and> ts_side s = SELL"
  using stop_loss_alternates[where sts = "[]" and pos = "pp_gen sample_pipeline" and st = "ss_update 80 (new_symbol_state ''S'')"]
  by (simp add: sample_facts new_symbol_state_def)

end
