(* ===== verification/PaperAccount.thy ===== *)
theory PaperAccount
  imports Ledger
begin

text \<open>
  What the paper account derives from its ledger: blocked margin
  (\<open>src/engine/paper_trading/margin_model.py\<close>), equity
  (\<open>src/engine/paper_trading/account_equity.py\<close>), the daily snapshot table
  (\<open>src/engine/paper_trading/equity_snapshot.py\<close>), the one seeded account
  (\<open>src/engine/paper_trading/paper_account.py\<close>).
\<close>

section \<open>Margin\<close>

definition FUTURES_MARGIN_PCT :: real where
  "FUTURES_MARGIN_PCT = 18 / 100"

record margin_line =
  ml_symbol :: string
  ml_instrument_type :: instrument
  ml_net_quantity :: int
  ml_notional :: real
  ml_margin_required :: real

record margin_summary =
  ms_total_margin_blocked :: real
  ms_lines :: "margin_line list"

definition compute_margin_line :: "symbol_position \<Rightarrow> real \<Rightarrow> margin_line" where
  "compute_margin_line pos last_price =
    (let notional = of_int \<bar>sp_net_quantity pos\<bar> * last_price;
         required =
           (if sp_net_quantity pos = 0 then 0
            else case sp_instrument_type pos of
                EQUITY \<Rightarrow> 0
              | FUTURE \<Rightarrow> notional * FUTURES_MARGIN_PCT
              | OPT _ \<Rightarrow> if sp_net_quantity pos > 0 then 0 else notional)
     in \<lparr>ml_symbol = sp_symbol pos, ml_instrument_type = sp_instrument_type pos,
         ml_net_quantity = sp_net_quantity pos, ml_notional = notional,
         ml_margin_required = required\<rparr>)"

definition is_open_priced :: "(string, real) dict \<Rightarrow> string \<times> symbol_position \<Rightarrow> bool" where
  "is_open_priced last_prices e \<longleftrightarrow>
     sp_net_quantity (snd e) \<noteq> 0 \<and> dict_get last_prices (fst e) \<noteq> None"

definition compute_margin_summary ::
  "(string, symbol_position) dict \<Rightarrow> (string, real) dict \<Rightarrow> margin_summary" where
  "compute_margin_summary positions last_prices =
    (let lines = map (\<lambda>e. compute_margin_line (snd e) (the (dict_get last_prices (fst e))))
                   (filter (is_open_priced last_prices) positions)
     in \<lparr>ms_total_margin_blocked = sum_list (map ml_margin_required lines), ms_lines = lines\<rparr>)"

section \<open>Equity\<close>

definition unrealized_of :: "(string, symbol_position) dict \<Rightarrow> (string, real) dict \<Rightarrow> real" where
  "unrealized_of positions last_prices =
    sum_list (map (\<lambda>e. (the (dict_get last_prices (fst e)) - sp_average_cost (snd e))
                         * of_int (sp_net_quantity (snd e)))
       (filter (is_open_priced last_prices) positions))"

definition realized_of :: "(string, symbol_position) dict \<Rightarrow> real" where
  "realized_of positions = sum_list (map (\<lambda>e. sp_realized_pnl (snd e)) positions)"

definition compute_equity_from_positions ::
  "real \<Rightarrow> (string, symbol_position) dict \<Rightarrow> (string, real) dict \<Rightarrow> real" where
  "compute_equity_from_positions capital_allocated positions last_prices =
    capital_allocated + realized_of positions + unrealized_of positions last_prices
      - ms_total_margin_blocked (compute_margin_summary positions last_prices)"

datatype account_type = Paper | Live

record account =
  ac_id :: nat
  ac_broker :: string
  ac_account_type :: account_type
  ac_capital_allocated :: real

record equity_snapshot =
  es_account_id :: nat
  es_snapshot_date :: int
  es_cash :: real
  es_realized_pnl_cumulative :: real
  es_unrealized_pnl :: real
  es_margin_blocked :: real
  es_equity :: real

record paper_db =
  pd_accounts :: "account list"
  pd_trades :: "paper_trade list"
  pd_snapshots :: "equity_snapshot list"

definition account_trades :: "nat \<Rightarrow> paper_db \<Rightarrow> paper_trade list" where
  "account_trades account_id db =
    sort_key pt_executed_at (filter (\<lambda>t. pt_account_id t = account_id) (pd_trades db))"

text \<open>One quote per open symbol, in the order of the positions; a failed fetch leaves the symbol
  without a price.\<close>
fun fetch_last_prices ::
  "(string \<Rightarrow> broker_error + quote) \<Rightarrow> (string, symbol_position) dict \<Rightarrow> (string, real) dict
    \<Rightarrow> (string, real) dict" where
  "fetch_last_prices get_quote [] acc = acc"
| "fetch_last_prices get_quote ((s, pos) # rest) acc =
    (if sp_net_quantity pos = 0 then fetch_last_prices get_quote rest acc
     else case get_quote s of
            Inl e \<Rightarrow> fetch_last_prices get_quote rest acc
          | Inr q \<Rightarrow> fetch_last_prices get_quote rest (dict_set s (qt_last_price q) acc))"

datatype account_error = NoAccountRow nat | NoSeededPaperAccount

definition compute_account_equity ::
  "nat \<Rightarrow> paper_db \<Rightarrow> (string \<Rightarrow> broker_error + quote) \<Rightarrow> account_error + real" where
  "compute_account_equity account_id db get_quote =
    (case row_by ac_id account_id (pd_accounts db) of
       None \<Rightarrow> Inl (NoAccountRow account_id)
     | Some account \<Rightarrow>
        (let positions = fst (replay_ledger (account_trades account_id db));
             last_prices = fetch_last_prices get_quote positions []
         in Inr (compute_equity_from_positions (ac_capital_allocated account) positions last_prices)))"

text \<open>The row of the same account and date is rewritten in place, else one is inserted.\<close>
definition snapshot_key :: "equity_snapshot \<Rightarrow> nat \<times> int" where
  "snapshot_key r = (es_account_id r, es_snapshot_date r)"

definition store_snapshot :: "equity_snapshot \<Rightarrow> equity_snapshot list \<Rightarrow> equity_snapshot list" where
  "store_snapshot s rows =
    (case row_by snapshot_key (snapshot_key s) rows of
       Some old \<Rightarrow> update_first (\<lambda>r. snapshot_key r = snapshot_key s) (\<lambda>_. s) rows
     | None \<Rightarrow> rows @ [s])"

definition take_daily_snapshot ::
  "nat \<Rightarrow> (string \<Rightarrow> broker_error + quote) \<Rightarrow> (string \<Rightarrow> broker_error + quote) \<Rightarrow> int
    \<Rightarrow> paper_db \<Rightarrow> equity_snapshot option \<times> paper_db" where
  "take_daily_snapshot account_id get_quote get_quote' as_of db =
    (case row_by ac_id account_id (pd_accounts db) of
       None \<Rightarrow> (None, db)
     | Some account \<Rightarrow>
        (let positions = fst (replay_ledger (account_trades account_id db));
             last_prices = fetch_last_prices get_quote positions [];
             realized = realized_of positions;
             unrealized = unrealized_of positions last_prices;
             margin_blocked = ms_total_margin_blocked (compute_margin_summary positions last_prices);
             cash = ac_capital_allocated account + realized
         in case compute_account_equity account_id db get_quote' of
              Inl e \<Rightarrow> (None, db)
            | Inr equity \<Rightarrow>
               (let snapshot = \<lparr>es_account_id = account_id, es_snapshot_date = as_of, es_cash = cash,
                      es_realized_pnl_cumulative = realized, es_unrealized_pnl = unrealized,
                      es_margin_blocked = margin_blocked, es_equity = equity\<rparr>
                in (Some snapshot, db\<lparr>pd_snapshots := store_snapshot snapshot (pd_snapshots db)\<rparr>))))"

definition get_paper_account :: "paper_db \<Rightarrow> account_error + account" where
  "get_paper_account db =
    (case List.find (\<lambda>a. ac_broker a = ''PAPER'' \<and> ac_account_type a = Paper) (pd_accounts db) of
       None \<Rightarrow> Inl NoSeededPaperAccount
     | Some a \<Rightarrow> Inr a)"

section \<open>Margin lemmas\<close>

lemma margin_line_bounds:
  assumes "0 \<le> lp"
  shows "0 \<le> ml_margin_required (compute_margin_line p lp)"
    "ml_margin_required (compute_margin_line p lp) \<le> ml_notional (compute_margin_line p lp)"
proof -
  define n where "n = of_int \<bar>sp_net_quantity p\<bar> * lp"
  have n: "0 \<le> n" using assms by (simp add: n_def)
  have eq: "ml_notional (compute_margin_line p lp) = n"
    "ml_margin_required (compute_margin_line p lp) = (if sp_net_quantity p = 0 then 0
       else case sp_instrument_type p of EQUITY \<Rightarrow> 0 | FUTURE \<Rightarrow> n * FUTURES_MARGIN_PCT
         | OPT _ \<Rightarrow> if sp_net_quantity p > 0 then 0 else n)"
    by (auto simp: compute_margin_line_def Let_def n_def split: instrument.splits)
  show "0 \<le> ml_margin_required (compute_margin_line p lp)"
    "ml_margin_required (compute_margin_line p lp) \<le> ml_notional (compute_margin_line p lp)"
    using n by (auto simp: eq FUTURES_MARGIN_PCT_def split: instrument.splits)
qed

text \<open>Mark-to-market: when every open symbol has a price, realized plus unrealized profit is the
  market value of the open quantities less the cash the fills cost.\<close>
definition market_value :: "(string, real) dict \<Rightarrow> (string, symbol_position) dict \<Rightarrow> real" where
  "market_value lp positions =
    sum_list (map (\<lambda>e. of_int (sp_net_quantity (snd e)) * the (dict_get lp (fst e)))
       (filter (\<lambda>e. sp_net_quantity (snd e) \<noteq> 0) positions))"

lemma pnl_sum_per_symbol:
  assumes "\<And>e. e \<in> set d \<Longrightarrow> sp_net_quantity (snd e) \<noteq> 0 \<Longrightarrow> dict_get lp (fst e) \<noteq> None"
    and "\<And>e. e \<in> set d \<Longrightarrow> book_balance (snd e) = c (fst e)"
  shows "realized_of d + unrealized_of d lp = market_value lp d - sum_list (map (\<lambda>e. c (fst e)) d)"
  using assms
proof (induction d)
  case Nil
  then show ?case by (simp add: realized_of_def unrealized_of_def market_value_def)
next
  case (Cons e d)
  have IH: "realized_of d + unrealized_of d lp = market_value lp d - sum_list (map (\<lambda>e. c (fst e)) d)"
    using Cons by simp
  have "c (fst e) = sp_average_cost (snd e) * of_int (sp_net_quantity (snd e)) - sp_realized_pnl (snd e)"
    using Cons.prems(2)[of e] by (simp add: book_balance_def)
  moreover have "sp_net_quantity (snd e) \<noteq> 0 \<Longrightarrow> is_open_priced lp e"
    using Cons.prems(1)[of e] by (simp add: is_open_priced_def)
  moreover have "sp_net_quantity (snd e) = 0 \<Longrightarrow> \<not> is_open_priced lp e"
    by (simp add: is_open_priced_def)
  ultimately show ?case
    using IH by (cases "sp_net_quantity (snd e) = 0")
      (simp_all add: realized_of_def unrealized_of_def market_value_def algebra_simps)
qed

lemma cost_split_symbols:
  assumes "distinct ss" "pt_symbol ` set ts \<subseteq> set ss"
  shows "sum_list (map (\<lambda>s. cost_of (of_symbol s ts)) ss) = cost_of ts"
  using assms(2)
proof (induction ts)
  case Nil
  then show ?case by (simp add: sum_list_0)
next
  case (Cons t ts)
  have eq: "cost_of (of_symbol s (t # ts))
      = (if s = pt_symbol t then of_int (trade_qty t) * pt_fill_price t else 0) + cost_of (of_symbol s ts)" for s
    by (simp add: of_symbol_def cost_of_def)
  have "sum_list (map (\<lambda>s. if s = pt_symbol t then of_int (trade_qty t) * pt_fill_price t else 0) ss)
      = of_int (trade_qty t) * pt_fill_price t"
    using assms(1) Cons.prems
    by (subst sum_list_distinct_conv_sum_set) auto
  then show ?case
    using Cons by (simp add: eq sum_list_addf) (simp add: cost_of_def)
qed

lemma replay_balance:
  assumes "e \<in> set (fst (replay_ledger ts))"
  shows "book_balance (snd e) = cost_of (of_symbol (fst e) ts)"
proof -
  have "dict_get (fst (replay_ledger ts)) (fst e) = Some (snd e)"
    using assms replay_distinct[of ts] by (simp add: map_of_is_SomeI)
  then show ?thesis using replay_sym_ok[of ts "fst e"] by (simp add: sym_ok_def)
qed

lemma fetch_last_prices_get:
  assumes "distinct (map fst d)"
  shows "dict_get (fetch_last_prices gq d acc) s =
    (case dict_get d s of
       Some p \<Rightarrow> if sp_net_quantity p = 0 then dict_get acc s
                 else (case gq s of Inl e \<Rightarrow> dict_get acc s | Inr q \<Rightarrow> Some (qt_last_price q))
     | None \<Rightarrow> dict_get acc s)"
  using assms
proof (induction gq d acc rule: fetch_last_prices.induct)
  case (2 gq s' pos rest acc)
  have "dict_get rest s' = None" using 2(4) by (simp add: map_of_eq_None_iff)
  moreover have "distinct (map fst rest)" using 2(4) by simp
  ultimately show ?case
    using 2(1-3) by (cases "gq s'"; cases "s = s'"; cases "sp_net_quantity pos = 0";
        cases "gq s"; cases "dict_get rest s") simp_all
qed simp

text \<open>The equity of the paper account is mark-to-market exact: when every open symbol was
  quoted, it is the allocated capital, minus everything the fills of the account cost (signed
  quantity times fill price), plus the market value of what is still held, minus the blocked
  margin. Average-cost accounting therefore creates or loses no money, whatever the ledger.\<close>
theorem account_equity_mark_to_market:
  assumes "row_by ac_id a (pd_accounts db) = Some acc"
    and "\<And>s. s \<in> pt_symbol ` set (account_trades a db) \<Longrightarrow> \<exists>q. gq s = Inr q"
  shows "let positions = fst (replay_ledger (account_trades a db));
             prices = fetch_last_prices gq positions []
    in compute_account_equity a db gq = Inr
      (ac_capital_allocated acc - cost_of (account_trades a db) + market_value prices positions
        - ms_total_margin_blocked (compute_margin_summary positions prices))"
proof -
  let ?ts = "account_trades a db"
  let ?d = "fst (replay_ledger ?ts)"
  let ?lp = "fetch_last_prices gq ?d []"
  have priced: "dict_get ?lp (fst e) \<noteq> None" if "e \<in> set ?d" "sp_net_quantity (snd e) \<noteq> 0" for e
  proof -
    have "dict_get ?d (fst e) = Some (snd e)"
      using that(1) replay_distinct[of ?ts] by (simp add: map_of_is_SomeI)
    moreover have "fst e \<in> pt_symbol ` set ?ts"
      using that(1) unfolding replay_positions_dom[symmetric] by (rule imageI)
    then obtain q where "gq (fst e) = Inr q" using assms(2) by meson
    ultimately show ?thesis
      using fetch_last_prices_get[OF replay_distinct[of ?ts], of gq "[]" "fst e"] that(2) by simp
  qed
  have "realized_of ?d + unrealized_of ?d ?lp
      = market_value ?lp ?d - sum_list (map (\<lambda>e. cost_of (of_symbol (fst e) ?ts)) ?d)"
    by (rule pnl_sum_per_symbol) (use priced replay_balance in auto)
  also have "sum_list (map (\<lambda>e. cost_of (of_symbol (fst e) ?ts)) ?d)
      = sum_list (map (\<lambda>s. cost_of (of_symbol s ?ts)) (map fst ?d))" by (simp add: comp_def)
  also have "\<dots> = cost_of ?ts"
    using replay_positions_dom[of ?ts] by (intro cost_split_symbols replay_distinct) simp
  finally show ?thesis
    using assms(1) by (simp add: compute_account_equity_def compute_equity_from_positions_def Let_def)
qed

definition sample_paper_db :: paper_db where
  "sample_paper_db = \<lparr>pd_accounts = [\<lparr>ac_id = 7, ac_broker = ''PAPER'', ac_account_type = Paper,
     ac_capital_allocated = 10000\<rparr>], pd_trades = [sample_trade BUY 10 100, sample_trade SELL 4 120],
     pd_snapshots = []\<rparr>"

theorem account_equity_mark_to_market_witness:
  "compute_account_equity 7 sample_paper_db
     (\<lambda>s. Inr \<lparr>qt_symbol = s, qt_last_price = 130, qt_buy_depth = [], qt_sell_depth = []\<rparr>) = Inr 10260"
proof -
  let ?gq = "\<lambda>s. Inr \<lparr>qt_symbol = s, qt_last_price = 130, qt_buy_depth = [], qt_sell_depth = []\<rparr>"
  have ts: "account_trades 7 sample_paper_db = [sample_trade BUY 10 100, sample_trade SELL 4 120]"
    by (simp add: account_trades_def sample_paper_db_def sample_trade_def)
  have d: "fst (replay_ledger [sample_trade BUY 10 100, sample_trade SELL 4 120]) =
      [(''TCS'', \<lparr>sp_symbol = ''TCS'', sp_net_quantity = 6, sp_average_cost = 100,
         sp_realized_pnl = 80, sp_trade_count = 2, sp_instrument_type = EQUITY\<rparr>)]"
    by (simp add: replay_ledger_def replay_step_def apply_fill_def trade_qty_def sample_trade_def
        new_position_def dict_get_default_def Let_def)
  have acc: "row_by ac_id 7 (pd_accounts sample_paper_db) = Some \<lparr>ac_id = 7, ac_broker = ''PAPER'',
      ac_account_type = Paper, ac_capital_allocated = 10000\<rparr>"
    by (simp add: sample_paper_db_def)
  show ?thesis
    using account_equity_mark_to_market[OF acc, of ?gq]
    by (simp add: ts d Let_def cost_of_def trade_qty_def market_value_def compute_margin_summary_def
        is_open_priced_def compute_margin_line_def) (simp add: sample_trade_def)
qed

text \<open>Margin bounds: with non-negative prices the blocked margin is non-negative and never
  more than the notional of the priced open positions, equities and long options block nothing,
  and a short option always blocks its full notional.\<close>
theorem margin_summary_bounds:
  assumes "\<And>s p. dict_get lp s = Some p \<Longrightarrow> 0 \<le> p"
  shows "0 \<le> ms_total_margin_blocked (compute_margin_summary d lp)
    \<and> ms_total_margin_blocked (compute_margin_summary d lp)
        \<le> sum_list (map ml_notional (ms_lines (compute_margin_summary d lp)))
    \<and> (\<forall>l \<in> set (ms_lines (compute_margin_summary d lp)). \<forall>o1.
         (ml_instrument_type l = EQUITY \<longrightarrow> ml_margin_required l = 0)
       \<and> (ml_instrument_type l = OPT o1 \<and> 0 < ml_net_quantity l \<longrightarrow> ml_margin_required l = 0)
       \<and> (ml_instrument_type l = OPT o1 \<and> ml_net_quantity l < 0 \<longrightarrow> ml_margin_required l = ml_notional l))"
proof -
  let ?es = "filter (is_open_priced lp) d"
  let ?line = "\<lambda>e. compute_margin_line (snd e) (the (dict_get lp (fst e)))"
  have nn: "0 \<le> the (dict_get lp (fst e))" if "e \<in> set ?es" for e
    using that assms by (auto simp: is_open_priced_def)
  have b: "0 \<le> ml_margin_required (?line e) \<and> ml_margin_required (?line e) \<le> ml_notional (?line e)"
    if "e \<in> set ?es" for e using margin_line_bounds[OF nn[OF that]] by simp
  have "0 \<le> ms_total_margin_blocked (compute_margin_summary d lp)"
    using b by (auto simp: compute_margin_summary_def Let_def comp_def intro!: sum_list_nonneg)
  moreover have "ms_total_margin_blocked (compute_margin_summary d lp)
      \<le> sum_list (map ml_notional (ms_lines (compute_margin_summary d lp)))"
    using b by (auto simp: compute_margin_summary_def Let_def comp_def intro!: sum_list_mono)
  ultimately show ?thesis
    by (auto simp: compute_margin_summary_def compute_margin_line_def Let_def)
qed

theorem margin_summary_bounds_witness:
  "ms_total_margin_blocked (compute_margin_summary
      [(''F'', \<lparr>sp_symbol = ''F'', sp_net_quantity = - 2, sp_average_cost = 1, sp_realized_pnl = 0,
         sp_trade_count = 1, sp_instrument_type = FUTURE\<rparr>)] [(''F'', 100)]) = 36
   \<and> (36::real) \<le> 200"
proof -
  have "\<And>s p. dict_get [(''F'', 100::real)] s = Some p \<Longrightarrow> 0 \<le> p" by (simp split: if_splits)
  note margin_summary_bounds[of "[(''F'', 100)]" "[(''F'', \<lparr>sp_symbol = ''F'', sp_net_quantity = - 2,
     sp_average_cost = 1, sp_realized_pnl = 0, sp_trade_count = 1, sp_instrument_type = FUTURE\<rparr>)]", OF this]
  then show ?thesis
    by (simp add: compute_margin_summary_def compute_margin_line_def is_open_priced_def Let_def
        FUTURES_MARGIN_PCT_def)
qed

subsection \<open>Snapshots\<close>

lemma store_snapshot_distinct:
  "distinct (map snapshot_key rows) \<Longrightarrow> distinct (map snapshot_key (store_snapshot s rows))"
proof (cases "row_by snapshot_key (snapshot_key s) rows")
  case None
  then show "distinct (map snapshot_key rows) \<Longrightarrow> ?thesis"
    using row_by_None_iff[of snapshot_key "snapshot_key s" rows] by (simp add: store_snapshot_def)
next
  case (Some r)
  have "map snapshot_key (update_first (\<lambda>r. snapshot_key r = snapshot_key s) (\<lambda>_. s) rows)
      = map snapshot_key rows" by (rule map_update_first) simp
  then show "distinct (map snapshot_key rows) \<Longrightarrow> ?thesis"
    using Some by (simp add: store_snapshot_def)
qed

lemma store_snapshot_twice: "store_snapshot s (store_snapshot s rows) = store_snapshot s rows"
proof (cases "row_by snapshot_key (snapshot_key s) rows")
  case None
  then have "\<And>r. r \<in> set rows \<Longrightarrow> snapshot_key r \<noteq> snapshot_key s" by (auto simp: row_by_None_iff image_iff)
  then have "update_first (\<lambda>r. snapshot_key r = snapshot_key s) (\<lambda>_. s) (rows @ [s]) = rows @ [s]"
    by (induction rows) auto
  then show ?thesis using None by (simp add: store_snapshot_def)
next
  case (Some r)
  then show ?thesis
    by (simp add: store_snapshot_def row_by_update_first[of snapshot_key] update_first_overwrite)
qed

lemma snapshot_stored:
  fixes db :: paper_db
  assumes "row_by ac_id a (pd_accounts db) = Some acc"
  obtains snap where "snapshot_key snap = (a, d)"
    "\<And>db'. pd_accounts db' = pd_accounts db \<Longrightarrow> pd_trades db' = pd_trades db \<Longrightarrow>
      take_daily_snapshot a gq gq' d db'
        = (Some snap, db'\<lparr>pd_snapshots := store_snapshot snap (pd_snapshots db')\<rparr>)"
proof -
  obtain equity where eq: "\<And>db'. pd_accounts db' = pd_accounts db \<Longrightarrow> pd_trades db' = pd_trades db \<Longrightarrow>
      compute_account_equity a db' gq' = Inr equity"
    using assms by (simp add: compute_account_equity_def account_trades_def Let_def)
  let ?pos = "fst (replay_ledger (account_trades a db))"
  let ?lp = "fetch_last_prices gq ?pos []"
  let ?snap = "\<lparr>es_account_id = a, es_snapshot_date = d, es_cash = ac_capital_allocated acc + realized_of ?pos,
    es_realized_pnl_cumulative = realized_of ?pos, es_unrealized_pnl = unrealized_of ?pos ?lp,
    es_margin_blocked = ms_total_margin_blocked (compute_margin_summary ?pos ?lp), es_equity = equity\<rparr>"
  show thesis
  proof (rule that)
    show "snapshot_key ?snap = (a, d)" by (simp add: snapshot_key_def)
    fix db' :: paper_db
    assume same: "pd_accounts db' = pd_accounts db" "pd_trades db' = pd_trades db"
    have ts: "account_trades a db' = account_trades a db" by (simp add: account_trades_def same)
    show "take_daily_snapshot a gq gq' d db'
        = (Some ?snap, db'\<lparr>pd_snapshots := store_snapshot ?snap (pd_snapshots db')\<rparr>)"
      by (simp only: take_daily_snapshot_def eq[OF same] ts same assms Let_def option.case sum.case)
  qed
qed

text \<open>The daily snapshot is idempotent per account and date: when the table has at most one row
  per key, taking a snapshot keeps that, and running the job again for the same date, with the same
  quotes, leaves the database exactly as it was after the first run.\<close>
theorem daily_snapshot_idempotent:
  assumes "distinct (map snapshot_key (pd_snapshots db))"
    and "take_daily_snapshot a gq gq' d db = (r1, db1)"
  shows "distinct (map snapshot_key (pd_snapshots db1))
    \<and> take_daily_snapshot a gq gq' d db1 = (r1, db1)"
proof (cases "row_by ac_id a (pd_accounts db)")
  case None
  then show ?thesis using assms by (simp add: take_daily_snapshot_def)
next
  case (Some acc)
  show ?thesis
  proof (rule snapshot_stored[OF Some])
    fix snap
    assume again: "\<And>db'. pd_accounts db' = pd_accounts db \<Longrightarrow> pd_trades db' = pd_trades db \<Longrightarrow>
      take_daily_snapshot a gq gq' d db'
        = (Some snap, db'\<lparr>pd_snapshots := store_snapshot snap (pd_snapshots db')\<rparr>)"
    have db1: "r1 = Some snap" "db1 = db\<lparr>pd_snapshots := store_snapshot snap (pd_snapshots db)\<rparr>"
      using again[of db] assms(2) by simp_all
    then show ?thesis
      using again[of db1] store_snapshot_twice store_snapshot_distinct[OF assms(1)] by simp
  qed
qed

theorem daily_snapshot_idempotent_witness:
  "\<exists>r db1. take_daily_snapshot 7 (\<lambda>s. Inl (ConnectError s)) (\<lambda>s. Inl (ConnectError s)) 20000 sample_paper_db
      = (r, db1)
    \<and> take_daily_snapshot 7 (\<lambda>s. Inl (ConnectError s)) (\<lambda>s. Inl (ConnectError s)) 20000 db1 = (r, db1)"
proof -
  let ?f = "take_daily_snapshot 7 (\<lambda>s. Inl (ConnectError s)) (\<lambda>s. Inl (ConnectError s)) 20000"
  obtain r db1 where 1: "?f sample_paper_db = (r, db1)" by (metis surj_pair)
  have 2: "distinct (map snapshot_key (pd_snapshots sample_paper_db))" by (simp add: sample_paper_db_def)
  show ?thesis using daily_snapshot_idempotent[OF 2 1] 1 by blast
qed

end
