(* ===== verification/Approvals.thy ===== *)
theory Approvals
  imports RunManager
begin

text \<open>
  The human gate before paper trading (\<open>src/orchestration/approvals.py\<close>), the research pipeline step
  that opens it (\<open>_open_paper_approval_request\<close> of \<open>src/api/routers/agents.py\<close>), and the generic status
  change of a strategy (\<open>promote_strategy\<close> of \<open>src/api/routers/strategies.py\<close>). Each operation is one
  transaction; requests of concurrent sessions are taken one after the other.
\<close>

section \<open>Requests and strategies\<close>

definition PENDING_PAPER :: string where "PENDING_PAPER = ''PendingPaperApproval''"
definition PAPER_TRADING :: string where "PAPER_TRADING = ''PaperTrading''"
definition DEPRECATED :: string where "DEPRECATED = ''Deprecated''"

datatype approval_error = ApprovalNotFound nat | ApprovalAlreadyDecided nat approval_status
  | RejectionReasonRequired

definition get_approval :: "db \<Rightarrow> nat \<Rightarrow> approval_request option" where
  "get_approval d i = row_by apr_id i (db_approvals d)"

definition get_strategy :: "db \<Rightarrow> nat \<Rightarrow> strategy option" where
  "get_strategy d i = row_by str_id i (db_strategies d)"

definition has_approved_paper_request :: "db \<Rightarrow> nat \<Rightarrow> bool" where
  "has_approved_paper_request d sid =
    (case sort_key (\<lambda>a. - apr_created_at a) (filter (\<lambda>a. apr_strategy_id a = sid) (db_approvals d)) of
       [] \<Rightarrow> False
     | latest # _ \<Rightarrow> apr_status latest = APPR_APPROVED)"

definition load_pending :: "db \<Rightarrow> nat \<Rightarrow> approval_error + approval_request" where
  "load_pending d rid =
    (case get_approval d rid of
       None \<Rightarrow> Inl (ApprovalNotFound rid)
     | Some r \<Rightarrow> if apr_status r \<noteq> APPR_PENDING then Inl (ApprovalAlreadyDecided rid (apr_status r)) else Inr r)"

section \<open>Deciding\<close>

definition move_strategy :: "nat \<Rightarrow> string \<Rightarrow> db \<Rightarrow> db" where
  "move_strategy sid target d =
    (case get_strategy d sid of
       Some s \<Rightarrow> if str_status s = PENDING_PAPER then set_strategy sid (\<lambda>s. s\<lparr>str_status := target\<rparr>) d else d
     | None \<Rightarrow> d)"

definition status_json :: "db \<Rightarrow> nat \<Rightarrow> json" where
  "status_json d sid = opt_json (\<lambda>s. JStr (str_status s)) (get_strategy d sid)"

definition settle_if_run :: "env \<Rightarrow> nat option \<Rightarrow> db \<Rightarrow> db" where
  "settle_if_run env run d = (case run of None \<Rightarrow> d | Some rid \<Rightarrow> settle_run_after_approval env rid d)"

definition emit_if_run :: "env \<Rightarrow> nat option \<Rightarrow> string \<Rightarrow> nat \<Rightarrow> json \<Rightarrow> db \<Rightarrow> db" where
  "emit_if_run env run etype aid payload d =
    (case run of None \<Rightarrow> d | Some rid \<Rightarrow> snd (emit env rid etype ''approval'' (Some aid) payload False d))"

definition approve :: "env \<Rightarrow> nat \<Rightarrow> string \<Rightarrow> db \<Rightarrow> approval_error + db" where
  "approve env aid actor d =
    (case load_pending d aid of
       Inl e \<Rightarrow> Inl e
     | Inr r \<Rightarrow>
        (let sid = apr_strategy_id r;
             d1 = move_strategy sid PAPER_TRADING d;
             d2 = set_approval aid (\<lambda>x. x\<lparr>apr_status := APPR_APPROVED, apr_decided_by := Some actor,
                    apr_decided_at := Some (e_now env)\<rparr>) d1;
             (audit_id, d3) = write_audit_entry env (audit_entry Human actor ''APPROVAL_APPROVED''
               ''ApprovalRequest'' (Some aid) (Some (JObj [(''strategy_status'', status_json d sid)]))
               (Some (JObj [(''strategy_id'', JStr (uuid_str sid)), (''strategy_status'', status_json d2 sid)]))) d2;
             d4 = set_approval aid (\<lambda>x. x\<lparr>apr_audit_reference := Some audit_id\<rparr>) d3;
             d5 = emit_if_run env (apr_run_id r) ''approval.approved'' aid
               (JObj [(''strategy_id'', JStr (uuid_str sid)), (''decided_by'', JStr actor),
                      (''reason'', JStr (''Approved by '' @ actor))]) d4
         in Inr (settle_if_run env (apr_run_id r) d5)))"

definition reject :: "env \<Rightarrow> nat \<Rightarrow> string \<Rightarrow> string \<Rightarrow> db \<Rightarrow> approval_error + db" where
  "reject env aid actor reason d =
    (if strip reason = [] then Inl RejectionReasonRequired
     else case load_pending d aid of
       Inl e \<Rightarrow> Inl e
     | Inr r \<Rightarrow>
        (let sid = apr_strategy_id r;
             d1 = move_strategy sid DEPRECATED d;
             d2 = set_approval aid (\<lambda>x. x\<lparr>apr_status := APPR_REJECTED, apr_decided_by := Some actor,
                    apr_decided_at := Some (e_now env), apr_reason := Some (strip reason)\<rparr>) d1;
             (audit_id, d3) = write_audit_entry env (audit_entry Human actor ''APPROVAL_REJECTED''
               ''ApprovalRequest'' (Some aid) (Some (JObj [(''strategy_status'', status_json d sid)]))
               (Some (JObj [(''strategy_id'', JStr (uuid_str sid)), (''strategy_status'', status_json d2 sid),
                            (''reason'', JStr (strip reason))]))) d2;
             d4 = set_approval aid (\<lambda>x. x\<lparr>apr_audit_reference := Some audit_id\<rparr>) d3;
             d5 = emit_if_run env (apr_run_id r) ''approval.rejected'' aid
               (JObj [(''strategy_id'', JStr (uuid_str sid)), (''decided_by'', JStr actor),
                      (''reason'', JStr (''Rejected by '' @ actor @ '': '' @ strip reason))]) d4
         in Inr (settle_if_run env (apr_run_id r) d5)))"

section \<open>Opening the gate\<close>

definition open_paper_approval_request ::
  "env \<Rightarrow> nat \<Rightarrow> nat option \<Rightarrow> string \<Rightarrow> nat option \<Rightarrow> db \<Rightarrow> db" where
  "open_paper_approval_request env sid version rationale run d =
    (if \<exists>a \<in> set (db_approvals d). apr_strategy_id a = sid \<and> apr_status a = APPR_PENDING then d
     else
       (let row = \<lparr>apr_id = db_next_id d, apr_run_id = run, apr_strategy_id = sid,
              apr_strategy_version_id = version, apr_recommendation_artefact_id = None,
              apr_status = APPR_PENDING, apr_decided_by = None, apr_decided_at = None,
              apr_reason = None, apr_audit_reference = None, apr_created_at = e_now env\<rparr>;
            d1 = d\<lparr>db_approvals := db_approvals d @ [row], db_next_id := Suc (db_next_id d)\<rparr>;
            d2 = snd (write_audit_entry env (audit_entry AI_Agent ''deployment_agent'' ''APPROVAL_REQUESTED''
              ''ApprovalRequest'' (Some (apr_id row)) None
              (Some (JObj [(''strategy_id'', JStr (uuid_str sid)), (''strategy_status'', JStr PENDING_PAPER),
                           (''rationale'', JStr rationale)]))) d1)
        in emit_if_run env run ''approval.requested'' (apr_id row)
             (JObj [(''strategy_id'', JStr (uuid_str sid)), (''rationale'', JStr rationale),
                    (''reason'', JStr rationale)]) d2))"

text \<open>What a deployment recommendation of the research graph does to its strategy.\<close>
definition apply_deployment_recommendation ::
  "env \<Rightarrow> nat \<Rightarrow> string \<Rightarrow> nat option \<Rightarrow> string \<Rightarrow> nat option \<Rightarrow> db \<Rightarrow> db" where
  "apply_deployment_recommendation env sid recommended version rationale run d =
    (case get_strategy d sid of
       None \<Rightarrow> d
     | Some _ \<Rightarrow>
        if recommended = PAPER_TRADING then
          open_paper_approval_request env sid version rationale run
            (set_strategy sid (\<lambda>s. s\<lparr>str_status := PENDING_PAPER\<rparr>) d)
        else set_strategy sid (\<lambda>s. s\<lparr>str_status := DEPRECATED\<rparr>) d)"

section \<open>Promotion by hand\<close>

datatype promote_target = ToBacktesting | ToPaperTrading | ToLive | ToDeprecated

fun target_status :: "promote_target \<Rightarrow> string" where
  "target_status ToBacktesting = ''Backtesting''"
| "target_status ToPaperTrading = PAPER_TRADING"
| "target_status ToLive = ''Live''"
| "target_status ToDeprecated = DEPRECATED"

datatype promote_error = StrategyNotFound | NoCodeYet | NoVersionYet | NotApproved

definition promote_strategy :: "env \<Rightarrow> nat \<Rightarrow> promote_target \<Rightarrow> string \<Rightarrow> db \<Rightarrow> promote_error + db" where
  "promote_strategy env sid target email d =
    (case get_strategy d sid of
       None \<Rightarrow> Inl StrategyNotFound
     | Some s \<Rightarrow>
        if str_status s = ''Ideation'' then Inl NoCodeYet
        else if str_current_version_id s = None then Inl NoVersionYet
        else if target = ToPaperTrading \<and> \<not> has_approved_paper_request d sid then Inl NotApproved
        else Inr (snd (write_audit_entry env (audit_entry Human email ''STRATEGY_PROMOTED'' ''Strategy'' (Some sid)
               (Some (JObj [(''status'', JStr (str_status s))]))
               (Some (JObj [(''status'', JStr (target_status target))])))
               (set_strategy sid (\<lambda>s. s\<lparr>str_status := target_status target\<rparr>) d))))"

section \<open>The logs survive\<close>

lemma move_strategy_conserves [conserving]: "conserves env d0 d \<Longrightarrow> conserves env d0 (move_strategy sid t d)"
  by (auto simp: move_strategy_def intro: conserves_setters split: option.split)

lemma emit_if_run_conserves [conserving]:
  "conserves env d0 d \<Longrightarrow> conserves env d0 (emit_if_run env run et aid p d)"
  by (auto simp: emit_if_run_def intro: conserves_emit split: option.split)

lemma settle_if_run_conserves [conserving]:
  "conserves env d0 d \<Longrightarrow> conserves env d0 (settle_if_run env run d)"
  by (auto simp: settle_if_run_def intro: settle_conserves split: option.split)

lemma decision_conserves:
  "approve env aid actor d = Inr d' \<Longrightarrow> conserves env d0 d \<Longrightarrow> conserves env d0 d'"
  "reject env aid actor reason d = Inr d' \<Longrightarrow> conserves env d0 d \<Longrightarrow> conserves env d0 d'"
  by (auto simp: approve_def reject_def Let_def case_prod_unfold intro!: settle_if_run_conserves emit_if_run_conserves
      conserves_setters conserves_write_audit move_strategy_conserves split: sum.splits if_splits)

lemma open_request_conserves [conserving]:
  "conserves env d0 d \<Longrightarrow> conserves env d0 (open_paper_approval_request env sid v ra run d)"
  unfolding open_paper_approval_request_def Let_def
  by (auto intro!: emit_if_run_conserves conserves_write_audit elim!: conserves_insert)

lemma recommendation_conserves [conserving]:
  "conserves env d0 d \<Longrightarrow> conserves env d0 (apply_deployment_recommendation env sid rec v ra run d)"
  by (auto simp: apply_deployment_recommendation_def intro!: open_request_conserves conserves_setters split: option.split)

lemma promote_strategy_conserves:
  "promote_strategy env sid t em d = Inr d' \<Longrightarrow> conserves env d0 d \<Longrightarrow> conserves env d0 d'"
  by (auto simp: promote_strategy_def intro!: conserves_write_audit conserves_setters split: option.splits if_splits)

section \<open>The gate as a state machine\<close>

inductive gate_step :: "env \<Rightarrow> db \<Rightarrow> db \<Rightarrow> bool" for env where
  step_approve: "approve env aid actor d = Inr d' \<Longrightarrow> gate_step env d d'"
| step_reject: "reject env aid actor reason d = Inr d' \<Longrightarrow> gate_step env d d'"
| step_recommend: "gate_step env d (apply_deployment_recommendation env sid recommended version rationale run d)"
| step_promote: "promote_strategy env sid target email d = Inr d' \<Longrightarrow> gate_step env d d'"

text \<open>Any operations, each at its own time.\<close>
inductive gate_reach :: "db \<Rightarrow> db \<Rightarrow> bool" where
  reach_refl: "gate_reach d d"
| reach_step: "gate_reach d d1 \<Longrightarrow> gate_step env d1 d2 \<Longrightarrow> gate_reach d d2"

inductive_cases gate_stepE: "gate_step env d d'"

definition approved_for :: "db \<Rightarrow> nat \<Rightarrow> bool" where
  "approved_for d sid \<longleftrightarrow> (\<exists>a \<in> set (db_approvals d). apr_strategy_id a = sid \<and> apr_status a = APPR_APPROVED)"

definition approval_keys_ok :: "db \<Rightarrow> bool" where
  "approval_keys_ok d \<longleftrightarrow> distinct (map apr_id (db_approvals d)) \<and> distinct (map str_id (db_strategies d))
     \<and> (\<forall>a \<in> set (db_approvals d). apr_id a < db_next_id d)"

definition gate_ok :: "db \<Rightarrow> bool" where
  "gate_ok d \<longleftrightarrow> (\<forall>s \<in> set (db_strategies d). str_status s = PAPER_TRADING \<longrightarrow> approved_for d (str_id s))
     \<and> (\<forall>a \<in> set (db_approvals d). \<forall>b \<in> set (db_approvals d). apr_status a = APPR_PENDING \<longrightarrow>
          apr_status b = APPR_PENDING \<longrightarrow> apr_strategy_id a = apr_strategy_id b \<longrightarrow> a = b)"

definition decisions_final :: "db \<Rightarrow> db \<Rightarrow> bool" where
  "decisions_final d d' \<longleftrightarrow>
    (\<forall>a \<in> set (db_approvals d). apr_status a \<noteq> APPR_PENDING \<longrightarrow> a \<in> set (db_approvals d'))"

lemma settle_frame [simp]:
  "db_approvals (settle_run_after_approval env rid d) = db_approvals d"
  "db_strategies (settle_run_after_approval env rid d) = db_strategies d"
  "db_next_id (settle_run_after_approval env rid d) = db_next_id d"
  by (auto simp: settle_run_after_approval_def split: option.split)

lemma if_run_frame [simp]:
  "db_approvals (settle_if_run env run d) = db_approvals d" "db_strategies (settle_if_run env run d) = db_strategies d"
  "db_next_id (settle_if_run env run d) = db_next_id d"
  "db_approvals (emit_if_run env run et aid p d) = db_approvals d"
  "db_strategies (emit_if_run env run et aid p d) = db_strategies d"
  "db_next_id (emit_if_run env run et aid p d) = db_next_id d"
  by (auto simp: settle_if_run_def emit_if_run_def split: option.split)

lemma move_strategy_frame [simp]:
  "db_approvals (move_strategy sid t d) = db_approvals d" "db_next_id (move_strategy sid t d) = db_next_id d"
  by (auto simp: move_strategy_def split: option.split)

definition retarget :: "nat \<Rightarrow> string \<Rightarrow> strategy list \<Rightarrow> strategy list" where
  "retarget sid target ss = update_where (\<lambda>s. str_id s = sid) (\<lambda>s. s\<lparr>str_status := target\<rparr>) ss"

lemma move_strategy_strategies:
  "db_strategies (move_strategy sid t d) = db_strategies d
   \<or> db_strategies (move_strategy sid t d) = retarget sid t (db_strategies d)"
  by (auto simp: move_strategy_def set_strategy_def retarget_def split: option.split)

definition decided_as :: "approval_status \<Rightarrow> (approval_request \<Rightarrow> approval_request) \<Rightarrow> bool" where
  "decided_as st f \<longleftrightarrow> (\<forall>a. apr_id (f a) = apr_id a \<and> apr_strategy_id (f a) = apr_strategy_id a \<and> apr_status (f a) = st)"

lemma update_where_twice:
  "(\<And>x. P (f x) = P x) \<Longrightarrow> update_where P g (update_where P f xs) = update_where P (\<lambda>x. g (f x)) xs"
  by (induction xs) auto

lemma decision_effect:
  "approve env aid actor d = Inr d' \<Longrightarrow> \<exists>r f. get_approval d aid = Some r \<and> apr_status r = APPR_PENDING
     \<and> decided_as APPR_APPROVED f \<and> db_approvals d' = update_where (\<lambda>a. apr_id a = aid) f (db_approvals d)
     \<and> db_strategies d' \<in> {db_strategies d, retarget (apr_strategy_id r) PAPER_TRADING (db_strategies d)}
     \<and> db_next_id d' = db_next_id d"
  "reject env aid actor reason d = Inr d' \<Longrightarrow> \<exists>r f. get_approval d aid = Some r \<and> apr_status r = APPR_PENDING
     \<and> decided_as APPR_REJECTED f \<and> db_approvals d' = update_where (\<lambda>a. apr_id a = aid) f (db_approvals d)
     \<and> db_strategies d' \<in> {db_strategies d, retarget (apr_strategy_id r) DEPRECATED (db_strategies d)}
     \<and> db_next_id d' = db_next_id d"
proof -
  assume a: "approve env aid actor d = Inr d'"
  then obtain r where r: "get_approval d aid = Some r" "apr_status r = APPR_PENDING"
    by (auto simp: approve_def load_pending_def split: sum.splits option.splits if_splits)
  then show "\<exists>r f. get_approval d aid = Some r \<and> apr_status r = APPR_PENDING
     \<and> decided_as APPR_APPROVED f \<and> db_approvals d' = update_where (\<lambda>a. apr_id a = aid) f (db_approvals d)
     \<and> db_strategies d' \<in> {db_strategies d, retarget (apr_strategy_id r) PAPER_TRADING (db_strategies d)}
     \<and> db_next_id d' = db_next_id d"
    using a move_strategy_strategies[of "apr_strategy_id r" PAPER_TRADING d]
    by (intro exI[of _ r] exI[of _ "\<lambda>x. x\<lparr>apr_status := APPR_APPROVED, apr_decided_by := Some actor,
         apr_decided_at := Some (e_now env), apr_audit_reference := Some (next_audit_id (db_audit (move_strategy (apr_strategy_id r) PAPER_TRADING d)))\<rparr>"])
      (auto simp: approve_def load_pending_def Let_def case_prod_unfold decided_as_def set_approval_def
        update_where_twice write_audit_entry_def audit_row_def audit_content.defs)
next
  assume a: "reject env aid actor reason d = Inr d'"
  then obtain r where r: "get_approval d aid = Some r" "apr_status r = APPR_PENDING"
    by (auto simp: reject_def load_pending_def split: sum.splits option.splits if_splits)
  then show "\<exists>r f. get_approval d aid = Some r \<and> apr_status r = APPR_PENDING
     \<and> decided_as APPR_REJECTED f \<and> db_approvals d' = update_where (\<lambda>a. apr_id a = aid) f (db_approvals d)
     \<and> db_strategies d' \<in> {db_strategies d, retarget (apr_strategy_id r) DEPRECATED (db_strategies d)}
     \<and> db_next_id d' = db_next_id d"
    using a move_strategy_strategies[of "apr_strategy_id r" DEPRECATED d]
    by (intro exI[of _ r] exI[of _ "\<lambda>x. x\<lparr>apr_status := APPR_REJECTED, apr_decided_by := Some actor,
         apr_decided_at := Some (e_now env), apr_reason := Some (strip reason),
         apr_audit_reference := Some (next_audit_id (db_audit (move_strategy (apr_strategy_id r) DEPRECATED d)))\<rparr>"])
      (auto simp: reject_def load_pending_def Let_def case_prod_unfold decided_as_def set_approval_def
        update_where_twice write_audit_entry_def audit_row_def audit_content.defs split: if_splits)
qed

lemma decisions_final_approved: "decisions_final d d' \<Longrightarrow> approved_for d sid \<Longrightarrow> approved_for d' sid"
  by (force simp: decisions_final_def approved_for_def)

lemma retarget_member:
  "s \<in> set (retarget sid target ss) \<Longrightarrow> \<exists>s0 \<in> set ss. str_id s = str_id s0 \<and>
     (str_id s0 \<noteq> sid \<and> s = s0 \<or> str_id s0 = sid \<and> str_status s = target)"
  by (auto simp: retarget_def set_update_where)

lemma retarget_ids [simp]: "map str_id (retarget sid target ss) = map str_id ss"
  by (simp add: retarget_def map_update_where)

text \<open>Deciding one pending request keeps the gate.\<close>
lemma decide_keeps_gate:
  assumes keys: "approval_keys_ok d" and ok: "gate_ok d" and r: "get_approval d aid = Some r" "apr_status r = APPR_PENDING"
    and f: "decided_as st f" "st \<noteq> APPR_PENDING"
    and d': "db_approvals d' = update_where (\<lambda>a. apr_id a = aid) f (db_approvals d)" "db_next_id d' = db_next_id d"
      "db_strategies d' \<in> {db_strategies d, retarget (apr_strategy_id r) target (db_strategies d)}"
    and target: "target = PAPER_TRADING \<longrightarrow> st = APPR_APPROVED"
  shows "approval_keys_ok d' \<and> gate_ok d' \<and> decisions_final d d'"
proof -
  have rin: "r \<in> set (db_approvals d)" "apr_id r = aid" using r(1) by (auto simp: get_approval_def dest: row_by_SomeD)
  have rows: "db_approvals d' = map (\<lambda>x. if x = r then f x else x) (db_approvals d)"
    using update_where_distinct[of apr_id "db_approvals d" r f] keys rin by (simp add: d'(1) approval_keys_ok_def)
  have fs: "apr_id (f a) = apr_id a" "apr_strategy_id (f a) = apr_strategy_id a" "apr_status (f a) = st" for a
    using f(1) by (simp_all add: decided_as_def)
  have final: "decisions_final d d'" using r(2) by (force simp: decisions_final_def rows)
  have "map apr_id (db_approvals d') = map apr_id (db_approvals d)" by (simp add: rows fs)
  moreover have "map str_id (db_strategies d') = map str_id (db_strategies d)" using d'(3) by auto
  moreover have "apr_id a < db_next_id d" if "a \<in> set (db_approvals d')" for a
    using that keys by (auto simp: rows fs approval_keys_ok_def)
  ultimately have keys': "approval_keys_ok d'" using keys d'(2) by (simp add: approval_keys_ok_def)
  have paper: "approved_for d' (str_id s)" if s: "s \<in> set (db_strategies d')" "str_status s = PAPER_TRADING" for s
  proof (cases "s \<in> set (db_strategies d)")
    case True
    then have "approved_for d (str_id s)" using ok s(2) by (simp add: gate_ok_def)
    then show ?thesis using decisions_final_approved[OF final] by simp
  next
    case False
    then have "s \<in> set (retarget (apr_strategy_id r) target (db_strategies d))" using s(1) d'(3) by auto
    from retarget_member[OF this] have "str_id s = apr_strategy_id r" "target = PAPER_TRADING"
      using False s(2) by auto
    then show ?thesis using target rin(1) fs by (force simp: approved_for_def rows)
  qed
  have old: "a \<in> set (db_approvals d)" if "a \<in> set (db_approvals d')" "apr_status a = APPR_PENDING" for a
    using that f(2) fs by (auto simp: rows split: if_splits)
  have one: "a = b" if "a \<in> set (db_approvals d')" "b \<in> set (db_approvals d')" "apr_status a = APPR_PENDING"
    "apr_status b = APPR_PENDING" "apr_strategy_id a = apr_strategy_id b" for a b
    using ok old[OF that(1,3)] old[OF that(2,4)] that(3-) by (simp add: gate_ok_def)
  show ?thesis using keys' final paper one by (simp add: gate_ok_def)
qed

lemma retarget_keeps_gate:
  assumes "gate_ok d" "target = PAPER_TRADING \<longrightarrow> approved_for d sid"
    and "db_approvals d' = db_approvals d" "db_strategies d' = retarget sid target (db_strategies d)"
  shows "gate_ok d'"
proof -
  have af: "approved_for d' i = approved_for d i" for i using assms(3) by (simp add: approved_for_def)
  have "approved_for d (str_id s)" if "s \<in> set (db_strategies d')" "str_status s = PAPER_TRADING" for s
    using retarget_member[of s sid target "db_strategies d"] that assms(1,2,4) by (auto simp: gate_ok_def)
  then show ?thesis using assms(1,3) af by (simp add: gate_ok_def)
qed

lemma open_request_keeps_gate:
  assumes "approval_keys_ok d" "gate_ok d"
  shows "approval_keys_ok (open_paper_approval_request env sid v ra run d)
    \<and> gate_ok (open_paper_approval_request env sid v ra run d)
    \<and> decisions_final d (open_paper_approval_request env sid v ra run d)"
proof (cases "\<exists>a \<in> set (db_approvals d). apr_strategy_id a = sid \<and> apr_status a = APPR_PENDING")
  case False
  let ?d = "open_paper_approval_request env sid v ra run d"
  obtain row where row: "db_approvals ?d = db_approvals d @ [row]" "apr_id row = db_next_id d" "apr_strategy_id row = sid"
    "apr_status row = APPR_PENDING" "db_strategies ?d = db_strategies d" "db_next_id ?d = Suc (db_next_id d)"
    using False by (simp add: open_paper_approval_request_def Let_def)
  have "approval_keys_ok ?d" using assms(1) row by (auto simp: approval_keys_ok_def)
  moreover have "gate_ok ?d"
    using assms(2) False row by (auto simp: gate_ok_def approved_for_def)
  ultimately show ?thesis using row(1) by (simp add: decisions_final_def)
qed (use assms in \<open>simp add: open_paper_approval_request_def decisions_final_def\<close>)

lemma set_strategy_retarget:
  "db_strategies (set_strategy sid (\<lambda>s. s\<lparr>str_status := t\<rparr>) d) = retarget sid t (db_strategies d)"
  by (simp add: set_strategy_def retarget_def)

lemma approved_latest: "has_approved_paper_request d sid \<Longrightarrow> approved_for d sid"
proof -
  assume "has_approved_paper_request d sid"
  then obtain a rest where "sort_key (\<lambda>a. - apr_created_at a) (filter (\<lambda>a. apr_strategy_id a = sid) (db_approvals d)) = a # rest"
    "apr_status a = APPR_APPROVED" by (auto simp: has_approved_paper_request_def split: list.splits)
  then have "a \<in> set (filter (\<lambda>a. apr_strategy_id a = sid) (db_approvals d))" "apr_status a = APPR_APPROVED"
    by (metis list.set_intros(1) set_sort)+
  then show "approved_for d sid" by (auto simp: approved_for_def)
qed

lemma gate_step_keeps:
  assumes "gate_step env d d'" "approval_keys_ok d" "gate_ok d"
  shows "approval_keys_ok d' \<and> gate_ok d' \<and> decisions_final d d'"
  using assms(1)
proof cases
  case (step_approve aid actor)
  then show ?thesis using decision_effect(1)[OF step_approve] decide_keeps_gate[OF assms(2,3)] by blast
next
  case (step_reject aid actor reason)
  have "DEPRECATED \<noteq> PAPER_TRADING" by (simp add: DEPRECATED_def PAPER_TRADING_def)
  then show ?thesis using decision_effect(2)[OF step_reject] decide_keeps_gate[OF assms(2,3)] by blast
next
  case (step_recommend sid recommended version rationale run)
  show ?thesis
  proof (cases "get_strategy d sid")
    case None
    then show ?thesis using assms(2,3) step_recommend
      by (simp add: apply_deployment_recommendation_def decisions_final_def)
  next
    case (Some s)
    define t where "t = (if recommended = PAPER_TRADING then PENDING_PAPER else DEPRECATED)"
    let ?d1 = "set_strategy sid (\<lambda>s. s\<lparr>str_status := t\<rparr>) d"
    have "t \<noteq> PAPER_TRADING" by (simp add: t_def PENDING_PAPER_def DEPRECATED_def PAPER_TRADING_def)
    then have g: "gate_ok ?d1" by (intro retarget_keeps_gate[OF assms(3)]) (simp_all add: set_strategy_retarget)
    have k: "approval_keys_ok ?d1" using assms(2) by (simp add: approval_keys_ok_def set_strategy_retarget)
    have "d' = (if recommended = PAPER_TRADING then open_paper_approval_request env sid version rationale run ?d1 else ?d1)"
      using step_recommend Some by (simp add: apply_deployment_recommendation_def t_def)
    then show ?thesis using open_request_keeps_gate[OF k g, of env sid version rationale run] g k
      by (auto simp: decisions_final_def)
  qed
next
  case (step_promote sid target email)
  then have d': "db_approvals d' = db_approvals d" "db_strategies d' = retarget sid (target_status target) (db_strategies d)"
    "db_next_id d' = db_next_id d" and ok: "target = ToPaperTrading \<longrightarrow> approved_for d sid"
    by (auto simp: promote_strategy_def set_strategy_retarget intro: approved_latest split: option.splits if_splits)
  have "target_status target = PAPER_TRADING \<longrightarrow> target = ToPaperTrading"
    by (cases target) (simp_all add: PAPER_TRADING_def DEPRECATED_def)
  then show ?thesis using retarget_keeps_gate[OF assms(3) _ d'(1,2)] ok assms(2) d'
    by (simp add: approval_keys_ok_def decisions_final_def)
qed

text \<open>C4. Nothing enters paper trading without an approval, and a decision is final. In every state
  reachable by any sequence of approvals, rejections, deployment recommendations and manual
  promotions from a state where this held, a strategy in paper trading has an approved request on
  record, no strategy has two pending requests, and every request that was decided is still there,
  unchanged.\<close>
theorem paper_trading_only_after_approval:
  assumes "gate_reach d d'" and "approval_keys_ok d" and "gate_ok d"
  shows "gate_ok d' \<and> decisions_final d d'"
proof -
  have "approval_keys_ok d' \<and> gate_ok d' \<and> decisions_final d d'"
    using assms
  proof (induction rule: gate_reach.induct)
    case (reach_step d d1 env d2)
    then have "approval_keys_ok d1 \<and> gate_ok d1 \<and> decisions_final d d1" by simp
    moreover from this have "approval_keys_ok d2 \<and> gate_ok d2 \<and> decisions_final d1 d2"
      using gate_step_keeps reach_step.hyps(2) by blast
    ultimately show ?case by (auto simp: decisions_final_def)
  qed (simp add: decisions_final_def)
  then show ?thesis by blast
qed

definition sample_request :: "nat \<Rightarrow> nat \<Rightarrow> approval_status \<Rightarrow> approval_request" where
  "sample_request i sid st = \<lparr>apr_id = i, apr_run_id = None, apr_strategy_id = sid,
     apr_strategy_version_id = None, apr_recommendation_artefact_id = None, apr_status = st,
     apr_decided_by = None, apr_decided_at = None, apr_reason = None, apr_audit_reference = None, apr_created_at = 0\<rparr>"

definition gate_db :: "approval_status \<Rightarrow> string \<Rightarrow> db" where
  "gate_db ap st = empty_db\<lparr>db_approvals := [sample_request 4 2 ap],
     db_strategies := [\<lparr>str_id = 2, str_current_version_id = Some 3, str_name = ''s'', str_status = st\<rparr>],
     db_next_id := 10\<rparr>"

theorem paper_trading_only_after_approval_witness:
  "\<exists>d'. approve sample_env 4 ''u'' (gate_db APPR_PENDING PENDING_PAPER) = Inr d' \<and> gate_ok d'"
proof -
  let ?d = "gate_db APPR_PENDING PENDING_PAPER"
  have l: "load_pending ?d 4 = Inr (sample_request 4 2 APPR_PENDING)"
    by (simp add: load_pending_def get_approval_def gate_db_def sample_request_def)
  obtain d' where a: "approve sample_env 4 ''u'' ?d = Inr d'"
    unfolding approve_def l sum.case Let_def case_prod_unfold by blast
  have "gate_reach ?d d'" using reach_step[OF reach_refl step_approve[OF a]] .
  moreover have "approval_keys_ok ?d" by (simp add: approval_keys_ok_def gate_db_def sample_request_def)
  moreover have "gate_ok ?d" by (simp add: gate_ok_def gate_db_def sample_request_def PENDING_PAPER_def PAPER_TRADING_def)
  ultimately show ?thesis using paper_trading_only_after_approval[of ?d d'] a by blast
qed

text \<open>Promotion to live asks for no approval. A strategy with a code version that has left ideation can
  be set live by a manual promotion whatever its approval record says, a rejection included, while
  the same record refuses it paper trading.\<close>
theorem promote_to_live_needs_no_approval:
  assumes "get_strategy d sid = Some s" and "str_status s \<noteq> ''Ideation''" and "str_current_version_id s \<noteq> None"
    and "\<not> has_approved_paper_request d sid"
  shows "promote_strategy env sid ToPaperTrading email d = Inl NotApproved
    \<and> (\<exists>d' s'. promote_strategy env sid ToLive email d = Inr d' \<and> get_strategy d' sid = Some s'
         \<and> str_status s' = ''Live'')"
proof -
  have "get_strategy (set_strategy sid (\<lambda>s. s\<lparr>str_status := ''Live''\<rparr>) d) sid = Some (s\<lparr>str_status := ''Live''\<rparr>)"
    using assms(1) by (auto simp: get_strategy_def set_strategy_def row_by_update_where dest: row_by_SomeD)
  moreover have "get_strategy (snd (write_audit_entry env c x)) sid = get_strategy x sid" for c x
    by (simp add: get_strategy_def)
  ultimately show ?thesis using assms by (auto simp: promote_strategy_def)
qed

theorem promote_to_live_needs_no_approval_witness:
  "\<exists>d'. promote_strategy sample_env 2 ToLive ''u'' (gate_db APPR_REJECTED DEPRECATED) = Inr d'"
proof -
  have "get_strategy (gate_db APPR_REJECTED DEPRECATED) 2
      = Some \<lparr>str_id = 2, str_current_version_id = Some 3, str_name = ''s'', str_status = DEPRECATED\<rparr>"
    by (simp add: get_strategy_def gate_db_def)
  moreover have "\<not> has_approved_paper_request (gate_db APPR_REJECTED DEPRECATED) 2"
    by (simp add: has_approved_paper_request_def gate_db_def sample_request_def)
  ultimately show ?thesis
    using promote_to_live_needs_no_approval[of "gate_db APPR_REJECTED DEPRECATED" 2 _ sample_env "''u''"]
    by (auto simp: DEPRECATED_def)
qed

end
