(* ===== verification/OrderDesk.thy ===== *)
theory OrderDesk
  imports StopLoss PaperAccount Approvals
begin

text \<open>
  Orders placed by hand (\<open>src/api/routers/orders.py\<close>): placing, cancelling, closing a position. A request
  ends with an HTTP error or an answer; an exception of a broker that the handler does not catch is
  the server error 500, and its transaction is rolled back. The role check of the endpoints and the publication
  of order events are not modelled.
\<close>

section \<open>The desk\<close>

record 'w desk =
  dk_db :: db
  dk_accounts :: paper_db
  dk_service :: kill_switch_service
  dk_world :: 'w

record place_request =
  pq_strategy_id :: nat
  pq_symbol :: string
  pq_side :: side
  pq_quantity :: int
  pq_order_type :: order_type
  pq_limit_price :: "real option"
  pq_account_scope :: account_type
  pq_confirm_live_order :: bool

text \<open>The pydantic constraints of the request body.\<close>
definition place_request_valid :: "place_request \<Rightarrow> bool" where
  "place_request_valid b \<longleftrightarrow> 0 < pq_quantity b \<and> pq_order_type b \<in> {MARKET, LIMIT}"

record place_response =
  pr_account_scope :: account_type
  pr_symbol :: string
  pr_side :: side
  pr_quantity :: int
  pr_status :: order_status
  pr_executed_at :: timestamp
  pr_order_id :: "nat option"
  pr_broker_order_id :: "string option"
  pr_paper_trade_id :: "nat option"
  pr_fill_price :: "real option"

datatype http_failure = Http nat message | ServerError

text \<open>The context of the process: the configured broker, if any, its clock, the printer of floats.\<close>
record 'w process =
  pc_broker :: "'w adapter option"
  pc_clock :: "'w \<Rightarrow> timestamp"
  pc_float :: "string \<Rightarrow> real \<Rightarrow> string"

definition NO_BROKER :: string where
  "NO_BROKER = ''Neither ZERODHA_ACCESS_TOKEN nor UPSTOX_ACCESS_TOKEN is configured (checked Vault, then .env) -- there is no broker to route orders to. See .env.example for how to configure either, or scripts/seed_vault_broker_credentials.py to push them into Vault.''"

text \<open>The broker of a request: the factory builds a new breaker, closed and with no history, each time it is
  called, and its state is dropped with it.\<close>
definition one_shot :: "(circuit_breaker \<times> 'w, 'a) call \<Rightarrow> ('w, 'a) call" where
  "one_shot c w = (case c (new_breaker 3 60000000, w) of (r, (_, w1)) \<Rightarrow> (r, w1))"

definition build_broker :: "('w \<Rightarrow> timestamp) \<Rightarrow> 'w adapter option \<Rightarrow> 'w adapter option \<Rightarrow> 'w adapter option" where
  "build_broker clock zerodha upstox =
    (case zerodha of
       Some z \<Rightarrow>
        (let b = breaker_adapter clock z upstox in
         Some \<lparr>ad_place_order = (\<lambda>q. one_shot (ad_place_order b q)),
           ad_modify_order = (\<lambda>oid n ot lp tp. one_shot (ad_modify_order b oid n ot lp tp)),
           ad_cancel_order = (\<lambda>oid. one_shot (ad_cancel_order b oid)), ad_get_order_book = one_shot (ad_get_order_book b),
           ad_get_margin = one_shot (ad_get_margin b), ad_get_positions = one_shot (ad_get_positions b),
           ad_get_quote = (\<lambda>s. one_shot (ad_get_quote b s)),
           ad_get_option_chain = (\<lambda>u x. one_shot (ad_get_option_chain b u x)),
           ad_list_expiries = (\<lambda>u. one_shot (ad_list_expiries b u))\<rparr>)
     | None \<Rightarrow> upstox)"

definition LIVE_BROKER :: string where "LIVE_BROKER = ''LIVE''"

definition get_or_create_live_account :: "'w desk \<Rightarrow> account \<times> 'w desk" where
  "get_or_create_live_account dk =
    (case List.find (\<lambda>a. ac_broker a = LIVE_BROKER \<and> ac_account_type a = Live) (pd_accounts (dk_accounts dk)) of
       Some a \<Rightarrow> (a, dk)
     | None \<Rightarrow>
        (let a = \<lparr>ac_id = db_next_id (dk_db dk), ac_broker = LIVE_BROKER, ac_account_type = Live, ac_capital_allocated = 0\<rparr>
         in (a, dk\<lparr>dk_accounts := (dk_accounts dk)\<lparr>pd_accounts := pd_accounts (dk_accounts dk) @ [a]\<rparr>,
                   dk_db := (dk_db dk)\<lparr>db_next_id := Suc (db_next_id (dk_db dk))\<rparr>\<rparr>)))"

text \<open>The quote call of \<open>execute_paper_trade\<close>, made once; an administrator's alert is an ordinary exception here.\<close>
definition quote_answer :: "adapter_error + quote \<Rightarrow> broker_error + quote" where
  "quote_answer a = (case a of Inr q \<Rightarrow> Inr q | Inl (BrokerRaised e) \<Rightarrow> Inl e | Inl (AdminAlert m) \<Rightarrow> Inl (BrokerFault m))"

definition signal_of_request :: "place_request \<Rightarrow> trade_signal" where
  "signal_of_request b = \<lparr>ts_symbol = pq_symbol b, ts_side = pq_side b, ts_quantity = pq_quantity b,
     ts_order_type = pq_order_type b, ts_limit_price = pq_limit_price b, ts_reference_price = None, ts_option_legs = None\<rparr>"

definition place_paper :: "env \<Rightarrow> 'w process \<Rightarrow> place_request \<Rightarrow> nat \<Rightarrow> strategy \<Rightarrow> 'w desk \<Rightarrow> (http_failure + place_response) \<times> 'w desk" where
  "place_paper env pc b user_id s dk =
    (case pc_broker pc of
       None \<Rightarrow> (Inl (Http 503 [Lit NO_BROKER]), dk)
     | Some broker \<Rightarrow>
        (case get_paper_account (dk_accounts dk) of
           Inl _ \<Rightarrow> (Inl ServerError, dk)
         | Inr account \<Rightarrow>
            (let (ans, w1) = ad_get_quote broker (pq_symbol b) (dk_world dk);
                 (res, trades) = execute_paper_trade (\<lambda>_. quote_answer ans) (pc_clock pc w1) (pq_symbol b) (pq_side b)
                   (pq_quantity b) (ac_id account) (Some (str_id s)) EQUITY None None None (pd_trades (dk_accounts dk));
                 dk1 = dk\<lparr>dk_world := w1, dk_accounts := (dk_accounts dk)\<lparr>pd_trades := trades\<rparr>\<rparr>
             in case res of
                  Inl (NoLiquidityError sy sd) \<Rightarrow> (Inl (Http 409 [Lit (if sd = BUY then ''No usable ask depth for '' else ''No usable bid depth for ''),
                    Sym sy, Lit '' -- nothing to fill'']), dk1)
                | Inl _ \<Rightarrow> (Inl ServerError, dk1)
                | Inr trade \<Rightarrow>
                   (let tid = db_next_id (dk_db dk1);
                        d1 = snd (write_audit_entry env (audit_entry Human (uuid_str user_id) ''ORDER_PLACED_PAPER'' ''PaperTrade''
                          (Some tid) None (Some (JObj [(''symbol'', JStr (pt_symbol trade)), (''side'', JStr (side_value (pt_side trade))),
                            (''quantity'', JInt (pt_filled_quantity trade))])))
                          ((dk_db dk1)\<lparr>db_next_id := Suc tid\<rparr>))
                    in (Inr \<lparr>pr_account_scope = Paper, pr_symbol = pt_symbol trade, pr_side = pt_side trade,
                          pr_quantity = pt_filled_quantity trade, pr_status = OS_FILLED, pr_executed_at = pt_executed_at trade,
                          pr_order_id = None, pr_broker_order_id = None, pr_paper_trade_id = Some tid,
                          pr_fill_price = Some (pt_fill_price trade)\<rparr>, dk1\<lparr>dk_db := d1\<rparr>)))))"

definition place_live :: "env \<Rightarrow> 'w process \<Rightarrow> place_request \<Rightarrow> nat \<Rightarrow> strategy \<Rightarrow> 'w desk \<Rightarrow> (http_failure + place_response) \<times> 'w desk" where
  "place_live env pc b user_id s dk =
    (case pc_broker pc of
       None \<Rightarrow> (Inl (Http 503 [Lit NO_BROKER]), dk)
     | Some broker \<Rightarrow>
        (let (account, dk1) = get_or_create_live_account dk in
         case ad_place_order broker \<lparr>oq_symbol = pq_symbol b, oq_side = pq_side b, oq_order_type = pq_order_type b,
                oq_quantity = pq_quantity b, oq_product = INTRADAY, oq_limit_price = pq_limit_price b,
                oq_trigger_price = None, oq_validity = DAY, oq_tag = None\<rparr> (dk_world dk) of
           (Inl _, w1) \<Rightarrow> (Inl ServerError, dk\<lparr>dk_world := w1\<rparr>)
         | (Inr r, w1) \<Rightarrow>
            (let now = pc_clock pc w1;
                 row = \<lparr>ord_id = db_next_id (dk_db dk1), ord_account_id = ac_id account, ord_strategy_id = str_id s,
                   ord_broker_order_id = Some (or_broker_order_id r), ord_symbol = or_symbol r, ord_side = or_side r,
                   ord_order_type = or_order_type r, ord_quantity = or_quantity r, ord_limit_price = pq_limit_price b,
                   ord_status = or_status r, ord_requested_at = now, ord_acknowledged_at = Some now,
                   ord_latency_ms = None, ord_rejection_reason = None\<rparr>;
                 d1 = (dk_db dk1)\<lparr>db_orders := db_orders (dk_db dk1) @ [row], db_next_id := Suc (db_next_id (dk_db dk1))\<rparr>;
                 d2 = snd (write_audit_entry env (audit_entry Human (uuid_str user_id) ''ORDER_PLACED_LIVE'' ''Order'' None None
                   (Some (JObj [(''symbol'', JStr (ord_symbol row)), (''side'', JStr (side_value (ord_side row))),
                     (''quantity'', JInt (ord_quantity row)), (''broker_order_id'', JStr (or_broker_order_id r))]))) d1)
             in (Inr \<lparr>pr_account_scope = Live, pr_symbol = ord_symbol row, pr_side = ord_side row, pr_quantity = ord_quantity row,
                   pr_status = ord_status row, pr_executed_at = now, pr_order_id = Some (ord_id row),
                   pr_broker_order_id = Some (or_broker_order_id r), pr_paper_trade_id = None, pr_fill_price = None\<rparr>,
                 dk1\<lparr>dk_db := d2, dk_world := w1\<rparr>))))"

definition place_order :: "env \<Rightarrow> 'w process \<Rightarrow> place_request \<Rightarrow> nat \<Rightarrow> 'w desk \<Rightarrow> (http_failure + place_response) \<times> 'w desk" where
  "place_order env pc b user_id dk =
    (if pq_account_scope b = Live \<and> \<not> pq_confirm_live_order b then
       (Inl (Http 400 [Lit ''account_scope=Live requires confirm_live_order=true -- this places a real order against a real broker for real money.'']), dk)
     else if is_tripped (dk_service dk) then
       (Inl (Http 423 [Lit ''Kill switch is tripped -- no orders can be placed'']), dk)
     else
      (case get_strategy (dk_db dk) (pq_strategy_id b) of
         None \<Rightarrow> (Inl (Http 404 [Lit ''Unknown strategy_id'']), dk)
       | Some s \<Rightarrow>
          (case compliance_pre_trade_check (pc_float pc) env (signal_of_request b) (dk_db dk) of
             (Inl m, d1) \<Rightarrow> (Inl (Http 403 m), dk\<lparr>dk_db := d1\<rparr>)
           | (Inr _, d1) \<Rightarrow>
              if pq_account_scope b = Paper then place_paper env pc b user_id s (dk\<lparr>dk_db := d1\<rparr>)
              else place_live env pc b user_id s (dk\<lparr>dk_db := d1\<rparr>))))"

definition cancel_order :: "env \<Rightarrow> 'w process \<Rightarrow> nat \<Rightarrow> nat \<Rightarrow> 'w desk \<Rightarrow> (http_failure + order_row) \<times> 'w desk" where
  "cancel_order env pc oid user_id dk =
    (case row_by ord_id oid (db_orders (dk_db dk)) of
       None \<Rightarrow> (Inl (Http 404 [Lit ''Unknown order_id'']), dk)
     | Some x \<Rightarrow>
        (case ord_broker_order_id x of
           None \<Rightarrow> (Inl (Http 400 [Lit ''This order has no broker_order_id -- Paper orders (POST /api/v1/paper-trading/execute) fill instantly and cannot be cancelled.'']), dk)
         | Some bid \<Rightarrow>
            (case pc_broker pc of
               None \<Rightarrow> (Inl (Http 503 [Lit NO_BROKER]), dk)
             | Some broker \<Rightarrow>
                (case ad_cancel_order broker bid (dk_world dk) of
                   (Inl _, w1) \<Rightarrow> (Inl ServerError, dk\<lparr>dk_world := w1\<rparr>)
                 | (Inr r, w1) \<Rightarrow>
                    (let x1 = x\<lparr>ord_status := or_status r\<rparr>;
                         d1 = (dk_db dk)\<lparr>db_orders := update_first (\<lambda>y. ord_id y = oid) (\<lambda>_. x1) (db_orders (dk_db dk))\<rparr>;
                         d2 = snd (write_audit_entry env (audit_entry Human (uuid_str user_id) ''ORDER_CANCELLED'' ''Order'' (Some oid)
                           None (Some (JObj [(''status'', JStr (order_status_value (or_status r)))]))) d1)
                     in (Inr x1, dk\<lparr>dk_db := d2, dk_world := w1\<rparr>))))))"

record close_request =
  cq_strategy_id :: nat
  cq_account_scope :: account_type
  cq_confirm_live_order :: bool

definition close_order :: "env \<Rightarrow> 'w process \<Rightarrow> string \<Rightarrow> close_request \<Rightarrow> int \<Rightarrow> nat \<Rightarrow> 'w desk \<Rightarrow> (http_failure + place_response) \<times> 'w desk" where
  "close_order env pc symbol c net user_id dk =
    place_order env pc \<lparr>pq_strategy_id = cq_strategy_id c, pq_symbol = symbol, pq_side = opposite_side net,
      pq_quantity = \<bar>net\<bar>, pq_order_type = MARKET, pq_limit_price = None, pq_account_scope = cq_account_scope c,
      pq_confirm_live_order = cq_confirm_live_order c\<rparr> user_id dk"

definition close_position :: "env \<Rightarrow> 'w process \<Rightarrow> string \<Rightarrow> close_request \<Rightarrow> nat \<Rightarrow> 'w desk \<Rightarrow> (http_failure + place_response) \<times> 'w desk" where
  "close_position env pc symbol c user_id dk =
    (case get_strategy (dk_db dk) (cq_strategy_id c) of
       None \<Rightarrow> (Inl (Http 404 [Lit ''Unknown strategy_id'']), dk)
     | Some _ \<Rightarrow>
        if cq_account_scope c = Paper then
          (case dict_get (fst (replay_ledger (trades_of_strategy (cq_strategy_id c) (pd_trades (dk_accounts dk))))) symbol of
             None \<Rightarrow> (Inl (Http 404 [Lit ''No open Paper position for '', Sym symbol, Lit '' under this strategy'']), dk)
           | Some pos \<Rightarrow>
              if sp_net_quantity pos = 0 then (Inl (Http 404 [Lit ''No open Paper position for '', Sym symbol, Lit '' under this strategy'']), dk)
              else close_order env pc symbol c (sp_net_quantity pos) user_id dk)
        else
          (case pc_broker pc of
             None \<Rightarrow> (Inl (Http 503 [Lit NO_BROKER]), dk)
           | Some broker \<Rightarrow>
              (case ad_get_positions broker (dk_world dk) of
                 (Inl (BrokerRaised (HTTPStatusError code why)), w1) \<Rightarrow>
                   (Inl (Http 502 [Lit ''Broker positions request failed: '', Lit why]), dk\<lparr>dk_world := w1\<rparr>)
               | (Inl _, w1) \<Rightarrow> (Inl ServerError, dk\<lparr>dk_world := w1\<rparr>)
               | (Inr positions, w1) \<Rightarrow>
                  (case List.find (\<lambda>p. bp_symbol p = symbol) positions of
                     None \<Rightarrow> (Inl (Http 404 [Lit ''No open Live position for '', Sym symbol]), dk\<lparr>dk_world := w1\<rparr>)
                   | Some p \<Rightarrow>
                      if bp_net_quantity p = 0 then (Inl (Http 404 [Lit ''No open Live position for '', Sym symbol]), dk\<lparr>dk_world := w1\<rparr>)
                      else close_order env pc symbol c (bp_net_quantity p) user_id (dk\<lparr>dk_world := w1\<rparr>)))))"

section \<open>The gates of the desk\<close>

text \<open>The first gate a request fails at, as its HTTP code.\<close>
definition refusal :: "'w process \<Rightarrow> place_request \<Rightarrow> 'w desk \<Rightarrow> nat option" where
  "refusal pc b dk =
    (if pq_account_scope b = Live \<and> \<not> pq_confirm_live_order b then Some 400
     else if is_tripped (dk_service dk) then Some 423
     else if get_strategy (dk_db dk) (pq_strategy_id b) = None then Some 404
     else if cv_verdict (signal_verdict (signal_of_request b)) = Block then Some 403
     else if pc_broker pc = None then Some 503 else None)"

lemma compliance_pass: "cv_verdict (signal_verdict s) \<noteq> Block \<Longrightarrow> compliance_pre_trade_check fmt env s d = (Inr (), d)"
  by (simp add: compliance_pre_trade_check_def)

lemma compliance_block:
  "cv_verdict (signal_verdict s) = Block \<Longrightarrow> \<exists>m d1. compliance_pre_trade_check fmt env s d = (Inl m, d1)
     \<and> db_orders d1 = db_orders d \<and> conserves env d d1"
  by (auto simp: compliance_pre_trade_check_def Let_def intro: conserves_write_audit)

definition order_of_request :: "place_request \<Rightarrow> order_request" where
  "order_of_request b = \<lparr>oq_symbol = pq_symbol b, oq_side = pq_side b, oq_order_type = pq_order_type b,
     oq_quantity = pq_quantity b, oq_product = INTRADAY, oq_limit_price = pq_limit_price b,
     oq_trigger_price = None, oq_validity = DAY, oq_tag = None\<rparr>"

lemma live_account_frame [simp]:
  "db_orders (dk_db (snd (get_or_create_live_account dk))) = db_orders (dk_db dk)"
  "db_audit (dk_db (snd (get_or_create_live_account dk))) = db_audit (dk_db dk)"
  "pd_trades (dk_accounts (snd (get_or_create_live_account dk))) = pd_trades (dk_accounts dk)"
  by (auto simp: get_or_create_live_account_def Let_def split: option.split)

lemma place_live_effect:
  assumes "pc_broker pc = Some broker" and "ad_place_order broker (order_of_request b) (dk_world dk) = (ans, w1)"
  shows "case place_live env pc b u s dk of (res, dk') \<Rightarrow> dk_world dk' = w1 \<and> pd_trades (dk_accounts dk') = pd_trades (dk_accounts dk)
    \<and> (case ans of
         Inl _ \<Rightarrow> res = Inl ServerError \<and> dk_db dk' = dk_db dk
       | Inr r \<Rightarrow> \<exists>row. db_orders (dk_db dk') = db_orders (dk_db dk) @ [row] \<and> ord_broker_order_id row = Some (or_broker_order_id r)
           \<and> ord_status row = or_status r \<and> ord_symbol row = or_symbol r \<and> ord_quantity row = or_quantity r
           \<and> ord_strategy_id row = str_id s \<and> length (db_audit (dk_db dk')) = Suc (length (db_audit (dk_db dk))))"
proof -
  obtain a dk1 where acc: "get_or_create_live_account dk = (a, dk1)" by fastforce
  then have f: "db_orders (dk_db dk1) = db_orders (dk_db dk)" "db_audit (dk_db dk1) = db_audit (dk_db dk)"
    "pd_trades (dk_accounts dk1) = pd_trades (dk_accounts dk)" using live_account_frame[of dk] by simp_all
  have "db_orders (snd (write_audit_entry e c x)) = db_orders x" "length (db_audit (snd (write_audit_entry e c x))) = Suc (length (db_audit x))"
    for e c x by (simp_all add: write_audit_entry_def Let_def)
  then show ?thesis using assms
    by (cases ans) (simp_all add: place_live_def acc f order_of_request_def Let_def)
qed

text \<open>C37. The gates of a live order by hand, in order. A request that is unconfirmed, meets a tripped kill
  switch, names no strategy, fails compliance or finds no broker is refused with the code of the
  first of these, and reaches no broker and records no order. Any other is sent to the broker exactly
  once; the answer decides: an acknowledged order is recorded with the broker's identifier and
  status and one audit entry, while an exception is a server error that records nothing, even when
  the broker took the order.\<close>
theorem live_order_gates:
  assumes "pq_account_scope b = Live"
  shows "case place_order env pc b u dk of (res, dk') \<Rightarrow>
    (case refusal pc b dk of
       Some code \<Rightarrow> (\<exists>m. res = Inl (Http code m)) \<and> dk_world dk' = dk_world dk
         \<and> db_orders (dk_db dk') = db_orders (dk_db dk) \<and> dk_accounts dk' = dk_accounts dk
     | None \<Rightarrow>
        (case ad_place_order (the (pc_broker pc)) (order_of_request b) (dk_world dk) of
           (Inl _, w1) \<Rightarrow> res = Inl ServerError \<and> dk_world dk' = w1 \<and> dk_db dk' = dk_db dk
         | (Inr r, w1) \<Rightarrow> dk_world dk' = w1 \<and> (\<exists>row. db_orders (dk_db dk') = db_orders (dk_db dk) @ [row]
             \<and> ord_broker_order_id row = Some (or_broker_order_id r) \<and> ord_status row = or_status r)
             \<and> length (db_audit (dk_db dk')) = Suc (length (db_audit (dk_db dk)))))"
proof (cases "refusal pc b dk")
  case (Some code)
  obtain m d1 where blk: "cv_verdict (signal_verdict (signal_of_request b)) = Block \<Longrightarrow>
      compliance_pre_trade_check (pc_float pc) env (signal_of_request b) (dk_db dk) = (Inl m, d1) \<and> db_orders d1 = db_orders (dk_db dk)"
    using compliance_block[of "signal_of_request b" "pc_float pc" env "dk_db dk"] by blast
  then show ?thesis using Some assms
    by (auto simp: refusal_def place_order_def place_live_def compliance_pass split: if_splits option.split)
next
  case None
  then obtain broker s where b: "pc_broker pc = Some broker" "get_strategy (dk_db dk) (pq_strategy_id b) = Some s"
    by (auto simp: refusal_def split: if_splits)
  have place: "place_order env pc b u dk = place_live env pc b u s dk"
    using None assms b by (auto simp: refusal_def place_order_def compliance_pass split: if_splits)
  obtain ans w1 where a: "ad_place_order broker (order_of_request b) (dk_world dk) = (ans, w1)" by fastforce
  show ?thesis using place_live_effect[OF b(1) a, where env = env and u = u and s = s] None b a
    by (cases ans) (auto simp: place split: prod.splits)
qed

text \<open>The circuit breaker never opens for a request. The factory hands every request a fresh breaker, so
  no failure of one request is remembered by the next: whatever the brokers, placing an order through
  the built broker is placing it at the primary, and the fallback is never used.\<close>
theorem built_breaker_never_opens:
  assumes "build_broker clock (Some z) upstox = Some broker"
  shows "ad_place_order broker q w = ad_place_order z q w"
  using assms
  by (auto simp: build_broker_def one_shot_def breaker_adapter_def cb_place_order_def new_breaker_def maybe_half_open_def Let_def
      split: prod.split sum.split)

section \<open>Closing a position\<close>

lemma place_paper_result:
  assumes "place_paper env pc b u s dk = (Inr resp, dk')" and "0 < pq_quantity b"
  shows "0 < pr_quantity resp \<and> pr_quantity resp \<le> pq_quantity b
    \<and> held (Some (str_id s)) (pq_symbol b) (pd_trades (dk_accounts dk'))
        = held (Some (str_id s)) (pq_symbol b) (pd_trades (dk_accounts dk)) + signed_quantity (pq_side b) (pr_quantity resp)"
proof -
  obtain broker account where b: "pc_broker pc = Some broker" "get_paper_account (dk_accounts dk) = Inr account"
    using assms(1) by (auto simp: place_paper_def split: option.splits sum.splits)
  obtain ans w1 where q: "ad_get_quote broker (pq_symbol b) (dk_world dk) = (ans, w1)" by fastforce
  obtain res trades where x: "execute_paper_trade (\<lambda>_. quote_answer ans) (pc_clock pc w1) (pq_symbol b) (pq_side b) (pq_quantity b)
      (ac_id account) (Some (str_id s)) EQUITY None None None (pd_trades (dk_accounts dk)) = (res, trades)" by fastforce
  obtain t where t: "res = Inr t" using assms(1) b q x
    by (cases res) (auto simp: place_paper_def Let_def split: paper_error.splits)
  have "pr_quantity resp = pt_filled_quantity t" "pd_trades (dk_accounts dk') = trades"
    using assms(1) b q x t by (auto simp: place_paper_def Let_def)
  then show ?thesis using paper_fill_bound[OF x[unfolded t] assms(2)] paper_trade_row[OF x] t
    by (simp add: trade_qty_def)
qed

text \<open>Closing a paper position moves it toward flat and never through it. A successful close trades the
  side opposite to the strategy's net quantity of the symbol, at least one and at most all of it, and
  the net quantity afterwards is what is left; a complete fill leaves exactly zero.\<close>
theorem paper_close_never_overshoots:
  assumes "close_position env pc x c u dk = (Inr resp, dk')" and "cq_account_scope c = Paper"
  shows "let n = held (Some (cq_strategy_id c)) x (pd_trades (dk_accounts dk));
             n' = held (Some (cq_strategy_id c)) x (pd_trades (dk_accounts dk')) in
    n \<noteq> 0 \<and> 0 < pr_quantity resp \<and> pr_quantity resp \<le> \<bar>n\<bar> \<and> n' = n - sgn n * pr_quantity resp
    \<and> (pr_quantity resp = \<bar>n\<bar> \<longrightarrow> n' = 0)"
proof -
  let ?n = "held (Some (cq_strategy_id c)) x (pd_trades (dk_accounts dk))"
  let ?b = "\<lparr>pq_strategy_id = cq_strategy_id c, pq_symbol = x, pq_side = opposite_side ?n, pq_quantity = \<bar>?n\<bar>, pq_order_type = MARKET,
      pq_limit_price = None, pq_account_scope = Paper, pq_confirm_live_order = cq_confirm_live_order c\<rparr>"
  obtain s where s: "get_strategy (dk_db dk) (cq_strategy_id c) = Some s" "str_id s = cq_strategy_id c"
    using assms(1) by (auto simp: close_position_def get_strategy_def split: option.splits dest: row_by_SomeD)
  have n: "?n \<noteq> 0" and o: "close_order env pc x c ?n u dk = (Inr resp, dk')"
    using assms s strategy_net[where sid = "cq_strategy_id c" and ledger = "pd_trades (dk_accounts dk)" and x = x]
    by (auto simp: close_position_def split: option.splits if_splits)
  obtain d1 where "place_paper env pc ?b u s (dk\<lparr>dk_db := d1\<rparr>) = (Inr resp, dk')"
    using o s assms(2) by (auto simp: close_order_def place_order_def split: if_splits sum.splits prod.splits)
  from place_paper_result[OF this] n s(2) show ?thesis
    by (auto simp: Let_def opposite_side_def sgn_if)
qed

text \<open>A position above the limit cannot be closed. The position limit is checked against the quantity
  of each order, not of the position, so orders within the limit add up beyond it; the closing order
  is then one order above the limit, and the desk refuses it as a compliance violation.\<close>
theorem oversized_position_cannot_be_closed:
  assumes "cq_account_scope c = Paper" and "get_strategy (dk_db dk) (cq_strategy_id c) = Some s"
    and "\<not> is_tripped (dk_service dk)"
    and "dict_get PLACEHOLDER_SEBI_POSITION_LIMITS x = Some limit"
    and "limit < \<bar>held (Some (cq_strategy_id c)) x (pd_trades (dk_accounts dk))\<bar>" and "0 \<le> limit"
  shows "case close_position env pc x c u dk of (res, dk') \<Rightarrow>
    (\<exists>m. res = Inl (Http 403 m)) \<and> dk_accounts dk' = dk_accounts dk \<and> dk_world dk' = dk_world dk"
proof -
  let ?n = "held (Some (cq_strategy_id c)) x (pd_trades (dk_accounts dk))"
  let ?b = "\<lparr>pq_strategy_id = cq_strategy_id c, pq_symbol = x, pq_side = opposite_side ?n, pq_quantity = \<bar>?n\<bar>, pq_order_type = MARKET,
      pq_limit_price = None, pq_account_scope = Paper, pq_confirm_live_order = cq_confirm_live_order c\<rparr>"
  have "?n \<noteq> 0" using assms(5,6) by auto
  then have close: "close_position env pc x c u dk = close_order env pc x c ?n u dk"
    using assms(1,2) strategy_net[where sid = "cq_strategy_id c" and ledger = "pd_trades (dk_accounts dk)" and x = x]
    by (auto simp: close_position_def split: option.splits)
  have "cv_verdict (signal_verdict (signal_of_request ?b)) = Block"
    using assms(4,5) by (simp add: signal_verdict_def signal_of_request_def evaluate_compliance_def check_position_limit_def Let_def)
  from compliance_block[OF this, of "pc_float pc" env "dk_db dk"] show ?thesis
    using assms(1-3) by (auto simp: close close_order_def place_order_def)
qed

section \<open>Concrete requests\<close>

definition quoting_broker :: "unit adapter" where
  "quoting_broker =
    (let no = Inl (BrokerRaised (BrokerFault ''unsupported'')) in
     \<lparr>ad_place_order = (\<lambda>q w. (Inr (ack q), w)), ad_modify_order = (\<lambda>_ _ _ _ _ w. (no, w)),
      ad_cancel_order = (\<lambda>_ w. (no, w)), ad_get_order_book = (\<lambda>w. (Inr [], w)),
      ad_get_margin = (\<lambda>w. (Inl (BrokerRaised (BrokerFault ''unsupported'')), w)), ad_get_positions = (\<lambda>w. (Inr [], w)),
      ad_get_quote = (\<lambda>s w. (Inr \<lparr>qt_symbol = s, qt_last_price = 100,
         qt_buy_depth = [\<lparr>dl_price = 100, dl_quantity = 4, dl_orders = 1\<rparr>], qt_sell_depth = []\<rparr>, w)),
      ad_get_option_chain = (\<lambda>_ _ w. (Inl (BrokerRaised (BrokerFault ''unsupported'')), w)),
      ad_list_expiries = (\<lambda>_ w. (Inr [], w))\<rparr>)"

definition desk_trade :: "int \<Rightarrow> paper_trade" where
  "desk_trade q = (sample_trade BUY q 100)\<lparr>pt_symbol := ''RELIANCE'', pt_strategy_id := Some 2\<rparr>"

definition sample_desk :: "paper_trade list \<Rightarrow> unit desk" where
  "sample_desk ts = \<lparr>dk_db = gate_db APPR_APPROVED PAPER_TRADING,
     dk_accounts = \<lparr>pd_accounts = [\<lparr>ac_id = 7, ac_broker = ''PAPER'', ac_account_type = Paper, ac_capital_allocated = 1000\<rparr>],
       pd_trades = ts, pd_snapshots = []\<rparr>, dk_service = new_service, dk_world = ()\<rparr>"

definition sample_process :: "unit process" where
  "sample_process = \<lparr>pc_broker = Some quoting_broker, pc_clock = (\<lambda>_. 0), pc_float = (\<lambda>_ _. ''x'')\<rparr>"

definition sample_close :: close_request where
  "sample_close = \<lparr>cq_strategy_id = 2, cq_account_scope = Paper, cq_confirm_live_order = False\<rparr>"

definition sample_live :: place_request where
  "sample_live = \<lparr>pq_strategy_id = 2, pq_symbol = ''INFY'', pq_side = BUY, pq_quantity = 5, pq_order_type = MARKET,
     pq_limit_price = None, pq_account_scope = Live, pq_confirm_live_order = False\<rparr>"

lemma desk_facts:
  "get_strategy (dk_db (sample_desk ts)) 2 = Some \<lparr>str_id = 2, str_current_version_id = Some 3, str_name = ''s'', str_status = PAPER_TRADING\<rparr>"
  "\<not> is_tripped (dk_service (sample_desk ts))"
  "held (Some 2) ''RELIANCE'' (map desk_trade qs) = sum_list qs"
proof -
  show "get_strategy (dk_db (sample_desk ts)) 2 = Some \<lparr>str_id = 2, str_current_version_id = Some 3, str_name = ''s'', str_status = PAPER_TRADING\<rparr>"
    by (simp add: sample_desk_def get_strategy_def gate_db_def)
  show "\<not> is_tripped (dk_service (sample_desk ts))" by (simp add: sample_desk_def new_service_def is_tripped_def new_kill_switch_def)
  show "held (Some 2) ''RELIANCE'' (map desk_trade qs) = sum_list qs"
    by (induction qs) (simp_all add: held_def net_of_def desk_trade_def sample_trade_def trade_qty_def)
qed

theorem live_order_gates_witness:
  "\<exists>m. fst (place_order sample_env sample_process sample_live 1 (sample_desk [])) = Inl (Http 400 m)"
proof -
  have "refusal sample_process sample_live (sample_desk []) = Some 400" by (simp add: refusal_def sample_live_def)
  moreover have "pq_account_scope sample_live = Live" by (simp add: sample_live_def)
  ultimately show ?thesis
    using live_order_gates[where b = sample_live and env = sample_env and pc = sample_process and u = 1 and dk = "sample_desk []"] by (auto split: prod.splits)
qed

theorem built_breaker_never_opens_witness:
  "\<exists>b. build_broker (\<lambda>_. 0) (Some quoting_broker) (Some quoting_broker) = Some b
     \<and> ad_place_order b sample_request_order () = ad_place_order quoting_broker sample_request_order ()"
proof -
  obtain b where b: "build_broker (\<lambda>_. 0) (Some quoting_broker) (Some quoting_broker) = Some b"
    by (simp add: build_broker_def Let_def)
  show ?thesis using built_breaker_never_opens[OF b] b by blast
qed

theorem paper_close_never_overshoots_witness:
  "\<exists>resp dk'. close_position sample_env sample_process ''RELIANCE'' sample_close 1 (sample_desk [desk_trade 10]) = (Inr resp, dk')
     \<and> held (Some 2) ''RELIANCE'' (pd_trades (dk_accounts dk')) = 10 - pr_quantity resp"
proof -
  let ?dk = "sample_desk [desk_trade 10]"
  let ?r = "close_position sample_env sample_process ''RELIANCE'' sample_close 1 ?dk"
  have h: "held (Some 2) ''RELIANCE'' (pd_trades (dk_accounts ?dk)) = 10"
    using desk_facts(3)[of "[10]"] by (simp add: sample_desk_def)
  have pos: "\<exists>p. dict_get (fst (replay_ledger (trades_of_strategy 2 [desk_trade 10]))) ''RELIANCE'' = Some p \<and> sp_net_quantity p = 10"
    by (simp add: trades_of_strategy_def desk_trade_def sample_trade_def replay_ledger_def replay_step_def apply_fill_def
        trade_qty_def dict_get_default_def new_position_def Let_def)
  have verdict: "cv_verdict (evaluate_compliance ''RELIANCE'' (Some 10) None None None) \<noteq> Block"
    by (simp add: evaluate_compliance_def check_position_limit_def PLACEHOLDER_SEBI_POSITION_LIMITS_def)
  have quote: "simulate_fill SELL 10 [\<lparr>dl_price = 100, dl_quantity = 4, dl_orders = 1\<rparr>]
      = Inr \<lparr>fr_filled_quantity = 4, fr_average_fill_price = Some 100, fr_slippage_bps = Some 0, fr_fully_filled = False\<rparr>"
    by (simp add: simulate_fill_def start_walk_def Let_def)
  let ?b = "\<lparr>pq_strategy_id = 2, pq_symbol = ''RELIANCE'', pq_side = SELL, pq_quantity = 10, pq_order_type = MARKET,
      pq_limit_price = None, pq_account_scope = Paper, pq_confirm_live_order = False\<rparr>"
  have paper: "\<exists>resp dk'. place_paper sample_env sample_process ?b 1 s (sample_desk ts) = (Inr resp, dk')" for s ts
    by (simp add: place_paper_def sample_process_def sample_desk_def get_paper_account_def quoting_broker_def Let_def
        execute_paper_trade_def quote_answer_def quote)
  have same: "dk\<lparr>dk_db := dk_db dk\<rparr> = dk" for dk :: "unit desk" by simp
  have order: "place_order sample_env sample_process ?b 1 ?dk
      = place_paper sample_env sample_process ?b 1 \<lparr>str_id = 2, str_current_version_id = Some 3, str_name = ''s'', str_status = PAPER_TRADING\<rparr> ?dk"
    using verdict by (simp add: place_order_def desk_facts same compliance_pass signal_verdict_def signal_of_request_def)
  have "?r = place_order sample_env sample_process ?b 1 ?dk"
    using pos by (auto simp: close_position_def desk_facts sample_close_def)
      (auto simp: sample_desk_def close_order_def opposite_side_def)
  then have "\<exists>resp dk'. ?r = (Inr resp, dk')" using paper order by simp
  then obtain resp dk' where r: "?r = (Inr resp, dk')" by blast
  have "cq_account_scope sample_close = Paper" "cq_strategy_id sample_close = 2" by (simp_all add: sample_close_def)
  then show ?thesis using paper_close_never_overshoots[OF r] h r by (auto simp: Let_def)
qed

theorem oversized_position_cannot_be_closed_witness:
  "\<exists>m. fst (close_position sample_env sample_process ''RELIANCE'' sample_close 1 (sample_desk [desk_trade 30000, desk_trade 30000]))
     = Inl (Http 403 m)"
proof -
  let ?dk = "sample_desk [desk_trade 30000, desk_trade 30000]"
  have "held (Some 2) ''RELIANCE'' (pd_trades (dk_accounts ?dk)) = 60000"
    using desk_facts(3)[of "[30000, 30000]"] by (simp add: sample_desk_def)
  moreover have "dict_get PLACEHOLDER_SEBI_POSITION_LIMITS ''RELIANCE'' = Some 50000"
    by (simp add: PLACEHOLDER_SEBI_POSITION_LIMITS_def)
  ultimately show ?thesis
    using oversized_position_cannot_be_closed[where c = sample_close and dk = ?dk and x = "''RELIANCE''" and limit = 50000
        and env = sample_env and pc = sample_process and u = 1] desk_facts(1,2)
    by (auto simp: sample_close_def split: prod.splits)
qed

end
