(* ===== verification/Sizing.thy ===== *)
theory Sizing
  imports Prelude
begin

text \<open>
  Volatility-adjusted position sizing (\<open>src/engine/risk/position_sizing.py\<close>). A return is a real number or,
  after a price of zero, infinite; a standard deviation that pandas gives as NaN (fewer than two
  observations, or an infinite one) is \<open>None\<close>.
\<close>

type_synonym return_series = "real option list"

definition sample_std :: "real list \<Rightarrow> real option" where
  "sample_std xs =
    (if length xs < 2 then None
     else (let mean = sum_list xs / of_nat (length xs) in
       Some (sqrt (sum_list (map (\<lambda>x. (x - mean) ^ 2) xs) / (of_nat (length xs) - 1)))))"

definition compute_volatility :: "nat option \<Rightarrow> return_series \<Rightarrow> real option" where
  "compute_volatility window returns =
    (let series = (case window of None \<Rightarrow> returns | Some w \<Rightarrow> drop (length returns - w) returns) in
     if None \<in> set series then None else sample_std (map the series))"

record position_size =
  sz_weight :: real
  sz_capital_allocation :: real
  sz_shares :: int

definition inverse_vols :: "(string, real option) dict \<Rightarrow> (string, real) dict" where
  "inverse_vols volatilities =
    concat (map (\<lambda>(s, v). case v of Some x \<Rightarrow> if x > 0 then [(s, 1 / x)] else [] | None \<Rightarrow> []) volatilities)"

definition inverse_volatility_weights :: "(string, real option) dict \<Rightarrow> (string, real) dict" where
  "inverse_volatility_weights volatilities =
    (let total = sum_list (map snd (inverse_vols volatilities)) in
     if total = 0 then map (\<lambda>(s, _). (s, 0)) volatilities
     else map (\<lambda>(s, iv). (s, iv / total)) (inverse_vols volatilities))"

definition position_size_of :: "real \<Rightarrow> real \<Rightarrow> real \<Rightarrow> position_size" where
  "position_size_of weight price total_capital =
    (let capital = weight * total_capital in
     \<lparr>sz_weight = weight, sz_capital_allocation = capital, sz_shares = (if price > 0 then \<lfloor>capital / price\<rfloor> else 0)\<rparr>)"

text \<open>A symbol without a price is a KeyError.\<close>
fun size_all :: "(string, real) dict \<Rightarrow> real \<Rightarrow> (string, real) dict \<Rightarrow> string + (string, position_size) dict" where
  "size_all prices total_capital [] = Inr []"
| "size_all prices total_capital ((s, weight) # rest) =
    (case dict_get prices s of
       None \<Rightarrow> Inl s
     | Some price \<Rightarrow>
        (case size_all prices total_capital rest of
           Inl k \<Rightarrow> Inl k
         | Inr sizes \<Rightarrow> Inr ((s, position_size_of weight price total_capital) # sizes)))"

definition compute_position_sizes ::
  "nat option \<Rightarrow> (string, return_series) dict \<Rightarrow> (string, real) dict \<Rightarrow> real \<Rightarrow> string + (string, position_size) dict" where
  "compute_position_sizes window returns_by_symbol prices total_capital =
    size_all prices total_capital
      (inverse_volatility_weights (map (\<lambda>(s, r). (s, compute_volatility window r)) returns_by_symbol))"

section \<open>Weights and budget\<close>

lemma inverse_vols_member: "(s, iv) \<in> set (inverse_vols vs) \<longleftrightarrow> (\<exists>x. (s, Some x) \<in> set vs \<and> 0 < x \<and> iv = 1 / x)"
proof -
  have m: "(s, iv) \<in> set (case v of Some x \<Rightarrow> if x > 0 then [(k, 1 / x)] else [] | None \<Rightarrow> []) \<longleftrightarrow>
      k = s \<and> (\<exists>x. v = Some x \<and> 0 < x \<and> iv = 1 / x)" for k and v :: "real option"
    by (cases v) auto
  show ?thesis
  proof
    assume "(s, iv) \<in> set (inverse_vols vs)"
    then obtain k v where "(k, v) \<in> set vs" "(s, iv) \<in> set (case v of Some x \<Rightarrow> if x > 0 then [(k, 1 / x)] else [] | None \<Rightarrow> [])"
      by (auto simp: inverse_vols_def)
    then show "\<exists>x. (s, Some x) \<in> set vs \<and> 0 < x \<and> iv = 1 / x" using m[where k = k and v = v] by auto
  next
    assume "\<exists>x. (s, Some x) \<in> set vs \<and> 0 < x \<and> iv = 1 / x"
    then obtain x where x: "(s, Some x) \<in> set vs" "0 < x" "iv = 1 / x" by blast
    then show "(s, iv) \<in> set (inverse_vols vs)" unfolding inverse_vols_def by (auto intro!: bexI[OF _ x(1)])
  qed
qed

lemma positive_values_sum:
  "\<forall>p \<in> set xs. (0::real) < snd p \<Longrightarrow> 0 \<le> sum_list (map snd xs) \<and> (xs \<noteq> [] \<longrightarrow> 0 < sum_list (map snd xs))"
  by (induction xs) auto

lemma inverse_total_pos: "inverse_vols vs \<noteq> [] \<Longrightarrow> 0 < sum_list (map snd (inverse_vols vs))"
proof -
  have "\<forall>p \<in> set (inverse_vols vs). 0 < snd p" using inverse_vols_member by fastforce
  then show "inverse_vols vs \<noteq> [] \<Longrightarrow> ?thesis" using positive_values_sum by blast
qed

lemma weights_sum: "sum_list (map snd (map (\<lambda>(s, iv). (s, iv / t)) xs)) = sum_list (map snd xs) / (t::real)"
  by (induction xs) (auto simp: add_divide_distrib)

lemma weights_facts:
  fixes vs :: "(string, real option) dict"
  defines "ws \<equiv> inverse_volatility_weights vs"
  shows "\<And>s w. (s, w) \<in> set ws \<Longrightarrow> 0 \<le> w" and "sum_list (map snd ws) \<le> 1"
    and "inverse_vols vs \<noteq> [] \<Longrightarrow> sum_list (map snd ws) = 1"
proof -
  let ?t = "sum_list (map snd (inverse_vols vs))"
  have t0: "?t = 0 \<longleftrightarrow> inverse_vols vs = []" using inverse_total_pos[of vs] by fastforce
  have zero: "sum_list (map snd (map (\<lambda>(s, _). (s, 0)) xs)) = (0::real)" for xs :: "(string, real option) dict"
    by (induction xs) auto
  show "0 \<le> w" if "(s, w) \<in> set ws" for s w
    using that inverse_total_pos[of vs] t0
    by (auto simp: ws_def inverse_volatility_weights_def Let_def inverse_vols_member split: if_splits intro!: divide_nonneg_nonneg)
  show "inverse_vols vs \<noteq> [] \<Longrightarrow> sum_list (map snd ws) = 1"
    using t0 weights_sum[of ?t "inverse_vols vs"] by (simp add: ws_def inverse_volatility_weights_def Let_def)
  then show "sum_list (map snd ws) \<le> 1"
    using t0 zero[of vs] by (cases "inverse_vols vs = []") (simp_all add: ws_def inverse_volatility_weights_def Let_def)
qed

definition cost_of_sizes :: "(string, real) dict \<Rightarrow> (string, position_size) dict \<Rightarrow> real" where
  "cost_of_sizes prices sizes = sum_list (map (\<lambda>(s, z). of_int (sz_shares z) * the (dict_get prices s)) sizes)"

lemma size_all_cost:
  assumes "size_all prices capital ws = Inr sizes" and "0 \<le> capital" and "\<And>s w. (s, w) \<in> set ws \<Longrightarrow> 0 \<le> w"
  shows "cost_of_sizes prices sizes \<le> capital * sum_list (map snd ws) \<and> list_all (\<lambda>(_, z). 0 \<le> sz_shares z) sizes
    \<and> map fst sizes = map fst ws"
  using assms
proof (induction ws arbitrary: sizes)
  case Nil
  then show ?case by (simp add: cost_of_sizes_def)
next
  case (Cons p ws)
  obtain s w where p: "p = (s, w)" by fastforce
  obtain price rest where r: "dict_get prices s = Some price" "size_all prices capital ws = Inr rest"
    "sizes = (s, position_size_of w price capital) # rest"
    using Cons.prems(1) by (auto simp: p split: option.splits sum.splits)
  have IH: "cost_of_sizes prices rest \<le> capital * sum_list (map snd ws)" "list_all (\<lambda>(_, z). 0 \<le> sz_shares z) rest"
    "map fst rest = map fst ws"
    using Cons.IH[OF r(2)] Cons.prems by auto
  have "0 \<le> w" using Cons.prems(3)[of s w] by (simp add: p)
  then have c: "0 \<le> w * capital" using Cons.prems(2) by simp
  have "of_int (sz_shares (position_size_of w price capital)) * price \<le> w * capital \<and> 0 \<le> sz_shares (position_size_of w price capital)"
  proof (cases "0 < price")
    case True
    have "of_int \<lfloor>w * capital / price\<rfloor> * price \<le> w * capital / price * price"
      using True by (intro mult_right_mono) simp_all
    then show ?thesis using True c by (simp add: position_size_of_def Let_def)
  qed (use c in \<open>simp add: position_size_of_def Let_def\<close>)
  then show ?case using IH r(1,3) by (simp add: p cost_of_sizes_def distrib_left mult.commute)
qed

text \<open>Position sizes spend at most the capital and share the risk equally. For any returns, prices and
  non-negative capital, the sizes that come back are whole non-negative numbers of shares whose cost
  at the given prices does not exceed the capital; the weights sum to one as soon as one symbol has a
  positive volatility, and then weight times volatility is the same for every symbol sized.\<close>
theorem position_sizes_within_capital:
  assumes "compute_position_sizes window returns prices capital = Inr sizes" and "0 \<le> capital"
  defines "vols \<equiv> map (\<lambda>(s, r). (s, compute_volatility window r)) returns"
  shows "cost_of_sizes prices sizes \<le> capital \<and> list_all (\<lambda>(_, z). 0 \<le> sz_shares z) sizes
    \<and> (inverse_vols vols \<noteq> [] \<longrightarrow> sum_list (map snd (inverse_volatility_weights vols)) = 1
        \<and> (\<exists>risk. list_all (\<lambda>(s, w). \<exists>v. (s, Some v) \<in> set vols \<and> w * v = risk) (inverse_volatility_weights vols)))"
proof (intro conjI impI)
  have s: "size_all prices capital (inverse_volatility_weights vols) = Inr sizes"
    using assms(1) by (simp add: compute_position_sizes_def vols_def)
  have cost: "cost_of_sizes prices sizes \<le> capital * sum_list (map snd (inverse_volatility_weights vols))"
    "list_all (\<lambda>(_, z). 0 \<le> sz_shares z) sizes"
    using size_all_cost[OF s assms(2)] weights_facts(1)[of _ _ vols] by blast+
  have "capital * sum_list (map snd (inverse_volatility_weights vols)) \<le> capital"
    using mult_left_mono[OF weights_facts(2)[of vols] assms(2)] by simp
  then show "cost_of_sizes prices sizes \<le> capital" using cost(1) by linarith
  show "list_all (\<lambda>(_, z). 0 \<le> sz_shares z) sizes" by (rule cost(2))
  assume ne: "inverse_vols vols \<noteq> []"
  then show "sum_list (map snd (inverse_volatility_weights vols)) = 1" by (rule weights_facts(3))
  let ?t = "sum_list (map snd (inverse_vols vols))"
  have "\<exists>v. (s, Some v) \<in> set vols \<and> w * v = 1 / ?t" if "(s, w) \<in> set (inverse_volatility_weights vols)" for s w
    using that inverse_total_pos[OF ne]
    by (auto simp: inverse_volatility_weights_def Let_def inverse_vols_member)
  then show "\<exists>risk. list_all (\<lambda>(s, w). \<exists>v. (s, Some v) \<in> set vols \<and> w * v = risk) (inverse_volatility_weights vols)"
    by (intro exI[of _ "1 / ?t"]) (auto simp: list_all_iff)
qed

theorem position_sizes_within_capital_witness:
  "\<exists>sizes. compute_position_sizes None [(''A'', [Some 0, Some 2])] [(''A'', 30)] 100 = Inr sizes
     \<and> cost_of_sizes [(''A'', 30)] sizes \<le> 100"
proof -
  obtain sizes where "compute_position_sizes None [(''A'', [Some 0, Some 2])] [(''A'', 30)] 100 = Inr sizes"
    by (simp add: compute_position_sizes_def compute_volatility_def sample_std_def inverse_volatility_weights_def inverse_vols_def Let_def)
  then show ?thesis using position_sizes_within_capital by force
qed

end
