(* ===== verification/DailyJob.thy ===== *)
theory DailyJob
  imports StopLoss Sizing PaperAccount
begin

text \<open>
  The daily paper trading cycle (\<open>src/engine/paper_trading/daily_signal_job.py\<close>): one signal per strategy and
  trading day, cash strategies sized against the account's equity, option strategies traded leg by
  leg. The data lake, the sandbox that runs the strategy's code and the quotes are parameters. A trade is
  identified by its row.
\<close>

section \<open>Strategies and signals\<close>

record plan_leg =
  pl_symbol :: string
  pl_side :: leg_side
  pl_quantity :: int
  pl_option_type :: option_type
  pl_strike :: real

record strategy_version =
  sv_python_code :: string
  sv_option_legs :: "plan_leg list option"
  sv_option_expiry :: "int option"

record job_strategy = paper_strategy +
  js_current_version_id :: "nat option"

record backtest_outcome =
  bo_passed :: bool
  bo_entries_exits :: "(bool \<times> bool) list"
  bo_close_curve :: "real list"
  bo_error :: "string option"

datatype cycle_action = Traded side | NO_TRANSITION | SKIPPED | PARTIAL_FILL

record cycle_result =
  cr_strategy_id :: nat
  cr_action :: cycle_action
  cr_reason :: "message option"
  cr_trades :: "paper_trade list"

record job_env =
  je_today :: int
  je_now :: timestamp
  je_latest_date :: "string \<Rightarrow> int option"
  je_version :: "nat \<Rightarrow> strategy_version option"
  je_backtest :: "string \<Rightarrow> string list \<Rightarrow> int \<Rightarrow> int \<Rightarrow> backtest_outcome"
  je_broker_configured :: bool
  je_quote :: "string \<Rightarrow> broker_error + quote"
  je_error_text :: "paper_error \<Rightarrow> string"
  je_no_broker :: string

definition BACKTEST_LOOKBACK_DAYS :: int where "BACKTEST_LOOKBACK_DAYS = 730"

definition result_of :: "nat \<Rightarrow> cycle_action \<Rightarrow> message option \<Rightarrow> paper_trade list \<Rightarrow> cycle_result" where
  "result_of sid a why ts = \<lparr>cr_strategy_id = sid, cr_action = a, cr_reason = why, cr_trades = ts\<rparr>"

abbreviation skipped :: "nat \<Rightarrow> message \<Rightarrow> cycle_result" where
  "skipped sid why \<equiv> result_of sid SKIPPED (Some why) []"

text \<open>\<open>pct_change\<close> and \<open>dropna\<close>: a change from zero to zero is NaN and dropped, from zero to another price infinite.\<close>
fun pct_changes :: "real list \<Rightarrow> return_series" where
  "pct_changes (a # b # cs) =
    (if a \<noteq> 0 then [Some (b / a - 1)] else if b = 0 then [] else [None]) @ pct_changes (b # cs)"
| "pct_changes _ = []"

text \<open>What both kinds of strategy do first: the symbol, the date of the data, the version, the trades so far.\<close>
definition load_strategy :: "job_env \<Rightarrow> job_strategy \<Rightarrow> int \<Rightarrow> paper_trade list
    \<Rightarrow> cycle_result + (string \<times> int \<times> strategy_version \<times> (string, symbol_position) dict)" where
  "load_strategy je s not_after ledger =
    (let sid = pst_id s in
     case pst_universe s of
       [] \<Rightarrow> Inl (skipped sid [Lit ''strategy has no universe''])
     | symbol # _ \<Rightarrow>
        (case js_current_version_id s of
           None \<Rightarrow> Inl (skipped sid [Lit ''strategy has no current code version''])
         | Some vid \<Rightarrow>
            (case je_latest_date je symbol of
               None \<Rightarrow> Inl (skipped sid [Lit ''no historical data ingested for '', Sym symbol])
             | Some lake_latest \<Rightarrow>
                (case je_version je vid of
                   None \<Rightarrow> Inl (skipped sid [Lit ''current_version_id points at a missing row''])
                 | Some version \<Rightarrow>
                    Inr (symbol, min lake_latest not_after, version, fst (replay_ledger (trades_of_strategy sid ledger)))))))"

definition run_strategy :: "job_env \<Rightarrow> job_strategy \<Rightarrow> strategy_version \<Rightarrow> int \<Rightarrow> cycle_result + (bool \<times> bool) \<times> real list" where
  "run_strategy je s version date_to =
    (let outcome = je_backtest je (sv_python_code version) (pst_universe s) (date_to - BACKTEST_LOOKBACK_DAYS) date_to in
     if \<not> bo_passed outcome \<or> bo_entries_exits outcome = [] then
       Inl (skipped (pst_id s) [case bo_error outcome of
         Some e \<Rightarrow> if e = [] then Lit ''no entries_exits signal produced'' else Lit e
       | None \<Rightarrow> Lit ''no entries_exits signal produced''])
     else Inr (last (bo_entries_exits outcome), bo_close_curve outcome))"

section \<open>Cash strategies\<close>

definition net_in :: "(string, symbol_position) dict \<Rightarrow> string \<Rightarrow> int" where
  "net_in positions s = (case dict_get positions s of None \<Rightarrow> 0 | Some p \<Rightarrow> sp_net_quantity p)"

definition buy_quantity :: "string \<Rightarrow> real list \<Rightarrow> real \<Rightarrow> int" where
  "buy_quantity symbol closes total_capital =
    (case compute_position_sizes None [(symbol, pct_changes closes)] [(symbol, last closes)] total_capital of
       Inl _ \<Rightarrow> 0
     | Inr sizes \<Rightarrow> (case dict_get sizes symbol of None \<Rightarrow> 0 | Some z \<Rightarrow> sz_shares z))"

definition execute_cash :: "job_env \<Rightarrow> nat \<Rightarrow> nat \<Rightarrow> string \<Rightarrow> side \<Rightarrow> int \<Rightarrow> paper_trade list \<Rightarrow> cycle_result \<times> paper_trade list" where
  "execute_cash je account sid symbol action quantity ledger =
    (if \<not> je_broker_configured je then (skipped sid [Lit ''no broker configured: '', Lit (je_no_broker je)], ledger)
     else
      (case execute_paper_trade (je_quote je) (je_now je) symbol action quantity account (Some sid) EQUITY None None None ledger of
         (Inl e, ledger1) \<Rightarrow> (skipped sid [Lit ''execution failed: '', Lit (je_error_text je e)], ledger1)
       | (Inr trade, ledger1) \<Rightarrow> (result_of sid (Traded action) None [trade], ledger1)))"

definition process_cash :: "job_env \<Rightarrow> nat \<Rightarrow> real \<Rightarrow> int \<Rightarrow> job_strategy \<Rightarrow> paper_trade list \<Rightarrow> cycle_result \<times> paper_trade list" where
  "process_cash je account total_capital not_after s ledger =
    (let sid = pst_id s in
     case load_strategy je s not_after ledger of
       Inl r \<Rightarrow> (r, ledger)
     | Inr (symbol, date_to, version, positions) \<Rightarrow>
        (let currently_long = (net_in positions symbol > 0) in
         case run_strategy je s version date_to of
           Inl r \<Rightarrow> (r, ledger)
         | Inr ((entry, exit), closes) \<Rightarrow>
            if entry \<and> \<not> currently_long then
              (if length closes < 2 then (skipped sid [Lit ''not enough close history to size a trade''], ledger)
               else
                (let quantity = buy_quantity symbol closes total_capital in
                 if quantity \<le> 0 then (skipped sid [Lit ''computed position size was zero''], ledger)
                 else execute_cash je account sid symbol BUY quantity ledger))
            else if exit \<and> currently_long then execute_cash je account sid symbol SELL (net_in positions symbol) ledger
            else (result_of sid NO_TRANSITION None [], ledger)))"

section \<open>Option strategies\<close>

fun leg_order_side :: "side \<Rightarrow> leg_side \<Rightarrow> side" where
  "leg_order_side BUY leg_buy = BUY" | "leg_order_side BUY leg_sell = SELL"
| "leg_order_side SELL leg_buy = SELL" | "leg_order_side SELL leg_sell = BUY"

definition leg_open :: "(string, symbol_position) dict \<Rightarrow> plan_leg \<Rightarrow> bool" where
  "leg_open positions leg = (net_in positions (pl_symbol leg) \<noteq> 0)"

definition leg_order_quantity :: "side \<Rightarrow> (string, symbol_position) dict \<Rightarrow> plan_leg \<Rightarrow> int" where
  "leg_order_quantity intent positions leg =
    (if intent = BUY then pl_quantity leg
     else (case dict_get positions (pl_symbol leg) of Some p \<Rightarrow> \<bar>sp_net_quantity p\<bar> | None \<Rightarrow> pl_quantity leg))"

text \<open>The loop over the legs: what filled, what failed, and the ledger.\<close>
fun execute_legs ::
  "job_env \<Rightarrow> nat \<Rightarrow> nat \<Rightarrow> string \<Rightarrow> int \<Rightarrow> side \<Rightarrow> (string, symbol_position) dict \<Rightarrow> plan_leg list \<Rightarrow> paper_trade list
    \<Rightarrow> (paper_trade list \<times> message list) \<times> paper_trade list" where
  "execute_legs je account sid underlying expiry intent positions [] ledger = (([], []), ledger)"
| "execute_legs je account sid underlying expiry intent positions (leg # legs) ledger =
    (let quantity = leg_order_quantity intent positions leg in
     if quantity \<le> 0 then execute_legs je account sid underlying expiry intent positions legs ledger
     else
      (case execute_paper_trade (je_quote je) (je_now je) (pl_symbol leg) (leg_order_side intent (pl_side leg)) quantity account
              (Some sid) (OPT (pl_option_type leg)) (Some underlying) (Some (pl_strike leg)) (Some expiry) ledger of
         (Inl e, ledger1) \<Rightarrow>
           (case execute_legs je account sid underlying expiry intent positions legs ledger1 of
              ((filled, failed), ledger2) \<Rightarrow> ((filled, [Sym (pl_symbol leg), Lit '': '', Lit (je_error_text je e)] # failed), ledger2))
       | (Inr trade, ledger1) \<Rightarrow>
           (case execute_legs je account sid underlying expiry intent positions legs ledger1 of
              ((filled, failed), ledger2) \<Rightarrow> ((trade # filled, failed), ledger2))))"

definition fno_result :: "nat \<Rightarrow> side \<Rightarrow> paper_trade list \<times> message list \<Rightarrow> cycle_result" where
  "fno_result sid intent outcome =
    (case outcome of (filled, failed) \<Rightarrow>
      if filled = [] then skipped sid ([Lit ''all legs failed to execute: ''] @ join_messages [Lit ''; ''] failed)
      else if failed \<noteq> [] then
        result_of sid PARTIAL_FILL (Some ([Lit ''filled [''] @ join_messages [Lit '', ''] (map (\<lambda>t. [Lit [CHR 0x27], Sym (pt_symbol t), Lit [CHR 0x27]]) filled)
          @ [Lit '']; failed: ''] @ join_messages [Lit ''; ''] failed)) filled
      else result_of sid (Traded intent) None filled)"

definition process_fno :: "job_env \<Rightarrow> nat \<Rightarrow> int \<Rightarrow> job_strategy \<Rightarrow> paper_trade list \<Rightarrow> cycle_result \<times> paper_trade list" where
  "process_fno je account not_after s ledger =
    (let sid = pst_id s in
     case load_strategy je s not_after ledger of
       Inl r \<Rightarrow> (r, ledger)
     | Inr (underlying, date_to, version, positions) \<Rightarrow>
        (case (sv_option_legs version, sv_option_expiry version) of
           (Some (leg # others), Some expiry) \<Rightarrow>
            (let legs = leg # others in
             if expiry < je_today je then
               (skipped sid [Lit ''persisted option plan expired on '', Lit (iso_date expiry)], ledger)
             else
              (case run_strategy je s version date_to of
                 Inl r \<Rightarrow> (r, ledger)
               | Inr ((entry, exit), _) \<Rightarrow>
                  if entry \<and> \<not> list_all (leg_open positions) legs then
                    (if \<not> je_broker_configured je then (skipped sid [Lit ''no broker configured: '', Lit (je_no_broker je)], ledger)
                     else
                      (case execute_legs je account sid underlying expiry BUY positions (filter (\<lambda>l. \<not> leg_open positions l) legs) ledger of
                         (outcome, ledger1) \<Rightarrow> (fno_result sid BUY outcome, ledger1)))
                  else if exit \<and> list_ex (leg_open positions) legs then
                    (if \<not> je_broker_configured je then (skipped sid [Lit ''no broker configured: '', Lit (je_no_broker je)], ledger)
                     else
                      (case execute_legs je account sid underlying expiry SELL positions (filter (leg_open positions) legs) ledger of
                         (outcome, ledger1) \<Rightarrow> (fno_result sid SELL outcome, ledger1)))
                  else (result_of sid NO_TRANSITION None [], ledger)))
         | _ \<Rightarrow> (skipped sid [Lit ''no grounded option legs persisted for the current version''], ledger)))"

definition process_strategy :: "job_env \<Rightarrow> nat \<Rightarrow> real \<Rightarrow> int \<Rightarrow> job_strategy \<Rightarrow> paper_trade list \<Rightarrow> cycle_result \<times> paper_trade list" where
  "process_strategy je account total_capital not_after s ledger =
    (if pst_is_fno s then process_fno je account not_after s ledger
     else process_cash je account total_capital not_after s ledger)"

section \<open>The cycle\<close>

fun process_all :: "job_env \<Rightarrow> nat \<Rightarrow> real \<Rightarrow> int \<Rightarrow> job_strategy list \<Rightarrow> paper_trade list \<Rightarrow> cycle_result list \<times> paper_trade list" where
  "process_all je account capital not_after [] ledger = ([], ledger)"
| "process_all je account capital not_after (s # ss) ledger =
    (case process_strategy je account capital not_after s ledger of
       (r, ledger1) \<Rightarrow> (case process_all je account capital not_after ss ledger1 of (rs, ledger2) \<Rightarrow> (r # rs, ledger2)))"

text \<open>An exception (no seeded account) leaves the cycle.\<close>
definition run_daily_cycle ::
  "job_env \<Rightarrow> db \<Rightarrow> job_strategy list \<Rightarrow> kill_switch_service \<Rightarrow> kill_switch \<times> paper_db
    \<Rightarrow> (account_error + cycle_result list) \<times> kill_switch \<times> paper_db" where
  "run_daily_cycle je d strategies service st =
    (case st of (paper, pdb) \<Rightarrow>
      if is_trading_holiday (je_today je) then (Inr [], (paper, pdb))
      else if \<not> is_agent_enabled d ''paper_trading_engine'' then (Inr [], (paper, pdb))
      else
       (case get_paper_account pdb of
          Inl e \<Rightarrow> (Inl e, (paper, pdb))
        | Inr account \<Rightarrow>
           if strategies = [] then (Inr [], (paper, pdb))
           else if \<not> je_broker_configured je then (Inr [], (paper, pdb))
           else
            (case compute_account_equity (ac_id account) pdb (je_quote je) of
               Inl e \<Rightarrow> (Inl e, (paper, pdb))
             | Inr equity \<Rightarrow>
                (case update_and_check equity paper service of
                   (False, paper1) \<Rightarrow> (Inr [], (paper1, pdb))
                 | (True, paper1) \<Rightarrow>
                    (case process_all je (ac_id account) (equity / of_nat (length strategies))
                            (previous_trading_day (je_today je)) strategies (pd_trades pdb) of
                       (results, trades) \<Rightarrow> (Inr results, (paper1, pdb\<lparr>pd_trades := trades\<rparr>)))))))"

section \<open>What a cycle may do\<close>

lemma load_positions:
  assumes "load_strategy je s na ledger = Inr (symbol, dt, version, positions)"
  shows "net_in positions x = held (Some (pst_id s)) x ledger" and "symbol = hd (pst_universe s)"
proof -
  have p: "positions = fst (replay_ledger (trades_of_strategy (pst_id s) ledger))" and "symbol = hd (pst_universe s)"
    using assms by (auto simp: load_strategy_def Let_def split: list.splits option.splits)
  then show "symbol = hd (pst_universe s)" by simp
  show "net_in positions x = held (Some (pst_id s)) x ledger"
    using strategy_net[where sid = "pst_id s" and ledger = ledger and x = x] by (auto simp: net_in_def p split: option.splits)
qed

lemma load_skips: "load_strategy je s na ledger = Inl r \<Longrightarrow> cr_action r = SKIPPED \<and> cr_trades r = []"
  by (auto simp: load_strategy_def result_of_def Let_def split: list.splits option.splits)

lemma run_skips: "run_strategy je s v dt = Inl r \<Longrightarrow> cr_action r = SKIPPED \<and> cr_trades r = []"
  by (auto simp: run_strategy_def result_of_def Let_def split: if_splits)

lemma execute_cash_effect:
  assumes "execute_cash je account sid x sd q ledger = (r, ledger')" and "0 < q"
  shows "(ledger' = ledger \<and> cr_action r = SKIPPED \<and> cr_trades r = [])
    \<or> (\<exists>t. ledger' = ledger @ [t] \<and> cr_action r = Traded sd \<and> cr_trades r = [t] \<and> 0 < pt_filled_quantity t \<and> pt_filled_quantity t \<le> q
         \<and> held (Some sid) x ledger' = held (Some sid) x ledger + signed_quantity sd (pt_filled_quantity t))"
proof -
  obtain res l where x: "execute_paper_trade (je_quote je) (je_now je) x sd q account (Some sid) EQUITY None None None ledger = (res, l)"
    by fastforce
  show ?thesis
  proof (cases res)
    case (Inl e)
    then show ?thesis using assms(1) x paper_trade_row[OF x] by (auto simp: execute_cash_def result_of_def split: if_splits)
  next
    case (Inr t)
    then show ?thesis using assms x paper_trade_row[OF x] paper_fill_bound[OF x[unfolded Inr] assms(2)]
      by (auto simp: execute_cash_def result_of_def trade_qty_def split: if_splits)
  qed
qed

lemma process_cash_effect:
  assumes "process_cash je account capital na s ledger = (r, ledger')"
  shows "(ledger' = ledger \<and> cr_action r \<in> {SKIPPED, NO_TRANSITION} \<and> cr_trades r = [])
    \<or> (\<exists>t sd q. ledger' = ledger @ [t] \<and> cr_action r = Traded sd \<and> cr_trades r = [t] \<and> 0 < pt_filled_quantity t \<and> pt_filled_quantity t \<le> q
         \<and> held (Some (pst_id s)) (hd (pst_universe s)) ledger'
             = held (Some (pst_id s)) (hd (pst_universe s)) ledger + signed_quantity sd (pt_filled_quantity t)
         \<and> (sd = BUY \<and> held (Some (pst_id s)) (hd (pst_universe s)) ledger \<le> 0
            \<or> sd = SELL \<and> 0 < held (Some (pst_id s)) (hd (pst_universe s)) ledger \<and> q = held (Some (pst_id s)) (hd (pst_universe s)) ledger))"
proof (cases "load_strategy je s na ledger")
  case (Inl r')
  then show ?thesis using assms load_skips[OF Inl] by (auto simp: process_cash_def Let_def)
next
  case (Inr l)
  obtain symbol dt version positions where l: "load_strategy je s na ledger = Inr (symbol, dt, version, positions)"
    using Inr by (cases l) auto
  note pos = load_positions[OF l]
  show ?thesis
  proof (cases "run_strategy je s version dt")
    case (Inl r')
    then show ?thesis using assms l run_skips[OF Inl] by (auto simp: process_cash_def Let_def)
  next
    case (Inr z)
    obtain entry exit closes where z: "run_strategy je s version dt = Inr ((entry, exit), closes)"
      using Inr by (metis prod.collapse)
    let ?q = "buy_quantity symbol closes capital"
    consider (buy) "execute_cash je account (pst_id s) symbol BUY ?q ledger = (r, ledger')" "0 < ?q" "net_in positions symbol \<le> 0"
      | (sell) "execute_cash je account (pst_id s) symbol SELL (net_in positions symbol) ledger = (r, ledger')" "0 < net_in positions symbol"
      | (none) "ledger' = ledger" "cr_action r \<in> {SKIPPED, NO_TRANSITION}" "cr_trades r = []"
      using assms l z by (auto simp: process_cash_def result_of_def Let_def not_less not_le split: if_splits)
    then show ?thesis
    proof cases
      case buy
      from execute_cash_effect[OF buy(1,2)] buy(3) pos show ?thesis by auto
    next
      case sell
      from execute_cash_effect[OF sell(1,2)] sell(2) pos show ?thesis by auto
    qed blast
  qed
qed

text \<open>A cash strategy trades on a real transition and never goes short. In one daily step a strategy
  buys only when it holds nothing of its symbol, sells only when it is long and at most what it
  holds, and otherwise leaves the ledger alone; a strategy that was not short is not short after.\<close>
theorem cash_strategy_never_short:
  assumes "process_strategy je account capital na s ledger = (r, ledger')" and "\<not> pst_is_fno s"
  shows "let n = held (Some (pst_id s)) (hd (pst_universe s)) ledger; n' = held (Some (pst_id s)) (hd (pst_universe s)) ledger' in
    (case cr_action r of
       Traded BUY \<Rightarrow> n \<le> 0 \<and> n < n'
     | Traded SELL \<Rightarrow> 0 < n \<and> 0 \<le> n' \<and> n' < n
     | _ \<Rightarrow> ledger' = ledger)
    \<and> (0 \<le> n \<longrightarrow> 0 \<le> n')"
proof -
  have "process_cash je account capital na s ledger = (r, ledger')" using assms by (simp add: process_strategy_def)
  from process_cash_effect[OF this] show ?thesis by (auto simp: Let_def split: side.split)
qed

lemma execute_legs_trades:
  "execute_legs je account sid ul x intent positions legs ledger = ((filled, failed), ledger') \<Longrightarrow> ledger' = ledger @ filled"
proof (induction legs arbitrary: ledger filled failed ledger')
  case (Cons leg legs)
  show ?case
  proof (cases "leg_order_quantity intent positions leg \<le> 0")
    case True
    then show ?thesis using Cons by simp
  next
    case False
    obtain res l where e: "execute_paper_trade (je_quote je) (je_now je) (pl_symbol leg) (leg_order_side intent (pl_side leg))
        (leg_order_quantity intent positions leg) account (Some sid) (OPT (pl_option_type leg)) (Some ul) (Some (pl_strike leg)) (Some x) ledger
        = (res, l)" by fastforce
    obtain fl fd l2 where rest: "execute_legs je account sid ul x intent positions legs l = ((fl, fd), l2)" using prod.exhaust by metis
    show ?thesis using Cons.prems Cons.IH[OF rest] paper_trade_row[OF e] False rest
      by (cases res) (auto simp: e Let_def)
  qed
qed simp

lemma fno_result_trades: "cr_trades (fno_result sid intent (filled, failed)) = filled
    \<and> (cr_action (fno_result sid intent (filled, failed)) \<in> {SKIPPED, NO_TRANSITION} \<longleftrightarrow> filled = [])"
  by (simp add: fno_result_def result_of_def)

lemma process_fno_effect:
  assumes "process_fno je account na s ledger = (r, ledger')"
  shows "ledger' = ledger @ cr_trades r \<and> (cr_action r \<in> {SKIPPED, NO_TRANSITION} \<longleftrightarrow> cr_trades r = [])"
proof (cases "load_strategy je s na ledger")
  case (Inl r')
  then show ?thesis using assms load_skips[OF Inl] by (auto simp: process_fno_def Let_def)
next
  case (Inr l)
  obtain ul dt version positions where l: "load_strategy je s na ledger = Inr (ul, dt, version, positions)"
    using Inr by (cases l) auto
  have legs: "ledger' = ledger @ cr_trades r \<and> (cr_action r \<in> {SKIPPED, NO_TRANSITION} \<longleftrightarrow> cr_trades r = [])"
    if "(case execute_legs je account sid ul x intent positions ls ledger of (outcome, ledger1) \<Rightarrow> (fno_result sid intent outcome, ledger1))
      = (r, ledger')" for sid x intent ls
  proof -
    obtain filled failed l2 where e: "execute_legs je account sid ul x intent positions ls ledger = ((filled, failed), l2)"
      using prod.exhaust by metis
    then show ?thesis using that execute_legs_trades[OF e] fno_result_trades[of sid intent filled failed] by auto
  qed
  have skip: "ledger' = ledger @ cr_trades r \<and> (cr_action r \<in> {SKIPPED, NO_TRANSITION} \<longleftrightarrow> cr_trades r = [])"
    if "(result_of sid a why [], ledger) = (r, ledger')" "a \<in> {SKIPPED, NO_TRANSITION}" for sid a why
    using that by (auto simp: result_of_def)
  show ?thesis
  proof (cases "run_strategy je s version dt")
    case (Inl r')
    then show ?thesis using assms l run_skips[OF Inl]
      by (auto simp: process_fno_def Let_def result_of_def split: option.splits list.splits if_splits)
  next
    case (Inr z)
    obtain entry exit closes where z: "run_strategy je s version dt = Inr ((entry, exit), closes)"
      using Inr by (metis prod.collapse)
    show ?thesis
    proof (cases "\<exists>leg others x. sv_option_legs version = Some (leg # others) \<and> sv_option_expiry version = Some x \<and> \<not> x < je_today je")
      case False
      then show ?thesis using assms l
        by (auto simp: process_fno_def Let_def result_of_def split: option.splits list.splits if_splits)
    next
      case True
      then obtain leg others x where v: "sv_option_legs version = Some (leg # others)" "sv_option_expiry version = Some x" "\<not> x < je_today je"
        by blast
      have "(if entry \<and> \<not> list_all (leg_open positions) (leg # others) then
          (if \<not> je_broker_configured je then (skipped (pst_id s) [Lit ''no broker configured: '', Lit (je_no_broker je)], ledger)
           else (case execute_legs je account (pst_id s) ul x BUY positions (filter (\<lambda>l. \<not> leg_open positions l) (leg # others)) ledger of
                  (outcome, ledger1) \<Rightarrow> (fno_result (pst_id s) BUY outcome, ledger1)))
        else if exit \<and> list_ex (leg_open positions) (leg # others) then
          (if \<not> je_broker_configured je then (skipped (pst_id s) [Lit ''no broker configured: '', Lit (je_no_broker je)], ledger)
           else (case execute_legs je account (pst_id s) ul x SELL positions (filter (leg_open positions) (leg # others)) ledger of
                  (outcome, ledger1) \<Rightarrow> (fno_result (pst_id s) SELL outcome, ledger1)))
        else (result_of (pst_id s) NO_TRANSITION None [], ledger)) = (r, ledger')"
        using assms v(3) unfolding process_fno_def Let_def l sum.case prod.case v(1,2) option.case list.case z by simp
      then show ?thesis by (simp only: split: if_splits) ((rule legs, assumption) | (rule skip, assumption, simp))+
    qed
  qed
qed

lemma process_strategy_trades:
  assumes "process_strategy je account capital na s ledger = (r, ledger')"
  shows "ledger' = ledger @ cr_trades r \<and> (cr_action r \<in> {SKIPPED, NO_TRANSITION} \<longleftrightarrow> cr_trades r = [])"
proof (cases "pst_is_fno s")
  case True
  then show ?thesis using assms process_fno_effect by (simp add: process_strategy_def)
next
  case False
  then have "process_cash je account capital na s ledger = (r, ledger')" using assms by (simp add: process_strategy_def)
  from process_cash_effect[OF this] show ?thesis by auto
qed

lemma process_all_trades:
  "process_all je account capital na ss ledger = (rs, ledger') \<Longrightarrow> ledger' = ledger @ concat (map cr_trades rs)
     \<and> list_all (\<lambda>r. cr_action r \<in> {SKIPPED, NO_TRANSITION} \<longleftrightarrow> cr_trades r = []) rs"
proof (induction ss arbitrary: ledger rs)
  case (Cons s ss)
  obtain r l where r: "process_strategy je account capital na s ledger = (r, l)" by fastforce
  obtain rs' l2 where rest: "process_all je account capital na ss l = (rs', l2)" by fastforce
  show ?case using Cons.prems Cons.IH[of l rs'] process_strategy_trades[OF r] r rest by auto
qed simp

definition cycle_halted :: "job_env \<Rightarrow> db \<Rightarrow> kill_switch_service \<Rightarrow> kill_switch \<Rightarrow> bool" where
  "cycle_halted je d service paper \<longleftrightarrow> is_trading_holiday (je_today je) \<or> \<not> is_agent_enabled d ''paper_trading_engine''
     \<or> is_tripped service \<or> ks_triggered paper \<or> \<not> je_broker_configured je"

text \<open>The daily cycle accounts for every trade and respects every stop. The ledger after a cycle is the
  ledger before followed by exactly the trades the results report, and a result reported as skipped
  or without transition reports none, partial fills of a spread included. On a holiday, with the
  engine switched off, without a broker, or with either kill switch tripped, nothing is traded.\<close>
theorem daily_cycle_accounts_for_trades:
  "case run_daily_cycle je d ss service (paper, pdb) of (res, (paper', pdb')) \<Rightarrow>
    (case res of
       Inl _ \<Rightarrow> pd_trades pdb' = pd_trades pdb
     | Inr rs \<Rightarrow> pd_trades pdb' = pd_trades pdb @ concat (map cr_trades rs)
         \<and> list_all (\<lambda>r. cr_action r \<in> {SKIPPED, NO_TRANSITION} \<longleftrightarrow> cr_trades r = []) rs)
    \<and> (cycle_halted je d service paper \<longrightarrow> pd_trades pdb' = pd_trades pdb)"
proof -
  have halt: "\<not> is_tripped service \<and> \<not> ks_triggered paper" if "update_and_check e paper service = (True, p1)" for e p1
    using that by (auto simp: update_and_check_def is_paper_trading_halted_def Let_def)
  show ?thesis
    using process_all_trades
    by (auto simp: run_daily_cycle_def cycle_halted_def Let_def dest!: halt split: sum.split prod.split bool.split)
qed

section \<open>A concrete cycle\<close>

definition job_trade :: "int \<Rightarrow> paper_trade" where
  "job_trade q = (sample_trade BUY q 100)\<lparr>pt_symbol := ''S'', pt_strategy_id := Some 2\<rparr>"

definition sample_job :: job_env where
  "sample_job = \<lparr>je_today = 19675, je_now = 0, je_latest_date = (\<lambda>_. Some 19000),
     je_version = (\<lambda>_. Some \<lparr>sv_python_code = ''c'', sv_option_legs = None, sv_option_expiry = None\<rparr>),
     je_backtest = (\<lambda>_ _ _ _. \<lparr>bo_passed = True, bo_entries_exits = [(False, True)], bo_close_curve = [], bo_error = None\<rparr>),
     je_broker_configured = True, je_quote = (\<lambda>s. Inr \<lparr>qt_symbol = s, qt_last_price = 100,
       qt_buy_depth = [\<lparr>dl_price = 100, dl_quantity = 4, dl_orders = 1\<rparr>], qt_sell_depth = []\<rparr>),
     je_error_text = (\<lambda>_. ''e''), je_no_broker = ''n''\<rparr>"

definition sample_job_strategy :: job_strategy where
  "sample_job_strategy = \<lparr>pst_id = 2, pst_universe = [''S''], pst_is_fno = False, pst_max_drawdown_limit = 15, js_current_version_id = Some 3\<rparr>"

lemma sample_job_sells:
  "\<exists>t. process_strategy sample_job 1 100 19670 sample_job_strategy [job_trade 10]
     = (result_of 2 (Traded SELL) None [t], [job_trade 10, t])"
proof -
  have load: "load_strategy sample_job sample_job_strategy 19670 [job_trade 10]
      = Inr (''S'', 19000, \<lparr>sv_python_code = ''c'', sv_option_legs = None, sv_option_expiry = None\<rparr>, fst (replay_ledger [job_trade 10]))"
    by (simp add: load_strategy_def sample_job_def sample_job_strategy_def trades_of_strategy_def job_trade_def sample_trade_def)
  have net: "net_in (fst (replay_ledger [job_trade 10])) ''S'' = 10"
    by (simp add: net_in_def job_trade_def sample_trade_def replay_ledger_def replay_step_def apply_fill_def trade_qty_def
        dict_get_default_def new_position_def Let_def)
  have run: "run_strategy sample_job sample_job_strategy v dt = Inr ((False, True), [])" for v dt
    by (simp add: run_strategy_def sample_job_def)
  have quote: "simulate_fill SELL 10 [\<lparr>dl_price = 100, dl_quantity = 4, dl_orders = 1\<rparr>]
      = Inr \<lparr>fr_filled_quantity = 4, fr_average_fill_price = Some 100, fr_slippage_bps = Some 0, fr_fully_filled = False\<rparr>"
    by (simp add: simulate_fill_def start_walk_def Let_def)
  have cash: "\<exists>t. execute_cash sample_job 1 2 ''S'' SELL 10 l = (result_of 2 (Traded SELL) None [t], l @ [t])" for l
    by (simp add: execute_cash_def sample_job_def execute_paper_trade_def quote Let_def)
  have "process_strategy sample_job 1 100 19670 sample_job_strategy [job_trade 10]
      = execute_cash sample_job 1 2 ''S'' SELL 10 [job_trade 10]"
    by (simp add: process_strategy_def process_cash_def load run net Let_def) (simp add: sample_job_strategy_def)
  then show ?thesis using cash[of "[job_trade 10]"] by simp
qed

theorem cash_strategy_never_short_witness:
  "\<exists>r ledger'. process_strategy sample_job 1 100 19670 sample_job_strategy [job_trade 10] = (r, ledger')
     \<and> cr_action r = Traded SELL \<and> 0 \<le> held (Some 2) ''S'' ledger' \<and> held (Some 2) ''S'' ledger' < held (Some 2) ''S'' [job_trade 10]"
proof -
  obtain t where t: "process_strategy sample_job 1 100 19670 sample_job_strategy [job_trade 10]
      = (result_of 2 (Traded SELL) None [t], [job_trade 10, t])" using sample_job_sells by blast
  have "\<not> pst_is_fno sample_job_strategy" "pst_id sample_job_strategy = 2" "hd (pst_universe sample_job_strategy) = ''S''"
    by (simp_all add: sample_job_strategy_def)
  then show ?thesis using cash_strategy_never_short[OF t] t by (simp add: result_of_def Let_def)
qed

theorem daily_cycle_accounts_for_trades_witness:
  "pd_trades (snd (snd (run_daily_cycle sample_job empty_db [sample_job_strategy] new_service
      (ks_trip (new_kill_switch 1), \<lparr>pd_accounts = [], pd_trades = [job_trade 10], pd_snapshots = []\<rparr>)))) = [job_trade 10]"
proof -
  let ?c = "run_daily_cycle sample_job empty_db [sample_job_strategy] new_service
      (ks_trip (new_kill_switch 1), \<lparr>pd_accounts = [], pd_trades = [job_trade 10], pd_snapshots = []\<rparr>)"
  obtain res p db where c: "?c = (res, (p, db))" using prod.exhaust by metis
  have "cycle_halted sample_job empty_db new_service (ks_trip (new_kill_switch 1))" by (simp add: cycle_halted_def ks_trip_def)
  then show ?thesis
    using daily_cycle_accounts_for_trades[where je = sample_job and d = empty_db and ss = "[sample_job_strategy]" and service = new_service
        and paper = "ks_trip (new_kill_switch 1)" and pdb = "\<lparr>pd_accounts = [], pd_trades = [job_trade 10], pd_snapshots = []\<rparr>"]
    by (simp add: c)
qed

end
