(* ===== verification/GoLive.thy ===== *)
theory GoLive
  imports Ledger PyText
begin

text \<open>
  The readiness gate before live trading (\<open>src/engine/go_live_gate.py\<close>) and the daily summary of the shadow
  mode ledger it reads (\<open>src/engine/shadow_mode_status.py\<close>). A date is a day number; the code keys its days
  by their ISO form, which sorts alike for years of four digits.
\<close>

section \<open>Shadow mode days\<close>

record shadow_mode_attempt =
  sh_outcome :: string
  sh_attempted_at :: int

record daily_cleanliness =
  dc_date :: int
  dc_attempts :: nat
  dc_errors :: nat
  dc_clean :: bool

definition attempt_day :: "shadow_mode_attempt \<Rightarrow> int" where
  "attempt_day r = date_of (sh_attempted_at r)"

definition day_summary :: "shadow_mode_attempt list \<Rightarrow> int \<Rightarrow> daily_cleanliness" where
  "day_summary rows day =
    (let day_rows = filter (\<lambda>r. attempt_day r = day) rows in
     \<lparr>dc_date = day, dc_attempts = length day_rows,
      dc_errors = length (filter (\<lambda>r. sh_outcome r = ''Error'') day_rows),
      dc_clean = list_all (\<lambda>r. sh_outcome r = ''Validated'') day_rows\<rparr>)"

definition compute_daily_summary :: "shadow_mode_attempt list \<Rightarrow> daily_cleanliness list" where
  "compute_daily_summary rows = map (day_summary rows) (sort (remdups (map attempt_day rows)))"

fun count_clean :: "daily_cleanliness list \<Rightarrow> nat" where
  "count_clean [] = 0"
| "count_clean (day # days) = (if dc_clean day then Suc (count_clean days) else 0)"

definition consecutive_clean_days :: "daily_cleanliness list \<Rightarrow> nat" where
  "consecutive_clean_days daily_summary = count_clean (rev daily_summary)"

lemma count_clean_takeWhile: "count_clean ds = length (takeWhile dc_clean ds)"
  by (induction ds) simp_all

section \<open>The gate\<close>

definition MIN_TRADE_COUNT :: nat where "MIN_TRADE_COUNT = 30"
definition MIN_CALENDAR_DAYS :: int where "MIN_CALENDAR_DAYS = 21"
definition MIN_CLEAN_DAYS :: nat where "MIN_CLEAN_DAYS = 10"
definition WIN_RATE_DIVERGENCE_TOLERANCE :: real where "WIN_RATE_DIVERGENCE_TOLERANCE = 20 / 100"

record gate_condition =
  gc_label :: string
  gc_met :: bool
  gc_detail :: message

record go_live_readiness =
  gr_strategy_id :: nat
  gr_gate_met :: bool
  gr_conditions :: "gate_condition list"

record backtest_result =
  bt_strategy_version_id :: nat
  bt_win_rate :: "real option"
  bt_created_at :: int

definition trade_count_condition :: "paper_trade list \<Rightarrow> gate_condition" where
  "trade_count_condition trades =
    (let count = length (filter (\<lambda>t. pt_filled_quantity t > 0) trades) in
     \<lparr>gc_label = ''Minimum trade count'', gc_met = (count \<ge> MIN_TRADE_COUNT),
      gc_detail = [Num (int count), Lit ''/'', Num (int MIN_TRADE_COUNT), Lit '' filled paper trades'']\<rparr>)"

definition calendar_span_condition :: "paper_trade list \<Rightarrow> gate_condition" where
  "calendar_span_condition trades =
    (if trades = [] then
       \<lparr>gc_label = ''Minimum calendar span'', gc_met = False,
        gc_detail = [Lit ''0/'', Num MIN_CALENDAR_DAYS, Lit '' days -- no paper trades recorded yet'']\<rparr>
     else
       (let span_days = date_of (pt_executed_at (last trades)) - date_of (pt_executed_at (hd trades)) in
        \<lparr>gc_label = ''Minimum calendar span'', gc_met = (span_days \<ge> MIN_CALENDAR_DAYS),
         gc_detail = [Num span_days, Lit ''/'', Num MIN_CALENDAR_DAYS,
           Lit '' days between first and most recent paper trade'']\<rparr>))"

definition shadow_mode_condition :: "shadow_mode_attempt list \<Rightarrow> gate_condition" where
  "shadow_mode_condition attempts =
    (let streak = consecutive_clean_days (compute_daily_summary (sort_key sh_attempted_at attempts)) in
     \<lparr>gc_label = ''Shadow Mode clean streak'', gc_met = (streak \<ge> MIN_CLEAN_DAYS),
      gc_detail = [Num (int streak), Lit ''/'', Num (int MIN_CLEAN_DAYS), Lit '' consecutive clean broker-validation days'']\<rparr>)"

definition latest_backtest :: "nat \<Rightarrow> backtest_result list \<Rightarrow> backtest_result option" where
  "latest_backtest version backtests =
    (case sort_key (\<lambda>b. - bt_created_at b) (filter (\<lambda>b. bt_strategy_version_id b = version) backtests) of
       [] \<Rightarrow> None | b # _ \<Rightarrow> Some b)"

definition live_win_rate :: "realized_close list \<Rightarrow> real" where
  "live_win_rate closes = of_nat (length (filter (\<lambda>c. rc_pnl c > 0) closes)) / of_nat (length closes)"

definition performance_divergence_condition ::
  "nat option \<Rightarrow> backtest_result list \<Rightarrow> paper_trade list \<Rightarrow> gate_condition" where
  "performance_divergence_condition version backtests trades =
    (let lbl = ''Live vs. backtest win-rate divergence''; closes = snd (replay_ledger trades);
         missing = (\<lambda>why. \<lparr>gc_label = lbl, gc_met = False, gc_detail = [Lit why]\<rparr>)
     in if closes = [] then missing ''No realized (closed) paper trades yet -- nothing to compare against the backtest''
     else case version of
       None \<Rightarrow> missing ''Strategy has no current version -- no backtest to compare against''
     | Some v \<Rightarrow>
        (case latest_backtest v backtests of
           None \<Rightarrow> missing ''No backtest win rate on file for the strategy's current version''
         | Some b \<Rightarrow>
            (case bt_win_rate b of
               None \<Rightarrow> missing ''No backtest win rate on file for the strategy's current version''
             | Some bw \<Rightarrow>
                (let live = live_win_rate closes; divergence = \<bar>live - bw\<bar> in
                 \<lparr>gc_label = lbl, gc_met = (divergence \<le> WIN_RATE_DIVERGENCE_TOLERANCE),
                  gc_detail = [Lit ''live '', Flt ''.1%'' live, Lit '' vs. backtest '', Flt ''.1%'' bw, Lit '' (divergence '',
                    Flt ''.1%'' divergence, Lit '', tolerance '', Flt ''.0%'' WIN_RATE_DIVERGENCE_TOLERANCE, Lit '')'']\<rparr>))))"

definition compute_readiness ::
  "nat \<Rightarrow> nat option \<Rightarrow> paper_trade list \<Rightarrow> shadow_mode_attempt list \<Rightarrow> backtest_result list \<Rightarrow> go_live_readiness" where
  "compute_readiness strategy_id version ledger attempts backtests =
    (let trades = sort_key pt_executed_at (filter (\<lambda>t. pt_strategy_id t = Some strategy_id) ledger);
         conditions = [trade_count_condition trades, calendar_span_condition trades, shadow_mode_condition attempts,
           performance_divergence_condition version backtests trades]
     in \<lparr>gr_strategy_id = strategy_id, gr_gate_met = list_all gc_met conditions, gr_conditions = conditions\<rparr>)"

section \<open>What the gate means\<close>

lemma performance_met:
  "gc_met (performance_divergence_condition version backtests trades) \<longleftrightarrow> snd (replay_ledger trades) \<noteq> []
     \<and> (\<exists>v b bw. version = Some v \<and> latest_backtest v backtests = Some b \<and> bt_win_rate b = Some bw
          \<and> \<bar>live_win_rate (snd (replay_ledger trades)) - bw\<bar> \<le> 20 / 100)"
  by (auto simp: performance_divergence_condition_def WIN_RATE_DIVERGENCE_TOLERANCE_def Let_def split: option.split)

lemma summary_insert_order: "set rows = set rows' \<Longrightarrow> sort (remdups (map attempt_day rows)) = sort (remdups (map attempt_day rows'))"
  by (rule sorted_distinct_set_unique) simp_all

lemma day_clean_iff: "dc_clean (day_summary rows day) \<longleftrightarrow> (\<forall>r \<in> set rows. attempt_day r = day \<longrightarrow> sh_outcome r = ''Validated'')"
  by (auto simp: day_summary_def list_all_iff)

text \<open>The days, latest last, on which every attempt was validated, up to the last one that was not.\<close>
definition clean_tail :: "shadow_mode_attempt list \<Rightarrow> int list" where
  "clean_tail rows = takeWhile (\<lambda>day. \<forall>r \<in> set rows. attempt_day r = day \<longrightarrow> sh_outcome r = ''Validated'')
     (rev (sort (remdups (map attempt_day rows))))"

lemma streak_clean_tail: "consecutive_clean_days (compute_daily_summary rows) = length (clean_tail rows)"
  by (simp add: consecutive_clean_days_def count_clean_takeWhile compute_daily_summary_def clean_tail_def
      rev_map takeWhile_map comp_def day_clean_iff)

text \<open>C39. The go-live gate in one sentence. A strategy is ready exactly when it has at least thirty filled
  paper trades, at least twenty-one days lie between its first and its last trade, the last ten
  recorded days of shadow mode are clean, and its live win rate lies within twenty points of the
  latest backtest of its current version, all four present.\<close>
theorem go_live_gate_exact:
  "gr_gate_met (compute_readiness sid version ledger attempts backtests) \<longleftrightarrow>
    (let trades = sort_key pt_executed_at (filter (\<lambda>t. pt_strategy_id t = Some sid) ledger); closes = snd (replay_ledger trades) in
      30 \<le> length (filter (\<lambda>t. pt_filled_quantity t > 0) trades)
      \<and> trades \<noteq> [] \<and> 21 \<le> date_of (pt_executed_at (last trades)) - date_of (pt_executed_at (hd trades))
      \<and> 10 \<le> length (clean_tail attempts)
      \<and> closes \<noteq> [] \<and> (\<exists>v b bw. version = Some v \<and> latest_backtest v backtests = Some b \<and> bt_win_rate b = Some bw
           \<and> \<bar>live_win_rate closes - bw\<bar> \<le> 20 / 100))"
proof -
  have "clean_tail (sort_key sh_attempted_at attempts) = clean_tail attempts"
    using summary_insert_order[of "sort_key sh_attempted_at attempts" attempts] by (simp add: clean_tail_def)
  then have shadow: "gc_met (shadow_mode_condition attempts) \<longleftrightarrow> 10 \<le> length (clean_tail attempts)"
    by (simp add: shadow_mode_condition_def Let_def MIN_CLEAN_DAYS_def streak_clean_tail)
  show ?thesis
    by (simp add: compute_readiness_def Let_def shadow performance_met trade_count_condition_def calendar_span_condition_def
        MIN_TRADE_COUNT_def MIN_CALENDAR_DAYS_def)
qed

text \<open>A clean streak need not be of consecutive days. The streak counts recorded days only: moving the
  attempts to any other days in the same order, however far apart, leaves it as it was, so ten clean
  days scattered over a year pass for ten consecutive ones.\<close>
theorem clean_streak_ignores_gaps:
  assumes "strict_mono f"
    and "\<forall>r. attempt_day (move r) = f (attempt_day r) \<and> sh_outcome (move r) = sh_outcome r"
  shows "consecutive_clean_days (compute_daily_summary (map move rows)) = consecutive_clean_days (compute_daily_summary rows)"
proof -
  have inj: "inj f" using assms(1) by (rule strict_mono_imp_inj_on)
  have day: "attempt_day \<circ> move = f \<circ> attempt_day" using assms(2) by auto
  have "sort (remdups (map attempt_day (map move rows))) = map f (sort (remdups (map attempt_day rows)))"
  proof (rule sorted_distinct_set_unique)
    show "sorted (map f (sort (remdups (map attempt_day rows))))"
      using assms(1) by (intro sorted_map_mono) (simp_all add: mono_on_def strict_mono_less_eq)
    show "distinct (map f (sort (remdups (map attempt_day rows))))"
      using inj by (simp add: distinct_map inj_on_def inj_def)
  qed (use day in \<open>auto simp: image_comp\<close>)
  moreover have "(\<forall>r \<in> set (map move rows). attempt_day r = f d \<longrightarrow> sh_outcome r = ''Validated'')
      \<longleftrightarrow> (\<forall>r \<in> set rows. attempt_day r = d \<longrightarrow> sh_outcome r = ''Validated'')" for d
    using assms(2) inj by (auto simp: inj_eq)
  ultimately show ?thesis
    by (simp add: streak_clean_tail clean_tail_def rev_map takeWhile_map comp_def)
qed

theorem clean_streak_ignores_gaps_witness:
  "consecutive_clean_days (compute_daily_summary (map (\<lambda>r. r\<lparr>sh_attempted_at := 30 * us_per_day * date_of (sh_attempted_at r)\<rparr>)
      [\<lparr>sh_outcome = ''Validated'', sh_attempted_at = 0\<rparr>, \<lparr>sh_outcome = ''Validated'', sh_attempted_at = us_per_day\<rparr>])) = 2"
proof -
  let ?move = "\<lambda>r::shadow_mode_attempt. r\<lparr>sh_attempted_at := 30 * us_per_day * date_of (sh_attempted_at r)\<rparr>"
  let ?rows = "[\<lparr>sh_outcome = ''Validated'', sh_attempted_at = 0\<rparr>, \<lparr>sh_outcome = ''Validated'', sh_attempted_at = us_per_day\<rparr>]"
  have "strict_mono (\<lambda>d::int. 30 * d)" by (simp add: strict_mono_def)
  moreover have "\<forall>r. attempt_day (?move r) = 30 * attempt_day r \<and> sh_outcome (?move r) = sh_outcome r"
    by (simp add: attempt_day_def date_of_def us_per_day_def)
  ultimately have "consecutive_clean_days (compute_daily_summary (map ?move ?rows)) = consecutive_clean_days (compute_daily_summary ?rows)"
    by (rule clean_streak_ignores_gaps)
  also have "\<dots> = 2"
    by (simp add: compute_daily_summary_def attempt_day_def date_of_def us_per_day_def day_summary_def consecutive_clean_days_def)
  finally show ?thesis .
qed

end
