(* ===== verification/PyParse.thy ===== *)
theory PyParse
  imports Calendar
begin

text \<open>
  Reading back what \<open>PyText\<close> prints: \<open>int(s, base)\<close>, \<open>uuid.UUID(s)\<close> and \<open>date.fromisoformat\<close>, on the canonical forms
  the program itself writes (no braces, no week dates), and the proof that each inverts its printer.
\<close>

section \<open>A printer and its reader\<close>

text \<open>The interface a serialised field relies on. \<open>good\<close> are the values the program can hold.\<close>
locale text_codec =
  fixes printer :: "'a \<Rightarrow> string" and reader :: "string \<Rightarrow> 'a option" and good :: "'a \<Rightarrow> bool"
  assumes reads_back: "good x \<Longrightarrow> reader (printer x) = Some x"
    and printer_nonempty: "good x \<Longrightarrow> printer x \<noteq> []"
begin

lemma printer_injective: "good x \<Longrightarrow> good y \<Longrightarrow> printer x = printer y \<longleftrightarrow> x = y"
  by (metis option.inject reads_back)

lemma reads_back_all: "list_all good xs \<Longrightarrow> map reader (map printer xs) = map Some xs"
  by (induction xs) (simp_all add: reads_back)

end

section \<open>Numbers\<close>

definition digit_value :: "char \<Rightarrow> nat option" where
  "digit_value c =
    (let n = of_char c in
     if 48 \<le> n \<and> n \<le> 57 then Some (n - 48) else if 97 \<le> n \<and> n \<le> 102 then Some (n - 87)
     else if 65 \<le> n \<and> n \<le> 70 then Some (n - 55) else None)"

fun read_digits :: "nat \<Rightarrow> nat \<Rightarrow> string \<Rightarrow> nat option" where
  "read_digits b acc [] = Some acc"
| "read_digits b acc (c # cs) =
    (case digit_value c of None \<Rightarrow> None | Some d \<Rightarrow> if d < b then read_digits b (acc * b + d) cs else None)"

definition read_base :: "nat \<Rightarrow> string \<Rightarrow> nat option" where
  "read_base b s = (if s = [] then None else read_digits b 0 s)"

lemma digit_value_digit [simp]: "d < 16 \<Longrightarrow> digit_value (digit d) = Some d"
  by (simp add: digit_value_def digit_def)

lemma digit_value_zero [simp]: "digit_value (CHR ''0'') = Some 0"
  by (simp add: digit_value_def)

lemma digit_not_dash: "d < 16 \<Longrightarrow> digit d \<noteq> CHR ''-''"
  using digit_value_digit[of d] by (auto simp: digit_value_def)

lemma read_digits_append:
  "read_digits b acc (xs @ ys) = (case read_digits b acc xs of None \<Rightarrow> None | Some a \<Rightarrow> read_digits b a ys)"
  by (induction xs arbitrary: acc) (auto split: option.split)

lemma read_digits_show: "2 \<le> b \<Longrightarrow> b \<le> 16 \<Longrightarrow> read_digits b 0 (show_base b n) = Some n"
proof (induction b n rule: show_base.induct)
  case (1 b n)
  show ?case
  proof (cases "n < b")
    case False
    then have "read_digits b 0 (show_base b (n div b)) = Some (n div b)" using 1 by simp
    moreover have "show_base b n = show_base b (n div b) @ [digit (n mod b)]" using 1 False by (subst show_base.simps) simp
    moreover have "digit_value (digit (n mod b)) = Some (n mod b)"
      by (rule digit_value_digit, rule less_le_trans[of _ b]) (use 1 in simp_all)
    ultimately show ?thesis using 1 by (simp add: read_digits_append)
  qed (use 1 in \<open>simp add: show_base.simps\<close>)
qed

lemma read_digits_pad: "2 \<le> b \<Longrightarrow> read_digits b 0 (pad_left w s) = read_digits b 0 s"
proof -
  assume "2 \<le> b"
  then have "read_digits b 0 (replicate k (CHR ''0'') @ s) = read_digits b 0 s" for k by (induction k) simp_all
  then show ?thesis by (simp add: pad_left_def)
qed

lemma show_base_nonempty [simp]: "show_base b n \<noteq> []" by (subst show_base.simps) simp

lemma read_base_pad:
  assumes "2 \<le> b" "b \<le> 16" shows "read_base b (pad_left w (show_base b n)) = Some n"
  using assms by (simp add: read_base_def read_digits_pad read_digits_show) (simp add: pad_left_def)

lemma length_show_base: "2 \<le> b \<Longrightarrow> n < b ^ k \<Longrightarrow> 0 < k \<Longrightarrow> length (show_base b n) \<le> k"
proof (induction b n arbitrary: k rule: show_base.induct)
  case (1 b n)
  show ?case
  proof (cases "n < b")
    case False
    obtain j where k: "k = Suc j" using 1 by (cases k) auto
    moreover have "0 < j" using 1 False k by (cases j) auto
    ultimately have j: "k = Suc j" "0 < j" by simp_all
    then have "n div b < b ^ j" using 1 by (simp add: less_mult_imp_div_less mult.commute)
    then have "length (show_base b (n div b)) \<le> j" using 1 False j by simp
    then show ?thesis using 1 False j by (subst show_base.simps) simp
  qed (use 1 in \<open>simp add: show_base.simps\<close>)
qed

lemma show_base_digits: "2 \<le> b \<Longrightarrow> b \<le> 16 \<Longrightarrow> CHR ''-'' \<notin> set (show_base b n)"
proof (induction b n rule: show_base.induct)
  case (1 b n)
  have "n mod b < 16" using 1 by (simp add: less_le_trans[of _ b])
  then show ?case using 1 digit_not_dash[of n] digit_not_dash[of "n mod b"] by (subst show_base.simps) auto
qed

section \<open>UUIDs\<close>

definition uuid_of_str :: "string \<Rightarrow> nat option" where
  "uuid_of_str s =
    (let h = filter (\<lambda>c. c \<noteq> CHR ''-'') s in if length h = 32 then read_base 16 h else None)"

lemma pad_left_props:
  "length s \<le> w \<Longrightarrow> length (pad_left w s) = w" "CHR ''-'' \<notin> set s \<Longrightarrow> CHR ''-'' \<notin> set (pad_left w s)"
  by (auto simp: pad_left_def)

lemma uuid_of_uuid_str:
  assumes "n < 2 ^ 128" shows "uuid_of_str (uuid_str n) = Some n"
proof -
  define h where "h = pad_left 32 (show_base 16 n)"
  have "(2::nat) ^ 128 = 16 ^ 32" by simp
  then have len: "length h = 32" using assms length_show_base[of 16 n 32] by (simp add: h_def pad_left_props)
  have dash: "CHR ''-'' \<notin> set h" unfolding h_def by (rule pad_left_props(2)) (simp add: show_base_digits)
  have keep: "filter (\<lambda>c. c \<noteq> CHR ''-'') (take i (drop j h)) = take i (drop j h)" for i j
    using dash set_take_subset[of i "drop j h"] set_drop_subset[of j h] by (auto simp: filter_id_conv)
  have keep0: "filter (\<lambda>c. c \<noteq> CHR ''-'') (drop j h) = drop j h" "filter (\<lambda>c. c \<noteq> CHR ''-'') (take j h) = take j h" for j
    using dash set_drop_subset[of j h] set_take_subset[of j h] by (auto simp: filter_id_conv)
  have "take 4 (drop 16 h) @ drop 20 h = drop 16 h" "take 4 (drop 12 h) @ drop 16 h = drop 12 h"
    "take 4 (drop 8 h) @ drop 12 h = drop 8 h"
    using append_take_drop_id[of 4 "drop 16 h"] append_take_drop_id[of 4 "drop 12 h"] append_take_drop_id[of 4 "drop 8 h"] by simp_all
  then have "filter (\<lambda>c. c \<noteq> CHR ''-'') (uuid_str n) = h"
    by (simp add: uuid_str_def h_def[symmetric] keep keep0)
  then show ?thesis using len read_base_pad[of 16 32 n] by (simp add: uuid_of_str_def h_def)
qed

interpretation uuid_text: text_codec uuid_str uuid_of_str "\<lambda>n. n < 2 ^ 128"
  by unfold_locales (erule uuid_of_uuid_str, simp add: uuid_str_def Let_def)

section \<open>Dates\<close>

definition leap_year :: "int \<Rightarrow> bool" where
  "leap_year y \<longleftrightarrow> y mod 4 = 0 \<and> (y mod 100 \<noteq> 0 \<or> y mod 400 = 0)"

definition days_in_month :: "int \<Rightarrow> int \<Rightarrow> int" where
  "days_in_month y m = (if m = 2 then (if leap_year y then 29 else 28) else if m \<in> {4, 6, 9, 11} then 30 else 31)"

definition valid_date :: "int \<Rightarrow> int \<Rightarrow> int \<Rightarrow> bool" where
  "valid_date y m d \<longleftrightarrow> 1 \<le> m \<and> m \<le> 12 \<and> 1 \<le> d \<and> d \<le> days_in_month y m"

text \<open>The form \<open>YYYY-MM-DD\<close>; Python's dates are those of the years 1 to 9999.\<close>
definition date_fromisoformat :: "string \<Rightarrow> int option" where
  "date_fromisoformat s =
    (if length s \<noteq> 10 \<or> s ! 4 \<noteq> CHR ''-'' \<or> s ! 7 \<noteq> CHR ''-'' then None
     else (case (read_base 10 (take 4 s), read_base 10 (take 2 (drop 5 s)), read_base 10 (drop 8 s)) of
       (Some y, Some m, Some d) \<Rightarrow>
         if 1 \<le> y \<and> valid_date (int y) (int m) (int d) then Some (days_of_civil (int y) (int m) (int d)) else None
     | _ \<Rightarrow> None))"

text \<open>The day of an era of 400 years, which begins in March, by century, four-year cycle and year.\<close>
lemma era_day:
  fixes doe :: int
  assumes "0 \<le> doe" "doe \<le> 146096"
  obtains c q k d where "0 \<le> c" "c \<le> 3" "0 \<le> q" "q \<le> 24" "0 \<le> k" "k \<le> 3" "0 \<le> d"
    "doe = 36524 * c + 1461 * q + 365 * k + d" "d \<le> 364 \<or> d = 365 \<and> k = 3 \<and> (q = 24 \<longrightarrow> c = 3)"
proof -
  define c where "c = min 3 (doe div 36524)"
  define r where "r = doe - 36524 * c"
  have c: "0 \<le> c" "c \<le> 3" "0 \<le> r" "r \<le> 36523 \<or> r = 36524 \<and> c = 3" using assms by (auto simp: c_def r_def)
  define q where "q = r div 1461"
  define r2 where "r2 = r - 1461 * q"
  have q: "0 \<le> q" "q \<le> 24" "0 \<le> r2" "r2 \<le> 1460" "q = 24 \<and> r2 = 1460 \<longrightarrow> c = 3" using c by (auto simp: q_def r2_def)
  define k where "k = min 3 (r2 div 365)"
  define d where "d = r2 - 365 * k"
  have k: "0 \<le> k" "k \<le> 3" "0 \<le> d" "d \<le> 364 \<or> d = 365 \<and> k = 3 \<and> r2 = 1460" using q by (auto simp: k_def d_def)
  show thesis by (rule that[of c q k d]) (use c q k in \<open>auto simp: r_def r2_def d_def\<close>)
qed

lemma year_of_era:
  fixes doe :: int
  assumes "0 \<le> doe" "doe \<le> 146096"
  defines "yoe \<equiv> (doe - doe div 1460 + doe div 36524 - doe div 146096) div 365"
  defines "doy \<equiv> doe - (365 * yoe + yoe div 4 - yoe div 100)"
  shows "0 \<le> yoe \<and> yoe \<le> 399 \<and> 0 \<le> doy \<and> doy \<le> 365 \<and> (doy = 365 \<longrightarrow> leap_year (yoe + 1))"
proof -
  obtain c q k d where p: "0 \<le> c" "c \<le> 3" "0 \<le> q" "q \<le> 24" "0 \<le> k" "k \<le> 3" "0 \<le> d"
    "doe = 36524 * c + 1461 * q + 365 * k + d" "d \<le> 364 \<or> d = 365 \<and> k = 3 \<and> (q = 24 \<longrightarrow> c = 3)"
    using era_day[OF assms(1,2)] .
  define e where "e = (if 24 * c + q + 365 * k + d \<ge> 1460 then 1 else 0 :: int)"
  have e: "0 \<le> d - e" "d - e \<le> 364" using p by (auto simp: e_def)
  have small: "0 \<le> 24 * c + q + 365 * k + d - 1460 * e" "24 * c + q + 365 * k + d - 1460 * e < 1460"
    using p by (auto simp: e_def)
  have "doe = 1460 * (25 * c + q + e) + (24 * c + q + 365 * k + d - 1460 * e)" using p(8) by simp
  then have a: "doe div 1460 = 25 * c + q + e" by (rule int_div_pos_eq) (use small in simp_all)
  have b: "doe div 36524 - doe div 146096 = c"
  proof (cases "doe = 146096")
    case True
    then show ?thesis using p by auto
  next
    case False
    then have "1461 * q + 365 * k + d < 36524" using p assms(2) by auto
    then have "doe div 36524 = c" by (intro int_div_pos_eq[of _ _ _ "1461 * q + 365 * k + d"]) (use p in simp_all)
    moreover have "doe div 146096 = 0" using assms False by simp
    ultimately show ?thesis by simp
  qed
  have "doe - doe div 1460 + doe div 36524 - doe div 146096 = 365 * (100 * c + 4 * q + k) + (d - e)"
    using p(8) a b by simp
  then have yoe: "yoe = 100 * c + 4 * q + k"
    unfolding yoe_def by (rule int_div_pos_eq) (use e in simp_all)
  have "yoe div 4 = 25 * c + q" by (rule int_div_pos_eq[of _ _ _ k]) (use yoe p in simp_all)
  moreover have "yoe div 100 = c" by (rule int_div_pos_eq[of _ _ _ "4 * q + k"]) (use yoe p in simp_all)
  ultimately have doy: "doy = d" using p(8) by (simp add: doy_def yoe)
  have "leap_year (yoe + 1)" if "d = 365"
  proof -
    have k: "k = 3" "q = 24 \<longrightarrow> c = 3" using p that by auto
    then have y: "yoe + 1 = 4 * (25 * c + q + 1)" using yoe by simp
    show ?thesis
    proof (cases "q = 24")
      case True
      then have "yoe + 1 = 400" using k y by simp
      then show ?thesis by (simp add: leap_year_def)
    next
      case False
      have r: "(yoe + 1) mod 100 = 4 * (q + 1)" using False y p by (intro int_mod_pos_eq[of _ _ c]) simp_all
      have "(yoe + 1) mod 100 \<noteq> 0" unfolding r using p by simp
      moreover have "(yoe + 1) mod 4 = 0" unfolding y by simp
      ultimately show ?thesis unfolding leap_year_def by blast
    qed
  qed
  then show ?thesis using p doy yoe by auto
qed

definition month_of_doy :: "int \<Rightarrow> int" where
  "month_of_doy doy = (let mp = (5 * doy + 2) div 153 in if mp < 10 then mp + 3 else mp - 9)"

definition day_of_doy :: "int \<Rightarrow> int" where
  "day_of_doy doy = doy - (153 * ((5 * doy + 2) div 153) + 2) div 5 + 1"

lemma doy_table:
  "list_all (\<lambda>doy. 1 \<le> month_of_doy doy \<and> month_of_doy doy \<le> 12 \<and> 1 \<le> day_of_doy doy \<and>
     day_of_doy doy \<le> (if month_of_doy doy = 2 then (if doy = 365 then 29 else 28) else if month_of_doy doy \<in> {4, 6, 9, 11} then 30 else 31)) [0..365]"
  by code_simp

lemma leap_year_era: "leap_year (y + era * 400) = leap_year y"
proof -
  have "(y + era * 400) mod 4 = y mod 4" "(y + era * 400) mod 100 = y mod 100"
    using mod_mult_self1[of y "100 * era" 4] mod_mult_self1[of y "4 * era" 100] by (simp_all add: algebra_simps)
  then show ?thesis by (simp add: leap_year_def)
qed

lemma civil_of_days_valid:
  assumes "civil_of_days n = (y, m, d)"
  shows "valid_date y m d \<and> days_of_civil y m d = n"
proof -
  define era where "era = (n + 719468) div 146097"
  define doe where "doe = (n + 719468) mod 146097"
  define yoe where "yoe = (doe - doe div 1460 + doe div 36524 - doe div 146096) div 365"
  define doy where "doy = doe - (365 * yoe + yoe div 4 - yoe div 100)"
  have "0 \<le> doe" "doe \<le> 146096" by (simp_all add: doe_def)
  note year = year_of_era[OF this, folded yoe_def, folded doy_def]
  have civil: "m = month_of_doy doy" "d = day_of_doy doy" "y = yoe + era * 400 + (if m \<le> 2 then 1 else 0)"
    using assms unfolding civil_of_days_def Let_def era_def[symmetric] doe_def[symmetric] yoe_def[symmetric] doy_def[symmetric]
    by (auto simp: month_of_doy_def day_of_doy_def Let_def)
  have "doy \<in> set [0..365]" using year by auto
  then have month: "1 \<le> m" "m \<le> 12" "1 \<le> d" "d \<le> (if m = 2 then (if doy = 365 then 29 else 28) else if m \<in> {4, 6, 9, 11} then 30 else 31)"
    using doy_table unfolding civil(1,2) list_all_iff by blast+
  have "m = 2 \<longrightarrow> doy = 365 \<longrightarrow> leap_year y"
    using year leap_year_era[of "yoe + 1" era] civil(3) by (simp add: algebra_simps)
  then have "valid_date y m d" using month by (auto simp: valid_date_def days_in_month_def split: if_splits)
  moreover have "days_of_civil y m d = n"
  proof -
    have y: "(if m \<le> 2 then y - 1 else y) = yoe + era * 400" using civil(3) by simp
    have e: "(yoe + era * 400) div 400 = era" "(yoe + era * 400) mod 400 = yoe" using year by simp_all
    have "0 \<le> (5 * doy + 2) div 153" "(5 * doy + 2) div 153 \<le> 11" using year by linarith+
    then have mp: "(if m > 2 then m - 3 else m + 9) = (5 * doy + 2) div 153"
      using civil(1) month by (auto simp: month_of_doy_def Let_def split: if_splits)
    have dd: "(153 * ((5 * doy + 2) div 153) + 2) div 5 + d - 1 = doy" using civil(2) by (simp add: day_of_doy_def)
    have de: "yoe * 365 + yoe div 4 - yoe div 100 + doy = doe" by (simp add: doy_def)
    have "days_of_civil y m d = era * 146097 + doe - 719468" unfolding days_of_civil_def Let_def y e mp dd de ..
    also have "\<dots> = n" by (simp add: era_def doe_def)
    finally show ?thesis .
  qed
  ultimately show ?thesis by simp
qed

definition python_date :: "int \<Rightarrow> bool" where
  "python_date n \<longleftrightarrow> 1 \<le> fst (civil_of_days n) \<and> fst (civil_of_days n) \<le> 9999"

lemma show_pad_field:
  assumes "n < 10 ^ w" "0 < w" shows "length (show_pad w n) = w \<and> read_base 10 (show_pad w n) = Some n"
  using assms length_show_base[of 10 n w] by (simp add: show_pad_def show_nat_def pad_left_props(1) read_base_pad)

lemma date_of_iso_date:
  assumes "python_date n" shows "date_fromisoformat (iso_date n) = Some n"
proof -
  obtain y m d where c: "civil_of_days n = (y, m, d)" by (cases "civil_of_days n")
  have v: "valid_date y m d" "days_of_civil y m d = n" "1 \<le> y" "y \<le> 9999"
    using civil_of_days_valid[OF c] assms c by (simp_all add: python_date_def)
  have "1 \<le> m" "m \<le> 12" "1 \<le> d" "d \<le> 31" using v(1) by (auto simp: valid_date_def days_in_month_def split: if_splits)
  then obtain A B C where f: "A = show_pad 4 (nat y)" "B = show_pad 2 (nat m)" "C = show_pad 2 (nat d)"
      "length A = 4" "length B = 2" "length C = 2"
      "read_base 10 A = Some (nat y)" "read_base 10 B = Some (nat m)" "read_base 10 C = Some (nat d)"
    using show_pad_field[of "nat y" 4] show_pad_field[of "nat m" 2] show_pad_field[of "nat d" 2] v by simp
  have i: "iso_date n = A @ ''-'' @ B @ ''-'' @ C" by (simp add: iso_date_def c f(1-3))
  then have "date_fromisoformat (iso_date n) =
      (if 1 \<le> nat y \<and> valid_date (int (nat y)) (int (nat m)) (int (nat d)) then Some (days_of_civil (int (nat y)) (int (nat m)) (int (nat d))) else None)"
    by (simp add: date_fromisoformat_def i f(4-9) nth_append)
  then show ?thesis using v \<open>1 \<le> m\<close> \<open>1 \<le> d\<close> by simp
qed

interpretation date_text: text_codec iso_date date_fromisoformat python_date
  by unfold_locales (erule date_of_iso_date, simp add: iso_date_def case_prod_unfold)

end
