(* ===== verification/GraphState.thy ===== *)
theory GraphState
  imports Breaker Compliance
begin

text \<open>
  The state that the research graph threads through its nodes (\<open>src/agents/state.py\<close>): one record per
  model, with the fields the nodes and the persistence layer read or write. Dates are day numbers,
  generated texts are messages.
\<close>

section \<open>What the agents produce\<close>

datatype market_regime = Bullish | Bearish | Sideways | High_Volatility | Low_Volatility | Risk_On | Risk_Off

datatype risk_tolerance = Tolerance_Low | Tolerance_Medium | Tolerance_High

record research_directive =
  rd_market_regime :: market_regime
  rd_priority_sectors :: "string list"
  rd_strategy_themes :: "string list"
  rd_risk_tolerance :: risk_tolerance
  rd_participating_agents :: "string list"
  rd_expected_outcomes :: string
  rd_is_fallback_directive :: bool

record market_context =
  mx_market_regime :: market_regime
  mx_sector_rankings :: "string list"
  mx_volatility_assessment :: string
  mx_macro_outlook :: string
  mx_confidence_score :: real
  mx_insights :: "string list"

record strategy_option_leg =
  so_symbol :: string
  so_option_type :: option_type
  so_strike :: real
  so_side :: leg_side
  so_quantity :: int

datatype asset_class = Equity | FnO

datatype style = Intraday | Swing

record strategy_logic =
  lg_hypothesis :: string
  lg_asset_class :: asset_class
  lg_style :: style
  lg_universe :: "string list"
  lg_entry_conditions :: string
  lg_exit_conditions :: string
  lg_stop_loss :: string
  lg_take_profit :: string
  lg_position_sizing :: string
  lg_confidence_score :: real
  lg_option_legs :: "strategy_option_leg list option"
  lg_tunable_parameters :: "(string, bool \<times> real \<times> real) dict option"

record python_code =
  py_code :: string
  py_version_no :: int

datatype severity = Severity_Medium | Severity_Critical

record validation_result =
  vr_passed :: bool
  vr_severity :: "severity option"
  vr_feedback :: "message option"

record backtest_metrics =
  bm_sharpe_ratio :: real
  bm_max_drawdown :: real
  bm_win_rate :: "real option"
  bm_profit_factor :: "real option"
  bm_expectancy :: "real option"
  bm_total_trades :: "int option"
  bm_data_adjusted :: "bool option"
  bm_provider_used :: "string option"

record evaluation_verdict =
  ev_passed :: bool
  ev_failure_reasons :: "message list"
  ev_feedback :: "message option"

record equity_curve_point =
  ec_date :: int
  ec_equity :: real

record entry_exit_signal =
  ee_date :: int
  ee_entry :: bool
  ee_exit :: bool

record close_price_point =
  cl_date :: int
  cl_close :: real

record optimization_result =
  op_passed :: bool
  op_best_params :: "(string, real) dict"
  op_robustness_score :: "real option"
  op_walk_forward_passed :: "bool option"
  op_optuna_ran :: bool
  op_optuna_best_value :: "real option"
  op_notes :: message

datatype risk_decision = Risk_Approve | Risk_ApproveWithRestrictions | Risk_Reject

record risk_assessment =
  ra_decision :: risk_decision
  ra_kill_switch_tripped :: bool
  ra_correlation_passed :: "bool option"
  ra_naked_options_checked :: bool
  ra_position_sizing_shares :: "int option"
  ra_narrative :: message

record compliance_report =
  cp_verdict :: verdict
  cp_violations :: "message list"
  cp_naked_options_checked :: bool
  cp_position_limit_checked :: bool
  cp_circuit_filter_checked :: bool
  cp_narrative :: message

datatype recommended_status = Recommend_PaperTrading | Recommend_Reject

record deployment_recommendation =
  dr_recommended_status :: recommended_status
  dr_rationale :: message

section \<open>The shared state\<close>

record graph_state =
  gs_thread_id :: string
  gs_research_directive :: "research_directive option"
  gs_market_context :: "market_context option"
  gs_strategy_logic :: "strategy_logic option"
  gs_option_expiry :: "int option"
  gs_python_code :: "python_code option"
  gs_strategy_version_id :: "string option"
  gs_compliance_verdict :: "compliance_report option"
  gs_validation_result :: "validation_result option"
  gs_backtest_metrics :: "backtest_metrics option"
  gs_equity_curve :: "equity_curve_point list"
  gs_entries_exits :: "entry_exit_signal list"
  gs_close_curve :: "close_price_point list"
  gs_evaluation_verdict :: "evaluation_verdict option"
  gs_optimization_result :: "optimization_result option"
  gs_risk_assessment :: "risk_assessment option"
  gs_deployment_recommendation :: "deployment_recommendation option"
  gs_account_capital :: "real option"
  gs_existing_portfolio_equity_curve :: "equity_curve_point list"
  gs_code_validation_retry_count :: nat
  gs_strategy_rejection_count :: nat

definition initial_graph_state :: "string \<Rightarrow> real option \<Rightarrow> equity_curve_point list \<Rightarrow> graph_state" where
  "initial_graph_state thread capital curve =
    \<lparr>gs_thread_id = thread, gs_research_directive = None, gs_market_context = None, gs_strategy_logic = None,
     gs_option_expiry = None, gs_python_code = None, gs_strategy_version_id = None, gs_compliance_verdict = None,
     gs_validation_result = None, gs_backtest_metrics = None, gs_equity_curve = [], gs_entries_exits = [],
     gs_close_curve = [], gs_evaluation_verdict = None, gs_optimization_result = None, gs_risk_assessment = None,
     gs_deployment_recommendation = None, gs_account_capital = capital, gs_existing_portfolio_equity_curve = curve,
     gs_code_validation_retry_count = 0, gs_strategy_rejection_count = 0\<rparr>"

text \<open>A declared leg as the scanner sees it.\<close>
definition scanner_leg :: "strategy_option_leg \<Rightarrow> option_leg" where
  "scanner_leg l = \<lparr>leg_symbol = so_symbol l, leg_option_type = so_option_type l, leg_strike = so_strike l,
     leg_side_of = so_side l, leg_quantity = so_quantity l\<rparr>"

end
