(* ===== verification/Correlation.thy ===== *)
theory Correlation
  imports Prelude
begin

text \<open>
  The correlation constraint (\<open>src/engine/risk/correlation.py\<close>) and the dated return series it is fed with
  (\<open>_returns_from_equity_curve\<close> and \<open>_compute_correlation\<close> of \<open>src/agents/nodes/risk_manager.py\<close>). A return is a
  real number or, after a value of zero, infinite (\<open>None\<close>); a correlation that pandas gives as NaN is \<open>None\<close>.
\<close>

section \<open>Dated return series\<close>

type_synonym dated_returns = "(int \<times> real option) list"

text \<open>\<open>pct_change\<close> and \<open>dropna\<close> over a series sorted by date: zero to zero is NaN and dropped.\<close>
fun dated_changes :: "(int \<times> real) list \<Rightarrow> dated_returns" where
  "dated_changes ((_, a) # (t, b) # rest) =
    (if a \<noteq> 0 then [(t, Some (b / a - 1))] else if b = 0 then [] else [(t, None)]) @ dated_changes ((t, b) # rest)"
| "dated_changes _ = []"

definition returns_of_curve :: "(int \<times> real) list \<Rightarrow> dated_returns" where
  "returns_of_curve curve = dated_changes (sort_key fst curve)"

text \<open>The dates two series share, in the order of the first.\<close>
definition shared_dates :: "dated_returns \<Rightarrow> dated_returns \<Rightarrow> dated_returns" where
  "shared_dates xs ys = filter (\<lambda>p. fst p \<in> fst ` set ys) xs"

definition values_on :: "dated_returns \<Rightarrow> int list \<Rightarrow> real option list" where
  "values_on xs ts = map (\<lambda>t. case map_of xs t of Some v \<Rightarrow> v | None \<Rightarrow> None) ts"

section \<open>The constraint\<close>

definition DEFAULT_NIFTY_CORRELATION_LIMIT :: real where
  "DEFAULT_NIFTY_CORRELATION_LIMIT = 85 / 100"

record correlation_result =
  co_correlation :: "real option"
  co_limit :: real

text \<open>A comparison with NaN is false.\<close>
definition co_passed :: "correlation_result \<Rightarrow> bool" where
  "co_passed r = (case co_correlation r of Some c \<Rightarrow> c \<le> co_limit r | None \<Rightarrow> False)"

definition mean_of :: "real list \<Rightarrow> real" where
  "mean_of xs = sum_list xs / of_nat (length xs)"

definition co_moment :: "real list \<Rightarrow> real list \<Rightarrow> real" where
  "co_moment xs ys = sum_list (map2 (\<lambda>x y. (x - mean_of xs) * (y - mean_of ys)) xs ys)"

text \<open>The product-moment correlation of \<open>Series.corr\<close>: NaN without variation or with an infinite value.\<close>
definition pearson :: "real list \<Rightarrow> real list \<Rightarrow> real option" where
  "pearson xs ys =
    (if co_moment xs xs = 0 \<or> co_moment ys ys = 0 then None
     else Some (co_moment xs ys / sqrt (co_moment xs xs * co_moment ys ys)))"

definition series_corr :: "real option list \<Rightarrow> real option list \<Rightarrow> real option" where
  "series_corr xs ys = (if None \<in> set xs \<or> None \<in> set ys then None else pearson (map the xs) (map the ys))"

text \<open>Infinity times zero is NaN and an infinite term makes the sum infinite or NaN; both give no correlation.\<close>
definition simulate_combined :: "real option list \<Rightarrow> real option list \<Rightarrow> real \<Rightarrow> string + real option list" where
  "simulate_combined existing candidate w =
    (if \<not> (0 \<le> w \<and> w \<le> 1) then Inl ''candidate_weight must be in [0, 1]''
     else Inr (map2 (\<lambda>e c. case (e, c) of (Some x, Some y) \<Rightarrow> Some ((1 - w) * x + w * y) | _ \<Rightarrow> None) existing candidate))"

definition check_correlation_constraint ::
  "real option list \<Rightarrow> real option list \<Rightarrow> real option list \<Rightarrow> real \<Rightarrow> string + correlation_result" where
  "check_correlation_constraint existing candidate benchmark w =
    (case simulate_combined existing candidate w of
       Inl e \<Rightarrow> Inl e
     | Inr combined \<Rightarrow> Inr \<lparr>co_correlation = series_corr combined benchmark, co_limit = DEFAULT_NIFTY_CORRELATION_LIMIT\<rparr>)"

section \<open>Bounds\<close>

lemma pair_moment_square:
  fixes ps :: "(real \<times> real) list"
  shows "0 \<le> sum_list (map (\<lambda>(x, y). x * x) ps)"
    and "(sum_list (map (\<lambda>(x, y). x * y) ps))\<^sup>2
      \<le> sum_list (map (\<lambda>(x, y). x * x) ps) * sum_list (map (\<lambda>(x, y). y * y) ps)"
proof -
  let ?A = "sum_list (map (\<lambda>(x, y). x * x) ps)" and ?B = "sum_list (map (\<lambda>(x, y). y * y) ps)"
    and ?C = "sum_list (map (\<lambda>(x, y). x * y) ps)"
  show A: "0 \<le> ?A" by (induction ps) auto
  have quad: "sum_list (map (\<lambda>(x, y). (s * x - t * y)\<^sup>2) ps) = s\<^sup>2 * ?A - 2 * s * t * ?C + t\<^sup>2 * ?B" for s t :: real
    by (induction ps) (auto simp: power2_eq_square algebra_simps)
  have nonneg: "0 \<le> s\<^sup>2 * ?A - 2 * s * t * ?C + t\<^sup>2 * ?B" for s t
    unfolding quad[symmetric] by (induction ps) auto
  show "?C\<^sup>2 \<le> ?A * ?B"
  proof (cases "?A = 0")
    case True
    have "0 \<le> ?B" by (induction ps) auto
    moreover have "?C\<^sup>2 * (?B + 2) \<le> 0" using nonneg[of "?B + 1" ?C] True by (simp add: power2_eq_square algebra_simps)
    ultimately have "?C = 0" by (simp add: mult_le_0_iff)
    then show ?thesis by (simp add: True)
  next
    case False
    then have "0 < ?A" using A by simp
    then show ?thesis using nonneg[of ?C ?A] by (simp add: power2_eq_square algebra_simps)
  qed
qed

lemma zip_side_sums:
  fixes f g :: "real \<Rightarrow> real"
  assumes "length xs = length ys"
  shows "sum_list (map (\<lambda>p. f (fst p)) (zip xs ys)) = sum_list (map f xs)"
    and "sum_list (map (\<lambda>p. g (snd p)) (zip xs ys)) = sum_list (map g ys)"
  using assms by (induction xs ys rule: list_induct2) auto

lemma co_moment_self: "co_moment xs xs = sum_list (map (\<lambda>x. (x - mean_of xs) * (x - mean_of xs)) xs)"
proof -
  have "map2 (\<lambda>x y. f x y) xs xs = map (\<lambda>x. f x x) xs" for f :: "real \<Rightarrow> real \<Rightarrow> real" by (induction xs) auto
  then show ?thesis by (simp add: co_moment_def)
qed

lemma co_moment_nonneg: "0 \<le> co_moment xs xs"
  unfolding co_moment_self by (rule sum_list_nonneg) auto

lemma co_moment_bound:
  assumes "length xs = length ys" shows "(co_moment xs ys)\<^sup>2 \<le> co_moment xs xs * co_moment ys ys"
proof -
  have "co_moment xs ys = sum_list (map (\<lambda>p. (fst p - mean_of xs) * (snd p - mean_of ys)) (zip xs ys))"
    by (simp add: co_moment_def case_prod_unfold)
  then show ?thesis
    using pair_moment_square(2)[of "map2 (\<lambda>x y. (x - mean_of xs, y - mean_of ys)) xs ys"]
      zip_side_sums(1)[OF assms, of "\<lambda>x. (x - mean_of xs) * (x - mean_of xs)"]
      zip_side_sums(2)[OF assms, of "\<lambda>y. (y - mean_of ys) * (y - mean_of ys)"]
    by (simp add: o_def case_prod_unfold co_moment_self)
qed

lemma pearson_bounds:
  assumes "length xs = length ys" and "pearson xs ys = Some c" shows "\<bar>c\<bar> \<le> 1"
proof -
  let ?p = "co_moment xs xs * co_moment ys ys"
  have c: "c = co_moment xs ys / sqrt ?p" and nz: "co_moment xs xs \<noteq> 0" "co_moment ys ys \<noteq> 0"
    using assms(2) by (auto simp: pearson_def split: if_splits)
  have pos: "0 < ?p" using nz co_moment_nonneg[of xs] co_moment_nonneg[of ys] by simp
  have "\<bar>co_moment xs ys\<bar> \<le> sqrt ?p" by (rule real_le_rsqrt) (simp add: co_moment_bound[OF assms(1)])
  then show ?thesis using pos by (simp add: c)
qed

end
