(* ===== verification/ResearchGraph.thy ===== *)
theory ResearchGraph
  imports GraphState Correlation Sizing Pipeline DailyJob
begin

text \<open>
  The research graph (\<open>src/agents/graph.py\<close>): its nodes (\<open>src/agents/nodes\<close>), the routing between them and the
  two compiled graphs. What a node asks of the outside (language models, the skills, the data lake,
  the sandbox, the broker, Qdrant, Temporal) is a field of the environment; \<open>None\<close> is an answer that raises.
  A prompt is made of the state, so a model's reply is a function of the state.
\<close>

section \<open>Nodes and environment\<close>

datatype graph_node = CEO_AGENT | MARKET_ANALYST | STRATEGY_GENERATOR | OPTIONS_STRATEGY_AGENT | PYTHON_CODE_GENERATOR
  | COMPLIANCE_NODE | PYTHON_VALIDATOR | BACKTESTING | EVALUATOR | MEMORY_INGEST | OPTIMIZATION | RISK_MANAGER | DEPLOYMENT

datatype graph_error = Halted graph_node | NodeFailed string

record raw_leg =
  rl_option_type :: option_type
  rl_strike :: real
  rl_side :: leg_side
  rl_quantity :: int

record backtest_report =
  br_passed :: bool
  br_sharpe_ratio :: "real option"
  br_max_drawdown :: "real option"
  br_metrics :: backtest_metrics
  br_equity_curve :: "equity_curve_point list"
  br_entries_exits :: "entry_exit_signal list"
  br_close_curve :: "close_price_point list"

record optuna_result =
  ou_best_params :: "(string, real) dict"
  ou_best_value :: real

record graph_env =
  ge_enabled :: "graph_node \<Rightarrow> bool"
  ge_directive :: "graph_state \<Rightarrow> research_directive option"
  ge_context :: "graph_state \<Rightarrow> nat \<Rightarrow> market_context option"
  ge_strategy :: "graph_state \<Rightarrow> strategy_logic option"
  ge_list_expiries :: "string \<Rightarrow> int list option"
  ge_option_chain :: "string \<Rightarrow> int \<Rightarrow> option_chain option"
  ge_legs :: "string \<Rightarrow> option_chain \<Rightarrow> string \<Rightarrow> nat \<Rightarrow> raw_leg list option"
  ge_code :: "graph_state \<Rightarrow> string option"
  ge_format :: "string \<Rightarrow> string option"
  ge_safety :: "string \<Rightarrow> bool \<times> string list"
  ge_lint :: "string \<Rightarrow> bool \<times> string"
  ge_sandbox :: "string \<Rightarrow> bool \<times> string"
  ge_closes :: "string \<Rightarrow> (int \<times> real) list"
  ge_today :: int
  ge_latest_date :: "string \<Rightarrow> int option"
  ge_backtest :: "string \<Rightarrow> string list \<Rightarrow> int \<Rightarrow> int \<Rightarrow> real \<Rightarrow> backtest_report"
  ge_narrate :: "graph_node \<Rightarrow> graph_state \<Rightarrow> string option"
  ge_ingest :: "graph_state \<Rightarrow> bool"
  ge_walk_forward :: "close_price_point list \<Rightarrow> entry_exit_signal list \<Rightarrow> bool list"
  ge_optuna :: "graph_state \<Rightarrow> optuna_result option"
  ge_monte_carlo :: "string \<Rightarrow> real list \<Rightarrow> (real \<times> real) option"
  ge_kill_switch :: bool

type_synonym node_result = "graph_error + graph_state"

section \<open>Research and ideation\<close>

definition FALLBACK_DIRECTIVE :: research_directive where
  "FALLBACK_DIRECTIVE = \<lparr>rd_market_regime = Sideways, rd_priority_sectors = [], rd_strategy_themes = [],
     rd_risk_tolerance = Tolerance_Low, rd_participating_agents = [''MarketAnalystAgent'', ''StrategyGeneratorAgent''],
     rd_expected_outcomes = ''Fallback neutral directive issued due to an upstream failure.'',
     rd_is_fallback_directive = True\<rparr>"

definition ceo_agent_node :: "graph_env \<Rightarrow> graph_state \<Rightarrow> node_result" where
  "ceo_agent_node e s =
    Inr (s\<lparr>gs_research_directive := Some (case ge_directive e s of Some d \<Rightarrow> d | None \<Rightarrow> FALLBACK_DIRECTIVE),
           gs_strategy_rejection_count := 0\<rparr>)"

definition MARKET_ANALYST_RETRIES :: nat where "MARKET_ANALYST_RETRIES = 3"

definition market_analyst_node :: "graph_env \<Rightarrow> graph_state \<Rightarrow> node_result" where
  "market_analyst_node e s =
    (case List.find (\<lambda>a. ge_context e s a \<noteq> None) [0 ..< MARKET_ANALYST_RETRIES] of
       Some a \<Rightarrow> Inr (s\<lparr>gs_market_context := ge_context e s a\<rparr>)
     | None \<Rightarrow> Inl (NodeFailed ''Market Analyst Agent failed after 3 retries''))"

definition rejected_verdict :: "graph_state \<Rightarrow> bool" where
  "rejected_verdict s = (case gs_evaluation_verdict s of Some v \<Rightarrow> \<not> ev_passed v | None \<Rightarrow> False)"

definition strategy_generator_node :: "graph_env \<Rightarrow> graph_state \<Rightarrow> node_result" where
  "strategy_generator_node e s =
    (case ge_strategy e s of
       None \<Rightarrow> Inl (NodeFailed ''strategy_generator'')
     | Some l \<Rightarrow> Inr (s\<lparr>gs_strategy_logic := Some l,
         gs_strategy_rejection_count := gs_strategy_rejection_count s + (if rejected_verdict s then 1 else 0)\<rparr>))"

section \<open>Option legs grounded in the chain\<close>

definition OPTIONS_MAX_ATTEMPTS :: nat where "OPTIONS_MAX_ATTEMPTS = 2"

definition chain_pairs :: "option_chain \<Rightarrow> ((real \<times> option_type) \<times> string) list" where
  "chain_pairs c = map (\<lambda>i. ((oi_strike i, oi_option_type i), oi_symbol i)) (oc_instruments c)"

text \<open>The dictionary comprehension keeps the last instrument of a pair.\<close>
definition symbol_lookup :: "option_chain \<Rightarrow> (real \<times> option_type, string) dict" where
  "symbol_lookup c = rev (chain_pairs c)"

definition parse_legs :: "raw_leg list \<Rightarrow> option_chain \<Rightarrow> string \<Rightarrow> option_leg list option" where
  "parse_legs raw c underlying =
    (if (\<forall>r \<in> set raw. (rl_strike r, rl_option_type r) \<in> fst ` set (chain_pairs c)) then
       Some (map (\<lambda>r. \<lparr>leg_symbol = underlying, leg_option_type = rl_option_type r, leg_strike = rl_strike r,
         leg_side_of = rl_side r, leg_quantity = rl_quantity r\<rparr>) raw)
     else None)"

text \<open>One attempt: a reply that parses, is listed, and that the scanner accepts.\<close>
definition attempt_legs :: "graph_env \<Rightarrow> string \<Rightarrow> option_chain \<Rightarrow> string \<Rightarrow> nat \<Rightarrow> option_leg list option" where
  "attempt_legs e underlying c directive a =
    (case ge_legs e underlying c directive a of
       None \<Rightarrow> None
     | Some raw \<Rightarrow>
        (case parse_legs raw c underlying of
           None \<Rightarrow> None
         | Some legs \<Rightarrow> if scan_passed legs then Some legs else None))"

definition generate_options_strategy :: "graph_env \<Rightarrow> string \<Rightarrow> option_chain \<Rightarrow> string \<Rightarrow> option_leg list option" where
  "generate_options_strategy e underlying c directive =
    (if oc_instruments c = [] then None
     else (case List.find (\<lambda>a. attempt_legs e underlying c directive a \<noteq> None) [1 ..< OPTIONS_MAX_ATTEMPTS + 1] of
        None \<Rightarrow> None
      | Some a \<Rightarrow> attempt_legs e underlying c directive a))"

text \<open>\<open>None\<close> stands for every way of not getting a chain: no broker, a failed call, no listed expiry.\<close>
definition fetch_nearest_chain :: "graph_env \<Rightarrow> string \<Rightarrow> option_chain option" where
  "fetch_nearest_chain e underlying =
    (case ge_list_expiries e underlying of
       None \<Rightarrow> None
     | Some [] \<Rightarrow> None
     | Some (x # _) \<Rightarrow> ge_option_chain e underlying x)"

definition ground_leg :: "option_chain \<Rightarrow> option_leg \<Rightarrow> strategy_option_leg" where
  "ground_leg c l = \<lparr>so_symbol = dict_get_default (symbol_lookup c) (leg_strike l, leg_option_type l) (leg_symbol l),
     so_option_type = leg_option_type l, so_strike = leg_strike l, so_side = leg_side_of l, so_quantity = leg_quantity l\<rparr>"

definition options_strategy_node :: "graph_env \<Rightarrow> graph_state \<Rightarrow> node_result" where
  "options_strategy_node e s =
    (case gs_strategy_logic s of
       None \<Rightarrow> Inl (NodeFailed ''options_strategy_node requires a populated state.strategy_logic'')
     | Some l \<Rightarrow>
        if lg_asset_class l \<noteq> FnO then Inr s
        else
         (let ungrounded = Inr (s\<lparr>gs_strategy_logic := Some (l\<lparr>lg_option_legs := None\<rparr>)\<rparr>) in
          case lg_universe l of
            [] \<Rightarrow> ungrounded
          | underlying # _ \<Rightarrow>
             if underlying = [] then ungrounded
             else
              (case fetch_nearest_chain e underlying of
                 None \<Rightarrow> ungrounded
               | Some c \<Rightarrow>
                  (case generate_options_strategy e underlying c (lg_hypothesis l) of
                     None \<Rightarrow> ungrounded
                   | Some legs \<Rightarrow>
                      Inr (s\<lparr>gs_strategy_logic := Some (l\<lparr>lg_option_legs := Some (map (ground_leg c) legs)\<rparr>),
                             gs_option_expiry := Some (oc_expiry c)\<rparr>)))))"

section \<open>Code\<close>

definition FENCE :: string where "FENCE = ''```''"

text \<open>The text between the first two fences of a reply that starts with one.\<close>
fun until_fence :: "string \<Rightarrow> string" where
  "until_fence [] = []"
| "until_fence (c # cs) = (if take 3 (c # cs) = FENCE then [] else c # until_fence cs)"

definition strip_fences :: "string \<Rightarrow> string" where
  "strip_fences reply =
    (let code = strip reply in
     if take 3 code = FENCE then
       (let body = until_fence (drop 3 code) in strip (if take 6 body = ''python'' then drop 6 body else body))
     else code)"

definition python_code_generator_node :: "graph_env \<Rightarrow> graph_state \<Rightarrow> node_result" where
  "python_code_generator_node e s =
    (if gs_strategy_logic s = None then Inl (NodeFailed ''python_code_generator_node requires state.strategy_logic'')
     else (case ge_code e s of
       None \<Rightarrow> Inl (NodeFailed ''python_code_generator'')
     | Some reply \<Rightarrow>
        (case ge_format e (strip_fences reply) of
           None \<Rightarrow> Inl (NodeFailed ''format_python_code'')
         | Some formatted \<Rightarrow>
            (let v = (case gs_python_code s of Some c \<Rightarrow> py_version_no c + 1 | None \<Rightarrow> 1) in
             Inr (s\<lparr>gs_python_code := Some \<lparr>py_code = formatted, py_version_no = v\<rparr>,
                    gs_strategy_version_id := Some (gs_thread_id s @ ''-v'' @ show_int v)\<rparr>)))))"

definition estimate_conservative_quantity :: "graph_env \<Rightarrow> graph_state \<Rightarrow> string \<Rightarrow> int option" where
  "estimate_conservative_quantity e s symbol =
    (case gs_account_capital s of
       None \<Rightarrow> None
     | Some capital \<Rightarrow>
        (case sort_key fst (ge_closes e symbol) of
           [] \<Rightarrow> None
         | row # rows \<Rightarrow>
            (let price = snd (last (row # rows)) in if price \<le> 0 then None else Some \<lfloor>capital / price\<rfloor>)))"

definition violation_text :: "violation \<Rightarrow> message" where
  "violation_text v = Lit (rule_value (vi_rule v)) # Lit '': '' # vi_detail v"

definition compliance_fallback :: "compliance_verdict \<Rightarrow> message \<Rightarrow> message" where
  "compliance_fallback r summary =
    Lit ''Compliance verdict: '' # Lit (if cv_verdict r = Block then ''Block'' else ''Pass'') # Lit ''. '' # summary
    @ [Lit '' '', Lit (if cv_position_limit_checked r then ''Position-limit check ran against a conservative estimated quantity.''
         else ''Position-limit check was not run (no account capital or price data available).''),
       Lit '' Circuit-filter check was not run (no limit price exists at this pre-deployment stage). '',
       Lit (if cv_naked_options_checked r then ''Naked-options check ran against real declared option legs.''
         else ''Naked-options check was not run (no structured option-leg data available from this strategy's plain-text logic).'')]"

definition declared_legs :: "graph_state \<Rightarrow> strategy_option_leg list option" where
  "declared_legs s = (case gs_strategy_logic s of None \<Rightarrow> None | Some l \<Rightarrow> lg_option_legs l)"

definition scanner_legs :: "graph_state \<Rightarrow> option_leg list option" where
  "scanner_legs s = (case declared_legs s of None \<Rightarrow> None | Some ls \<Rightarrow> if ls = [] then None else Some (map scanner_leg ls))"

definition compliance_symbol :: "graph_state \<Rightarrow> string" where
  "compliance_symbol s =
    (case gs_strategy_logic s of None \<Rightarrow> ''UNKNOWN'' | Some l \<Rightarrow> (case lg_universe l of u # _ \<Rightarrow> u | [] \<Rightarrow> ''UNKNOWN''))"

definition compliance_node :: "graph_env \<Rightarrow> graph_state \<Rightarrow> node_result" where
  "compliance_node e s =
    (if gs_python_code s = None then Inl (NodeFailed ''compliance_node requires state.python_code'')
     else
      (let r = evaluate_compliance (compliance_symbol s) (estimate_conservative_quantity e s (compliance_symbol s)) None None (scanner_legs s);
           summary = (if cv_violations r = [] then [Lit ''No violations.''] else join_messages [Lit ''; ''] (map violation_text (cv_violations r)))
       in Inr (s\<lparr>gs_compliance_verdict := Some \<lparr>cp_verdict = cv_verdict r, cp_violations = map violation_text (cv_violations r),
            cp_naked_options_checked = cv_naked_options_checked r, cp_position_limit_checked = cv_position_limit_checked r,
            cp_circuit_filter_checked = cv_circuit_filter_checked r,
            cp_narrative = (case ge_narrate e COMPLIANCE_NODE s of Some n \<Rightarrow> [Lit n] | None \<Rightarrow> compliance_fallback r summary)\<rparr>\<rparr>)))"

definition validation_fail :: "severity \<Rightarrow> message list \<Rightarrow> graph_state \<Rightarrow> graph_state" where
  "validation_fail sev violations s =
    s\<lparr>gs_validation_result := Some \<lparr>vr_passed = False, vr_severity = Some sev, vr_feedback = Some (join_messages [Lit ''; ''] violations)\<rparr>,
      gs_code_validation_retry_count := Suc (gs_code_validation_retry_count s)\<rparr>"

definition python_validator_node :: "graph_env \<Rightarrow> graph_state \<Rightarrow> node_result" where
  "python_validator_node e s =
    (case gs_python_code s of
       None \<Rightarrow> Inl (NodeFailed ''python_validator_node requires state.python_code'')
     | Some c \<Rightarrow>
        (let code = py_code c in
         if \<not> fst (ge_safety e code) then
           Inr (validation_fail Severity_Critical (map (\<lambda>v. [Lit v]) (snd (ge_safety e code))) s)
         else
          (let violations =
             (if fst (ge_lint e code) then [] else [[Lit ''lint findings: '', Lit (snd (ge_lint e code))]])
             @ (if fst (ge_sandbox e code) then [] else [[Lit ''sandbox execution failed: '', Lit (snd (ge_sandbox e code))]])
           in if violations \<noteq> [] then Inr (validation_fail Severity_Medium violations s)
              else Inr (s\<lparr>gs_validation_result := Some \<lparr>vr_passed = True, vr_severity = None, vr_feedback = None\<rparr>\<rparr>))))"

section \<open>Backtest and verdict\<close>

definition DEFAULT_BACKTEST_LOOKBACK_DAYS :: int where "DEFAULT_BACKTEST_LOOKBACK_DAYS = 365"

definition DEFAULT_INITIAL_CAPITAL :: real where "DEFAULT_INITIAL_CAPITAL = 100000"

definition is_fresh_symbol :: "graph_env \<Rightarrow> string \<Rightarrow> bool" where
  "is_fresh_symbol e symbol =
    (case ge_latest_date e symbol of None \<Rightarrow> False | Some d \<Rightarrow> previous_trading_day (ge_today e) \<le> d)"

definition or_zero :: "real option \<Rightarrow> real" where
  "or_zero x = (case x of Some v \<Rightarrow> v | None \<Rightarrow> 0)"

definition backtesting_node :: "graph_env \<Rightarrow> graph_state \<Rightarrow> node_result" where
  "backtesting_node e s =
    (case gs_python_code s of
       None \<Rightarrow> Inl (NodeFailed ''backtesting_node requires state.python_code'')
     | Some c \<Rightarrow>
        (case (case gs_strategy_logic s of None \<Rightarrow> [] | Some l \<Rightarrow> lg_universe l) of
           [] \<Rightarrow> Inl (NodeFailed ''backtesting_node requires state.strategy_logic.universe'')
         | u # us \<Rightarrow>
            if \<not> list_all (is_fresh_symbol e) (u # us) then Inl (NodeFailed ''Data lake is stale'')
            else
             (case ge_latest_date e u of
                None \<Rightarrow> Inl (NodeFailed ''No historical data ingested'')
              | Some date_to \<Rightarrow>
                 (let r = ge_backtest e (py_code c) (u # us) (date_to - DEFAULT_BACKTEST_LOOKBACK_DAYS) date_to DEFAULT_INITIAL_CAPITAL in
                  if \<not> br_passed r then Inl (NodeFailed ''Real backtest failed'')
                  else Inr (s\<lparr>gs_backtest_metrics := Some ((br_metrics r)\<lparr>bm_sharpe_ratio := or_zero (br_sharpe_ratio r),
                           bm_max_drawdown := or_zero (br_max_drawdown r)\<rparr>),
                         gs_equity_curve := br_equity_curve r, gs_entries_exits := br_entries_exits r,
                         gs_close_curve := br_close_curve r\<rparr>)))))"

definition SHARPE_PASS_THRESHOLD :: real where "SHARPE_PASS_THRESHOLD = 3 / 2"

definition failure_reasons :: "backtest_metrics \<Rightarrow> message list" where
  "failure_reasons m = (if bm_sharpe_ratio m \<le> SHARPE_PASS_THRESHOLD then
     [[Lit ''Sharpe Ratio '', Flt ''.2f'' (bm_sharpe_ratio m), Lit '' does not exceed the '',
       Flt '''' SHARPE_PASS_THRESHOLD, Lit '' pass threshold'']] else [])"

definition evaluator_node :: "graph_env \<Rightarrow> graph_state \<Rightarrow> node_result" where
  "evaluator_node e s =
    (case gs_backtest_metrics s of
       None \<Rightarrow> Inl (NodeFailed ''evaluator_node requires state.backtest_metrics'')
     | Some m \<Rightarrow>
        if failure_reasons m = [] then
          Inr (s\<lparr>gs_evaluation_verdict := Some \<lparr>ev_passed = True, ev_failure_reasons = [], ev_feedback = None\<rparr>\<rparr>)
        else
          Inr (s\<lparr>gs_evaluation_verdict := Some \<lparr>ev_passed = False, ev_failure_reasons = failure_reasons m,
            ev_feedback = Some (case ge_narrate e EVALUATOR s of
              Some n \<Rightarrow> [Lit n] | None \<Rightarrow> Lit ''Backtest failed: '' # join_messages [Lit ''; ''] (failure_reasons m))\<rparr>\<rparr>))"

definition memory_ingest_node :: "graph_env \<Rightarrow> graph_state \<Rightarrow> node_result" where
  "memory_ingest_node e s =
    (if gs_strategy_logic s = None then Inl (NodeFailed ''memory_ingest_node requires state.strategy_logic'')
     else if gs_python_code s = None then Inl (NodeFailed ''memory_ingest_node requires state.python_code'')
     else if gs_backtest_metrics s = None then Inl (NodeFailed ''memory_ingest_node requires state.backtest_metrics'')
     else if \<not> rejected_verdict s then Inl (NodeFailed ''memory_ingest_node requires a FAIL state.evaluation_verdict'')
     else if ge_ingest e s then Inr s else Inl (NodeFailed ''memory_ingest''))"

section \<open>Optimisation, risk and deployment\<close>

definition MAX_ROBUSTNESS_DEGRADATION_MULTIPLE :: real where "MAX_ROBUSTNESS_DEGRADATION_MULTIPLE = 3 / 2"

definition OPTUNA_SKIPPED_NOTE :: string where
  "OPTUNA_SKIPPED_NOTE = ''Optuna hyperparameter sweep was not run: the LLM-generated strategy code has no structured tunable-parameter contract declared for this strategy. Not every strategy needs one -- see OptimizationResult.optuna_ran.''"

definition OPTUNA_MISSING_PREREQS_NOTE :: string where
  "OPTUNA_MISSING_PREREQS_NOTE = ''Optuna hyperparameter sweep was not run: tunable_parameters were declared, but python_code/close_curve/universe are not all available yet to build a real sweep from. Real gap, not fabricated here.''"

fun equity_curve_returns :: "real list \<Rightarrow> real list" where
  "equity_curve_returns (a # b # cs) = (if a \<noteq> 0 then [(b - a) / a] else []) @ equity_curve_returns (b # cs)"
| "equity_curve_returns _ = []"

definition walk_forward_verdict :: "bool list \<Rightarrow> bool option" where
  "walk_forward_verdict windows = (if windows = [] then None else Some (list_all (\<lambda>w. w) windows))"

definition walk_forward_note :: "bool list \<Rightarrow> message" where
  "walk_forward_note windows =
    (if windows = [] then [Lit ''Walk-Forward: skipped -- insufficient real entries/exits or price history for even one full rolling window (pre-v3-contract strategy, or backtest window shorter than walk_forward_adapter.py's WALK_FORWARD_TRAIN_PERIOD + WALK_FORWARD_TEST_PERIOD).'']
     else [Lit ''Walk-Forward: '', Num (int (length windows)), Lit '' rolling out-of-sample windows, '',
       Lit (if list_all (\<lambda>w. w) windows then ''all passed'' else ''not all passed''), Lit '' positive out-of-sample expectancy.''])"

definition params_text :: "(string, real) dict \<Rightarrow> message" where
  "params_text ps = [Lit ''{''] @ join_messages [Lit '', ''] (map (\<lambda>(k, v). [Lit [CHR 0x27], Sym k, Lit (CHR 0x27 # '': ''), Flt '''' v]) ps) @ [Lit ''}'']"

text \<open>The sweep: \<open>Inl\<close> if it raises, otherwise its result if it ran, and the note.\<close>
definition run_optuna_sweep :: "graph_env \<Rightarrow> graph_state \<Rightarrow> graph_error + optuna_result option \<times> message" where
  "run_optuna_sweep e s =
    (case gs_strategy_logic s of
       None \<Rightarrow> Inr (None, [Lit OPTUNA_SKIPPED_NOTE])
     | Some l \<Rightarrow>
        if (case lg_tunable_parameters l of None \<Rightarrow> True | Some ps \<Rightarrow> ps = []) then Inr (None, [Lit OPTUNA_SKIPPED_NOTE])
        else if gs_python_code s = None \<or> gs_close_curve s = [] \<or> lg_universe l = [] then Inr (None, [Lit OPTUNA_MISSING_PREREQS_NOTE])
        else (case ge_optuna e s of
           None \<Rightarrow> Inl (NodeFailed ''optuna'')
         | Some r \<Rightarrow> Inr (Some r, [Lit ''Optuna: 15 trials, best sharpe_ratio='', Flt ''.3f'' (ou_best_value r), Lit '', params='']
             @ params_text (ou_best_params r) @ [Lit ''.''])))"

definition optimization_outcome :: "bool \<Rightarrow> real option \<Rightarrow> bool list \<Rightarrow> optuna_result option \<Rightarrow> message \<Rightarrow> optimization_result" where
  "optimization_outcome passed score windows sweep notes =
    \<lparr>op_passed = passed, op_best_params = (case sweep of None \<Rightarrow> [] | Some r \<Rightarrow> ou_best_params r), op_robustness_score = score,
     op_walk_forward_passed = walk_forward_verdict windows, op_optuna_ran = (sweep \<noteq> None),
     op_optuna_best_value = map_option ou_best_value sweep, op_notes = notes\<rparr>"

definition optimization_node :: "graph_env \<Rightarrow> graph_state \<Rightarrow> node_result" where
  "optimization_node e s =
    (if \<not> (case gs_evaluation_verdict s of Some v \<Rightarrow> ev_passed v | None \<Rightarrow> False) then
       Inl (NodeFailed ''optimization_node requires a PASS state.evaluation_verdict'')
     else
      (let windows = ge_walk_forward e (gs_close_curve s) (gs_entries_exits s) in
       case run_optuna_sweep e s of
         Inl err \<Rightarrow> Inl err
       | Inr (sweep, note) \<Rightarrow>
          (let returns = equity_curve_returns (map ec_equity (gs_equity_curve s));
               notes = walk_forward_note windows @ [Lit '' ''] @ note in
           if length returns < 2 then
             Inr (s\<lparr>gs_optimization_result := Some (optimization_outcome False None windows sweep
               ([Lit ''Insufficient equity curve data for Monte Carlo re-sampling ('', Num (int (length returns)),
                 Lit '' usable daily returns). ''] @ notes))\<rparr>)
           else
            (case ge_monte_carlo e (gs_thread_id s) returns of
               None \<Rightarrow> Inl (NodeFailed ''monte_carlo'')
             | Some (p95, historical) \<Rightarrow>
                (let robust = (p95 \<le> historical * MAX_ROBUSTNESS_DEGRADATION_MULTIPLE) in
                 Inr (s\<lparr>gs_optimization_result := Some (optimization_outcome robust (Some p95) windows sweep
                   ([Lit ''Monte Carlo P95 max drawdown '', Flt ''.3f'' p95, Lit '' vs. historical '', Flt ''.3f'' historical,
                     Lit '' ('', Lit (if robust then ''within'' else ''exceeds''), Lit '' '',
                     Flt '''' MAX_ROBUSTNESS_DEGRADATION_MULTIPLE, Lit ''x tolerance). ''] @ notes))\<rparr>))))))"

definition BENCHMARK_SYMBOL :: string where "BENCHMARK_SYMBOL = ''^NSEI''"

definition MIN_OVERLAPPING_DAYS :: nat where "MIN_OVERLAPPING_DAYS = 5"

definition DEFAULT_CANDIDATE_PORTFOLIO_WEIGHT :: real where "DEFAULT_CANDIDATE_PORTFOLIO_WEIGHT = 20 / 100"

definition curve_returns :: "equity_curve_point list \<Rightarrow> dated_returns" where
  "curve_returns ps = returns_of_curve (map (\<lambda>p. (ec_date p, ec_equity p)) ps)"

definition compute_correlation :: "graph_env \<Rightarrow> graph_state \<Rightarrow> string + correlation_result option" where
  "compute_correlation e s =
    (if gs_equity_curve s = [] \<or> ge_closes e BENCHMARK_SYMBOL = [] then Inr None
     else
      (let candidate = curve_returns (gs_equity_curve s);
           benchmark = returns_of_curve (ge_closes e BENCHMARK_SYMBOL);
           existing = curve_returns (gs_existing_portfolio_equity_curve s);
           all3 = map fst (shared_dates (shared_dates candidate existing) benchmark);
           both = map fst (shared_dates candidate benchmark);
           result = map_sum (\<lambda>m. m) Some in
       if gs_existing_portfolio_equity_curve s \<noteq> [] \<and> MIN_OVERLAPPING_DAYS \<le> length all3 then
         result (check_correlation_constraint (values_on existing all3) (values_on candidate all3) (values_on benchmark all3)
           DEFAULT_CANDIDATE_PORTFOLIO_WEIGHT)
       else if length both < MIN_OVERLAPPING_DAYS then Inr None
       else result (check_correlation_constraint (values_on candidate both) (values_on candidate both) (values_on benchmark both) 1)))"

definition run_naked_options_check :: "strategy_option_leg list option \<Rightarrow> bool \<times> option_leg list" where
  "run_naked_options_check declared =
    (case declared of
       None \<Rightarrow> (False, [])
     | Some ls \<Rightarrow> if ls = [] then (False, []) else (True, scan_for_naked_options (map scanner_leg ls)))"

definition NOT_COMPUTED_NOTE :: string where
  "NOT_COMPUTED_NOTE = ''Not checked this pass -- no real data source available (see module docstring).''"

text \<open>The rupee sign, as its UTF-8 bytes.\<close>
definition RUPEE :: string where "RUPEE = [CHR 0xE2, CHR 0x82, CHR 0xB9]"

definition size_candidate :: "string \<Rightarrow> real list \<Rightarrow> real \<Rightarrow> position_size option" where
  "size_candidate symbol closes capital =
    (case compute_position_sizes None [(symbol, pct_changes closes)] [(symbol, last closes)] capital of
       Inl _ \<Rightarrow> None
     | Inr sizes \<Rightarrow> dict_get sizes symbol)"

definition compute_position_sizing :: "graph_state \<Rightarrow> message \<times> int option" where
  "compute_position_sizing s =
    (case (gs_account_capital s, (case gs_strategy_logic s of None \<Rightarrow> [] | Some l \<Rightarrow> lg_universe l)) of
       (None, _) \<Rightarrow> ([Lit NOT_COMPUTED_NOTE], None)
     | (Some capital, []) \<Rightarrow> ([Lit NOT_COMPUTED_NOTE], None)
     | (Some capital, symbol # _) \<Rightarrow>
        (let closes = map cl_close (gs_close_curve s) in
         if length closes < 2 then ([Lit NOT_COMPUTED_NOTE], None)
         else
          (case (case size_candidate symbol closes capital of Some z \<Rightarrow> if sz_shares z \<le> 0 then None else Some z | None \<Rightarrow> None) of
             None \<Rightarrow> ([Lit ''Computed a zero-share allocation for '', Sym symbol, Lit '' at the account's current '', Lit RUPEE,
                 Flt '',.2f'' capital, Lit '' equity -- position too small to size at '', Lit RUPEE, Flt '',.2f'' (last closes), Lit ''/share.''], None)
           | Some z \<Rightarrow> ([Num (sz_shares z), Lit '' shares of '', Sym symbol, Lit '' (~'', Lit RUPEE, Flt '',.2f'' (sz_capital_allocation z), Lit '', '',
                 Flt ''.0%'' (sz_weight z), Lit '' of the '', Lit RUPEE, Flt '',.2f'' capital, Lit '' account equity, inverse-volatility weighted).''],
               Some (sz_shares z)))))"

definition correlation_summary :: "correlation_result option \<Rightarrow> message" where
  "correlation_summary r =
    (case r of
       None \<Rightarrow> [Lit NOT_COMPUTED_NOTE]
     | Some c \<Rightarrow> [Lit ''Candidate-vs-Nifty50 correlation is ''] @ (case co_correlation c of Some x \<Rightarrow> [Flt ''.2f'' x] | None \<Rightarrow> [Lit ''nan''])
         @ [Lit '' ('', Lit (if co_passed c then ''within'' else ''exceeds''), Lit '' the '', Flt ''.2f'' (co_limit c), Lit '' limit).''])"

definition naked_options_summary :: "bool \<Rightarrow> option_leg list \<Rightarrow> message" where
  "naked_options_summary checked legs =
    (if \<not> checked then [Lit NOT_COMPUTED_NOTE]
     else if legs \<noteq> [] then [Num (int (length legs)), Lit '' declared leg(s) have no OTM hedge: '']
       @ join_messages [Lit ''; ''] (map (\<lambda>l. [Sym (leg_symbol l), Lit '' '', Lit (option_type_name (leg_option_type l)), Lit '' '', Flt '''' (leg_strike l)]) legs)
     else [Lit ''All declared option legs are hedged -- no naked exposure.''])"

definition risk_manager_node :: "graph_env \<Rightarrow> graph_state \<Rightarrow> node_result" where
  "risk_manager_node e s =
    (if \<not> (case gs_optimization_result s of Some r \<Rightarrow> op_passed r | None \<Rightarrow> False) then
       Inl (NodeFailed ''risk_manager_node requires a passed state.optimization_result'')
     else if ge_kill_switch e then
       Inr (s\<lparr>gs_risk_assessment := Some \<lparr>ra_decision = Risk_Reject, ra_kill_switch_tripped = True, ra_correlation_passed = None,
         ra_naked_options_checked = False, ra_position_sizing_shares = None,
         ra_narrative = [Lit ''Kill switch is TRIPPED -- the hardcoded Risk Engine has already halted all AI deployment loops. No further risk-relevant recommendation is possible until a human resets it (API-086).'']\<rparr>\<rparr>)
     else
      (case compute_correlation e s of
         Inl err \<Rightarrow> Inl (NodeFailed err)
       | Inr correlation \<Rightarrow>
          (let (checked, naked_legs) = run_naked_options_check (declared_legs s);
               (sizing, shares) = compute_position_sizing s;
               correlation_ok = (case correlation of None \<Rightarrow> False | Some r \<Rightarrow> co_passed r);
               naked_options_ok = (\<not> checked \<or> naked_legs = [])
           in Inr (s\<lparr>gs_risk_assessment := Some
                \<lparr>ra_decision = (if correlation_ok \<and> naked_options_ok then Risk_Approve else Risk_ApproveWithRestrictions),
                 ra_kill_switch_tripped = False, ra_correlation_passed = map_option co_passed correlation,
                 ra_naked_options_checked = checked, ra_position_sizing_shares = shares,
                 ra_narrative = (case ge_narrate e RISK_MANAGER s of
                   Some n \<Rightarrow> [Lit n]
                 | None \<Rightarrow> [Lit ''Kill switch armed (not tripped). Correlation: ''] @ correlation_summary correlation
                     @ [Lit '' Naked-options: ''] @ naked_options_summary checked naked_legs @ [Lit '' Position sizing: ''] @ sizing)\<rparr>\<rparr>))))"

definition deployment_node :: "graph_env \<Rightarrow> graph_state \<Rightarrow> node_result" where
  "deployment_node e s =
    (case gs_risk_assessment s of
       None \<Rightarrow> Inl (NodeFailed ''deployment_node requires state.risk_assessment'')
     | Some r \<Rightarrow>
        (let status = (if ra_decision r = Risk_Reject then Recommend_Reject else Recommend_PaperTrading) in
         Inr (s\<lparr>gs_deployment_recommendation := Some \<lparr>dr_recommended_status = status,
           dr_rationale = (case ge_narrate e DEPLOYMENT s of
             Some n \<Rightarrow> [Lit n]
           | None \<Rightarrow> [Lit ''Recommending '', Lit (if status = Recommend_Reject then ''Reject'' else ''PaperTrading''), Lit '': ''] @ ra_narrative r)\<rparr>\<rparr>)))"

section \<open>The graphs\<close>

definition node_fn :: "graph_env \<Rightarrow> graph_node \<Rightarrow> graph_state \<Rightarrow> node_result" where
  "node_fn e n s =
    (case n of
       CEO_AGENT \<Rightarrow> ceo_agent_node e s | MARKET_ANALYST \<Rightarrow> market_analyst_node e s
     | STRATEGY_GENERATOR \<Rightarrow> strategy_generator_node e s | OPTIONS_STRATEGY_AGENT \<Rightarrow> options_strategy_node e s
     | PYTHON_CODE_GENERATOR \<Rightarrow> python_code_generator_node e s | COMPLIANCE_NODE \<Rightarrow> compliance_node e s
     | PYTHON_VALIDATOR \<Rightarrow> python_validator_node e s | BACKTESTING \<Rightarrow> backtesting_node e s
     | EVALUATOR \<Rightarrow> evaluator_node e s | MEMORY_INGEST \<Rightarrow> memory_ingest_node e s
     | OPTIMIZATION \<Rightarrow> optimization_node e s | RISK_MANAGER \<Rightarrow> risk_manager_node e s | DEPLOYMENT \<Rightarrow> deployment_node e s)"

definition halt_on_entry :: "graph_env \<Rightarrow> graph_node \<Rightarrow> graph_state \<Rightarrow> node_result" where
  "halt_on_entry e n s = (if ge_enabled e n then node_fn e n s else Inl (Halted n))"

definition MAX_CODE_VALIDATION_RETRIES :: nat where "MAX_CODE_VALIDATION_RETRIES = 3"

definition MAX_REJECTIONS_BEFORE_ESCALATION :: nat where "MAX_REJECTIONS_BEFORE_ESCALATION = 5"

text \<open>The next node, \<open>None\<close> for the end of the graph.\<close>
type_synonym route = "graph_error + graph_node option"

definition route_after_validation :: "graph_state \<Rightarrow> route" where
  "route_after_validation s =
    (case gs_validation_result s of
       None \<Rightarrow> Inl (NodeFailed ''route_after_validation called before python_validator_node ran'')
     | Some v \<Rightarrow>
        if vr_passed v then Inr (Some BACKTESTING)
        else if MAX_CODE_VALIDATION_RETRIES \<le> gs_code_validation_retry_count s then Inr None
        else Inr (Some PYTHON_CODE_GENERATOR))"

definition route_after_compliance :: "graph_state \<Rightarrow> route" where
  "route_after_compliance s =
    (case gs_compliance_verdict s of
       None \<Rightarrow> Inl (NodeFailed ''route_after_compliance called before compliance_node ran'')
     | Some r \<Rightarrow> if cp_verdict r = Block then Inr None else Inr (Some PYTHON_VALIDATOR))"

definition route_after_evaluation :: "graph_state \<Rightarrow> route" where
  "route_after_evaluation s =
    (case gs_evaluation_verdict s of
       None \<Rightarrow> Inl (NodeFailed ''route_after_evaluation called before evaluator_node ran'')
     | Some v \<Rightarrow> if ev_passed v then Inr (Some OPTIMIZATION) else Inr (Some MEMORY_INGEST))"

definition route_after_memory_ingest :: "graph_state \<Rightarrow> route" where
  "route_after_memory_ingest s =
    (if MAX_REJECTIONS_BEFORE_ESCALATION \<le> gs_strategy_rejection_count s then Inr (Some CEO_AGENT)
     else Inr (Some STRATEGY_GENERATOR))"

text \<open>The edges both graphs have.\<close>
definition shared_edges :: "graph_node \<Rightarrow> graph_state \<Rightarrow> route" where
  "shared_edges n s =
    (case n of
       STRATEGY_GENERATOR \<Rightarrow> Inr (Some OPTIONS_STRATEGY_AGENT)
     | OPTIONS_STRATEGY_AGENT \<Rightarrow> Inr (Some PYTHON_CODE_GENERATOR)
     | PYTHON_CODE_GENERATOR \<Rightarrow> Inr (Some COMPLIANCE_NODE)
     | COMPLIANCE_NODE \<Rightarrow> route_after_compliance s
     | PYTHON_VALIDATOR \<Rightarrow> route_after_validation s
     | BACKTESTING \<Rightarrow> Inr (Some EVALUATOR)
     | _ \<Rightarrow> Inr None)"

definition build_graph :: "graph_node \<Rightarrow> graph_state \<Rightarrow> route" where
  "build_graph n s =
    (case n of
       CEO_AGENT \<Rightarrow> Inr (Some MARKET_ANALYST)
     | MARKET_ANALYST \<Rightarrow> Inr (Some STRATEGY_GENERATOR)
     | EVALUATOR \<Rightarrow> route_after_evaluation s
     | MEMORY_INGEST \<Rightarrow> route_after_memory_ingest s
     | OPTIMIZATION \<Rightarrow> Inr (Some RISK_MANAGER)
     | RISK_MANAGER \<Rightarrow> Inr (Some DEPLOYMENT)
     | DEPLOYMENT \<Rightarrow> Inr None
     | _ \<Rightarrow> shared_edges n s)"

definition build_suggestion_regeneration_graph :: "graph_node \<Rightarrow> graph_state \<Rightarrow> route" where
  "build_suggestion_regeneration_graph n s = (if n = EVALUATOR then Inr None else shared_edges n s)"

datatype graph_position = At graph_node graph_state | Finished graph_state | Crashed graph_error

definition graph_step :: "(graph_node \<Rightarrow> graph_state \<Rightarrow> route) \<Rightarrow> graph_env \<Rightarrow> graph_position \<Rightarrow> graph_position" where
  "graph_step edges e p =
    (case p of
       At n s \<Rightarrow>
        (case halt_on_entry e n s of
           Inl err \<Rightarrow> Crashed err
         | Inr s' \<Rightarrow> (case edges n s' of Inl err \<Rightarrow> Crashed err | Inr None \<Rightarrow> Finished s' | Inr (Some m) \<Rightarrow> At m s'))
     | _ \<Rightarrow> p)"

text \<open>The first \<open>k\<close> steps; every step meets its own environment.\<close>
fun graph_run :: "(graph_node \<Rightarrow> graph_state \<Rightarrow> route) \<Rightarrow> (nat \<Rightarrow> graph_env) \<Rightarrow> nat \<Rightarrow> graph_position \<Rightarrow> graph_position" where
  "graph_run edges env 0 p = p"
| "graph_run edges env (Suc k) p = graph_step edges (env k) (graph_run edges env k p)"

section \<open>Steps\<close>

lemmas node_defs = ceo_agent_node_def market_analyst_node_def strategy_generator_node_def options_strategy_node_def
  python_code_generator_node_def compliance_node_def python_validator_node_def backtesting_node_def evaluator_node_def
  memory_ingest_node_def optimization_node_def risk_manager_node_def deployment_node_def

lemma graph_step_simps [simp]:
  "graph_step edges e (Finished s) = Finished s" "graph_step edges e (Crashed err) = Crashed err"
  by (simp_all add: graph_step_def)

lemma graph_step_At:
  "graph_step edges e (At n s) = At m s' \<longleftrightarrow> ge_enabled e n \<and> node_fn e n s = Inr s' \<and> edges n s' = Inr (Some m)"
  "graph_step edges e (At n s) = Finished s' \<longleftrightarrow> ge_enabled e n \<and> node_fn e n s = Inr s' \<and> edges n s' = Inr None"
  by (auto simp: graph_step_def halt_on_entry_def split: sum.splits option.splits)

subsection \<open>What each node leaves alone\<close>

text \<open>The fields a node does not write.\<close>
lemma node_frames:
  "node_fn e n s = Inr s' \<Longrightarrow> n \<noteq> DEPLOYMENT \<Longrightarrow> gs_deployment_recommendation s' = gs_deployment_recommendation s"
  "node_fn e n s = Inr s' \<Longrightarrow> n \<noteq> PYTHON_CODE_GENERATOR \<Longrightarrow> gs_python_code s' = gs_python_code s"
  "node_fn e n s = Inr s' \<Longrightarrow> n \<noteq> COMPLIANCE_NODE \<Longrightarrow> gs_compliance_verdict s' = gs_compliance_verdict s"
  "node_fn e n s = Inr s' \<Longrightarrow> n \<noteq> BACKTESTING \<Longrightarrow> gs_backtest_metrics s' = gs_backtest_metrics s"
  "node_fn e n s = Inr s' \<Longrightarrow> n \<noteq> OPTIMIZATION \<Longrightarrow> gs_optimization_result s' = gs_optimization_result s"
  "node_fn e n s = Inr s' \<Longrightarrow> n \<noteq> RISK_MANAGER \<Longrightarrow> gs_risk_assessment s' = gs_risk_assessment s"
  "node_fn e n s = Inr s' \<Longrightarrow> n \<noteq> EVALUATOR \<Longrightarrow> gs_evaluation_verdict s' = gs_evaluation_verdict s"
  "node_fn e n s = Inr s' \<Longrightarrow> n \<noteq> PYTHON_VALIDATOR \<Longrightarrow>
     gs_validation_result s' = gs_validation_result s \<and> gs_code_validation_retry_count s' = gs_code_validation_retry_count s"
  "node_fn e n s = Inr s' \<Longrightarrow> n \<notin> {CEO_AGENT, STRATEGY_GENERATOR} \<Longrightarrow>
     gs_strategy_rejection_count s' = gs_strategy_rejection_count s"
  by (cases n; auto simp: node_fn_def node_defs validation_fail_def Let_def case_prod_unfold
    split: option.splits sum.splits if_splits list.splits)+

end
