(* ===== verification/StrategyProgress.thy ===== *)
theory StrategyProgress
  imports PyParse ResearchGraph Approvals
begin

text \<open>
  What a run of the research graph writes (\<open>src/api/routers/agents.py\<close>): the strategy, version and backtest rows
  that follow the nodes (\<open>_persist_strategy_progress\<close>, \<open>_persist_suggestion_regeneration\<close>), the tracking state of a
  run and its snapshot, and the strategy factory (\<open>src/engine/sandbox/strategy_factory.py\<close>). The columns of a
  strategy the organisation does not read are kept in a record of their own, addressed by the same id.
\<close>

section \<open>Tables\<close>

record strategy_columns =
  sk_strategy_id :: nat
  sk_account_id :: nat
  sk_tenant_id :: nat
  sk_hypothesis :: string
  sk_asset_class :: asset_class
  sk_style :: style
  sk_max_drawdown_limit :: real
  sk_universe :: "string list option"
  sk_entry_conditions :: string
  sk_exit_conditions :: string
  sk_stop_loss :: string
  sk_take_profit :: string
  sk_position_sizing :: string
  sk_confidence_score :: real
  sk_research_context :: "json option"
  sk_market_context :: "json option"

record version_row =
  vn_id :: nat
  vn_strategy_id :: nat
  vn_agent_run_id :: nat
  vn_version_no :: int
  vn_python_code :: string
  vn_validation_status :: string
  vn_validator_feedback :: "message option"
  vn_option_legs :: "strategy_option_leg list option"
  vn_option_expiry :: "int option"
  vn_option_rationale :: "string option"

record result_row =
  rs_id :: nat
  rs_strategy_version_id :: nat
  rs_agent_run_id :: "nat option"
  rs_date_from :: int
  rs_date_to :: int
  rs_initial_capital :: real
  rs_symbol :: string
  rs_metrics :: backtest_metrics
  rs_evaluation_passed :: "bool option"
  rs_failure_reasons :: "message list option"
  rs_best_params :: "(string, real) dict option"
  rs_robustness_score :: "real option"
  rs_risk_passed :: "bool option"
  rs_risk_notes :: "message option"
  rs_deployment :: "recommended_status option"
  rs_deployment_rationale :: "message option"

record graph_run_row =
  gr_id :: nat
  gr_thread_id :: string
  gr_agent_name :: string
  gr_parent_run_id :: "nat option"
  gr_status :: string
  gr_started_at :: timestamp
  gr_ended_at :: "timestamp option"
  gr_retried_from_run_id :: "nat option"
  gr_pause_requested :: bool
  gr_tracking_snapshot :: "json option"

record agent_log_row =
  lo_agent_run_id :: nat
  lo_log_level :: string
  lo_message :: message
  lo_created_at :: timestamp

record strategy_suggestion =
  su_id :: nat
  su_strategy_id :: nat
  su_suggestion_text :: string
  su_status :: string
  su_ai_verdict :: "string option"
  su_ai_reasoning :: message
  su_resulting_version_id :: "nat option"
  su_reviewed_at :: "timestamp option"

text \<open>The database of the research side; \<open>rp_checkpoints\<close> is what the LangGraph checkpointer holds per thread.\<close>
record research =
  rp_db :: db
  rp_columns :: "strategy_columns list"
  rp_versions :: "version_row list"
  rp_results :: "result_row list"
  rp_runs :: "graph_run_row list"
  rp_logs :: "agent_log_row list"
  rp_suggestions :: "strategy_suggestion list"
  rp_checkpoints :: "(string, graph_position) dict"

text \<open>What a run asks of the outside beside the nodes: the seeded paper account, the tenant of an account, the dumps and
  validations of pydantic, the text of an f-string, what the stream reports under \<open>option_rationale\<close> (a key the
  graph state has no field for), \<open>repr\<close> of a list of strings and the text of an exception.\<close>
record progress_env =
  pe_org :: env
  pe_graph :: graph_env
  pe_account :: "nat option"
  pe_tenant :: "nat \<Rightarrow> nat"
  pe_dump_directive :: "research_directive \<Rightarrow> json"
  pe_dump_context :: "market_context \<Rightarrow> json"
  pe_load_directive :: "json \<Rightarrow> research_directive option"
  pe_load_context :: "json \<Rightarrow> market_context option"
  pe_dump_output :: "graph_node \<Rightarrow> graph_state \<Rightarrow> json"
  pe_rationale :: "graph_state \<Rightarrow> string option"
  pe_render :: "message \<Rightarrow> string"
  pe_repr :: "string list \<Rightarrow> string"
  pe_error_text :: "graph_error \<Rightarrow> string"

definition fresh_research_id :: "research \<Rightarrow> nat \<times> research" where
  "fresh_research_id P = (db_next_id (rp_db P), P\<lparr>rp_db := (rp_db P)\<lparr>db_next_id := Suc (db_next_id (rp_db P))\<rparr>\<rparr>)"

definition get_columns :: "research \<Rightarrow> nat \<Rightarrow> strategy_columns option" where
  "get_columns P i = row_by sk_strategy_id i (rp_columns P)"

definition get_version :: "research \<Rightarrow> nat \<Rightarrow> version_row option" where
  "get_version P i = row_by vn_id i (rp_versions P)"

definition set_version :: "nat \<Rightarrow> (version_row \<Rightarrow> version_row) \<Rightarrow> research \<Rightarrow> research" where
  "set_version i f P = P\<lparr>rp_versions := update_where (\<lambda>v. vn_id v = i) f (rp_versions P)\<rparr>"

definition set_result :: "nat \<Rightarrow> (result_row \<Rightarrow> result_row) \<Rightarrow> research \<Rightarrow> research" where
  "set_result i f P = P\<lparr>rp_results := update_where (\<lambda>r. rs_id r = i) f (rp_results P)\<rparr>"

definition set_strategy_row :: "nat \<Rightarrow> (strategy \<Rightarrow> strategy) \<Rightarrow> research \<Rightarrow> research" where
  "set_strategy_row i f P = P\<lparr>rp_db := set_strategy i f (rp_db P)\<rparr>"

definition set_columns :: "nat \<Rightarrow> (strategy_columns \<Rightarrow> strategy_columns) \<Rightarrow> research \<Rightarrow> research" where
  "set_columns i f P = P\<lparr>rp_columns := update_where (\<lambda>c. sk_strategy_id c = i) f (rp_columns P)\<rparr>"

definition universe_of :: "research \<Rightarrow> nat \<Rightarrow> string list" where
  "universe_of P i = (case get_columns P i of None \<Rightarrow> [] | Some c \<Rightarrow> (case sk_universe c of None \<Rightarrow> [] | Some u \<Rightarrow> u))"

section \<open>Tracking\<close>

record tracking =
  tr_strategy_id :: "nat option"
  tr_account_id :: "nat option"
  tr_account_lookup_done :: bool
  tr_backtest_result_id :: "nat option"
  tr_pending_option_legs :: "strategy_option_leg list option"
  tr_pending_option_expiry :: "int option"
  tr_pending_research_context :: "json option"
  tr_pending_market_context :: "json option"
  tr_pending_option_rationale :: "string option"

definition new_tracking :: tracking where
  "new_tracking = \<lparr>tr_strategy_id = None, tr_account_id = None, tr_account_lookup_done = False, tr_backtest_result_id = None,
     tr_pending_option_legs = None, tr_pending_option_expiry = None, tr_pending_research_context = None,
     tr_pending_market_context = None, tr_pending_option_rationale = None\<rparr>"

text \<open>\<open>x if x else None\<close> on a list.\<close>
definition nonempty :: "'a list option \<Rightarrow> 'a list option" where
  "nonempty xs = (case xs of Some (y # ys) \<Rightarrow> Some (y # ys) | _ \<Rightarrow> None)"

section \<open>The snapshot of a paused run\<close>

definition side_name :: "leg_side \<Rightarrow> string" where
  "side_name s = (case s of leg_buy \<Rightarrow> ''buy'' | leg_sell \<Rightarrow> ''sell'')"

definition leg_json :: "strategy_option_leg \<Rightarrow> json" where
  "leg_json l = JObj [(''symbol'', JStr (so_symbol l)), (''option_type'', JStr (option_type_name (so_option_type l))),
     (''strike'', JFloat (so_strike l)), (''side'', JStr (side_name (so_side l))), (''quantity'', JInt (so_quantity l))]"

definition tracking_to_snapshot :: "tracking \<Rightarrow> json" where
  "tracking_to_snapshot t = JObj
    [(''strategy_id'', opt_json (\<lambda>i. JStr (uuid_str i)) (tr_strategy_id t)),
     (''account_id'', opt_json (\<lambda>i. JStr (uuid_str i)) (tr_account_id t)),
     (''account_lookup_done'', JBool (tr_account_lookup_done t)),
     (''backtest_result_id'', opt_json (\<lambda>i. JStr (uuid_str i)) (tr_backtest_result_id t)),
     (''pending_option_legs'', opt_json (\<lambda>ls. JArr (map leg_json ls)) (nonempty (tr_pending_option_legs t))),
     (''pending_option_expiry'', opt_json (\<lambda>d. JStr (iso_date d)) (tr_pending_option_expiry t)),
     (''pending_research_context'', opt_json (\<lambda>j. j) (tr_pending_research_context t)),
     (''pending_market_context'', opt_json (\<lambda>j. j) (tr_pending_market_context t)),
     (''pending_option_rationale'', opt_json JStr (tr_pending_option_rationale t))]"

text \<open>Reading a field: the outer \<open>None\<close> is an exception; a missing, null or empty value is \<open>None\<close>.\<close>
definition read_field :: "(string \<Rightarrow> 'a option) \<Rightarrow> json option \<Rightarrow> 'a option option" where
  "read_field reader v =
    (case v of
       None \<Rightarrow> Some None
     | Some JNull \<Rightarrow> Some None
     | Some (JStr s) \<Rightarrow> if s = [] then Some None else map_option Some (reader s)
     | Some _ \<Rightarrow> None)"

definition read_value :: "json option \<Rightarrow> json option" where
  "read_value v = (case v of Some JNull \<Rightarrow> None | _ \<Rightarrow> v)"

definition read_text :: "json option \<Rightarrow> string option option" where
  "read_text v = (case v of None \<Rightarrow> Some None | Some JNull \<Rightarrow> Some None | Some (JStr s) \<Rightarrow> Some (Some s) | Some _ \<Rightarrow> None)"

definition leg_of_json :: "json \<Rightarrow> strategy_option_leg option" where
  "leg_of_json j =
    (case (json_get j ''symbol'', json_get j ''option_type'', json_get j ''strike'', json_get j ''side'', json_get j ''quantity'') of
       (Some (JStr name), Some (JStr ty), Some (JFloat strike), Some (JStr side), Some (JInt q)) \<Rightarrow>
         if ty \<notin> {''CE'', ''PE''} \<or> side \<notin> {''buy'', ''sell''} then None
         else Some \<lparr>so_symbol = name, so_option_type = (if ty = ''CE'' then CE else PE), so_strike = strike,
           so_side = (if side = ''buy'' then leg_buy else leg_sell), so_quantity = q\<rparr>
     | _ \<Rightarrow> None)"

fun legs_of_json :: "json list \<Rightarrow> strategy_option_leg list option" where
  "legs_of_json [] = Some []"
| "legs_of_json (j # js) = (case leg_of_json j of None \<Rightarrow> None | Some l \<Rightarrow> map_option ((#) l) (legs_of_json js))"

definition read_legs :: "json option \<Rightarrow> strategy_option_leg list option option" where
  "read_legs v =
    (case v of
       None \<Rightarrow> Some None
     | Some JNull \<Rightarrow> Some None
     | Some (JArr js) \<Rightarrow> if js = [] then Some None else map_option Some (legs_of_json js)
     | Some _ \<Rightarrow> None)"

definition read_bool :: "json option \<Rightarrow> bool" where
  "read_bool v = (case v of Some (JBool b) \<Rightarrow> b | _ \<Rightarrow> False)"

definition tracking_from_snapshot :: "json \<Rightarrow> tracking option" where
  "tracking_from_snapshot j =
    (case (read_field uuid_of_str (json_get j ''strategy_id''), read_field uuid_of_str (json_get j ''account_id''),
           read_field uuid_of_str (json_get j ''backtest_result_id''), read_legs (json_get j ''pending_option_legs''),
           read_field date_fromisoformat (json_get j ''pending_option_expiry''), read_text (json_get j ''pending_option_rationale'')) of
       (Some sid, Some aid, Some bid, Some legs, Some expiry, Some rationale) \<Rightarrow>
         Some \<lparr>tr_strategy_id = sid, tr_account_id = aid, tr_account_lookup_done = read_bool (json_get j ''account_lookup_done''),
           tr_backtest_result_id = bid, tr_pending_option_legs = legs, tr_pending_option_expiry = expiry,
           tr_pending_research_context = read_value (json_get j ''pending_research_context''),
           tr_pending_market_context = read_value (json_get j ''pending_market_context''),
           tr_pending_option_rationale = rationale\<rparr>
     | _ \<Rightarrow> None)"

subsection \<open>The snapshot is faithful\<close>

context text_codec
begin

lemma read_printed_field: "pred_option good x \<Longrightarrow> read_field reader (Some (opt_json (\<lambda>v. JStr (printer v)) x)) = Some x"
  by (cases x) (simp_all add: read_field_def opt_json_def reads_back printer_nonempty)

end

lemma leg_round_trip [simp]: "leg_of_json (leg_json l) = Some l"
  by (cases "so_option_type l"; cases "so_side l"; cases l) (simp_all add: leg_of_json_def leg_json_def json_get_def side_name_def option_type_name_def)

lemma legs_round_trip [simp]: "legs_of_json (map leg_json ls) = Some ls"
  by (induction ls) simp_all

lemma read_legs_snapshot: "read_legs (Some (opt_json (\<lambda>ls. JArr (map leg_json ls)) (nonempty ls))) = Some (nonempty ls)"
  by (auto simp: read_legs_def opt_json_def nonempty_def split: option.split list.split)

text \<open>Values a run can hold: ids of 128 bits, a date of the years 1 to 9999, contexts that are dumps of a model (never \<open>null\<close>).\<close>
definition storable :: "tracking \<Rightarrow> bool" where
  "storable t \<longleftrightarrow> pred_option (\<lambda>i. i < 2 ^ 128) (tr_strategy_id t) \<and> pred_option (\<lambda>i. i < 2 ^ 128) (tr_account_id t)
     \<and> pred_option (\<lambda>i. i < 2 ^ 128) (tr_backtest_result_id t) \<and> pred_option python_date (tr_pending_option_expiry t)
     \<and> tr_pending_research_context t \<noteq> Some JNull \<and> tr_pending_market_context t \<noteq> Some JNull"

definition normal_tracking :: "tracking \<Rightarrow> tracking" where
  "normal_tracking t = t\<lparr>tr_pending_option_legs := nonempty (tr_pending_option_legs t)\<rparr>"

lemma read_value_snapshot: "j \<noteq> Some JNull \<Longrightarrow> read_value (Some (opt_json (\<lambda>j. j) j)) = j"
  by (cases j) (auto simp: read_value_def opt_json_def split: json.split)

lemma snapshot_reads_back:
  assumes "storable t" shows "tracking_from_snapshot (tracking_to_snapshot t) = Some (normal_tracking t)"
proof -
  have txt0: "read_text (Some (opt_json JStr x)) = Some x" for x by (cases x) (simp_all add: read_text_def opt_json_def)
  show ?thesis
    using assms unfolding tracking_from_snapshot_def tracking_to_snapshot_def storable_def
    by (cases t) (simp add: json_get_def uuid_text.read_printed_field date_text.read_printed_field read_legs_snapshot
      read_value_snapshot txt0 read_bool_def normal_tracking_def)
qed

text \<open>A paused run remembers where it was. The snapshot stored when a run pauses, read back when it resumes,
  gives the same ids, dates, contexts, rationale and option legs; only an empty list of legs comes back as no
  legs, which the code treats alike.\<close>
theorem snapshot_round_trip:
  assumes "storable t"
  shows "tracking_from_snapshot (tracking_to_snapshot t) = Some (t\<lparr>tr_pending_option_legs := nonempty (tr_pending_option_legs t)\<rparr>)"
  using snapshot_reads_back[OF assms] by (simp add: normal_tracking_def)

definition sample_tracking :: tracking where
  "sample_tracking = new_tracking\<lparr>tr_strategy_id := Some 255, tr_pending_option_expiry := Some 20000,
     tr_pending_option_legs := Some [\<lparr>so_symbol = ''NIFTY100CE'', so_option_type = CE, so_strike = 100, so_side = leg_sell, so_quantity = 50\<rparr>]\<rparr>"

theorem snapshot_round_trip_witness:
  "tracking_from_snapshot (tracking_to_snapshot sample_tracking) = Some sample_tracking"
proof -
  have "python_date 20000" by code_simp
  then have "storable sample_tracking" by (simp add: storable_def sample_tracking_def new_tracking_def)
  then show ?thesis using snapshot_round_trip[of sample_tracking] by (simp add: sample_tracking_def nonempty_def)
qed

section \<open>The strategy factory\<close>

definition update_validation_status :: "nat \<Rightarrow> string \<Rightarrow> message option \<Rightarrow> research \<Rightarrow> research" where
  "update_validation_status vid status feedback P =
    set_version vid (\<lambda>v. v\<lparr>vn_validation_status := status, vn_validator_feedback := feedback\<rparr>) P"

text \<open>The second scan and execution of code that the validator node has passed; the file it writes is not modelled.\<close>
definition run_strategy_factory_pipeline :: "graph_env \<Rightarrow> string \<Rightarrow> nat \<Rightarrow> research \<Rightarrow> research" where
  "run_strategy_factory_pipeline e code vid P =
    (if \<not> fst (ge_safety e code) then
       update_validation_status vid ''Failed'' (Some (join_messages [Lit ''; ''] (map (\<lambda>v. [Lit v]) (snd (ge_safety e code))))) P
     else if \<not> fst (ge_sandbox e code) then update_validation_status vid ''Failed'' (Some [Lit (snd (ge_sandbox e code))]) P
     else update_validation_status vid ''Passed'' None P)"

section \<open>Rows that follow the nodes\<close>

definition DEFAULT_MAX_DRAWDOWN_LIMIT :: real where "DEFAULT_MAX_DRAWDOWN_LIMIT = 15"

definition lookup_account :: "progress_env \<Rightarrow> tracking \<Rightarrow> tracking" where
  "lookup_account pe t =
    (if tr_account_lookup_done t then t else t\<lparr>tr_account_id := pe_account pe, tr_account_lookup_done := True\<rparr>)"

definition logic_columns :: "strategy_logic \<Rightarrow> strategy_columns \<Rightarrow> strategy_columns" where
  "logic_columns l c = c\<lparr>sk_hypothesis := lg_hypothesis l, sk_asset_class := lg_asset_class l, sk_style := lg_style l,
     sk_universe := (if lg_universe l = [] then None else Some (lg_universe l)), sk_entry_conditions := lg_entry_conditions l,
     sk_exit_conditions := lg_exit_conditions l, sk_stop_loss := lg_stop_loss l, sk_take_profit := lg_take_profit l,
     sk_position_sizing := lg_position_sizing l, sk_confidence_score := lg_confidence_score l\<rparr>"

definition new_columns :: "nat \<Rightarrow> nat \<Rightarrow> nat \<Rightarrow> tracking \<Rightarrow> strategy_logic \<Rightarrow> strategy_columns" where
  "new_columns sid aid tenant t l = logic_columns l
     \<lparr>sk_strategy_id = sid, sk_account_id = aid, sk_tenant_id = tenant, sk_hypothesis = [], sk_asset_class = Equity, sk_style = Swing,
      sk_max_drawdown_limit = DEFAULT_MAX_DRAWDOWN_LIMIT, sk_universe = None, sk_entry_conditions = [], sk_exit_conditions = [],
      sk_stop_loss = [], sk_take_profit = [], sk_position_sizing = [], sk_confidence_score = 0,
      sk_research_context = tr_pending_research_context t, sk_market_context = tr_pending_market_context t\<rparr>"

definition record_strategy :: "progress_env \<Rightarrow> strategy_logic \<Rightarrow> tracking \<times> research \<Rightarrow> tracking \<times> research" where
  "record_strategy pe l = (\<lambda>(t, P).
    (let t1 = lookup_account pe t in
     case tr_account_id t1 of
       None \<Rightarrow> (t1, P)
     | Some aid \<Rightarrow>
        (let (sid, P1) = fresh_research_id P;
             row = \<lparr>str_id = sid, str_current_version_id = None, str_name = take 150 (lg_hypothesis l), str_status = ''Ideation''\<rparr>
         in (t1\<lparr>tr_strategy_id := Some sid\<rparr>,
             P1\<lparr>rp_db := (rp_db P1)\<lparr>db_strategies := db_strategies (rp_db P1) @ [row]\<rparr>,
                rp_columns := rp_columns P1 @ [new_columns sid aid (pe_tenant pe aid) t1 l]\<rparr>))))"

text \<open>What the options node reports: nothing for an equity strategy, an expiry and a rationale only with legs.\<close>
definition grounding_output :: "progress_env \<Rightarrow> graph_state \<Rightarrow> (strategy_option_leg list option \<times> int option \<times> string option) option" where
  "grounding_output pe s =
    (case gs_strategy_logic s of
       None \<Rightarrow> None
     | Some l \<Rightarrow>
        if lg_asset_class l \<noteq> FnO then None
        else if lg_option_legs l = None then Some (None, None, None)
        else Some (lg_option_legs l, gs_option_expiry s, pe_rationale pe s))"

definition record_version ::
  "nat \<Rightarrow> nat \<Rightarrow> python_code \<Rightarrow> strategy_option_leg list option \<Rightarrow> int option \<Rightarrow> string option \<Rightarrow> research \<Rightarrow> nat \<times> research" where
  "record_version sid run code legs expiry rationale P =
    (let (vid, P1) = fresh_research_id P;
         row = \<lparr>vn_id = vid, vn_strategy_id = sid, vn_agent_run_id = run, vn_version_no = py_version_no code, vn_python_code = py_code code,
            vn_validation_status = ''Pending'', vn_validator_feedback = None, vn_option_legs = nonempty legs,
            vn_option_expiry = expiry, vn_option_rationale = rationale\<rparr>
     in (vid, set_strategy_row sid (\<lambda>s. s\<lparr>str_current_version_id := Some vid, str_status := ''Coding''\<rparr>)
                (P1\<lparr>rp_versions := rp_versions P1 @ [row]\<rparr>)))"

definition current_version :: "research \<Rightarrow> nat \<Rightarrow> version_row option" where
  "current_version P sid =
    (case get_strategy (rp_db P) sid of
       None \<Rightarrow> None
     | Some s \<Rightarrow> (case str_current_version_id s of None \<Rightarrow> None | Some vid \<Rightarrow> get_version P vid))"

definition record_validation :: "graph_env \<Rightarrow> nat \<Rightarrow> validation_result \<Rightarrow> research \<Rightarrow> research" where
  "record_validation e sid v P =
    (case current_version P sid of
       None \<Rightarrow> P
     | Some row \<Rightarrow>
        if \<not> vr_passed v then
          set_version (vn_id row) (\<lambda>r. r\<lparr>vn_validation_status := ''Failed'', vn_validator_feedback := vr_feedback v\<rparr>) P
        else set_strategy_row sid (\<lambda>s. s\<lparr>str_status := ''Backtesting''\<rparr>)
               (run_strategy_factory_pipeline e (vn_python_code row) (vn_id row) P))"

definition record_backtest :: "graph_env \<Rightarrow> nat \<Rightarrow> nat option \<Rightarrow> backtest_metrics \<Rightarrow> research \<Rightarrow> nat option \<times> research" where
  "record_backtest e sid run m P =
    (case (get_strategy (rp_db P) sid, universe_of P sid) of
       (Some s, u # _) \<Rightarrow>
        (case (str_current_version_id s, ge_latest_date e u) of
           (Some vid, Some date_to) \<Rightarrow>
            (let (rid, P1) = fresh_research_id P;
                 row = \<lparr>rs_id = rid, rs_strategy_version_id = vid, rs_agent_run_id = run,
                    rs_date_from = date_to - DEFAULT_BACKTEST_LOOKBACK_DAYS, rs_date_to = date_to,
                    rs_initial_capital = DEFAULT_INITIAL_CAPITAL, rs_symbol = u, rs_metrics = m, rs_evaluation_passed = None,
                    rs_failure_reasons = None, rs_best_params = None, rs_robustness_score = None, rs_risk_passed = None,
                    rs_risk_notes = None, rs_deployment = None, rs_deployment_rationale = None\<rparr>
             in (Some rid, P1\<lparr>rp_results := rp_results P1 @ [row]\<rparr>))
         | _ \<Rightarrow> (None, P))
     | _ \<Rightarrow> (None, P))"

definition record_verdict :: "nat \<Rightarrow> evaluation_verdict \<Rightarrow> research \<Rightarrow> research" where
  "record_verdict rid v P = set_result rid (\<lambda>r. r\<lparr>rs_evaluation_passed := Some (ev_passed v),
     rs_failure_reasons := (if ev_failure_reasons v = [] then None else Some (ev_failure_reasons v))\<rparr>) P"

definition record_optimization :: "nat \<Rightarrow> optimization_result \<Rightarrow> research \<Rightarrow> research" where
  "record_optimization rid op P = set_result rid (\<lambda>r. r\<lparr>rs_best_params := (if op_best_params op = [] then None else Some (op_best_params op)),
     rs_robustness_score := op_robustness_score op\<rparr>) P"

definition record_risk :: "nat \<Rightarrow> risk_assessment \<Rightarrow> research \<Rightarrow> research" where
  "record_risk rid a P = set_result rid (\<lambda>r. r\<lparr>rs_risk_passed := Some (ra_decision a \<noteq> Risk_Reject), rs_risk_notes := Some (ra_narrative a)\<rparr>) P"

definition record_deployment :: "progress_env \<Rightarrow> nat \<Rightarrow> nat \<Rightarrow> nat option \<Rightarrow> deployment_recommendation \<Rightarrow> research \<Rightarrow> research" where
  "record_deployment pe sid rid org_run d P =
    (let P1 = set_result rid (\<lambda>r. r\<lparr>rs_deployment := Some (dr_recommended_status d), rs_deployment_rationale := Some (dr_rationale d)\<rparr>) P;
         version = map_option rs_strategy_version_id (row_by rs_id rid (rp_results P1))
     in P1\<lparr>rp_db := apply_deployment_recommendation (pe_org pe) sid
          (if dr_recommended_status d = Recommend_PaperTrading then PAPER_TRADING else ''Reject'') version
          (pe_render pe (dr_rationale d)) org_run (rp_db P1)\<rparr>)"

definition on_some :: "'a option \<Rightarrow> ('a \<Rightarrow> 'b \<Rightarrow> 'b) \<Rightarrow> 'b \<Rightarrow> 'b" where
  "on_some x f b = (case x of None \<Rightarrow> b | Some v \<Rightarrow> f v b)"

definition persist_strategy_progress ::
  "progress_env \<Rightarrow> graph_node \<Rightarrow> graph_state \<Rightarrow> nat \<Rightarrow> nat option \<Rightarrow> tracking \<times> research \<Rightarrow> tracking \<times> research" where
  "persist_strategy_progress pe n s run org_run = (\<lambda>(t, P).
    (case n of
       CEO_AGENT \<Rightarrow> (t\<lparr>tr_pending_research_context := map_option (pe_dump_directive pe) (gs_research_directive s)\<rparr>, P)
     | MARKET_ANALYST \<Rightarrow> (t\<lparr>tr_pending_market_context := map_option (pe_dump_context pe) (gs_market_context s)\<rparr>, P)
     | STRATEGY_GENERATOR \<Rightarrow> on_some (gs_strategy_logic s) (record_strategy pe) (t, P)
     | _ \<Rightarrow>
       (case tr_strategy_id t of
          None \<Rightarrow> (t, P)
        | Some sid \<Rightarrow>
           (case n of
              OPTIONS_STRATEGY_AGENT \<Rightarrow> (on_some (grounding_output pe s) (\<lambda>(legs, expiry, rationale) t.
                 t\<lparr>tr_pending_option_legs := legs, tr_pending_option_expiry := expiry, tr_pending_option_rationale := rationale\<rparr>) t, P)
            | PYTHON_CODE_GENERATOR \<Rightarrow> (t, on_some (gs_python_code s) (\<lambda>c P. snd (record_version sid run c (tr_pending_option_legs t)
                 (tr_pending_option_expiry t) (tr_pending_option_rationale t) P)) P)
            | PYTHON_VALIDATOR \<Rightarrow> (t, on_some (gs_validation_result s) (record_validation (pe_graph pe) sid) P)
            | BACKTESTING \<Rightarrow>
               (case gs_backtest_metrics s of
                  None \<Rightarrow> (t, P)
                | Some m \<Rightarrow>
                   (case record_backtest (pe_graph pe) sid (Some run) m P of
                      (None, P1) \<Rightarrow> (t, P1)
                    | (Some rid, P1) \<Rightarrow> (t\<lparr>tr_backtest_result_id := Some rid\<rparr>, P1)))
            | _ \<Rightarrow>
               (case tr_backtest_result_id t of
                  None \<Rightarrow> (t, P)
                | Some rid \<Rightarrow>
                   (t, case n of
                      EVALUATOR \<Rightarrow> on_some (gs_evaluation_verdict s) (\<lambda>v P.
                         if ev_passed v then set_strategy_row sid (\<lambda>x. x\<lparr>str_status := ''Optimizing''\<rparr>) (record_verdict rid v P)
                         else record_verdict rid v P) P
                    | OPTIMIZATION \<Rightarrow> on_some (gs_optimization_result s) (\<lambda>r P.
                         set_strategy_row sid (\<lambda>x. x\<lparr>str_status := ''RiskReview''\<rparr>) (record_optimization rid r P)) P
                    | RISK_MANAGER \<Rightarrow> on_some (gs_risk_assessment s) (record_risk rid) P
                    | DEPLOYMENT \<Rightarrow> on_some (gs_deployment_recommendation s) (record_deployment pe sid rid org_run) P
                    | _ \<Rightarrow> P))))))"

section \<open>The line the console shows for a node\<close>

definition regime_name :: "market_regime \<Rightarrow> string" where
  "regime_name r = (case r of Bullish \<Rightarrow> ''Bullish'' | Bearish \<Rightarrow> ''Bearish'' | Sideways \<Rightarrow> ''Sideways''
     | High_Volatility \<Rightarrow> ''High Volatility'' | Low_Volatility \<Rightarrow> ''Low Volatility'' | Risk_On \<Rightarrow> ''Risk-On'' | Risk_Off \<Rightarrow> ''Risk-Off'')"

definition severity_name :: "GraphState.severity option \<Rightarrow> string" where
  "severity_name v = (case v of None \<Rightarrow> ''None'' | Some Severity_Medium \<Rightarrow> ''Medium'' | Some Severity_Critical \<Rightarrow> ''Critical'')"

definition decision_name :: "risk_decision \<Rightarrow> string" where
  "decision_name d = (case d of Risk_Approve \<Rightarrow> ''Approve'' | Risk_ApproveWithRestrictions \<Rightarrow> ''ApproveWithRestrictions'' | Risk_Reject \<Rightarrow> ''Reject'')"

definition node_name :: "graph_node \<Rightarrow> string" where
  "node_name n = (case n of CEO_AGENT \<Rightarrow> ''ceo_agent'' | MARKET_ANALYST \<Rightarrow> ''market_analyst'' | STRATEGY_GENERATOR \<Rightarrow> ''strategy_generator''
     | OPTIONS_STRATEGY_AGENT \<Rightarrow> ''options_strategy_agent'' | PYTHON_CODE_GENERATOR \<Rightarrow> ''python_code_generator''
     | COMPLIANCE_NODE \<Rightarrow> ''compliance'' | PYTHON_VALIDATOR \<Rightarrow> ''python_validator'' | BACKTESTING \<Rightarrow> ''backtesting''
     | EVALUATOR \<Rightarrow> ''evaluator'' | MEMORY_INGEST \<Rightarrow> ''memory_ingest'' | OPTIMIZATION \<Rightarrow> ''optimization''
     | RISK_MANAGER \<Rightarrow> ''risk_manager'' | DEPLOYMENT \<Rightarrow> ''deployment'')"

definition opt_message :: "message option \<Rightarrow> message" where
  "opt_message m = (case m of None \<Rightarrow> [Lit ''None''] | Some x \<Rightarrow> x)"

definition no_new_fields :: "graph_node \<Rightarrow> message" where
  "no_new_fields n = [Lit (node_name n), Lit '' completed with no new state fields'']"

definition summarize_node_output :: "progress_env \<Rightarrow> graph_node \<Rightarrow> graph_state \<Rightarrow> message" where
  "summarize_node_output pe n s =
    (let say = (\<lambda>x f. case x of None \<Rightarrow> no_new_fields n | Some v \<Rightarrow> f v);
         proposed = (\<lambda>l. [Lit ''Proposed strategy: '', Sym (lg_hypothesis l), Lit '' (confidence='', Flt ''.2f'' (lg_confidence_score l), Lit '')''])
     in case n of
       CEO_AGENT \<Rightarrow> (case gs_research_directive s of None \<Rightarrow> no_new_fields n | Some d \<Rightarrow>
         [Lit ''Issued research directive: '', Lit (regime_name (rd_market_regime d)), Lit '' regime, sectors='',
          Sym (if rd_priority_sectors d = [] then ''none'' else pe_repr pe (rd_priority_sectors d))])
     | MARKET_ANALYST \<Rightarrow> (case gs_market_context s of None \<Rightarrow> no_new_fields n | Some c \<Rightarrow>
         [Lit ''Market context: confidence='', Flt ''.2f'' (mx_confidence_score c), Lit '', '', Sym (mx_macro_outlook c)])
     | STRATEGY_GENERATOR \<Rightarrow> say (gs_strategy_logic s) proposed
     | OPTIONS_STRATEGY_AGENT \<Rightarrow> (if grounding_output pe s = None then no_new_fields n else say (gs_strategy_logic s) proposed)
     | PYTHON_CODE_GENERATOR \<Rightarrow> (case gs_python_code s of None \<Rightarrow> no_new_fields n | Some c \<Rightarrow>
         [Lit ''Generated strategy code v'', Num (py_version_no c), Lit '' ('', Num (int (length (py_code c))), Lit '' chars)''])
     | PYTHON_VALIDATOR \<Rightarrow> (case gs_validation_result s of None \<Rightarrow> no_new_fields n | Some v \<Rightarrow>
         if vr_passed v then [Lit ''Validation passed'']
         else [Lit ''Validation failed ('', Lit (severity_name (vr_severity v)), Lit ''): ''] @ opt_message (vr_feedback v))
     | BACKTESTING \<Rightarrow> (case gs_backtest_metrics s of None \<Rightarrow> no_new_fields n | Some m \<Rightarrow>
         [Lit ''Real backtest complete: Sharpe '', Flt ''.2f'' (bm_sharpe_ratio m), Lit '', MaxDD '', Flt ''.2f'' (bm_max_drawdown m)])
     | EVALUATOR \<Rightarrow> (case gs_evaluation_verdict s of None \<Rightarrow> no_new_fields n | Some v \<Rightarrow>
         if ev_passed v then [Lit ''Evaluation PASSED -- advancing to Optimization'']
         else Lit ''Evaluation FAILED: '' # join_messages [Lit ''; ''] (ev_failure_reasons v))
     | OPTIMIZATION \<Rightarrow> (case gs_optimization_result s of None \<Rightarrow> no_new_fields n | Some r \<Rightarrow>
         [Lit ''Optimization '', Lit (if op_passed r then ''robust'' else ''not robust''), Lit '': ''] @ op_notes r)
     | RISK_MANAGER \<Rightarrow> (case gs_risk_assessment s of None \<Rightarrow> no_new_fields n | Some r \<Rightarrow>
         [Lit ''Risk decision: '', Lit (decision_name (ra_decision r))])
     | DEPLOYMENT \<Rightarrow> (case gs_deployment_recommendation s of None \<Rightarrow> no_new_fields n | Some d \<Rightarrow>
         [Lit ''Deployment recommendation: '', Lit (if dr_recommended_status d = Recommend_PaperTrading then ''PaperTrading'' else ''Reject''),
          Lit '' -- ''] @ dr_rationale d)
     | _ \<Rightarrow> no_new_fields n)"

section \<open>Rows that follow a reviewed suggestion\<close>

record regen_tracking =
  rt_strategy_id :: nat
  rt_backtest_result_id :: "nat option"
  rt_new_version_id :: "nat option"
  rt_pending_option_legs :: "strategy_option_leg list option"
  rt_pending_option_expiry :: "int option"
  rt_pending_option_rationale :: "string option"

definition persist_suggestion_regeneration ::
  "progress_env \<Rightarrow> graph_node \<Rightarrow> graph_state \<Rightarrow> nat \<Rightarrow> regen_tracking \<times> research \<Rightarrow> regen_tracking \<times> research" where
  "persist_suggestion_regeneration pe n s run = (\<lambda>(t, P).
    (let sid = rt_strategy_id t in
     case n of
       STRATEGY_GENERATOR \<Rightarrow> (t, on_some (gs_strategy_logic s) (\<lambda>l. set_columns sid (logic_columns l)) P)
     | OPTIONS_STRATEGY_AGENT \<Rightarrow> (on_some (grounding_output pe s) (\<lambda>(legs, expiry, rationale) t.
          t\<lparr>rt_pending_option_legs := legs, rt_pending_option_expiry := expiry, rt_pending_option_rationale := rationale\<rparr>) t, P)
     | PYTHON_CODE_GENERATOR \<Rightarrow>
        (case gs_python_code s of
           None \<Rightarrow> (t, P)
         | Some c \<Rightarrow>
            (let (vid, P1) = record_version sid run c (rt_pending_option_legs t) (rt_pending_option_expiry t) (rt_pending_option_rationale t) P
             in (t\<lparr>rt_new_version_id := Some vid\<rparr>, P1)))
     | PYTHON_VALIDATOR \<Rightarrow> (t, on_some (gs_validation_result s) (record_validation (pe_graph pe) sid) P)
     | BACKTESTING \<Rightarrow>
        (case gs_backtest_metrics s of
           None \<Rightarrow> (t, P)
         | Some m \<Rightarrow>
            (case record_backtest (pe_graph pe) sid None m P of
               (None, P1) \<Rightarrow> (t, P1)
             | (Some rid, P1) \<Rightarrow> (t\<lparr>rt_backtest_result_id := Some rid\<rparr>, P1)))
     | EVALUATOR \<Rightarrow>
        (case rt_backtest_result_id t of
           None \<Rightarrow> (t, P)
         | Some rid \<Rightarrow> (t, on_some (gs_evaluation_verdict s) (record_verdict rid) P))
     | _ \<Rightarrow> (t, P)))"

end
