(* ===== verification/ResearchRuns.thy ===== *)
theory ResearchRuns
  imports ResearchGraph
begin

text \<open>
  Runs of the research graph: which gates a recommended strategy has passed, how many rejections lead to
  an escalation, how long a suggestion can take, and what the compliance gate does to grounded
  option strategies.
\<close>

section \<open>The gates\<close>

text \<open>How far a strategy has come when the run is at a node.\<close>
fun stage :: "graph_node \<Rightarrow> nat" where
  "stage PYTHON_VALIDATOR = 1" | "stage BACKTESTING = 2" | "stage EVALUATOR = 3" | "stage OPTIMIZATION = 4"
| "stage RISK_MANAGER = 5" | "stage DEPLOYMENT = 6" | "stage _ = 0"

definition complied :: "graph_state \<Rightarrow> bool" where
  "complied s \<longleftrightarrow> (\<exists>r. gs_compliance_verdict s = Some r \<and> cp_verdict r = Pass)"

text \<open>The code was scanned, linted and executed in the sandbox in one of the first \<open>k\<close> steps.\<close>
definition screened :: "(nat \<Rightarrow> graph_env) \<Rightarrow> nat \<Rightarrow> graph_state \<Rightarrow> bool" where
  "screened env k s \<longleftrightarrow> (\<exists>c. gs_python_code s = Some c \<and>
     (\<exists>j < k. fst (ge_safety (env j) (py_code c)) \<and> fst (ge_lint (env j) (py_code c)) \<and> fst (ge_sandbox (env j) (py_code c))))"

text \<open>The metrics are those of a backtest of this code that passed.\<close>
definition backtested :: "(nat \<Rightarrow> graph_env) \<Rightarrow> nat \<Rightarrow> graph_state \<Rightarrow> bool" where
  "backtested env k s \<longleftrightarrow> (\<exists>c m. gs_python_code s = Some c \<and> gs_backtest_metrics s = Some m \<and>
     (\<exists>j < k. \<exists>us a b. let r = ge_backtest (env j) (py_code c) us a b DEFAULT_INITIAL_CAPITAL in
        br_passed r \<and> bm_sharpe_ratio m = or_zero (br_sharpe_ratio r)))"

definition profitable :: "graph_state \<Rightarrow> bool" where
  "profitable s \<longleftrightarrow> (\<exists>m. gs_backtest_metrics s = Some m \<and> bm_sharpe_ratio m > SHARPE_PASS_THRESHOLD)"

definition robust :: "graph_state \<Rightarrow> bool" where
  "robust s \<longleftrightarrow> (\<exists>r. gs_optimization_result s = Some r \<and> op_passed r)"

text \<open>In one of the first \<open>k\<close> steps of the run from \<open>p0\<close> the risk manager looked at the kill switch, and \<open>rejected\<close> is what it saw.\<close>
definition kill_switch_seen :: "(nat \<Rightarrow> graph_env) \<Rightarrow> graph_position \<Rightarrow> nat \<Rightarrow> bool \<Rightarrow> bool" where
  "kill_switch_seen env p0 k rejected \<longleftrightarrow>
    (\<exists>j < k. (\<exists>s0. graph_run build_graph env j p0 = At RISK_MANAGER s0) \<and> (rejected \<longleftrightarrow> ge_kill_switch (env j)))"

definition risk_reviewed :: "(nat \<Rightarrow> graph_env) \<Rightarrow> graph_position \<Rightarrow> nat \<Rightarrow> graph_state \<Rightarrow> bool" where
  "risk_reviewed env p0 k s \<longleftrightarrow>
    (\<exists>r. gs_risk_assessment s = Some r \<and> kill_switch_seen env p0 k (ra_decision r = Risk_Reject))"

definition cleared :: "(nat \<Rightarrow> graph_env) \<Rightarrow> graph_position \<Rightarrow> nat \<Rightarrow> nat \<Rightarrow> graph_state \<Rightarrow> bool" where
  "cleared env p0 k l s \<longleftrightarrow> (1 \<le> l \<longrightarrow> complied s) \<and> (2 \<le> l \<longrightarrow> screened env k s) \<and> (3 \<le> l \<longrightarrow> backtested env k s)
     \<and> (4 \<le> l \<longrightarrow> profitable s) \<and> (6 \<le> l \<longrightarrow> robust s \<and> risk_reviewed env p0 k s)"

definition gate_invariant :: "(nat \<Rightarrow> graph_env) \<Rightarrow> graph_position \<Rightarrow> nat \<Rightarrow> graph_position \<Rightarrow> bool" where
  "gate_invariant env p0 k p =
    (case p of
       At n s \<Rightarrow> gs_deployment_recommendation s = None \<and> cleared env p0 k (stage n) s
     | Finished s \<Rightarrow> (case gs_deployment_recommendation s of
         None \<Rightarrow> True
       | Some d \<Rightarrow> cleared env p0 k 6 s \<and> kill_switch_seen env p0 k (dr_recommended_status d = Recommend_Reject))
     | Crashed _ \<Rightarrow> True)"

lemma cleared_mono: "cleared env p0 k l s \<Longrightarrow> k \<le> k' \<Longrightarrow> l' \<le> l \<Longrightarrow> cleared env p0 k' l' s"
  unfolding cleared_def screened_def backtested_def risk_reviewed_def kill_switch_seen_def
  by (meson le_trans less_le_trans)

text \<open>A node that writes none of the gates' fields keeps every gate.\<close>
lemma cleared_frame:
  assumes "gs_compliance_verdict s' = gs_compliance_verdict s" "gs_python_code s' = gs_python_code s"
    and "gs_backtest_metrics s' = gs_backtest_metrics s" "gs_optimization_result s' = gs_optimization_result s"
    and "gs_risk_assessment s' = gs_risk_assessment s"
  shows "cleared env p0 k l s' = cleared env p0 k l s"
  using assms by (simp add: cleared_def complied_def screened_def backtested_def profitable_def robust_def risk_reviewed_def)

lemma not_block [simp]: "v \<noteq> Block \<longleftrightarrow> v = Pass" by (cases v) simp_all

text \<open>What the next stage needs, established by the node before it.\<close>
lemma stage_established:
  "route_after_compliance s' = Inr (Some PYTHON_VALIDATOR) \<Longrightarrow> complied s'"
  "python_validator_node e s = Inr s' \<Longrightarrow> route_after_validation s' = Inr (Some BACKTESTING) \<Longrightarrow>
     \<exists>c. gs_python_code s = Some c \<and> fst (ge_safety e (py_code c)) \<and> fst (ge_lint e (py_code c)) \<and> fst (ge_sandbox e (py_code c))"

  "evaluator_node e s = Inr s' \<Longrightarrow> route_after_evaluation s' = Inr (Some OPTIMIZATION) \<Longrightarrow> profitable s"
  "risk_manager_node e s = Inr s' \<Longrightarrow> robust s \<and>
     (\<exists>r. gs_risk_assessment s' = Some r \<and> (ra_decision r = Risk_Reject \<longleftrightarrow> ge_kill_switch e))"
  "deployment_node e s = Inr s' \<Longrightarrow> \<exists>r d. gs_risk_assessment s = Some r \<and> gs_deployment_recommendation s' = Some d \<and>
     (dr_recommended_status d = Recommend_Reject \<longleftrightarrow> ra_decision r = Risk_Reject)"
  by (auto simp: route_after_compliance_def route_after_validation_def route_after_evaluation_def complied_def profitable_def
      robust_def python_validator_node_def validation_fail_def evaluator_node_def risk_manager_node_def
      deployment_node_def failure_reasons_def Let_def case_prod_unfold
    split: option.splits if_splits list.splits sum.splits)

lemma backtest_established:
  assumes "backtesting_node e s = Inr s'"
  shows "\<exists>c m us a b. gs_python_code s = Some c \<and> gs_backtest_metrics s' = Some m \<and>
     br_passed (ge_backtest e (py_code c) us a b DEFAULT_INITIAL_CAPITAL) \<and>
     bm_sharpe_ratio m = or_zero (br_sharpe_ratio (ge_backtest e (py_code c) us a b DEFAULT_INITIAL_CAPITAL))"
proof -
  obtain c u us d m where "gs_python_code s = Some c" "gs_backtest_metrics s' = Some m"
    "br_passed (ge_backtest e (py_code c) (u # us) (d - DEFAULT_BACKTEST_LOOKBACK_DAYS) d DEFAULT_INITIAL_CAPITAL)"
    "bm_sharpe_ratio m = or_zero (br_sharpe_ratio (ge_backtest e (py_code c) (u # us) (d - DEFAULT_BACKTEST_LOOKBACK_DAYS) d DEFAULT_INITIAL_CAPITAL))"
    using assms by (auto simp: backtesting_node_def Let_def split: option.splits list.splits if_splits)
  then show ?thesis by blast
qed

lemma cleared_0 [simp]: "cleared env p0 k 0 s" by (simp add: cleared_def)

lemma gate_step:
  assumes pos: "graph_run build_graph env k p0 = At n s" and inv: "gate_invariant env p0 k (At n s)" and nf: "node_fn (env k) n s = Inr s'" and edge: "build_graph n s' = Inr (Some m)"
  shows "cleared env p0 (Suc k) (stage m) s'"
proof -
  note frames = node_frames[OF nf]
  have old: "cleared env p0 (Suc k) (stage n) s" using inv cleared_mono[of env p0 k "stage n" s "Suc k" "stage n"] by (simp add: gate_invariant_def)
  have same: "complied s' = complied s" if "n \<noteq> COMPLIANCE_NODE" using frames(3) that by (simp add: complied_def)
  have same2: "screened env (Suc k) s' = screened env (Suc k) s" if "n \<noteq> PYTHON_CODE_GENERATOR"
    using frames(2) that by (simp add: screened_def)
  have same3: "backtested env (Suc k) s' = backtested env (Suc k) s" "profitable s' = profitable s"
    if "n \<notin> {PYTHON_CODE_GENERATOR, BACKTESTING}" using frames(2,4) that by (simp_all add: backtested_def profitable_def)
  have same4: "robust s' = robust s" if "n \<noteq> OPTIMIZATION" using frames(5) that by (simp add: robust_def)
  note same = same same2 same3 same4
  show ?thesis
  proof (cases n)
    case COMPLIANCE_NODE
    then have "m = PYTHON_VALIDATOR" "complied s'" using edge stage_established(1)[of s']
      by (auto simp: build_graph_def shared_edges_def route_after_compliance_def split: option.splits if_splits)
    then show ?thesis by (simp add: cleared_def)
  next
    case PYTHON_VALIDATOR
    have e: "route_after_validation s' = Inr (Some m)" and v: "python_validator_node (env k) s = Inr s'"
      using edge nf PYTHON_VALIDATOR by (simp_all add: build_graph_def shared_edges_def node_fn_def)
    have "m = BACKTESTING \<or> m = PYTHON_CODE_GENERATOR" using e by (auto simp: route_after_validation_def split: option.splits if_splits)
    moreover have "screened env (Suc k) s'" if "m = BACKTESTING"
      using stage_established(2)[OF v] e that same2 PYTHON_VALIDATOR by (fastforce simp: screened_def)
    ultimately show ?thesis using old same PYTHON_VALIDATOR by (auto simp: cleared_def)
  next
    case BACKTESTING
    then have "m = EVALUATOR" using edge by (simp add: build_graph_def shared_edges_def)
    moreover have "backtested env (Suc k) s'"
    proof -
      obtain c r us a b where c: "gs_python_code s = Some c" "gs_backtest_metrics s' = Some r"
          "br_passed (ge_backtest (env k) (py_code c) us a b DEFAULT_INITIAL_CAPITAL)"
          "bm_sharpe_ratio r = or_zero (br_sharpe_ratio (ge_backtest (env k) (py_code c) us a b DEFAULT_INITIAL_CAPITAL))"
        using backtest_established[of "env k" s s'] nf BACKTESTING by (auto simp: node_fn_def)
      moreover have "gs_python_code s' = Some c" using frames(2) BACKTESTING c by simp
      ultimately show ?thesis unfolding backtested_def Let_def by blast
    qed
    ultimately show ?thesis using old same BACKTESTING by (auto simp: cleared_def)
  next
    case EVALUATOR
    have e: "route_after_evaluation s' = Inr (Some m)" and v: "evaluator_node (env k) s = Inr s'"
      using edge nf EVALUATOR by (simp_all add: build_graph_def node_fn_def)
    have "m = OPTIMIZATION \<or> m = MEMORY_INGEST" using e by (auto simp: route_after_evaluation_def split: option.splits if_splits)
    then show ?thesis using old same stage_established(3)[OF v] e EVALUATOR by (auto simp: cleared_def)
  next
    case OPTIMIZATION
    then show ?thesis using old same edge by (auto simp: cleared_def build_graph_def)
  next
    case RISK_MANAGER
    then have "robust s" "risk_reviewed env p0 (Suc k) s'"
      using stage_established(4)[of "env k" s s'] nf pos RISK_MANAGER by (auto simp: node_fn_def risk_reviewed_def kill_switch_seen_def)
    then show ?thesis using old same edge RISK_MANAGER by (auto simp: cleared_def build_graph_def)
  next
    case MEMORY_INGEST
    then show ?thesis using edge by (auto simp: build_graph_def route_after_memory_ingest_def split: if_splits)
  qed (use edge in \<open>auto simp: build_graph_def shared_edges_def\<close>)
qed

lemma finish_step:
  assumes inv: "gate_invariant env p0 k (At n s)" and nf: "node_fn (env k) n s = Inr s'" and edge: "build_graph n s' = Inr None"
  shows "gate_invariant env p0 (Suc k) (Finished s')"
proof (cases "n = DEPLOYMENT")
  case True
  then have d: "deployment_node (env k) s = Inr s'" using nf by (simp add: node_fn_def)
  have old: "cleared env p0 k 6 s" using inv True by (simp add: gate_invariant_def)
  then obtain r where r: "gs_risk_assessment s = Some r" "kill_switch_seen env p0 (Suc k) (ra_decision r = Risk_Reject)"
    by (auto simp: cleared_def risk_reviewed_def kill_switch_seen_def intro: less_SucI)
  have "cleared env p0 (Suc k) 6 s'"
    using cleared_mono[OF old, of "Suc k" 6] cleared_frame[of s' s env p0 "Suc k" 6] node_frames[OF nf] True by simp
  then show ?thesis using stage_established(5)[OF d] r by (auto simp: gate_invariant_def)
next
  case False
  then show ?thesis using inv node_frames(1)[OF nf] by (simp add: gate_invariant_def)
qed

lemma gate_invariant_run:
  assumes start: "p0 = At CEO_AGENT (initial_graph_state thread capital curve)"
  shows "gate_invariant env p0 k (graph_run build_graph env k p0)"
proof (induction k)
  case 0
  then show ?case by (simp add: start gate_invariant_def initial_graph_state_def)
next
  case (Suc k)
  show ?case
  proof (cases "graph_run build_graph env k p0")
    case (At n s)
    then have inv: "gate_invariant env p0 k (At n s)" using Suc by simp
    show ?thesis
    proof (cases "graph_step build_graph (env k) (At n s)")
      case p: (At m s')
      then have nf: "node_fn (env k) n s = Inr s'" and e: "build_graph n s' = Inr (Some m)" by (simp_all add: graph_step_At)
      have "n \<noteq> DEPLOYMENT" using e by (auto simp: build_graph_def)
      then show ?thesis using gate_step[OF At inv nf e] inv At p node_frames(1)[OF nf] by (simp add: gate_invariant_def)
    next
      case f: (Finished s')
      then have "node_fn (env k) n s = Inr s'" "build_graph n s' = Inr None" by (simp_all add: graph_step_At)
      then show ?thesis using finish_step[OF inv] At f by simp
    qed (simp add: At gate_invariant_def)
  next
    case (Finished s)
    show ?thesis
    proof (cases "gs_deployment_recommendation s")
      case (Some d)
      then have "cleared env p0 k 6 s" "kill_switch_seen env p0 k (dr_recommended_status d = Recommend_Reject)"
        using Suc Finished by (simp_all add: gate_invariant_def)
      then show ?thesis using Some Finished cleared_mono[of env p0 k 6 s "Suc k" 6]
        by (auto simp: gate_invariant_def kill_switch_seen_def intro: less_SucI)
    qed (simp add: Finished gate_invariant_def)
  qed (simp add: gate_invariant_def)
qed

text \<open>C29. A recommendation has passed every gate. Whatever the models, the feeds and the sandbox answer from step
  to step: if a run of the research graph ends with a recommendation, the strategy's compliance verdict is
  Pass, its very code passed the safety scan, the linter and the sandbox, the metrics belong to a passed
  backtest of that code with a Sharpe ratio above 1.5, and the Monte Carlo check passed; and the
  recommendation is a rejection exactly if the kill switch was tripped when the risk manager looked.\<close>
theorem recommendation_passed_every_gate:
  assumes "p0 = At CEO_AGENT (initial_graph_state thread capital curve)"
    and "graph_run build_graph env k p0 = Finished s" and "gs_deployment_recommendation s = Some d"
  shows "complied s \<and> screened env k s \<and> backtested env k s \<and> profitable s \<and> robust s
    \<and> kill_switch_seen env p0 k (dr_recommended_status d = Recommend_Reject)"
  using gate_invariant_run[OF assms(1), of env k] assms(2,3) by (simp add: gate_invariant_def cleared_def)

section \<open>Rejections and escalation\<close>

definition node_at :: "graph_position \<Rightarrow> graph_node option" where
  "node_at p = (case p of At n _ \<Rightarrow> Some n | _ \<Rightarrow> None)"

text \<open>Visits of the CEO agent, and rejections ingested since the last of them, before step \<open>k\<close>.\<close>
fun ceo_visits :: "(nat \<Rightarrow> graph_position) \<Rightarrow> nat \<Rightarrow> nat" where
  "ceo_visits pos 0 = 0"
| "ceo_visits pos (Suc k) = (if node_at (pos k) = Some CEO_AGENT then Suc (ceo_visits pos k) else ceo_visits pos k)"

fun strikes :: "(nat \<Rightarrow> graph_position) \<Rightarrow> nat \<Rightarrow> nat" where
  "strikes pos 0 = 0"
| "strikes pos (Suc k) =
    (if node_at (pos k) = Some CEO_AGENT then 0
     else if node_at (pos k) = Some MEMORY_INGEST then Suc (strikes pos k) else strikes pos k)"

text \<open>The rejection counter runs one behind in the first cycle: a rejection is counted when the generator
  starts again. After an escalation the old verdict is still in the state and is counted once more.\<close>
definition strike_invariant :: "nat \<Rightarrow> nat \<Rightarrow> graph_position \<Rightarrow> bool" where
  "strike_invariant visits x p =
    (case p of
       At n s \<Rightarrow>
        (let c = gs_strategy_rejection_count s; late = (if 2 \<le> visits then 1 else 0) in
         (if n = CEO_AGENT then rejected_verdict s \<longleftrightarrow> 0 < visits else 0 < visits)
         \<and> (n = MARKET_ANALYST \<longrightarrow> c = 0 \<and> x = 0 \<and> (rejected_verdict s \<longleftrightarrow> 2 \<le> visits))
         \<and> (n = STRATEGY_GENERATOR \<longrightarrow> c < 5 \<and> c + (if rejected_verdict s then 1 else 0) = x + late)
         \<and> (n \<in> {OPTIONS_STRATEGY_AGENT, PYTHON_CODE_GENERATOR, COMPLIANCE_NODE, PYTHON_VALIDATOR, BACKTESTING, EVALUATOR, MEMORY_INGEST}
              \<longrightarrow> c \<le> 5 \<and> c = x + late)
         \<and> (n = MEMORY_INGEST \<longrightarrow> rejected_verdict s))
     | _ \<Rightarrow> True)"

lemma rejected_frame: "node_fn e n s = Inr s' \<Longrightarrow> n \<noteq> EVALUATOR \<Longrightarrow> rejected_verdict s' = rejected_verdict s"
  using node_frames(7)[of e n s s'] by (simp add: rejected_verdict_def)

lemma counter_effects:
  "node_fn e CEO_AGENT s = Inr s' \<Longrightarrow> gs_strategy_rejection_count s' = 0"
  "node_fn e STRATEGY_GENERATOR s = Inr s' \<Longrightarrow>
     gs_strategy_rejection_count s' = gs_strategy_rejection_count s + (if rejected_verdict s then 1 else 0)"
  by (auto simp: node_fn_def node_defs split: option.splits)

text \<open>Where the main graph can go from a node.\<close>
lemma main_edges:
  "build_graph n s = Inr (Some m) \<Longrightarrow>
    (case n of
       CEO_AGENT \<Rightarrow> m = MARKET_ANALYST | MARKET_ANALYST \<Rightarrow> m = STRATEGY_GENERATOR
     | STRATEGY_GENERATOR \<Rightarrow> m = OPTIONS_STRATEGY_AGENT | OPTIONS_STRATEGY_AGENT \<Rightarrow> m = PYTHON_CODE_GENERATOR
     | PYTHON_CODE_GENERATOR \<Rightarrow> m = COMPLIANCE_NODE | COMPLIANCE_NODE \<Rightarrow> m = PYTHON_VALIDATOR
     | PYTHON_VALIDATOR \<Rightarrow> m = BACKTESTING \<or> m = PYTHON_CODE_GENERATOR
     | BACKTESTING \<Rightarrow> m = EVALUATOR
     | EVALUATOR \<Rightarrow> m = OPTIMIZATION \<and> \<not> rejected_verdict s \<or> m = MEMORY_INGEST \<and> rejected_verdict s
     | MEMORY_INGEST \<Rightarrow> m = (if 5 \<le> gs_strategy_rejection_count s then CEO_AGENT else STRATEGY_GENERATOR)
     | OPTIMIZATION \<Rightarrow> m = RISK_MANAGER | RISK_MANAGER \<Rightarrow> m = DEPLOYMENT | DEPLOYMENT \<Rightarrow> False)"
  by (cases n) (auto simp: build_graph_def shared_edges_def route_after_compliance_def route_after_validation_def
    route_after_evaluation_def route_after_memory_ingest_def rejected_verdict_def MAX_REJECTIONS_BEFORE_ESCALATION_def
    split: option.splits if_splits)

lemma strike_step:
  assumes inv: "strike_invariant v x (At n s)" and nf: "node_fn e n s = Inr s'" and edge: "build_graph n s' = Inr (Some m)"
  shows "strike_invariant (if n = CEO_AGENT then Suc v else v)
    (if n = CEO_AGENT then 0 else if n = MEMORY_INGEST then Suc x else x) (At m s')"
  using inv main_edges[OF edge] rejected_frame[OF nf] node_frames(9)[OF nf] counter_effects[of e s s'] nf
  by (cases n) (auto simp: strike_invariant_def Let_def split: if_splits)

lemma strike_invariant_run:
  assumes start: "p0 = At CEO_AGENT (initial_graph_state thread capital curve)"
    and pos: "pos = (\<lambda>k. graph_run build_graph env k p0)"
  shows "strike_invariant (ceo_visits pos k) (strikes pos k) (pos k)"
proof (induction k)
  case 0
  then show ?case by (simp add: start pos strike_invariant_def rejected_verdict_def initial_graph_state_def)
next
  case (Suc k)
  have next_pos: "pos (Suc k) = graph_step build_graph (env k) (pos k)" by (simp add: pos)
  show ?case
  proof (cases "pos (Suc k)")
    case next_at: (At m s')
    obtain n s where at: "pos k = At n s"
      using next_pos next_at by (cases "pos k") auto
    then have "graph_step build_graph (env k) (At n s) = At m s'" using next_pos next_at by simp
    then have "node_fn (env k) n s = Inr s'" "build_graph n s' = Inr (Some m)" by (simp_all add: graph_step_At)
    then show ?thesis using strike_step[of "ceo_visits pos k" "strikes pos k" n s "env k" s' m] Suc at next_at
      by (cases n) (simp_all add: node_at_def)
  qed (simp_all add: strike_invariant_def)
qed

text \<open>The escalation rule, exactly. Whenever the research graph escalates to the CEO agent, the strategies
  rejected since the CEO agent last ran number six in the first cycle of a run and five in every later
  one, whatever the agents answered in between.\<close>
theorem escalation_after_six_then_five:
  assumes "p0 = At CEO_AGENT (initial_graph_state thread capital curve)" and "pos = (\<lambda>k. graph_run build_graph env k p0)"
    and "node_at (pos k) = Some MEMORY_INGEST" and "node_at (pos (Suc k)) = Some CEO_AGENT"
  shows "strikes pos (Suc k) = (if ceo_visits pos (Suc k) = 1 then 6 else 5)"
proof -
  obtain s s' where at: "pos k = At MEMORY_INGEST s" "pos (Suc k) = At CEO_AGENT s'"
    using assms(3,4) by (auto simp: node_at_def split: graph_position.splits)
  then have "graph_step build_graph (env k) (At MEMORY_INGEST s) = At CEO_AGENT s'" using assms(2) by simp
  then have step: "node_fn (env k) MEMORY_INGEST s = Inr s'" "build_graph MEMORY_INGEST s' = Inr (Some CEO_AGENT)"
    by (simp_all add: graph_step_At)
  have "5 \<le> gs_strategy_rejection_count s"
    using main_edges[OF step(2)] node_frames(9)[OF step(1)] by (simp split: if_splits)
  moreover have "strike_invariant (ceo_visits pos k) (strikes pos k) (At MEMORY_INGEST s)"
    using strike_invariant_run[OF assms(1,2), of k] at by simp
  ultimately show ?thesis using at by (auto simp: strike_invariant_def Let_def node_at_def split: if_splits)
qed

section \<open>Repairs\<close>

text \<open>Failed validations before step \<open>k\<close>.\<close>
fun failed_validations :: "(nat \<Rightarrow> graph_position) \<Rightarrow> nat \<Rightarrow> nat" where
  "failed_validations pos 0 = 0"
| "failed_validations pos (Suc k) =
    (if node_at (pos k) = Some PYTHON_VALIDATOR \<and>
        (case pos (Suc k) of At m _ \<Rightarrow> m = PYTHON_CODE_GENERATOR | Finished _ \<Rightarrow> True | Crashed _ \<Rightarrow> False)
     then Suc (failed_validations pos k) else failed_validations pos k)"

definition retries_of :: "graph_position \<Rightarrow> nat option" where
  "retries_of p = (case p of At _ s \<Rightarrow> Some (gs_code_validation_retry_count s) | Finished s \<Rightarrow> Some (gs_code_validation_retry_count s)
     | Crashed _ \<Rightarrow> None)"

lemma validator_effect:
  "node_fn e PYTHON_VALIDATOR s = Inr s' \<Longrightarrow> \<exists>v. gs_validation_result s' = Some v \<and>
     gs_code_validation_retry_count s' = gs_code_validation_retry_count s + (if vr_passed v then 0 else 1)"
  by (auto simp: node_fn_def node_defs validation_fail_def Let_def split: option.splits if_splits)

lemma validation_exits:
  assumes "edges = build_graph \<or> edges = build_suggestion_regeneration_graph" "gs_validation_result s' = Some v"
  shows "edges PYTHON_VALIDATOR s' = Inr (if vr_passed v then Some BACKTESTING
    else if 3 \<le> gs_code_validation_retry_count s' then None else Some PYTHON_CODE_GENERATOR)"
  using assms by (auto simp: build_graph_def build_suggestion_regeneration_graph_def shared_edges_def route_after_validation_def
    MAX_CODE_VALIDATION_RETRIES_def)

definition repair_invariant :: "nat \<Rightarrow> nat \<Rightarrow> graph_position \<Rightarrow> bool" where
  "repair_invariant c0 fails p =
    (case p of At _ s \<Rightarrow> gs_code_validation_retry_count s = c0 + fails \<and> gs_code_validation_retry_count s < 3
     | Finished s \<Rightarrow> gs_code_validation_retry_count s = c0 + fails \<and> gs_code_validation_retry_count s \<le> 3
     | Crashed _ \<Rightarrow> c0 + fails \<le> 3)"

lemma repair_invariant_run:
  assumes g: "edges = build_graph \<or> edges = build_suggestion_regeneration_graph"
    and pos: "pos = (\<lambda>k. graph_run edges env k (At n0 s0))" and start: "gs_code_validation_retry_count s0 < 3"
  shows "repair_invariant (gs_code_validation_retry_count s0) (failed_validations pos k) (pos k)"
proof (induction k)
  case 0
  then show ?case using start by (simp add: pos repair_invariant_def)
next
  case (Suc k)
  have next_pos: "pos (Suc k) = graph_step edges (env k) (pos k)" by (simp add: pos)
  show ?case
  proof (cases "pos k")
    case at: (At n s)
    show ?thesis
    proof (cases "halt_on_entry (env k) n s")
      case (Inl err)
      then have "pos (Suc k) = Crashed err" using next_pos at by (simp add: graph_step_def)
      then show ?thesis using Suc at by (simp add: repair_invariant_def)
    next
      case h: (Inr s')
      then have nf: "node_fn (env k) n s = Inr s'" by (simp add: halt_on_entry_def split: if_splits)
      have p: "pos (Suc k) = (case edges n s' of Inl err \<Rightarrow> Crashed err | Inr None \<Rightarrow> Finished s' | Inr (Some m) \<Rightarrow> At m s')"
        using next_pos at h by (simp add: graph_step_def)
      show ?thesis
      proof (cases "n = PYTHON_VALIDATOR")
        case n: True
        then obtain v where v: "gs_validation_result s' = Some v"
            "gs_code_validation_retry_count s' = gs_code_validation_retry_count s + (if vr_passed v then 0 else 1)"
          using validator_effect[of "env k" s s'] nf by auto
        show ?thesis using Suc at n p validation_exits[OF g v(1)] v(2) by (auto simp: repair_invariant_def node_at_def)
      next
        case False
        then show ?thesis using Suc at p node_frames(8)[OF nf]
          by (auto simp: repair_invariant_def node_at_def split: sum.splits option.splits)
      qed
    qed
  next
    case (Finished s)
    then show ?thesis using Suc next_pos by (simp add: repair_invariant_def node_at_def)
  next
    case (Crashed e)
    then show ?thesis using Suc next_pos by (simp add: repair_invariant_def node_at_def)
  qed
qed

text \<open>One budget of repairs for a whole run. In a run of either graph, over all the strategies it generates, the
  code fails validation at most three times, and never again once it has failed three times: the retry
  counter is not reset when a rejected strategy is replaced.\<close>
theorem repairs_shared_by_all_strategies:
  assumes "edges = build_graph \<or> edges = build_suggestion_regeneration_graph" and "gs_code_validation_retry_count s0 = 0"
  shows "failed_validations (\<lambda>k. graph_run edges env k (At n0 s0)) k \<le> 3"
  using repair_invariant_run[OF assms(1) refl, of s0 env n0 k] assms(2)
  by (auto simp: repair_invariant_def split: graph_position.splits)

section \<open>A suggestion ends\<close>

text \<open>Steps left in the smaller graph.\<close>
definition repairs_left :: "graph_state \<Rightarrow> nat" where
  "repairs_left s = max 1 (3 - gs_code_validation_retry_count s)"

fun steps_left :: "graph_position \<Rightarrow> nat" where
  "steps_left (At n s) =
    (case n of EVALUATOR \<Rightarrow> 1 | BACKTESTING \<Rightarrow> 2 | PYTHON_VALIDATOR \<Rightarrow> 3 * repairs_left s | COMPLIANCE_NODE \<Rightarrow> 3 * repairs_left s + 1
     | PYTHON_CODE_GENERATOR \<Rightarrow> 3 * repairs_left s + 2 | OPTIONS_STRATEGY_AGENT \<Rightarrow> 3 * repairs_left s + 3
     | STRATEGY_GENERATOR \<Rightarrow> 3 * repairs_left s + 4 | _ \<Rightarrow> 1)"
| "steps_left _ = 0"

lemma suggestion_edges:
  "build_suggestion_regeneration_graph n s = Inr (Some m) \<Longrightarrow>
    (case n of STRATEGY_GENERATOR \<Rightarrow> m = OPTIONS_STRATEGY_AGENT | OPTIONS_STRATEGY_AGENT \<Rightarrow> m = PYTHON_CODE_GENERATOR
     | PYTHON_CODE_GENERATOR \<Rightarrow> m = COMPLIANCE_NODE | COMPLIANCE_NODE \<Rightarrow> m = PYTHON_VALIDATOR
     | PYTHON_VALIDATOR \<Rightarrow> m = BACKTESTING \<or> m = PYTHON_CODE_GENERATOR | BACKTESTING \<Rightarrow> m = EVALUATOR | _ \<Rightarrow> False)"
  by (cases n) (auto simp: build_suggestion_regeneration_graph_def shared_edges_def route_after_compliance_def
    route_after_validation_def split: option.splits if_splits)

lemma suggestion_step_decreases:
  "steps_left (graph_step build_suggestion_regeneration_graph e (At n s)) < steps_left (At n s)"
proof (cases "graph_step build_suggestion_regeneration_graph e (At n s)")
  case (At m s')
  then have nf: "node_fn e n s = Inr s'" and edge: "build_suggestion_regeneration_graph n s' = Inr (Some m)"
    by (simp_all add: graph_step_At)
  show ?thesis
  proof (cases "n = PYTHON_VALIDATOR")
    case True
    then obtain v where v: "gs_validation_result s' = Some v"
        "gs_code_validation_retry_count s' = gs_code_validation_retry_count s + (if vr_passed v then 0 else 1)"
      using validator_effect[of e s s'] nf by auto
    have "build_suggestion_regeneration_graph PYTHON_VALIDATOR s' = Inr (if vr_passed v then Some BACKTESTING
        else if 3 \<le> gs_code_validation_retry_count s' then None else Some PYTHON_CODE_GENERATOR)"
      by (rule validation_exits) (use v in simp_all)
    then show ?thesis using edge True v At by (auto simp: repairs_left_def split: if_splits)
  next
    case False
    then have "repairs_left s' = repairs_left s" using node_frames(8)[OF nf] by (simp add: repairs_left_def)
    then show ?thesis using suggestion_edges[OF edge] At False by (cases n) (auto simp: repairs_left_def)
  qed
qed (auto simp: repairs_left_def split: graph_node.splits)

lemma suggestion_counts_down:
  "steps_left (graph_run build_suggestion_regeneration_graph env k p) \<le> steps_left p - k"
proof (induction k)
  case (Suc k)
  let ?p = "graph_run build_suggestion_regeneration_graph env k p"
  show ?case
  proof (cases ?p)
    case (At n s)
    then show ?thesis using suggestion_step_decreases[of "env k" n s] Suc by simp
  qed simp_all
qed simp

text \<open>C30. A reviewed suggestion is decided. Whatever the agents answer, the graph that regenerates a strategy from
  a suggestion comes to its end, or to an error, within thirteen steps.\<close>
theorem suggestion_run_ends:
  "\<exists>k \<le> 13. \<forall>n s. graph_run build_suggestion_regeneration_graph env k (At STRATEGY_GENERATOR s0) \<noteq> At n s"
proof -
  let ?p = "graph_run build_suggestion_regeneration_graph env 13 (At STRATEGY_GENERATOR s0)"
  have "steps_left ?p = 0"
    using suggestion_counts_down[of env 13 "At STRATEGY_GENERATOR s0"] by (simp add: repairs_left_def del: graph_run.simps)
  moreover have "0 < steps_left (At n s)" for n s by (auto simp: repairs_left_def split: graph_node.splits)
  ultimately have "\<forall>n s. ?p \<noteq> At n s" by (metis less_irrefl)
  then show ?thesis by blast
qed

section \<open>Grounded option strategies\<close>

text \<open>Every contract of a chain has a symbol of its own.\<close>
definition distinct_symbols :: "option_chain \<Rightarrow> bool" where
  "distinct_symbols c \<longleftrightarrow> (\<forall>i \<in> set (oc_instruments c). \<forall>j \<in> set (oc_instruments c). oi_symbol i = oi_symbol j \<longrightarrow> oi_strike i = oi_strike j)"

lemma ground_leg_listed:
  assumes "(leg_strike l, leg_option_type l) \<in> fst ` set (chain_pairs c)"
  shows "\<exists>i \<in> set (oc_instruments c). oi_strike i = leg_strike l \<and> so_symbol (ground_leg c l) = oi_symbol i"
proof -
  obtain v where v: "map_of (symbol_lookup c) (leg_strike l, leg_option_type l) = Some v"
    using assms by (cases "map_of (symbol_lookup c) (leg_strike l, leg_option_type l)") (auto simp: symbol_lookup_def map_of_eq_None_iff)
  then have "((leg_strike l, leg_option_type l), v) \<in> set (chain_pairs c)"
    using map_of_SomeD[OF v] by (simp add: symbol_lookup_def)
  then show ?thesis using v by (auto simp: chain_pairs_def ground_leg_def dict_get_default_def)
qed

lemma proposal_listed:
  assumes "generate_options_strategy e u c directive = Some legs"
  shows "scan_passed legs \<and> (\<forall>l \<in> set legs. (leg_strike l, leg_option_type l) \<in> fst ` set (chain_pairs c))"
  using assms
  by (auto simp: generate_options_strategy_def attempt_legs_def parse_legs_def split: if_splits option.splits)

lemma options_node_grounds:
  assumes "options_strategy_node e s = Inr s1" "gs_strategy_logic s = Some l" "lg_asset_class l = FnO"
    and "declared_legs s1 = Some ls"
  obtains u x c legs where "ge_option_chain e u x = Some c" "generate_options_strategy e u c (lg_hypothesis l) = Some legs"
    "ls = map (ground_leg c) legs"
  using assms
  by (auto simp: options_strategy_node_def fetch_nearest_chain_def declared_legs_def Let_def split: if_splits option.splits list.splits)

text \<open>A sold leg under its contract symbol has no hedge: another leg of that symbol has its strike.\<close>
lemma grounded_naked:
  assumes "distinct_symbols c" "\<forall>l \<in> set legs. (leg_strike l, leg_option_type l) \<in> fst ` set (chain_pairs c)"
    and "l \<in> set legs" "leg_side_of l = leg_sell"
  shows "naked (map (scanner_leg \<circ> ground_leg c) legs)"
proof -
  have "\<not> covers (scanner_leg (ground_leg c h)) (scanner_leg (ground_leg c l))" if h: "h \<in> set legs" for h
  proof
    assume cov: "covers (scanner_leg (ground_leg c h)) (scanner_leg (ground_leg c l))"
    obtain i where i: "i \<in> set (oc_instruments c)" "oi_strike i = leg_strike l" "so_symbol (ground_leg c l) = oi_symbol i"
      using ground_leg_listed assms(2,3) by blast
    obtain j where j: "j \<in> set (oc_instruments c)" "oi_strike j = leg_strike h" "so_symbol (ground_leg c h) = oi_symbol j"
      using ground_leg_listed assms(2) h by blast
    have "oi_symbol j = oi_symbol i" using cov i(3) j(3) by (simp add: covers_def scanner_leg_def)
    then have "leg_strike h = leg_strike l" using assms(1) i j by (metis distinct_symbols_def)
    then show False using cov by (auto simp: covers_def scanner_leg_def ground_leg_def split: option_type.splits)
  qed
  moreover have "leg_side_of (scanner_leg (ground_leg c l)) = leg_sell" using assms(4) by (simp add: scanner_leg_def ground_leg_def)
  ultimately show ?thesis using assms(3) unfolding naked_def by (intro bexI[of _ "scanner_leg (ground_leg c l)"]) auto
qed

text \<open>The compliance gate blocks every hedged option strategy. The options agent accepts only proposals that pass
  the naked-options scan over the underlying, and then writes the symbol of each contract into the legs. The
  compliance node scans those legs again, where a hedge must carry the same symbol: if the contracts of
  the chain have symbols of their own, any proposal with a sold leg is blocked and the run ends.\<close>
theorem grounded_spread_is_blocked:
  assumes "options_strategy_node e s = Inr s1" and "gs_strategy_logic s = Some l" and "lg_asset_class l = FnO"
    and "\<forall>u x c. ge_option_chain e u x = Some c \<longrightarrow> distinct_symbols c"
    and "declared_legs s1 = Some ls" and "\<exists>leg \<in> set ls. so_side leg = leg_sell"
    and "declared_legs s2 = declared_legs s1" and "compliance_node e2 s2 = Inr s3"
  shows "(\<exists>c legs. ls = map (ground_leg c) legs \<and> scan_passed legs)
    \<and> \<not> complied s3 \<and> build_graph COMPLIANCE_NODE s3 = Inr None"
proof -
  obtain u x c legs where c: "ge_option_chain e u x = Some c" "generate_options_strategy e u c (lg_hypothesis l) = Some legs"
      "ls = map (ground_leg c) legs"
    using options_node_grounds[OF assms(1-3,5)] .
  note listed = proposal_listed[OF c(2)]
  obtain sold where "sold \<in> set legs" "leg_side_of sold = leg_sell" using assms(6) c(3) by (auto simp: ground_leg_def)
  then have "naked (map (scanner_leg \<circ> ground_leg c) legs)" using grounded_naked assms(4) c(1) listed by blast
  then have scan: "scan_for_naked_options (map scanner_leg ls) \<noteq> []" using scan_nonempty_iff c(3) by simp
  have "scanner_legs s2 = Some (map scanner_leg ls)" using assms(5-7) by (auto simp: scanner_legs_def)
  then obtain r where "gs_compliance_verdict s3 = Some r" "cp_verdict r = Block"
    using assms(8) scan by (auto simp: compliance_node_def evaluate_compliance_def Let_def split: if_splits)
  then show ?thesis using c(3) listed
    by (auto simp: complied_def build_graph_def shared_edges_def route_after_compliance_def)
qed

section \<open>The loop has no bound of its own\<close>

text \<open>An environment in which every agent does its work and no strategy is ever good enough.\<close>
definition usable_idea :: "graph_env \<Rightarrow> strategy_logic \<Rightarrow> bool" where
  "usable_idea e l \<longleftrightarrow> lg_asset_class l = Equity \<and> lg_option_legs l = None \<and> lg_universe l \<noteq> []
     \<and> list_all (is_fresh_symbol e) (lg_universe l)"

definition mediocre :: "graph_env \<Rightarrow> bool" where
  "mediocre e \<longleftrightarrow> (\<forall>n. ge_enabled e n) \<and> (\<forall>s. ge_context e s 0 \<noteq> None)
     \<and> (\<forall>s. case ge_strategy e s of Some l \<Rightarrow> usable_idea e l | None \<Rightarrow> False)
     \<and> (\<forall>s. ge_code e s \<noteq> None) \<and> (\<forall>c. ge_format e c \<noteq> None)
     \<and> (\<forall>c. fst (ge_safety e c) \<and> fst (ge_lint e c) \<and> fst (ge_sandbox e c))
     \<and> (\<forall>c us a b x. br_passed (ge_backtest e c us a b x) \<and> or_zero (br_sharpe_ratio (ge_backtest e c us a b x)) \<le> SHARPE_PASS_THRESHOLD)
     \<and> (\<forall>s. ge_ingest e s)"

text \<open>The abstract machine: the node, the rejection counter, and whether the last verdict was a rejection.\<close>
type_synonym loop_state = "graph_node \<times> nat \<times> bool"

fun loop_next :: "loop_state \<Rightarrow> loop_state" where
  "loop_next (CEO_AGENT, c, r) = (MARKET_ANALYST, 0, r)"
| "loop_next (MARKET_ANALYST, c, r) = (STRATEGY_GENERATOR, c, r)"
| "loop_next (STRATEGY_GENERATOR, c, r) = (OPTIONS_STRATEGY_AGENT, if r then Suc c else c, r)"
| "loop_next (OPTIONS_STRATEGY_AGENT, c, r) = (PYTHON_CODE_GENERATOR, c, r)"
| "loop_next (PYTHON_CODE_GENERATOR, c, r) = (COMPLIANCE_NODE, c, r)"
| "loop_next (COMPLIANCE_NODE, c, r) = (PYTHON_VALIDATOR, c, r)"
| "loop_next (PYTHON_VALIDATOR, c, r) = (BACKTESTING, c, r)"
| "loop_next (BACKTESTING, c, r) = (EVALUATOR, c, r)"
| "loop_next (EVALUATOR, c, r) = (MEMORY_INGEST, c, True)"
| "loop_next (MEMORY_INGEST, c, r) = (if 5 \<le> c then CEO_AGENT else STRATEGY_GENERATOR, c, r)"
| "loop_next (n, c, r) = (n, c, r)"

fun loop_run :: "nat \<Rightarrow> loop_state \<Rightarrow> loop_state" where
  "loop_run 0 a = a"
| "loop_run (Suc k) a = loop_next (loop_run k a)"

text \<open>A concrete state at a node from which a mediocre round continues, and the position an abstract state describes.\<close>
definition loop_shape :: "graph_env \<Rightarrow> graph_node \<Rightarrow> graph_state \<Rightarrow> bool" where
  "loop_shape e n s \<longleftrightarrow> n \<notin> {OPTIMIZATION, RISK_MANAGER, DEPLOYMENT} \<and> gs_account_capital s = None
     \<and> (n \<notin> {CEO_AGENT, MARKET_ANALYST, STRATEGY_GENERATOR} \<longrightarrow> (\<exists>l. gs_strategy_logic s = Some l \<and> usable_idea e l))
     \<and> (n \<in> {COMPLIANCE_NODE, PYTHON_VALIDATOR, BACKTESTING, EVALUATOR, MEMORY_INGEST} \<longrightarrow> gs_python_code s \<noteq> None)
     \<and> (n \<in> {EVALUATOR, MEMORY_INGEST} \<longrightarrow> (\<exists>m. gs_backtest_metrics s = Some m \<and> bm_sharpe_ratio m \<le> SHARPE_PASS_THRESHOLD))
     \<and> (n = MEMORY_INGEST \<longrightarrow> rejected_verdict s)"

fun on_loop :: "graph_env \<Rightarrow> loop_state \<Rightarrow> graph_position \<Rightarrow> bool" where
  "on_loop e (n, c, r) (At m s) \<longleftrightarrow> m = n \<and> c = gs_strategy_rejection_count s \<and> r = rejected_verdict s \<and> loop_shape e n s"
| "on_loop e a p \<longleftrightarrow> False"

lemma market_context_first: "ge_context e s 0 \<noteq> None \<Longrightarrow> List.find (\<lambda>a. ge_context e s a \<noteq> None) [0 ..< MARKET_ANALYST_RETRIES] = Some 0"
  by (simp add: MARKET_ANALYST_RETRIES_def upt_rec)

lemma fresh_head: "usable_idea e l \<Longrightarrow> \<exists>u us d. lg_universe l = u # us \<and> list_all (is_fresh_symbol e) (u # us) \<and> ge_latest_date e u = Some d"
  by (cases "lg_universe l") (auto simp: usable_idea_def is_fresh_symbol_def split: option.splits)

lemma mediocre_idea: "mediocre e \<Longrightarrow> \<exists>l. ge_strategy e s = Some l \<and> usable_idea e l"
proof -
  assume "mediocre e"
  then have "case ge_strategy e s of Some l \<Rightarrow> usable_idea e l | None \<Rightarrow> False" by (simp add: mediocre_def)
  then show ?thesis by (cases "ge_strategy e s") simp_all
qed

lemma loop_step:
  assumes e: "mediocre e" and at: "on_loop e a p"
  shows "on_loop e (loop_next a) (graph_step build_graph e p)"
proof -
  obtain n c r s where a: "a = (n, c, r)" and p: "p = At n s" using at by (cases "(e, a, p)" rule: on_loop.cases) auto
  have on: "c = gs_strategy_rejection_count s" "r = rejected_verdict s" "loop_shape e n s" using at by (simp_all add: a p)
  have en: "ge_enabled e n" using e by (simp add: mediocre_def)
  show ?thesis
  proof (cases n)
    case CEO_AGENT
    then show ?thesis using on en by (auto simp: a p loop_shape_def graph_step_def halt_on_entry_def node_fn_def ceo_agent_node_def
      build_graph_def rejected_verdict_def)
  next
    case MARKET_ANALYST
    have "ge_context e s 0 \<noteq> None" using e by (simp add: mediocre_def)
    then have "market_analyst_node e s = Inr (s\<lparr>gs_market_context := ge_context e s 0\<rparr>)"
      unfolding market_analyst_node_def by (subst market_context_first) simp_all
    then show ?thesis using on en MARKET_ANALYST by (auto simp: a p loop_shape_def graph_step_def halt_on_entry_def node_fn_def
      build_graph_def rejected_verdict_def)
  next
    case STRATEGY_GENERATOR
    obtain l where "ge_strategy e s = Some l" "usable_idea e l" using mediocre_idea[OF e] by blast
    then show ?thesis using on en STRATEGY_GENERATOR by (auto simp: a p loop_shape_def graph_step_def halt_on_entry_def node_fn_def
      strategy_generator_node_def build_graph_def shared_edges_def rejected_verdict_def)
  next
    case OPTIONS_STRATEGY_AGENT
    then show ?thesis using on en by (auto simp: a p loop_shape_def graph_step_def halt_on_entry_def node_fn_def
      options_strategy_node_def usable_idea_def build_graph_def shared_edges_def)
  next
    case PYTHON_CODE_GENERATOR
    have "ge_code e s \<noteq> None" "ge_format e x \<noteq> None" for x using e unfolding mediocre_def by blast+
    then obtain reply code where "ge_code e s = Some reply" "ge_format e (strip_fences reply) = Some code" by blast
    then show ?thesis using on en PYTHON_CODE_GENERATOR by (auto simp: a p loop_shape_def graph_step_def halt_on_entry_def node_fn_def
      python_code_generator_node_def build_graph_def shared_edges_def rejected_verdict_def Let_def)
  next
    case COMPLIANCE_NODE
    then show ?thesis using on en by (auto simp: a p loop_shape_def graph_step_def halt_on_entry_def node_fn_def
      compliance_node_def build_graph_def shared_edges_def route_after_compliance_def rejected_verdict_def Let_def usable_idea_def
      evaluate_compliance_def estimate_conservative_quantity_def scanner_legs_def declared_legs_def)
  next
    case PYTHON_VALIDATOR
    have "fst (ge_safety e x) \<and> fst (ge_lint e x) \<and> fst (ge_sandbox e x)" for x using e by (simp add: mediocre_def)
    then show ?thesis using on en PYTHON_VALIDATOR by (auto simp: a p loop_shape_def graph_step_def halt_on_entry_def node_fn_def
      python_validator_node_def build_graph_def shared_edges_def route_after_validation_def rejected_verdict_def Let_def)
  next
    case BACKTESTING
    obtain l where l: "gs_strategy_logic s = Some l" "usable_idea e l" using on BACKTESTING by (auto simp: loop_shape_def)
    obtain u us d where "lg_universe l = u # us" "list_all (is_fresh_symbol e) (u # us)" "ge_latest_date e u = Some d"
      using fresh_head[OF l(2)] by blast
    moreover have "br_passed (ge_backtest e x us' y z w)" "or_zero (br_sharpe_ratio (ge_backtest e x us' y z w)) \<le> SHARPE_PASS_THRESHOLD"
      for x us' y z w using e by (simp_all add: mediocre_def)
    ultimately show ?thesis using on en BACKTESTING l by (auto simp: a p loop_shape_def graph_step_def halt_on_entry_def node_fn_def
      backtesting_node_def build_graph_def shared_edges_def rejected_verdict_def Let_def)
  next
    case EVALUATOR
    then show ?thesis using on en by (auto simp: a p loop_shape_def graph_step_def halt_on_entry_def node_fn_def
      evaluator_node_def failure_reasons_def build_graph_def route_after_evaluation_def rejected_verdict_def)
  next
    case MEMORY_INGEST
    moreover have "ge_ingest e s" using e by (simp add: mediocre_def)
    ultimately show ?thesis using on en by (auto simp: a p loop_shape_def graph_step_def halt_on_entry_def node_fn_def
      memory_ingest_node_def build_graph_def route_after_memory_ingest_def MAX_REJECTIONS_BEFORE_ESCALATION_def)
  qed (use on in \<open>simp_all add: a loop_shape_def\<close>)
qed

lemma loop_run_refines:
  assumes "\<forall>k. mediocre (env k) \<and> usable_idea (env k) = usable_idea (env 0)" and "on_loop (env 0) a p"
  shows "on_loop (env 0) (loop_run k a) (graph_run build_graph env k p)"
proof (induction k)
  case 0
  then show ?case using assms(2) by simp
next
  case (Suc k)
  have u: "usable_idea (env k) = usable_idea (env 0)" using assms(1) by blast
  have "loop_shape (env k) = loop_shape (env 0)" by (intro ext) (simp only: loop_shape_def u)
  then have same: "on_loop (env k) b q = on_loop (env 0) b q" for b q
    by (cases "(env 0, b, q)" rule: on_loop.cases) simp_all
  show ?case using loop_step[of "env k" "loop_run k a" "graph_run build_graph env k p"] assms(1) Suc by (simp add: same)
qed

lemma loop_run_stays: "fst (loop_run k (CEO_AGENT, 0, False)) \<notin> {OPTIMIZATION, RISK_MANAGER, DEPLOYMENT}"
proof (induction k)
  case (Suc k)
  obtain n c r where "loop_run k (CEO_AGENT, 0, False) = (n, c, r)" by (cases "loop_run k (CEO_AGENT, 0, False)")
  then show ?case using Suc by (cases n) simp_all
qed simp


section \<open>Sample environments\<close>

definition sample_idea :: strategy_logic where
  "sample_idea = \<lparr>lg_hypothesis = ''momentum'', lg_asset_class = Equity, lg_style = Swing, lg_universe = [''TCS''],
     lg_entry_conditions = [], lg_exit_conditions = [], lg_stop_loss = [], lg_take_profit = [], lg_position_sizing = [],
     lg_confidence_score = 1 / 2, lg_option_legs = None, lg_tunable_parameters = None\<rparr>"

definition sample_metrics :: backtest_metrics where
  "sample_metrics = \<lparr>bm_sharpe_ratio = 0, bm_max_drawdown = 0, bm_win_rate = None, bm_profit_factor = None, bm_expectancy = None,
     bm_total_trades = None, bm_data_adjusted = None, bm_provider_used = None\<rparr>"

text \<open>Agents that always answer, a backtest with the given Sharpe ratio, a tripped or armed kill switch.\<close>
definition sample_graph_env :: "real \<Rightarrow> bool \<Rightarrow> graph_env" where
  "sample_graph_env sharpe tripped =
    \<lparr>ge_enabled = (\<lambda>_. True), ge_directive = (\<lambda>_. None),
     ge_context = (\<lambda>_ _. Some \<lparr>mx_market_regime = Bullish, mx_sector_rankings = [], mx_volatility_assessment = [], mx_macro_outlook = [],
       mx_confidence_score = 1, mx_insights = []\<rparr>),
     ge_strategy = (\<lambda>_. Some sample_idea), ge_list_expiries = (\<lambda>_. None), ge_option_chain = (\<lambda>_ _. None), ge_legs = (\<lambda>_ _ _ _. None),
     ge_code = (\<lambda>_. Some ''pass''), ge_format = Some, ge_safety = (\<lambda>_. (True, [])), ge_lint = (\<lambda>_. (True, [])), ge_sandbox = (\<lambda>_. (True, [])),
     ge_closes = (\<lambda>_. []), ge_today = 0, ge_latest_date = (\<lambda>_. Some 0),
     ge_backtest = (\<lambda>_ _ _ _ _. \<lparr>br_passed = True, br_sharpe_ratio = Some sharpe, br_max_drawdown = None, br_metrics = sample_metrics,
       br_equity_curve = [\<lparr>ec_date = 1, ec_equity = 100\<rparr>, \<lparr>ec_date = 2, ec_equity = 110\<rparr>, \<lparr>ec_date = 3, ec_equity = 121\<rparr>],
       br_entries_exits = [], br_close_curve = []\<rparr>),
     ge_narrate = (\<lambda>_ _. None), ge_ingest = (\<lambda>_. True), ge_walk_forward = (\<lambda>_ _. []), ge_optuna = (\<lambda>_. None),
     ge_monte_carlo = (\<lambda>_ _. Some (1 / 10, 1 / 10)), ge_kill_switch = tripped\<rparr>"

lemma sample_fresh: "is_fresh_symbol (sample_graph_env x t) u"
  using back_to_open_spec[of "- 1"] by (simp add: is_fresh_symbol_def sample_graph_env_def previous_trading_day_def)

lemma sample_mediocre: "x \<le> 3 / 2 \<Longrightarrow> mediocre (sample_graph_env x t)"
proof -
  assume x: "x \<le> 3 / 2"
  have "usable_idea (sample_graph_env x t) sample_idea" by (simp add: usable_idea_def sample_idea_def sample_fresh)
  then show ?thesis using x by (simp add: mediocre_def sample_graph_env_def or_zero_def SHARPE_PASS_THRESHOLD_def)
qed


definition recommends_paper :: "graph_position \<Rightarrow> bool" where
  "recommends_paper p = (case p of Finished s \<Rightarrow> (case gs_deployment_recommendation s of
       Some d \<Rightarrow> dr_recommended_status d = Recommend_PaperTrading | None \<Rightarrow> False) | _ \<Rightarrow> False)"

lemmas sample_step_defs = graph_step_def halt_on_entry_def node_fn_def build_graph_def shared_edges_def

lemma run_next:
  assumes "\<exists>s. graph_run edges env k p = At n s \<and> P s"
    and "\<And>s. P s \<Longrightarrow> \<exists>s'. graph_step edges (env k) (At n s) = At m s' \<and> Q s'" and "k' = Suc k"
  shows "\<exists>s. graph_run edges env k' p = At m s \<and> Q s"
  using assms by auto

lemma sample_recommends: "recommends_paper (graph_run build_graph (\<lambda>_. sample_graph_env 2 False) 12 (At CEO_AGENT (initial_graph_state ''t'' None [])))"
proof -
  let ?g = "\<lambda>k. graph_run build_graph (\<lambda>_. sample_graph_env 2 False) k (At CEO_AGENT (initial_graph_state ''t'' None []))"
  let ?P = "\<lambda>s. gs_account_capital s = None \<and> gs_strategy_logic s = Some sample_idea"
  let ?Q = "\<lambda>s. ?P s \<and> gs_python_code s \<noteq> None"
  let ?R = "\<lambda>s. ?P s \<and> (\<exists>m. gs_backtest_metrics s = Some m \<and> bm_sharpe_ratio m = 2) \<and>
     gs_equity_curve s = [\<lparr>ec_date = 1, ec_equity = 100\<rparr>, \<lparr>ec_date = 2, ec_equity = 110\<rparr>, \<lparr>ec_date = 3, ec_equity = 121\<rparr>]"
  have "\<exists>s. ?g 2 = At STRATEGY_GENERATOR s \<and> gs_account_capital s = None \<and> gs_evaluation_verdict s = None"
    by (simp add: numeral_2_eq_2 sample_step_defs ceo_agent_node_def market_analyst_node_def MARKET_ANALYST_RETRIES_def upt_rec sample_graph_env_def initial_graph_state_def)
  then have "\<exists>s. ?g 3 = At OPTIONS_STRATEGY_AGENT s \<and> ?P s"
    by (rule run_next) (simp_all add: sample_step_defs strategy_generator_node_def sample_graph_env_def)
  then have "\<exists>s. ?g 4 = At PYTHON_CODE_GENERATOR s \<and> ?P s"
    by (rule run_next) (simp_all add: sample_step_defs options_strategy_node_def sample_graph_env_def sample_idea_def)
  then have "\<exists>s. ?g 5 = At COMPLIANCE_NODE s \<and> ?Q s"
    by (rule run_next) (simp_all add: sample_step_defs python_code_generator_node_def sample_graph_env_def Let_def)
  then have "\<exists>s. ?g 6 = At PYTHON_VALIDATOR s \<and> ?Q s"
    by (rule run_next) (auto simp add: sample_step_defs compliance_node_def route_after_compliance_def evaluate_compliance_def Let_def
      estimate_conservative_quantity_def scanner_legs_def declared_legs_def sample_idea_def sample_graph_env_def)
  then have "\<exists>s. ?g 7 = At BACKTESTING s \<and> ?Q s"
    by (rule run_next) (auto simp: sample_step_defs python_validator_node_def route_after_validation_def sample_graph_env_def Let_def)
  then have "\<exists>s. ?g 8 = At EVALUATOR s \<and> ?R s"
  proof (rule run_next)
    have "ge_latest_date (sample_graph_env 2 False) u = Some 0" for u by (simp add: sample_graph_env_def)
    then show "\<exists>s'. graph_step build_graph (sample_graph_env 2 False) (At BACKTESTING s) = At EVALUATOR s' \<and> ?R s'" if "?Q s" for s
      using that sample_fresh[of 2 False "''TCS''"]
      by (auto simp: sample_step_defs backtesting_node_def sample_idea_def Let_def) (simp_all add: sample_graph_env_def or_zero_def)
  qed simp
  then have "\<exists>s. ?g 9 = At OPTIMIZATION s \<and> ?R s \<and> (\<exists>v. gs_evaluation_verdict s = Some v \<and> ev_passed v)"
    by (rule run_next) (auto simp: sample_step_defs evaluator_node_def failure_reasons_def SHARPE_PASS_THRESHOLD_def route_after_evaluation_def sample_graph_env_def)
  then have "\<exists>s. ?g 10 = At RISK_MANAGER s \<and> gs_account_capital s = None \<and> gs_strategy_logic s = Some sample_idea \<and>
      (\<exists>r. gs_optimization_result s = Some r \<and> op_passed r)"
    by (rule run_next) (auto simp: sample_step_defs optimization_node_def run_optuna_sweep_def sample_idea_def sample_graph_env_def Let_def
      optimization_outcome_def MAX_ROBUSTNESS_DEGRADATION_MULTIPLE_def)
  then have "\<exists>s. ?g 11 = At DEPLOYMENT s \<and> (\<exists>r. gs_risk_assessment s = Some r \<and> ra_decision r = Risk_ApproveWithRestrictions)"
    by (rule run_next) (auto simp: sample_step_defs risk_manager_node_def compute_correlation_def sample_graph_env_def Let_def case_prod_unfold)
  then obtain s r where "?g 11 = At DEPLOYMENT s" "gs_risk_assessment s = Some r" "ra_decision r = Risk_ApproveWithRestrictions" by blast
  moreover have "?g 12 = graph_step build_graph (sample_graph_env 2 False) (?g 11)"
    using graph_run.simps(2)[of build_graph "\<lambda>_. sample_graph_env 2 False" 11] by simp
  ultimately show ?thesis
    by (simp add: recommends_paper_def sample_step_defs deployment_node_def Let_def sample_graph_env_def)
qed

theorem recommendation_passed_every_gate_witness:
  "\<exists>s. graph_run build_graph (\<lambda>_. sample_graph_env 2 False) 12 (At CEO_AGENT (initial_graph_state ''t'' None [])) = Finished s
    \<and> complied s \<and> profitable s \<and> robust s"
proof -
  let ?p = "At CEO_AGENT (initial_graph_state ''t'' None [])"
  obtain s d where "graph_run build_graph (\<lambda>_. sample_graph_env 2 False) 12 ?p = Finished s" "gs_deployment_recommendation s = Some d"
    using sample_recommends by (auto simp: recommends_paper_def simp del: graph_run.simps split: graph_position.splits option.splits)
  then show ?thesis using recommendation_passed_every_gate[OF refl, where env = "\<lambda>_. sample_graph_env 2 False" and k = 12 and thread = "''t''" and capital = None and curve = "[]" and s = s and d = d]
    by (simp del: graph_run.simps)
qed

lemma sample_loop:
  "node_at (graph_run build_graph (\<lambda>_. sample_graph_env 1 False) k (At CEO_AGENT (initial_graph_state ''t'' None [])))
    = Some (fst (loop_run k (CEO_AGENT, 0, False)))"
proof -
  let ?p = "At CEO_AGENT (initial_graph_state ''t'' None [])"
  have "on_loop (sample_graph_env 1 False) (CEO_AGENT, 0, False) ?p"
    by (simp add: loop_shape_def initial_graph_state_def rejected_verdict_def)
  then have "on_loop (sample_graph_env 1 False) (loop_run k (CEO_AGENT, 0, False)) (graph_run build_graph (\<lambda>_. sample_graph_env 1 False) k ?p)"
    using loop_run_refines[of "\<lambda>_. sample_graph_env 1 False" "(CEO_AGENT, 0, False)" ?p k] sample_mediocre[of 1 False] by simp
  then show ?thesis
    by (cases "(sample_graph_env 1 False, loop_run k (CEO_AGENT, 0, False), graph_run build_graph (\<lambda>_. sample_graph_env 1 False) k ?p)"
        rule: on_loop.cases) (simp_all add: node_at_def del: graph_run.simps loop_run.simps)
qed

theorem escalation_after_six_then_five_witness:
  "strikes (\<lambda>k. graph_run build_graph (\<lambda>_. sample_graph_env 1 False) k (At CEO_AGENT (initial_graph_state ''t'' None []))) 50 \<in> {5, 6}"
proof -
  have "loop_run 49 (CEO_AGENT, 0, False) = (MEMORY_INGEST, 5, True)" "loop_run 50 (CEO_AGENT, 0, False) = (CEO_AGENT, 5, True)"
    by code_simp+
  then show ?thesis
    using escalation_after_six_then_five[OF refl refl, where env = "\<lambda>_. sample_graph_env 1 False" and thread = "''t''" and capital = None and curve = "[]" and k = 49]
    by (simp add: sample_loop del: graph_run.simps loop_run.simps strikes.simps ceo_visits.simps)
qed

theorem repairs_shared_by_all_strategies_witness:
  "failed_validations (\<lambda>k. graph_run build_graph (\<lambda>_. sample_graph_env 1 False) k (At CEO_AGENT (initial_graph_state ''t'' None []))) 50 \<le> 3"
  by (rule repairs_shared_by_all_strategies) (simp_all add: initial_graph_state_def)

definition sample_chain :: option_chain where
  "sample_chain = \<lparr>oc_underlying = ''NIFTY'', oc_expiry = 30, oc_spot_price = 100,
     oc_instruments = [\<lparr>oi_symbol = ''NIFTY100CE'', oi_underlying = ''NIFTY'', oi_strike = 100, oi_option_type = CE, oi_expiry = 30,
         oi_last_price = None, oi_open_interest = None, oi_implied_volatility = None\<rparr>,
       \<lparr>oi_symbol = ''NIFTY110CE'', oi_underlying = ''NIFTY'', oi_strike = 110, oi_option_type = CE, oi_expiry = 30,
         oi_last_price = None, oi_open_interest = None, oi_implied_volatility = None\<rparr>]\<rparr>"

definition sample_spread :: "raw_leg list" where
  "sample_spread = [\<lparr>rl_option_type = CE, rl_strike = 100, rl_side = leg_sell, rl_quantity = 1\<rparr>,
     \<lparr>rl_option_type = CE, rl_strike = 110, rl_side = leg_buy, rl_quantity = 1\<rparr>]"

definition options_env :: graph_env where
  "options_env = (sample_graph_env 2 False)\<lparr>ge_list_expiries := (\<lambda>_. Some [30]), ge_option_chain := (\<lambda>_ _. Some sample_chain),
     ge_legs := (\<lambda>_ _ _ _. Some sample_spread)\<rparr>"

definition options_state :: graph_state where
  "options_state = (initial_graph_state ''t'' None [])\<lparr>gs_strategy_logic := Some (sample_idea\<lparr>lg_asset_class := FnO, lg_universe := [''NIFTY'']\<rparr>)\<rparr>"

lemma options_sample:
  "\<exists>s1. options_strategy_node options_env options_state = Inr s1 \<and> gs_account_capital s1 = None \<and>
     declared_legs s1 = Some
      [\<lparr>so_symbol = ''NIFTY100CE'', so_option_type = CE, so_strike = 100, so_side = leg_sell, so_quantity = 1\<rparr>,
       \<lparr>so_symbol = ''NIFTY110CE'', so_option_type = CE, so_strike = 110, so_side = leg_buy, so_quantity = 1\<rparr>]"
  by (simp add: options_strategy_node_def options_state_def options_env_def sample_idea_def initial_graph_state_def sample_graph_env_def
    fetch_nearest_chain_def generate_options_strategy_def attempt_legs_def parse_legs_def sample_chain_def sample_spread_def chain_pairs_def
    OPTIONS_MAX_ATTEMPTS_def upt_rec scan_passed_def scan_for_naked_options_def ground_leg_def symbol_lookup_def dict_get_default_def
    declared_legs_def Let_def)

theorem grounded_spread_is_blocked_witness:
  "\<exists>s1 s3. options_strategy_node options_env options_state = Inr s1
    \<and> compliance_node options_env (s1\<lparr>gs_python_code := Some \<lparr>py_code = ''pass'', py_version_no = 1\<rparr>\<rparr>) = Inr s3
    \<and> \<not> complied s3 \<and> build_graph COMPLIANCE_NODE s3 = Inr None"
proof -
  obtain s1 ls where s1: "options_strategy_node options_env options_state = Inr s1" "declared_legs s1 = Some ls"
      "\<exists>leg \<in> set ls. so_side leg = leg_sell"
    using options_sample by auto
  let ?s2 = "s1\<lparr>gs_python_code := Some \<lparr>py_code = ''pass'', py_version_no = 1\<rparr>\<rparr>"
  obtain s3 where s3: "compliance_node options_env ?s2 = Inr s3" by (simp add: compliance_node_def Let_def)
  have "gs_strategy_logic options_state = Some (sample_idea\<lparr>lg_asset_class := FnO, lg_universe := [''NIFTY'']\<rparr>)"
    by (simp add: options_state_def)
  moreover have "\<forall>u x c. ge_option_chain options_env u x = Some c \<longrightarrow> distinct_symbols c"
    by (auto simp: options_env_def distinct_symbols_def sample_chain_def)
  ultimately show ?thesis
    using grounded_spread_is_blocked[OF s1(1) _ _ _ s1(2,3) _ s3] s1 s3 by (simp add: declared_legs_def)
qed

end
