(* ===== verification/ResearchThreads.thy ===== *)
theory ResearchThreads
  imports StrategyProgress ResearchRuns
begin

text \<open>
  The threads that drive the research graph (\<open>src/api/routers/agents.py\<close>): \<open>_execute_graph_run\<close> as one transition per
  iteration of its loop, the endpoints that trigger, pause, resume, cancel and retry a run, and the regeneration
  of a strategy from a suggestion. The thread of a run and the requests of the users interleave freely.
\<close>

section \<open>Runs\<close>

record graph_thread =
  th_root :: nat
  th_thread_id :: string
  th_org_run :: "nat option"
  th_position :: graph_position
  th_tracking :: tracking
  th_wall :: timestamp

definition GRAPH_ROOT_AGENT_NAME :: string where "GRAPH_ROOT_AGENT_NAME = ''TradingOSGraph''"

definition RUNNING :: string where "RUNNING = ''Running''"
definition PAUSED :: string where "PAUSED = ''Paused''"

definition get_graph_run :: "research \<Rightarrow> nat \<Rightarrow> graph_run_row option" where
  "get_graph_run P i = row_by gr_id i (rp_runs P)"

definition set_graph_run :: "nat \<Rightarrow> (graph_run_row \<Rightarrow> graph_run_row) \<Rightarrow> research \<Rightarrow> research" where
  "set_graph_run i f P = P\<lparr>rp_runs := update_where (\<lambda>r. gr_id r = i) f (rp_runs P)\<rparr>"

definition add_log :: "nat \<Rightarrow> string \<Rightarrow> message \<Rightarrow> timestamp \<Rightarrow> research \<Rightarrow> research" where
  "add_log run level msg ts P = P\<lparr>rp_logs := rp_logs P @
     [\<lparr>lo_agent_run_id = run, lo_log_level = level, lo_message = msg, lo_created_at = ts\<rparr>]\<rparr>"

definition audit_research :: "env \<Rightarrow> audit_content \<Rightarrow> research \<Rightarrow> research" where
  "audit_research env c P = P\<lparr>rp_db := snd (write_audit_entry env c (rp_db P))\<rparr>"

definition child_row :: "progress_env \<Rightarrow> nat \<Rightarrow> string \<Rightarrow> timestamp \<Rightarrow> graph_node \<Rightarrow> nat \<Rightarrow> graph_run_row" where
  "child_row pe parent thread started n cid =
    \<lparr>gr_id = cid, gr_thread_id = thread, gr_agent_name = node_name n, gr_parent_run_id = Some parent, gr_status = ''Completed'',
     gr_started_at = started, gr_ended_at = Some (e_now (pe_org pe)), gr_retried_from_run_id = None, gr_pause_requested = False,
     gr_tracking_snapshot = None\<rparr>"

text \<open>The row and the log line of one node.\<close>
definition add_child :: "progress_env \<Rightarrow> nat \<Rightarrow> string \<Rightarrow> timestamp \<Rightarrow> graph_node \<Rightarrow> graph_state \<Rightarrow> research \<Rightarrow> nat \<times> research" where
  "add_child pe parent thread started n s P =
    (let (cid, P1) = fresh_research_id P
     in (cid, add_log cid ''INFO'' (summarize_node_output pe n s) (e_now (pe_org pe))
           (P1\<lparr>rp_runs := rp_runs P1 @ [child_row pe parent thread started n cid]\<rparr>)))"

definition node_audit :: "progress_env \<Rightarrow> graph_node \<Rightarrow> graph_state \<Rightarrow> nat \<Rightarrow> audit_content" where
  "node_audit pe n s cid =
    (audit_entry AI_Agent (node_name n) (''GRAPH_NODE_'' @ upper (node_name n) @ ''_COMPLETED'') ''AgentRun'' (Some cid) None
       (Some (pe_dump_output pe n s)))\<lparr>al_prompt_snapshot := Some (pe_render pe (summarize_node_output pe n s))\<rparr>"

text \<open>The transaction after a node.\<close>
definition record_node :: "progress_env \<Rightarrow> graph_thread \<Rightarrow> graph_node \<Rightarrow> graph_state \<Rightarrow> research \<Rightarrow> tracking \<times> research" where
  "record_node pe th n s P =
    (let (cid, P1) = add_child pe (th_root th) (th_thread_id th) (th_wall th) n s P;
         (t, P2) = persist_strategy_progress pe n s cid (th_org_run th) (th_tracking th, P1)
     in (t, audit_research (pe_org pe) (node_audit pe n s cid) P2))"

definition state_of :: "graph_position \<Rightarrow> graph_state option" where
  "state_of p = (case p of At _ s \<Rightarrow> Some s | Finished s \<Rightarrow> Some s | Crashed _ \<Rightarrow> None)"

definition save_checkpoint :: "string \<Rightarrow> graph_position \<Rightarrow> research \<Rightarrow> research" where
  "save_checkpoint thread p P = P\<lparr>rp_checkpoints := dict_set thread p (rp_checkpoints P)\<rparr>"

definition pause_point :: "graph_thread \<Rightarrow> research \<Rightarrow> bool" where
  "pause_point th P = (case get_graph_run P (th_root th) of None \<Rightarrow> False | Some r \<Rightarrow> gr_pause_requested r)"

definition park :: "graph_thread \<Rightarrow> research \<Rightarrow> research" where
  "park th P = set_graph_run (th_root th) (\<lambda>r. r\<lparr>gr_status := PAUSED, gr_pause_requested := False,
     gr_tracking_snapshot := Some (tracking_to_snapshot (th_tracking th))\<rparr>) P"

definition complete_run :: "env \<Rightarrow> graph_thread \<Rightarrow> research \<Rightarrow> research" where
  "complete_run env th P = set_graph_run (th_root th) (\<lambda>r. r\<lparr>gr_status := ''Completed'', gr_ended_at := Some (e_now env),
     gr_tracking_snapshot := None\<rparr>) P"

definition close_with_error :: "progress_env \<Rightarrow> nat \<Rightarrow> graph_error \<Rightarrow> research \<Rightarrow> research" where
  "close_with_error pe rid0 err P =
    (let now = e_now (pe_org pe); (status, level) = (case err of Halted _ \<Rightarrow> (''Halted'', ''WARNING'') | NodeFailed _ \<Rightarrow> (''Failed'', ''ERROR'')) in
     if get_graph_run P rid0 = None then P
     else add_log rid0 level [Lit (pe_error_text pe err)] now
       (set_graph_run rid0 (\<lambda>r. r\<lparr>gr_status := status, gr_ended_at := Some now\<rparr>) P))"

text \<open>One iteration of the loop of \<open>_execute_graph_run\<close>; \<open>None\<close> when the thread has returned.\<close>
definition advance :: "progress_env \<Rightarrow> graph_thread \<Rightarrow> research \<Rightarrow> graph_thread option \<times> research" where
  "advance pe th P =
    (case th_position th of
       At n _ \<Rightarrow>
        (let p = graph_step build_graph (pe_graph pe) (th_position th) in
         case state_of p of
           None \<Rightarrow> (None, (case p of Crashed err \<Rightarrow> close_with_error pe (th_root th) err P | _ \<Rightarrow> P))
         | Some s \<Rightarrow>
            (let (t, P1) = record_node pe th n s (save_checkpoint (th_thread_id th) p P);
                 th1 = th\<lparr>th_position := p, th_tracking := t, th_wall := e_now (pe_org pe)\<rparr>
             in if pause_point th1 P1 then (None, park th1 P1) else (Some th1, P1)))
     | _ \<Rightarrow> (None, complete_run (pe_org pe) th P))"

section \<open>Requests\<close>

datatype research_error = RunNotFound | RunStatus string

definition get_root_run :: "research \<Rightarrow> nat \<Rightarrow> graph_run_row option" where
  "get_root_run P i = (case get_graph_run P i of None \<Rightarrow> None | Some r \<Rightarrow> if gr_parent_run_id r \<noteq> None then None else Some r)"

definition new_root :: "env \<Rightarrow> string \<Rightarrow> nat option \<Rightarrow> research \<Rightarrow> nat \<times> string \<times> research" where
  "new_root env name retried P =
    (let (tid, P1) = fresh_research_id P; (rid, P2) = fresh_research_id P1;
         row = \<lparr>gr_id = rid, gr_thread_id = uuid_str tid, gr_agent_name = name, gr_parent_run_id = None, gr_status = RUNNING,
            gr_started_at = e_now env, gr_ended_at = None, gr_retried_from_run_id = retried, gr_pause_requested = False,
            gr_tracking_snapshot = None\<rparr>
     in (rid, uuid_str tid, P2\<lparr>rp_runs := rp_runs P2 @ [row]\<rparr>))"

text \<open>The thread of a fresh run, with the capital and the equity curve it fetches first.\<close>
definition fresh_thread :: "env \<Rightarrow> nat \<Rightarrow> string \<Rightarrow> nat option \<Rightarrow> real option \<Rightarrow> equity_curve_point list \<Rightarrow> graph_thread" where
  "fresh_thread env rid thread org_run capital curve =
    \<lparr>th_root = rid, th_thread_id = thread, th_org_run = org_run,
     th_position = At CEO_AGENT (initial_graph_state thread capital curve), th_tracking = new_tracking, th_wall = e_now env\<rparr>"

definition trigger_research :: "env \<Rightarrow> real option \<Rightarrow> equity_curve_point list \<Rightarrow> research \<Rightarrow> graph_thread \<times> research" where
  "trigger_research env capital curve P =
    (let (rid, thread, P1) = new_root env GRAPH_ROOT_AGENT_NAME None P in (fresh_thread env rid thread None capital curve, P1))"

definition pause_run :: "env \<Rightarrow> string \<Rightarrow> nat \<Rightarrow> research \<Rightarrow> research_error + research" where
  "pause_run env user rid P =
    (case get_root_run P rid of
       None \<Rightarrow> Inl RunNotFound
     | Some r \<Rightarrow>
        if gr_status r \<noteq> RUNNING then Inl (RunStatus (gr_status r))
        else Inr (audit_research env (audit_entry Human user ''GRAPH_RUN_PAUSE_REQUESTED'' ''AgentRun'' (Some rid) None None)
          (set_graph_run rid (\<lambda>r. r\<lparr>gr_pause_requested := True\<rparr>) P)))"

text \<open>The thread a resumed run starts: \<open>None\<close> if the snapshot cannot be read.\<close>
definition resumed_thread :: "env \<Rightarrow> graph_run_row \<Rightarrow> research \<Rightarrow> graph_thread option" where
  "resumed_thread env r P =
    (case (case gr_tracking_snapshot r of None \<Rightarrow> Some new_tracking | Some j \<Rightarrow> tracking_from_snapshot j,
           dict_get (rp_checkpoints P) (gr_thread_id r)) of
       (Some t, Some p) \<Rightarrow> Some \<lparr>th_root = gr_id r, th_thread_id = gr_thread_id r, th_org_run = None, th_position = p,
          th_tracking = t, th_wall = e_now env\<rparr>
     | _ \<Rightarrow> None)"

definition resume_run :: "env \<Rightarrow> string \<Rightarrow> nat \<Rightarrow> research \<Rightarrow> research_error + graph_thread option \<times> research" where
  "resume_run env user rid P =
    (case get_root_run P rid of
       None \<Rightarrow> Inl RunNotFound
     | Some r \<Rightarrow>
        if gr_status r \<noteq> PAUSED then Inl (RunStatus (gr_status r))
        else Inr (resumed_thread env r P,
          audit_research env (audit_entry Human user ''GRAPH_RUN_RESUMED'' ''AgentRun'' (Some rid) None None)
            (set_graph_run rid (\<lambda>r. r\<lparr>gr_status := RUNNING\<rparr>) P)))"

definition cancel_graph_run :: "env \<Rightarrow> string \<Rightarrow> string \<Rightarrow> nat \<Rightarrow> research \<Rightarrow> research_error + research" where
  "cancel_graph_run env user email rid P =
    (case get_root_run P rid of
       None \<Rightarrow> Inl RunNotFound
     | Some r \<Rightarrow>
        if gr_status r \<notin> {RUNNING, PAUSED} then Inl (RunStatus (gr_status r))
        else Inr (audit_research env (audit_entry Human user ''GRAPH_RUN_CANCELLED'' ''AgentRun'' (Some rid) None None)
          (add_log rid ''WARNING'' [Lit ''Run cancelled by '', Lit email] (e_now env)
            (set_graph_run rid (\<lambda>r. r\<lparr>gr_status := ''Failed'', gr_ended_at := Some (e_now env), gr_pause_requested := False\<rparr>) P))))"

definition retry_run :: "env \<Rightarrow> real option \<Rightarrow> equity_curve_point list \<Rightarrow> nat \<Rightarrow> research \<Rightarrow> research_error + graph_thread \<times> research" where
  "retry_run env capital curve rid P =
    (case get_graph_run P rid of
       None \<Rightarrow> Inl RunNotFound
     | Some r \<Rightarrow>
        if gr_status r \<noteq> ''Failed'' then Inl (RunStatus (gr_status r))
        else (let (nid, thread, P1) = new_root env GRAPH_ROOT_AGENT_NAME (Some rid) P in
          Inr (fresh_thread env nid thread None capital curve, P1)))"

section \<open>What a run leaves behind\<close>

text \<open>The rows of a run without what a pause touches: the audit log, start times and the snapshot.\<close>
definition plain_row :: "graph_run_row \<Rightarrow> graph_run_row" where
  "plain_row r = r\<lparr>gr_started_at := 0, gr_tracking_snapshot := None\<rparr>"

definition work :: "research \<Rightarrow> research" where
  "work P = P\<lparr>rp_db := (rp_db P)\<lparr>db_audit := []\<rparr>, rp_runs := map plain_row (rp_runs P)\<rparr>"

definition revised :: "audit_log list \<Rightarrow> graph_run_row list \<Rightarrow> research \<Rightarrow> research" where
  "revised a rs P = P\<lparr>rp_db := (rp_db P)\<lparr>db_audit := a\<rparr>, rp_runs := rs\<rparr>"

lemma work_eqE:
  assumes "work P = work P'"
  obtains a rs where "P' = revised a rs P" "map plain_row rs = map plain_row (rp_runs P)"
proof (rule that)
  show "P' = revised (db_audit (rp_db P')) (rp_runs P') P" "map plain_row (rp_runs P') = map plain_row (rp_runs P)"
    using assms by (cases P; cases P'; cases "rp_db P"; cases "rp_db P'"; simp add: work_def revised_def)+
qed

lemma work_revised [simp]: "work (revised a rs P) = work P \<longleftrightarrow> map plain_row rs = map plain_row (rp_runs P)"
  by (cases P) (auto simp: work_def revised_def)

lemma revised_fields [simp]:
  "rp_runs (revised a rs P) = rs" "rp_columns (revised a rs P) = rp_columns P" "rp_versions (revised a rs P) = rp_versions P"
  "rp_results (revised a rs P) = rp_results P" "rp_checkpoints (revised a rs P) = rp_checkpoints P" "rp_logs (revised a rs P) = rp_logs P"
  "db_strategies (rp_db (revised a rs P)) = db_strategies (rp_db P)" "db_next_id (rp_db (revised a rs P)) = db_next_id (rp_db P)"
  "db_approvals (rp_db (revised a rs P)) = db_approvals (rp_db P)" "db_audit (rp_db (revised a rs P)) = a"
  by (simp_all add: revised_def)

subsection \<open>Recording commutes with a revision of the audit log and the run rows\<close>

lemma revised_setters [simp]:
  "set_version i f (revised a rs P) = revised a rs (set_version i f P)"
  "set_result i g (revised a rs P) = revised a rs (set_result i g P)"
  "set_strategy_row i h (revised a rs P) = revised a rs (set_strategy_row i h P)"
  "get_version (revised a rs P) i = get_version P i" "universe_of (revised a rs P) i = universe_of P i"
  "get_strategy (rp_db (revised a rs P)) i = get_strategy (rp_db P) i"
  by (simp_all add: revised_def set_version_def set_result_def set_strategy_row_def set_strategy_def get_version_def universe_of_def
    get_columns_def get_strategy_def)

lemma revised_current [simp]: "current_version (revised a rs P) i = current_version P i"
  by (simp add: current_version_def split: option.split)

lemma revised_recorders [simp]:
  "record_strategy pe l (t, revised a rs P) = map_prod (\<lambda>t. t) (revised a rs) (record_strategy pe l (t, P))"
  "record_version i run c ls ex ra (revised a rs P) = map_prod (\<lambda>v. v) (revised a rs) (record_version i run c ls ex ra P)"
  "record_validation e i v (revised a rs P) = revised a rs (record_validation e i v P)"
  "record_backtest e i r m (revised a rs P) = map_prod (\<lambda>v. v) (revised a rs) (record_backtest e i r m P)"
  "record_verdict i ev (revised a rs P) = revised a rs (record_verdict i ev P)"
  "record_optimization i op (revised a rs P) = revised a rs (record_optimization i op P)"
  "record_risk i ra2 (revised a rs P) = revised a rs (record_risk i ra2 P)"
  by (simp_all add: record_strategy_def record_version_def record_validation_def record_backtest_def record_verdict_def
      record_optimization_def record_risk_def fresh_research_id_def Let_def run_strategy_factory_pipeline_def update_validation_status_def
    split: option.split list.split)
    (simp_all add: revised_def set_strategy_row_def set_strategy_def)

lemma audit_swap:
  "snd (write_audit_entry env c (x\<lparr>db_audit := a\<rparr>)) = (snd (write_audit_entry env c x))\<lparr>db_audit := a @ [audit_row env c a]\<rparr>"
  by (simp add: write_audit_entry_def Let_def)

lemma emit_swap: "emit_if_run env run et i p (x\<lparr>db_audit := a\<rparr>) = (emit_if_run env run et i p x)\<lparr>db_audit := a\<rparr>"
  by (simp add: emit_if_run_def emit_def event_row_def next_sequence_def Let_def split: option.split)

lemma open_request_swap:
  "\<exists>b. open_paper_approval_request env i v ra run (x\<lparr>db_audit := a\<rparr>) = (open_paper_approval_request env i v ra run x)\<lparr>db_audit := b\<rparr>"
proof (cases "\<exists>r \<in> set (db_approvals x). apr_strategy_id r = i \<and> apr_status r = APPR_PENDING")
  case True
  then show ?thesis by (auto simp: open_paper_approval_request_def intro!: exI[of _ a])
next
  case False
  have "open_paper_approval_request env i v ra run (x\<lparr>db_audit := a\<rparr>) =
      (open_paper_approval_request env i v ra run x)\<lparr>db_audit := db_audit (open_paper_approval_request env i v ra run (x\<lparr>db_audit := a\<rparr>))\<rparr>"
    using False by (simp add: open_paper_approval_request_def Let_def write_audit_entry_def emit_if_run_def emit_def event_row_def
      next_sequence_def split: option.split)
  then show ?thesis by blast
qed

lemma revised_deployment: "\<exists>b. record_deployment pe i r org d (revised a rs P) = revised b rs (record_deployment pe i r org d P)"
proof -
  have "\<exists>b. apply_deployment_recommendation env i rec v ra run (x\<lparr>db_audit := a\<rparr>) =
      (apply_deployment_recommendation env i rec v ra run x)\<lparr>db_audit := b\<rparr>" for env rec v ra run x
  proof -
    have set: "set_strategy i f (x\<lparr>db_audit := a\<rparr>) = (set_strategy i f x)\<lparr>db_audit := a\<rparr>" for f by (simp add: set_strategy_def)
    have get: "get_strategy (x\<lparr>db_audit := a\<rparr>) i = get_strategy x i" by (simp add: get_strategy_def)
    let ?y = "set_strategy i (\<lambda>s. s\<lparr>str_status := PENDING_PAPER\<rparr>) x"
    obtain b where b: "open_paper_approval_request env i v ra run (?y\<lparr>db_audit := a\<rparr>) = (open_paper_approval_request env i v ra run ?y)\<lparr>db_audit := b\<rparr>"
      using open_request_swap by blast
    consider "get_strategy x i = None" | s where "get_strategy x i = Some s" "rec = PAPER_TRADING"
      | s where "get_strategy x i = Some s" "rec \<noteq> PAPER_TRADING" by (cases "get_strategy x i") auto
    then show ?thesis
    proof cases
      case 2
      show ?thesis by (rule exI[of _ b]) (simp only: apply_deployment_recommendation_def get set b 2 option.case simp_thms if_True)
    qed (simp_all only: apply_deployment_recommendation_def get set option.case simp_thms if_False, blast+)
  qed
  then obtain f where f: "\<And>env rec v ra run x. apply_deployment_recommendation env i rec v ra run (x\<lparr>db_audit := a\<rparr>) =
      (apply_deployment_recommendation env i rec v ra run x)\<lparr>db_audit := f env rec v ra run x\<rparr>" by metis
  let ?P = "set_result r (\<lambda>r. r\<lparr>rs_deployment := Some (dr_recommended_status d), rs_deployment_rationale := Some (dr_rationale d)\<rparr>) P"
  have db: "rp_db (revised a rs ?P) = (rp_db ?P)\<lparr>db_audit := a\<rparr>" by (simp add: revised_def)
  have put: "(revised a rs ?P)\<lparr>rp_db := x\<lparr>db_audit := b\<rparr>\<rparr> = revised b rs (?P\<lparr>rp_db := x\<rparr>)" for b x by (simp add: revised_def)
  show ?thesis
    unfolding record_deployment_def Let_def revised_setters revised_fields db f put by (rule exI, rule refl)
qed

text \<open>Two threads in the same place, up to an empty list of pending legs.\<close>
definition same_tracking :: "tracking \<Rightarrow> tracking \<Rightarrow> bool" where
  "same_tracking t t' \<longleftrightarrow> normal_tracking t = normal_tracking t'"

lemma same_trackingE:
  assumes "same_tracking t t'"
  obtains ls where "t' = t\<lparr>tr_pending_option_legs := ls\<rparr>" "nonempty ls = nonempty (tr_pending_option_legs t)"
  using assms by (cases t; cases t') (auto simp: same_tracking_def normal_tracking_def)

lemma same_tracking_legs [simp]:
  "same_tracking t (t\<lparr>tr_pending_option_legs := ls\<rparr>) \<longleftrightarrow> nonempty ls = nonempty (tr_pending_option_legs t)"
  by (cases t) (auto simp: same_tracking_def normal_tracking_def)

lemma same_tracking_refl [simp]: "same_tracking t t" by (simp add: same_tracking_def)

lemma record_strategy_legs:
  "record_strategy pe l (t\<lparr>tr_pending_option_legs := ls\<rparr>, P) =
    map_prod (\<lambda>t. t\<lparr>tr_pending_option_legs := ls\<rparr>) (\<lambda>P. P) (record_strategy pe l (t, P))"
  "tr_pending_option_legs (fst (record_strategy pe l (t, P))) = tr_pending_option_legs t"
  by (simp_all add: record_strategy_def lookup_account_def Let_def new_columns_def case_prod_unfold split: option.split)

lemma record_version_legs:
  "nonempty ls = nonempty ls' \<Longrightarrow> record_version i run c ls ex ra P = record_version i run c ls' ex ra P"
  by (simp add: record_version_def)

lemma persist_sim:
  assumes legs: "nonempty ls = nonempty (tr_pending_option_legs t)"
  shows "\<exists>b. snd (persist_strategy_progress pe n s run org (t\<lparr>tr_pending_option_legs := ls\<rparr>, revised a rs P)) =
      revised b rs (snd (persist_strategy_progress pe n s run org (t, P)))
    \<and> same_tracking (fst (persist_strategy_progress pe n s run org (t, P)))
        (fst (persist_strategy_progress pe n s run org (t\<lparr>tr_pending_option_legs := ls\<rparr>, revised a rs P)))"
proof (cases "n = DEPLOYMENT \<and> tr_strategy_id t \<noteq> None \<and> tr_backtest_result_id t \<noteq> None \<and> gs_deployment_recommendation s \<noteq> None")
  case True
  then obtain sid rid d where "tr_strategy_id t = Some sid" "tr_backtest_result_id t = Some rid" "gs_deployment_recommendation s = Some d" by auto
  then show ?thesis using True revised_deployment[of pe sid rid org d a rs P] legs
    by (simp add: persist_strategy_progress_def on_some_def)
next
  case False
  show ?thesis
  proof (cases n)
    case PYTHON_CODE_GENERATOR
    then show ?thesis using legs by (auto simp: persist_strategy_progress_def on_some_def record_version_legs[OF legs] split: option.split)
  next
    case STRATEGY_GENERATOR
    then show ?thesis using legs by (auto simp: persist_strategy_progress_def on_some_def record_strategy_legs split: option.split prod.split)
  qed (use False legs in \<open>auto simp: persist_strategy_progress_def on_some_def same_tracking_def normal_tracking_def split: option.splits prod.splits\<close>)
qed

subsection \<open>The thread\<close>

lemma plain_row_id [simp]: "gr_id (plain_row r) = gr_id r" "gr_pause_requested (plain_row r) = gr_pause_requested r"
  "gr_status (plain_row r) = gr_status r" "gr_parent_run_id (plain_row r) = gr_parent_run_id r"
  by (simp_all add: plain_row_def)

lemma row_by_plain: "row_by gr_id i (map plain_row rs) = map_option plain_row (row_by gr_id i rs)"
  by (induction rs) simp_all

lemma work_runs: "work P = work P' \<Longrightarrow> map plain_row (rp_runs P) = map plain_row (rp_runs P')"
  by (erule work_eqE) simp

lemma work_get_run:
  assumes "work P = work P'" shows "map_option plain_row (get_graph_run P i) = map_option plain_row (get_graph_run P' i)"
  using work_runs[OF assms] by (simp add: get_graph_run_def row_by_plain[symmetric])

lemma work_set_run:
  assumes w: "work P = work P'" and f: "\<And>r r'. plain_row r = plain_row r' \<Longrightarrow> plain_row (f r) = plain_row (f' r')"
  shows "work (set_graph_run i f P) = work (set_graph_run i f' P')"
proof -
  obtain a rs where P': "P' = revised a rs P" and rs: "map plain_row rs = map plain_row (rp_runs P)" using w by (rule work_eqE)
  have "map plain_row (update_where (\<lambda>r. gr_id r = i) f xs) = map plain_row (update_where (\<lambda>r. gr_id r = i) f' ys)"
    if "map plain_row xs = map plain_row ys" for xs ys
    using that
  proof (induction xs arbitrary: ys)
    case (Cons x xs)
    then obtain y zs where ys: "ys = y # zs" and y: "plain_row x = plain_row y" and zs: "map plain_row xs = map plain_row zs" by auto
    have "gr_id x = gr_id y" using y by (metis plain_row_id(1))
    then show ?case using Cons.IH[OF zs] ys y f by simp
  qed simp
  from this[OF rs[symmetric]] show ?thesis by (cases P) (simp add: P' work_def set_graph_run_def revised_def)
qed

lemma work_logs_audit:
  "work P = work P' \<Longrightarrow> work (add_log i l m t P) = work (add_log i l m t P')"
  "work (audit_research env c P) = work P"
  "work P = work P' \<Longrightarrow> work (save_checkpoint k p P) = work (save_checkpoint k p P')"
proof -
  have c: "add_log i l m t (revised a rs P) = revised a rs (add_log i l m t P)"
    "save_checkpoint k p (revised a rs P) = revised a rs (save_checkpoint k p P)"
    "rp_runs (add_log i l m t P) = rp_runs P" "rp_runs (save_checkpoint k p P) = rp_runs P" for a rs
    by (simp_all add: add_log_def save_checkpoint_def revised_def)
  show "work (add_log i l m t P) = work (add_log i l m t P')" "work (save_checkpoint k p P) = work (save_checkpoint k p P')" if "work P = work P'"
    by (rule work_eqE[OF that], simp add: c, metis work_revised c)+
  show "work (audit_research env c P) = work P" by (simp add: audit_research_def write_audit_entry_def Let_def work_def)
qed

definition same_thread :: "graph_thread \<Rightarrow> graph_thread \<Rightarrow> bool" where
  "same_thread th th' \<longleftrightarrow> th_root th = th_root th' \<and> th_thread_id th = th_thread_id th' \<and> th_org_run th = th_org_run th'
     \<and> th_position th = th_position th' \<and> same_tracking (th_tracking th) (th_tracking th')"

lemma add_child_sim:
  assumes "map plain_row rs = map plain_row (rp_runs P)"
  shows "\<exists>rs'. add_child pe i k w' n s (revised a rs P) = map_prod (\<lambda>c. c) (revised a rs') (add_child pe i k w n s P)
    \<and> map plain_row rs' = map plain_row (rp_runs (snd (add_child pe i k w n s P)))"
  by (rule exI[of _ "rs @ [child_row pe i k w' n (db_next_id (rp_db P))]"])
    (use assms in \<open>simp add: add_child_def fresh_research_id_def add_log_def child_row_def plain_row_def revised_def\<close>)

lemma recorder_runs [simp]:
  "rp_runs (snd (record_strategy pe l (t, P))) = rp_runs P" "rp_runs (snd (record_version i run c ls ex ra P)) = rp_runs P"
  "rp_runs (record_validation e i v P) = rp_runs P" "rp_runs (snd (record_backtest e i r m P)) = rp_runs P"
  "rp_runs (record_verdict i ev P) = rp_runs P" "rp_runs (record_optimization i op P) = rp_runs P"
  "rp_runs (record_risk i ra2 P) = rp_runs P" "rp_runs (record_deployment pe i rid org d P) = rp_runs P"
  "rp_runs (set_strategy_row i h P) = rp_runs P"
  by (simp_all add: record_strategy_def record_version_def record_validation_def record_backtest_def
      record_verdict_def record_optimization_def record_risk_def record_deployment_def fresh_research_id_def set_strategy_row_def
      set_version_def set_result_def run_strategy_factory_pipeline_def update_validation_status_def Let_def
    split: option.split list.split)

lemma record_backtest_runs: "record_backtest e i r m P = (x, P1) \<Longrightarrow> rp_runs P1 = rp_runs P"
  by (metis recorder_runs(4) snd_conv)

lemma persist_runs: "rp_runs (snd (persist_strategy_progress pe n s run org (t, P))) = rp_runs P"
  by (cases n) (auto simp: persist_strategy_progress_def on_some_def dest: record_backtest_runs split: option.split prod.split)

lemma record_node_sim:
  assumes th: "same_thread th th'" and w: "work P = work P'"
  shows "same_tracking (fst (record_node pe th n s P)) (fst (record_node pe th' n s P'))
    \<and> work (snd (record_node pe th n s P)) = work (snd (record_node pe th' n s P'))"
proof -
  obtain a rs where P': "P' = revised a rs P" and rs: "map plain_row rs = map plain_row (rp_runs P)" using w by (rule work_eqE)
  obtain ls where ls: "th_tracking th' = (th_tracking th)\<lparr>tr_pending_option_legs := ls\<rparr>"
      "nonempty ls = nonempty (tr_pending_option_legs (th_tracking th))"
    using th by (auto simp: same_thread_def elim: same_trackingE)
  obtain cid P1 where c: "add_child pe (th_root th) (th_thread_id th) (th_wall th) n s P = (cid, P1)"
    by (cases "add_child pe (th_root th) (th_thread_id th) (th_wall th) n s P")
  obtain rs' where c': "add_child pe (th_root th') (th_thread_id th') (th_wall th') n s P' = (cid, revised a rs' P1)"
      "map plain_row rs' = map plain_row (rp_runs P1)"
    using add_child_sim[OF rs, of pe "th_root th" "th_thread_id th" "th_wall th'" n s a "th_wall th"] th c by (auto simp: P' same_thread_def)
  let ?x = "persist_strategy_progress pe n s cid (th_org_run th) (th_tracking th, P1)"
  let ?y = "persist_strategy_progress pe n s cid (th_org_run th) (th_tracking th', revised a rs' P1)"
  obtain b where "snd ?y = revised b rs' (snd ?x)" "same_tracking (fst ?x) (fst ?y)"
    using persist_sim[OF ls(2), of pe n s cid "th_org_run th" a rs' P1] by (auto simp: ls(1))
  moreover from this have "work (snd ?x) = work (snd ?y)" using c'(2) by (metis persist_runs work_revised)
  ultimately show ?thesis using c c' th by (simp del: work_revised add: record_node_def same_thread_def case_prod_unfold Let_def work_logs_audit)
qed

lemma pause_point_sim: "work P = work P' \<Longrightarrow> th_root th = th_root th' \<Longrightarrow> pause_point th P = pause_point th' P'"
proof -
  have "pause_point th P = (case map_option plain_row (get_graph_run P (th_root th)) of None \<Rightarrow> False | Some r \<Rightarrow> gr_pause_requested r)" for th P
    by (simp add: pause_point_def split: option.split)
  then show "work P = work P' \<Longrightarrow> th_root th = th_root th' \<Longrightarrow> ?thesis" by (metis work_get_run)
qed

lemma plain_updates:
  assumes "plain_row r = plain_row r'"
  shows "plain_row (r\<lparr>gr_status := st, gr_ended_at := en\<rparr>) = plain_row (r'\<lparr>gr_status := st, gr_ended_at := en\<rparr>)"
    "plain_row (r\<lparr>gr_status := st, gr_pause_requested := pr, gr_tracking_snapshot := j\<rparr>) =
      plain_row (r'\<lparr>gr_status := st, gr_pause_requested := pr, gr_tracking_snapshot := j'\<rparr>)"
    "plain_row (r\<lparr>gr_status := st, gr_ended_at := en, gr_tracking_snapshot := j\<rparr>) =
      plain_row (r'\<lparr>gr_status := st, gr_ended_at := en, gr_tracking_snapshot := j'\<rparr>)"
  using assms by (cases r; cases r'; simp add: plain_row_def)+

lemma close_sim:
  assumes w: "work P = work P'" shows "work (close_with_error pe i err P) = work (close_with_error pe i err P')"
proof -
  have none: "get_graph_run P i = None \<longleftrightarrow> get_graph_run P' i = None" using work_get_run[OF w, of i] by (metis map_option_is_None)
  have "work (set_graph_run i (\<lambda>r. r\<lparr>gr_status := st, gr_ended_at := Some now\<rparr>) P) =
      work (set_graph_run i (\<lambda>r. r\<lparr>gr_status := st, gr_ended_at := Some now\<rparr>) P')" for st now
    by (rule work_set_run[OF w]) (rule plain_updates(1))
  then show ?thesis using none w by (cases err) (auto simp: close_with_error_def Let_def intro!: work_logs_audit(1))
qed

definition same_run :: "graph_thread option \<times> research \<Rightarrow> graph_thread option \<times> research \<Rightarrow> bool" where
  "same_run x y \<longleftrightarrow> rel_option same_thread (fst x) (fst y) \<and> work (snd x) = work (snd y)"

lemma advance_sim:
  assumes th: "same_thread th th'" and w: "work P = work P'"
  shows "same_run (advance pe th P) (advance pe th' P')"
proof (cases "th_position th")
  case (At n s)
  let ?p = "graph_step build_graph (pe_graph pe) (At n s)"
  show ?thesis
  proof (cases "state_of ?p")
    case None
    then obtain err where "?p = Crashed err" by (cases ?p) (simp_all add: state_of_def)
    moreover have "th_root th' = th_root th" "th_position th' = At n s" using th At by (simp_all add: same_thread_def)
    ultimately show ?thesis using At close_sim[OF w, of pe "th_root th" err] by (simp add: advance_def state_of_def same_run_def same_thread_def)
  next
    case (Some s')
    obtain t P1 where x: "record_node pe th n s' (save_checkpoint (th_thread_id th) ?p P) = (t, P1)" by fastforce
    obtain t' P1' where y: "record_node pe th' n s' (save_checkpoint (th_thread_id th) ?p P') = (t', P1')" by fastforce
    have s: "same_tracking t t'" "work P1 = work P1'"
      using record_node_sim[OF th work_logs_audit(3)[OF w, of "th_thread_id th" ?p], of pe n s'] x y by simp_all
    let ?th = "th\<lparr>th_position := ?p, th_tracking := t, th_wall := e_now (pe_org pe)\<rparr>"
    let ?th' = "th'\<lparr>th_position := ?p, th_tracking := t', th_wall := e_now (pe_org pe)\<rparr>"
    have r: "th_root th' = th_root th" "th_thread_id th' = th_thread_id th" "th_position th' = At n s" using th At by (simp_all add: same_thread_def)
    have "same_thread ?th ?th'" using th s by (simp add: same_thread_def)
    moreover have "pause_point ?th P1 = pause_point ?th' P1'" by (rule pause_point_sim[OF s(2)]) (simp add: r)
    moreover have "work (park ?th P1) = work (park ?th' P1')"
      unfolding park_def by (simp add: r, rule work_set_run[OF s(2)]) (rule plain_updates(2))
    ultimately show ?thesis using s x y Some At r by (simp add: advance_def same_run_def Let_def)
  qed
next
  case (Finished s)
  have "work (complete_run (pe_org pe) th P) = work (complete_run (pe_org pe) th' P')"
    using th unfolding complete_run_def same_thread_def by (simp, intro work_set_run[OF w]) (rule plain_updates(3))
  moreover have "th_position th' = th_position th" using th by (simp add: same_thread_def)
  ultimately show ?thesis using Finished by (simp add: advance_def same_run_def)
next
  case (Crashed e)
  have "work (complete_run (pe_org pe) th P) = work (complete_run (pe_org pe) th' P')"
    using th unfolding complete_run_def same_thread_def by (simp, intro work_set_run[OF w]) (rule plain_updates(3))
  moreover have "th_position th' = th_position th" using th by (simp add: same_thread_def)
  ultimately show ?thesis using Crashed by (simp add: advance_def same_run_def)
qed

text \<open>A thread left alone, each iteration in its own environment.\<close>
fun run_thread :: "progress_env list \<Rightarrow> graph_thread option \<times> research \<Rightarrow> graph_thread option \<times> research" where
  "run_thread (pe # pes) (Some th, P) = run_thread pes (advance pe th P)"
| "run_thread _ x = x"

lemma run_thread_None [simp]: "run_thread pes (None, P) = (None, P)" by (cases pes) simp_all

lemma run_thread_sim: "same_run x y \<Longrightarrow> same_run (run_thread pes x) (run_thread pes y)"
proof (induction pes arbitrary: x y)
  case (Cons pe pes)
  obtain a P b P' where xy: "x = (a, P)" "y = (b, P')" by (cases x; cases y)
  show ?case
  proof (cases a)
    case None
    then show ?thesis using Cons.prems xy by (simp add: same_run_def)
  next
    case (Some th)
    then obtain th' where "b = Some th'" "same_thread th th'" "work P = work P'"
      using Cons.prems xy by (auto simp: same_run_def option_rel_Some1)
    then show ?thesis using Cons.IH[OF advance_sim] Some xy by simp
  qed
qed simp

section \<open>Pausing and resuming\<close>

text \<open>Primary keys: distinct, and older than the next one.\<close>
definition sound_runs :: "research \<Rightarrow> bool" where
  "sound_runs P \<longleftrightarrow> distinct (map gr_id (rp_runs P)) \<and> (\<forall>r \<in> set (rp_runs P). gr_id r < db_next_id (rp_db P))"

lemma recorder_checkpoints [simp]:
  "rp_checkpoints (snd (record_strategy pe l (t, P))) = rp_checkpoints P" "rp_checkpoints (snd (record_version i run c ls ex ra P)) = rp_checkpoints P"
  "rp_checkpoints (record_validation e i v P) = rp_checkpoints P" "rp_checkpoints (snd (record_backtest e i r m P)) = rp_checkpoints P"
  "rp_checkpoints (record_verdict i ev P) = rp_checkpoints P" "rp_checkpoints (record_optimization i op P) = rp_checkpoints P"
  "rp_checkpoints (record_risk i ra2 P) = rp_checkpoints P" "rp_checkpoints (record_deployment pe i rid org d P) = rp_checkpoints P"
  "rp_checkpoints (set_strategy_row i h P) = rp_checkpoints P"
  by (simp_all add: record_strategy_def record_version_def record_validation_def record_backtest_def
      record_verdict_def record_optimization_def record_risk_def record_deployment_def fresh_research_id_def set_strategy_row_def
      set_version_def set_result_def run_strategy_factory_pipeline_def update_validation_status_def Let_def
    split: option.split list.split)

lemma record_backtest_checkpoints: "record_backtest e i r m P = (x, P1) \<Longrightarrow> rp_checkpoints P1 = rp_checkpoints P"
  by (metis recorder_checkpoints(4) snd_conv)

lemma persist_checkpoints: "rp_checkpoints (snd (persist_strategy_progress pe n s run org (t, P))) = rp_checkpoints P"
  by (cases n) (auto simp: persist_strategy_progress_def on_some_def dest: record_backtest_checkpoints split: option.split prod.split)

text \<open>The transaction of a node, on a database whose run rows differ: it appends the row of the node and touches no other.\<close>
lemma record_node_effect:
  defines "row \<equiv> \<lambda>pe th n P. child_row pe (th_root th) (th_thread_id th) (th_wall th) n (db_next_id (rp_db P))"
  shows "rp_runs (snd (record_node pe th n s P)) = rp_runs P @ [row pe th n P]"
    and "rp_checkpoints (snd (record_node pe th n s P)) = rp_checkpoints P"
    and "\<exists>b. snd (record_node pe th n s (revised a rs P)) = revised b (rs @ [row pe th n P]) (snd (record_node pe th n s P))
      \<and> same_tracking (fst (record_node pe th n s P)) (fst (record_node pe th n s (revised a rs P)))"
proof -
  define cid where "cid = db_next_id (rp_db P)"
  obtain P1 where c: "add_child pe (th_root th) (th_thread_id th) (th_wall th) n s P = (cid, P1)"
      "rp_runs P1 = rp_runs P @ [row pe th n P]" "rp_checkpoints P1 = rp_checkpoints P"
      "add_child pe (th_root th) (th_thread_id th) (th_wall th) n s (revised a rs P) = (cid, revised a (rs @ [row pe th n P]) P1)"
    by (simp add: add_child_def fresh_research_id_def add_log_def row_def cid_def revised_def)
  show "rp_runs (snd (record_node pe th n s P)) = rp_runs P @ [row pe th n P]"
    "rp_checkpoints (snd (record_node pe th n s P)) = rp_checkpoints P"
    using c(1-3) by (simp_all add: record_node_def case_prod_unfold Let_def audit_research_def persist_runs persist_checkpoints)
  let ?x = "persist_strategy_progress pe n s cid (th_org_run th) (th_tracking th, P1)"
  let ?y = "persist_strategy_progress pe n s cid (th_org_run th) (th_tracking th, revised a (rs @ [row pe th n P]) P1)"
  have self: "(th_tracking th)\<lparr>tr_pending_option_legs := tr_pending_option_legs (th_tracking th)\<rparr> = th_tracking th" by simp
  obtain b where b: "snd ?y = revised b (rs @ [row pe th n P]) (snd ?x)" "same_tracking (fst ?x) (fst ?y)"
    using persist_sim[OF refl, of pe n s cid "th_org_run th" "th_tracking th" a "rs @ [row pe th n P]" P1] unfolding self by blast
  have "\<exists>b'. audit_research env x (revised b rs' Q) = revised b' rs' (audit_research env x Q)" for env x rs' Q
    by (rule exI[of _ "b @ [audit_row env x b]"]) (simp add: audit_research_def write_audit_entry_def Let_def revised_def)
  then show "\<exists>b. snd (record_node pe th n s (revised a rs P)) = revised b (rs @ [row pe th n P]) (snd (record_node pe th n s P))
      \<and> same_tracking (fst (record_node pe th n s P)) (fst (record_node pe th n s (revised a rs P)))"
    using b c(1,4) by (simp add: record_node_def case_prod_unfold Let_def)
qed

text \<open>The rows of the runs, as the root is flagged, parked and set running again.\<close>
lemma parked_rows:
  assumes rows: "\<forall>x \<in> set rs. gr_id x = i \<longrightarrow> x = r" and r: "gr_status r = RUNNING" "\<not> gr_pause_requested r" and c: "gr_id c \<noteq> i"
  shows "map plain_row (update_where (\<lambda>x. gr_id x = i) (\<lambda>x. x\<lparr>gr_status := RUNNING\<rparr>)
      (update_where (\<lambda>x. gr_id x = i) (\<lambda>x. x\<lparr>gr_status := PAUSED, gr_pause_requested := False, gr_tracking_snapshot := j\<rparr>)
        (update_where (\<lambda>x. gr_id x = i) (\<lambda>x. x\<lparr>gr_pause_requested := True\<rparr>) rs @ [c])))
    = map plain_row (rs @ [c])"
proof -
  have "plain_row (x\<lparr>gr_pause_requested := False, gr_tracking_snapshot := j, gr_status := RUNNING\<rparr>) = plain_row x" if "x = r" for x
    using that r by (cases r) (simp add: plain_row_def)
  then show ?thesis using rows c by (auto simp: update_where_def)
qed

lemma same_tracking_storable: "same_tracking t t' \<Longrightarrow> storable t \<Longrightarrow> storable t'"
  by (erule same_trackingE) (simp add: storable_def)

lemma normal_same: "same_tracking t (normal_tracking t)"
  by (simp add: same_tracking_def normal_tracking_def nonempty_def split: option.split list.split)

lemma same_tracking_trans: "same_tracking t t' \<Longrightarrow> same_tracking t' t'' \<Longrightarrow> same_tracking t t''"
  by (simp add: same_tracking_def)

text \<open>A pause asked for while a node runs takes effect after it, and the resumed thread stands where the
  undisturbed one would.\<close>
lemma pause_then_resume:
  assumes ids: "sound_runs P" and root: "get_root_run P (th_root th) = Some r" "gr_status r = RUNNING" "\<not> gr_pause_requested r"
    and th: "gr_thread_id r = th_thread_id th" "th_org_run th = None"
    and step: "advance pe th P = (Some th1, P1)" and store: "storable (th_tracking th1)"
  shows "\<exists>PA PB th2 PC. pause_run env user (th_root th) P = Inr PA \<and> advance pe th PA = (None, PB)
    \<and> resume_run env' user' (th_root th) PB = Inr (Some th2, PC) \<and> same_thread th1 th2 \<and> work P1 = work PC"
proof -
  let ?i = "th_root th"
  have r: "row_by gr_id ?i (rp_runs P) = Some r" "gr_parent_run_id r = None"
    using root(1) by (auto simp: get_root_run_def get_graph_run_def split: option.splits if_splits)
  then have rid: "r \<in> set (rp_runs P)" "gr_id r = ?i" using row_by_SomeD by fastforce+
  have only: "\<forall>x \<in> set (rp_runs P). gr_id x = ?i \<longrightarrow> x = r"
    using ids rid by (auto simp: sound_runs_def distinct_map inj_on_def)
  have fresh: "db_next_id (rp_db P) \<noteq> ?i" using ids rid by (auto simp: sound_runs_def)
  obtain n s s' where at: "th_position th = At n s"
      and s': "state_of (graph_step build_graph (pe_graph pe) (At n s)) = Some s'"
    using step by (cases "th_position th") (auto simp: advance_def Let_def split: option.splits)
  define p where "p = graph_step build_graph (pe_graph pe) (At n s)"
  define S where "S = save_checkpoint (th_thread_id th) p P"
  have one: "th1 = th\<lparr>th_position := p, th_tracking := fst (record_node pe th n s' S), th_wall := e_now (pe_org pe)\<rparr>"
      "P1 = snd (record_node pe th n s' S)"
    using step at s' by (auto simp: advance_def Let_def p_def S_def case_prod_unfold split: if_splits)
  define PA where "PA = audit_research env (audit_entry Human user ''GRAPH_RUN_PAUSE_REQUESTED'' ''AgentRun'' (Some ?i) None None)
    (set_graph_run ?i (\<lambda>r. r\<lparr>gr_pause_requested := True\<rparr>) P)"
  have pause: "pause_run env user ?i P = Inr PA" using root by (simp add: pause_run_def PA_def)
  let ?rs = "update_where (\<lambda>x. gr_id x = ?i) (\<lambda>x. x\<lparr>gr_pause_requested := True\<rparr>) (rp_runs P)"
  have SA: "save_checkpoint (th_thread_id th) p PA = revised (db_audit (rp_db PA)) ?rs S"
    by (simp add: PA_def S_def audit_research_def set_graph_run_def save_checkpoint_def revised_def write_audit_entry_def Let_def)
  have S: "rp_runs S = rp_runs P" "db_next_id (rp_db S) = db_next_id (rp_db P)" "dict_get (rp_checkpoints S) (th_thread_id th) = Some p"
    by (simp_all add: S_def save_checkpoint_def)
  define c where "c = child_row pe ?i (th_thread_id th) (th_wall th) n (db_next_id (rp_db P))"
  have cid: "gr_id c \<noteq> ?i" using fresh by (simp add: c_def child_row_def)
  obtain b where b: "snd (record_node pe th n s' (save_checkpoint (th_thread_id th) p PA)) = revised b (?rs @ [c]) P1"
      "same_tracking (th_tracking th1) (fst (record_node pe th n s' (save_checkpoint (th_thread_id th) p PA)))"
    using record_node_effect(3)[of pe th n s' "db_audit (rp_db PA)" ?rs S] by (auto simp: SA one S c_def)
  define t where "t = fst (record_node pe th n s' (save_checkpoint (th_thread_id th) p PA))"
  have root_row: "row_by gr_id ?i (?rs @ [c]) = Some (r\<lparr>gr_pause_requested := True\<rparr>)"
    using r rid by (simp add: row_by_append row_by_update_where)
  define thA where "thA = th\<lparr>th_position := p, th_tracking := t, th_wall := e_now (pe_org pe)\<rparr>"
  define PB where "PB = park thA (revised b (?rs @ [c]) P1)"
  have adv: "advance pe th PA = (None, PB)"
    using at s' b(1) root_row by (simp add: advance_def Let_def p_def[symmetric] t_def[symmetric] case_prod_unfold pause_point_def get_graph_run_def
      thA_def PB_def)
  have snap: "tracking_from_snapshot (tracking_to_snapshot t) = Some (normal_tracking t)"
    by (rule snapshot_reads_back) (use b(2) store same_tracking_storable t_def in blast)
  let ?r2 = "r\<lparr>gr_status := PAUSED, gr_pause_requested := False, gr_tracking_snapshot := Some (tracking_to_snapshot t)\<rparr>"
  have parked: "row_by gr_id ?i (rp_runs PB) = Some ?r2"
    using root_row rid by (simp add: PB_def park_def set_graph_run_def thA_def row_by_update_where)
  have chk: "rp_checkpoints PB = rp_checkpoints S" by (simp add: PB_def park_def set_graph_run_def one record_node_effect(2))
  define th2 where "th2 = \<lparr>th_root = ?i, th_thread_id = th_thread_id th, th_org_run = None, th_position = p,
    th_tracking = normal_tracking t, th_wall = e_now env'\<rparr>"
  define PC where "PC = audit_research env' (audit_entry Human user' ''GRAPH_RUN_RESUMED'' ''AgentRun'' (Some ?i) None None)
    (set_graph_run ?i (\<lambda>r. r\<lparr>gr_status := RUNNING\<rparr>) PB)"
  have resume: "resume_run env' user' ?i PB = Inr (Some th2, PC)"
    using parked r(2) rid(2) th(1) S(3) snap chk
    by (simp add: resume_run_def get_root_run_def get_graph_run_def resumed_thread_def th2_def PC_def)
  have "same_thread th1 th2"
    using same_tracking_trans[OF b(2)[folded t_def] normal_same] th(2) by (simp add: same_thread_def th2_def one(1))
  moreover have "work P1 = work PC"
  proof -
    have runs1: "rp_runs P1 = rp_runs P @ [c]" by (simp add: one(2) record_node_effect(1) S c_def)
    have "PC = revised (db_audit (rp_db PC)) (rp_runs PC) P1"
      by (simp add: PC_def PB_def park_def set_graph_run_def audit_research_def write_audit_entry_def Let_def revised_def)
    moreover have "map plain_row (rp_runs PC) = map plain_row (rp_runs P1)"
      using parked_rows[OF only root(2,3) cid, of "Some (tracking_to_snapshot t)"]
      by (simp add: PC_def PB_def park_def set_graph_run_def audit_research_def thA_def runs1)
    ultimately show ?thesis by (metis work_revised)
  qed
  ultimately show ?thesis using pause adv resume by blast
qed

text \<open>C36. Pausing a run changes nothing it produces. Let the thread of a manually started run have just one more
  iteration to do before a pause: asked to pause, it records the node, stores its tracking state and returns;
  resumed later, by whoever and whenever, it continues in the same place of the graph, and after any further
  iterations every strategy, version, backtest, approval, log line and run row is the one the undisturbed
  thread would have written. Only start times, the stored snapshot and the audit log differ.\<close>
theorem pause_is_transparent:
  assumes "sound_runs P" and "get_root_run P (th_root th) = Some r" and "gr_status r = RUNNING" and "\<not> gr_pause_requested r"
    and "gr_thread_id r = th_thread_id th" and "th_org_run th = None"
    and "advance pe th P = (Some th1, P1)" and "storable (th_tracking th1)"
  shows "\<exists>PA PB th2 PC. pause_run env user (th_root th) P = Inr PA \<and> advance pe th PA = (None, PB)
    \<and> resume_run env' user' (th_root th) PB = Inr (Some th2, PC) \<and> th_position th2 = th_position th1
    \<and> (\<forall>pes. work (snd (run_thread pes (Some th2, PC))) = work (snd (run_thread pes (Some th1, P1))))"
proof -
  obtain PA PB th2 PC where p: "pause_run env user (th_root th) P = Inr PA" "advance pe th PA = (None, PB)"
      "resume_run env' user' (th_root th) PB = Inr (Some th2, PC)" "same_thread th1 th2" "work P1 = work PC"
    using pause_then_resume[OF assms] by blast
  then have "same_run (run_thread pes (Some th1, P1)) (run_thread pes (Some th2, PC))" for pes
    by (intro run_thread_sim) (simp add: same_run_def)
  then have "\<forall>pes. work (snd (run_thread pes (Some th2, PC))) = work (snd (run_thread pes (Some th1, P1)))"
    by (simp add: same_run_def)
  then show ?thesis using p by (auto simp: same_thread_def)
qed

definition empty_research :: research where
  "empty_research = \<lparr>rp_db = empty_db, rp_columns = [], rp_versions = [], rp_results = [], rp_runs = [], rp_logs = [],
     rp_suggestions = [], rp_checkpoints = []\<rparr>"

definition sample_progress :: "env \<Rightarrow> graph_env \<Rightarrow> progress_env" where
  "sample_progress env e = \<lparr>pe_org = env, pe_graph = e, pe_account = Some 7, pe_tenant = (\<lambda>_. 1), pe_dump_directive = (\<lambda>_. JObj []),
     pe_dump_context = (\<lambda>_. JObj []), pe_load_directive = (\<lambda>_. None), pe_load_context = (\<lambda>_. None), pe_dump_output = (\<lambda>_ _. JObj []),
     pe_rationale = (\<lambda>_. None), pe_render = (\<lambda>_. []), pe_repr = (\<lambda>_. []), pe_error_text = (\<lambda>_. [])\<rparr>"

theorem pause_is_transparent_witness:
  "let (th, P) = trigger_research sample_env None [] empty_research; pe = sample_progress sample_env (sample_graph_env 2 False) in
   \<exists>PA PB th2 PC. pause_run sample_env ''u'' (th_root th) P = Inr PA \<and> advance pe th PA = (None, PB)
    \<and> resume_run sample_env ''u'' (th_root th) PB = Inr (Some th2, PC)
    \<and> (\<forall>pes. work (snd (run_thread pes (Some th2, PC))) = work (snd (run_thread pes (advance pe th P))))"
proof -
  obtain th P where t: "trigger_research sample_env None [] empty_research = (th, P)" by fastforce
  let ?pe = "sample_progress sample_env (sample_graph_env 2 False)"
  let ?r = "\<lparr>gr_id = 2, gr_thread_id = uuid_str 1, gr_agent_name = GRAPH_ROOT_AGENT_NAME, gr_parent_run_id = None, gr_status = RUNNING,
            gr_started_at = e_now sample_env, gr_ended_at = None, gr_retried_from_run_id = None, gr_pause_requested = False,
            gr_tracking_snapshot = None\<rparr>"
  have th: "th = fresh_thread sample_env 2 (uuid_str 1) None None []" "rp_runs P = [?r]" "db_next_id (rp_db P) = 3"
    using t by (auto simp: eval_nat_numeral trigger_research_def new_root_def fresh_research_id_def empty_research_def empty_db_def Let_def)
  have root: "sound_runs P" "get_root_run P (th_root th) = Some ?r"
    by (simp_all add: th sound_runs_def get_root_run_def get_graph_run_def fresh_thread_def)
  let ?s = "initial_graph_state (uuid_str 1) None []"
  obtain s1 where g: "graph_step build_graph (sample_graph_env 2 False) (At CEO_AGENT ?s) = At MARKET_ANALYST s1" "gs_research_directive s1 \<noteq> None"
    by (simp add: sample_step_defs ceo_agent_node_def sample_graph_env_def)
  obtain t1 Q where n: "record_node ?pe th CEO_AGENT s1 (save_checkpoint (th_thread_id th) (At MARKET_ANALYST s1) P) = (t1, Q)" by fastforce
  have t1: "storable t1" using n g(2)
    by (auto simp: record_node_def case_prod_unfold Let_def persist_strategy_progress_def storable_def th fresh_thread_def new_tracking_def sample_progress_def)
  have "rp_runs Q = [?r, child_row ?pe 2 (uuid_str 1) (e_now sample_env) CEO_AGENT 3]"
    using record_node_effect(1)[of ?pe th CEO_AGENT s1 "save_checkpoint (th_thread_id th) (At MARKET_ANALYST s1) P"] n
    by (simp add: th save_checkpoint_def fresh_thread_def)
  then obtain th1 P1 where step: "advance ?pe th P = (Some th1, P1)" "storable (th_tracking th1)"
    using n t1 g(1) by (simp add: advance_def th fresh_thread_def state_of_def Let_def pause_point_def get_graph_run_def sample_progress_def)
  have "\<exists>PA PB th2 PC. pause_run sample_env ''u'' (th_root th) P = Inr PA \<and> advance ?pe th PA = (None, PB)
    \<and> resume_run sample_env ''u'' (th_root th) PB = Inr (Some th2, PC) \<and> th_position th2 = th_position th1
    \<and> (\<forall>pes. work (snd (run_thread pes (Some th2, PC))) = work (snd (run_thread pes (Some th1, P1))))"
    by (rule pause_is_transparent[OF root _ _ _ _ step]) (simp_all add: th fresh_thread_def)
  then show ?thesis using t step by auto
qed

end
