(* ===== verification/Suggestions.thy ===== *)
theory Suggestions
  imports ResearchThreads
begin

text \<open>
  Suggestions (\<open>src/api/routers/strategies.py\<close>, \<open>run_suggestion_regeneration\<close> of \<open>src/api/routers/agents.py\<close>): a user's
  text is reviewed by a model and, if sound, the smaller graph regenerates the strategy. The verdict of the
  reviewer (\<open>src/agents/nodes/suggestion_reviewer.py\<close>) is an argument: \<open>Inl\<close> the text of an exception.
\<close>

section \<open>Operations\<close>

datatype suggestion_error = EmptySuggestion | NoSuchStrategy | NoSuchSuggestion | SuggestionNotPending string

definition get_suggestion :: "research \<Rightarrow> nat \<Rightarrow> strategy_suggestion option" where
  "get_suggestion P i = row_by su_id i (rp_suggestions P)"

definition set_suggestion :: "nat \<Rightarrow> (strategy_suggestion \<Rightarrow> strategy_suggestion) \<Rightarrow> research \<Rightarrow> research" where
  "set_suggestion i f P = P\<lparr>rp_suggestions := update_where (\<lambda>g. su_id g = i) f (rp_suggestions P)\<rparr>"

definition submit_suggestion :: "nat \<Rightarrow> string \<Rightarrow> research \<Rightarrow> suggestion_error + nat \<times> research" where
  "submit_suggestion sid body P =
    (if strip body = [] then Inl EmptySuggestion
     else if get_strategy (rp_db P) sid = None then Inl NoSuchStrategy
     else (let (gid, P1) = fresh_research_id P;
               row = \<lparr>su_id = gid, su_strategy_id = sid, su_suggestion_text = strip body, su_status = ''Pending'', su_ai_verdict = None,
                 su_ai_reasoning = [], su_resulting_version_id = None, su_reviewed_at = None\<rparr>
           in Inr (gid, P1\<lparr>rp_suggestions := rp_suggestions P1 @ [row]\<rparr>)))"

text \<open>The check before the review thread starts.\<close>
definition trigger_suggestion_review :: "nat \<Rightarrow> nat \<Rightarrow> research \<Rightarrow> suggestion_error + unit" where
  "trigger_suggestion_review sid gid P =
    (case get_suggestion P gid of
       None \<Rightarrow> Inl NoSuchSuggestion
     | Some g \<Rightarrow>
        if su_strategy_id g \<noteq> sid then Inl NoSuchSuggestion
        else if su_status g \<noteq> ''Pending'' then Inl (SuggestionNotPending (su_status g)) else Inr ())"

definition latest_version_no :: "research \<Rightarrow> nat \<Rightarrow> int" where
  "latest_version_no P sid =
    (case map vn_version_no (filter (\<lambda>v. vn_strategy_id v = sid) (rp_versions P)) of [] \<Rightarrow> 0 | v # vs \<Rightarrow> foldl max v vs)"

definition truthy :: "json option \<Rightarrow> bool" where
  "truthy j = (case j of None \<Rightarrow> False | Some JNull \<Rightarrow> False | Some (JObj []) \<Rightarrow> False | _ \<Rightarrow> True)"

text \<open>Both contexts are validated in one try block: if the first fails the second stays empty too.\<close>
definition reconstructed :: "progress_env \<Rightarrow> json option \<Rightarrow> json option \<Rightarrow> research_directive option \<times> market_context option" where
  "reconstructed pe rc mc =
    (let context = (if truthy mc then pe_load_context pe (the mc) else None) in
     if truthy rc then (case pe_load_directive pe (the rc) of None \<Rightarrow> (None, None) | Some d \<Rightarrow> (Some d, context))
     else (None, context))"

definition seeded_state ::
  "progress_env \<Rightarrow> string \<Rightarrow> real option \<Rightarrow> equity_curve_point list \<Rightarrow> strategy_suggestion \<Rightarrow> research \<Rightarrow> graph_state" where
  "seeded_state pe thread capital curve g P =
    (let (rc, mc) = (case get_columns P (su_strategy_id g) of None \<Rightarrow> (None, None) | Some c \<Rightarrow> (sk_research_context c, sk_market_context c));
         (d, c) = reconstructed pe rc mc
     in (initial_graph_state thread capital curve)\<lparr>gs_research_directive := d, gs_market_context := c,
          gs_python_code := Some \<lparr>py_code = [], py_version_no = latest_version_no P (su_strategy_id g)\<rparr>,
          gs_evaluation_verdict := Some \<lparr>ev_passed = False, ev_failure_reasons = [[Lit ''User-submitted suggestion'']],
            ev_feedback = Some [Sym (su_suggestion_text g)]\<rparr>\<rparr>)"

definition record_regen_node ::
  "progress_env \<Rightarrow> nat \<Rightarrow> string \<Rightarrow> timestamp \<Rightarrow> graph_node \<Rightarrow> graph_state \<Rightarrow> regen_tracking \<times> research \<Rightarrow> regen_tracking \<times> research" where
  "record_regen_node pe parent thread wall n s = (\<lambda>(t, P).
    (let (cid, P1) = add_child pe parent thread wall n s P in persist_suggestion_regeneration pe n s cid (t, P1)))"

text \<open>The stream of the smaller graph, step \<open>k\<close> in its own environment; thirteen steps always reach the end.\<close>
fun regen_loop ::
  "nat \<Rightarrow> (nat \<Rightarrow> progress_env) \<Rightarrow> nat \<Rightarrow> string \<Rightarrow> timestamp \<Rightarrow> nat \<Rightarrow> graph_position \<Rightarrow> regen_tracking \<times> research
    \<Rightarrow> graph_position \<times> regen_tracking \<times> research" where
  "regen_loop 0 pes parent thread wall k p x = (p, x)"
| "regen_loop (Suc fuel) pes parent thread wall k p x =
    (case p of
       At n _ \<Rightarrow>
        (let p' = graph_step build_suggestion_regeneration_graph (pe_graph (pes k)) p in
         case state_of p' of
           None \<Rightarrow> (p', x)
         | Some s \<Rightarrow> regen_loop fuel pes parent thread (e_now (pe_org (pes k))) (Suc k) p' (record_regen_node (pes k) parent thread wall n s x))
     | _ \<Rightarrow> (p, x))"

definition REGEN_STEPS :: nat where "REGEN_STEPS = 13"

definition finish_suggestion :: "progress_env \<Rightarrow> nat \<Rightarrow> nat \<Rightarrow> graph_position \<times> regen_tracking \<times> research \<Rightarrow> research" where
  "finish_suggestion pe rid gid = (\<lambda>(p, t, P).
    (let now = e_now (pe_org pe);
         reject = (\<lambda>extra g. g\<lparr>su_status := ''Rejected'', su_ai_reasoning := su_ai_reasoning g @ extra, su_reviewed_at := Some now\<rparr>)
     in case p of
       Crashed err \<Rightarrow>
         set_suggestion gid (reject [Lit (case err of Halted _ \<Rightarrow> '' (Regeneration run halted: '' | NodeFailed _ \<Rightarrow> '' (Regeneration run failed: ''),
             Lit (pe_error_text pe err), Lit '')'']) (close_with_error pe rid err P)
     | _ \<Rightarrow>
        (let P1 = set_graph_run rid (\<lambda>r. r\<lparr>gr_status := ''Completed'', gr_ended_at := Some now\<rparr>) P in
         case rt_new_version_id t of
           Some v \<Rightarrow> set_suggestion gid (\<lambda>g. g\<lparr>su_status := ''Applied'', su_resulting_version_id := Some v, su_reviewed_at := Some now\<rparr>) P1
         | None \<Rightarrow> set_suggestion gid (reject [Lit '' (The regeneration pipeline judged the suggestion sound but did not produce a passing version -- see this run's own Agent Console history for why.)'']) P1)))"

definition regenerate ::
  "(nat \<Rightarrow> progress_env) \<Rightarrow> real option \<Rightarrow> equity_curve_point list \<Rightarrow> strategy_suggestion \<Rightarrow> research \<Rightarrow> nat \<times> graph_position \<times> regen_tracking \<times> research" where
  "regenerate pes capital curve g P =
    (let env = pe_org (pes 0); (rid, thread, P1) = new_root env ''SuggestionRegeneration'' None P;
         t = \<lparr>rt_strategy_id = su_strategy_id g, rt_backtest_result_id = None, rt_new_version_id = None, rt_pending_option_legs = None,
            rt_pending_option_expiry = None, rt_pending_option_rationale = None\<rparr>
     in (rid, regen_loop REGEN_STEPS pes rid thread (e_now env) 0 (At STRATEGY_GENERATOR (seeded_state (pes 0) thread capital curve g P)) (t, P1)))"

definition run_suggestion_regeneration ::
  "string + bool \<times> string \<Rightarrow> (nat \<Rightarrow> progress_env) \<Rightarrow> real option \<Rightarrow> equity_curve_point list \<Rightarrow> nat \<Rightarrow> research \<Rightarrow> research" where
  "run_suggestion_regeneration review pes capital curve gid P =
    (case get_suggestion P gid of
       None \<Rightarrow> P
     | Some g \<Rightarrow>
        (let now = e_now (pe_org (pes 0));
             rejected = (\<lambda>verdict why g. g\<lparr>su_status := ''Rejected'', su_ai_verdict := verdict, su_ai_reasoning := why, su_reviewed_at := Some now\<rparr>)
         in case get_strategy (rp_db P) (su_strategy_id g) of
           None \<Rightarrow> set_suggestion gid (rejected (su_ai_verdict g) [Lit ''The strategy this suggestion was submitted against no longer exists.'']) P
         | Some _ \<Rightarrow>
            (let P1 = set_suggestion gid (\<lambda>g. g\<lparr>su_status := ''Reviewing''\<rparr>) P in
             case review of
               Inl err \<Rightarrow> set_suggestion gid (rejected (Some ''Review failed'') [Lit ''The review step itself failed: '', Lit err]) P1
             | Inr (sound, why) \<Rightarrow>
                if \<not> sound then set_suggestion gid (rejected (Some ''Not sound'') [Sym why]) P1
                else
                 (let P2 = set_suggestion gid (\<lambda>g. g\<lparr>su_ai_verdict := Some ''Sound'', su_ai_reasoning := [Sym why]\<rparr>) P1;
                      (rid, x) = regenerate pes capital curve g P2
                  in finish_suggestion (pes REGEN_STEPS) rid gid x))))"

section \<open>What a regeneration leaves behind\<close>

lemma get_set_strategy_row:
  "(\<And>x. str_id (f x) = str_id x) \<Longrightarrow>
    get_strategy (rp_db (set_strategy_row i f P)) j = map_option (\<lambda>x. if str_id x = i then f x else x) (get_strategy (rp_db P) j)"
  by (simp add: get_strategy_def set_strategy_row_def set_strategy_def row_by_update_where)

lemma get_strategy_id: "get_strategy d i = Some x \<Longrightarrow> str_id x = i"
  by (auto simp: get_strategy_def dest: row_by_SomeD)

lemma run_strategy_factory_db [simp]: "rp_db (run_strategy_factory_pipeline e c v P) = rp_db P"
  by (simp add: run_strategy_factory_pipeline_def update_validation_status_def set_version_def Let_def)

lemma record_validation_strategy:
  "\<exists>st. get_strategy (rp_db (record_validation e i v P)) i = map_option (\<lambda>x. x\<lparr>str_status := st x\<rparr>) (get_strategy (rp_db P) i)
    \<and> (\<forall>x. st x \<in> {str_status x, ''Backtesting''})"
proof -
  have other: "rp_db (set_version j f P) = rp_db P" for j f by (simp add: set_version_def)
  have upd: "get_strategy (rp_db (set_strategy_row i (\<lambda>x. x\<lparr>str_status := b\<rparr>) (run_strategy_factory_pipeline e c w P))) i =
      map_option (\<lambda>x. x\<lparr>str_status := b\<rparr>) (get_strategy (rp_db P) i)" for b c w
    by (cases "get_strategy (rp_db P) i") (auto simp: get_set_strategy_row dest: get_strategy_id)
  show ?thesis
  proof (cases "current_version P i")
    case None
    then show ?thesis by (intro exI[of _ str_status]) (simp add: record_validation_def option.map_ident)
  next
    case (Some row)
    show ?thesis
    proof (cases "vr_passed v")
      case True
      then show ?thesis by (intro exI[of _ "\<lambda>_. ''Backtesting''"]) (simp add: record_validation_def Some upd)
    next
      case False
      then show ?thesis by (intro exI[of _ str_status]) (simp add: record_validation_def Some option.map_ident other)
    qed
  qed
qed

lemma record_version_strategy:
  assumes "get_strategy (rp_db P) i = Some x"
  shows "get_strategy (rp_db (snd (record_version i run c ls ex ra P))) i =
    Some (x\<lparr>str_current_version_id := Some (fst (record_version i run c ls ex ra P)), str_status := ''Coding''\<rparr>)"
proof -
  have "get_strategy (rp_db (P\<lparr>rp_db := (rp_db P)\<lparr>db_next_id := k\<rparr>, rp_versions := vs\<rparr>)) i = Some x" for k vs
    using assms by (simp add: get_strategy_def)
  then show ?thesis using get_strategy_id[OF assms]
    by (simp add: record_version_def fresh_research_id_def Let_def get_set_strategy_row del: research.select_convs research.update_convs)
qed

lemma other_recorders_strategies:
  "get_strategy (rp_db (snd (record_backtest e i r m P))) j = get_strategy (rp_db P) j" "rp_db (record_verdict i ev P) = rp_db P"
  "get_strategy (rp_db (snd (add_child pe par thr wall n s P))) j = get_strategy (rp_db P) j"
  by (simp_all add: record_backtest_def record_verdict_def set_result_def add_child_def add_log_def fresh_research_id_def Let_def get_strategy_def
    split: option.split list.split)

text \<open>The strategy's current version is the one the regeneration wrote, and its status is that of new code.\<close>
definition installed :: "nat \<Rightarrow> regen_tracking \<times> research \<Rightarrow> bool" where
  "installed sid x \<longleftrightarrow> (\<exists>v row. rt_new_version_id (fst x) = Some v \<and> get_strategy (rp_db (snd x)) sid = Some row
     \<and> str_current_version_id row = Some v \<and> str_status row \<in> {''Coding'', ''Backtesting''})"

definition regen_invariant :: "nat \<Rightarrow> graph_position \<Rightarrow> regen_tracking \<times> research \<Rightarrow> bool" where
  "regen_invariant sid p x \<longleftrightarrow> rt_strategy_id (fst x) = sid \<and> get_strategy (rp_db (snd x)) sid \<noteq> None
     \<and> (case p of At n _ \<Rightarrow> n \<in> {STRATEGY_GENERATOR, OPTIONS_STRATEGY_AGENT} \<or> n = PYTHON_CODE_GENERATOR \<or> installed sid x
        | Finished _ \<Rightarrow> installed sid x | Crashed _ \<Rightarrow> True)"

lemma regen_record_installs:
  assumes "rt_strategy_id t = sid" "get_strategy (rp_db P) sid = Some row" "n = PYTHON_CODE_GENERATOR" "gs_python_code s = Some c"
  shows "installed sid (persist_suggestion_regeneration pe n s run (t, P))"
  using assms record_version_strategy[OF assms(2)]
  by (simp add: persist_suggestion_regeneration_def installed_def case_prod_unfold Let_def)

lemma installed_mono:
  assumes "rt_new_version_id t' = rt_new_version_id t"
    "\<exists>st. get_strategy (rp_db P') sid = map_option (\<lambda>x. x\<lparr>str_status := st x\<rparr>) (get_strategy (rp_db P) sid) \<and> (\<forall>x. st x \<in> {str_status x, ''Backtesting''})"
    "installed sid (t, P)"
  shows "installed sid (t', P')"
proof -
  obtain v row where "rt_new_version_id t = Some v" "get_strategy (rp_db P) sid = Some row" "str_current_version_id row = Some v"
      "str_status row \<in> {''Coding'', ''Backtesting''}"
    using assms(3) by (auto simp: installed_def)
  moreover obtain st where "get_strategy (rp_db P') sid = map_option (\<lambda>x. x\<lparr>str_status := st x\<rparr>) (get_strategy (rp_db P) sid)"
      "st row \<in> {str_status row, ''Backtesting''}"
    using assms(2) by blast
  ultimately show ?thesis using assms(1) by (auto simp: installed_def)
qed

lemma same_strategy:
  "get_strategy d' sid = get_strategy d sid \<Longrightarrow>
    \<exists>st. get_strategy d' sid = map_option (\<lambda>x. x\<lparr>str_status := st x\<rparr>) (get_strategy d sid) \<and> (\<forall>x. st x \<in> {str_status x, ''Backtesting''})"
  by (rule exI[of _ str_status]) (simp add: option.map_ident_strong)

text \<open>Every other node keeps the version and at most moves the strategy to \<open>Backtesting\<close>.\<close>
lemma regen_record_keeps:
  assumes "n \<noteq> PYTHON_CODE_GENERATOR" and y_def: "y = persist_suggestion_regeneration pe n s run (t, P)"
  shows "rt_strategy_id (fst y) = rt_strategy_id t \<and> rt_new_version_id (fst y) = rt_new_version_id t
    \<and> (\<exists>st. get_strategy (rp_db (snd y)) (rt_strategy_id t) = map_option (\<lambda>x. x\<lparr>str_status := st x\<rparr>) (get_strategy (rp_db P) (rt_strategy_id t))
      \<and> (\<forall>x. st x \<in> {str_status x, ''Backtesting''}))"
proof (cases "n = PYTHON_VALIDATOR")
  case True
  then show ?thesis using record_validation_strategy same_strategy[OF refl]
    by (auto simp: y_def persist_suggestion_regeneration_def on_some_def split: option.split)
next
  case False
  have b: "record_backtest e i r m P = (x, P1) \<Longrightarrow> get_strategy (rp_db P1) j = get_strategy (rp_db P) j" for e i r m x P1 j
    by (metis other_recorders_strategies(1) snd_conv)
  have "rt_strategy_id (fst y) = rt_strategy_id t \<and> rt_new_version_id (fst y) = rt_new_version_id t
      \<and> get_strategy (rp_db (snd y)) (rt_strategy_id t) = get_strategy (rp_db P) (rt_strategy_id t)"
    using assms(1) False by (cases n) (auto simp: y_def persist_suggestion_regeneration_def on_some_def set_columns_def other_recorders_strategies(2)
      Let_def dest: b split: option.split prod.split)
  then show ?thesis using same_strategy by blast
qed


lemma regen_step:
  assumes inv: "regen_invariant sid (At n s) (t, P)" and step: "graph_step build_suggestion_regeneration_graph e (At n s) = p'"
    and s': "state_of p' = Some s'"
  shows "regen_invariant sid p' (record_regen_node pe parent thread wall n s' (t, P))"
proof -
  obtain cid P1 where c: "add_child pe parent thread wall n s' P = (cid, P1)" by fastforce
  have row: "get_strategy (rp_db P1) j = get_strategy (rp_db P) j" for j using other_recorders_strategies(3)[of pe parent thread wall n s' P j] c by simp
  have sid: "rt_strategy_id t = sid" "get_strategy (rp_db P1) sid \<noteq> None" using inv row by (simp_all add: regen_invariant_def)
  have nf: "node_fn e n s = Inr s'" and ends: "p' = Finished s' \<Longrightarrow> build_suggestion_regeneration_graph n s' = Inr None"
      and moves: "p' = At m s' \<Longrightarrow> build_suggestion_regeneration_graph n s' = Inr (Some m)" for m
    using step s' by (cases p'; auto simp: state_of_def graph_step_At)+
  let ?y = "persist_suggestion_regeneration pe n s' cid (t, P1)"
  have y: "record_regen_node pe parent thread wall n s' (t, P) = ?y" by (simp add: record_regen_node_def c)
  show ?thesis
  proof (cases "n = PYTHON_CODE_GENERATOR")
    case True
    obtain row where row: "get_strategy (rp_db P1) sid = Some row" using sid by auto
    obtain code where code: "gs_python_code s' = Some code"
      using nf True by (auto simp: node_fn_def python_code_generator_node_def Let_def split: option.splits if_splits)
    have "installed sid ?y" using regen_record_installs[OF sid(1) row True code] .
    moreover from this have "get_strategy (rp_db (snd ?y)) sid \<noteq> None" by (auto simp: installed_def)
    moreover have "rt_strategy_id (fst ?y) = sid"
      using True code sid by (simp add: persist_suggestion_regeneration_def case_prod_unfold Let_def)
    ultimately show ?thesis using s' by (simp add: regen_invariant_def y split: graph_position.split)
  next
    case False
    note k = regen_record_keeps[OF False refl, of pe s' cid t P1]
    have "get_strategy (rp_db (snd ?y)) sid \<noteq> None" using k sid by auto
    moreover have "installed sid ?y" if "n \<notin> {STRATEGY_GENERATOR, OPTIONS_STRATEGY_AGENT}"
    proof -
      have "installed sid (t, P)" using inv that False by (simp add: regen_invariant_def)
      then have "installed sid (t, P1)" using row by (simp add: installed_def)
      then show ?thesis using installed_mono[of "fst ?y" t "snd ?y" sid P1] k sid(1) by simp
    qed
    moreover have "p' \<noteq> Finished s' \<and> (\<forall>m. p' = At m s' \<longrightarrow> m = OPTIONS_STRATEGY_AGENT \<or> m = PYTHON_CODE_GENERATOR)"
      if "n \<in> {STRATEGY_GENERATOR, OPTIONS_STRATEGY_AGENT}"
      using that ends moves by (auto simp: build_suggestion_regeneration_graph_def shared_edges_def)
    ultimately show ?thesis using s' k sid(1) by (cases p') (auto simp: regen_invariant_def y state_of_def)
  qed
qed

lemma record_regen_suggestions: "rp_suggestions (snd (record_regen_node pe parent thread wall n s x)) = rp_suggestions (snd x)"
proof -
  have b: "rp_suggestions (snd (record_backtest e i r m P)) = rp_suggestions P" for e i r m P
    by (simp add: record_backtest_def fresh_research_id_def Let_def split: option.split list.split)
  have o: "rp_suggestions (record_validation e i v P) = rp_suggestions P" "rp_suggestions (record_verdict j ev P) = rp_suggestions P"
    "rp_suggestions (snd (record_version i run c ls ex ra P)) = rp_suggestions P" for e i v P j ev run c ls ex ra
    by (simp_all add: record_validation_def record_verdict_def set_result_def set_strategy_row_def set_version_def record_version_def
      fresh_research_id_def run_strategy_factory_pipeline_def update_validation_status_def Let_def split: option.split)
  have b': "record_backtest e i r m P = (z, P1) \<Longrightarrow> rp_suggestions P1 = rp_suggestions P" for e i r m P z P1
    by (metis b snd_conv)
  have o': "record_version i run c ls ex ra P = (z, P1) \<Longrightarrow> rp_suggestions P1 = rp_suggestions P" for i run c ls ex ra P z P1
    by (metis o(3) snd_conv)
  obtain t P where x: "x = (t, P)" by fastforce
  obtain cid P1 where c: "add_child pe parent thread wall n s P = (cid, P1)" by fastforce
  have "rp_suggestions P1 = rp_suggestions P" using c by (auto simp: add_child_def fresh_research_id_def add_log_def Let_def)
  moreover have "rp_suggestions (snd (persist_suggestion_regeneration pe n s cid (t, P1))) = rp_suggestions P1"
    by (cases n) (auto simp: persist_suggestion_regeneration_def on_some_def set_columns_def o Let_def
      dest: b' o' split: option.split prod.split)
  ultimately show ?thesis by (simp add: record_regen_node_def x c)
qed

text \<open>The loop walks the graph, keeps the invariant and leaves the suggestions alone.\<close>
lemma graph_run_ended: "(\<And>n s. graph_run edges env k p \<noteq> At n s) \<Longrightarrow> graph_run edges env (k + j) p = graph_run edges env k p"
proof (induction j)
  case (Suc j)
  then show ?case by (cases "graph_run edges env k p") auto
qed simp

lemma regen_loop_effect:
  fixes pes :: "nat \<Rightarrow> progress_env" and p0 :: graph_position
  defines "g \<equiv> \<lambda>k. graph_run build_suggestion_regeneration_graph (\<lambda>j. pe_graph (pes j)) k p0"
  shows "regen_invariant sid (g k) x \<Longrightarrow> \<exists>t' P'. regen_loop fuel pes parent thread wall k (g k) x = (g (k + fuel), t', P')
    \<and> regen_invariant sid (g (k + fuel)) (t', P') \<and> rp_suggestions P' = rp_suggestions (snd x)"
proof (induction fuel arbitrary: k wall x)
  case 0
  then show ?case by (cases x) simp
next
  case (Suc fuel)
  have ended: "(\<And>n s. g k \<noteq> At n s) \<Longrightarrow> g (k + j) = g k" for k j unfolding g_def by (rule graph_run_ended)
  have step: "g (Suc j) = graph_step build_suggestion_regeneration_graph (pe_graph (pes j)) (g j)" for j by (simp add: g_def)
  show ?case
  proof (cases "g k")
    case (At n s)
    have next_p: "graph_step build_suggestion_regeneration_graph (pe_graph (pes k)) (At n s) = g (Suc k)" using step At by simp
    show ?thesis
    proof (cases "state_of (g (Suc k))")
      case None
      then obtain err where e: "g (Suc k) = Crashed err" by (cases "g (Suc k)") (simp_all add: state_of_def)
      then have "g (Suc k + fuel) = Crashed err" using ended[of "Suc k" fuel] by simp
      then show ?thesis using At e Suc.prems next_p by (cases x) (simp add: state_of_def regen_invariant_def)
    next
      case (Some s')
      let ?x = "record_regen_node (pes k) parent thread wall n s' x"
      have "regen_invariant sid (g (Suc k)) ?x"
        using regen_step[OF _ next_p Some, of sid "fst x" "snd x"] Suc.prems At by simp
      from Suc.IH[OF this] show ?thesis
        using At Some next_p by (simp add: record_regen_suggestions)
    qed
  next
    case (Finished s)
    then show ?thesis using ended[of k "Suc fuel"] Suc.prems by (cases x) simp
  next
    case (Crashed err)
    then show ?thesis using ended[of k "Suc fuel"] Suc.prems by (cases x) simp
  qed
qed

lemma suggestion_ends_in_time:
  "\<nexists>n s. graph_run build_suggestion_regeneration_graph env REGEN_STEPS (At STRATEGY_GENERATOR s0) = At n s"
proof -
  let ?p = "graph_run build_suggestion_regeneration_graph env REGEN_STEPS (At STRATEGY_GENERATOR s0)"
  have "steps_left ?p = 0"
    using suggestion_counts_down[of env REGEN_STEPS "At STRATEGY_GENERATOR s0"] by (simp add: repairs_left_def REGEN_STEPS_def del: graph_run.simps)
  moreover have "steps_left (At n s) > 0" for n s by (cases n) (simp_all add: repairs_left_def)
  ultimately show ?thesis by (metis less_irrefl)
qed

lemma suggestion_rows:
  "get_suggestion (set_suggestion i f P) j = row_by su_id j (update_where (\<lambda>g. su_id g = i) f (rp_suggestions P))"
  "rp_suggestions (set_suggestion i f P) = update_where (\<lambda>g. su_id g = i) f (rp_suggestions P)"
  "rp_suggestions (set_graph_run r h P) = rp_suggestions P" "rp_db (set_suggestion i f P) = rp_db P" "rp_db (set_graph_run r h P) = rp_db P"
  "rp_suggestions (close_with_error pe rid err P) = rp_suggestions P"
  by (simp_all add: get_suggestion_def set_suggestion_def set_graph_run_def close_with_error_def add_log_def Let_def split: graph_error.split)

lemma get_suggestion_id: "get_suggestion P i = Some g \<Longrightarrow> su_id g = i"
  by (auto simp: get_suggestion_def dest: row_by_SomeD)

text \<open>How the end of the graph becomes the verdict on the suggestion.\<close>
definition suggestion_outcome :: "nat \<Rightarrow> nat \<Rightarrow> graph_position \<Rightarrow> research \<Rightarrow> bool" where
  "suggestion_outcome gid sid p Q \<longleftrightarrow> (\<exists>g. get_suggestion Q gid = Some g \<and> (case p of
     At _ _ \<Rightarrow> False
   | Crashed _ \<Rightarrow> su_status g = ''Rejected''
   | Finished _ \<Rightarrow> su_status g = ''Applied'' \<and> (\<exists>v row. su_resulting_version_id g = Some v \<and> get_strategy (rp_db Q) sid = Some row
       \<and> str_current_version_id row = Some v \<and> str_status row \<in> {''Coding'', ''Backtesting''})))"

lemma finish_suggestion_outcome:
  assumes "get_suggestion P gid = Some g" "regen_invariant sid p (t, P)" "\<nexists>n s. p = At n s"
  shows "suggestion_outcome gid sid p (finish_suggestion pe rid gid (p, t, P))"
proof -
  note id = get_suggestion_id[OF assms(1)]
  have row: "row_by su_id gid (rp_suggestions P) = Some g" using assms(1) by (simp add: get_suggestion_def)
  show ?thesis
  proof (cases p)
    case (Finished s)
    then obtain v r where "rt_new_version_id t = Some v" "get_strategy (rp_db P) sid = Some r" "str_current_version_id r = Some v"
        "str_status r \<in> {''Coding'', ''Backtesting''}"
      using assms(2) by (auto simp: regen_invariant_def installed_def)
    then show ?thesis using Finished row id
      by (simp add: suggestion_outcome_def finish_suggestion_def Let_def suggestion_rows row_by_update_where)
  next
    case (Crashed err)
    then show ?thesis using row id
      by (simp add: suggestion_outcome_def finish_suggestion_def Let_def suggestion_rows row_by_update_where)
  qed (use assms(3) in blast)
qed

lemma sound_suggestion_outcome:
  assumes g: "get_suggestion P gid = Some g" and s: "get_strategy (rp_db P) (su_strategy_id g) = Some s0"
  shows "suggestion_outcome gid (su_strategy_id g) (graph_run build_suggestion_regeneration_graph (\<lambda>k. pe_graph (pes k)) REGEN_STEPS
      (At STRATEGY_GENERATOR (seeded_state (pes 0) (uuid_str (db_next_id (rp_db P))) capital curve g P)))
    (run_suggestion_regeneration (Inr (True, why)) pes capital curve gid P)"
proof -
  define P2 where "P2 = set_suggestion gid (\<lambda>g. g\<lparr>su_ai_verdict := Some ''Sound'', su_ai_reasoning := [Sym why]\<rparr>)
    (set_suggestion gid (\<lambda>g. g\<lparr>su_status := ''Reviewing''\<rparr>) P)"
  have db: "rp_db P2 = rp_db P" "rp_columns P2 = rp_columns P" "rp_versions P2 = rp_versions P"
    by (simp_all add: P2_def set_suggestion_def)
  obtain g2 where g2: "get_suggestion P2 gid = Some g2"
    using g get_suggestion_id[OF g] by (simp add: P2_def suggestion_rows row_by_update_where get_suggestion_def)
  let ?thread = "uuid_str (db_next_id (rp_db P))"
  have seed: "seeded_state (pes 0) ?thread capital curve g P2 = seeded_state (pes 0) ?thread capital curve g P"
    by (simp add: seeded_state_def get_columns_def latest_version_no_def db)
  obtain rid P3 where root: "new_root (pe_org (pes 0)) ''SuggestionRegeneration'' None P2 = (rid, ?thread, P3)"
    by (simp add: new_root_def fresh_research_id_def db Let_def)
  have P3: "get_strategy (rp_db P3) i = get_strategy (rp_db P) i" "rp_suggestions P3 = rp_suggestions P2" for i
    using root by (auto simp: new_root_def fresh_research_id_def Let_def get_strategy_def db)
  let ?p0 = "At STRATEGY_GENERATOR (seeded_state (pes 0) ?thread capital curve g P)"
  let ?t = "\<lparr>rt_strategy_id = su_strategy_id g, rt_backtest_result_id = None, rt_new_version_id = None, rt_pending_option_legs = None,
            rt_pending_option_expiry = None, rt_pending_option_rationale = None\<rparr>"
  let ?g = "\<lambda>k. graph_run build_suggestion_regeneration_graph (\<lambda>j. pe_graph (pes j)) k ?p0"
  have inv: "regen_invariant (su_strategy_id g) (?g 0) (?t, P3)" using P3 s by (simp add: regen_invariant_def)
  obtain t4 P4 where loop: "regen_loop REGEN_STEPS pes rid ?thread (e_now (pe_org (pes 0))) 0 ?p0 (?t, P3) = (?g REGEN_STEPS, t4, P4)"
      "regen_invariant (su_strategy_id g) (?g REGEN_STEPS) (t4, P4)" "rp_suggestions P4 = rp_suggestions P2"
    using regen_loop_effect[OF inv, of REGEN_STEPS rid ?thread "e_now (pe_org (pes 0))"] P3(2) by (auto simp del: graph_run.simps(2))
  have "run_suggestion_regeneration (Inr (True, why)) pes capital curve gid P = finish_suggestion (pes REGEN_STEPS) rid gid (?g REGEN_STEPS, t4, P4)"
    using g s root loop(1) by (simp add: run_suggestion_regeneration_def regenerate_def Let_def P2_def[symmetric] seed)
  moreover have "get_suggestion P4 gid = Some g2" using g2 loop(3) by (simp add: get_suggestion_def)
  ultimately show ?thesis using finish_suggestion_outcome loop(2) suggestion_ends_in_time by metis
qed

text \<open>What becomes of a sound suggestion. If the regeneration graph comes to its end, the suggestion is Applied
  and the version it wrote is the current one of its strategy, which is moved back to Coding or Backtesting: whether
  compliance blocked that code, validation gave up on it or the evaluator failed it, and whether the strategy was
  in paper or live trading before. It is Rejected exactly when the graph is halted or raises.\<close>
theorem finished_suggestion_is_applied:
  assumes "get_suggestion P gid = Some g" and "get_strategy (rp_db P) (su_strategy_id g) = Some s0"
  shows "\<exists>g'. get_suggestion (run_suggestion_regeneration (Inr (True, why)) pes capital curve gid P) gid = Some g' \<and>
    (case graph_run build_suggestion_regeneration_graph (\<lambda>k. pe_graph (pes k)) REGEN_STEPS
        (At STRATEGY_GENERATOR (seeded_state (pes 0) (uuid_str (db_next_id (rp_db P))) capital curve g P)) of
      At _ _ \<Rightarrow> False
    | Crashed _ \<Rightarrow> su_status g' = ''Rejected''
    | Finished _ \<Rightarrow> su_status g' = ''Applied'' \<and> (\<exists>v row. su_resulting_version_id g' = Some v
        \<and> get_strategy (rp_db (run_suggestion_regeneration (Inr (True, why)) pes capital curve gid P)) (su_strategy_id g) = Some row
        \<and> str_current_version_id row = Some v \<and> str_status row \<in> {''Coding'', ''Backtesting''}))"
  using sound_suggestion_outcome[OF assms] unfolding suggestion_outcome_def .

definition spread_idea :: strategy_logic where
  "spread_idea = sample_idea\<lparr>lg_asset_class := FnO, lg_universe := [''NIFTY'']\<rparr>"

text \<open>A live strategy, a suggestion for it, and agents that answer with a spread the compliance gate blocks.\<close>
definition spread_env :: graph_env where "spread_env = options_env\<lparr>ge_strategy := (\<lambda>_. Some spread_idea)\<rparr>"

definition live_research :: research where
  "live_research = empty_research\<lparr>rp_db := empty_db\<lparr>db_next_id := 10, db_strategies :=
       [\<lparr>str_id = 1, str_current_version_id = Some 2, str_name = ''momentum'', str_status = ''Live''\<rparr>]\<rparr>,
     rp_suggestions := [\<lparr>su_id = 3, su_strategy_id = 1, su_suggestion_text = ''sell calls'', su_status = ''Pending'', su_ai_verdict = None,
       su_ai_reasoning = [], su_resulting_version_id = None, su_reviewed_at = None\<rparr>]\<rparr>"

lemma spread_is_blocked:
  assumes "gs_python_code s0 \<noteq> None" "gs_account_capital s0 = None"
  shows "\<exists>s. graph_run build_suggestion_regeneration_graph (\<lambda>_. spread_env) 4 (At STRATEGY_GENERATOR s0) = Finished s"
proof -
  let ?g = "\<lambda>k. graph_run build_suggestion_regeneration_graph (\<lambda>_. spread_env) k (At STRATEGY_GENERATOR s0)"
  let ?legs = "Some [\<lparr>so_symbol = ''NIFTY100CE'', so_option_type = CE, so_strike = 100, so_side = leg_sell, so_quantity = 1\<rparr>,
       \<lparr>so_symbol = ''NIFTY110CE'', so_option_type = CE, so_strike = 110, so_side = leg_buy, so_quantity = 1\<rparr>]"
  note steps = graph_step_def halt_on_entry_def node_fn_def build_suggestion_regeneration_graph_def shared_edges_def spread_env_def options_env_def
    sample_graph_env_def
  have "\<exists>s. ?g 0 = At STRATEGY_GENERATOR s \<and> gs_account_capital s = None" using assms by simp
  then have "\<exists>s. ?g 1 = At OPTIONS_STRATEGY_AGENT s \<and> (gs_account_capital s = None \<and> gs_strategy_logic s = Some spread_idea)"
    by (rule run_next) (simp_all add: steps strategy_generator_node_def)
  then have "\<exists>s. ?g 2 = At PYTHON_CODE_GENERATOR s \<and> (gs_account_capital s = None \<and> gs_strategy_logic s \<noteq> None \<and> declared_legs s = ?legs)"
    by (rule run_next) (simp_all add: steps options_strategy_node_def spread_idea_def sample_idea_def fetch_nearest_chain_def
      generate_options_strategy_def attempt_legs_def parse_legs_def sample_chain_def sample_spread_def chain_pairs_def OPTIONS_MAX_ATTEMPTS_def
      upt_rec scan_passed_def scan_for_naked_options_def ground_leg_def symbol_lookup_def dict_get_default_def declared_legs_def Let_def)
  then have "\<exists>s. ?g 3 = At COMPLIANCE_NODE s \<and> (gs_account_capital s = None \<and> gs_python_code s \<noteq> None \<and> declared_legs s = ?legs)"
    by (rule run_next) (auto simp: steps python_code_generator_node_def declared_legs_def Let_def)
  then obtain s where s: "?g 3 = At COMPLIANCE_NODE s" "gs_python_code s \<noteq> None" "gs_account_capital s = None" "declared_legs s = ?legs" by blast
  obtain s' where s': "compliance_node spread_env s = Inr s'" using s(2) by (simp add: compliance_node_def Let_def)
  have "scanner_legs s = Some (map scanner_leg (the (?legs)))" using s(4) by (simp add: scanner_legs_def)
  moreover have "scan_for_naked_options (map scanner_leg (the (?legs))) \<noteq> []"
    by (simp add: scan_for_naked_options_def scanner_leg_def Let_def)
  ultimately obtain r where "gs_compliance_verdict s' = Some r" "cp_verdict r = Block"
    using s' s(2) by (auto simp: compliance_node_def evaluate_compliance_def Let_def split: if_splits)
  then have "graph_step build_suggestion_regeneration_graph spread_env (At COMPLIANCE_NODE s) = Finished s'"
    using s' by (simp add: graph_step_def halt_on_entry_def node_fn_def build_suggestion_regeneration_graph_def shared_edges_def
      route_after_compliance_def) (simp add: spread_env_def options_env_def sample_graph_env_def)
  then show ?thesis using s(1) graph_run.simps(2)[of build_suggestion_regeneration_graph "\<lambda>_. spread_env" 3 "At STRATEGY_GENERATOR s0"]
    by simp
qed

theorem finished_suggestion_is_applied_witness:
  "\<exists>g v row. get_suggestion (run_suggestion_regeneration (Inr (True, [])) (\<lambda>_. sample_progress sample_env spread_env) None [] 3 live_research) 3 = Some g
    \<and> su_status g = ''Applied'' \<and> su_resulting_version_id g = Some v
    \<and> get_strategy (rp_db (run_suggestion_regeneration (Inr (True, [])) (\<lambda>_. sample_progress sample_env spread_env) None [] 3 live_research)) 1 = Some row
    \<and> str_current_version_id row = Some v \<and> str_status row \<in> {''Coding'', ''Backtesting''}"
proof -
  let ?pes = "\<lambda>_ :: nat. sample_progress sample_env spread_env"
  obtain g where g: "get_suggestion live_research 3 = Some g" "su_strategy_id g = 1" by (simp add: get_suggestion_def live_research_def)
  obtain s0 where s: "get_strategy (rp_db live_research) (su_strategy_id g) = Some s0" by (simp add: g get_strategy_def live_research_def)
  let ?p0 = "At STRATEGY_GENERATOR (seeded_state (?pes 0) (uuid_str (db_next_id (rp_db live_research))) None [] g live_research)"
  let ?g = "\<lambda>k. graph_run build_suggestion_regeneration_graph (\<lambda>_. spread_env) k ?p0"
  obtain s4 where "?g 4 = Finished s4"
    using spread_is_blocked by (force simp: seeded_state_def case_prod_unfold Let_def initial_graph_state_def)
  then have "?g (4 + 9) = Finished s4" by (subst graph_run_ended) simp_all
  then have "graph_run build_suggestion_regeneration_graph (\<lambda>k. pe_graph (?pes k)) REGEN_STEPS ?p0 = Finished s4"
    by (simp add: REGEN_STEPS_def sample_progress_def)
  then show ?thesis using finished_suggestion_is_applied[OF g(1) s, of "[]" ?pes None "[]"] g(2) by (simp only: graph_position.case) blast
qed

end
