(* ===== verification/MarketData.thy ===== *)
theory MarketData
  imports PyParse
begin

text \<open>
  Historical market data (\<open>src/data/providers/base.py\<close>, \<open>src/data/providers/manager.py\<close>): candles and their quality
  check, the classified failures of a provider, and the manager that walks a chain of providers with bounded
  retries. The world the providers talk to is a state every provider threads through its calls.
\<close>

section \<open>Candles\<close>

record candle =
  cd_timestamp :: int
  cd_open :: real
  cd_high :: real
  cd_low :: real
  cd_close :: real
  cd_volume :: int
  cd_open_interest :: "int option"
  cd_instrument_key :: string
  cd_symbol :: string
  cd_timeframe :: string
  cd_provider :: string

datatype issue_kind = Duplicate_timestamp | Invalid_ohlc | Negative_volume | Unsorted

definition ohlc_valid :: "candle \<Rightarrow> bool" where
  "ohlc_valid c \<longleftrightarrow> cd_low c \<le> cd_high c \<and> cd_open c \<le> cd_high c \<and> cd_close c \<le> cd_high c
     \<and> cd_low c \<le> cd_open c \<and> cd_low c \<le> cd_close c"

text \<open>The loop over the candles, with the timestamps seen and the previous one.\<close>
fun validate_loop :: "int list \<Rightarrow> int option \<Rightarrow> candle list \<Rightarrow> issue_kind list" where
  "validate_loop seen previous [] = []"
| "validate_loop seen previous (c # cs) =
    (if cd_timestamp c \<in> set seen then [Duplicate_timestamp] else [])
    @ (case previous of None \<Rightarrow> [] | Some p \<Rightarrow> if cd_timestamp c < p then [Unsorted] else [])
    @ (if cd_volume c < 0 then [Negative_volume] else [])
    @ (if \<not> ohlc_valid c then [Invalid_ohlc] else [])
    @ validate_loop (cd_timestamp c # seen) (Some (cd_timestamp c)) cs"

definition validate_candles :: "candle list \<Rightarrow> issue_kind list" where
  "validate_candles cs = validate_loop [] None cs"

definition good_candle :: "candle \<Rightarrow> bool" where
  "good_candle c \<longleftrightarrow> 0 \<le> cd_volume c \<and> ohlc_valid c"

lemma validate_loop_empty_iff:
  assumes "case previous of None \<Rightarrow> seen = [] | Some p \<Rightarrow> p \<in> set seen \<and> (\<forall>t \<in> set seen. t \<le> p)"
  shows "validate_loop seen previous cs = [] \<longleftrightarrow> sorted_wrt (<) (map cd_timestamp cs) \<and> (\<forall>c \<in> set cs. good_candle c)
    \<and> (\<forall>c \<in> set cs. \<forall>t \<in> set seen. t < cd_timestamp c)"
  using assms
proof (induction seen previous cs rule: validate_loop.induct)
  case (2 seen previous c cs)
  let ?t = "cd_timestamp c"
  let ?head = "(if ?t \<in> set seen then [Duplicate_timestamp] else [])
    @ (case previous of None \<Rightarrow> [] | Some p \<Rightarrow> if ?t < p then [Unsorted] else [])"
  have head: "?head = [] \<longleftrightarrow> (\<forall>t \<in> set seen. t < ?t)"
  proof (cases previous)
    case None
    then show ?thesis using 2(2) by simp
  next
    case (Some p)
    then have "p \<in> set seen" "\<forall>t \<in> set seen. t \<le> p" using 2(2) by simp_all
    then have "(?t \<notin> set seen \<and> p \<le> ?t) \<longleftrightarrow> (\<forall>t \<in> set seen. t < ?t)" by (metis order.strict_iff_order order.strict_trans1 linorder_le_less_linear order.asym)
    moreover have "?head = [] \<longleftrightarrow> ?t \<notin> set seen \<and> p \<le> ?t" by (auto simp: Some)
    ultimately show ?thesis by blast
  qed
  have "(\<forall>t \<in> set (?t # seen). t \<le> ?t)" if "\<forall>t \<in> set seen. t < ?t" using that by auto
  then show ?case using 2(1) head by (auto simp: good_candle_def split: if_splits)
qed simp

lemma validate_candles_iff:
  "validate_candles cs = [] \<longleftrightarrow> sorted_wrt (<) (map cd_timestamp cs) \<and> (\<forall>c \<in> set cs. good_candle c)"
  using validate_loop_empty_iff[where previous = None and seen = "[]" and cs = cs] by (simp add: validate_candles_def)

section \<open>Providers\<close>

text \<open>The classes of \<open>ProviderError\<close>, the base class included.\<close>
datatype provider_error_class = Provider_base | Provider_auth | Provider_token_expired | Provider_rate_limit | Provider_timeout
  | Provider_network | Provider_server | Provider_not_found | Provider_unsupported | Provider_empty | Provider_invalid

text \<open>An exception of a provider, without its text: a classified one, or any other by its name.\<close>
datatype fetch_error = Classified provider_error_class | Unclassified string

definition non_retryable :: "provider_error_class \<Rightarrow> bool" where
  "non_retryable k \<longleftrightarrow> k \<in> {Provider_auth, Provider_token_expired, Provider_not_found, Provider_unsupported, Provider_empty, Provider_invalid}"

definition retryable :: "provider_error_class \<Rightarrow> bool" where
  "retryable k \<longleftrightarrow> k \<in> {Provider_timeout, Provider_network, Provider_server, Provider_rate_limit}"

record data_request =
  rq_instrument_key :: string
  rq_symbol :: string
  rq_start :: int
  rq_end :: int
  rq_timeframe :: string

record 'w provider =
  pv_name :: string
  pv_health :: "'w \<Rightarrow> bool \<times> 'w"
  pv_fetch :: "data_request \<Rightarrow> 'w \<Rightarrow> (fetch_error + candle list) \<times> 'w"

section \<open>The manager\<close>

text \<open>Why a provider was passed over.\<close>
datatype skip_reason = Health_failed | Raised provider_error_class | Bad_quality "issue_kind list"

datatype manager_error = Market_data_unavailable "(string, skip_reason) dict" | Manager_crash string

record market_result =
  mr_candles :: "candle list"
  mr_requested :: string
  mr_used :: string

record 'w manager =
  mg_providers :: "'w provider list"
  mg_fo_providers :: "'w provider list option"
  mg_max_retries :: int
  mg_backoff :: real
  mg_failover :: bool

text \<open>The attempts at one provider, from attempt \<open>k\<close> on, with the pauses slept. The last argument counts those left;
  the last error is kept, and running out without one fails the assertion.\<close>
fun fetch_attempts ::
  "'w provider \<Rightarrow> data_request \<Rightarrow> real \<Rightarrow> nat \<Rightarrow> nat \<Rightarrow> fetch_error option \<Rightarrow> 'w \<Rightarrow> ((fetch_error + candle list) \<times> real list) \<times> 'w" where
  "fetch_attempts p r b k 0 err w = ((Inl (case err of None \<Rightarrow> Unclassified ''AssertionError'' | Some e \<Rightarrow> e), []), w)"
| "fetch_attempts p r b k (Suc left) err w =
    (case pv_fetch p r w of
       (Inr cs, w') \<Rightarrow> ((Inr cs, []), w')
     | (Inl (Classified c), w') \<Rightarrow>
        if non_retryable c \<or> \<not> retryable c then ((Inl (Classified c), []), w')
        else (let ((res, pauses), w'') = fetch_attempts p r b (Suc k) left (Some (Classified c)) w'
              in ((res, if left = 0 then pauses else b * 2 ^ k # pauses), w''))
     | (Inl e, w') \<Rightarrow> ((Inl e, []), w'))"

definition fetch_with_retry :: "'w manager \<Rightarrow> 'w provider \<Rightarrow> data_request \<Rightarrow> 'w \<Rightarrow> ((fetch_error + candle list) \<times> real list) \<times> 'w" where
  "fetch_with_retry m p r w = fetch_attempts p r (mg_backoff m) 0 (nat (mg_max_retries m)) None w"

text \<open>The walk along the chain, with the errors recorded so far and the pauses slept.\<close>
fun walk_chain ::
  "'w manager \<Rightarrow> data_request \<Rightarrow> string \<Rightarrow> 'w provider list \<Rightarrow> (string, skip_reason) dict \<Rightarrow> 'w
    \<Rightarrow> ((manager_error + market_result) \<times> real list) \<times> 'w" where
  "walk_chain m r requested [] errs w = ((Inl (Market_data_unavailable errs), []), w)"
| "walk_chain m r requested (p # ps) errs w =
    (let (up, w1) = pv_health p w in
     if \<not> up then walk_chain m r requested ps (dict_set (pv_name p) Health_failed errs) w1
     else
      (let ((res, pauses), w2) = fetch_with_retry m p r w1 in
       case res of
         Inl (Unclassified e) \<Rightarrow> ((Inl (Manager_crash e), pauses), w2)
       | Inl (Classified c) \<Rightarrow>
          (let ((res', pauses'), w3) = walk_chain m r requested ps (dict_set (pv_name p) (Raised c) errs) w2 in ((res', pauses @ pauses'), w3))
       | Inr cs \<Rightarrow>
          if validate_candles cs \<noteq> [] then
            (let ((res', pauses'), w3) = walk_chain m r requested ps (dict_set (pv_name p) (Bad_quality (validate_candles cs)) errs) w2
             in ((res', pauses @ pauses'), w3))
          else ((Inr \<lparr>mr_candles = cs, mr_requested = requested, mr_used = pv_name p\<rparr>, pauses), w2)))"

text \<open>The regular expression of a contract symbol, token by token: the white space around the groups splits it.\<close>
fun py_words :: "string \<Rightarrow> string \<Rightarrow> string list" where
  "py_words cur [] = (if cur = [] then [] else [rev cur])"
| "py_words cur (c # cs) = (if is_space c then (if cur = [] then [] else [rev cur]) @ py_words [] cs else py_words (c # cur) cs)"

definition is_upper :: "char \<Rightarrow> bool" where "is_upper c \<longleftrightarrow> (let n = of_char c :: nat in 65 \<le> n \<and> n \<le> 90)"
definition is_decimal :: "char \<Rightarrow> bool" where "is_decimal c \<longleftrightarrow> (let n = of_char c :: nat in 48 \<le> n \<and> n \<le> 57)"

definition MONTHS :: "string list" where
  "MONTHS = [''JAN'', ''FEB'', ''MAR'', ''APR'', ''MAY'', ''JUN'', ''JUL'', ''AUG'', ''SEP'', ''OCT'', ''NOV'', ''DEC'']"

record fo_contract =
  fo_underlying :: string
  fo_expiry :: int
  fo_option_type :: "string option"
  fo_strike :: "real option"

definition underlying_token :: "string \<Rightarrow> bool" where
  "underlying_token u \<longleftrightarrow> (case u of [] \<Rightarrow> False | c # cs \<Rightarrow> is_upper c \<and> list_all (\<lambda>c. is_upper c \<or> is_decimal c \<or> c = CHR ''&'' \<or> c = CHR ''-'') cs)"

text \<open>\<open>digits\<close> or \<open>digits.digits\<close> as a number.\<close>
definition decimal_token :: "string \<Rightarrow> real option" where
  "decimal_token s =
    (let whole = takeWhile is_decimal s; rest = dropWhile is_decimal s in
     if whole = [] then None
     else case rest of
       [] \<Rightarrow> map_option real (read_digits 10 0 whole)
     | c # decimals \<Rightarrow>
        if c \<noteq> CHR ''.'' \<or> decimals = [] \<or> \<not> list_all is_decimal decimals then None
        else (case (read_digits 10 0 whole, read_digits 10 0 decimals) of
           (Some n, Some f) \<Rightarrow> Some (real n + real f / 10 ^ length decimals)
         | _ \<Rightarrow> None))"

definition two_digits :: "string \<Rightarrow> int option" where
  "two_digits s = (if length s = 2 \<and> list_all is_decimal s then map_option int (read_digits 10 0 s) else None)"

definition month_number :: "string \<Rightarrow> int option" where
  "month_number s = map_option (\<lambda>i. int i + 1) (map_of (zip MONTHS [0..<12]) s)"

definition contract_of :: "string \<Rightarrow> string option \<Rightarrow> real option \<Rightarrow> string \<Rightarrow> string \<Rightarrow> string \<Rightarrow> fo_contract option" where
  "contract_of u opt strike dd mon yy =
    (if \<not> underlying_token u then None
     else case (two_digits dd, month_number mon, two_digits yy) of
       (Some d, Some m, Some y) \<Rightarrow>
         if valid_date (2000 + y) m d
         then Some \<lparr>fo_underlying = u, fo_expiry = days_of_civil (2000 + y) m d, fo_option_type = opt, fo_strike = strike\<rparr> else None
     | _ \<Rightarrow> None)"

definition parse_fo_symbol :: "string \<Rightarrow> fo_contract option" where
  "parse_fo_symbol s =
    (case py_words [] s of
       [u, strike, opt, dd, mon, yy] \<Rightarrow>
         if opt \<notin> {''CE'', ''PE''} then None
         else (case decimal_token strike of None \<Rightarrow> None | Some x \<Rightarrow> contract_of u (Some opt) (Some x) dd mon yy)
     | [u, fut, dd, mon, yy] \<Rightarrow> if fut = ''FUT'' then contract_of u None None dd mon yy else None
     | _ \<Rightarrow> None)"

definition is_fo_instrument :: "string \<Rightarrow> string \<Rightarrow> bool" where
  "is_fo_instrument key s \<longleftrightarrow> startswith key [''NSE_FO|'', ''BSE_FO|''] \<or> parse_fo_symbol s \<noteq> None"

definition chain_for :: "'w manager \<Rightarrow> data_request \<Rightarrow> 'w provider list" where
  "chain_for m r =
    (let chain = (case mg_fo_providers m of
           Some (p # ps) \<Rightarrow> if is_fo_instrument (rq_instrument_key r) (rq_symbol r) then p # ps else mg_providers m
         | _ \<Rightarrow> mg_providers m)
     in if mg_failover m then chain else take 1 chain)"

definition get_historical_data :: "'w manager \<Rightarrow> data_request \<Rightarrow> 'w \<Rightarrow> ((manager_error + market_result) \<times> real list) \<times> 'w" where
  "get_historical_data m r w =
    (case chain_for m r of
       [] \<Rightarrow> ((Inl (Manager_crash ''IndexError''), []), w)
     | p # ps \<Rightarrow> walk_chain m r (pv_name p) (p # ps) [] w)"

text \<open>The constructor refuses an empty chain.\<close>
definition new_manager :: "'w provider list \<Rightarrow> 'w provider list option \<Rightarrow> int \<Rightarrow> real \<Rightarrow> bool \<Rightarrow> 'w manager option" where
  "new_manager ps fo retries backoff failover =
    (if ps = [] then None
     else Some \<lparr>mg_providers = ps, mg_fo_providers = fo, mg_max_retries = retries, mg_backoff = backoff, mg_failover = failover\<rparr>)"

section \<open>What the manager guarantees\<close>

lemma walk_chain_result:
  assumes "walk_chain m r requested ps errs w = ((Inr res, pauses), w')"
  shows "validate_candles (mr_candles res) = [] \<and> mr_requested res = requested
    \<and> (\<exists>p v v' zs. p \<in> set ps \<and> mr_used res = pv_name p \<and> fetch_with_retry m p r v = ((Inr (mr_candles res), zs), v'))"
  using assms
proof (induction ps arbitrary: errs w pauses)
  case (Cons p ps)
  obtain up w1 where h: "pv_health p w = (up, w1)" by fastforce
  obtain f zs w2 where f: "fetch_with_retry m p r w1 = ((f, zs), w2)" by (metis prod.exhaust)
  consider errs' v z where "walk_chain m r requested ps errs' v = ((Inr res, z), w')"
    | cs where "f = Inr cs" "validate_candles cs = []" "res = \<lparr>mr_candles = cs, mr_requested = requested, mr_used = pv_name p\<rparr>"
    using Cons.prems h f by (cases up; cases f) (auto split: prod.splits fetch_error.splits if_splits)
  then show ?case
  proof cases
    case 1
    from Cons.IH[OF this] show ?thesis by auto
  next
    case 2
    then show ?thesis using f by auto
  qed
qed simp

lemma walk_chain_unavailable:
  assumes "walk_chain m r requested ps errs w = ((Inl (Market_data_unavailable e), pauses), w')"
  shows "fst ` set e = fst ` set errs \<union> pv_name ` set ps"
  using assms
proof (induction ps arbitrary: errs w pauses)
  case (Cons p ps)
  obtain up w1 where h: "pv_health p w = (up, w1)" by fastforce
  obtain f zs w2 where f: "fetch_with_retry m p r w1 = ((f, zs), w2)" by (metis prod.exhaust)
  obtain x v z where "walk_chain m r requested ps (dict_set (pv_name p) x errs) v = ((Inl (Market_data_unavailable e), z), w')"
    using Cons.prems h f by (cases up; cases f) (auto split: prod.splits fetch_error.splits if_splits)
  from Cons.IH[OF this] show ?case by auto
qed simp

text \<open>The attempts sleep the powers of two of the factor, and not after the last one.\<close>
lemma fetch_attempts_pauses:
  assumes "0 \<le> b"
  shows "sum_list (snd (fst (fetch_attempts p r b k left err w))) \<le> b * (2 ^ (k + (left - 1)) - 2 ^ k)
    \<and> length (snd (fst (fetch_attempts p r b k left err w))) \<le> left - 1"
  using assms
proof (induction p r b k left err w rule: fetch_attempts.induct)
  case (2 p r b k left err w)
  obtain res w1 where f: "pv_fetch p r w = (res, w1)" by fastforce
  have nonneg: "0 \<le> b * (2 ^ (k + left) - 2 ^ k)" using 2(2) by (simp add: power_increasing)
  show ?case
  proof (cases "\<exists>c. res = Inl (Classified c) \<and> \<not> (non_retryable c \<or> \<not> retryable c)")
    case True
    then obtain c where c: "res = Inl (Classified c)" "\<not> non_retryable c" "retryable c" by auto
    obtain x zs w2 where a: "fetch_attempts p r b (Suc k) left (Some (Classified c)) w1 = ((x, zs), w2)" by (metis prod.exhaust)
    have ih: "sum_list zs \<le> b * (2 ^ (Suc k + (left - 1)) - 2 ^ Suc k)" "length zs \<le> left - 1"
      using 2(1)[OF f[symmetric] c(1) refl] 2(2) c a by auto
    show ?thesis
    proof (cases left)
      case 0
      then show ?thesis using f[unfolded c(1)] c(2,3) a ih by auto
    next
      case (Suc n)
      then show ?thesis using f[unfolded c(1)] c(2,3) a ih by (simp add: algebra_simps)
    qed
  next
    case False
    then show ?thesis using f nonneg by (cases res) (auto split: fetch_error.splits)
  qed
qed simp

section \<open>The contract of a provider\<close>

definition labelled :: "string \<Rightarrow> data_request \<Rightarrow> candle list \<Rightarrow> bool" where
  "labelled name r cs \<longleftrightarrow> cs \<noteq> [] \<and> (\<forall>c \<in> set cs. cd_provider c = name \<and> cd_symbol c = rq_symbol r
     \<and> cd_instrument_key c = rq_instrument_key r \<and> cd_timeframe c = rq_timeframe r)"

text \<open>What the abstract class promises: a success is never empty, and its candles say what they are and whose.\<close>
locale labelled_provider =
  fixes p :: "'w provider"
  assumes fetch_labelled: "pv_fetch p r w = (Inr cs, w') \<Longrightarrow> labelled (pv_name p) r cs"
begin

lemma attempts_labelled: "fetch_attempts p r b k left err w = ((Inr cs, zs), w') \<Longrightarrow> labelled (pv_name p) r cs"
proof (induction left arbitrary: k err w zs)
  case (Suc left)
  obtain res w1 where f: "pv_fetch p r w = (res, w1)" by fastforce
  consider "res = Inr cs" | k' err' zs' where "fetch_attempts p r b k' left err' w1 = ((Inr cs, zs'), w')"
    using Suc.prems f by (cases res) (auto split: fetch_error.splits if_splits prod.splits)
  then show ?case
  proof cases
    case 1
    then show ?thesis using f fetch_labelled by simp
  next
    case 2
    then show ?thesis using Suc.IH by blast
  qed
qed simp

lemma retry_labelled: "fetch_with_retry m p r w = ((Inr cs, zs), w') \<Longrightarrow> labelled (pv_name p) r cs"
  unfolding fetch_with_retry_def by (rule attempts_labelled)

end

lemma walk_chain_labelled:
  assumes "walk_chain m r requested ps errs w = ((Inr res, pauses), w')" "\<And>p. p \<in> set ps \<Longrightarrow> labelled_provider p"
  shows "labelled (mr_used res) r (mr_candles res) \<and> mr_used res \<in> pv_name ` set ps"
  using walk_chain_result[OF assms(1)] assms(2) labelled_provider.retry_labelled by fastforce

lemma walk_chain_pauses:
  assumes "0 \<le> mg_backoff m"
  shows "sum_list (snd (fst (walk_chain m r requested ps errs w))) \<le> real (length ps) * (mg_backoff m * (2 ^ (nat (mg_max_retries m) - 1) - 1))"
proof (induction ps arbitrary: errs w)
  case (Cons p ps)
  let ?B = "mg_backoff m * (2 ^ (nat (mg_max_retries m) - 1) - 1)"
  have B: "0 \<le> ?B" using assms by simp
  obtain up w1 where h: "pv_health p w = (up, w1)" by fastforce
  obtain f zs w2 where f: "fetch_with_retry m p r w1 = ((f, zs), w2)" by (metis prod.exhaust)
  have zs: "sum_list zs \<le> ?B"
    using fetch_attempts_pauses[OF assms, of p r 0 "nat (mg_max_retries m)" None w1] f by (simp add: fetch_with_retry_def)
  have "sum_list (snd (fst (walk_chain m r requested (p # ps) errs w))) \<le> ?B \<or>
      (\<exists>errs' v. sum_list (snd (fst (walk_chain m r requested (p # ps) errs w))) \<le> ?B + sum_list (snd (fst (walk_chain m r requested ps errs' v))))"
  proof (cases up)
    case False
    then show ?thesis using h B by (intro disjI2 exI[of _ "dict_set (pv_name p) Health_failed errs"] exI[of _ w1]) simp
  next
    case True
    have again: ?thesis if "walk_chain m r requested (p # ps) errs w =
        (let ((res', pauses'), w3) = walk_chain m r requested ps errs' v in ((res', zs @ pauses'), w3))" for errs' v
      using zs unfolding that by (intro disjI2 exI[of _ errs'] exI[of _ v]) (simp add: case_prod_unfold Let_def)
    show ?thesis
    proof (cases f)
      case (Inl e)
      then show ?thesis using h f True zs again by (cases e) auto
    next
      case (Inr cs)
      then show ?thesis using h f True zs again by (cases "validate_candles cs = []") auto
    qed
  qed
  then show ?case
  proof (elim disjE exE)
    assume a: "sum_list (snd (fst (walk_chain m r requested (p # ps) errs w))) \<le> ?B"
    have "?B \<le> real (length (p # ps)) * ?B" using B mult_right_mono[of 1 "real (length (p # ps))" ?B] by simp
    with a show ?thesis by linarith
  next
    fix errs' v
    assume "sum_list (snd (fst (walk_chain m r requested (p # ps) errs w))) \<le> ?B + sum_list (snd (fst (walk_chain m r requested ps errs' v)))"
    with Cons[of errs' v] show ?thesis by (simp add: distrib_right)
  qed
qed simp

text \<open>With no attempts allowed there is no last error: the assertion fails and no fallback is asked.\<close>
lemma no_attempts_crash:
  assumes "mg_max_retries m \<le> 0" "chain_for m r = p # ps" "fst (pv_health p w)"
  shows "fst (fst (get_historical_data m r w)) = Inl (Manager_crash ''AssertionError'')"
  using assms by (simp add: get_historical_data_def fetch_with_retry_def case_prod_unfold Let_def)

end
