(* ===== verification/MarketProviders.thy ===== *)
theory MarketProviders
  imports MarketData Calendar
begin

text \<open>
  The market data providers: the NSE derivatives bhavcopy with its day-file cache
  (\<open>src/data/providers/nse_fo_bhavcopy.py\<close>), Upstox V3 (\<open>upstox_v3.py\<close>), Yahoo Finance (\<open>yahoo_finance.py\<close>), and the
  factory of the manager. Archive, API and libraries answer through a record of functions indexed by the number of
  the request, so answers may differ from one request to the next.
\<close>

section \<open>The world\<close>

text \<open>A CSV frame with every cell a string; a missing cell is empty.\<close>
record csv_frame =
  cf_columns :: "string list"
  cf_rows :: "(string, string) dict list"

text \<open>The archive's answer for a day: the first file of the zip, an unusable zip, an HTTP status, or no answer.\<close>
datatype bhav_reply = Bhav_file string | Bhav_empty_zip | Bhav_bad_zip | Bhav_status nat | Bhav_failed

datatype upstox_reply = Upstox_timeout | Upstox_network_error | Upstox_response nat "json option"

record yahoo_bar =
  yb_timestamp :: int
  yb_open :: real
  yb_high :: real
  yb_low :: real
  yb_close :: real
  yb_volume :: "int option"

record market_net =
  mn_bhav :: "nat \<Rightarrow> int \<Rightarrow> bhav_reply"
  mn_csv :: "string \<Rightarrow> string + csv_frame"
  mn_not_cancelled :: "nat \<Rightarrow> int \<Rightarrow> bool"
  mn_upstox :: "nat \<Rightarrow> string \<times> string \<times> string \<times> int \<times> int \<Rightarrow> upstox_reply"
  mn_timestamp :: "string \<Rightarrow> int option"
  mn_yahoo :: "nat \<Rightarrow> string \<Rightarrow> (int \<times> int) option \<Rightarrow> yahoo_bar list option"
  mn_today :: "nat \<Rightarrow> int"

record market_world =
  mw_cache :: "(int, string) dict"
  mw_requests :: nat

section \<open>The NSE derivatives bhavcopy\<close>

definition MAX_CONTRACT_LOOKBACK_DAYS :: int where "MAX_CONTRACT_LOOKBACK_DAYS = 400"

definition UDIFF_START :: int where "UDIFF_START = days_of_civil 2024 7 8"

text \<open>\<open>float(text)\<close> on a decimal numeral with optional sign, fraction and exponent.\<close>
definition py_float :: "string \<Rightarrow> real option" where
  "py_float s =
    (let t = strip s;
         signed = (\<lambda>u. case u of [] \<Rightarrow> (1, []) | c # cs \<Rightarrow> if c = CHR ''-'' then (- 1, cs) else if c = CHR ''+'' then (1, cs) else (1, u));
         (sgn, body) = signed t;
         whole = takeWhile is_decimal body; r1 = dropWhile is_decimal body;
         decimals = (case r1 of c # cs \<Rightarrow> if c = CHR ''.'' then takeWhile is_decimal cs else [] | [] \<Rightarrow> []);
         r2 = (case r1 of c # cs \<Rightarrow> if c = CHR ''.'' then dropWhile is_decimal cs else r1 | [] \<Rightarrow> []);
         mantissa = (case (read_digits 10 0 (whole @ decimals)) of None \<Rightarrow> 0 | Some n \<Rightarrow> real n / 10 ^ length decimals)
     in if whole @ decimals = [] then None
        else case r2 of
          [] \<Rightarrow> Some (sgn * mantissa)
        | c # cs \<Rightarrow>
           if c \<notin> {CHR ''e'', CHR ''E''} then None
           else (let (esgn, digits) = signed cs in
             if digits = [] \<or> \<not> list_all is_decimal digits then None
             else (case read_digits 10 0 digits of
               None \<Rightarrow> None
             | Some e \<Rightarrow> Some (sgn * (if esgn < (0 :: real) then mantissa / 10 ^ e else mantissa * 10 ^ e)))))"

text \<open>\<open>int(x)\<close> on a float.\<close>
definition truncate_real :: "real \<Rightarrow> int" where
  "truncate_real x = (if x < 0 then - \<lfloor>- x\<rfloor> else \<lfloor>x\<rfloor>)"

definition cell :: "(string, string) dict \<Rightarrow> string \<Rightarrow> string" where
  "cell row k = dict_get_default row k []"

text \<open>A blank or malformed cell counts as zero.\<close>
definition cell_num :: "string \<Rightarrow> real" where
  "cell_num v = (if v = [] then 0 else case py_float v of None \<Rightarrow> 0 | Some x \<Rightarrow> x)"

definition ohlc_is_real :: "real \<Rightarrow> real \<Rightarrow> real \<Rightarrow> real \<Rightarrow> bool" where
  "ohlc_is_real p h l c \<longleftrightarrow> \<not> min p (min h (min l c)) \<le> 0 \<and> l \<le> h \<and> p \<le> h \<and> c \<le> h \<and> l \<le> p \<and> l \<le> c"

text \<open>The columns read: open, high, low, close, volume, open interest, settlement.\<close>
definition bhav_columns :: "bool \<Rightarrow> string \<times> string \<times> string \<times> string \<times> string \<times> string \<times> string" where
  "bhav_columns legacy =
    (if legacy then (''OPEN'', ''HIGH'', ''LOW'', ''CLOSE'', ''CONTRACTS'', ''OPEN_INT'', ''SETTLE_PR'')
     else (''OpnPric'', ''HghPric'', ''LwPric'', ''ClsPric'', ''TtlTradgVol'', ''OpnIntrst'', ''SttlmPric''))"

text \<open>\<open>strftime('%d-%b-%Y')\<close> in upper case.\<close>
definition legacy_expiry :: "int \<Rightarrow> string" where
  "legacy_expiry d = (case civil_of_days d of (y, m, dd) \<Rightarrow> show_pad 2 (nat dd) @ ''-'' @ MONTHS ! nat (m - 1) @ ''-'' @ show_pad 4 (nat y))"

text \<open>The rows of a contract; \<open>None\<close> if a column the filter needs is missing.\<close>
definition match_contract :: "csv_frame \<Rightarrow> fo_contract \<Rightarrow> bool \<Rightarrow> (string, string) dict list option" where
  "match_contract frame k legacy =
    (let (sym_col, expiry_col, opt_col, strike_col) =
       (if legacy then (''SYMBOL'', ''EXPIRY_DT'', ''OPTION_TYP'', ''STRIKE_PR'') else (''TckrSymb'', ''XpryDt'', ''OptnTp'', ''StrkPric''));
         expiry = (if legacy then legacy_expiry (fo_expiry k) else iso_date (fo_expiry k))
     in if sym_col \<notin> set (cf_columns frame) \<or> expiry_col \<notin> set (cf_columns frame) then None
        else Some (filter (\<lambda>row. upper (strip (cell row sym_col)) = fo_underlying k \<and> upper (strip (cell row expiry_col)) = expiry
          \<and> (let opt = upper (strip (cell row opt_col)) in
             case fo_option_type k of
               None \<Rightarrow> opt \<in> {[], ''XX''}
             | Some ty \<Rightarrow> opt = ty \<and> (case py_float (strip (cell row strike_col)) of
                 None \<Rightarrow> False | Some x \<Rightarrow> \<bar>x - (case fo_strike k of None \<Rightarrow> 0 | Some y \<Rightarrow> y)\<bar> < 1 / 2))) (cf_rows frame)))"

definition row_yields_a_candle :: "bool \<Rightarrow> (string, string) dict \<Rightarrow> bool" where
  "row_yields_a_candle legacy row =
    (let (po, ph, pl, pc, _, _, settle) = bhav_columns legacy; n = (\<lambda>c. cell_num (cell row c)) in
     ohlc_is_real (n po) (n ph) (n pl) (n pc) \<or> 0 < n settle)"

text \<open>Midnight of a day in India, in microseconds.\<close>
definition ist_midnight :: "int \<Rightarrow> int" where
  "ist_midnight d = d * us_per_day - 19800000000"

definition bhav_candle :: "(string, string) dict \<Rightarrow> int \<Rightarrow> data_request \<Rightarrow> candle" where
  "bhav_candle row day r =
    (let (po, ph, pl, pc, vol, oi, settle) = bhav_columns (day < UDIFF_START); n = (\<lambda>c. cell_num (cell row c));
         traded = ohlc_is_real (n po) (n ph) (n pl) (n pc); px = (\<lambda>c. if traded then n c else n settle)
     in \<lparr>cd_timestamp = ist_midnight day, cd_open = px po, cd_high = px ph, cd_low = px pl, cd_close = px pc,
         cd_volume = (if traded then truncate_real (n vol) else 0), cd_open_interest = Some (truncate_real (n oi)),
         cd_instrument_key = rq_instrument_key r, cd_symbol = rq_symbol r, cd_timeframe = ''1d'', cd_provider = ''nse_fo_bhavcopy''\<rparr>)"

definition read_csv :: "market_net \<Rightarrow> string \<Rightarrow> fetch_error + csv_frame option" where
  "read_csv net body =
    (case mn_csv net body of
       Inl e \<Rightarrow> Inl (Unclassified e)
     | Inr f \<Rightarrow> Inr (Some \<lparr>cf_columns = map strip (cf_columns f), cf_rows = map (map (\<lambda>(k, v). (strip k, v))) (cf_rows f)\<rparr>))"

text \<open>The file of a day, from the cache or the archive; a missing file is cached as an empty marker.\<close>
definition load_day :: "market_net \<Rightarrow> nat \<Rightarrow> int \<Rightarrow> (int, string) dict \<Rightarrow> (fetch_error + csv_frame option) \<times> (int, string) dict" where
  "load_day net k day cache =
    (case dict_get cache day of
       Some body \<Rightarrow> (if strip body = [] then Inr None else read_csv net body, cache)
     | None \<Rightarrow>
        (case mn_bhav net k day of
           Bhav_status n \<Rightarrow> if n = 404 then (Inr None, dict_set day [] cache) else (Inl (Classified Provider_network), cache)
         | Bhav_failed \<Rightarrow> (Inl (Classified Provider_network), cache)
         | Bhav_empty_zip \<Rightarrow> (Inl (Classified Provider_invalid), cache)
         | Bhav_bad_zip \<Rightarrow> (Inl (Classified Provider_invalid), cache)
         | Bhav_file body \<Rightarrow> (read_csv net body, dict_set day body cache)))"

definition row_for_day ::
  "market_net \<Rightarrow> nat \<Rightarrow> fo_contract \<Rightarrow> int \<Rightarrow> (int, string) dict \<Rightarrow> (fetch_error + (string, string) dict option) \<times> (int, string) dict" where
  "row_for_day net k c day cache =
    (case load_day net k day cache of
       (Inl e, cache') \<Rightarrow> (Inl e, cache')
     | (Inr None, cache') \<Rightarrow> (Inr None, cache')
     | (Inr (Some frame), cache') \<Rightarrow>
        (case match_contract frame c (day < UDIFF_START) of
           None \<Rightarrow> (Inl (Classified Provider_invalid), cache')
         | Some rows \<Rightarrow> (Inr (find (row_yields_a_candle (day < UDIFF_START)) rows), cache')))"

text \<open>The downloads of a request: the first failure in the order of the days is raised, and of the days after it only
  those whose download was not cancelled in time have run.\<close>
fun rows_for_days ::
  "market_net \<Rightarrow> nat \<Rightarrow> fo_contract \<Rightarrow> fetch_error option \<Rightarrow> int list \<Rightarrow> (int, string) dict
    \<Rightarrow> (fetch_error + (int \<times> (string, string) dict option) list) \<times> (int, string) dict" where
  "rows_for_days net k c failed [] cache = (case failed of None \<Rightarrow> Inr [] | Some e \<Rightarrow> Inl e, cache)"
| "rows_for_days net k c failed (d # ds) cache =
    (if failed \<noteq> None \<and> \<not> mn_not_cancelled net k d then rows_for_days net k c failed ds cache
     else (case row_for_day net k c d cache of
       (Inl e, cache') \<Rightarrow> rows_for_days net k c (if failed = None then Some e else failed) ds cache'
     | (Inr row, cache') \<Rightarrow>
        (case rows_for_days net k c failed ds cache' of
           (Inl e, cache'') \<Rightarrow> (Inl e, cache'')
         | (Inr rows, cache'') \<Rightarrow> (Inr ((d, row) # rows), cache''))))"

definition bhav_candles :: "data_request \<Rightarrow> (int \<times> (string, string) dict option) list \<Rightarrow> candle list" where
  "bhav_candles r rows = concat (map (\<lambda>(d, row). case row of None \<Rightarrow> [] | Some x \<Rightarrow> [bhav_candle x d r]) rows)"

definition bhav_fetch :: "market_net \<Rightarrow> data_request \<Rightarrow> market_world \<Rightarrow> (fetch_error + candle list) \<times> market_world" where
  "bhav_fetch net r w =
    (if rq_timeframe r \<noteq> ''1d'' then (Inl (Classified Provider_unsupported), w)
     else case parse_fo_symbol (rq_symbol r) of
       None \<Rightarrow> (Inl (Classified Provider_not_found), w)
     | Some c \<Rightarrow>
        (let scan_start = max (rq_start r) (fo_expiry c - MAX_CONTRACT_LOOKBACK_DAYS); scan_end = min (rq_end r) (fo_expiry c + 2);
             days = (if scan_start \<le> scan_end then trading_days_between scan_start scan_end else []);
             (res, cache) = rows_for_days net (mw_requests w) c None days (mw_cache w);
             w' = w\<lparr>mw_cache := cache, mw_requests := Suc (mw_requests w)\<rparr>
         in case res of
           Inl e \<Rightarrow> (Inl e, w')
         | Inr rows \<Rightarrow> (if bhav_candles r rows = [] then Inl (Classified Provider_empty) else Inr (bhav_candles r rows), w')))"

text \<open>The latest row of the last ten days, newest first.\<close>
fun latest_row ::
  "market_net \<Rightarrow> nat \<Rightarrow> fo_contract \<Rightarrow> int list \<Rightarrow> (int, string) dict
    \<Rightarrow> (fetch_error + (int \<times> (string, string) dict) option) \<times> (int, string) dict" where
  "latest_row net k c [] cache = (Inr None, cache)"
| "latest_row net k c (d # ds) cache =
    (case row_for_day net k c d cache of
       (Inl e, cache') \<Rightarrow> (Inl e, cache')
     | (Inr (Some row), cache') \<Rightarrow> (Inr (Some (d, row)), cache')
     | (Inr None, cache') \<Rightarrow> latest_row net k c ds cache')"

definition bhav_latest :: "market_net \<Rightarrow> data_request \<Rightarrow> market_world \<Rightarrow> (fetch_error + candle option) \<times> market_world" where
  "bhav_latest net r w =
    (case parse_fo_symbol (rq_symbol r) of
       None \<Rightarrow> (Inr None, w)
     | Some c \<Rightarrow>
        (let k = mw_requests w; today = mn_today net k;
             (res, cache) = latest_row net k c (rev (trading_days_between (today - 10) today)) (mw_cache w)
         in (map_sum (\<lambda>e. e) (map_option (\<lambda>(d, row). bhav_candle row d r)) res, w\<lparr>mw_cache := cache, mw_requests := Suc k\<rparr>)))"

definition bhavcopy_provider :: "market_net \<Rightarrow> market_world provider" where
  "bhavcopy_provider net = \<lparr>pv_name = ''nse_fo_bhavcopy'', pv_health = (\<lambda>w. (True, w)), pv_fetch = bhav_fetch net\<rparr>"

section \<open>Upstox V3\<close>

definition TIMEFRAME_MAP :: "(string, string \<times> string) dict" where
  "TIMEFRAME_MAP = [(''1m'', (''minutes'', ''1'')), (''5m'', (''minutes'', ''5'')), (''15m'', (''minutes'', ''15'')), (''30m'', (''minutes'', ''30'')),
     (''1h'', (''hours'', ''1'')), (''1d'', (''days'', ''1'')), (''1w'', (''weeks'', ''1'')), (''1mo'', (''months'', ''1''))]"

definition ERROR_CODE_MAP :: "(string, provider_error_class) dict" where
  "ERROR_CODE_MAP = [(''UDAPI1021'', Provider_not_found), (''UDAPI100011'', Provider_not_found), (''UDAPI1146'', Provider_unsupported),
     (''UDAPI1147'', Provider_unsupported), (''UDAPI1015'', Provider_invalid), (''UDAPI1022'', Provider_invalid), (''UDAPI1148'', Provider_invalid)]"

text \<open>The code of the error envelope; \<open>None\<close> for a body that has none.\<close>
definition error_code :: "json option \<Rightarrow> string option" where
  "error_code body =
    (case body of
       None \<Rightarrow> None
     | Some j \<Rightarrow>
        (case json_get j ''errors'' of
           Some (JArr (e # _)) \<Rightarrow> (case json_get e ''errorCode'' of Some (JStr c) \<Rightarrow> Some c | _ \<Rightarrow> None)
         | _ \<Rightarrow> None))"

definition raise_for_error_body :: "json option \<Rightarrow> provider_error_class" where
  "raise_for_error_body body = (case error_code body of None \<Rightarrow> Provider_base | Some c \<Rightarrow> dict_get_default ERROR_CODE_MAP c Provider_base)"

definition upstox_get :: "upstox_reply \<Rightarrow> fetch_error + json" where
  "upstox_get reply =
    (case reply of
       Upstox_timeout \<Rightarrow> Inl (Classified Provider_timeout)
     | Upstox_network_error \<Rightarrow> Inl (Classified Provider_network)
     | Upstox_response n body \<Rightarrow>
        if n = 401 then Inl (Classified Provider_token_expired)
        else if n = 403 then Inl (Classified Provider_auth)
        else if n = 429 then Inl (Classified Provider_rate_limit)
        else if 500 \<le> n then Inl (Classified Provider_server)
        else if 400 \<le> n then Inl (Classified (raise_for_error_body body))
        else (case body of None \<Rightarrow> Inl (Unclassified ''JSONDecodeError'') | Some j \<Rightarrow> Inr j))"

definition json_number :: "json \<Rightarrow> real option" where
  "json_number j = (case j of JInt i \<Rightarrow> Some (of_int i) | JFloat x \<Rightarrow> Some x | JStr s \<Rightarrow> py_float s | _ \<Rightarrow> None)"

definition json_integer :: "json \<Rightarrow> int option" where
  "json_integer j = (case j of JInt i \<Rightarrow> Some i | JFloat x \<Rightarrow> Some (truncate_real x) | _ \<Rightarrow> None)"

text \<open>One row of seven; \<open>None\<close> if reading it raises.\<close>
definition upstox_candle :: "market_net \<Rightarrow> data_request \<Rightarrow> json \<Rightarrow> candle option" where
  "upstox_candle net r j =
    (case j of
       JArr (ts # a # b # c # d # v # oi # _) \<Rightarrow>
        (case (case ts of JStr t \<Rightarrow> mn_timestamp net t | _ \<Rightarrow> None, json_number a, json_number b, json_number c, json_number d, json_integer v,
               if oi = JNull then Some None else map_option Some (json_integer oi)) of
           (Some t, Some p, Some h, Some l, Some cl, Some vol, Some interest) \<Rightarrow>
             Some \<lparr>cd_timestamp = t, cd_open = p, cd_high = h, cd_low = l, cd_close = cl, cd_volume = vol, cd_open_interest = interest,
               cd_instrument_key = rq_instrument_key r, cd_symbol = rq_symbol r, cd_timeframe = rq_timeframe r, cd_provider = ''upstox_v3''\<rparr>
         | _ \<Rightarrow> None)
     | _ \<Rightarrow> None)"

fun upstox_candles :: "market_net \<Rightarrow> data_request \<Rightarrow> json list \<Rightarrow> candle list option" where
  "upstox_candles net r [] = Some []"
| "upstox_candles net r (j # js) =
    (case (upstox_candle net r j, upstox_candles net r js) of (Some c, Some cs) \<Rightarrow> Some (c # cs) | _ \<Rightarrow> None)"

definition upstox_fetch :: "market_net \<Rightarrow> data_request \<Rightarrow> market_world \<Rightarrow> (fetch_error + candle list) \<times> market_world" where
  "upstox_fetch net r w =
    (case dict_get TIMEFRAME_MAP (rq_timeframe r) of
       None \<Rightarrow> (Inl (Classified Provider_unsupported), w)
     | Some (unit, interval) \<Rightarrow>
        (let w' = w\<lparr>mw_requests := Suc (mw_requests w)\<rparr> in
         (case upstox_get (mn_upstox net (mw_requests w) (rq_instrument_key r, unit, interval, rq_end r, rq_start r)) of
            Inl e \<Rightarrow> Inl e
          | Inr j \<Rightarrow>
             (case json_get j ''data'' of
                None \<Rightarrow> Inl (Unclassified ''KeyError'')
              | Some data \<Rightarrow>
                 (case json_get data ''candles'' of
                    Some (JArr []) \<Rightarrow> Inl (Classified Provider_empty)
                  | Some (JArr js) \<Rightarrow>
                     (case upstox_candles net r js of
                        None \<Rightarrow> Inl (Unclassified ''ValueError'')
                      | Some cs \<Rightarrow> Inr (sort_key cd_timestamp cs))
                  | _ \<Rightarrow> Inl (Unclassified ''KeyError''))), w')))"

definition upstox_health :: "market_net \<Rightarrow> market_world \<Rightarrow> bool \<times> market_world" where
  "upstox_health net w =
    (let k = mw_requests w; today = mn_today net k in
     (case upstox_get (mn_upstox net k (''NSE_INDEX|Nifty 50'', ''days'', ''1'', today, today)) of Inl _ \<Rightarrow> False | Inr _ \<Rightarrow> True,
      w\<lparr>mw_requests := Suc k\<rparr>))"

definition upstox_provider :: "market_net \<Rightarrow> market_world provider" where
  "upstox_provider net = \<lparr>pv_name = ''upstox_v3'', pv_health = upstox_health net, pv_fetch = upstox_fetch net\<rparr>"

section \<open>Yahoo Finance\<close>

definition ends_with :: "string \<Rightarrow> string \<Rightarrow> bool" where
  "ends_with s suffix \<longleftrightarrow> length suffix \<le> length s \<and> drop (length s - length suffix) s = suffix"

definition to_yahoo_symbol :: "string \<Rightarrow> string \<Rightarrow> string option" where
  "to_yahoo_symbol s exchange =
    (if startswith s [''^''] \<or> ends_with s ''.NS'' \<or> ends_with s ''.BO'' then Some s
     else if exchange = ''NSE'' then Some (s @ ''.NS'')
     else if exchange = ''BSE'' then Some (s @ ''.BO'') else None)"

text \<open>\<open>int(nan)\<close> raises on a bar without a volume.\<close>
definition yahoo_candle :: "data_request \<Rightarrow> yahoo_bar \<Rightarrow> candle option" where
  "yahoo_candle r b =
    (case yb_volume b of
       None \<Rightarrow> None
     | Some v \<Rightarrow> Some \<lparr>cd_timestamp = yb_timestamp b, cd_open = yb_open b, cd_high = yb_high b, cd_low = yb_low b, cd_close = yb_close b,
         cd_volume = v, cd_open_interest = None, cd_instrument_key = rq_instrument_key r, cd_symbol = rq_symbol r, cd_timeframe = ''1d'',
         cd_provider = ''yfinance''\<rparr>)"

fun yahoo_candles :: "data_request \<Rightarrow> yahoo_bar list \<Rightarrow> candle list option" where
  "yahoo_candles r [] = Some []"
| "yahoo_candles r (b # bs) = (case (yahoo_candle r b, yahoo_candles r bs) of (Some c, Some cs) \<Rightarrow> Some (c # cs) | _ \<Rightarrow> None)"

definition yahoo_fetch :: "market_net \<Rightarrow> data_request \<Rightarrow> market_world \<Rightarrow> (fetch_error + candle list) \<times> market_world" where
  "yahoo_fetch net r w =
    (if rq_timeframe r \<noteq> ''1d'' then (Inl (Classified Provider_unsupported), w)
     else case to_yahoo_symbol (rq_symbol r) ''NSE'' of
       None \<Rightarrow> (Inl (Classified Provider_not_found), w)
     | Some ticker \<Rightarrow>
        (let w' = w\<lparr>mw_requests := Suc (mw_requests w)\<rparr> in
         (case mn_yahoo net (mw_requests w) ticker (Some (rq_start r, rq_end r)) of
            None \<Rightarrow> Inl (Classified Provider_network)
          | Some [] \<Rightarrow> Inl (Classified Provider_empty)
          | Some bars \<Rightarrow> (case yahoo_candles r bars of None \<Rightarrow> Inl (Unclassified ''ValueError'') | Some cs \<Rightarrow> Inr cs), w')))"

definition yahoo_health :: "market_net \<Rightarrow> market_world \<Rightarrow> bool \<times> market_world" where
  "yahoo_health net w =
    (case mn_yahoo net (mw_requests w) ''^NSEI'' None of None \<Rightarrow> False | Some bars \<Rightarrow> bars \<noteq> [], w\<lparr>mw_requests := Suc (mw_requests w)\<rparr>)"

definition yahoo_provider :: "market_net \<Rightarrow> market_world provider" where
  "yahoo_provider net = \<lparr>pv_name = ''yfinance'', pv_health = yahoo_health net, pv_fetch = yahoo_fetch net\<rparr>"

section \<open>The factory\<close>

record market_settings =
  ms_primary :: string
  ms_fallback :: string
  ms_failover :: bool
  ms_bhavcopy :: bool
  ms_max_retries :: int
  ms_backoff :: real
  ms_vault_token :: "string option"
  ms_env_token :: "string option"

definition build_market_data_manager :: "market_net \<Rightarrow> market_settings \<Rightarrow> market_world manager option" where
  "build_market_data_manager net st =
    (let token = (case ms_vault_token st of Some (c # cs) \<Rightarrow> True | _ \<Rightarrow> (case ms_env_token st of Some (c # cs) \<Rightarrow> True | _ \<Rightarrow> False));
         available = [(''yfinance'', yahoo_provider net)] @ (if token then [(''upstox_v3'', upstox_provider net)] else []);
         first = (case dict_get available (ms_primary st) of None \<Rightarrow> [] | Some p \<Rightarrow> [p]);
         second = (if ms_fallback st = ms_primary st then [] else case dict_get available (ms_fallback st) of None \<Rightarrow> [] | Some p \<Rightarrow> [p]);
         ordered = (if first @ second = [] then [yahoo_provider net] else first @ second);
         fo_chain = (if ms_bhavcopy st then [bhavcopy_provider net] else []) @ (if token then [upstox_provider net] else [])
     in new_manager ordered (if fo_chain = [] then None else Some fo_chain) (ms_max_retries st) (ms_backoff st) (ms_failover st))"

section \<open>Every provider keeps the contract\<close>

lemma bhav_fetch_candles:
  assumes "bhav_fetch net r w = (Inr cs, w')"
  obtains c days rows cache where "parse_fo_symbol (rq_symbol r) = Some c" "rq_timeframe r = ''1d''" "cs \<noteq> []" "cs = bhav_candles r rows"
    "rows_for_days net (mw_requests w) c None days (mw_cache w) = (Inr rows, cache)"
    "days = [] \<or> (\<exists>a b. days = trading_days_between a b)"
proof -
  obtain c where c: "parse_fo_symbol (rq_symbol r) = Some c" "rq_timeframe r = ''1d''"
    using assms by (auto simp: bhav_fetch_def split: if_splits option.splits)
  define days where "days = (if max (rq_start r) (fo_expiry c - MAX_CONTRACT_LOOKBACK_DAYS) \<le> min (rq_end r) (fo_expiry c + 2)
    then trading_days_between (max (rq_start r) (fo_expiry c - MAX_CONTRACT_LOOKBACK_DAYS)) (min (rq_end r) (fo_expiry c + 2)) else [])"
  obtain res cache where rows: "rows_for_days net (mw_requests w) c None days (mw_cache w) = (res, cache)" by fastforce
  then have "(case res of Inl e \<Rightarrow> Inl e | Inr rows \<Rightarrow> if bhav_candles r rows = [] then Inl (Classified Provider_empty) else Inr (bhav_candles r rows)) = Inr cs"
    using assms[unfolded bhav_fetch_def Let_def] c by (simp only: option.case if_False simp_thms days_def[symmetric]) (auto split: sum.splits)
  then obtain rs where "res = Inr rs" "cs \<noteq> []" "cs = bhav_candles r rs" by (cases res) (auto split: if_splits)
  moreover have "days = [] \<or> (\<exists>a b. days = trading_days_between a b)" by (auto simp: days_def)
  ultimately show ?thesis using that c rows by blast
qed

lemma bhav_candle_fields:
  "cd_timestamp (bhav_candle x d r) = ist_midnight d" "cd_provider (bhav_candle x d r) = ''nse_fo_bhavcopy''"
  "cd_symbol (bhav_candle x d r) = rq_symbol r" "cd_instrument_key (bhav_candle x d r) = rq_instrument_key r" "cd_timeframe (bhav_candle x d r) = ''1d''"
  by (simp_all add: bhav_candle_def Let_def case_prod_unfold)

lemma set_bhav_candles: "set (bhav_candles r rows) = {bhav_candle x d r | x d. (d, Some x) \<in> set rows}"
  by (auto simp: bhav_candles_def split: option.splits)

lemma bhav_fetch_labelled: "bhav_fetch net r w = (Inr cs, w') \<Longrightarrow> labelled ''nse_fo_bhavcopy'' r cs"
  by (erule bhav_fetch_candles) (auto simp: labelled_def set_bhav_candles bhav_candle_fields)

lemma upstox_candles_labelled: "upstox_candles net r js = Some cs \<Longrightarrow> length cs = length js \<and> (\<forall>c \<in> set cs. cd_provider c = ''upstox_v3''
    \<and> cd_symbol c = rq_symbol r \<and> cd_instrument_key c = rq_instrument_key r \<and> cd_timeframe c = rq_timeframe r)"
  by (induction js arbitrary: cs) (auto simp: upstox_candle_def split: option.splits prod.splits json.splits list.splits)

lemma upstox_fetch_labelled:
  assumes "upstox_fetch net r w = (Inr cs, w')" shows "labelled ''upstox_v3'' r cs"
proof -
  obtain js cs0 where js: "js \<noteq> []" "upstox_candles net r js = Some cs0" "cs = sort_key cd_timestamp cs0"
    using assms by (auto simp: upstox_fetch_def Let_def simp del: upstox_candles.simps split: option.splits sum.splits json.splits list.splits prod.splits)
  have "cs \<noteq> []" using upstox_candles_labelled[OF js(2)] js(1,3) by (metis length_0_conv length_sort)
  then show ?thesis using upstox_candles_labelled[OF js(2)] by (simp add: labelled_def js(3))
qed

lemma yahoo_candles_labelled: "yahoo_candles r bs = Some cs \<Longrightarrow> length cs = length bs \<and> (\<forall>c \<in> set cs. cd_provider c = ''yfinance''
    \<and> cd_symbol c = rq_symbol r \<and> cd_instrument_key c = rq_instrument_key r \<and> cd_timeframe c = ''1d'')"
  by (induction bs arbitrary: cs) (auto simp: yahoo_candle_def split: option.splits)

lemma yahoo_fetch_labelled:
  assumes "yahoo_fetch net r w = (Inr cs, w')" shows "labelled ''yfinance'' r cs"
proof -
  obtain bs where bs: "bs \<noteq> []" "yahoo_candles r bs = Some cs" "rq_timeframe r = ''1d''"
    using assms by (auto simp: yahoo_fetch_def Let_def simp del: yahoo_candles.simps split: option.splits sum.splits list.splits if_splits)
  from yahoo_candles_labelled[OF bs(2)] bs(1,3) show ?thesis by (cases cs) (auto simp: labelled_def)
qed

interpretation bhavcopy_feed: labelled_provider "bhavcopy_provider net" for net
  by unfold_locales (simp add: bhavcopy_provider_def bhav_fetch_labelled)

interpretation upstox_feed: labelled_provider "upstox_provider net" for net
  by unfold_locales (simp add: upstox_provider_def upstox_fetch_labelled)

interpretation yahoo_feed: labelled_provider "yahoo_provider net" for net
  by unfold_locales (simp add: yahoo_provider_def yahoo_fetch_labelled)

section \<open>The cache of day files\<close>

lemma load_day_keeps: "dict_get cache d = Some body \<Longrightarrow> dict_get (snd (load_day net k day cache)) d = Some body"
  by (auto simp: load_day_def split: option.split bhav_reply.split)

lemma row_for_day_keeps: "dict_get cache d = Some body \<Longrightarrow> dict_get (snd (row_for_day net k c day cache)) d = Some body"
  using load_day_keeps[of cache d body net k day] by (auto simp: row_for_day_def split: prod.split sum.split option.split)

lemma rows_for_days_keeps: "dict_get cache d = Some body \<Longrightarrow> dict_get (snd (rows_for_days net k c failed days cache)) d = Some body"
proof (induction days arbitrary: failed cache)
  case (Cons x days)
  show ?case
  proof (cases "failed \<noteq> None \<and> \<not> mn_not_cancelled net k x")
    case True
    then show ?thesis using Cons by simp
  next
    case False
    obtain res cache' where r: "row_for_day net k c x cache = (res, cache')" by fastforce
    then have "dict_get cache' d = Some body" using row_for_day_keeps[OF Cons.prems, of net k c x] by simp
    then show ?thesis using Cons.IH[of cache'] r False by (auto split: sum.split prod.split) (metis snd_conv)+
  qed
qed simp

lemma bhav_fetch_keeps: "dict_get (mw_cache w) d = Some body \<Longrightarrow> dict_get (mw_cache (snd (bhav_fetch net r w))) d = Some body"
  using rows_for_days_keeps[of "mw_cache w" d body net "mw_requests w"]
  by (auto simp: bhav_fetch_def Let_def split: option.split prod.split sum.split) (metis snd_conv)+

lemma rows_from_cache:
  "rows_for_days net k c failed days cache = (Inr rows, cache') \<Longrightarrow> dict_get cache d = Some body \<Longrightarrow> strip body = [] \<Longrightarrow> (d, Some x) \<notin> set rows"
proof (induction days arbitrary: failed cache rows)
  case Nil
  then show ?case by (auto split: option.splits)
next
  case (Cons y days)
  show ?case
  proof (cases "failed \<noteq> None \<and> \<not> mn_not_cancelled net k y")
    case True
    then show ?thesis using Cons by simp
  next
    case False
    obtain res c1 where r: "row_for_day net k c y cache = (res, c1)" by fastforce
    have keep: "dict_get c1 d = Some body" using row_for_day_keeps[OF Cons.prems(2), of net k c y] r by simp
    show ?thesis
    proof (cases res)
      case (Inl e)
      then show ?thesis using Cons.IH[OF _ keep Cons.prems(3)] Cons.prems(1) r False by auto
    next
      case (Inr row)
      obtain rs where rs: "rows_for_days net k c failed days c1 = (Inr rs, cache')" "rows = (y, row) # rs"
        using Cons.prems(1) r Inr False by (auto split: sum.splits prod.splits)
      have "row = None" if "y = d" using r Inr that Cons.prems(2,3) by (simp add: row_for_day_def load_day_def)
      then show ?thesis using Cons.IH[OF rs(1) keep Cons.prems(3)] rs(2) by auto
    qed
  qed
qed

text \<open>What any sequence of requests to the provider makes of the cache, under whatever the archive then answers.\<close>
fun bhav_requests :: "(market_net \<times> data_request) list \<Rightarrow> market_world \<Rightarrow> market_world" where
  "bhav_requests [] w = w"
| "bhav_requests ((net, r) # rs) w = bhav_requests rs (snd (bhav_fetch net r w))"

lemma bhav_requests_keep: "dict_get (mw_cache w) d = Some body \<Longrightarrow> dict_get (mw_cache (bhav_requests rs w)) d = Some body"
  by (induction rs arbitrary: w) (auto simp: bhav_fetch_keeps)

lemma rows_cache_missing:
  "rows_for_days net k c failed days cache = (Inr rows, cache') \<Longrightarrow> d \<in> set days \<Longrightarrow> dict_get cache d = None \<Longrightarrow>
    mn_bhav net k d = Bhav_status 404 \<Longrightarrow> dict_get cache' d = Some []"
proof (induction days arbitrary: failed cache rows)
  case (Cons y days)
  obtain res c1 where r: "row_for_day net k c y cache = (res, c1)" by fastforce
  have failed: "failed = None"
  proof (rule ccontr)
    assume "failed \<noteq> None"
    then have "\<exists>e. fst (rows_for_days net k c failed ds ca) = Inl e" for ds ca
      by (induction ds arbitrary: ca) (auto split: sum.split prod.split, metis fst_conv sum.distinct(1))
    then show False using Cons.prems(1) by (metis fst_conv sum.distinct(1))
  qed
  have none: "\<exists>e. fst (rows_for_days net k c (Some e0) ds ca) = Inl e" for e0 ds ca
    by (induction ds arbitrary: ca) (auto split: sum.split prod.split, metis fst_conv sum.distinct(1))
  obtain row rs where rs: "res = Inr row" "rows_for_days net k c None days c1 = (Inr rs, cache')"
    using Cons.prems(1) r failed none by (cases res) (auto split: sum.splits prod.splits, metis fst_conv sum.distinct(1))
  show ?case
  proof (cases "y = d")
    case True
    then have "dict_get c1 d = Some []" using r Cons.prems(3,4) by (auto simp: row_for_day_def load_day_def)
    then show ?thesis using rows_for_days_keeps[of c1 d "[]" net k c None days] rs(2) by simp
  next
    case False
    then have "dict_get c1 d = None" using r Cons.prems(3)
      by (auto simp: row_for_day_def load_day_def split: option.splits prod.splits sum.splits bhav_reply.splits if_splits)
    then show ?thesis using Cons.IH[OF rs(2)] Cons.prems(2,4) False by auto
  qed
qed simp

definition scanned_days :: "data_request \<Rightarrow> fo_contract \<Rightarrow> int list" where
  "scanned_days r c = trading_days_between (max (rq_start r) (fo_expiry c - MAX_CONTRACT_LOOKBACK_DAYS)) (min (rq_end r) (fo_expiry c + 2))"

lemma bhav_fetch_caches_missing:
  assumes "bhav_fetch net r w = (Inr cs, w')" "parse_fo_symbol (rq_symbol r) = Some c" "d \<in> set (scanned_days r c)"
    and "dict_get (mw_cache w) d = None" "mn_bhav net (mw_requests w) d = Bhav_status 404"
  shows "dict_get (mw_cache w') d = Some []"
proof -
  have order: "max (rq_start r) (fo_expiry c - MAX_CONTRACT_LOOKBACK_DAYS) \<le> min (rq_end r) (fo_expiry c + 2)"
    using assms(3) by (auto simp: scanned_days_def trading_days_between_def days_loop_spec)
  obtain res cache where rows: "rows_for_days net (mw_requests w) c None (scanned_days r c) (mw_cache w) = (res, cache)" by fastforce
  have "rq_timeframe r = ''1d''" using assms(1) by (auto simp: bhav_fetch_def split: if_splits)
  then have "(case res of Inl e \<Rightarrow> (Inl e, w\<lparr>mw_cache := cache, mw_requests := Suc (mw_requests w)\<rparr>)
      | Inr rows \<Rightarrow> (if bhav_candles r rows = [] then Inl (Classified Provider_empty) else Inr (bhav_candles r rows),
          w\<lparr>mw_cache := cache, mw_requests := Suc (mw_requests w)\<rparr>)) = (Inr cs, w')"
    using assms(1)[unfolded bhav_fetch_def Let_def] rows order by (simp only: assms(2) option.case if_True if_False simp_thms scanned_days_def[symmetric]) (auto split: sum.splits)
  then obtain rs where "res = Inr rs" "mw_cache w' = cache" by (cases res) (auto split: if_splits)
  then show ?thesis using rows_cache_missing[OF _ assms(3-5)] rows by simp
qed

text \<open>A day asked for too early is lost. The archive publishes the file of a trading day in the evening and answers
  404 before. One such answer is cached as an empty file: whatever requests follow, with whatever answers, no later
  result of the provider contains a candle of that day.\<close>
theorem early_request_loses_day:
  assumes "bhav_fetch net0 r0 w0 = (Inr cs0, w1)" and "parse_fo_symbol (rq_symbol r0) = Some c" and "d \<in> set (scanned_days r0 c)"
    and "dict_get (mw_cache w0) d = None" and "mn_bhav net0 (mw_requests w0) d = Bhav_status 404"
    and "bhav_fetch net r (bhav_requests rs w1) = (Inr cs, w')"
  shows "ist_midnight d \<notin> cd_timestamp ` set cs"
proof
  assume late: "ist_midnight d \<in> cd_timestamp ` set cs"
  have c: "dict_get (mw_cache (bhav_requests rs w1)) d = Some []"
    by (rule bhav_requests_keep) (rule bhav_fetch_caches_missing[OF assms(1-5)])
  obtain k days rows cache where rows: "cs = bhav_candles r rows"
      "rows_for_days net (mw_requests (bhav_requests rs w1)) k None days (mw_cache (bhav_requests rs w1)) = (Inr rows, cache)"
    using assms(6) by (rule bhav_fetch_candles)
  obtain x e where e: "(e, Some x) \<in> set rows" "ist_midnight e = ist_midnight d"
    using late by (auto simp: rows(1) set_bhav_candles bhav_candle_fields)
  then have "e = d" by (simp add: ist_midnight_def us_per_day_def)
  then show False using rows_from_cache[OF rows(2) c] e(1) by (auto simp: strip_def)
qed

section \<open>Candles of the bhavcopy pass the quality check\<close>

lemma rows_for_days_order:
  "rows_for_days net k c None days cache = (Inr rows, cache') \<Longrightarrow> map fst rows = days
    \<and> (\<forall>(d, row) \<in> set rows. \<forall>x. row = Some x \<longrightarrow> row_yields_a_candle (d < UDIFF_START) x)"
proof (induction days arbitrary: cache rows)
  case Nil
  then show ?case by simp
next
  case (Cons y days)
  have none: "\<exists>e. fst (rows_for_days net k c (Some e0) ds ca) = Inl e" for e0 ds ca
    by (induction ds arbitrary: ca) (auto split: sum.split prod.split, metis fst_conv sum.distinct(1))
  obtain res c1 where r: "row_for_day net k c y cache = (res, c1)" by fastforce
  obtain row rs where rs: "res = Inr row" "rows_for_days net k c None days c1 = (Inr rs, cache')" "rows = (y, row) # rs"
    using Cons.prems r none by (cases res) (auto split: sum.splits prod.splits, metis fst_conv sum.distinct(1))
  have "row_yields_a_candle (y < UDIFF_START) x" if "row = Some x" for x
    using r rs(1) that by (auto simp: row_for_day_def find_Some_iff split: option.splits prod.splits sum.splits)
  then show ?case using Cons.IH[OF rs(2)] rs(3) by auto
qed

lemma bhav_candle_good:
  assumes "row_yields_a_candle (d < UDIFF_START) x" "0 \<le> cd_volume (bhav_candle x d r)"
  shows "good_candle (bhav_candle x d r)"
proof -
  obtain po ph pl pc vol oi settle where c: "bhav_columns (d < UDIFF_START) = (po, ph, pl, pc, vol, oi, settle)" by (metis prod.exhaust)
  have "ohlc_valid (bhav_candle x d r)"
  proof (cases "ohlc_is_real (cell_num (cell x po)) (cell_num (cell x ph)) (cell_num (cell x pl)) (cell_num (cell x pc))")
    case True
    then show ?thesis by (simp add: bhav_candle_def c ohlc_valid_def) (simp add: ohlc_is_real_def)
  next
    case False
    then show ?thesis by (simp add: bhav_candle_def c ohlc_valid_def)
  qed
  then show ?thesis using assms(2) by (simp add: good_candle_def)
qed

lemma bhav_candles_sorted:
  "sorted_wrt (<) (map fst rows) \<Longrightarrow> sorted_wrt (<) (map cd_timestamp (bhav_candles r rows))"
proof (induction rows)
  case (Cons y rows)
  have "bhav_candles r (y # rows) = (case snd y of None \<Rightarrow> [] | Some x \<Rightarrow> [bhav_candle x (fst y) r]) @ bhav_candles r rows"
    by (simp add: bhav_candles_def case_prod_unfold)
  moreover have "\<forall>c \<in> set (bhav_candles r rows). ist_midnight (fst y) < cd_timestamp c"
    using Cons.prems by (fastforce simp: set_bhav_candles bhav_candle_fields ist_midnight_def us_per_day_def)
  ultimately show ?case using Cons by (auto simp: bhav_candle_fields split: option.split)
qed (simp add: bhav_candles_def)

lemma bhavcopy_passes_quality_check:
  assumes "bhav_fetch net r w = (Inr cs, w')" "\<forall>c \<in> set cs. 0 \<le> cd_volume c"
  shows "validate_candles cs = []"
proof -
  obtain k days rows cache where rows: "cs = bhav_candles r rows"
      "rows_for_days net (mw_requests w) k None days (mw_cache w) = (Inr rows, cache)" "days = [] \<or> (\<exists>a b. days = trading_days_between a b)"
    using assms(1) by (rule bhav_fetch_candles)
  have "sorted_wrt (<) days"
    using rows(3) by (auto simp: trading_days_between_def days_loop_spec sorted_wrt_filter)
  then have "sorted_wrt (<) (map cd_timestamp cs)"
    using rows_for_days_order[OF rows(2)] bhav_candles_sorted by (simp add: rows(1))
  moreover have "good_candle c" if "c \<in> set cs" for c
    using that assms(2) rows_for_days_order[OF rows(2)] bhav_candle_good by (fastforce simp: rows(1) set_bhav_candles)
  ultimately show ?thesis by (simp add: validate_candles_iff)
qed

section \<open>The manager the factory builds\<close>

lemma built_manager:
  assumes "build_market_data_manager net st = Some m"
  shows "chain_for m r \<noteq> [] \<and> (\<forall>p \<in> set (chain_for m r). labelled_provider p) \<and> length (chain_for m r) \<le> 2
    \<and> mg_max_retries m = ms_max_retries st \<and> mg_backoff m = ms_backoff st"
proof -
  define token where "token = (case ms_vault_token st of Some (c # cs) \<Rightarrow> True | _ \<Rightarrow> (case ms_env_token st of Some (c # cs) \<Rightarrow> True | _ \<Rightarrow> False))"
  define av where "av = [(''yfinance'', yahoo_provider net)] @ (if token then [(''upstox_v3'', upstox_provider net)] else [])"
  define first where "first = (case dict_get av (ms_primary st) of None \<Rightarrow> [] | Some p \<Rightarrow> [p])"
  define second where "second = (if ms_fallback st = ms_primary st then [] else case dict_get av (ms_fallback st) of None \<Rightarrow> [] | Some p \<Rightarrow> [p])"
  define ordered where "ordered = (if first @ second = [] then [yahoo_provider net] else first @ second)"
  define fo where "fo = (if ms_bhavcopy st then [bhavcopy_provider net] else []) @ (if token then [upstox_provider net] else [])"
  have l: "labelled_provider (bhavcopy_provider net)" "labelled_provider (upstox_provider net)" "labelled_provider (yahoo_provider net)"
    by unfold_locales
  have av: "labelled_provider p" if "dict_get av k = Some p" for k p using that l by (auto simp: av_def split: if_splits)
  have o: "ordered \<noteq> []" "length ordered \<le> 2" "\<forall>p \<in> set ordered. labelled_provider p"
    using av l by (auto simp: ordered_def first_def second_def split: option.splits)
  have f: "length fo \<le> 2" "\<forall>p \<in> set fo. labelled_provider p" using l by (auto simp: fo_def)
  have m: "m = \<lparr>mg_providers = ordered, mg_fo_providers = (if fo = [] then None else Some fo), mg_max_retries = ms_max_retries st,
      mg_backoff = ms_backoff st, mg_failover = ms_failover st\<rparr>"
    using assms[unfolded build_market_data_manager_def Let_def, folded token_def, folded av_def, folded first_def second_def, folded ordered_def fo_def] o(1)
    by (simp add: new_manager_def)
  have "chain_for m r = (if ms_failover st then ordered else take 1 ordered) \<or> (fo \<noteq> [] \<and> chain_for m r = (if ms_failover st then fo else take 1 fo))"
    by (simp add: m chain_for_def Let_def split: list.split)
  then show ?thesis using o f by (elim disjE conjE) (auto simp: m dest: in_set_takeD)
qed

lemma manager_is_built: "\<exists>m. build_market_data_manager net st = Some m"
  by (auto simp: build_market_data_manager_def new_manager_def Let_def)

text \<open>No unchecked candle reaches a caller. Whatever settings and credentials the factory reads, it builds a manager,
  and whatever the providers, archive and APIs answer: a result is not empty, its timestamps increase strictly,
  every candle has a volume that is not negative and prices within its range, and carries the instrument asked for
  and the name of the provider that served it; a terminal failure names a reason for every provider of the
  chain. With \<open>n\<close> attempts and factor \<open>b\<close> at most two times \<open>b\<close> times \<open>2 ^ (n - 1) - 1\<close> seconds are slept.\<close>
theorem market_data_result_sound:
  assumes "0 \<le> ms_backoff st"
  shows "\<exists>m. build_market_data_manager net st = Some m
    \<and> (case fst (get_historical_data m r w) of
        (Inr res, pauses) \<Rightarrow> mr_candles res \<noteq> [] \<and> sorted_wrt (<) (map cd_timestamp (mr_candles res))
          \<and> (\<forall>c \<in> set (mr_candles res). 0 \<le> cd_volume c \<and> ohlc_valid c \<and> cd_symbol c = rq_symbol r
              \<and> cd_instrument_key c = rq_instrument_key r \<and> cd_timeframe c = rq_timeframe r \<and> cd_provider c = mr_used res)
      | (Inl (Market_data_unavailable errs), pauses) \<Rightarrow> fst ` set errs = pv_name ` set (chain_for m r)
      | (Inl (Manager_crash e), pauses) \<Rightarrow> True)
    \<and> sum_list (snd (fst (get_historical_data m r w))) \<le> 2 * (ms_backoff st * (2 ^ (nat (ms_max_retries st) - 1) - 1))"
proof -
  obtain m where m: "build_market_data_manager net st = Some m" using manager_is_built by blast
  note b = built_manager[OF m, of r]
  obtain p ps where chain: "chain_for m r = p # ps" using b by (cases "chain_for m r") auto
  obtain res pauses w' where g: "get_historical_data m r w = ((res, pauses), w')" by (metis prod.exhaust)
  then have walk: "walk_chain m r (pv_name p) (p # ps) [] w = ((res, pauses), w')" by (simp add: get_historical_data_def chain)
  let ?B = "ms_backoff st * (2 ^ (nat (ms_max_retries st) - 1) - 1)"
  have "sum_list pauses \<le> real (length (p # ps)) * ?B"
    using walk_chain_pauses[of m r "pv_name p" "p # ps" "[]" w] assms b walk by simp
  moreover have "real (length (p # ps)) * ?B \<le> 2 * ?B"
    by (rule mult_right_mono) (use b chain assms in auto)
  ultimately have pauses: "sum_list pauses \<le> 2 * ?B" by linarith
  have outcome: "case fst (get_historical_data m r w) of
        (Inr res, pauses) \<Rightarrow> mr_candles res \<noteq> [] \<and> sorted_wrt (<) (map cd_timestamp (mr_candles res))
          \<and> (\<forall>c \<in> set (mr_candles res). 0 \<le> cd_volume c \<and> ohlc_valid c \<and> cd_symbol c = rq_symbol r
              \<and> cd_instrument_key c = rq_instrument_key r \<and> cd_timeframe c = rq_timeframe r \<and> cd_provider c = mr_used res)
      | (Inl (Market_data_unavailable errs), pauses) \<Rightarrow> fst ` set errs = pv_name ` set (chain_for m r)
      | (Inl (Manager_crash e), pauses) \<Rightarrow> True"
  proof (cases res)
    case (Inr x)
    have "validate_candles (mr_candles x) = []" using walk_chain_result[OF walk[unfolded Inr]] by simp
    moreover have "labelled (mr_used x) r (mr_candles x)" using walk_chain_labelled[OF walk[unfolded Inr]] b chain by simp
    ultimately show ?thesis by (simp add: g Inr validate_candles_iff labelled_def good_candle_def)
  next
    case (Inl e)
    then show ?thesis using walk_chain_unavailable[of m r "pv_name p" "p # ps" "[]" w] walk by (cases e) (auto simp: g Inl chain)
  qed
  have "sum_list (snd (fst (get_historical_data m r w))) \<le> 2 * ?B" using pauses by (simp add: g)
  with m outcome show ?thesis by (intro exI[of _ m] conjI)
qed

section \<open>Examples\<close>

definition sample_frame :: csv_frame where
  "sample_frame = \<lparr>cf_columns = [''TckrSymb'', ''XpryDt''], cf_rows = [[(''TckrSymb'', ''NIFTY''), (''XpryDt'', ''2026-08-27''), (''SttlmPric'', ''2'')]]\<rparr>"

text \<open>An archive that has every file but that of \<open>today\<close>, and a Yahoo with one bar for everything.\<close>
definition sample_net :: "int \<Rightarrow> market_net" where
  "sample_net today = \<lparr>mn_bhav = (\<lambda>_ d. if d = today then Bhav_status 404 else Bhav_file ''file''), mn_csv = (\<lambda>_. Inr sample_frame),
     mn_not_cancelled = (\<lambda>_ _. True), mn_upstox = (\<lambda>_ _. Upstox_timeout), mn_timestamp = (\<lambda>_. None),
     mn_yahoo = (\<lambda>_ _ _. Some [\<lparr>yb_timestamp = 0, yb_open = 1, yb_high = 2, yb_low = 1, yb_close = 2, yb_volume = Some 7\<rparr>]), mn_today = (\<lambda>_. today)\<rparr>"

definition sample_request :: "string \<Rightarrow> data_request" where
  "sample_request s = \<lparr>rq_instrument_key = s, rq_symbol = s, rq_start = 20689, rq_end = 20690, rq_timeframe = ''1d''\<rparr>"

definition fresh_world :: market_world where "fresh_world = \<lparr>mw_cache = [], mw_requests = 0\<rparr>"

definition sample_settings :: market_settings where
  "sample_settings = \<lparr>ms_primary = ''upstox_v3'', ms_fallback = ''yfinance'', ms_failover = True, ms_bhavcopy = True, ms_max_retries = 3,
     ms_backoff = 1, ms_vault_token = None, ms_env_token = None\<rparr>"

definition sample_future :: fo_contract where
  "sample_future = \<lparr>fo_underlying = ''NIFTY'', fo_expiry = 20692, fo_option_type = None, fo_strike = None\<rparr>"

lemma sample_contract: "parse_fo_symbol ''NIFTY FUT 27 AUG 26'' = Some sample_future"
  by code_simp

lemma sample_days: "trading_days_between 20689 20690 = [20689, 20690]" by code_simp

lemma sample_row: "match_contract \<lparr>cf_columns = map strip (cf_columns sample_frame), cf_rows = map (map (\<lambda>(k, v). (strip k, v))) (cf_rows sample_frame)\<rparr>
    sample_future False = Some (cf_rows sample_frame)"
  by code_simp

lemma sample_row_marked: "row_yields_a_candle False (hd (cf_rows sample_frame))"
proof -
  have "py_float ''2'' = Some 2"
    by (simp add: py_float_def strip_def is_space_def is_decimal_def digit_value_def Let_def of_char_def)
  then show ?thesis
    by (simp add: row_yields_a_candle_def bhav_columns_def sample_frame_def cell_def dict_get_default_def cell_num_def Let_def)
qed

abbreviation future_request :: data_request where "future_request \<equiv> sample_request ''NIFTY FUT 27 AUG 26''"

lemma sample_file:
  assumes "d \<noteq> t" "\<not> d < UDIFF_START" "dict_get cache d \<in> {None, Some ''file''}"
  shows "row_for_day (sample_net t) k sample_future d cache =
    (Inr (Some (hd (cf_rows sample_frame))), if dict_get cache d = None then dict_set d ''file'' cache else cache)"
proof -
  have "find (row_yields_a_candle False) (cf_rows sample_frame) = Some (hd (cf_rows sample_frame))"
    using sample_row_marked by (simp add: sample_frame_def)
  moreover have "strip ''file'' \<noteq> []" by (simp add: strip_def is_space_def Let_def)
  moreover have "mn_csv (sample_net t) ''file'' = Inr sample_frame" "mn_bhav (sample_net t) k d = Bhav_file ''file''"
    using assms(1) by (simp_all add: sample_net_def)
  ultimately show ?thesis using assms(2,3) sample_row by (auto simp: row_for_day_def load_day_def read_csv_def)
qed

lemma sample_new_days: "\<not> (20689 :: int) < UDIFF_START" "\<not> (20690 :: int) < UDIFF_START" by code_simp+

lemma sample_window: "scanned_days future_request sample_future = [20689, 20690]"
  by (simp add: scanned_days_def sample_request_def sample_future_def MAX_CONTRACT_LOOKBACK_DAYS_def sample_days)

lemma sample_fetch:
  assumes "rows_for_days net (mw_requests w) sample_future None [20689, 20690] (mw_cache w) = (Inr rows, cache)" "bhav_candles future_request rows \<noteq> []"
  shows "bhav_fetch net future_request w = (Inr (bhav_candles future_request rows), w\<lparr>mw_cache := cache, mw_requests := Suc (mw_requests w)\<rparr>)"
  using assms sample_contract sample_days
  by (simp add: bhav_fetch_def sample_request_def sample_future_def MAX_CONTRACT_LOOKBACK_DAYS_def Let_def)

theorem early_request_loses_day_witness:
  "\<exists>cs w. bhav_fetch (sample_net 0) future_request (snd (bhav_fetch (sample_net 20690) future_request fresh_world)) = (Inr cs, w)
    \<and> ist_midnight 20690 \<notin> cd_timestamp ` set cs"
proof -
  let ?x = "hd (cf_rows sample_frame)"
  let ?c1 = "[(20689, ''file''), (20690, [])]"
  have "row_for_day (sample_net 20690) 0 sample_future 20690 [(20689, ''file'')] = (Inr None, ?c1)"
    by (simp add: row_for_day_def load_day_def sample_net_def)
  then have "rows_for_days (sample_net 20690) 0 sample_future None [20689, 20690] [] = (Inr [(20689, Some ?x), (20690, None)], ?c1)"
    using sample_new_days by (simp add: sample_file)
  then have first: "bhav_fetch (sample_net 20690) future_request fresh_world =
      (Inr (bhav_candles future_request [(20689, Some ?x), (20690, None)]), \<lparr>mw_cache = ?c1, mw_requests = 1\<rparr>)"
    using sample_fetch[of "sample_net 20690" fresh_world] by (simp add: fresh_world_def bhav_candles_def)
  have "row_for_day (sample_net 0) 1 sample_future 20690 ?c1 = (Inr None, ?c1)" by (simp add: row_for_day_def load_day_def strip_def)
  then have "rows_for_days (sample_net 0) 1 sample_future None [20689, 20690] ?c1 = (Inr [(20689, Some ?x), (20690, None)], ?c1)"
    using sample_new_days by (simp add: sample_file)
  then obtain cs w where second: "bhav_fetch (sample_net 0) future_request \<lparr>mw_cache = ?c1, mw_requests = 1\<rparr> = (Inr cs, w)"
    using sample_fetch[of "sample_net 0" "\<lparr>mw_cache = ?c1, mw_requests = 1\<rparr>"] by (simp add: bhav_candles_def)
  have "ist_midnight 20690 \<notin> cd_timestamp ` set cs"
    by (rule early_request_loses_day[OF first, where c = sample_future and rs = "[]" and net = "sample_net 0" and r = future_request])
      (use sample_contract sample_window second in \<open>simp_all add: sample_request_def fresh_world_def sample_net_def\<close>)
  then show ?thesis using first second by simp
qed

theorem market_data_result_sound_witness:
  "\<exists>m res pauses. build_market_data_manager (sample_net 0) sample_settings = Some m
    \<and> fst (get_historical_data m (sample_request ''TCS'') fresh_world) = (Inr res, pauses) \<and> mr_candles res \<noteq> []
    \<and> (\<forall>c \<in> set (mr_candles res). 0 \<le> cd_volume c \<and> ohlc_valid c \<and> cd_provider c = mr_used res) \<and> sum_list pauses \<le> 6"
proof -
  obtain m where m: "build_market_data_manager (sample_net 0) sample_settings = Some m" using manager_is_built by blast
  have sound: "0 \<le> ms_backoff sample_settings" by (simp add: sample_settings_def)
  have chain: "chain_for m (sample_request ''TCS'') = [yahoo_provider (sample_net 0)]" "mg_max_retries m = 3"
    using m by (auto simp: build_market_data_manager_def new_manager_def sample_settings_def chain_for_def sample_request_def is_fo_instrument_def
      parse_fo_symbol_def startswith_def is_space_def Let_def)
  have "\<exists>res pauses. fst (get_historical_data m (sample_request ''TCS'') fresh_world) = (Inr res, pauses)"
    by (simp add: get_historical_data_def chain[unfolded sample_request_def] yahoo_provider_def yahoo_health_def yahoo_fetch_def sample_net_def sample_request_def fetch_with_retry_def
      fresh_world_def to_yahoo_symbol_def startswith_def ends_with_def yahoo_candle_def validate_candles_def ohlc_valid_def Let_def eval_nat_numeral)
  then show ?thesis using market_data_result_sound[OF sound, of "sample_net 0" "sample_request ''TCS''" fresh_world] m
    by (auto simp: sample_settings_def)
qed

end
