(* ===== verification/DataLake.thy ===== *)
theory DataLake
  imports MarketProviders
begin

text \<open>
  The end-of-day data lake and its ingestion: the partitioned files with their writer and reader
  (\<open>src/data/ingest/writer.py\<close>, \<open>src/data/datalake/query.py\<close>), the instrument master
  (\<open>src/data/ingest/instrument_sync.py\<close>, \<open>src/data/instruments.py\<close>), provenance (\<open>src/data/provenance.py\<close>), the
  incremental ingestion (\<open>src/data/ingest/scheduled_sync.py\<close>, \<open>pipeline.py\<close>), corporate actions and the freshness
  rule (\<open>src/data/datalake/freshness.py\<close>). A Parquet file is the list of its rows.
\<close>

section \<open>Files\<close>

record eod_row =
  eo_symbol :: string
  eo_date :: int
  eo_open :: real
  eo_high :: real
  eo_low :: real
  eo_close :: real
  eo_volume :: int

text \<open>A file per symbol, year and month.\<close>
type_synonym partition_key = "string \<times> int \<times> int"
type_synonym lake = "(partition_key, eod_row list) dict"

definition month_of :: "int \<Rightarrow> int \<times> int" where
  "month_of d = (case civil_of_days d of (y, m, _) \<Rightarrow> (y, m))"

definition partition_of :: "eod_row \<Rightarrow> partition_key" where
  "partition_of r = (eo_symbol r, month_of (eo_date r))"

definition row_key :: "eod_row \<Rightarrow> string \<times> int" where "row_key r = (eo_symbol r, eo_date r)"

text \<open>\<open>unique(subset=['symbol', 'date'], keep='last')\<close>\<close>
fun unique_last :: "eod_row list \<Rightarrow> eod_row list" where
  "unique_last [] = []"
| "unique_last (r # rs) = (if row_key r \<in> row_key ` set rs then unique_last rs else r # unique_last rs)"

definition merge_rows :: "eod_row list option \<Rightarrow> eod_row list \<Rightarrow> eod_row list" where
  "merge_rows existing rows = sort_key eo_date (case existing of None \<Rightarrow> rows | Some old \<Rightarrow> unique_last (old @ rows))"

definition write_partition :: "eod_row list \<Rightarrow> int \<times> lake \<Rightarrow> partition_key \<Rightarrow> int \<times> lake" where
  "write_partition rows = (\<lambda>(n, L) k.
    (let merged = merge_rows (dict_get L k) (filter (\<lambda>r. partition_of r = k) rows) in (n + int (length merged), dict_set k merged L)))"

text \<open>The rows counted are those of every file touched.\<close>
definition lake_write :: "eod_row list \<Rightarrow> lake \<Rightarrow> int \<times> lake" where
  "lake_write rows L = foldl (write_partition rows) (0, L) (remdups (map partition_of rows))"

definition read_symbol :: "lake \<Rightarrow> string \<Rightarrow> int option \<Rightarrow> int option \<Rightarrow> eod_row list" where
  "read_symbol L s start stop =
    sort_key eo_date (filter (\<lambda>r. (case start of None \<Rightarrow> True | Some a \<Rightarrow> a \<le> eo_date r) \<and> (case stop of None \<Rightarrow> True | Some b \<Rightarrow> eo_date r \<le> b))
      (concat (map snd (filter (\<lambda>(k, _). fst k = s) L))))"

definition latest_date :: "lake \<Rightarrow> string \<Rightarrow> int option" where
  "latest_date L s = (case map eo_date (read_symbol L s None None) of [] \<Rightarrow> None | d # ds \<Rightarrow> Some (foldl max d ds))"

definition sorted_strings :: "string list \<Rightarrow> string list" where
  "sorted_strings ss = map fst (sort_keys (map (\<lambda>s. (s, ())) (remdups ss)))"

lemma set_sorted_strings: "set (sorted_strings ss) = set ss"
  by (auto simp: sorted_strings_def sort_keys_set image_image)

definition list_symbols :: "lake \<Rightarrow> string list" where
  "list_symbols L = sorted_strings (map (fst \<circ> fst) L)"

section \<open>The lake as a map\<close>

definition lake_at :: "lake \<Rightarrow> string \<Rightarrow> int \<Rightarrow> eod_row option" where
  "lake_at L s d = (case dict_get L (s, month_of d) of None \<Rightarrow> None | Some rows \<Rightarrow> row_by eo_date d rows)"

text \<open>Every row is in its file, once, in the order of the dates.\<close>
definition file_ok :: "partition_key \<Rightarrow> eod_row list \<Rightarrow> bool" where
  "file_ok k rows \<longleftrightarrow> (\<forall>r \<in> set rows. partition_of r = k) \<and> sorted_wrt (<) (map eo_date rows)"

definition lake_ok :: "lake \<Rightarrow> bool" where
  "lake_ok L \<longleftrightarrow> distinct (map fst L) \<and> (\<forall>(k, rows) \<in> set L. file_ok k rows)"

lemma set_unique_last: "set (unique_last rows) \<subseteq> set rows" by (induction rows) auto

lemma keys_unique_last: "row_key ` set (unique_last rows) = row_key ` set rows \<and> distinct (map row_key (unique_last rows))"
  by (induction rows) auto

lemma unique_last_row: "row_by row_key k (unique_last rows) = row_by row_key k (rev rows)"
proof (induction rows)
  case (Cons r rows)
  have "row_by row_key k (rev rows) = None \<longleftrightarrow> k \<notin> row_key ` set rows" by (simp add: row_by_None_iff)
  then show ?case using Cons by (auto split: option.splits)
qed simp

lemma same_symbol_keys:
  assumes "\<forall>r \<in> set rows. partition_of r = k"
  shows "row_by eo_date d rows = row_by row_key (fst k, d) rows" "map row_key rows = map (Pair (fst k)) (map eo_date rows)"
  using assms by (induction rows) (auto simp: row_key_def partition_of_def)

lemma row_by_sort:
  assumes "distinct (map key rows)"
  shows "row_by key k (sort_key f rows) = row_by key k rows"
proof (cases "row_by key k rows")
  case None
  then show ?thesis using row_by_None_iff[of key k rows] row_by_None_iff[of key k "sort_key f rows"] by simp
next
  case (Some r)
  have "distinct (map key (sort_key f rows))" using assms by (simp add: distinct_map)
  moreover have "r \<in> set (sort_key f rows)" "key r = k" using row_by_SomeD[OF Some] by auto
  ultimately show ?thesis using Some row_by_distinct by metis
qed

lemma distinct_dates_sorted:
  assumes "distinct (map eo_date rows)" shows "sorted_wrt (<) (map eo_date (sort_key eo_date rows))"
proof -
  have "sorted (map eo_date (sort_key eo_date rows))" "distinct (map eo_date (sort_key eo_date rows))"
    using assms by (simp_all add: distinct_map)
  then show ?thesis by (simp add: strict_sorted_iff)
qed

lemma distinct_dates:
  assumes "\<forall>r \<in> set rows. partition_of r = k" "distinct (map row_key rows)" shows "distinct (map eo_date rows)"
  using assms(2) unfolding same_symbol_keys(2)[OF assms(1)] by (rule distinct_map[THEN iffD1, THEN conjunct1])

text \<open>Merging keeps a file well formed and lets the new rows win.\<close>
lemma merge_rows_spec:
  assumes old: "pred_option (file_ok k) existing" and rows: "\<forall>r \<in> set rows. partition_of r = k" "distinct (map row_key rows)"
  shows "file_ok k (merge_rows existing rows)
    \<and> row_by eo_date d (merge_rows existing rows) =
      (case row_by eo_date d rows of Some r \<Rightarrow> Some r | None \<Rightarrow> (case existing of None \<Rightarrow> None | Some old \<Rightarrow> row_by eo_date d old))"
proof (cases existing)
  case None
  note d = distinct_dates[OF rows]
  then show ?thesis using rows(1) None distinct_dates_sorted[OF d] row_by_sort[OF d, where f = eo_date]
    by (auto simp: merge_rows_def file_ok_def split: option.split)
next
  case (Some old)
  let ?all = "unique_last (old @ rows)"
  have parts: "\<forall>r \<in> set (old @ rows). partition_of r = k" "\<forall>r \<in> set ?all. partition_of r = k"
    using rows(1) old Some set_unique_last[of "old @ rows"] by (auto simp: file_ok_def)
  have "distinct (map row_key ?all)" by (simp add: keys_unique_last)
  note d = distinct_dates[OF parts(2) this] and dn = distinct_dates[OF rows]
  have "sorted_wrt (<) (map eo_date old)" using old Some by (simp add: file_ok_def)
  then have do: "distinct (map eo_date old)" by (simp add: strict_sorted_iff)
  have rev: "row_by eo_date d (rev xs) = row_by eo_date d xs" if "distinct (map eo_date xs)" for xs
  proof (cases "row_by eo_date d xs")
    case (Some r)
    then show ?thesis using row_by_SomeD[OF Some] row_by_distinct[of eo_date "rev xs" r] that by (auto simp: rev_map[symmetric])
  next
    case None
    then show ?thesis using row_by_None_iff[of eo_date d xs] row_by_None_iff[of eo_date d "rev xs"] by simp
  qed
  have "row_by eo_date d (sort_key eo_date ?all) = row_by eo_date d ?all" using row_by_sort[OF d] .
  also have "\<dots> = row_by row_key (fst k, d) (rev (old @ rows))" using same_symbol_keys(1)[OF parts(2)] unique_last_row by simp
  also have "\<dots> = row_by eo_date d (rev (old @ rows))" by (rule same_symbol_keys(1)[symmetric]) (use parts(1) in auto)
  also have "\<dots> = (case row_by eo_date d rows of Some r \<Rightarrow> Some r | None \<Rightarrow> row_by eo_date d old)"
    using rev[OF dn] rev[OF do] by (simp split: option.split)
  finally show ?thesis using parts(2) distinct_dates_sorted[OF d] Some by (simp add: merge_rows_def file_ok_def split: option.split)
qed

lemma write_partitions_spec:
  assumes "lake_ok L" "distinct (map row_key rows)"
  shows "lake_ok (snd (foldl (write_partition rows) (n, L) ks)) \<and>
    lake_at (snd (foldl (write_partition rows) (n, L) ks)) s d =
      (if (s, month_of d) \<in> set ks then (case row_by row_key (s, d) rows of Some r \<Rightarrow> Some r | None \<Rightarrow> lake_at L s d) else lake_at L s d)"
  using assms(1)
proof (induction ks arbitrary: n L)
  case Nil
  then show ?case by simp
next
  case (Cons k ks)
  let ?new = "filter (\<lambda>r. partition_of r = k) rows"
  let ?merged = "merge_rows (dict_get L k) ?new"
  let ?L = "dict_set k ?merged L"
  have old: "pred_option (file_ok k) (dict_get L k)"
    using Cons.prems by (auto simp: lake_ok_def pred_option_def split: option.splits dest: map_of_SomeD)
  have new: "\<forall>r \<in> set ?new. partition_of r = k" "distinct (map row_key ?new)" using assms(2) by (auto simp: distinct_map_filter)
  note spec = merge_rows_spec[OF old new]
  have ok: "lake_ok ?L"
  proof -
    have "(k', rows') = (k, ?merged) \<or> (k', rows') \<in> set L" if "(k', rows') \<in> set ?L" for k' rows'
      using that by (induction L) (auto split: if_splits)
    then show ?thesis using Cons.prems spec unfolding lake_ok_def by fastforce
  qed
  have here: "lake_at ?L s d = (case row_by row_key (s, d) rows of Some r \<Rightarrow> Some r | None \<Rightarrow> lake_at L s d)" if "k = (s, month_of d)"
  proof -
    have "row_by eo_date d ?new = row_by row_key (s, d) ?new" using same_symbol_keys(1)[OF new(1)] that by simp
    also have "\<dots> = row_by row_key (s, d) rows" using that by (induction rows) (auto simp: row_key_def partition_of_def)
    finally show ?thesis using spec[of d] that by (auto simp: lake_at_def split: option.split)
  qed
  have "lake_at ?L s d = lake_at L s d" if "k \<noteq> (s, month_of d)" using that by (simp add: lake_at_def)
  then have now: "lake_at ?L s d = (if k = (s, month_of d) then (case row_by row_key (s, d) rows of Some r \<Rightarrow> Some r | None \<Rightarrow> lake_at L s d) else lake_at L s d)"
    using here by simp
  show ?case using Cons.IH[OF ok] unfolding now by (cases "row_by row_key (s, d) rows") (simp_all add: write_partition_def Let_def)
qed

lemma read_symbol_rows:
  assumes "lake_ok L"
  shows "set (read_symbol L s None None) = {r. \<exists>e. lake_at L s e = Some r} \<and> sorted (map eo_date (read_symbol L s None None))"
proof -
  have "set (read_symbol L s None None) = {r. \<exists>m rows. ((s, m), rows) \<in> set L \<and> r \<in> set rows}" by (fastforce simp: read_symbol_def)
  also have "\<dots> = {r. \<exists>e. lake_at L s e = Some r}"
  proof (intro set_eqI iffI; clarify)
    fix r m rows
    assume f: "((s, m), rows) \<in> set L" "r \<in> set rows"
    then have ok: "file_ok (s, m) rows" using assms by (auto simp: lake_ok_def)
    then have "month_of (eo_date r) = m" "distinct (map eo_date rows)" using f by (auto simp: file_ok_def partition_of_def strict_sorted_iff)
    moreover have "dict_get L (s, m) = Some rows" using assms f by (simp add: lake_ok_def)
    ultimately have "lake_at L s (eo_date r) = Some r" using f(2) by (simp add: lake_at_def row_by_distinct)
    then show "\<exists>e. lake_at L s e = Some r" by blast
  next
    fix r e
    assume "lake_at L s e = Some r"
    then show "\<exists>m rows. ((s, m), rows) \<in> set L \<and> r \<in> set rows"
      by (cases "month_of e") (auto simp: lake_at_def split: option.splits dest!: map_of_SomeD row_by_SomeD)
  qed
  finally show ?thesis by (simp add: read_symbol_def)
qed

text \<open>The lake is a map. Merging a batch with one row per symbol and day into a well-formed lake gives a well-formed
  lake: each file in date order, one row per day, each row in the file of its symbol and month; what it then holds
  for a symbol and day is the row of the batch if there is one and what it held before otherwise. Reading a
  symbol back gives exactly these rows, in the order of their dates.\<close>
theorem lake_write_refines_map:
  assumes "lake_ok L" and "distinct (map row_key rows)"
  shows "lake_ok (snd (lake_write rows L))
    \<and> lake_at (snd (lake_write rows L)) s d = (case row_by row_key (s, d) rows of Some r \<Rightarrow> Some r | None \<Rightarrow> lake_at L s d)
    \<and> set (read_symbol (snd (lake_write rows L)) s None None) = {r. \<exists>e. lake_at (snd (lake_write rows L)) s e = Some r}
    \<and> sorted (map eo_date (read_symbol (snd (lake_write rows L)) s None None))"
proof -
  let ?L = "snd (lake_write rows L)"
  have w: "lake_ok ?L" "lake_at ?L s d = (case row_by row_key (s, d) rows of Some r \<Rightarrow> Some r | None \<Rightarrow> lake_at L s d)"
  proof -
    have "(s, month_of d) \<in> set (remdups (map partition_of rows))" if "row_by row_key (s, d) rows = Some r" for r
      using row_by_SomeD[OF that] by (auto simp: row_key_def partition_of_def)
    then show "lake_ok ?L" "lake_at ?L s d = (case row_by row_key (s, d) rows of Some r \<Rightarrow> Some r | None \<Rightarrow> lake_at L s d)"
      using write_partitions_spec[OF assms, of 0 "remdups (map partition_of rows)" s d]
      by (auto simp: lake_write_def split: option.split)
  qed
  then show ?thesis using read_symbol_rows[OF w(1)] by simp
qed

definition sample_row :: "int \<Rightarrow> real \<Rightarrow> eod_row" where
  "sample_row d x = \<lparr>eo_symbol = ''TCS'', eo_date = d, eo_open = x, eo_high = x, eo_low = x, eo_close = x, eo_volume = 1\<rparr>"

theorem lake_write_refines_map_witness:
  "lake_at (snd (lake_write [sample_row 20690 2] (snd (lake_write [sample_row 20689 1, sample_row 20690 1] [])))) ''TCS'' 20690 = Some (sample_row 20690 2)"
proof -
  let ?L = "snd (lake_write [sample_row 20689 1, sample_row 20690 1] [])"
  have "lake_ok []" by (simp add: lake_ok_def)
  moreover have "distinct (map row_key [sample_row 20689 1, sample_row 20690 1])" by (simp add: row_key_def sample_row_def)
  ultimately have "lake_ok ?L" using write_partitions_spec[of "[]"] by (simp add: lake_write_def)
  then show ?thesis using lake_write_refines_map[of ?L "[sample_row 20690 2]" "''TCS''" 20690] by (simp add: row_key_def sample_row_def)
qed

section \<open>Instruments\<close>

record instrument_row =
  in_instrument_key :: string
  in_exchange :: string
  in_segment :: string
  in_symbol :: string
  in_name :: string
  in_instrument_type :: string
  in_isin :: "json option"
  in_expiry :: "int option"
  in_strike :: "real option"
  in_lot_size :: "json option"
  in_tick_size :: "json option"
  in_provider :: string
  in_is_active :: bool

definition PROVIDER :: string where "PROVIDER = ''upstox_v3''"
definition SUPPORTED_INSTRUMENT_TYPES :: "string list" where "SUPPORTED_INSTRUMENT_TYPES = [''EQ'', ''INDEX'', ''FUT'', ''CE'', ''PE'']"
definition EXPIRY_TYPES :: "string list" where "EXPIRY_TYPES = [''FUT'', ''CE'', ''PE'']"
definition STRIKE_TYPES :: "string list" where "STRIKE_TYPES = [''CE'', ''PE'']"

text \<open>A text field that is present and not empty.\<close>
definition required_text :: "json \<Rightarrow> string \<Rightarrow> string option" where
  "required_text j k = (case json_get j k of Some (JStr (c # cs)) \<Rightarrow> Some (c # cs) | _ \<Rightarrow> None)"

definition parse_record :: "string \<Rightarrow> json \<Rightarrow> instrument_row option" where
  "parse_record exchange j =
    (case (required_text j ''instrument_type'', required_text j ''instrument_key'', required_text j ''trading_symbol'', required_text j ''name'',
           required_text j ''segment'') of
       (Some ty, Some key, Some tsym, Some nm, Some segment) \<Rightarrow>
         if ty \<notin> set SUPPORTED_INSTRUMENT_TYPES then None
         else Some \<lparr>in_instrument_key = key, in_exchange = exchange, in_segment = segment, in_symbol = tsym, in_name = nm, in_instrument_type = ty,
           in_isin = json_get j ''isin'',
           in_expiry = (case json_get j ''expiry'' of
             Some (JInt ms) \<Rightarrow> if ty \<in> set EXPIRY_TYPES \<and> ms \<noteq> 0 then Some (ms div 86400000) else None | _ \<Rightarrow> None),
           in_strike = (case json_get j ''strike_price'' of
             Some x \<Rightarrow> (case json_number x of Some v \<Rightarrow> if ty \<in> set STRIKE_TYPES \<and> v \<noteq> 0 then Some v else None | None \<Rightarrow> None) | None \<Rightarrow> None),
           in_lot_size = json_get j ''lot_size'', in_tick_size = json_get j ''tick_size'', in_provider = PROVIDER, in_is_active = True\<rparr>
     | _ \<Rightarrow> None)"

text \<open>\<open>INSERT ... ON CONFLICT (provider, instrument_key) DO UPDATE\<close>\<close>
definition upsert_instrument :: "instrument_row \<Rightarrow> instrument_row list \<Rightarrow> instrument_row list" where
  "upsert_instrument r rows =
    (let same = (\<lambda>x. in_provider x = in_provider r \<and> in_instrument_key x = in_instrument_key r) in
     if list_ex same rows then update_where same (\<lambda>_. r) rows else rows @ [r])"

fun parsed_records :: "string \<Rightarrow> json list \<Rightarrow> instrument_row list" where
  "parsed_records exchange [] = []"
| "parsed_records exchange (j # js) = (case parse_record exchange j of None \<Rightarrow> [] | Some r \<Rightarrow> [r]) @ parsed_records exchange js"

text \<open>
  One statement per thousand records; the database refuses a statement that would write the same row twice, and
  the transaction is rolled back.
\<close>
definition conflicting_chunk :: "instrument_row list \<Rightarrow> bool" where
  "conflicting_chunk parsed =
    list_ex (\<lambda>i. \<not> distinct (map in_instrument_key (take 1000 (drop (1000 * i) parsed)))) [0..<Suc (length parsed div 1000)]"

datatype sync_error = Download_failed string | Statement_failed

text \<open>The downloaded master: \<open>Inl\<close> if fetching it raises.\<close>
definition sync_instruments :: "string \<Rightarrow> string + json list \<Rightarrow> instrument_row list \<Rightarrow> (sync_error + nat) \<times> instrument_row list" where
  "sync_instruments exchange download rows =
    (case download of
       Inl e \<Rightarrow> (Inl (Download_failed e), rows)
     | Inr js \<Rightarrow>
        (let off = update_where (\<lambda>x. in_provider x = PROVIDER \<and> in_exchange x = exchange \<and> in_is_active x) (\<lambda>x. x\<lparr>in_is_active := False\<rparr>) rows;
             parsed = parsed_records exchange js
         in if conflicting_chunk parsed then (Inl Statement_failed, rows)
            else (Inr (length parsed), fold upsert_instrument parsed off)))"

definition resolve_instrument_key :: "instrument_row list \<Rightarrow> string \<Rightarrow> string \<Rightarrow> string option" where
  "resolve_instrument_key rows s exchange =
    map_option in_instrument_key (find (\<lambda>x. in_symbol x = s \<and> in_exchange x = exchange \<and> in_is_active x) rows)"

text \<open>The keys a master file lists.\<close>
definition listed :: "string \<Rightarrow> json list \<Rightarrow> string set" where
  "listed exchange js = in_instrument_key ` set (parsed_records exchange js)"

definition active_keys :: "string \<Rightarrow> instrument_row list \<Rightarrow> string set" where
  "active_keys exchange rows = {in_instrument_key x | x. x \<in> set rows \<and> in_provider x = PROVIDER \<and> in_exchange x = exchange \<and> in_is_active x}"

lemma upsert_keys: "in_instrument_key ` set (upsert_instrument r rows) = insert (in_instrument_key r) (in_instrument_key ` set rows)"
  by (auto simp: upsert_instrument_def Let_def set_update_where list_ex_iff split: if_splits)

lemma upsert_active:
  assumes "in_provider r = PROVIDER" "in_exchange r = exchange" "in_is_active r"
  shows "active_keys exchange (upsert_instrument r rows) = insert (in_instrument_key r) (active_keys exchange rows)"
proof (intro set_eqI iffI)
  fix k assume "k \<in> active_keys exchange (upsert_instrument r rows)"
  then show "k \<in> insert (in_instrument_key r) (active_keys exchange rows)"
    by (auto simp: active_keys_def upsert_instrument_def Let_def set_update_where split: if_splits)
next
  fix k assume k: "k \<in> insert (in_instrument_key r) (active_keys exchange rows)"
  have r: "r \<in> set (upsert_instrument r rows)" by (force simp: upsert_instrument_def Let_def set_update_where list_ex_iff)
  show "k \<in> active_keys exchange (upsert_instrument r rows)"
  proof (cases "k = in_instrument_key r")
    case True
    then show ?thesis using r assms by (auto simp: active_keys_def)
  next
    case False
    then obtain x where x: "x \<in> set rows" "in_provider x = PROVIDER" "in_exchange x = exchange" "in_is_active x" "k = in_instrument_key x"
      using k by (auto simp: active_keys_def)
    then have "x \<in> set (upsert_instrument r rows)" using False by (force simp: upsert_instrument_def Let_def set_update_where)
    then show ?thesis using x by (auto simp: active_keys_def)
  qed
qed

lemma parsed_fields: "r \<in> set (parsed_records exchange js) \<Longrightarrow> in_provider r = PROVIDER \<and> in_exchange r = exchange \<and> in_is_active r"
  by (induction js) (auto simp: parse_record_def split: option.splits if_splits)

text \<open>A synchronised exchange offers exactly the instruments of the new file, and forgets none.\<close>
theorem sync_instruments_exact:
  assumes "sync_instruments exchange (Inr js) rows = (Inr n, rows')"
  shows "n = length (parsed_records exchange js) \<and> active_keys exchange rows' = listed exchange js
    \<and> in_instrument_key ` set rows \<subseteq> in_instrument_key ` set rows'"
proof -
  let ?off = "update_where (\<lambda>x. in_provider x = PROVIDER \<and> in_exchange x = exchange \<and> in_is_active x) (\<lambda>x. x\<lparr>in_is_active := False\<rparr>) rows"
  have "\<not> (in_provider x = PROVIDER \<and> in_exchange x = exchange \<and> in_is_active x)" if "x \<in> set ?off" for x
  proof -
    obtain y where "x = (if in_provider y = PROVIDER \<and> in_exchange y = exchange \<and> in_is_active y then y\<lparr>in_is_active := False\<rparr> else y)"
      using \<open>x \<in> set ?off\<close> unfolding set_update_where by blast
    then show ?thesis by (cases "in_provider y = PROVIDER \<and> in_exchange y = exchange \<and> in_is_active y") simp_all
  qed
  then have off1: "active_keys exchange ?off = {}" unfolding active_keys_def by blast
  have "map in_instrument_key ?off = map in_instrument_key rows" by (rule map_update_where) simp
  then have off2: "in_instrument_key ` set ?off = in_instrument_key ` set rows" by (metis set_map)
  have step: "(\<forall>r \<in> set ps. in_provider r = PROVIDER \<and> in_exchange r = exchange \<and> in_is_active r) \<Longrightarrow>
      active_keys exchange (fold upsert_instrument ps xs) = in_instrument_key ` set ps \<union> active_keys exchange xs
      \<and> in_instrument_key ` set xs \<subseteq> in_instrument_key ` set (fold upsert_instrument ps xs)" for ps xs
  proof (induction ps arbitrary: xs)
    case (Cons p ps)
    have "active_keys exchange (upsert_instrument p xs) = insert (in_instrument_key p) (active_keys exchange xs)"
      by (rule upsert_active) (use Cons.prems in auto)
    moreover have "in_instrument_key ` set xs \<subseteq> in_instrument_key ` set (upsert_instrument p xs)" using upsert_keys[of p xs] by blast
    moreover have "in_instrument_key ` set (upsert_instrument p xs) \<subseteq> in_instrument_key ` set (fold upsert_instrument (p # ps) xs)"
      "active_keys exchange (fold upsert_instrument (p # ps) xs) = in_instrument_key ` set ps \<union> active_keys exchange (upsert_instrument p xs)"
      using Cons.IH[of "upsert_instrument p xs"] Cons.prems by simp_all
    ultimately show ?case by simp
  qed simp
  have "n = length (parsed_records exchange js)" "rows' = fold upsert_instrument (parsed_records exchange js) ?off"
    using assms by (auto simp: sync_instruments_def Let_def split: if_splits)
  moreover have "\<forall>r \<in> set (parsed_records exchange js). in_provider r = PROVIDER \<and> in_exchange r = exchange \<and> in_is_active r"
    using parsed_fields by blast
  ultimately show ?thesis using step[of "parsed_records exchange js" ?off] off1 off2 by (simp add: listed_def)
qed

section \<open>Ingestion\<close>

text \<open>The lake, the instruments, the provider and time of the last managed fetch per symbol, and the world.\<close>
record ingest_state =
  ig_lake :: lake
  ig_instruments :: "instrument_row list"
  ig_provenance :: "(string, string \<times> int) dict"
  ig_world :: market_world

definition upsert_provenance :: "string \<Rightarrow> string \<Rightarrow> int \<Rightarrow> ingest_state \<Rightarrow> ingest_state" where
  "upsert_provenance s prov t st = st\<lparr>ig_provenance := dict_set s (prov, t) (ig_provenance st)\<rparr>"

text \<open>The day of a timestamp on an Indian clock.\<close>
definition ist_date :: "int \<Rightarrow> int" where "ist_date t = (t + 19800000000) div us_per_day"

definition candles_to_eod_dataframe :: "string \<Rightarrow> candle list \<Rightarrow> eod_row list" where
  "candles_to_eod_dataframe s cs = map (\<lambda>c. \<lparr>eo_symbol = s, eo_date = ist_date (cd_timestamp c), eo_open = cd_open c, eo_high = cd_high c,
     eo_low = cd_low c, eo_close = cd_close c, eo_volume = cd_volume c\<rparr>) cs"

record ingestion_summary =
  is_instruments_synced :: nat
  is_backfilled :: "string list"
  is_topped_up :: "string list"
  is_already_fresh :: "string list"
  is_skipped_unresolvable :: "string list"
  is_failed :: "string list"

definition INITIAL_BACKFILL_DAYS :: int where "INITIAL_BACKFILL_DAYS = 730"

definition target_symbols :: "lake \<Rightarrow> string list option list \<Rightarrow> string list" where
  "target_symbols L universes = sorted_strings (list_symbols L @ concat (map (\<lambda>u. case u of Some (s # _) \<Rightarrow> [s] | _ \<Rightarrow> []) universes))"

definition ingest_request :: "string \<Rightarrow> string \<Rightarrow> int \<Rightarrow> int \<Rightarrow> data_request" where
  "ingest_request key s start stop = \<lparr>rq_instrument_key = key, rq_symbol = s, rq_start = start, rq_end = stop, rq_timeframe = ''1d''\<rparr>"

text \<open>One symbol; \<open>Inl\<close> an exception that ends the whole run.\<close>
definition ingest_symbol ::
  "market_world manager \<Rightarrow> int \<Rightarrow> int \<Rightarrow> string \<Rightarrow> ingestion_summary \<Rightarrow> ingest_state \<Rightarrow> (string + ingestion_summary) \<times> ingest_state" where
  "ingest_symbol m today now s sm st =
    (case resolve_instrument_key (ig_instruments st) s ''NSE'' of
       None \<Rightarrow> (Inr (sm\<lparr>is_skipped_unresolvable := is_skipped_unresolvable sm @ [s]\<rparr>), st)
     | Some key \<Rightarrow>
        (let latest = latest_date (ig_lake st) s;
             start = (case latest of None \<Rightarrow> today - INITIAL_BACKFILL_DAYS | Some d \<Rightarrow> d + 1) in
         if today < start then (Inr (sm\<lparr>is_already_fresh := is_already_fresh sm @ [s]\<rparr>), st)
         else
          (let ((res, _), w) = get_historical_data m (ingest_request key s start today) (ig_world st); st1 = st\<lparr>ig_world := w\<rparr> in
           case res of
             Inl (Market_data_unavailable _) \<Rightarrow> (Inr (sm\<lparr>is_failed := is_failed sm @ [s]\<rparr>), st1)
           | Inl (Manager_crash e) \<Rightarrow> (Inl e, st1)
           | Inr r \<Rightarrow>
              if mr_candles r = [] then (Inr (sm\<lparr>is_already_fresh := is_already_fresh sm @ [s]\<rparr>), st1)
              else
               (let st2 = upsert_provenance s (mr_used r) now (st1\<lparr>ig_lake := snd (lake_write (candles_to_eod_dataframe s (mr_candles r)) (ig_lake st1))\<rparr>)
                in (Inr (if latest = None then sm\<lparr>is_backfilled := is_backfilled sm @ [s]\<rparr> else sm\<lparr>is_topped_up := is_topped_up sm @ [s]\<rparr>), st2)))))"

fun ingest_loop ::
  "market_world manager \<Rightarrow> int \<Rightarrow> int \<Rightarrow> string list \<Rightarrow> ingestion_summary \<Rightarrow> ingest_state \<Rightarrow> (string + ingestion_summary) \<times> ingest_state" where
  "ingest_loop m today now [] sm st = (Inr sm, st)"
| "ingest_loop m today now (s # ss) sm st =
    (case ingest_symbol m today now s sm st of
       (Inl e, st1) \<Rightarrow> (Inl e, st1)
     | (Inr sm1, st1) \<Rightarrow> ingest_loop m today now ss sm1 st1)"

text \<open>
  A failed download of the instruments does not stop the run; a failed statement leaves the shared transaction
  aborted, and the next query of the session raises.
\<close>
definition run_incremental_ingestion ::
  "market_net \<Rightarrow> market_settings \<Rightarrow> string + json list \<Rightarrow> string list option list \<Rightarrow> int \<Rightarrow> int \<Rightarrow> ingest_state
    \<Rightarrow> (string + ingestion_summary) \<times> ingest_state" where
  "run_incremental_ingestion net settings download universes today now st =
    (let (synced, rows) = sync_instruments ''NSE'' download (ig_instruments st);
         st1 = st\<lparr>ig_instruments := rows\<rparr>;
         sm = \<lparr>is_instruments_synced = (case synced of Inl _ \<Rightarrow> 0 | Inr n \<Rightarrow> n), is_backfilled = [], is_topped_up = [], is_already_fresh = [],
           is_skipped_unresolvable = [], is_failed = []\<rparr>
     in if synced = Inl Statement_failed then (Inl ''InFailedSqlTransaction'', st)
        else case build_market_data_manager net settings of
          None \<Rightarrow> (Inl ''ValueError'', st1)
        | Some m \<Rightarrow> ingest_loop m today now (target_symbols (ig_lake st1) universes) sm st1)"

text \<open>The ingestion on demand: an unresolved symbol stands for its own key. The sort of the frame is left to the writer.\<close>
fun fetch_managed ::
  "market_world manager \<Rightarrow> int \<Rightarrow> int \<Rightarrow> int \<Rightarrow> string list \<Rightarrow> ingest_state \<Rightarrow> (string + eod_row list) \<times> ingest_state" where
  "fetch_managed m start stop now [] st = (Inr [], st)"
| "fetch_managed m start stop now (s # ss) st =
    (let key = (case resolve_instrument_key (ig_instruments st) s ''NSE'' of Some (c # cs) \<Rightarrow> c # cs | _ \<Rightarrow> s);
         ((res, _), w) = get_historical_data m (ingest_request key s start stop) (ig_world st);
         st1 = st\<lparr>ig_world := w\<rparr>
     in case res of
          Inl (Market_data_unavailable _) \<Rightarrow> fetch_managed m start stop now ss st1
        | Inl (Manager_crash e) \<Rightarrow> (Inl e, st1)
        | Inr r \<Rightarrow>
           (case fetch_managed m start stop now ss (upsert_provenance s (mr_used r) now st1) of
              (Inl e, st2) \<Rightarrow> (Inl e, st2)
            | (Inr rows, st2) \<Rightarrow> (Inr (candles_to_eod_dataframe s (mr_candles r) @ rows), st2)))"

definition run_pipeline ::
  "market_net \<Rightarrow> market_settings \<Rightarrow> string list \<Rightarrow> int \<Rightarrow> int \<Rightarrow> int \<Rightarrow> ingest_state \<Rightarrow> (string + int) \<times> ingest_state" where
  "run_pipeline net settings symbols start stop now st =
    (case build_market_data_manager net settings of
       None \<Rightarrow> (Inl ''ValueError'', st)
     | Some m \<Rightarrow>
        (case fetch_managed m start stop now symbols st of
           (Inl e, st1) \<Rightarrow> (Inl e, st1)
         | (Inr rows, st1) \<Rightarrow> (let (n, L) = lake_write rows (ig_lake st1) in (Inr n, st1\<lparr>ig_lake := L\<rparr>))))"

section \<open>The freshness rule\<close>

definition lake_fresh :: "lake \<Rightarrow> int \<Rightarrow> string \<Rightarrow> bool" where
  "lake_fresh L today s = (case latest_date L s of None \<Rightarrow> False | Some d \<Rightarrow> previous_trading_day today \<le> d)"

text \<open>The symbols with stale data: the exception is raised when there are any.\<close>
definition require_fresh :: "lake \<Rightarrow> string list \<Rightarrow> int \<Rightarrow> string list" where
  "require_fresh L symbols today = filter (\<lambda>s. \<not> lake_fresh L today s) symbols"

section \<open>Corporate actions\<close>

record corporate_action =
  ca_symbol :: string
  ca_ex_date :: int
  ca_action_type :: string
  ca_ratio_numerator :: "real option"
  ca_ratio_denominator :: "real option"
  ca_dividend_amount :: "real option"
  ca_source :: string

text \<open>The check constraint of the table: the database refuses any other type.\<close>
definition ACTION_TYPES :: "string list" where "ACTION_TYPES = [''SPLIT'', ''BONUS'', ''DIVIDEND'']"

text \<open>The outer \<open>None\<close> is an exception.\<close>
definition parse_float :: "string option \<Rightarrow> real option option" where
  "parse_float v = (case v of None \<Rightarrow> Some None | Some [] \<Rightarrow> Some None | Some s \<Rightarrow> map_option Some (py_float s))"

text \<open>One CSV row: \<open>None\<close> if it raises; an existing action is left as it is.\<close>
definition write_action :: "(string, string) dict \<Rightarrow> corporate_action list \<Rightarrow> (bool \<times> corporate_action list) option" where
  "write_action row actions =
    (case (dict_get row ''symbol'', dict_get row ''ex_date'', dict_get row ''action_type'') of
       (Some s, Some day, Some ty) \<Rightarrow>
        (case date_fromisoformat day of
           None \<Rightarrow> None
         | Some d \<Rightarrow>
            if ty \<notin> set ACTION_TYPES then None
            else if list_ex (\<lambda>a. ca_symbol a = s \<and> ca_ex_date a = d \<and> ca_action_type a = ty) actions then Some (False, actions)
            else
             (case (parse_float (dict_get row ''ratio_numerator''), parse_float (dict_get row ''ratio_denominator''),
                    parse_float (dict_get row ''dividend_amount'')) of
                (Some n, Some m, Some v) \<Rightarrow>
                  Some (True, actions @ [\<lparr>ca_symbol = s, ca_ex_date = d, ca_action_type = ty, ca_ratio_numerator = n, ca_ratio_denominator = m,
                    ca_dividend_amount = v, ca_source = (case dict_get row ''source'' of Some (c # cs) \<Rightarrow> c # cs | _ \<Rightarrow> ''manual-csv-seed'')\<rparr>])
              | _ \<Rightarrow> None))
     | _ \<Rightarrow> None)"

text \<open>One transaction: if a row raises, nothing is written.\<close>
fun write_actions_loop :: "(string, string) dict list \<Rightarrow> nat \<Rightarrow> corporate_action list \<Rightarrow> (nat \<times> corporate_action list) option" where
  "write_actions_loop [] n actions = Some (n, actions)"
| "write_actions_loop (row # rows) n actions =
    (case write_action row actions of
       None \<Rightarrow> None
     | Some (new, actions') \<Rightarrow> write_actions_loop rows (if new then Suc n else n) actions')"

definition write_corporate_actions :: "(string, string) dict list \<Rightarrow> corporate_action list \<Rightarrow> (string + nat) \<times> corporate_action list" where
  "write_corporate_actions rows actions =
    (case write_actions_loop rows 0 actions of None \<Rightarrow> (Inl ''invalid row'', actions) | Some (n, actions') \<Rightarrow> (Inr n, actions'))"

end
