(* ===== verification/AuditArchive.thy ===== *)
theory AuditArchive
  imports AuditChain PyParse
begin

text \<open>
  The write-once archive of the audit log (\<open>src/core/audit_archive.py\<close>) and the nightly comparison of the log with it
  (\<open>src/core/audit_chain_monitor.py\<close>). The bucket is a dictionary from object keys to JSON values (\<open>json.loads\<close> inverts
  \<open>json.dumps\<close>); which calls of the object store raise is the record \<open>s3_world\<close>.
\<close>

section \<open>Timestamps read back\<close>

text \<open>\<open>datetime.fromisoformat\<close> on the forms \<open>isoformat\<close> writes.\<close>
definition datetime_fromisoformat :: "string \<Rightarrow> timestamp option" where
  "datetime_fromisoformat s =
    (if length s \<notin> {19, 26} \<or> s ! 10 \<noteq> CHR ''T'' \<or> s ! 13 \<noteq> CHR '':'' \<or> s ! 16 \<noteq> CHR '':'' \<or> length s = 26 \<and> s ! 19 \<noteq> CHR ''.'' then None
     else
      (case (date_fromisoformat (take 10 s), read_base 10 (take 2 (drop 11 s)), read_base 10 (take 2 (drop 14 s)), read_base 10 (take 2 (drop 17 s)),
             if length s = 26 then read_base 10 (drop 20 s) else Some 0) of
         (Some d, Some h, Some m, Some x, Some f) \<Rightarrow>
           if h < 24 \<and> m < 60 \<and> x < 60 then Some (d * us_per_day + int ((h * 60 + m) * 60 + x) * 1000000 + int f) else None
       | _ \<Rightarrow> None))"

lemma datetime_of_isoformat:
  assumes "python_date (date_of t)" shows "datetime_fromisoformat (isoformat t) = Some t"
proof -
  define us where "us = t mod us_per_day"
  define s where "s = us div 1000000"
  define f where "f = us mod 1000000"
  have us: "0 \<le> us" "us < 86400000000" by (simp_all add: us_def us_per_day_def)
  have sf: "us = s * 1000000 + f" "0 \<le> f" "f < 1000000" by (simp_all add: s_def f_def)
  have s: "0 \<le> s" "s < 86400" using us sf by linarith+
  define h where "h = s div 3600"
  define m where "m = s div 60 mod 60"
  define x where "x = s mod 60"
  have hmx: "0 \<le> h" "h < 24" "0 \<le> m" "m < 60" "0 \<le> x" "x < 60" using s by (auto simp: h_def m_def x_def)
  have sum: "s = (h * 60 + m) * 60 + x"
  proof -
    have "s div 60 div 60 = h" by (simp add: h_def zdiv_zmult2_eq[symmetric])
    then have "s div 60 = h * 60 + m" using mult_div_mod_eq[of 60 "s div 60"] unfolding m_def by linarith
    moreover have "s = s div 60 * 60 + x" by (simp add: x_def)
    ultimately show ?thesis by metis
  qed
  define D where "D = iso_date (date_of t)"
  have D: "date_fromisoformat D = Some (date_of t)" unfolding D_def using assms by (rule date_of_iso_date)
  then have lD: "length D = 10" by (simp add: date_fromisoformat_def split: if_splits)
  obtain H M X F where p: "H = show_pad 2 (nat h)" "M = show_pad 2 (nat m)" "X = show_pad 2 (nat x)" "F = show_pad 6 (nat f)" by blast
  then have l: "length H = 2" "length M = 2" "length X = 2" "length F = 6" and r: "read_base 10 H = Some (nat h)" "read_base 10 M = Some (nat m)"
    "read_base 10 X = Some (nat x)" "read_base 10 F = Some (nat f)"
    using show_pad_field[of "nat h" 2] show_pad_field[of "nat m" 2] show_pad_field[of "nat x" 2] show_pad_field[of "nat f" 6] hmx sf by simp_all
  have iso: "isoformat t = D @ ''T'' @ H @ '':'' @ M @ '':'' @ X @ (if f = 0 then [] else ''.'' @ F)"
    by (simp add: isoformat_def Let_def D_def p us_def[symmetric] s_def[symmetric] f_def[symmetric] h_def[symmetric] m_def[symmetric] x_def[symmetric])
  have "t = date_of t * us_per_day + us" by (simp add: date_of_def us_def)
  then have t: "date_of t * us_per_day + int ((nat h * 60 + nat m) * 60 + nat x) * 1000000 + int (nat f) = t"
    using sf sum hmx by simp
  have nums: "nat h < 24" "nat m < 60" "nat x < 60" using hmx by simp_all
  show ?thesis
  proof (cases "f = 0")
    case True
    then show ?thesis using t nums by (simp add: iso datetime_fromisoformat_def lD l r D nth_append)
  next
    case False
    then show ?thesis using t nums by (simp add: iso datetime_fromisoformat_def lD l r D nth_append)
  qed
qed

interpretation datetime_text: text_codec isoformat datetime_fromisoformat "\<lambda>t. python_date (date_of t)"
  by unfold_locales (erule datetime_of_isoformat, simp add: isoformat_def Let_def)

section \<open>The archive\<close>

record s3_world =
  s3_ready :: bool
  s3_lists :: bool
  s3_puts :: "nat \<Rightarrow> bool"
  s3_gets :: "nat \<Rightarrow> bool"

type_synonym bucket = "(string, json) dict"

definition ARCHIVE_AGE :: int where "ARCHIVE_AGE = 24 * 3600 * 1000000"
definition OBJECT_PREFIX :: string where "OBJECT_PREFIX = ''audit-log/''"

definition object_key :: "nat \<Rightarrow> string" where
  "object_key i = OBJECT_PREFIX @ pad_left 12 (show_nat i) @ ''.json''"

definition serialize_row :: "audit_log \<Rightarrow> json" where
  "serialize_row r = JObj
    [(''id'', JInt (int (al_id r))), (''actor_type'', JStr (actor_type_value (al_actor_type r))), (''actor_id'', JStr (al_actor_id r)),
     (''action'', JStr (al_action r)), (''entity_type'', JStr (al_entity_type r)), (''entity_id'', opt_json JUuid (al_entity_id r)),
     (''before_state'', opt_json id (al_before_state r)), (''after_state'', opt_json id (al_after_state r)),
     (''prompt_snapshot'', opt_json JStr (al_prompt_snapshot r)), (''ip_address'', opt_json JStr (al_ip_address r)),
     (''created_at'', JStr (isoformat (al_created_at r))), (''entry_hash'', JStr (al_entry_hash r)), (''prev_entry_hash'', JStr (al_prev_entry_hash r))]"

definition archive_row :: "s3_world \<Rightarrow> audit_log \<Rightarrow> bucket \<Rightarrow> bucket option" where
  "archive_row W r b = (if s3_puts W (al_id r) then Some (dict_set (object_key (al_id r)) (serialize_row r) b) else None)"

text \<open>The outer \<open>None\<close> is an exception of the store, the inner one an object that is not there.\<close>
definition fetch_archived_row :: "s3_world \<Rightarrow> bucket \<Rightarrow> nat \<Rightarrow> json option option" where
  "fetch_archived_row W b i = (if s3_gets W i then Some (dict_get b (object_key i)) else None)"

definition key_id :: "string \<Rightarrow> nat option" where
  "key_id k = (let rest = drop (length OBJECT_PREFIX) k in read_base 10 (take (length rest - length ''.json'') rest))"

definition archived_keys :: "bucket \<Rightarrow> string list" where
  "archived_keys b = filter (prefix OBJECT_PREFIX) (map fst b)"

text \<open>\<open>None\<close>: the listing raises, or a key is not that of a row.\<close>
definition list_archived_ids :: "s3_world \<Rightarrow> bucket \<Rightarrow> nat list option" where
  "list_archived_ids W b =
    (if \<not> s3_lists W \<or> list_ex (\<lambda>k. key_id k = None) (archived_keys b) then None
     else Some (map (\<lambda>k. the (key_id k)) (archived_keys b)))"

fun archive_loop :: "s3_world \<Rightarrow> audit_log list \<Rightarrow> nat \<times> nat \<Rightarrow> bucket \<Rightarrow> (nat \<times> nat) \<times> bucket" where
  "archive_loop W [] c b = (c, b)"
| "archive_loop W (r # rs) (n, k) b =
    (case archive_row W r b of Some b1 \<Rightarrow> archive_loop W rs (Suc n, k) b1 | None \<Rightarrow> archive_loop W rs (n, Suc k) b)"

definition archive_pending_rows :: "s3_world \<Rightarrow> timestamp \<Rightarrow> audit_log list \<Rightarrow> bucket \<Rightarrow> (string + nat \<times> nat) \<times> bucket" where
  "archive_pending_rows W now table b =
    (if \<not> s3_ready W then (Inl ''ClientError'', b)
     else
      (let rows = filter (\<lambda>r. al_created_at r < now - ARCHIVE_AGE) (audit_by_id table) in
       if rows = [] then (Inr (0, 0), b)
       else
        (case list_archived_ids W b of
           None \<Rightarrow> (Inl ''ClientError'', b)
         | Some ids \<Rightarrow> (let (c, b1) = archive_loop W (filter (\<lambda>r. al_id r \<notin> set ids) rows) (0, 0) b in (Inr c, b1)))))"

section \<open>The comparison\<close>

text \<open>\<open>str\<close>; what it prints for a list or a dictionary is a parameter.\<close>
definition py_str :: "(real \<Rightarrow> string) \<Rightarrow> (json \<Rightarrow> string) \<Rightarrow> json \<Rightarrow> string" where
  "py_str flt repr v = (case v of JStr s \<Rightarrow> s | JNull \<Rightarrow> ''None'' | JBool b \<Rightarrow> (if b then ''True'' else ''False'') | JInt i \<Rightarrow> show_int i
     | JFloat x \<Rightarrow> flt x | _ \<Rightarrow> repr v)"

text \<open>\<open>get\<close> of a dictionary: a missing key and \<open>null\<close> are the same.\<close>
definition json_field :: "json \<Rightarrow> string \<Rightarrow> json" where
  "json_field j k = (case json_get j k of None \<Rightarrow> JNull | Some v \<Rightarrow> v)"

definition text_field :: "(json \<Rightarrow> string) \<Rightarrow> json \<Rightarrow> string \<Rightarrow> json" where
  "text_field str j k = (if json_field j k = JNull then JNull else JStr (str (json_field j k)))"

text \<open>The input of the hash, from the archived copy alone; \<open>None\<close> if a field is missing or cannot be read.\<close>
definition archived_input :: "(real \<Rightarrow> string) \<Rightarrow> (json \<Rightarrow> string) \<Rightarrow> json \<Rightarrow> string option" where
  "archived_input flt repr j =
    (let str = py_str flt repr in
     case (json_get j ''actor_type'', json_get j ''actor_id'', json_get j ''action'', json_get j ''entity_type'', json_get j ''created_at'',
           json_get j ''prev_entry_hash'') of
       (Some actor_type, Some actor_id, Some action, Some entity_type, Some created, Some prev) \<Rightarrow>
         (case (if json_field j ''entity_id'' = JNull then Some JNull else map_option JUuid (uuid_of_str (str (json_field j ''entity_id''))),
                datetime_fromisoformat (str created)) of
            (Some entity_id, Some t) \<Rightarrow>
              Some (json_dumps flt (JObj
               [(''actor_type'', JStr (str actor_type)), (''actor_id'', JStr (str actor_id)), (''action'', JStr (str action)),
                (''entity_type'', JStr (str entity_type)), (''entity_id'', entity_id), (''before_state'', json_field j ''before_state''),
                (''after_state'', json_field j ''after_state''), (''prompt_snapshot'', text_field str j ''prompt_snapshot''),
                (''ip_address'', text_field str j ''ip_address''), (''created_at'', JStr (isoformat t))]) @ str prev)
          | _ \<Rightarrow> None)
     | _ \<Rightarrow> None)"

record divergence_report =
  dr_live :: chain_verification_result
  dr_archive_broken_ids :: "nat list"
  dr_archived_rows_checked :: nat
  dr_diverged_ids :: "nat list"

definition report_ok :: "divergence_report \<Rightarrow> bool" where
  "report_ok rep \<longleftrightarrow> cvr_valid (dr_live rep) \<and> dr_archive_broken_ids rep = [] \<and> dr_diverged_ids rep = []"

text \<open>One archived row: the archive is broken there, the live row diverges, or neither.\<close>
datatype row_verdict = Row_gone | Row_broken | Row_diverged | Row_agrees

definition check_row ::
  "(string \<Rightarrow> string) \<Rightarrow> (real \<Rightarrow> string) \<Rightarrow> (json \<Rightarrow> string) \<Rightarrow> s3_world \<Rightarrow> bucket \<Rightarrow> audit_log list \<Rightarrow> nat \<Rightarrow> row_verdict option" where
  "check_row sha flt repr W b table i =
    (case fetch_archived_row W b i of
       None \<Rightarrow> None
     | Some None \<Rightarrow> Some Row_gone
     | Some (Some j) \<Rightarrow>
        (case (archived_input flt repr j, json_get j ''entry_hash'') of
           (Some input, Some h) \<Rightarrow>
             if JStr (sha input) \<noteq> h then Some Row_broken
             else (case row_by al_id i table of
                     Some r \<Rightarrow> if JStr (al_entry_hash r) \<noteq> h then Some Row_diverged else Some Row_agrees
                   | None \<Rightarrow> Some Row_agrees)
         | _ \<Rightarrow> None))"

fun check_rows ::
  "(nat \<Rightarrow> row_verdict option) \<Rightarrow> nat list \<Rightarrow> divergence_report \<Rightarrow> divergence_report option" where
  "check_rows check [] rep = Some rep"
| "check_rows check (i # is) rep =
    (case check i of
       None \<Rightarrow> None
     | Some Row_gone \<Rightarrow> check_rows check is rep
     | Some v \<Rightarrow> check_rows check is (rep\<lparr>dr_archived_rows_checked := Suc (dr_archived_rows_checked rep),
         dr_archive_broken_ids := (if v = Row_broken then dr_archive_broken_ids rep @ [i] else dr_archive_broken_ids rep),
         dr_diverged_ids := (if v = Row_diverged then dr_diverged_ids rep @ [i] else dr_diverged_ids rep)\<rparr>))"

text \<open>\<open>None\<close>: an exception, which the scheduled job reports as its failure.\<close>
definition run_divergence_check ::
  "(string \<Rightarrow> string) \<Rightarrow> (real \<Rightarrow> string) \<Rightarrow> (json \<Rightarrow> string) \<Rightarrow> s3_world \<Rightarrow> audit_log list \<Rightarrow> bucket \<Rightarrow> divergence_report option" where
  "run_divergence_check sha flt repr W table b =
    (case list_archived_ids W b of
       None \<Rightarrow> None
     | Some ids \<Rightarrow> check_rows (check_row sha flt repr W b table) (sort (remdups ids))
         \<lparr>dr_live = verify_chain sha flt table, dr_archive_broken_ids = [], dr_archived_rows_checked = 0, dr_diverged_ids = []\<rparr>)"

definition show_ids :: "nat list \<Rightarrow> string" where
  "show_ids is = ''['' @ join '', '' (map show_nat is) @ '']''"

definition format_divergence_alert :: "divergence_report \<Rightarrow> string" where
  "format_divergence_alert rep = join [CHR 0x0A]
    ([''TradingOS AUDIT CHAIN DIVERGENCE DETECTED (SEC-040)'']
     @ (if cvr_valid (dr_live rep) then []
        else [''- Live table chain broken at id='' @ (case cvr_first_broken_id (dr_live rep) of None \<Rightarrow> ''None'' | Some i \<Rightarrow> show_nat i)])
     @ (if dr_archive_broken_ids rep = [] then [] else [''- WORM archive self-consistency broken at id(s)='' @ show_ids (dr_archive_broken_ids rep)])
     @ (if dr_diverged_ids rep = [] then [] else [''- Live/archive entry_hash divergence at id(s)='' @ show_ids (dr_diverged_ids rep)]))"


section \<open>What the archive keeps\<close>

lemma key_id_object_key [simp]: "key_id (object_key i) = Some i"
  using read_base_pad[of 10 12 i] by (simp add: key_id_def object_key_def show_nat_def)

lemma object_key_inject [simp]: "object_key i = object_key j \<longleftrightarrow> i = j"
  by (metis key_id_object_key option.inject)

lemma prefix_object_key [simp]: "prefix OBJECT_PREFIX (object_key i)"
  by (simp add: object_key_def)

definition archived :: "bucket \<Rightarrow> nat set" where
  "archived b = {i. object_key i \<in> fst ` set b}"

text \<open>Only the archive job writes to the bucket.\<close>
definition bucket_ok :: "bucket \<Rightarrow> bool" where
  "bucket_ok b \<longleftrightarrow> (\<forall>k \<in> fst ` set b. \<exists>i. k = object_key i)"

lemma listed_ids:
  assumes "bucket_ok b" "s3_lists W"
  shows "\<exists>ids. list_archived_ids W b = Some ids \<and> set ids = archived b"
proof -
  have "archived_keys b = map fst b" using assms(1) by (auto simp: archived_keys_def bucket_ok_def filter_id_conv)
  moreover have "key_id k \<noteq> None" if "k \<in> fst ` set b" for k using assms(1) that by (force simp: bucket_ok_def)
  moreover have "(\<lambda>k. the (key_id k)) ` fst ` set b = archived b"
    using assms(1) by (force simp: archived_def bucket_ok_def image_iff)
  ultimately show ?thesis using assms(2) by (auto simp: list_archived_ids_def list_ex_iff)
qed

lemma archive_loop_spec:
  assumes "distinct (map al_id rs)"
  shows "dict_get (snd (archive_loop W rs c b)) (object_key i) =
      (case row_by al_id i rs of Some r \<Rightarrow> if s3_puts W i then Some (serialize_row r) else dict_get b (object_key i) | None \<Rightarrow> dict_get b (object_key i))
    \<and> fst ` set (snd (archive_loop W rs c b)) = fst ` set b \<union> object_key ` {al_id r | r. r \<in> set rs \<and> s3_puts W (al_id r)}
    \<and> fst (fst (archive_loop W rs c b)) = fst c + length (filter (\<lambda>r. s3_puts W (al_id r)) rs)
    \<and> snd (fst (archive_loop W rs c b)) = snd c + length (filter (\<lambda>r. \<not> s3_puts W (al_id r)) rs)"
  using assms
proof (induction rs arbitrary: c b)
  case (Cons r rs)
  obtain n k where c: "c = (n, k)" by (cases c)
  have new: "row_by al_id (al_id r) rs = None" using Cons.prems by (auto simp: row_by_None_iff)
  show ?case
  proof (cases "s3_puts W (al_id r)")
    case True
    then show ?thesis using Cons.IH[of "(Suc n, k)" "dict_set (object_key (al_id r)) (serialize_row r) b"] Cons.prems new
      by (auto simp: c archive_row_def dict_get_set dict_keys_set split: option.split)
  next
    case False
    then show ?thesis using Cons.IH[of "(n, Suc k)" b] Cons.prems new
      by (auto simp: c archive_row_def split: option.split)
  qed
qed simp

text \<open>
  An object of the archive is never written again, every row older than a day whose upload succeeds is in it
  afterwards, and no younger row is added.
\<close>
theorem archive_writes_once:
  assumes "bucket_ok b" and "s3_ready W" and "s3_lists W" and "distinct (map al_id table)"
  shows "\<exists>n k b'. archive_pending_rows W now table b = (Inr (n, k), b') \<and> bucket_ok b'
    \<and> (\<forall>i \<in> archived b. dict_get b' (object_key i) = dict_get b (object_key i))
    \<and> archived b' = archived b \<union> {al_id r | r. r \<in> set table \<and> al_created_at r < now - ARCHIVE_AGE \<and> s3_puts W (al_id r)}
    \<and> (\<forall>r \<in> set table. al_created_at r < now - ARCHIVE_AGE \<and> al_id r \<notin> archived b \<and> s3_puts W (al_id r) \<longrightarrow>
         dict_get b' (object_key (al_id r)) = Some (serialize_row r))
    \<and> n + k = card {al_id r | r. r \<in> set table \<and> al_created_at r < now - ARCHIVE_AGE \<and> al_id r \<notin> archived b}"
proof -
  obtain ids where ids: "list_archived_ids W b = Some ids" "set ids = archived b" using listed_ids[OF assms(1,3)] by blast
  define rows where "rows = filter (\<lambda>r. al_created_at r < now - ARCHIVE_AGE) (audit_by_id table)"
  define pend where "pend = filter (\<lambda>r. al_id r \<notin> set ids) rows"
  have "distinct (map al_id (audit_by_id table))"
    using assms(4) by (simp add: audit_by_id_def distinct_map)
  then have dist: "distinct (map al_id pend)" by (simp add: pend_def rows_def distinct_map_filter)
  have pset: "set pend = {r \<in> set table. al_created_at r < now - ARCHIVE_AGE \<and> al_id r \<notin> archived b}"
    by (auto simp: pend_def rows_def ids)
  note loop = archive_loop_spec[OF dist, of W "(0, 0)" b]
  define res where "res = archive_loop W pend (0, 0) b"
  have run: "archive_pending_rows W now table b = (Inr (fst res), snd res)"
    using assms(2) ids by (auto simp: archive_pending_rows_def rows_def[symmetric] pend_def[symmetric] res_def case_prod_unfold Let_def)
      (simp_all add: pend_def)
  have keys: "fst ` set (snd res) = fst ` set b \<union> object_key ` {al_id r | r. r \<in> set pend \<and> s3_puts W (al_id r)}"
    using loop[of "0"] by (simp add: res_def)
  have count: "fst (fst res) + snd (fst res) = length pend"
    using loop sum_length_filter_compl[of "\<lambda>r. s3_puts W (al_id r)" pend] by (simp add: res_def)
  have "length pend = card (al_id ` set pend)" using dist distinct_card[of "map al_id pend"] by simp
  then have n: "fst (fst res) + snd (fst res) = card {al_id r | r. r \<in> set table \<and> al_created_at r < now - ARCHIVE_AGE \<and> al_id r \<notin> archived b}"
    using count by (simp add: pset image_Collect Setcompr_eq_image conj_ac)
  have ok: "bucket_ok (snd res)" using assms(1) keys by (auto simp: bucket_ok_def)
  have arch: "archived (snd res) = archived b \<union> {al_id r | r. r \<in> set table \<and> al_created_at r < now - ARCHIVE_AGE \<and> s3_puts W (al_id r)}"
    unfolding archived_def keys using pset by (auto simp: archived_def)
  have old: "dict_get (snd res) (object_key i) = dict_get b (object_key i)" if "i \<in> archived b" for i
  proof -
    have "row_by al_id i pend = None" using that pset by (auto simp: row_by_None_iff)
    then show ?thesis using loop[of i] by (simp add: res_def)
  qed
  have new: "dict_get (snd res) (object_key (al_id r)) = Some (serialize_row r)" if "r \<in> set pend" "s3_puts W (al_id r)" for r
    using loop[of "al_id r"] row_by_distinct[OF dist that(1)] that by (simp add: res_def)
  show ?thesis
    by (rule exI[of _ "fst (fst res)"], rule exI[of _ "snd (fst res)"], rule exI[of _ "snd res"])
      (use run ok old arch new n pset in auto)
qed


section \<open>What the comparison finds\<close>

text \<open>The archived copy of a row gives the input of its hash back.\<close>
lemma archived_input_serialize:
  assumes "python_date (date_of (al_created_at r))" and "\<forall>i. al_entity_id r = Some i \<longrightarrow> i < 2 ^ 128"
  shows "archived_input flt repr (serialize_row r) = Some (canonical_payload flt r @ al_prev_entry_hash r)"
proof -
  have entity: "(if opt_json JUuid (al_entity_id r) = JNull then Some JNull
      else map_option JUuid (uuid_of_str (py_str flt repr (opt_json JUuid (al_entity_id r))))) = Some (opt_json JUuid (al_entity_id r))"
    using assms(2) by (cases "al_entity_id r") (simp_all add: opt_json_def py_str_def uuid_text.reads_back)
  have created: "datetime_fromisoformat (isoformat (al_created_at r)) = Some (al_created_at r)"
    using datetime_text.reads_back[OF assms(1)] .
  have field: "json_field (serialize_row r) ''entity_id'' = opt_json JUuid (al_entity_id r)"
    "json_field (serialize_row r) ''before_state'' = opt_json id (al_before_state r)"
    "json_field (serialize_row r) ''after_state'' = opt_json id (al_after_state r)"
    "json_field (serialize_row r) ''prompt_snapshot'' = opt_json JStr (al_prompt_snapshot r)"
    "json_field (serialize_row r) ''ip_address'' = opt_json JStr (al_ip_address r)"
    by (simp_all add: serialize_row_def json_field_def json_get_def)
  have get: "json_get (serialize_row r) ''actor_type'' = Some (JStr (actor_type_value (al_actor_type r)))"
    "json_get (serialize_row r) ''actor_id'' = Some (JStr (al_actor_id r))"
    "json_get (serialize_row r) ''action'' = Some (JStr (al_action r))"
    "json_get (serialize_row r) ''entity_type'' = Some (JStr (al_entity_type r))"
    "json_get (serialize_row r) ''created_at'' = Some (JStr (isoformat (al_created_at r)))"
    "json_get (serialize_row r) ''prev_entry_hash'' = Some (JStr (al_prev_entry_hash r))"
    by (simp_all add: serialize_row_def json_get_def)
  have texts: "text_field (py_str flt repr) (serialize_row r) ''prompt_snapshot'' = opt_json JStr (al_prompt_snapshot r)"
    "text_field (py_str flt repr) (serialize_row r) ''ip_address'' = opt_json JStr (al_ip_address r)"
    by (cases "al_prompt_snapshot r"; cases "al_ip_address r"; simp add: text_field_def field opt_json_def py_str_def)+
  have str: "py_str flt repr (JStr x) = x" for x by (simp add: py_str_def)
  show ?thesis
    unfolding archived_input_def Let_def field get texts str option.case prod.case entity created canonical_payload_def by (rule refl)
qed

lemma check_rows_spec:
  "check_rows check is rep =
    (if \<exists>i \<in> set is. check i = None then None
     else Some (rep\<lparr>dr_archived_rows_checked := dr_archived_rows_checked rep + length (filter (\<lambda>i. check i \<noteq> Some Row_gone) is),
       dr_archive_broken_ids := dr_archive_broken_ids rep @ filter (\<lambda>i. check i = Some Row_broken) is,
       dr_diverged_ids := dr_diverged_ids rep @ filter (\<lambda>i. check i = Some Row_diverged) is\<rparr>))"
proof (induction "is" arbitrary: rep)
  case (Cons i "is")
  show ?case
  proof (cases "check i")
    case (Some v)
    then show ?thesis using Cons.IH by (cases v) simp_all
  qed simp
qed simp

lemma report_ok_iff:
  assumes "run_divergence_check sha flt repr W table b = Some rep" and "list_archived_ids W b = Some ids"
  shows "report_ok rep \<longleftrightarrow> chain_ok sha flt table \<and> (\<forall>i \<in> set ids. check_row sha flt repr W b table i \<in> {Some Row_gone, Some Row_agrees})"
proof -
  let ?check = "check_row sha flt repr W b table"
  have none: "\<forall>i \<in> set ids. ?check i \<noteq> None" and rep: "cvr_valid (dr_live rep) = chain_ok sha flt table"
      "dr_archive_broken_ids rep = filter (\<lambda>i. ?check i = Some Row_broken) (sort (remdups ids))"
      "dr_diverged_ids rep = filter (\<lambda>i. ?check i = Some Row_diverged) (sort (remdups ids))"
    using assms by (auto simp: run_divergence_check_def check_rows_spec verify_chain_iff split: if_splits)
  have "?check i \<in> {Some Row_gone, Some Row_agrees} \<longleftrightarrow> ?check i \<noteq> Some Row_broken \<and> ?check i \<noteq> Some Row_diverged" if "?check i \<noteq> None" for i
    using that by (cases "?check i") (auto, metis row_verdict.exhaust)
  then show ?thesis using none unfolding report_ok_def rep filter_empty_conv by auto
qed

lemma report_checked:
  assumes "run_divergence_check sha flt repr W table b = Some rep" and "list_archived_ids W b = Some ids"
  shows "dr_archived_rows_checked rep = length (filter (\<lambda>i. check_row sha flt repr W b table i \<noteq> Some Row_gone) (sort (remdups ids)))"
  using assms by (auto simp: run_divergence_check_def check_rows_spec split: if_splits)

text \<open>C9. If the nightly comparison reports no problem and the hash has no collision between the inputs it compares,
  then every archived copy of a row that is still in the live log holds exactly the content and the predecessor of
  that live row: an edit on either side, even one that recomputes the hashes of its own side, is found.\<close>
theorem clean_report_means_equal_content:
  assumes "run_divergence_check sha flt repr W table b = Some rep" and "report_ok rep" and "bucket_ok b" and "s3_lists W"
    and "distinct (map al_id table)"
    and "inj_on sha (row_input flt ` set table \<union> {x. \<exists>i j. dict_get b (object_key i) = Some j \<and> archived_input flt repr j = Some x})"
    and "r \<in> set table" and "dict_get b (object_key (al_id r)) = Some j"
  shows "archived_input flt repr j = Some (row_input flt r)"
proof -
  obtain ids where ids: "list_archived_ids W b = Some ids" "set ids = archived b" using listed_ids[OF assms(3,4)] by blast
  have "al_id r \<in> archived b" using assms(8) by (force simp: archived_def dest: map_of_SomeD)
  then have c: "check_row sha flt repr W b table (al_id r) \<in> {Some Row_gone, Some Row_agrees}" "chain_ok sha flt table"
    using report_ok_iff[OF assms(1) ids(1)] assms(2) ids(2) by auto
  have row: "row_by al_id (al_id r) table = Some r" by (rule row_by_distinct) (use assms in simp_all)
  obtain input where i: "archived_input flt repr j = Some input" "sha input = al_entry_hash r"
    using c(1) row assms(8) by (auto simp: check_row_def fetch_archived_row_def split: if_splits option.splits)
  have "al_entry_hash r = sha (row_input flt r)"
  proof -
    have "chained sha flt prev rs \<Longrightarrow> r \<in> set rs \<Longrightarrow> al_entry_hash r = sha (row_input flt r)" for prev rs
      by (induction rs arbitrary: prev) (auto simp: row_input_def)
    then show ?thesis using c(2) assms(7) by (auto simp: chain_ok_def)
  qed
  then have "sha (row_input flt r) = sha input" using i(2) by simp
  moreover have "row_input flt r \<in> row_input flt ` set table" using assms(7) by (rule imageI)
  moreover have "\<exists>k j. dict_get b (object_key k) = Some j \<and> archived_input flt repr j = Some input" using i(1) assms(8) by blast
  ultimately have "row_input flt r = input" using inj_onD[OF assms(6)] by blast
  then show ?thesis using i by simp
qed

text \<open>C10. Removing the newest rows of the live log is not found, even when the archive holds them: a log of which only
  the first rows are left passes the comparison whenever the whole log does, with the same number of archived rows
  checked.\<close>
theorem truncated_log_passes_check:
  assumes "run_divergence_check sha flt repr W table b = Some rep" and "report_ok rep" and "distinct (map al_id table)"
  shows "\<exists>rep'. run_divergence_check sha flt repr W (take n (audit_by_id table)) b = Some rep' \<and> report_ok rep'
    \<and> dr_archived_rows_checked rep' = dr_archived_rows_checked rep"
proof -
  let ?t = "take n (audit_by_id table)"
  obtain ids where ids: "list_archived_ids W b = Some ids" using assms(1) by (auto simp: run_divergence_check_def split: option.splits)
  have ok: "chain_ok sha flt table" "\<forall>i \<in> set ids. check_row sha flt repr W b table i \<in> {Some Row_gone, Some Row_agrees}"
    using report_ok_iff[OF assms(1) ids] assms(2) by auto
  have sorted: "sorted (map al_id ?t)" by (simp add: audit_by_id_def take_map[symmetric] sorted_wrt_take)
  then have t: "audit_by_id ?t = ?t" unfolding audit_by_id_def by (rule sort_key_id_if_sorted)
  have chain: "chain_ok sha flt ?t"
    using ok(1) chained_append[of sha flt GENESIS_PREV_HASH ?t "drop n (audit_by_id table)"] unfolding chain_ok_def t by simp
  have live: "row_by al_id i ?t = Some r \<Longrightarrow> row_by al_id i table = Some r" for i r
    using row_by_SomeD[of al_id i ?t r] row_by_distinct[OF assms(3), of r] set_take_subset[of n "audit_by_id table"] by auto
  have same: "check_row sha flt repr W b ?t i = check_row sha flt repr W b table i" if "i \<in> set ids" for i
  proof -
    have "check_row sha flt repr W b table i \<in> {Some Row_gone, Some Row_agrees}" using ok(2) that by blast
    then show ?thesis using live[of i] by (auto simp: check_row_def split: option.splits if_splits)
  qed
  have "check_rows (check_row sha flt repr W b ?t) (sort (remdups ids)) x \<noteq> None" for x
    using ok(2) same by (auto simp: check_rows_spec)
  then obtain rep' where rep': "run_divergence_check sha flt repr W ?t b = Some rep'"
    by (auto simp: run_divergence_check_def ids)
  have "report_ok rep'" using report_ok_iff[OF rep' ids] chain ok(2) same by auto
  moreover have "dr_archived_rows_checked rep' = dr_archived_rows_checked rep"
    unfolding report_checked[OF rep' ids] report_checked[OF assms(1) ids]
    by (intro arg_cong[of _ _ length] filter_cong) (simp_all add: same)
  ultimately show ?thesis using rep' by blast
qed


text \<open>A log of one row with its archived copy; the hash is the identity.\<close>
definition archived_sample :: audit_log where
  "archived_sample = (sample_audit_row 1)\<lparr>al_entry_hash := row_input (\<lambda>_. []) (sample_audit_row 1)\<rparr>"

definition sample_bucket :: bucket where "sample_bucket = [(object_key 1, serialize_row archived_sample)]"

definition open_store :: s3_world where
  "open_store = \<lparr>s3_ready = True, s3_lists = True, s3_puts = (\<lambda>_. True), s3_gets = (\<lambda>_. True)\<rparr>"

lemma sample_bucket_ok: "bucket_ok sample_bucket" "s3_lists open_store" by (auto simp: sample_bucket_def bucket_ok_def open_store_def)

lemma sample_input: "archived_input (\<lambda>_. []) (\<lambda>_. []) (serialize_row archived_sample) = Some (row_input (\<lambda>_. []) archived_sample)"
proof -
  have "python_date (date_of (al_created_at archived_sample))"
    by (simp add: archived_sample_def sample_audit_row_def) code_simp
  moreover have "al_entity_id archived_sample = None" by (simp add: archived_sample_def sample_audit_row_def)
  ultimately show ?thesis using archived_input_serialize[of archived_sample "\<lambda>_. []" "\<lambda>_. []"] by (simp add: row_input_def)
qed

lemma sample_report:
  "\<exists>rep. run_divergence_check (\<lambda>x. x) (\<lambda>_. []) (\<lambda>_. []) open_store [archived_sample] sample_bucket = Some rep \<and> report_ok rep
    \<and> dr_archived_rows_checked rep = 1"
proof -
  have id: "al_id archived_sample = 1" by (simp add: archived_sample_def sample_audit_row_def)
  have hash: "al_entry_hash archived_sample = row_input (\<lambda>_. []) archived_sample"
    by (simp add: archived_sample_def row_input_def canonical_payload_def)
  have json: "json_get (serialize_row archived_sample) ''entry_hash'' = Some (JStr (al_entry_hash archived_sample))"
    by (simp add: serialize_row_def json_get_def)
  have prev: "al_prev_entry_hash archived_sample = GENESIS_PREV_HASH" by (simp add: archived_sample_def sample_audit_row_def)
  have ids: "list_archived_ids open_store sample_bucket = Some [1]"
    by (simp add: list_archived_ids_def archived_keys_def sample_bucket_def open_store_def)
  have check: "check_row (\<lambda>x. x) (\<lambda>_. []) (\<lambda>_. []) open_store sample_bucket [archived_sample] 1 = Some Row_agrees"
    using id hash json sample_input by (simp add: check_row_def fetch_archived_row_def open_store_def sample_bucket_def)
  have chain: "chain_ok (\<lambda>x. x) (\<lambda>_. []) [archived_sample]"
    using hash prev by (simp add: chain_ok_def audit_by_id_def row_input_def)
  show ?thesis using chain by (simp add: run_divergence_check_def ids check[unfolded One_nat_def] report_ok_def verify_chain_iff)
qed

theorem clean_report_means_equal_content_witness:
  "archived_input (\<lambda>_. []) (\<lambda>_. []) (serialize_row archived_sample) = Some (row_input (\<lambda>_. []) archived_sample)"
proof -
  obtain rep where "run_divergence_check (\<lambda>x. x) (\<lambda>_. []) (\<lambda>_. []) open_store [archived_sample] sample_bucket = Some rep" "report_ok rep"
    using sample_report by blast
  from clean_report_means_equal_content[OF this sample_bucket_ok, of archived_sample "serialize_row archived_sample"]
  show ?thesis by (simp add: sample_bucket_def archived_sample_def sample_audit_row_def)
qed

theorem truncated_log_passes_check_witness:
  "\<exists>rep. run_divergence_check (\<lambda>x. x) (\<lambda>_. []) (\<lambda>_. []) open_store [] sample_bucket = Some rep \<and> report_ok rep
    \<and> dr_archived_rows_checked rep = 1"
proof -
  obtain rep where r: "run_divergence_check (\<lambda>x. x) (\<lambda>_. []) (\<lambda>_. []) open_store [archived_sample] sample_bucket = Some rep" "report_ok rep"
    "dr_archived_rows_checked rep = 1"
    using sample_report by blast
  show ?thesis using truncated_log_passes_check[OF r(1,2), of 0] r(3) by simp
qed

end
