(* ===== verification/ScheduledJobs.thy ===== *)
theory ScheduledJobs
  imports DataLake Freshness AgentRegistry RunManager TaskEngine AuditArchive
begin

text \<open>
  The scheduled jobs (\<open>src/agents/scheduler.py\<close>) and their requests (\<open>src/api/routers/scheduled_jobs.py\<close>): the bodies of
  the jobs with the datasets they report on, the registry, the schedule table, the rows of the executions, and the
  live scheduler. The library APScheduler is a record of operations; what the code relies on is
  \<open>documented_scheduler\<close>.
\<close>

section \<open>Results\<close>

datatype job_status = JobCompleted | JobFailed | JobSkipped

definition job_status_value :: "job_status \<Rightarrow> string" where
  "job_status_value s = (case s of JobCompleted \<Rightarrow> ''Completed'' | JobFailed \<Rightarrow> ''Failed'' | JobSkipped \<Rightarrow> ''Skipped'')"

record job_result =
  jr_status :: job_status
  jr_summary :: string

definition completed :: "string \<Rightarrow> job_result" where "completed s = \<lparr>jr_status = JobCompleted, jr_summary = s\<rparr>"
definition failed :: "string \<Rightarrow> job_result" where "failed s = \<lparr>jr_status = JobFailed, jr_summary = s\<rparr>"
definition skipped :: "string \<Rightarrow> job_result" where "skipped s = \<lparr>jr_status = JobSkipped, jr_summary = s\<rparr>"

text \<open>The tables and files the jobs read and write.\<close>
record job_state =
  js_db :: db
  js_ingest :: ingest_state
  js_actions :: "corporate_action list"
  js_bucket :: bucket

text \<open>What a firing finds outside: feeds, models, stores and brokers; \<open>Inl\<close> is the text of an exception.\<close>
record backup_result =
  br_found :: nat
  br_backed_up :: nat
  br_root :: string
  br_failures :: nat

datatype shadow_attempt = Shadow_no_broker | Shadow_row string bool | Shadow_raises string

record job_world =
  jw_env :: env
  jw_tenant :: nat
  jw_net :: market_net
  jw_settings :: market_settings
  jw_download :: "string + json list"
  jw_universes :: "string list option list"
  jw_actions_csv :: "string + (string, string) dict list"
  jw_news :: "string + string list"
  jw_score :: "string list \<Rightarrow> string + string list"
  jw_paper_cycle :: "string + nat"
  jw_broker :: "string option + unit"
  jw_snapshot :: "string + real option"
  jw_archive_memories :: "string + string list"
  jw_lessons :: "string + string"
  jw_shadow_symbols :: "string + (string, string option) dict"
  jw_shadow_attempt :: "string \<Rightarrow> string \<Rightarrow> shadow_attempt"
  jw_s3 :: s3_world
  jw_repr :: "json \<Rightarrow> string"
  jw_ops_alert :: "string + unit"
  jw_backup :: "string + backup_result"
  jw_catalog :: "string + string list \<times> string"

type_synonym job = "job_world \<Rightarrow> job_state \<Rightarrow> (string + job_result) \<times> job_state"

text \<open>A job whose whole body is in a try block reports any exception as a failure.\<close>
definition reported :: "string + job_result \<Rightarrow> string + job_result" where
  "reported r = Inr (case r of Inl e \<Rightarrow> failed e | Inr x \<Rightarrow> x)"

definition record_dataset :: "job_world \<Rightarrow> string \<Rightarrow> bool \<Rightarrow> bool \<Rightarrow> bool \<Rightarrow> string \<Rightarrow> job_state \<Rightarrow> job_state" where
  "record_dataset w nm success checksum_ok has_data detail st =
    st\<lparr>js_db := snd (snd (record_ingestion_result (jw_env w) nm success checksum_ok has_data (Some detail) (js_db st)))\<rparr>"

section \<open>The daily research cycle\<close>

definition RESEARCH_OBJECTIVE :: string where
  "RESEARCH_OBJECTIVE = ''prepare tomorrow'' @ [CHR 0x27] @ ''s trading research''"

definition stale_text :: "lake \<Rightarrow> int \<Rightarrow> string \<Rightarrow> string" where
  "stale_text L today s = s @ '' (latest='' @ (case latest_date L s of None \<Rightarrow> ''None'' | Some d \<Rightarrow> iso_date d)
    @ '', expected>='' @ iso_date (previous_trading_day today) @ '')''"

definition run_daily_research_cycle :: job where
  "run_daily_research_cycle w st =
    (let L = ig_lake (js_ingest st); symbols = list_symbols L; today = e_today (jw_env w) in
     if symbols = [] then (Inr (skipped ''no symbols ingested''), st)
     else if require_fresh L symbols today \<noteq> [] then
       (Inr (skipped (''data not fresh: Data lake is stale for: '' @ join '', '' (map (stale_text L today) (require_fresh L symbols today)))), st)
     else
      (let (run, _, d) = create_run (jw_env w) RESEARCH_OBJECTIVE SRC_SCHEDULE None (jw_tenant w) True (js_db st)
       in (Inr (completed (''organisation run '' @ uuid_str (run_id run) @ '' created for '' @ show_nat (length symbols) @ '' symbol(s)'')),
           st\<lparr>js_db := d\<rparr>)))"

section \<open>Ingestion\<close>

definition run_corporate_actions_ingestion :: job where
  "run_corporate_actions_ingestion w st =
    (if \<not> is_agent_enabled (js_db st) ''data_ingestion_agent'' then (Inr (skipped ''data_ingestion_agent disabled''), st)
     else
      (case (case jw_actions_csv w of Inl e \<Rightarrow> (Inl e, js_actions st) | Inr rows \<Rightarrow> write_corporate_actions rows (js_actions st)) of
         (Inl e, _) \<Rightarrow> (Inr (failed e), record_dataset w ''corporate_actions'' False False False e st)
       | (Inr n, actions) \<Rightarrow>
          (let text = show_nat n @ '' row(s) written''
           in (Inr (completed text), record_dataset w ''corporate_actions'' True True True text (st\<lparr>js_actions := actions\<rparr>)))))"

definition ingestion_text :: "ingestion_summary \<Rightarrow> string" where
  "ingestion_text sm = ''backfilled='' @ show_nat (length (is_backfilled sm)) @ '' topped_up='' @ show_nat (length (is_topped_up sm))
    @ '' failed='' @ show_nat (length (is_failed sm))"

definition run_market_data_ingestion :: job where
  "run_market_data_ingestion w st =
    (if is_trading_holiday (e_today (jw_env w)) then (Inr (skipped ''not a trading day''), st)
     else if \<not> is_agent_enabled (js_db st) ''data_ingestion_agent'' then (Inr (skipped ''data_ingestion_agent disabled''), st)
     else
      (let (res, ig) = run_incremental_ingestion (jw_net w) (jw_settings w) (jw_download w) (jw_universes w) (e_today (jw_env w))
             (e_now (jw_env w)) (js_ingest st);
           st1 = st\<lparr>js_ingest := ig\<rparr>
       in case res of
            Inl e \<Rightarrow> (Inr (failed e), record_dataset w ''ohlcv_daily'' False False False e st1)
          | Inr sm \<Rightarrow>
             (let clean = (is_failed sm = [])
              in (Inr (completed (ingestion_text sm)), record_dataset w ''ohlcv_daily'' True clean clean (ingestion_text sm) st1))))"

definition news_text :: "string list \<Rightarrow> string list \<Rightarrow> string" where
  "news_text items ids = ''items_ingested='' @ show_nat (length items) @ '' items_scored='' @ show_nat (length ids)"

definition run_news_sentiment_cycle :: job where
  "run_news_sentiment_cycle w st =
    (let news_enabled = is_agent_enabled (js_db st) ''news_agent''; sentiment_enabled = is_agent_enabled (js_db st) ''sentiment_agent'' in
     case (if news_enabled then jw_news w else Inr []) of
       Inl e \<Rightarrow> (Inr (failed e), record_dataset w ''news'' False False False e st)
     | Inr items \<Rightarrow>
        (case (if sentiment_enabled \<and> items \<noteq> [] then jw_score w items else Inr []) of
           Inl e \<Rightarrow> (Inr (failed e), record_dataset w ''news'' False False False e st)
         | Inr ids \<Rightarrow>
            (Inr (completed (news_text items ids)),
             record_dataset w ''news'' (news_enabled \<and> sentiment_enabled) True (ids \<noteq> []) (news_text items ids) st)))"

section \<open>The other jobs\<close>

definition run_paper_trading_job :: job where
  "run_paper_trading_job w st = (reported (case jw_paper_cycle w of Inl e \<Rightarrow> Inl e | Inr n \<Rightarrow> Inr (completed (''strategy_count='' @ show_nat n))), st)"

text \<open>Building the broker is outside the try block: \<open>Inl None\<close> is no configured broker, any other exception escapes.\<close>
definition run_equity_snapshot_job :: job where
  "run_equity_snapshot_job w st =
    (if is_trading_holiday (e_today (jw_env w)) then (Inr (skipped ''not a trading day''), st)
     else
      (case jw_broker w of
         Inl None \<Rightarrow> (Inr (skipped ''no broker configured''), st)
       | Inl (Some e) \<Rightarrow> (Inl e, st)
       | Inr _ \<Rightarrow>
          (reported (case jw_snapshot w of Inl e \<Rightarrow> Inl e
             | Inr x \<Rightarrow> Inr (completed (''equity='' @ (case x of None \<Rightarrow> ''None'' | Some v \<Rightarrow> e_float_repr (jw_env w) v)))), st)))"

definition run_weekend_memory_consolidation :: job where
  "run_weekend_memory_consolidation w st =
    (if \<not> is_agent_enabled (js_db st) ''memory_agent'' then (Inr (skipped ''memory_agent disabled''), st)
     else
      (reported (case jw_archive_memories w of Inl e \<Rightarrow> Inl e
         | Inr points \<Rightarrow> (case jw_lessons w of Inl e \<Rightarrow> Inl e
             | Inr text \<Rightarrow> Inr (completed (''archived_count='' @ show_nat (length points) @ '' summary_length='' @ show_nat (length text))))), st))"

fun shadow_outcomes :: "(string \<Rightarrow> string \<Rightarrow> shadow_attempt) \<Rightarrow> (string, string option) dict \<Rightarrow> string + string list" where
  "shadow_outcomes attempt [] = Inr []"
| "shadow_outcomes attempt ((broker, symbol) # rest) =
    (case (case symbol of None \<Rightarrow> Shadow_no_broker | Some s \<Rightarrow> attempt broker s) of
       Shadow_raises e \<Rightarrow> Inl e
     | Shadow_no_broker \<Rightarrow> map_sum id (\<lambda>xs. (broker @ '': not configured, skipped'') # xs) (shadow_outcomes attempt rest)
     | Shadow_row outcome sandboxed \<Rightarrow>
        map_sum id (\<lambda>xs. (broker @ '': '' @ outcome @ '' (real_sandbox='' @ (if sandboxed then ''True'' else ''False'') @ '')'') # xs)
          (shadow_outcomes attempt rest))"

definition run_shadow_mode_daily_cycle :: job where
  "run_shadow_mode_daily_cycle w st =
    (reported (case jw_shadow_symbols w of Inl e \<Rightarrow> Inl e
       | Inr symbols \<Rightarrow> map_sum id (\<lambda>xs. completed (if xs = [] then ''no brokers configured'' else join ''; '' xs))
           (shadow_outcomes (jw_shadow_attempt w) symbols)), st)"

definition run_audit_archive_job :: job where
  "run_audit_archive_job w st =
    (let (res, b) = archive_pending_rows (jw_s3 w) (e_now (jw_env w)) (db_audit (js_db st)) (js_bucket st) in
     (reported (case res of Inl e \<Rightarrow> Inl e
        | Inr (n, k) \<Rightarrow> Inr \<lparr>jr_status = (if k \<noteq> 0 then JobFailed else JobCompleted),
            jr_summary = show_nat n @ '' row(s) archived, '' @ show_nat k @ '' failure(s)''\<rparr>), st\<lparr>js_bucket := b\<rparr>))"

definition run_audit_chain_verification_job :: job where
  "run_audit_chain_verification_job w st =
    (reported (case run_divergence_check (e_sha256 (jw_env w)) (e_float_repr (jw_env w)) (jw_repr w) (jw_s3 w) (db_audit (js_db st)) (js_bucket st) of
         None \<Rightarrow> Inl ''ClientError''
       | Some rep \<Rightarrow>
          if report_ok rep then Inr (completed (''chain OK: live '' @ show_nat (cvr_rows_checked (dr_live rep)) @ '' row(s), archive ''
            @ show_nat (dr_archived_rows_checked rep) @ '' row(s) checked, no divergence''))
          else (case jw_ops_alert w of Inl e \<Rightarrow> Inl e | Inr _ \<Rightarrow> Inr (failed (format_divergence_alert rep)))), st)"

definition run_data_lake_backup_job :: job where
  "run_data_lake_backup_job w st =
    (reported (case jw_backup w of Inl e \<Rightarrow> Inl e
       | Inr b \<Rightarrow> Inr \<lparr>jr_status = (if br_failures b \<noteq> 0 then JobFailed else JobCompleted),
           jr_summary = show_nat (br_backed_up b) @ ''/'' @ show_nat (br_found b) @ '' file(s) backed up to '' @ br_root b\<rparr>), st)"

definition run_duckdb_catalog_refresh_job :: job where
  "run_duckdb_catalog_refresh_job w st =
    (reported (case jw_catalog w of Inl e \<Rightarrow> Inl e
       | Inr (views, path) \<Rightarrow> Inr (completed (''Refreshed '' @ join '', '' views @ '' in '' @ path))), st)"

definition run_stalled_run_sweep :: job where
  "run_stalled_run_sweep w st =
    (let (n, d) = check_stalled_runs (jw_env w) (js_db st) in (Inr (completed (''flagged='' @ show_nat n)), st\<lparr>js_db := d\<rparr>))"

section \<open>The registry and the schedule\<close>

definition MARKET_DATA_INGESTION_JOB_ID :: string where "MARKET_DATA_INGESTION_JOB_ID = ''scheduler_market_data_ingestion''"
definition CORPORATE_ACTIONS_JOB_ID :: string where "CORPORATE_ACTIONS_JOB_ID = ''scheduler_corporate_actions_ingestion''"
definition DAILY_CYCLE_JOB_ID :: string where "DAILY_CYCLE_JOB_ID = ''scheduler_daily_research_cycle''"
definition NEWS_SENTIMENT_JOB_ID :: string where "NEWS_SENTIMENT_JOB_ID = ''scheduler_news_sentiment_cycle''"
definition WEEKEND_MEMORY_JOB_ID :: string where "WEEKEND_MEMORY_JOB_ID = ''scheduler_weekend_memory_consolidation''"
definition PAPER_TRADING_DAILY_CYCLE_JOB_ID :: string where "PAPER_TRADING_DAILY_CYCLE_JOB_ID = ''scheduler_paper_trading_daily_cycle''"
definition PAPER_TRADING_EQUITY_SNAPSHOT_JOB_ID :: string where
  "PAPER_TRADING_EQUITY_SNAPSHOT_JOB_ID = ''scheduler_paper_trading_equity_snapshot''"
definition SHADOW_MODE_DAILY_CYCLE_JOB_ID :: string where "SHADOW_MODE_DAILY_CYCLE_JOB_ID = ''scheduler_shadow_mode_daily_cycle''"
definition AUDIT_ARCHIVE_JOB_ID :: string where "AUDIT_ARCHIVE_JOB_ID = ''scheduler_audit_archive''"
definition AUDIT_CHAIN_VERIFICATION_JOB_ID :: string where "AUDIT_CHAIN_VERIFICATION_JOB_ID = ''scheduler_audit_chain_verification''"
definition DATA_LAKE_BACKUP_JOB_ID :: string where "DATA_LAKE_BACKUP_JOB_ID = ''scheduler_data_lake_backup''"
definition DUCKDB_CATALOG_REFRESH_JOB_ID :: string where "DUCKDB_CATALOG_REFRESH_JOB_ID = ''scheduler_duckdb_catalog_refresh''"
definition STALLED_RUN_SWEEP_JOB_ID :: string where "STALLED_RUN_SWEEP_JOB_ID = ''scheduler_stalled_run_sweep''"

record scheduled_job_spec =
  sp_default_cron :: string
  sp_func :: job

definition JOB_REGISTRY :: "(string, scheduled_job_spec) dict" where
  "JOB_REGISTRY =
    [(MARKET_DATA_INGESTION_JOB_ID, \<lparr>sp_default_cron = ''0 5 * * *'', sp_func = run_market_data_ingestion\<rparr>),
     (CORPORATE_ACTIONS_JOB_ID, \<lparr>sp_default_cron = ''30 5 * * *'', sp_func = run_corporate_actions_ingestion\<rparr>),
     (DAILY_CYCLE_JOB_ID, \<lparr>sp_default_cron = ''0 6 * * *'', sp_func = run_daily_research_cycle\<rparr>),
     (NEWS_SENTIMENT_JOB_ID, \<lparr>sp_default_cron = ''*/30 9-15 * * *'', sp_func = run_news_sentiment_cycle\<rparr>),
     (WEEKEND_MEMORY_JOB_ID, \<lparr>sp_default_cron = ''0 2 * * sat'', sp_func = run_weekend_memory_consolidation\<rparr>),
     (PAPER_TRADING_DAILY_CYCLE_JOB_ID, \<lparr>sp_default_cron = ''30 6 * * *'', sp_func = run_paper_trading_job\<rparr>),
     (PAPER_TRADING_EQUITY_SNAPSHOT_JOB_ID, \<lparr>sp_default_cron = ''35 15 * * *'', sp_func = run_equity_snapshot_job\<rparr>),
     (SHADOW_MODE_DAILY_CYCLE_JOB_ID, \<lparr>sp_default_cron = ''0 10 * * mon-fri'', sp_func = run_shadow_mode_daily_cycle\<rparr>),
     (AUDIT_ARCHIVE_JOB_ID, \<lparr>sp_default_cron = ''30 23 * * *'', sp_func = run_audit_archive_job\<rparr>),
     (AUDIT_CHAIN_VERIFICATION_JOB_ID, \<lparr>sp_default_cron = ''0 2 * * *'', sp_func = run_audit_chain_verification_job\<rparr>),
     (DATA_LAKE_BACKUP_JOB_ID, \<lparr>sp_default_cron = ''0 23 * * *'', sp_func = run_data_lake_backup_job\<rparr>),
     (DUCKDB_CATALOG_REFRESH_JOB_ID, \<lparr>sp_default_cron = ''30 23 * * *'', sp_func = run_duckdb_catalog_refresh_job\<rparr>),
     (STALLED_RUN_SWEEP_JOB_ID, \<lparr>sp_default_cron = ''*/5 * * * *'', sp_func = run_stalled_run_sweep\<rparr>)]"

text \<open>
  APScheduler: \<open>ap_valid\<close> tells what the crontab parser accepts and \<open>ap_fires\<close> whether a trigger has a next fire
  time; a job it holds is seen as its cron expression and whether it has a next run time.
\<close>
record 's scheduler_ops =
  ap_valid :: "string \<Rightarrow> bool"
  ap_fires :: "string \<Rightarrow> bool"
  ap_new :: 's
  ap_add_job :: "string \<Rightarrow> string \<Rightarrow> 's \<Rightarrow> 's"
  ap_add_once :: "string \<Rightarrow> nat \<Rightarrow> 's \<Rightarrow> 's"
  ap_reschedule_job :: "string \<Rightarrow> string \<Rightarrow> 's \<Rightarrow> 's"
  ap_pause_job :: "string \<Rightarrow> 's \<Rightarrow> 's"
  ap_resume_job :: "string \<Rightarrow> 's \<Rightarrow> 's"
  ap_job :: "'s \<Rightarrow> string \<Rightarrow> (string \<times> bool) option"

text \<open>
  Adding replaces a job of the same id. Rescheduling gives the job a new trigger and computes its next run time
  anew; a paused job is one without a next run time; resuming computes it, and removes a job that has none.
\<close>
definition documented_scheduler :: "'s scheduler_ops \<Rightarrow> bool" where
  "documented_scheduler A \<longleftrightarrow>
    (\<forall>j c s k. ap_job A (ap_add_job A j c s) k = (if k = j then Some (c, ap_fires A c) else ap_job A s k)) \<and>
    (\<forall>j i s. j \<in> fst ` set JOB_REGISTRY \<longrightarrow> ap_job A (ap_add_once A j i s) = ap_job A s) \<and>
    (\<forall>j c s k x. ap_job A s j = Some x \<longrightarrow>
       ap_job A (ap_reschedule_job A j c s) k = (if k = j then Some (c, ap_fires A c) else ap_job A s k)) \<and>
    (\<forall>j s k c b. ap_job A s j = Some (c, b) \<longrightarrow>
       ap_job A (ap_pause_job A j s) k = (if k = j then Some (c, False) else ap_job A s k)) \<and>
    (\<forall>j s k c b. ap_job A s j = Some (c, b) \<longrightarrow>
       ap_job A (ap_resume_job A j s) k = (if k = j then if ap_fires A c then Some (c, True) else None else ap_job A s k))"

record job_config =
  jc_job_id :: string
  jc_cron_expression :: string
  jc_enabled :: bool
  jc_updated_by :: "nat option"
  jc_updated_at :: timestamp

datatype trigger_source = TriggerCron | TriggerManual

record job_run =
  jn_id :: nat
  jn_job_id :: string
  jn_trigger_source :: trigger_source
  jn_status :: string
  jn_started_at :: timestamp
  jn_ended_at :: "timestamp option"
  jn_result_summary :: "string option"
  jn_triggered_by :: "nat option"

text \<open>The state: the tables, the job state, and the live scheduler if this process runs one.\<close>
record 's schedule =
  sc_jobs :: job_state
  sc_configs :: "job_config list"
  sc_runs :: "job_run list"
  sc_next_run :: nat
  sc_live :: "'s option"

definition job_spec :: "string \<Rightarrow> scheduled_job_spec" where
  "job_spec j = the (dict_get JOB_REGISTRY j)"

definition get_effective_schedule :: "job_config list \<Rightarrow> string \<Rightarrow> string \<times> bool" where
  "get_effective_schedule rows j =
    (case row_by jc_job_id j rows of None \<Rightarrow> (sp_default_cron (job_spec j), True) | Some r \<Rightarrow> (jc_cron_expression r, jc_enabled r))"

definition store_schedule :: "timestamp \<Rightarrow> string \<Rightarrow> string option \<Rightarrow> bool option \<Rightarrow> nat option \<Rightarrow> job_config list \<Rightarrow> job_config list" where
  "store_schedule now j cron enabled user rows =
    (case row_by jc_job_id j rows of
       None \<Rightarrow> rows @ [\<lparr>jc_job_id = j,
         jc_cron_expression = (case cron of Some (c # cs) \<Rightarrow> c # cs | _ \<Rightarrow> sp_default_cron (job_spec j)),
         jc_enabled = (case enabled of Some b \<Rightarrow> b | None \<Rightarrow> True), jc_updated_by = user, jc_updated_at = now\<rparr>]
     | Some _ \<Rightarrow> update_where (\<lambda>r. jc_job_id r = j)
         (\<lambda>r. r\<lparr>jc_cron_expression := (case cron of Some c \<Rightarrow> c | None \<Rightarrow> jc_cron_expression r),
           jc_enabled := (case enabled of Some b \<Rightarrow> b | None \<Rightarrow> jc_enabled r), jc_updated_by := user, jc_updated_at := now\<rparr>) rows)"

definition apply_schedule_change ::
  "'s scheduler_ops \<Rightarrow> timestamp \<Rightarrow> string \<Rightarrow> string option \<Rightarrow> bool option \<Rightarrow> nat option \<Rightarrow> 's schedule \<Rightarrow> 's schedule" where
  "apply_schedule_change A now j cron enabled user st =
    (let rows = store_schedule now j cron enabled user (sc_configs st);
         (final_cron, final_enabled) = get_effective_schedule rows j;
         live = (\<lambda>s.
           (let s1 = (if cron \<noteq> None then ap_reschedule_job A j final_cron s else s)
            in if enabled \<noteq> None then if final_enabled then ap_resume_job A j s1 else ap_pause_job A j s1 else s1))
     in st\<lparr>sc_configs := rows, sc_live := map_option live (sc_live st)\<rparr>)"

section \<open>Executions\<close>

definition start_run :: "timestamp \<Rightarrow> string \<Rightarrow> trigger_source \<Rightarrow> nat option \<Rightarrow> 's schedule \<Rightarrow> nat \<times> 's schedule" where
  "start_run now j src user st =
    (let i = sc_next_run st in
     (i, st\<lparr>sc_runs := sc_runs st @ [\<lparr>jn_id = i, jn_job_id = j, jn_trigger_source = src, jn_status = ''Running'', jn_started_at = now,
        jn_ended_at = None, jn_result_summary = None, jn_triggered_by = user\<rparr>], sc_next_run := Suc i\<rparr>))"

definition finish_run :: "timestamp \<Rightarrow> nat \<Rightarrow> job_result \<Rightarrow> 's schedule \<Rightarrow> 's schedule" where
  "finish_run now i res st =
    st\<lparr>sc_runs := update_where (\<lambda>r. jn_id r = i) (\<lambda>r. r\<lparr>jn_status := job_status_value (jr_status res), jn_ended_at := Some now,
         jn_result_summary := Some (take 4000 (jr_summary res))\<rparr>) (sc_runs st)\<rparr>"

definition run_if_scheduler_enabled :: "job \<Rightarrow> job" where
  "run_if_scheduler_enabled f w st =
    (if \<not> is_agent_enabled (js_db st) ''scheduler_agent'' then (Inr (skipped ''scheduler_agent disabled''), st) else f w st)"

text \<open>A firing; the row is already there for a manual run. \<open>ended\<close> is the clock when the job returns.\<close>
definition tracked :: "job_world \<Rightarrow> timestamp \<Rightarrow> string \<Rightarrow> trigger_source \<Rightarrow> job \<Rightarrow> nat option \<Rightarrow> 's schedule \<Rightarrow> 's schedule" where
  "tracked w ended j src f run st =
    (let (i, st1) = (case run of Some i \<Rightarrow> (i, st) | None \<Rightarrow> start_run (e_now (jw_env w)) j src None st);
         (res, js) = run_if_scheduler_enabled f w (sc_jobs st1)
     in finish_run ended i (case res of Inr r \<Rightarrow> r | Inl e \<Rightarrow> failed (''unhandled exception: '' @ e)) (st1\<lparr>sc_jobs := js\<rparr>))"

definition fire_cron :: "job_world \<Rightarrow> timestamp \<Rightarrow> string \<Rightarrow> 's schedule \<Rightarrow> 's schedule" where
  "fire_cron w ended j = tracked w ended j TriggerCron (sp_func (job_spec j)) None"

definition fire_manual :: "job_world \<Rightarrow> timestamp \<Rightarrow> string \<Rightarrow> nat \<Rightarrow> 's schedule \<Rightarrow> 's schedule" where
  "fire_manual w ended j i = tracked w ended j TriggerManual (sp_func (job_spec j)) (Some i)"

definition dispatch_manual_run :: "'s scheduler_ops \<Rightarrow> timestamp \<Rightarrow> string \<Rightarrow> nat \<Rightarrow> 's schedule \<Rightarrow> nat option \<times> 's schedule" where
  "dispatch_manual_run A now j user st =
    (case sc_live st of
       None \<Rightarrow> (None, st)
     | Some s \<Rightarrow> (let (i, st1) = start_run now j TriggerManual (Some user) st in (Some i, st1\<lparr>sc_live := Some (ap_add_once A j i s)\<rparr>)))"

definition add_registered :: "'s scheduler_ops \<Rightarrow> job_config list \<Rightarrow> 's \<Rightarrow> string \<Rightarrow> 's" where
  "add_registered A rows s j =
    (let (cron, enabled) = get_effective_schedule rows j; s1 = ap_add_job A j cron s in if enabled then s1 else ap_pause_job A j s1)"

definition build_scheduler :: "'s scheduler_ops \<Rightarrow> 's schedule \<Rightarrow> 's schedule" where
  "build_scheduler A st = st\<lparr>sc_live := Some (foldl (add_registered A (sc_configs st)) (ap_new A) (map fst JOB_REGISTRY))\<rparr>"

section \<open>Requests\<close>

definition schedule_audit :: "env \<Rightarrow> nat \<Rightarrow> string \<Rightarrow> string \<Rightarrow> nat option \<Rightarrow> json \<Rightarrow> string \<Rightarrow> 's schedule \<Rightarrow> 's schedule" where
  "schedule_audit env user action entity i after notice st =
    st\<lparr>sc_jobs := (sc_jobs st)\<lparr>js_db := snd (write_audit_entry env \<lparr>al_actor_type = Human, al_actor_id = uuid_str user, al_action = action,
         al_entity_type = entity, al_entity_id = i, al_before_state = None, al_after_state = Some after,
         al_prompt_snapshot = Some notice, al_ip_address = None, al_created_at = e_now env\<rparr> (js_db (sc_jobs st)))\<rparr>\<rparr>"

datatype schedule_failure = Unknown_job | Invalid_cron | Nothing_to_change | No_scheduler

definition failure_status :: "schedule_failure \<Rightarrow> nat" where
  "failure_status e = (case e of Unknown_job \<Rightarrow> 404 | Invalid_cron \<Rightarrow> 400 | Nothing_to_change \<Rightarrow> 400 | No_scheduler \<Rightarrow> 503)"

definition update_scheduled_job ::
  "'s scheduler_ops \<Rightarrow> env \<Rightarrow> nat \<Rightarrow> string \<Rightarrow> string option \<Rightarrow> bool option \<Rightarrow> 's schedule \<Rightarrow> (schedule_failure + unit) \<times> 's schedule" where
  "update_scheduled_job A env user j cron enabled st =
    (if j \<notin> fst ` set JOB_REGISTRY then (Inl Unknown_job, st)
     else if (case cron of Some c \<Rightarrow> \<not> ap_valid A c | None \<Rightarrow> False) then (Inl Invalid_cron, st)
     else if cron = None \<and> enabled = None then (Inl Nothing_to_change, st)
     else
      (Inr (), schedule_audit env user ''SCHEDULED_JOB_CONFIG_CHANGED'' ''ScheduledJobConfig'' None
         (JObj [(''job_id'', JStr j), (''cron_expression'', opt_json JStr cron), (''enabled'', opt_json JBool enabled)])
         (''Updated schedule for '' @ j) (apply_schedule_change A (e_now env) j cron enabled (Some user) st)))"

definition run_scheduled_job_now ::
  "'s scheduler_ops \<Rightarrow> env \<Rightarrow> nat \<Rightarrow> string \<Rightarrow> 's schedule \<Rightarrow> (schedule_failure + nat) \<times> 's schedule" where
  "run_scheduled_job_now A env user j st =
    (if j \<notin> fst ` set JOB_REGISTRY then (Inl Unknown_job, st)
     else
      (case dispatch_manual_run A (e_now env) j user st of
         (None, st1) \<Rightarrow> (Inl No_scheduler, st1)
       | (Some i, st1) \<Rightarrow> (Inr i, schedule_audit env user ''SCHEDULED_JOB_RUN_NOW'' ''ScheduledJobRun'' (Some i) (JObj [(''job_id'', JStr j)])
           (''Manually ran '' @ j) st1)))"

text \<open>The newest execution, and the page of the history of a job.\<close>
definition job_history :: "'s schedule \<Rightarrow> string \<Rightarrow> nat \<Rightarrow> nat \<Rightarrow> job_run list" where
  "job_history st j limit offset =
    take limit (drop offset (sort_key (\<lambda>r. - jn_started_at r) (filter (\<lambda>r. jn_job_id r = j) (sc_runs st))))"

definition most_recent_run :: "'s schedule \<Rightarrow> string \<Rightarrow> job_run option" where
  "most_recent_run st j = (case job_history st j 1 0 of [] \<Rightarrow> None | r # _ \<Rightarrow> Some r)"

text \<open>What the list shows of a job: the cron expression, whether it is enabled, whether it has a next run, the last run.\<close>
definition build_summary :: "'s scheduler_ops \<Rightarrow> 's schedule \<Rightarrow> string \<Rightarrow> string \<times> bool \<times> bool \<times> job_run option" where
  "build_summary A st j =
    (let (cron, enabled) = get_effective_schedule (sc_configs st) j in
     (cron, enabled,
      (if enabled then (case sc_live st of Some s \<Rightarrow> (case ap_job A s j of Some (_, next) \<Rightarrow> next | None \<Rightarrow> False) | None \<Rightarrow> ap_fires A cron) else False),
      most_recent_run st j))"

definition get_scheduled_job_history :: "'s schedule \<Rightarrow> string \<Rightarrow> nat \<Rightarrow> nat \<Rightarrow> schedule_failure + job_run list" where
  "get_scheduled_job_history st j limit offset = (if j \<notin> fst ` set JOB_REGISTRY then Inl Unknown_job else Inr (job_history st j limit offset))"

section \<open>The table and the live scheduler\<close>

definition in_step :: "'s scheduler_ops \<Rightarrow> job_config list \<Rightarrow> 's \<Rightarrow> bool" where
  "in_step A rows s \<longleftrightarrow> (\<forall>j \<in> fst ` set JOB_REGISTRY. ap_job A s j = Some (get_effective_schedule rows j))"

lemma effective_store:
  assumes "cron \<noteq> Some []"
  shows "get_effective_schedule (store_schedule now j cron enabled user rows) k =
    (if k = j then (case cron of Some c \<Rightarrow> c | None \<Rightarrow> fst (get_effective_schedule rows j),
                    case enabled of Some b \<Rightarrow> b | None \<Rightarrow> snd (get_effective_schedule rows j))
     else get_effective_schedule rows k)"
proof (cases "row_by jc_job_id j rows")
  case None
  then show ?thesis using assms
    by (auto simp: store_schedule_def get_effective_schedule_def row_by_append split: option.split list.split)
next
  case (Some r)
  then show ?thesis
    by (auto simp: store_schedule_def get_effective_schedule_def row_by_update_where dest: row_by_SomeD split: option.splits)
qed

lemma add_registered_job:
  assumes "documented_scheduler A" and "\<forall>j. ap_fires A (fst (get_effective_schedule rows j))"
  shows "ap_job A (add_registered A rows s j) k = (if k = j then Some (get_effective_schedule rows j) else ap_job A s k)"
proof -
  have add: "ap_job A (ap_add_job A j c s) k = (if k = j then Some (c, ap_fires A c) else ap_job A s k)" for c k
    using assms(1) by (simp add: documented_scheduler_def)
  have pause: "ap_job A (ap_pause_job A j s) k = (if k = j then Some (c, False) else ap_job A s k)" if "ap_job A s j = Some (c, b)" for s c b k
    using assms(1) that by (simp add: documented_scheduler_def)
  show ?thesis
    using add pause[of "ap_add_job A j (fst (get_effective_schedule rows j)) s"] assms(2)
    by (simp add: add_registered_def Let_def case_prod_unfold prod_eq_iff)
qed

text \<open>A started scheduler agrees with the table.\<close>
lemma build_scheduler_in_step:
  assumes "documented_scheduler A" and "\<forall>j. ap_fires A (fst (get_effective_schedule (sc_configs st) j))"
  shows "\<exists>s. sc_live (build_scheduler A st) = Some s \<and> in_step A (sc_configs (build_scheduler A st)) s"
proof -
  have "ap_job A (foldl (add_registered A (sc_configs st)) s js) k = Some (get_effective_schedule (sc_configs st) k)" if "k \<in> set js" for s js k
    using that
  proof (induction js rule: rev_induct)
    case (snoc j js)
    then show ?case by (cases "k = j") (auto simp: add_registered_job[OF assms])
  qed simp
  then show ?thesis by (simp add: build_scheduler_def in_step_def)
qed


lemma apply_schedule_change_live:
  assumes A: "documented_scheduler A" and s: "sc_live st = Some s" "in_step A (sc_configs st) s" and j: "j \<in> fst ` set JOB_REGISTRY"
    and cron: "cron \<noteq> Some []" and fires: "ap_fires A (fst (get_effective_schedule (sc_configs (apply_schedule_change A now j cron enabled user st)) j))"
  shows "\<exists>s'. sc_live (apply_schedule_change A now j cron enabled user st) = Some s'
    \<and> (\<forall>k \<in> fst ` set JOB_REGISTRY. ap_job A s' k =
        Some (fst (get_effective_schedule (sc_configs (apply_schedule_change A now j cron enabled user st)) k),
              if k = j \<and> cron \<noteq> None \<and> enabled = None then True
              else snd (get_effective_schedule (sc_configs (apply_schedule_change A now j cron enabled user st)) k)))"
proof -
  let ?eff = "get_effective_schedule (sc_configs st)"
  let ?st' = "apply_schedule_change A now j cron enabled user st"
  have rows: "sc_configs ?st' = store_schedule now j cron enabled user (sc_configs st)"
    by (simp add: apply_schedule_change_def Let_def case_prod_unfold)
  note eff = effective_store[OF cron, of now j enabled user "sc_configs st"]
  let ?c = "case cron of Some c \<Rightarrow> c | None \<Rightarrow> fst (?eff j)"
  let ?b = "case enabled of Some b \<Rightarrow> b | None \<Rightarrow> snd (?eff j)"
  have c: "ap_fires A ?c" using fires by (simp add: rows eff)
  have sj: "ap_job A s k = Some (?eff k)" if "k \<in> fst ` set JOB_REGISTRY" for k using s(2) that unfolding in_step_def by blast
  define s1 where "s1 = (if cron \<noteq> None then ap_reschedule_job A j ?c s else s)"
  have s1: "ap_job A s1 k = (if k = j \<and> cron \<noteq> None then Some (?c, True) else Some (?eff k))" if "k \<in> fst ` set JOB_REGISTRY" for k
    using A sj[OF j] sj[OF that] c by (auto simp: s1_def documented_scheduler_def)
  have s1j: "\<exists>b. ap_job A s1 j = Some (?c, b)" using s1[OF j] by (cases cron) (auto simp: prod_eq_iff)
  define s2 where "s2 = (if enabled \<noteq> None then if ?b then ap_resume_job A j s1 else ap_pause_job A j s1 else s1)"
  have s2: "ap_job A s2 k = (if k = j \<and> enabled \<noteq> None then Some (?c, ?b) else ap_job A s1 k)" for k
    using A s1j c by (auto simp: s2_def documented_scheduler_def)
  have "sc_live ?st' = Some s2"
    using s(1) unfolding apply_schedule_change_def Let_def case_prod_unfold eff s1_def s2_def by simp
  moreover have "ap_job A s2 k = Some (fst (get_effective_schedule (sc_configs ?st') k),
      if k = j \<and> cron \<noteq> None \<and> enabled = None then True else snd (get_effective_schedule (sc_configs ?st') k))"
    if "k \<in> fst ` set JOB_REGISTRY" for k
    unfolding s2 s1[OF that] rows eff by (auto split: option.split)
  ultimately show ?thesis by blast
qed

lemma configs_audit [simp]: "sc_configs (schedule_audit env user action entity i after notice st) = sc_configs st"
  "sc_live (schedule_audit env user action entity i after notice st) = sc_live st"
  "sc_runs (schedule_audit env user action entity i after notice st) = sc_runs st"
  by (simp_all add: schedule_audit_def)

text \<open>An accepted edit of a schedule leaves the live scheduler in step with the table, for every job, except in
  one case: when only the cron expression of a disabled job is edited, the live job is started again, and the list of
  the jobs goes on to show it as disabled and without a next run.\<close>
theorem schedule_edits_stay_in_step:
  assumes "documented_scheduler A" and "sc_live st = Some s" and "in_step A (sc_configs st) s" and "\<not> ap_valid A []"
    and "update_scheduled_job A env user j cron enabled st = (Inr (), st')"
    and "ap_fires A (fst (get_effective_schedule (sc_configs st') j))"
  shows "\<exists>s'. sc_live st' = Some s'
    \<and> (in_step A (sc_configs st') s' \<longleftrightarrow> enabled \<noteq> None \<or> snd (get_effective_schedule (sc_configs st) j))
    \<and> (enabled = None \<and> \<not> snd (get_effective_schedule (sc_configs st) j) \<longrightarrow>
         ap_job A s' j = Some (the cron, True) \<and> (\<exists>last. build_summary A st' j = (the cron, False, False, last)))"
proof -
  have upd: "j \<in> fst ` set JOB_REGISTRY" "cron \<noteq> Some []" "cron \<noteq> None \<or> enabled \<noteq> None"
    "sc_configs st' = sc_configs (apply_schedule_change A (e_now env) j cron enabled (Some user) st)"
    "sc_live st' = sc_live (apply_schedule_change A (e_now env) j cron enabled (Some user) st)"
    using assms(4,5) by (auto simp: update_scheduled_job_def split: if_splits option.splits)
  have rows: "get_effective_schedule (sc_configs st') j =
      (case cron of Some c \<Rightarrow> c | None \<Rightarrow> fst (get_effective_schedule (sc_configs st) j),
       case enabled of Some b \<Rightarrow> b | None \<Rightarrow> snd (get_effective_schedule (sc_configs st) j))"
    using effective_store[OF upd(2), of "e_now env" j enabled "Some user" "sc_configs st" j]
    by (simp add: upd(4) apply_schedule_change_def Let_def case_prod_unfold)
  obtain s' where s': "sc_live st' = Some s'" and jobs: "\<And>k. k \<in> fst ` set JOB_REGISTRY \<Longrightarrow> ap_job A s' k =
        Some (fst (get_effective_schedule (sc_configs st') k),
              if k = j \<and> cron \<noteq> None \<and> enabled = None then True else snd (get_effective_schedule (sc_configs st') k))"
    using apply_schedule_change_live[OF assms(1-3) upd(1,2), of "e_now env" enabled "Some user"] assms(6) unfolding upd(4,5) by blast
  have "in_step A (sc_configs st') s' \<longleftrightarrow> (cron \<noteq> None \<and> enabled = None \<longrightarrow> snd (get_effective_schedule (sc_configs st') j))"
    using jobs upd(1) by (auto simp: in_step_def prod_eq_iff)
  moreover have "enabled = None \<Longrightarrow> cron \<noteq> None" using upd(3) by blast
  ultimately show ?thesis
    using s' jobs[OF upd(1)] rows by (cases enabled) (auto simp: build_summary_def Let_def)
qed


text \<open>A scheduler that is a table of its jobs, and a state where one job is disabled.\<close>
definition table_scheduler :: "(string \<Rightarrow> (string \<times> bool) option) scheduler_ops" where
  "table_scheduler = \<lparr>ap_valid = (\<lambda>c. c \<noteq> []), ap_fires = (\<lambda>_. True), ap_new = (\<lambda>_. None),
     ap_add_job = (\<lambda>j c s. s(j \<mapsto> (c, True))), ap_add_once = (\<lambda>_ _ s. s),
     ap_reschedule_job = (\<lambda>j c s. s(j \<mapsto> (c, True))),
     ap_pause_job = (\<lambda>j s. s(j := map_option (\<lambda>(c, _). (c, False)) (s j))),
     ap_resume_job = (\<lambda>j s. s(j := map_option (\<lambda>(c, _). (c, True)) (s j))), ap_job = (\<lambda>s. s)\<rparr>"

lemma documented_table: "documented_scheduler table_scheduler" "\<not> ap_valid table_scheduler []" "ap_fires table_scheduler c"
  by (auto simp: documented_scheduler_def table_scheduler_def)

definition sample_jobs :: job_state where
  "sample_jobs = \<lparr>js_db = empty_db, js_ingest = \<lparr>ig_lake = [], ig_instruments = [], ig_provenance = [], ig_world = fresh_world\<rparr>, js_actions = [], js_bucket = []\<rparr>"

definition sample_tables :: "(string \<Rightarrow> (string \<times> bool) option) schedule" where
  "sample_tables = \<lparr>sc_jobs = sample_jobs,
     sc_configs = [\<lparr>jc_job_id = DAILY_CYCLE_JOB_ID, jc_cron_expression = ''0 6 * * *'', jc_enabled = False, jc_updated_by = None, jc_updated_at = 0\<rparr>],
     sc_runs = [], sc_next_run = 0, sc_live = None\<rparr>"

definition sample_schedule :: "(string \<Rightarrow> (string \<times> bool) option) schedule" where
  "sample_schedule = build_scheduler table_scheduler sample_tables"

theorem schedule_edits_stay_in_step_witness:
  "\<exists>s'. sc_live (snd (update_scheduled_job table_scheduler sample_env 1 DAILY_CYCLE_JOB_ID (Some ''0 7 * * *'') None sample_schedule)) = Some s'
    \<and> s' DAILY_CYCLE_JOB_ID = Some (''0 7 * * *'', True)"
proof -
  let ?upd = "update_scheduled_job table_scheduler sample_env 1 DAILY_CYCLE_JOB_ID (Some ''0 7 * * *'') None sample_schedule"
  have configs: "sc_configs sample_schedule = [\<lparr>jc_job_id = DAILY_CYCLE_JOB_ID, jc_cron_expression = ''0 6 * * *'', jc_enabled = False,
      jc_updated_by = None, jc_updated_at = 0\<rparr>]"
    by (simp add: sample_schedule_def sample_tables_def build_scheduler_def)
  obtain s where s: "sc_live sample_schedule = Some s" "in_step table_scheduler (sc_configs sample_schedule) s"
    using build_scheduler_in_step[OF documented_table(1), where st = sample_tables] documented_table(3) unfolding sample_schedule_def by blast
  have "DAILY_CYCLE_JOB_ID \<in> fst ` set JOB_REGISTRY" by (simp add: JOB_REGISTRY_def)
  then have "?upd = (Inr (), snd ?upd)"
    by (simp add: update_scheduled_job_def table_scheduler_def)
  from schedule_edits_stay_in_step[OF documented_table(1) s documented_table(2) this documented_table(3)]
  show ?thesis by (auto simp: configs get_effective_schedule_def table_scheduler_def)
qed

section \<open>Executions\<close>

lemma tracked_result:
  "\<exists>r js. run_if_scheduler_enabled f w (sc_jobs st) = (r, js) \<and> tracked w ended j src f None st =
     finish_run ended (sc_next_run st) (case r of Inr r \<Rightarrow> r | Inl e \<Rightarrow> failed (''unhandled exception: '' @ e))
       ((snd (start_run (e_now (jw_env w)) j src None st))\<lparr>sc_jobs := js\<rparr>)"
  by (cases "run_if_scheduler_enabled f w (sc_jobs st)") (simp add: tracked_def start_run_def Let_def)

text \<open>
  A firing leaves one closed row and touches no other; while the scheduler agent is disabled it is marked as skipped
  and the job has no effect.
\<close>
theorem firing_closes_one_row:
  assumes "\<forall>r \<in> set (sc_runs st). jn_id r < sc_next_run st"
  shows "\<exists>row. sc_runs (fire_cron w ended j st) = sc_runs st @ [row] \<and> jn_job_id row = j \<and> jn_ended_at row = Some ended
      \<and> jn_status row \<in> {''Completed'', ''Failed'', ''Skipped''} \<and> (\<exists>s. jn_result_summary row = Some s \<and> length s \<le> 4000)
      \<and> (\<not> is_agent_enabled (js_db (sc_jobs st)) ''scheduler_agent'' \<longrightarrow>
           jn_status row = ''Skipped'' \<and> sc_jobs (fire_cron w ended j st) = sc_jobs st)
      \<and> (\<forall>r \<in> set (sc_runs (fire_cron w ended j st)). jn_id r < sc_next_run (fire_cron w ended j st))"
proof -
  let ?f = "sp_func (job_spec j)"
  obtain r js where r: "run_if_scheduler_enabled ?f w (sc_jobs st) = (r, js)" and
    t: "fire_cron w ended j st = finish_run ended (sc_next_run st) (case r of Inr r \<Rightarrow> r | Inl e \<Rightarrow> failed (''unhandled exception: '' @ e))
       ((snd (start_run (e_now (jw_env w)) j TriggerCron None st))\<lparr>sc_jobs := js\<rparr>)"
    using tracked_result[of ?f w st ended j TriggerCron] unfolding fire_cron_def by blast
  have old: "update_where (\<lambda>r. jn_id r = sc_next_run st) g (sc_runs st) = sc_runs st" for g
    using assms by (auto simp: update_where_def intro!: map_idI)
  have off: "r = Inr (skipped ''scheduler_agent disabled'') \<and> js = sc_jobs st" if "\<not> is_agent_enabled (js_db (sc_jobs st)) ''scheduler_agent''"
    using r that by (simp add: run_if_scheduler_enabled_def)
  have st: "job_status_value x \<in> {''Completed'', ''Failed'', ''Skipped''}" for x by (cases x) (simp_all add: job_status_value_def)
  show ?thesis
    unfolding t using old off st assms
    by (auto simp: finish_run_def start_run_def Let_def update_where_def skipped_def job_status_value_def less_Suc_eq)
qed


section \<open>What the jobs do\<close>

lemma create_run_appends:
  "\<exists>run. db_runs (snd (snd (create_run env objective source requested_by tenant autostart d))) = db_runs d @ [run]
    \<and> run_objective run = objective \<and> run_source_of run = source
    \<and> run_status_of run = (if e_org_max_concurrent_runs env \<le> active_run_count d then RUN_QUEUED else RUN_PLANNING)"
  by (auto simp: create_run_def Let_def)

text \<open>C35. The daily job opens exactly one research run of the organisation, queued or planning, and does so if and only if
  the lake holds symbols and each of them has data up to the previous trading day; otherwise it changes nothing and
  says so. No instrument is ever left out of the check.\<close>
theorem research_cycle_needs_fresh_lake:
  "\<exists>r st'. run_daily_research_cycle w st = (Inr r, st') \<and> (if ig_lake (js_ingest st) \<noteq> [] \<and> (\<forall>(k, rows) \<in> set (ig_lake (js_ingest st)).
        \<exists>d. latest_date (ig_lake (js_ingest st)) (fst k) = Some d \<and> previous_trading_day (e_today (jw_env w)) \<le> d)
      then jr_status r = JobCompleted \<and> js_ingest st' = js_ingest st \<and> js_actions st' = js_actions st \<and> js_bucket st' = js_bucket st
        \<and> (\<exists>run. db_runs (js_db st') = db_runs (js_db st) @ [run] \<and> run_source_of run = SRC_SCHEDULE \<and> run_objective run = RESEARCH_OBJECTIVE
             \<and> run_status_of run \<in> {RUN_QUEUED, RUN_PLANNING})
      else jr_status r = JobSkipped \<and> st' = st)"
proof -
  let ?L = "ig_lake (js_ingest st)"
  let ?today = "e_today (jw_env w)"
  have syms: "set (list_symbols ?L) = (fst \<circ> fst) ` set ?L" by (simp add: list_symbols_def set_sorted_strings)
  then have none: "list_symbols ?L = [] \<longleftrightarrow> ?L = []" by (metis image_is_empty set_empty)
  have fresh: "require_fresh ?L (list_symbols ?L) ?today = [] \<longleftrightarrow>
      (\<forall>(k, rows) \<in> set ?L. \<exists>d. latest_date ?L (fst k) = Some d \<and> previous_trading_day ?today \<le> d)"
    by (auto simp: require_fresh_def filter_empty_conv syms lake_fresh_def split: option.splits)
  show ?thesis
    using create_run_appends[of "jw_env w" RESEARCH_OBJECTIVE SRC_SCHEDULE None "jw_tenant w" True "js_db st"]
    unfolding run_daily_research_cycle_def Let_def none case_prod_unfold fresh[symmetric, unfolded case_prod_unfold]
    by (auto simp: skipped_def completed_def split: if_splits)
qed


definition sample_firing :: job_world where
  "sample_firing = \<lparr>jw_env = sample_env, jw_tenant = 0, jw_net = sample_net 0, jw_settings = sample_settings, jw_download = Inr [],
     jw_universes = [], jw_actions_csv = Inr [], jw_news = Inr [], jw_score = (\<lambda>_. Inr []), jw_paper_cycle = Inr 0, jw_broker = Inl None,
     jw_snapshot = Inr None, jw_archive_memories = Inr [], jw_lessons = Inr [], jw_shadow_symbols = Inr [],
     jw_shadow_attempt = (\<lambda>_ _. Shadow_no_broker), jw_s3 = open_store, jw_repr = (\<lambda>_. []), jw_ops_alert = Inr (),
     jw_backup = Inl [], jw_catalog = Inl []\<rparr>"

definition fresh_jobs :: job_state where
  "fresh_jobs = \<lparr>js_db = empty_db, js_ingest = \<lparr>ig_lake = [((''TCS'', 2023, 11), [sample_row 19674 1])], ig_instruments = [],
     ig_provenance = [], ig_world = fresh_world\<rparr>, js_actions = [], js_bucket = []\<rparr>"

theorem research_cycle_needs_fresh_lake_witness:
  "\<exists>r st'. run_daily_research_cycle sample_firing fresh_jobs = (Inr r, st') \<and> jr_status r = JobCompleted"
proof -
  let ?L = "ig_lake (js_ingest fresh_jobs)"
  have "previous_trading_day 19675 \<le> 19674" by code_simp
  moreover have "e_today (jw_env sample_firing) = 19675" by (simp add: sample_firing_def sample_env_def)
  moreover have "latest_date ?L ''TCS'' = Some 19674" by (simp add: latest_date_def read_symbol_def fresh_jobs_def sample_row_def)
  ultimately have "?L \<noteq> [] \<and> (\<forall>(k, rows) \<in> set ?L.
      \<exists>d. latest_date ?L (fst k) = Some d \<and> previous_trading_day (e_today (jw_env sample_firing)) \<le> d)"
    by (auto simp: fresh_jobs_def)
  then show ?thesis using research_cycle_needs_fresh_lake[of sample_firing fresh_jobs] by (auto split: if_splits)
qed

text \<open>
  The dataset the ingestion reports on is fresh exactly when the agent ran it to its end and no symbol failed; a
  failure of a single symbol marks the whole dataset.
\<close>
theorem ingestion_reports_every_failure:
  assumes "\<not> is_trading_holiday (e_today (jw_env w))" and "is_agent_enabled (js_db st) ''data_ingestion_agent''"
    and "run_market_data_ingestion w st = (res, st')"
    and "run_incremental_ingestion (jw_net w) (jw_settings w) (jw_download w) (jw_universes w) (e_today (jw_env w)) (e_now (jw_env w)) (js_ingest st)
      = (outcome, ig)"
  shows "\<exists>r row. res = Inr r \<and> js_ingest st' = ig \<and> freshness_row (js_db st') ''ohlcv_daily'' = Some row
    \<and> (dfr_status row = DS_FRESH \<longleftrightarrow> (\<exists>sm. outcome = Inr sm \<and> is_failed sm = []))
    \<and> (jr_status r = JobFailed \<longleftrightarrow> (\<exists>e. outcome = Inl e)) \<and> (jr_status r = JobCompleted \<longleftrightarrow> (\<exists>sm. outcome = Inr sm))"
proof -
  have status: "dfr_status (fst (record_ingestion_result env nm a b c dt d)) = DS_FRESH \<longleftrightarrow> a \<and> b \<and> c" for env nm a b c dt d
    by (simp add: record_ingestion_result_def ingestion_update_def Let_def case_prod_unfold)
  show ?thesis
    using assms by (cases outcome)
      (auto simp: run_market_data_ingestion_def record_dataset_def record_ingestion_row status completed_def failed_def Let_def)
qed

end
