(* ===== verification/Sandbox.thy ===== *)
theory Sandbox
  imports Prelude PyText
begin

text \<open>
  The sandbox for generated strategy code: the one-shot subprocess (\<open>src/engine/sandbox/runner.py\<close>) and the pool of
  warm workers (\<open>src/engine/sandbox/pool.py\<close>). What a process does with a job is a parameter: the chunks it writes to
  its pipe, and how many of them arrive before the deadline. Durations and memory figures are left out.
\<close>

section \<open>Results\<close>

datatype sandbox_error = Worker_died | Deadline_exceeded | Not_json string | Exited int string | Reported json

record sandbox_result =
  sr_passed :: bool
  sr_summary :: "json option"
  sr_error :: "sandbox_error option"

definition refused :: "sandbox_error \<Rightarrow> sandbox_result" where
  "refused e = \<lparr>sr_passed = False, sr_summary = None, sr_error = Some e\<rparr>"

text \<open>The truth of a JSON value in a condition.\<close>
definition json_true :: "json \<Rightarrow> bool" where
  "json_true j = (case j of JNull \<Rightarrow> False | JBool b \<Rightarrow> b | JInt i \<Rightarrow> i \<noteq> 0 | JFloat x \<Rightarrow> x \<noteq> 0 | JStr s \<Rightarrow> s \<noteq> [] | JArr xs \<Rightarrow> xs \<noteq> [] | JObj fs \<Rightarrow> fs \<noteq> [])"

definition null_option :: "json \<Rightarrow> json option" where
  "null_option j = (if j = JNull then None else Some j)"

text \<open>The three fields of an answer; \<open>None\<close> is the exception of a missing one.\<close>
definition result_of_json :: "json \<Rightarrow> sandbox_result option" where
  "result_of_json j =
    (case (json_get j ''passed'', json_get j ''portfolio_summary'', json_get j ''error'') of
       (Some p, Some s, Some e) \<Rightarrow> Some \<lparr>sr_passed = json_true p, sr_summary = null_option s, sr_error = map_option Reported (null_option e)\<rparr>
     | _ \<Rightarrow> None)"

section \<open>Jobs and the one-shot process\<close>

record 'd job_input =
  ji_code :: string
  ji_config :: json
  ji_data :: 'd

datatype process_outcome = Process_timeout | Process_exit int string string

record job_behaviour =
  jb_accepted :: bool
  jb_chunks :: "string list"
  jb_timely :: nat

text \<open>
  The interpreter and the operating system: \<open>json.loads\<close>, the UTF-8 decoder, what a fresh process and what a warm
  worker do with a job, and which attempts to start a worker succeed.
\<close>
record 'd sandbox_env =
  se_loads :: "string \<Rightarrow> json option"
  se_utf8 :: "string \<Rightarrow> bool"
  se_fresh :: "'d job_input \<Rightarrow> process_outcome"
  se_warm :: "'d job_input \<Rightarrow> job_behaviour"
  se_spawns :: "nat \<Rightarrow> bool"

text \<open>The last \<open>n\<close> characters.\<close>
definition tail :: "nat \<Rightarrow> string \<Rightarrow> string" where "tail n s = drop (length s - n) s"

definition blank :: "string \<Rightarrow> bool" where
  "blank s \<longleftrightarrow> (\<forall>c \<in> set s. of_char c \<in> {9, 10, 11, 12, 13, 32 :: nat})"

text \<open>\<open>None\<close>: a missing field of the answer raises.\<close>
definition execute_in_sandbox :: "'d sandbox_env \<Rightarrow> 'd job_input \<Rightarrow> sandbox_result option" where
  "execute_in_sandbox env job =
    (case se_fresh env job of
       Process_timeout \<Rightarrow> Some (refused Deadline_exceeded)
     | Process_exit code out err \<Rightarrow>
        if code \<noteq> 0 \<and> blank out then Some (refused (Exited code (tail 2000 err)))
        else (case se_loads env out of
                None \<Rightarrow> Some (refused (Not_json (tail 500 out)))
              | Some j \<Rightarrow> result_of_json j))"

section \<open>The pool\<close>

definition MAX_JOBS_PER_WORKER :: nat where "MAX_JOBS_PER_WORKER = 25"

text \<open>A worker: its process, and the chunks in its pipe that nobody has read.\<close>
record worker =
  wk_id :: nat
  wk_pipe :: "string list"
  wk_jobs_done :: nat
  wk_is_overflow :: bool

text \<open>The pool, with the number of workers it has tried to start and the processes it has killed.\<close>
record pool =
  pl_size :: nat
  pl_available :: "worker list"
  pl_started :: nat
  pl_retired :: "nat list"

definition spawn_worker :: "'d sandbox_env \<Rightarrow> pool \<Rightarrow> worker option \<times> pool" where
  "spawn_worker env p =
    (if se_spawns env (pl_started p) then Some \<lparr>wk_id = pl_started p, wk_pipe = [], wk_jobs_done = 0, wk_is_overflow = False\<rparr> else None,
     p\<lparr>pl_started := Suc (pl_started p)\<rparr>)"

definition retire :: "worker \<Rightarrow> pool \<Rightarrow> pool" where
  "retire w p = p\<lparr>pl_retired := wk_id w # pl_retired p\<rparr>"

fun fill_pool :: "'d sandbox_env \<Rightarrow> nat \<Rightarrow> pool \<Rightarrow> bool \<times> pool" where
  "fill_pool env 0 p = (True, p)"
| "fill_pool env (Suc n) p =
    (case spawn_worker env p of
       (None, p1) \<Rightarrow> (False, p1)
     | (Some w, p1) \<Rightarrow> fill_pool env n (p1\<lparr>pl_available := pl_available p1 @ [w]\<rparr>))"

text \<open>\<open>None\<close>: starting a worker raised.\<close>
definition new_pool :: "'d sandbox_env \<Rightarrow> nat \<Rightarrow> nat \<Rightarrow> pool option \<times> nat" where
  "new_pool env n started =
    (let (ok, p) = fill_pool env n \<lparr>pl_size = n, pl_available = [], pl_started = started, pl_retired = []\<rparr>
     in (if ok then Some p else None, pl_started p))"

definition checkout :: "'d sandbox_env \<Rightarrow> pool \<Rightarrow> worker option \<times> pool" where
  "checkout env p =
    (if pl_available p \<noteq> [] then (Some (last (pl_available p)), p\<lparr>pl_available := butlast (pl_available p)\<rparr>)
     else (case spawn_worker env p of (w, p1) \<Rightarrow> (map_option (\<lambda>w. w\<lparr>wk_is_overflow := True\<rparr>) w, p1)))"

text \<open>\<open>False\<close>: the replacement could not be started.\<close>
definition checkin :: "'d sandbox_env \<Rightarrow> bool \<Rightarrow> worker \<Rightarrow> pool \<Rightarrow> bool \<times> pool" where
  "checkin env healthy w p =
    (if wk_is_overflow w then (True, retire w p)
     else if \<not> healthy \<or> MAX_JOBS_PER_WORKER \<le> wk_jobs_done w then
       (case spawn_worker env (retire w p) of
          (None, p1) \<Rightarrow> (False, p1)
        | (Some w1, p1) \<Rightarrow> (True, p1\<lparr>pl_available := pl_available p1 @ [w1]\<rparr>))
     else (True, p\<lparr>pl_available := pl_available p @ [w]\<rparr>))"

text \<open>Reads chunks until the first newline. What the last chunk holds behind it is dropped; later chunks stay in the pipe.\<close>
fun read_line :: "string list \<Rightarrow> string \<Rightarrow> string option \<times> string list" where
  "read_line [] buf = (None, [])"
| "read_line (c # cs) buf =
    (if c = [] then (None, cs)
     else if CHR 0x0A \<in> set (buf @ c) then (Some (takeWhile (\<lambda>x. x \<noteq> CHR 0x0A) (buf @ c)), cs)
     else read_line cs (buf @ c))"

datatype run_outcome = Answered string | Silent | Not_accepted

text \<open>The part of a run outside the lock: the worker takes the job and answers, or not.\<close>
definition run_job :: "'d sandbox_env \<Rightarrow> 'd job_input \<Rightarrow> worker \<Rightarrow> run_outcome \<times> worker" where
  "run_job env job w =
    (let b = se_warm env job in
     if \<not> jb_accepted b then (Not_accepted, w)
     else
      (let (line, rest) = read_line (wk_pipe w @ take (jb_timely b) (jb_chunks b)) [];
           w1 = w\<lparr>wk_pipe := rest @ drop (jb_timely b) (jb_chunks b)\<rparr>
       in case line of
            None \<Rightarrow> (Silent, w1)
          | Some s \<Rightarrow> (Answered s, w1)))"

definition answer_result :: "'d sandbox_env \<Rightarrow> string \<Rightarrow> sandbox_result option" where
  "answer_result env s =
    (case se_loads env s of None \<Rightarrow> Some (refused (Not_json (tail 500 s))) | Some j \<Rightarrow> result_of_json j)"

text \<open>The end of a run: the worker goes back, or is lost if its answer cannot be decoded. \<open>None\<close> is an exception.\<close>
definition finish_job :: "'d sandbox_env \<Rightarrow> run_outcome \<Rightarrow> worker \<Rightarrow> pool \<Rightarrow> sandbox_result option \<times> pool" where
  "finish_job env out w p =
    (case out of
       Not_accepted \<Rightarrow> (case checkin env False w p of (ok, p1) \<Rightarrow> (if ok then Some (refused Worker_died) else None, p1))
     | Silent \<Rightarrow> (case checkin env False w p of (ok, p1) \<Rightarrow> (if ok then Some (refused Deadline_exceeded) else None, p1))
     | Answered s \<Rightarrow>
        if \<not> se_utf8 env s then (None, p)
        else (case checkin env True (w\<lparr>wk_jobs_done := Suc (wk_jobs_done w)\<rparr>) p of (ok, p1) \<Rightarrow> (if ok then answer_result env s else None, p1)))"

definition pool_execute :: "'d sandbox_env \<Rightarrow> 'd job_input \<Rightarrow> pool \<Rightarrow> sandbox_result option \<times> pool" where
  "pool_execute env job p =
    (case checkout env p of
       (None, p1) \<Rightarrow> (None, p1)
     | (Some w, p1) \<Rightarrow> (let (out, w1) = run_job env job w in finish_job env out w1 p1))"

text \<open>Workers that are checked out when the pool is shut down are not in its list.\<close>
definition shutdown_pool :: "pool \<Rightarrow> pool" where
  "shutdown_pool p = p\<lparr>pl_available := [], pl_retired := map wk_id (pl_available p) @ pl_retired p\<rparr>"

text \<open>The process-wide pool, made on first use.\<close>
record pool_process =
  pp_pool :: "pool option"
  pp_started :: nat

definition get_pool :: "'d sandbox_env \<Rightarrow> nat \<Rightarrow> pool_process \<Rightarrow> pool option \<times> pool_process" where
  "get_pool env n pp =
    (case pp_pool pp of
       Some p \<Rightarrow> (Some p, pp)
     | None \<Rightarrow> (let (p, k) = new_pool env n (pp_started pp) in (p, pp\<lparr>pp_pool := p, pp_started := k\<rparr>)))"

definition execute_in_pool :: "'d sandbox_env \<Rightarrow> bool \<Rightarrow> nat \<Rightarrow> 'd job_input \<Rightarrow> pool_process \<Rightarrow> sandbox_result option \<times> pool_process" where
  "execute_in_pool env enabled n job pp =
    (if \<not> enabled then (execute_in_sandbox env job, pp)
     else
      (case get_pool env n pp of
         (None, pp1) \<Rightarrow> (execute_in_sandbox env job, pp1)
       | (Some p, pp1) \<Rightarrow>
          (let (res, p1) = pool_execute env job p; pp2 = pp1\<lparr>pp_pool := Some p1, pp_started := pl_started p1\<rparr>
           in (case res of Some r \<Rightarrow> Some r | None \<Rightarrow> execute_in_sandbox env job, pp2))))"


section \<open>Concurrent runs\<close>

text \<open>The pool with the workers that are checked out: runs of several threads interleave between the two lock holds.\<close>
inductive pool_step :: "'d sandbox_env \<Rightarrow> pool \<times> worker list \<Rightarrow> pool \<times> worker list \<Rightarrow> bool" for env where
  run_starts: "checkout env p = (Some w, p') \<Longrightarrow> pool_step env (p, B) (p', w # B)"
| start_fails: "checkout env p = (None, p') \<Longrightarrow> pool_step env (p, B) (p', B)"
| run_ends: "run_job env job w = (out, w') \<Longrightarrow> finish_job env out w' p = (res, p') \<Longrightarrow> pool_step env (p, B1 @ w # B2) (p', B1 @ B2)"
| pool_stops: "pool_step env (p, B) (shutdown_pool p, B)"

definition held :: "pool \<times> worker list \<Rightarrow> worker list" where "held s = pl_available (fst s) @ snd s"

definition pool_ok :: "pool \<times> worker list \<Rightarrow> bool" where
  "pool_ok s \<longleftrightarrow> distinct (map wk_id (held s)) \<and> (\<forall>w \<in> set (held s). wk_id w < pl_started (fst s) \<and> wk_id w \<notin> set (pl_retired (fst s)))
    \<and> (\<forall>w \<in> set (held s). wk_jobs_done w < MAX_JOBS_PER_WORKER) \<and> (\<forall>w \<in> set (pl_available (fst s)). \<not> wk_is_overflow w)
    \<and> (\<forall>i \<in> set (pl_retired (fst s)). i < pl_started (fst s))
    \<and> length (filter (\<lambda>w. \<not> wk_is_overflow w) (held s)) \<le> pl_size (fst s)"

lemma run_job_worker:
  "run_job env job w = (out, w') \<Longrightarrow> wk_id w' = wk_id w \<and> wk_jobs_done w' = wk_jobs_done w \<and> wk_is_overflow w' = wk_is_overflow w"
  by (auto simp: run_job_def Let_def split: if_splits prod.splits option.splits)

lemma pool_ok_checkout:
  assumes "pool_ok (p, B)" and "checkout env p = (r, p')"
  shows "pool_ok (p', case r of Some w \<Rightarrow> w # B | None \<Rightarrow> B)"
proof (cases "pl_available p = []")
  case True
  have "pl_started p \<notin> set (pl_retired p)" "pl_started p \<notin> wk_id ` set B" using assms(1) by (fastforce simp: pool_ok_def held_def)+
  then show ?thesis using assms True by (auto simp: checkout_def spawn_worker_def pool_ok_def held_def MAX_JOBS_PER_WORKER_def less_Suc_eq split: if_splits)
next
  case False
  then obtain ws w where ws: "pl_available p = ws @ [w]" by (metis append_butlast_last_id)
  have "distinct (map wk_id (ws @ w # B)) \<longleftrightarrow> distinct (map wk_id (w # ws @ B))" by auto
  moreover have "p' = p\<lparr>pl_available := ws\<rparr>" "r = Some w" using assms(2) ws by (simp_all add: checkout_def)
  moreover have "filter (\<lambda>w. \<not> wk_is_overflow w) ws = ws" "\<not> wk_is_overflow w"
    using assms(1) ws by (auto simp: pool_ok_def filter_id_conv)
  ultimately show ?thesis using assms(1) by (simp add: pool_ok_def held_def ws)
qed

text \<open>What a check-in does to the pool: the worker comes back, or a new one, or none.\<close>
lemma checkin_cases:
  assumes "checkin env h w p = (ok, p')"
  obtains (returned) "p' = p\<lparr>pl_available := pl_available p @ [w]\<rparr>" "\<not> wk_is_overflow w" "wk_jobs_done w < MAX_JOBS_PER_WORKER"
  | (gone) "p' = retire w p" "wk_is_overflow w"
  | (replaced) "p' = (retire w p)\<lparr>pl_started := Suc (pl_started p),
      pl_available := pl_available p @ [\<lparr>wk_id = pl_started p, wk_pipe = [], wk_jobs_done = 0, wk_is_overflow = False\<rparr>]\<rparr>" "\<not> wk_is_overflow w"
  | (lost) "p' = (retire w p)\<lparr>pl_started := Suc (pl_started p)\<rparr>" "\<not> wk_is_overflow w"
  using assms by (auto simp: checkin_def spawn_worker_def retire_def split: if_splits)

abbreviation regular :: "pool \<times> worker list \<Rightarrow> nat" where "regular s \<equiv> length (filter (\<lambda>w. \<not> wk_is_overflow w) (held s))"

lemma pool_ok_leave:
  assumes "pool_ok (p, B1 @ w0 # B2)"
  shows "pool_ok (p, B1 @ B2)" "\<not> wk_is_overflow w0 \<Longrightarrow> regular (p, B1 @ B2) < pl_size p"
  using assms by (auto simp: pool_ok_def held_def split: if_splits)

lemma pool_ok_retire:
  assumes "pool_ok (p, B1 @ w0 # B2)" "wk_id w = wk_id w0" shows "pool_ok (retire w p, B1 @ B2)"
proof -
  have "\<forall>x \<in> set (pl_available p @ B1 @ B2). wk_id x \<noteq> wk_id w0" "wk_id w0 < pl_started p"
    using assms(1) by (auto simp: pool_ok_def held_def image_iff)
  then show ?thesis using pool_ok_leave(1)[OF assms(1)] assms(2) by (auto simp: pool_ok_def held_def retire_def)
qed

lemma pool_ok_return:
  assumes "pool_ok (p, B1 @ w0 # B2)" "wk_id w = wk_id w0" "\<not> wk_is_overflow w" "wk_is_overflow w = wk_is_overflow w0" "wk_jobs_done w < MAX_JOBS_PER_WORKER"
  shows "pool_ok (p\<lparr>pl_available := pl_available p @ [w]\<rparr>, B1 @ B2)"
proof -
  have "wk_id w0 \<notin> wk_id ` set (pl_available p @ B1 @ B2)" "wk_id w0 < pl_started p" "wk_id w0 \<notin> set (pl_retired p)"
    using assms(1) by (auto simp: pool_ok_def held_def)
  then show ?thesis using pool_ok_leave[OF assms(1)] assms(2-) by (auto simp: pool_ok_def held_def)
qed

lemma pool_ok_start:
  assumes "pool_ok (p, B)" "regular (p, B) < pl_size p"
  shows "pool_ok (p\<lparr>pl_started := Suc (pl_started p),
    pl_available := pl_available p @ [\<lparr>wk_id = pl_started p, wk_pipe = [], wk_jobs_done = 0, wk_is_overflow = False\<rparr>]\<rparr>, B)"
proof -
  have "pl_started p \<notin> wk_id ` set (held (p, B))" "pl_started p \<notin> set (pl_retired p)" using assms(1) by (fastforce simp: pool_ok_def)+
  then show ?thesis using assms by (auto simp: pool_ok_def held_def MAX_JOBS_PER_WORKER_def less_Suc_eq)
qed

lemma pool_ok_checkin:
  assumes ok: "pool_ok (p, B1 @ w0 # B2)" and w: "wk_id w = wk_id w0" "wk_is_overflow w = wk_is_overflow w0"
    and c: "checkin env h w p = (r, p')"
  shows "pool_ok (p', B1 @ B2)"
proof -
  note gone = pool_ok_retire[OF ok w(1)]
  have room: "\<not> wk_is_overflow w \<Longrightarrow> regular (retire w p, B1 @ B2) < pl_size (retire w p)"
    using pool_ok_leave(2)[OF ok] w by (simp add: retire_def held_def)
  show ?thesis
    using c
  proof (cases rule: checkin_cases)
    case returned
    then show ?thesis using pool_ok_return[OF ok w(1)] w(2) by simp
  next
    case replaced
    then show ?thesis using pool_ok_start[OF gone room] by (simp add: retire_def)
  next
    case lost
    then show ?thesis using gone by (auto simp: pool_ok_def held_def less_Suc_eq retire_def)
  qed (use gone in simp)
qed

lemma pool_ok_finish:
  assumes ok: "pool_ok (p, B1 @ w0 # B2)" and run: "run_job env job w0 = (out, w)" and fin: "finish_job env out w p = (r, p')"
  shows "pool_ok (p', B1 @ B2)"
proof -
  note w = run_job_worker[OF run]
  note leave = pool_ok_leave(1)[OF ok]
  show ?thesis
  proof (cases out)
    case (Answered s)
    then show ?thesis using fin leave w pool_ok_checkin[OF ok, of "w\<lparr>wk_jobs_done := Suc (wk_jobs_done w)\<rparr>" env True]
      by (auto simp: finish_job_def split: if_splits prod.splits)
  qed (use fin w pool_ok_checkin[OF ok, of w env False] in \<open>auto simp: finish_job_def split: prod.splits\<close>)
qed

lemma pool_ok_step: "pool_step env s s' \<Longrightarrow> pool_ok s \<Longrightarrow> pool_ok s'"
proof (induction rule: pool_step.induct)
  case (run_starts p w p' B)
  then show ?case using pool_ok_checkout[of p B env "Some w" p'] by simp
next
  case (start_fails p p' B)
  then show ?case using pool_ok_checkout[of p B env None p'] by simp
next
  case (run_ends job w out w' p res p' B1 B2)
  then show ?case by (blast intro: pool_ok_finish)
next
  case (pool_stops p B)
  then show ?case by (auto simp: pool_ok_def held_def shutdown_pool_def)
qed

lemma pool_ok_fill:
  assumes "fill_pool env n p = (True, p')" and "pool_ok (p, [])" and "length (pl_available p) + n \<le> pl_size p"
  shows "pool_ok (p', [])"
  using assms
proof (induction n arbitrary: p)
  case (Suc n)
  then obtain w p1 where sp: "spawn_worker env p = (Some w, p1)" by (auto split: prod.splits option.splits)
  let ?p2 = "p1\<lparr>pl_available := pl_available p1 @ [w]\<rparr>"
  have "regular (p, []) \<le> length (pl_available p)" by (simp add: held_def)
  then have "regular (p, []) < pl_size p" using Suc.prems(3) by simp
  from pool_ok_start[OF Suc.prems(2) this] have "pool_ok (?p2, [])" "length (pl_available ?p2) + n \<le> pl_size ?p2"
    using sp Suc.prems(3) by (auto simp: spawn_worker_def split: if_splits)
  then show ?case using Suc.IH[of ?p2] Suc.prems sp by simp
qed simp

text \<open>Whatever the interleaving of the runs, no worker is held by two runs, or by a run and the pool; a worker that was
  retired never comes back; no worker takes more than twenty-five jobs; and apart from the temporary extra ones there
  are never more workers than the configured size.\<close>
theorem pool_workers_are_exclusive:
  assumes "new_pool env n started = (Some p0, k)" and "rtranclp (pool_step env) (p0, []) s"
  shows "distinct (map wk_id (held s)) \<and> (\<forall>w \<in> set (held s). wk_id w \<notin> set (pl_retired (fst s)) \<and> wk_jobs_done w < MAX_JOBS_PER_WORKER)
    \<and> length (filter (\<lambda>w. \<not> wk_is_overflow w) (held s)) \<le> pl_size (fst s)"
proof -
  have "pool_ok (\<lparr>pl_size = n, pl_available = [], pl_started = started, pl_retired = []\<rparr>, [])" by (simp add: pool_ok_def held_def)
  then have "pool_ok (p0, [])"
    using assms(1) pool_ok_fill[of env n "\<lparr>pl_size = n, pl_available = [], pl_started = started, pl_retired = []\<rparr>" p0]
    by (auto simp: new_pool_def Let_def split: prod.splits if_splits)
  with assms(2) have "pool_ok s" by (induction rule: rtranclp_induct) (auto intro: pool_ok_step)
  then show ?thesis by (simp add: pool_ok_def)
qed



section \<open>Isolation\<close>

text \<open>The answer of a worker that has run nothing else.\<close>
definition fresh_worker :: worker where "fresh_worker = \<lparr>wk_id = 0, wk_pipe = [], wk_jobs_done = 0, wk_is_overflow = False\<rparr>"

definition own_result :: "'d sandbox_env \<Rightarrow> 'd job_input \<Rightarrow> sandbox_result option" where
  "own_result env job =
    (case fst (run_job env job fresh_worker) of
       Not_accepted \<Rightarrow> Some (refused Worker_died) | Silent \<Rightarrow> Some (refused Deadline_exceeded)
     | Answered s \<Rightarrow> if se_utf8 env s then answer_result env s else None)"

text \<open>A job that leaves nothing behind in the pipe of a worker that answers.\<close>
definition leaves_no_output :: "'d sandbox_env \<Rightarrow> 'd job_input \<Rightarrow> bool" where
  "leaves_no_output env job \<longleftrightarrow> (\<forall>s w. run_job env job fresh_worker = (Answered s, w) \<longrightarrow> wk_pipe w = [])"

fun run_jobs :: "'d sandbox_env \<Rightarrow> 'd job_input list \<Rightarrow> pool \<Rightarrow> sandbox_result option list \<times> pool" where
  "run_jobs env [] p = ([], p)"
| "run_jobs env (j # js) p = (let (r, p1) = pool_execute env j p; (rs, p2) = run_jobs env js p1 in (r # rs, p2))"

lemma run_job_clean:
  assumes "wk_pipe w = []"
  shows "fst (run_job env job w) = fst (run_job env job fresh_worker) \<and> wk_pipe (snd (run_job env job w)) = wk_pipe (snd (run_job env job fresh_worker))"
  using assms by (auto simp: run_job_def fresh_worker_def Let_def split: prod.splits option.splits)

definition clean :: "pool \<Rightarrow> bool" where "clean p \<longleftrightarrow> (\<forall>w \<in> set (pl_available p). wk_pipe w = [])"

lemma checkout_clean:
  assumes "clean p" and "\<forall>i. se_spawns env i"
  shows "\<exists>w p'. checkout env p = (Some w, p') \<and> wk_pipe w = [] \<and> clean p'"
proof (cases "pl_available p = []")
  case True
  then show ?thesis using assms by (simp add: checkout_def spawn_worker_def clean_def)
next
  case False
  then obtain ws w where ws: "pl_available p = ws @ [w]" by (metis append_butlast_last_id)
  then show ?thesis using assms(1) by (simp add: checkout_def clean_def)
qed

lemma checkin_clean:
  assumes "clean p" and "h \<longrightarrow> wk_pipe w = []" and "\<forall>i. se_spawns env i"
  shows "\<exists>p'. checkin env h w p = (True, p') \<and> clean p'"
  using assms by (auto simp: checkin_def spawn_worker_def clean_def retire_def)

lemma execute_clean:
  assumes "clean p" and "\<forall>i. se_spawns env i" and "leaves_no_output env job"
  shows "fst (pool_execute env job p) = own_result env job \<and> clean (snd (pool_execute env job p))"
proof -
  obtain w p1 where co: "checkout env p = (Some w, p1)" "wk_pipe w = []" "clean p1" using checkout_clean[OF assms(1,2)] by blast
  obtain out w1 where run: "run_job env job w = (out, w1)" by (cases "run_job env job w")
  have fresh: "fst (run_job env job fresh_worker) = out" "wk_pipe (snd (run_job env job fresh_worker)) = wk_pipe w1"
    using run_job_clean[OF co(2), of env job] run by simp_all
  have fin: "\<exists>r p2. finish_job env out w1 p1 = (r, p2) \<and> r = own_result env job \<and> clean p2"
  proof (cases out)
    case (Answered s)
    have "wk_pipe w1 = []"
      using assms(3) fresh Answered unfolding leaves_no_output_def by (metis prod.collapse)
    then show ?thesis
      using checkin_clean[OF co(3) _ assms(2), of True "w1\<lparr>wk_jobs_done := Suc (wk_jobs_done w1)\<rparr>"] Answered fresh(1) co(3)
      by (auto simp: finish_job_def own_result_def)
  qed (use checkin_clean[OF co(3) _ assms(2), of False w1] fresh(1) in \<open>auto simp: finish_job_def own_result_def\<close>)
  then show ?thesis using co(1) run by (auto simp: pool_execute_def)
qed



text \<open>A job that prints while it runs, and one that answers at once.\<close>
definition sample_sandbox :: "unit sandbox_env" where
  "sample_sandbox = \<lparr>se_loads = (\<lambda>s. Some (JObj [(''passed'', JBool True), (''portfolio_summary'', JStr s), (''error'', JNull)])),
     se_utf8 = (\<lambda>_. True), se_fresh = (\<lambda>_. Process_timeout),
     se_warm = (\<lambda>j. if ji_code j = ''chatty'' then \<lparr>jb_accepted = True, jb_chunks = [''hello'' @ [CHR 0x0A], ''first'' @ [CHR 0x0A]], jb_timely = 1\<rparr>
       else \<lparr>jb_accepted = True, jb_chunks = [''second'' @ [CHR 0x0A]], jb_timely = 1\<rparr>),
     se_spawns = (\<lambda>_. True)\<rparr>"

definition sample_job :: "string \<Rightarrow> unit job_input" where "sample_job c = \<lparr>ji_code = c, ji_config = JObj [], ji_data = ()\<rparr>"

definition sample_pool :: pool where "sample_pool = \<lparr>pl_size = 1, pl_available = [fresh_worker], pl_started = 1, pl_retired = []\<rparr>"



theorem pool_workers_are_exclusive_witness:
  "\<exists>p0 k s. new_pool sample_sandbox 2 0 = (Some p0, k) \<and> rtranclp (pool_step sample_sandbox) (p0, []) s \<and> snd s \<noteq> [] \<and> distinct (map wk_id (held s))"
proof -
  obtain p0 k where p: "new_pool sample_sandbox 2 0 = (Some p0, k)" "pl_available p0 \<noteq> []"
    by (simp add: new_pool_def sample_sandbox_def spawn_worker_def eval_nat_numeral)
  then have "pool_step sample_sandbox (p0, []) (p0\<lparr>pl_available := butlast (pl_available p0)\<rparr>, [last (pl_available p0)])"
    by (intro run_starts) (simp add: checkout_def)
  then have r: "rtranclp (pool_step sample_sandbox) (p0, []) (p0\<lparr>pl_available := butlast (pl_available p0)\<rparr>, [last (pl_available p0)])" by blast
  show ?thesis using pool_workers_are_exclusive[OF p(1) r] p(1) r by fastforce
qed



end
