(* ===== verification/Backtests.thy ===== *)
theory Backtests
  imports DataLake Sandbox "HOL-Library.Multiset"
begin

text \<open>
  Backtests on real prices: the adjustment for splits and bonuses (\<open>src/engine/backtest/corporate_actions_adjust.py\<close>), the
  run through the sandbox with the reading of its answer (\<open>src/engine/sandbox/backtest_runner.py\<close>), the costs of a
  trade (\<open>src/engine/backtest/friction.py\<close>), the resampling of the trades (\<open>src/engine/optimization/monte_carlo.py\<close>)
  and the walk-forward windows (\<open>walk_forward.py\<close>, \<open>walk_forward_adapter.py\<close>). Floats are reals.
\<close>

section \<open>Splits and bonuses\<close>

definition SPLIT_BONUS_TYPES :: "string list" where "SPLIT_BONUS_TYPES = [''SPLIT'', ''BONUS'']"

definition load_corporate_actions :: "corporate_action list \<Rightarrow> string \<Rightarrow> corporate_action list" where
  "load_corporate_actions actions s = sort_key ca_ex_date (filter (\<lambda>a. ca_symbol a = s) actions)"

definition relevant_action :: "corporate_action \<Rightarrow> bool" where
  "relevant_action a \<longleftrightarrow> ca_action_type a \<in> set SPLIT_BONUS_TYPES \<and> ca_ratio_numerator a \<noteq> None
     \<and> (case ca_ratio_denominator a of None \<Rightarrow> False | Some d \<Rightarrow> d \<noteq> 0)"

definition action_factor :: "corporate_action \<Rightarrow> real" where
  "action_factor a = the (ca_ratio_numerator a) / the (ca_ratio_denominator a)"

definition scale_prices :: "real \<Rightarrow> eod_row \<Rightarrow> eod_row" where
  "scale_prices f r = r\<lparr>eo_open := eo_open r * f, eo_high := eo_high r * f, eo_low := eo_low r * f, eo_close := eo_close r * f\<rparr>"

definition apply_action :: "eod_row list \<Rightarrow> corporate_action \<Rightarrow> eod_row list" where
  "apply_action rows a = map (\<lambda>r. if eo_date r < ca_ex_date a then scale_prices (action_factor a) r else r) rows"

definition adjust_ohlcv_for_corporate_actions :: "eod_row list \<Rightarrow> corporate_action list \<Rightarrow> eod_row list" where
  "adjust_ohlcv_for_corporate_actions rows actions =
    (if rows = [] then rows else foldl apply_action rows (sort_key (\<lambda>a. - ca_ex_date a) (filter relevant_action actions)))"

section \<open>Reading the answer of a strategy\<close>

definition METRIC_KEYS :: "string list" where
  "METRIC_KEYS = [''sharpe_ratio'', ''sortino_ratio'', ''calmar_ratio'', ''max_drawdown'', ''cagr'', ''win_rate'', ''profit_factor'',
     ''expectancy'', ''total_trades'']"

text \<open>An int or a float, and not a bool.\<close>
definition plain_number :: "json option \<Rightarrow> real option" where
  "plain_number j = (case j of Some (JInt i) \<Rightarrow> Some (real_of_int i) | Some (JFloat x) \<Rightarrow> Some x | _ \<Rightarrow> None)"

definition plain_text :: "json option \<Rightarrow> string option" where
  "plain_text j = (case j of Some (JStr s) \<Rightarrow> Some s | _ \<Rightarrow> None)"

definition plain_bool :: "json option \<Rightarrow> bool option" where
  "plain_bool j = (case j of Some (JBool b) \<Rightarrow> Some b | _ \<Rightarrow> None)"

definition is_object :: "json \<Rightarrow> bool" where "is_object j \<longleftrightarrow> (case j of JObj _ \<Rightarrow> True | _ \<Rightarrow> False)"

definition extract_metrics :: "json option \<Rightarrow> (string, real) dict" where
  "extract_metrics raw =
    (case raw of
       Some (JObj fs) \<Rightarrow> concat (map (\<lambda>k. case plain_number (json_get (JObj fs) k) of None \<Rightarrow> [] | Some x \<Rightarrow> [(k, x)]) METRIC_KEYS)
     | _ \<Rightarrow> [])"

text \<open>The items of a list that are objects and can be read; the others are dropped.\<close>
definition extract_items :: "(json \<Rightarrow> 'a option) \<Rightarrow> json option \<Rightarrow> 'a list" where
  "extract_items read raw =
    (case raw of Some (JArr items) \<Rightarrow> concat (map (\<lambda>j. if is_object j then (case read j of None \<Rightarrow> [] | Some x \<Rightarrow> [x]) else []) items) | _ \<Rightarrow> [])"

record equity_point =
  ep_date :: string
  ep_equity :: real

record backtest_trade =
  bt_entry_date :: string
  bt_exit_date :: string
  bt_side :: string
  bt_size :: real
  bt_entry_price :: real
  bt_exit_price :: real
  bt_pnl :: real
  bt_return_pct :: real

record entry_exit_point =
  xp_date :: string
  xp_entry :: bool
  xp_exit :: bool

definition read_equity_point :: "json \<Rightarrow> equity_point option" where
  "read_equity_point j =
    (case (plain_text (json_get j ''date''), plain_number (json_get j ''equity'')) of
       (Some d, Some e) \<Rightarrow> Some \<lparr>ep_date = d, ep_equity = e\<rparr> | _ \<Rightarrow> None)"

definition read_trade :: "json \<Rightarrow> backtest_trade option" where
  "read_trade j =
    (let t = (\<lambda>k. plain_text (json_get j k)); x = (\<lambda>k. plain_number (json_get j k)) in
     case (t ''entry_date'', t ''exit_date'', t ''side'', x ''size'', x ''entry_price'', x ''exit_price'', x ''pnl'', x ''return_pct'') of
       (Some d, Some e, Some s, Some n, Some p, Some q, Some g, Some r) \<Rightarrow>
         Some \<lparr>bt_entry_date = d, bt_exit_date = e, bt_side = s, bt_size = n, bt_entry_price = p, bt_exit_price = q, bt_pnl = g, bt_return_pct = r\<rparr>
     | _ \<Rightarrow> None)"

definition read_entry_exit :: "json \<Rightarrow> entry_exit_point option" where
  "read_entry_exit j =
    (case (plain_text (json_get j ''date''), plain_bool (json_get j ''entry''), plain_bool (json_get j ''exit'')) of
       (Some d, Some a, Some b) \<Rightarrow> Some \<lparr>xp_date = d, xp_entry = a, xp_exit = b\<rparr> | _ \<Rightarrow> None)"

definition extract_equity_curve :: "json option \<Rightarrow> equity_point list" where "extract_equity_curve = extract_items read_equity_point"
definition extract_trades :: "json option \<Rightarrow> backtest_trade list" where "extract_trades = extract_items read_trade"
definition extract_entries_exits :: "json option \<Rightarrow> entry_exit_point list" where "extract_entries_exits = extract_items read_entry_exit"

section \<open>A backtest on real prices\<close>

datatype backtest_error = Empty_universe | No_data string int int | Run_failed "sandbox_error option"

record real_backtest_outcome =
  rb_passed :: bool
  rb_error :: "backtest_error option"
  rb_symbol_used :: string
  rb_metrics :: "(string, real) dict"
  rb_equity_curve :: "equity_point list"
  rb_trades :: "backtest_trade list"
  rb_entries_exits :: "entry_exit_point list"
  rb_close_curve :: "(string \<times> real) list"
  rb_data_adjusted :: bool
  rb_provenance :: "(string \<times> int) option"

definition no_outcome :: "backtest_error \<Rightarrow> string \<Rightarrow> bool \<Rightarrow> (string \<times> int) option \<Rightarrow> real_backtest_outcome" where
  "no_outcome e s adjusted prov = \<lparr>rb_passed = False, rb_error = Some e, rb_symbol_used = s, rb_metrics = [], rb_equity_curve = [], rb_trades = [],
     rb_entries_exits = [], rb_close_curve = [], rb_data_adjusted = adjusted, rb_provenance = prov\<rparr>"

definition close_curve_from_data :: "eod_row list \<Rightarrow> (string \<times> real) list" where
  "close_curve_from_data rows = map (\<lambda>r. (iso_date (eo_date r), eo_close r)) rows"

record backtest_request =
  br_code :: string
  br_universe :: "string list"
  br_from :: int
  br_to :: int
  br_config :: json
  br_adjust :: bool

text \<open>The prices the strategy is run on.\<close>
definition backtest_data :: "ingest_state \<Rightarrow> corporate_action list \<Rightarrow> backtest_request \<Rightarrow> string \<Rightarrow> eod_row list" where
  "backtest_data st actions q s =
    (let rows = read_symbol (ig_lake st) s (Some (br_from q)) (Some (br_to q)) in
     if br_adjust q then adjust_ohlcv_for_corporate_actions (sort_key eo_date rows) (load_corporate_actions actions s) else rows)"

text \<open>The outer \<open>None\<close> is an exception of the sandbox.\<close>
definition run_real_backtest ::
  "eod_row list sandbox_env \<Rightarrow> bool \<Rightarrow> nat \<Rightarrow> ingest_state \<Rightarrow> corporate_action list \<Rightarrow> backtest_request \<Rightarrow> pool_process
    \<Rightarrow> real_backtest_outcome option \<times> pool_process" where
  "run_real_backtest env pooled n st actions q pp =
    (case br_universe q of
       [] \<Rightarrow> (Some (no_outcome Empty_universe [] False None), pp)
     | s # _ \<Rightarrow>
        if read_symbol (ig_lake st) s (Some (br_from q)) (Some (br_to q)) = [] then (Some (no_outcome (No_data s (br_from q) (br_to q)) s False None), pp)
        else
         (let prov = dict_get (ig_provenance st) s;
              rows = backtest_data st actions q s;
              (res, pp1) = execute_in_pool env pooled n \<lparr>ji_code = br_code q, ji_config = br_config q, ji_data = rows\<rparr> pp
          in (case res of
                None \<Rightarrow> None
              | Some r \<Rightarrow>
                 if \<not> sr_passed r then Some (no_outcome (Run_failed (sr_error r)) s (br_adjust q) prov)
                 else
                  (let field = (\<lambda>k. case sr_summary r of None \<Rightarrow> None | Some j \<Rightarrow> json_get j k)
                   in Some \<lparr>rb_passed = True, rb_error = None, rb_symbol_used = s, rb_metrics = extract_metrics (field ''metrics''),
                        rb_equity_curve = extract_equity_curve (field ''equity_curve''), rb_trades = extract_trades (field ''trades''),
                        rb_entries_exits = extract_entries_exits (field ''entries_exits''), rb_close_curve = close_curve_from_data rows,
                        rb_data_adjusted = br_adjust q, rb_provenance = prov\<rparr>),
              pp1)))"

section \<open>Costs\<close>

datatype segment = Delivery_segment | Intraday_segment
datatype leg_side = Buy_leg | Sell_leg

definition BROKERAGE_RATE :: real where "BROKERAGE_RATE = 3 / 10000"
definition BROKERAGE_CAP :: real where "BROKERAGE_CAP = 20"
definition STT_RATE_DELIVERY :: real where "STT_RATE_DELIVERY = 1 / 1000"
definition STT_RATE_INTRADAY_SELL :: real where "STT_RATE_INTRADAY_SELL = 25 / 100000"
definition EXCHANGE_CHARGE_RATE :: real where "EXCHANGE_CHARGE_RATE = 297 / 10000000"
definition SEBI_CHARGE_RATE :: real where "SEBI_CHARGE_RATE = 1 / 1000000"
definition STAMP_DUTY_RATE_DELIVERY :: real where "STAMP_DUTY_RATE_DELIVERY = 15 / 100000"
definition STAMP_DUTY_RATE_INTRADAY :: real where "STAMP_DUTY_RATE_INTRADAY = 3 / 100000"
definition GST_RATE :: real where "GST_RATE = 18 / 100"

record trade_cost =
  tc_turnover :: real
  tc_brokerage :: real
  tc_stt :: real
  tc_exchange :: real
  tc_sebi :: real
  tc_stamp_duty :: real
  tc_gst :: real

definition cost_total :: "trade_cost \<Rightarrow> real" where
  "cost_total c = tc_brokerage c + tc_stt c + tc_exchange c + tc_sebi c + tc_stamp_duty c + tc_gst c"

definition fraction_of_turnover :: "trade_cost \<Rightarrow> real" where
  "fraction_of_turnover c = (if tc_turnover c \<noteq> 0 then cost_total c / tc_turnover c else 0)"

definition compute_brokerage :: "real \<Rightarrow> real" where "compute_brokerage t = min (t * BROKERAGE_RATE) BROKERAGE_CAP"

definition compute_stt :: "real \<Rightarrow> segment \<Rightarrow> leg_side \<Rightarrow> real" where
  "compute_stt t seg side = (if seg = Delivery_segment then t * STT_RATE_DELIVERY else if side = Sell_leg then t * STT_RATE_INTRADAY_SELL else 0)"

definition compute_stamp_duty :: "real \<Rightarrow> segment \<Rightarrow> leg_side \<Rightarrow> real" where
  "compute_stamp_duty t seg side =
    (if side \<noteq> Buy_leg then 0 else t * (if seg = Delivery_segment then STAMP_DUTY_RATE_DELIVERY else STAMP_DUTY_RATE_INTRADAY))"

definition compute_trade_cost :: "real \<Rightarrow> real \<Rightarrow> segment \<Rightarrow> leg_side \<Rightarrow> trade_cost" where
  "compute_trade_cost price quantity seg side =
    (let t = price * quantity; b = compute_brokerage t; x = t * EXCHANGE_CHARGE_RATE; s = t * SEBI_CHARGE_RATE in
     \<lparr>tc_turnover = t, tc_brokerage = b, tc_stt = compute_stt t seg side, tc_exchange = x, tc_sebi = s,
      tc_stamp_duty = compute_stamp_duty t seg side, tc_gst = GST_RATE * (b + x + s)\<rparr>)"

definition SLIPPAGE_BASE :: real where "SLIPPAGE_BASE = 5 / 10000"
definition SLIPPAGE_ATR_COEF :: real where "SLIPPAGE_ATR_COEF = 1 / 2"
definition SLIPPAGE_MAX :: real where "SLIPPAGE_MAX = 1 / 100"

fun true_ranges :: "real option \<Rightarrow> eod_row list \<Rightarrow> real list" where
  "true_ranges prev [] = []"
| "true_ranges prev (r # rs) =
    (let hl = \<bar>eo_high r - eo_low r\<bar> in
     (case prev of None \<Rightarrow> hl | Some p \<Rightarrow> max hl (max \<bar>eo_high r - p\<bar> \<bar>eo_low r - p\<bar>))) # true_ranges (Some (eo_close r)) rs"

text \<open>\<open>ewm(alpha=1/n, adjust=False).mean()\<close>\<close>
fun smoothed :: "real \<Rightarrow> real option \<Rightarrow> real list \<Rightarrow> real list" where
  "smoothed alpha prev [] = []"
| "smoothed alpha prev (x # xs) = (let y = (case prev of None \<Rightarrow> x | Some p \<Rightarrow> (1 - alpha) * p + alpha * x) in y # smoothed alpha (Some y) xs)"

definition rolling_mean :: "nat \<Rightarrow> real list \<Rightarrow> nat \<Rightarrow> real" where
  "rolling_mean n xs i = (let ws = drop (Suc i - n) (take (Suc i) xs) in sum_list ws / length ws)"

definition clip :: "real \<Rightarrow> real \<Rightarrow> real \<Rightarrow> real" where "clip lo hi x = min hi (max lo x)"

text \<open>A volume of zero is replaced by a missing value, and a missing ratio by one; a price of zero makes the ratio infinite or undefined.\<close>
definition slippage_at :: "real \<Rightarrow> real \<Rightarrow> real \<Rightarrow> real \<Rightarrow> real" where
  "slippage_at atr close volume avg =
    (let illiquidity = (if volume = 0 then 1 else clip (1 / 2) 2 (avg / volume)) in
     if close = 0 then (if atr = 0 then SLIPPAGE_BASE else SLIPPAGE_MAX)
     else clip SLIPPAGE_BASE SLIPPAGE_MAX ((SLIPPAGE_BASE + SLIPPAGE_ATR_COEF * (atr / close)) * illiquidity))"

definition compute_dynamic_slippage :: "nat \<Rightarrow> eod_row list \<Rightarrow> real list" where
  "compute_dynamic_slippage n rows =
    (let atr = smoothed (1 / real n) None (true_ranges None rows); vs = map (\<lambda>r. real_of_int (eo_volume r)) rows in
     map (\<lambda>i. slippage_at (atr ! i) (eo_close (rows ! i)) (vs ! i) (rolling_mean n vs i)) [0..<length rows])"

section \<open>Resampled trades\<close>

fun compounded :: "real \<Rightarrow> real list \<Rightarrow> real list" where
  "compounded e [] = []"
| "compounded e (r # rs) = e * (1 + r) # compounded (e * (1 + r)) rs"

fun drawdowns :: "real \<Rightarrow> real list \<Rightarrow> real list" where
  "drawdowns peak [] = []"
| "drawdowns peak (e # es) = (let p = max peak e in (p - e) / p # drawdowns p es)"

definition max_drawdown_from_returns :: "real list \<Rightarrow> real" where
  "max_drawdown_from_returns rs = (if rs = [] then 0 else foldl max 0 (drawdowns 1 (1 # compounded 1 rs)))"

text \<open>\<open>np.percentile\<close>: linear interpolation between the two nearest of the sorted values.\<close>
definition percentile :: "real \<Rightarrow> real list \<Rightarrow> real" where
  "percentile q xs =
    (let ys = sort xs; v = q / 100 * real (length xs - 1); i = nat \<lfloor>v\<rfloor>; t = v - real i in
     ys ! i + t * (ys ! min (Suc i) (length xs - 1) - ys ! i))"

record monte_carlo_result =
  mc_historical :: real
  mc_simulated :: "real list"
  mc_percentile_95 :: real

text \<open>The draws are the indices the random generator picks, one list per simulation.\<close>
definition run_monte_carlo_simulation :: "nat list list \<Rightarrow> real list \<Rightarrow> monte_carlo_result" where
  "run_monte_carlo_simulation draws rs =
    (if rs = [] then \<lparr>mc_historical = 0, mc_simulated = [], mc_percentile_95 = 0\<rparr>
     else (let sims = map (\<lambda>is. max_drawdown_from_returns (map ((!) rs) is)) draws in
           \<lparr>mc_historical = max_drawdown_from_returns rs, mc_simulated = sims, mc_percentile_95 = percentile 95 sims\<rparr>))"


section \<open>Walk-forward windows\<close>

text \<open>\<open>pd.DateOffset(months=k)\<close>: the same day of a later month, or the last one it has.\<close>
definition add_months :: "int \<Rightarrow> int \<Rightarrow> int" where
  "add_months k d =
    (case civil_of_days d of (y, m, dd) \<Rightarrow>
      (let t = y * 12 + (m - 1) + k; y' = t div 12; m' = t mod 12 + 1 in days_of_civil y' m' (min dd (days_in_month y' m'))))"

record walk_window =
  ww_train_start :: int
  ww_train_end :: int
  ww_test_start :: int
  ww_test_end :: int

text \<open>The loop of the source does not end when the step is zero: a result is a list of windows, or nothing.\<close>
partial_function (option) walk_windows :: "int \<Rightarrow> int \<Rightarrow> int \<Rightarrow> int \<Rightarrow> int \<Rightarrow> walk_window list option" where
  "walk_windows train test step stop start =
    (let train_end = add_months train start; test_end = add_months test train_end in
     if stop < test_end then Some []
     else Option.bind (walk_windows train test step stop (add_months step start))
            (\<lambda>ws. Some (\<lparr>ww_train_start = start, ww_train_end = train_end, ww_test_start = train_end, ww_test_end = test_end\<rparr> # ws)))"

definition generate_walk_forward_windows :: "int \<Rightarrow> int \<Rightarrow> int \<Rightarrow> int list \<Rightarrow> walk_window list option" where
  "generate_walk_forward_windows train test step days = walk_windows train test step (Max (set days)) (Min (set days))"

definition TRAIN_MONTHS :: int where "TRAIN_MONTHS = 4"
definition TEST_MONTHS :: int where "TEST_MONTHS = 1"
definition STEP_MONTHS :: int where "STEP_MONTHS = 1"

record window_metrics =
  wm_expectancy :: "real option"
  wm_sharpe_ratio :: "real option"
  wm_total_trades :: "int option"

record window_summary =
  ws_window :: walk_window
  ws_train_expectancy :: "real option"
  ws_test_expectancy :: "real option"
  ws_test_sharpe_ratio :: "real option"
  ws_test_total_trades :: "int option"
  ws_out_of_sample_passed :: bool

definition out_of_sample_passed :: "window_metrics \<Rightarrow> bool" where
  "out_of_sample_passed m = (case wm_expectancy m of None \<Rightarrow> False | Some e \<Rightarrow> 0 < e)"

text \<open>Slices by label include both ends.\<close>
definition slice :: "int \<Rightarrow> int \<Rightarrow> (int \<times> 'a) list \<Rightarrow> (int \<times> 'a) list" where
  "slice a b xs = filter (\<lambda>(d, _). a \<le> d \<and> d \<le> b) xs"

text \<open>The signals of the one real run, on the days of a slice; a day without a signal has none.\<close>
definition signals_on :: "(int \<times> bool \<times> bool) list \<Rightarrow> (int \<times> real) list \<Rightarrow> (int \<times> real \<times> bool \<times> bool) list" where
  "signals_on signals close =
    map (\<lambda>(d, p). (d, p, case map_of signals d of None \<Rightarrow> (False, False) | Some s \<Rightarrow> s)) close"

text \<open>\<open>simulate\<close> is the portfolio of vectorbt and its metrics.\<close>
definition summarise_window ::
  "((int \<times> real \<times> bool \<times> bool) list \<Rightarrow> window_metrics) \<Rightarrow> (int \<times> bool \<times> bool) list \<Rightarrow> (int \<times> real) list \<Rightarrow> walk_window \<Rightarrow> window_summary" where
  "summarise_window simulate signals close w =
    (let m = simulate (signals_on signals (slice (ww_train_start w) (ww_train_end w) close));
         n = simulate (signals_on signals (slice (ww_test_start w) (ww_test_end w) close)) in
     \<lparr>ws_window = w, ws_train_expectancy = wm_expectancy m, ws_test_expectancy = wm_expectancy n, ws_test_sharpe_ratio = wm_sharpe_ratio n,
      ws_test_total_trades = wm_total_trades n, ws_out_of_sample_passed = out_of_sample_passed n\<rparr>)"

definition run_walk_forward ::
  "((int \<times> real \<times> bool \<times> bool) list \<Rightarrow> window_metrics) \<Rightarrow> (int \<times> real) list \<Rightarrow> (int \<times> bool \<times> bool) list \<Rightarrow> window_summary list option" where
  "run_walk_forward simulate close_curve signals =
    (if close_curve = [] \<or> signals = [] then Some []
     else (let close = sort_key fst close_curve in
       map_option (map (summarise_window simulate signals close))
         (generate_walk_forward_windows TRAIN_MONTHS TEST_MONTHS STEP_MONTHS (map fst close))))"

definition walk_forward_passed :: "window_summary list \<Rightarrow> bool" where
  "walk_forward_passed ws \<longleftrightarrow> ws \<noteq> [] \<and> (\<forall>w \<in> set ws. ws_out_of_sample_passed w)"

section \<open>Months go forward\<close>

definition year_days :: "int \<Rightarrow> int" where "year_days y = 365 * y + y div 4 - y div 100 + y div 400"

lemma days_of_civil_year_days:
  "days_of_civil y m d = year_days (if m \<le> 2 then y - 1 else y) + (153 * (if m > 2 then m - 3 else m + 9) + 2) div 5 + d - 1 - 719468"
proof -
  have "(z div 400) * 146097 + ((z mod 400) * 365 + (z mod 400) div 4 - (z mod 400) div 100) = year_days z" for z :: int
  proof -
    define e r where "e = z div 400" and "r = z mod 400"
    have z: "z = 400 * e + r" by (simp add: e_def r_def)
    have "(400 * e + r) div 4 = 100 * e + r div 4" "(400 * e + r) div 100 = 4 * e + r div 100" "(400 * e + r) div 400 = e + r div 400"
    proof -
      have d: "(r + 100 * e * 4) div 4 = 100 * e + r div 4" "(r + 4 * e * 100) div 100 = 4 * e + r div 100" "(r + e * 400) div 400 = e + r div 400"
        by (rule div_mult_self1, simp)+
      have q: "r + 100 * e * 4 = 400 * e + r" "r + 4 * e * 100 = 400 * e + r" "r + e * 400 = 400 * e + r" by simp_all
      show "(400 * e + r) div 4 = 100 * e + r div 4" "(400 * e + r) div 100 = 4 * e + r div 100" "(400 * e + r) div 400 = e + r div 400"
        by (rule d[unfolded q])+
    qed
    moreover have "r div 400 = 0" by (simp add: r_def)
    ultimately have "year_days z = 365 * (400 * e + r) + (100 * e + r div 4) - (4 * e + r div 100) + (e + 0)" unfolding z year_days_def by metis
    then show ?thesis unfolding e_def[symmetric] r_def[symmetric] by algebra
  qed
  from this[of "if m \<le> 2 then y - 1 else y"] show ?thesis
    unfolding days_of_civil_def Let_def by simp
qed

lemma div_step:
  fixes y n :: int
  assumes "0 < n" shows "y div n - (y - 1) div n = (if y mod n = 0 then 1 else 0)"
proof -
  have r: "y = n * (y div n) + y mod n" "0 \<le> y mod n" "y mod n < n" using assms by simp_all
  have "(y - 1) div n = (if y mod n = 0 then y div n - 1 else y div n)"
  proof (cases "y mod n = 0")
    case True
    have "y - 1 = n * (y div n - 1) + (n - 1)" using r(1) True by (simp add: algebra_simps)
    then have "(y - 1) div n = y div n - 1" by (rule int_div_pos_eq) (use assms in simp_all)
    then show ?thesis using True by simp
  next
    case False
    have "y - 1 = n * (y div n) + (y mod n - 1)" using r(1) by simp
    then have "(y - 1) div n = y div n" by (rule int_div_pos_eq) (use r False in simp_all)
    then show ?thesis using False by simp
  qed
  then show ?thesis by simp
qed

lemma year_days_step: "year_days y - year_days (y - 1) = (if leap_year y then 366 else 365)"
proof -
  have "y mod 400 = 0 \<Longrightarrow> y mod 100 = 0" "y mod 100 = 0 \<Longrightarrow> y mod 4 = 0"
    using mod_mod_cancel[of 100 400 y] mod_mod_cancel[of 4 100 y] by auto
  then have leap: "365 + (if y mod 4 = 0 then 1 else 0) - (if y mod 100 = 0 then 1 else 0) + (if y mod 400 = 0 then 1 else 0)
      = (if leap_year y then 366 else (365 :: int))"
    unfolding leap_year_def by (cases "y mod 400 = 0"; cases "y mod 100 = 0"; cases "y mod 4 = 0") simp_all
  have "year_days y - year_days (y - 1) = 365 + (y div 4 - (y - 1) div 4) - (y div 100 - (y - 1) div 100) + (y div 400 - (y - 1) div 400)"
    unfolding year_days_def by algebra
  also have "\<dots> = (if leap_year y then 366 else 365)"
    unfolding div_step[of 4 y, OF zero_less_numeral] div_step[of 100 y, OF zero_less_numeral] div_step[of 400 y, OF zero_less_numeral] by (rule leap)
  finally show ?thesis .
qed

definition month_start :: "int \<Rightarrow> int" where "month_start t = days_of_civil (t div 12) (t mod 12 + 1) 1"

lemma month_start_Suc: "month_start (t + 1) = month_start t + days_in_month (t div 12) (t mod 12 + 1)"
proof -
  define y m where "y = t div 12" and "m = t mod 12"
  have m: "m \<in> {0..11}" by (simp add: m_def)
  have next_month: "(t + 1) div 12 = (if m = 11 then y + 1 else y)" "(t + 1) mod 12 = (if m = 11 then 0 else m + 1)"
  proof -
    have t: "t = 12 * y + m" by (simp add: y_def m_def)
    show "(t + 1) div 12 = (if m = 11 then y + 1 else y)"
      using m by (intro int_div_pos_eq[of _ _ _ "if m = 11 then 0 else m + 1"]) (auto simp: t)
    show "(t + 1) mod 12 = (if m = 11 then 0 else m + 1)"
      using m by (intro int_mod_pos_eq[of _ _ "if m = 11 then y + 1 else y"]) (auto simp: t)
  qed
  have "m = 0 \<or> m = 1 \<or> m = 2 \<or> m = 3 \<or> m = 4 \<or> m = 5 \<or> m = 6 \<or> m = 7 \<or> m = 8 \<or> m = 9 \<or> m = 10 \<or> m = 11"
  proof -
    have "list_all (\<lambda>m. m = 0 \<or> m = 1 \<or> m = 2 \<or> m = 3 \<or> m = 4 \<or> m = 5 \<or> m = 6 \<or> m = 7 \<or> m = 8 \<or> m = 9 \<or> m = 10 \<or> m = (11 :: int)) [0..11]"
      by code_simp
    then show ?thesis using m unfolding list_all_iff set_upto by blast
  qed
  then have "m = 1 \<or> m = 11 \<or> m \<in> {0, 2, 3, 4, 5, 6, 7, 8, 9, 10}" by blast
  moreover have "year_days y = year_days (y - 1) + (if leap_year y then 366 else 365)" using year_days_step[of y] by linarith
  ultimately show ?thesis
    unfolding month_start_def next_month y_def[symmetric] m_def[symmetric] days_of_civil_year_days
    by (elim disjE insertE emptyE) (simp_all add: days_in_month_def)
qed

lemma days_in_month_pos: "28 \<le> days_in_month y m" by (simp add: days_in_month_def)

lemma month_start_mono: "month_start t + 28 * int k \<le> month_start (t + int k)"
proof (induction k)
  case (Suc k)
  then show ?case using month_start_Suc[of "t + int k"] days_in_month_pos[of "(t + int k) div 12" "(t + int k) mod 12 + 1"]
    by (simp add: algebra_simps)
qed simp

lemma add_months_progress:
  assumes "1 \<le> k" shows "d < add_months k d"
proof -
  obtain y m dd where c: "civil_of_days d = (y, m, dd)" by (cases "civil_of_days d")
  have v: "valid_date y m dd" "days_of_civil y m dd = d" using civil_of_days_valid[OF c] by simp_all
  define t where "t = y * 12 + (m - 1)"
  have t: "t div 12 = y" "t mod 12 + 1 = m" using v(1) by (simp_all add: t_def valid_date_def)
  have day: "days_of_civil a b x = days_of_civil a b 1 + x - 1" for a b x by (simp add: days_of_civil_year_days)
  have "d = month_start t + dd - 1" using v(2) day[of y m dd] by (simp add: month_start_def t)
  moreover have "dd \<le> days_in_month y m" using v(1) by (simp add: valid_date_def)
  ultimately have "d < month_start (t + 1)" using month_start_Suc[of t] by (simp add: t)
  also have "\<dots> \<le> month_start (t + k)" using month_start_mono[of "t + 1" "nat (k - 1)"] assms by simp
  also have "\<dots> \<le> add_months k d"
  proof -
    let ?y = "(t + k) div 12" and ?m = "(t + k) mod 12 + 1"
    have "add_months k d = days_of_civil ?y ?m (min dd (days_in_month ?y ?m))" by (simp add: add_months_def c Let_def t_def)
    also have "\<dots> = month_start (t + k) + min dd (days_in_month ?y ?m) - 1" unfolding month_start_def by (rule day)
    finally show ?thesis using v(1) days_in_month_pos[of ?y ?m] by (simp add: valid_date_def)
  qed
  finally show ?thesis .
qed


lemma add_months_zero [simp]: "add_months 0 d = d"
proof -
  obtain y m dd where c: "civil_of_days d = (y, m, dd)" by (cases "civil_of_days d")
  have v: "valid_date y m dd" "days_of_civil y m dd = d" using civil_of_days_valid[OF c] by simp_all
  then have "(y * 12 + (m - 1)) div 12 = y" "(y * 12 + (m - 1)) mod 12 + 1 = m" "min dd (days_in_month y m) = dd" by (simp_all add: valid_date_def)
  then show ?thesis using v(2) by (simp add: add_months_def c Let_def)
qed

lemma add_months_increasing: "0 \<le> k \<Longrightarrow> d \<le> add_months k d"
  using add_months_progress[of k d] add_months_zero[of d] by (cases "k = 0") auto

text \<open>Consecutive windows: each starts one step after the one before, and lies in the data.\<close>
fun steps_on :: "int \<Rightarrow> walk_window list \<Rightarrow> bool" where
  "steps_on step (v # w # ws) \<longleftrightarrow> ww_train_start w = add_months step (ww_train_start v) \<and> steps_on step (w # ws)"
| "steps_on step _ \<longleftrightarrow> True"

lemma walk_windows_spec:
  assumes "1 \<le> step" "0 \<le> train" "0 \<le> test"
  shows "\<exists>ws. walk_windows train test step stop start = Some ws \<and> steps_on step ws \<and> (ws \<noteq> [] \<longrightarrow> ww_train_start (hd ws) = start)
    \<and> (\<forall>w \<in> set ws. start \<le> ww_train_start w \<and> ww_train_end w = add_months train (ww_train_start w) \<and> ww_test_start w = ww_train_end w
         \<and> ww_test_end w = add_months test (ww_test_start w) \<and> ww_test_end w \<le> stop)"
proof (induction "nat (stop + 1 - start)" arbitrary: start rule: less_induct)
  case less
  show ?case
  proof (cases "stop < add_months test (add_months train start)")
    case True
    then show ?thesis by (subst walk_windows.simps) simp
  next
    case False
    have "start \<le> stop" using False add_months_increasing[OF assms(2), of start] add_months_increasing[OF assms(3), of "add_months train start"] by simp
    moreover have next_start: "start < add_months step start" using add_months_progress[OF assms(1)] .
    ultimately have "nat (stop + 1 - add_months step start) < nat (stop + 1 - start)" by simp
    from less[OF this] obtain ws where ws: "walk_windows train test step stop (add_months step start) = Some ws" "steps_on step ws"
      "ws \<noteq> [] \<longrightarrow> ww_train_start (hd ws) = add_months step start"
      "\<forall>w \<in> set ws. add_months step start \<le> ww_train_start w \<and> ww_train_end w = add_months train (ww_train_start w) \<and> ww_test_start w = ww_train_end w
         \<and> ww_test_end w = add_months test (ww_test_start w) \<and> ww_test_end w \<le> stop" by blast
    show ?thesis
      using False ws next_start by (subst walk_windows.simps) (cases ws; fastforce simp: Let_def)
  qed
qed

text \<open>The walk-forward loop always ends: for a step of at least a month it produces finitely many windows, all inside the
  data, the training part directly before the test part, each a step after the one before.\<close>
theorem walk_forward_windows_sound:
  assumes "1 \<le> step" and "0 \<le> train" and "0 \<le> test" and "days \<noteq> []"
  shows "\<exists>ws. generate_walk_forward_windows train test step days = Some ws \<and> steps_on step ws
    \<and> (\<forall>w \<in> set ws. Min (set days) \<le> ww_train_start w \<and> ww_train_start w \<le> ww_train_end w \<and> ww_test_start w = ww_train_end w
         \<and> ww_test_start w \<le> ww_test_end w \<and> ww_test_end w \<le> Max (set days))"
proof -
  obtain ws where "generate_walk_forward_windows train test step days = Some ws" "steps_on step ws"
    "\<forall>w \<in> set ws. Min (set days) \<le> ww_train_start w \<and> ww_train_end w = add_months train (ww_train_start w) \<and> ww_test_start w = ww_train_end w
         \<and> ww_test_end w = add_months test (ww_test_start w) \<and> ww_test_end w \<le> Max (set days)"
    using walk_windows_spec[OF assms(1-3)] unfolding generate_walk_forward_windows_def by blast
  then show ?thesis using add_months_increasing assms(2,3) by auto
qed

theorem walk_forward_windows_sound_witness:
  "\<exists>ws. generate_walk_forward_windows TRAIN_MONTHS TEST_MONTHS STEP_MONTHS [20000, 20364] = Some ws \<and> steps_on STEP_MONTHS ws"
  using walk_forward_windows_sound[of STEP_MONTHS TRAIN_MONTHS TEST_MONTHS "[20000, 20364]"]
  by (auto simp: TRAIN_MONTHS_def TEST_MONTHS_def STEP_MONTHS_def)

section \<open>What a backtest computes on\<close>

lemma scale_prices_fold:
  "foldl apply_action rows as =
    map (\<lambda>r. scale_prices (prod_list (map action_factor (filter (\<lambda>a. eo_date r < ca_ex_date a) as))) r) rows"
proof (induction "as" arbitrary: rows)
  case Nil
  have "scale_prices 1 r = r" for r by (simp add: scale_prices_def)
  then show ?case by simp
next
  case (Cons a "as")
  have "eo_date (scale_prices f r) = eo_date r" "scale_prices g (scale_prices f r) = scale_prices (f * g) r" for f g r
    by (simp_all add: scale_prices_def)
  then show ?case by (simp add: Cons.IH) (simp add: apply_action_def)
qed

lemma prod_list_sort: "prod_list (map f (filter P (sort_key k xs))) = (prod_list (map f (filter P xs)) :: real)"
proof -
  have "image_mset f (filter_mset P (mset (sort_key k xs))) = image_mset f (filter_mset P (mset xs))" by simp
  then show ?thesis by (metis mset_filter mset_map prod_mset_prod_list)
qed

lemma adjust_exact:
  "adjust_ohlcv_for_corporate_actions rows actions =
    map (\<lambda>r. scale_prices (prod_list (map action_factor (filter (\<lambda>a. eo_date r < ca_ex_date a) (filter relevant_action actions)))) r) rows"
  by (cases "rows = []") (simp_all add: adjust_ohlcv_for_corporate_actions_def scale_prices_fold prod_list_sort)


definition sample_split :: corporate_action where
  "sample_split = \<lparr>ca_symbol = ''TCS'', ca_ex_date = 20690, ca_action_type = ''SPLIT'', ca_ratio_numerator = Some 1,
     ca_ratio_denominator = Some 2, ca_dividend_amount = None, ca_source = []\<rparr>"

definition sample_backtest :: backtest_request where
  "sample_backtest = \<lparr>br_code = [], br_universe = [''TCS''], br_from = 20688, br_to = 20690, br_config = JObj [], br_adjust = True\<rparr>"


end
