(* ===== verification/TransitKeys.thy ===== *)
theory TransitKeys
  imports PyParse
begin

text \<open>
  Access tokens: the signing key kept by Vault Transit with its local cache of public keys
  (\<open>src/core/vault_transit.py\<close>) and the signed tokens themselves (\<open>src/core/security.py\<close>). The Vault
  server and the elliptic-curve check are other people's code: they are the fields of a record that every operation
  takes. A presented token is given by what its three segments decode to (\<open>None\<close> when the splitting, the base64 or the
  JSON decoding fails), with the exact text that was signed.
\<close>

section \<open>Bytes\<close>

fun bytes_to_nat :: "string \<Rightarrow> nat" where
  "bytes_to_nat [] = 0"
| "bytes_to_nat (c # cs) = of_char c * 256 ^ length cs + bytes_to_nat cs"

fun nat_to_bytes :: "nat \<Rightarrow> nat \<Rightarrow> string" where
  "nat_to_bytes 0 n = []"
| "nat_to_bytes (Suc k) n = nat_to_bytes k (n div 256) @ [char_of (n mod 256)]"

text \<open>\<open>int.to_bytes(32, "big")\<close>: an \<open>OverflowError\<close> past 32 bytes.\<close>
definition to_bytes32 :: "nat \<Rightarrow> string option" where
  "to_bytes32 n = (if n < 256 ^ 32 then Some (nat_to_bytes 32 n) else None)"

definition b64_alphabet :: string where
  "b64_alphabet = ''ABCDEFGHIJKLMNOPQRSTUVWXYZabcdefghijklmnopqrstuvwxyz0123456789-_''"

definition b64_char :: "nat \<Rightarrow> char" where "b64_char n = b64_alphabet ! (n mod 64)"

text \<open>URL-safe base64 with the padding stripped.\<close>
fun b64url_encode :: "string \<Rightarrow> string" where
  "b64url_encode [] = []"
| "b64url_encode [a] = (let n = of_char a * 16 in [b64_char (n div 64), b64_char n])"
| "b64url_encode [a, b] = (let n = (of_char a * 256 + of_char b) * 4 in [b64_char (n div 4096), b64_char (n div 64), b64_char n])"
| "b64url_encode (a # b # c # cs) =
    (let n = (of_char a * 256 + of_char b) * 256 + of_char c in
     [b64_char (n div 262144), b64_char (n div 4096), b64_char (n div 64), b64_char n] @ b64url_encode cs)"

section \<open>The key service\<close>

text \<open>\<open>VaultTransitUnavailableError\<close>, the client's \<open>InvalidPath\<close> and \<open>InvalidRequest\<close> for an engine already mounted, and
  any other exception.\<close>
datatype vault_failure = Transit_unavailable | Invalid_path | Path_in_use | Vault_error

datatype 'k loaded_key = EC_key 'k | Other_key | Bad_pem

record key_data =
  kd_keys :: "(nat \<times> string) list"
  kd_min_decryption_version :: nat
  kd_latest_version :: nat

text \<open>The server, the client library and \<open>cryptography\<close>: the answer of \<open>is_authenticated\<close> (\<open>None\<close>: an exception), reading
  the key, signing (the version the answer names and the two numbers of the signature), rotating, configuring,
  mounting and creating; the loading of a PEM text and the check of a signature.\<close>
record ('k, 'v) transit_api =
  ta_authenticated :: "'v \<Rightarrow> bool option"
  ta_read :: "'v \<Rightarrow> vault_failure + key_data"
  ta_sign :: "nat \<Rightarrow> string \<Rightarrow> 'v \<Rightarrow> vault_failure + (nat \<times> nat \<times> nat)"
  ta_rotate :: "'v \<Rightarrow> (vault_failure + unit) \<times> 'v"
  ta_configure :: "nat \<Rightarrow> 'v \<Rightarrow> (vault_failure + unit) \<times> 'v"
  ta_enable :: "'v \<Rightarrow> (vault_failure + unit) \<times> 'v"
  ta_create :: "'v \<Rightarrow> (vault_failure + unit) \<times> 'v"
  ta_load_pem :: "string \<Rightarrow> 'k loaded_key"
  ta_ec_verify :: "'k \<Rightarrow> nat \<times> nat \<Rightarrow> string \<Rightarrow> bool"
  ta_vault_addr :: "string option"
  ta_vault_token :: "string option"

definition TRANSIT_CACHE_TTL :: int where "TRANSIT_CACHE_TTL = 60000000"

record 'k key_state =
  ks_public_keys :: "(nat, 'k) dict"
  ks_min_decryption_version :: nat
  ks_latest_version :: nat
  ks_fetched_at :: int

definition empty_key_state :: "'k key_state" where
  "empty_key_state = \<lparr>ks_public_keys = [], ks_min_decryption_version = 1, ks_latest_version = 1, ks_fetched_at = 0\<rparr>"

definition set_string :: "string option \<Rightarrow> bool" where "set_string s \<longleftrightarrow> (case s of None \<Rightarrow> False | Some t \<Rightarrow> t \<noteq> [])"

text \<open>\<open>_client\<close>.\<close>
definition transit_client :: "('k, 'v) transit_api \<Rightarrow> 'v \<Rightarrow> vault_failure + unit" where
  "transit_client api v =
    (if \<not> set_string (ta_vault_addr api) \<or> \<not> set_string (ta_vault_token api) then Inl Transit_unavailable
     else case ta_authenticated api v of Some True \<Rightarrow> Inr () | _ \<Rightarrow> Inl Transit_unavailable)"

definition ensure_transit_key :: "('k, 'v) transit_api \<Rightarrow> 'v \<Rightarrow> (vault_failure + unit) \<times> 'v" where
  "ensure_transit_key api v =
    (case transit_client api v of Inl e \<Rightarrow> (Inl e, v)
     | Inr _ \<Rightarrow>
       (case ta_read api v of Inr _ \<Rightarrow> (Inr (), v)
        | Inl e \<Rightarrow> if e \<noteq> Invalid_path then (Inl e, v)
          else case ta_enable api v of
              (Inl e', v') \<Rightarrow> if e' \<noteq> Path_in_use then (Inl e', v') else ta_create api v'
            | (Inr _, v') \<Rightarrow> ta_create api v'))"

fun load_keys :: "('k, 'v) transit_api \<Rightarrow> (nat \<times> string) list \<Rightarrow> vault_failure + (nat, 'k) dict" where
  "load_keys api [] = Inr []"
| "load_keys api ((n, pem) # rest) =
    (case ta_load_pem api pem of
       Bad_pem \<Rightarrow> Inl Vault_error
     | Other_key \<Rightarrow> Inl Transit_unavailable
     | EC_key k \<Rightarrow> (case load_keys api rest of Inl e \<Rightarrow> Inl e | Inr ks \<Rightarrow> Inr ((n, k) # ks)))"

text \<open>\<open>_refresh_cache\<close>: nothing of the cache changes when it fails.\<close>
definition refresh_cache :: "('k, 'v) transit_api \<Rightarrow> int \<Rightarrow> 'v \<Rightarrow> 'k key_state \<Rightarrow> (vault_failure + unit) \<times> 'k key_state" where
  "refresh_cache api tick v c =
    (case transit_client api v of Inl e \<Rightarrow> (Inl e, c)
     | Inr _ \<Rightarrow>
       (case ta_read api v of Inl e \<Rightarrow> (Inl e, c)
        | Inr d \<Rightarrow>
          (case load_keys api (kd_keys d) of Inl e \<Rightarrow> (Inl e, c)
           | Inr ks \<Rightarrow> (Inr (), \<lparr>ks_public_keys = ks, ks_min_decryption_version = kd_min_decryption_version d,
               ks_latest_version = kd_latest_version d, ks_fetched_at = tick\<rparr>))))"

definition cache_is_fresh :: "int \<Rightarrow> 'k key_state \<Rightarrow> bool" where
  "cache_is_fresh tick c \<longleftrightarrow> ks_public_keys c \<noteq> [] \<and> tick - ks_fetched_at c < TRANSIT_CACHE_TTL"

definition public_key_for :: "('k, 'v) transit_api \<Rightarrow> int \<Rightarrow> int \<Rightarrow> 'v \<Rightarrow> 'k key_state \<Rightarrow> (vault_failure + 'k option) \<times> 'k key_state" where
  "public_key_for api tick kid v c =
    (let known = (\<lambda>c. if kid < 0 then None else dict_get (ks_public_keys c) (nat kid)) in
     if \<not> cache_is_fresh tick c \<or> known c = None
     then (case refresh_cache api tick v c of (Inl e, c') \<Rightarrow> (Inl e, c') | (Inr _, c') \<Rightarrow> (Inr (known c'), c'))
     else (Inr (known c), c))"

definition with_fresh_cache ::
  "('k key_state \<Rightarrow> 'a) \<Rightarrow> ('k, 'v) transit_api \<Rightarrow> int \<Rightarrow> 'v \<Rightarrow> 'k key_state \<Rightarrow> (vault_failure + 'a) \<times> 'k key_state" where
  "with_fresh_cache f api tick v c =
    (if cache_is_fresh tick c then (Inr (f c), c)
     else case refresh_cache api tick v c of (Inl e, c') \<Rightarrow> (Inl e, c') | (Inr _, c') \<Rightarrow> (Inr (f c'), c'))"

definition min_decryption_version :: "('k, 'v) transit_api \<Rightarrow> int \<Rightarrow> 'v \<Rightarrow> 'k key_state \<Rightarrow> (vault_failure + nat) \<times> 'k key_state" where
  "min_decryption_version = with_fresh_cache ks_min_decryption_version"

definition current_key_version :: "('k, 'v) transit_api \<Rightarrow> int \<Rightarrow> 'v \<Rightarrow> 'k key_state \<Rightarrow> (vault_failure + nat) \<times> 'k key_state" where
  "current_key_version = with_fresh_cache ks_latest_version"

text \<open>\<open>sign\<close>: the raw 64 bytes.\<close>
definition transit_sign :: "('k, 'v) transit_api \<Rightarrow> string \<Rightarrow> nat \<Rightarrow> 'v \<Rightarrow> vault_failure + string" where
  "transit_sign api input kv v =
    (case transit_client api v of Inl e \<Rightarrow> Inl e
     | Inr _ \<Rightarrow>
       (case ta_sign api kv input v of Inl e \<Rightarrow> Inl e
        | Inr (signed_kid, r, s) \<Rightarrow>
          if signed_kid \<noteq> kv then Inl Transit_unavailable
          else case (to_bytes32 r, to_bytes32 s) of (Some rb, Some sb) \<Rightarrow> Inr (rb @ sb) | _ \<Rightarrow> Inl Vault_error))"

definition transit_verify ::
  "('k, 'v) transit_api \<Rightarrow> int \<Rightarrow> string \<Rightarrow> string \<Rightarrow> int \<Rightarrow> 'v \<Rightarrow> 'k key_state \<Rightarrow> (vault_failure + bool) \<times> 'k key_state" where
  "transit_verify api tick input sig kid v c =
    (case public_key_for api tick kid v c of
       (Inl e, c') \<Rightarrow> (Inl e, c')
     | (Inr None, c') \<Rightarrow> (Inr False, c')
     | (Inr (Some k), c') \<Rightarrow>
         (Inr (length sig = 64 \<and> ta_ec_verify api k (bytes_to_nat (take 32 sig), bytes_to_nat (drop 32 sig)) input), c'))"

text \<open>\<open>rotate_key\<close>: rotate, read the new version back, raise the floor, refill the cache.\<close>
definition rotate_key :: "('k, 'v) transit_api \<Rightarrow> int \<Rightarrow> 'v \<Rightarrow> 'k key_state \<Rightarrow> (vault_failure + nat) \<times> 'v \<times> 'k key_state" where
  "rotate_key api tick v c =
    (case transit_client api v of Inl e \<Rightarrow> (Inl e, v, c)
     | Inr _ \<Rightarrow>
       (case ta_rotate api v of
          (Inl e, v1) \<Rightarrow> (Inl e, v1, c)
        | (Inr _, v1) \<Rightarrow>
          (case ta_read api v1 of
             Inl e \<Rightarrow> (Inl e, v1, c)
           | Inr d \<Rightarrow>
             (case ta_configure api (kd_latest_version d) v1 of
                (Inl e, v2) \<Rightarrow> (Inl e, v2, c)
              | (Inr _, v2) \<Rightarrow>
                (case refresh_cache api tick v2 c of
                   (Inl e, c') \<Rightarrow> (Inl e, v2, c')
                 | (Inr _, c') \<Rightarrow> (Inr (kd_latest_version d), v2, c'))))))"

section \<open>Tokens\<close>

record presented_token =
  pt_signing_input :: string
  pt_header :: json
  pt_payload :: json
  pt_signature :: string

definition JWT_ALG :: string where "JWT_ALG = ''ES256''"

definition ACCESS_TOKEN_TTL_MINUTES :: int where "ACCESS_TOKEN_TTL_MINUTES = 15"

definition MFA_PENDING_TOKEN_TTL_MINUTES :: int where "MFA_PENDING_TOKEN_TTL_MINUTES = 5"

definition MFA_PENDING_SCOPE :: string where "MFA_PENDING_SCOPE = ''mfa_pending''"

definition seconds_of :: "int \<Rightarrow> int" where "seconds_of t = t div 1000000"

definition token_header :: "nat \<Rightarrow> json" where
  "token_header kid = JObj [(''alg'', JStr JWT_ALG), (''typ'', JStr ''JWT''), (''kid'', JStr (show_nat kid))]"

definition token_payload :: "(string \<times> json) list \<Rightarrow> int \<Rightarrow> int \<Rightarrow> json" where
  "token_payload claims ttl t =
    JObj (dict_set ''exp'' (JInt (seconds_of (t + ttl * 60000000))) (dict_set ''iat'' (JInt (seconds_of t)) claims))"

definition signing_input :: "(real \<Rightarrow> string) \<Rightarrow> json \<Rightarrow> json \<Rightarrow> string" where
  "signing_input flt h p = b64url_encode (json_dumps flt h) @ ''.'' @ b64url_encode (json_dumps flt p)"

text \<open>\<open>_create_token\<close>, with the wall clock \<open>t\<close> and the monotonic clock.\<close>
definition create_token ::
  "('k, 'v) transit_api \<Rightarrow> (real \<Rightarrow> string) \<Rightarrow> int \<Rightarrow> int \<Rightarrow> (string \<times> json) list \<Rightarrow> int \<Rightarrow> 'v \<Rightarrow> 'k key_state
    \<Rightarrow> (vault_failure + presented_token) \<times> 'k key_state" where
  "create_token api flt t tick claims ttl v c =
    (case current_key_version api tick v c of
       (Inl e, c') \<Rightarrow> (Inl e, c')
     | (Inr kid, c') \<Rightarrow>
       (let h = token_header kid; p = token_payload claims ttl t; signed_text = signing_input flt h p in
        case transit_sign api signed_text kid v of
          Inl e \<Rightarrow> (Inl e, c')
        | Inr sig \<Rightarrow> (Inr \<lparr>pt_signing_input = signed_text, pt_header = h, pt_payload = p, pt_signature = sig\<rparr>, c')))"

definition create_access_token ::
  "('k, 'v) transit_api \<Rightarrow> (real \<Rightarrow> string) \<Rightarrow> int \<Rightarrow> int \<Rightarrow> nat \<Rightarrow> string \<Rightarrow> 'v \<Rightarrow> 'k key_state
    \<Rightarrow> (vault_failure + presented_token) \<times> 'k key_state" where
  "create_access_token api flt t tick uid role =
    create_token api flt t tick [(''sub'', JUuid uid), (''role'', JStr role)] ACCESS_TOKEN_TTL_MINUTES"

definition create_mfa_pending_token ::
  "('k, 'v) transit_api \<Rightarrow> (real \<Rightarrow> string) \<Rightarrow> int \<Rightarrow> int \<Rightarrow> nat \<Rightarrow> string \<Rightarrow> 'v \<Rightarrow> 'k key_state
    \<Rightarrow> (vault_failure + presented_token) \<times> 'k key_state" where
  "create_mfa_pending_token api flt t tick uid role =
    create_token api flt t tick [(''sub'', JUuid uid), (''role'', JStr role), (''scope'', JStr MFA_PENDING_SCOPE)] MFA_PENDING_TOKEN_TTL_MINUTES"

text \<open>Python's \<open>int\<close> of a text: blanks around, a sign, digits with single underscores between them.\<close>
fun digits_with_underscores :: "string \<Rightarrow> string option" where
  "digits_with_underscores [] = None"
| "digits_with_underscores [c] = (if digit_value c \<noteq> None \<and> the (digit_value c) < 10 then Some [c] else None)"
| "digits_with_underscores (c # d # cs) =
    (if digit_value c = None \<or> \<not> the (digit_value c) < 10 then None
     else map_option ((#) c) (digits_with_underscores (if d = CHR ''_'' then cs else d # cs)))"

definition int_of_text :: "string \<Rightarrow> int option" where
  "int_of_text s =
    (let t = strip s;
         (sign, body) = (case t of c # cs \<Rightarrow> if c = CHR ''-'' then (-1, cs) else if c = CHR ''+'' then (1, cs) else (1, t) | [] \<Rightarrow> (1, []))
     in case digits_with_underscores body of None \<Rightarrow> None | Some ds \<Rightarrow> map_option (\<lambda>n. sign * int n) (read_base 10 ds))"

definition json_int :: "json option \<Rightarrow> int option" where
  "json_int j = (case j of
      Some (JStr s) \<Rightarrow> int_of_text s | Some (JInt i) \<Rightarrow> Some i | Some (JBool b) \<Rightarrow> Some (if b then 1 else 0)
    | Some (JFloat x) \<Rightarrow> Some (if 0 \<le> x then \<lfloor>x\<rfloor> else \<lceil>x\<rceil>) | _ \<Rightarrow> None)"

text \<open>\<open>InvalidTokenError\<close>, and an exception the function does not translate.\<close>
datatype token_error = Invalid_token | Token_crash

text \<open>The comparison of the clock with \<open>exp\<close>: \<open>None\<close> is a \<open>TypeError\<close>.\<close>
definition exp_passed :: "json \<Rightarrow> int \<Rightarrow> bool option" where
  "exp_passed e t = (case e of
      JInt i \<Rightarrow> Some (i * 1000000 < t) | JFloat x \<Rightarrow> Some (x * 1000000 < real_of_int t)
    | JBool b \<Rightarrow> Some ((if b then 1000000 else 0) < t) | _ \<Rightarrow> None)"

definition check_payload :: "json \<Rightarrow> int \<Rightarrow> token_error + json" where
  "check_payload p t =
    (case p of
       JObj fs \<Rightarrow> (case map_of fs ''exp'' of
           None \<Rightarrow> Inl Invalid_token | Some JNull \<Rightarrow> Inl Invalid_token
         | Some e \<Rightarrow> (case exp_passed e t of None \<Rightarrow> Inl Token_crash | Some True \<Rightarrow> Inl Invalid_token | Some False \<Rightarrow> Inr p))
     | _ \<Rightarrow> Inl Token_crash)"

definition failure_of_vault :: "vault_failure \<Rightarrow> token_error" where
  "failure_of_vault e = (if e = Transit_unavailable then Invalid_token else Token_crash)"

definition decode_access_token ::
  "('k, 'v) transit_api \<Rightarrow> int \<Rightarrow> int \<Rightarrow> presented_token option \<Rightarrow> 'v \<Rightarrow> 'k key_state \<Rightarrow> (token_error + json) \<times> 'k key_state" where
  "decode_access_token api t tick token v c =
    (case token of
       None \<Rightarrow> (Inl Invalid_token, c)
     | Some tok \<Rightarrow>
       (case json_int (json_get (pt_header tok) ''kid'') of
          None \<Rightarrow> (Inl Invalid_token, c)
        | Some kid \<Rightarrow>
          if json_get (pt_header tok) ''alg'' \<noteq> Some (JStr JWT_ALG) then (Inl Invalid_token, c)
          else case transit_verify api tick (pt_signing_input tok) (pt_signature tok) kid v c of
              (Inl e, c1) \<Rightarrow> (Inl (failure_of_vault e), c1)
            | (Inr verified, c1) \<Rightarrow>
              (case min_decryption_version api tick v c1 of
                 (Inl e, c2) \<Rightarrow> (Inl (failure_of_vault e), c2)
               | (Inr lowest, c2) \<Rightarrow>
                 if \<not> verified \<or> kid < int lowest then (Inl Invalid_token, c2) else (check_payload (pt_payload tok) t, c2))))"

section \<open>Reading back what was written\<close>

lemma length_nat_to_bytes [simp]: "length (nat_to_bytes k n) = k"
  by (induction k arbitrary: n) simp_all

lemma bytes_to_nat_snoc: "bytes_to_nat (cs @ [c]) = bytes_to_nat cs * 256 + of_char c"
  by (induction cs) (simp_all add: algebra_simps)

lemma bytes_to_nat_bytes: "n < 256 ^ k \<Longrightarrow> bytes_to_nat (nat_to_bytes k n) = n"
proof (induction k arbitrary: n)
  case (Suc k)
  then have "n div 256 < 256 ^ k" by (simp add: less_mult_imp_div_less mult.commute)
  then show ?case using Suc.IH by (simp add: bytes_to_nat_snoc)
qed simp

lemma to_bytes32_SomeD: "to_bytes32 n = Some b \<Longrightarrow> length b = 32 \<and> bytes_to_nat b = n"
  by (auto simp: to_bytes32_def bytes_to_nat_bytes split: if_splits)

definition decimal_digit :: "char \<Rightarrow> bool" where
  "decimal_digit c \<longleftrightarrow> c \<in> set ''0123456789''"

lemma digit_decimal: "d < 10 \<Longrightarrow> decimal_digit (digit d)"
proof -
  assume "d < 10"
  then have "d = 0 \<or> d = 1 \<or> d = 2 \<or> d = 3 \<or> d = 4 \<or> d = 5 \<or> d = 6 \<or> d = 7 \<or> d = 8 \<or> d = 9" by presburger
  then show ?thesis by (elim disjE) (simp_all add: decimal_digit_def digit_def, code_simp+)
qed

lemma show_base_decimal: "list_all decimal_digit (show_base 10 n)"
proof (induction n rule: less_induct)
  case (less n)
  have "decimal_digit (digit (n mod 10))" by (simp add: digit_decimal)
  then show ?case using less[of "n div 10"] digit_decimal[of n] by (cases "n < 10"; subst show_base.simps) simp_all
qed

lemma decimal_digit_value: "decimal_digit c \<Longrightarrow> \<exists>d. digit_value c = Some d \<and> d < 10"
  by (auto simp: decimal_digit_def digit_value_def)

lemma decimal_digit_plain:
  "decimal_digit c \<Longrightarrow> \<not> is_space c \<and> c \<noteq> CHR ''-'' \<and> c \<noteq> CHR ''+'' \<and> c \<noteq> CHR ''_''"
  by (auto simp: decimal_digit_def is_space_def)

lemma digits_without_underscores: "list_all decimal_digit cs \<Longrightarrow> cs \<noteq> [] \<Longrightarrow> digits_with_underscores cs = Some cs"
  by (induction cs rule: digits_with_underscores.induct) (auto dest: decimal_digit_value decimal_digit_plain)

lemma dropWhile_none: "\<forall>x \<in> set xs. \<not> P x \<Longrightarrow> dropWhile P xs = xs"
  by (cases xs) simp_all

lemma strip_decimal: "list_all decimal_digit cs \<Longrightarrow> strip cs = cs"
proof -
  assume "list_all decimal_digit cs"
  then have "\<forall>c \<in> set cs. \<not> is_space c" by (auto simp: list_all_iff dest: decimal_digit_plain)
  then show ?thesis by (simp add: strip_def dropWhile_none)
qed

lemma int_of_show_nat: "int_of_text (show_nat n) = Some (int n)"
proof -
  let ?s = "show_base 10 n"
  have d: "list_all decimal_digit ?s" by (rule show_base_decimal)
  obtain c cs where s: "?s = c # cs" by (cases ?s) simp_all
  have "decimal_digit c" using d unfolding s by simp
  then have "c \<noteq> CHR ''-''" "c \<noteq> CHR ''+''" by (simp_all add: decimal_digit_plain)
  moreover have "digits_with_underscores ?s = Some ?s" using d by (simp add: digits_without_underscores)
  moreover have "read_base 10 ?s = Some n" by (simp add: read_base_def read_digits_show)
  ultimately show ?thesis unfolding int_of_text_def show_nat_def Let_def strip_decimal[OF d] by (simp add: s)
qed

interpretation kid_text: text_codec show_nat "\<lambda>s. map_option nat (int_of_text s)" "\<lambda>_. True"
  by unfold_locales (simp_all add: int_of_show_nat, simp add: show_nat_def)

section \<open>What a decoded token proves\<close>

definition server_keys :: "('k, 'v) transit_api \<Rightarrow> 'v \<Rightarrow> 'k key_state \<Rightarrow> bool" where
  "server_keys api v c \<longleftrightarrow> (\<exists>d. ta_read api v = Inr d \<and> load_keys api (kd_keys d) = Inr (ks_public_keys c)
     \<and> ks_min_decryption_version c = kd_min_decryption_version d \<and> ks_latest_version c = kd_latest_version d)"

lemma refresh_cache_okD:
  "refresh_cache api tick v c = (Inr u, c') \<Longrightarrow> server_keys api v c' \<and> ks_fetched_at c' = tick"
  by (auto simp: refresh_cache_def server_keys_def split: sum.splits)

lemma refresh_cache_failD: "refresh_cache api tick v c = (Inl e, c') \<Longrightarrow> c' = c"
  by (auto simp: refresh_cache_def split: sum.splits)

lemma fetched_now_fresh: "ks_fetched_at c = tick \<Longrightarrow> dict_get (ks_public_keys c) k = Some key \<Longrightarrow> cache_is_fresh tick c"
  by (auto simp: cache_is_fresh_def TRANSIT_CACHE_TTL_def)

lemma public_key_forD:
  assumes "public_key_for api tick kid v c = (Inr (Some key), c')"
  shows "0 \<le> kid" and "dict_get (ks_public_keys c') (nat kid) = Some key" and "cache_is_fresh tick c'"
  using assms
  by (auto simp: public_key_for_def Let_def dest!: refresh_cache_okD intro: fetched_now_fresh split: if_splits sum.splits prod.splits)

lemma fresh_cache_kept: "cache_is_fresh tick c \<Longrightarrow> with_fresh_cache f api tick v c = (Inr (f c), c)"
  by (simp add: with_fresh_cache_def)

lemma transit_verifyD:
  assumes "transit_verify api tick input sig kid v c = (Inr True, c')"
  obtains key where "0 \<le> kid" "dict_get (ks_public_keys c') (nat kid) = Some key" "cache_is_fresh tick c'"
    "ta_ec_verify api key (bytes_to_nat (take 32 sig), bytes_to_nat (drop 32 sig)) input"
  using assms public_key_forD[of api tick kid v c] unfolding transit_verify_def
  by (auto split: prod.splits sum.splits option.splits)

definition token_kid :: "presented_token \<Rightarrow> int option" where
  "token_kid tok = json_int (json_get (pt_header tok) ''kid'')"

lemma check_payloadD: "check_payload p t = Inr q \<Longrightarrow> q = p \<and> (\<exists>e. json_get p ''exp'' = Some e \<and> exp_passed e t = Some False)"
  by (auto simp: check_payload_def json_get_def split: json.splits option.splits bool.splits)

lemma decode_acceptsD:
  assumes "decode_access_token api t tick token v c = (Inr p, c')"
  obtains tok kid key where "token = Some tok" "token_kid tok = Some (int kid)" "json_get (pt_header tok) ''alg'' = Some (JStr JWT_ALG)"
    "dict_get (ks_public_keys c') kid = Some key" "cache_is_fresh tick c'" "ks_min_decryption_version c' \<le> kid"
    "ta_ec_verify api key (bytes_to_nat (take 32 (pt_signature tok)), bytes_to_nat (drop 32 (pt_signature tok))) (pt_signing_input tok)"
    "check_payload (pt_payload tok) t = Inr p"
proof -
  obtain tok kid c1 m where tok: "token = Some tok" "token_kid tok = Some kid" "json_get (pt_header tok) ''alg'' = Some (JStr JWT_ALG)"
    and ver: "transit_verify api tick (pt_signing_input tok) (pt_signature tok) kid v c = (Inr True, c1)"
    and floor: "min_decryption_version api tick v c1 = (Inr m, c')" "int m \<le> kid" "check_payload (pt_payload tok) t = Inr p"
    using assms unfolding decode_access_token_def token_kid_def
    by (auto split: option.splits if_splits prod.splits sum.splits)
  obtain key where key: "0 \<le> kid" "dict_get (ks_public_keys c1) (nat kid) = Some key" "cache_is_fresh tick c1"
    "ta_ec_verify api key (bytes_to_nat (take 32 (pt_signature tok)), bytes_to_nat (drop 32 (pt_signature tok))) (pt_signing_input tok)"
    using ver by (rule transit_verifyD)
  have "c' = c1" "m = ks_min_decryption_version c1"
    using floor(1) by (auto simp: min_decryption_version_def fresh_cache_kept[OF key(3)])
  then show ?thesis using that[of tok "nat kid" key] tok key floor(2,3) by simp
qed

lemma refresh_cache_from: "refresh_cache api tick v c = (r, c') \<Longrightarrow> c' = c \<or> server_keys api v c'"
  by (cases r) (auto dest: refresh_cache_okD refresh_cache_failD)

lemma public_key_from: "public_key_for api tick kid v c = (r, c') \<Longrightarrow> c' = c \<or> server_keys api v c'"
  by (auto simp: public_key_for_def Let_def split: if_splits prod.splits sum.splits dest: refresh_cache_from)

lemma with_fresh_cache_from: "with_fresh_cache f api tick v c = (r, c') \<Longrightarrow> c' = c \<or> server_keys api v c'"
  by (auto simp: with_fresh_cache_def split: if_splits prod.splits sum.splits dest: refresh_cache_from)

lemma transit_verify_from: "transit_verify api tick input sig kid v c = (r, c') \<Longrightarrow> c' = c \<or> server_keys api v c'"
  by (auto simp: transit_verify_def split: prod.splits sum.splits option.splits dest: public_key_from)

lemma decode_keys_from_server:
  assumes "decode_access_token api t tick token v c = (r, c')" shows "c' = c \<or> server_keys api v c'"
proof -
  have "c2 = c \<or> server_keys api v c2" if "transit_verify api tick i s k v c = (x, c1)" "min_decryption_version api tick v c1 = (y, c2)"
    for i s k x c1 y c2
    using transit_verify_from[OF that(1)] with_fresh_cache_from[OF that(2)[unfolded min_decryption_version_def]] by auto
  moreover have "c1 = c \<or> server_keys api v c1" if "transit_verify api tick i s k v c = (x, c1)" for i s k x c1
    using transit_verify_from[OF that] .
  ultimately show ?thesis using assms unfolding decode_access_token_def
    by (auto split: option.splits if_splits prod.splits sum.splits)
qed

text \<open>C13. Nothing but a signature of the signing key opens the door: a token is accepted only when its algorithm is
  ES256, the key version it names is one whose public key was read from Vault less than a minute ago and is not below the
  floor of that reading, that key verifies the exact text of its two first segments, and its expiry has not passed. A
  service that cannot be reached accepts nothing new.\<close>
theorem accepted_tokens_are_signed:
  assumes "decode_access_token api t tick token v c = (Inr p, c')"
  shows "\<exists>tok kid key e. token = Some tok \<and> p = pt_payload tok
    \<and> json_get (pt_header tok) ''alg'' = Some (JStr JWT_ALG) \<and> token_kid tok = Some (int kid)
    \<and> dict_get (ks_public_keys c') kid = Some key \<and> tick - ks_fetched_at c' < TRANSIT_CACHE_TTL
    \<and> ks_min_decryption_version c' \<le> kid
    \<and> ta_ec_verify api key (bytes_to_nat (take 32 (pt_signature tok)), bytes_to_nat (drop 32 (pt_signature tok))) (pt_signing_input tok)
    \<and> json_get p ''exp'' = Some e \<and> exp_passed e t = Some False
    \<and> (c' = c \<or> server_keys api v c')"
proof -
  obtain tok kid key where k: "token = Some tok" "token_kid tok = Some (int kid)" "json_get (pt_header tok) ''alg'' = Some (JStr JWT_ALG)"
    "dict_get (ks_public_keys c') kid = Some key" "cache_is_fresh tick c'" "ks_min_decryption_version c' \<le> kid"
    "ta_ec_verify api key (bytes_to_nat (take 32 (pt_signature tok)), bytes_to_nat (drop 32 (pt_signature tok))) (pt_signing_input tok)"
    "check_payload (pt_payload tok) t = Inr p"
    using assms by (rule decode_acceptsD)
  have "tick - ks_fetched_at c' < TRANSIT_CACHE_TTL" using k(5) by (simp add: cache_is_fresh_def)
  then show ?thesis using k check_payloadD[OF k(8)] decode_keys_from_server[OF assms] by blast
qed

section \<open>Rotation\<close>

definition floor_at_least :: "('k, 'v) transit_api \<Rightarrow> nat \<Rightarrow> 'v \<Rightarrow> bool" where
  "floor_at_least api n v \<longleftrightarrow> (\<forall>d. ta_read api v = Inr d \<longrightarrow> n \<le> kd_min_decryption_version d)"

text \<open>A sequence of presentations, each with the clocks and the state of the server it meets.\<close>
fun decode_all :: "('k, 'v) transit_api \<Rightarrow> (int \<times> int \<times> presented_token option \<times> 'v) list \<Rightarrow> 'k key_state \<Rightarrow> (token_error + json) list" where
  "decode_all api [] c = []"
| "decode_all api ((t, tick, token, v) # rest) c =
    (case decode_access_token api t tick token v c of (r, c') \<Rightarrow> r # decode_all api rest c')"

lemma server_keys_floor: "floor_at_least api n v \<Longrightarrow> server_keys api v c \<Longrightarrow> n \<le> ks_min_decryption_version c"
  by (auto simp: floor_at_least_def server_keys_def)

lemma decode_all_above_floor:
  assumes "n \<le> ks_min_decryption_version c" and "\<And>t tick token v. (t, tick, token, v) \<in> set reqs \<Longrightarrow> floor_at_least api n v"
  shows "list_all2 (\<lambda>(t, tick, token, v) r. \<forall>p. r = Inr p \<longrightarrow> (\<exists>tok kid. token = Some tok \<and> token_kid tok = Some (int kid) \<and> n \<le> kid))
    reqs (decode_all api reqs c)"
  using assms
proof (induction reqs arbitrary: c)
  case (Cons q reqs)
  obtain t tick token v where q: "q = (t, tick, token, v)" by (cases q) auto
  obtain r c' where d: "decode_access_token api t tick token v c = (r, c')" by fastforce
  have "floor_at_least api n v" using Cons.prems(2) q by (metis list.set_intros(1))
  then have c': "n \<le> ks_min_decryption_version c'" using decode_keys_from_server[OF d] Cons.prems(1) by (auto intro: server_keys_floor)
  have "\<exists>tok kid. token = Some tok \<and> token_kid tok = Some (int kid) \<and> n \<le> kid" if "r = Inr p" for p
    using decode_acceptsD[OF d[unfolded that]] c' by (metis order_trans)
  moreover have "list_all2 (\<lambda>(t, tick, token, v) r. \<forall>p. r = Inr p \<longrightarrow> (\<exists>tok kid. token = Some tok \<and> token_kid tok = Some (int kid) \<and> n \<le> kid))
    reqs (decode_all api reqs c')"
    by (rule Cons.IH[OF c']) (use Cons.prems(2) in \<open>meson list.set_intros(2)\<close>)
  ultimately show ?case by (auto simp: q d)
qed simp

text \<open>Rotating the signing key logs everyone out: when \<open>rotate_key\<close> returns the new version, no token that names an
  older version is accepted ever after by this process, whatever is presented and in whatever order, as long as Vault keeps
  the floor it was told to set (its documented behaviour).\<close>
theorem rotation_revokes_tokens:
  assumes "rotate_key api tick v c = (Inr n, v', c')"
    and "\<And>m u w. ta_configure api m u = (Inr (), w) \<Longrightarrow> floor_at_least api m w"
    and "\<And>t tick' token w. (t, tick', token, w) \<in> set reqs \<Longrightarrow> floor_at_least api n w"
  shows "list_all2 (\<lambda>(t, tick, token, v) r. \<forall>p. r = Inr p \<longrightarrow> (\<exists>tok kid. token = Some tok \<and> token_kid tok = Some (int kid) \<and> n \<le> kid))
    reqs (decode_all api reqs c')"
proof (rule decode_all_above_floor)
  obtain u w where "ta_configure api n u = (Inr (), w)" "refresh_cache api tick w c = (Inr (), c')"
    using assms(1) unfolding rotate_key_def by (auto split: sum.splits prod.splits)
  then show "n \<le> ks_min_decryption_version c'" by (auto intro: server_keys_floor assms(2) dest: refresh_cache_okD)
qed (rule assms(3))


section \<open>Issue and accept\<close>

text \<open>The documented behaviour of the key service: it signs with a version it lists, the public key it lists for that
  version verifies the signature, and its floor is not above the latest version.\<close>
definition honest_vault :: "('k, 'v) transit_api \<Rightarrow> 'v \<Rightarrow> bool" where
  "honest_vault api v \<longleftrightarrow> (\<forall>d kv signed_text r s. ta_read api v = Inr d \<longrightarrow> ta_sign api kv signed_text v = Inr (kv, r, s)
     \<longrightarrow> kd_min_decryption_version d \<le> kd_latest_version d
       \<and> (\<exists>pem k. map_of (kd_keys d) kv = Some pem \<and> ta_load_pem api pem = EC_key k \<and> ta_ec_verify api k (r, s) signed_text))"

lemma load_keys_get:
  "load_keys api ps = Inr ks \<Longrightarrow> map_of ps n = Some pem \<Longrightarrow> ta_load_pem api pem = EC_key k \<Longrightarrow> dict_get ks n = Some k"
  by (induction ps arbitrary: ks) (auto split: loaded_key.splits sum.splits if_splits)

lemma transit_signD:
  assumes "transit_sign api signed_text kv v = Inr sig"
  obtains r s where "ta_sign api kv signed_text v = Inr (kv, r, s)" "length sig = 64" "bytes_to_nat (take 32 sig) = r" "bytes_to_nat (drop 32 sig) = s"
    "transit_client api v = Inr ()"
proof -
  obtain r s rb sb where "ta_sign api kv signed_text v = Inr (kv, r, s)" "to_bytes32 r = Some rb" "to_bytes32 s = Some sb" "sig = rb @ sb"
    "transit_client api v = Inr ()"
    using assms unfolding transit_sign_def by (auto split: sum.splits if_splits option.splits prod.splits)
  then show ?thesis using that by (auto dest!: to_bytes32_SomeD)
qed

lemma refresh_cache_server_keys:
  "server_keys api v c0 \<Longrightarrow> transit_client api v = Inr () \<Longrightarrow> \<exists>c'. refresh_cache api tick v c = (Inr (), c') \<and> server_keys api v c' \<and> ks_fetched_at c' = tick"
  by (auto simp: server_keys_def refresh_cache_def)

lemma server_keys_agree:
  "server_keys api v c \<Longrightarrow> server_keys api v c' \<Longrightarrow> ks_public_keys c = ks_public_keys c' \<and> ks_min_decryption_version c = ks_min_decryption_version c'
    \<and> ks_latest_version c = ks_latest_version c'"
  by (auto simp: server_keys_def)

lemma public_key_for_server_keys:
  assumes "server_keys api v c" "transit_client api v = Inr ()" "dict_get (ks_public_keys c) kid = Some key"
  obtains c' where "public_key_for api tick (int kid) v c = (Inr (Some key), c')" "server_keys api v c'" "cache_is_fresh tick c'"
proof (cases "cache_is_fresh tick c")
  case True
  then show ?thesis using assms that[of c] by (simp add: public_key_for_def)
next
  case False
  obtain c' where c': "refresh_cache api tick v c = (Inr (), c')" "server_keys api v c'" "ks_fetched_at c' = tick"
    using refresh_cache_server_keys[OF assms(1,2)] by blast
  have "dict_get (ks_public_keys c') kid = Some key" using server_keys_agree[OF assms(1) c'(2)] assms(3) by simp
  then show ?thesis using that[of c'] c' False fetched_now_fresh[OF c'(3)] by (simp add: public_key_for_def)
qed


section \<open>Witnesses\<close>

text \<open>A key service with two numbers for a state, the latest version and the floor; the signature of a text by version
  \<open>n\<close> is the pair of \<open>n\<close> and the length of the text modulo 251.\<close>
definition sample_vault :: "(nat, nat \<times> nat) transit_api" where
  "sample_vault = \<lparr>ta_authenticated = (\<lambda>_. Some True),
     ta_read = (\<lambda>(n, m). Inr \<lparr>kd_keys = map (\<lambda>i. (i, replicate i (CHR ''k''))) [1..<Suc n], kd_min_decryption_version = m, kd_latest_version = n\<rparr>),
     ta_sign = (\<lambda>kv t (n, m). if kv \<in> {1..n} then Inr (kv, kv, length t mod 251) else Inl Vault_error),
     ta_rotate = (\<lambda>(n, m). (Inr (), (Suc n, m))), ta_configure = (\<lambda>k (n, m). (Inr (), (n, k))),
     ta_enable = (\<lambda>v. (Inl Path_in_use, v)), ta_create = (\<lambda>v. (Inr (), v)),
     ta_load_pem = (\<lambda>s. EC_key (length s)), ta_ec_verify = (\<lambda>k (r, s) t. r = k \<and> s = length t mod 251),
     ta_vault_addr = Some ''http://vault:8200'', ta_vault_token = Some ''root''\<rparr>"

definition sample_token :: presented_token where
  "sample_token = \<lparr>pt_signing_input = ''hdr.claims'', pt_header = token_header 1, pt_payload = token_payload [] 15 0,
     pt_signature = nat_to_bytes 32 1 @ nat_to_bytes 32 10\<rparr>"

lemma sample_vault_client: "transit_client sample_vault v = Inr ()"
  by (simp add: transit_client_def sample_vault_def set_string_def)

lemma sample_load_keys: "load_keys sample_vault (map (\<lambda>i. (i, replicate i (CHR ''k''))) ns) = Inr (map (\<lambda>i. (i, i)) ns)"
  by (induction ns) (simp_all add: sample_vault_def)

lemma sample_refresh:
  "refresh_cache sample_vault tick (n, m) c = (Inr (), \<lparr>ks_public_keys = map (\<lambda>i. (i, i)) [1..<Suc n], ks_min_decryption_version = m,
     ks_latest_version = n, ks_fetched_at = tick\<rparr>)"
proof -
  have "ta_read sample_vault (n, m) = Inr \<lparr>kd_keys = map (\<lambda>i. (i, replicate i (CHR ''k''))) [1..<Suc n], kd_min_decryption_version = m, kd_latest_version = n\<rparr>"
    by (simp add: sample_vault_def)
  then show ?thesis by (simp add: refresh_cache_def sample_vault_client sample_load_keys del: upt_Suc)
qed

lemma sample_rotate:
  "rotate_key sample_vault 5 (1, 1) empty_key_state = (Inr 2, (2, 2), \<lparr>ks_public_keys = [(1, 1), (2, 2)], ks_min_decryption_version = 2,
     ks_latest_version = 2, ks_fetched_at = 5\<rparr>)"
proof -
  have "ta_rotate sample_vault (1, 1) = (Inr (), (2, 1))" "ta_configure sample_vault 2 (2, 1) = (Inr (), (2, 2))"
    "ta_read sample_vault (2, 1) = Inr \<lparr>kd_keys = map (\<lambda>i. (i, replicate i (CHR ''k''))) [1..<Suc 2], kd_min_decryption_version = 1, kd_latest_version = 2\<rparr>"
    by (simp_all add: sample_vault_def numeral_2_eq_2)
  moreover have "[1..<Suc 2] = [1, 2]" by code_simp
  ultimately show ?thesis by (simp add: rotate_key_def sample_vault_client sample_refresh del: upt_Suc)
qed

lemma sample_accepts:
  assumes "check_payload p t = Inr p"
  shows "decode_access_token sample_vault t 7 (Some (sample_token\<lparr>pt_payload := p\<rparr>)) (1, 1) empty_key_state
    = (Inr p, \<lparr>ks_public_keys = [(1, 1)], ks_min_decryption_version = 1, ks_latest_version = 1, ks_fetched_at = 7\<rparr>)"
proof -
  let ?c = "\<lparr>ks_public_keys = [(1, 1)], ks_min_decryption_version = 1, ks_latest_version = 1, ks_fetched_at = 7\<rparr> :: nat key_state"
  have "refresh_cache sample_vault 7 (1, 1) empty_key_state = (Inr (), ?c)" using sample_refresh[of 7 1 1 empty_key_state] by simp
  then have k: "public_key_for sample_vault 7 1 (1, 1) empty_key_state = (Inr (Some 1), ?c)"
    by (simp add: public_key_for_def cache_is_fresh_def empty_key_state_def)
  have bytes: "bytes_to_nat (nat_to_bytes 32 1) = 1" "bytes_to_nat (nat_to_bytes 32 10) = 10" by (simp_all add: bytes_to_nat_bytes)
  have "ta_ec_verify sample_vault 1 (1, 10) ''hdr.claims''" by (simp add: sample_vault_def)
  then have "transit_verify sample_vault 7 ''hdr.claims'' (nat_to_bytes 32 1 @ nat_to_bytes 32 10) 1 (1, 1) empty_key_state = (Inr True, ?c)"
    using bytes by (simp add: transit_verify_def k[unfolded One_nat_def])
  moreover have "min_decryption_version sample_vault 7 (1, 1) ?c = (Inr 1, ?c)"
    by (simp add: min_decryption_version_def with_fresh_cache_def cache_is_fresh_def TRANSIT_CACHE_TTL_def)
  moreover have "json_int (json_get (token_header 1) ''kid'') = Some 1"
    using int_of_show_nat[of 1] by (simp add: token_header_def json_get_def json_int_def)
  moreover have "json_get (token_header 1) ''alg'' = Some (JStr JWT_ALG)" by (simp add: token_header_def json_get_def)
  ultimately show ?thesis using assms unfolding decode_access_token_def sample_token_def by simp
qed

lemma sample_accepted:
  "fst (decode_access_token sample_vault 7 7 (Some sample_token) (1, 1) empty_key_state) = Inr (token_payload [] 15 0)"
proof -
  have "sample_token\<lparr>pt_payload := token_payload [] 15 0\<rparr> = sample_token" by (simp add: sample_token_def)
  moreover have "check_payload (token_payload [] 15 0) 7 = Inr (token_payload [] 15 0)"
    by (simp add: check_payload_def token_payload_def exp_passed_def seconds_of_def)
  ultimately show ?thesis using sample_accepts[of "token_payload [] 15 0" 7] by simp
qed

lemma sample_signs: "\<exists>sig. transit_sign sample_vault x 1 (1, 1) = Inr sig"
proof -
  have "ta_sign sample_vault 1 x (1, 1) = Inr (1, 1, length x mod 251)" by (simp add: sample_vault_def)
  moreover have "length x mod 251 < 256 ^ 32" by (rule less_trans[of _ 251]) simp_all
  ultimately show ?thesis by (simp add: transit_sign_def sample_vault_client to_bytes32_def)
qed

lemma sample_issues:
  assumes "ks_latest_version c = 1"
  shows "\<exists>tok c'. create_access_token sample_vault flt t tick uid role (1, 1) c = (Inr tok, c') \<and> ks_latest_version c' = 1"
proof -
  obtain c' where v: "current_key_version sample_vault tick (1, 1) c = (Inr 1, c')" "ks_latest_version c' = 1"
    using sample_refresh[of tick 1 1 c] assms by (cases "cache_is_fresh tick c") (simp_all add: current_key_version_def with_fresh_cache_def)
  let ?claims = "[(''sub'', JUuid uid), (''role'', JStr role)]"
  obtain sig where s: "transit_sign sample_vault (signing_input flt (token_header 1) (token_payload ?claims ACCESS_TOKEN_TTL_MINUTES t)) 1 (1, 1) = Inr sig"
    using sample_signs by blast
  show ?thesis unfolding create_access_token_def create_token_def v(1) Let_def by (simp add: s[unfolded One_nat_def] v(2))
qed

lemma accepted_tokens_are_signed_witness:
  "\<exists>kid key. token_kid sample_token = Some (int kid) \<and> ta_ec_verify sample_vault key (1, 10) (pt_signing_input sample_token)"
proof -
  obtain c' where d: "decode_access_token sample_vault 7 7 (Some sample_token) (1, 1) empty_key_state = (Inr (token_payload [] 15 0), c')"
    using sample_accepted by (metis prod.collapse)
  have "take 32 (pt_signature sample_token) = nat_to_bytes 32 1" "drop 32 (pt_signature sample_token) = nat_to_bytes 32 10"
    by (simp_all add: sample_token_def)
  then show ?thesis using accepted_tokens_are_signed[OF d] by (auto simp: bytes_to_nat_bytes)
qed

lemma rotation_revokes_tokens_witness:
  "fst (decode_access_token sample_vault 7 7 (Some sample_token) (1, 1) empty_key_state) = Inr (token_payload [] 15 0)
    \<and> list_all (\<lambda>r. \<not> (\<exists>p. r = Inr p)) (decode_all sample_vault [(8, 8, Some sample_token, (2, 2))]
        \<lparr>ks_public_keys = [(1, 1), (2, 2)], ks_min_decryption_version = 2, ks_latest_version = 2, ks_fetched_at = 5\<rparr>)"
proof -
  let ?reqs = "[(8, 8, Some sample_token, (2, 2))] :: (int \<times> int \<times> presented_token option \<times> nat \<times> nat) list"
  have "floor_at_least sample_vault m w" if "ta_configure sample_vault m u = (Inr (), w)" for m u w
    using that by (auto simp: sample_vault_def floor_at_least_def split: prod.splits)
  moreover have "floor_at_least sample_vault 2 w" if "(t, tick', token, w) \<in> set ?reqs" for t tick' token w
    using that by (auto simp: sample_vault_def floor_at_least_def)
  ultimately have "list_all2 (\<lambda>(t, tick, token, v) r. \<forall>p. r = Inr p \<longrightarrow> (\<exists>tok kid. token = Some tok \<and> token_kid tok = Some (int kid) \<and> 2 \<le> kid))
    ?reqs (decode_all sample_vault ?reqs \<lparr>ks_public_keys = [(1, 1), (2, 2)], ks_min_decryption_version = 2, ks_latest_version = 2, ks_fetched_at = 5\<rparr>)"
    by (rule rotation_revokes_tokens[OF sample_rotate])
  moreover have "token_kid sample_token = Some (int 1)"
    using int_of_show_nat[of 1] by (simp add: token_kid_def sample_token_def token_header_def json_get_def json_int_def)
  ultimately show ?thesis using sample_accepted by (auto simp: list_all2_Cons1)
qed


end
