(* ===== verification/Access.thy ===== *)
theory Access
  imports TransitKeys AuditChain
begin

text \<open>
  Who may act: accounts (\<open>src/api/routers/users.py\<close>, \<open>src/models/user.py\<close>), sign-in and the rotating refresh tokens
  (\<open>src/api/routers/auth.py\<close>, \<open>src/core/session.py\<close>, \<open>src/models/refresh_token.py\<close>), the second factor
  (\<open>src/api/routers/mfa.py\<close>) and the dependencies every endpoint is guarded by (\<open>src/api/deps.py\<close>). Bcrypt, TOTP, the
  random generator and the policy engine are fields of the world an operation sees. A request that fails after it opened a
  session leaves the tables as they were, except where the code commits first; the cache of public keys is kept.
\<close>

section \<open>State\<close>

definition ROLE_SYSTEM_ADMINISTRATOR :: string where "ROLE_SYSTEM_ADMINISTRATOR = ''SystemAdministrator''"
definition ROLE_PORTFOLIO_MANAGER :: string where "ROLE_PORTFOLIO_MANAGER = ''PortfolioManager''"
definition ROLE_RISK_MANAGER :: string where "ROLE_RISK_MANAGER = ''RiskManager''"
definition ROLE_READ_ONLY_AUDITOR :: string where "ROLE_READ_ONLY_AUDITOR = ''ReadOnlyAuditor''"

definition ALL_ROLES :: "string list" where
  "ALL_ROLES = [ROLE_SYSTEM_ADMINISTRATOR, ROLE_PORTFOLIO_MANAGER, ROLE_RISK_MANAGER, ROLE_READ_ONLY_AUDITOR]"

text \<open>Empty since the enforcement of the second factor was switched off.\<close>
definition MFA_MANDATORY_ROLES :: "string set" where "MFA_MANDATORY_ROLES = {}"

definition REFRESH_TOKEN_TTL_DAYS :: int where "REFRESH_TOKEN_TTL_DAYS = 7"

record user_row =
  us_id :: nat
  us_email :: string
  us_hashed_password :: string
  us_full_name :: "string option"
  us_role :: string
  us_mfa_enabled :: bool
  us_is_active :: bool
  us_last_login_at :: "int option"

record refresh_row =
  rt_id :: nat
  rt_user_id :: nat
  rt_token_hash :: string
  rt_family_id :: nat
  rt_parent_id :: "nat option"
  rt_expires_at :: int
  rt_used_at :: "int option"
  rt_revoked_at :: "int option"
  rt_revoked_reason :: "string option"

record backup_row =
  bc_user_id :: nat
  bc_code_hash :: string
  bc_used_at :: "int option"

text \<open>The tables, the secrets of the key-value store, the signing service with the local cache of its keys, and the next
  fresh identifier.\<close>
record ('k, 'v) access =
  ax_db :: db
  ax_users :: "user_row list"
  ax_tokens :: "refresh_row list"
  ax_codes :: "backup_row list"
  ax_secrets :: "(nat, string) dict"
  ax_vault :: 'v
  ax_keys :: "'k key_state"
  ax_next :: nat

text \<open>What a request sees of the outside: the clocks and SHA-256, the signing service, bcrypt (\<open>None\<close>: an exception), the
  check of a TOTP code at this moment, whether the secret store answers, the next random values, the policy engine and the
  address of the caller.\<close>
record ('k, 'v) auth_world =
  aw_env :: env
  aw_tick :: int
  aw_api :: "('k, 'v) transit_api"
  aw_checkpw :: "string \<Rightarrow> string \<Rightarrow> bool option"
  aw_hashpw :: "string \<Rightarrow> string"
  aw_totp :: "string \<Rightarrow> string \<Rightarrow> bool"
  aw_kv_up :: bool
  aw_raw_token :: string
  aw_totp_secret :: string
  aw_backup_codes :: "string list"
  aw_allowed :: "string \<Rightarrow> string \<Rightarrow> string \<Rightarrow> bool"
  aw_client_ip :: "string option"

text \<open>An HTTP status, or an exception no handler translates.\<close>
datatype api_failure = Status nat | Uncaught

record issued_session =
  is_access_token :: presented_token
  is_refresh_token :: string

definition aw_now :: "('k, 'v) auth_world \<Rightarrow> int" where "aw_now w = e_now (aw_env w)"

definition write_access_audit :: "('k, 'v) auth_world \<Rightarrow> audit_content \<Rightarrow> ('k, 'v) access \<Rightarrow> ('k, 'v) access" where
  "write_access_audit w content st = st\<lparr>ax_db := snd (write_audit_entry (aw_env w) content (ax_db st))\<rparr>"

section \<open>Passwords\<close>

definition MAX_PASSWORD_BYTES :: nat where "MAX_PASSWORD_BYTES = 72"

definition utf8_length :: "string \<Rightarrow> nat" where
  "utf8_length s = sum_list (map (\<lambda>c. if (of_char c :: nat) < 128 then 1 else 2) s)"

text \<open>\<open>None\<close> is the \<open>ValueError\<close>.\<close>
definition hash_password :: "('k, 'v) auth_world \<Rightarrow> string \<Rightarrow> string option" where
  "hash_password w pw = (if utf8_length pw > MAX_PASSWORD_BYTES then None else Some (aw_hashpw w pw))"

section \<open>Sessions\<close>

definition hash_refresh_token :: "('k, 'v) auth_world \<Rightarrow> string \<Rightarrow> string" where
  "hash_refresh_token w raw = e_sha256 (aw_env w) raw"

definition user_access_token ::
  "('k, 'v) auth_world \<Rightarrow> user_row \<Rightarrow> ('k, 'v) access \<Rightarrow> (vault_failure + presented_token) \<times> ('k, 'v) access" where
  "user_access_token w u st =
    (case create_access_token (aw_api w) (e_float_repr (aw_env w)) (aw_now w) (aw_tick w) (us_id u) (us_role u) (ax_vault st) (ax_keys st) of
       (r, c) \<Rightarrow> (r, st\<lparr>ax_keys := c\<rparr>))"

text \<open>The insertion of a token row; the hash is unique, so a clash is an exception.\<close>
definition add_refresh_row ::
  "('k, 'v) auth_world \<Rightarrow> nat \<Rightarrow> nat \<Rightarrow> nat option \<Rightarrow> ('k, 'v) access \<Rightarrow> ('k, 'v) access option" where
  "add_refresh_row w uid family parent st =
    (let h = hash_refresh_token w (aw_raw_token w) in
     if h \<in> rt_token_hash ` set (ax_tokens st) then None
     else Some (st\<lparr>ax_tokens := ax_tokens st @ [\<lparr>rt_id = ax_next st, rt_user_id = uid, rt_token_hash = h, rt_family_id = family,
        rt_parent_id = parent, rt_expires_at = aw_now w + REFRESH_TOKEN_TTL_DAYS * us_per_day, rt_used_at = None, rt_revoked_at = None,
        rt_revoked_reason = None\<rparr>], ax_next := Suc (ax_next st)\<rparr>))"

definition vault_status :: "vault_failure \<Rightarrow> api_failure" where
  "vault_status e = (if e = Transit_unavailable then Status 503 else Uncaught)"

text \<open>\<open>issue_session\<close>, with the failure of the signing left to the caller: a new family under a fresh identifier.\<close>
definition issue_session ::
  "('k, 'v) auth_world \<Rightarrow> user_row \<Rightarrow> ('k, 'v) access \<Rightarrow> ((vault_failure option) + issued_session) \<times> ('k, 'v) access" where
  "issue_session w u st =
    (case user_access_token w u st of
       (Inl e, st1) \<Rightarrow> (Inl (Some e), st1)
     | (Inr tok, st1) \<Rightarrow>
       (let family = ax_next st1; st2 = st1\<lparr>ax_next := Suc (ax_next st1)\<rparr> in
        case add_refresh_row w (us_id u) family None st2 of
          None \<Rightarrow> (Inl None, st1)
        | Some st3 \<Rightarrow> (Inr \<lparr>is_access_token = tok, is_refresh_token = aw_raw_token w\<rparr>, st3)))"

datatype login_reply = Logged_in issued_session | Mfa_required presented_token bool

definition login_audit :: "('k, 'v) auth_world \<Rightarrow> string \<Rightarrow> string \<Rightarrow> nat option \<Rightarrow> ('k, 'v) access \<Rightarrow> ('k, 'v) access" where
  "login_audit w actor act eid = write_access_audit w ((audit_entry Human actor act ''User'' eid None None)\<lparr>al_ip_address := aw_client_ip w\<rparr>)"

text \<open>\<open>login\<close> for a given set of roles that must pass the second factor.\<close>
definition login_with ::
  "string set \<Rightarrow> ('k, 'v) auth_world \<Rightarrow> string \<Rightarrow> string \<Rightarrow> ('k, 'v) access \<Rightarrow> (api_failure + login_reply) \<times> ('k, 'v) access" where
  "login_with mandatory w email pw st =
    (let failed = (Inl (Status 401), login_audit w email ''LOGIN_FAILURE'' None st) in
     case row_by us_email email (ax_users st) of
       None \<Rightarrow> failed
     | Some u \<Rightarrow>
       (case aw_checkpw w pw (us_hashed_password u) of
          None \<Rightarrow> (Inl Uncaught, st)
        | Some False \<Rightarrow> failed
        | Some True \<Rightarrow>
          if \<not> us_is_active u then (Inl (Status 401), login_audit w (us_email u) ''LOGIN_FAILURE'' (Some (us_id u)) st)
          else
            (let st1 = login_audit w (us_email u) ''LOGIN_SUCCESS'' (Some (us_id u))
                  (st\<lparr>ax_users := update_where (\<lambda>x. us_id x = us_id u) (\<lambda>x. x\<lparr>us_last_login_at := Some (aw_now w)\<rparr>) (ax_users st)\<rparr>) in
             if us_role u \<in> mandatory then
               (case create_mfa_pending_token (aw_api w) (e_float_repr (aw_env w)) (aw_now w) (aw_tick w) (us_id u) (us_role u)
                       (ax_vault st1) (ax_keys st1) of
                  (Inl e, c) \<Rightarrow> (Inl (vault_status e), st1\<lparr>ax_keys := c\<rparr>)
                | (Inr tok, c) \<Rightarrow> (Inr (Mfa_required tok (us_mfa_enabled u)), st1\<lparr>ax_keys := c\<rparr>))
             else
               (case issue_session w u st1 of
                  (Inl e, st2) \<Rightarrow> (Inl (case e of None \<Rightarrow> Uncaught | Some e' \<Rightarrow> vault_status e'), st2)
                | (Inr s, st2) \<Rightarrow> (Inr (Logged_in s), st2)))))"

definition login :: "('k, 'v) auth_world \<Rightarrow> string \<Rightarrow> string \<Rightarrow> ('k, 'v) access \<Rightarrow> (api_failure + login_reply) \<times> ('k, 'v) access" where
  "login = login_with MFA_MANDATORY_ROLES"

text \<open>The live rows a bulk update revokes.\<close>
definition revoke_tokens :: "('k, 'v) auth_world \<Rightarrow> string \<Rightarrow> (refresh_row \<Rightarrow> bool) \<Rightarrow> ('k, 'v) access \<Rightarrow> ('k, 'v) access" where
  "revoke_tokens w reason P st = st\<lparr>ax_tokens := update_where (\<lambda>r. P r \<and> rt_revoked_at r = None)
     (\<lambda>r. r\<lparr>rt_revoked_at := Some (aw_now w), rt_revoked_reason := Some reason\<rparr>) (ax_tokens st)\<rparr>"

text \<open>The first part of \<open>refresh\<close>: what it reads and decides before it writes. A token presented a second time revokes its
  whole family.\<close>
definition refresh_check ::
  "('k, 'v) auth_world \<Rightarrow> string \<Rightarrow> ('k, 'v) access \<Rightarrow> (api_failure + refresh_row \<times> user_row) \<times> ('k, 'v) access" where
  "refresh_check w raw st =
    (case row_by rt_token_hash (hash_refresh_token w raw) (ax_tokens st) of
       None \<Rightarrow> (Inl (Status 401), st)
     | Some row \<Rightarrow>
       if rt_used_at row \<noteq> None \<or> rt_revoked_at row \<noteq> None
       then (Inl (Status 401), write_access_audit w
               (audit_entry System (uuid_str (rt_user_id row)) ''REFRESH_TOKEN_REUSE_DETECTED'' ''User'' (Some (rt_user_id row)) None
                  (Some (JObj [(''family_id'', JUuid (rt_family_id row))])))
               (revoke_tokens w ''REUSE_DETECTED'' (\<lambda>r. rt_family_id r = rt_family_id row) st))
       else if rt_expires_at row < aw_now w then (Inl (Status 401), st)
       else case row_by us_id (rt_user_id row) (ax_users st) of
           None \<Rightarrow> (Inl (Status 401), st)
         | Some u \<Rightarrow> if \<not> us_is_active u then (Inl (Status 401), st) else (Inr (row, u), st))"

text \<open>The rest: mark the token as used, sign, insert the successor, commit.\<close>
definition refresh_commit ::
  "('k, 'v) auth_world \<Rightarrow> refresh_row \<Rightarrow> user_row \<Rightarrow> ('k, 'v) access \<Rightarrow> (api_failure + issued_session) \<times> ('k, 'v) access" where
  "refresh_commit w row u st =
    (case user_access_token w u st of
       (Inl e, st1) \<Rightarrow> (Inl Uncaught, st1)
     | (Inr tok, st1) \<Rightarrow>
       (case add_refresh_row w (us_id u) (rt_family_id row) (Some (rt_id row))
               (st1\<lparr>ax_tokens := update_where (\<lambda>r. rt_id r = rt_id row) (\<lambda>r. r\<lparr>rt_used_at := Some (aw_now w)\<rparr>) (ax_tokens st1)\<rparr>) of
          None \<Rightarrow> (Inl Uncaught, st1)
        | Some st2 \<Rightarrow> (Inr \<lparr>is_access_token = tok, is_refresh_token = aw_raw_token w\<rparr>, st2)))"

definition refresh :: "('k, 'v) auth_world \<Rightarrow> string \<Rightarrow> ('k, 'v) access \<Rightarrow> (api_failure + issued_session) \<times> ('k, 'v) access" where
  "refresh w raw st =
    (case refresh_check w raw st of
       (Inl e, st1) \<Rightarrow> (Inl e, st1)
     | (Inr (row, u), st1) \<Rightarrow> refresh_commit w row u st1)"

definition logout :: "('k, 'v) auth_world \<Rightarrow> string \<Rightarrow> ('k, 'v) access \<Rightarrow> ('k, 'v) access" where
  "logout w raw = revoke_tokens w ''LOGOUT'' (\<lambda>r. rt_token_hash r = hash_refresh_token w raw)"

section \<open>Who is calling\<close>

text \<open>\<open>_decode_and_load_user\<close>: the claims and the active user they name.\<close>
definition decode_and_load_user ::
  "('k, 'v) auth_world \<Rightarrow> presented_token option \<Rightarrow> ('k, 'v) access \<Rightarrow> (api_failure + json \<times> user_row) \<times> ('k, 'v) access" where
  "decode_and_load_user w token st =
    (case decode_access_token (aw_api w) (aw_now w) (aw_tick w) token (ax_vault st) (ax_keys st) of
       (r, c) \<Rightarrow>
         (case r of
            Inl Invalid_token \<Rightarrow> Inl (Status 401)
          | Inl Token_crash \<Rightarrow> Inl Uncaught
          | Inr p \<Rightarrow>
            (case json_get p ''sub'' of
               None \<Rightarrow> Inl (Status 401)
             | Some (JStr s) \<Rightarrow>
               (case uuid_of_str s of
                  None \<Rightarrow> Inl (Status 401)
                | Some i \<Rightarrow>
                  (case row_by us_id i (ax_users st) of
                     None \<Rightarrow> Inl (Status 401)
                   | Some u \<Rightarrow> if us_is_active u then Inr (p, u) else Inl (Status 401)))
             | Some _ \<Rightarrow> Inl Uncaught),
          st\<lparr>ax_keys := c\<rparr>))"

definition is_mfa_pending :: "json \<Rightarrow> bool" where
  "is_mfa_pending p \<longleftrightarrow> json_get p ''scope'' = Some (JStr MFA_PENDING_SCOPE)"

text \<open>The three dependencies; the outer option of the token is a missing header.\<close>
definition user_with_scope ::
  "(json \<Rightarrow> bool) \<Rightarrow> ('k, 'v) auth_world \<Rightarrow> presented_token option option \<Rightarrow> ('k, 'v) access \<Rightarrow> (api_failure + user_row) \<times> ('k, 'v) access" where
  "user_with_scope ok w credentials st =
    (case credentials of
       None \<Rightarrow> (Inl (Status 401), st)
     | Some token \<Rightarrow>
       (case decode_and_load_user w token st of
          (Inl e, st') \<Rightarrow> (Inl e, st')
        | (Inr (p, u), st') \<Rightarrow> (if ok p then Inr u else Inl (Status 401), st')))"

definition get_current_user where "get_current_user = user_with_scope (\<lambda>p. \<not> is_mfa_pending p)"
definition get_mfa_pending_user where "get_mfa_pending_user = user_with_scope is_mfa_pending"
definition get_user_any_token where "get_user_any_token = user_with_scope (\<lambda>_. True)"

text \<open>The decision is the policy engine's, on the role stored in the table.\<close>
definition require_role ::
  "('k, 'v) auth_world \<Rightarrow> bool \<Rightarrow> string \<Rightarrow> string \<Rightarrow> string \<Rightarrow> presented_token option option \<Rightarrow> ('k, 'v) access
    \<Rightarrow> (api_failure + user_row) \<times> ('k, 'v) access" where
  "require_role w audit_denials route path meth credentials st =
    (case get_current_user w credentials st of
       (Inl e, st') \<Rightarrow> (Inl e, st')
     | (Inr u, st') \<Rightarrow>
       if aw_allowed w (us_role u) route (upper meth) then (Inr u, st')
       else (Inl (Status 403),
         if audit_denials then write_access_audit w (audit_entry Human (us_email u) ''RBAC_DENIED'' ''Endpoint'' None None
             (Some (JObj [(''path'', JStr path), (''role'', JStr (us_role u))]))) st'
         else st'))"

section \<open>The second factor\<close>

record enrollment =
  en_secret :: string
  en_backup_codes :: "string list"

definition write_mfa_secret :: "('k, 'v) auth_world \<Rightarrow> nat \<Rightarrow> string \<Rightarrow> ('k, 'v) access \<Rightarrow> bool \<times> ('k, 'v) access" where
  "write_mfa_secret w uid secret st = (if aw_kv_up w then (True, st\<lparr>ax_secrets := dict_set uid secret (ax_secrets st)\<rparr>) else (False, st))"

definition read_mfa_secret :: "('k, 'v) auth_world \<Rightarrow> nat \<Rightarrow> ('k, 'v) access \<Rightarrow> string option" where
  "read_mfa_secret w uid st = (if aw_kv_up w then dict_get (ax_secrets st) uid else None)"

definition delete_mfa_secret :: "('k, 'v) auth_world \<Rightarrow> nat \<Rightarrow> ('k, 'v) access \<Rightarrow> ('k, 'v) access" where
  "delete_mfa_secret w uid st = (if aw_kv_up w then st\<lparr>ax_secrets := AList.delete uid (ax_secrets st)\<rparr> else st)"

definition enroll :: "('k, 'v) auth_world \<Rightarrow> user_row \<Rightarrow> ('k, 'v) access \<Rightarrow> (api_failure + enrollment) \<times> ('k, 'v) access" where
  "enroll w u st =
    (case write_mfa_secret w (us_id u) (aw_totp_secret w) st of
       (False, st1) \<Rightarrow> (Inl (Status 503), st1)
     | (True, st1) \<Rightarrow>
       (Inr \<lparr>en_secret = aw_totp_secret w, en_backup_codes = aw_backup_codes w\<rparr>,
        st1\<lparr>ax_codes := filter (\<lambda>b. bc_user_id b \<noteq> us_id u) (ax_codes st1)
          @ map (\<lambda>code. \<lparr>bc_user_id = us_id u, bc_code_hash = aw_hashpw w code, bc_used_at = None\<rparr>) (aw_backup_codes w)\<rparr>))"

text \<open>A session issued at the end of a request: a failure undoes what the request changed, the key cache apart.\<close>
definition issue_or_rollback ::
  "('k, 'v) auth_world \<Rightarrow> user_row \<Rightarrow> ('k, 'v) access \<Rightarrow> ('k, 'v) access \<Rightarrow> (api_failure + issued_session) \<times> ('k, 'v) access" where
  "issue_or_rollback w u before st =
    (case issue_session w u st of
       (Inl _, st1) \<Rightarrow> (Inl Uncaught, before\<lparr>ax_keys := ax_keys st1\<rparr>)
     | (Inr s, st1) \<Rightarrow> (Inr s, st1))"

definition confirm_mfa :: "('k, 'v) auth_world \<Rightarrow> string \<Rightarrow> user_row \<Rightarrow> ('k, 'v) access \<Rightarrow> (api_failure + issued_session) \<times> ('k, 'v) access" where
  "confirm_mfa w code u st =
    (case read_mfa_secret w (us_id u) st of
       None \<Rightarrow> (Inl (Status 503), st)
     | Some secret \<Rightarrow>
       if \<not> aw_totp w secret code then (Inl (Status 401), st)
       else issue_or_rollback w u st
         (write_access_audit w (audit_entry Human (us_email u) ''MFA_ENROLLED'' ''User'' (Some (us_id u)) None None)
           (st\<lparr>ax_users := update_where (\<lambda>x. us_id x = us_id u) (\<lambda>x. x\<lparr>us_mfa_enabled := True\<rparr>) (ax_users st)\<rparr>)))"

text \<open>The first unused code of the user that matches is spent; the outer \<open>None\<close> is an exception of bcrypt.\<close>
fun verify_backup_code :: "('k, 'v) auth_world \<Rightarrow> nat \<Rightarrow> string \<Rightarrow> backup_row list \<Rightarrow> (bool \<times> backup_row list) option" where
  "verify_backup_code w uid code [] = Some (False, [])"
| "verify_backup_code w uid code (b # bs) =
    (if bc_user_id b = uid \<and> bc_used_at b = None then
       (case aw_checkpw w code (bc_code_hash b) of
          None \<Rightarrow> None
        | Some True \<Rightarrow> Some (True, b\<lparr>bc_used_at := Some (aw_now w)\<rparr> # bs)
        | Some False \<Rightarrow> map_option (\<lambda>(r, bs'). (r, b # bs')) (verify_backup_code w uid code bs))
     else map_option (\<lambda>(r, bs'). (r, b # bs')) (verify_backup_code w uid code bs))"

definition verify_mfa ::
  "('k, 'v) auth_world \<Rightarrow> string option \<Rightarrow> string option \<Rightarrow> user_row \<Rightarrow> ('k, 'v) access \<Rightarrow> (api_failure + issued_session) \<times> ('k, 'v) access" where
  "verify_mfa w totp backup u st =
    (if set_string totp = set_string backup then (Inl (Status 422), st)
     else case (case totp of
           Some code \<Rightarrow> (case read_mfa_secret w (us_id u) st of
               None \<Rightarrow> Inl (Status 503) | Some secret \<Rightarrow> Inr (aw_totp w secret code, ax_codes st))
         | None \<Rightarrow> (case verify_backup_code w (us_id u) (the backup) (ax_codes st) of
               None \<Rightarrow> Inl Uncaught | Some r \<Rightarrow> Inr r)) of
         Inl e \<Rightarrow> (Inl e, st)
       | Inr (ok, codes) \<Rightarrow>
         (let st1 = write_access_audit w (audit_entry Human (us_email u) (if ok then ''MFA_LOGIN_SUCCESS'' else ''MFA_LOGIN_FAILURE'')
                 ''User'' (Some (us_id u)) None None) (st\<lparr>ax_codes := codes\<rparr>) in
          if \<not> ok then (Inl (Status 401), st1) else issue_or_rollback w u st st1))"

definition disable_mfa :: "('k, 'v) auth_world \<Rightarrow> nat \<Rightarrow> user_row \<Rightarrow> ('k, 'v) access \<Rightarrow> (api_failure + unit) \<times> ('k, 'v) access" where
  "disable_mfa w uid admin st =
    (if row_by us_id uid (ax_users st) = None then (Inl (Status 404), st)
     else (Inr (), write_access_audit w (audit_entry Human (us_email admin) ''MFA_RESET_BY_ADMIN'' ''User'' (Some uid) None None)
       (delete_mfa_secret w uid (st\<lparr>ax_users := update_where (\<lambda>x. us_id x = uid) (\<lambda>x. x\<lparr>us_mfa_enabled := False\<rparr>) (ax_users st),
          ax_codes := filter (\<lambda>b. bc_user_id b \<noteq> uid) (ax_codes st)\<rparr>))))"

section \<open>Accounts\<close>

definition create_user ::
  "('k, 'v) auth_world \<Rightarrow> string \<Rightarrow> string \<Rightarrow> string option \<Rightarrow> string \<Rightarrow> ('k, 'v) access \<Rightarrow> (api_failure + user_row) \<times> ('k, 'v) access" where
  "create_user w email pw full_name role st =
    (if role \<notin> set ALL_ROLES then (Inl (Status 422), st)
     else if row_by us_email email (ax_users st) \<noteq> None then (Inl (Status 409), st)
     else case hash_password w pw of
         None \<Rightarrow> (Inl Uncaught, st)
       | Some h \<Rightarrow>
         (let u = \<lparr>us_id = ax_next st, us_email = email, us_hashed_password = h, us_full_name = full_name, us_role = role,
              us_mfa_enabled = False, us_is_active = True, us_last_login_at = None\<rparr> in
          (Inr u, st\<lparr>ax_users := ax_users st @ [u], ax_next := Suc (ax_next st)\<rparr>)))"

definition update_user :: "nat \<Rightarrow> (user_row \<Rightarrow> user_row) \<Rightarrow> ('k, 'v) access \<Rightarrow> (api_failure + user_row) \<times> ('k, 'v) access" where
  "update_user uid f st =
    (case row_by us_id uid (ax_users st) of
       None \<Rightarrow> (Inl (Status 404), st)
     | Some u \<Rightarrow> (Inr (f u), st\<lparr>ax_users := update_where (\<lambda>x. us_id x = uid) f (ax_users st)\<rparr>))"

definition update_user_role :: "nat \<Rightarrow> string \<Rightarrow> ('k, 'v) access \<Rightarrow> (api_failure + user_row) \<times> ('k, 'v) access" where
  "update_user_role uid role st =
    (if role \<notin> set ALL_ROLES then (Inl (Status 422), st) else update_user uid (\<lambda>u. u\<lparr>us_role := role\<rparr>) st)"

definition deactivate_user :: "nat \<Rightarrow> ('k, 'v) access \<Rightarrow> (api_failure + user_row) \<times> ('k, 'v) access" where
  "deactivate_user uid = update_user uid (\<lambda>u. u\<lparr>us_is_active := False\<rparr>)"

definition revoke_sessions :: "('k, 'v) auth_world \<Rightarrow> nat \<Rightarrow> ('k, 'v) access \<Rightarrow> nat \<times> ('k, 'v) access" where
  "revoke_sessions w uid st =
    (length (filter (\<lambda>r. rt_user_id r = uid \<and> rt_revoked_at r = None) (ax_tokens st)),
     revoke_tokens w ''ADMIN_REVOKED'' (\<lambda>r. rt_user_id r = uid) st)"

section \<open>Histories\<close>

text \<open>One request served to its end. The user of a guarded request is any row of the table.\<close>
inductive access_step :: "string set \<Rightarrow> ('k, 'v) access \<Rightarrow> ('k, 'v) access \<Rightarrow> bool" for mandatory where
  as_login: "access_step mandatory st (snd (login_with mandatory w email pw st))"
| as_refresh: "access_step mandatory st (snd (refresh w raw st))"
| as_logout: "access_step mandatory st (logout w raw st)"
| as_enroll: "access_step mandatory st (snd (enroll w u st))"
| as_confirm: "access_step mandatory st (snd (confirm_mfa w code u st))"
| as_verify: "access_step mandatory st (snd (verify_mfa w totp backup u st))"
| as_disable: "access_step mandatory st (snd (disable_mfa w uid admin st))"
| as_create: "access_step mandatory st (snd (create_user w email pw full_name role st))"
| as_role: "access_step mandatory st (snd (update_user_role uid role st))"
| as_deactivate: "access_step mandatory st (snd (deactivate_user uid st))"
| as_revoke: "access_step mandatory st (snd (revoke_sessions w uid st))"
| as_guard: "access_step mandatory st (snd (require_role w audit route path meth credentials st))"
| as_who: "access_step mandatory st (snd (user_with_scope ok w credentials st))"

definition token_live :: "refresh_row \<Rightarrow> bool" where
  "token_live r \<longleftrightarrow> rt_used_at r = None \<and> rt_revoked_at r = None"

definition live_of :: "nat \<Rightarrow> ('k, 'v) access \<Rightarrow> refresh_row list" where
  "live_of f st = filter (\<lambda>r. rt_family_id r = f \<and> token_live r) (ax_tokens st)"

text \<open>What every request keeps of the token table: identifiers and hashes are unique and identifiers and families are
  older than the next fresh one; a family has at most one live token.\<close>
definition tokens_ok :: "('k, 'v) access \<Rightarrow> bool" where
  "tokens_ok st \<longleftrightarrow> distinct (map rt_id (ax_tokens st)) \<and> distinct (map rt_token_hash (ax_tokens st))
     \<and> (\<forall>r \<in> set (ax_tokens st). rt_id r < ax_next st \<and> rt_family_id r < ax_next st)
     \<and> (\<forall>f. length (live_of f st) \<le> 1)"

section \<open>The token table\<close>

lemma audit_frame [simp]:
  "ax_tokens (write_access_audit w x st) = ax_tokens st" "ax_next (write_access_audit w x st) = ax_next st"
  "ax_users (write_access_audit w x st) = ax_users st" "ax_keys (write_access_audit w x st) = ax_keys st"
  "ax_vault (write_access_audit w x st) = ax_vault st"
  "ax_tokens (login_audit w a b c st) = ax_tokens st" "ax_next (login_audit w a b c st) = ax_next st"
  "ax_users (login_audit w a b c st) = ax_users st" "ax_keys (login_audit w a b c st) = ax_keys st"
  "ax_vault (login_audit w a b c st) = ax_vault st"
  by (simp_all add: write_access_audit_def login_audit_def)

lemma secret_frame [simp]:
  "ax_tokens (delete_mfa_secret w i st) = ax_tokens st" "ax_next (delete_mfa_secret w i st) = ax_next st" "ax_users (delete_mfa_secret w i st) = ax_users st"
  by (simp_all add: delete_mfa_secret_def)

definition REVOCATION_REASONS :: "string list" where
  "REVOCATION_REASONS = [''REUSE_DETECTED'', ''LOGOUT'', ''ADMIN_REVOKED'']"

text \<open>A revoked row says why, a row that is not revoked says nothing.\<close>
definition row_typed :: "refresh_row \<Rightarrow> bool" where
  "row_typed r \<longleftrightarrow> (case rt_revoked_reason r of None \<Rightarrow> rt_revoked_at r = None | Some x \<Rightarrow> rt_revoked_at r \<noteq> None \<and> x \<in> set REVOCATION_REASONS)"

text \<open>The same rows, none of them revived.\<close>
definition quieter :: "refresh_row list \<Rightarrow> refresh_row list \<Rightarrow> bool" where
  "quieter ts ts' \<longleftrightarrow> list_all2 (\<lambda>r r'. rt_id r' = rt_id r \<and> rt_token_hash r' = rt_token_hash r \<and> rt_family_id r' = rt_family_id r
     \<and> (token_live r' \<longrightarrow> token_live r) \<and> (row_typed r \<longrightarrow> row_typed r')) ts ts'"

lemma quieter_refl [simp]: "quieter ts ts"
  by (simp add: quieter_def list_all2_refl)

lemma quieter_update_where:
  "(\<And>r. rt_id (f r) = rt_id r \<and> rt_token_hash (f r) = rt_token_hash r \<and> rt_family_id (f r) = rt_family_id r \<and> (token_live (f r) \<longrightarrow> token_live r)
      \<and> (row_typed r \<longrightarrow> row_typed (f r)))
    \<Longrightarrow> quieter ts (update_where P f ts)"
  by (induction ts) (auto simp: quieter_def)

lemma quieter_keys:
  "quieter ts ts' \<Longrightarrow> map rt_id ts' = map rt_id ts \<and> map rt_token_hash ts' = map rt_token_hash ts \<and> map rt_family_id ts' = map rt_family_id ts"
  unfolding quieter_def by (induction ts ts' rule: list_all2_induct) auto

lemma quieter_live:
  "quieter ts ts' \<Longrightarrow> length (filter (\<lambda>r. rt_family_id r = f \<and> token_live r) ts') \<le> length (filter (\<lambda>r. rt_family_id r = f \<and> token_live r) ts)"
  unfolding quieter_def by (induction ts ts' rule: list_all2_induct) auto

text \<open>One request either only quietens rows, or also adds one fresh row, whose family is new or has no other live row but
  had one.\<close>
definition token_step :: "('k, 'v) access \<Rightarrow> ('k, 'v) access \<Rightarrow> bool" where
  "token_step st st' \<longleftrightarrow> ax_next st \<le> ax_next st' \<and>
    (quieter (ax_tokens st) (ax_tokens st')
     \<or> (\<exists>ts r. ax_tokens st' = ts @ [r] \<and> quieter (ax_tokens st) ts \<and> ax_next st \<le> rt_id r \<and> rt_id r < ax_next st'
        \<and> rt_token_hash r \<notin> rt_token_hash ` set (ax_tokens st) \<and> rt_family_id r < ax_next st'
        \<and> filter (\<lambda>x. rt_family_id x = rt_family_id r \<and> token_live x) ts = [] \<and> row_typed r
        \<and> (ax_next st \<le> rt_family_id r \<or> live_of (rt_family_id r) st \<noteq> [])))"

lemma token_step_same [intro]: "ax_tokens st' = ax_tokens st \<Longrightarrow> ax_next st \<le> ax_next st' \<Longrightarrow> token_step st st'"
  by (simp add: token_step_def)

lemma token_step_quieter [intro]: "quieter (ax_tokens st) (ax_tokens st') \<Longrightarrow> ax_next st \<le> ax_next st' \<Longrightarrow> token_step st st'"
  by (simp add: token_step_def)

lemma token_step_ok:
  assumes "tokens_ok st" "token_step st st'" shows "tokens_ok st'"
proof -
  have next_le: "ax_next st \<le> ax_next st'" using assms(2) by (simp add: token_step_def)
  have quiet: "distinct (map rt_id ts) \<and> distinct (map rt_token_hash ts) \<and> (\<forall>r \<in> set ts. rt_id r < ax_next st \<and> rt_family_id r < ax_next st)
      \<and> (\<forall>f. length (filter (\<lambda>r. rt_family_id r = f \<and> token_live r) ts) \<le> 1)" if q: "quieter (ax_tokens st) ts" for ts
  proof -
    note k = quieter_keys[OF q]
    have "rt_id ` set ts = rt_id ` set (ax_tokens st)" "rt_family_id ` set ts = rt_family_id ` set (ax_tokens st)"
      using k by (metis list.set_map)+
    moreover have "\<forall>i \<in> rt_id ` set (ax_tokens st). i < ax_next st" "\<forall>i \<in> rt_family_id ` set (ax_tokens st). i < ax_next st"
      using assms(1) by (simp_all add: tokens_ok_def)
    ultimately have "\<forall>i \<in> rt_id ` set ts. i < ax_next st" "\<forall>i \<in> rt_family_id ` set ts. i < ax_next st" by simp_all
    moreover have "length (filter (\<lambda>r. rt_family_id r = f \<and> token_live r) ts) \<le> 1" for f
      using quieter_live[OF q, of f] assms(1) unfolding tokens_ok_def live_of_def by (meson order_trans)
    ultimately show ?thesis using k assms(1) unfolding tokens_ok_def by simp
  qed
  from assms(2) consider "quieter (ax_tokens st) (ax_tokens st')"
    | ts r where "ax_tokens st' = ts @ [r]" "quieter (ax_tokens st) ts" "ax_next st \<le> rt_id r" "rt_id r < ax_next st'"
        "rt_token_hash r \<notin> rt_token_hash ` set (ax_tokens st)" "rt_family_id r < ax_next st'"
        "filter (\<lambda>x. rt_family_id x = rt_family_id r \<and> token_live x) ts = []"
    unfolding token_step_def by blast
  then show ?thesis
  proof cases
    case 1
    then show ?thesis using quiet[OF 1] next_le unfolding tokens_ok_def live_of_def by (meson less_le_trans)
  next
    case (2 ts r)
    have ts: "distinct (map rt_id ts)" "distinct (map rt_token_hash ts)" "\<forall>r \<in> set ts. rt_id r < ax_next st \<and> rt_family_id r < ax_next st"
      "\<And>f. length (filter (\<lambda>r. rt_family_id r = f \<and> token_live r) ts) \<le> 1"
      using quiet[OF 2(2)] by auto
    have "rt_token_hash ` set ts = rt_token_hash ` set (ax_tokens st)" using quieter_keys[OF 2(2)] by (metis list.set_map)
    then have "distinct (map rt_token_hash (ts @ [r]))" using ts(2) 2(5) by simp
    moreover have "distinct (map rt_id (ts @ [r]))" using ts(1,3) 2(3) by auto
    moreover have "length (filter (\<lambda>x. rt_family_id x = f \<and> token_live x) (ts @ [r])) \<le> 1" for f
      using ts(4)[of f] 2(7) by (cases "rt_family_id r = f") auto
    moreover have "\<forall>x \<in> set (ts @ [r]). rt_id x < ax_next st' \<and> rt_family_id x < ax_next st'" using ts(3) next_le 2(4,6) by auto
    ultimately show ?thesis unfolding tokens_ok_def live_of_def 2(1) by blast
  qed
qed

text \<open>A family without a live token never gets one again.\<close>
lemma token_step_dead:
  assumes "token_step st st'" "live_of f st = []" "f < ax_next st" shows "live_of f st' = [] \<and> f < ax_next st'"
proof -
  have dead: "filter (\<lambda>x. rt_family_id x = f \<and> token_live x) ts = []" if "quieter (ax_tokens st) ts" for ts
    using quieter_live[OF that, of f] assms(2) by (simp add: live_of_def)
  show ?thesis using assms unfolding token_step_def
    by (auto simp: live_of_def dest!: dead)
qed

lemma user_access_token_frame:
  "user_access_token w u st = (r, st') \<Longrightarrow> ax_tokens st' = ax_tokens st \<and> ax_next st' = ax_next st \<and> ax_users st' = ax_users st
     \<and> ax_vault st' = ax_vault st \<and> ax_secrets st' = ax_secrets st"
  by (auto simp: user_access_token_def split: prod.splits)

lemma add_refresh_rowD:
  assumes "add_refresh_row w uid f parent st = Some st'"
  obtains r where "ax_tokens st' = ax_tokens st @ [r]" "rt_id r = ax_next st" "rt_family_id r = f" "rt_token_hash r = hash_refresh_token w (aw_raw_token w)"
    "rt_token_hash r \<notin> rt_token_hash ` set (ax_tokens st)" "token_live r" "ax_next st' = Suc (ax_next st)" "ax_users st' = ax_users st"
    "row_typed r"
proof -
  let ?h = "hash_refresh_token w (aw_raw_token w)"
  let ?r = "\<lparr>rt_id = ax_next st, rt_user_id = uid, rt_token_hash = ?h, rt_family_id = f, rt_parent_id = parent,
    rt_expires_at = aw_now w + REFRESH_TOKEN_TTL_DAYS * us_per_day, rt_used_at = None, rt_revoked_at = None, rt_revoked_reason = None\<rparr>"
  have "?h \<notin> rt_token_hash ` set (ax_tokens st)" "st' = st\<lparr>ax_tokens := ax_tokens st @ [?r], ax_next := Suc (ax_next st)\<rparr>"
    using assms unfolding add_refresh_row_def Let_def by (auto split: if_splits)
  then show ?thesis using that[of ?r] by (simp add: token_live_def row_typed_def)
qed

lemma live_of_fresh: "tokens_ok st \<Longrightarrow> ax_next st \<le> f \<Longrightarrow> live_of f st = []"
  by (auto simp: tokens_ok_def live_of_def filter_empty_conv)

lemma issue_session_step:
  assumes "issue_session w u st = (x, st')" "tokens_ok st" shows "token_step st st'"
proof -
  obtain r st1 where t: "user_access_token w u st = (r, st1)" by fastforce
  note frame = user_access_token_frame[OF t]
  show ?thesis
  proof (cases "\<exists>tok. r = Inr tok")
    case False
    then have "st' = st1" using assms(1) t by (auto simp: issue_session_def split: sum.splits)
    then show ?thesis using frame by auto
  next
    case True
    then obtain tok where r: "r = Inr tok" by blast
    let ?st2 = "st1\<lparr>ax_next := Suc (ax_next st1)\<rparr>"
    show ?thesis
    proof (cases "add_refresh_row w (us_id u) (ax_next st1) None ?st2")
      case None
      then have "st' = st1" using assms(1) t r by (simp add: issue_session_def Let_def)
      then show ?thesis using frame by auto
    next
      case (Some st3)
      then have st': "st' = st3" using assms(1) t r by (simp add: issue_session_def Let_def)
      obtain row where "ax_tokens st3 = ax_tokens ?st2 @ [row]" "rt_id row = ax_next ?st2" "rt_family_id row = ax_next st1"
        "rt_token_hash row \<notin> rt_token_hash ` set (ax_tokens ?st2)" "ax_next st3 = Suc (ax_next ?st2)" "row_typed row"
        by (rule add_refresh_rowD[OF Some])
      then have "ax_next st \<le> ax_next st' \<and> (\<exists>ts r. ax_tokens st' = ts @ [r] \<and> quieter (ax_tokens st) ts \<and> ax_next st \<le> rt_id r \<and> rt_id r < ax_next st'
        \<and> rt_token_hash r \<notin> rt_token_hash ` set (ax_tokens st) \<and> rt_family_id r < ax_next st'
        \<and> filter (\<lambda>x. rt_family_id x = rt_family_id r \<and> token_live x) ts = [] \<and> row_typed r \<and> ax_next st \<le> rt_family_id r)"
        using frame live_of_fresh[OF assms(2), of "ax_next st1"] unfolding st' live_of_def
        by (intro conjI exI[of _ "ax_tokens st"] exI[of _ row]) simp_all
      then show ?thesis unfolding token_step_def by blast
    qed
  qed
qed

lemma tokens_ok_cong: "ax_tokens st' = ax_tokens st \<Longrightarrow> ax_next st' = ax_next st \<Longrightarrow> tokens_ok st' = tokens_ok st"
  by (simp add: tokens_ok_def live_of_def)

lemma token_step_cong: "ax_tokens st1 = ax_tokens st \<Longrightarrow> ax_next st1 = ax_next st \<Longrightarrow> token_step st1 st' = token_step st st'"
  by (simp add: token_step_def live_of_def)

lemma login_step: "tokens_ok st \<Longrightarrow> token_step st (snd (login_with mandatory w email pw st))"
proof -
  assume ok: "tokens_ok st"
  have issue: "token_step st st'" if "issue_session w u st1 = (x, st')" "ax_tokens st1 = ax_tokens st" "ax_next st1 = ax_next st" for u st1 x st'
    using issue_session_step[OF that(1)] ok tokens_ok_cong[OF that(2,3)] token_step_cong[OF that(2,3)] by simp
  show ?thesis unfolding login_with_def Let_def
    by (auto split: option.splits bool.splits sum.splits prod.splits elim!: issue)
qed

lemma issue_or_rollback_step:
  assumes "tokens_ok st" "ax_tokens before = ax_tokens st" "ax_next before = ax_next st"
  shows "token_step st (snd (issue_or_rollback w u before st))"
proof -
  obtain r st1 where i: "issue_session w u st = (r, st1)" by fastforce
  then show ?thesis using issue_session_step[OF i assms(1)] assms(2,3)
    by (cases r) (auto simp: issue_or_rollback_def)
qed

lemma refresh_checkD:
  assumes "refresh_check w raw st = (Inr (row, u), st')"
  shows "st' = st" "row_by rt_token_hash (hash_refresh_token w raw) (ax_tokens st) = Some row" "token_live row"
    "row_by us_id (rt_user_id row) (ax_users st) = Some u" "us_is_active u" "aw_now w \<le> rt_expires_at row"
  using assms by (auto simp: refresh_check_def token_live_def split: option.splits if_splits)

lemma refresh_check_step: "refresh_check w raw st = (r, st') \<Longrightarrow> quieter (ax_tokens st) (ax_tokens st') \<and> ax_next st' = ax_next st"
  by (auto simp: refresh_check_def revoke_tokens_def token_live_def row_typed_def REVOCATION_REASONS_def intro!: quieter_update_where split: option.splits if_splits)

lemma refresh_commit_cases:
  assumes "refresh_commit w row u st = (x, st')"
  obtains "ax_tokens st' = ax_tokens st" "ax_next st' = ax_next st" "x = Inl Uncaught"
  | r s where "x = Inr s" "ax_tokens st' = update_where (\<lambda>q. rt_id q = rt_id row) (\<lambda>q. q\<lparr>rt_used_at := Some (aw_now w)\<rparr>) (ax_tokens st) @ [r]"
      "rt_id r = ax_next st" "rt_family_id r = rt_family_id row" "token_live r" "ax_next st' = Suc (ax_next st)"
      "rt_token_hash r \<notin> rt_token_hash ` set (ax_tokens st)" "row_typed r"
proof -
  obtain t st1 where t: "user_access_token w u st = (t, st1)" by fastforce
  note frame = user_access_token_frame[OF t]
  let ?upd = "update_where (\<lambda>q. rt_id q = rt_id row) (\<lambda>q. q\<lparr>rt_used_at := Some (aw_now w)\<rparr>)"
  let ?st2 = "st1\<lparr>ax_tokens := ?upd (ax_tokens st1)\<rparr>"
  have hashes: "rt_token_hash ` set (?upd ts) = rt_token_hash ` set ts" for ts by (induction ts) auto
  show ?thesis
  proof (cases t)
    case Inl
    then show ?thesis using assms t frame that(1) by (simp add: refresh_commit_def)
  next
    case (Inr tok)
    show ?thesis
    proof (cases "add_refresh_row w (us_id u) (rt_family_id row) (Some (rt_id row)) ?st2")
      case None
      then show ?thesis using assms t Inr frame that(1) by (simp add: refresh_commit_def)
    next
      case (Some st3)
      obtain r where "ax_tokens st3 = ax_tokens ?st2 @ [r]" "rt_id r = ax_next ?st2" "rt_family_id r = rt_family_id row"
        "rt_token_hash r \<notin> rt_token_hash ` set (ax_tokens ?st2)" "token_live r" "ax_next st3 = Suc (ax_next ?st2)" "row_typed r"
        by (rule add_refresh_rowD[OF Some])
      moreover have "st' = st3" "\<exists>s. x = Inr s" using assms t Inr Some by (auto simp: refresh_commit_def)
      ultimately show ?thesis using frame that(2)[of _ r] by (auto simp: hashes)
    qed
  qed
qed

lemma refresh_step: "tokens_ok st \<Longrightarrow> token_step st (snd (refresh w raw st))"
proof -
  assume ok: "tokens_ok st"
  obtain c st1 where c: "refresh_check w raw st = (c, st1)" by fastforce
  show ?thesis
  proof (cases c)
    case Inl
    then show ?thesis using refresh_check_step[OF c] c by (auto simp: refresh_def)
  next
    case (Inr a)
    then obtain row u where a: "c = Inr (row, u)" by (cases a) auto
    note chk = refresh_checkD[OF c[unfolded a]]
    have row: "row \<in> set (ax_tokens st)" using row_by_SomeD[OF chk(2)] by simp
    let ?ts = "update_where (\<lambda>q. rt_id q = rt_id row) (\<lambda>q. q\<lparr>rt_used_at := Some (aw_now w)\<rparr>) (ax_tokens st)"
    have live: "row \<in> set (live_of (rt_family_id row) st)" using row chk(3) by (simp add: live_of_def)
    have only: "x = row" if "x \<in> set (ax_tokens st)" "rt_family_id x = rt_family_id row" "token_live x" for x
    proof -
      have "x \<in> set (live_of (rt_family_id row) st)" using that by (simp add: live_of_def)
      moreover have "length (live_of (rt_family_id row) st) \<le> 1" using ok by (simp add: tokens_ok_def)
      ultimately show ?thesis using live by (cases "live_of (rt_family_id row) st") auto
    qed
    have dead: "filter (\<lambda>x. rt_family_id x = rt_family_id row \<and> token_live x) ?ts = []"
      using only by (auto simp: filter_empty_conv set_update_where) (auto simp: token_live_def)
    obtain x st2 where cm: "refresh_commit w row u st = (x, st2)" by fastforce
    then have "snd (refresh w raw st) = st2" using c a chk(1) by (simp add: refresh_def)
    moreover from cm have "token_step st st2"
    proof (cases rule: refresh_commit_cases)
      case (2 r s)
      have "quieter (ax_tokens st) ?ts" by (rule quieter_update_where) (auto simp: token_live_def row_typed_def split: option.splits)
      moreover have "live_of (rt_family_id row) st \<noteq> []" using live by auto
      moreover have "rt_family_id row < ax_next st" using ok row by (simp add: tokens_ok_def)
      ultimately show ?thesis using 2 dead unfolding token_step_def by (intro conjI disjI2 exI[of _ ?ts] exI[of _ r]) simp_all
    qed auto
    ultimately show ?thesis by simp
  qed
qed

lemma user_with_scope_frame:
  "ax_tokens (snd (user_with_scope ok w credentials st)) = ax_tokens st \<and> ax_next (snd (user_with_scope ok w credentials st)) = ax_next st
    \<and> ax_users (snd (user_with_scope ok w credentials st)) = ax_users st"
  by (auto simp: user_with_scope_def decode_and_load_user_def split: option.splits sum.splits prod.splits)

lemma require_role_frame:
  "ax_tokens (snd (require_role w audit route path meth credentials st)) = ax_tokens st
    \<and> ax_next (snd (require_role w audit route path meth credentials st)) = ax_next st
    \<and> ax_users (snd (require_role w audit route path meth credentials st)) = ax_users st"
proof -
  obtain r st' where g: "get_current_user w credentials st = (r, st')" by fastforce
  then show ?thesis using user_with_scope_frame[of "\<lambda>p. \<not> is_mfa_pending p" w credentials st]
    by (cases r) (simp_all add: require_role_def get_current_user_def)
qed

lemma verify_mfa_cases:
  obtains "snd (verify_mfa w totp backup u st) = st"
  | st1 where "ax_tokens st1 = ax_tokens st" "ax_next st1 = ax_next st" "ax_users st1 = ax_users st"
      "snd (verify_mfa w totp backup u st) = st1 \<or> snd (verify_mfa w totp backup u st) = snd (issue_or_rollback w u st st1)"
proof -
  define x where "x = (case totp of
           Some code \<Rightarrow> (case read_mfa_secret w (us_id u) st of
               None \<Rightarrow> Inl (Status 503) | Some secret \<Rightarrow> Inr (aw_totp w secret code, ax_codes st))
         | None \<Rightarrow> (case verify_backup_code w (us_id u) (the backup) (ax_codes st) of
               None \<Rightarrow> Inl Uncaught | Some r \<Rightarrow> Inr r))"
  show ?thesis
  proof (cases "set_string totp = set_string backup")
    case True
    then show ?thesis using that(1) by (simp add: verify_mfa_def)
  next
    case False
    show ?thesis
    proof (cases x)
      case (Inl e)
      then show ?thesis using that(1) False unfolding x_def verify_mfa_def by simp
    next
      case (Inr r)
      obtain ok codes where r: "r = (ok, codes)" by (cases r)
      show ?thesis
        by (rule that(2)[of "write_access_audit w (audit_entry Human (us_email u) (if ok then ''MFA_LOGIN_SUCCESS'' else ''MFA_LOGIN_FAILURE'')
            ''User'' (Some (us_id u)) None None) (st\<lparr>ax_codes := codes\<rparr>)"])
          (use False Inr r in \<open>simp_all add: verify_mfa_def Let_def x_def\<close>)
    qed
  qed
qed

lemma access_step_token_step: "access_step mandatory st st' \<Longrightarrow> tokens_ok st \<Longrightarrow> token_step st st'"
proof (induction rule: access_step.cases)
  case (as_login st w email pw)
  then show ?case by (simp add: login_step)
next
  case (as_refresh st w raw)
  then show ?case by (simp add: refresh_step)
next
  case (as_logout st w raw)
  then show ?case by (auto simp: logout_def revoke_tokens_def token_live_def row_typed_def REVOCATION_REASONS_def intro!: token_step_quieter quieter_update_where)
next
  case (as_revoke st w uid)
  then show ?case by (auto simp: revoke_sessions_def revoke_tokens_def token_live_def row_typed_def REVOCATION_REASONS_def intro!: token_step_quieter quieter_update_where)
next
  case (as_enroll st w u)
  then show ?case by (auto simp: enroll_def write_mfa_secret_def)
next
  case (as_confirm st w code u)
  let ?st1 = "write_access_audit w (audit_entry Human (us_email u) ''MFA_ENROLLED'' ''User'' (Some (us_id u)) None None)
    (st\<lparr>ax_users := update_where (\<lambda>x. us_id x = us_id u) (\<lambda>x. x\<lparr>us_mfa_enabled := True\<rparr>) (ax_users st)\<rparr>)"
  have "tokens_ok ?st1" "token_step ?st1 = token_step st" using as_confirm by (auto simp: tokens_ok_def live_of_def token_step_def)
  then have "token_step st (snd (issue_or_rollback w u st ?st1))" using issue_or_rollback_step[of ?st1 st w u] by simp
  then show ?case using as_confirm by (auto simp: confirm_mfa_def split: option.splits)
next
  case (as_verify st w totp backup u)
  have issue: "token_step st (snd (issue_or_rollback w u st st1))" if "ax_tokens st1 = ax_tokens st" "ax_next st1 = ax_next st" for st1
    using issue_or_rollback_step[of st1 st w u] as_verify that tokens_ok_cong[OF that] token_step_cong[OF that] by simp
  have "token_step st (snd (verify_mfa w totp backup u st))"
    by (rule verify_mfa_cases[of w totp backup u st]) (use issue in auto)
  then show ?case using as_verify by simp
next
  case (as_guard st w audit route path meth credentials)
  then show ?case using require_role_frame[of w audit route path meth credentials st] by auto
next
  case (as_who st ok w credentials)
  then show ?case using user_with_scope_frame[of ok w credentials st] by auto
qed (auto simp: disable_mfa_def create_user_def update_user_role_def update_user_def deactivate_user_def Let_def split: option.splits)

section \<open>What holds in every history\<close>

lemma access_steps_tokens_ok:
  "(access_step mandatory)\<^sup>*\<^sup>* st st' \<Longrightarrow> tokens_ok st \<Longrightarrow> tokens_ok st'"
  by (induction rule: rtranclp_induct) (auto intro: token_step_ok access_step_token_step)

lemma access_steps_dead:
  "(access_step mandatory)\<^sup>*\<^sup>* st st' \<Longrightarrow> tokens_ok st \<Longrightarrow> live_of f st = [] \<Longrightarrow> f < ax_next st
    \<Longrightarrow> live_of f st' = [] \<and> f < ax_next st'"
proof (induction rule: rtranclp_induct)
  case (step y z)
  have "tokens_ok y" using access_steps_tokens_ok[OF step.hyps(1) step.prems(1)] .
  then show ?case using step token_step_dead access_step_token_step by blast
qed simp

text \<open>C12. A family of refresh tokens is a chain: whatever requests are served one after another (sign-ins, rotations,
  sign-outs, second factors, changes of accounts), identifiers and hashes stay unique and no family ever has two tokens
  that could still be used.\<close>
theorem one_live_token_per_family:
  assumes "(access_step mandatory)\<^sup>*\<^sup>* st st'" and "tokens_ok st"
  shows "tokens_ok st'"
  using assms by (rule access_steps_tokens_ok)

lemma refresh_reuse_revokes:
  assumes "row_by rt_token_hash (hash_refresh_token w raw) (ax_tokens st) = Some row" "\<not> token_live row"
  shows "fst (refresh w raw st) = Inl (Status 401) \<and> live_of (rt_family_id row) (snd (refresh w raw st)) = []"
  using assms by (auto simp: refresh_def refresh_check_def token_live_def revoke_tokens_def live_of_def filter_empty_conv set_update_where)

text \<open>C11. A stolen session dies: when a refresh token is presented that was already used or revoked, the request is refused,
  and after any further history no token of that family is ever exchanged for a session again.\<close>
theorem reused_token_kills_family:
  assumes "tokens_ok st" and "row_by rt_token_hash (hash_refresh_token w raw) (ax_tokens st) = Some row" and "\<not> token_live row"
    and "(access_step mandatory)\<^sup>*\<^sup>* (snd (refresh w raw st)) st'"
    and "r \<in> set (ax_tokens st')" and "rt_family_id r = rt_family_id row" and "rt_token_hash r = hash_refresh_token w' raw'"
  shows "fst (refresh w raw st) = Inl (Status 401) \<and> fst (refresh w' raw' st') = Inl (Status 401)"
proof -
  let ?st1 = "snd (refresh w raw st)"
  have ok: "tokens_ok ?st1" using refresh_step[OF assms(1)] token_step_ok[OF assms(1)] by blast
  have "rt_family_id row < ax_next st" using row_by_SomeD[OF assms(2)] assms(1) by (auto simp: tokens_ok_def)
  then have "rt_family_id row < ax_next ?st1" using refresh_step[OF assms(1), of w raw] by (auto simp: token_step_def)
  then have "live_of (rt_family_id row) st' = []"
    using access_steps_dead[OF assms(4) ok] refresh_reuse_revokes[OF assms(2,3)] by blast
  then have dead: "\<not> token_live r" using assms(5,6) by (auto simp: live_of_def filter_empty_conv)
  have "distinct (map rt_token_hash (ax_tokens st'))" using access_steps_tokens_ok[OF assms(4) ok] by (simp add: tokens_ok_def)
  then have "row_by rt_token_hash (hash_refresh_token w' raw') (ax_tokens st') = Some r"
    using row_by_distinct[of rt_token_hash _ r] assms(5,7) by simp
  then show ?thesis using dead refresh_reuse_revokes[OF assms(2,3)] refresh_reuse_revokes[of w' raw' st' r] by blast
qed

text \<open>Rotation is not single-use under concurrency: the row is read without a lock, so two requests that both read a
  token before either writes are both served, and the family then has two tokens that can be used.\<close>
theorem concurrent_refresh_forks_family:
  assumes "refresh_check w1 raw st = (Inr (row, u), st)" and "refresh_check w2 raw st = (Inr (row, u), st)"
    and "refresh_commit w1 row u st = (Inr s1, st1)" and "refresh_commit w2 row u st1 = (Inr s2, st2)"
    and "tokens_ok st"
  shows "2 \<le> length (live_of (rt_family_id row) st2)"
proof -
  have row: "row \<in> set (ax_tokens st)" using row_by_SomeD[OF refresh_checkD(2)[OF assms(1)]] by simp
  let ?use = "\<lambda>w. update_where (\<lambda>q. rt_id q = rt_id row) (\<lambda>q. q\<lparr>rt_used_at := Some (aw_now w)\<rparr>)"
  from assms(3) obtain r1 where r1: "ax_tokens st1 = ?use w1 (ax_tokens st) @ [r1]" "rt_id r1 = ax_next st" "rt_family_id r1 = rt_family_id row"
    "token_live r1" "ax_next st1 = Suc (ax_next st)"
    by (cases rule: refresh_commit_cases) auto
  from assms(4) obtain r2 where r2: "ax_tokens st2 = ?use w2 (ax_tokens st1) @ [r2]" "rt_family_id r2 = rt_family_id row" "token_live r2"
    by (cases rule: refresh_commit_cases) auto
  have "rt_id r1 \<noteq> rt_id row" using row r1(2) assms(5) by (auto simp: tokens_ok_def)
  then have "?use w2 (ax_tokens st1) = ?use w2 (?use w1 (ax_tokens st)) @ [r1]" using r1(1) by (simp add: update_where_def)
  then show ?thesis using r1(3,4) r2 by (simp add: live_of_def)
qed


section \<open>Well-typed tables\<close>

definition users_typed :: "('k, 'v) access \<Rightarrow> bool" where
  "users_typed st \<longleftrightarrow> distinct (map us_id (ax_users st)) \<and> distinct (map us_email (ax_users st))
     \<and> (\<forall>u \<in> set (ax_users st). us_id u < ax_next st \<and> us_role u \<in> set ALL_ROLES)"

definition access_typed :: "('k, 'v) access \<Rightarrow> bool" where
  "access_typed st \<longleftrightarrow> users_typed st \<and> (\<forall>r \<in> set (ax_tokens st). row_typed r)"

lemma token_step_rows_typed:
  assumes "token_step st st'" "\<forall>r \<in> set (ax_tokens st). row_typed r" shows "\<forall>r \<in> set (ax_tokens st'). row_typed r"
proof -
  have "\<forall>r \<in> set ts. row_typed r" if "quieter (ax_tokens st) ts" for ts
    using that assms(2) unfolding quieter_def by (induction rule: list_all2_induct) auto
  then show ?thesis using assms(1) unfolding token_step_def by auto
qed

text \<open>The account table after a request: rows rewritten in place, or one fresh account.\<close>
definition user_change :: "('k, 'v) access \<Rightarrow> ('k, 'v) access \<Rightarrow> bool" where
  "user_change st st' \<longleftrightarrow>
    (\<exists>P f. ax_users st' = update_where P f (ax_users st) \<and> (\<forall>u. us_id (f u) = us_id u \<and> us_email (f u) = us_email u
          \<and> (us_role u \<in> set ALL_ROLES \<longrightarrow> us_role (f u) \<in> set ALL_ROLES)))
     \<or> (\<exists>u. ax_users st' = ax_users st @ [u] \<and> us_id u = ax_next st \<and> ax_next st < ax_next st' \<and> us_role u \<in> set ALL_ROLES
          \<and> us_email u \<notin> us_email ` set (ax_users st))"

lemma user_change_typed: "user_change st st' \<Longrightarrow> ax_next st \<le> ax_next st' \<Longrightarrow> users_typed st \<Longrightarrow> users_typed st'"
  unfolding user_change_def
proof (elim conjE disjE exE)
  fix P f
  assume t: "users_typed st" and n: "ax_next st \<le> ax_next st'" and u: "ax_users st' = update_where P f (ax_users st)"
    and f: "\<forall>u. us_id (f u) = us_id u \<and> us_email (f u) = us_email u \<and> (us_role u \<in> set ALL_ROLES \<longrightarrow> us_role (f u) \<in> set ALL_ROLES)"
  have "map us_id (ax_users st') = map us_id (ax_users st)" "map us_email (ax_users st') = map us_email (ax_users st)"
    using f unfolding u by (simp_all add: map_update_where)
  then show "users_typed st'" using t n f unfolding users_typed_def by (auto simp: u set_update_where intro: less_le_trans)
next
  fix u
  assume "users_typed st" "ax_next st \<le> ax_next st'" "ax_users st' = ax_users st @ [u]" "us_id u = ax_next st" "ax_next st < ax_next st'"
    "us_role u \<in> set ALL_ROLES" "us_email u \<notin> us_email ` set (ax_users st)"
  then show "users_typed st'" unfolding users_typed_def by auto
qed

lemma rewrite_users:
  "ax_users st' = update_where P f (ax_users st) \<Longrightarrow> (\<And>u. us_id (f u) = us_id u \<and> us_email (f u) = us_email u
      \<and> (us_role u \<in> set ALL_ROLES \<longrightarrow> us_role (f u) \<in> set ALL_ROLES)) \<Longrightarrow> user_change st st'"
  unfolding user_change_def by blast

lemma same_users: "ax_users st' = ax_users st \<Longrightarrow> user_change st st'"
  by (rule rewrite_users[where P = "\<lambda>_. False" and f = id]) (simp_all add: update_where_id)

lemma issue_session_users: "issue_session w u st = (x, st') \<Longrightarrow> ax_users st' = ax_users st"
  by (auto simp: issue_session_def user_access_token_def add_refresh_row_def Let_def split: prod.splits sum.splits if_splits)

lemma issue_or_rollback_users:
  "ax_users (snd (issue_or_rollback w u before st)) = ax_users before \<or> ax_users (snd (issue_or_rollback w u before st)) = ax_users st"
  by (auto simp: issue_or_rollback_def split: prod.splits sum.splits dest: issue_session_users)

lemma refresh_users: "ax_users (snd (refresh w raw st)) = ax_users st"
proof -
  obtain c st1 where c: "refresh_check w raw st = (c, st1)" by fastforce
  have "ax_users st1 = ax_users st" using c by (auto simp: refresh_check_def revoke_tokens_def split: option.splits if_splits)
  moreover have "ax_users (snd (refresh_commit w row u st)) = ax_users st" for row u st
    by (auto simp: refresh_commit_def user_access_token_def add_refresh_row_def Let_def split: prod.splits sum.splits option.splits if_splits)
  ultimately show ?thesis using c by (auto simp: refresh_def split: sum.splits)
qed

lemma login_users:
  "ax_users (snd (login_with mandatory w email pw st)) = ax_users st
    \<or> (\<exists>P. ax_users (snd (login_with mandatory w email pw st)) = update_where P (\<lambda>x. x\<lparr>us_last_login_at := Some (aw_now w)\<rparr>) (ax_users st))"
  unfolding login_with_def Let_def
  by (auto split: option.splits bool.splits sum.splits prod.splits dest!: issue_session_users)

lemma access_step_users: "access_step mandatory st st' \<Longrightarrow> user_change st st'"
proof (induction rule: access_step.cases)
  case (as_login st w email pw)
  then show ?case using login_users[of mandatory w email pw st] by (auto intro: same_users rewrite_users)
next
  case (as_confirm st w code u)
  let ?st1 = "write_access_audit w (audit_entry Human (us_email u) ''MFA_ENROLLED'' ''User'' (Some (us_id u)) None None)
    (st\<lparr>ax_users := update_where (\<lambda>x. us_id x = us_id u) (\<lambda>x. x\<lparr>us_mfa_enabled := True\<rparr>) (ax_users st)\<rparr>)"
  have "user_change st (snd (issue_or_rollback w u st ?st1))"
    using issue_or_rollback_users[of w u st ?st1] by (auto intro: same_users rewrite_users)
  then show ?case using as_confirm by (auto simp: confirm_mfa_def intro: same_users split: option.splits)
next
  case (as_verify st w totp backup u)
  have "ax_users (snd (verify_mfa w totp backup u st)) = ax_users st"
    by (rule verify_mfa_cases[of w totp backup u st]) (use issue_or_rollback_users[of w u st] in metis)+
  then show ?case using as_verify by (simp add: same_users)
next
  case (as_create st w email pw full_name role)
  show ?case
  proof (cases "ax_users st' = ax_users st")
    case False
    then obtain u where "ax_users st' = ax_users st @ [u]" "us_id u = ax_next st" "us_role u \<in> set ALL_ROLES" "us_email u = email"
      "row_by us_email email (ax_users st) = None" "ax_next st' = Suc (ax_next st)"
      using as_create by (auto simp: create_user_def Let_def split: if_splits option.splits)
    then show ?thesis using as_create unfolding user_change_def row_by_None_iff by auto
  qed (use as_create in \<open>simp add: same_users\<close>)
next
  case (as_guard st w audit route path meth credentials)
  then show ?case using require_role_frame[of w audit route path meth credentials st] by (simp add: same_users)
next
  case (as_who st ok w credentials)
  then show ?case using user_with_scope_frame[of ok w credentials st] by (simp add: same_users)
qed (auto simp: refresh_users logout_def revoke_sessions_def revoke_tokens_def enroll_def write_mfa_secret_def disable_mfa_def
      update_user_role_def deactivate_user_def update_user_def split: option.splits intro: same_users rewrite_users)

text \<open>C26. The tables stay well typed through every history: a role is one of the four, an e-mail and an identifier belong to
  one account, and a refresh token carries a reason for its revocation, one of the three the code writes, exactly when it
  is revoked.\<close>
theorem access_tables_typed:
  assumes "(access_step mandatory)\<^sup>*\<^sup>* st st'" and "tokens_ok st" and "access_typed st"
  shows "access_typed st'"
  using assms(1)
proof (induction rule: rtranclp_induct)
  case (step y z)
  have ok: "tokens_ok y" using access_steps_tokens_ok[OF step.hyps(1) assms(2)] .
  note t = access_step_token_step[OF step.hyps(2) ok]
  have "ax_next y \<le> ax_next z" using t by (simp add: token_step_def)
  then show ?case using step.IH user_change_typed[OF access_step_users[OF step.hyps(2)]] token_step_rows_typed[OF t]
    by (simp add: access_typed_def)
qed (rule assms(3))

section \<open>Witnesses\<close>

definition access_env :: env where
  "access_env = \<lparr>e_now = 1000000, e_sha256 = id, e_float_repr = (\<lambda>_. []), e_fmt_signed2 = (\<lambda>_. []), e_proceed_order = [], e_today = 0,
     e_handler = (\<lambda>t arts. Inl []), e_times_out = (\<lambda>_. False), e_validate_payload = (\<lambda>_ p. Inr p), e_org_max_concurrent_runs = 3,
     e_org_run_stall_seconds = 900, e_org_task_default_timeout_seconds = 300, e_org_research_task_timeout_seconds = 1800\<rparr>"

text \<open>A password is its own hash, a TOTP code is the secret itself.\<close>
definition sample_world :: "string \<Rightarrow> (nat, nat \<times> nat) auth_world" where
  "sample_world raw = \<lparr>aw_env = access_env, aw_tick = 7, aw_api = sample_vault, aw_checkpw = (\<lambda>pw h. Some (pw = h)), aw_hashpw = id,
     aw_totp = (\<lambda>s c. s = c), aw_kv_up = True, aw_raw_token = raw, aw_totp_secret = ''new'', aw_backup_codes = [''c''],
     aw_allowed = (\<lambda>_ _ _. True), aw_client_ip = None\<rparr>"

definition sample_user :: user_row where
  "sample_user = \<lparr>us_id = 1, us_email = ''a@b'', us_hashed_password = ''pw'', us_full_name = None, us_role = ROLE_RISK_MANAGER,
     us_mfa_enabled = True, us_is_active = True, us_last_login_at = None\<rparr>"

definition sample_row :: "nat \<Rightarrow> string \<Rightarrow> int option \<Rightarrow> refresh_row" where
  "sample_row i h used = \<lparr>rt_id = i, rt_user_id = 1, rt_token_hash = h, rt_family_id = 2, rt_parent_id = None, rt_expires_at = 2000000,
     rt_used_at = used, rt_revoked_at = None, rt_revoked_reason = None\<rparr>"

text \<open>An account with a used token and its live successor.\<close>
definition sample_access :: "(nat, nat \<times> nat) access" where
  "sample_access = \<lparr>ax_db = empty_db, ax_users = [sample_user], ax_tokens = [sample_row 3 ''old'' (Some 5), sample_row 4 ''live'' None],
     ax_codes = [], ax_secrets = [(1, ''secret'')], ax_vault = (1, 1), ax_keys = empty_key_state, ax_next = 5\<rparr>"

lemma sample_world_sel:
  "aw_now (sample_world raw) = 1000000" "hash_refresh_token (sample_world raw) x = x" "aw_raw_token (sample_world raw) = raw"
  by (simp_all add: sample_world_def access_env_def aw_now_def hash_refresh_token_def)

lemmas sample_access_defs = sample_access_def sample_row_def sample_user_def

lemma sample_tokens_ok: "tokens_ok sample_access"
proof -
  have "length (live_of f sample_access) \<le> 1" for f by (simp add: live_of_def token_live_def sample_access_defs)
  then show ?thesis by (simp add: tokens_ok_def sample_access_defs)
qed

lemma sample_access_typed: "access_typed sample_access"
  by (simp add: access_typed_def users_typed_def row_typed_def sample_access_defs ALL_ROLES_def)

lemma one_live_token_per_family_witness:
  "tokens_ok (snd (refresh (sample_world ''fresh'') ''live'' sample_access))"
  by (rule one_live_token_per_family[OF r_into_rtranclp sample_tokens_ok]) (rule as_refresh[of "{}"])

lemma access_tables_typed_witness:
  "access_typed (snd (login (sample_world ''fresh'') ''a@b'' ''pw'' sample_access))"
  unfolding login_def by (rule access_tables_typed[OF r_into_rtranclp sample_tokens_ok sample_access_typed]) (rule as_login)

lemma reused_token_kills_family_witness:
  "fst (refresh (sample_world ''x'') ''live'' (snd (refresh (sample_world ''y'') ''old'' sample_access))) = Inl (Status 401)"
proof -
  have row: "row_by rt_token_hash (hash_refresh_token (sample_world ''y'') ''old'') (ax_tokens sample_access) = Some (sample_row 3 ''old'' (Some 5))"
    by (simp add: hash_refresh_token_def sample_world_def access_env_def sample_access_defs)
  have dead: "\<not> token_live (sample_row 3 ''old'' (Some 5))" by (simp add: token_live_def sample_row_def)
  have "ax_tokens (snd (refresh (sample_world ''y'') ''old'' sample_access)) =
      update_where (\<lambda>r. rt_family_id r = 2 \<and> rt_revoked_at r = None)
        (\<lambda>r. r\<lparr>rt_revoked_at := Some 1000000, rt_revoked_reason := Some ''REUSE_DETECTED''\<rparr>) (ax_tokens sample_access)"
    using row by (simp add: refresh_def refresh_check_def revoke_tokens_def aw_now_def sample_world_def access_env_def sample_row_def)
  then have "(sample_row 4 ''live'' None)\<lparr>rt_revoked_at := Some 1000000, rt_revoked_reason := Some ''REUSE_DETECTED''\<rparr>
      \<in> set (ax_tokens (snd (refresh (sample_world ''y'') ''old'' sample_access)))"
    by (simp add: sample_access_def) (simp add: sample_row_def)
  then show ?thesis
    using reused_token_kills_family[OF sample_tokens_ok row dead rtranclp.rtrancl_refl[of "access_step {}"], of _ "sample_world ''x''" "''live''"]
    by (auto simp: hash_refresh_token_def sample_world_def access_env_def sample_row_def)
qed

lemma concurrent_refresh_forks_family_witness:
  "\<exists>s1 st1 s2 st2. refresh_commit (sample_world ''a'') (sample_row 4 ''live'' None) sample_user sample_access = (Inr s1, st1)
    \<and> refresh_commit (sample_world ''b'') (sample_row 4 ''live'' None) sample_user st1 = (Inr s2, st2) \<and> 2 \<le> length (live_of 2 st2)"
proof -
  have chk: "refresh_check (sample_world raw) ''live'' sample_access = (Inr (sample_row 4 ''live'' None, sample_user), sample_access)" for raw
    by (simp add: refresh_check_def hash_refresh_token_def aw_now_def sample_world_def access_env_def sample_access_defs)
  have commit: "\<exists>s st'. refresh_commit (sample_world raw) (sample_row 4 ''live'' None) sample_user st = (Inr s, st') \<and> ks_latest_version (ax_keys st') = 1
      \<and> ax_vault st' = (1, 1) \<and> rt_token_hash ` set (ax_tokens st') = insert raw (rt_token_hash ` set (ax_tokens st))"
    if st: "ax_vault st = (1, 1)" "ks_latest_version (ax_keys st) = 1" "raw \<notin> rt_token_hash ` set (ax_tokens st)" for raw st
  proof -
    obtain tok c' where tok: "create_access_token sample_vault (\<lambda>_. []) 1000000 7 1 ROLE_RISK_MANAGER (1, 1) (ax_keys st) = (Inr tok, c')"
      "ks_latest_version c' = 1" using sample_issues[OF st(2)] by blast
    have t: "user_access_token (sample_world raw) sample_user st = (Inr tok, st\<lparr>ax_keys := c'\<rparr>)"
      using tok(1) st(1) by (simp add: user_access_token_def sample_world_def access_env_def aw_now_def sample_user_def)
    have hashes: "rt_token_hash ` set (update_where P (\<lambda>q. q\<lparr>rt_used_at := x\<rparr>) ts) = rt_token_hash ` set ts" for P x ts by (induction ts) auto
    show ?thesis using st(3) tok(2) unfolding refresh_commit_def t
      by (simp add: add_refresh_row_def Let_def sample_world_sel hashes st(1)[unfolded One_nat_def])
  qed
  obtain s1 st1 where 1: "refresh_commit (sample_world ''a'') (sample_row 4 ''live'' None) sample_user sample_access = (Inr s1, st1)"
    "ks_latest_version (ax_keys st1) = 1" "ax_vault st1 = (1, 1)" "rt_token_hash ` set (ax_tokens st1) = insert ''a'' (rt_token_hash ` set (ax_tokens sample_access))"
    using commit[of sample_access "''a''"] by (auto simp: sample_access_defs empty_key_state_def)
  obtain s2 st2 where 2: "refresh_commit (sample_world ''b'') (sample_row 4 ''live'' None) sample_user st1 = (Inr s2, st2)"
    using commit[of st1 "''b''"] 1(2-4) by (auto simp: sample_access_defs)
  have "2 \<le> length (live_of 2 st2)"
    using concurrent_refresh_forks_family[OF chk chk 1(1) 2 sample_tokens_ok] by (simp add: sample_row_def)
  then show ?thesis using 1(1) 2 by blast
qed

definition pending_claims :: json where
  "pending_claims = token_payload [(''sub'', JUuid 1), (''scope'', JStr MFA_PENDING_SCOPE)] 5 1000000"


end
