(* ===== verification/RiskLimits.thy ===== *)
theory RiskLimits
  imports Access AgentRegistry Brokers "HOL-Library.Multiset"
begin

text \<open>
  The hard risk limits and their change by two people (\<open>src/api/routers/risk_limits.py\<close>), and the figures of the
  portfolio page that read them (\<open>src/api/routers/portfolio.py\<close>). The rounding of the numeric columns to two decimals is
  not modelled: an amount is stored as it was sent.
\<close>

section \<open>State\<close>

text \<open>The figures of a limit, as a request proposes them and as a limit holds them.\<close>
record limit_content =
  lc_scope_type :: string
  lc_scope_id :: "nat option"
  lc_max_daily_loss :: real
  lc_max_position_size_pct :: "real option"
  lc_max_sector_exposure_pct :: "real option"
  lc_max_drawdown_pct :: "real option"
  lc_effective_from :: int

record risk_limit =
  li_id :: nat
  li_content :: limit_content
  li_set_by :: nat

datatype change_status = PENDING | APPROVED | REJECTED

record change_request =
  cq_id :: nat
  cq_content :: limit_content
  cq_status :: change_status
  cq_staged_by :: nat
  cq_confirmed_by :: "nat option"
  cq_decided_at :: "int option"
  cq_rejection_reason :: "string option"
  cq_resulting_limit :: "nat option"
  cq_created_at :: int

record limits_state =
  ls_db :: db
  ls_limits :: "risk_limit list"
  ls_requests :: "change_request list"
  ls_next :: nat

definition change_status_value :: "change_status \<Rightarrow> string" where
  "change_status_value s = (case s of PENDING \<Rightarrow> ''PENDING'' | APPROVED \<Rightarrow> ''APPROVED'' | REJECTED \<Rightarrow> ''REJECTED'')"

section \<open>The endpoints\<close>

text \<open>The limit of a scope with the latest start, also when that start is still to come.\<close>
definition latest_risk_limit :: "string \<Rightarrow> risk_limit list \<Rightarrow> risk_limit option" where
  "latest_risk_limit scope limits =
    (case sort_key (\<lambda>l. - lc_effective_from (li_content l)) (filter (\<lambda>l. lc_scope_type (li_content l) = scope) limits) of
       [] \<Rightarrow> None | l # _ \<Rightarrow> Some l)"

definition current_risk_limit :: "limits_state \<Rightarrow> limit_content option" where
  "current_risk_limit st = map_option li_content (latest_risk_limit ''Global'' (ls_limits st))"

definition optional_text :: "('a \<Rightarrow> string) \<Rightarrow> 'a option \<Rightarrow> json" where
  "optional_text f x = JStr (case x of None \<Rightarrow> ''None'' | Some v \<Rightarrow> f v)"

definition limits_audit :: "env \<Rightarrow> user_row \<Rightarrow> string \<Rightarrow> nat \<Rightarrow> json option \<Rightarrow> json option \<Rightarrow> limits_state \<Rightarrow> limits_state" where
  "limits_audit env u act i b a st =
    st\<lparr>ls_db := snd (write_audit_entry env (audit_entry Human (us_email u) act ''RiskLimitChangeRequest'' (Some i) b a) (ls_db st))\<rparr>"

definition stage_change :: "env \<Rightarrow> limit_content \<Rightarrow> user_row \<Rightarrow> limits_state \<Rightarrow> change_request \<times> limits_state" where
  "stage_change env body u st =
    (let row = \<lparr>cq_id = ls_next st, cq_content = body, cq_status = PENDING, cq_staged_by = us_id u, cq_confirmed_by = None,
         cq_decided_at = None, cq_rejection_reason = None, cq_resulting_limit = None, cq_created_at = e_now env\<rparr>;
         f = e_float_repr env in
     (row, limits_audit env u ''RISK_LIMIT_CHANGE_STAGED'' (cq_id row) None
        (Some (JObj [(''scope_type'', JStr (lc_scope_type body)), (''max_daily_loss'', JStr (f (lc_max_daily_loss body))),
           (''max_position_size_pct'', optional_text f (lc_max_position_size_pct body)),
           (''max_sector_exposure_pct'', optional_text f (lc_max_sector_exposure_pct body)),
           (''max_drawdown_pct'', optional_text f (lc_max_drawdown_pct body))]))
        (st\<lparr>ls_requests := ls_requests st @ [row], ls_next := Suc (ls_next st)\<rparr>)))"

definition list_change_requests :: "string option \<Rightarrow> limits_state \<Rightarrow> change_request list" where
  "list_change_requests status st =
    filter (\<lambda>q. case status of None \<Rightarrow> True | Some s \<Rightarrow> change_status_value (cq_status q) = s)
      (rev (sort_key cq_created_at (ls_requests st)))"

definition set_request :: "nat \<Rightarrow> (change_request \<Rightarrow> change_request) \<Rightarrow> limits_state \<Rightarrow> limits_state" where
  "set_request i f st = st\<lparr>ls_requests := update_where (\<lambda>q. cq_id q = i) f (ls_requests st)\<rparr>"

definition confirm_change :: "env \<Rightarrow> nat \<Rightarrow> user_row \<Rightarrow> limits_state \<Rightarrow> (api_failure + change_request) \<times> limits_state" where
  "confirm_change env i u st =
    (case row_by cq_id i (ls_requests st) of
       None \<Rightarrow> (Inl (Status 404), st)
     | Some row \<Rightarrow>
       if cq_status row \<noteq> PENDING then (Inl (Status 400), st)
       else if cq_staged_by row = us_id u then (Inl (Status 403), st)
       else
         (let before = latest_risk_limit (lc_scope_type (cq_content row)) (ls_limits st);
              limit = \<lparr>li_id = ls_next st, li_content = cq_content row, li_set_by = us_id u\<rparr>;
              decide = (\<lambda>q. q\<lparr>cq_status := APPROVED, cq_confirmed_by := Some (us_id u), cq_decided_at := Some (e_now env),
                 cq_resulting_limit := Some (li_id limit)\<rparr>);
              f = e_float_repr env in
          (Inr (decide row),
           limits_audit env u ''RISK_LIMIT_CHANGE_APPROVED'' i
             (Some (JObj [(''max_daily_loss'', opt_json (\<lambda>b. JStr (f (lc_max_daily_loss (li_content b)))) before)]))
             (Some (JObj [(''max_daily_loss'', JStr (f (lc_max_daily_loss (cq_content row)))),
                (''resulting_risk_limit_id'', JUuid (li_id limit)), (''staged_by_user_id'', JUuid (cq_staged_by row)),
                (''confirmed_by_user_id'', JUuid (us_id u))]))
             (set_request i decide (st\<lparr>ls_limits := ls_limits st @ [limit], ls_next := Suc (ls_next st)\<rparr>)))))"

definition reject_change :: "env \<Rightarrow> nat \<Rightarrow> string \<Rightarrow> user_row \<Rightarrow> limits_state \<Rightarrow> (api_failure + change_request) \<times> limits_state" where
  "reject_change env i reason u st =
    (case row_by cq_id i (ls_requests st) of
       None \<Rightarrow> (Inl (Status 404), st)
     | Some row \<Rightarrow>
       if cq_status row \<noteq> PENDING then (Inl (Status 400), st)
       else
         (let decide = (\<lambda>q. q\<lparr>cq_status := REJECTED, cq_confirmed_by := Some (us_id u), cq_decided_at := Some (e_now env),
             cq_rejection_reason := Some reason\<rparr>) in
          (Inr (decide row), limits_audit env u ''RISK_LIMIT_CHANGE_REJECTED'' i None (Some (JObj [(''reason'', JStr reason)]))
             (set_request i decide st))))"

text \<open>A request of any user.\<close>
inductive limits_step :: "limits_state \<Rightarrow> limits_state \<Rightarrow> bool" where
  ls_stage: "limits_step st (snd (stage_change env body u st))"
| ls_confirm: "limits_step st (snd (confirm_change env i u st))"
| ls_reject: "limits_step st (snd (reject_change env i reason u st))"

section \<open>Two people\<close>

definition decided_by_two :: "risk_limit \<Rightarrow> change_request \<Rightarrow> bool" where
  "decided_by_two l q \<longleftrightarrow> cq_status q = APPROVED \<and> cq_resulting_limit q = Some (li_id l) \<and> cq_confirmed_by q = Some (li_set_by l)
     \<and> cq_staged_by q \<noteq> li_set_by l \<and> cq_content q = li_content l"

definition dual_control :: "limits_state \<Rightarrow> bool" where
  "dual_control st \<longleftrightarrow> distinct (map cq_id (ls_requests st)) \<and> distinct (map li_id (ls_limits st))
     \<and> (\<forall>q \<in> set (ls_requests st). cq_id q < ls_next st) \<and> (\<forall>l \<in> set (ls_limits st). li_id l < ls_next st)
     \<and> (\<forall>l \<in> set (ls_limits st). \<exists>q \<in> set (ls_requests st). decided_by_two l q)
     \<and> (\<forall>q \<in> set (ls_requests st). cq_status q = PENDING \<longleftrightarrow> cq_decided_at q = None)
     \<and> (\<forall>q \<in> set (ls_requests st). \<forall>i. cq_resulting_limit q = Some i \<longrightarrow> cq_status q = APPROVED \<and> (\<exists>l \<in> set (ls_limits st). li_id l = i))"

lemma limits_audit_frame [simp]:
  "ls_limits (limits_audit env u a i b c st) = ls_limits st" "ls_requests (limits_audit env u a i b c st) = ls_requests st"
  "ls_next (limits_audit env u a i b c st) = ls_next st"
  by (simp_all add: limits_audit_def)

lemma dual_control_audit [simp]: "dual_control (limits_audit env u a i b c st) = dual_control st"
  by (simp add: dual_control_def)

lemma decide_request:
  assumes "dual_control st" "row \<in> set (ls_requests st)" "cq_status row = PENDING" "cq_id row = i"
    and d: "\<And>q. cq_id (d q) = cq_id q \<and> cq_content (d q) = cq_content q \<and> cq_staged_by (d q) = cq_staged_by q"
    and "cq_status (d row) \<noteq> PENDING" "cq_decided_at (d row) \<noteq> None"
    and new: "ls_limits st' = ls_limits st @ ls" "ls_requests st' = update_where (\<lambda>q. cq_id q = i) d (ls_requests st)" "ls_next st \<le> ls_next st'"
    and ls: "ls = [] \<and> cq_resulting_limit (d row) = None
      \<or> (\<exists>l. ls = [l] \<and> li_id l = ls_next st \<and> ls_next st < ls_next st' \<and> decided_by_two l (d row))"
  shows "dual_control st'"
proof -
  have inv: "distinct (map cq_id (ls_requests st))" "distinct (map li_id (ls_limits st))" "\<forall>q \<in> set (ls_requests st). cq_id q < ls_next st"
    "\<forall>l \<in> set (ls_limits st). li_id l < ls_next st" "\<forall>l \<in> set (ls_limits st). \<exists>q \<in> set (ls_requests st). decided_by_two l q"
    "\<forall>q \<in> set (ls_requests st). cq_status q = PENDING \<longleftrightarrow> cq_decided_at q = None"
    "\<forall>q \<in> set (ls_requests st). \<forall>i. cq_resulting_limit q = Some i \<longrightarrow> cq_status q = APPROVED \<and> (\<exists>l \<in> set (ls_limits st). li_id l = i)"
    using assms(1) unfolding dual_control_def by blast+
  have same: "q = row" if "q \<in> set (ls_requests st)" "cq_id q = i" for q
    using row_by_distinct[OF inv(1) that(1)] row_by_distinct[OF inv(1) assms(2)] that(2) assms(4) by simp
  have mem: "q \<in> set (ls_requests st') \<longleftrightarrow> q = d row \<or> (q \<in> set (ls_requests st) \<and> cq_id q \<noteq> i)" for q
  proof -
    have "q \<in> set (ls_requests st') \<longleftrightarrow> (\<exists>x \<in> set (ls_requests st). q = (if cq_id x = i then d x else x))"
      unfolding new(2) set_update_where image_iff ..
    then show ?thesis using same assms(2,4) by (metis (full_types))
  qed
  have "\<exists>q \<in> set (ls_requests st'). decided_by_two l q" if l: "l \<in> set (ls_limits st')" for l
  proof -
    from l new(1) ls consider "l \<in> set (ls_limits st)" | "decided_by_two l (d row)" by auto
    then show ?thesis
    proof cases
      case 1
      then obtain q where q: "q \<in> set (ls_requests st)" "decided_by_two l q" using inv(5) by blast
      then have "cq_id q \<noteq> i" using same assms(3) by (auto simp: decided_by_two_def)
      then show ?thesis using q mem by blast
    qed (use mem in blast)
  qed
  moreover have "distinct (map cq_id (ls_requests st'))" using inv(1) d by (simp add: new(2) map_update_where)
  moreover have "distinct (map li_id (ls_limits st'))" "\<forall>l \<in> set (ls_limits st'). li_id l < ls_next st'" using inv(2,4) ls new(1,3) by auto
  moreover have "\<forall>q \<in> set (ls_requests st'). cq_id q < ls_next st'"
  proof
    fix q assume "q \<in> set (ls_requests st')"
    then have "cq_id q < ls_next st" using inv(3) mem d assms(2) by metis
    then show "cq_id q < ls_next st'" using new(3) by simp
  qed
  moreover have "\<forall>q \<in> set (ls_requests st'). cq_status q = PENDING \<longleftrightarrow> cq_decided_at q = None" using inv(6) mem assms(6,7) by auto
  moreover have "\<forall>q \<in> set (ls_requests st'). \<forall>j. cq_resulting_limit q = Some j \<longrightarrow> cq_status q = APPROVED \<and> (\<exists>l \<in> set (ls_limits st'). li_id l = j)"
    using inv(7) mem ls new(1) by (auto simp: decided_by_two_def)
  ultimately show ?thesis unfolding dual_control_def by blast
qed

lemma limits_step_dual_control: "limits_step st st' \<Longrightarrow> dual_control st \<Longrightarrow> dual_control st'"
proof (induction rule: limits_step.cases)
  case (ls_stage st env body u)
  then show ?case by (auto simp: stage_change_def Let_def dual_control_def)
next
  case (ls_confirm st env i u)
  show ?case
  proof (cases "snd (confirm_change env i u st) = st")
    case False
    then obtain row where row: "row_by cq_id i (ls_requests st) = Some row" "cq_status row = PENDING" "cq_staged_by row \<noteq> us_id u"
      by (auto simp: confirm_change_def split: option.splits if_splits)
    have r: "row \<in> set (ls_requests st)" "cq_id row = i" using row_by_SomeD[OF row(1)] by simp_all
    let ?d = "\<lambda>q. q\<lparr>cq_status := APPROVED, cq_confirmed_by := Some (us_id u), cq_decided_at := Some (e_now env), cq_resulting_limit := Some (ls_next st)\<rparr>"
    show ?thesis
      by (rule decide_request[where d = ?d and st = st and row = row and i = i and ls = "[\<lparr>li_id = ls_next st, li_content = cq_content row, li_set_by = us_id u\<rparr>]"])
        (use ls_confirm row r in \<open>simp_all add: confirm_change_def Let_def set_request_def decided_by_two_def\<close>)
  qed (use ls_confirm in simp)
next
  case (ls_reject st env i reason u)
  show ?case
  proof (cases "snd (reject_change env i reason u st) = st")
    case False
    then obtain row where row: "row_by cq_id i (ls_requests st) = Some row" "cq_status row = PENDING"
      by (auto simp: reject_change_def split: option.splits if_splits)
    have r: "row \<in> set (ls_requests st)" "cq_id row = i" using row_by_SomeD[OF row(1)] by simp_all
    have none: "cq_resulting_limit row = None" using ls_reject r(1) row(2) by (cases "cq_resulting_limit row") (auto simp: dual_control_def)
    let ?d = "\<lambda>q. q\<lparr>cq_status := REJECTED, cq_confirmed_by := Some (us_id u), cq_decided_at := Some (e_now env), cq_rejection_reason := Some reason\<rparr>"
    show ?thesis
      by (rule decide_request[where d = ?d and st = st and row = row and i = i and ls = "[]"])
        (use ls_reject row r none in \<open>simp_all add: reject_change_def Let_def set_request_def\<close>)
  qed (use ls_reject in simp)
qed


section \<open>The portfolio page\<close>

text \<open>The answer of a broker: none configured, an HTTP error status, any other exception, or a value.\<close>
datatype 'a broker_answer = No_broker | Broker_http_error | Broker_crash | Answer 'a

definition asked :: "'a broker_answer \<Rightarrow> api_failure + 'a" where
  "asked a = (case a of No_broker \<Rightarrow> Inl (Status 503) | Broker_http_error \<Rightarrow> Inl (Status 502) | Broker_crash \<Rightarrow> Inl Uncaught | Answer x \<Rightarrow> Inr x)"

record 'a broker_entry =
  be_broker :: string
  be_configured :: bool
  be_value :: "'a option"
  be_error :: bool

text \<open>One entry per broker, in the order of the dictionary; an exception that is not an HTTP status ends the request.\<close>
fun by_broker :: "(string \<times> 'a broker_answer) list \<Rightarrow> 'a broker_entry list option" where
  "by_broker [] = Some []"
| "by_broker ((n, a) # rest) =
    (case a of
       Broker_crash \<Rightarrow> None
     | No_broker \<Rightarrow> map_option ((#) \<lparr>be_broker = n, be_configured = False, be_value = None, be_error = False\<rparr>) (by_broker rest)
     | Broker_http_error \<Rightarrow> map_option ((#) \<lparr>be_broker = n, be_configured = True, be_value = None, be_error = True\<rparr>) (by_broker rest)
     | Answer x \<Rightarrow> map_option ((#) \<lparr>be_broker = n, be_configured = True, be_value = Some x, be_error = False\<rparr>) (by_broker rest))"

definition pct_of_daily_limit :: "real \<Rightarrow> real option \<Rightarrow> real option" where
  "pct_of_daily_limit pnl limit =
    (case limit of None \<Rightarrow> None
     | Some l \<Rightarrow> if l \<noteq> 0 \<and> 0 < l \<and> pnl < 0 then Some (min (\<bar>pnl\<bar> / l * 100) 999) else None)"

definition daily_limit :: "limits_state \<Rightarrow> real option" where
  "daily_limit st = map_option lc_max_daily_loss (current_risk_limit st)"

record pnl_response =
  pn_unrealized :: real
  pn_realized :: real
  pn_total :: real
  pn_daily_loss_limit :: "real option"
  pn_pct_used :: "real option"

definition portfolio_pnl :: "limits_state \<Rightarrow> broker_position list broker_answer \<Rightarrow> api_failure + pnl_response" where
  "portfolio_pnl st a =
    (case asked a of Inl e \<Rightarrow> Inl e
     | Inr ps \<Rightarrow>
       (let u = sum_list (map bp_unrealized_pnl ps); r = sum_list (map bp_realized_pnl ps) in
        Inr \<lparr>pn_unrealized = u, pn_realized = r, pn_total = u + r, pn_daily_loss_limit = daily_limit st,
           pn_pct_used = pct_of_daily_limit (u + r) (daily_limit st)\<rparr>))"

record dashboard_summary =
  da_pnl :: pnl_response
  da_open_positions :: nat
  da_total_agents :: nat
  da_active_agents :: nat

definition dashboard_summary :: "limits_state \<Rightarrow> broker_position list broker_answer \<Rightarrow> api_failure + dashboard_summary" where
  "dashboard_summary st a =
    (case (asked a, portfolio_pnl st a) of
       (Inr ps, Inr p) \<Rightarrow> Inr \<lparr>da_pnl = p, da_open_positions = length (filter (\<lambda>b. bp_net_quantity b \<noteq> 0) ps),
          da_total_agents = length KNOWN_AGENTS,
          da_active_agents = length (filter (\<lambda>ag. is_agent_enabled (ls_db st) (ad_name ag)) KNOWN_AGENTS)\<rparr>
     | (Inl e, _) \<Rightarrow> Inl e
     | (_, Inl e) \<Rightarrow> Inl e)"

text \<open>The latest backtest of a version: its Sharpe ratio and its capital.\<close>
record backtest_figures =
  bf_sharpe :: "real option"
  bf_initial_capital :: real

text \<open>The capital-weighted Sharpe ratio over the current versions of the live strategies.\<close>
definition weighted_sharpe :: "(nat \<Rightarrow> backtest_figures option) \<Rightarrow> nat option list \<Rightarrow> real option" where
  "weighted_sharpe latest versions =
    (let rs = concat (map (\<lambda>v. case v of None \<Rightarrow> [] | Some i \<Rightarrow>
                (case latest i of None \<Rightarrow> [] | Some b \<Rightarrow> (case bf_sharpe b of None \<Rightarrow> [] | Some s \<Rightarrow> [(s, bf_initial_capital b)]))) versions);
         weight = sum_list (map snd rs) in
     if 0 < weight then Some (sum_list (map (\<lambda>(s, c). s * c) rs) / weight) else None)"

record risk_metrics =
  rm_sharpe :: "real option"
  rm_source :: string
  rm_daily_pnl :: real
  rm_daily_loss_limit :: "real option"
  rm_pct_used :: "real option"
  rm_max_sector_exposure_pct :: "real option"

definition portfolio_risk_metrics ::
  "limits_state \<Rightarrow> (nat \<Rightarrow> backtest_figures option) \<Rightarrow> broker_position list broker_answer \<Rightarrow> api_failure + risk_metrics" where
  "portfolio_risk_metrics st latest a =
    (case asked a of Inl e \<Rightarrow> Inl e
     | Inr ps \<Rightarrow>
       (let pnl = sum_list (map (\<lambda>p. bp_unrealized_pnl p + bp_realized_pnl p) ps); 
            s = weighted_sharpe latest (map str_current_version_id (filter (\<lambda>x. str_status x = ''Live'') (db_strategies (ls_db st)))) in
        Inr \<lparr>rm_sharpe = s, rm_source = (if s \<noteq> None then ''backtest'' else ''unavailable''), rm_daily_pnl = pnl,
           rm_daily_loss_limit = daily_limit st, rm_pct_used = pct_of_daily_limit pnl (daily_limit st),
           rm_max_sector_exposure_pct = (case current_risk_limit st of None \<Rightarrow> None | Some c \<Rightarrow> lc_max_sector_exposure_pct c)\<rparr>))"

text \<open>Python's \<open>or\<close> on an optional float.\<close>
definition price_or :: "real option \<Rightarrow> real \<Rightarrow> real" where
  "price_or p d = (case p of None \<Rightarrow> d | Some x \<Rightarrow> if x = 0 then d else x)"

definition position_value :: "broker_position \<Rightarrow> real" where
  "position_value p = real_of_int \<bar>bp_net_quantity p\<bar> * price_or (bp_last_price p) (price_or (bp_average_price p) 0)"

record symbol_exposure =
  sx_symbol :: string
  sx_market_value :: real
  sx_pct_of_gross :: real

definition portfolio_allocation :: "broker_position list broker_answer \<Rightarrow> api_failure + (symbol_exposure list \<times> real)" where
  "portfolio_allocation a =
    (case asked a of Inl e \<Rightarrow> Inl e
     | Inr ps \<Rightarrow>
       (let valued = map (\<lambda>p. (bp_symbol p, position_value p)) (filter (\<lambda>p. bp_net_quantity p \<noteq> 0) ps);
            gross = sum_list (map snd valued) in
        Inr (sort_key (\<lambda>x. - sx_market_value x)
               (map (\<lambda>(s, v). \<lparr>sx_symbol = s, sx_market_value = v, sx_pct_of_gross = (if gross \<noteq> 0 then v / gross * 100 else 0)\<rparr>) valued), gross)))"

section \<open>Recommendations of an allocation\<close>

record recommendation_row =
  rc_id :: nat
  rc_status :: string
  rc_decided_by :: "nat option"
  rc_decided_at :: "int option"

definition decide_recommendation ::
  "env \<Rightarrow> nat \<Rightarrow> string \<Rightarrow> string \<Rightarrow> user_row \<Rightarrow> recommendation_row list \<times> db \<Rightarrow> (api_failure + recommendation_row) \<times> recommendation_row list \<times> db" where
  "decide_recommendation env i new_status act u st =
    (case row_by rc_id i (fst st) of
       None \<Rightarrow> (Inl (Status 404), st)
     | Some row \<Rightarrow>
       if rc_status row \<noteq> ''Proposed'' then (Inl (Status 400), st)
       else (let decide = (\<lambda>r. r\<lparr>rc_status := new_status, rc_decided_by := Some (us_id u), rc_decided_at := Some (e_now env)\<rparr>) in
         (Inr (decide row), update_where (\<lambda>r. rc_id r = i) decide (fst st),
          snd (write_audit_entry env (audit_entry Human (us_email u) act ''PortfolioAllocationRecommendation'' (Some i) None
            (Some (JObj [(''status'', JStr new_status)]))) (snd st)))))"

definition accept_allocation_recommendation where
  "accept_allocation_recommendation env i u = decide_recommendation env i ''Accepted'' ''PORTFOLIO_ALLOCATION_RECOMMENDATION_ACCEPTED'' u"

definition reject_allocation_recommendation where
  "reject_allocation_recommendation env i u = decide_recommendation env i ''Rejected'' ''PORTFOLIO_ALLOCATION_RECOMMENDATION_REJECTED'' u"

lemma sum_list_map_sort: "sum_list (map f (sort_key g xs)) = (sum_list (map f xs) :: real)"
proof -
  have "sum_mset (image_mset f (mset (sort_key g xs))) = sum_mset (image_mset f (mset xs))" by simp
  then show ?thesis by (metis mset_map sum_mset_sum_list)
qed

text \<open>The shares of the allocation page: with prices that are not negative every share lies between 0 and 100, the shares
  of a portfolio that is worth something add up to 100, the gross exposure is the sum of the values shown, and the largest
  comes first.\<close>
theorem allocation_shares_sound:
  assumes "portfolio_allocation (Answer ps) = Inr (xs, gross)"
    and "\<And>p x. p \<in> set ps \<Longrightarrow> bp_last_price p = Some x \<or> bp_average_price p = Some x \<Longrightarrow> 0 \<le> x"
  shows "gross = sum_list (map sx_market_value xs) \<and> sorted (map (\<lambda>x. - sx_market_value x) xs)
    \<and> (gross \<noteq> 0 \<longrightarrow> sum_list (map sx_pct_of_gross xs) = 100) \<and> (\<forall>x \<in> set xs. 0 \<le> sx_pct_of_gross x \<and> sx_pct_of_gross x \<le> 100)"
proof (intro conjI impI)
  let ?v = "map (\<lambda>p. (bp_symbol p, position_value p)) (filter (\<lambda>p. bp_net_quantity p \<noteq> 0) ps)"
  let ?f = "\<lambda>(s, v). \<lparr>sx_symbol = s, sx_market_value = v, sx_pct_of_gross = (if gross \<noteq> 0 then v / gross * 100 else 0)\<rparr>"
  have gross: "gross = sum_list (map snd ?v)" using assms(1) unfolding portfolio_allocation_def asked_def Let_def by (simp del: map_map)
  have xs: "xs = sort_key (\<lambda>x. - sx_market_value x) (map ?f ?v)"
    using assms(1) unfolding portfolio_allocation_def asked_def Let_def gross by (simp del: map_map)
  have vals: "map sx_market_value (map ?f ?v) = map snd ?v"
    by (simp_all add: case_prod_beta)
  have nonneg: "0 \<le> v" if "v \<in> set (map snd ?v)" for v
  proof -
    have "0 \<le> position_value p" if "p \<in> set ps" for p
      using assms(2)[OF that] by (auto simp: position_value_def price_or_def split: option.splits)
    then show ?thesis using that by auto
  qed
  show "gross = sum_list (map sx_market_value xs)" unfolding xs sum_list_map_sort vals by (rule gross)
  show "sorted (map (\<lambda>x. - sx_market_value x) xs)" unfolding xs by (rule sorted_sort_key)
  show "sum_list (map sx_pct_of_gross xs) = 100" if "gross \<noteq> 0"
  proof -
    have "sum_list (map (\<lambda>v. v / gross * 100) vs) = sum_list vs / gross * 100" for vs by (induction vs) (simp_all add: add_divide_distrib algebra_simps)
    moreover have "map sx_pct_of_gross (map ?f ?v) = map (\<lambda>v. v / gross * 100) (map snd ?v)" using that by (simp add: case_prod_beta)
    ultimately have "sum_list (map sx_pct_of_gross (map ?f ?v)) = sum_list (map snd ?v) / gross * 100" by presburger
    then show ?thesis using that unfolding xs sum_list_map_sort gross[symmetric] by simp
  qed
  have "0 \<le> v / gross * 100 \<and> v / gross * 100 \<le> 100" if "v \<in> set (map snd ?v)" "gross \<noteq> 0" for v
  proof -
    have "v \<le> gross" "0 \<le> gross" unfolding gross using member_sum_list_real[of "map snd ?v" id v] sum_list_nonneg_real[of "map snd ?v" id] nonneg that(1) by auto
    then show ?thesis using nonneg[OF that(1)] that(2) by (simp add: field_simps)
  qed
  then show "\<forall>x \<in> set xs. 0 \<le> sx_pct_of_gross x \<and> sx_pct_of_gross x \<le> 100" unfolding xs by (auto simp: case_prod_beta)
qed

text \<open>The limit of a scope with the latest start is the one in force, whatever the clock says.\<close>
lemma future_limit_applies_now:
  assumes "l \<in> set (ls_limits st)" and "lc_scope_type (li_content l) = ''Global''"
    and "\<And>x. x \<in> set (ls_limits st) \<Longrightarrow> lc_scope_type (li_content x) = ''Global'' \<Longrightarrow> x \<noteq> l
      \<Longrightarrow> lc_effective_from (li_content x) < lc_effective_from (li_content l)"
  shows "current_risk_limit st = Some (li_content l)"
proof -
  let ?xs = "filter (\<lambda>l. lc_scope_type (li_content l) = ''Global'') (ls_limits st)"
  let ?k = "\<lambda>l. - lc_effective_from (li_content l)"
  have l: "l \<in> set (sort_key ?k ?xs)" using assms(1,2) by simp
  then obtain x rest where xs: "sort_key ?k ?xs = x # rest" by (cases "sort_key ?k ?xs") auto
  have "sorted (map ?k (x # rest))" using sorted_sort_key[of ?k ?xs] unfolding xs .
  then have "?k x \<le> ?k l" using l unfolding xs by auto
  moreover have "x \<in> set ?xs" using xs by (metis list.set_intros(1) set_sort)
  ultimately have "x = l" using assms(3)[of x] by force
  then show ?thesis by (simp add: current_risk_limit_def latest_risk_limit_def xs)
qed

section \<open>Witnesses\<close>

definition sample_limit :: limit_content where
  "sample_limit = \<lparr>lc_scope_type = ''Global'', lc_scope_id = None, lc_max_daily_loss = 50000, lc_max_position_size_pct = None,
     lc_max_sector_exposure_pct = None, lc_max_drawdown_pct = Some 10, lc_effective_from = 99\<rparr>"

definition no_limits :: limits_state where
  "no_limits = \<lparr>ls_db = empty_db, ls_limits = [], ls_requests = [], ls_next = 1\<rparr>"


lemma allocation_shares_sound_witness:
  "portfolio_allocation (Answer [\<lparr>bp_symbol = ''A'', bp_net_quantity = 3, bp_average_price = Some 10, bp_last_price = None, bp_unrealized_pnl = 0, bp_realized_pnl = 0\<rparr>,
      \<lparr>bp_symbol = ''B'', bp_net_quantity = - 1, bp_average_price = None, bp_last_price = Some 90, bp_unrealized_pnl = 0, bp_realized_pnl = 0\<rparr>])
    = Inr ([\<lparr>sx_symbol = ''B'', sx_market_value = 90, sx_pct_of_gross = 75\<rparr>, \<lparr>sx_symbol = ''A'', sx_market_value = 30, sx_pct_of_gross = 25\<rparr>], 120)
   \<and> sum_list (map sx_pct_of_gross [\<lparr>sx_symbol = ''B'', sx_market_value = 90, sx_pct_of_gross = 75\<rparr>, \<lparr>sx_symbol = ''A'', sx_market_value = 30, sx_pct_of_gross = 25\<rparr>]) = 100"
proof -
  let ?ps = "[\<lparr>bp_symbol = ''A'', bp_net_quantity = 3, bp_average_price = Some 10, bp_last_price = None, bp_unrealized_pnl = 0, bp_realized_pnl = 0\<rparr>,
      \<lparr>bp_symbol = ''B'', bp_net_quantity = - 1, bp_average_price = None, bp_last_price = Some 90, bp_unrealized_pnl = 0, bp_realized_pnl = 0\<rparr>]"
  have a: "portfolio_allocation (Answer ?ps)
    = Inr ([\<lparr>sx_symbol = ''B'', sx_market_value = 90, sx_pct_of_gross = 75\<rparr>, \<lparr>sx_symbol = ''A'', sx_market_value = 30, sx_pct_of_gross = 25\<rparr>], 120)"
    by (simp add: portfolio_allocation_def asked_def Let_def position_value_def price_or_def)
  show ?thesis
    by (rule conjI[OF a], rule allocation_shares_sound[OF a, THEN conjunct2, THEN conjunct2, THEN conjunct1, THEN mp]) auto
qed

end
