(* ===== verification/Chat.thy ===== *)
theory Chat
  imports RunManager AgentRegistry
begin

text \<open>
  Conversations: the messages of the chat with the CEO agent (\<open>src/api/routers/chat.py\<close>) and the routing of a message
  either to a run of the organisation or to a direct answer (\<open>src/orchestration/adhoc.py\<close>). The language model is a
  parameter: its classification of a text (\<open>None\<close>: the call or the reading of its answer failed) and its answer to a
  conversation. The background thread of a message is the operation \<open>classify_and_dispatch\<close>.
\<close>

section \<open>State\<close>

record chat_message =
  cm_id :: nat
  cm_role :: string
  cm_content :: string
  cm_status :: string
  cm_error :: "string option"
  cm_channel :: string
  cm_metadata :: "json option"
  cm_webhook_event_id :: "nat option"
  cm_created_at :: int

record chat_state =
  ch_db :: db
  ch_messages :: "chat_message list"
  ch_next :: nat

record classification =
  cl_actionable :: bool
  cl_objective_classification :: "string option"
  cl_objective :: "string option"

text \<open>The world of a message: the environment of the services, the classifier, the answering model (an error text or a
  reply), the system prompt and the facts put before a conversation, Python's \<open>str\<close> of a JSON value, the default tenant,
  and the database as it is each time the waiting thread looks at its run, until its deadline.\<close>
record chat_world =
  cw_env :: env
  cw_classify :: "string \<Rightarrow> classification option"
  cw_answer :: "(string \<times> string) list \<Rightarrow> string + string"
  cw_system_prompt :: string
  cw_system_context :: string
  cw_py_str :: "json \<Rightarrow> string"
  cw_tenant :: nat
  cw_observed :: "nat \<Rightarrow> db list"

section \<open>Classification\<close>

definition lower_char :: "char \<Rightarrow> char" where
  "lower_char c = (let n = of_char c :: nat in if 65 \<le> n \<and> n \<le> 90 then char_of (n + 32) else c)"

definition lower :: "string \<Rightarrow> string" where "lower = map lower_char"

definition classify_message :: "chat_world \<Rightarrow> string \<Rightarrow> classification" where
  "classify_message w t =
    (case cw_classify w t of
       Some c \<Rightarrow> c
     | None \<Rightarrow> \<lparr>cl_actionable = False, cl_objective_classification = None, cl_objective = None\<rparr>)"

text \<open>\<open>RunSource(channel.lower())\<close>, with the fallback for any other text.\<close>
definition source_of_channel :: "string \<Rightarrow> run_source" where
  "source_of_channel channel =
    (case List.find (\<lambda>s. source_value s = lower channel) [SRC_WEB, SRC_SCHEDULE, SRC_TELEGRAM, SRC_DISCORD, SRC_SLACK, SRC_API] of
       Some s \<Rightarrow> s | None \<Rightarrow> SRC_API)"

definition maybe_route_to_organization ::
  "chat_world \<Rightarrow> string \<Rightarrow> string \<Rightarrow> string option \<Rightarrow> chat_state \<Rightarrow> nat option \<times> chat_state" where
  "maybe_route_to_organization w t channel requested_by st =
    (let c = classify_message w t in
     case (cl_actionable c, cl_objective c) of
       (True, Some obj) \<Rightarrow>
         if obj = [] then (None, st)
         else (case create_run (cw_env w) obj (source_of_channel channel) requested_by (cw_tenant w) True (ch_db st) of
             (run, _, d) \<Rightarrow> (Some (run_id run), st\<lparr>ch_db := d\<rparr>))
     | _ \<Rightarrow> (None, st))"

section \<open>The answer of a run\<close>

definition json_truthy :: "json \<Rightarrow> bool" where
  "json_truthy j = (case j of JNull \<Rightarrow> False | JBool b \<Rightarrow> b | JInt i \<Rightarrow> i \<noteq> 0 | JFloat x \<Rightarrow> x \<noteq> 0 | JStr s \<Rightarrow> s \<noteq> [] | JArr js \<Rightarrow> js \<noteq> []
     | JObj fs \<Rightarrow> fs \<noteq> [])"

definition py_text :: "chat_world \<Rightarrow> json \<Rightarrow> string" where
  "py_text w j = (case j of JStr s \<Rightarrow> s | _ \<Rightarrow> cw_py_str w j)"

definition payload_field :: "json \<Rightarrow> string \<Rightarrow> json" where
  "payload_field p k = (case json_get p k of Some j \<Rightarrow> j | None \<Rightarrow> JStr [])"

definition newest :: "('a \<Rightarrow> int) \<Rightarrow> 'a list \<Rightarrow> 'a option" where
  "newest f xs = (case sort_key (\<lambda>x. - f x) xs of [] \<Rightarrow> None | x # _ \<Rightarrow> Some x)"

definition newline :: string where "newline = [char_of (10::nat)]"

definition run_label :: "nat \<Rightarrow> string" where "run_label rid = ''[Organization Run '' @ uuid_str rid @ '']''"

definition synthesis_body :: "chat_world \<Rightarrow> result_artefact \<Rightarrow> string" where
  "synthesis_body w a =
    (if art_type a = ''AdHocAnalysis'' then py_text w (payload_field (art_payload a) ''answer'')
     else let summary = payload_field (art_payload a) ''summary''; recommendation = payload_field (art_payload a) ''recommendation'' in
       if json_truthy recommendation
       then py_text w summary @ newline @ newline @ ''Recommendation: '' @ py_text w recommendation
       else py_text w summary)"

text \<open>\<open>_compose_reply\<close>: the text and the status of the message.\<close>
definition compose_reply :: "chat_world \<Rightarrow> nat \<Rightarrow> run_status option \<Rightarrow> db \<Rightarrow> string \<times> string" where
  "compose_reply w rid status d =
    (if get_run d rid = None then (''The organisation run for this request could not be found.'', ''Failed'')
     else case status of
       Some RUN_COMPLETED \<Rightarrow>
         (case newest art_created_at (filter (\<lambda>a. art_run_id a = rid \<and> art_type a \<in> {''CeoSynthesis'', ''AdHocAnalysis''}) (db_artefacts d)) of
            None \<Rightarrow> (run_label rid @ '' Completed, but produced no synthesis artefact.'', ''Completed'')
          | Some a \<Rightarrow> (run_label rid @ newline @ synthesis_body w a, ''Completed''))
     | Some RUN_CANNOT_PLAN \<Rightarrow>
         (let reason = (case newest od_created_at (filter (\<lambda>x. od_run_id x = rid \<and> od_decision_type x = DEC_CANNOT_PLAN) (db_decisions d)) of
              Some x \<Rightarrow> od_reason x | None \<Rightarrow> ''the objective is unservable'') in
          (''The organisation could not plan this objective: '' @ reason, ''Failed''))
     | Some RUN_FAILED \<Rightarrow> (run_label rid @ '' ended 'failed' -- see the console for details.'', ''Failed'')
     | Some RUN_CANCELLED \<Rightarrow> (run_label rid @ '' ended 'cancelled' -- see the console for details.'', ''Failed'')
     | _ \<Rightarrow> (run_label rid @ '' is still running; check the Command Center for live progress.'', ''Completed''))"

text \<open>The polling loop: the last status seen, the first terminal one ends it.\<close>
fun watch_status :: "nat \<Rightarrow> run_status option \<Rightarrow> db list \<Rightarrow> run_status option" where
  "watch_status rid last_seen [] = last_seen"
| "watch_status rid last_seen (d # ds) =
    (let s = map_option run_status_of (get_run d rid) in
     if (case s of None \<Rightarrow> False | Some x \<Rightarrow> terminal_run x) then s else watch_status rid s ds)"

definition set_message :: "nat \<Rightarrow> (chat_message \<Rightarrow> chat_message) \<Rightarrow> chat_state \<Rightarrow> chat_state" where
  "set_message i f st = st\<lparr>ch_messages := update_where (\<lambda>m. cm_id m = i) f (ch_messages st)\<rparr>"

text \<open>The reply and status handed to the callback, with the new state. The run is read once more when the reply is composed.\<close>
definition watch_run_and_reply :: "chat_world \<Rightarrow> nat \<Rightarrow> nat \<Rightarrow> chat_state \<Rightarrow> (string \<times> string) \<times> chat_state" where
  "watch_run_and_reply w assistant rid st =
    (let seen = cw_observed w rid;
         status = watch_status rid None seen;
         (reply, s) = compose_reply w rid status (if seen = [] then ch_db st else last seen) in
     ((reply, s), set_message assistant (\<lambda>m. m\<lparr>cm_content := reply, cm_status := s\<rparr>) st))"

section \<open>The direct answer\<close>

definition build_messages :: "chat_world \<Rightarrow> (string \<times> string \<times> string) list \<Rightarrow> string \<Rightarrow> (string \<times> string) list" where
  "build_messages w history content =
    [(''system'', cw_system_prompt w), (''system'', cw_system_context w)]
    @ map (\<lambda>(role, c, s). (role, c)) (filter (\<lambda>(role, c, s). s = ''Completed'' \<or> role = ''user'') history)
    @ [(''user'', content)]"

definition fail_message :: "nat \<Rightarrow> string \<Rightarrow> chat_state \<Rightarrow> chat_state" where
  "fail_message i e = set_message i (\<lambda>m. m\<lparr>cm_status := ''Failed'', cm_error := Some e, cm_content := []\<rparr>)"

definition generate_and_store_reply ::
  "chat_world \<Rightarrow> nat \<Rightarrow> (string \<times> string \<times> string) list \<Rightarrow> string \<Rightarrow> chat_state \<Rightarrow> (string \<times> string) \<times> chat_state" where
  "generate_and_store_reply w i history content st =
    (if \<not> is_agent_enabled (ch_db st) ''ceo_agent_chat''
     then (([], ''Failed''), fail_message i ''ceo_agent_chat is administratively disabled'' st)
     else case cw_answer w (build_messages w history content) of
         Inl e \<Rightarrow> (([], ''Failed''), fail_message i e st)
       | Inr reply \<Rightarrow> ((reply, ''Completed''), set_message i (\<lambda>m. m\<lparr>cm_content := reply, cm_status := ''Completed''\<rparr>) st))"

definition classify_and_dispatch ::
  "chat_world \<Rightarrow> nat \<Rightarrow> string \<Rightarrow> string \<Rightarrow> string option \<Rightarrow> (string \<times> string \<times> string) list \<Rightarrow> chat_state \<Rightarrow> (string \<times> string) \<times> chat_state" where
  "classify_and_dispatch w i t channel requested_by history st =
    (case maybe_route_to_organization w t channel requested_by st of
       (Some rid, st1) \<Rightarrow> watch_run_and_reply w i rid st1
     | (None, st1) \<Rightarrow> generate_and_store_reply w i history t st1)"

section \<open>The endpoints\<close>

definition channel_history :: "(chat_message \<Rightarrow> bool) \<Rightarrow> chat_state \<Rightarrow> (string \<times> string \<times> string) list" where
  "channel_history P st = map (\<lambda>m. (cm_role m, cm_content m, cm_status m)) (sort_key cm_created_at (filter P (ch_messages st)))"

definition list_messages :: "string \<Rightarrow> chat_state \<Rightarrow> chat_message list" where
  "list_messages channel st = sort_key cm_created_at (filter (\<lambda>m. cm_channel m = channel) (ch_messages st))"

text \<open>The two rows of an exchange: the text of the user, and the answer that is still to come.\<close>
definition add_exchange :: "chat_world \<Rightarrow> string \<Rightarrow> string \<Rightarrow> json option \<Rightarrow> nat option \<Rightarrow> chat_state \<Rightarrow> chat_message \<times> chat_state" where
  "add_exchange w channel t mdata event st =
    (let user = \<lparr>cm_id = ch_next st, cm_role = ''user'', cm_content = t, cm_status = ''Completed'', cm_error = None, cm_channel = channel,
           cm_metadata = mdata, cm_webhook_event_id = event, cm_created_at = e_now (cw_env w)\<rparr>;
         assistant = user\<lparr>cm_id := Suc (ch_next st), cm_role := ''assistant'', cm_content := [], cm_status := ''Pending''\<rparr> in
     (assistant, st\<lparr>ch_messages := ch_messages st @ [user, assistant], ch_next := Suc (Suc (ch_next st))\<rparr>))"

text \<open>What the thread of a message is started with.\<close>
record dispatch_call =
  dc_assistant :: nat
  dc_text :: string
  dc_channel :: string
  dc_requested_by :: "string option"
  dc_history :: "(string \<times> string \<times> string) list"

text \<open>\<open>None\<close> is the refusal of an empty message.\<close>
definition send_message :: "chat_world \<Rightarrow> string \<Rightarrow> chat_state \<Rightarrow> (chat_message \<times> dispatch_call) option \<times> chat_state" where
  "send_message w content st =
    (if strip content = [] then (None, st)
     else let history = channel_history (\<lambda>m. cm_channel m = ''Web'') st;
              (assistant, st1) = add_exchange w ''Web'' content None None st in
       (Some (assistant, \<lparr>dc_assistant = cm_id assistant, dc_text = content, dc_channel = ''Web'', dc_requested_by = None, dc_history = history\<rparr>), st1))"

definition run_dispatch :: "chat_world \<Rightarrow> dispatch_call \<Rightarrow> chat_state \<Rightarrow> (string \<times> string) \<times> chat_state" where
  "run_dispatch w c = classify_and_dispatch w (dc_assistant c) (dc_text c) (dc_channel c) (dc_requested_by c) (dc_history c)"

section \<open>What a dispatch does\<close>

lemma set_message_frame [simp]: "ch_db (set_message i f st) = ch_db st" "ch_next (set_message i f st) = ch_next st"
  by (simp_all add: set_message_def)

lemma compose_reply_status: "snd (compose_reply w rid s d) \<in> {''Completed'', ''Failed''}"
  by (auto simp: compose_reply_def Let_def split: option.splits run_status.splits)

text \<open>What a dispatch leaves of the messages: the row of the answer carries the reply, nothing else changed.\<close>
definition resolved :: "nat \<Rightarrow> string \<times> string \<Rightarrow> chat_state \<Rightarrow> chat_state \<Rightarrow> bool" where
  "resolved i r st st' \<longleftrightarrow> snd r \<in> {''Completed'', ''Failed''}
     \<and> (\<exists>f. ch_messages st' = update_where (\<lambda>m. cm_id m = i) f (ch_messages st) \<and> (\<forall>m. cm_id (f m) = cm_id m \<and> cm_content (f m) = fst r \<and> cm_status (f m) = snd r))"

lemma resolvedI:
  "snd r \<in> {''Completed'', ''Failed''} \<Longrightarrow> ch_messages st' = update_where (\<lambda>m. cm_id m = i) f (ch_messages st)
    \<Longrightarrow> (\<And>m. cm_id (f m) = cm_id m \<and> cm_content (f m) = fst r \<and> cm_status (f m) = snd r) \<Longrightarrow> resolved i r st st'"
  unfolding resolved_def by blast

lemma dispatch_resolved:
  assumes "classify_and_dispatch w i t channel rb history st = (r, st')" shows "resolved i r st st'"
proof -
  obtain route st1 where route: "maybe_route_to_organization w t channel rb st = (route, st1)" by fastforce
  have st1: "ch_messages st1 = ch_messages st"
    using route by (auto simp: maybe_route_to_organization_def Let_def split: bool.splits option.splits if_splits prod.splits)
  show ?thesis
  proof (cases route)
    case (Some rid)
    obtain reply s where c: "compose_reply w rid (watch_status rid None (cw_observed w rid)) (if cw_observed w rid = [] then ch_db st1 else last (cw_observed w rid)) = (reply, s)"
      by fastforce
    have "snd (reply, s) \<in> {''Completed'', ''Failed''}" using compose_reply_status by (metis c)
    moreover have "r = (reply, s)" "st' = set_message i (\<lambda>m. m\<lparr>cm_content := reply, cm_status := s\<rparr>) st1"
      using assms c by (simp_all add: classify_and_dispatch_def route Some watch_run_and_reply_def Let_def)
    ultimately show ?thesis by (intro resolvedI[where f = "\<lambda>m. m\<lparr>cm_content := reply, cm_status := s\<rparr>"]) (simp_all add: set_message_def st1)
  next
    case None
    show ?thesis
    proof (cases "is_agent_enabled (ch_db st1) ''ceo_agent_chat''")
      case False
      then show ?thesis using assms
        by (auto simp: classify_and_dispatch_def route None generate_and_store_reply_def fail_message_def set_message_def st1 intro!: resolvedI)
    next
      case True
      then show ?thesis using assms
        by (cases "cw_answer w (build_messages w history t)")
          (auto simp: classify_and_dispatch_def route None generate_and_store_reply_def fail_message_def set_message_def st1 intro!: resolvedI)
    qed
  qed
qed

text \<open>C20. Every message gets an answer: whatever the classifier and the language model do, whether a run is created, fails, is
  cancelled, cannot be planned or outlives the deadline, the thread of a message leaves its row \<open>Completed\<close> or \<open>Failed\<close>, with the
  text handed to the callback, and touches no other message.\<close>
theorem every_message_is_answered:
  assumes "send_message w content st = (Some (a, c), st1)" and "run_dispatch w' c st1 = ((reply, status), st2)"
    and "\<forall>m \<in> set (ch_messages st). cm_id m < ch_next st"
  shows "status \<in> {''Completed'', ''Failed''}
    \<and> (\<exists>m. row_by cm_id (cm_id a) (ch_messages st2) = Some m \<and> cm_status m = status \<and> cm_content m = reply)
    \<and> take (length (ch_messages st)) (ch_messages st2) = ch_messages st"
proof -
  obtain user where st1: "ch_messages st1 = ch_messages st @ [user, a]" "cm_id user = ch_next st" "cm_id a = Suc (ch_next st)" "dc_assistant c = cm_id a"
    using assms(1) by (auto simp: send_message_def add_exchange_def Let_def split: if_splits)
  obtain f where f: "ch_messages st2 = update_where (\<lambda>m. cm_id m = cm_id a) f (ch_messages st1)"
    "\<And>m. cm_id (f m) = cm_id m \<and> cm_content (f m) = reply \<and> cm_status (f m) = status" "status \<in> {''Completed'', ''Failed''}"
    using dispatch_resolved[OF assms(2)[unfolded run_dispatch_def]] st1(4) unfolding resolved_def by auto
  have old: "update_where (\<lambda>m. cm_id m = cm_id a) f (ch_messages st) = ch_messages st"
    using assms(3) st1(3) by (intro update_where_id) auto
  have "ch_messages st2 = ch_messages st @ [user, f a]"
    unfolding f(1) st1(1) using old st1(2,3) by (simp add: update_where_def)
  moreover have "row_by cm_id (cm_id a) (ch_messages st) = None" using assms(3) st1(3) by (auto simp: row_by_None_iff)
  ultimately show ?thesis using f(2)[of a] f(3) st1(2,3) by simp
qed

text \<open>Chat never starts work by itself: a run exists after the routing exactly when the classifier read an actionable
  objective in the message; it is one run, with that objective, the channel's source and the sender's name, and every
  other message (also every failure of the classifier) leaves the organisation untouched.\<close>
theorem runs_only_for_objectives:
  assumes "maybe_route_to_organization w t channel requested_by st = (r, st')"
  shows "ch_messages st' = ch_messages st \<and>
    (if \<exists>c obj. cw_classify w t = Some c \<and> cl_actionable c \<and> cl_objective c = Some obj \<and> obj \<noteq> []
     then \<exists>run. r = Some (run_id run) \<and> db_runs (ch_db st') = db_runs (ch_db st) @ [run] \<and> Some (run_objective run) = cl_objective (the (cw_classify w t))
       \<and> run_source_of run = source_of_channel channel \<and> run_requested_by run = requested_by \<and> run_tenant_id run = cw_tenant w
     else r = None \<and> st' = st)"
proof (cases "\<exists>c obj. cw_classify w t = Some c \<and> cl_actionable c \<and> cl_objective c = Some obj \<and> obj \<noteq> []")
  case True
  then obtain c obj where c: "cw_classify w t = Some c" "cl_actionable c" "cl_objective c = Some obj" "obj \<noteq> []" by blast
  obtain run auto d where run: "create_run (cw_env w) obj (source_of_channel channel) requested_by (cw_tenant w) True (ch_db st) = (run, auto, d)"
    by (metis prod_cases3)
  have "db_runs d = db_runs (ch_db st) @ [run]" "run_objective run = obj" "run_source_of run = source_of_channel channel"
    "run_requested_by run = requested_by" "run_tenant_id run = cw_tenant w"
    using run by (auto simp: create_run_def Let_def)
  moreover have "r = Some (run_id run)" "st' = st\<lparr>ch_db := d\<rparr>"
    using assms c run by (simp_all add: maybe_route_to_organization_def classify_message_def)
  ultimately show ?thesis using True c(1,3) by (auto simp del: split_paired_Ex)
next
  case False
  then have "r = None \<and> st' = st"
    using assms by (auto simp: maybe_route_to_organization_def classify_message_def Let_def split: option.splits bool.splits if_splits prod.splits)
  then show ?thesis using False by simp
qed

section \<open>Witnesses\<close>

definition sample_chat_world :: chat_world where
  "sample_chat_world = \<lparr>cw_env = sample_env, cw_classify = (\<lambda>t. if t = ''rank my risks'' then
       Some \<lparr>cl_actionable = True, cl_objective_classification = Some ''risk_ranking'', cl_objective = Some ''Rank the risks''\<rparr> else None),
     cw_answer = (\<lambda>_. Inr ''hello''), cw_system_prompt = [], cw_system_context = [], cw_py_str = (\<lambda>_. []), cw_tenant = 1, cw_observed = (\<lambda>_. [])\<rparr>"

definition empty_chat :: chat_state where
  "empty_chat = \<lparr>ch_db = empty_db, ch_messages = [], ch_next = 1\<rparr>"

lemma every_message_is_answered_witness:
  "\<exists>a c st1 st2. send_message sample_chat_world ''hi'' empty_chat = (Some (a, c), st1) \<and> run_dispatch sample_chat_world c st1 = ((''hello'', ''Completed''), st2)
    \<and> (\<exists>m. row_by cm_id (cm_id a) (ch_messages st2) = Some m \<and> cm_status m = ''Completed'')"
proof -
  have s: "strip ''hi'' \<noteq> []" by code_simp
  obtain a c st1 where send: "send_message sample_chat_world ''hi'' empty_chat = (Some (a, c), st1)" "dc_text c = ''hi''" "ch_db st1 = empty_db"
    using s by (auto simp: send_message_def add_exchange_def Let_def empty_chat_def)
  have "is_agent_enabled empty_db ''ceo_agent_chat''" by (simp add: is_agent_enabled_def control_row_def empty_db_def)
  then obtain st2 where d: "run_dispatch sample_chat_world c st1 = ((''hello'', ''Completed''), st2)"
    using send(2,3) by (simp add: run_dispatch_def classify_and_dispatch_def maybe_route_to_organization_def classify_message_def
      generate_and_store_reply_def sample_chat_world_def)
  have "\<forall>m \<in> set (ch_messages empty_chat). cm_id m < ch_next empty_chat" by (simp add: empty_chat_def)
  then show ?thesis using every_message_is_answered[OF send(1) d] send(1) d by blast
qed

lemma runs_only_for_objectives_witness:
  "\<exists>rid st'. maybe_route_to_organization sample_chat_world ''rank my risks'' ''Telegram'' None empty_chat = (Some rid, st')
    \<and> map run_source_of (db_runs (ch_db st')) = [SRC_TELEGRAM]"
proof -
  obtain r st' where m: "maybe_route_to_organization sample_chat_world ''rank my risks'' ''Telegram'' None empty_chat = (r, st')" by fastforce
  have "source_of_channel ''Telegram'' = SRC_TELEGRAM" by code_simp
  then show ?thesis using runs_only_for_objectives[OF m] m by (auto simp: sample_chat_world_def empty_chat_def empty_db_def split: if_splits)
qed

end
