(* ===== verification/ApiLimits.thy ===== *)
theory ApiLimits
  imports Prelude PyText
begin

text \<open>
  Counting callers: the fixed-window limiter of the whole API with its middleware (\<open>src/core/api_rate_limit.py\<close>,
  \<open>src/core/rate_limit_middleware.py\<close>), the limiter and the replay guard of the webhooks (\<open>src/core/webhook_rate_limit.py\<close>,
  \<open>src/core/webhook_replay.py\<close>). The store is Redis as it is documented: keys with an optional expiry, \<open>INCR\<close>,
  \<open>EXPIRE NX\<close>, \<open>SET NX EX\<close>; a key past its expiry does not exist. Times are in seconds.
\<close>

section \<open>The store\<close>

record redis_entry =
  re_value :: nat
  re_expires_at :: "int option"

type_synonym redis = "(string, redis_entry) dict"

definition redis_get :: "int \<Rightarrow> string \<Rightarrow> redis \<Rightarrow> redis_entry option" where
  "redis_get t k R =
    (case dict_get R k of None \<Rightarrow> None
     | Some e \<Rightarrow> (case re_expires_at e of None \<Rightarrow> Some e | Some x \<Rightarrow> if t < x then Some e else None))"

definition redis_incr :: "int \<Rightarrow> string \<Rightarrow> redis \<Rightarrow> nat \<times> redis" where
  "redis_incr t k R =
    (case redis_get t k R of
       None \<Rightarrow> (1, dict_set k \<lparr>re_value = 1, re_expires_at = None\<rparr> R)
     | Some e \<Rightarrow> (Suc (re_value e), dict_set k (e\<lparr>re_value := Suc (re_value e)\<rparr>) R))"

definition redis_expire_nx :: "int \<Rightarrow> string \<Rightarrow> int \<Rightarrow> redis \<Rightarrow> redis" where
  "redis_expire_nx t k ttl R =
    (case redis_get t k R of
       None \<Rightarrow> R
     | Some e \<Rightarrow> if re_expires_at e = None then dict_set k (e\<lparr>re_expires_at := Some (t + ttl)\<rparr>) R else R)"

definition redis_set_nx_ex :: "int \<Rightarrow> string \<Rightarrow> int \<Rightarrow> redis \<Rightarrow> bool \<times> redis" where
  "redis_set_nx_ex t k ttl R =
    (if redis_get t k R \<noteq> None then (False, R)
     else (True, dict_set k \<lparr>re_value = 1, re_expires_at = Some (t + ttl)\<rparr> R))"

section \<open>The limiter of the API\<close>

definition RATE_LIMIT_KEY_PREFIX :: string where "RATE_LIMIT_KEY_PREFIX = ''api:ratelimit''"

record rate_limit_result =
  rr_allowed :: bool
  rr_limit :: nat
  rr_remaining :: nat
  rr_reset_at :: int

definition window_bucket :: "int \<Rightarrow> int \<Rightarrow> int" where "window_bucket t window = t div window"

definition limit_key :: "string \<Rightarrow> int \<Rightarrow> int \<Rightarrow> string" where
  "limit_key caller t window = RATE_LIMIT_KEY_PREFIX @ '':'' @ caller @ '':'' @ show_int (window_bucket t window)"

definition reset_at :: "int \<Rightarrow> int \<Rightarrow> int" where "reset_at t window = (window_bucket t window + 1) * window"

text \<open>The count of a window with its expiry set on the first use.\<close>
definition count_use :: "int \<Rightarrow> string \<Rightarrow> int \<Rightarrow> redis \<Rightarrow> nat \<times> redis" where
  "count_use t k window R =
    (let (n, R1) = redis_incr t k R in (n, if n = 1 then redis_expire_nx t k window R1 else R1))"

definition consume :: "int \<Rightarrow> string \<Rightarrow> nat \<Rightarrow> int \<Rightarrow> redis \<Rightarrow> rate_limit_result \<times> redis" where
  "consume t caller limit window R =
    (let (n, R1) = count_use t (limit_key caller t window) window R in
     (\<lparr>rr_allowed = n \<le> limit, rr_limit = limit, rr_remaining = limit - n, rr_reset_at = reset_at t window\<rparr>, R1))"

definition peek :: "int \<Rightarrow> string \<Rightarrow> nat \<Rightarrow> int \<Rightarrow> redis \<Rightarrow> rate_limit_result" where
  "peek t caller limit window R =
    (let n = (case redis_get t (limit_key caller t window) R of None \<Rightarrow> 0 | Some e \<Rightarrow> re_value e) in
     \<lparr>rr_allowed = n \<le> limit, rr_limit = limit, rr_remaining = limit - n, rr_reset_at = reset_at t window\<rparr>)"

text \<open>\<open>str.split('.')\<close>.\<close>
fun split_dots :: "string \<Rightarrow> string list" where
  "split_dots [] = [[]]"
| "split_dots (c # cs) = (if c = CHR ''.'' then [] # split_dots cs else case split_dots cs of [] \<Rightarrow> [[c]] | p # ps \<Rightarrow> (c # p) # ps)"

definition padded :: "string \<Rightarrow> string" where
  "padded p = p @ replicate ((4 - length p mod 4) mod 4) (CHR ''='')"

text \<open>\<open>unverified_subject\<close>, given \<open>json.loads(base64.urlsafe_b64decode(_))\<close> and Python's \<open>str\<close>. The outer \<open>None\<close> of the
  result is the exception of a payload that is not an object, which is not caught.\<close>
definition unverified_subject :: "(string \<Rightarrow> json option) \<Rightarrow> (json \<Rightarrow> string) \<Rightarrow> string option \<Rightarrow> string option option" where
  "unverified_subject decode py_str header =
    (case header of
       None \<Rightarrow> Some None
     | Some h \<Rightarrow>
       if take 7 h \<noteq> ''Bearer '' then Some None
       else case split_dots (strip (drop 7 h)) of
         [_, payload, _] \<Rightarrow>
           (case decode (padded payload) of
              None \<Rightarrow> Some None
            | Some (JObj fs) \<Rightarrow>
                Some (case map_of fs ''sub'' of None \<Rightarrow> None | Some JNull \<Rightarrow> None | Some (JStr s) \<Rightarrow> Some s | Some j \<Rightarrow> Some (py_str j))
            | Some _ \<Rightarrow> None)
       | _ \<Rightarrow> Some None)"

definition EXEMPT_PATHS :: "string list" where "EXEMPT_PATHS = [''/health'', ''/_zap_test/reflect'']"

record limit_settings =
  lm_enabled :: bool
  lm_requests :: nat
  lm_window_seconds :: int

datatype verdict = Passed | Too_many_requests int | Middleware_crash

text \<open>The middleware: what becomes of a request before any handler sees it.\<close>
definition rate_limit_dispatch ::
  "limit_settings \<Rightarrow> (string \<Rightarrow> json option) \<Rightarrow> (json \<Rightarrow> string) \<Rightarrow> int \<Rightarrow> string \<Rightarrow> string option \<Rightarrow> string option \<Rightarrow> redis \<Rightarrow> verdict \<times> redis" where
  "rate_limit_dispatch s decode py_str t path authorization client_host R =
    (if \<not> lm_enabled s \<or> path \<in> set EXEMPT_PATHS then (Passed, R)
     else case unverified_subject decode py_str authorization of
         None \<Rightarrow> (Middleware_crash, R)
       | Some subject \<Rightarrow>
         (let host = (case client_host of Some h \<Rightarrow> h | None \<Rightarrow> ''unknown'');
              caller = (case subject of Some u \<Rightarrow> ''user:'' @ u | None \<Rightarrow> ''ip:'' @ host);
              (r, R1) = consume t caller (lm_requests s) (lm_window_seconds s) R in
          if \<not> rr_allowed r then (Too_many_requests (lm_window_seconds s), R1) else (Passed, R1)))"

section \<open>The limiter and the replay guard of the webhooks\<close>

definition WEBHOOK_LIMIT :: nat where "WEBHOOK_LIMIT = 10"
definition WEBHOOK_WINDOW_SECONDS :: int where "WEBHOOK_WINDOW_SECONDS = 60"
definition REPLAY_TTL_SECONDS :: int where "REPLAY_TTL_SECONDS = 24 * 60 * 60"

definition webhook_limit_key :: "string \<Rightarrow> string \<Rightarrow> int \<Rightarrow> string" where
  "webhook_limit_key channel chat t =
    ''webhook:ratelimit:'' @ channel @ '':'' @ chat @ '':'' @ show_int (window_bucket t WEBHOOK_WINDOW_SECONDS)"

definition check_rate_limit :: "int \<Rightarrow> string \<Rightarrow> string \<Rightarrow> redis \<Rightarrow> bool \<times> redis" where
  "check_rate_limit t channel chat R =
    (let (n, R1) = count_use t (webhook_limit_key channel chat t) WEBHOOK_WINDOW_SECONDS R in (n \<le> WEBHOOK_LIMIT, R1))"

definition replay_key :: "string \<Rightarrow> string \<Rightarrow> string" where
  "replay_key channel message = ''webhook:seen:'' @ channel @ '':'' @ message"

definition is_replay :: "int \<Rightarrow> string \<Rightarrow> string \<Rightarrow> redis \<Rightarrow> bool \<times> redis" where
  "is_replay t channel message R =
    (let (was_set, R1) = redis_set_nx_ex t (replay_key channel message) REPLAY_TTL_SECONDS R in (\<not> was_set, R1))"

section \<open>Counting is exact\<close>

definition used :: "int \<Rightarrow> string \<Rightarrow> redis \<Rightarrow> nat" where
  "used t k R = (case redis_get t k R of None \<Rightarrow> 0 | Some e \<Rightarrow> re_value e)"

text \<open>A counter that was written in the window of \<open>t\<close> lives until that window has passed.\<close>
definition counter_ok :: "int \<Rightarrow> int \<Rightarrow> string \<Rightarrow> redis \<Rightarrow> bool" where
  "counter_ok window b k R \<longleftrightarrow> (\<forall>e. dict_get R k = Some e \<longrightarrow> 0 < re_value e \<and> (\<exists>x. re_expires_at e = Some x \<and> (b + 1) * window \<le> x))"

lemma in_window: "0 < window \<Longrightarrow> window_bucket t window = b \<Longrightarrow> b * window \<le> t \<and> t < (b + 1) * window"
  unfolding window_bucket_def
  by (metis add.commute div_mult_mod_eq distrib_right less_add_same_cancel1 mult.commute mult_1 pos_mod_bound add_less_cancel_left pos_mod_sign le_add_same_cancel1)

lemma count_use_used:
  assumes "0 < window" "window_bucket t window = b" "counter_ok window b k R"
  shows "fst (count_use t k window R) = Suc (used t k R)" "counter_ok window b k (snd (count_use t k window R))"
    "dict_get (snd (count_use t k window R)) k' = (if k' = k then dict_get (snd (count_use t k window R)) k else dict_get R k')"
proof -
  note w = in_window[OF assms(1,2)]
  have new: "(b + 1) * window \<le> t + window" using w by (simp add: algebra_simps)
  show "fst (count_use t k window R) = Suc (used t k R)"
    by (simp add: count_use_def redis_incr_def used_def split: option.splits)
  show "counter_ok window b k (snd (count_use t k window R))"
    using assms(3) new assms(1)
    by (auto simp: count_use_def redis_incr_def counter_ok_def redis_expire_nx_def redis_get_def split: option.splits if_splits)
  show "dict_get (snd (count_use t k window R)) k' = (if k' = k then dict_get (snd (count_use t k window R)) k else dict_get R k')"
    by (simp add: count_use_def redis_incr_def redis_expire_nx_def split: option.splits)
qed

definition held :: "string \<Rightarrow> redis \<Rightarrow> nat" where
  "held k R = (case dict_get R k of None \<Rightarrow> 0 | Some e \<Rightarrow> re_value e)"

lemma used_held:
  assumes "0 < window" "window_bucket t window = b" "counter_ok window b k R" shows "used t k R = held k R"
  using in_window[OF assms(1,2)] assms(3)
  by (auto simp: used_def held_def redis_get_def counter_ok_def split: option.splits)

lemma count_use_held:
  assumes "0 < window" "window_bucket t window = b" "counter_ok window b k R"
  shows "held k (snd (count_use t k window R)) = Suc (held k R)"
proof -
  have "held k (snd (count_use t k window R)) = Suc (used t k R)"
    by (auto simp: held_def count_use_def redis_incr_def redis_expire_nx_def used_def redis_get_def split: option.splits)
  then show ?thesis using used_held[OF assms] by simp
qed

definition caller_key :: "string \<Rightarrow> int \<Rightarrow> string" where
  "caller_key caller b = RATE_LIMIT_KEY_PREFIX @ '':'' @ caller @ '':'' @ show_int b"

lemma caller_key_inject [simp]: "caller_key c b = caller_key c' b \<longleftrightarrow> c = c'"
  by (simp add: caller_key_def)

lemma limit_key_caller: "window_bucket t window = b \<Longrightarrow> limit_key c t window = caller_key c b"
  by (simp add: limit_key_def caller_key_def)

text \<open>The requests of all callers, in the order the store sees them: who asked and whether the request passed.\<close>
fun serve :: "nat \<Rightarrow> int \<Rightarrow> (int \<times> string) list \<Rightarrow> redis \<Rightarrow> (string \<times> bool) list" where
  "serve limit window [] R = []"
| "serve limit window ((t, c) # reqs) R =
    (let (r, R') = consume t c limit window R in (c, rr_allowed r) # serve limit window reqs R')"

definition window_store :: "int \<Rightarrow> int \<Rightarrow> redis \<Rightarrow> bool" where
  "window_store window b R \<longleftrightarrow> (\<forall>c. counter_ok window b (caller_key c b) R)"

lemma consume_in_window:
  assumes "0 < window" "window_bucket t window = b" "window_store window b R" "consume t c limit window R = (r, R')"
  shows "rr_allowed r = (held (caller_key c b) R < limit)" "window_store window b R'"
    "held (caller_key c' b) R' = (if c' = c then Suc (held (caller_key c b) R) else held (caller_key c' b) R)"
proof -
  let ?k = "caller_key c b"
  have ok: "counter_ok window b ?k R" using assms(3) by (simp add: window_store_def)
  note u = count_use_used[OF assms(1,2) ok] and uh = used_held[OF assms(1,2) ok] and ch = count_use_held[OF assms(1,2) ok]
  have R': "R' = snd (count_use t ?k window R)" and r: "rr_allowed r = (fst (count_use t ?k window R) \<le> limit)"
    using assms(4) by (auto simp: consume_def limit_key_caller[OF assms(2)] Let_def split: prod.splits)
  show "rr_allowed r = (held ?k R < limit)" using r u(1) uh by auto
  have other: "dict_get R' (caller_key d b) = dict_get R (caller_key d b)" if "d \<noteq> c" for d
    using u(3)[of "caller_key d b"] that unfolding R' by simp
  have "counter_ok window b (caller_key d b) R'" for d
    using u(2) other[of d] assms(3) unfolding R' window_store_def by (cases "d = c") (auto simp: counter_ok_def)
  then show "window_store window b R'" by (simp add: window_store_def)
  show "held (caller_key c' b) R' = (if c' = c then Suc (held ?k R) else held (caller_key c' b) R)"
    using ch other[of c'] unfolding R' by (simp add: held_def)
qed

text \<open>C19. The limiter is exact: within one window, whatever the other callers do in between, a caller's requests pass until
  the limit is used up and not one passes after that; one caller's use never costs another anything.\<close>
theorem rate_limit_exact:
  assumes "0 < window" and "window_store window b R" and "\<And>t c. (t, c) \<in> set reqs \<Longrightarrow> window_bucket t window = b"
  shows "map snd (filter (\<lambda>x. fst x = c) (serve limit window reqs R))
    = map (\<lambda>i. i + held (caller_key c b) R < limit) [0..<length (filter (\<lambda>x. snd x = c) reqs)]"
  using assms(2,3)
proof (induction reqs arbitrary: R)
  case (Cons q reqs)
  obtain t d where q: "q = (t, d)" by (cases q)
  obtain r R' where r: "consume t d limit window R = (r, R')" by fastforce
  have b: "window_bucket t window = b" by (rule Cons.prems(2)[of t d]) (simp add: q)
  note c = consume_in_window[OF assms(1) b Cons.prems(1) r]
  have IH: "map snd (filter (\<lambda>x. fst x = c) (serve limit window reqs R'))
    = map (\<lambda>i. i + held (caller_key c b) R' < limit) [0..<length (filter (\<lambda>x. snd x = c) reqs)]"
    by (rule Cons.IH[OF c(2)]) (use Cons.prems(2) in auto)
  have shift: "map f [0..<Suc n] = f 0 # map (\<lambda>i. f (Suc i)) [0..<n]" for f :: "nat \<Rightarrow> bool" and n
    by (simp add: upt_conv_Cons map_Suc_upt[symmetric] del: upt_Suc)
  show ?case
  proof (cases "d = c")
    case True
    then show ?thesis using IH c(1) c(3)[of c] by (simp add: q r[unfolded True] shift del: upt_Suc)
  next
    case False
    then show ?thesis using IH c(3)[of c] by (simp add: q r)
  qed
qed simp

text \<open>Reading the budget promises one request too many: when the limit is exactly used up \<open>peek\<close> still reports that
  the caller is allowed, with nothing remaining, and the next request is refused.\<close>
theorem peek_allows_when_spent:
  assumes "0 < window" and "window_bucket t window = b" and "window_store window b R" and "held (caller_key c b) R = limit"
  shows "rr_allowed (peek t c limit window R) \<and> rr_remaining (peek t c limit window R) = 0 \<and> \<not> rr_allowed (fst (consume t c limit window R))"
proof -
  have "used t (caller_key c b) R = limit" using used_held[OF assms(1,2)] assms(3,4) by (simp add: window_store_def)
  then have "rr_allowed (peek t c limit window R) \<and> rr_remaining (peek t c limit window R) = 0"
    by (simp add: peek_def limit_key_caller[OF assms(2)] used_def Let_def)
  moreover obtain r R' where "consume t c limit window R = (r, R')" by fastforce
  ultimately show ?thesis using consume_in_window(1)[OF assms(1,2,3)] assms(4) by fastforce
qed

section \<open>Replays\<close>

lemma is_replay_first:
  "is_replay t ch m R = (False, R') \<Longrightarrow> dict_get R' (replay_key ch m) = Some \<lparr>re_value = 1, re_expires_at = Some (t + REPLAY_TTL_SECONDS)\<rparr>"
  by (auto simp: is_replay_def redis_set_nx_ex_def split: if_splits)

lemma is_replay_again:
  assumes "dict_get R (replay_key ch m) = Some \<lparr>re_value = 1, re_expires_at = Some x\<rparr>" "t < x"
  shows "is_replay t ch m R = (True, R)"
  using assms by (simp add: is_replay_def redis_set_nx_ex_def redis_get_def)

lemma keys_differ: "webhook_limit_key ch c t \<noteq> replay_key ch' m"
  by (simp add: webhook_limit_key_def replay_key_def)

lemma check_rate_limit_keeps:
  "dict_get (snd (check_rate_limit t ch c R)) (replay_key ch' m) = dict_get R (replay_key ch' m)"
  using keys_differ[of ch c t ch' m]
  by (auto simp: check_rate_limit_def count_use_def redis_incr_def redis_expire_nx_def Let_def split: option.splits prod.splits)

text \<open>A token anyone can write down, with the payload \<open>[]\<close>, ends the request in an exception.\<close>
lemma list_payload_crashes:
  assumes "decode ''W10='' = Some (JArr [])" and "lm_enabled s" and "path \<notin> set EXEMPT_PATHS"
  shows "rate_limit_dispatch s decode py_str t path (Some ''Bearer x.W10.x'') host R = (Middleware_crash, R)"
proof -
  have "split_dots (strip (drop 7 ''Bearer x.W10.x'')) = [''x'', ''W10'', ''x'']" "padded ''W10'' = ''W10=''" "take 7 ''Bearer x.W10.x'' = ''Bearer ''"
    by code_simp+
  then show ?thesis using assms by (simp add: rate_limit_dispatch_def unverified_subject_def del: drop_Cons_numeral take_Cons_numeral)
qed

section \<open>Witnesses\<close>

lemma empty_window_store: "window_store window b []"
  by (simp add: window_store_def counter_ok_def)

lemma rate_limit_exact_witness:
  "map snd (filter (\<lambda>x. fst x = ''user:a'') (serve 2 60 [(120, ''user:a''), (121, ''ip:x''), (130, ''user:a''), (179, ''user:a'')] [])) = [True, True, False]"
proof -
  let ?reqs = "[(120, ''user:a''), (121, ''ip:x''), (130, ''user:a''), (179, ''user:a'')] :: (int \<times> string) list"
  have "window_bucket t 60 = 2" if "(t, c) \<in> set ?reqs" for t c using that by (auto simp: window_bucket_def)
  then have "map snd (filter (\<lambda>x. fst x = ''user:a'') (serve 2 60 ?reqs []))
      = map (\<lambda>i. i + held (caller_key ''user:a'' 2) [] < 2) [0..<length (filter (\<lambda>x. snd x = ''user:a'') ?reqs)]"
    by (intro rate_limit_exact[OF _ empty_window_store]) simp_all
  then show ?thesis by (simp add: held_def upt_rec del: serve.simps)
qed

lemma peek_allows_when_spent_witness:
  "rr_allowed (peek 130 ''user:a'' 1 60 (snd (consume 120 ''user:a'' 1 60 [])))
    \<and> \<not> rr_allowed (fst (consume 130 ''user:a'' 1 60 (snd (consume 120 ''user:a'' 1 60 []))))"
proof -
  obtain r R' where r: "consume 120 ''user:a'' 1 60 [] = (r, R')" by fastforce
  note c = consume_in_window[OF _ _ empty_window_store r, of 2]
  have "held (caller_key ''user:a'' 2) R' = 1" "window_store 60 2 R'" using c(2) c(3)[of "''user:a''"] by (simp_all add: window_bucket_def held_def)
  then show ?thesis using peek_allows_when_spent[of 60 130 2 R' "''user:a''" 1] by (simp add: r[unfolded One_nat_def] window_bucket_def)
qed

end
