(* ===== verification/Gateway.thy ===== *)
theory Gateway
  imports Chat Access ApiLimits
begin

text \<open>
  The webhooks of Telegram, Discord and Slack (\<open>src/api/routers/webhooks.py\<close>, \<open>src/core/webhook_security.py\<close>): the checks
  of a request in their order, the identity of the sender, and the hand-over of the message to the chat. The signature
  primitives (Ed25519, HMAC), the parsing of a float and the delivery of a reply are parameters. A time is in seconds.
\<close>

section \<open>State\<close>

record notification_channel =
  nc_user_id :: nat
  nc_channel_type :: string
  nc_external_handle :: string
  nc_is_verified :: bool

record webhook_event =
  we_id :: nat
  we_channel :: string
  we_raw :: json
  we_routed_to_agent :: "string option"
  we_response_sent :: "string option"
  we_received_at :: int

record gateway =
  gw_chat :: chat_state
  gw_redis :: redis
  gw_events :: "webhook_event list"
  gw_bindings :: "notification_channel list"
  gw_users :: "user_row list"
  gw_calls :: "dispatch_call list"
  gw_next :: nat

record gateway_world =
  gq_chat :: chat_world
  gq_time :: real
  gq_vault_secret :: "string \<Rightarrow> (string, string) dict option"
  gq_settings_secret :: "string \<Rightarrow> string option"
  gq_ed25519 :: "string \<Rightarrow> string \<Rightarrow> string \<Rightarrow> bool"
  gq_hmac_hex :: "string \<Rightarrow> string \<Rightarrow> string"
  gq_float :: "string \<Rightarrow> real option"
  gq_notify :: "string \<Rightarrow> json \<Rightarrow> string \<Rightarrow> bool"

record webhook_request =
  wq_secret_token :: "string option"
  wq_signature :: "string option"
  wq_timestamp :: "string option"
  wq_raw_body :: string
  wq_body :: json

definition REPLAY_TIMESTAMP_SKEW_SECONDS :: real where "REPLAY_TIMESTAMP_SKEW_SECONDS = 5 * 60"
definition ROUTED_TO_AGENT :: string where "ROUTED_TO_AGENT = ''ceo_agent_chat''"

section \<open>Signatures\<close>

definition verify_telegram_secret_token :: "string option \<Rightarrow> string \<Rightarrow> bool" where
  "verify_telegram_secret_token header expected = (case header of None \<Rightarrow> False | Some h \<Rightarrow> h = expected)"

text \<open>\<open>bytes.fromhex\<close>: pairs of digits, blanks between them; \<open>None\<close> is the \<open>ValueError\<close>.\<close>
fun from_hex :: "string \<Rightarrow> string option" where
  "from_hex [] = Some []"
| "from_hex [c] = (if is_space c then Some [] else None)"
| "from_hex (c # d # cs) =
    (if is_space c then from_hex (d # cs)
     else case (digit_value c, digit_value d) of
       (Some x, Some y) \<Rightarrow> map_option ((#) (char_of (16 * x + y))) (from_hex cs)
     | _ \<Rightarrow> None)"

definition verify_discord_signature :: "gateway_world \<Rightarrow> string \<Rightarrow> string option \<Rightarrow> string option \<Rightarrow> string \<Rightarrow> bool" where
  "verify_discord_signature w raw signature timestamp key =
    (case (signature, timestamp) of
       (Some s, Some t) \<Rightarrow>
         (case (from_hex s, from_hex key) of
            (Some sig, Some k) \<Rightarrow> gq_ed25519 w k sig (t @ raw)
          | _ \<Rightarrow> False)
     | _ \<Rightarrow> False)"

definition verify_slack_signature :: "gateway_world \<Rightarrow> string \<Rightarrow> string option \<Rightarrow> string option \<Rightarrow> string \<Rightarrow> bool" where
  "verify_slack_signature w raw header timestamp secret =
    (case (header, timestamp) of
       (Some h, Some t) \<Rightarrow> take 3 h = ''v0='' \<and> h = ''v0='' @ gq_hmac_hex w secret (''v0:'' @ t @ '':'' @ raw)
     | _ \<Rightarrow> False)"

text \<open>The secret of a channel: Vault first, the settings otherwise; an empty text counts as missing.\<close>
definition webhook_secret :: "gateway_world \<Rightarrow> string \<Rightarrow> string \<Rightarrow> string option" where
  "webhook_secret w channel field =
    (case (case gq_vault_secret w channel of None \<Rightarrow> None | Some d \<Rightarrow> dict_get d field) of
       Some s \<Rightarrow> if s \<noteq> [] then Some s else (case gq_settings_secret w channel of Some [] \<Rightarrow> None | x \<Rightarrow> x)
     | None \<Rightarrow> (case gq_settings_secret w channel of Some [] \<Rightarrow> None | x \<Rightarrow> x))"

section \<open>Senders and events\<close>

definition resolve_sender :: "string \<Rightarrow> string \<Rightarrow> gateway \<Rightarrow> user_row option" where
  "resolve_sender channel handle st =
    (case List.find (\<lambda>b. nc_channel_type b = channel \<and> nc_external_handle b = handle \<and> nc_is_verified b) (gw_bindings st) of
       None \<Rightarrow> None
     | Some b \<Rightarrow> (case row_by us_id (nc_user_id b) (gw_users st) of None \<Rightarrow> None | Some u \<Rightarrow> if us_is_active u then Some u else None))"

definition record_event :: "gateway_world \<Rightarrow> string \<Rightarrow> json \<Rightarrow> gateway \<Rightarrow> nat \<times> gateway" where
  "record_event w channel raw st =
    (gw_next st, st\<lparr>gw_events := gw_events st @ [\<lparr>we_id = gw_next st, we_channel = channel, we_raw = raw, we_routed_to_agent = None,
        we_response_sent = None, we_received_at = e_now (cw_env (gq_chat w))\<rparr>], gw_next := Suc (gw_next st)\<rparr>)"

definition set_event :: "nat \<Rightarrow> (webhook_event \<Rightarrow> webhook_event) \<Rightarrow> gateway \<Rightarrow> gateway" where
  "set_event i f st = st\<lparr>gw_events := update_where (\<lambda>e. we_id e = i) f (gw_events st)\<rparr>"

definition mark_event_routed :: "nat \<Rightarrow> gateway \<Rightarrow> gateway" where
  "mark_event_routed i = set_event i (\<lambda>e. e\<lparr>we_routed_to_agent := Some ROUTED_TO_AGENT\<rparr>)"

definition mark_event_response_sent :: "nat \<Rightarrow> string \<Rightarrow> gateway \<Rightarrow> gateway" where
  "mark_event_response_sent i reply = set_event i (\<lambda>e. e\<lparr>we_response_sent := Some (take 500 reply)\<rparr>)"

text \<open>The message goes into the thread of its external chat, and a background thread is started for it.\<close>
definition record_event_and_route ::
  "gateway_world \<Rightarrow> string \<Rightarrow> json \<Rightarrow> string \<Rightarrow> string \<Rightarrow> (string \<times> json) list \<Rightarrow> string \<Rightarrow> gateway \<Rightarrow> nat \<times> gateway" where
  "record_event_and_route w channel raw key t metadata requested_by st =
    (let (event, st1) = record_event w channel raw st;
         st2 = mark_event_routed event st1;
         in_thread = (\<lambda>m. cm_channel m = channel \<and> (case cm_metadata m of None \<Rightarrow> False | Some j \<Rightarrow> json_get j ''chat_key'' = Some (JStr key)));
         history = channel_history in_thread (gw_chat st2);
         (assistant, chat) = add_exchange (gq_chat w) channel t (Some (JObj ((''chat_key'', JStr key) # metadata))) (Some event) (gw_chat st2) in
     (event, st2\<lparr>gw_chat := chat, gw_calls := gw_calls st2 @ [\<lparr>dc_assistant = cm_id assistant, dc_text = t, dc_channel = channel,
        dc_requested_by = Some requested_by, dc_history = history\<rparr>]\<rparr>))"

text \<open>The callback of the thread: a reply is sent only while the notification agent is enabled, and noted when it was.\<close>
definition on_complete :: "gateway_world \<Rightarrow> nat \<Rightarrow> string \<Rightarrow> json \<Rightarrow> string \<Rightarrow> string \<Rightarrow> gateway \<Rightarrow> gateway" where
  "on_complete w event channel notify_kwargs reply status st =
    (if status \<noteq> ''Completed'' \<or> reply = [] then st
     else if \<not> is_agent_enabled (ch_db (gw_chat st)) ''notification_agent'' then st
     else if gq_notify w channel notify_kwargs reply then mark_event_response_sent event reply st
     else st)"

section \<open>Requests\<close>

text \<open>\<open>j.get(k, default)\<close>; \<open>None\<close> is the exception on a value that is not an object.\<close>
definition get_or :: "json \<Rightarrow> string \<Rightarrow> json \<Rightarrow> json option" where
  "get_or j k d = (case j of JObj fs \<Rightarrow> Some (case map_of fs k of None \<Rightarrow> d | Some v \<Rightarrow> v) | _ \<Rightarrow> None)"

definition equals_int :: "json \<Rightarrow> int \<Rightarrow> bool" where
  "equals_int j n = (case j of JInt i \<Rightarrow> i = n | JFloat x \<Rightarrow> x = real_of_int n | JBool b \<Rightarrow> (if b then 1 else 0) = n | _ \<Rightarrow> False)"

type_synonym webhook_reply = "api_failure + json"

definition reply_ok :: json where "reply_ok = JObj [(''ok'', JBool True)]"
definition reply_empty :: json where "reply_empty = JObj [(''type'', JInt 4), (''data'', JObj [(''content'', JStr [])])]"

text \<open>The replay guard and then the limiter, which both keep what they wrote; the limiter's key may raise.\<close>
definition admit ::
  "gateway_world \<Rightarrow> string \<Rightarrow> string \<Rightarrow> string option \<Rightarrow> json \<Rightarrow> (string \<Rightarrow> gateway \<Rightarrow> webhook_reply \<times> gateway) \<Rightarrow> gateway \<Rightarrow> webhook_reply \<times> gateway" where
  "admit w channel message chat answer continue st =
    (let (seen, R1) = is_replay \<lfloor>gq_time w\<rfloor> channel message (gw_redis st); st1 = st\<lparr>gw_redis := R1\<rparr> in
     if seen then (Inr answer, st1)
     else case chat of
         None \<Rightarrow> (Inl Uncaught, st1)
       | Some c \<Rightarrow>
         (let (ok, R2) = check_rate_limit \<lfloor>gq_time w\<rfloor> channel c R1; st2 = st1\<lparr>gw_redis := R2\<rparr> in
          if \<not> ok then (Inl (Status 429), st2) else continue c st2))"

text \<open>A message that reached the end of the checks: without a text it is only recorded, so is one of an unknown sender. The
  sender's key may raise; a text that is not a string cannot be stored.\<close>
definition route_message ::
  "gateway_world \<Rightarrow> string \<Rightarrow> json \<Rightarrow> json \<Rightarrow> string option \<Rightarrow> string \<Rightarrow> (string \<Rightarrow> (string \<times> json) list) \<Rightarrow> json \<Rightarrow> json \<Rightarrow> gateway \<Rightarrow> webhook_reply \<times> gateway" where
  "route_message w channel body t sender key metadata unrouted routed st =
    (if \<not> json_truthy t then (Inr unrouted, snd (record_event w channel body st))
     else case sender of
         None \<Rightarrow> (Inl Uncaught, st)
       | Some handle \<Rightarrow>
         (case resolve_sender channel handle st of
            None \<Rightarrow> (Inr unrouted, snd (record_event w channel body st))
          | Some u \<Rightarrow>
            (case t of
               JStr s \<Rightarrow> (Inr routed, snd (record_event_and_route w channel body key s (metadata handle) (us_email u) st))
             | _ \<Rightarrow> (Inl Uncaught, (case record_event w channel body st of (e, st1) \<Rightarrow> mark_event_routed e st1)))))"

definition telegram_chat_id :: "gateway_world \<Rightarrow> json \<Rightarrow> string option" where
  "telegram_chat_id w body =
    Option.bind (get_or body ''message'' (JObj [])) (\<lambda>m. Option.bind (get_or m ''chat'' (JObj [])) (\<lambda>c.
      map_option (py_text (gq_chat w)) (get_or c ''id'' (JStr ''unknown''))))"

definition telegram_webhook :: "gateway_world \<Rightarrow> webhook_request \<Rightarrow> gateway \<Rightarrow> webhook_reply \<times> gateway" where
  "telegram_webhook w q st =
    (case webhook_secret w ''telegram'' ''secret_token'' of
       None \<Rightarrow> (Inl (Status 503), st)
     | Some secret \<Rightarrow>
       if \<not> verify_telegram_secret_token (wq_secret_token q) secret then (Inl (Status 401), st)
       else case get_or (wq_body q) ''update_id'' JNull of
           None \<Rightarrow> (Inl Uncaught, st)
         | Some update \<Rightarrow>
           if update = JNull then (Inl (Status 400), st)
           else admit w ''telegram'' (py_text (gq_chat w) update) (telegram_chat_id w (wq_body q)) reply_ok
             (\<lambda>chat st. route_message w ''Telegram'' (wq_body q)
                (case json_get (case json_get (wq_body q) ''message'' of Some m \<Rightarrow> m | None \<Rightarrow> JObj []) ''text'' of Some t \<Rightarrow> t | None \<Rightarrow> JNull)
                (Some chat) chat (\<lambda>_. [(''chat_id'', JStr chat)]) reply_ok reply_ok st) st)"

text \<open>The checks of the timestamp of Discord and Slack, after the signature.\<close>
definition within_skew :: "gateway_world \<Rightarrow> string option \<Rightarrow> bool option" where
  "within_skew w timestamp =
    (case timestamp of None \<Rightarrow> None
     | Some t \<Rightarrow> map_option (\<lambda>x. \<not> \<bar>gq_time w - x\<bar> > REPLAY_TIMESTAMP_SKEW_SECONDS) (gq_float w t))"

text \<open>The first option called \<open>message\<close> of a slash command. The outer \<open>None\<close> is an exception.\<close>
fun message_option :: "json list \<Rightarrow> json option option" where
  "message_option [] = Some None"
| "message_option (o1 # os) =
    (case o1 of
       JObj fs \<Rightarrow> if map_of fs ''name'' = Some (JStr ''message'')
         then (case map_of fs ''value'' of None \<Rightarrow> None | Some v \<Rightarrow> Some (Some v)) else message_option os
     | _ \<Rightarrow> None)"

definition discord_text :: "json \<Rightarrow> json option" where
  "discord_text body =
    (if \<not> equals_int (payload_field body ''type'') 2 then Some JNull
     else Option.bind (get_or body ''data'' (JObj [])) (\<lambda>d. Option.bind (get_or d ''options'' (JArr [])) (\<lambda>opts.
       case opts of JArr os \<Rightarrow> map_option (\<lambda>r. case r of None \<Rightarrow> JNull | Some v \<Rightarrow> v) (message_option os)
       | JObj [] \<Rightarrow> Some JNull | JStr [] \<Rightarrow> Some JNull | _ \<Rightarrow> None)))"

definition discord_user_id :: "gateway_world \<Rightarrow> json \<Rightarrow> string option" where
  "discord_user_id w body =
    Option.bind (get_or body ''member'' (JObj [])) (\<lambda>m. Option.bind (get_or m ''user'' (JObj [])) (\<lambda>u. Option.bind (get_or u ''id'' JNull) (\<lambda>i.
      if json_truthy i then Some (py_text (gq_chat w) i)
      else Option.bind (get_or body ''user'' (JObj [])) (\<lambda>u2. map_option (py_text (gq_chat w)) (get_or u2 ''id'' (JStr ''unknown''))))))"

definition discord_webhook :: "gateway_world \<Rightarrow> webhook_request \<Rightarrow> gateway \<Rightarrow> webhook_reply \<times> gateway" where
  "discord_webhook w q st =
    (case webhook_secret w ''discord'' ''public_key'' of
       None \<Rightarrow> (Inl (Status 503), st)
     | Some key \<Rightarrow>
       if \<not> verify_discord_signature w (wq_raw_body q) (wq_signature q) (wq_timestamp q) key then (Inl (Status 401), st)
       else case get_or (wq_body q) ''type'' JNull of
           None \<Rightarrow> (Inl Uncaught, st)
         | Some ty \<Rightarrow>
           if equals_int ty 1 then (Inr (JObj [(''type'', JInt 1)]), st)
           else case within_skew w (wq_timestamp q) of
               None \<Rightarrow> (Inl Uncaught, st)
             | Some False \<Rightarrow> (Inl (Status 401), st)
             | Some True \<Rightarrow>
               admit w ''discord'' (py_text (gq_chat w) (case json_get (wq_body q) ''id'' of Some i \<Rightarrow> i | None \<Rightarrow> JStr ''unknown''))
                 (map_option (py_text (gq_chat w)) (get_or (wq_body q) ''channel_id'' (JStr ''unknown''))) reply_empty
                 (\<lambda>chat st. case discord_text (wq_body q) of
                     None \<Rightarrow> (Inl Uncaught, st)
                   | Some t \<Rightarrow> route_message w ''Discord'' (wq_body q) t (discord_user_id w (wq_body q)) chat
                       (\<lambda>_. [(''channel_id'', JStr chat), (''application_id'', payload_field (wq_body q) ''application_id''),
                          (''interaction_token'', payload_field (wq_body q) ''token'')]) reply_empty (JObj [(''type'', JInt 5)]) st) st)"

definition slack_webhook :: "gateway_world \<Rightarrow> webhook_request \<Rightarrow> gateway \<Rightarrow> webhook_reply \<times> gateway" where
  "slack_webhook w q st =
    (case webhook_secret w ''slack'' ''signing_secret'' of
       None \<Rightarrow> (Inl (Status 503), st)
     | Some secret \<Rightarrow>
       if \<not> verify_slack_signature w (wq_raw_body q) (wq_signature q) (wq_timestamp q) secret then (Inl (Status 401), st)
       else case within_skew w (wq_timestamp q) of
           None \<Rightarrow> (Inl Uncaught, st)
         | Some False \<Rightarrow> (Inl (Status 401), st)
         | Some True \<Rightarrow>
           (case get_or (wq_body q) ''event'' (JObj []) of
              None \<Rightarrow> (Inl Uncaught, st)
            | Some event \<Rightarrow>
              if json_get (wq_body q) ''type'' = Some (JStr ''url_verification'')
              then (Inr (JObj [(''challenge'', payload_field (wq_body q) ''challenge'')]), st)
              else admit w ''slack'' (py_text (gq_chat w) (case json_get (wq_body q) ''event_id'' of Some i \<Rightarrow> i | None \<Rightarrow> JStr ''unknown''))
                (map_option (py_text (gq_chat w)) (get_or event ''channel'' (JStr ''unknown''))) reply_ok
                (\<lambda>chat st.
                   if json_get event ''type'' \<noteq> Some (JStr ''message'') \<or> json_truthy (payload_field event ''bot_id'')
                   then (Inr reply_ok, snd (record_event w ''Slack'' (wq_body q) st))
                   else route_message w ''Slack'' (wq_body q) (case json_get event ''text'' of Some t \<Rightarrow> t | None \<Rightarrow> JNull)
                     (map_option (py_text (gq_chat w)) (get_or event ''user'' (JStr ''unknown''))) chat
                     (\<lambda>handle. [(''channel_id'', JStr chat), (''slack_user_id'', JStr handle)]) reply_ok reply_ok st) st))"

section \<open>All platforms\<close>

datatype platform = Telegram | Discord | Slack

definition webhook :: "gateway_world \<Rightarrow> platform \<Rightarrow> webhook_request \<Rightarrow> gateway \<Rightarrow> webhook_reply \<times> gateway" where
  "webhook w p = (case p of Telegram \<Rightarrow> telegram_webhook w | Discord \<Rightarrow> discord_webhook w | Slack \<Rightarrow> slack_webhook w)"

definition platform_name :: "platform \<Rightarrow> string" where
  "platform_name p = (case p of Telegram \<Rightarrow> ''Telegram'' | Discord \<Rightarrow> ''Discord'' | Slack \<Rightarrow> ''Slack'')"

definition platform_key :: "platform \<Rightarrow> string" where
  "platform_key p = (case p of Telegram \<Rightarrow> ''telegram'' | Discord \<Rightarrow> ''discord'' | Slack \<Rightarrow> ''slack'')"

text \<open>The platform itself sent it, and it is not an old recording.\<close>
definition authentic :: "gateway_world \<Rightarrow> platform \<Rightarrow> webhook_request \<Rightarrow> bool" where
  "authentic w p q \<longleftrightarrow> (case p of
      Telegram \<Rightarrow> (case webhook_secret w ''telegram'' ''secret_token'' of None \<Rightarrow> False | Some s \<Rightarrow> verify_telegram_secret_token (wq_secret_token q) s)
    | Discord \<Rightarrow> (case webhook_secret w ''discord'' ''public_key'' of None \<Rightarrow> False
        | Some k \<Rightarrow> verify_discord_signature w (wq_raw_body q) (wq_signature q) (wq_timestamp q) k) \<and> within_skew w (wq_timestamp q) = Some True
    | Slack \<Rightarrow> (case webhook_secret w ''slack'' ''signing_secret'' of None \<Rightarrow> False
        | Some s \<Rightarrow> verify_slack_signature w (wq_raw_body q) (wq_signature q) (wq_timestamp q) s) \<and> within_skew w (wq_timestamp q) = Some True)"

text \<open>The identifier the platform gives a message; a handshake has none.\<close>
definition message_id :: "gateway_world \<Rightarrow> platform \<Rightarrow> json \<Rightarrow> string option" where
  "message_id w p body = (case p of
      Telegram \<Rightarrow> (case get_or body ''update_id'' JNull of None \<Rightarrow> None | Some u \<Rightarrow> if u = JNull then None else Some (py_text (gq_chat w) u))
    | Discord \<Rightarrow> (case get_or body ''type'' JNull of None \<Rightarrow> None
        | Some ty \<Rightarrow> if equals_int ty 1 then None
            else Some (py_text (gq_chat w) (case json_get body ''id'' of Some i \<Rightarrow> i | None \<Rightarrow> JStr ''unknown'')))
    | Slack \<Rightarrow> (case get_or body ''event'' (JObj []) of None \<Rightarrow> None
        | Some _ \<Rightarrow> if json_get body ''type'' = Some (JStr ''url_verification'') then None
            else Some (py_text (gq_chat w) (case json_get body ''event_id'' of Some i \<Rightarrow> i | None \<Rightarrow> JStr ''unknown''))))"

text \<open>What a request may add: nothing, or the message of a sender who is known.\<close>
definition adds_known_sender :: "string \<Rightarrow> gateway \<Rightarrow> gateway \<Rightarrow> bool" where
  "adds_known_sender channel st st' \<longleftrightarrow> gw_calls st' = gw_calls st \<or>
    (\<exists>c b u. gw_calls st' = gw_calls st @ [c] \<and> b \<in> set (gw_bindings st) \<and> nc_is_verified b \<and> nc_channel_type b = channel
      \<and> u \<in> set (gw_users st) \<and> us_id u = nc_user_id b \<and> us_is_active u
      \<and> dc_requested_by c = Some (us_email u) \<and> dc_text c \<noteq> [] \<and> dc_channel c = channel)"

lemma record_event_frame [simp]:
  "gw_calls (snd (record_event w ch raw st)) = gw_calls st" "gw_chat (snd (record_event w ch raw st)) = gw_chat st"
  "gw_redis (snd (record_event w ch raw st)) = gw_redis st"
  by (simp_all add: record_event_def)

lemma mark_event_routed_frame [simp]: "gw_calls (mark_event_routed i st) = gw_calls st" "gw_chat (mark_event_routed i st) = gw_chat st"
  by (simp_all add: mark_event_routed_def set_event_def)

lemma record_and_route_calls:
  "\<exists>c. gw_calls (snd (record_event_and_route w ch raw key t mdata email st)) = gw_calls st @ [c] \<and> dc_requested_by c = Some email \<and> dc_text c = t \<and> dc_channel c = ch"
  by (auto simp: record_event_and_route_def Let_def split: prod.splits) (auto simp: record_event_def)

lemma resolve_senderD:
  "resolve_sender ch h st = Some u \<Longrightarrow> \<exists>b \<in> set (gw_bindings st). nc_channel_type b = ch \<and> nc_is_verified b \<and> us_id u = nc_user_id b
     \<and> u \<in> set (gw_users st) \<and> us_is_active u"
  by (auto simp: resolve_sender_def find_Some_iff dest!: row_by_SomeD split: option.splits if_splits)

lemma route_message_adds:
  "adds_known_sender ch st (snd (route_message w ch body t sender key mdata unrouted routed st))"
proof (cases "json_truthy t \<and> (\<exists>h u s. sender = Some h \<and> resolve_sender ch h st = Some u \<and> t = JStr s)")
  case False
  then have "gw_calls (snd (route_message w ch body t sender key mdata unrouted routed st)) = gw_calls st"
    by (auto simp: route_message_def split: option.splits json.splits prod.splits) (auto simp: record_event_def)
  then show ?thesis by (simp add: adds_known_sender_def)
next
  case True
  then obtain h u s where h: "sender = Some h" "resolve_sender ch h st = Some u" "t = JStr s" "s \<noteq> []" by (auto simp: json_truthy_def)
  have st': "snd (route_message w ch body t sender key mdata unrouted routed st) = snd (record_event_and_route w ch body key s (mdata h) (us_email u) st)"
    using h by (simp add: route_message_def json_truthy_def)
  obtain c where "gw_calls (snd (route_message w ch body t sender key mdata unrouted routed st)) = gw_calls st @ [c]"
    "dc_requested_by c = Some (us_email u)" "dc_text c = s" "dc_channel c = ch"
    using record_and_route_calls[of w ch body key s "mdata h" "us_email u" st] unfolding st' by blast
  then show ?thesis using resolve_senderD[OF h(2)] h(4) unfolding adds_known_sender_def by metis
qed

lemma admit_adds:
  assumes "\<And>c st1. gw_calls st1 = gw_calls st \<Longrightarrow> gw_bindings st1 = gw_bindings st \<Longrightarrow> gw_users st1 = gw_users st \<Longrightarrow> adds_known_sender ch st1 (snd (continue c st1))"
  shows "adds_known_sender ch st (snd (admit w key m chat answer continue st))"
proof -
  have "adds_known_sender ch st st'" if "adds_known_sender ch st1 st'" "gw_calls st1 = gw_calls st" "gw_bindings st1 = gw_bindings st" "gw_users st1 = gw_users st" for st1 st'
    using that by (simp add: adds_known_sender_def)
  then have "adds_known_sender ch st (snd (continue c (st\<lparr>gw_redis := R\<rparr>)))" for c R using assms[of "st\<lparr>gw_redis := R\<rparr>" c] by simp
  moreover have "adds_known_sender ch st (st\<lparr>gw_redis := R\<rparr>)" for R by (simp add: adds_known_sender_def)
  ultimately show ?thesis by (auto simp: admit_def Let_def split: prod.splits option.splits)
qed

lemma same_adds: "gw_calls st' = gw_calls st \<Longrightarrow> adds_known_sender ch st st'"
  by (simp add: adds_known_sender_def)

lemma record_event_adds: "adds_known_sender ch st (snd (record_event w c raw st))"
  by (rule same_adds) simp

lemma adds_refl: "adds_known_sender ch st st"
  by (rule same_adds) simp

text \<open>What the rest of a request cannot touch.\<close>
lemma route_message_redis: "gw_redis (snd (route_message w ch body t sender key mdata a b st)) = gw_redis st"
  by (auto simp: route_message_def record_event_and_route_def record_event_def mark_event_routed_def set_event_def Let_def
      split: option.splits json.splits prod.splits)

lemma route_message_not_limited: "fst (route_message w ch body t sender key mdata a b st) \<noteq> Inl (Status 429)"
  by (auto simp: route_message_def split: option.splits json.splits)

text \<open>An authentic message goes through the guard; anything else changes nothing.\<close>
lemma telegram_admit:
  obtains "snd (telegram_webhook w q st) = st" "\<not> (authentic w Telegram q \<and> message_id w Telegram (wq_body q) \<noteq> None)"
      "fst (telegram_webhook w q st) \<noteq> Inl (Status 429)"
  | m chat answer continue where "authentic w Telegram q" "message_id w Telegram (wq_body q) = Some m"
      "\<And>st. telegram_webhook w q st = admit w ''telegram'' m chat answer continue st"
      "\<And>c st. adds_known_sender ''Telegram'' st (snd (continue c st))" "\<And>c st. gw_redis (snd (continue c st)) = gw_redis st"
      "\<And>c st. fst (continue c st) \<noteq> Inl (Status 429)"
proof (cases "authentic w Telegram q \<and> message_id w Telegram (wq_body q) \<noteq> None")
  case True
  then obtain s u m where s: "webhook_secret w ''telegram'' ''secret_token'' = Some s" "verify_telegram_secret_token (wq_secret_token q) s"
    and b: "get_or (wq_body q) ''update_id'' JNull = Some u" "u \<noteq> JNull" "message_id w Telegram (wq_body q) = Some m" "m = py_text (gq_chat w) u"
    by (auto simp: authentic_def message_id_def split: option.splits if_splits)
  show ?thesis by (rule that(2)[OF conjunct1[OF True] b(3)]) (auto simp: telegram_webhook_def s b route_message_redis route_message_not_limited intro: route_message_adds)
next
  case False
  have "snd (telegram_webhook w q st) = st \<and> fst (telegram_webhook w q st) \<noteq> Inl (Status 429)"
    using False by (auto simp: authentic_def message_id_def telegram_webhook_def split: option.splits if_splits)
  then show ?thesis using False that(1) by blast
qed

lemma discord_admit:
  obtains "snd (discord_webhook w q st) = st" "\<not> (authentic w Discord q \<and> message_id w Discord (wq_body q) \<noteq> None)"
      "fst (discord_webhook w q st) \<noteq> Inl (Status 429)"
  | m chat answer continue where "authentic w Discord q" "message_id w Discord (wq_body q) = Some m"
      "\<And>st. discord_webhook w q st = admit w ''discord'' m chat answer continue st"
      "\<And>c st. adds_known_sender ''Discord'' st (snd (continue c st))" "\<And>c st. gw_redis (snd (continue c st)) = gw_redis st"
      "\<And>c st. fst (continue c st) \<noteq> Inl (Status 429)"
proof (cases "authentic w Discord q \<and> message_id w Discord (wq_body q) \<noteq> None")
  case True
  then obtain k ty m where k: "webhook_secret w ''discord'' ''public_key'' = Some k"
      "verify_discord_signature w (wq_raw_body q) (wq_signature q) (wq_timestamp q) k" "within_skew w (wq_timestamp q) = Some True"
    and b: "get_or (wq_body q) ''type'' JNull = Some ty" "\<not> equals_int ty 1" "message_id w Discord (wq_body q) = Some m"
      "m = py_text (gq_chat w) (case json_get (wq_body q) ''id'' of Some i \<Rightarrow> i | None \<Rightarrow> JStr ''unknown'')"
    by (auto simp: authentic_def message_id_def split: option.splits if_splits)
  show ?thesis
    by (rule that(2)[OF conjunct1[OF True] b(3)])
      (auto simp: discord_webhook_def k b(1,2) b(4)[symmetric] route_message_redis route_message_not_limited split: option.splits intro!: route_message_adds adds_refl)
next
  case False
  have "snd (discord_webhook w q st) = st \<and> fst (discord_webhook w q st) \<noteq> Inl (Status 429)"
    using False
    by (cases "webhook_secret w ''discord'' ''public_key''"; cases "within_skew w (wq_timestamp q)"; cases "get_or (wq_body q) ''type'' JNull")
      (auto simp: authentic_def message_id_def discord_webhook_def split: bool.split)
  then show ?thesis using False that(1) by blast
qed

lemma slack_admit:
  obtains "snd (slack_webhook w q st) = st" "\<not> (authentic w Slack q \<and> message_id w Slack (wq_body q) \<noteq> None)"
      "fst (slack_webhook w q st) \<noteq> Inl (Status 429)"
  | m chat answer continue where "authentic w Slack q" "message_id w Slack (wq_body q) = Some m"
      "\<And>st. slack_webhook w q st = admit w ''slack'' m chat answer continue st"
      "\<And>c st. adds_known_sender ''Slack'' st (snd (continue c st))" "\<And>c st. gw_redis (snd (continue c st)) = gw_redis st"
      "\<And>c st. fst (continue c st) \<noteq> Inl (Status 429)"
proof (cases "authentic w Slack q \<and> message_id w Slack (wq_body q) \<noteq> None")
  case True
  then obtain k ev m where k: "webhook_secret w ''slack'' ''signing_secret'' = Some k"
      "verify_slack_signature w (wq_raw_body q) (wq_signature q) (wq_timestamp q) k" "within_skew w (wq_timestamp q) = Some True"
    and b: "get_or (wq_body q) ''event'' (JObj []) = Some ev" "json_get (wq_body q) ''type'' \<noteq> Some (JStr ''url_verification'')"
      "message_id w Slack (wq_body q) = Some m"
      "m = py_text (gq_chat w) (case json_get (wq_body q) ''event_id'' of Some i \<Rightarrow> i | None \<Rightarrow> JStr ''unknown'')"
    by (auto simp: authentic_def message_id_def split: option.splits if_splits)
  show ?thesis
    by (rule that(2)[OF conjunct1[OF True] b(3)])
      (auto simp: slack_webhook_def k b(1,2) b(4)[symmetric] route_message_redis route_message_not_limited split: if_splits intro!: route_message_adds record_event_adds)
next
  case False
  have "snd (slack_webhook w q st) = st \<and> fst (slack_webhook w q st) \<noteq> Inl (Status 429)"
    using False
    by (cases "webhook_secret w ''slack'' ''signing_secret''"; cases "within_skew w (wq_timestamp q)"; cases "get_or (wq_body q) ''event'' (JObj [])")
      (auto simp: authentic_def message_id_def slack_webhook_def split: bool.split)
  then show ?thesis using False that(1) by blast
qed

lemma webhook_admit:
  obtains "snd (webhook w p q st) = st" "\<not> (authentic w p q \<and> message_id w p (wq_body q) \<noteq> None)" "fst (webhook w p q st) \<noteq> Inl (Status 429)"
  | m chat answer continue where "authentic w p q" "message_id w p (wq_body q) = Some m"
      "\<And>st. webhook w p q st = admit w (platform_key p) m chat answer continue st"
      "\<And>c st. adds_known_sender (platform_name p) st (snd (continue c st))" "\<And>c st. gw_redis (snd (continue c st)) = gw_redis st"
      "\<And>c st. fst (continue c st) \<noteq> Inl (Status 429)"
proof (cases p)
  case Telegram
  show ?thesis by (rule telegram_admit[of w q st]) (use that Telegram in \<open>simp_all add: webhook_def platform_key_def platform_name_def\<close>)
next
  case Discord
  show ?thesis by (rule discord_admit[of w q st]) (use that Discord in \<open>simp_all add: webhook_def platform_key_def platform_name_def\<close>)
next
  case Slack
  show ?thesis by (rule slack_admit[of w q st]) (use that Slack in \<open>simp_all add: webhook_def platform_key_def platform_name_def\<close>)
qed

section \<open>What the gateway guarantees\<close>


definition seen_at :: "real \<Rightarrow> platform \<Rightarrow> string \<Rightarrow> gateway \<Rightarrow> bool" where
  "seen_at t p m st \<longleftrightarrow> redis_get \<lfloor>t\<rfloor> (replay_key (platform_key p) m) (gw_redis st) \<noteq> None"

definition remembers :: "real \<Rightarrow> platform \<Rightarrow> string \<Rightarrow> gateway \<Rightarrow> bool" where
  "remembers t p m st \<longleftrightarrow> dict_get (gw_redis st) (replay_key (platform_key p) m) = Some \<lparr>re_value = 1, re_expires_at = Some (\<lfloor>t\<rfloor> + REPLAY_TTL_SECONDS)\<rparr>"


lemma admit_remembers:
  assumes "\<And>c st. gw_redis (snd (continue c st)) = gw_redis st"
    and "redis_get \<lfloor>gq_time w\<rfloor> (replay_key ch m) (gw_redis st) = None"
  shows "dict_get (gw_redis (snd (admit w ch m chat answer continue st))) (replay_key ch m)
    = Some \<lparr>re_value = 1, re_expires_at = Some (\<lfloor>gq_time w\<rfloor> + REPLAY_TTL_SECONDS)\<rparr>"
proof -
  obtain R1 where R1: "is_replay \<lfloor>gq_time w\<rfloor> ch m (gw_redis st) = (False, R1)" using assms(2) by (simp add: is_replay_def redis_set_nx_ex_def)
  have "dict_get (snd (check_rate_limit t ch' c R1)) (replay_key ch m) = dict_get R1 (replay_key ch m)" for t ch' c by (rule check_rate_limit_keeps)
  then have "dict_get R2 (replay_key ch m) = dict_get R1 (replay_key ch m)" if "check_rate_limit t ch' c R1 = (ok, R2)" for t ch' c ok R2 using that by (metis snd_conv)
  then show ?thesis using is_replay_first[OF R1] assms(1) by (auto simp: admit_def Let_def R1 split: option.split prod.split)
qed

lemma admit_keeps:
  assumes "\<And>c st. gw_redis (snd (continue c st)) = gw_redis st"
    and "dict_get (gw_redis st) (replay_key ch' m') = Some \<lparr>re_value = 1, re_expires_at = Some x\<rparr>" "\<lfloor>gq_time w\<rfloor> < x"
  shows "dict_get (gw_redis (snd (admit w ch m chat answer continue st))) (replay_key ch' m') = Some \<lparr>re_value = 1, re_expires_at = Some x\<rparr>"
proof -
  obtain seen R1 where R1: "is_replay \<lfloor>gq_time w\<rfloor> ch m (gw_redis st) = (seen, R1)" by fastforce
  have k1: "dict_get R1 (replay_key ch' m') = dict_get (gw_redis st) (replay_key ch' m')"
    using R1 assms(2,3) is_replay_again[OF assms(2,3)]
    by (cases "replay_key ch m = replay_key ch' m'") (auto simp: is_replay_def redis_set_nx_ex_def redis_get_def split: if_splits)
  have "dict_get R2 (replay_key ch' m') = dict_get R1 (replay_key ch' m')" if "check_rate_limit t c' c R1 = (ok, R2)" for t c' c ok R2
    using check_rate_limit_keeps[of t c' c R1 ch' m'] that by simp
  then show ?thesis using k1 assms(1,2) by (auto simp: admit_def Let_def R1 split: option.split prod.split)
qed

lemma webhook_keeps:
  assumes "remembers t p m st" "\<lfloor>gq_time w\<rfloor> < \<lfloor>t\<rfloor> + REPLAY_TTL_SECONDS" shows "remembers t p m (snd (webhook w p' q st))"
proof (rule webhook_admit[of w p' q st])
  assume "snd (webhook w p' q st) = st"
  then show ?thesis using assms(1) by simp
next
  fix m' chat answer "continue"
  assume a: "\<And>st. webhook w p' q st = admit w (platform_key p') m' chat answer continue st" "\<And>c st. gw_redis (snd (continue c st)) = gw_redis st"
  show ?thesis using assms admit_keeps[where continue = "continue", OF a(2), where w = w] unfolding remembers_def a(1) by blast
qed

text \<open>Any other requests, each with its own world.\<close>
fun handle_all :: "(gateway_world \<times> platform \<times> webhook_request) list \<Rightarrow> gateway \<Rightarrow> gateway" where
  "handle_all [] st = st"
| "handle_all ((w, p, q) # rest) st = handle_all rest (snd (webhook w p q st))"

lemma handle_all_keeps:
  "remembers t p m st \<Longrightarrow> list_all (\<lambda>(w, _). \<lfloor>gq_time w\<rfloor> < \<lfloor>t\<rfloor> + REPLAY_TTL_SECONDS) rest \<Longrightarrow> remembers t p m (handle_all rest st)"
  by (induction rest arbitrary: st) (auto simp: webhook_keeps)

lemma redelivery:
  assumes "remembers t p m st" "authentic w p q" "message_id w p (wq_body q) = Some m" "\<lfloor>gq_time w\<rfloor> < \<lfloor>t\<rfloor> + REPLAY_TTL_SECONDS"
  shows "\<exists>answer. webhook w p q st = (Inr answer, st)"
proof -
  have seen: "is_replay \<lfloor>gq_time w\<rfloor> (platform_key p) m (gw_redis st) = (True, gw_redis st)"
    using assms(1,4) by (intro is_replay_again) (simp_all add: remembers_def)
  have again: "admit w (platform_key p) m chat answer continue st = (Inr answer, st)" for chat answer "continue"
    by (simp add: admit_def seen)
  show ?thesis by (rule webhook_admit[of w p q st]) (use assms(2,3) again in auto)
qed

text \<open>C18. A message is handled at most once a day: after a message that was new, any other requests on any platform may come,
  and while its 24 hours last a request with the same identifier, however it is signed and whatever it contains, is
  acknowledged and changes nothing.\<close>
theorem redelivery_changes_nothing:
  assumes "authentic w p q" and "message_id w p (wq_body q) = Some m" and "\<not> seen_at (gq_time w) p m st"
    and "\<And>v p' r. (v, p', r) \<in> set between \<Longrightarrow> \<lfloor>gq_time v\<rfloor> < \<lfloor>gq_time w\<rfloor> + REPLAY_TTL_SECONDS"
    and "authentic w' p q'" and "message_id w' p (wq_body q') = Some m" and "\<lfloor>gq_time w'\<rfloor> < \<lfloor>gq_time w\<rfloor> + REPLAY_TTL_SECONDS"
    and "st' = handle_all between (snd (webhook w p q st))"
  shows "\<exists>answer. webhook w' p q' st' = (Inr answer, st')"
proof (rule redelivery[OF _ assms(5-7)])
  have "remembers (gq_time w) p m (snd (webhook w p q st))"
    by (rule webhook_admit[of w p q st]) (use assms(1-3) admit_remembers in \<open>auto simp: remembers_def seen_at_def\<close>)
  then show "remembers (gq_time w) p m st'" unfolding assms(8) by (rule handle_all_keeps) (use assms(4) in \<open>auto simp: list_all_iff\<close>)
qed

text \<open>A message the limiter refuses is lost: its identifier was written before the limit was checked, so nothing of the
  message was kept, and when the platform delivers it again within a day it is acknowledged as a repetition and still not
  kept.\<close>
theorem limited_message_is_lost:
  assumes "webhook w p q st = (Inl (Status 429), st1)" and "authentic w' p q'" and "message_id w' p (wq_body q') = message_id w p (wq_body q)"
    and "\<lfloor>gq_time w'\<rfloor> < \<lfloor>gq_time w\<rfloor> + REPLAY_TTL_SECONDS"
  shows "gw_events st1 = gw_events st \<and> gw_chat st1 = gw_chat st \<and> gw_calls st1 = gw_calls st \<and> (\<exists>answer. webhook w' p q' st1 = (Inr answer, st1))"
proof (rule webhook_admit[of w p q st])
  assume "snd (webhook w p q st) = st" "\<not> (authentic w p q \<and> message_id w p (wq_body q) \<noteq> None)"
  assume "fst (webhook w p q st) \<noteq> Inl (Status 429)"
  then show ?thesis using assms(1) by simp
next
  fix m chat answer "continue"
  assume a: "authentic w p q" "message_id w p (wq_body q) = Some m" "\<And>st. webhook w p q st = admit w (platform_key p) m chat answer continue st"
    "\<And>c st. gw_redis (snd (continue c st)) = gw_redis st" "\<And>c st. fst (continue c st) \<noteq> Inl (Status 429)"
  have lim: "admit w (platform_key p) m chat answer continue st = (Inl (Status 429), st1)" using assms(1) a(3) by simp
  then have "\<not> seen_at (gq_time w) p m st"
    by (cases "redis_get \<lfloor>gq_time w\<rfloor> (replay_key (platform_key p) m) (gw_redis st)") (auto simp: admit_def seen_at_def is_replay_def redis_set_nx_ex_def)
  then have "redis_get \<lfloor>gq_time w\<rfloor> (replay_key (platform_key p) m) (gw_redis st) = None" by (simp add: seen_at_def)
  note kept = admit_remembers[where continue = "continue", OF a(4) this, of chat answer]
  have "remembers (gq_time w) p m st1" using kept unfolding lim snd_conv remembers_def .
  then have "\<exists>answer. webhook w' p q' st1 = (Inr answer, st1)" using assms(2-4) a(2) by (intro redelivery) simp_all
  moreover have "gw_events st1 = gw_events st \<and> gw_chat st1 = gw_chat st \<and> gw_calls st1 = gw_calls st"
    using lim a(5) by (auto simp: admit_def Let_def split: prod.splits option.splits if_splits) (metis fst_conv)+
  ultimately show ?thesis by blast
qed

section \<open>Witnesses\<close>

text \<open>A message of Telegram with a secret of the settings; the counter of its chat may be spent already.\<close>
definition sample_gateway_world :: gateway_world where
  "sample_gateway_world = \<lparr>gq_chat = sample_chat_world, gq_time = 0, gq_vault_secret = (\<lambda>_. None), gq_settings_secret = (\<lambda>_. Some ''s''),
     gq_ed25519 = (\<lambda>_ _ _. False), gq_hmac_hex = (\<lambda>_ _. []), gq_float = (\<lambda>_. None), gq_notify = (\<lambda>_ _ _. True)\<rparr>"

definition sample_update :: webhook_request where
  "sample_update = \<lparr>wq_secret_token = Some ''s'', wq_signature = None, wq_timestamp = None, wq_raw_body = [],
     wq_body = JObj [(''update_id'', JStr ''7''), (''message'', JObj [(''chat'', JObj [(''id'', JStr ''c'')]), (''text'', JStr ''hi'')])]\<rparr>"

definition sample_gateway :: "redis \<Rightarrow> gateway" where
  "sample_gateway R = \<lparr>gw_chat = empty_chat, gw_redis = R, gw_events = [], gw_bindings = [], gw_users = [], gw_calls = [], gw_next = 1\<rparr>"

lemma sample_update_accepted:
  "authentic sample_gateway_world Telegram sample_update" "message_id sample_gateway_world Telegram (wq_body sample_update) = Some ''7''"
  "gq_time sample_gateway_world = 0"
  by (simp_all add: authentic_def message_id_def sample_gateway_world_def sample_update_def webhook_secret_def verify_telegram_secret_token_def get_or_def py_text_def)

lemma redelivery_changes_nothing_witness:
  "\<exists>answer st'. webhook sample_gateway_world Telegram sample_update st' = (Inr answer, st')
    \<and> st' = snd (webhook sample_gateway_world Telegram sample_update (sample_gateway []))"
  using redelivery_changes_nothing[OF sample_update_accepted(1,2), of "sample_gateway []" "[]" sample_gateway_world sample_update
      "snd (webhook sample_gateway_world Telegram sample_update (sample_gateway []))"] sample_update_accepted
  by (auto simp: seen_at_def redis_get_def sample_gateway_def REPLAY_TTL_SECONDS_def)

lemma sample_spent:
  "check_rate_limit 0 ''telegram'' ''c'' (snd (is_replay 0 ''telegram'' ''7'' [(webhook_limit_key ''telegram'' ''c'' 0, \<lparr>re_value = 10, re_expires_at = Some 60\<rparr>)]))
    = (False, [(webhook_limit_key ''telegram'' ''c'' 0, \<lparr>re_value = 11, re_expires_at = Some 60\<rparr>),
        (replay_key ''telegram'' ''7'', \<lparr>re_value = 1, re_expires_at = Some 86400\<rparr>)])"
  "fst (is_replay 0 ''telegram'' ''7'' [(webhook_limit_key ''telegram'' ''c'' 0, \<lparr>re_value = 10, re_expires_at = Some 60\<rparr>)]) = False"
  by code_simp+

lemma limited_message_is_lost_witness:
  "\<exists>st1 answer. webhook sample_gateway_world Telegram sample_update
      (sample_gateway [(webhook_limit_key ''telegram'' ''c'' 0, \<lparr>re_value = 10, re_expires_at = Some 60\<rparr>)]) = (Inl (Status 429), st1)
    \<and> gw_events st1 = [] \<and> webhook sample_gateway_world Telegram sample_update st1 = (Inr answer, st1)"
proof -
  let ?st = "sample_gateway [(webhook_limit_key ''telegram'' ''c'' 0, \<lparr>re_value = 10, re_expires_at = Some 60\<rparr>)]"
  have chat: "telegram_chat_id sample_gateway_world (wq_body sample_update) = Some ''c''"
    by (simp add: telegram_chat_id_def sample_update_def get_or_def py_text_def)
  have "fst (webhook sample_gateway_world Telegram sample_update ?st) = Inl (Status 429)"
    using sample_update_accepted sample_spent chat
    by (auto simp: webhook_def telegram_webhook_def authentic_def message_id_def admit_def Let_def sample_gateway_def split: option.splits if_splits prod.split)
  then obtain st1 where lim: "webhook sample_gateway_world Telegram sample_update ?st = (Inl (Status 429), st1)" by (metis prod.collapse)
  have "gw_events ?st = []" by (simp add: sample_gateway_def)
  then show ?thesis using limited_message_is_lost[OF lim sample_update_accepted(1) refl] lim sample_update_accepted(3)
    by (simp add: REPLAY_TTL_SECONDS_def)
qed

end
