(* ===== verification/LlmRouter.thy ===== *)
theory LlmRouter
  imports Models Calendar PyText
begin

text \<open>
  The gateway to the language models (\<open>src/agents/llm_router.py\<close>), the model an agent is configured with
  (\<open>src/orchestration/agent_config.py\<close>) and the health page of the providers (\<open>src/api/routers/provider_models.py\<close>). A
  provider's answer to a request, the key store and the routing file are parameters; tracing is not modelled. The trackers
  of the process are the state; each of their operations is atomic, as under their locks.
\<close>

section \<open>State and world\<close>

record provider_model =
  pm_provider :: string
  pm_model :: string

record last_call_info =
  ci_provider :: string
  ci_model :: string
  ci_fell_back :: bool
  ci_failed_providers :: "string list"

record router_state =
  rs_day :: int
  rs_tokens_used :: int
  rs_last_failure_at :: "(string, int) dict"
  rs_success_was_fallback :: "(string, bool) dict"
  rs_last_call :: "last_call_info option"

record agent_config =
  ac_id :: nat
  ac_slug :: string
  ac_is_llm_backed :: bool
  ac_mode :: "string option"
  ac_provider :: "string option"
  ac_model :: "string option"
  ac_updated_by :: "string option"
  ac_updated_at :: int

record llm_settings =
  ll_openai_api_key :: "string option"
  ll_anthropic_api_key :: "string option"
  ll_deepseek_api_key :: "string option"
  ll_gemini_api_key :: "string option"
  ll_hf_token :: "string option"
  ll_opencode_api_key :: "string option"
  ll_ollama_base_url :: string
  ll_hf_daily_token_budget :: int
  ll_hf_max_tokens_per_call :: int
  ll_call_timeout_seconds :: real

text \<open>What is sent to a provider, and what comes back: an exception (\<open>None\<close>) or a response, with the token count when the
  provider reported one.\<close>
record llm_request =
  lq_model :: string
  lq_api_base :: "string option"
  lq_api_key :: "string option"
  lq_messages :: "(string \<times> string) list"
  lq_timeout :: real
  lq_max_tokens :: "int option"

record llm_response =
  lr_content :: "string option"
  lr_model :: string
  lr_total_tokens :: "int option"

record call_options =
  co_timeout :: "real option"
  co_max_tokens :: "int option"

text \<open>\<open>lw_start\<close> is the time of the call, \<open>lw_done\<close> when the attempt at a provider ended; \<open>lw_configs\<close> is \<open>None\<close> when the
  database cannot be read.\<close>
record llm_world =
  lw_settings :: llm_settings
  lw_stored_key :: "string \<Rightarrow> string option"
  lw_routing :: "(string, provider_model list) dict"
  lw_configs :: "agent_config list option"
  lw_completion :: "llm_request \<Rightarrow> llm_response option"
  lw_start :: int
  lw_done :: "provider_model \<Rightarrow> int"

section \<open>The daily budget\<close>

definition utc_day :: "int \<Rightarrow> int" where "utc_day t = t div us_per_day"

definition reset_if_new_day :: "int \<Rightarrow> router_state \<Rightarrow> router_state" where
  "reset_if_new_day t st = (if utc_day t \<noteq> rs_day st then st\<lparr>rs_day := utc_day t, rs_tokens_used := 0\<rparr> else st)"

definition record_tokens :: "int \<Rightarrow> int \<Rightarrow> router_state \<Rightarrow> router_state" where
  "record_tokens t n st = (let st1 = reset_if_new_day t st in st1\<lparr>rs_tokens_used := rs_tokens_used st1 + max n 0\<rparr>)"

definition has_budget :: "int \<Rightarrow> int \<Rightarrow> router_state \<Rightarrow> bool \<times> router_state" where
  "has_budget t budget st = (let st1 = reset_if_new_day t st in (rs_tokens_used st1 < budget, st1))"

section \<open>Failures\<close>

definition record_failure :: "int \<Rightarrow> string \<Rightarrow> router_state \<Rightarrow> router_state" where
  "record_failure t p st = st\<lparr>rs_last_failure_at := dict_set p t (rs_last_failure_at st)\<rparr>"

definition record_success :: "string \<Rightarrow> bool \<Rightarrow> router_state \<Rightarrow> router_state" where
  "record_success p fell_back st =
    st\<lparr>rs_last_failure_at := AList.delete p (rs_last_failure_at st),
       rs_success_was_fallback := dict_set p fell_back (rs_success_was_fallback st)\<rparr>"

definition pop_last_call_info :: "router_state \<Rightarrow> last_call_info option \<times> router_state" where
  "pop_last_call_info st = (rs_last_call st, st\<lparr>rs_last_call := None\<rparr>)"

section \<open>Keys\<close>

definition OPENCODE_ZEN_BASE_URL :: string where "OPENCODE_ZEN_BASE_URL = ''https://opencode.ai/zen/v1''"

text \<open>The outer \<open>None\<close> is the \<open>KeyError\<close> of a provider the dictionary does not have.\<close>
definition settings_api_key :: "string \<Rightarrow> llm_settings \<Rightarrow> string option option" where
  "settings_api_key p s =
    dict_get [(''openai'', ll_openai_api_key s), (''anthropic'', ll_anthropic_api_key s), (''deepseek'', ll_deepseek_api_key s),
      (''gemini'', ll_gemini_api_key s), (''huggingface'', ll_hf_token s), (''opencode'', ll_opencode_api_key s)] p"

definition truthy_text :: "string option \<Rightarrow> bool" where
  "truthy_text x = (case x of None \<Rightarrow> False | Some s \<Rightarrow> s \<noteq> [])"

definition resolve_api_key :: "llm_world \<Rightarrow> string \<Rightarrow> string option option" where
  "resolve_api_key w p =
    (if p = ''ollama'' then Some None
     else if truthy_text (lw_stored_key w p) then Some (lw_stored_key w p)
     else settings_api_key p (lw_settings w))"

text \<open>\<open>None\<close> is the \<open>KeyError\<close>.\<close>
definition is_configured :: "llm_world \<Rightarrow> string \<Rightarrow> router_state \<Rightarrow> bool option \<times> router_state" where
  "is_configured w p st =
    (if p = ''ollama'' then (Some True, st)
     else case resolve_api_key w p of
         None \<Rightarrow> (None, st)
       | Some k \<Rightarrow>
         if \<not> truthy_text k then (Some False, st)
         else if p = ''huggingface'' then (case has_budget (lw_start w) (ll_hf_daily_token_budget (lw_settings w)) st of (b, st1) \<Rightarrow> (Some b, st1))
         else (Some True, st))"

record llm_target =
  lt_model :: string
  lt_api_base :: "string option"
  lt_api_key :: "string option"

text \<open>The arguments for a provider; \<open>None\<close> is an exception.\<close>
definition litellm_kwargs :: "llm_world \<Rightarrow> provider_model \<Rightarrow> llm_target option" where
  "litellm_kwargs w pm =
    (let p = pm_provider pm; m = pm_model pm in
     if p = ''ollama'' then Some \<lparr>lt_model = ''ollama/'' @ m, lt_api_base = Some (ll_ollama_base_url (lw_settings w)), lt_api_key = None\<rparr>
     else case resolve_api_key w p of
         None \<Rightarrow> None
       | Some k \<Rightarrow>
         if p \<in> {''openai'', ''anthropic'', ''deepseek'', ''gemini'', ''huggingface''}
         then Some \<lparr>lt_model = p @ ''/'' @ m, lt_api_base = None, lt_api_key = k\<rparr>
         else if p = ''opencode'' then Some \<lparr>lt_model = ''openai/'' @ m, lt_api_base = Some OPENCODE_ZEN_BASE_URL, lt_api_key = k\<rparr>
         else None)"

section \<open>The model of an agent\<close>

definition KNOWN_PROVIDERS :: "string list" where
  "KNOWN_PROVIDERS = [''anthropic'', ''deepseek'', ''gemini'', ''huggingface'', ''ollama'', ''openai'', ''opencode'']"

definition known_models :: "llm_world \<Rightarrow> string \<Rightarrow> string list" where
  "known_models w p = map pm_model (filter (\<lambda>pm. pm_provider pm = p) (concat (map snd (lw_routing w))))"

definition is_valid_pair :: "llm_world \<Rightarrow> string \<Rightarrow> string \<Rightarrow> router_state \<Rightarrow> bool \<times> router_state" where
  "is_valid_pair w p m st =
    (if p \<notin> set KNOWN_PROVIDERS \<or> strip m = [] then (False, st)
     else case is_configured w p st of
         (Some True, st1) \<Rightarrow> (m \<in> set (known_models w p), st1)
       | (_, st1) \<Rightarrow> (False, st1))"

definition custom_pair :: "llm_world \<Rightarrow> agent_config list \<Rightarrow> string \<Rightarrow> router_state \<Rightarrow> provider_model option \<times> router_state" where
  "custom_pair w configs agent st =
    (case row_by ac_slug agent configs of
       None \<Rightarrow> (None, st)
     | Some row \<Rightarrow>
       (case (ac_provider row, ac_model row) of
          (Some p, Some m) \<Rightarrow>
            if ac_mode row \<noteq> Some ''CUSTOM'' \<or> p = [] \<or> m = [] then (None, st)
            else (case is_valid_pair w p m st of
                (ok, st1) \<Rightarrow> (if ok then Some \<lparr>pm_provider = p, pm_model = m\<rparr> else None, st1))
        | _ \<Rightarrow> (None, st)))"

definition resolve_agent_pair :: "llm_world \<Rightarrow> string \<Rightarrow> router_state \<Rightarrow> provider_model option \<times> router_state" where
  "resolve_agent_pair w agent st = (case lw_configs w of None \<Rightarrow> (None, st) | Some configs \<Rightarrow> custom_pair w configs agent st)"

section \<open>A call\<close>

datatype llm_failure = No_provider | Unknown_key

text \<open>The entries of a chain that are configured, asked one after the other.\<close>
fun configured_chain :: "llm_world \<Rightarrow> provider_model list \<Rightarrow> router_state \<Rightarrow> provider_model list option \<times> router_state" where
  "configured_chain w [] st = (Some [], st)"
| "configured_chain w (pm # pms) st =
    (case is_configured w (pm_provider pm) st of
       (None, st1) \<Rightarrow> (None, st1)
     | (Some ok, st1) \<Rightarrow>
       (case configured_chain w pms st1 of (r, st2) \<Rightarrow> (map_option (\<lambda>c. if ok then pm # c else c) r, st2)))"

definition build_fallback_chain :: "llm_world \<Rightarrow> string \<Rightarrow> router_state \<Rightarrow> provider_model list option \<times> router_state" where
  "build_fallback_chain w task st =
    (case dict_get (lw_routing w) task of None \<Rightarrow> (None, st) | Some chain \<Rightarrow> configured_chain w chain st)"

text \<open>The chain of a call: the agent's own model first, if it has a valid one.\<close>
definition call_chain :: "llm_world \<Rightarrow> string \<Rightarrow> string option \<Rightarrow> router_state \<Rightarrow> (llm_failure + provider_model list) \<times> router_state" where
  "call_chain w task agent st =
    (case build_fallback_chain w task st of
       (None, st1) \<Rightarrow> (Inl Unknown_key, st1)
     | (Some chain, st1) \<Rightarrow>
       (case (case agent of None \<Rightarrow> (None, st1) | Some a \<Rightarrow> resolve_agent_pair w a st1) of
          (pair, st2) \<Rightarrow>
            (let c = (case pair of None \<Rightarrow> chain | Some head \<Rightarrow> head # filter (\<lambda>pm. pm \<noteq> head) chain) in
             (if c = [] then Inl No_provider else Inr c, st2))))"

text \<open>The request to one entry of the chain and its answer.\<close>
definition attempt :: "llm_world \<Rightarrow> (string \<times> string) list \<Rightarrow> call_options \<Rightarrow> provider_model \<Rightarrow> llm_response option" where
  "attempt w messages opts pm =
    (case litellm_kwargs w pm of
       None \<Rightarrow> None
     | Some target \<Rightarrow>
       lw_completion w \<lparr>lq_model = lt_model target, lq_api_base = lt_api_base target, lq_api_key = lt_api_key target, lq_messages = messages,
         lq_timeout = (case co_timeout opts of Some t \<Rightarrow> t | None \<Rightarrow> ll_call_timeout_seconds (lw_settings w)),
         lq_max_tokens = (case co_max_tokens opts of Some n \<Rightarrow> Some n
           | None \<Rightarrow> if pm_provider pm = ''huggingface'' then Some (ll_hf_max_tokens_per_call (lw_settings w)) else None)\<rparr>)"

definition succeed :: "llm_world \<Rightarrow> provider_model \<Rightarrow> llm_response \<Rightarrow> string list \<Rightarrow> router_state \<Rightarrow> router_state" where
  "succeed w pm r failed st =
    (let st1 = (case (if pm_provider pm = ''huggingface'' then lr_total_tokens r else None) of None \<Rightarrow> st | Some n \<Rightarrow> record_tokens (lw_done w pm) n st);
         st2 = record_success (pm_provider pm) (failed \<noteq> []) st1 in
     st2\<lparr>rs_last_call := Some \<lparr>ci_provider = pm_provider pm, ci_model = pm_model pm, ci_fell_back = (failed \<noteq> []), ci_failed_providers = failed\<rparr>\<rparr>)"

fun try_chain ::
  "llm_world \<Rightarrow> (string \<times> string) list \<Rightarrow> call_options \<Rightarrow> string list \<Rightarrow> provider_model list \<Rightarrow> router_state \<Rightarrow> (llm_failure + llm_response) \<times> router_state" where
  "try_chain w messages opts failed [] st = (Inl No_provider, st)"
| "try_chain w messages opts failed (pm # pms) st =
    (case attempt w messages opts pm of
       Some r \<Rightarrow> (Inr r, succeed w pm r failed st)
     | None \<Rightarrow> try_chain w messages opts (failed @ [pm_provider pm]) pms (record_failure (lw_done w pm) (pm_provider pm) st))"

definition complete ::
  "llm_world \<Rightarrow> string \<Rightarrow> (string \<times> string) list \<Rightarrow> string option \<Rightarrow> call_options \<Rightarrow> router_state \<Rightarrow> (llm_failure + llm_response) \<times> router_state" where
  "complete w task messages agent opts st =
    (case call_chain w task agent st of
       (Inl e, st1) \<Rightarrow> (Inl e, st1)
     | (Inr chain, st1) \<Rightarrow> try_chain w messages opts [] chain st1)"

section \<open>The pages\<close>

definition PROVIDER_HEALTH_FAILURE_WINDOW :: int where "PROVIDER_HEALTH_FAILURE_WINDOW = 10 * 60 * 1000000"

definition models_of :: "llm_world \<Rightarrow> string \<Rightarrow> string list" where
  "models_of w p = map fst (sort_keys (map (\<lambda>m. (m, ())) (remdups (known_models w p))))"

text \<open>Every known provider is asked; the unknown keys of the settings cannot occur here.\<close>
fun ask_providers :: "llm_world \<Rightarrow> string list \<Rightarrow> router_state \<Rightarrow> (string \<times> bool) list \<times> router_state" where
  "ask_providers w [] st = ([], st)"
| "ask_providers w (p # ps) st =
    (case is_configured w p st of (r, st1) \<Rightarrow> (case ask_providers w ps st1 of (rs, st2) \<Rightarrow> ((p, r = Some True) # rs, st2)))"

definition list_providers :: "llm_world \<Rightarrow> router_state \<Rightarrow> (string \<times> string list) list \<times> router_state" where
  "list_providers w st =
    (case ask_providers w KNOWN_PROVIDERS st of (rs, st1) \<Rightarrow> (map (\<lambda>(p, _). (p, models_of w p)) (filter snd rs), st1))"

record provider_health_row =
  ph_provider :: string
  ph_connected :: bool
  ph_last_failure_at :: "int option"
  ph_in_fallback :: bool

definition provider_health :: "llm_world \<Rightarrow> router_state \<Rightarrow> provider_health_row list \<times> router_state" where
  "provider_health w st =
    (case ask_providers w KNOWN_PROVIDERS st of
       (rs, st1) \<Rightarrow>
         (map (\<lambda>(p, configured).
            let failure = dict_get (rs_last_failure_at st) p;
                recently = (case failure of None \<Rightarrow> False | Some t \<Rightarrow> lw_start w - t < PROVIDER_HEALTH_FAILURE_WINDOW) in
            \<lparr>ph_provider = p, ph_connected = (configured \<and> \<not> recently), ph_last_failure_at = failure,
             ph_in_fallback = dict_get_default (rs_success_was_fallback st) p False\<rparr>) rs, st1))"

section \<open>The first success\<close>

definition fail_all :: "llm_world \<Rightarrow> provider_model list \<Rightarrow> router_state \<Rightarrow> router_state" where
  "fail_all w pms = fold (\<lambda>pm. record_failure (lw_done w pm) (pm_provider pm)) pms"

lemma try_chain_cases:
  assumes "try_chain w messages opts failed chain st = (r, st')"
  obtains (success) pre pm post resp where "chain = pre @ pm # post" "\<forall>q \<in> set pre. attempt w messages opts q = None"
      "attempt w messages opts pm = Some resp" "r = Inr resp" "st' = succeed w pm resp (failed @ map pm_provider pre) (fail_all w pre st)"
  | (failure) "\<forall>q \<in> set chain. attempt w messages opts q = None" "r = Inl No_provider" "st' = fail_all w chain st"
  using assms
proof (induction chain arbitrary: failed st thesis)
  case Nil
  then show ?case by (simp add: fail_all_def)
next
  case (Cons pm pms)
  show ?case
  proof (cases "attempt w messages opts pm")
    case (Some resp)
    show ?thesis by (rule Cons.prems(1)[of "[]" pm pms resp]) (use Cons.prems(3) Some in \<open>simp_all add: fail_all_def\<close>)
  next
    case None
    let ?st = "record_failure (lw_done w pm) (pm_provider pm) st"
    have rest: "try_chain w messages opts (failed @ [pm_provider pm]) pms ?st = (r, st')" using Cons.prems(3) None by simp
    show ?thesis
    proof (rule Cons.IH[OF _ _ rest])
      fix pre q post resp
      assume "pms = pre @ q # post" "\<forall>q \<in> set pre. attempt w messages opts q = None" "attempt w messages opts q = Some resp" "r = Inr resp"
        "st' = succeed w q resp ((failed @ [pm_provider pm]) @ map pm_provider pre) (fail_all w pre ?st)"
      then show ?thesis using None by (intro Cons.prems(1)[of "pm # pre" q post resp]) (simp_all add: fail_all_def)
    next
      assume "\<forall>q \<in> set pms. attempt w messages opts q = None" "r = Inl No_provider" "st' = fail_all w pms ?st"
      then show ?thesis using None by (intro Cons.prems(2)) (simp_all add: fail_all_def)
    qed
  qed
qed

lemma fail_all_frame [simp]:
  "rs_last_call (fail_all w pms st) = rs_last_call st" "rs_tokens_used (fail_all w pms st) = rs_tokens_used st" "rs_day (fail_all w pms st) = rs_day st"
  by (induction pms arbitrary: st) (simp_all add: fail_all_def record_failure_def)

text \<open>What choosing the chain may do: the budget of a past day is cleared, nothing else.\<close>
definition quiet :: "router_state \<Rightarrow> router_state \<Rightarrow> bool" where
  "quiet st st' \<longleftrightarrow> rs_last_call st' = rs_last_call st \<and> (rs_tokens_used st' = rs_tokens_used st \<or> rs_tokens_used st' = 0)"

lemma quiet_refl [simp]: "quiet st st"
  by (simp add: quiet_def)

lemma quiet_trans: "quiet st st1 \<Longrightarrow> quiet st1 st2 \<Longrightarrow> quiet st st2"
  by (auto simp: quiet_def)

lemma is_configured_quiet: "is_configured w p st = (r, st1) \<Longrightarrow> quiet st st1"
  by (auto simp: is_configured_def has_budget_def reset_if_new_day_def quiet_def Let_def split: option.splits if_splits)

lemma configured_chain_quiet: "configured_chain w pms st = (r, st') \<Longrightarrow> quiet st st'"
  by (induction pms arbitrary: st r) (auto split: prod.splits option.splits dest!: is_configured_quiet intro: quiet_trans)

lemma is_valid_pair_quiet: "is_valid_pair w p m st = (r, st1) \<Longrightarrow> quiet st st1"
  by (auto simp: is_valid_pair_def split: prod.splits option.splits bool.splits if_splits dest: is_configured_quiet)

lemma resolve_agent_pair_quiet: "resolve_agent_pair w a st = (r, st1) \<Longrightarrow> quiet st st1"
  by (auto simp: resolve_agent_pair_def custom_pair_def split: option.splits prod.splits if_splits dest: is_valid_pair_quiet)

lemma call_chain_quiet:
  assumes "call_chain w task agent st = (r, st')" shows "quiet st st'"
proof -
  obtain c st1 where c: "build_fallback_chain w task st = (c, st1)" by fastforce
  have "quiet st st1" using c by (auto simp: build_fallback_chain_def split: option.splits dest: configured_chain_quiet)
  moreover have "quiet st1 st'" if "c \<noteq> None"
    using assms that c by (auto simp: call_chain_def split: option.splits prod.splits if_splits dest: resolve_agent_pair_quiet)
  moreover have "st' = st1" if "c = None" using assms that c by (simp add: call_chain_def)
  ultimately show ?thesis by (cases c) (auto intro: quiet_trans)
qed

text \<open>C24. A call returns the answer of the first entry of its chain that has one: every entry before it was asked and failed,
  and the record of the call names them. It fails exactly when the chain is empty or every entry failed, and then the record
  of an earlier call is still in place.\<close>
theorem complete_returns_first_success:
  assumes "complete w task messages agent opts st = (r, st')"
  shows "(\<exists>chain pre pm post resp. fst (call_chain w task agent st) = Inr chain \<and> chain = pre @ pm # post
      \<and> (\<forall>q \<in> set pre. attempt w messages opts q = None) \<and> attempt w messages opts pm = Some resp \<and> r = Inr resp
      \<and> rs_last_call st' = Some \<lparr>ci_provider = pm_provider pm, ci_model = pm_model pm, ci_fell_back = (pre \<noteq> []), ci_failed_providers = map pm_provider pre\<rparr>)
    \<or> (\<exists>e. r = Inl e) \<and> rs_last_call st' = rs_last_call st
      \<and> (\<forall>chain. fst (call_chain w task agent st) = Inr chain \<longrightarrow> (\<forall>q \<in> set chain. attempt w messages opts q = None))"
proof (cases "call_chain w task agent st")
  case (Pair c st1)
  have st1: "rs_last_call st1 = rs_last_call st" using call_chain_quiet[OF Pair] by (simp add: quiet_def)
  show ?thesis
  proof (cases c)
    case (Inl e)
    then show ?thesis using assms Pair st1 by (auto simp: complete_def)
  next
    case (Inr chain)
    have "try_chain w messages opts [] chain st1 = (r, st')" using assms Pair Inr by (simp add: complete_def)
    then show ?thesis
    proof (cases rule: try_chain_cases)
      case (success pre pm post resp)
      have "rs_last_call st' = Some \<lparr>ci_provider = pm_provider pm, ci_model = pm_model pm, ci_fell_back = (pre \<noteq> []), ci_failed_providers = map pm_provider pre\<rparr>"
        using success(5) by (simp add: succeed_def Let_def)
      then show ?thesis using success(1-4) Pair Inr by auto
    next
      case failure
      then show ?thesis using Pair Inr st1 by simp
    qed
  qed
qed

section \<open>The budget holds\<close>

abbreviation "budget w \<equiv> ll_hf_daily_token_budget (lw_settings w)"

definition uses_hf :: "provider_model list \<Rightarrow> bool" where
  "uses_hf pms \<longleftrightarrow> (\<exists>pm \<in> set pms. pm_provider pm = ''huggingface'')"

lemma is_configured_hf: "is_configured w ''huggingface'' st = (Some True, st1) \<Longrightarrow> rs_tokens_used st1 < budget w"
  by (auto simp: is_configured_def has_budget_def Let_def split: option.splits if_splits)

lemma quiet_below: "quiet st st1 \<Longrightarrow> 0 \<le> rs_tokens_used st \<Longrightarrow> 0 \<le> rs_tokens_used st1 \<and> rs_tokens_used st1 \<le> rs_tokens_used st"
  by (auto simp: quiet_def)

lemma configured_chain_budget:
  "configured_chain w pms st = (Some c, st') \<Longrightarrow> 0 \<le> rs_tokens_used st \<Longrightarrow> uses_hf c \<Longrightarrow> rs_tokens_used st' < budget w"
proof (induction pms arbitrary: st c)
  case (Cons pm pms)
  obtain ok st1 rest where ok: "is_configured w (pm_provider pm) st = (Some ok, st1)" "configured_chain w pms st1 = (Some rest, st')"
    and c: "c = (if ok then pm # rest else rest)"
    using Cons.prems(1) by (auto split: prod.splits option.splits)
  have st1: "0 \<le> rs_tokens_used st1" using quiet_below[OF is_configured_quiet[OF ok(1)] Cons.prems(2)] by simp
  have down: "rs_tokens_used st' \<le> rs_tokens_used st1" using quiet_below[OF configured_chain_quiet[OF ok(2)] st1] by simp
  show ?case
  proof (cases "ok \<and> pm_provider pm = ''huggingface''")
    case True
    then have "rs_tokens_used st1 < budget w" using ok(1) is_configured_hf by simp
    then show ?thesis using down by simp
  next
    case False
    then have "uses_hf rest" using Cons.prems(3) c by (auto simp: uses_hf_def split: if_splits)
    then show ?thesis using Cons.IH[OF ok(2) st1] by simp
  qed
qed (simp add: uses_hf_def)

lemma resolve_agent_pair_budget:
  "resolve_agent_pair w a st = (Some pm, st1) \<Longrightarrow> pm_provider pm = ''huggingface'' \<Longrightarrow> rs_tokens_used st1 < budget w"
  by (auto simp: resolve_agent_pair_def custom_pair_def is_valid_pair_def split: option.splits prod.splits if_splits bool.splits dest: is_configured_hf)

lemma call_chain_budget:
  assumes "call_chain w task agent st = (Inr c, st')" and "0 \<le> rs_tokens_used st"
  shows "uses_hf c \<Longrightarrow> rs_tokens_used st' < budget w" "0 \<le> rs_tokens_used st'"
proof -
  show "0 \<le> rs_tokens_used st'" using quiet_below[OF call_chain_quiet[OF assms(1)] assms(2)] by simp
  obtain c0 st1 where c0: "build_fallback_chain w task st = (Some c0, st1)"
    using assms(1) by (auto simp: call_chain_def split: prod.splits option.splits)
  have st1: "quiet st st1" using c0 by (auto simp: build_fallback_chain_def split: option.splits dest: configured_chain_quiet)
  have pos: "0 \<le> rs_tokens_used st1" using quiet_below[OF st1 assms(2)] by simp
  have base: "uses_hf c0 \<Longrightarrow> rs_tokens_used st1 < budget w"
    using c0 configured_chain_budget[OF _ assms(2)] by (auto simp: build_fallback_chain_def split: option.splits)
  obtain pair where pair: "(case agent of None \<Rightarrow> (None, st1) | Some a \<Rightarrow> resolve_agent_pair w a st1) = (pair, st')"
    and c: "c = (case pair of None \<Rightarrow> c0 | Some head \<Rightarrow> head # filter (\<lambda>pm. pm \<noteq> head) c0)"
    using assms(1) c0 by (auto simp: call_chain_def Let_def split: prod.splits if_splits)
  have down: "rs_tokens_used st' \<le> rs_tokens_used st1"
    using pair quiet_below[OF resolve_agent_pair_quiet pos] by (auto split: option.splits)
  assume hf: "uses_hf c"
  show "rs_tokens_used st' < budget w"
  proof (cases "\<exists>head. pair = Some head \<and> pm_provider head = ''huggingface''")
    case True
    then show ?thesis using pair resolve_agent_pair_budget by (auto split: option.splits)
  next
    case False
    then have "uses_hf c0" using hf c by (auto simp: uses_hf_def split: option.splits)
    then show ?thesis using base down by simp
  qed
qed

lemma succeed_tokens:
  assumes "0 \<le> rs_tokens_used st" "\<And>n. lr_total_tokens r = Some n \<Longrightarrow> n \<le> M" "0 \<le> M"
  shows "0 \<le> rs_tokens_used (succeed w pm r failed st)"
    "rs_tokens_used (succeed w pm r failed st) \<le> rs_tokens_used st + (if pm_provider pm = ''huggingface'' then M else 0)"
  using assms(1,3) assms(2)
  by (auto simp: succeed_def record_tokens_def record_success_def reset_if_new_day_def Let_def split: option.splits)

text \<open>One call after the other, each with its own world.\<close>
fun llm_calls :: "(llm_world \<times> string \<times> (string \<times> string) list \<times> string option \<times> call_options) list \<Rightarrow> router_state \<Rightarrow> router_state" where
  "llm_calls [] st = st"
| "llm_calls ((w, task, messages, agent, opts) # cs) st = llm_calls cs (snd (complete w task messages agent opts st))"

lemma complete_tokens:
  assumes "0 \<le> rs_tokens_used st" "rs_tokens_used st \<le> B + M" "budget w = B" "0 \<le> M"
    and "\<And>q r n. lw_completion w q = Some r \<Longrightarrow> lr_total_tokens r = Some n \<Longrightarrow> n \<le> M"
  shows "0 \<le> rs_tokens_used (snd (complete w task messages agent opts st)) \<and> rs_tokens_used (snd (complete w task messages agent opts st)) \<le> B + M"
proof (cases "call_chain w task agent st")
  case (Pair c st1)
  have st1: "0 \<le> rs_tokens_used st1" "rs_tokens_used st1 \<le> B + M" using quiet_below[OF call_chain_quiet[OF Pair] assms(1)] assms(2) by simp_all
  show ?thesis
  proof (cases c)
    case (Inl e)
    then show ?thesis using st1 Pair by (simp add: complete_def)
  next
    case (Inr chain)
    obtain r st' where r: "try_chain w messages opts [] chain st1 = (r, st')" by fastforce
    have done_: "snd (complete w task messages agent opts st) = st'" using Pair Inr r by (simp add: complete_def)
    show ?thesis using r
    proof (cases rule: try_chain_cases)
      case (success pre pm post resp)
      let ?f = "fail_all w pre st1"
      have M: "n \<le> M" if "lr_total_tokens resp = Some n" for n
        using success(3) that assms(5) by (auto simp: attempt_def split: option.splits)
      note t = succeed_tokens[of ?f resp M w pm "map pm_provider pre", OF _ M assms(4)]
      show ?thesis
      proof (cases "pm_provider pm = ''huggingface''")
        case True
        then have "uses_hf chain" using success(1) by (auto simp: uses_hf_def)
        then have "rs_tokens_used st1 < B" using call_chain_budget(1)[OF Pair[unfolded Inr] assms(1)] assms(3) by simp
        then show ?thesis using t st1 success(5) True unfolding done_ by simp
      next
        case False
        then show ?thesis using t st1 success(5) unfolding done_ by simp
      qed
    next
      case failure
      then show ?thesis using st1 unfolding done_ by simp
    qed
  qed
qed


text \<open>An agent without a model of its own is served exactly as a call that names no agent: the chain, the answer and the
  trackers are the same, whatever stands in the other columns of its row and also when the table cannot be read.\<close>
theorem auto_agent_changes_nothing:
  assumes "\<And>configs row. lw_configs w = Some configs \<Longrightarrow> row_by ac_slug agent configs = Some row \<Longrightarrow> ac_mode row \<noteq> Some ''CUSTOM''"
  shows "complete w task messages (Some agent) opts st = complete w task messages None opts st"
proof -
  have "resolve_agent_pair w agent st1 = (None, st1)" for st1
    using assms by (auto simp: resolve_agent_pair_def custom_pair_def split: option.splits)
  then show ?thesis by (simp add: complete_def call_chain_def split: prod.split option.split)
qed

section \<open>The health page\<close>

lemma ask_providers_keys: "map fst (fst (ask_providers w ps st)) = ps"
  by (induction ps arbitrary: st) (auto split: prod.splits, metis fst_conv)

lemma fail_all_failures:
  "dict_get (rs_last_failure_at (fail_all w pms st)) p
    = (case List.find (\<lambda>pm. pm_provider pm = p) (rev pms) of Some pm \<Rightarrow> Some (lw_done w pm) | None \<Rightarrow> dict_get (rs_last_failure_at st) p)"
  by (induction pms rule: rev_induct) (simp_all add: fail_all_def record_failure_def)

lemma reset_failures [simp]: "rs_last_failure_at (reset_if_new_day t st) = rs_last_failure_at st"
  by (simp add: reset_if_new_day_def)

lemma succeed_failures:
  "dict_get (rs_last_failure_at (succeed w pm r failed st)) p = (if p = pm_provider pm then None else dict_get (rs_last_failure_at st) p)"
  by (simp add: succeed_def record_success_def record_tokens_def Let_def delete_conv' split: option.split)

lemma succeed_fallback: "dict_get (rs_success_was_fallback (succeed w pm r failed st)) (pm_provider pm) = Some (failed \<noteq> [])"
  by (simp add: succeed_def record_success_def Let_def)

lemma provider_healthD:
  assumes "h \<in> set (fst (provider_health w st))"
  shows "ph_last_failure_at h = dict_get (rs_last_failure_at st) (ph_provider h)"
    "ph_in_fallback h = dict_get_default (rs_success_was_fallback st) (ph_provider h) False"
    "ph_connected h \<Longrightarrow> ph_last_failure_at h = Some t \<Longrightarrow> PROVIDER_HEALTH_FAILURE_WINDOW \<le> lw_start w - t"
  using assms by (auto simp: provider_health_def Let_def split: prod.splits)

text \<open>The health page follows the traffic: after a call that was answered, the provider that answered has no failure and
  shows whether it was reached by a fallback; after a call that failed every provider that was asked shows a failure, and
  within ten minutes of it none of them counts as connected.\<close>
theorem health_follows_traffic:
  assumes "complete w task messages agent opts st = (r, st')" and "h \<in> set (fst (provider_health w2 st'))"
    and "fst (call_chain w task agent st) = Inr chain"
  shows "(\<exists>resp i. r = Inr resp \<and> rs_last_call st' = Some i \<and> (ph_provider h = ci_provider i \<longrightarrow> ph_last_failure_at h = None \<and> ph_in_fallback h = ci_fell_back i))
    \<or> r = Inl No_provider \<and> (\<forall>pm \<in> set chain. ph_provider h = pm_provider pm \<longrightarrow>
        (\<exists>q \<in> set chain. pm_provider q = pm_provider pm \<and> ph_last_failure_at h = Some (lw_done w q)
          \<and> (lw_start w2 - lw_done w q < PROVIDER_HEALTH_FAILURE_WINDOW \<longrightarrow> \<not> ph_connected h)))"
proof -
  note ph = provider_healthD[OF assms(2)]
  obtain st1 where st1: "call_chain w task agent st = (Inr chain, st1)" using assms(3) by (metis prod.collapse)
  have "try_chain w messages opts [] chain st1 = (r, st')" using assms(1) st1 by (simp add: complete_def)
  then show ?thesis
  proof (cases rule: try_chain_cases)
    case (success pre pm post resp)
    let ?i = "\<lparr>ci_provider = pm_provider pm, ci_model = pm_model pm, ci_fell_back = (pre \<noteq> []), ci_failed_providers = map pm_provider pre\<rparr>"
    have "rs_last_call st' = Some ?i" using success(5) by (simp add: succeed_def Let_def)
    moreover have "ph_last_failure_at h = None \<and> ph_in_fallback h = (pre \<noteq> [])" if "ph_provider h = pm_provider pm"
      using ph(1,2) that success(5) succeed_fallback[of w pm resp "map pm_provider pre"] by (simp add: succeed_failures dict_get_default_def)
    ultimately show ?thesis using success(4) by simp
  next
    case failure
    have "\<exists>q \<in> set chain. pm_provider q = pm_provider pm \<and> ph_last_failure_at h = Some (lw_done w q)"
      if pm: "pm \<in> set chain" "ph_provider h = pm_provider pm" for pm
    proof -
      obtain q where q: "List.find (\<lambda>x. pm_provider x = pm_provider pm) (rev chain) = Some q"
        using pm(1) by (cases "List.find (\<lambda>x. pm_provider x = pm_provider pm) (rev chain)") (auto simp: find_None_iff)
      then have "q \<in> set chain" "pm_provider q = pm_provider pm" by (auto simp: find_Some_iff) (metis nth_mem length_rev set_rev)
      then show ?thesis using ph(1) q pm(2) failure(3) by (auto simp: fail_all_failures)
    qed
    moreover have "\<not> ph_connected h" if "ph_last_failure_at h = Some t" "lw_start w2 - t < PROVIDER_HEALTH_FAILURE_WINDOW" for t
      using ph(3)[of t] that by force
    ultimately show ?thesis using failure(2) by blast
  qed
qed

section \<open>Witnesses\<close>

text \<open>OpenAI is configured and down, the local model answers; HuggingFace reports eight tokens a call.\<close>
definition sample_llm :: llm_world where
  "sample_llm = \<lparr>lw_settings = \<lparr>ll_openai_api_key = Some ''k'', ll_anthropic_api_key = None, ll_deepseek_api_key = None, ll_gemini_api_key = None,
       ll_hf_token = Some ''h'', ll_opencode_api_key = None, ll_ollama_base_url = ''http://o'', ll_hf_daily_token_budget = 10,
       ll_hf_max_tokens_per_call = 8, ll_call_timeout_seconds = 60\<rparr>,
     lw_stored_key = (\<lambda>_. None),
     lw_routing = [(''chat'', [\<lparr>pm_provider = ''openai'', pm_model = ''g''\<rparr>, \<lparr>pm_provider = ''ollama'', pm_model = ''d''\<rparr>]),
       (''coding'', [\<lparr>pm_provider = ''huggingface'', pm_model = ''l''\<rparr>]), (''research'', [\<lparr>pm_provider = ''openai'', pm_model = ''g''\<rparr>])],
     lw_configs = None,
     lw_completion = (\<lambda>q. if lq_model q = ''openai/g'' then None else Some \<lparr>lr_content = None, lr_model = lq_model q, lr_total_tokens = Some 8\<rparr>),
     lw_start = 0, lw_done = (\<lambda>_. 1)\<rparr>"

definition fresh_router :: router_state where
  "fresh_router = \<lparr>rs_day = 0, rs_tokens_used = 0, rs_last_failure_at = [], rs_success_was_fallback = [], rs_last_call = None\<rparr>"

definition no_options :: call_options where "no_options = \<lparr>co_timeout = None, co_max_tokens = None\<rparr>"

lemmas router_defs = complete_def call_chain_def build_fallback_chain_def is_configured_def resolve_api_key_def settings_api_key_def
  truthy_text_def attempt_def litellm_kwargs_def sample_llm_def no_options_def

lemma sample_answer:
  "complete sample_llm ''chat'' [] None no_options fresh_router = (Inr \<lparr>lr_content = None, lr_model = ''ollama/d'', lr_total_tokens = Some 8\<rparr>,
     succeed sample_llm \<lparr>pm_provider = ''ollama'', pm_model = ''d''\<rparr> \<lparr>lr_content = None, lr_model = ''ollama/d'', lr_total_tokens = Some 8\<rparr> [''openai'']
       (record_failure 1 ''openai'' fresh_router))"
  by (simp add: router_defs Let_def)

lemma complete_returns_first_success_witness:
  "\<exists>r st'. complete sample_llm ''chat'' [] None no_options fresh_router = (r, st') \<and> (\<exists>i. rs_last_call st' = Some i \<and> ci_fell_back i)"
  using complete_returns_first_success[OF sample_answer] by (auto simp: sample_answer succeed_def Let_def)

lemma auto_agent_changes_nothing_witness:
  "complete sample_llm ''chat'' [] (Some ''ceo_agent'') no_options fresh_router = complete sample_llm ''chat'' [] None no_options fresh_router"
  by (rule auto_agent_changes_nothing) (simp add: sample_llm_def)


lemma health_follows_traffic_witness:
  "\<exists>st' h. complete sample_llm ''research'' [] None no_options fresh_router = (Inl No_provider, st') \<and> h \<in> set (fst (provider_health sample_llm st'))
    \<and> ph_provider h = ''openai'' \<and> \<not> ph_connected h"
proof -
  have c: "complete sample_llm ''research'' [] None no_options fresh_router = (Inl No_provider, record_failure 1 ''openai'' fresh_router)"
    by (simp add: router_defs Let_def)
  have chain: "fst (call_chain sample_llm ''research'' None fresh_router) = Inr [\<lparr>pm_provider = ''openai'', pm_model = ''g''\<rparr>]"
    by (simp add: router_defs Let_def)
  let ?hs = "fst (provider_health sample_llm (record_failure 1 ''openai'' fresh_router))"
  have "map ph_provider ?hs = KNOWN_PROVIDERS"
    using ask_providers_keys[of sample_llm KNOWN_PROVIDERS "record_failure 1 ''openai'' fresh_router"]
    by (cases "ask_providers sample_llm KNOWN_PROVIDERS (record_failure 1 ''openai'' fresh_router)") (simp add: provider_health_def comp_def case_prod_beta Let_def)
  from arg_cong[OF this, of set] have "''openai'' \<in> ph_provider ` set ?hs" by (simp add: KNOWN_PROVIDERS_def)
  then obtain h where h: "h \<in> set ?hs" "ph_provider h = ''openai''" by (auto simp: image_iff)
  show ?thesis using health_follows_traffic[OF c h(1) chain] c h by (auto simp: sample_llm_def PROVIDER_HEALTH_FAILURE_WINDOW_def)
qed

end
