(* ===== verification/AgentSettings.thy ===== *)
theory AgentSettings
  imports LlmRouter Chat Access
begin

text \<open>
  The prompts of the agents and their versions (\<open>src/agents/prompt_registry.py\<close>), the settings of an agent
  (\<open>src/api/routers/agent_settings.py\<close>) and their effect on a call. The prompt files and their registry are part of the
  state, as the hot swap writes them; a file is named by its directory and version.
\<close>

section \<open>State\<close>

record prompt_version =
  pv_id :: nat
  pv_agent_slug :: string
  pv_kind :: string
  pv_version :: int
  pv_content :: string
  pv_author :: string
  pv_change_summary :: string
  pv_is_active :: bool
  pv_created_at :: int

record manifest_entry =
  me_prompt_id :: string
  me_active_version :: int

record settings_state =
  ss_db :: db
  ss_prompts :: "prompt_version list"
  ss_configs :: "agent_config list"
  ss_router :: router_state
  ss_manifest :: "(string, manifest_entry) dict"
  ss_files :: "(string \<times> int, string) dict"
  ss_next :: nat

section \<open>The registry of prompts\<close>

definition ends_with :: "string \<Rightarrow> string \<Rightarrow> bool" where
  "ends_with e s \<longleftrightarrow> length e \<le> length s \<and> drop (length s - length e) s = e"

definition chop :: "string \<Rightarrow> string \<Rightarrow> string" where
  "chop e s = take (length s - length e) s"

definition resolve_slug :: "string \<Rightarrow> string \<Rightarrow> string \<times> string" where
  "resolve_slug slug kind =
    (if kind = ''system'' then
       if ends_with ''_task'' slug then (chop ''_task'' slug, ''task'')
       else if ends_with ''_chat'' slug then (chop ''_chat'' slug, ''chat'')
       else (slug, kind)
     else (slug, kind))"

definition dir_slug :: "string \<Rightarrow> string \<Rightarrow> string" where
  "dir_slug base kind = (if kind = ''system'' then base else base @ ''_'' @ kind)"

definition rows_of :: "string \<Rightarrow> string \<Rightarrow> prompt_version list \<Rightarrow> prompt_version list" where
  "rows_of base kind = filter (\<lambda>v. pv_agent_slug v = base \<and> pv_kind v = kind)"

text \<open>The flag says whether the database can be read.\<close>
definition active_content_from_db :: "bool \<Rightarrow> string \<Rightarrow> string \<Rightarrow> settings_state \<Rightarrow> string option" where
  "active_content_from_db reachable base kind st =
    (if reachable then map_option pv_content (List.find pv_is_active (rows_of base kind (ss_prompts st))) else None)"

text \<open>\<open>None\<close> is \<open>PromptNotFoundError\<close>.\<close>
definition get_active_prompt :: "bool \<Rightarrow> string \<Rightarrow> string \<Rightarrow> settings_state \<Rightarrow> string option" where
  "get_active_prompt reachable slug kind st =
    (case resolve_slug slug kind of (base, rk) \<Rightarrow>
       (case active_content_from_db reachable base rk st of
          Some c \<Rightarrow> Some c
        | None \<Rightarrow>
          (let d = dir_slug base rk in
           case dict_get (ss_manifest st) d of
             None \<Rightarrow> None
           | Some e \<Rightarrow> map_option strip (dict_get (ss_files st) (d, me_active_version e)))))"

definition get_prompt_id :: "string \<Rightarrow> settings_state \<Rightarrow> string option" where
  "get_prompt_id slug st = map_option me_prompt_id (dict_get (ss_manifest st) slug)"

definition prompt_file_version :: "string \<Rightarrow> int \<Rightarrow> settings_state \<Rightarrow> string option" where
  "prompt_file_version slug v st = map_option strip (dict_get (ss_files st) (slug, v))"

text \<open>Every version of a directory, in ascending order.\<close>
definition list_versions :: "string \<Rightarrow> settings_state \<Rightarrow> int list" where
  "list_versions slug st = sort (map snd (filter (\<lambda>k. fst k = slug) (map fst (ss_files st))))"

text \<open>The one active row of an agent and kind, switched in two writes.\<close>
definition switch_active :: "string \<Rightarrow> string \<Rightarrow> int \<Rightarrow> prompt_version list \<Rightarrow> prompt_version list" where
  "switch_active base kind v rows =
    (let cleared = update_where (\<lambda>r. pv_agent_slug r = base \<and> pv_kind r = kind \<and> pv_version r \<noteq> v) (\<lambda>r. r\<lparr>pv_is_active := False\<rparr>) rows in
     update_first (\<lambda>r. pv_agent_slug r = base \<and> pv_kind r = kind \<and> pv_version r = v) (\<lambda>r. r\<lparr>pv_is_active := True\<rparr>) cleared)"

definition db_set_active :: "string \<Rightarrow> string \<Rightarrow> int \<Rightarrow> settings_state \<Rightarrow> settings_state" where
  "db_set_active base kind v st =
    (case row_by pv_version v (rows_of base kind (ss_prompts st)) of
       None \<Rightarrow> st
     | Some _ \<Rightarrow> st\<lparr>ss_prompts := switch_active base kind v (ss_prompts st)\<rparr>)"

definition activate :: "env \<Rightarrow> string \<Rightarrow> string \<Rightarrow> int \<Rightarrow> string \<Rightarrow> settings_state \<Rightarrow> settings_state option" where
  "activate env slug kind v actor st =
    (case resolve_slug slug kind of (base, rk) \<Rightarrow>
       (let rows = rows_of base rk (ss_prompts st) in
        case row_by pv_version v rows of
          None \<Rightarrow> None
        | Some target \<Rightarrow>
          (let before = map_option pv_version (List.find pv_is_active rows);
               about = (\<lambda>x. JObj [(''agent_slug'', JStr base), (''kind'', JStr rk), (''active_version'', x)]) in
           Some (st\<lparr>ss_prompts := switch_active base rk v (ss_prompts st),
             ss_db := snd (write_audit_entry env (audit_entry Human actor ''PROMPT_VERSION_ACTIVATED'' ''PromptVersion'' (Some (pv_id target))
               (Some (about (opt_json JInt before))) (Some (about (JInt v)))) (ss_db st))\<rparr>))))"

definition rollback_target :: "prompt_version list \<Rightarrow> int option" where
  "rollback_target rows =
    (let current = map_option pv_version (List.find pv_is_active rows);
         earlier = sort (filter (\<lambda>v. case current of None \<Rightarrow> True | Some c \<Rightarrow> v < c) (map pv_version rows)) in
     if earlier = [] then None else Some (last earlier))"

definition rollback :: "env \<Rightarrow> string \<Rightarrow> string \<Rightarrow> string \<Rightarrow> settings_state \<Rightarrow> (int \<times> settings_state) option" where
  "rollback env slug kind actor st =
    (case resolve_slug slug kind of (base, rk) \<Rightarrow>
       (case rollback_target (rows_of base rk (ss_prompts st)) of
          None \<Rightarrow> None
        | Some v \<Rightarrow> map_option (\<lambda>st'. (v, st')) (activate env base rk v actor st)))"

text \<open>The hot swap of the files; the row is switched too, as far as the database can be reached.\<close>
definition set_active_version :: "bool \<Rightarrow> string \<Rightarrow> int \<Rightarrow> settings_state \<Rightarrow> settings_state option" where
  "set_active_version reachable slug v st =
    (case dict_get (ss_manifest st) slug of
       None \<Rightarrow> None
     | Some e \<Rightarrow>
       if dict_get (ss_files st) (slug, v) = None then None
       else (let st1 = st\<lparr>ss_manifest := dict_set slug (e\<lparr>me_active_version := v\<rparr>) (ss_manifest st)\<rparr> in
         Some (if reachable then (case resolve_slug slug ''system'' of (base, kind) \<Rightarrow> db_set_active base kind v st1) else st1)))"

section \<open>The endpoints\<close>

definition llm_backed :: "string \<Rightarrow> agent_config option \<Rightarrow> bool" where
  "llm_backed slug row =
    (case row of
       Some r \<Rightarrow> ac_is_llm_backed r
     | None \<Rightarrow>
       (case dict_get AGENT_META slug of
          Some m \<Rightarrow> am_is_llm_backed m
        | None \<Rightarrow>
          (case dict_get AGENT_META (if ends_with ''_agent'' slug then chop ''_agent'' slug else slug) of Some m \<Rightarrow> am_is_llm_backed m | None \<Rightarrow> True)))"

definition versions_of :: "string \<Rightarrow> settings_state \<Rightarrow> prompt_version list" where
  "versions_of slug st = map snd (sort_keys (map (\<lambda>v. (pv_kind v, v)) (sort_key pv_version (filter (\<lambda>v. pv_agent_slug v = slug) (ss_prompts st)))))"

record agent_config_out =
  co_slug :: string
  co_llm_backed :: bool
  co_mode :: "string option"
  co_provider_model :: string
  co_precedence :: string
  co_active_prompts :: "(string \<times> int option) list"
  co_updated_by :: "string option"

definition active_prompts :: "prompt_version list \<Rightarrow> (string \<times> int option) list" where
  "active_prompts versions =
    map (\<lambda>k. (k, map_option pv_version (List.find (\<lambda>v. pv_kind v = k \<and> pv_is_active v) versions)))
      (case remdups (map pv_kind versions) of [] \<Rightarrow> [''system''] | ks \<Rightarrow> ks)"

definition get_config :: "string \<Rightarrow> settings_state \<Rightarrow> agent_config_out" where
  "get_config slug st =
    (let row = row_by ac_slug slug (ss_configs st);
         auto = \<lparr>co_slug = slug, co_llm_backed = True, co_mode = Some ''AUTO'', co_provider_model = ''AUTO'', co_precedence = ''auto (routing.yaml)'',
           co_active_prompts = active_prompts (versions_of slug st), co_updated_by = Option.bind row ac_updated_by\<rparr> in
     if \<not> llm_backed slug row
     then auto\<lparr>co_llm_backed := False, co_mode := None, co_provider_model := ''deterministic'', co_precedence := ''deterministic''\<rparr>
     else case row of
         None \<Rightarrow> auto
       | Some r \<Rightarrow>
         (case (ac_provider r, ac_model r) of
            (Some p, Some m) \<Rightarrow>
              if ac_mode r = Some ''CUSTOM'' \<and> p \<noteq> [] \<and> m \<noteq> []
              then auto\<lparr>co_mode := Some ''CUSTOM'', co_provider_model := p @ ''/'' @ m, co_precedence := ''custom (agent config)''\<rparr> else auto
          | _ \<Rightarrow> auto))"

definition get_prompt_version :: "string \<Rightarrow> string \<Rightarrow> int \<Rightarrow> settings_state \<Rightarrow> api_failure + prompt_version" where
  "get_prompt_version slug kind v st =
    (case row_by pv_version v (rows_of slug kind (ss_prompts st)) of None \<Rightarrow> Inl (Status 404) | Some r \<Rightarrow> Inr r)"

definition create_prompt_version ::
  "env \<Rightarrow> string \<Rightarrow> string \<Rightarrow> string \<Rightarrow> string \<Rightarrow> user_row \<Rightarrow> settings_state \<Rightarrow> (api_failure + prompt_version) \<times> settings_state" where
  "create_prompt_version env slug kind content summary u st =
    (if content = [] \<or> summary = [] then (Inl (Status 422), st)
     else
       (let existing = map pv_version (rows_of slug kind (ss_prompts st));
            v = (if existing \<noteq> [] then Max (set existing) + 1 else 1);
            row = \<lparr>pv_id = ss_next st, pv_agent_slug = slug, pv_kind = kind, pv_version = v, pv_content = content, pv_author = us_email u,
              pv_change_summary = summary, pv_is_active = False, pv_created_at = e_now env\<rparr> in
        (Inr row, st\<lparr>ss_prompts := ss_prompts st @ [row], ss_next := Suc (ss_next st),
           ss_db := snd (write_audit_entry env (audit_entry Human (us_email u) ''PROMPT_VERSION_CREATED'' ''PromptVersion'' (Some (pv_id row)) None
             (Some (JObj [(''agent_slug'', JStr slug), (''kind'', JStr kind), (''version'', JInt v)]))) (ss_db st))\<rparr>)))"

text \<open>The row an endpoint answers with.\<close>
definition one_version :: "string \<Rightarrow> string \<Rightarrow> int \<Rightarrow> settings_state \<Rightarrow> api_failure + prompt_version" where
  "one_version slug kind v st = (case resolve_slug slug kind of (base, rk) \<Rightarrow> get_prompt_version base rk v st)"

definition activate_prompt_version :: "env \<Rightarrow> string \<Rightarrow> string \<Rightarrow> int \<Rightarrow> user_row \<Rightarrow> settings_state \<Rightarrow> (api_failure + prompt_version) \<times> settings_state" where
  "activate_prompt_version env slug kind v u st =
    (case activate env slug kind v (us_email u) st of
       None \<Rightarrow> (Inl (Status 404), st)
     | Some st1 \<Rightarrow> (one_version slug kind v st1, st1))"

definition rollback_prompt_version :: "env \<Rightarrow> string \<Rightarrow> string \<Rightarrow> user_row \<Rightarrow> settings_state \<Rightarrow> (api_failure + prompt_version) \<times> settings_state" where
  "rollback_prompt_version env slug kind u st =
    (case rollback env slug kind (us_email u) st of
       None \<Rightarrow> (Inl (Status 409), st)
     | Some (v, st1) \<Rightarrow> (one_version slug kind v st1, st1))"

record prompt_summary =
  psu_slug :: string
  psu_prompt_id :: string
  psu_active_version :: int
  psu_available :: "int list"

definition summary_of :: "settings_state \<Rightarrow> string \<times> manifest_entry \<Rightarrow> prompt_summary" where
  "summary_of st = (\<lambda>(slug, e). \<lparr>psu_slug = slug, psu_prompt_id = me_prompt_id e, psu_active_version = me_active_version e,
     psu_available = list_versions slug st\<rparr>)"

definition list_prompts :: "settings_state \<Rightarrow> prompt_summary list" where
  "list_prompts st = map (summary_of st) (ss_manifest st)"

text \<open>The endpoint of the hot swap.\<close>
definition put_active_version :: "bool \<Rightarrow> string \<Rightarrow> int \<Rightarrow> settings_state \<Rightarrow> (api_failure + prompt_summary) \<times> settings_state" where
  "put_active_version reachable slug v st =
    (case set_active_version reachable slug v st of
       None \<Rightarrow> (Inl (Status 404), st)
     | Some st1 \<Rightarrow> (case dict_get (ss_manifest st1) slug of None \<Rightarrow> (Inl Uncaught, st1) | Some e \<Rightarrow> (Inr (summary_of st1 (slug, e)), st1)))"

definition text_or_null :: "string option \<Rightarrow> json" where "text_or_null = opt_json JStr"

definition provider_state :: "string option \<Rightarrow> string option \<Rightarrow> string option \<Rightarrow> json" where
  "provider_state mode p m = JObj [(''mode'', text_or_null mode), (''provider'', text_or_null p), (''model'', text_or_null m)]"

text \<open>\<open>set_provider_model\<close>; an AUTO setting clears the pair.\<close>
definition set_provider_model ::
  "env \<Rightarrow> llm_world \<Rightarrow> string \<Rightarrow> string \<Rightarrow> string option \<Rightarrow> string option \<Rightarrow> user_row \<Rightarrow> settings_state \<Rightarrow> (api_failure + agent_config_out) \<times> settings_state" where
  "set_provider_model env w slug mode p m u st =
    (let row = row_by ac_slug slug (ss_configs st) in
     if mode \<notin> {''AUTO'', ''CUSTOM''} then (Inl (Status 422), st)
     else if \<not> llm_backed slug row then (Inl (Status 422), st)
     else if mode = ''CUSTOM'' \<and> \<not> (truthy_text p \<and> truthy_text m) then (Inl (Status 422), st)
     else
       (let (ok, router) = (if mode = ''CUSTOM'' then is_valid_pair w (the p) (the m) (ss_router st) else (True, ss_router st));
            st1 = st\<lparr>ss_router := router\<rparr> in
        if \<not> ok then (Inl (Status 422), st1)
        else
          (let custom = mode = ''CUSTOM'';
               set_row = (\<lambda>r. r\<lparr>ac_mode := Some mode, ac_provider := if custom then p else None, ac_model := if custom then m else None,
                 ac_updated_by := Some (us_email u), ac_updated_at := e_now env\<rparr>);
               configs = (case row of
                 None \<Rightarrow> ss_configs st @ [set_row \<lparr>ac_id = ss_next st, ac_slug = slug, ac_is_llm_backed = True, ac_mode = None, ac_provider = None, ac_model = None,
                   ac_updated_by = None, ac_updated_at = e_now env\<rparr>]
               | Some _ \<Rightarrow> update_first (\<lambda>r. ac_slug r = slug) set_row (ss_configs st));
               st2 = st1\<lparr>ss_configs := configs, ss_next := (if row = None then Suc (ss_next st) else ss_next st),
                 ss_db := snd (write_audit_entry env (audit_entry Human (us_email u) ''AGENT_PROVIDER_MODEL_CHANGED'' ''AgentConfig''
                   (Some (case row of Some r \<Rightarrow> ac_id r | None \<Rightarrow> ss_next st))
                   (map_option (\<lambda>r. provider_state (ac_mode r) (ac_provider r) (ac_model r)) row)
                   (Some (provider_state (Some mode) (if custom then p else None) (if custom then m else None)))) (ss_db st))\<rparr> in
           (Inr (get_config slug st2), st2))))"

section \<open>The test panel\<close>

datatype test_error = Prompt_missing | Invalid_pair | Provider_raised | All_providers_failed

record test_result =
  ts_provider :: "string option"
  ts_model :: "string option"
  ts_structured_valid :: bool
  ts_errors :: "test_error list"

definition contains_text :: "string \<Rightarrow> string \<Rightarrow> bool" where
  "contains_text needle s = list_ex (\<lambda>i. take (length needle) (drop i s) = needle) [0..<Suc (length s)]"

definition probe_ok :: "llm_response \<Rightarrow> bool" where
  "probe_ok r = (let c = (case lr_content r of Some s \<Rightarrow> s | None \<Rightarrow> []) in contains_text ([CHR 0x22] @ ''ok'' @ [CHR 0x22]) c \<and> contains_text ''true'' (lower c))"

definition probe_messages :: "string \<Rightarrow> (string \<times> string) list" where
  "probe_messages system =
    [(''system'', system), (''user'', ''Reply with exactly this JSON: {'' @ [CHR 0x22] @ ''ok'' @ [CHR 0x22] @ '': true}'')]"

text \<open>The one call of a test with a pair of its own: it does not go through the gateway.\<close>
definition direct_call :: "llm_world \<Rightarrow> (string \<times> string) list \<Rightarrow> provider_model \<Rightarrow> llm_response option" where
  "direct_call w messages pm =
    (case litellm_kwargs w pm of
       None \<Rightarrow> None
     | Some target \<Rightarrow> lw_completion w \<lparr>lq_model = lt_model target, lq_api_base = lt_api_base target, lq_api_key = lt_api_key target,
         lq_messages = messages, lq_timeout = ll_call_timeout_seconds (lw_settings w), lq_max_tokens = None\<rparr>)"

definition test_agent_config ::
  "llm_world \<Rightarrow> bool \<Rightarrow> string \<Rightarrow> string \<Rightarrow> string option \<Rightarrow> string option \<Rightarrow> settings_state \<Rightarrow> test_result \<times> settings_state" where
  "test_agent_config w reachable slug kind p m st =
    (let (system, errs) = (case get_active_prompt reachable slug kind st of Some s \<Rightarrow> (s, []) | None \<Rightarrow> (''You are a test agent.'', [Prompt_missing]));
         messages = probe_messages system in
     if truthy_text p \<and> truthy_text m then
       (case is_valid_pair w (the p) (the m) (ss_router st) of
          (ok, router) \<Rightarrow>
            (let (valid, errs2) = (if \<not> ok then (False, [Invalid_pair])
                 else case direct_call w messages \<lparr>pm_provider = the p, pm_model = the m\<rparr> of
                     None \<Rightarrow> (False, [Provider_raised]) | Some r \<Rightarrow> (probe_ok r, [])) in
             (\<lparr>ts_provider = p, ts_model = m, ts_structured_valid = valid, ts_errors = errs @ errs2\<rparr>, st\<lparr>ss_router := router\<rparr>)))
     else
       (case complete w ''orchestration'' messages None \<lparr>co_timeout = None, co_max_tokens = None\<rparr> (ss_router st) of
          (Inr r, router) \<Rightarrow> (\<lparr>ts_provider = p, ts_model = Some (lr_model r), ts_structured_valid = probe_ok r, ts_errors = errs\<rparr>, st\<lparr>ss_router := router\<rparr>)
        | (Inl e, router) \<Rightarrow> (\<lparr>ts_provider = p, ts_model = m, ts_structured_valid = False,
            ts_errors = errs @ [if e = No_provider then All_providers_failed else Provider_raised]\<rparr>, st\<lparr>ss_router := router\<rparr>)))"

text \<open>A test with a pair of its own is not counted against the daily budget and leaves no trace on the health page.\<close>
lemma direct_test_is_not_counted:
  assumes "truthy_text p" "truthy_text m" and "test_agent_config w reachable slug kind p m st = (r, st')"
  shows "quiet (ss_router st) (ss_router st') \<and> ss_prompts st' = ss_prompts st \<and> ss_configs st' = ss_configs st"
  using assms by (auto simp: test_agent_config_def Let_def split: prod.splits dest: is_valid_pair_quiet)

section \<open>One active version\<close>

definition triple :: "prompt_version \<Rightarrow> string \<times> string \<times> int" where
  "triple r = (pv_agent_slug r, pv_kind r, pv_version r)"

definition prompts_ok :: "prompt_version list \<Rightarrow> bool" where
  "prompts_ok rows \<longleftrightarrow> distinct (map triple rows)
    \<and> (\<forall>r \<in> set rows. \<forall>s \<in> set rows. pv_is_active r \<and> pv_is_active s \<and> pv_agent_slug r = pv_agent_slug s \<and> pv_kind r = pv_kind s
        \<longrightarrow> pv_version r = pv_version s)
    \<and> (\<forall>r \<in> set rows. pv_is_active r \<longrightarrow> resolve_slug (pv_agent_slug r) (pv_kind r) = (pv_agent_slug r, pv_kind r))"

text \<open>A request of any user.\<close>
inductive settings_step :: "settings_state \<Rightarrow> settings_state \<Rightarrow> bool" where
  se_create: "settings_step st (snd (create_prompt_version env slug kind content summary u st))"
| se_activate: "settings_step st (snd (activate_prompt_version env slug kind v u st))"
| se_rollback: "settings_step st (snd (rollback_prompt_version env slug kind u st))"
| se_hot_swap: "settings_step st (snd (put_active_version reachable slug v st))"
| se_provider: "settings_step st (snd (set_provider_model env w slug mode p m u st))"
| se_test: "settings_step st (snd (test_agent_config w reachable slug kind p m st))"

lemma resolve_slug_idem: "resolve_slug slug kind = (b, k) \<Longrightarrow> resolve_slug b k = (b, k)"
  by (auto simp: resolve_slug_def split: if_splits)

lemma update_first_where:
  "distinct (map g rows) \<Longrightarrow> (\<And>r. P r \<Longrightarrow> g r = c) \<Longrightarrow> update_first P f rows = update_where P f rows"
proof (induction rows)
  case (Cons r rows)
  show ?case
  proof (cases "P r")
    case True
    then have "\<not> P s" if "s \<in> set rows" for s using Cons.prems that by (metis distinct.simps(2) image_eqI list.simps(9) list.set_map)
    then have "update_where P f rows = rows" by (simp add: update_where_def map_idI)
    then show ?thesis using True by (simp add: update_where_def)
  next
    case False
    then show ?thesis using Cons by (simp add: update_where_def)
  qed
qed simp

lemma switch_active_map:
  assumes "distinct (map triple rows)"
  shows "switch_active base kind v rows
    = map (\<lambda>r. if pv_agent_slug r = base \<and> pv_kind r = kind then r\<lparr>pv_is_active := (pv_version r = v)\<rparr> else r) rows"
proof -
  let ?c = "update_where (\<lambda>r. pv_agent_slug r = base \<and> pv_kind r = kind \<and> pv_version r \<noteq> v) (\<lambda>r. r\<lparr>pv_is_active := False\<rparr>) rows"
  have "map triple ?c = map triple rows" by (simp add: update_where_def triple_def)
  then have "distinct (map triple ?c)" using assms by simp
  from update_first_where[OF this, of _ "(base, kind, v)"] show ?thesis
    by (simp add: switch_active_def Let_def triple_def update_where_def)
qed

lemma prompts_distinct: "prompts_ok rows \<Longrightarrow> distinct (map triple rows)"
  by (simp add: prompts_ok_def)

lemma switch_activeD:
  assumes "r \<in> set (switch_active base kind v rows)" "distinct (map triple rows)"
  shows "pv_agent_slug r = base \<and> pv_kind r = kind \<and> (pv_is_active r \<longleftrightarrow> pv_version r = v)
    \<or> r \<in> set rows \<and> \<not> (pv_agent_slug r = base \<and> pv_kind r = kind)"
  using assms(1) unfolding switch_active_map[OF assms(2)] by (auto split: if_splits)

lemma switch_active_ok:
  assumes "prompts_ok rows" "resolve_slug base kind = (base, kind)"
  shows "prompts_ok (switch_active base kind v rows)"
proof -
  note d = prompts_distinct[OF assms(1)]
  have "map triple (switch_active base kind v rows) = map triple rows" unfolding switch_active_map[OF d] by (simp add: triple_def)
  then have d': "distinct (map triple (switch_active base kind v rows))" using d by simp
  show ?thesis unfolding prompts_ok_def
  proof (intro conjI d' ballI impI)
    fix r s assume r: "r \<in> set (switch_active base kind v rows)" and s: "s \<in> set (switch_active base kind v rows)"
      and same: "pv_is_active r \<and> pv_is_active s \<and> pv_agent_slug r = pv_agent_slug s \<and> pv_kind r = pv_kind s"
    note sides = switch_activeD[OF r d] switch_activeD[OF s d]
    show "pv_version r = pv_version s"
    proof (cases "pv_agent_slug r = base \<and> pv_kind r = kind")
      case True
      then have "pv_agent_slug s = base \<and> pv_kind s = kind" using same by metis
      then have "pv_version r = v" "pv_version s = v" using True sides same by blast+
      then show ?thesis by simp
    next
      case False
      then have "\<not> (pv_agent_slug s = base \<and> pv_kind s = kind)" using same by metis
      then have "r \<in> set rows" "s \<in> set rows" using False sides by blast+
      then show ?thesis using same assms(1) unfolding prompts_ok_def by blast
    qed
  next
    fix r assume r: "r \<in> set (switch_active base kind v rows)" "pv_is_active r"
    show "resolve_slug (pv_agent_slug r) (pv_kind r) = (pv_agent_slug r, pv_kind r)"
      using switch_activeD[OF r(1) d] r(2) assms unfolding prompts_ok_def by blast
  qed
qed

lemma prompts_ok_append:
  assumes "prompts_ok rows" "triple row \<notin> triple ` set rows" "\<not> pv_is_active row" shows "prompts_ok (rows @ [row])"
proof (unfold prompts_ok_def, intro conjI ballI impI)
  show "distinct (map triple (rows @ [row]))" using assms(2) prompts_distinct[OF assms(1)] by simp
next
  fix r s assume i: "r \<in> set (rows @ [row])" "s \<in> set (rows @ [row])"
    and same: "pv_is_active r \<and> pv_is_active s \<and> pv_agent_slug r = pv_agent_slug s \<and> pv_kind r = pv_kind s"
  have "r \<in> set rows" "s \<in> set rows" using i same assms(3) by auto
  then show "pv_version r = pv_version s" using same assms(1) unfolding prompts_ok_def by blast
next
  fix r assume "r \<in> set (rows @ [row])" "pv_is_active r"
  then have "r \<in> set rows" using assms(3) by auto
  then show "resolve_slug (pv_agent_slug r) (pv_kind r) = (pv_agent_slug r, pv_kind r)"
    using \<open>pv_is_active r\<close> assms(1) unfolding prompts_ok_def by blast
qed

lemma above_maximum: "xs \<noteq> [] \<Longrightarrow> Max (set xs) + 1 \<notin> set (xs :: int list)"
  by (meson List.finite_set Max_ge less_le_not_le zless_add1_eq)

lemma create_ok:
  assumes "prompts_ok (ss_prompts st)" shows "prompts_ok (ss_prompts (snd (create_prompt_version env slug kind content summary u st)))"
proof (cases "content = [] \<or> summary = []")
  case False
  let ?old = "map pv_version (rows_of slug kind (ss_prompts st))"
  define v where "v = (if ?old \<noteq> [] then Max (set ?old) + 1 else 1)"
  have "v \<notin> set ?old" using above_maximum[of ?old] unfolding v_def by (cases "?old = []") simp_all
  then have new: "(slug, kind, v) \<notin> triple ` set (ss_prompts st)" by (auto simp: rows_of_def triple_def)
  have "\<exists>row. ss_prompts (snd (create_prompt_version env slug kind content summary u st)) = ss_prompts st @ [row]
      \<and> triple row = (slug, kind, v) \<and> \<not> pv_is_active row"
    using False unfolding v_def by (simp add: create_prompt_version_def Let_def triple_def)
  then show ?thesis using prompts_ok_append[OF assms] new by auto
qed (use assms in \<open>simp add: create_prompt_version_def\<close>)

lemma activate_prompts:
  assumes "activate env slug kind v actor st = Some st'"
  obtains base rk row where "resolve_slug slug kind = (base, rk)" "row \<in> set (ss_prompts st)" "triple row = (base, rk, v)"
    "ss_prompts st' = switch_active base rk v (ss_prompts st)" "ss_files st' = ss_files st" "ss_manifest st' = ss_manifest st"
    "length (db_audit (ss_db st')) = Suc (length (db_audit (ss_db st)))"
proof (cases "resolve_slug slug kind")
  case (Pair base rk)
  obtain row where row: "row_by pv_version v (rows_of base rk (ss_prompts st)) = Some row"
    using assms Pair by (cases "row_by pv_version v (rows_of base rk (ss_prompts st))") (simp_all add: activate_def Let_def)
  have "row \<in> set (ss_prompts st)" "triple row = (base, rk, v)"
    using row_by_SomeD[OF row] by (auto simp: rows_of_def triple_def)
  moreover have "ss_prompts st' = switch_active base rk v (ss_prompts st)" "ss_files st' = ss_files st" "ss_manifest st' = ss_manifest st"
    "length (db_audit (ss_db st')) = Suc (length (db_audit (ss_db st)))"
    using assms by (auto simp: activate_def Let_def Pair row write_audit_entry_def)
  ultimately show ?thesis using that Pair by blast
qed

lemma activate_ok: "activate env slug kind v actor st = Some st' \<Longrightarrow> prompts_ok (ss_prompts st) \<Longrightarrow> prompts_ok (ss_prompts st')"
  by (elim activate_prompts) (simp add: switch_active_ok resolve_slug_idem)

lemma hot_swap_prompts:
  assumes "set_active_version reachable slug v st = Some st'"
  shows "ss_prompts st' = ss_prompts st \<or> (\<exists>base rk. resolve_slug slug ''system'' = (base, rk) \<and> ss_prompts st' = switch_active base rk v (ss_prompts st))"
  using assms by (auto simp: set_active_version_def db_set_active_def Let_def split: option.splits if_splits prod.splits)

lemma provider_prompts [simp]: "ss_prompts (snd (set_provider_model env w slug mode p m u st)) = ss_prompts st"
  by (auto simp: set_provider_model_def Let_def split: prod.split)

lemma test_prompts [simp]: "ss_prompts (snd (test_agent_config w reachable slug kind p m st)) = ss_prompts st"
  by (auto simp: test_agent_config_def Let_def split: prod.split sum.split)

lemma settings_step_ok: "settings_step st st' \<Longrightarrow> prompts_ok (ss_prompts st) \<Longrightarrow> prompts_ok (ss_prompts st')"
proof (induction rule: settings_step.induct)
  case (se_rollback st env slug kind u)
  then show ?case
    by (auto simp: rollback_prompt_version_def rollback_def split: option.splits prod.splits intro: activate_ok)
next
  case (se_hot_swap st reachable slug v)
  then show ?case
    by (auto simp: put_active_version_def split: option.splits dest!: hot_swap_prompts intro!: switch_active_ok intro: resolve_slug_idem)
qed (auto simp: activate_prompt_version_def create_ok split: option.splits intro: activate_ok)

lemma few_of_one:
  assumes "distinct (map f xs)" "\<And>x y. x \<in> set xs \<Longrightarrow> y \<in> set xs \<Longrightarrow> f x = f y" shows "length xs \<le> 1"
proof (cases xs)
  case (Cons x rest)
  show ?thesis
  proof (cases rest)
    case (Cons y ys)
    then have "f x \<noteq> f y" "f x = f y" using assms \<open>xs = x # rest\<close> by auto
    then show ?thesis by simp
  qed (simp add: Cons)
qed simp

lemma active_unique:
  assumes "prompts_ok rows" shows "length (filter pv_is_active (rows_of base kind rows)) \<le> 1"
proof -
  let ?a = "filter pv_is_active (rows_of base kind rows)"
  have "distinct (map triple ?a)" using assms unfolding prompts_ok_def rows_of_def by (intro distinct_map_filter) simp
  moreover have "triple r = triple s" if "r \<in> set ?a" "s \<in> set ?a" for r s
    using assms that by (auto simp: prompts_ok_def rows_of_def triple_def)
  ultimately show ?thesis by (rule few_of_one)
qed

text \<open>C23. The prompt of an agent is never ambiguous: however versions are created, activated, rolled back and hot-swapped, no
  version number is given twice and at most one version of an agent and kind is active.\<close>
theorem prompts_stay_unambiguous:
  assumes "settings_step\<^sup>*\<^sup>* st0 st" and "prompts_ok (ss_prompts st0)"
  shows "distinct (map triple (ss_prompts st)) \<and> length (filter pv_is_active (rows_of base kind (ss_prompts st))) \<le> 1"
proof -
  have "prompts_ok (ss_prompts st)" using assms by (induction rule: rtranclp_induct) (auto intro: settings_step_ok)
  then show ?thesis using prompts_distinct active_unique by blast
qed

section \<open>What is served\<close>

lemma one_version_active:
  "prompts_ok rows \<Longrightarrow> r \<in> set rows \<Longrightarrow> s \<in> set rows \<Longrightarrow> pv_is_active r \<Longrightarrow> pv_is_active s \<Longrightarrow> pv_agent_slug r = pv_agent_slug s
    \<Longrightarrow> pv_kind r = pv_kind s \<Longrightarrow> pv_version r = pv_version s"
  unfolding prompts_ok_def by blast

lemma find_in: "List.find P xs = Some x \<Longrightarrow> x \<in> set xs \<and> P x"
  by (induction xs) (auto split: if_splits)

lemma find_rows_active:
  assumes "prompts_ok rows" "r \<in> set rows" "pv_agent_slug r = base" "pv_kind r = kind" "pv_is_active r"
  shows "List.find pv_is_active (rows_of base kind rows) = Some r"
proof -
  obtain s where s: "List.find pv_is_active (rows_of base kind rows) = Some s"
    using assms(2-5) by (cases "List.find pv_is_active (rows_of base kind rows)") (auto simp: find_None_iff rows_of_def)
  then have "s \<in> set rows" "pv_agent_slug s = base" "pv_kind s = kind" "pv_is_active s"
    using find_in[OF s] by (auto simp: rows_of_def)
  then have "triple s = triple r" using one_version_active[OF assms(1) \<open>s \<in> set rows\<close> assms(2)] assms(3-5) by (simp add: triple_def)
  then have "s = r" using prompts_distinct[OF assms(1)] \<open>s \<in> set rows\<close> assms(2) by (auto simp: distinct_map inj_on_def)
  then show ?thesis using s by simp
qed

lemma switch_active_served:
  assumes "prompts_ok rows" "row \<in> set rows" "triple row = (base, kind, v)" "resolve_slug base kind = (base, kind)"
  shows "map_option pv_content (List.find pv_is_active (rows_of base kind (switch_active base kind v rows))) = Some (pv_content row)"
proof -
  have "row\<lparr>pv_is_active := True\<rparr> \<in> set (switch_active base kind v rows)"
    using assms(2,3) unfolding switch_active_map[OF prompts_distinct[OF assms(1)]] by (auto simp: triple_def image_iff intro!: bexI[of _ row])
  from find_rows_active[OF switch_active_ok[OF assms(1,4)] this, of base kind] assms(3) show ?thesis by (simp add: triple_def)
qed

lemma switch_active_others:
  assumes "prompts_ok rows" "(b, k) \<noteq> (base, kind)"
  shows "rows_of b k (switch_active base kind v rows) = rows_of b k rows"
proof -
  have "filter (\<lambda>r. pv_agent_slug r = b \<and> pv_kind r = k) (map (\<lambda>r. if pv_agent_slug r = base \<and> pv_kind r = kind then r\<lparr>pv_is_active := pv_version r = v\<rparr> else r) xs)
    = filter (\<lambda>r. pv_agent_slug r = b \<and> pv_kind r = k) xs" for xs
    using assms(2) by (induction xs) auto
  then show ?thesis unfolding rows_of_def switch_active_map[OF prompts_distinct[OF assms(1)]] .
qed

lemma served_from_db: "resolve_slug slug kind = (base, rk) \<Longrightarrow> map_option pv_content (List.find pv_is_active (rows_of base rk (ss_prompts st))) = Some c
    \<Longrightarrow> get_active_prompt True slug kind st = Some c"
  by (auto simp: get_active_prompt_def active_content_from_db_def)

lemma activate_serves:
  assumes "prompts_ok (ss_prompts st)" and "activate env slug kind v actor st = Some st'"
  shows "\<exists>row \<in> set (ss_prompts st). (pv_agent_slug row, pv_kind row) = resolve_slug slug kind \<and> pv_version row = v
      \<and> get_active_prompt True slug kind st' = Some (pv_content row)"
proof (rule activate_prompts[OF assms(2)])
  fix base rk row
  assume a: "resolve_slug slug kind = (base, rk)" "row \<in> set (ss_prompts st)" "triple row = (base, rk, v)"
    "ss_prompts st' = switch_active base rk v (ss_prompts st)"
  have "get_active_prompt True slug kind st' = Some (pv_content row)"
    using switch_active_served[OF assms(1) a(2,3) resolve_slug_idem[OF a(1)]] served_from_db[OF a(1), of st'] by (simp only: a(4))
  then show ?thesis using a(1-3) by (auto simp: triple_def)
qed

text \<open>The activated version is the one the agents get: from then on its content is served, the prompts of every other
  agent and kind are what they were, and the change left exactly one entry in the audit log.\<close>
theorem activated_prompt_is_used:
  assumes "prompts_ok (ss_prompts st)" and "activate env slug kind v actor st = Some st'"
  shows "(\<exists>row \<in> set (ss_prompts st). (pv_agent_slug row, pv_kind row) = resolve_slug slug kind \<and> pv_version row = v
      \<and> get_active_prompt True slug kind st' = Some (pv_content row))
    \<and> (\<forall>s k. resolve_slug s k \<noteq> resolve_slug slug kind \<longrightarrow> get_active_prompt True s k st' = get_active_prompt True s k st)
    \<and> length (db_audit (ss_db st')) = Suc (length (db_audit (ss_db st)))"
proof (rule activate_prompts[OF assms(2)])
  fix base rk row
  assume a: "resolve_slug slug kind = (base, rk)" "row \<in> set (ss_prompts st)" "triple row = (base, rk, v)"
    "ss_prompts st' = switch_active base rk v (ss_prompts st)" "ss_files st' = ss_files st" "ss_manifest st' = ss_manifest st"
    and len: "length (db_audit (ss_db st')) = Suc (length (db_audit (ss_db st)))"
  have "get_active_prompt True s k st' = get_active_prompt True s k st" if "resolve_slug s k \<noteq> (base, rk)" for s k
    using switch_active_others[OF assms(1), of _ _ base rk v] that a(4-6)
    by (cases "resolve_slug s k") (simp add: get_active_prompt_def active_content_from_db_def Let_def split: option.split)
  then show ?thesis using activate_serves[OF assms] len a(1) by simp
qed

text \<open>A rollback goes to the newest version below the active one, and serves it.\<close>
theorem rollback_goes_below:
  assumes "prompts_ok (ss_prompts st)" and "rollback env slug kind actor st = Some (v, st')"
    and "r \<in> set (ss_prompts st)" and "(pv_agent_slug r, pv_kind r) = resolve_slug slug kind" and "pv_is_active r"
  shows "v < pv_version r \<and> (\<forall>s \<in> set (ss_prompts st). (pv_agent_slug s, pv_kind s) = resolve_slug slug kind \<and> pv_version s < pv_version r \<longrightarrow> pv_version s \<le> v)
    \<and> (\<exists>row \<in> set (ss_prompts st). (pv_agent_slug row, pv_kind row) = resolve_slug slug kind \<and> pv_version row = v
      \<and> get_active_prompt True slug kind st' = Some (pv_content row))"
proof (cases "resolve_slug slug kind")
  case (Pair base rk)
  let ?rows = "rows_of base rk (ss_prompts st)"
  let ?below = "filter (\<lambda>x. x < pv_version r) (map pv_version ?rows)"
  have "List.find pv_is_active ?rows = Some r" using find_rows_active[OF assms(1,3)] assms(4,5) Pair by simp
  then have t: "rollback_target ?rows = (if sort ?below = [] then None else Some (last (sort ?below)))"
    by (simp add: rollback_target_def Let_def)
  obtain st1 where v: "rollback_target ?rows = Some v" "activate env base rk v actor st = Some st1" "st' = st1"
    using assms(2) Pair by (auto simp: rollback_def split: option.splits)
  have last_v: "sort ?below \<noteq> []" "v = last (sort ?below)" using v(1) t by (auto split: if_splits)
  then have "v \<in> set ?below" by (metis last_in_set set_sort)
  moreover have "x \<le> v" if "x \<in> set ?below" for x
  proof -
    obtain i where i: "i < length (sort ?below)" "x = sort ?below ! i" using \<open>x \<in> set ?below\<close> by (metis in_set_conv_nth set_sort)
    have "sort ?below ! i \<le> sort ?below ! (length (sort ?below) - 1)" using i(1) by (intro sorted_nth_mono) auto
    then show ?thesis using i(2) last_v by (simp add: last_conv_nth)
  qed
  moreover note used = activate_serves[OF assms(1) v(2)]
  have "resolve_slug base rk = (base, rk)" by (rule resolve_slug_idem[OF Pair])
  moreover have "get_active_prompt True base rk st1 = get_active_prompt True slug kind st1" using Pair calculation(3) by (simp add: get_active_prompt_def)
  ultimately show ?thesis using used Pair v(3) by (auto simp: rows_of_def)
qed

section \<open>What is never served\<close>

definition folded :: "string \<Rightarrow> bool" where
  "folded slug \<longleftrightarrow> resolve_slug slug ''system'' \<noteq> (slug, ''system'')"

text \<open>A row keeps everything but its flag.\<close>
definition unflagged :: "prompt_version \<Rightarrow> prompt_version" where
  "unflagged r = r\<lparr>pv_is_active := False\<rparr>"

definition keeps_rows :: "prompt_version list \<Rightarrow> prompt_version list \<Rightarrow> bool" where
  "keeps_rows xs ys \<longleftrightarrow> unflagged ` set xs \<subseteq> unflagged ` set ys"

lemma keeps_refl [simp]: "keeps_rows xs xs"
  by (simp add: keeps_rows_def)

lemma keeps_trans: "keeps_rows xs ys \<Longrightarrow> keeps_rows ys zs \<Longrightarrow> keeps_rows xs zs"
  by (simp add: keeps_rows_def)

lemma keeps_append: "keeps_rows xs (xs @ ys)"
  by (auto simp: keeps_rows_def)

lemma switch_active_keeps: "prompts_ok rows \<Longrightarrow> keeps_rows rows (switch_active base kind v rows)"
proof -
  assume "prompts_ok rows"
  then have "map unflagged (switch_active base kind v rows) = map unflagged rows"
    unfolding switch_active_map[OF prompts_distinct[OF \<open>prompts_ok rows\<close>]] by (simp add: unflagged_def)
  from arg_cong[OF this, of set] show ?thesis by (simp add: keeps_rows_def)
qed

lemma settings_step_keeps: "settings_step st st' \<Longrightarrow> prompts_ok (ss_prompts st) \<Longrightarrow> keeps_rows (ss_prompts st) (ss_prompts st')"
proof (induction rule: settings_step.induct)
  case (se_create st env slug kind content summary u)
  then show ?case by (simp add: create_prompt_version_def Let_def keeps_append)
next
  case (se_activate st env slug kind v u)
  then show ?case
    by (cases "activate env slug kind v (us_email u) st") (auto simp: activate_prompt_version_def switch_active_keeps elim: activate_prompts)
next
  case (se_rollback st env slug kind u)
  then show ?case
    by (auto simp: rollback_prompt_version_def rollback_def switch_active_keeps split: option.split prod.split elim: activate_prompts)
next
  case (se_hot_swap st reachable slug v)
  then show ?case
    by (auto simp: put_active_version_def split: option.splits dest!: hot_swap_prompts intro: switch_active_keeps)
qed simp_all

lemma settings_history_ok:
  "settings_step\<^sup>*\<^sup>* st0 st \<Longrightarrow> prompts_ok (ss_prompts st0) \<Longrightarrow> prompts_ok (ss_prompts st) \<and> keeps_rows (ss_prompts st0) (ss_prompts st)"
  by (induction rule: rtranclp_induct) (auto intro: settings_step_ok keeps_trans settings_step_keeps)

text \<open>A version written for an agent whose name ends in \<open>_task\<close> or \<open>_chat\<close> is lost: the endpoint that creates it files it
  under the name as it is, every other operation looks under the folded name, and so no later sequence of requests ever makes
  it active.\<close>
theorem folded_version_never_served:
  assumes "prompts_ok (ss_prompts st)" and "folded slug" and "create_prompt_version env slug ''system'' content summary u st = (Inr row, st1)"
    and "settings_step\<^sup>*\<^sup>* st1 st2"
  shows "\<exists>r \<in> set (ss_prompts st2). pv_id r = pv_id row \<and> pv_agent_slug r = slug \<and> pv_content r = content \<and> \<not> pv_is_active r"
proof -
  have new: "row \<in> set (ss_prompts st1)" "pv_agent_slug row = slug" "pv_kind row = ''system''" "pv_content row = content"
    using assms(3) by (auto simp: create_prompt_version_def Let_def split: if_splits)
  have ok1: "prompts_ok (ss_prompts st1)" using create_ok[OF assms(1), of env slug "''system''" content summary u] assms(3) by simp
  have "unflagged row \<in> unflagged ` set (ss_prompts st2)"
    using settings_history_ok[OF assms(4) ok1] new(1) unfolding keeps_rows_def by blast
  then obtain r where r: "r \<in> set (ss_prompts st2)" "unflagged r = unflagged row" by (metis imageE)
  have flagless: "pv_id x = pv_id (unflagged x)" "pv_agent_slug x = pv_agent_slug (unflagged x)" "pv_kind x = pv_kind (unflagged x)"
    "pv_content x = pv_content (unflagged x)" for x by (simp_all add: unflagged_def)
  have same: "pv_id r = pv_id row" "pv_agent_slug r = slug" "pv_kind r = ''system''" "pv_content r = content"
    using flagless[of r] flagless[of row] new(2-4) r(2) by metis+
  have "resolve_slug (pv_agent_slug r) (pv_kind r) \<noteq> (pv_agent_slug r, pv_kind r)" using assms(2) same by (simp add: folded_def)
  then have "\<not> pv_is_active r" using settings_history_ok[OF assms(4) ok1] r(1) unfolding prompts_ok_def by blast
  then show ?thesis using r(1) same by blast
qed

text \<open>The hot swap takes effect only where the version has a row: if it has one, its content is served; if the agent has an
  active row and the version has none, the file is switched, the request succeeds, and the agent is still given the old
  prompt. It leaves no entry in the audit log.\<close>
theorem hot_swap_needs_a_row:
  assumes "prompts_ok (ss_prompts st)" and "set_active_version True slug v st = Some st'" and "resolve_slug slug ''system'' = (base, kind)"
  shows "(\<forall>row \<in> set (ss_prompts st). triple row = (base, kind, v) \<longrightarrow> get_active_prompt True slug ''system'' st' = Some (pv_content row))
    \<and> (\<forall>row \<in> set (ss_prompts st). (\<forall>r \<in> set (ss_prompts st). triple r \<noteq> (base, kind, v)) \<and> pv_agent_slug row = base \<and> pv_kind row = kind
        \<and> pv_is_active row \<longrightarrow> get_active_prompt True slug ''system'' st' = Some (pv_content row))
    \<and> db_audit (ss_db st') = db_audit (ss_db st)"
proof (intro conjI ballI impI)
  fix row assume row: "row \<in> set (ss_prompts st)" "triple row = (base, kind, v)"
  then have "row_by pv_version v (rows_of base kind (ss_prompts st)) \<noteq> None" by (auto simp: row_by_def find_None_iff rows_of_def triple_def)
  then have "ss_prompts st' = switch_active base kind v (ss_prompts st)"
    using assms(2,3) by (auto simp: set_active_version_def db_set_active_def Let_def split: option.splits if_splits)
  then show "get_active_prompt True slug ''system'' st' = Some (pv_content row)"
    using switch_active_served[OF assms(1) row resolve_slug_idem[OF assms(3)]] served_from_db[OF assms(3)] by (simp only:)
next
  fix row assume row: "row \<in> set (ss_prompts st)"
    and a: "(\<forall>r \<in> set (ss_prompts st). triple r \<noteq> (base, kind, v)) \<and> pv_agent_slug row = base \<and> pv_kind row = kind \<and> pv_is_active row"
  then have "row_by pv_version v (rows_of base kind (ss_prompts st)) = None" by (auto simp: row_by_def find_None_iff rows_of_def triple_def)
  then have "ss_prompts st' = ss_prompts st"
    using assms(2,3) by (auto simp: set_active_version_def db_set_active_def Let_def split: option.splits if_splits)
  then show "get_active_prompt True slug ''system'' st' = Some (pv_content row)"
    using find_rows_active[OF assms(1) row] a by (intro served_from_db[OF assms(3)]) simp
next
  show "db_audit (ss_db st') = db_audit (ss_db st)"
    using assms(2) by (auto simp: set_active_version_def db_set_active_def Let_def split: option.splits if_splits prod.splits)
qed

section \<open>The chosen model\<close>

lemma row_by_edit: "row_by f k xs = Some r \<Longrightarrow> (\<And>x. f (g x) = f x) \<Longrightarrow> row_by f k (update_first (\<lambda>x. f x = k) g xs) = Some (g r)"
  by (induction xs) (auto split: if_splits)

lemma row_by_snoc: "row_by f k xs = None \<Longrightarrow> f x = k \<Longrightarrow> row_by f k (xs @ [x]) = Some x"
  by (induction xs) (auto split: if_splits)

text \<open>A model that was chosen for an agent is asked first, and once: while the pair is offered, every later call of the agent
  has it at the head of its chain, followed by the entries of the routing table that are not the pair.\<close>
theorem chosen_model_is_asked_first:
  assumes "set_provider_model env w slug ''CUSTOM'' (Some p) (Some m) u st = (Inr out, st')"
    and "lw_configs w2 = Some (ss_configs st')"
    and "build_fallback_chain w2 task rs = (Some chain, rs1)" and "fst (is_valid_pair w2 p m rs1)"
  shows "fst (call_chain w2 task (Some slug) rs)
    = Inr (\<lparr>pm_provider = p, pm_model = m\<rparr> # filter (\<lambda>pm. pm \<noteq> \<lparr>pm_provider = p, pm_model = m\<rparr>) chain)"
proof -
  have given: "p \<noteq> []" "m \<noteq> []" using assms(1) by (auto simp: set_provider_model_def truthy_text_def Let_def split: if_splits prod.splits)
  obtain row where row: "row_by ac_slug slug (ss_configs st') = Some row" "ac_mode row = Some ''CUSTOM''" "ac_provider row = Some p" "ac_model row = Some m"
  proof (cases "row_by ac_slug slug (ss_configs st)")
    case None
    then show ?thesis using assms(1) that
      by (auto simp: set_provider_model_def Let_def row_by_snoc split: if_splits prod.splits)
  next
    case (Some r)
    then show ?thesis using assms(1) that
      by (auto simp: set_provider_model_def Let_def row_by_edit split: if_splits prod.splits)
  qed
  obtain rs2 where "is_valid_pair w2 p m rs1 = (True, rs2)" using assms(4) by (cases "is_valid_pair w2 p m rs1") simp
  then have "resolve_agent_pair w2 slug rs1 = (Some \<lparr>pm_provider = p, pm_model = m\<rparr>, rs2)"
    using given row assms(2) by (simp add: resolve_agent_pair_def custom_pair_def)
  then show ?thesis by (simp add: call_chain_def assms(3))
qed

section \<open>Witnesses\<close>

definition sample_version :: "nat \<Rightarrow> int \<Rightarrow> string \<Rightarrow> bool \<Rightarrow> prompt_version" where
  "sample_version i v content active = \<lparr>pv_id = i, pv_agent_slug = ''a'', pv_kind = ''system'', pv_version = v, pv_content = content, pv_author = ''seed'',
     pv_change_summary = ''s'', pv_is_active = active, pv_created_at = 0\<rparr>"

definition sample_settings :: "bool \<Rightarrow> settings_state" where
  "sample_settings second = \<lparr>ss_db = empty_db, ss_prompts = [sample_version 1 1 ''one'' (\<not> second), sample_version 2 2 ''two'' second], ss_configs = [],
     ss_router = fresh_router, ss_manifest = [(''a'', \<lparr>me_prompt_id = ''P'', me_active_version = 1\<rparr>)],
     ss_files = [((''a'', 1), ''one''), ((''a'', 3), ''three'')], ss_next = 3\<rparr>"

lemma sample_fold: "resolve_slug ''a'' ''system'' = (''a'', ''system'')" "folded ''x_chat''"
  by code_simp+

lemma sample_prompts_ok: "prompts_ok (ss_prompts (sample_settings b))"
  by (cases b) (simp_all add: prompts_ok_def sample_settings_def sample_version_def triple_def sample_fold)

lemma sample_activates: "\<exists>st'. activate sample_env ''a'' ''system'' 2 ''me'' (sample_settings False) = Some st'"
  by (simp add: activate_def sample_fold Let_def rows_of_def sample_settings_def sample_version_def)

lemma prompts_stay_unambiguous_witness:
  "length (filter pv_is_active (rows_of ''a'' ''system'' (ss_prompts (snd (activate_prompt_version sample_env ''a'' ''system'' 2 sample_user (sample_settings False)))))) \<le> 1"
  using prompts_stay_unambiguous[OF r_into_rtranclp[of settings_step, OF se_activate] sample_prompts_ok] by blast

lemma activated_prompt_is_used_witness:
  "\<exists>st'. activate sample_env ''a'' ''system'' 2 ''me'' (sample_settings False) = Some st' \<and> get_active_prompt True ''a'' ''system'' st' = Some ''two''"
proof -
  obtain st' where st': "activate sample_env ''a'' ''system'' 2 ''me'' (sample_settings False) = Some st'" using sample_activates by blast
  from activated_prompt_is_used[OF sample_prompts_ok st'] show ?thesis
    using st' by (auto simp: sample_settings_def sample_version_def)
qed

lemma rollback_goes_below_witness:
  "\<exists>v st'. rollback sample_env ''a'' ''system'' ''me'' (sample_settings True) = Some (v, st') \<and> v < 2"
proof -
  have "rollback_target (rows_of ''a'' ''system'' (ss_prompts (sample_settings True))) = Some 1"
    by (simp add: rollback_target_def rows_of_def sample_settings_def sample_version_def)
  moreover have "\<exists>st'. activate sample_env ''a'' ''system'' 1 ''me'' (sample_settings True) = Some st'"
    by (simp add: activate_def sample_fold Let_def rows_of_def sample_settings_def sample_version_def)
  ultimately obtain st' where st': "rollback sample_env ''a'' ''system'' ''me'' (sample_settings True) = Some (1, st')"
    by (auto simp: rollback_def sample_fold)
  have "sample_version 2 2 ''two'' True \<in> set (ss_prompts (sample_settings True))" by (simp add: sample_settings_def)
  from rollback_goes_below[OF sample_prompts_ok st' this] show ?thesis using st' by (simp add: sample_version_def sample_fold)
qed

lemma folded_version_never_served_witness:
  "\<exists>row st1. create_prompt_version sample_env ''x_chat'' ''system'' ''new'' ''s'' sample_user (sample_settings False) = (Inr row, st1)
    \<and> (\<exists>r \<in> set (ss_prompts (snd (activate_prompt_version sample_env ''x_chat'' ''system'' 1 sample_user st1))). pv_content r = ''new'' \<and> \<not> pv_is_active r)"
proof -
  obtain row st1 where c: "create_prompt_version sample_env ''x_chat'' ''system'' ''new'' ''s'' sample_user (sample_settings False) = (Inr row, st1)"
    by (simp add: create_prompt_version_def Let_def)
  from folded_version_never_served[OF sample_prompts_ok sample_fold(2) c r_into_rtranclp[of settings_step, OF se_activate]] show ?thesis using c by blast
qed

lemma hot_swap_needs_a_row_witness:
  "\<exists>st'. set_active_version True ''a'' 3 (sample_settings False) = Some st' \<and> get_active_prompt True ''a'' ''system'' st' = Some ''one''"
proof -
  obtain st' where st': "set_active_version True ''a'' 3 (sample_settings False) = Some st'"
    by (simp add: set_active_version_def sample_settings_def Let_def)
  from hot_swap_needs_a_row[OF sample_prompts_ok st' sample_fold(1)] show ?thesis
    using st' by (auto simp: sample_settings_def sample_version_def triple_def)
qed

lemma chosen_model_is_asked_first_witness:
  "\<exists>out st'. set_provider_model sample_env sample_llm ''ceo_agent'' ''CUSTOM'' (Some ''openai'') (Some ''g'') sample_user (sample_settings False) = (Inr out, st')
    \<and> fst (call_chain (sample_llm\<lparr>lw_configs := Some (ss_configs st')\<rparr>) ''chat'' (Some ''ceo_agent'') fresh_router)
      = Inr [\<lparr>pm_provider = ''openai'', pm_model = ''g''\<rparr>, \<lparr>pm_provider = ''ollama'', pm_model = ''d''\<rparr>]"
proof -
  have g: "strip ''g'' \<noteq> []" "''openai'' \<in> set KNOWN_PROVIDERS" by code_simp+
  have conf: "is_configured (sample_llm\<lparr>lw_configs := x\<rparr>) ''openai'' st = (Some True, st)" "is_configured (sample_llm\<lparr>lw_configs := x\<rparr>) ''ollama'' st = (Some True, st)" for x st
    by (simp_all add: router_defs)
  have models: "known_models (sample_llm\<lparr>lw_configs := x\<rparr>) ''openai'' = [''g'', ''g'']" for x by (simp add: known_models_def sample_llm_def)
  have valid: "is_valid_pair (sample_llm\<lparr>lw_configs := x\<rparr>) ''openai'' ''g'' st = (True, st)" for x st
    using g conf(1)[of x st] models[of x] by (simp add: is_valid_pair_def)
  have "llm_backed ''ceo_agent'' None" by code_simp
  moreover have "is_valid_pair sample_llm ''openai'' ''g'' st = (True, st)" for st using valid[of None] by (simp add: sample_llm_def)
  ultimately obtain out st' where c: "set_provider_model sample_env sample_llm ''ceo_agent'' ''CUSTOM'' (Some ''openai'') (Some ''g'') sample_user (sample_settings False) = (Inr out, st')"
    by (simp add: set_provider_model_def Let_def truthy_text_def sample_settings_def)
  let ?w = "sample_llm\<lparr>lw_configs := Some (ss_configs st')\<rparr>"
  have chain: "build_fallback_chain ?w ''chat'' fresh_router
      = (Some [\<lparr>pm_provider = ''openai'', pm_model = ''g''\<rparr>, \<lparr>pm_provider = ''ollama'', pm_model = ''d''\<rparr>], fresh_router)"
    using conf by (simp add: build_fallback_chain_def) (simp add: sample_llm_def)
  from chosen_model_is_asked_first[OF c _ chain] show ?thesis using c valid by simp
qed

end
