(* ===== verification/SafetyCheck.thy ===== *)
theory SafetyCheck
  imports PyText
begin

text \<open>
  The static check of generated strategy code (\<open>StaticSafetyCheckSkill\<close> in \<open>src/agents/tools/skills.py\<close>). The parser is the
  one of Python; a program is given as its syntax tree, of which the nodes the check looks at are constructors of their own
  and every other kind of node is one with its children. The tree is walked level by level, as \<open>ast.walk\<close> does.
\<close>

section \<open>Syntax trees\<close>

datatype py_const = Int_const int | Float_const real | Bool_const bool | Other_const

text \<open>A call has its function, its positional arguments and the values of its keyword arguments; a number is the line.\<close>
datatype py_ast =
    Name string
  | Constant py_const
  | Unary_op bool py_ast
  | Attribute py_ast string
  | Call nat py_ast "py_ast list" "py_ast list"
  | Import nat "string list"
  | Import_from nat "string option"
  | Assign nat "py_ast list" py_ast
  | Aug_assign nat py_ast py_ast
  | Other "py_ast list"

fun children :: "py_ast \<Rightarrow> py_ast list" where
  "children (Name _) = []"
| "children (Constant _) = []"
| "children (Unary_op _ e) = [e]"
| "children (Attribute e _) = [e]"
| "children (Call _ f args kws) = f # args @ kws"
| "children (Import _ _) = []"
| "children (Import_from _ _) = []"
| "children (Assign _ targets v) = targets @ [v]"
| "children (Aug_assign _ t v) = [t, v]"
| "children (Other ns) = ns"

lemma sum_size: "sum_list (map (\<lambda>x. Suc (2 * size x)) xs) \<le> 2 * size_list size (xs :: py_ast list)"
  by (induction xs) simp_all

lemma children_smaller: "sum_list (map (\<lambda>x. Suc (2 * size x)) (children n)) \<le> 2 * size n"
proof (cases n)
  case (Call l f args kws)
  then show ?thesis using sum_size[of args] sum_size[of kws] by simp
next
  case (Assign l targets v)
  then show ?thesis using sum_size[of targets] by simp
next
  case (Other ns)
  then show ?thesis using sum_size[of ns] by simp
qed simp_all

text \<open>\<open>ast.walk\<close>: a queue of nodes to visit.\<close>
function walk :: "py_ast list \<Rightarrow> py_ast list" where
  "walk [] = []"
| "walk (n # q) = n # walk (q @ children n)"
  by pat_completeness auto
termination
  by (relation "measure (\<lambda>q. sum_list (map (\<lambda>x. Suc (2 * size x)) q))") (simp_all add: children_smaller less_Suc_eq_le)

section \<open>The check\<close>

definition BANNED_AST_CALLS :: "string list" where
  "BANNED_AST_CALLS = [''eval'', ''exec'', ''compile'', ''__import__'', ''setattr'']"

definition BANNED_IMPORT_MODULES :: "string list" where
  "BANNED_IMPORT_MODULES = [''os'', ''subprocess'', ''socket'', ''shutil'', ''sys'', ''ctypes'']"

definition BANNED_ATTRIBUTE_ASSIGNMENT_TARGETS :: "string list" where
  "BANNED_ATTRIBUTE_ASSIGNMENT_TARGETS = [''vbt'', ''vectorbt'', ''pl'', ''polars'', ''pd'', ''pandas'', ''np'', ''numpy'', ''numba'']"

definition BANNED_ATTRIBUTE_CALLS :: "(string \<times> string list) list" where
  "BANNED_ATTRIBUTE_CALLS =
    [(''os'', [''system'', ''popen'', ''execv'', ''execve'', ''execvp'', ''spawnv'', ''spawnve'', ''remove'', ''unlink'']),
     (''subprocess'', [''run'', ''call'', ''Popen'', ''check_output'', ''check_call'']),
     (''shutil'', [''rmtree'', ''move'']),
     (''socket'', [''socket'', ''create_connection''])]"

text \<open>A truth value is an integer to \<open>isinstance\<close>.\<close>
fun is_negative_number :: "py_ast \<Rightarrow> bool" where
  "is_negative_number (Unary_op usub e) = (usub \<and> (case e of Constant c \<Rightarrow> c \<noteq> Other_const | _ \<Rightarrow> False))"
| "is_negative_number (Constant (Int_const i)) = (i < 0)"
| "is_negative_number (Constant (Float_const x)) = (x < 0)"
| "is_negative_number _ = False"

fun attribute_root_name :: "py_ast \<Rightarrow> string option" where
  "attribute_root_name (Attribute e _) = attribute_root_name e"
| "attribute_root_name (Name x) = Some x"
| "attribute_root_name _ = None"

definition top_module :: "string \<Rightarrow> string" where
  "top_module m = takeWhile (\<lambda>c. c \<noteq> CHR ''.'') m"

definition banned_target :: "py_ast \<Rightarrow> bool" where
  "banned_target t = (case t of Attribute _ _ \<Rightarrow> (case attribute_root_name t of Some r \<Rightarrow> r \<in> set BANNED_ATTRIBUTE_ASSIGNMENT_TARGETS | None \<Rightarrow> False)
    | _ \<Rightarrow> False)"

definition line_text :: "nat \<Rightarrow> string" where "line_text l = '' at line '' @ show_int (int l)"

definition banned_attribute_call :: "py_ast \<Rightarrow> (string \<times> string) option" where
  "banned_attribute_call f =
    (case f of
       Attribute (Name m) a \<Rightarrow> (case map_of BANNED_ATTRIBUTE_CALLS m of Some calls \<Rightarrow> if a \<in> set calls then Some (m, a) else None | None \<Rightarrow> None)
     | _ \<Rightarrow> None)"

text \<open>The findings at one node, in the order of the tests.\<close>
definition node_violations :: "py_ast \<Rightarrow> string list" where
  "node_violations n =
    (case n of
       Call l f args _ \<Rightarrow>
         (case f of Name x \<Rightarrow> if x \<in> set BANNED_AST_CALLS then [''banned call: '' @ x @ ''()'' @ line_text l] else [] | _ \<Rightarrow> [])
         @ (case banned_attribute_call f of Some (m, a) \<Rightarrow> [''banned call: '' @ m @ ''.'' @ a @ ''()'' @ line_text l] | None \<Rightarrow> [])
         @ (case f of
              Attribute _ a \<Rightarrow>
                (case args of
                   x # _ \<Rightarrow> if a = ''shift'' \<and> is_negative_number x
                     then [''possible look-ahead bias: negative .shift()'' @ line_text l @ '' pulls future data into the current row''] else []
                 | [] \<Rightarrow> [])
            | _ \<Rightarrow> [])
     | Import l names \<Rightarrow> map (\<lambda>m. ''banned import: '' @ m @ line_text l) (filter (\<lambda>m. top_module m \<in> set BANNED_IMPORT_MODULES) names)
     | Import_from l m \<Rightarrow>
         (case m of Some x \<Rightarrow> if x \<noteq> [] \<and> top_module x \<in> set BANNED_IMPORT_MODULES then [''banned import: '' @ x @ line_text l] else [] | None \<Rightarrow> [])
     | Assign l targets _ \<Rightarrow>
         map (\<lambda>_. ''banned attribute assignment onto a shared sandbox library'' @ line_text l) (filter banned_target targets)
     | Aug_assign l t _ \<Rightarrow> if banned_target t then [''banned attribute assignment onto a shared sandbox library'' @ line_text l] else []
     | _ \<Rightarrow> [])"

text \<open>The tree of the parser, or the text of its \<open>SyntaxError\<close>.\<close>
definition static_safety_check :: "string + py_ast \<Rightarrow> bool \<times> string list" where
  "static_safety_check parsed =
    (case parsed of
       Inl e \<Rightarrow> (False, [''SyntaxError: '' @ e])
     | Inr tree \<Rightarrow> (let vs = concat (map node_violations (walk [tree])) in (vs = [], vs)))"

section \<open>What the check decides\<close>

inductive occurs :: "py_ast \<Rightarrow> py_ast \<Rightarrow> bool" for m where
  occurs_here: "occurs m m"
| occurs_below: "c \<in> set (children n) \<Longrightarrow> occurs m c \<Longrightarrow> occurs m n"

text \<open>A chain of attributes of a name: \<open>r.a1.a2\<close>.\<close>
definition attribute_path :: "string \<Rightarrow> string list \<Rightarrow> py_ast" where
  "attribute_path r as = foldl Attribute (Name r) as"

text \<open>What a strategy may not write, without reference to the order of the tests.\<close>
inductive forbidden :: "py_ast \<Rightarrow> bool" where
  fb_builtin: "f \<in> set BANNED_AST_CALLS \<Longrightarrow> forbidden (Call l (Name f) args kws)"
| fb_import: "m \<in> set names \<Longrightarrow> top_module m \<in> set BANNED_IMPORT_MODULES \<Longrightarrow> forbidden (Import l names)"
| fb_from: "m \<noteq> [] \<Longrightarrow> top_module m \<in> set BANNED_IMPORT_MODULES \<Longrightarrow> forbidden (Import_from l (Some m))"
| fb_assign: "attribute_path r (a # as) \<in> set targets \<Longrightarrow> r \<in> set BANNED_ATTRIBUTE_ASSIGNMENT_TARGETS \<Longrightarrow> forbidden (Assign l targets v)"
| fb_augment: "r \<in> set BANNED_ATTRIBUTE_ASSIGNMENT_TARGETS \<Longrightarrow> forbidden (Aug_assign l (attribute_path r (a # as)) v)"
| fb_method: "(m, calls) \<in> set BANNED_ATTRIBUTE_CALLS \<Longrightarrow> a \<in> set calls \<Longrightarrow> forbidden (Call l (Attribute (Name m) a) args kws)"
| fb_shift: "is_negative_number x \<Longrightarrow> forbidden (Call l (Attribute e ''shift'') (x # args) kws)"

lemma walk_occurs: "m \<in> set (walk q) \<longleftrightarrow> (\<exists>n \<in> set q. occurs m n)"
proof (induction q rule: walk.induct)
  case (2 n q)
  have "occurs m n \<longleftrightarrow> m = n \<or> (\<exists>c \<in> set (children n). occurs m c)"
    by (subst occurs.simps) auto
  then show ?case using 2 by auto
qed simp

lemma attribute_path_snoc: "attribute_path r (as @ [a]) = Attribute (attribute_path r as) a"
  by (simp add: attribute_path_def)

lemma attribute_root_path: "attribute_root_name e = Some r \<longleftrightarrow> (\<exists>as. e = attribute_path r as)"
proof
  show "attribute_root_name e = Some r \<Longrightarrow> \<exists>as. e = attribute_path r as"
  proof (induction e)
    case (Attribute e a)
    then obtain as where "e = attribute_path r as" by auto
    then show ?case by (metis attribute_path_snoc)
  qed (auto simp: attribute_path_def intro: exI[of _ "[]"])
next
  have "attribute_root_name (attribute_path r as) = Some r" for as
    by (induction as rule: rev_induct) (simp_all add: attribute_path_snoc, simp add: attribute_path_def)
  then show "\<exists>as. e = attribute_path r as \<Longrightarrow> attribute_root_name e = Some r" by auto
qed

lemma banned_target_path: "banned_target t \<longleftrightarrow> (\<exists>r a as. t = attribute_path r (a # as) \<and> r \<in> set BANNED_ATTRIBUTE_ASSIGNMENT_TARGETS)"
proof -
  have shape: "(\<exists>e b. attribute_path r as = Attribute e b) \<longleftrightarrow> as \<noteq> []" for r as
    by (cases as rule: rev_cases) (simp_all add: attribute_path_snoc, simp add: attribute_path_def)
  have "banned_target t \<longleftrightarrow> (\<exists>e b. t = Attribute e b) \<and> (\<exists>r. attribute_root_name t = Some r \<and> r \<in> set BANNED_ATTRIBUTE_ASSIGNMENT_TARGETS)"
    by (auto simp: banned_target_def split: py_ast.splits option.splits)
  also have "\<dots> \<longleftrightarrow> (\<exists>r as. t = attribute_path r as \<and> as \<noteq> [] \<and> r \<in> set BANNED_ATTRIBUTE_ASSIGNMENT_TARGETS)"
    unfolding attribute_root_path using shape by metis
  also have "\<dots> \<longleftrightarrow> (\<exists>r a as. t = attribute_path r (a # as) \<and> r \<in> set BANNED_ATTRIBUTE_ASSIGNMENT_TARGETS)"
    by (metis list.exhaust list.distinct(1))
  finally show ?thesis .
qed

lemma banned_attribute_call_Some:
  "banned_attribute_call f \<noteq> None \<longleftrightarrow> (\<exists>m a calls. f = Attribute (Name m) a \<and> (m, calls) \<in> set BANNED_ATTRIBUTE_CALLS \<and> a \<in> set calls)"
proof -
  have "map_of BANNED_ATTRIBUTE_CALLS m = Some calls \<longleftrightarrow> (m, calls) \<in> set BANNED_ATTRIBUTE_CALLS" for m calls
    by (rule map_of_eq_Some_iff) (simp add: BANNED_ATTRIBUTE_CALLS_def)
  moreover have "banned_attribute_call f \<noteq> None \<longleftrightarrow> (\<exists>m a calls. f = Attribute (Name m) a \<and> map_of BANNED_ATTRIBUTE_CALLS m = Some calls \<and> a \<in> set calls)"
    by (auto simp: banned_attribute_call_def split: py_ast.splits option.splits)
  ultimately show ?thesis by simp
qed

lemma call_violations:
  "node_violations (Call l f args kws) \<noteq> [] \<longleftrightarrow> (\<exists>x. f = Name x \<and> x \<in> set BANNED_AST_CALLS) \<or> banned_attribute_call f \<noteq> None
    \<or> (\<exists>e x rest. f = Attribute e ''shift'' \<and> args = x # rest \<and> is_negative_number x)"
  by (cases f; cases args) (auto simp: node_violations_def split: option.split)

lemma forbidden_call: "forbidden (Call l f args kws) \<longleftrightarrow> (\<exists>x. f = Name x \<and> x \<in> set BANNED_AST_CALLS)
    \<or> (\<exists>m a calls. f = Attribute (Name m) a \<and> (m, calls) \<in> set BANNED_ATTRIBUTE_CALLS \<and> a \<in> set calls)
    \<or> (\<exists>e x rest. f = Attribute e ''shift'' \<and> args = x # rest \<and> is_negative_number x)"
  by (subst forbidden.simps) auto

lemma forbidden_violations: "forbidden n \<longleftrightarrow> node_violations n \<noteq> []"
proof (cases n)
  case (Call l f args kws)
  show ?thesis unfolding Call call_violations forbidden_call banned_attribute_call_Some by blast
next
  case (Import l names)
  then show ?thesis by (subst forbidden.simps) (auto simp: node_violations_def filter_empty_conv)
next
  case (Import_from l m)
  then show ?thesis by (subst forbidden.simps) (auto simp: node_violations_def split: option.split)
next
  case (Assign l targets v)
  then show ?thesis by (subst forbidden.simps) (auto simp: node_violations_def filter_empty_conv banned_target_path)
next
  case (Aug_assign l t v)
  then show ?thesis by (subst forbidden.simps) (auto simp: node_violations_def banned_target_path)
qed (subst forbidden.simps, simp add: node_violations_def)+


section \<open>What it lets through\<close>

text \<open>\<open>__import__\<close> has a namesake in a module that is not banned; a built-in function keeps its name only until it is given
  another one; a tuple of attributes is not an attribute; and \<open>shift\<close> takes its argument by keyword.\<close>
definition imports_os :: py_ast where
  "imports_os = Other [Import 1 [''importlib''],
     Call 2 (Attribute (Call 2 (Attribute (Name ''importlib'') ''import_module'') [Constant Other_const] []) ''system'') [Constant Other_const] []]"

definition renames_eval :: py_ast where
  "renames_eval = Other [Assign 1 [Name ''e''] (Name ''eval''), Call 2 (Name ''e'') [Constant Other_const] []]"

definition patches_library :: "string \<Rightarrow> py_ast" where
  "patches_library r = Other [Assign 1 [Other [attribute_path r [''Portfolio'', ''from_signals''], Name ''x'']] (Other [Name ''f'', Constant (Int_const 1)])]"

definition looks_ahead :: py_ast where
  "looks_ahead = Other [Call 1 (Attribute (Name ''close'') ''shift'') [] [Unary_op True (Constant (Int_const 1))]]"

text \<open>The check is not a boundary: programs that import \<open>os\<close> by name and run a command, call \<open>eval\<close> under another name,
  replace a function of a library the warm worker shares, or read tomorrow's price, all pass.\<close>
theorem static_check_evaded:
  assumes "t \<in> {imports_os, renames_eval, patches_library ''vbt'', looks_ahead}"
  shows "static_safety_check (Inr t) = (True, [])"
proof -
  have "static_safety_check (Inr imports_os) = (True, [])" by code_simp
  moreover have "static_safety_check (Inr renames_eval) = (True, [])" by code_simp
  moreover have "static_safety_check (Inr (patches_library ''vbt'')) = (True, [])" by code_simp
  moreover have "static_safety_check (Inr looks_ahead) = (True, [])" by code_simp
  ultimately show ?thesis using assms by blast
qed

lemma static_check_evaded_witness: "static_safety_check (Inr looks_ahead) = (True, [])"
  by (rule static_check_evaded) simp


end
