(* ===== verification/Skills.thy ===== *)
theory Skills
  imports Access AgentRegistry
begin

text \<open>
  The registry of skills (\<open>src/agents/tools/registry.py\<close>), its tables (\<open>src/agents/tools/skill_registry_manager.py\<close>,
  \<open>src/models/skill.py\<close>) and the administration of skills and grants (\<open>src/api/routers/skills.py\<close>). What a skill does is a
  parameter; the registry keeps for each registered name whether it is enabled.
\<close>

section \<open>State\<close>

record code_skill =
  cs_name :: string
  cs_description :: string
  cs_schema :: json
  cs_version :: string

record skill_row =
  sk_id :: nat
  sk_name :: string
  sk_description :: string
  sk_schema :: json
  sk_version :: string
  sk_is_enabled :: bool

record skill_grant =
  gr_id :: nat
  gr_agent :: string
  gr_skill_id :: nat
  gr_by :: nat
  gr_at :: int

record skill_state =
  sw_db :: db
  sw_skills :: "skill_row list"
  sw_grants :: "skill_grant list"
  sw_registry :: "(string, bool) dict"
  sw_next :: nat

datatype skill_failure = Skill_not_found | Skill_disabled | Skill_not_granted | No_skill_row

section \<open>The registry\<close>

definition register :: "string \<Rightarrow> bool \<Rightarrow> (string, bool) dict \<Rightarrow> (string, bool) dict" where
  "register n enabled R = dict_set n enabled R"

definition unregister :: "string \<Rightarrow> (string, bool) dict \<Rightarrow> (string, bool) dict" where
  "unregister n R = AList.delete n R"

text \<open>\<open>enable\<close> and \<open>disable\<close> without the write to the table.\<close>
definition set_enabled :: "bool \<Rightarrow> string \<Rightarrow> (string, bool) dict \<Rightarrow> (string, bool) dict option" where
  "set_enabled b n R = (if dict_get R n = None then None else Some (dict_set n b R))"

definition persist_skill_enabled_state :: "string \<Rightarrow> bool \<Rightarrow> skill_state \<Rightarrow> skill_state option" where
  "persist_skill_enabled_state n b st =
    (if row_by sk_name n (sw_skills st) = None then None
     else Some (st\<lparr>sw_skills := update_first (\<lambda>r. sk_name r = n) (\<lambda>r. r\<lparr>sk_is_enabled := b\<rparr>) (sw_skills st)\<rparr>))"

text \<open>With \<open>persist=True\<close>: the registry is changed before the table, also when the table has no row.\<close>
definition set_persistently :: "bool \<Rightarrow> string \<Rightarrow> skill_state \<Rightarrow> (skill_failure + unit) \<times> skill_state" where
  "set_persistently b n st =
    (case set_enabled b n (sw_registry st) of
       None \<Rightarrow> (Inl Skill_not_found, st)
     | Some R \<Rightarrow>
       (let st1 = st\<lparr>sw_registry := R\<rparr> in
        case persist_skill_enabled_state n b st1 of None \<Rightarrow> (Inl No_skill_row, st1) | Some st2 \<Rightarrow> (Inr (), st2)))"

definition get_skill_impl :: "string \<Rightarrow> skill_state \<Rightarrow> skill_failure + unit" where
  "get_skill_impl n st =
    (case dict_get (sw_registry st) n of None \<Rightarrow> Inl Skill_not_found | Some False \<Rightarrow> Inl Skill_disabled | Some True \<Rightarrow> Inr ())"

definition has_grant :: "string \<Rightarrow> string \<Rightarrow> skill_state \<Rightarrow> bool" where
  "has_grant ag n st =
    (case row_by sk_name n (sw_skills st) of
       None \<Rightarrow> True
     | Some row \<Rightarrow> list_ex (\<lambda>g. gr_agent g = ag \<and> gr_skill_id g = sk_id row) (sw_grants st))"

text \<open>\<open>execute\<close>: the checks, and then the skill itself.\<close>
definition execute_skill :: "(string \<Rightarrow> 'r) \<Rightarrow> string \<Rightarrow> string option \<Rightarrow> skill_state \<Rightarrow> skill_failure + 'r" where
  "execute_skill run n ag st =
    (case get_skill_impl n st of
       Inl e \<Rightarrow> Inl e
     | Inr _ \<Rightarrow>
       (case ag of
          None \<Rightarrow> Inr (run n)
        | Some a \<Rightarrow> if \<not> has_grant a n st then Inl Skill_not_granted else Inr (run n)))"

section \<open>The start of a process\<close>

text \<open>One row for every skill of the code that has none yet.\<close>
fun insert_missing :: "string list \<Rightarrow> code_skill list \<Rightarrow> skill_state \<Rightarrow> skill_state" where
  "insert_missing existing [] st = st"
| "insert_missing existing (c # cs) st =
    insert_missing existing cs
      (if cs_name c \<in> set existing then st
       else st\<lparr>sw_skills := sw_skills st @ [\<lparr>sk_id = sw_next st, sk_name = cs_name c, sk_description = cs_description c, sk_schema = cs_schema c,
              sk_version = cs_version c, sk_is_enabled = True\<rparr>], sw_next := Suc (sw_next st)\<rparr>)"

text \<open>The state of the table is applied to the registered skills.\<close>
definition apply_rows :: "skill_row list \<Rightarrow> (string, bool) dict \<Rightarrow> (string, bool) dict" where
  "apply_rows rows R = fold (\<lambda>r R. case set_enabled (sk_is_enabled r) (sk_name r) R of Some R' \<Rightarrow> R' | None \<Rightarrow> R) rows R"

definition sync_registry_with_db :: "code_skill list \<Rightarrow> skill_state \<Rightarrow> skill_state" where
  "sync_registry_with_db code st =
    (let st1 = insert_missing (map sk_name (sw_skills st)) code st in
     st1\<lparr>sw_registry := apply_rows (sw_skills st1) (sw_registry st1)\<rparr>)"

definition bootstrap :: "code_skill list \<Rightarrow> (string, bool) dict" where
  "bootstrap code = fold (\<lambda>c. register (cs_name c) True) code []"

text \<open>\<open>get_skill_registry\<close>, the first time in a process; the flag says whether the database can be reached. Its result is
  kept for the life of the process.\<close>
definition start_process :: "code_skill list \<Rightarrow> bool \<Rightarrow> skill_state \<Rightarrow> skill_state" where
  "start_process code reachable st =
    (let st1 = st\<lparr>sw_registry := bootstrap code\<rparr> in if reachable then sync_registry_with_db code st1 else st1)"

section \<open>The endpoints\<close>

definition manager_enabled :: "skill_state \<Rightarrow> bool" where
  "manager_enabled st = is_agent_enabled (sw_db st) ''skill_registry_manager_agent''"

definition skill_row_or_404 :: "string \<Rightarrow> skill_state \<Rightarrow> api_failure + skill_row" where
  "skill_row_or_404 n st = (case row_by sk_name n (sw_skills st) of None \<Rightarrow> Inl (Status 404) | Some r \<Rightarrow> Inr r)"

definition list_agent_skill_map :: "skill_state \<Rightarrow> (skill_grant \<times> string) list" where
  "list_agent_skill_map st =
    List.map_filter (\<lambda>g. map_option (\<lambda>r. (g, sk_name r)) (row_by sk_id (gr_skill_id g) (sw_skills st))) (sw_grants st)"

definition grant_skill_to_agent :: "env \<Rightarrow> string \<Rightarrow> string \<Rightarrow> user_row \<Rightarrow> skill_state \<Rightarrow> (api_failure + skill_grant) \<times> skill_state" where
  "grant_skill_to_agent env ag n u st =
    (if \<not> manager_enabled st then (Inl (Status 409), st)
     else case row_by sk_name n (sw_skills st) of
         None \<Rightarrow> (Inl (Status 404), st)
       | Some row \<Rightarrow>
         if list_ex (\<lambda>g. gr_agent g = ag \<and> gr_skill_id g = sk_id row) (sw_grants st) then (Inl (Status 409), st)
         else (let g = \<lparr>gr_id = sw_next st, gr_agent = ag, gr_skill_id = sk_id row, gr_by = us_id u, gr_at = e_now env\<rparr> in
           (Inr g, st\<lparr>sw_grants := sw_grants st @ [g], sw_next := Suc (sw_next st)\<rparr>)))"

definition revoke_skill_from_agent :: "nat \<Rightarrow> skill_state \<Rightarrow> (api_failure + unit) \<times> skill_state" where
  "revoke_skill_from_agent i st =
    (if \<not> manager_enabled st then (Inl (Status 409), st)
     else if row_by gr_id i (sw_grants st) = None then (Inl (Status 404), st)
     else (Inr (), st\<lparr>sw_grants := filter (\<lambda>g. gr_id g \<noteq> i) (sw_grants st)\<rparr>))"

definition list_skills :: "skill_state \<Rightarrow> skill_row list" where
  "list_skills st = map snd (sort_keys (map (\<lambda>r. (sk_name r, r)) (sw_skills st)))"

definition get_skill_schema :: "string \<Rightarrow> skill_state \<Rightarrow> api_failure + json" where
  "get_skill_schema n st = (case skill_row_or_404 n st of Inl e \<Rightarrow> Inl e | Inr r \<Rightarrow> Inr (sk_schema r))"

definition switch_skill :: "bool \<Rightarrow> string \<Rightarrow> skill_state \<Rightarrow> (api_failure + skill_row) \<times> skill_state" where
  "switch_skill b n st =
    (if \<not> manager_enabled st then (Inl (Status 409), st)
     else case set_persistently b n st of
         (Inl Skill_not_found, st1) \<Rightarrow> (Inl (Status 404), st1)
       | (Inl _, st1) \<Rightarrow> (Inl Uncaught, st1)
       | (Inr _, st1) \<Rightarrow> (skill_row_or_404 n st1, st1))"

definition enable_skill :: "string \<Rightarrow> skill_state \<Rightarrow> (api_failure + skill_row) \<times> skill_state" where "enable_skill = switch_skill True"
definition disable_skill :: "string \<Rightarrow> skill_state \<Rightarrow> (api_failure + skill_row) \<times> skill_state" where "disable_skill = switch_skill False"

definition delete_skill :: "nat \<Rightarrow> skill_state \<Rightarrow> (api_failure + unit) \<times> skill_state" where
  "delete_skill i st =
    (if \<not> manager_enabled st then (Inl (Status 409), st)
     else case row_by sk_id i (sw_skills st) of
         None \<Rightarrow> (Inl (Status 404), st)
       | Some row \<Rightarrow>
         (Inr (), st\<lparr>sw_grants := filter (\<lambda>g. gr_skill_id g \<noteq> i) (sw_grants st),
            sw_skills := update_first (\<lambda>r. sk_id r = i) (\<lambda>r. r\<lparr>sk_is_enabled := False\<rparr>) (sw_skills st),
            sw_registry := unregister (sk_name row) (sw_registry st)\<rparr>))"

section \<open>Histories\<close>

text \<open>A request of an administrator, or a restart of the process with the database in reach.\<close>
datatype skill_request = Grant env string string user_row | Revoke nat | Enable string | Disable string | Delete nat | Restart

fun serve_skill :: "code_skill list \<Rightarrow> skill_request \<Rightarrow> skill_state \<Rightarrow> skill_state" where
  "serve_skill code (Grant env ag n u) st = snd (grant_skill_to_agent env ag n u st)"
| "serve_skill code (Revoke i) st = snd (revoke_skill_from_agent i st)"
| "serve_skill code (Enable n) st = snd (enable_skill n st)"
| "serve_skill code (Disable n) st = snd (disable_skill n st)"
| "serve_skill code (Delete i) st = snd (delete_skill i st)"
| "serve_skill code Restart st = start_process code True st"

definition serve_skills :: "code_skill list \<Rightarrow> skill_request list \<Rightarrow> skill_state \<Rightarrow> skill_state" where
  "serve_skills code = fold (serve_skill code)"

definition flag :: "string \<Rightarrow> skill_state \<Rightarrow> bool option" where
  "flag n st = map_option sk_is_enabled (row_by sk_name n (sw_skills st))"

definition table_ok :: "skill_state \<Rightarrow> bool" where
  "table_ok st \<longleftrightarrow> distinct (map sk_name (sw_skills st)) \<and> distinct (map sk_id (sw_skills st)) \<and> (\<forall>r \<in> set (sw_skills st). sk_id r < sw_next st)"

text \<open>The registry and the table agree on every skill of the code; a skill that is no longer registered is switched off.\<close>
definition in_step :: "code_skill list \<Rightarrow> skill_state \<Rightarrow> bool" where
  "in_step code st \<longleftrightarrow> (\<forall>n. (n \<notin> cs_name ` set code \<longrightarrow> dict_get (sw_registry st) n = None)
    \<and> (n \<in> cs_name ` set code \<longrightarrow> (case dict_get (sw_registry st) n of None \<Rightarrow> flag n st = Some False | Some b \<Rightarrow> flag n st = Some b)))"

lemma row_by_edit_first:
  assumes "\<And>x. f (g x) = f x"
  shows "row_by f k (update_first (\<lambda>x. f x = k') g xs) = (if k = k' then map_option g (row_by f k xs) else row_by f k xs)"
  by (induction xs) (auto simp: assms)

lemma in_stepD: "in_step code st \<Longrightarrow> dict_get (sw_registry st) n = Some b \<Longrightarrow> flag n st = Some b"
  unfolding in_step_def by (cases "n \<in> cs_name ` set code") (auto dest!: spec[of _ n])

lemma switch_cases:
  assumes "in_step code st"
  obtains (kept) "snd (switch_skill b n st) = st"
  | (switched) "dict_get (sw_registry st) n \<noteq> None" "sw_registry (snd (switch_skill b n st)) = dict_set n b (sw_registry st)"
      "sw_skills (snd (switch_skill b n st)) = update_first (\<lambda>r. sk_name r = n) (\<lambda>r. r\<lparr>sk_is_enabled := b\<rparr>) (sw_skills st)"
      "sw_next (snd (switch_skill b n st)) = sw_next st" "sw_grants (snd (switch_skill b n st)) = sw_grants st"
proof (cases "manager_enabled st \<and> dict_get (sw_registry st) n \<noteq> None")
  case False
  then show ?thesis using that(1) by (auto simp: switch_skill_def set_persistently_def set_enabled_def)
next
  case True
  then have "row_by sk_name n (sw_skills st) \<noteq> None" using in_stepD[OF assms, of n] by (auto simp: flag_def)
  then show ?thesis using True that(2) by (auto simp: switch_skill_def set_persistently_def set_enabled_def persist_skill_enabled_state_def Let_def)
qed

lemma switch_flag:
  assumes "in_step code st"
  shows "flag m (snd (switch_skill b n st)) = flag m st \<or> m = n \<and> flag m (snd (switch_skill b n st)) = Some b"
    "in_step code (snd (switch_skill b n st))" "table_ok st \<Longrightarrow> table_ok (snd (switch_skill b n st))"
proof -
  have flags: "flag k (snd (switch_skill b n st)) = (if k = n then map_option (\<lambda>_. b) (flag k st) else flag k st)"
    if "sw_skills (snd (switch_skill b n st)) = update_first (\<lambda>r. sk_name r = n) (\<lambda>r. r\<lparr>sk_is_enabled := b\<rparr>) (sw_skills st)" for k
    unfolding flag_def that by (auto simp: row_by_edit_first option.map_comp comp_def)
  show "flag m (snd (switch_skill b n st)) = flag m st \<or> m = n \<and> flag m (snd (switch_skill b n st)) = Some b"
  proof (rule switch_cases[OF assms, of b n])
    assume "sw_skills (snd (switch_skill b n st)) = update_first (\<lambda>r. sk_name r = n) (\<lambda>r. r\<lparr>sk_is_enabled := b\<rparr>) (sw_skills st)"
    from flags[OF this, of m] show ?thesis by (cases "flag m st") auto
  qed simp
  show "in_step code (snd (switch_skill b n st))"
  proof (rule switch_cases[OF assms, of b n])
    assume s: "dict_get (sw_registry st) n \<noteq> None" "sw_registry (snd (switch_skill b n st)) = dict_set n b (sw_registry st)"
      "sw_skills (snd (switch_skill b n st)) = update_first (\<lambda>r. sk_name r = n) (\<lambda>r. r\<lparr>sk_is_enabled := b\<rparr>) (sw_skills st)"
    have "flag n st \<noteq> None" using s(1) in_stepD[OF assms, of n] by auto
    then show ?thesis using assms s(1) unfolding in_step_def s(2) flags[OF s(3)] by (auto split: option.splits)
  qed (use assms in simp)
  assume "table_ok st"
  then show "table_ok (snd (switch_skill b n st))"
  proof (rule_tac switch_cases[OF assms, of b n])
    assume s: "table_ok st" "sw_skills (snd (switch_skill b n st)) = update_first (\<lambda>r. sk_name r = n) (\<lambda>r. r\<lparr>sk_is_enabled := b\<rparr>) (sw_skills st)"
      "sw_next (snd (switch_skill b n st)) = sw_next st"
    have m: "map sk_name (sw_skills (snd (switch_skill b n st))) = map sk_name (sw_skills st)" "map sk_id (sw_skills (snd (switch_skill b n st))) = map sk_id (sw_skills st)"
      unfolding s(2) by (simp_all add: map_update_first)
    have "sk_id ` set (sw_skills (snd (switch_skill b n st))) = sk_id ` set (sw_skills st)" using arg_cong[OF m(2), of set] by simp
    then show ?thesis using s(1,3) m unfolding table_ok_def by (metis imageE imageI)
  qed simp
qed

lemma same_tables:
  assumes "sw_skills st' = sw_skills st" "sw_registry st' = sw_registry st" "sw_next st \<le> sw_next st'"
  shows "flag m st' = flag m st" "in_step code st \<Longrightarrow> in_step code st'" "table_ok st \<Longrightarrow> table_ok st'"
proof -
  have flags: "flag k st' = flag k st" for k by (simp add: flag_def assms(1))
  show "flag m st' = flag m st" by (rule flags)
  show "in_step code st \<Longrightarrow> in_step code st'" unfolding in_step_def assms(2) flags .
  show "table_ok st \<Longrightarrow> table_ok st'" using assms(1,3) by (auto simp: table_ok_def)
qed

lemma grant_tables:
  "sw_skills (snd (grant_skill_to_agent env ag n u st)) = sw_skills st" "sw_registry (snd (grant_skill_to_agent env ag n u st)) = sw_registry st"
  "sw_next st \<le> sw_next (snd (grant_skill_to_agent env ag n u st))"
  by (auto simp: grant_skill_to_agent_def Let_def split: option.split)

lemma revoke_tables:
  "sw_skills (snd (revoke_skill_from_agent i st)) = sw_skills st" "sw_registry (snd (revoke_skill_from_agent i st)) = sw_registry st"
  "sw_next st \<le> sw_next (snd (revoke_skill_from_agent i st))"
  by (auto simp: revoke_skill_from_agent_def)

lemma delete_flag:
  assumes "table_ok st"
  shows "flag m (snd (delete_skill i st)) = flag m st \<or> flag m (snd (delete_skill i st)) = Some False"
    "in_step code st \<Longrightarrow> in_step code (snd (delete_skill i st))" "table_ok (snd (delete_skill i st))"
proof -
  have "(flag m (snd (delete_skill i st)) = flag m st \<or> flag m (snd (delete_skill i st)) = Some False)
    \<and> (in_step code st \<longrightarrow> in_step code (snd (delete_skill i st))) \<and> table_ok (snd (delete_skill i st))"
  proof (cases "manager_enabled st \<and> row_by sk_id i (sw_skills st) \<noteq> None")
    case False
    then have "snd (delete_skill i st) = st" by (auto simp: delete_skill_def)
    then show ?thesis using assms by simp
  next
    case True
    then obtain row where row: "row_by sk_id i (sw_skills st) = Some row" by blast
    let ?st = "snd (delete_skill i st)" and ?off = "\<lambda>r. r\<lparr>sk_is_enabled := False\<rparr>"
    have in_table: "row \<in> set (sw_skills st)" "sk_id row = i" using row_by_SomeD[OF row] by simp_all
    have st': "sw_registry ?st = AList.delete (sk_name row) (sw_registry st)" "sw_skills ?st = update_first (\<lambda>r. sk_id r = i) ?off (sw_skills st)"
      "sw_next ?st = sw_next st" using True row by (simp_all add: delete_skill_def unregister_def)
    have names: "distinct (map sk_name (sw_skills st))" "distinct (map sk_id (sw_skills st))" using assms by (simp_all add: table_ok_def)
    have edit: "update_first (\<lambda>r. sk_id r = i) ?off rows = update_first (\<lambda>r. sk_name r = sk_name row) ?off rows"
      if "\<And>r. r \<in> set rows \<Longrightarrow> sk_id r = i \<longleftrightarrow> sk_name r = sk_name row" for rows using that by (induction rows) auto
    have same: "sk_id r = i \<longleftrightarrow> sk_name r = sk_name row" if "r \<in> set (sw_skills st)" for r
      using that in_table names by (auto simp: distinct_map inj_on_def)
    have skills: "sw_skills ?st = update_first (\<lambda>r. sk_name r = sk_name row) ?off (sw_skills st)" unfolding st'(2) by (rule edit[OF same])
    have flags: "flag k ?st = (if k = sk_name row then Some False else flag k st)" for k
      using row_by_distinct[OF names(1) in_table(1)] by (simp add: flag_def skills row_by_edit_first)
    have m: "map sk_name (sw_skills ?st) = map sk_name (sw_skills st)" "map sk_id (sw_skills ?st) = map sk_id (sw_skills st)"
      unfolding skills by (simp_all add: map_update_first)
    have "sk_id ` set (sw_skills ?st) = sk_id ` set (sw_skills st)" using arg_cong[OF m(2), of set] by simp
    then have "table_ok ?st" using assms m st'(3) unfolding table_ok_def by (metis imageE imageI)
    moreover have "in_step code st \<Longrightarrow> in_step code ?st" unfolding in_step_def flags st'(1) by (simp add: delete_conv')
    ultimately show ?thesis using flags by simp
  qed
  then show "flag m (snd (delete_skill i st)) = flag m st \<or> flag m (snd (delete_skill i st)) = Some False"
    "in_step code st \<Longrightarrow> in_step code (snd (delete_skill i st))" "table_ok (snd (delete_skill i st))" by blast+
qed

lemma bootstrap_get: "dict_get (bootstrap code) n = (if n \<in> cs_name ` set code then Some True else None)"
proof -
  have "dict_get (fold (\<lambda>c. register (cs_name c) True) code R) n = (if n \<in> cs_name ` set code then Some True else dict_get R n)" for R
    by (induction code arbitrary: R) (auto simp: register_def)
  then show ?thesis by (simp add: bootstrap_def)
qed

lemma apply_rows_get:
  "distinct (map sk_name rows) \<Longrightarrow> dict_get (apply_rows rows R) n
    = (case dict_get R n of None \<Rightarrow> None | Some b \<Rightarrow> (case row_by sk_name n rows of Some r \<Rightarrow> Some (sk_is_enabled r) | None \<Rightarrow> Some b))"
proof (induction rows arbitrary: R)
  case (Cons r rows)
  let ?R = "case set_enabled (sk_is_enabled r) (sk_name r) R of Some R' \<Rightarrow> R' | None \<Rightarrow> R"
  have later: "row_by sk_name (sk_name r) rows = None" using Cons.prems by (simp add: row_by_None_iff)
  have "dict_get ?R n = (if n = sk_name r \<and> dict_get R n \<noteq> None then Some (sk_is_enabled r) else dict_get R n)"
    by (auto simp: set_enabled_def)
  moreover have "apply_rows (r # rows) R = apply_rows rows ?R" by (simp add: apply_rows_def)
  ultimately show ?case using Cons.IH[of ?R] Cons.prems later by (auto split: option.splits)
qed (simp add: apply_rows_def split: option.split)

lemma insert_missing_rows:
  "\<exists>new. sw_skills (insert_missing existing cs st) = sw_skills st @ new \<and> map sk_name new = filter (\<lambda>n. n \<notin> set existing) (map cs_name cs)
    \<and> (\<forall>r \<in> set new. sk_is_enabled r) \<and> map sk_id new = [sw_next st..<sw_next (insert_missing existing cs st)]
    \<and> sw_next st \<le> sw_next (insert_missing existing cs st) \<and> sw_registry (insert_missing existing cs st) = sw_registry st
    \<and> sw_grants (insert_missing existing cs st) = sw_grants st"
proof (induction cs arbitrary: st)
  case (Cons c cs)
  show ?case
  proof (cases "cs_name c \<in> set existing")
    case True
    then show ?thesis using Cons[of st] by simp
  next
    case False
    define row where "row = \<lparr>sk_id = sw_next st, sk_name = cs_name c, sk_description = cs_description c, sk_schema = cs_schema c,
      sk_version = cs_version c, sk_is_enabled = True\<rparr>"
    let ?st = "st\<lparr>sw_skills := sw_skills st @ [row], sw_next := Suc (sw_next st)\<rparr>"
    obtain new where new: "sw_skills (insert_missing existing cs ?st) = sw_skills ?st @ new" "map sk_name new = filter (\<lambda>n. n \<notin> set existing) (map cs_name cs)"
      "\<forall>r \<in> set new. sk_is_enabled r" "map sk_id new = [sw_next ?st..<sw_next (insert_missing existing cs ?st)]"
      "sw_next ?st \<le> sw_next (insert_missing existing cs ?st)" "sw_registry (insert_missing existing cs ?st) = sw_registry ?st"
      "sw_grants (insert_missing existing cs ?st) = sw_grants ?st" using Cons[of ?st] by blast
    have step: "insert_missing existing (c # cs) st = insert_missing existing cs ?st" using False by (simp add: row_def)
    show ?thesis unfolding step
      by (rule exI[of _ "row # new"]) (use new False in \<open>simp add: row_def upt_conv_Cons del: insert_missing.simps\<close>)
  qed
qed simp

lemma start_process_ok:
  assumes "table_ok st" "distinct (map cs_name code)"
  shows "in_step code (start_process code True st)" "table_ok (start_process code True st)"
    "flag n st \<noteq> None \<Longrightarrow> flag n (start_process code True st) = flag n st" "sw_grants (start_process code True st) = sw_grants st"
proof -
  let ?st = "st\<lparr>sw_registry := bootstrap code\<rparr>" and ?existing = "map sk_name (sw_skills st)"
  let ?st1 = "insert_missing ?existing code ?st"
  obtain new where new: "sw_skills ?st1 = sw_skills st @ new" "map sk_name new = filter (\<lambda>n. n \<notin> set ?existing) (map cs_name code)"
    "\<forall>r \<in> set new. sk_is_enabled r" "map sk_id new = [sw_next st..<sw_next ?st1]" "sw_next st \<le> sw_next ?st1"
    "sw_registry ?st1 = bootstrap code" "sw_grants ?st1 = sw_grants st"
    using insert_missing_rows[of ?existing code ?st] by auto
  have st': "sw_skills (start_process code True st) = sw_skills ?st1" "sw_next (start_process code True st) = sw_next ?st1"
    "sw_registry (start_process code True st) = apply_rows (sw_skills ?st1) (bootstrap code)" "sw_grants (start_process code True st) = sw_grants ?st1"
    using new(6) by (simp_all add: start_process_def sync_registry_with_db_def Let_def)
  have names: "distinct (map sk_name (sw_skills ?st1))"
    using assms new(2) unfolding table_ok_def new(1) by auto
  have ids: "sk_id ` set new = {sw_next st..<sw_next ?st1}" using arg_cong[OF new(4), of set] by simp
  have "distinct (map sk_id (sw_skills ?st1))"
    using assms(1) new(4) ids unfolding table_ok_def new(1) by fastforce
  moreover have "sk_id r < sw_next ?st1" if "r \<in> set (sw_skills ?st1)" for r
  proof (cases "r \<in> set new")
    case True
    then show ?thesis using ids by auto
  next
    case False
    then show ?thesis using assms(1) that new(1,5) by (auto simp: table_ok_def)
  qed
  ultimately show "table_ok (start_process code True st)" using names unfolding table_ok_def st' by blast
  show "flag n st \<noteq> None \<Longrightarrow> flag n (start_process code True st) = flag n st" by (auto simp: flag_def st' new(1))
  show "sw_grants (start_process code True st) = sw_grants st" using st'(4) new(7) by simp
  have known: "row_by sk_name m (sw_skills ?st1) \<noteq> None" if "m \<in> cs_name ` set code" for m
  proof -
    have "sk_name ` set new = {x \<in> cs_name ` set code. x \<notin> set ?existing}" using arg_cong[OF new(2), of set] by simp
    then have "m \<in> sk_name ` set (sw_skills ?st1)" using that by (auto simp: new(1))
    then show ?thesis by (simp only: row_by_None_iff not_not)
  qed
  show "in_step code (start_process code True st)"
    by (auto simp: in_step_def flag_def st'(1,3) apply_rows_get[OF names] bootstrap_get known[OF imageI] split: option.splits)
qed

lemma serve_skill_ok:
  assumes "in_step code st" "table_ok st" "distinct (map cs_name code)"
  shows "in_step code (serve_skill code q st) \<and> table_ok (serve_skill code q st)"
    "flag n st = Some False \<Longrightarrow> q \<noteq> Enable n \<Longrightarrow> flag n (serve_skill code q st) = Some False"
proof -
  show "in_step code (serve_skill code q st) \<and> table_ok (serve_skill code q st)"
    using assms same_tables(2)[OF grant_tables, of code] same_tables(3)[OF grant_tables] same_tables(2)[OF revoke_tables, of code]
      same_tables(3)[OF revoke_tables] switch_flag(2,3)[OF assms(1)] delete_flag(2)[OF assms(2), of code] delete_flag(3)[OF assms(2)] start_process_ok(1,2)[OF assms(2,3)]
    by (cases q) (simp_all add: enable_skill_def disable_skill_def)
  show "flag n st = Some False \<Longrightarrow> q \<noteq> Enable n \<Longrightarrow> flag n (serve_skill code q st) = Some False"
    using assms same_tables(1)[OF grant_tables] same_tables(1)[OF revoke_tables]
      switch_flag(1)[OF assms(1), of n] delete_flag(1)[OF assms(2), of n] start_process_ok(3)[OF assms(2,3), of n]
    by (cases q) (auto simp: enable_skill_def disable_skill_def, (metis option.inject)+)
qed

lemma serve_skills_ok:
  "in_step code st \<Longrightarrow> table_ok st \<Longrightarrow> distinct (map cs_name code) \<Longrightarrow> in_step code (serve_skills code qs st) \<and> table_ok (serve_skills code qs st)
    \<and> (flag n st = Some False \<and> Enable n \<notin> set qs \<longrightarrow> flag n (serve_skills code qs st) = Some False)"
proof (induction qs arbitrary: st)
  case (Cons q qs)
  note one = serve_skill_ok(1)[OF Cons.prems, of q] serve_skill_ok(2)[OF Cons.prems, of n q]
  have "serve_skills code (q # qs) st = serve_skills code qs (serve_skill code q st)" by (simp add: serve_skills_def)
  then show ?case using Cons.IH[of "serve_skill code q st"] one Cons.prems(3) by auto
qed (simp add: serve_skills_def)

section \<open>What the administration guarantees\<close>


text \<open>Running a skill is governed by the tables: after any history a named agent can run a skill of the code exactly when the
  skill is registered, its row is enabled and the agent holds a grant for that row; a skill the code does not have cannot be run
  at all.\<close>
theorem skill_use_is_governed:
  assumes "in_step code st" and "table_ok st" and "distinct (map cs_name code)" and "st' = serve_skills code qs st"
  shows "execute_skill run n (Some ag) st' = Inr (run n) \<longleftrightarrow> n \<in> cs_name ` set code \<and> dict_get (sw_registry st') n \<noteq> None
    \<and> (\<exists>r \<in> set (sw_skills st'). sk_name r = n \<and> sk_is_enabled r \<and> (\<exists>g \<in> set (sw_grants st'). gr_agent g = ag \<and> gr_skill_id g = sk_id r))"
proof -
  have ok: "in_step code st'" "table_ok st'" using serve_skills_ok[OF assms(1-3), of qs] assms(4) by auto
  have names: "distinct (map sk_name (sw_skills st'))" using ok(2) by (simp add: table_ok_def)
  have run: "execute_skill run n (Some ag) st' = Inr (run n) \<longleftrightarrow> dict_get (sw_registry st') n = Some True \<and> has_grant ag n st'"
    by (auto simp: execute_skill_def get_skill_impl_def split: option.split bool.split)
  show ?thesis
  proof (cases "dict_get (sw_registry st') n")
    case None
    then show ?thesis using run by simp
  next
    case (Some b)
    have code: "n \<in> cs_name ` set code" using ok(1) Some unfolding in_step_def by (metis option.distinct(1))
    obtain r where r: "row_by sk_name n (sw_skills st') = Some r" "sk_is_enabled r = b"
      using in_stepD[OF ok(1) Some] by (auto simp: flag_def)
    have only: "(\<exists>x \<in> set (sw_skills st'). sk_name x = n \<and> P x) \<longleftrightarrow> P r" for P
      using row_by_SomeD[OF r(1)] row_by_distinct[OF names] r(1) by (metis option.inject)
    have "has_grant ag n st' \<longleftrightarrow> (\<exists>g \<in> set (sw_grants st'). gr_agent g = ag \<and> gr_skill_id g = sk_id r)"
      by (simp add: has_grant_def r(1) list_ex_iff)
    then show ?thesis using run Some code r(2) by (simp add: only)
  qed
qed

text \<open>A restart while the database is out of reach switches everything on: every skill of the code can be run by a caller that
  names no agent, also the disabled and the deleted ones, although their rows still say otherwise.\<close>
theorem outage_at_start_enables_everything:
  assumes "n \<in> cs_name ` set code"
  shows "execute_skill run n None (start_process code False st) = Inr (run n) \<and> flag n (start_process code False st) = flag n st"
  using assms by (simp add: execute_skill_def get_skill_impl_def start_process_def bootstrap_get flag_def)

section \<open>Witnesses\<close>

definition sample_code :: "code_skill list" where
  "sample_code = [\<lparr>cs_name = ''run_linter'', cs_description = [], cs_schema = JNull, cs_version = ''1.0.0''\<rparr>,
     \<lparr>cs_name = ''notify_omni_channel'', cs_description = [], cs_schema = JNull, cs_version = ''1.3.0''\<rparr>]"

definition sample_skills :: skill_state where
  "sample_skills = \<lparr>sw_db = empty_db,
     sw_skills = [\<lparr>sk_id = 0, sk_name = ''run_linter'', sk_description = [], sk_schema = JNull, sk_version = ''1.0.0'', sk_is_enabled = True\<rparr>,
       \<lparr>sk_id = 1, sk_name = ''notify_omni_channel'', sk_description = [], sk_schema = JNull, sk_version = ''1.3.0'', sk_is_enabled = False\<rparr>],
     sw_grants = [\<lparr>gr_id = 2, gr_agent = ''python_validator'', gr_skill_id = 0, gr_by = 1, gr_at = 0\<rparr>],
     sw_registry = [(''run_linter'', True), (''notify_omni_channel'', False)], sw_next = 3\<rparr>"

lemma sample_skills_ok: "in_step sample_code sample_skills" "table_ok sample_skills" "distinct (map cs_name sample_code)"
  "flag ''notify_omni_channel'' sample_skills = Some False" "''notify_omni_channel'' \<in> cs_name ` set sample_code"
  by (auto simp: in_step_def sample_code_def sample_skills_def table_ok_def flag_def)


lemma skill_use_is_governed_witness:
  "execute_skill hd ''run_linter'' (Some ''python_validator'') (serve_skills sample_code [] sample_skills) = Inr (hd ''run_linter'')
    \<and> execute_skill hd ''run_linter'' (Some ''ceo_agent'') (serve_skills sample_code [] sample_skills) \<noteq> Inr (hd ''run_linter'')"
proof -
  note governed = skill_use_is_governed[OF sample_skills_ok(1-3) refl, of hd "''run_linter''" _ "[]"]
  have st: "serve_skills sample_code [] sample_skills = sample_skills" by (simp add: serve_skills_def)
  have grants: "(\<exists>r \<in> set (sw_skills sample_skills). sk_name r = ''run_linter'' \<and> sk_is_enabled r \<and> (\<exists>g \<in> set (sw_grants sample_skills). gr_agent g = ag \<and> gr_skill_id g = sk_id r))
      \<longleftrightarrow> ag = ''python_validator''" for ag
    by (auto simp: sample_skills_def)
  have known: "''run_linter'' \<in> cs_name ` set sample_code" "dict_get (sw_registry sample_skills) ''run_linter'' \<noteq> None"
    by (simp_all add: sample_code_def sample_skills_def)
  show ?thesis using governed[of "''python_validator''"] governed[of "''ceo_agent''"] unfolding st grants using known by blast
qed

lemma outage_at_start_enables_everything_witness:
  "execute_skill length ''notify_omni_channel'' None (start_process sample_code False sample_skills) = Inr (length ''notify_omni_channel'')
    \<and> flag ''notify_omni_channel'' (start_process sample_code False sample_skills) = Some False"
  using outage_at_start_enables_everything[OF sample_skills_ok(5), of length sample_skills] sample_skills_ok(4) by simp

end
