(* ===== verification/Spec2Isabelle.thy ===== *)
theory Spec2Isabelle
  imports PlanPersist SchedulerLoop TaskLife OrderDesk DailyJob GoLive Suggestions ScheduledJobs Backtests RiskLimits Gateway AgentSettings SafetyCheck Skills
begin

text \<open>TradingOS.\<close>

section \<open>The organisation as a whole\<close>

text \<open>One operation of any service, with the clock and the outside answers it sees. The type
  \<^typ>\<open>'w\<close> is the state of the outside world (broker, feeds): it is arbitrary, and one type serves every operation.\<close>
inductive org_step :: "'w itself \<Rightarrow> env \<Rightarrow> db \<Rightarrow> db \<Rightarrow> bool" for W :: "'w itself" and env where
  org_create: "org_step W env d (snd (snd (create_run env objective source requested_by tenant autostart d)))"
| org_plan: "plan_run fuel env propose rid d = Some d' \<Longrightarrow> org_step W env d d'"
| org_loop: "run_scheduler_loop fuel env rid d = Some d' \<Longrightarrow> org_step W env d d'"
| org_engine: "engine_step env ev (d, fl) (d', fl') \<Longrightarrow> org_step W env d d'"
| org_promote: "org_step W env d (snd (promote_queued env d))"
| org_reap: "org_step W env d (snd (snd (reap_incomplete_runs env d)))"
| org_resume: "resume_reaped_run fuel env propose rid d = Some d' \<Longrightarrow> org_step W env d d'"
| org_stalled: "org_step W env d (snd (check_stalled_runs env d))"
| org_gate: "gate_step env d d' \<Longrightarrow> org_step W env d d'"
| org_switch: "org_step W env d (snd (set_agent_enabled env nm enabled reason user d))"
| org_signal: "execute_signal env ag clock sleep broker q account strategy (d, w :: 'w) = (res, (d', w')) \<Longrightarrow> org_step W env d d'"
| org_trip: "trip_service env reason actor (service, d) = (res, (service', d')) \<Longrightarrow> org_step W env d d'"
| org_rearm: "reset_service env actor (service, d) = (service', d') \<Longrightarrow> org_step W env d d'"
| org_order: "place_order env pc b user (dk :: 'w desk) = (res, dk') \<Longrightarrow> org_step W env (dk_db dk) (dk_db dk')"
| org_cancel: "cancel_order env pc oid user (dk :: 'w desk) = (res, dk') \<Longrightarrow> org_step W env (dk_db dk) (dk_db dk')"
| org_close: "close_position env pc x c user (dk :: 'w desk) = (res, dk') \<Longrightarrow> org_step W env (dk_db dk) (dk_db dk')"
| org_ingest: "org_step W env d (snd (snd (record_ingestion_result env nm success checksum_ok has_data detail d)))"

text \<open>A history: every operation at its own time, under the same hash and float printer.\<close>
inductive org_history :: "'w itself \<Rightarrow> (string \<Rightarrow> string) \<Rightarrow> (real \<Rightarrow> string) \<Rightarrow> db \<Rightarrow> db \<Rightarrow> bool"
  for W :: "'w itself" and sha flt where
  org_start: "org_history W sha flt d d"
| org_next: "org_history W sha flt d d1 \<Longrightarrow> e_sha256 env = sha \<Longrightarrow> e_float_repr env = flt \<Longrightarrow> org_step W env d1 d2 \<Longrightarrow>
    org_history W sha flt d d2"

lemma engine_step_conserves: "engine_step env ev s s' \<Longrightarrow> conserves env (fst s) (fst s')"
  by (induction rule: engine_step.induct)
    (auto intro: ready_tasks_conserves claim_conserves run_dispatch_conserves timeout_conserves
      finalize_conserves cancel_run_conserves)

lemma gate_step_conserves: "gate_step env d d' \<Longrightarrow> conserves env d d'"
  by (induction rule: gate_step.induct)
    (auto intro: decision_conserves recommendation_conserves promote_strategy_conserves)

lemma switch_conserves: "conserves env d (snd (set_agent_enabled env nm en rs u d))"
  by (rule conserves_same) (simp_all add: set_agent_enabled_def Let_def split: option.split)

lemma ingestion_conserves: "conserves env d (snd (snd (record_ingestion_result env nm s c h dt d)))"
proof -
  have "conserves env d (snd (get_or_create env nm d))"
    by (rule conserves_same) (auto simp: get_or_create_def Let_def split: option.split prod.split)
  then show ?thesis
    unfolding record_ingestion_result_def Let_def case_prod_unfold snd_conv by (rule conserves_insert) simp_all
qed

lemma signal_conserves:
  assumes "execute_signal env ag clock sleep broker q account strategy (d, w) = (res, (d', w'))"
  shows "conserves env d d'"
proof -
  have same: "conserves (env\<lparr>e_now := t\<rparr>) = conserves env" for t by (intro ext) (simp add: conserves_def)
  have "d' = d \<or> (\<exists>t r l. d' = create_order_row (env\<lparr>e_now := t\<rparr>) r account strategy l d)"
    using assms by (auto simp: execute_signal_def Let_def split: if_splits sum.splits prod.splits)
  then show ?thesis using create_order_row_conserves[of "env\<lparr>e_now := _\<rparr>"] by (auto simp: same)
qed

lemma service_conserves:
  "trip_service env reason actor (service, d) = (res, (service', d')) \<Longrightarrow> conserves env d d'"
  "reset_service env actor (service, d) = (service', d') \<Longrightarrow> conserves env d d'"
  using trip_service_conserves[of env d reason actor service]
  by (auto simp: reset_service_def intro: conserves_write_audit)

lemma compliance_conserves: "conserves env d (snd (compliance_pre_trade_check fmt env s d))"
  by (simp add: compliance_pre_trade_check_def Let_def conserves_write_audit)

lemma paper_order_conserves: "conserves env (dk_db dk) (dk_db (snd (place_paper env pc b u s dk)))"
proof -
  have "conserves env d (snd (write_audit_entry env c (d\<lparr>db_next_id := Suc (db_next_id d)\<rparr>)))" for c and d :: db
    by (rule conserves_write_audit, rule conserves_same) simp_all
  then show ?thesis
    by (auto simp: place_paper_def Let_def split: option.split sum.split prod.split paper_error.split)
qed

lemma live_order_conserves: "conserves env (dk_db dk) (dk_db (snd (place_live env pc b u s dk)))"
proof -
  obtain a dk1 where acc: "get_or_create_live_account dk = (a, dk1)" by fastforce
  then have "conserves env (dk_db dk) (dk_db dk1)"
    by (auto simp: get_or_create_live_account_def Let_def intro!: conserves_same split: option.splits)
  then have "conserves env (dk_db dk) (snd (write_audit_entry env c ((dk_db dk1)\<lparr>db_orders := os, db_next_id := Suc (db_next_id (dk_db dk1))\<rparr>)))"
    for c os by (intro conserves_write_audit) (erule conserves_insert, simp_all)
  then show ?thesis by (auto simp: place_live_def acc Let_def split: option.split sum.split prod.split)
qed

lemma place_order_conserves: "conserves env (dk_db dk) (dk_db (snd (place_order env pc b u dk)))"
proof -
  have after: "conserves env (dk_db dk) (dk_db (snd (place_paper env pc b u s (dk\<lparr>dk_db := d1\<rparr>))))"
    "conserves env (dk_db dk) (dk_db (snd (place_live env pc b u s (dk\<lparr>dk_db := d1\<rparr>))))"
    if "conserves env (dk_db dk) d1" for s d1
    using that paper_order_conserves[of env "dk\<lparr>dk_db := d1\<rparr>"] live_order_conserves[of env "dk\<lparr>dk_db := d1\<rparr>"]
    by (auto elim: conserves_trans)
  have c: "conserves env (dk_db dk) d1" if "compliance_pre_trade_check fmt env s (dk_db dk) = (r, d1)" for fmt s r d1
    using compliance_conserves[of env "dk_db dk" fmt s] that by simp
  show ?thesis using after by (auto simp: place_order_def dest: c split: option.split sum.split prod.split)
qed

lemma cancel_order_conserves: "conserves env (dk_db dk) (dk_db (snd (cancel_order env pc oid u dk)))"
proof -
  have "conserves env d (snd (write_audit_entry env c (d\<lparr>db_orders := os\<rparr>)))" for c os and d :: db
    by (rule conserves_write_audit, rule conserves_same) simp_all
  then show ?thesis by (auto simp: cancel_order_def Let_def split: option.split sum.split prod.split)
qed

lemma close_position_conserves: "conserves env (dk_db dk) (dk_db (snd (close_position env pc x c u dk)))"
proof -
  have "conserves env (dk_db dk) (dk_db (snd (close_order env pc x c n u dk)))"
    "conserves env (dk_db dk) (dk_db (snd (close_order env pc x c n u (dk\<lparr>dk_world := w\<rparr>))))" for n w
    using place_order_conserves[of env dk] place_order_conserves[of env "dk\<lparr>dk_world := w\<rparr>"] by (simp_all add: close_order_def)
  then show ?thesis
    by (auto simp: close_position_def split: option.split sum.split prod.split adapter_error.split broker_error.split)
qed

lemma org_step_conserves: "org_step W env d d' \<Longrightarrow> conserves env d d'"
proof (induction rule: org_step.induct)
  case (org_engine ev d fl d' fl')
  then show ?case using engine_step_conserves by fastforce
next
  case (org_order pc b user dk res dk')
  then show ?case using place_order_conserves[of env dk pc b user] by simp
next
  case (org_cancel pc oid user dk res dk')
  then show ?case using cancel_order_conserves[of env dk pc oid user] by simp
next
  case (org_close pc x c user dk res dk')
  then show ?case using close_position_conserves[of env dk pc x c user] by simp
qed (auto dest: signal_conserves service_conserves intro: create_run_conserves plan_run_conserves run_scheduler_loop_conserves promote_queued_conserves
    reap_conserves resume_conserves check_stalled_runs_conserves gate_step_conserves switch_conserves ingestion_conserves)

text \<open>C1. The record survives everything the organisation does. After any history of run admissions,
  planning, scheduling, interleaved engine transactions, promotions, recoveries, cancellations,
  approvals, agent switches, data ingestions, executed signals, emergency stops and orders by hand, the audit log and the event log extend what was
  there before, the audit chain verifies if it verified before, and every run's events are still
  numbered without a gap.\<close>
theorem records_survive:
  assumes "org_history W sha flt d d'"
    and "cvr_valid (verify_chain sha flt (db_audit d))" and "gapfree (db_events d)"
  shows "cvr_valid (verify_chain sha flt (db_audit d')) \<and> gapfree (db_events d')
    \<and> prefix (db_audit d) (db_audit d') \<and> prefix (db_events d) (db_events d')"
  using assms
proof (induction rule: org_history.induct)
  case (org_next d d1 env d2)
  have "conserves env d1 d2" by (rule org_step_conserves[OF org_next.hyps(4)])
  then show ?case using org_next
    by (auto simp: conserves_def verify_chain_iff intro: prefix_order.trans)
qed simp

theorem records_survive_witness:
  "let d' = snd (snd (create_run sample_env ''study'' SRC_SCHEDULE None 1 False empty_db)) in
     cvr_valid (verify_chain (e_sha256 sample_env) (e_float_repr sample_env) (db_audit d')) \<and> gapfree (db_events d')
     \<and> db_events d' \<noteq> []"
proof -
  let ?d = "snd (snd (create_run sample_env ''study'' SRC_SCHEDULE None 1 False empty_db))"
  have "org_history TYPE(unit) (e_sha256 sample_env) (e_float_repr sample_env) empty_db ?d"
    by (rule org_next[OF org_start refl refl org_create])
  moreover have "db_audit empty_db = []" "db_events empty_db = []" by (simp_all add: empty_db_def)
  moreover have "db_events ?d \<noteq> []" by (simp add: create_run_def Let_def emit_events)
  ultimately show ?thesis
    using records_survive[of "TYPE(unit)" "e_sha256 sample_env" "e_float_repr sample_env" empty_db ?d]
    by (simp add: Let_def verify_chain_iff)
qed

end
